(* ===== verification/Prelude.thy ===== *)
theory Prelude
  imports Main "HOL-Library.Char_ord" "HOL-Library.List_Lexorder"
begin

text \<open>
  Shared vocabulary of the development: Go's 64-bit integers, decimal printing and parsing
  (\<^verbatim>\<open>strconv.Itoa\<close>, \<^verbatim>\<open>strconv.Atoi\<close>), the functions of package
  \<^verbatim>\<open>strings\<close> the sources call, and Go maps.

  Conventions used by every theory:
  \<^item> a Go string is a list of bytes, so it is a \<open>string\<close>; case and white-space functions
    are given on ASCII, which is what the sources pass to them;
  \<^item> a Go \<^verbatim>\<open>int\<close>, \<^verbatim>\<open>int64\<close> or \<^verbatim>\<open>time.Duration\<close> is an \<open>int\<close> kept
    in the signed 64-bit range by \<open>int64\<close> at the operations that can leave it;
  \<^item> a Go map is an association list with distinct keys; the order of the list is the
    iteration order the runtime happened to choose, so a lemma about every list is a lemma
    about every iteration order.
\<close>

named_theorems go_string_simps \<open>unfolding rules for the string functions\<close>

subsection \<open>Signed 64-bit integers\<close>

definition int64 :: "int \<Rightarrow> int" where
  "int64 x = (x + 2 ^ 63) mod 2 ^ 64 - 2 ^ 63"

definition in_int64 :: "int \<Rightarrow> bool" where
  "in_int64 x \<longleftrightarrow> - (2 ^ 63) \<le> x \<and> x < 2 ^ 63"

lemma int64_range [simp]: "in_int64 (int64 x)"
  by (simp add: in_int64_def int64_def)

lemma int64_id: "in_int64 x \<Longrightarrow> int64 x = x"
  by (simp add: in_int64_def int64_def)

lemma int64_idem [simp]: "int64 (int64 x) = int64 x"
  by (rule int64_id) simp

text \<open>\<^verbatim>\<open>time.Time.Sub\<close> saturates at the ends of the \<^verbatim>\<open>Duration\<close> range.\<close>

definition time_Sub :: "int \<Rightarrow> int \<Rightarrow> int" where
  "time_Sub t u = max (- (2 ^ 63)) (min (2 ^ 63 - 1) (t - u))"

lemma time_Sub_ge: "in_int64 d \<Longrightarrow> d \<le> time_Sub t u \<longleftrightarrow> d = - (2 ^ 63) \<or> d \<le> t - u"
  by (auto simp: time_Sub_def in_int64_def)

lemma time_Sub_ge_pos: "in_int64 d \<Longrightarrow> 0 < d \<Longrightarrow> d \<le> time_Sub t u \<longleftrightarrow> d \<le> t - u"
  by (auto simp: time_Sub_def in_int64_def)

subsection \<open>Decimal printing and parsing\<close>

definition digit_char :: "nat \<Rightarrow> char" where
  "digit_char d = char_of (48 + d)"

definition is_digit :: "char \<Rightarrow> bool" where
  "is_digit c \<longleftrightarrow> 48 \<le> (of_char c :: nat) \<and> (of_char c :: nat) \<le> 57"

fun nat_digits :: "nat \<Rightarrow> string" where
  "nat_digits n = (if n < 10 then [digit_char n] else nat_digits (n div 10) @ [digit_char (n mod 10)])"

declare nat_digits.simps [simp del]

definition itoa :: "int \<Rightarrow> string" where
  "itoa i = (if i < 0 then ''-'' @ nat_digits (nat (- i)) else nat_digits (nat i))"

fun parse_digits :: "nat \<Rightarrow> string \<Rightarrow> nat option" where
  "parse_digits acc [] = Some acc"
| "parse_digits acc (c # cs) =
     (if is_digit c then parse_digits (10 * acc + (of_char c - 48)) cs else None)"

definition parse_uint :: "string \<Rightarrow> nat option" where
  "parse_uint s = (if s = [] then None else parse_digits 0 s)"

text \<open>\<^verbatim>\<open>strconv.Atoi\<close>: an optional sign, at least one digit, nothing else, and the value must
  fit 64 bits; every other input is an error (\<open>None\<close>).\<close>

definition Atoi :: "string \<Rightarrow> int option" where
  "Atoi s =
     (let signed = (\<lambda>sgn r. case parse_uint r of None \<Rightarrow> None
                      | Some n \<Rightarrow> (if in_int64 (sgn * int n) then Some (sgn * int n) else None))
      in case s of [] \<Rightarrow> None
       | c # r \<Rightarrow> (if c = CHR ''-'' then signed (- 1) r
                   else if c = CHR ''+'' then signed 1 r
                   else signed 1 s))"

lemma of_char_digit_char [simp]: "d < 10 \<Longrightarrow> (of_char (digit_char d) :: nat) = 48 + d"
  by (simp add: digit_char_def)

lemma is_digit_digit_char [simp]: "d < 10 \<Longrightarrow> is_digit (digit_char d)"
  by (simp add: is_digit_def)

lemma parse_digits_append:
  "parse_digits acc (xs @ ys) =
     (case parse_digits acc xs of None \<Rightarrow> None | Some a \<Rightarrow> parse_digits a ys)"
  by (induction xs arbitrary: acc) auto

lemma nat_digits_nonempty [simp]: "nat_digits n \<noteq> []"
  by (subst nat_digits.simps) simp

lemma nat_digits_all_digits: "c \<in> set (nat_digits n) \<Longrightarrow> is_digit c"
proof (induction n rule: nat_digits.induct)
  case (1 n)
  then show ?case
    by (cases "n < 10") (auto simp: nat_digits.simps [of n])
qed

lemma parse_digits_nat_digits: "parse_digits 0 (nat_digits n) = Some n"
proof (induction n rule: nat_digits.induct)
  case (1 n)
  show ?case
  proof (cases "n < 10")
    case True
    then show ?thesis by (simp add: nat_digits.simps [of n])
  next
    case False
    then have "parse_digits 0 (nat_digits (n div 10)) = Some (n div 10)"
      using 1 by simp
    then show ?thesis
      using False by (simp add: nat_digits.simps [of n] parse_digits_append)
  qed
qed

lemma parse_uint_nat_digits [simp]: "parse_uint (nat_digits n) = Some n"
  by (simp add: parse_uint_def parse_digits_nat_digits)

lemma nat_digits_inj: "nat_digits m = nat_digits n \<longleftrightarrow> m = n"
  by (metis option.inject parse_uint_nat_digits)

lemma nat_digits_no_sign:
  assumes "nat_digits n = c # r"
  shows "c \<noteq> CHR ''-''" and "c \<noteq> CHR ''+''"
proof -
  have "is_digit c"
    using nat_digits_all_digits [of c n] assms by simp
  then show "c \<noteq> CHR ''-''" and "c \<noteq> CHR ''+''"
    by (auto simp: is_digit_def)
qed

text \<open>Printing and parsing are inverse on every 64-bit value.\<close>

lemma Atoi_itoa [simp]:
  assumes "in_int64 i"
  shows "Atoi (itoa i) = Some i"
proof (cases "i < 0")
  case True
  then show ?thesis
    using assms by (simp add: itoa_def Atoi_def Let_def)
next
  case False
  obtain c r where d: "nat_digits (nat i) = c # r"
    by (cases "nat_digits (nat i)") auto
  have "c \<noteq> CHR ''-''" and "c \<noteq> CHR ''+''"
    by (rule nat_digits_no_sign [OF d])+
  moreover have "parse_uint (c # r) = Some (nat i)"
    by (simp flip: d)
  ultimately show ?thesis
    using False assms by (simp add: itoa_def Atoi_def Let_def d)
qed

lemma Atoi_range: "Atoi s = Some i \<Longrightarrow> in_int64 i"
  by (auto simp: Atoi_def Let_def split: list.splits if_splits option.splits)

subsection \<open>Package strings\<close>

fun strings_Join :: "string list \<Rightarrow> string \<Rightarrow> string" where
  "strings_Join [] sep = []"
| "strings_Join [x] sep = x"
| "strings_Join (x # y # ys) sep = x @ sep @ strings_Join (y # ys) sep"

fun split_on :: "char \<Rightarrow> string \<Rightarrow> string list" where
  "split_on c [] = [[]]"
| "split_on c (x # xs) =
     (if x = c then [] # split_on c xs
      else (case split_on c xs of [] \<Rightarrow> [[x]] | p # ps \<Rightarrow> (x # p) # ps))"

text \<open>\<^verbatim>\<open>strings.SplitN(s, sep, 2)\<close> for a one-byte separator: \<open>None\<close> when it is absent.\<close>

fun cut_at :: "char \<Rightarrow> string \<Rightarrow> (string \<times> string) option" where
  "cut_at c [] = None"
| "cut_at c (x # xs) =
     (if x = c then Some ([], xs) else map_option (\<lambda>(a, b). (x # a, b)) (cut_at c xs))"

definition is_space :: "char \<Rightarrow> bool" where
  "is_space c \<longleftrightarrow> (of_char c :: nat) \<in> {9, 10, 11, 12, 13, 32}"

definition TrimSpace :: "string \<Rightarrow> string" where
  "TrimSpace s = rev (dropWhile is_space (rev (dropWhile is_space s)))"

definition lower_char :: "char \<Rightarrow> char" where
  "lower_char c =
     (let n = (of_char c :: nat) in if 65 \<le> n \<and> n \<le> 90 then char_of (n + 32) else c)"

definition ToLower :: "string \<Rightarrow> string" where
  "ToLower s = map lower_char s"

definition EqualFold :: "string \<Rightarrow> string \<Rightarrow> bool" where
  "EqualFold s t \<longleftrightarrow> ToLower s = ToLower t"

definition HasPrefix :: "string \<Rightarrow> string \<Rightarrow> bool" where
  "HasPrefix s p \<longleftrightarrow> take (length p) s = p"

lemmas string_defs [go_string_simps] =
  is_space_def TrimSpace_def lower_char_def ToLower_def EqualFold_def HasPrefix_def

lemma sort_Nil_iff: "sort xs = [] \<longleftrightarrow> xs = []"
  by (metis length_0_conv length_sort)

lemma split_on_nonempty [simp]: "split_on c s \<noteq> []"
  by (induction s) (auto split: list.splits)

lemma Join_split_on [simp]: "strings_Join (split_on c s) [c] = s"
proof (induction s)
  case Nil
  show ?case by simp
next
  case (Cons x xs)
  then show ?case
    by (cases "split_on c xs"; cases "tl (split_on c xs)") auto
qed

lemma split_on_no_sep: "p \<in> set (split_on c s) \<Longrightarrow> c \<notin> set p"
  by (induction s arbitrary: p) (auto split: list.splits if_splits)

lemma split_on_absent: "c \<notin> set s \<Longrightarrow> split_on c s = [s]"
  by (induction s) auto

lemma split_on_append: "c \<notin> set p \<Longrightarrow> split_on c (p @ c # s) = p # split_on c s"
  by (induction p) auto

lemma split_on_Join:
  assumes "xs \<noteq> []" and "\<And>x. x \<in> set xs \<Longrightarrow> c \<notin> set x"
  shows "split_on c (strings_Join xs [c]) = xs"
  using assms by (induction xs "[c]" rule: strings_Join.induct) (auto simp: split_on_absent split_on_append)

lemma cut_at_append [simp]: "c \<notin> set a \<Longrightarrow> cut_at c (a @ c # b) = Some (a, b)"
  by (induction a) auto

lemma cut_at_Some: "cut_at c s = Some (a, b) \<Longrightarrow> s = a @ c # b \<and> c \<notin> set a"
  by (induction s arbitrary: a) (auto split: if_splits)

lemma cut_at_None: "cut_at c s = None \<longleftrightarrow> c \<notin> set s"
  by (induction s) auto

subsection \<open>Go maps as association lists\<close>

definition map_keys :: "('k \<times> 'v) list \<Rightarrow> 'k list" where
  "map_keys m = map fst m"

definition gomap :: "('k \<times> 'v) list \<Rightarrow> bool" where
  "gomap m \<longleftrightarrow> distinct (map fst m)"

fun map_put :: "'k \<Rightarrow> 'v \<Rightarrow> ('k \<times> 'v) list \<Rightarrow> ('k \<times> 'v) list" where
  "map_put k v [] = [(k, v)]"
| "map_put k v ((k', v') # m) = (if k = k' then (k, v) # m else (k', v') # map_put k v m)"

definition map_del :: "'k \<Rightarrow> ('k \<times> 'v) list \<Rightarrow> ('k \<times> 'v) list" where
  "map_del k m = filter (\<lambda>p. fst p \<noteq> k) m"

lemma map_of_map_put [simp]: "map_of (map_put k v m) = (map_of m)(k \<mapsto> v)"
  by (induction m) (auto simp: fun_eq_iff)

lemma keys_map_put [simp]: "set (map fst (map_put k v m)) = insert k (set (map fst m))"
  by (induction k v m rule: map_put.induct) (simp_all add: insert_commute)

lemma gomap_Nil [simp]: "gomap []"
  by (simp add: gomap_def)

lemma gomap_map_put [simp]: "gomap m \<Longrightarrow> gomap (map_put k v m)"
  unfolding gomap_def
proof (induction m)
  case (Cons p m)
  then show ?case
    using keys_map_put [of k v m] by (cases p) (auto simp del: keys_map_put set_map)
qed simp

lemma map_of_map_del [simp]: "map_of (map_del k m) = (map_of m)(k := None)"
  by (induction m) (auto simp: map_del_def fun_eq_iff)

lemma gomap_map_del [simp]: "gomap m \<Longrightarrow> gomap (map_del k m)"
  by (auto simp: gomap_def map_del_def distinct_map_filter)

lemma gomap_perm_map_of:
  assumes "gomap m" and "set m = set m'" and "gomap m'"
  shows "map_of m = map_of m'"
  using assms by (metis gomap_def map_of_inject_set)

lemma sorted_map_keys_unique:
  assumes "gomap m" and "gomap m'" and "set m = set m'"
  shows "sort (map fst m) = sort (map fst (m' :: ('k :: linorder \<times> 'v) list))"
  using assms unfolding gomap_def by (metis sorted_list_of_set_sort_remdups set_map distinct_remdups_id)

text \<open>\<^verbatim>\<open>%q\<close> on printable ASCII without quotes and backslashes.\<close>

definition go_quote :: "string \<Rightarrow> string" where
  "go_quote s = [CHR 0x22] @ s @ [CHR 0x22]"

end
