(* ===== verification/DxErrors.thy ===== *)
theory DxErrors
  imports Prelude
begin

text \<open>
  Package \<^verbatim>\<open>errors\<close>: Go error values with their unwrap chains, the \<^verbatim>\<open>DxError\<close>
  taxonomy (codes, HTTP statuses, URNs, titles), the translation of PostgreSQL errors and the
  helpers that write an error response.

  An error value is a term of \<open>goerr\<close>. Its constructors are the concrete error types the
  sources inspect; every other error is \<open>Opaque\<close> with its text, and
  \<^verbatim>\<open>fmt.Errorf("pre %w post", e)\<close> is \<open>Errorf pre e post\<close>. A nil \<^verbatim>\<open>error\<close> is
  \<open>None\<close> of \<open>goerr option\<close>.
\<close>

subsection \<open>Error values and their chains\<close>

datatype goerr =
    BaseDxError (dx_code: string) (dx_message: string) (dx_details: "string list") (dx_cause: "goerr option")
  | PgError (pg_Code: string) (pg_Detail: string) (pg_ColumnName: string) (pg_ConstraintName: string)
  | ErrNoRows
  | Canceled
  | DeadlineExceeded
  | ErrOpen
  | ErrClosed
  | GrpcStatus nat string
  | Opaque string
  | Errorf string goerr string

fun Unwrap :: "goerr \<Rightarrow> goerr option" where
  "Unwrap (BaseDxError c m d cause) = cause"
| "Unwrap (Errorf p e s) = Some e"
| "Unwrap _ = None"

fun err_chain :: "goerr \<Rightarrow> goerr list" where
  "err_chain (BaseDxError c m d None) = [BaseDxError c m d None]"
| "err_chain (BaseDxError c m d (Some e)) = BaseDxError c m d (Some e) # err_chain e"
| "err_chain (Errorf p e s) = Errorf p e s # err_chain e"
| "err_chain e = [e]"

text \<open>A call whose error is wrapped with \<^verbatim>\<open>fmt.Errorf("...: %w", err)\<close> on the way out.\<close>

definition wrap_err :: "string \<Rightarrow> 's \<times> goerr option \<Rightarrow> 's \<times> goerr option" where
  "wrap_err pre x = (fst x, map_option (\<lambda>e. Errorf pre e []) (snd x))"

definition errors_Is :: "goerr \<Rightarrow> goerr \<Rightarrow> bool" where
  "errors_Is e target \<longleftrightarrow> target \<in> set (err_chain e)"

definition errors_Is_opt :: "goerr option \<Rightarrow> goerr \<Rightarrow> bool" where
  "errors_Is_opt e target \<longleftrightarrow> (case e of None \<Rightarrow> False | Some x \<Rightarrow> errors_Is x target)"

definition is_dx :: "goerr \<Rightarrow> bool" where
  "is_dx e \<longleftrightarrow> (case e of BaseDxError _ _ _ _ \<Rightarrow> True | _ \<Rightarrow> False)"

definition is_pg :: "goerr \<Rightarrow> bool" where
  "is_pg e \<longleftrightarrow> (case e of PgError _ _ _ _ \<Rightarrow> True | _ \<Rightarrow> False)"

text \<open>\<^verbatim>\<open>errors.As\<close> for the two target types the sources use: the first error of the chain of
  that type.\<close>

definition errors_As_DxError :: "goerr \<Rightarrow> goerr option" where
  "errors_As_DxError e = find is_dx (err_chain e)"

definition errors_As_PgError :: "goerr \<Rightarrow> goerr option" where
  "errors_As_PgError e = find is_pg (err_chain e)"

fun ErrorText :: "goerr \<Rightarrow> string" where
  "ErrorText (BaseDxError c m d cause) = ''['' @ c @ ''] '' @ m"
| "ErrorText (PgError c d col con) = c @ '': '' @ d"
| "ErrorText ErrNoRows = ''no rows in result set''"
| "ErrorText Canceled = ''context canceled''"
| "ErrorText DeadlineExceeded = ''context deadline exceeded''"
| "ErrorText ErrOpen = ''resilience: circuit breaker is open''"
| "ErrorText ErrClosed = ''Exception (504) Reason: '' @ go_quote ''channel/connection is not open''"
| "ErrorText (GrpcStatus c m) = ''rpc error: '' @ m"
| "ErrorText (Opaque m) = m"
| "ErrorText (Errorf p e s) = p @ ErrorText e @ s"

subsection \<open>Codes and the three tables (codes.go, base.go)\<close>

type_synonym ErrorCode = string

definition ErrValidation :: ErrorCode where "ErrValidation = ''ERR_VALIDATION''"
definition ErrUnauthorized :: ErrorCode where "ErrUnauthorized = ''ERR_UNAUTHORIZED''"
definition ErrForbidden :: ErrorCode where "ErrForbidden = ''ERR_FORBIDDEN''"
definition ErrNotFound :: ErrorCode where "ErrNotFound = ''ERR_NOT_FOUND''"
definition ErrConflict :: ErrorCode where "ErrConflict = ''ERR_CONFLICT''"
definition ErrInternal :: ErrorCode where "ErrInternal = ''ERR_INTERNAL''"
definition ErrBadGateway :: ErrorCode where "ErrBadGateway = ''ERR_BAD_GATEWAY''"
definition ErrServiceUnavailable :: ErrorCode where
  "ErrServiceUnavailable = ''ERR_SERVICE_UNAVAILABLE''"
definition ErrTooManyRequests :: ErrorCode where "ErrTooManyRequests = ''ERR_TOO_MANY_REQUESTS''"
definition ErrExpired :: ErrorCode where "ErrExpired = ''ERR_EXPIRED''"
definition ErrDatabase :: ErrorCode where "ErrDatabase = ''ERR_DATABASE''"
definition ErrMethodNotAllowed :: ErrorCode where
  "ErrMethodNotAllowed = ''ERR_METHOD_NOT_ALLOWED''"

lemmas code_defs =
  ErrValidation_def ErrUnauthorized_def ErrForbidden_def ErrNotFound_def ErrConflict_def
  ErrInternal_def ErrBadGateway_def ErrServiceUnavailable_def ErrTooManyRequests_def
  ErrExpired_def ErrDatabase_def ErrMethodNotAllowed_def

definition httpStatusMap :: "(ErrorCode \<times> int) list" where
  "httpStatusMap =
     [(ErrValidation, 400), (ErrUnauthorized, 401), (ErrForbidden, 403), (ErrNotFound, 404),
      (ErrConflict, 409), (ErrInternal, 500), (ErrBadGateway, 502), (ErrServiceUnavailable, 503),
      (ErrTooManyRequests, 429), (ErrExpired, 401), (ErrDatabase, 500), (ErrMethodNotAllowed, 405)]"

definition urnMap :: "(ErrorCode \<times> string) list" where
  "urnMap =
     [(ErrValidation, ''urn:dx:as:InvalidParamValue''), (ErrUnauthorized, ''urn:dx:as:Unauthorized''),
      (ErrForbidden, ''urn:dx:as:Forbidden''), (ErrNotFound, ''urn:dx:rs:ResourceNotFound''),
      (ErrConflict, ''urn:dx:as:ResourceAlreadyExists''),
      (ErrInternal, ''urn:dx:as:InternalServerError''), (ErrBadGateway, ''urn:dx:as:BadGateway''),
      (ErrServiceUnavailable, ''urn:dx:as:ServiceUnavailable''),
      (ErrTooManyRequests, ''urn:dx:as:RateLimitExceeded''), (ErrExpired, ''urn:dx:as:TokenExpired''),
      (ErrDatabase, ''urn:dx:as:DatabaseError''), (ErrMethodNotAllowed, ''urn:dx:as:MethodNotAllowed'')]"

definition titleMap :: "(ErrorCode \<times> string) list" where
  "titleMap =
     [(ErrValidation, ''Bad Request''), (ErrUnauthorized, ''Not Authorized''),
      (ErrForbidden, ''Forbidden''), (ErrNotFound, ''Not Found''), (ErrConflict, ''Conflict''),
      (ErrInternal, ''Internal Server Error''), (ErrBadGateway, ''Bad Gateway''),
      (ErrServiceUnavailable, ''Service Unavailable''), (ErrTooManyRequests, ''Too Many Requests''),
      (ErrExpired, ''Not Authorized''), (ErrDatabase, ''Internal Server Error''),
      (ErrMethodNotAllowed, ''Method Not Allowed'')]"

text \<open>The lookups with their fallbacks for a code that is in no table.\<close>

definition HTTPStatus :: "goerr \<Rightarrow> int" where
  "HTTPStatus e = (case map_of httpStatusMap (dx_code e) of Some s \<Rightarrow> s | None \<Rightarrow> 500)"

definition URN :: "goerr \<Rightarrow> string" where
  "URN e = (case map_of urnMap (dx_code e) of Some u \<Rightarrow> u | None \<Rightarrow> ''urn:dx:as:InternalServerError'')"

definition Title :: "goerr \<Rightarrow> string" where
  "Title e = (case map_of titleMap (dx_code e) of Some t \<Rightarrow> t | None \<Rightarrow> ''Internal Server Error'')"

subsection \<open>Constructors (types.go)\<close>

definition NewValidation :: "string \<Rightarrow> string list \<Rightarrow> goerr" where
  "NewValidation m d = BaseDxError ErrValidation m d None"
definition NewUnauthorized :: "string \<Rightarrow> string list \<Rightarrow> goerr" where
  "NewUnauthorized m d = BaseDxError ErrUnauthorized m d None"
definition NewForbidden :: "string \<Rightarrow> string list \<Rightarrow> goerr" where
  "NewForbidden m d = BaseDxError ErrForbidden m d None"
definition NewNotFound :: "string \<Rightarrow> string list \<Rightarrow> goerr" where
  "NewNotFound m d = BaseDxError ErrNotFound m d None"
definition NewConflict :: "string \<Rightarrow> string list \<Rightarrow> goerr" where
  "NewConflict m d = BaseDxError ErrConflict m d None"
definition NewInternal :: "string \<Rightarrow> string list \<Rightarrow> goerr" where
  "NewInternal m d = BaseDxError ErrInternal m d None"
definition NewDatabase :: "string \<Rightarrow> string list \<Rightarrow> goerr" where
  "NewDatabase m d = BaseDxError ErrDatabase m d None"
definition NewExpired :: "string \<Rightarrow> string list \<Rightarrow> goerr" where
  "NewExpired m d = BaseDxError ErrExpired m d None"
definition NewBadGateway :: "string \<Rightarrow> string list \<Rightarrow> goerr" where
  "NewBadGateway m d = BaseDxError ErrBadGateway m d None"
definition NewServiceUnavailable :: "string \<Rightarrow> string list \<Rightarrow> goerr" where
  "NewServiceUnavailable m d = BaseDxError ErrServiceUnavailable m d None"
definition NewTooManyRequests :: "string \<Rightarrow> string list \<Rightarrow> goerr" where
  "NewTooManyRequests m d = BaseDxError ErrTooManyRequests m d None"
definition NewMethodNotAllowed :: "string \<Rightarrow> string list \<Rightarrow> goerr" where
  "NewMethodNotAllowed m d = BaseDxError ErrMethodNotAllowed m d None"

lemmas new_defs =
  NewValidation_def NewUnauthorized_def NewForbidden_def NewNotFound_def NewConflict_def
  NewInternal_def NewDatabase_def NewExpired_def NewBadGateway_def NewServiceUnavailable_def
  NewTooManyRequests_def NewMethodNotAllowed_def

subsection \<open>The response writer (net/http) and the error body (handler.go)\<close>

text \<open>What a handler has written: the header map, the status (fixed by the first
  \<^verbatim>\<open>WriteHeader\<close>, later calls are ignored) and the values encoded into the body.\<close>

record 'b writer =
  w_header :: "string \<rightharpoonup> string"
  w_status :: "int option"
  w_body :: "'b list"

definition fresh_writer :: "'b writer" where
  "fresh_writer = \<lparr>w_header = Map.empty, w_status = None, w_body = []\<rparr>"

definition header_Set :: "string \<Rightarrow> string \<Rightarrow> 'b writer \<Rightarrow> 'b writer" where
  "header_Set k v w = (if w_status w = None then w\<lparr>w_header := (w_header w)(k \<mapsto> v)\<rparr> else w)"

definition WriteHeader :: "int \<Rightarrow> 'b writer \<Rightarrow> 'b writer" where
  "WriteHeader s w = (if w_status w = None then w\<lparr>w_status := Some s\<rparr> else w)"

definition write_body :: "'b \<Rightarrow> 'b writer \<Rightarrow> 'b writer" where
  "write_body b w = (let w' = WriteHeader 200 w in w'\<lparr>w_body := w_body w' @ [b]\<rparr>)"

record DxErrorResponse =
  resp_Type :: string
  resp_Title :: string
  resp_Detail :: string
  resp_Errors :: "string list"

definition WriteError :: "DxErrorResponse writer \<Rightarrow> goerr \<Rightarrow> DxErrorResponse writer" where
  "WriteError w err =
     (let resp = \<lparr>resp_Type = URN err, resp_Title = Title err, resp_Detail = dx_message err,
                  resp_Errors = dx_details err\<rparr>
      in write_body resp (WriteHeader (HTTPStatus err) (header_Set ''Content-Type'' ''application/json'' w)))"

text \<open>\<^verbatim>\<open>GlobalErrorHandler\<close>: the wrapped handler either returns or panics; a panic with a
  \<^verbatim>\<open>DxError\<close> becomes a response, any other panic is raised again.\<close>

datatype panic_value = PanicErr goerr | PanicOther string

datatype 'b handler_result = Returned "'b writer" | Panicked "'b writer" panic_value

definition GlobalErrorHandler ::
  "(DxErrorResponse writer \<Rightarrow> DxErrorResponse handler_result) \<Rightarrow> DxErrorResponse writer
   \<Rightarrow> DxErrorResponse handler_result" where
  "GlobalErrorHandler next w =
     (case next w of
        Returned w' \<Rightarrow> Returned w'
      | Panicked w' (PanicErr e) \<Rightarrow>
          (if is_dx e then Returned (WriteError w' e) else Panicked w' (PanicErr e))
      | Panicked w' p \<Rightarrow> Panicked w' p)"

subsection \<open>Helpers (helpers.go)\<close>

definition HandleError :: "DxErrorResponse writer \<Rightarrow> goerr option \<Rightarrow> DxErrorResponse writer" where
  "HandleError w err =
     (case err of None \<Rightarrow> w
      | Some e \<Rightarrow> (case errors_As_DxError e of
                     Some dxErr \<Rightarrow> WriteError w dxErr
                   | None \<Rightarrow> WriteError w (NewInternal ''internal server error'' [])))"

text \<open>The second component is what the \<^verbatim>\<open>logUnexpected\<close> hook receives, when it is set.\<close>

definition WriteServerError ::
  "DxErrorResponse writer \<Rightarrow> goerr option \<Rightarrow> bool \<Rightarrow> DxErrorResponse writer \<times> goerr option list" where
  "WriteServerError w err hook =
     (case Option.bind err errors_As_DxError of
        Some dxErr \<Rightarrow> (WriteError w dxErr, [])
      | None \<Rightarrow> (WriteError w (NewInternal ''internal error'' []), if hook then [err] else []))"

definition HandleValidationError ::
  "DxErrorResponse writer \<Rightarrow> string list \<Rightarrow> DxErrorResponse writer" where
  "HandleValidationError w details = WriteError w (NewValidation ''validation failed'' details)"

definition HandleAuthorizationError ::
  "DxErrorResponse writer \<Rightarrow> string \<Rightarrow> string \<Rightarrow> DxErrorResponse writer" where
  "HandleAuthorizationError w resource operation =
     WriteError w (NewForbidden (''unauthorized to '' @ operation @ '' '' @ resource) [])"

definition HandleNotFoundError ::
  "DxErrorResponse writer \<Rightarrow> string \<Rightarrow> string \<Rightarrow> DxErrorResponse writer" where
  "HandleNotFoundError w resource rid =
     WriteError w (NewNotFound (resource @ '' not found'' @ (if rid \<noteq> [] then '': '' @ rid else [])) [])"

definition MapPostgresError :: "goerr option \<Rightarrow> goerr option" where
  "MapPostgresError err =
     (case err of None \<Rightarrow> None
      | Some e \<Rightarrow>
          if errors_Is e ErrNoRows then Some (NewNotFound ''resource not found'' [])
          else (let fallback = Some (Errorf ''database error: '' e [])
                in case errors_As_PgError e of
                     None \<Rightarrow> fallback
                   | Some pg \<Rightarrow>
                       if pg_Code pg = ''23505''
                       then Some (NewConflict (''resource already exists: '' @ pg_Detail pg) [])
                       else if pg_Code pg = ''23503''
                       then Some (NewValidation (''foreign key constraint violated: '' @ pg_Detail pg) [])
                       else if pg_Code pg = ''23502''
                       then Some (NewValidation (''required field is null: '' @ pg_ColumnName pg) [])
                       else if pg_Code pg = ''23514''
                       then Some (NewValidation (''check constraint violated: '' @ pg_ConstraintName pg) [])
                       else if pg_Code pg = ''40001''
                       then Some (NewDatabase ''serialization failure, please retry'' [])
                       else if pg_Code pg = ''40P01''
                       then Some (NewDatabase ''deadlock detected, please retry'' [])
                       else fallback))"

definition HandleDatabaseError :: "DxErrorResponse writer \<Rightarrow> goerr option \<Rightarrow> DxErrorResponse writer" where
  "HandleDatabaseError w err =
     (case err of None \<Rightarrow> w
      | Some e \<Rightarrow> (case Option.bind (MapPostgresError (Some e)) errors_As_DxError of
                     Some dxErr \<Rightarrow> WriteError w dxErr
                   | None \<Rightarrow> WriteError w (NewDatabase ''database operation failed'' [])))"

definition HandleStatusCodeError ::
  "DxErrorResponse writer \<Rightarrow> int \<Rightarrow> string \<Rightarrow> DxErrorResponse writer" where
  "HandleStatusCodeError w statusCode message =
     WriteError w
       (if statusCode = 400 then NewValidation message []
        else if statusCode = 401 then NewUnauthorized message []
        else if statusCode = 403 then NewForbidden message []
        else if statusCode = 404 then NewNotFound message []
        else if statusCode = 409 then NewConflict message []
        else if statusCode = 429 then NewTooManyRequests message []
        else if statusCode = 500 then NewInternal message []
        else if statusCode = 502 then NewBadGateway message []
        else NewInternal ''unexpected error'' [])"

definition dx_status :: "goerr option \<Rightarrow> int option" where
  "dx_status err = map_option HTTPStatus (Option.bind err errors_As_DxError)"

definition IsNotFoundError :: "goerr option \<Rightarrow> bool" where
  "IsNotFoundError err \<longleftrightarrow> dx_status err = Some 404"

definition IsValidationError :: "goerr option \<Rightarrow> bool" where
  "IsValidationError err \<longleftrightarrow> dx_status err = Some 400"

definition IsAuthorizationError :: "goerr option \<Rightarrow> bool" where
  "IsAuthorizationError err \<longleftrightarrow> dx_status err = Some 401 \<or> dx_status err = Some 403"

record ErrorDetail =
  ed_Code :: string
  ed_Message :: string
  ed_Details :: "string list"
  ed_StatusCode :: int

definition GetErrorDetail :: "goerr option \<Rightarrow> ErrorDetail" where
  "GetErrorDetail err =
     (case Option.bind err errors_As_DxError of
        Some e \<Rightarrow> \<lparr>ed_Code = dx_code e, ed_Message = dx_message e, ed_Details = dx_details e,
                   ed_StatusCode = HTTPStatus e\<rparr>
      | None \<Rightarrow> \<lparr>ed_Code = ''INTERNAL_ERROR'', ed_Message = ''internal server error'',
                  ed_Details = [], ed_StatusCode = 500\<rparr>)"

subsection \<open>Chains\<close>

lemma err_chain_self [simp]: "e \<in> set (err_chain e)"
  by (induction e rule: err_chain.induct) auto

lemma err_chain_unwrap:
  "err_chain e = e # (case Unwrap e of None \<Rightarrow> [] | Some e' \<Rightarrow> err_chain e')"
  by (cases e rule: err_chain.cases) auto

lemma errors_Is_Errorf [simp]: "t \<noteq> Errorf p e s \<Longrightarrow> errors_Is (Errorf p e s) t \<longleftrightarrow> errors_Is e t"
  by (auto simp: errors_Is_def)

lemma As_DxError_Errorf [simp]: "errors_As_DxError (Errorf p e s) = errors_As_DxError e"
  by (simp add: errors_As_DxError_def is_dx_def)

lemma As_PgError_Errorf [simp]: "errors_As_PgError (Errorf p e s) = errors_As_PgError e"
  by (simp add: errors_As_PgError_def is_pg_def)

lemma As_DxError_Dx [simp]: "errors_As_DxError (BaseDxError c m d x) = Some (BaseDxError c m d x)"
  by (cases x) (simp_all add: errors_As_DxError_def is_dx_def)

lemma As_PgError_Dx_None [simp]: "errors_As_PgError (BaseDxError c m d None) = None"
  by (simp add: errors_As_PgError_def is_pg_def)

lemma As_DxError_is_dx: "errors_As_DxError e = Some x \<Longrightarrow> is_dx x \<and> x \<in> set (err_chain e)"
  by (auto simp: errors_As_DxError_def find_Some_iff)

lemma As_PgError_is_pg: "errors_As_PgError e = Some x \<Longrightarrow> is_pg x \<and> x \<in> set (err_chain e)"
  by (auto simp: errors_As_PgError_def find_Some_iff)

subsection \<open>Writing a response\<close>

lemma WriteError_fresh:
  "WriteError fresh_writer e =
     \<lparr>w_header = [''Content-Type'' \<mapsto> ''application/json''], w_status = Some (HTTPStatus e),
      w_body = [\<lparr>resp_Type = URN e, resp_Title = Title e, resp_Detail = dx_message e,
                 resp_Errors = dx_details e\<rparr>]\<rparr>"
  by (simp add: WriteError_def fresh_writer_def header_Set_def WriteHeader_def write_body_def Let_def)

lemma WriteError_status [simp]:
  "w_status (WriteError w e) = (case w_status w of None \<Rightarrow> Some (HTTPStatus e) | Some s \<Rightarrow> Some s)"
  by (auto simp: WriteError_def header_Set_def WriteHeader_def write_body_def Let_def split: option.splits)

lemma HTTPStatus_range: "400 \<le> HTTPStatus e \<and> HTTPStatus e \<le> 599"
  by (auto simp: HTTPStatus_def httpStatusMap_def split: if_splits option.splits)

lemma table_domains: "map fst urnMap = map fst httpStatusMap" "map fst titleMap = map fst httpStatusMap"
  by (simp_all add: urnMap_def httpStatusMap_def titleMap_def)

subsection \<open>What clients see\<close>

lemma MapPostgresError_Some: "MapPostgresError (Some e) \<noteq> None"
  by (simp add: MapPostgresError_def Let_def split: option.splits)

lemma MapPostgresError_Dx:
  assumes "MapPostgresError (Some e) = Some e'"
  shows "(\<exists>c m. e' = BaseDxError c m [] None) \<or> (e' = Errorf ''database error: '' e []
     \<and> \<not> errors_Is e ErrNoRows \<and> (\<forall>p. MapPostgresError (Some (Errorf p e [])) = Some (Errorf ''database error: '' (Errorf p e []) [])))"
  using assms by (auto simp: MapPostgresError_def new_defs Let_def split: if_splits option.splits)

lemma database_response_dx [simp]:
  "HandleDatabaseError w (Some (BaseDxError c m [] None)) = WriteError w (BaseDxError c m [] None)"
  by (simp add: HandleDatabaseError_def MapPostgresError_def Let_def errors_Is_def)

text \<open>
  The translation of a database error does not depend on how many layers translate it: a
  handler that passes the already mapped error (as the DAO returns it) to \<^verbatim>\<open>HandleDatabaseError\<close>
  writes exactly the response that the raw driver error gives, for every error and every writer.
\<close>

theorem database_error_path_independent:
  "HandleDatabaseError w (MapPostgresError err) = HandleDatabaseError w err"
proof (cases err)
  case (Some e)
  obtain e' where e': "MapPostgresError (Some e) = Some e'"
    using MapPostgresError_Some by blast
  then consider c m where "e' = BaseDxError c m [] None"
    | "e' = Errorf ''database error: '' e []"
      "MapPostgresError (Some e') = Some (Errorf ''database error: '' e' [])"
    using MapPostgresError_Dx by blast
  then show ?thesis
  proof cases
    case 1
    then show ?thesis using Some e' by (simp add: HandleDatabaseError_def [of w "Some e"])
  next
    case 2
    then show ?thesis using Some e' by (simp add: HandleDatabaseError_def)
  qed
qed (simp add: MapPostgresError_def HandleDatabaseError_def)

text \<open>
  A driver error, under any number of wrappers, gives the status its SQLSTATE stands for: 409 for a
  unique violation, 400 for the other constraint violations, 404 for no rows, 500 for everything else; and an
  error with an unlisted SQLSTATE is answered with a fixed text that does not depend on the error.
\<close>

theorem database_error_status:
  assumes "errors_As_DxError e = None"
  shows "w_status (HandleDatabaseError fresh_writer (Some e)) =
      Some (if errors_Is e ErrNoRows then 404
            else case errors_As_PgError e of
                   None \<Rightarrow> 500
                 | Some pg \<Rightarrow> (if pg_Code pg = ''23505'' then 409
                              else if pg_Code pg \<in> {''23503'', ''23502'', ''23514''} then 400 else 500))
    \<and> (\<not> errors_Is e ErrNoRows
        \<and> (\<forall>pg. errors_As_PgError e = Some pg
              \<longrightarrow> pg_Code pg \<notin> {''23505'', ''23503'', ''23502'', ''23514'', ''40001'', ''40P01''})
       \<longrightarrow> HandleDatabaseError w (Some e) = WriteError w (NewDatabase ''database operation failed'' []))"
proof (intro conjI impI)
  show "w_status (HandleDatabaseError fresh_writer (Some e)) =
      Some (if errors_Is e ErrNoRows then 404
            else case errors_As_PgError e of
                   None \<Rightarrow> 500
                 | Some pg \<Rightarrow> (if pg_Code pg = ''23505'' then 409
                              else if pg_Code pg \<in> {''23503'', ''23502'', ''23514''} then 400 else 500))"
    using assms by (auto simp: HandleDatabaseError_def MapPostgresError_def fresh_writer_def
        new_defs HTTPStatus_def httpStatusMap_def code_defs Let_def split: option.splits)
next
  assume "\<not> errors_Is e ErrNoRows
        \<and> (\<forall>pg. errors_As_PgError e = Some pg
              \<longrightarrow> pg_Code pg \<notin> {''23505'', ''23503'', ''23502'', ''23514'', ''40001'', ''40P01''})"
  then show "HandleDatabaseError w (Some e) = WriteError w (NewDatabase ''database operation failed'' [])"
    using assms by (auto simp: HandleDatabaseError_def MapPostgresError_def Let_def split: option.splits)
qed

theorem database_error_status_witness:
  "w_status (HandleDatabaseError fresh_writer
     (Some (Errorf ''insert: '' (PgError ''23505'' ''Key (id)=(1) already exists.'' ''id'' ''pk'') []))) = Some 409"
proof -
  let ?e = "Errorf ''insert: '' (PgError ''23505'' ''Key (id)=(1) already exists.'' ''id'' ''pk'') []"
  have "errors_As_DxError ?e = None" by (simp add: errors_As_DxError_def is_dx_def)
  from database_error_status [OF this] show ?thesis
    by (simp add: errors_Is_def errors_As_PgError_def is_pg_def)
qed

text \<open>
  An unexpected error never reaches the client: if no \<^verbatim>\<open>DxError\<close> is in its chain, the response of
  \<^verbatim>\<open>WriteServerError\<close> is the same for every such error (a 500 with a fixed text) and the error
  goes only to the log hook; a \<^verbatim>\<open>DxError\<close> is answered as itself however often it was wrapped on
  the way up. \<^verbatim>\<open>HandleError\<close> behaves likewise.
\<close>

theorem server_error_no_leak:
  assumes "errors_As_DxError e = None"
  shows "WriteServerError w (Some e) hook
           = (WriteError w (NewInternal ''internal error'' []), if hook then [Some e] else [])
       \<and> HandleError w (Some e) = WriteError w (NewInternal ''internal server error'' [])
       \<and> (\<forall>wraps c m d x. let dx = BaseDxError c m d x;
                            e' = foldr (\<lambda>(p, t) f. Errorf p f t) wraps dx
            in WriteServerError w (Some e') hook = (WriteError w dx, [])
             \<and> HandleError w (Some e') = WriteError w dx)"
proof -
  have "errors_As_DxError (foldr (\<lambda>(p, t) f. Errorf p f t) wraps (BaseDxError c m d x))
      = Some (BaseDxError c m d x)" for wraps c m d x
    by (induction wraps) auto
  then show ?thesis
    using assms by (simp add: WriteServerError_def HandleError_def Let_def)
qed

theorem server_error_no_leak_witness:
  "WriteServerError fresh_writer (Some (Opaque ''password=hunter2'')) True
     = (WriteError fresh_writer (NewInternal ''internal error'' []), [Some (Opaque ''password=hunter2'')])"
proof -
  have "errors_As_DxError (Opaque ''password=hunter2'') = None" by (simp add: errors_As_DxError_def is_dx_def)
  from server_error_no_leak [OF this, of fresh_writer True] show ?thesis by simp
qed

end
