(* ===== verification/CircuitBreaker.thy ===== *)
theory CircuitBreaker
  imports DxErrors
begin

text \<open>
  \<^verbatim>\<open>resilience/circuitbreaker.go\<close>. The breaker is a record with the fields of the Go struct;
  the injected clock is a time argument of every operation that reads it (nanoseconds), and the
  calls of the \<^verbatim>\<open>onStateChange\<close> hook are the list \<open>cb_changes\<close>. Each operation holds the
  mutex from start to end, so an operation is one atomic step; \<^verbatim>\<open>Execute\<close> is two such steps with
  the user's function between them, and concurrent calls interleave at that grain
  (\<open>cb_step\<close> below).
\<close>

subsection \<open>State and options\<close>

datatype State = StateClosed | StateOpen | StateHalfOpen

definition State_String :: "State \<Rightarrow> string" where
  "State_String s = (case s of StateClosed \<Rightarrow> ''closed'' | StateOpen \<Rightarrow> ''open''
     | StateHalfOpen \<Rightarrow> ''half-open'')"

record CircuitBreaker =
  failureThreshold :: int
  cooldown :: int
  isFailure :: "goerr option \<Rightarrow> bool"
  hasHook :: bool
  cb_state :: State
  failures :: int
  openedAt :: int
  probeInFlight :: bool
  cb_changes :: "(State \<times> State) list"

definition WithFailureThreshold :: "int \<Rightarrow> CircuitBreaker \<Rightarrow> CircuitBreaker" where
  "WithFailureThreshold n b = (if n > 0 then b\<lparr>failureThreshold := n\<rparr> else b)"

definition WithCooldown :: "int \<Rightarrow> CircuitBreaker \<Rightarrow> CircuitBreaker" where
  "WithCooldown d b = (if d > 0 then b\<lparr>cooldown := d\<rparr> else b)"

definition WithFailureClassifier ::
  "(goerr option \<Rightarrow> bool) option \<Rightarrow> CircuitBreaker \<Rightarrow> CircuitBreaker" where
  "WithFailureClassifier f b = (case f of None \<Rightarrow> b | Some g \<Rightarrow> b\<lparr>isFailure := g\<rparr>)"

definition WithOnStateChange :: "bool \<Rightarrow> CircuitBreaker \<Rightarrow> CircuitBreaker" where
  "WithOnStateChange hook b = b\<lparr>hasHook := hook\<rparr>"

definition NewCircuitBreaker :: "(CircuitBreaker \<Rightarrow> CircuitBreaker) list \<Rightarrow> CircuitBreaker" where
  "NewCircuitBreaker opts =
     fold (\<lambda>opt b. opt b) opts
       \<lparr>failureThreshold = 5, cooldown = 30 * 10 ^ 9, isFailure = (\<lambda>e. e \<noteq> None), hasHook = False,
        cb_state = StateClosed, failures = 0, openedAt = 0, probeInFlight = False, cb_changes = []\<rparr>"

subsection \<open>Operations\<close>

definition setState :: "State \<Rightarrow> CircuitBreaker \<Rightarrow> CircuitBreaker" where
  "setState s b =
     (if cb_state b = s then b
      else b\<lparr>cb_state := s,
             cb_changes := (if hasHook b then cb_changes b @ [(cb_state b, s)] else cb_changes b)\<rparr>)"

definition trip :: "int \<Rightarrow> CircuitBreaker \<Rightarrow> CircuitBreaker" where
  "trip now b = setState StateOpen (b\<lparr>openedAt := now\<rparr>)"

definition reset :: "CircuitBreaker \<Rightarrow> CircuitBreaker" where
  "reset b = setState StateClosed (b\<lparr>failures := 0\<rparr>)"

definition refresh :: "int \<Rightarrow> CircuitBreaker \<Rightarrow> CircuitBreaker" where
  "refresh now b =
     (if cb_state b = StateOpen \<and> time_Sub now (openedAt b) \<ge> cooldown b
      then (setState StateHalfOpen b)\<lparr>probeInFlight := False\<rparr> else b)"

definition State_op :: "int \<Rightarrow> CircuitBreaker \<Rightarrow> CircuitBreaker \<times> State" where
  "State_op now b = (let b' = refresh now b in (b', cb_state b'))"

text \<open>\<^verbatim>\<open>beforeCall\<close> returns the breaker and \<open>Some ErrOpen\<close> when the call is rejected.\<close>

definition beforeCall :: "int \<Rightarrow> CircuitBreaker \<Rightarrow> CircuitBreaker \<times> goerr option" where
  "beforeCall now b =
     (let b' = refresh now b
      in case cb_state b' of
           StateOpen \<Rightarrow> (b', Some ErrOpen)
         | StateHalfOpen \<Rightarrow>
             (if probeInFlight b' then (b', Some ErrOpen) else (b'\<lparr>probeInFlight := True\<rparr>, None))
         | StateClosed \<Rightarrow> (b', None))"

definition counts_as_failure :: "CircuitBreaker \<Rightarrow> goerr option \<Rightarrow> bool" where
  "counts_as_failure b err \<longleftrightarrow> isFailure b err \<and> \<not> errors_Is_opt err ErrOpen"

definition afterCall :: "int \<Rightarrow> goerr option \<Rightarrow> CircuitBreaker \<Rightarrow> CircuitBreaker" where
  "afterCall now err b =
     (let failure = counts_as_failure b err
      in if cb_state b = StateHalfOpen
         then (let b' = b\<lparr>probeInFlight := False\<rparr> in if failure then trip now b' else reset b')
         else if failure
         then (let b' = b\<lparr>failures := failures b + 1\<rparr>
               in if failures b' \<ge> failureThreshold b' then trip now b' else b')
         else b\<lparr>failures := 0\<rparr>)"

text \<open>\<^verbatim>\<open>Execute\<close> for one caller: \<open>fn\<close> acts on the caller's own state \<open>'s\<close>; the clock is read at
  \<open>t0\<close> before and at \<open>t1\<close> after the call.\<close>

definition Execute ::
  "int \<Rightarrow> int \<Rightarrow> ('s \<Rightarrow> 's \<times> goerr option) \<Rightarrow> CircuitBreaker \<times> 's
   \<Rightarrow> (CircuitBreaker \<times> 's) \<times> goerr option" where
  "Execute t0 t1 fn bs =
     (case beforeCall t0 (fst bs) of
        (b', Some e) \<Rightarrow> ((b', snd bs), Some e)
      | (b', None) \<Rightarrow> (case fn (snd bs) of (s', err) \<Rightarrow> ((afterCall t1 err b', s'), err)))"

lemmas cb_op_defs = setState_def trip_def reset_def refresh_def beforeCall_def afterCall_def Let_def

subsection \<open>Invariant of the counters\<close>

text \<open>The thresholds are positive and, while closed, the breaker is short of its threshold.\<close>

definition cb_inv :: "CircuitBreaker \<Rightarrow> bool" where
  "cb_inv b \<longleftrightarrow> 0 < failureThreshold b \<and> 0 < cooldown b \<and> in_int64 (cooldown b) \<and> 0 \<le> failures b
     \<and> (cb_state b = StateClosed \<longrightarrow> failures b < failureThreshold b)"

lemma cb_inv_refresh [simp]: "cb_inv b \<Longrightarrow> cb_inv (refresh now b)"
  by (auto simp: cb_inv_def refresh_def setState_def)

lemma cb_inv_beforeCall: "cb_inv b \<Longrightarrow> cb_inv (fst (beforeCall now b))"
  using cb_inv_refresh [of b now]
  by (auto simp: beforeCall_def Let_def cb_inv_def split: State.splits)

lemma cb_inv_afterCall: "cb_inv b \<Longrightarrow> cb_inv (afterCall now err b)"
  by (auto simp: cb_inv_def afterCall_def trip_def reset_def setState_def Let_def)

lemma cb_inv_State_op: "cb_inv b \<Longrightarrow> cb_inv (fst (State_op now b))"
  by (simp add: State_op_def Let_def)

lemma config_refresh [simp]:
  "failureThreshold (refresh now b) = failureThreshold b"
  "cooldown (refresh now b) = cooldown b" "isFailure (refresh now b) = isFailure b"
  "openedAt (refresh now b) = openedAt b" "failures (refresh now b) = failures b"
  by (simp_all add: refresh_def setState_def)

lemma Open_elapsed:
  "cb_inv b \<Longrightarrow> time_Sub now (openedAt b) \<ge> cooldown b \<longleftrightarrow> cooldown b \<le> now - openedAt b"
  by (auto simp: cb_inv_def time_Sub_ge_pos)

lemma refresh_cases:
  assumes "cb_inv b"
  shows "refresh now b =
    (if cb_state b = StateOpen \<and> openedAt b + cooldown b \<le> now
     then (setState StateHalfOpen b)\<lparr>probeInFlight := False\<rparr> else b)"
  using Open_elapsed [OF assms, of now] by (auto simp: refresh_def)

subsection \<open>Construction\<close>

definition cb_fresh :: "CircuitBreaker \<Rightarrow> bool" where
  "cb_fresh b \<longleftrightarrow> cb_inv b \<and> cb_state b = StateClosed \<and> failures b = 0 \<and> \<not> probeInFlight b
     \<and> cb_changes b = []"

lemma cb_fresh_options:
  assumes "cb_fresh b"
  shows "cb_fresh (WithFailureThreshold n b)" and "in_int64 d \<Longrightarrow> cb_fresh (WithCooldown d b)"
    and "cb_fresh (WithFailureClassifier f b)" and "cb_fresh (WithOnStateChange h b)"
  using assms
  by (auto simp: cb_fresh_def cb_inv_def WithFailureThreshold_def WithCooldown_def
      WithFailureClassifier_def WithOnStateChange_def split: option.splits)

lemma cb_fresh_new:
  assumes "\<And>opt b. opt \<in> set opts \<Longrightarrow> cb_fresh b \<Longrightarrow> cb_fresh (opt b)"
  shows "cb_fresh (NewCircuitBreaker opts)"
proof -
  have fold_fresh: "cb_fresh b \<Longrightarrow> cb_fresh (fold (\<lambda>opt b. opt b) opts b)" for b
    using assms by (induction opts arbitrary: b) auto
  show ?thesis
    unfolding NewCircuitBreaker_def
    by (rule fold_fresh) (simp add: cb_fresh_def cb_inv_def in_int64_def)
qed

subsection \<open>The gate a client sees\<close>

text \<open>
  The HTTP and gRPC wrappers use a breaker only through \<^verbatim>\<open>beforeCall\<close> and \<^verbatim>\<open>afterCall\<close>.
  The contract they rely on: admission keeps the invariant, a rejection carries a fixed
  error, recording an outcome keeps the invariant.
\<close>

locale call_gate =
  fixes before :: "int \<Rightarrow> 'b \<Rightarrow> 'b \<times> goerr option"
    and after :: "int \<Rightarrow> goerr option \<Rightarrow> 'b \<Rightarrow> 'b"
    and inv :: "'b \<Rightarrow> bool"
    and rejected :: goerr
  assumes before_inv: "inv b \<Longrightarrow> inv (fst (before t b))"
    and after_inv: "inv b \<Longrightarrow> inv (after t err b)"
    and before_error: "snd (before t b) = Some e \<Longrightarrow> e = rejected"
begin

lemma guarded_inv:
  assumes "inv b"
  shows "inv (case before tb b of (b', Some e) \<Rightarrow> b' | (b', None) \<Rightarrow> after ta err b')"
  using before_inv [OF assms, of tb] after_inv
  by (auto split: prod.splits option.splits)

lemma guarded_result:
  "(case before tb b of (b', Some e) \<Rightarrow> Some e | (b', None) \<Rightarrow> snd (fn s))
     \<in> {Some rejected, snd (fn s)}"
  using before_error [of tb b] by (auto split: prod.splits option.splits)

lemma guarded_many_inv:
  assumes "inv b"
  shows "inv (fold (\<lambda>(tb, ta, err) b.
                case before tb b of (b', Some e) \<Rightarrow> b' | (b', None) \<Rightarrow> after ta err b') calls b)"
  using assms
proof (induction calls arbitrary: b)
  case (Cons c calls)
  obtain tb ta err where c: "c = (tb, ta, err)" by (cases c) auto
  show ?case
    using Cons.IH [OF guarded_inv [OF Cons.prems, where tb = tb and ta = ta and err = err]] by (simp add: c)
qed simp

end

lemma beforeCall_error: "snd (beforeCall t b) = Some e \<Longrightarrow> e = ErrOpen"
  by (auto simp: beforeCall_def Let_def split: State.splits if_splits)

interpretation breaker: call_gate beforeCall afterCall cb_inv ErrOpen
  by unfold_locales (auto intro: cb_inv_beforeCall cb_inv_afterCall dest: beforeCall_error)

lemma Execute_inv: "cb_inv b \<Longrightarrow> cb_inv (fst (fst (Execute t0 t1 fn (b, s))))"
  using breaker.guarded_inv [where b = b and tb = t0 and ta = t1 and err = "snd (fn s)"]
  by (auto simp: Execute_def split: prod.splits option.splits)

subsection \<open>Sequential use refines the documented breaker\<close>

text \<open>
  What the doc comment promises: a count of consecutive failures while closed; a trip time while
  open; one probe after the cooldown, whose outcome closes or re-opens the breaker.
\<close>

datatype spec_state = SClosed nat | SOpen int | SHalfOpen

fun spec_admits :: "int \<Rightarrow> int \<Rightarrow> spec_state \<Rightarrow> bool" where
  "spec_admits cd t0 (SOpen T) = (T + cd \<le> t0)"
| "spec_admits cd t0 _ = True"

fun spec_record :: "int \<Rightarrow> int \<Rightarrow> bool \<Rightarrow> spec_state \<Rightarrow> spec_state" where
  "spec_record thr t1 True (SClosed n) = (if thr \<le> int n + 1 then SOpen t1 else SClosed (n + 1))"
| "spec_record thr t1 True _ = SOpen t1"
| "spec_record thr t1 False _ = SClosed 0"

definition abs_cb :: "CircuitBreaker \<Rightarrow> spec_state" where
  "abs_cb b = (case cb_state b of StateClosed \<Rightarrow> SClosed (nat (failures b))
     | StateOpen \<Rightarrow> SOpen (openedAt b) | StateHalfOpen \<Rightarrow> SHalfOpen)"

definition cb_idle :: "CircuitBreaker \<Rightarrow> bool" where
  "cb_idle b \<longleftrightarrow> (cb_state b = StateHalfOpen \<longrightarrow> \<not> probeInFlight b)"

lemma beforeCall_Closed: "cb_state b = StateClosed \<Longrightarrow> beforeCall t b = (b, None)"
  by (simp add: beforeCall_def refresh_def Let_def)

lemma beforeCall_HalfOpen:
  "cb_state b = StateHalfOpen \<Longrightarrow>
     beforeCall t b = (if probeInFlight b then (b, Some ErrOpen) else (b\<lparr>probeInFlight := True\<rparr>, None))"
  by (simp add: beforeCall_def refresh_def Let_def)

lemma beforeCall_Open:
  assumes "cb_inv b" and "cb_state b = StateOpen"
  shows "beforeCall t b =
    (if openedAt b + cooldown b \<le> t
     then ((setState StateHalfOpen b)\<lparr>probeInFlight := True\<rparr>, None) else (b, Some ErrOpen))"
  using assms by (simp add: beforeCall_def refresh_cases Let_def setState_def)

lemmas beforeCall_cases = beforeCall_Closed beforeCall_HalfOpen beforeCall_Open

lemma afterCall_HalfOpen:
  "cb_state b = StateHalfOpen \<Longrightarrow>
     afterCall t err b =
       (if counts_as_failure b err then trip t (b\<lparr>probeInFlight := False\<rparr>)
        else reset (b\<lparr>probeInFlight := False\<rparr>))"
  by (simp add: afterCall_def Let_def)

lemma afterCall_other:
  "cb_state b \<noteq> StateHalfOpen \<Longrightarrow>
     afterCall t err b =
       (if counts_as_failure b err
        then (if failures b + 1 \<ge> failureThreshold b then trip t (b\<lparr>failures := failures b + 1\<rparr>)
              else b\<lparr>failures := failures b + 1\<rparr>)
        else b\<lparr>failures := 0\<rparr>)"
  by (simp add: afterCall_def Let_def)

lemma state_trip [simp]: "cb_state (trip t b) = StateOpen" "openedAt (trip t b) = t"
  by (simp_all add: trip_def setState_def)

lemma state_reset [simp]: "cb_state (reset b) = StateClosed" "failures (reset b) = 0"
  by (simp_all add: reset_def setState_def)

lemma counts_as_failure_frame [simp]:
  "counts_as_failure (b\<lparr>probeInFlight := x\<rparr>) err = counts_as_failure b err"
  "counts_as_failure (setState st b) err = counts_as_failure b err"
  by (simp_all add: counts_as_failure_def setState_def)

lemma state_setState [simp]: "cb_state (setState st b) = st"
  by (simp add: setState_def)

lemma beforeCall_admits:
  assumes "cb_inv b" and "cb_idle b"
  shows "snd (beforeCall t0 b) = (if spec_admits (cooldown b) t0 (abs_cb b) then None else Some ErrOpen)"
    and "\<not> spec_admits (cooldown b) t0 (abs_cb b) \<Longrightarrow> fst (beforeCall t0 b) = b"
  using assms by (cases "cb_state b"; simp add: beforeCall_cases abs_cb_def cb_idle_def)+

lemma afterCall_records:
  fixes b :: CircuitBreaker and t0 t1 :: int and err :: "goerr option"
  assumes "cb_inv b" and "cb_idle b" and "spec_admits (cooldown b) t0 (abs_cb b)"
  defines "b' \<equiv> afterCall t1 err (fst (beforeCall t0 b))"
  shows "abs_cb b' = spec_record (failureThreshold b) t1 (counts_as_failure b err) (abs_cb b) \<and> cb_idle b'"
proof (cases "cb_state b")
  case StateClosed
  then have b': "b' = afterCall t1 err b"
    by (simp add: b'_def beforeCall_Closed)
  show ?thesis
    using StateClosed assms(1) unfolding b' abs_cb_def cb_idle_def
    by (simp add: afterCall_other cb_inv_def nat_add_distrib)
next
  case StateOpen
  then show ?thesis
    using assms(1,3) unfolding abs_cb_def cb_idle_def b'_def
    by (simp add: beforeCall_Open afterCall_HalfOpen)
next
  case StateHalfOpen
  then show ?thesis
    using assms(1,2) unfolding abs_cb_def cb_idle_def b'_def
    by (simp add: beforeCall_HalfOpen afterCall_HalfOpen)
qed

subsection \<open>Concurrent callers\<close>

text \<open>
  The breaker shared by any number of goroutines: a clock that never goes back, and for each
  admitted call that has not returned the state in which it was admitted. Each step is one critical section
  of the mutex, or the clock advancing.
\<close>

record cb_sys =
  sys_b :: CircuitBreaker
  sys_now :: int
  sys_flights :: "State list"

inductive cb_step :: "cb_sys \<Rightarrow> cb_sys \<Rightarrow> bool" where
  tick: "sys_now s \<le> t \<Longrightarrow> cb_step s (s\<lparr>sys_now := t\<rparr>)"
| query: "cb_step s (s\<lparr>sys_b := fst (State_op (sys_now s) (sys_b s))\<rparr>)"
| admit: "beforeCall (sys_now s) (sys_b s) = (b', None) \<Longrightarrow>
     cb_step s (s\<lparr>sys_b := b', sys_flights := cb_state b' # sys_flights s\<rparr>)"
| reject: "beforeCall (sys_now s) (sys_b s) = (b', Some e) \<Longrightarrow> cb_step s (s\<lparr>sys_b := b'\<rparr>)"
| finish: "sys_flights s = xs @ k # ys \<Longrightarrow>
     cb_step s (s\<lparr>sys_b := afterCall (sys_now s) err (sys_b s), sys_flights := xs @ ys\<rparr>)"

inductive_cases cb_stepE: "cb_step s s'"

inductive cb_steps :: "cb_sys \<Rightarrow> cb_sys \<Rightarrow> bool" where
  none: "cb_steps s s"
| more: "cb_steps s s' \<Longrightarrow> cb_step s' s'' \<Longrightarrow> cb_steps s s''"

lemma cb_step_inv: "cb_step s s' \<Longrightarrow> cb_inv (sys_b s) \<Longrightarrow> cb_inv (sys_b s')"
  using cb_inv_beforeCall [of "sys_b s" "sys_now s"]
  by (auto elim!: cb_stepE simp: cb_inv_State_op cb_inv_afterCall)

lemma cb_steps_inv: "cb_steps s s' \<Longrightarrow> cb_inv (sys_b s) \<Longrightarrow> cb_inv (sys_b s')"
  by (induction rule: cb_steps.induct) (auto intro: cb_step_inv)

lemma cb_step_time: "cb_step s s' \<Longrightarrow> sys_now s \<le> sys_now s'"
  by (auto elim!: cb_stepE)

lemma config_step:
  assumes "cb_step s s'"
  shows "cooldown (sys_b s') = cooldown (sys_b s)"
proof -
  have b: "cooldown (fst (beforeCall t b)) = cooldown b" for t b
    by (simp add: beforeCall_def Let_def split: State.splits)
  have a: "cooldown (afterCall t err b) = cooldown b" for t err b
    by (simp add: afterCall_def Let_def trip_def reset_def setState_def)
  show ?thesis
    using assms b [of "sys_now s" "sys_b s"] by (auto elim!: cb_stepE simp: a State_op_def Let_def)
qed

text \<open>Open since at least \<open>T\<close>, and the clock not behind that.\<close>

definition open_since :: "int \<Rightarrow> cb_sys \<Rightarrow> bool" where
  "open_since T s \<longleftrightarrow> cb_state (sys_b s) = StateOpen \<and> T \<le> openedAt (sys_b s) \<and> T \<le> sys_now s"

lemma open_since_step:
  assumes "cb_step s s'" and "cb_inv (sys_b s)" and "open_since T s"
    and "sys_now s' < T + cooldown (sys_b s)"
  shows "open_since T s'"
  using assms(1)
proof cases
  case (finish xs k ys err)
  then show ?thesis
    using assms by (auto simp: open_since_def afterCall_other)
qed (use assms in \<open>auto simp: open_since_def State_op_def Let_def refresh_cases beforeCall_Open split: if_splits\<close>)

lemma cb_steps_cooldown: "cb_steps s s' \<Longrightarrow> cooldown (sys_b s') = cooldown (sys_b s)"
  by (induction rule: cb_steps.induct) (auto dest: config_step)

lemma open_since_steps:
  assumes "cb_steps s s'" and "cb_inv (sys_b s)" and "open_since T s"
    and "sys_now s' < T + cooldown (sys_b s)"
  shows "open_since T s'"
  using assms
proof (induction rule: cb_steps.induct)
  case (more s s' s'')
  have "sys_now s' < T + cooldown (sys_b s)"
    using cb_step_time [OF more.hyps(2)] more.prems(3) by simp
  then have "open_since T s'"
    using more.IH more.prems by blast
  then show ?case
    using open_since_step [OF more.hyps(2) cb_steps_inv [OF more.hyps(1) more.prems(1)]]
      more.prems(3) cb_steps_cooldown [OF more.hyps(1)] by simp
qed simp

text \<open>At most one call of a half-open episode gets through as long as nobody reports back.\<close>

inductive quiet_steps :: "nat \<Rightarrow> cb_sys \<Rightarrow> cb_sys \<Rightarrow> bool" where
  quiet_none: "quiet_steps 0 s s"
| quiet_tick: "quiet_steps n s s' \<Longrightarrow> sys_now s' \<le> t \<Longrightarrow> quiet_steps n s (s'\<lparr>sys_now := t\<rparr>)"
| quiet_query: "quiet_steps n s s' \<Longrightarrow>
     quiet_steps n s (s'\<lparr>sys_b := fst (State_op (sys_now s') (sys_b s'))\<rparr>)"
| quiet_admit: "quiet_steps n s s' \<Longrightarrow> beforeCall (sys_now s') (sys_b s') = (b', None) \<Longrightarrow>
     quiet_steps (Suc n) s (s'\<lparr>sys_b := b', sys_flights := cb_state b' # sys_flights s'\<rparr>)"
| quiet_reject: "quiet_steps n s s' \<Longrightarrow> beforeCall (sys_now s') (sys_b s') = (b', Some e) \<Longrightarrow>
     quiet_steps n s (s'\<lparr>sys_b := b'\<rparr>)"

lemma quiet_half_open:
  assumes "quiet_steps n s s'" and "cb_inv (sys_b s)" and "cb_state (sys_b s) \<noteq> StateClosed"
  shows "cb_inv (sys_b s') \<and>
    (n = 0 \<and> cb_state (sys_b s') \<noteq> StateClosed \<or>
     n = 1 \<and> cb_state (sys_b s') = StateHalfOpen \<and> probeInFlight (sys_b s'))"
  using assms
proof (induction rule: quiet_steps.induct)
  case (quiet_query n s s')
  then show ?case
    using cb_inv_State_op [of "sys_b s'" "sys_now s'"]
    by (auto simp: State_op_def Let_def refresh_cases setState_def)
next
  case (quiet_admit n s s' b')
  then show ?case
    using cb_inv_beforeCall [of "sys_b s'" "sys_now s'"]
    by (cases "cb_state (sys_b s')") (auto simp: beforeCall_HalfOpen beforeCall_Open split: if_splits)
next
  case (quiet_reject n s s' b' e)
  then show ?case
    using cb_inv_beforeCall [of "sys_b s'" "sys_now s'"]
    by (cases "cb_state (sys_b s')") (auto simp: beforeCall_HalfOpen beforeCall_Open split: if_splits)
qed auto

subsection \<open>Legal transitions\<close>

definition legal_change :: "State \<times> State \<Rightarrow> bool" where
  "legal_change c \<longleftrightarrow> c \<in> {(StateClosed, StateOpen), (StateOpen, StateHalfOpen),
     (StateHalfOpen, StateOpen), (StateHalfOpen, StateClosed)}"

fun change_path :: "State \<Rightarrow> (State \<times> State) list \<Rightarrow> State \<Rightarrow> bool" where
  "change_path st [] st' = (st = st')"
| "change_path st ((x, y) # cs) st' = (x = st \<and> legal_change (x, y) \<and> change_path y cs st')"

lemma change_path_append:
  "change_path a (xs @ ys) c \<longleftrightarrow> (\<exists>b. change_path a xs b \<and> change_path b ys c)"
  by (induction a xs c rule: change_path.induct) auto

definition hooked :: "CircuitBreaker \<Rightarrow> bool" where
  "hooked b \<longleftrightarrow> hasHook b \<and> change_path StateClosed (cb_changes b) (cb_state b)"

lemma hooked_setState:
  "hooked b \<Longrightarrow> cb_state b = st \<or> legal_change (cb_state b, st) \<Longrightarrow> hooked (setState st b)"
  by (auto simp: hooked_def setState_def change_path_append)

lemma hooked_frame [simp]:
  "hooked (b\<lparr>probeInFlight := x\<rparr>) = hooked b" "hooked (b\<lparr>failures := n\<rparr>) = hooked b"
  "hooked (b\<lparr>openedAt := T\<rparr>) = hooked b"
  by (simp_all add: hooked_def)

lemma hooked_refresh: "hooked b \<Longrightarrow> hooked (refresh now b)"
  by (auto simp: refresh_def legal_change_def intro!: hooked_setState)

lemma hooked_beforeCall: "hooked b \<Longrightarrow> hooked (fst (beforeCall now b))"
  using hooked_refresh [of b now] by (auto simp: beforeCall_def Let_def split: State.splits)

lemma hooked_afterCall: "hooked b \<Longrightarrow> hooked (afterCall now err b)"
  by (cases "cb_state b")
    (auto simp: afterCall_HalfOpen afterCall_other trip_def reset_def legal_change_def intro!: hooked_setState)

lemma hooked_step: "cb_step s s' \<Longrightarrow> hooked (sys_b s) \<Longrightarrow> hooked (sys_b s')"
  using hooked_beforeCall [of "sys_b s" "sys_now s"]
  by (auto elim!: cb_stepE simp: hooked_afterCall State_op_def Let_def hooked_refresh)

subsection \<open>Runs of one caller\<close>

text \<open>A call is its two clock readings and what the user's function would return. The run yields
  the error each \<^verbatim>\<open>Execute\<close> returned; the function is executed iff its slot says so.\<close>

type_synonym call = "int \<times> int \<times> goerr option"

fun run_calls :: "call list \<Rightarrow> CircuitBreaker \<Rightarrow> (bool \<times> goerr option) list \<times> CircuitBreaker" where
  "run_calls [] b = ([], b)"
| "run_calls ((t0, t1, out) # cs) b =
     (case Execute t0 t1 (\<lambda>called. (True, out)) (b, False) of
        ((b', called), err) \<Rightarrow> (case run_calls cs b' of (rs, b'') \<Rightarrow> ((called, err) # rs, b'')))"

fun spec_run :: "int \<Rightarrow> int \<Rightarrow> (goerr option \<Rightarrow> bool) \<Rightarrow> call list \<Rightarrow> spec_state
    \<Rightarrow> (bool \<times> goerr option) list \<times> spec_state" where
  "spec_run thr cd failed [] a = ([], a)"
| "spec_run thr cd failed ((t0, t1, out) # cs) a =
     (if spec_admits cd t0 a
      then (case spec_run thr cd failed cs (spec_record thr t1 (failed out) a) of
              (rs, a') \<Rightarrow> ((True, out) # rs, a'))
      else (case spec_run thr cd failed cs a of (rs, a') \<Rightarrow> ((False, Some ErrOpen) # rs, a')))"

lemma Execute_admitted:
  assumes "cb_inv b" and "cb_idle b"
  shows "Execute t0 t1 fn (b, s) =
    (if spec_admits (cooldown b) t0 (abs_cb b)
     then ((afterCall t1 (snd (fn s)) (fst (beforeCall t0 b)), fst (fn s)), snd (fn s))
     else ((b, s), Some ErrOpen))"
  using beforeCall_admits [OF assms, of t0]
  by (cases "beforeCall t0 b"; cases "fn s") (auto simp: Execute_def)

lemma config_calls:
  "failureThreshold (afterCall t err (fst (beforeCall u b))) = failureThreshold b"
  "cooldown (afterCall t err (fst (beforeCall u b))) = cooldown b"
  "counts_as_failure (afterCall t err (fst (beforeCall u b))) = counts_as_failure b"
  by (auto simp: afterCall_def beforeCall_def refresh_def trip_def reset_def setState_def Let_def
      counts_as_failure_def fun_eq_iff split: State.splits)

lemma run_calls_refines:
  assumes "cb_inv b" and "cb_idle b"
  shows "fst (run_calls cs b) = fst (spec_run (failureThreshold b) (cooldown b) (counts_as_failure b) cs (abs_cb b))
    \<and> abs_cb (snd (run_calls cs b)) = snd (spec_run (failureThreshold b) (cooldown b) (counts_as_failure b) cs (abs_cb b))
    \<and> cb_inv (snd (run_calls cs b)) \<and> cb_idle (snd (run_calls cs b))"
  using assms
proof (induction cs arbitrary: b)
  case Nil
  then show ?case by simp
next
  case (Cons c cs)
  obtain t0 t1 out where c: "c = (t0, t1, out)" by (cases c) auto
  define b' where "b' = afterCall t1 out (fst (beforeCall t0 b))"
  show ?case
  proof (cases "spec_admits (cooldown b) t0 (abs_cb b)")
    case False
    then show ?thesis
      using Cons.IH [OF Cons.prems]
      by (simp add: c Execute_admitted [OF Cons.prems] case_prod_beta)
  next
    case True
    have "cb_inv b'"
      unfolding b'_def by (intro cb_inv_afterCall cb_inv_beforeCall Cons.prems(1))
    moreover have "abs_cb b' = spec_record (failureThreshold b) t1 (counts_as_failure b out) (abs_cb b)"
      and "cb_idle b'"
      using afterCall_records [OF Cons.prems True, of t1 out] by (simp_all add: b'_def)
    moreover have "failureThreshold b' = failureThreshold b" "cooldown b' = cooldown b"
      "counts_as_failure b' = counts_as_failure b"
      by (simp_all add: b'_def config_calls)
    ultimately show ?thesis
      using Cons.IH [of b'] True
      by (simp add: c Execute_admitted [OF Cons.prems] case_prod_beta flip: b'_def)
  qed
qed

lemma spec_run_failures:
  assumes "\<And>c. c \<in> set cs \<Longrightarrow> failed (snd (snd c))" and "int (n + length cs) < thr"
  shows "snd (spec_run thr cd failed cs (SClosed n)) = SClosed (n + length cs)"
  using assms
proof (induction cs arbitrary: n)
  case (Cons c cs)
  obtain t0 t1 out where c: "c = (t0, t1, out)" by (cases c) auto
  have "failed out"
    using Cons.prems(1) [of c] by (simp add: c)
  then show ?case
    using Cons.IH [of "n + 1"] Cons.prems by (simp add: c case_prod_beta)
qed simp

lemma spec_run_append:
  "snd (spec_run thr cd failed (xs @ ys) a) = snd (spec_run thr cd failed ys (snd (spec_run thr cd failed xs a)))"
  by (induction xs arbitrary: a) (auto simp: case_prod_beta)

subsection \<open>Properties\<close>

text \<open>C4: for one caller, every run of \<^verbatim>\<open>Execute\<close> calls behaves exactly as the documented
  breaker: the same calls are let through, the same errors are returned, and the state reached is
  the one the documented state machine reaches.\<close>

theorem breaker_refines_spec:
  assumes "cb_inv b" and "cb_idle b"
  shows "fst (run_calls cs b) =
      fst (spec_run (failureThreshold b) (cooldown b) (counts_as_failure b) cs (abs_cb b))
    \<and> abs_cb (snd (run_calls cs b)) =
      snd (spec_run (failureThreshold b) (cooldown b) (counts_as_failure b) cs (abs_cb b))"
  using run_calls_refines [OF assms] by simp

definition demo_breaker :: CircuitBreaker where
  "demo_breaker = NewCircuitBreaker [WithFailureThreshold 2, WithCooldown 10, WithOnStateChange True]"

lemma demo_breaker_fresh: "cb_fresh demo_breaker"
  unfolding demo_breaker_def
  by (rule cb_fresh_new) (auto intro: cb_fresh_options simp: in_int64_def)

theorem breaker_refines_spec_witness:
  "fst (run_calls [(0, 1, Some (Opaque ''x'')), (2, 3, Some (Opaque ''x'')), (4, 5, None), (13, 14, None)]
          demo_breaker)
   = [(True, Some (Opaque ''x'')), (True, Some (Opaque ''x'')), (False, Some ErrOpen), (True, None)]"
proof -
  have f: "cb_inv demo_breaker" "cb_idle demo_breaker"
    using demo_breaker_fresh by (simp_all add: cb_fresh_def cb_idle_def)
  have d: "failureThreshold demo_breaker = 2" "cooldown demo_breaker = 10"
    "abs_cb demo_breaker = SClosed 0" "isFailure demo_breaker = (\<lambda>e. e \<noteq> None)"
    by (simp_all add: demo_breaker_def NewCircuitBreaker_def WithFailureThreshold_def WithCooldown_def
        WithOnStateChange_def abs_cb_def)
  show ?thesis
    unfolding breaker_refines_spec [OF f, THEN conjunct1]
    by (simp add: d counts_as_failure_def errors_Is_opt_def errors_Is_def)
qed

text \<open>a fresh breaker stays closed, and keeps counting, through fewer than
  \<^verbatim>\<open>failureThreshold\<close> consecutive failures, and the failure that completes the threshold opens it
  with the time of that failure as its opening time.\<close>

theorem breaker_trips_at_threshold:
  assumes "cb_fresh b" and "\<forall>c \<in> set (cs @ [(t0, t1, out)]). counts_as_failure b (snd (snd c))"
    and "int (length cs) + 1 = failureThreshold b"
  shows "abs_cb (snd (run_calls cs b)) = SClosed (length cs)
    \<and> abs_cb (snd (run_calls (cs @ [(t0, t1, out)]) b)) = SOpen t1"
proof -
  have i: "cb_inv b" "cb_idle b" and a: "abs_cb b = SClosed 0"
    using assms(1) by (simp_all add: cb_fresh_def cb_idle_def abs_cb_def)
  have r: "snd (spec_run (failureThreshold b) (cooldown b) (counts_as_failure b) cs (SClosed 0)) = SClosed (length cs)"
    using spec_run_failures [of cs "counts_as_failure b" 0 "failureThreshold b" "cooldown b"] assms(2,3) by auto
  then show ?thesis
    using run_calls_refines [OF i] assms(2,3) by (simp add: a spec_run_append)
qed

theorem breaker_trips_at_threshold_witness:
  "abs_cb (snd (run_calls ([(0, 1, Some (Opaque ''x''))] @ [(2, 3, Some (Opaque ''y''))]) demo_breaker)) = SOpen 3"
proof -
  have c: "counts_as_failure demo_breaker (Some (Opaque m))" for m
    by (simp add: counts_as_failure_def errors_Is_opt_def errors_Is_def demo_breaker_def NewCircuitBreaker_def
        WithFailureThreshold_def WithCooldown_def WithOnStateChange_def)
  have t: "failureThreshold demo_breaker = 2"
    by (simp add: demo_breaker_def NewCircuitBreaker_def WithFailureThreshold_def WithCooldown_def
        WithOnStateChange_def)
  show ?thesis
    using breaker_trips_at_threshold [OF demo_breaker_fresh, of "[(0, 1, Some (Opaque ''x''))]" 2 3 "Some (Opaque ''y'')"]
    by (simp add: c t)
qed

text \<open>with any number of concurrent callers, a breaker that opened at \<open>T\<close> is still open, and
  rejects every call with \<^verbatim>\<open>ErrOpen\<close>, at every moment before \<open>T + cooldown\<close>, whatever calls
  start, finish or query the state in between.\<close>

theorem breaker_rejects_during_cooldown:
  assumes "cb_steps s s'" and "cb_inv (sys_b s)" and "cb_state (sys_b s) = StateOpen"
    and "openedAt (sys_b s) \<le> sys_now s" and "sys_now s' < openedAt (sys_b s) + cooldown (sys_b s)"
  shows "cb_state (sys_b s') = StateOpen \<and> snd (beforeCall (sys_now s') (sys_b s')) = Some ErrOpen"
proof -
  have o: "open_since (openedAt (sys_b s)) s'"
    by (rule open_since_steps [OF assms(1,2) _ assms(5)]) (use assms in \<open>simp add: open_since_def\<close>)
  then have st: "cb_state (sys_b s') = StateOpen" and T: "openedAt (sys_b s) \<le> openedAt (sys_b s')"
    by (auto simp: open_since_def)
  then show ?thesis
    using beforeCall_Open [OF cb_steps_inv [OF assms(1,2)] st, of "sys_now s'"] assms(5)
      cb_steps_cooldown [OF assms(1)] by simp
qed

definition open_sys :: cb_sys where
  "open_sys = \<lparr>sys_b = demo_breaker\<lparr>cb_state := StateOpen, openedAt := 5\<rparr>, sys_now = 5, sys_flights = [StateClosed]\<rparr>"

lemma open_sys_inv: "cb_inv (sys_b open_sys)"
  using demo_breaker_fresh by (simp add: open_sys_def cb_fresh_def cb_inv_def)

theorem breaker_rejects_during_cooldown_witness:
  "snd (beforeCall 9 (sys_b (open_sys\<lparr>sys_now := 9\<rparr>))) = Some ErrOpen"
proof -
  have cd: "cooldown demo_breaker = 10"
    by (simp add: demo_breaker_def NewCircuitBreaker_def WithFailureThreshold_def WithCooldown_def
        WithOnStateChange_def)
  have "cb_steps open_sys (open_sys\<lparr>sys_now := 9\<rparr>)"
    by (rule cb_steps.more [OF cb_steps.none cb_step.tick]) (simp add: open_sys_def)
  from breaker_rejects_during_cooldown [OF this open_sys_inv] show ?thesis
    by (simp add: open_sys_def cd)
qed

text \<open>once the breaker has left the closed state, at most one call is admitted until some call
  reports its outcome; and when one was admitted, every further call is rejected at every later
  time, so a probe that never reports back (its function panics past \<^verbatim>\<open>afterCall\<close>) leaves the
  breaker rejecting for ever.\<close>

theorem breaker_admits_single_probe:
  assumes "quiet_steps n s s'" and "cb_inv (sys_b s)" and "cb_state (sys_b s) \<noteq> StateClosed"
  shows "n \<le> 1 \<and> (n = 1 \<longrightarrow> (\<forall>t. snd (beforeCall t (sys_b s')) = Some ErrOpen))"
  using quiet_half_open [OF assms] by (auto simp: beforeCall_HalfOpen)

theorem breaker_admits_single_probe_witness:
  "\<exists>s'. quiet_steps 1 open_sys s' \<and> (\<forall>t. snd (beforeCall t (sys_b s')) = Some ErrOpen)"
proof -
  define s1 where "s1 = open_sys\<lparr>sys_now := 15\<rparr>"
  have cd: "cooldown demo_breaker = 10"
    by (simp add: demo_breaker_def NewCircuitBreaker_def WithFailureThreshold_def WithCooldown_def
        WithOnStateChange_def)
  have q: "quiet_steps 0 open_sys s1"
    unfolding s1_def by (rule quiet_steps.quiet_tick [OF quiet_steps.quiet_none]) (simp add: open_sys_def)
  have "snd (beforeCall (sys_now s1) (sys_b s1)) = None"
    using open_sys_inv by (simp add: s1_def beforeCall_Open open_sys_def cd)
  then obtain b' where b': "beforeCall (sys_now s1) (sys_b s1) = (b', None)"
    by (cases "beforeCall (sys_now s1) (sys_b s1)") auto
  let ?s' = "s1\<lparr>sys_b := b', sys_flights := cb_state b' # sys_flights s1\<rparr>"
  have q1: "quiet_steps 1 open_sys ?s'"
    using quiet_steps.quiet_admit [OF q b'] by simp
  moreover have "\<forall>t. snd (beforeCall t (sys_b ?s')) = Some ErrOpen"
    using breaker_admits_single_probe [OF q1 open_sys_inv] by (simp add: open_sys_def)
  ultimately show ?thesis by blast
qed

text \<open>in every execution from a fresh breaker with a hook, the hook sees a path of the state
  diagram: closed to open, open to half-open, half-open to open or to closed, each change starting
  where the previous one ended, and ending in the current state.\<close>

theorem breaker_transitions_legal:
  assumes "cb_steps s s'" and "cb_fresh (sys_b s)" and "hasHook (sys_b s)"
  shows "change_path StateClosed (cb_changes (sys_b s')) (cb_state (sys_b s'))"
proof -
  have "hooked (sys_b s)"
    using assms by (simp add: hooked_def cb_fresh_def)
  with assms(1) have "hooked (sys_b s')"
    by (induction rule: cb_steps.induct) (auto intro: hooked_step)
  then show ?thesis by (simp add: hooked_def)
qed

definition demo_sys :: cb_sys where
  "demo_sys = \<lparr>sys_b = demo_breaker, sys_now = 0, sys_flights = []\<rparr>"

theorem breaker_transitions_legal_witness:
  "change_path StateClosed (cb_changes (sys_b (demo_sys\<lparr>sys_now := 3\<rparr>))) StateClosed"
proof -
  have "cb_steps demo_sys (demo_sys\<lparr>sys_now := 3\<rparr>)"
    by (rule cb_steps.more [OF cb_steps.none cb_step.tick]) (simp add: demo_sys_def)
  from breaker_transitions_legal [OF this] show ?thesis
    using demo_breaker_fresh
    by (simp add: demo_sys_def demo_breaker_def NewCircuitBreaker_def WithFailureThreshold_def WithCooldown_def
        WithOnStateChange_def)
qed

text \<open>A breaker with threshold 1 and the run that overlaps two probes: two calls are admitted while
  closed; one fails and opens the breaker; after the cooldown a probe is admitted; the other old
  call fails and is taken for the probe's outcome; after another cooldown a second probe starts.\<close>

definition probe_breaker :: "State \<Rightarrow> int \<Rightarrow> int \<Rightarrow> bool \<Rightarrow> CircuitBreaker" where
  "probe_breaker st fl opened probe =
     (NewCircuitBreaker [WithFailureThreshold 1, WithCooldown 10])
       \<lparr>cb_state := st, failures := fl, openedAt := opened, probeInFlight := probe\<rparr>"

definition probe_sys :: "State \<Rightarrow> int \<Rightarrow> int \<Rightarrow> bool \<Rightarrow> int \<Rightarrow> State list \<Rightarrow> cb_sys" where
  "probe_sys st fl opened probe t calls =
     \<lparr>sys_b = probe_breaker st fl opened probe, sys_now = t, sys_flights = calls\<rparr>"

lemmas probe_defs = probe_sys_def probe_breaker_def NewCircuitBreaker_def WithFailureThreshold_def
  WithCooldown_def

lemma probe_tick:
  "t \<le> t' \<Longrightarrow> cb_steps s (probe_sys st fl op pr t calls) \<Longrightarrow> cb_steps s (probe_sys st fl op pr t' calls)"
  using cb_step.tick [of "probe_sys st fl op pr t calls" t']
  by (auto simp: probe_sys_def intro: cb_steps.more)

lemma probe_admit_closed:
  "cb_steps s (probe_sys StateClosed fl op pr t calls) \<Longrightarrow>
     cb_steps s (probe_sys StateClosed fl op pr t (StateClosed # calls))"
  using cb_step.admit [of "probe_sys StateClosed fl op pr t calls" "probe_breaker StateClosed fl op pr"]
  by (auto simp: probe_sys_def probe_breaker_def beforeCall_Closed intro: cb_steps.more)

lemma probe_admit_open:
  assumes "cb_steps s (probe_sys StateOpen fl op pr t calls)" and "op + 10 \<le> t" and "t - op < 2 ^ 63"
  shows "cb_steps s (probe_sys StateHalfOpen fl op True t (StateHalfOpen # calls))"
proof -
  have "beforeCall t (probe_breaker StateOpen fl op pr) = (probe_breaker StateHalfOpen fl op True, None)"
    using assms(2,3) by (simp add: probe_defs beforeCall_def refresh_def setState_def time_Sub_def Let_def)
  then show ?thesis
    using cb_steps.more [OF assms(1) cb_step.admit [of "probe_sys StateOpen fl op pr t calls"]]
    by (simp add: probe_sys_def, simp add: probe_breaker_def)
qed

lemma probe_finish_failing:
  assumes "cb_steps s (probe_sys st fl op pr t (xs @ k # ys))" and "st \<noteq> StateOpen" and "0 \<le> fl"
  shows "cb_steps s (probe_sys StateOpen (if st = StateClosed then fl + 1 else fl) t
    (st = StateClosed \<and> pr) t (xs @ ys))"
proof -
  have "afterCall t (Some (Opaque ''x'')) (probe_breaker st fl op pr)
      = probe_breaker StateOpen (if st = StateClosed then fl + 1 else fl) t (st = StateClosed \<and> pr)"
    using assms(2,3) by (cases st) (simp_all add: probe_defs afterCall_def trip_def setState_def Let_def counts_as_failure_def
        errors_Is_opt_def errors_Is_def)
  then show ?thesis
    using cb_steps.more [OF assms(1) cb_step.finish [where err = "Some (Opaque ''x'')" and xs = xs and k = k and ys = ys]]
    by (simp add: probe_sys_def)
qed

text \<open>the promise of one probe at a time does not survive a call that was admitted while
  the breaker was closed and finishes while it is half-open: there is an execution that reaches a state with two probes in
  flight.\<close>

theorem breaker_overlapping_probes:
  "\<exists>s. cb_steps \<lparr>sys_b = NewCircuitBreaker [WithFailureThreshold 1, WithCooldown 10], sys_now = 0, sys_flights = []\<rparr> s
     \<and> sys_flights s = [StateHalfOpen, StateHalfOpen]"
proof -
  let ?s = "probe_sys StateClosed 0 0 False 0 []"
  have "cb_steps ?s (probe_sys StateClosed 0 0 False 0 [StateClosed, StateClosed])"
    by (intro probe_admit_closed cb_steps.none)
  then have "cb_steps ?s (probe_sys StateOpen 1 0 False 0 [StateClosed])"
    using probe_finish_failing [of ?s StateClosed 0 0 False 0 "[]"] by simp
  then have "cb_steps ?s (probe_sys StateHalfOpen 1 0 True 10 [StateHalfOpen, StateClosed])"
    by (intro probe_admit_open probe_tick [of 0 10]) simp_all
  then have "cb_steps ?s (probe_sys StateOpen 1 10 False 10 [StateHalfOpen])"
    using probe_finish_failing [of ?s StateHalfOpen 1 0 True 10 "[StateHalfOpen]" StateClosed "[]"] by simp
  then have "cb_steps ?s (probe_sys StateHalfOpen 1 10 True 20 [StateHalfOpen, StateHalfOpen])"
    by (intro probe_admit_open probe_tick [of 10 20]) simp_all
  moreover have "?s = \<lparr>sys_b = NewCircuitBreaker [WithFailureThreshold 1, WithCooldown 10], sys_now = 0, sys_flights = []\<rparr>"
    by (simp add: probe_defs)
  ultimately show ?thesis
    by (metis (no_types, lifting) cb_sys.select_convs(3) probe_sys_def)
qed

end
