(* ===== verification/Float64.thy ===== *)
theory Float64
  imports Complex_Main "HOL-Library.Log_Nat" Prelude
begin

text \<open>
  The part of Go's \<^verbatim>\<open>float64\<close> that the sources compute with: conversion from \<^verbatim>\<open>int64\<close>,
  multiplication, division, \<^verbatim>\<open>math.Pow\<close> with a whole exponent, \<^verbatim>\<open>math.Ceil\<close> and the
  comparison operators. A finite value is a rational; every operation computes the exact result
  and rounds it to 53 significant bits, ties to even, overflowing to an infinity from \<open>2 ^ 1024\<close>.
  Subnormal results do not occur: every quotient of the sources is at least \<open>2 ^ -64\<close> or zero.
\<close>

subsection \<open>Rounding\<close>

definition pow2 :: "int \<Rightarrow> rat" where
  "pow2 e = (if 0 \<le> e then 2 ^ nat e else 1 / 2 ^ nat (- e))"

definition rne :: "rat \<Rightarrow> int" where
  "rne y = (let f = \<lfloor>y\<rfloor>; d = y - of_int f
            in if d < 1 / 2 then f else if 1 / 2 < d then f + 1 else if even f then f else f + 1)"

definition f64_exp :: "rat \<Rightarrow> int" where
  "f64_exp x = (let (p, q) = quotient_of x; e = bitlen p - bitlen q in if pow2 e \<le> x then e else e - 1)"

definition f64_round_pos :: "rat \<Rightarrow> rat" where
  "f64_round_pos x = (let u = pow2 (f64_exp x - 52) in of_int (rne (x / u)) * u)"

definition f64_round :: "rat \<Rightarrow> rat" where
  "f64_round x = (if x = 0 then 0 else if 0 < x then f64_round_pos x else - f64_round_pos (- x))"

datatype float64 = Fin rat | PInf | NInf | NaN

definition f64_of :: "rat \<Rightarrow> float64" where
  "f64_of x = (let r = f64_round x
               in if 2 ^ 1024 \<le> r then PInf else if r \<le> - (2 ^ 1024) then NInf else Fin r)"

definition f64_of_int :: "int \<Rightarrow> float64" where
  "f64_of_int n = f64_of (of_int n)"

text \<open>Comparison: anything with a NaN is false.\<close>

fun f64_less :: "float64 \<Rightarrow> float64 \<Rightarrow> bool" where
  "f64_less (Fin x) (Fin y) = (x < y)"
| "f64_less NInf (Fin y) = True"
| "f64_less (Fin x) PInf = True"
| "f64_less NInf PInf = True"
| "f64_less _ _ = False"

fun f64_neg :: "float64 \<Rightarrow> float64" where
  "f64_neg PInf = NInf" | "f64_neg NInf = PInf" | "f64_neg (Fin x) = Fin (- x)" | "f64_neg NaN = NaN"

fun f64_mul :: "float64 \<Rightarrow> float64 \<Rightarrow> float64" where
  "f64_mul (Fin x) (Fin y) = f64_of (x * y)"
| "f64_mul (Fin x) PInf = (if x = 0 then NaN else if 0 < x then PInf else NInf)"
| "f64_mul (Fin x) NInf = (if x = 0 then NaN else if 0 < x then NInf else PInf)"
| "f64_mul PInf (Fin y) = (if y = 0 then NaN else if 0 < y then PInf else NInf)"
| "f64_mul NInf (Fin y) = (if y = 0 then NaN else if 0 < y then NInf else PInf)"
| "f64_mul PInf PInf = PInf" | "f64_mul NInf NInf = PInf"
| "f64_mul PInf NInf = NInf" | "f64_mul NInf PInf = NInf"
| "f64_mul _ _ = NaN"

text \<open>Division of two finite values; \<^verbatim>\<open>x/0\<close> is an infinity by the sign of \<open>x\<close>, \<^verbatim>\<open>0/0\<close> is NaN.\<close>

definition f64_div_fin :: "rat \<Rightarrow> rat \<Rightarrow> float64" where
  "f64_div_fin x y = (if y = 0 then (if x = 0 then NaN else if 0 < x then PInf else NInf) else f64_of (x / y))"

text \<open>\<^verbatim>\<open>math.Pow(x, float64(k))\<close> for a whole \<open>k \<ge> 0\<close>, with the special cases of its documentation.\<close>

fun f64_pow :: "float64 \<Rightarrow> nat \<Rightarrow> float64" where
  "f64_pow x 0 = Fin 1"
| "f64_pow (Fin x) (Suc k) = f64_of (x ^ Suc k)"
| "f64_pow PInf (Suc k) = PInf"
| "f64_pow NInf (Suc k) = (if even k then NInf else PInf)"
| "f64_pow NaN (Suc k) = NaN"

text \<open>\<^verbatim>\<open>int64(f)\<close>: truncation towards zero in range; what an out-of-range or NaN conversion gives is up to the
  platform, so it is the parameter \<open>oor\<close>.\<close>

definition trunc_rat :: "rat \<Rightarrow> int" where
  "trunc_rat x = (if 0 \<le> x then \<lfloor>x\<rfloor> else \<lceil>x\<rceil>)"

definition f64_to_int64 :: "(float64 \<Rightarrow> int) \<Rightarrow> float64 \<Rightarrow> int" where
  "f64_to_int64 oor f =
     (case f of Fin x \<Rightarrow> (if in_int64 (trunc_rat x) then trunc_rat x else oor f) | _ \<Rightarrow> oor f)"

subsection \<open>Powers of two and the exponent\<close>

lemma pow2_powi: "pow2 e = 2 powi e"
  by (simp add: pow2_def power_int_def power_one_over)

lemma pow2_pos [simp]: "0 < pow2 e"
  by (simp add: pow2_def)

lemma pow2_nonzero [simp]: "pow2 e \<noteq> 0"
  using pow2_pos [of e] by linarith

lemma pow2_add: "pow2 (a + b) = pow2 a * pow2 b"
  by (simp add: pow2_powi power_int_add)

lemma pow2_mono: "a \<le> b \<Longrightarrow> pow2 a \<le> pow2 b"
  by (simp add: pow2_powi power_int_increasing)

lemma pow2_less_iff: "pow2 a < pow2 b \<longleftrightarrow> a < b"
  by (metis linorder_not_le pow2_mono pow2_powi power_int_strict_increasing one_less_numeral_iff semiring_norm(76))

lemma pow2_of_nat: "pow2 (int n) = 2 ^ n"
  by (simp add: pow2_def)

lemma pow2_nat: "0 \<le> e \<Longrightarrow> pow2 e = of_int (2 ^ nat e)"
  by (simp add: pow2_def)

lemma bitlen_pow2_bounds:
  assumes "0 < p"
  shows "pow2 (bitlen p - 1) \<le> of_int p" and "of_int p < pow2 (bitlen p)"
proof -
  have "1 \<le> bitlen p"
    using assms by (metis bitlen_eq_zero_iff bitlen_nonneg int_one_le_iff_zero_less linorder_not_le order_le_less)
  then show "pow2 (bitlen p - 1) \<le> of_int p" and "of_int p < pow2 (bitlen p)"
    using bitlen_bounds [OF assms] by (simp_all add: pow2_nat flip: of_int_le_iff of_int_less_iff)
qed

lemma f64_exp_bounds:
  assumes "0 < x"
  shows "pow2 (f64_exp x) \<le> x" and "x < pow2 (f64_exp x + 1)"
proof -
  obtain p q where pq: "quotient_of x = (p, q)" by (cases "quotient_of x")
  have q: "0 < q" by (rule quotient_of_denom_pos [OF pq])
  have x: "x = of_int p / of_int q" by (rule quotient_of_div [OF pq])
  have p: "0 < p" using assms q by (simp add: x zero_less_divide_iff)
  let ?e = "bitlen p - bitlen q"
  note b = bitlen_pow2_bounds [OF p] bitlen_pow2_bounds [OF q]
  have q': "(0::rat) < of_int q" using q by simp
  have "x < pow2 (bitlen p) / pow2 (bitlen q - 1)"
    unfolding x by (rule frac_less [OF _ b(2) _ b(3)]) (use p in simp_all)
  also have "\<dots> = pow2 (?e + 1)"
    using pow2_add [of "?e + 1" "bitlen q - 1"] by (simp add: field_simps)
  finally have up: "x < pow2 (?e + 1)" .
  have "pow2 (bitlen p - 1) / pow2 (bitlen q) \<le> x"
    unfolding x by (rule frac_le) (use b p q' in \<open>simp_all add: less_imp_le\<close>)
  moreover have "pow2 (bitlen p - 1) / pow2 (bitlen q) = pow2 (?e - 1)"
    using pow2_add [of "?e - 1" "bitlen q"] by (simp add: field_simps)
  ultimately have "pow2 (?e - 1) \<le> x" by simp
  then show "pow2 (f64_exp x) \<le> x" and "x < pow2 (f64_exp x + 1)"
    using up by (simp_all add: f64_exp_def pq Let_def)
qed

lemma f64_exp_less: "0 < x \<Longrightarrow> x < pow2 n \<Longrightarrow> f64_exp x < n"
  using f64_exp_bounds(1) [of x] by (metis pow2_less_iff le_less_trans)

lemma f64_exp_mono: "0 < x \<Longrightarrow> x \<le> y \<Longrightarrow> f64_exp x \<le> f64_exp y"
  using f64_exp_bounds(1) [of x] f64_exp_bounds(2) [of y]
  by (metis le_less_trans linorder_not_less order_less_le_trans pow2_less_iff zless_add1_eq order_le_less)

subsection \<open>Rounding to nearest\<close>

lemma rne_le: "y \<le> of_int n \<Longrightarrow> rne y \<le> n"
  unfolding rne_def Let_def by (auto simp: not_less; linarith)

lemma rne_ge: "of_int n \<le> y \<Longrightarrow> n \<le> rne y"
  unfolding rne_def Let_def by (auto simp: not_less; linarith)

lemma rne_int [simp]: "rne (of_int n) = n"
  by (simp add: rne_def)

lemma rne_near: "\<bar>of_int (rne y) - y\<bar> \<le> 1 / 2"
proof -
  have "of_int \<lfloor>y\<rfloor> \<le> y" and "y < of_int \<lfloor>y\<rfloor> + 1"
    by linarith+
  then show ?thesis
    unfolding rne_def Let_def abs_le_iff by (simp split: if_split; linarith)
qed

lemma rne_mono: "x \<le> y \<Longrightarrow> rne x \<le> rne y"
proof (cases "\<lfloor>x\<rfloor> = \<lfloor>y\<rfloor>")
  case True
  then show "x \<le> y \<Longrightarrow> ?thesis" by (auto simp: rne_def Let_def)
next
  case False
  assume "x \<le> y"
  then have "\<lfloor>x\<rfloor> + 1 \<le> \<lfloor>y\<rfloor>"
    using False floor_mono [of x y] by linarith
  then have "rne x \<le> \<lfloor>y\<rfloor>"
    using rne_le [of x "\<lfloor>x\<rfloor> + 1"] by linarith
  then show ?thesis
    using rne_ge [of "\<lfloor>y\<rfloor>" y] by linarith
qed

lemma f64_round_pos_le:
  assumes "0 < x" and "x \<le> of_int n * pow2 k" and "f64_exp x - 52 \<le> k"
  shows "f64_round_pos x \<le> of_int n * pow2 k"
proof -
  define u where "u = pow2 (f64_exp x - 52)"
  have u: "0 < u" by (simp add: u_def)
  define m where "m = n * 2 ^ nat (k - (f64_exp x - 52))"
  have "pow2 k = pow2 (k - (f64_exp x - 52)) * u"
    by (simp add: u_def flip: pow2_add)
  then have m: "of_int n * pow2 k = of_int m * u"
    using assms(3) by (simp add: m_def pow2_nat)
  have "x / u \<le> of_int m"
    using assms(2) u by (simp add: m pos_divide_le_eq)
  then have "rne (x / u) \<le> m" by (rule rne_le)
  then show ?thesis
    using u by (simp add: f64_round_pos_def Let_def m flip: u_def)
qed

lemma f64_round_pos_ge:
  assumes "0 < x" and "of_int n * pow2 k \<le> x" and "f64_exp x - 52 \<le> k"
  shows "of_int n * pow2 k \<le> f64_round_pos x"
proof -
  define u where "u = pow2 (f64_exp x - 52)"
  have u: "0 < u" by (simp add: u_def)
  define m where "m = n * 2 ^ nat (k - (f64_exp x - 52))"
  have "pow2 k = pow2 (k - (f64_exp x - 52)) * u"
    by (simp add: u_def flip: pow2_add)
  then have m: "of_int n * pow2 k = of_int m * u"
    using assms(3) by (simp add: m_def pow2_nat)
  have "of_int m \<le> x / u"
    using assms(2) u by (simp add: m pos_le_divide_eq)
  then have "m \<le> rne (x / u)" by (rule rne_ge)
  then show ?thesis
    using u by (simp add: f64_round_pos_def Let_def m flip: u_def)
qed

lemma f64_round_pos_error:
  assumes "0 < x"
  shows "\<bar>f64_round_pos x - x\<bar> \<le> pow2 (f64_exp x - 52) / 2"
proof -
  define u where "u = pow2 (f64_exp x - 52)"
  have u: "0 < u" by (simp add: u_def)
  have "f64_round_pos x - x = (of_int (rne (x / u)) - x / u) * u"
    using u by (simp add: f64_round_pos_def Let_def field_simps flip: u_def)
  then have "\<bar>f64_round_pos x - x\<bar> = \<bar>of_int (rne (x / u)) - x / u\<bar> * u"
    using u by (simp add: abs_mult)
  also have "\<dots> \<le> 1 / 2 * u"
    using u rne_near [of "x / u"] by (intro mult_right_mono) simp_all
  finally show ?thesis by (simp add: u_def)
qed

text \<open>Whole multiples of a power of two with at most 53 significant bits are represented exactly.\<close>

lemma f64_round_pos_exact:
  assumes "0 < n" and "n \<le> 2 ^ 53"
  shows "f64_round_pos (of_int n * pow2 k) = of_int n * pow2 k"
proof -
  define x where "x = of_int n * pow2 k"
  have x0: "0 < x" using assms(1) by (simp add: x_def)
  show ?thesis
  proof (cases "n = 2 ^ 53")
    case True
    then have x: "x = of_int 1 * pow2 (k + 53)"
      using pow2_add [of k 53] by (simp add: x_def pow2_def)
    have "x < pow2 (k + 54)"
      by (simp add: x pow2_less_iff)
    then have "f64_exp x - 52 \<le> k + 53"
      using f64_exp_less [OF x0] by fastforce
    then show ?thesis
      using f64_round_pos_le [OF x0, of 1 "k + 53"] f64_round_pos_ge [OF x0, of 1 "k + 53"]
      by (simp add: x flip: x_def)
  next
    case False
    then have "(of_int n :: rat) < pow2 53"
      using assms(2) by (simp add: pow2_def)
    then have "x < pow2 53 * pow2 k"
      unfolding x_def by (rule mult_strict_right_mono) simp
    then have "x < pow2 (53 + k)"
      by (simp add: pow2_add)
    then have "f64_exp x - 52 \<le> k"
      using f64_exp_less [OF x0] by fastforce
    then show ?thesis
      using f64_round_pos_le [OF x0, of n k] f64_round_pos_ge [OF x0, of n k] by (simp flip: x_def)
  qed
qed

lemma f64_round_pos_mono:
  assumes "0 < x" and "x \<le> y"
  shows "f64_round_pos x \<le> f64_round_pos y"
proof (cases "f64_exp x = f64_exp y")
  case True
  then show ?thesis
    using assms by (auto simp: f64_round_pos_def Let_def divide_right_mono rne_mono less_imp_le)
next
  case False
  then have e: "f64_exp x + 1 \<le> f64_exp y"
    using f64_exp_mono [OF assms] by simp
  have "f64_round_pos x \<le> pow2 (f64_exp x + 1)"
    using f64_round_pos_le [OF assms(1), of 1 "f64_exp x + 1"] f64_exp_bounds(2) [OF assms(1)] by simp
  also have "\<dots> \<le> pow2 (f64_exp y)" using e by (rule pow2_mono)
  also have "\<dots> \<le> f64_round_pos y"
    using f64_round_pos_ge [of y 1 "f64_exp y"] f64_exp_bounds(1) [of y] assms by simp
  finally show ?thesis .
qed

lemma f64_round_pos_nonneg: "0 < x \<Longrightarrow> 0 < f64_round_pos x"
  using f64_round_pos_ge [of x 1 "f64_exp x"] f64_exp_bounds(1) [of x] pow2_pos [of "f64_exp x"]
  by (simp del: pow2_pos)

lemma f64_round_int:
  assumes "\<bar>n\<bar> \<le> 2 ^ 53"
  shows "f64_round (of_int n) = of_int n"
  using f64_round_pos_exact [of n 0] f64_round_pos_exact [of "- n" 0] assms
  by (auto simp: f64_round_def pow2_def)

lemma f64_of_int_exact: "\<bar>n\<bar> \<le> 2 ^ 53 \<Longrightarrow> f64_of_int n = Fin (of_int n)"
proof -
  assume a: "\<bar>n\<bar> \<le> 2 ^ 53"
  then have "n < 2 ^ 1024" and "- (2 ^ 1024) < n" by (simp_all add: abs_le_iff)
  then have "of_int n < (2 ^ 1024 :: rat)" and "- (2 ^ 1024 :: rat) < of_int n"
    by (metis of_int_less_iff of_int_numeral of_int_power, metis of_int_less_iff of_int_minus of_int_numeral of_int_power)
  then show ?thesis
    by (simp add: f64_of_int_def f64_of_def f64_round_int [OF a] Let_def)
qed

lemma f64_exp_small: "0 < x \<Longrightarrow> x \<le> 2 ^ 53 \<Longrightarrow> f64_exp x \<le> 53"
  using f64_exp_less [of x 54] by (simp add: pow2_def)

text \<open>The rounding error of a quotient of integers below \<open>2 ^ 53\<close> never reaches the next integer:
  its ceiling is the ceiling of the exact quotient.\<close>

lemma f64_div_ceil:
  assumes "0 \<le> t" and "t < 2 ^ 53" and "0 < s"
  shows "\<lceil>f64_round (of_int t / of_int s)\<rceil> = \<lceil>of_int t / (of_int s :: rat)\<rceil>"
proof (cases "t = 0")
  case True
  then show ?thesis by (simp add: f64_round_def)
next
  case False
  define x :: rat where "x = of_int t / of_int s"
  define n where "n = \<lceil>x\<rceil>"
  have s1: "(1 :: rat) \<le> of_int s" using assms(3) by simp
  have x0: "0 < x" using False assms by (simp add: x_def)
  have xt: "x \<le> of_int t"
    unfolding x_def using s1 assms(1) by (simp add: divide_le_eq mult_le_cancel_left1)
  then have x53: "x < pow2 53"
    using assms(2) by (simp add: pow2_def order_le_less_trans)
  have e: "f64_exp x < 53" by (rule f64_exp_less [OF x0 x53])
  have up: "f64_round_pos x \<le> of_int n"
    using f64_round_pos_le [OF x0, of n 0] e by (simp add: n_def pow2_def)
  have gap: "1 / of_int s \<le> x - of_int (n - 1)"
  proof -
    have "of_int (n - 1) < x" by (simp add: n_def) linarith
    then have "of_int (n - 1) * of_int s < (of_int t :: rat)"
      using s1 by (simp add: x_def pos_less_divide_eq)
    then have "(n - 1) * s + 1 \<le> t"
      by (metis of_int_less_iff of_int_mult zless_imp_add1_zle)
    then have "(of_int ((n - 1) * s + 1) :: rat) \<le> of_int t" by (simp only: of_int_le_iff)
    then show ?thesis using s1 by (simp add: x_def field_simps)
  qed
  have "pow2 (f64_exp x - 52) / 2 = pow2 (f64_exp x) * pow2 (- 53)"
    by (simp add: pow2_def [of "- 53"] pow2_add [of "f64_exp x" "- 52", simplified] pow2_def [of "- 52"])
  also have "\<dots> \<le> x * pow2 (- 53)"
    by (rule mult_right_mono [OF f64_exp_bounds(1) [OF x0]]) (simp add: less_imp_le)
  also have "\<dots> = of_int t / 2 ^ 53 / of_int s"
    by (simp add: x_def pow2_def)
  also have "\<dots> < 1 / of_int s"
  proof (rule divide_strict_right_mono)
    show "of_int t / (2 ^ 53 :: rat) < 1"
      using assms(2) by (simp add: pos_divide_less_eq)
  qed (use s1 in linarith)
  finally have "\<bar>f64_round_pos x - x\<bar> < 1 / of_int s"
    using f64_round_pos_error [OF x0] by linarith
  then have "of_int (n - 1) < f64_round_pos x"
    using gap by linarith
  then have "\<lceil>f64_round_pos x\<rceil> = n"
    using up by (simp add: ceiling_eq_iff)
  then show ?thesis
    using x0 by (simp add: f64_round_def n_def flip: x_def)
qed

subsection \<open>Positive values\<close>

fun f64_pos :: "float64 \<Rightarrow> bool" where
  "f64_pos (Fin x) = (0 < x)" | "f64_pos PInf = True" | "f64_pos _ = False"

lemma f64_of_pos: "0 < x \<Longrightarrow> f64_pos (f64_of x)"
  using f64_round_pos_nonneg [of x] by (simp add: f64_of_def f64_round_def Let_def)

lemma f64_mul_pos: "f64_pos a \<Longrightarrow> f64_pos b \<Longrightarrow> f64_pos (f64_mul a b)"
  by (cases a; cases b) (auto simp: f64_of_pos)

lemma f64_pow_pos: "f64_pos a \<Longrightarrow> f64_pos (f64_pow a k)"
  by (cases a; cases k) (auto simp: f64_of_pos simp del: power_Suc)

lemma f64_of_scaled:
  assumes "0 < n" and "n \<le> 2 ^ 53" and "k \<le> 900"
  shows "f64_of (of_int n * 2 ^ k) = Fin (of_int n * 2 ^ k)"
proof -
  have "of_int n * 2 ^ k \<le> (2 ^ 53 * 2 ^ 900 :: rat)"
    using assms by (intro mult_mono power_increasing) simp_all
  then have "of_int n * 2 ^ k < (2 ^ 1024 :: rat)"
    by (rule order_le_less_trans) simp
  moreover have "0 < (of_int n * 2 ^ k :: rat)" using assms(1) by simp
  moreover have "- (2 ^ 1024 :: rat) < 0" by simp
  ultimately show ?thesis
    using f64_round_pos_exact [OF assms(1,2), of "int k"]
    by (simp add: f64_of_def f64_round_def Let_def pow2_of_nat del: power_numeral)
qed

lemma f64_of_ge:
  assumes "(2 ^ k :: rat) \<le> x"
  shows "f64_of x = PInf \<or> (\<exists>r. f64_of x = Fin r \<and> 2 ^ k \<le> r)"
proof -
  have x0: "0 < x" using assms by (rule order_less_le_trans [rotated]) simp
  have "(2 ^ k :: rat) = f64_round_pos (2 ^ k)"
    using f64_round_pos_exact [of 1 "int k"] by (simp add: pow2_of_nat)
  also have "\<dots> \<le> f64_round_pos x"
    by (rule f64_round_pos_mono) (simp_all add: assms)
  finally have "2 ^ k \<le> f64_round_pos x" .
  moreover have "- (2 ^ 1024 :: rat) < 0" by simp
  ultimately show ?thesis
    using x0 f64_round_pos_nonneg [OF x0]
    by (auto simp: f64_of_def f64_round_def Let_def simp del: power_numeral)
qed

subsection \<open>Ceiling of a quotient of integers\<close>

text \<open>\<^verbatim>\<open>math.Ceil(float64(a) / float64(b))\<close>.\<close>

definition f64_ceil_div :: "int \<Rightarrow> int \<Rightarrow> float64" where
  "f64_ceil_div a b =
     (case (f64_of_int a, f64_of_int b) of
        (Fin x, Fin y) \<Rightarrow>
          (case f64_div_fin x y of Fin q \<Rightarrow> Fin (of_int \<lceil>q\<rceil>) | f \<Rightarrow> f)
      | _ \<Rightarrow> NaN)"

lemma ceiling_div_int:
  assumes "0 < s"
  shows "\<lceil>of_int t / (of_int s :: rat)\<rceil> = (t + s - 1) div s"
proof -
  define q r where "q = (t + s - 1) div s" and "r = (t + s - 1) mod s"
  have "t + s - 1 = s * q + r" and r: "0 \<le> r" "r < s"
    using assms by (simp_all add: q_def r_def)
  then have t: "t \<le> q * s" "(q - 1) * s < t" by (simp_all add: algebra_simps)
  have "(of_int t :: rat) \<le> of_int (q * s)" "(of_int ((q - 1) * s) :: rat) < of_int t"
    using t by (simp_all only: of_int_le_iff of_int_less_iff)
  then have "of_int t / (of_int s :: rat) \<le> of_int q" "of_int (q - 1) < of_int t / (of_int s :: rat)"
    using assms by (simp_all add: pos_divide_le_eq pos_less_divide_eq)
  then show ?thesis unfolding q_def [symmetric] by (simp add: ceiling_eq_iff)
qed

lemma div_le_self_int: "0 \<le> (a :: int) \<Longrightarrow> 0 < b \<Longrightarrow> a div b \<le> a"
  by (metis div_by_1 int_one_le_iff_zero_less zdiv_mono2 zero_less_one)

lemma f64_ceil_div_exact:
  assumes "0 \<le> t" and "t < 2 ^ 53" and "0 < s" and "s \<le> 2 ^ 53"
  shows "f64_ceil_div t s = Fin (of_int ((t + s - 1) div s))"
proof -
  have e: "f64_of_int t = Fin (of_int t)" "f64_of_int s = Fin (of_int s)"
    using assms by (simp_all add: f64_of_int_exact)
  define x :: rat where "x = of_int t / of_int s"
  have c: "\<lceil>f64_round x\<rceil> = (t + s - 1) div s"
    using f64_div_ceil [OF assms(1-3)] ceiling_div_int [OF assms(3)] by (simp add: x_def)
  have "(t + s - 1) div s \<le> t + s - 1"
    using assms by (intro div_le_self_int) simp_all
  then have "\<lceil>f64_round x\<rceil> \<le> 2 ^ 54"
    using assms unfolding c by simp
  then have "f64_round x \<le> 2 ^ 54"
    by (metis ceiling_le_iff of_int_numeral of_int_power)
  moreover have "(2 ^ 54 :: rat) < 2 ^ 1024" by simp
  ultimately have "f64_round x < 2 ^ 1024" by linarith
  moreover have "0 \<le> f64_round x"
    using f64_round_pos_nonneg [of x] assms by (auto simp: f64_round_def x_def divide_less_0_iff less_imp_le)
  moreover have "- (2 ^ 1024 :: rat) < 0" by simp
  ultimately have "f64_of x = Fin (f64_round x)"
    by (simp add: f64_of_def Let_def del: power_numeral)
  then show ?thesis
    using assms(3) by (simp add: f64_ceil_div_def e f64_div_fin_def c flip: x_def)
qed

end
