(* ===== verification/Retry.thy ===== *)
theory Retry
  imports CircuitBreaker Float64
begin

text \<open>
  \<^verbatim>\<open>resilience/backoff.go\<close>, \<^verbatim>\<open>resilience/retry.go\<close> and \<^verbatim>\<open>resilience/grpc.go\<close>: the retry
  policy and its delay, the retry loop and the gRPC interceptor built from the loop and the
  breaker.

  The world the loop runs in is a state \<open>'s\<close> with the functions of \<open>retry_env\<close>: what
  \<^verbatim>\<open>ctx.Err()\<close> says, what an attempt does, how a timed wait ends, and the two things outside the
  program (the random source and the platform's out-of-range float conversion).
\<close>

subsection \<open>Policy (backoff.go)\<close>

record Policy =
  MaxAttempts :: int
  BaseDelay :: int
  MaxDelay :: int
  Multiplier :: float64
  Jitter :: bool
  rng :: "(int \<Rightarrow> int) option"

definition DefaultPolicy :: Policy where
  "DefaultPolicy = \<lparr>MaxAttempts = 3, BaseDelay = 100 * 10 ^ 6, MaxDelay = 10 * 10 ^ 9,
     Multiplier = Fin 2, Jitter = True, rng = None\<rparr>"

definition NewPolicy :: "(Policy \<Rightarrow> Policy) list \<Rightarrow> Policy" where
  "NewPolicy opts = fold (\<lambda>opt p. opt p) opts DefaultPolicy"

definition WithMaxAttempts :: "int \<Rightarrow> Policy \<Rightarrow> Policy" where "WithMaxAttempts n p = p\<lparr>MaxAttempts := n\<rparr>"
definition WithBaseDelay :: "int \<Rightarrow> Policy \<Rightarrow> Policy" where "WithBaseDelay d p = p\<lparr>BaseDelay := d\<rparr>"
definition WithMaxDelay :: "int \<Rightarrow> Policy \<Rightarrow> Policy" where "WithMaxDelay d p = p\<lparr>MaxDelay := d\<rparr>"
definition WithMultiplier :: "float64 \<Rightarrow> Policy \<Rightarrow> Policy" where "WithMultiplier m p = p\<lparr>Multiplier := m\<rparr>"
definition WithJitter :: "bool \<Rightarrow> Policy \<Rightarrow> Policy" where "WithJitter on p = p\<lparr>Jitter := on\<rparr>"
definition WithJitterSource :: "(int \<Rightarrow> int) option \<Rightarrow> Policy \<Rightarrow> Policy" where
  "WithJitterSource f p = p\<lparr>rng := f\<rparr>"

lemmas policy_option_defs = WithMaxAttempts_def WithBaseDelay_def WithMaxDelay_def WithMultiplier_def
  WithJitter_def WithJitterSource_def

definition attempts :: "Policy \<Rightarrow> int" where
  "attempts p = (if MaxAttempts p < 1 then 1 else MaxAttempts p)"

text \<open>\<^verbatim>\<open>rand.Int63n\<close> panics on a non-positive argument, and \<^verbatim>\<open>n + 1\<close> wraps: \<open>None\<close> is the panic.\<close>

definition jitter :: "(int \<Rightarrow> int) \<Rightarrow> Policy \<Rightarrow> int \<Rightarrow> int option" where
  "jitter Int63n p n =
     (if n \<le> 0 then Some 0
      else case rng p of
             Some f \<Rightarrow> Some (f n)
           | None \<Rightarrow> (if int64 (n + 1) \<le> 0 then None else Some (Int63n (int64 (n + 1)))))"

definition Backoff :: "(float64 \<Rightarrow> int) \<Rightarrow> (int \<Rightarrow> int) \<Rightarrow> Policy \<Rightarrow> int \<Rightarrow> int option" where
  "Backoff oor Int63n p attempt =
     (if attempt \<le> 1 then Some 0
      else (let mult = (if f64_less (Multiplier p) (Fin 1) then Fin 1 else Multiplier p);
                d = f64_mul (f64_of_int (BaseDelay p)) (f64_pow mult (nat (attempt - 2)));
                mx = f64_of_int (MaxDelay p);
                d' = (if MaxDelay p > 0 \<and> f64_less mx d then mx else d);
                delay = f64_to_int64 oor d';
                delay' = (if delay < 0 then MaxDelay p else delay)
            in if Jitter p \<and> delay' > 0 then jitter Int63n p delay' else Some delay'))"

subsection \<open>The retry loop (retry.go)\<close>

definition defaultRetryable :: "goerr option \<Rightarrow> bool" where
  "defaultRetryable err =
     (case err of None \<Rightarrow> False
      | Some e \<Rightarrow> \<not> (errors_Is e Canceled \<or> errors_Is e DeadlineExceeded))"

record retryConfig =
  retryable :: "goerr option \<Rightarrow> bool"
  onRetry :: bool

definition WithRetryable :: "(goerr option \<Rightarrow> bool) option \<Rightarrow> retryConfig \<Rightarrow> retryConfig" where
  "WithRetryable f c = (case f of None \<Rightarrow> c | Some g \<Rightarrow> c\<lparr>retryable := g\<rparr>)"

definition WithOnRetry :: "bool \<Rightarrow> retryConfig \<Rightarrow> retryConfig" where
  "WithOnRetry hook c = c\<lparr>onRetry := hook\<rparr>"

record 's retry_env =
  ctxErr :: "'s \<Rightarrow> goerr option"
  timedWait :: "int \<Rightarrow> 's \<Rightarrow> 's \<times> bool"
  Int63n :: "'s \<Rightarrow> int \<Rightarrow> int"
  convOOR :: "float64 \<Rightarrow> int"

text \<open>\<^verbatim>\<open>sleepCtx\<close>: \<open>timedWait d s\<close> is the world after the select and whether the \<^verbatim>\<open>ctx.Done()\<close> case was taken.\<close>

definition sleepCtx :: "'s retry_env \<Rightarrow> int \<Rightarrow> 's \<Rightarrow> 's \<times> goerr option" where
  "sleepCtx E d s =
     (if d \<le> 0 then (s, ctxErr E s)
      else case timedWait E d s of (s', cancelled) \<Rightarrow> (s', if cancelled then ctxErr E s' else None))"

datatype retry_result = RetErr "goerr option" | RetPanic

type_synonym retry_log = "(int \<times> goerr \<times> int) list"

text \<open>The loop of \<^verbatim>\<open>Retry\<close>. The log holds the calls of the \<^verbatim>\<open>onRetry\<close> hook.\<close>

function retry_loop ::
  "'s retry_env \<Rightarrow> Policy \<Rightarrow> retryConfig \<Rightarrow> ('s \<Rightarrow> 's \<times> goerr option) \<Rightarrow> int \<Rightarrow> int \<Rightarrow> goerr option
   \<Rightarrow> 's \<Rightarrow> retry_log \<Rightarrow> 's \<times> retry_log \<times> retry_result" where
  "retry_loop E p cfg fn n attempt lastErr s lg =
     (if attempt \<le> n
      then (case ctxErr E s of
              Some e \<Rightarrow> (s, lg, RetErr (Some e))
            | None \<Rightarrow>
                (case fn s of
                   (s1, None) \<Rightarrow> (s1, lg, RetErr None)
                 | (s1, Some e) \<Rightarrow>
                     if attempt = n \<or> \<not> retryable cfg (Some e) then (s1, lg, RetErr (Some e))
                     else (case Backoff (convOOR E) (Int63n E s1) p (attempt + 1) of
                             None \<Rightarrow> (s1, lg, RetPanic)
                           | Some delay \<Rightarrow>
                               (let lg' = (if onRetry cfg then lg @ [(attempt, e, delay)] else lg)
                                in case sleepCtx E delay s1 of
                                     (s2, Some e') \<Rightarrow> (s2, lg', RetErr (Some e'))
                                   | (s2, None) \<Rightarrow>
                                       retry_loop E p cfg fn n (attempt + 1) (Some e) s2 lg'))))
      else (s, lg, RetErr lastErr))"
  by pat_completeness auto
termination
  by (relation "measure (\<lambda>(E, p, cfg, fn, n, attempt, lastErr, s, lg). nat (n + 1 - attempt))") auto

declare retry_loop.simps [simp del]

definition Retry ::
  "'s retry_env \<Rightarrow> Policy \<Rightarrow> ('s \<Rightarrow> 's \<times> goerr option) \<Rightarrow> (retryConfig \<Rightarrow> retryConfig) list \<Rightarrow> 's
   \<Rightarrow> 's \<times> retry_log \<times> retry_result" where
  "Retry E policy fn opts s =
     (let cfg = fold (\<lambda>opt c. opt c) opts \<lparr>retryable = defaultRetryable, onRetry = False\<rparr>
      in retry_loop E policy cfg fn (attempts policy) 1 None s [])"

subsection \<open>The gRPC interceptor (grpc.go)\<close>

definition defaultRetryableCodes :: "nat list" where
  "defaultRetryableCodes = [14, 8, 10]"

text \<open>\<^verbatim>\<open>status.Code\<close>: the code of the gRPC status in the chain, \<open>Unknown\<close> (2) when there is none.\<close>

definition status_Code :: "goerr \<Rightarrow> nat" where
  "status_Code e =
     (case find (\<lambda>x. case x of GrpcStatus _ _ \<Rightarrow> True | _ \<Rightarrow> False) (err_chain e) of
        Some (GrpcStatus c m) \<Rightarrow> c | _ \<Rightarrow> 2)"

record grpcConfig =
  grpc_policy :: Policy
  grpc_hasBreaker :: bool
  grpc_isRetryable :: "nat \<Rightarrow> bool"
  grpc_onRetry :: bool

definition defaultGrpcConfig :: grpcConfig where
  "defaultGrpcConfig = \<lparr>grpc_policy = DefaultPolicy, grpc_hasBreaker = False,
     grpc_isRetryable = (\<lambda>c. c \<in> set defaultRetryableCodes), grpc_onRetry = False\<rparr>"

definition WithGRPCPolicy :: "Policy \<Rightarrow> grpcConfig \<Rightarrow> grpcConfig" where
  "WithGRPCPolicy p c = c\<lparr>grpc_policy := p\<rparr>"
definition WithGRPCBreaker :: "bool \<Rightarrow> grpcConfig \<Rightarrow> grpcConfig" where
  "WithGRPCBreaker b c = c\<lparr>grpc_hasBreaker := b\<rparr>"
definition WithRetryableCodes :: "nat list \<Rightarrow> grpcConfig \<Rightarrow> grpcConfig" where
  "WithRetryableCodes cs c = c\<lparr>grpc_isRetryable := (\<lambda>code. code \<in> set cs)\<rparr>"
definition WithGRPCOnRetry :: "bool \<Rightarrow> grpcConfig \<Rightarrow> grpcConfig" where
  "WithGRPCOnRetry h c = c\<lparr>grpc_onRetry := h\<rparr>"

text \<open>One guarded call: the breaker (when configured) is part of the world, read with the world's clock.\<close>

definition grpc_call ::
  "grpcConfig \<Rightarrow> ('s \<Rightarrow> int) \<Rightarrow> ('s \<Rightarrow> 's \<times> goerr option) \<Rightarrow> CircuitBreaker \<times> 's
   \<Rightarrow> (CircuitBreaker \<times> 's) \<times> goerr option" where
  "grpc_call cfg clock invoker bs =
     (if \<not> grpc_hasBreaker cfg
      then (case invoker (snd bs) of (s', err) \<Rightarrow> ((fst bs, s'), err))
      else Execute (clock (snd bs)) (clock (fst (invoker (snd bs)))) invoker bs)"

definition grpc_retryable :: "grpcConfig \<Rightarrow> goerr option \<Rightarrow> bool" where
  "grpc_retryable cfg err = (case err of None \<Rightarrow> False | Some e \<Rightarrow> grpc_isRetryable cfg (status_Code e))"

text \<open>The world of a call with a breaker beside it; waiting and the context do not touch the breaker.\<close>

definition with_breaker :: "'s retry_env \<Rightarrow> (CircuitBreaker \<times> 's) retry_env" where
  "with_breaker E = \<lparr>ctxErr = (\<lambda>bs. ctxErr E (snd bs)),
     timedWait = (\<lambda>d bs. case timedWait E d (snd bs) of (s', c) \<Rightarrow> ((fst bs, s'), c)),
     Int63n = (\<lambda>bs. Int63n E (snd bs)), convOOR = convOOR E\<rparr>"

definition UnaryClientInterceptor ::
  "(grpcConfig \<Rightarrow> grpcConfig) list \<Rightarrow> ('s \<Rightarrow> int) \<Rightarrow> 's retry_env
   \<Rightarrow> ('s \<Rightarrow> 's \<times> goerr option) \<Rightarrow> CircuitBreaker \<times> 's
   \<Rightarrow> (CircuitBreaker \<times> 's) \<times> retry_log \<times> retry_result" where
  "UnaryClientInterceptor opts clock E invoker bs =
     (let cfg = fold (\<lambda>opt c. opt c) opts defaultGrpcConfig
      in Retry (with_breaker E) (grpc_policy cfg) (grpc_call cfg clock invoker)
           [WithRetryable (Some (grpc_retryable cfg)), WithOnRetry (grpc_onRetry cfg)] bs)"

subsection \<open>Delays\<close>

text \<open>A jitter source that keeps its documented range.\<close>

definition jitter_source_ok :: "(int \<Rightarrow> int) \<Rightarrow> Policy \<Rightarrow> bool" where
  "jitter_source_ok I p \<longleftrightarrow>
     (case rng p of Some f \<Rightarrow> \<forall>n > 0. 0 \<le> f n \<and> f n \<le> n | None \<Rightarrow> \<forall>n > 0. 0 \<le> I n \<and> I n < n)"

lemma jitter_range:
  assumes "jitter_source_ok I p" and "0 \<le> n" and "n \<le> 2 ^ 53"
  shows "\<exists>d. jitter I p n = Some d \<and> 0 \<le> d \<and> d \<le> n"
proof -
  have "int64 (n + 1) = n + 1" using assms by (intro int64_id) (simp add: in_int64_def)
  then show ?thesis
    using assms by (auto simp: jitter_def jitter_source_ok_def zless_add1_eq split: option.splits
        dest: spec [of _ "n + 1"])
qed

lemma f64_cap:
  assumes "0 < M" and "M \<le> 2 ^ 53" and "f64_pos d"
  shows "\<exists>y. (if f64_less (Fin (of_int M)) d then Fin (of_int M) else d) = Fin y \<and> 0 < y \<and> y \<le> of_int M"
  using assms by (cases d) auto

lemma f64_to_int64_range:
  assumes "0 < y" and "y \<le> of_int M" and "M \<le> 2 ^ 53"
  shows "f64_to_int64 oor (Fin y) = \<lfloor>y\<rfloor>" and "0 \<le> \<lfloor>y\<rfloor>" and "\<lfloor>y\<rfloor> \<le> M"
proof -
  show a: "0 \<le> \<lfloor>y\<rfloor>" and b: "\<lfloor>y\<rfloor> \<le> M" using assms by (simp_all add: floor_le_iff)
  show "f64_to_int64 oor (Fin y) = \<lfloor>y\<rfloor>"
    using a b assms by (simp add: f64_to_int64_def trunc_rat_def in_int64_def less_imp_le)
qed

lemma f64_growth_pos: "mult \<noteq> NaN \<Longrightarrow> f64_pos (f64_pow (if f64_less mult (Fin 1) then Fin 1 else mult) k)"
  by (rule f64_pow_pos) (cases mult; auto)

lemma f64_of_int_pos: "0 < n \<Longrightarrow> f64_pos (f64_of_int n)"
  by (simp add: f64_of_int_def f64_of_pos)

lemma backoff_growth_pos:
  "0 < BaseDelay p \<Longrightarrow> Multiplier p \<noteq> NaN
   \<Longrightarrow> f64_pos (f64_mul (f64_of_int (BaseDelay p))
        (f64_pow (if f64_less (Multiplier p) (Fin 1) then Fin 1 else Multiplier p) k))"
  by (intro f64_mul_pos f64_of_int_pos f64_growth_pos)

text \<open>\<^verbatim>\<open>Backoff\<close> once the capped growth is known.\<close>

definition backoff_growth :: "Policy \<Rightarrow> int \<Rightarrow> float64" where
  "backoff_growth p a = f64_mul (f64_of_int (BaseDelay p))
     (f64_pow (if f64_less (Multiplier p) (Fin 1) then Fin 1 else Multiplier p) (nat (a - 2)))"

lemma Backoff_capped:
  assumes "1 < a" and "0 < MaxDelay p" and "MaxDelay p \<le> 2 ^ 53"
    and "(if f64_less (Fin (of_int (MaxDelay p))) (backoff_growth p a) then Fin (of_int (MaxDelay p))
          else backoff_growth p a) = Fin y"
    and "0 < y" and "y \<le> of_int (MaxDelay p)"
  shows "Backoff oor I p a = (if Jitter p \<and> 0 < \<lfloor>y\<rfloor> then jitter I p \<lfloor>y\<rfloor> else Some \<lfloor>y\<rfloor>)"
proof -
  note r = f64_to_int64_range(1) [OF assms(5,6,3), of oor] f64_to_int64_range(2) [OF assms(5,6,3)]
  have "f64_of_int (MaxDelay p) = Fin (of_int (MaxDelay p))"
    using assms by (intro f64_of_int_exact) simp
  then have c: "(if 0 < MaxDelay p \<and> f64_less (f64_of_int (MaxDelay p)) (backoff_growth p a)
      then f64_of_int (MaxDelay p) else backoff_growth p a) = Fin y"
    using assms(2,4) by (auto split: if_splits)
  show ?thesis
    unfolding Backoff_def Let_def backoff_growth_def [symmetric] c using assms(1) r by simp
qed

text \<open>
  C30: For a policy with a positive base delay, a multiplier that is not NaN and a
  positive cap of at most \<open>2 ^ 53\<close> nanoseconds (104 days), whatever the attempt number and the jitter, the cap is respected: \<^verbatim>\<open>Backoff\<close> returns a delay
  between zero and \<^verbatim>\<open>MaxDelay\<close>, it never panics, and an infinite or overflowing power ends at the cap.
\<close>

theorem backoff_bounded:
  assumes "0 < BaseDelay p" and "0 < MaxDelay p" and "MaxDelay p \<le> 2 ^ 53"
    and "Multiplier p \<noteq> NaN" and "jitter_source_ok I p"
  shows "\<exists>d. Backoff oor I p a = Some d \<and> 0 \<le> d \<and> d \<le> MaxDelay p"
proof (cases "a \<le> 1")
  case True
  then show ?thesis using assms by (simp add: Backoff_def)
next
  case False
  have "f64_pos (backoff_growth p a)"
    unfolding backoff_growth_def by (rule backoff_growth_pos [OF assms(1,4)])
  then obtain y where y: "(if f64_less (Fin (of_int (MaxDelay p))) (backoff_growth p a)
        then Fin (of_int (MaxDelay p)) else backoff_growth p a) = Fin y"
      "0 < y" "y \<le> of_int (MaxDelay p)"
    using f64_cap [OF assms(2,3)] by blast
  have "Backoff oor I p a = (if Jitter p \<and> 0 < \<lfloor>y\<rfloor> then jitter I p \<lfloor>y\<rfloor> else Some \<lfloor>y\<rfloor>)"
    using False by (intro Backoff_capped [OF _ assms(2,3) y]) simp
  moreover have "0 \<le> \<lfloor>y\<rfloor>" "\<lfloor>y\<rfloor> \<le> MaxDelay p"
    using f64_to_int64_range(2,3) [OF y(2,3) assms(3)] by blast+
  moreover have "\<exists>d. jitter I p \<lfloor>y\<rfloor> = Some d \<and> 0 \<le> d \<and> d \<le> \<lfloor>y\<rfloor>"
    using calculation(2,3) assms(3) by (intro jitter_range [OF assms(5)]) linarith+
  ultimately show ?thesis by fastforce
qed

theorem backoff_bounded_witness:
  "\<exists>d. Backoff (\<lambda>_. - (2 ^ 63)) (\<lambda>n. n - 1) (DefaultPolicy\<lparr>Multiplier := PInf\<rparr>) 5000 = Some d \<and> 0 \<le> d \<and> d \<le> 10 ^ 10"
  using backoff_bounded [of "DefaultPolicy\<lparr>Multiplier := PInf\<rparr>" "\<lambda>n. n - 1" "\<lambda>_. - (2 ^ 63)" 5000]
  by (simp add: DefaultPolicy_def jitter_source_ok_def)

lemma growth_doubling:
  assumes "0 < BaseDelay p" and "BaseDelay p \<le> 2 ^ 53" and "Multiplier p = Fin 2" and "1 < a"
  shows "a - 2 \<le> 60 \<Longrightarrow> backoff_growth p a = Fin (of_int (BaseDelay p * 2 ^ nat (a - 2)))"
    and "60 < a - 2 \<Longrightarrow> f64_less (Fin (2 ^ 53)) (backoff_growth p a)"
proof -
  have b: "f64_of_int (BaseDelay p) = Fin (of_int (BaseDelay p))"
    using assms by (intro f64_of_int_exact) simp
  { assume "a - 2 \<le> 60"
    then have k: "nat (a - 2) \<le> 900" by simp
    have "f64_pow (Fin 2) (nat (a - 2)) = Fin (2 ^ nat (a - 2))"
      using f64_of_scaled [of 1 "nat (a - 2)"] k by (cases "nat (a - 2)") (simp_all del: power_Suc)
    then show "backoff_growth p a = Fin (of_int (BaseDelay p * 2 ^ nat (a - 2)))"
      using assms b f64_of_scaled [OF assms(1,2) k] by (simp add: backoff_growth_def) }
  { assume "60 < a - 2"
    then obtain j where j: "nat (a - 2) = Suc j" "60 \<le> j" by (cases "nat (a - 2)") auto
    have "(2 ^ 60 :: rat) \<le> 2 ^ Suc j" using j by (intro power_increasing) simp_all
    then have "f64_pow (Fin 2) (nat (a - 2)) = PInf \<or> (\<exists>r. f64_pow (Fin 2) (nat (a - 2)) = Fin r \<and> 2 ^ 60 \<le> r)"
      using f64_of_ge [of 60 "2 ^ Suc j"] by (simp only: j f64_pow.simps)
    then show "f64_less (Fin (2 ^ 53)) (backoff_growth p a)"
    proof
      assume "f64_pow (Fin 2) (nat (a - 2)) = PInf"
      then show ?thesis using assms b by (simp add: backoff_growth_def)
    next
      assume "\<exists>r. f64_pow (Fin 2) (nat (a - 2)) = Fin r \<and> 2 ^ 60 \<le> r"
      then obtain r where r: "f64_pow (Fin 2) (nat (a - 2)) = Fin r" "2 ^ 60 \<le> r" by blast
      have "1 * 2 ^ 60 \<le> of_int (BaseDelay p) * r"
        using r(2) assms(1) by (intro mult_mono) simp_all
      then show ?thesis
        using assms b r f64_of_ge [of 60 "of_int (BaseDelay p) * r"] by (auto simp: backoff_growth_def)
    qed }
qed

text \<open>
  With the default growth factor 2 and no jitter the delay before attempt \<open>a \<ge> 2\<close> is exactly
  \<^verbatim>\<open>BaseDelay * 2^(a-2)\<close>, cut at \<^verbatim>\<open>MaxDelay\<close>: the float64 computation loses nothing, for every
  attempt number, also where the power overflows to an infinity.
\<close>

theorem backoff_exponential:
  assumes "0 < BaseDelay p" and "BaseDelay p \<le> 2 ^ 53" and "0 < MaxDelay p" and "MaxDelay p \<le> 2 ^ 53"
    and "Multiplier p = Fin 2" and "\<not> Jitter p" and "2 \<le> a"
  shows "Backoff oor I p a = Some (min (MaxDelay p) (BaseDelay p * 2 ^ nat (a - 2)))"
proof (cases "a - 2 \<le> 60")
  case True
  have g: "backoff_growth p a = Fin (of_int (BaseDelay p * 2 ^ nat (a - 2)))"
    using assms True by (intro growth_doubling(1)) simp_all
  have "(if f64_less (Fin (of_int (MaxDelay p))) (backoff_growth p a) then Fin (of_int (MaxDelay p))
          else backoff_growth p a) = Fin (of_int (min (MaxDelay p) (BaseDelay p * 2 ^ nat (a - 2))))"
    unfolding g by (simp add: min_def del: of_int_mult)
  moreover have "0 < min (MaxDelay p) (BaseDelay p * 2 ^ nat (a - 2))"
    using assms by simp
  ultimately show ?thesis
    using assms by (subst Backoff_capped) (simp_all only: of_int_0_less_iff of_int_le_iff floor_of_int, simp_all)
next
  case False
  have "f64_less (Fin (2 ^ 53)) (backoff_growth p a)"
    using assms False by (intro growth_doubling(2)) simp_all
  moreover have "(of_int (MaxDelay p) :: rat) \<le> 2 ^ 53" using assms(4) by simp
  ultimately have "f64_less (Fin (of_int (MaxDelay p))) (backoff_growth p a)"
    by (cases "backoff_growth p a") auto
  then have "Backoff oor I p a = Some (MaxDelay p)"
    using assms by (subst Backoff_capped [where y = "of_int (MaxDelay p)"]) simp_all
  moreover have "MaxDelay p \<le> 1 * 2 ^ 60" using assms(4) by simp
  moreover have "1 * 2 ^ 60 \<le> BaseDelay p * 2 ^ nat (a - 2)"
    using assms False by (intro mult_mono power_increasing) simp_all
  ultimately show ?thesis by simp
qed

theorem backoff_exponential_witness:
  "Backoff (\<lambda>_. - (2 ^ 63)) (\<lambda>n. 0) (WithJitter False DefaultPolicy) 5 = Some 800000000
   \<and> Backoff (\<lambda>_. - (2 ^ 63)) (\<lambda>n. 0) (WithJitter False DefaultPolicy) 2000 = Some 10000000000"
  using backoff_exponential [of "WithJitter False DefaultPolicy" 5 "\<lambda>_. - (2 ^ 63)" "\<lambda>n. 0"]
    backoff_exponential [of "WithJitter False DefaultPolicy" 2000 "\<lambda>_. - (2 ^ 63)" "\<lambda>n. 0"]
  by (simp_all add: DefaultPolicy_def WithJitter_def)

subsection \<open>What the loop returns\<close>

text \<open>One round that ends in another attempt: a failed, retryable call and its completed wait.\<close>

definition retried_round ::
  "'s retry_env \<Rightarrow> Policy \<Rightarrow> retryConfig \<Rightarrow> ('s \<Rightarrow> 's \<times> goerr option) \<Rightarrow> int \<Rightarrow> 's \<Rightarrow> 's option" where
  "retried_round E p cfg fn attempt s =
     (if ctxErr E s \<noteq> None then None
      else case fn s of
             (s1, None) \<Rightarrow> None
           | (s1, Some e) \<Rightarrow>
               (if \<not> retryable cfg (Some e) then None
                else case Backoff (convOOR E) (Int63n E s1) p (attempt + 1) of
                       None \<Rightarrow> None
                     | Some delay \<Rightarrow> (case sleepCtx E delay s1 of (s2, None) \<Rightarrow> Some s2 | (s2, Some e') \<Rightarrow> None)))"

fun retried_rounds ::
  "'s retry_env \<Rightarrow> Policy \<Rightarrow> retryConfig \<Rightarrow> ('s \<Rightarrow> 's \<times> goerr option) \<Rightarrow> int \<Rightarrow> nat \<Rightarrow> 's \<Rightarrow> 's option" where
  "retried_rounds E p cfg fn attempt 0 s = Some s"
| "retried_rounds E p cfg fn attempt (Suc k) s =
     (case retried_round E p cfg fn attempt s of
        None \<Rightarrow> None | Some s' \<Rightarrow> retried_rounds E p cfg fn (attempt + 1) k s')"

text \<open>The last round: how the loop ends at attempt \<open>a\<close> of \<open>n\<close>.\<close>

definition ends_at ::
  "'s retry_env \<Rightarrow> Policy \<Rightarrow> retryConfig \<Rightarrow> ('s \<Rightarrow> 's \<times> goerr option) \<Rightarrow> int \<Rightarrow> int \<Rightarrow> 's
   \<Rightarrow> 's \<Rightarrow> retry_result \<Rightarrow> bool" where
  "ends_at E p cfg fn n a s s' r \<longleftrightarrow>
     (\<exists>e. ctxErr E s = Some e \<and> s' = s \<and> r = RetErr (Some e))
   \<or> ctxErr E s = None \<and> fn s = (s', None) \<and> r = RetErr None
   \<or> (\<exists>e. ctxErr E s = None \<and> fn s = (s', Some e) \<and> (a = n \<or> \<not> retryable cfg (Some e)) \<and> r = RetErr (Some e))
   \<or> (\<exists>e. ctxErr E s = None \<and> fn s = (s', Some e) \<and> a < n \<and> retryable cfg (Some e)
        \<and> Backoff (convOOR E) (Int63n E s') p (a + 1) = None \<and> r = RetPanic)
   \<or> (\<exists>s1 e d e'. ctxErr E s = None \<and> fn s = (s1, Some e) \<and> a < n \<and> retryable cfg (Some e)
        \<and> Backoff (convOOR E) (Int63n E s1) p (a + 1) = Some d \<and> sleepCtx E d s1 = (s', Some e')
        \<and> r = RetErr (Some e'))"

lemma retry_loop_round:
  assumes "a \<le> n"
  shows "ends_at E p cfg fn n a s (fst (retry_loop E p cfg fn n a le s lg))
           (snd (snd (retry_loop E p cfg fn n a le s lg)))
       \<or> (a < n \<and> (\<exists>s' e lg'. retried_round E p cfg fn a s = Some s'
            \<and> retry_loop E p cfg fn n a le s lg = retry_loop E p cfg fn n (a + 1) (Some e) s' lg'))"
proof (cases "ctxErr E s")
  case (Some e)
  then show ?thesis using assms by (subst (1 2) retry_loop.simps) (simp add: ends_at_def)
next
  case ctx: None
  obtain s1 r where fn: "fn s = (s1, r)" by fastforce
  show ?thesis
  proof (cases r)
    case None
    then show ?thesis using assms ctx fn by (subst (1 2) retry_loop.simps) (simp add: ends_at_def)
  next
    case e: (Some e)
    show ?thesis
    proof (cases "a = n \<or> \<not> retryable cfg (Some e)")
      case True
      then show ?thesis using assms ctx fn e by (subst (1 2) retry_loop.simps) (auto simp: ends_at_def)
    next
      case again: False
      show ?thesis
      proof (cases "Backoff (convOOR E) (Int63n E s1) p (a + 1)")
        case None
        then show ?thesis
          using assms ctx fn e again by (subst (1 2) retry_loop.simps) (auto simp: ends_at_def)
      next
        case d: (Some d)
        obtain s2 w where w: "sleepCtx E d s1 = (s2, w)" by fastforce
        show ?thesis
        proof (cases w)
          case None
          then have "retry_loop E p cfg fn n a le s lg = retry_loop E p cfg fn n (a + 1) (Some e) s2
              (if onRetry cfg then lg @ [(a, e, d)] else lg)"
            using assms ctx fn e again d w by (subst retry_loop.simps) simp
          moreover have "retried_round E p cfg fn a s = Some s2"
            using None ctx fn e again d w by (simp add: retried_round_def)
          ultimately show ?thesis using again assms by auto
        next
          case (Some e')
          then show ?thesis
            using assms ctx fn e again d w by (subst (1 2) retry_loop.simps) (auto simp: ends_at_def Let_def)
        qed
      qed
    qed
  qed
qed

lemma retry_loop_ends:
  assumes "a \<le> n"
  shows "\<exists>k sk. int k \<le> n - a \<and> retried_rounds E p cfg fn a k s = Some sk
     \<and> ends_at E p cfg fn n (a + int k) sk (fst (retry_loop E p cfg fn n a le s lg))
         (snd (snd (retry_loop E p cfg fn n a le s lg)))"
  using assms
proof (induction "nat (n - a)" arbitrary: a le s lg)
  case 0
  then have "a = n" by simp
  then show ?case using retry_loop_round [of a n E p cfg fn s le lg] by (intro exI [of _ 0]) auto
next
  case (Suc m)
  consider "ends_at E p cfg fn n a s (fst (retry_loop E p cfg fn n a le s lg))
           (snd (snd (retry_loop E p cfg fn n a le s lg)))"
    | s' e lg' where "a < n" "retried_round E p cfg fn a s = Some s'"
        "retry_loop E p cfg fn n a le s lg = retry_loop E p cfg fn n (a + 1) (Some e) s' lg'"
    using retry_loop_round [OF Suc.prems] by metis
  then show ?case
  proof cases
    case 1
    then show ?thesis using Suc.prems by (intro exI [of _ 0]) simp
  next
    case 2
    have "m = nat (n - (a + 1))" using Suc.hyps(2) by simp
    from Suc.hyps(1) [OF this, where le = "Some e" and s = s' and lg = lg'] 2(1) obtain k sk where
      "int k \<le> n - (a + 1)" "retried_rounds E p cfg fn (a + 1) k s' = Some sk"
      "ends_at E p cfg fn n (a + 1 + int k) sk (fst (retry_loop E p cfg fn n (a + 1) (Some e) s' lg'))
         (snd (snd (retry_loop E p cfg fn n (a + 1) (Some e) s' lg')))"
      by auto
    then show ?thesis
      using 2 by (intro exI [of _ "Suc k"] exI [of _ sk]) (simp add: algebra_simps)
  qed
qed

text \<open>The options of the two callers give a configuration by evaluation.\<close>

definition retry_cfg :: "(retryConfig \<Rightarrow> retryConfig) list \<Rightarrow> retryConfig" where
  "retry_cfg opts = fold (\<lambda>opt c. opt c) opts \<lparr>retryable = defaultRetryable, onRetry = False\<rparr>"

lemma attempts_pos [simp]: "1 \<le> attempts p"
  by (simp add: attempts_def)

text \<open>
  C29: \<^verbatim>\<open>Retry\<close> always returns, after some number \<open>k\<close> of rounds smaller than the attempt cap, each a
  failed call with a retryable error followed by a completed wait. Then it stops in one of five
  ways and no other: the context was done before the next call (its error, no call made); the call
  succeeded; the call failed and this was the last attempt or the error is not retryable (that
  error); the context ended during the wait (its error); the jitter source panicked.
\<close>

theorem retry_outcome:
  "\<exists>k sk. int k < attempts p \<and> retried_rounds E p (retry_cfg opts) fn 1 k s = Some sk
     \<and> ends_at E p (retry_cfg opts) fn (attempts p) (1 + int k) sk
         (fst (Retry E p fn opts s)) (snd (snd (Retry E p fn opts s)))"
proof -
  have "Retry E p fn opts s = retry_loop E p (retry_cfg opts) fn (attempts p) 1 None s []"
    by (simp add: Retry_def retry_cfg_def)
  with retry_loop_ends [of 1 "attempts p" E p "retry_cfg opts" fn s None "[]"]
  show ?thesis by fastforce
qed

subsection \<open>Counting the calls\<close>

text \<open>A world with an observer beside it, here one that counts the calls of \<open>fn\<close>.\<close>

definition observed_env :: "'s retry_env \<Rightarrow> ('s \<times> 'x) retry_env" where
  "observed_env E = \<lparr>ctxErr = (\<lambda>w. ctxErr E (fst w)),
     timedWait = (\<lambda>d w. case timedWait E d (fst w) of (s', c) \<Rightarrow> ((s', snd w), c)),
     Int63n = (\<lambda>w. Int63n E (fst w)), convOOR = convOOR E\<rparr>"

definition counted :: "('s \<Rightarrow> 's \<times> goerr option) \<Rightarrow> 's \<times> nat \<Rightarrow> ('s \<times> nat) \<times> goerr option" where
  "counted fn w = (case fn (fst w) of (s', err) \<Rightarrow> ((s', Suc (snd w)), err))"

lemma sleepCtx_observed: "sleepCtx (observed_env E) d w = (w', e) \<Longrightarrow> snd w' = snd w"
  by (auto simp: sleepCtx_def observed_env_def split: prod.splits if_splits)

lemma retried_round_counted:
  "retried_round (observed_env E) p cfg (counted fn) a w = Some w' \<Longrightarrow> snd w' = Suc (snd w)"
  by (auto simp: retried_round_def counted_def split: prod.splits option.splits if_splits
      dest: sleepCtx_observed)

lemma retried_rounds_counted:
  "retried_rounds (observed_env E) p cfg (counted fn) a k w = Some w' \<Longrightarrow> snd w' = snd w + k"
  by (induction k arbitrary: a w) (auto dest: retried_round_counted split: option.splits)

text \<open>Whichever way the loop ends, the last state is the one before the call, after it, or after the wait.\<close>

lemma ends_at_state:
  assumes "ends_at E p cfg fn n a s s' r"
  obtains e where "ctxErr E s = Some e" "s' = s"
  | e where "ctxErr E s = None" "fn s = (s', e)"
  | s1 e d e' where "ctxErr E s = None" "fn s = (s1, e)" "sleepCtx E d s1 = (s', Some e')"
  using assms unfolding ends_at_def by blast

lemma ends_at_counted:
  assumes "ends_at (observed_env E) p cfg (counted fn) n a w w' r"
  shows "snd w' = (if ctxErr E (fst w) = None then Suc (snd w) else snd w)"
proof -
  have c: "ctxErr (observed_env E) w = ctxErr E (fst w)" by (simp add: observed_env_def)
  have f: "snd w1 = Suc (snd w)" if "counted fn w = (w1, e)" for w1 e
    using that by (auto simp: counted_def split: prod.splits)
  from assms show ?thesis
  proof (cases rule: ends_at_state)
    case (3 s1 e d e')
    then show ?thesis using sleepCtx_observed [OF 3(3)] f c by simp
  qed (use c f in simp_all)
qed

text \<open>
  \<^verbatim>\<open>Retry\<close> calls the function at most \<^verbatim>\<open>attempts()\<close> times, at least once when the context is live
  at the start, and not at all when it is already done; then it returns the context's error.
\<close>

theorem retry_calls:
  assumes "Retry (observed_env E) p (counted fn) opts (s, 0) = ((s', c), lg, r)"
  shows "int c \<le> attempts p \<and> (ctxErr E s = None \<longrightarrow> 1 \<le> c)
    \<and> (\<forall>e. ctxErr E s = Some e \<longrightarrow> c = 0 \<and> s' = s \<and> r = RetErr (Some e))"
proof -
  obtain k sk where k: "int k < attempts p" "retried_rounds (observed_env E) p (retry_cfg opts) (counted fn) 1 k (s, 0) = Some sk"
    "ends_at (observed_env E) p (retry_cfg opts) (counted fn) (attempts p) (1 + int k) sk (s', c) r"
    using retry_loop_ends [of 1 "attempts p" "observed_env E" p "retry_cfg opts" "counted fn" "(s, 0)" None "[]"]
      assms by (fastforce simp: Retry_def retry_cfg_def)
  have c: "c = (if ctxErr E (fst sk) = None then Suc k else k)"
    using ends_at_counted [OF k(3)] retried_rounds_counted [OF k(2)] by simp
  have k0: "k = 0" if "ctxErr E s = Some e" for e
    using k(2) that by (cases k) (auto simp: retried_round_def observed_env_def)
  show ?thesis
  proof (cases "ctxErr E s")
    case None
    then show ?thesis using c k(1,2) by (cases k) auto
  next
    case (Some e)
    then have "sk = (s, 0)" and "k = 0" using k(2) k0 by auto
    then show ?thesis using c k(1,3) Some by (auto simp: ends_at_def observed_env_def)
  qed
qed

text \<open>A world in which the context is live and the first \<open>m\<close> calls fail with a transient error.\<close>

definition live_env :: "nat retry_env" where
  "live_env = \<lparr>ctxErr = (\<lambda>_. None), timedWait = (\<lambda>d s. (s, False)), Int63n = (\<lambda>s n. 0), convOOR = (\<lambda>_. 0)\<rparr>"

definition fails_until :: "nat \<Rightarrow> nat \<Rightarrow> nat \<times> goerr option" where
  "fails_until m s = (Suc s, if s < m then Some (Opaque ''down'') else None)"

theorem retry_calls_witness:
  "int (snd (fst (Retry (observed_env live_env) DefaultPolicy (counted (fails_until 5)) [] (0, 0)))) \<le> 3"
proof -
  obtain s' c lg r where
    "Retry (observed_env live_env) DefaultPolicy (counted (fails_until 5)) [] (0, 0) = ((s', c), lg, r)"
    by (metis prod.exhaust)
  with retry_calls [OF this] show ?thesis by (simp add: attempts_def DefaultPolicy_def)
qed

subsection \<open>Contracts across attempts\<close>

text \<open>
  The contract between the loop and the function it retries: an attempt whose error is retried, and
  every wait, keeps \<open>Inv\<close>. Then the loop ends either with \<open>Inv\<close> still true and an error of its own,
  or with the outcome of one attempt that started in \<open>Inv\<close>.
\<close>

locale attempt_contract =
  fixes E :: "'s retry_env" and fn :: "'s \<Rightarrow> 's \<times> goerr option"
    and again :: "goerr option \<Rightarrow> bool" and Inv :: "'s \<Rightarrow> bool"
  assumes retried_keeps: "Inv s \<Longrightarrow> fn s = (s', Some e) \<Longrightarrow> again (Some e) \<Longrightarrow> Inv s'"
    and wait_keeps: "Inv s \<Longrightarrow> Inv (fst (timedWait E d s))"
begin

lemma sleep_keeps: "Inv s \<Longrightarrow> Inv (fst (sleepCtx E d s))"
  using wait_keeps [of s d] by (auto simp: sleepCtx_def split: prod.splits)

lemma round_keeps:
  assumes "Inv s" and "retryable cfg = again" and "retried_round E p cfg fn a s = Some s'"
  shows "Inv s'"
proof -
  obtain s1 e d where "fn s = (s1, Some e)" "again (Some e)" "sleepCtx E d s1 = (s', None)"
    using assms(2,3) by (auto simp: retried_round_def split: if_splits prod.splits option.splits)
  then show ?thesis using retried_keeps [OF assms(1)] sleep_keeps [of s1 d] by simp
qed

lemma rounds_keep:
  "Inv s \<Longrightarrow> retryable cfg = again \<Longrightarrow> retried_rounds E p cfg fn a k s = Some s' \<Longrightarrow> Inv s'"
  by (induction k arbitrary: a s) (auto dest: round_keeps split: option.splits)

lemma end_outcome:
  assumes "Inv s" and "retryable cfg = again" and "ends_at E p cfg fn n a s s' r"
  shows "(Inv s' \<and> r \<noteq> RetErr None) \<or> (\<exists>e. fn s = (s', e) \<and> r = RetErr e)"
proof -
  have "Inv s'" if "fn s = (s1, Some e)" "again (Some e)" "sleepCtx E d s1 = (s', Some e')" for s1 e d e'
    using retried_keeps [OF assms(1) that(1,2)] sleep_keeps [of s1 d] that(3) by simp
  moreover have "Inv s'" if "fn s = (s', Some e)" "again (Some e)" for e
    using retried_keeps [OF assms(1) that] .
  ultimately show ?thesis
    using assms unfolding ends_at_def by auto
qed

lemma loop_outcome:
  assumes "Inv s" and "retryable cfg = again" and "a \<le> n"
    and "retry_loop E p cfg fn n a le s lg = (s', lg', r)"
  shows "(Inv s' \<and> r \<noteq> RetErr None) \<or> (\<exists>sk e. Inv sk \<and> fn sk = (s', e) \<and> r = RetErr e)"
proof -
  obtain k sk where "retried_rounds E p cfg fn a k s = Some sk" "ends_at E p cfg fn n (a + int k) sk s' r"
    using retry_loop_ends [OF assms(3), of E p cfg fn s le lg] assms(4) by auto
  then show ?thesis using end_outcome rounds_keep [OF assms(1,2)] assms(2) by blast
qed

end

text \<open>The special case of a function that always keeps the invariant.\<close>

locale attempt_invariant =
  fixes E :: "'s retry_env" and fn :: "'s \<Rightarrow> 's \<times> goerr option" and Inv :: "'s \<Rightarrow> bool"
  assumes fn_keeps: "Inv s \<Longrightarrow> Inv (fst (fn s))"
    and wait_keeps_inv: "Inv s \<Longrightarrow> Inv (fst (timedWait E d s))"

sublocale attempt_invariant \<subseteq> any_error: attempt_contract E fn again Inv
  by unfold_locales (use fn_keeps wait_keeps_inv in force)+

context attempt_invariant
begin

lemma Retry_keeps:
  assumes "Inv s"
  shows "Inv (fst (Retry E p fn opts s))"
proof -
  obtain s' lg r where R: "retry_loop E p (retry_cfg opts) fn (attempts p) 1 None s [] = (s', lg, r)"
    by (metis prod.exhaust)
  have "Inv s' \<or> (\<exists>sk e. Inv sk \<and> fn sk = (s', e))"
    using any_error.loop_outcome [OF assms refl attempts_pos R] by blast
  then have "Inv s'" using fn_keeps by force
  then show ?thesis using R by (simp add: Retry_def retry_cfg_def)
qed

end

lemma grpc_call_inv: "cb_inv (fst bs) \<Longrightarrow> cb_inv (fst (fst (grpc_call cfg clock invoker bs)))"
  using Execute_inv [of "fst bs" _ _ invoker "snd bs"]
  by (auto simp: grpc_call_def split: prod.splits)

interpretation grpc_attempts: attempt_invariant
  "with_breaker E" "grpc_call cfg clock invoker" "\<lambda>bs. cb_inv (fst bs)"
  for E :: "'s retry_env" and cfg clock and invoker :: "'s \<Rightarrow> 's \<times> goerr option"
  by unfold_locales (auto intro: grpc_call_inv simp: with_breaker_def split: prod.splits)

text \<open>\<^verbatim>\<open>ErrOpen\<close> carries no gRPC status: it reads as \<open>Unknown\<close>, which is not retried by default.\<close>

lemma status_Code_ErrOpen [simp]: "status_Code ErrOpen = 2"
  by (simp add: status_Code_def)

text \<open>
  A gRPC client with a breaker: whatever the options, every intercepted call keeps the breaker's
  invariant; and while the breaker is open and its cooldown runs, an intercepted call with a live
  context and the default codes fails fast: \<^verbatim>\<open>ErrOpen\<close> at once, no call of the invoker, no wait, no
  retry, the world unchanged.
\<close>

theorem interceptor_fails_fast:
  assumes "cb_inv b"
  shows "cb_inv (fst (fst (UnaryClientInterceptor opts clock E invoker (b, s))))
    \<and> (cb_state b = StateOpen \<and> clock s < openedAt b + cooldown b \<and> ctxErr E s = None
        \<longrightarrow> UnaryClientInterceptor [WithGRPCPolicy p, WithGRPCBreaker True] clock E invoker (b, s)
            = ((b, s), [], RetErr (Some ErrOpen)))"
proof (intro conjI impI)
  show "cb_inv (fst (fst (UnaryClientInterceptor opts clock E invoker (b, s))))"
    unfolding UnaryClientInterceptor_def Let_def
    by (rule grpc_attempts.Retry_keeps) (simp add: assms)
next
  assume a: "cb_state b = StateOpen \<and> clock s < openedAt b + cooldown b \<and> ctxErr E s = None"
  then have "beforeCall (clock s) b = (b, Some ErrOpen)"
    using beforeCall_Open [OF assms] by auto
  then have "grpc_call cfg clock invoker (b, s) = ((b, s), Some ErrOpen)" if "grpc_hasBreaker cfg" for cfg
    using that by (simp add: grpc_call_def Execute_def)
  then show "UnaryClientInterceptor [WithGRPCPolicy p, WithGRPCBreaker True] clock E invoker (b, s)
            = ((b, s), [], RetErr (Some ErrOpen))"
    using a attempts_pos [of p]
    by (subst UnaryClientInterceptor_def, simp add: Retry_def WithGRPCPolicy_def WithGRPCBreaker_def
        WithRetryable_def WithOnRetry_def, subst retry_loop.simps)
      (simp add: with_breaker_def grpc_retryable_def defaultGrpcConfig_def defaultRetryableCodes_def)
qed

theorem interceptor_fails_fast_witness:
  "UnaryClientInterceptor [WithGRPCPolicy DefaultPolicy, WithGRPCBreaker True] (\<lambda>s. 7) live_env (fails_until 9)
     (sys_b open_sys, 0) = ((sys_b open_sys, 0), [], RetErr (Some ErrOpen))"
proof -
  have "cooldown demo_breaker = 10"
    by (simp add: demo_breaker_def NewCircuitBreaker_def WithFailureThreshold_def WithCooldown_def
        WithOnStateChange_def)
  then show ?thesis
    using interceptor_fails_fast [OF open_sys_inv, where clock = "\<lambda>s. 7" and E = live_env and s = 0
        and invoker = "fails_until 9" and p = DefaultPolicy]
    by (simp add: open_sys_def live_env_def)
qed

end
