(* ===== verification/HttpClient.thy ===== *)
theory HttpClient
  imports Retry
begin

text \<open>
  \<^verbatim>\<open>resilience/httpclient.go\<close>: the retrying HTTP transport. A request carries its method, its
  body as a reader and the optional \<^verbatim>\<open>GetBody\<close>; the base transport is a parameter that maps a
  request and the world to an error or a response (the \<^verbatim>\<open>RoundTripper\<close> contract: one of the two,
  and the request body is consumed and closed). The breaker and the clock are as in Retry.
\<close>

subsection \<open>Requests and responses\<close>

record body_reader =
  rd_data :: string
  rd_err :: "goerr option"
  rd_closed :: bool

datatype http_body = NilBody | NoBody | is_Reader: Reader body_reader

record Request =
  req_Method :: string
  req_Body :: http_body
  req_GetBody :: "(goerr + string) option"
  req_ContentLength :: int

record Response =
  StatusCode :: int
  resp_RetryAfter :: string

definition fresh_reader :: "string \<Rightarrow> http_body" where
  "fresh_reader d = Reader \<lparr>rd_data = d, rd_err = None, rd_closed = False\<rparr>"

fun close_body :: "http_body \<Rightarrow> http_body" where
  "close_body (Reader r) = Reader (r\<lparr>rd_data := [], rd_closed := True\<rparr>)"
| "close_body b = b"

definition consume :: "Request \<Rightarrow> Request" where
  "consume req = req\<lparr>req_Body := close_body (req_Body req)\<rparr>"

subsection \<open>Configuration\<close>

definition idempotentMethods :: "string list" where
  "idempotentMethods = [''GET'', ''HEAD'', ''PUT'', ''DELETE'', ''OPTIONS'', ''TRACE'']"

definition defaultRetryStatus :: "int \<Rightarrow> bool" where
  "defaultRetryStatus code \<longleftrightarrow> code \<in> {429, 500, 502, 503, 504}"

type_synonym 's round_tripper = "Request \<Rightarrow> 's \<Rightarrow> 's \<times> (goerr + Response)"

record 's httpConfig =
  http_policy :: Policy
  http_base :: "'s round_tripper"
  http_hasBreaker :: bool
  retryMethods :: "string list"
  retryOnStatus :: "int \<Rightarrow> bool"
  http_timeout :: int
  http_onRetry :: bool

definition WithPolicy :: "Policy \<Rightarrow> 's httpConfig \<Rightarrow> 's httpConfig" where
  "WithPolicy p c = c\<lparr>http_policy := p\<rparr>"
definition WithBaseTransport :: "'s round_tripper option \<Rightarrow> 's httpConfig \<Rightarrow> 's httpConfig" where
  "WithBaseTransport rt c = (case rt of None \<Rightarrow> c | Some f \<Rightarrow> c\<lparr>http_base := f\<rparr>)"
definition WithBreaker :: "bool \<Rightarrow> 's httpConfig \<Rightarrow> 's httpConfig" where
  "WithBreaker b c = c\<lparr>http_hasBreaker := b\<rparr>"
definition WithRetryMethods :: "string list \<Rightarrow> 's httpConfig \<Rightarrow> 's httpConfig" where
  "WithRetryMethods ms c = c\<lparr>retryMethods := ms\<rparr>"
definition WithRetryStatus :: "(int \<Rightarrow> bool) option \<Rightarrow> 's httpConfig \<Rightarrow> 's httpConfig" where
  "WithRetryStatus f c = (case f of None \<Rightarrow> c | Some g \<Rightarrow> c\<lparr>retryOnStatus := g\<rparr>)"
definition WithClientTimeout :: "int \<Rightarrow> 's httpConfig \<Rightarrow> 's httpConfig" where
  "WithClientTimeout d c = c\<lparr>http_timeout := d\<rparr>"
definition WithHTTPOnRetry :: "bool \<Rightarrow> 's httpConfig \<Rightarrow> 's httpConfig" where
  "WithHTTPOnRetry h c = c\<lparr>http_onRetry := h\<rparr>"

text \<open>The configuration \<^verbatim>\<open>NewHTTPClient\<close> builds; \<open>DefaultTransport\<close> is a parameter.\<close>

definition NewHTTPClient :: "'s round_tripper \<Rightarrow> ('s httpConfig \<Rightarrow> 's httpConfig) list \<Rightarrow> 's httpConfig" where
  "NewHTTPClient DefaultTransport opts =
     fold (\<lambda>opt c. opt c) opts
       \<lparr>http_policy = DefaultPolicy, http_base = DefaultTransport, http_hasBreaker = False,
        retryMethods = idempotentMethods, retryOnStatus = defaultRetryStatus, http_timeout = 0,
        http_onRetry = False\<rparr>"

subsection \<open>Body handling and Retry-After\<close>

definition bufferBody :: "Request \<Rightarrow> Request \<times> goerr option" where
  "bufferBody req =
     (case req_Body req of
        Reader r \<Rightarrow>
          (case rd_err r of
             Some e \<Rightarrow> (consume req, Some e)
           | None \<Rightarrow> (req\<lparr>req_Body := fresh_reader (rd_data r), req_ContentLength := int (length (rd_data r)),
                          req_GetBody := Some (Inr (rd_data r))\<rparr>, None))
      | _ \<Rightarrow> (req, None))"

definition resetBody :: "Request \<Rightarrow> Request \<times> goerr option" where
  "resetBody req =
     (case req_GetBody req of
        None \<Rightarrow> (req, None)
      | Some (Inl e) \<Rightarrow> (req, Some e)
      | Some (Inr d) \<Rightarrow> (req\<lparr>req_Body := fresh_reader d\<rparr>, None))"

text \<open>\<open>ParseTime\<close> is \<^verbatim>\<open>http.ParseTime\<close>; \<open>time.Duration(secs) * time.Second\<close> wraps at 64 bits.\<close>

definition retryAfter :: "(string \<Rightarrow> int option) \<Rightarrow> Response \<Rightarrow> int \<Rightarrow> int" where
  "retryAfter ParseTime resp now =
     (let v = resp_RetryAfter resp
      in if v = [] then 0
         else case Atoi v of
                Some secs \<Rightarrow> (if secs < 0 then 0 else int64 (secs * 10 ^ 9))
              | None \<Rightarrow> (case ParseTime v of
                          Some t \<Rightarrow> (let d = time_Sub t now in if d > 0 then d else 0)
                        | None \<Rightarrow> 0))"

subsection \<open>One attempt\<close>

type_synonym 's breaker_world = "CircuitBreaker \<times> 's"

text \<open>The world of the guarded call also holds the request, whose body the transport consumes, and the
  variable \<^verbatim>\<open>resp\<close> the closure assigns.\<close>

definition http_guarded ::
  "'s httpConfig \<Rightarrow> 's \<times> Request \<times> Response option \<Rightarrow> ('s \<times> Request \<times> Response option) \<times> goerr option" where
  "http_guarded cfg w =
     (case w of (s, req, resp) \<Rightarrow>
        (case http_base cfg req s of
           (s', Inl e) \<Rightarrow> ((s', consume req, None), Some e)
         | (s', Inr r) \<Rightarrow>
             ((s', consume req, Some r),
              if retryOnStatus cfg (StatusCode r)
              then Some (Opaque (''resilience: upstream status '' @ itoa (StatusCode r))) else None)))"

definition http_attempt ::
  "'s httpConfig \<Rightarrow> ('s \<Rightarrow> int) \<Rightarrow> Request \<Rightarrow> 's breaker_world
   \<Rightarrow> 's breaker_world \<times> Request \<times> Response option \<times> goerr option" where
  "http_attempt cfg clock req bs =
     (if \<not> http_hasBreaker cfg
      then (case http_base cfg req (snd bs) of
              (s', Inl e) \<Rightarrow> ((fst bs, s'), consume req, None, Some e)
            | (s', Inr r) \<Rightarrow> ((fst bs, s'), consume req, Some r, None))
      else (case Execute (clock (snd bs)) (clock (fst (fst (http_guarded cfg (snd bs, req, None)))))
                   (http_guarded cfg) (fst bs, snd bs, req, None) of
              ((b', s', req', Some r), err) \<Rightarrow> ((b', s'), req', Some r, None)
            | ((b', s', req', None), err) \<Rightarrow> ((b', s'), req', None, err)))"

subsection \<open>The retrying round trip\<close>

record 's http_env =
  henv :: "'s retry_env"
  hclock :: "'s \<Rightarrow> int"
  hParseTime :: "string \<Rightarrow> int option"

record 's rt_state =
  rt_world :: "'s breaker_world"
  rt_req :: Request
  rt_hooks :: "(int \<times> goerr option \<times> int \<times> int) list"
  rt_drained :: "Response list"

datatype rt_result = RtReturn "Response option" "goerr option" | RtPanic

datatype 's rt_outcome = RtStop "'s rt_state" rt_result | RtAgain "'s rt_state" "goerr option"

text \<open>The wait after a failed attempt: the larger of the policy's delay and \<^verbatim>\<open>Retry-After\<close>; the response is
  drained first.\<close>

definition rt_wait ::
  "'s http_env \<Rightarrow> 's httpConfig \<Rightarrow> int \<Rightarrow> Response option \<Rightarrow> goerr option \<Rightarrow> 's rt_state \<Rightarrow> 's rt_outcome" where
  "rt_wait H cfg attempt resp err st =
     (let E = with_breaker (henv H); bs = rt_world st
      in case Backoff (convOOR E) (Int63n E bs) (http_policy cfg) (attempt + 1) of
           None \<Rightarrow> RtStop st RtPanic
         | Some d0 \<Rightarrow>
             (let (status, delay, drained) =
                    (case resp of
                       None \<Rightarrow> (0, d0, rt_drained st)
                     | Some r \<Rightarrow>
                         (let ra = retryAfter (hParseTime H) r (hclock H (snd bs))
                          in (StatusCode r, if ra > d0 then ra else d0, rt_drained st @ [r])));
                  st' = st\<lparr>rt_drained := drained,
                           rt_hooks := (if http_onRetry cfg then rt_hooks st @ [(attempt, err, status, delay)]
                                        else rt_hooks st)\<rparr>
              in case sleepCtx E delay bs of
                   (bs', Some werr) \<Rightarrow> RtStop (st'\<lparr>rt_world := bs'\<rparr>) (RtReturn None (Some werr))
                 | (bs', None) \<Rightarrow> RtAgain (st'\<lparr>rt_world := bs'\<rparr>) err))"

definition rt_round ::
  "'s http_env \<Rightarrow> 's httpConfig \<Rightarrow> int \<Rightarrow> int \<Rightarrow> 's rt_state \<Rightarrow> 's rt_outcome" where
  "rt_round H cfg n attempt st =
     (case ctxErr (henv H) (snd (rt_world st)) of
        Some e \<Rightarrow> RtStop st (RtReturn None (Some e))
      | None \<Rightarrow>
          (case resetBody (rt_req st) of
             (req, Some e) \<Rightarrow> RtStop st (RtReturn None (Some e))
           | (req, None) \<Rightarrow>
               (case http_attempt cfg (hclock H) req (rt_world st) of
                  (bs', req', resp, err) \<Rightarrow>
                    (let st' = st\<lparr>rt_world := bs', rt_req := req'\<rparr>
                     in if err = None \<and> (case resp of None \<Rightarrow> True | Some r \<Rightarrow> \<not> retryOnStatus cfg (StatusCode r))
                        then RtStop st' (RtReturn resp None)
                        else if attempt = n
                        then (if err \<noteq> None then RtStop st' (RtReturn None err) else RtStop st' (RtReturn resp None))
                        else rt_wait H cfg attempt resp err st'))))"

fun rt_loop ::
  "'s http_env \<Rightarrow> 's httpConfig \<Rightarrow> int \<Rightarrow> nat \<Rightarrow> int \<Rightarrow> goerr option \<Rightarrow> 's rt_state
   \<Rightarrow> 's rt_state \<times> rt_result" where
  "rt_loop H cfg n 0 attempt lastErr st = (st, RtReturn None lastErr)"
| "rt_loop H cfg n (Suc k) attempt lastErr st =
     (case rt_round H cfg n attempt st of
        RtStop st' r \<Rightarrow> (st', r)
      | RtAgain st' err \<Rightarrow> rt_loop H cfg n k (attempt + 1) err st')"

definition RoundTrip ::
  "'s http_env \<Rightarrow> 's httpConfig \<Rightarrow> Request \<Rightarrow> 's breaker_world \<Rightarrow> 's rt_state \<times> rt_result" where
  "RoundTrip H cfg req bs =
     (let retryable0 = (req_Method req \<in> set (retryMethods cfg));
          (req', retryable) =
            (if retryable0 \<and> is_Reader (req_Body req) \<and> req_GetBody req = None
             then (case bufferBody req of (r', err) \<Rightarrow> (r', err = None))
             else (req, retryable0));
          n = (if retryable then attempts (http_policy cfg) else 1)
      in rt_loop H cfg n (nat n) 1 None \<lparr>rt_world = bs, rt_req = req', rt_hooks = [], rt_drained = []\<rparr>)"

subsection \<open>Observing the base transport\<close>

fun body_bytes :: "http_body \<Rightarrow> string" where
  "body_bytes (Reader r) = rd_data r" | "body_bytes _ = []"

type_synonym rt_trace = "(string \<times> string \<times> (goerr + Response)) list"

text \<open>A transport that records the method and body of every request it is given and what it answers.\<close>

definition recorded :: "'s round_tripper \<Rightarrow> ('s \<times> rt_trace) round_tripper" where
  "recorded base req w =
     (case base req (fst w) of (s', x) \<Rightarrow> ((s', snd w @ [(req_Method req, body_bytes (req_Body req), x)]), x))"

fun answers :: "rt_trace \<Rightarrow> Response list" where
  "answers [] = []"
| "answers ((m, v, Inl e) # t) = answers t"
| "answers ((m, v, Inr r) # t) = r # answers t"

lemma answers_append [simp]: "answers (t @ u) = answers t @ answers u"
  by (induction t rule: answers.induct) auto

abbreviation trace_of :: "('s \<times> rt_trace) breaker_world \<Rightarrow> rt_trace" where
  "trace_of bs \<equiv> snd (snd bs)"

text \<open>One attempt: either the breaker rejected it, and nothing was sent, or exactly the request was sent once.\<close>

lemma http_attempt_recorded:
  assumes "http_attempt (cfg\<lparr>http_base := recorded base\<rparr>) clock req bs = (bs', req', resp, err)"
  obtains (rejected) "trace_of bs' = trace_of bs" "req' = req" "resp = None" "err = Some ErrOpen"
  | (failed) e where "trace_of bs' = trace_of bs @ [(req_Method req, body_bytes (req_Body req), Inl e)]"
      "req' = consume req" "resp = None" "err = Some e"
  | (answered) r where "trace_of bs' = trace_of bs @ [(req_Method req, body_bytes (req_Body req), Inr r)]"
      "req' = consume req" "resp = Some r" "err = None"
proof (cases "http_hasBreaker cfg")
  case False
  then show ?thesis
    using assms failed answered
    by (auto simp: http_attempt_def recorded_def split: prod.splits sum.splits)
next
  case True
  obtain b1 rej where bc: "beforeCall (clock (snd bs)) (fst bs) = (b1, rej)" by fastforce
  show ?thesis
  proof (cases rej)
    case None
    then show ?thesis
      using assms True bc failed answered
      by (auto simp: http_attempt_def Execute_def http_guarded_def recorded_def split: prod.splits sum.splits if_splits)
  next
    case (Some e)
    then have "e = ErrOpen" using bc beforeCall_error [of "clock (snd bs)" "fst bs" e] by simp
    then show ?thesis
      using assms True bc Some rejected by (auto simp: http_attempt_def Execute_def)
  qed
qed

lemma consume_frame [simp]:
  "req_Method (consume req) = req_Method req" "req_GetBody (consume req) = req_GetBody req"
  "is_Reader (req_Body (consume req)) = is_Reader (req_Body req)"
  by (cases "req_Body req"; simp add: consume_def)+

definition observed_http :: "'s http_env \<Rightarrow> ('s \<times> 'x) http_env" where
  "observed_http H = \<lparr>henv = observed_env (henv H), hclock = (\<lambda>w. hclock H (fst w)), hParseTime = hParseTime H\<rparr>"

lemma sleep_observed:
  "sleepCtx (with_breaker (observed_env E)) d bs = (bs', e) \<Longrightarrow> snd (snd bs') = snd (snd bs) \<and> fst bs' = fst bs"
  by (auto simp: sleepCtx_def with_breaker_def observed_env_def split: prod.splits if_splits)

definition resp_list :: "Response option \<Rightarrow> Response list" where
  "resp_list r = (case r of None \<Rightarrow> [] | Some x \<Rightarrow> [x])"

lemma resp_list_simps [simp]: "resp_list None = []" "resp_list (Some r) = [r]"
  by (simp_all add: resp_list_def)

text \<open>The wait sends nothing and drains the response it was given.\<close>

lemma rt_wait_Stop:
  assumes "rt_wait (observed_http H) cfg a resp err st = RtStop st' r"
  shows "trace_of (rt_world st') = trace_of (rt_world st)
    \<and> (r = RtPanic \<and> st' = st \<or> (\<exists>e. r = RtReturn None (Some e)) \<and> rt_drained st' = rt_drained st @ resp_list resp)"
  using assms
  by (auto simp: rt_wait_def observed_http_def resp_list_def Let_def
      split: option.splits prod.splits dest: sleep_observed)

lemma rt_wait_Again:
  assumes "rt_wait (observed_http H) cfg a resp err st = RtAgain st' e"
  shows "trace_of (rt_world st') = trace_of (rt_world st) \<and> rt_req st' = rt_req st
    \<and> rt_drained st' = rt_drained st @ resp_list resp \<and> e = err"
  using assms
  by (auto simp: rt_wait_def observed_http_def resp_list_def Let_def
      split: option.splits prod.splits dest: sleep_observed)

subsection \<open>Replay\<close>

text \<open>The request of a round with \<open>k\<close> attempts left still has the body \<open>v\<close>, or can get it back.\<close>

definition replay :: "string \<Rightarrow> nat \<Rightarrow> Request \<Rightarrow> bool" where
  "replay v k req \<longleftrightarrow>
     req_GetBody req = Some (Inr v)
   \<or> req_GetBody req = None \<and> \<not> is_Reader (req_Body req) \<and> v = []
   \<or> req_GetBody req = None \<and> k \<le> 1 \<and> body_bytes (req_Body req) = v"

lemma not_Reader_bytes [simp]: "\<not> is_Reader b \<Longrightarrow> body_bytes b = []"
  by (cases b) auto

lemma resetBody_replay:
  assumes "replay v k req" and "resetBody req = (req', e)"
  shows "e = None \<and> req_Method req' = req_Method req \<and> body_bytes (req_Body req') = v
    \<and> (1 < k \<longrightarrow> (\<forall>j. replay v j req' \<and> replay v j (consume req')))"
  using assms
  by (auto simp: replay_def resetBody_def fresh_reader_def split: option.splits sum.splits)

text \<open>What an observed round adds: at most one sent request, always \<open>(m, v)\<close>, and each answer is
  drained or returned.\<close>

definition sent_ok :: "string \<Rightarrow> string \<Rightarrow> ('s \<times> rt_trace) rt_state \<Rightarrow> ('s \<times> rt_trace) rt_state \<Rightarrow> nat \<Rightarrow> Response option \<Rightarrow> bool" where
  "sent_ok m v st st' k resp \<longleftrightarrow>
     (\<exists>xs. trace_of (rt_world st') = trace_of (rt_world st) @ xs \<and> length xs \<le> k
        \<and> (\<forall>x \<in> set xs. fst x = m \<and> fst (snd x) = v)
        \<and> rt_drained st' @ resp_list resp = rt_drained st @ answers xs)"

lemma rt_round_sent:
  assumes "replay v k (rt_req st)" and "req_Method (rt_req st) = m" and "a < n \<longrightarrow> 1 < k"
  shows "case rt_round (observed_http H) (cfg\<lparr>http_base := recorded base\<rparr>) n a st of
       RtStop st' (RtReturn resp err) \<Rightarrow> sent_ok m v st st' 1 resp
     | RtStop st' RtPanic \<Rightarrow> (\<exists>resp. sent_ok m v st st' 1 resp)
     | RtAgain st' err \<Rightarrow> sent_ok m v st st' 1 None \<and> req_Method (rt_req st') = m
         \<and> (a \<le> n \<longrightarrow> replay v (k - 1) (rt_req st'))"
proof (cases "ctxErr (henv (observed_http H)) (snd (rt_world st))")
  case (Some e)
  then show ?thesis by (simp add: rt_round_def sent_ok_def)
next
  case ctx: None
  let ?cfg = "cfg\<lparr>http_base := recorded base\<rparr>"
  obtain req1 e1 where r1: "resetBody (rt_req st) = (req1, e1)" by fastforce
  note reset = resetBody_replay [OF assms(1) r1]
  obtain bs' req' resp err where at: "http_attempt ?cfg (hclock (observed_http H)) req1 (rt_world st) = (bs', req', resp, err)"
    by (metis prod.exhaust)
  define st1 where "st1 = st\<lparr>rt_world := bs', rt_req := req'\<rparr>"
  have one: "sent_ok m v st st1 1 resp \<and> req_Method req' = m \<and> (1 < k \<longrightarrow> replay v (k - 1) req') \<and> (err = None \<or> resp = None)"
    using at
  proof (cases rule: http_attempt_recorded)
    case rejected
    then show ?thesis using reset assms(2) by (auto simp: sent_ok_def st1_def)
  next
    case (failed e)
    then show ?thesis using reset assms(2) by (auto simp: sent_ok_def st1_def)
  next
    case (answered r)
    then show ?thesis using reset assms(2) by (auto simp: sent_ok_def st1_def)
  qed
  have R: "rt_round (observed_http H) ?cfg n a st =
     (if err = None \<and> (case resp of None \<Rightarrow> True | Some r \<Rightarrow> \<not> retryOnStatus ?cfg (StatusCode r))
      then RtStop st1 (RtReturn resp None)
      else if a = n then (if err \<noteq> None then RtStop st1 (RtReturn None err) else RtStop st1 (RtReturn resp None))
      else rt_wait (observed_http H) ?cfg a resp err st1)"
    using ctx r1 reset at by (simp add: rt_round_def st1_def Let_def)
  show ?thesis
  proof (cases "rt_wait (observed_http H) ?cfg a resp err st1")
    case (RtStop st2 r)
    have "sent_ok m v st st2 1 None" if "rt_drained st2 = rt_drained st1 @ resp_list resp"
      using one rt_wait_Stop [OF RtStop] that by (auto simp: sent_ok_def)
    then show ?thesis
      using R one RtStop rt_wait_Stop [OF RtStop] by (auto split: rt_result.splits option.splits)
  next
    case (RtAgain st2 e)
    have "sent_ok m v st st2 1 None" and "rt_req st2 = req'"
      using one rt_wait_Again [OF RtAgain] by (auto simp: sent_ok_def st1_def)
    then show ?thesis
      using R one RtAgain assms(3) by (auto split: option.splits)
  qed
qed

lemma sent_ok_trans:
  "sent_ok m v st st1 1 None \<Longrightarrow> sent_ok m v st1 st2 k resp \<Longrightarrow> sent_ok m v st st2 (Suc k) resp"
  unfolding sent_ok_def by (elim exE conjE, rule_tac x = "xs @ xsa" in exI) auto

lemma rt_loop_sent:
  assumes "replay v k (rt_req st)" and "req_Method (rt_req st) = m" and "n = a + int k - 1"
    and "rt_loop (observed_http H) (cfg\<lparr>http_base := recorded base\<rparr>) n k a le st = (st', r)"
  shows "\<exists>resp. sent_ok m v st st' k resp \<and> (\<forall>x err. r = RtReturn x err \<longrightarrow> x = resp)"
  using assms
proof (induction k arbitrary: a le st)
  case 0
  then show ?case by (auto simp: sent_ok_def intro: exI [of _ None])
next
  case (Suc k)
  let ?R = "rt_round (observed_http H) (cfg\<lparr>http_base := recorded base\<rparr>) n a st"
  have round: "case ?R of
       RtStop st' (RtReturn resp err) \<Rightarrow> sent_ok m v st st' 1 resp
     | RtStop st' RtPanic \<Rightarrow> (\<exists>resp. sent_ok m v st st' 1 resp)
     | RtAgain st' err \<Rightarrow> sent_ok m v st st' 1 None \<and> req_Method (rt_req st') = m
         \<and> (a \<le> n \<longrightarrow> replay v (Suc k - 1) (rt_req st'))"
    by (rule rt_round_sent [OF Suc.prems(1,2)]) (use Suc.prems(3) in simp)
  show ?case
  proof (cases ?R)
    case (RtStop st1 r1)
    have "sent_ok m v st st' (Suc k) resp" if "sent_ok m v st st' 1 resp" for resp
      using that unfolding sent_ok_def by fastforce
    then show ?thesis
      using RtStop round Suc.prems(4) by (auto split: rt_result.splits)
  next
    case (RtAgain st1 e)
    then have 1: "sent_ok m v st st1 1 None" "req_Method (rt_req st1) = m" "replay v k (rt_req st1)"
      using round Suc.prems(3) by auto
    have "\<exists>resp. sent_ok m v st1 st' k resp \<and> (\<forall>x err. r = RtReturn x err \<longrightarrow> x = resp)"
      using Suc.IH [OF 1(3,2), of "a + 1" e] Suc.prems(3,4) RtAgain by simp
    then show ?thesis using sent_ok_trans [OF 1(1)] by blast
  qed
qed

text \<open>A request whose body can be sent: the reader is open and will not fail, and a \<^verbatim>\<open>GetBody\<close> of the caller's
  gives the body again (its documented contract).\<close>

definition well_formed_request :: "Request \<Rightarrow> bool" where
  "well_formed_request req \<longleftrightarrow>
     (case req_Body req of Reader r \<Rightarrow> rd_err r = None | _ \<Rightarrow> True)
   \<and> (req_GetBody req = None \<or> req_GetBody req = Some (Inr (body_bytes (req_Body req))))"

text \<open>
  C31: Retried requests are replayed faithfully: every request that reaches the base transport during
  one \<^verbatim>\<open>RoundTrip\<close>, with or without a breaker, has the caller's method and the caller's
  complete body; there are at most \<^verbatim>\<open>attempts()\<close> of them and at most one for a method outside the
  retry set; and every response obtained is either the one handed to the caller or was drained, in
  order.
\<close>

theorem http_replays_body:
  assumes "well_formed_request req"
    and "RoundTrip (observed_http H) (cfg\<lparr>http_base := recorded base\<rparr>) req (b, s, []) = (st, RtReturn resp err)"
  shows "(\<forall>x \<in> set (trace_of (rt_world st)). fst x = req_Method req \<and> fst (snd x) = body_bytes (req_Body req))
    \<and> int (length (trace_of (rt_world st))) \<le> (if req_Method req \<in> set (retryMethods cfg) then attempts (http_policy cfg) else 1)
    \<and> rt_drained st @ resp_list resp = answers (trace_of (rt_world st))"
proof -
  define n where "n = (if req_Method req \<in> set (retryMethods cfg) then attempts (http_policy cfg) else 1)"
  define req' where "req' = (if req_Method req \<in> set (retryMethods cfg) \<and> is_Reader (req_Body req) \<and> req_GetBody req = None
      then fst (bufferBody req) else req)"
  let ?st = "\<lparr>rt_world = (b, s, []), rt_req = req', rt_hooks = [], rt_drained = []\<rparr>"
  have loop: "rt_loop (observed_http H) (cfg\<lparr>http_base := recorded base\<rparr>) n (nat n) 1 None ?st = (st, RtReturn resp err)"
    using assms unfolding RoundTrip_def n_def req'_def
    by (cases "req_Body req") (auto simp: bufferBody_def well_formed_request_def Let_def split: if_splits)
  have n1: "1 \<le> n" by (simp add: n_def)
  have "replay (body_bytes (req_Body req)) (nat n) req'" and m: "req_Method req' = req_Method req"
    using assms(1) unfolding n_def req'_def
    by (cases "req_Body req"; auto simp: bufferBody_def well_formed_request_def replay_def fresh_reader_def)+
  from rt_loop_sent [where n = n and a = 1, OF _ _ _ loop, of "body_bytes (req_Body req)" "req_Method req"] this n1
  have "sent_ok (req_Method req) (body_bytes (req_Body req)) ?st st (nat n) resp"
    by auto
  then show ?thesis
    using n1 unfolding sent_ok_def n_def [symmetric] by auto
qed

definition flaky_base :: "nat round_tripper" where
  "flaky_base req s = (Suc s, if s = 0 then Inl (Opaque ''connection reset'') else Inr \<lparr>StatusCode = 200, resp_RetryAfter = []\<rparr>)"

definition flaky_env :: "nat http_env" where
  "flaky_env = \<lparr>henv = live_env, hclock = (\<lambda>_. 0), hParseTime = (\<lambda>_. None)\<rparr>"

definition put_request :: Request where
  "put_request = \<lparr>req_Method = ''PUT'', req_Body = fresh_reader ''payload'', req_GetBody = None, req_ContentLength = - 1\<rparr>"

definition flaky_cfg :: "(nat \<times> rt_trace) httpConfig" where
  "flaky_cfg = NewHTTPClient (recorded flaky_base) [WithPolicy (NewPolicy [WithBaseDelay 0])]"

lemmas flaky_defs = flaky_cfg_def NewHTTPClient_def WithPolicy_def NewPolicy_def WithBaseDelay_def DefaultPolicy_def
  idempotentMethods_def defaultRetryStatus_def put_request_def fresh_reader_def

lemma no_delay:
  "BaseDelay p = 0 \<Longrightarrow> 0 < MaxDelay p \<Longrightarrow> MaxDelay p \<le> 2 ^ 53 \<Longrightarrow> Backoff oor I p 2 = Some 0"
  using f64_of_int_exact [of "MaxDelay p"]
  by (simp add: Backoff_def f64_of_int_def f64_of_def f64_round_def Let_def f64_to_int64_def trunc_rat_def in_int64_def)

lemma flaky_run:
  "RoundTrip (observed_http flaky_env) (flaky_cfg\<lparr>http_base := recorded flaky_base\<rparr>) put_request (b, 0, [])
    = (\<lparr>rt_world = (b, 2, [(''PUT'', ''payload'', Inl (Opaque ''connection reset'')),
                          (''PUT'', ''payload'', Inr \<lparr>StatusCode = 200, resp_RetryAfter = []\<rparr>)]),
        rt_req = consume (fst (bufferBody put_request)), rt_hooks = [], rt_drained = []\<rparr>,
       RtReturn (Some \<lparr>StatusCode = 200, resp_RetryAfter = []\<rparr>) None)"
  using no_delay [of "DefaultPolicy\<lparr>BaseDelay := 0\<rparr>"]
  by (simp add: RoundTrip_def flaky_defs bufferBody_def attempts_def numeral_eq_Suc rt_round_def rt_wait_def
      observed_http_def observed_env_def flaky_env_def live_env_def resetBody_def http_attempt_def
      recorded_def flaky_base_def sleepCtx_def with_breaker_def consume_def)

theorem http_replays_body_witness:
  "\<exists>st resp. RoundTrip (observed_http flaky_env) (flaky_cfg\<lparr>http_base := recorded flaky_base\<rparr>) put_request (demo_breaker, 0, [])
       = (st, RtReturn resp None)
     \<and> (\<forall>x \<in> set (trace_of (rt_world st)). fst x = ''PUT'' \<and> fst (snd x) = ''payload'')
     \<and> length (trace_of (rt_world st)) = 2"
proof -
  have "well_formed_request put_request" by (simp add: well_formed_request_def put_request_def fresh_reader_def)
  from http_replays_body [OF this flaky_run [of demo_breaker]] show ?thesis
    by (subst flaky_run) (simp add: put_request_def fresh_reader_def)
qed

end
