(* ===== verification/SqlQuery.thy ===== *)
theory SqlQuery
  imports Prelude
begin

text \<open>
  \<^verbatim>\<open>database/postgres/query\<close>: conditions, the fluent builder and its specification counterpart,
  filters, and the SQL builder that turns query structs into parameterized SQL and an argument list.
  A Go map (\<^verbatim>\<open>UpdateQuery.Set\<close>, the filters of \<^verbatim>\<open>FromFilters\<close>) is the association list of its
  entries in the order the iteration visits them, so a statement about every such list holds for
  every iteration order.

  The reference for the builder is a statement with its values in place (\<open>sql_tok\<close>): the properties
  say that the generated text is that statement with its values numbered \<^verbatim>\<open>$1, $2, ...\<close> from left
  to right and that the arguments are those values in that order.
\<close>

subsection \<open>Values of type any\<close>

text \<open>The dynamic values the sources bind or inspect: \<open>VAnys\<close> is a \<^verbatim>\<open>[]any\<close>, \<open>VSlice\<close> any other slice
  or array.\<close>

datatype anyv = VNil | VStr string | VInt int | VBool bool | VTime int
  | VAnys "anyv list" | VSlice "anyv list"

subsection \<open>Operators (operators.go), joins, order\<close>

type_synonym Operator = string

definition OpEq :: Operator where "OpEq = ''=''"
definition OpNotEq :: Operator where "OpNotEq = ''<>''"
definition OpGt :: Operator where "OpGt = ''>''"
definition OpGte :: Operator where "OpGte = ''>=''"
definition OpLt :: Operator where "OpLt = ''<''"
definition OpLte :: Operator where "OpLte = ''<=''"
definition OpLike :: Operator where "OpLike = ''LIKE''"
definition OpILike :: Operator where "OpILike = ''ILIKE''"
definition OpIn :: Operator where "OpIn = ''IN''"
definition OpNotIn :: Operator where "OpNotIn = ''NOT IN''"
definition OpBetween :: Operator where "OpBetween = ''BETWEEN''"
definition OpIsNull :: Operator where "OpIsNull = ''IS NULL''"
definition OpNotNull :: Operator where "OpNotNull = ''IS NOT NULL''"
definition OpAnd :: Operator where "OpAnd = ''AND''"
definition OpOr :: Operator where "OpOr = ''OR''"

lemmas op_defs = OpEq_def OpNotEq_def OpGt_def OpGte_def OpLt_def OpLte_def OpLike_def OpILike_def
  OpIn_def OpNotIn_def OpBetween_def OpIsNull_def OpNotNull_def OpAnd_def OpOr_def

record Join =
  Join_Type :: string
  Join_Table :: string
  Join_On :: string

record OrderBy =
  Order_Column :: string
  Order_Desc :: bool

subsection \<open>Conditions (condition.go, spec.go)\<close>

datatype Condition = Condition (Column: string) (Op: Operator) (Value: anyv) (Sub: "Condition list")

definition Eq :: "string \<Rightarrow> anyv \<Rightarrow> Condition" where "Eq c v = Condition c OpEq v []"
definition NotEq :: "string \<Rightarrow> anyv \<Rightarrow> Condition" where "NotEq c v = Condition c OpNotEq v []"
definition Gt :: "string \<Rightarrow> anyv \<Rightarrow> Condition" where "Gt c v = Condition c OpGt v []"
definition Gte :: "string \<Rightarrow> anyv \<Rightarrow> Condition" where "Gte c v = Condition c OpGte v []"
definition Lt :: "string \<Rightarrow> anyv \<Rightarrow> Condition" where "Lt c v = Condition c OpLt v []"
definition Lte :: "string \<Rightarrow> anyv \<Rightarrow> Condition" where "Lte c v = Condition c OpLte v []"
definition Like :: "string \<Rightarrow> string \<Rightarrow> Condition" where "Like c p = Condition c OpLike (VStr p) []"
definition ILike :: "string \<Rightarrow> string \<Rightarrow> Condition" where "ILike c p = Condition c OpILike (VStr p) []"
definition In :: "string \<Rightarrow> anyv \<Rightarrow> Condition" where "In c v = Condition c OpIn v []"
definition NotIn :: "string \<Rightarrow> anyv \<Rightarrow> Condition" where "NotIn c v = Condition c OpNotIn v []"
definition Between :: "string \<Rightarrow> anyv \<Rightarrow> anyv \<Rightarrow> Condition" where
  "Between c lo hi = Condition c OpBetween (VAnys [lo, hi]) []"
definition IsNull :: "string \<Rightarrow> Condition" where "IsNull c = Condition c OpIsNull VNil []"
definition IsNotNull :: "string \<Rightarrow> Condition" where "IsNotNull c = Condition c OpNotNull VNil []"
definition And :: "Condition list \<Rightarrow> Condition" where "And cs = Condition [] OpAnd VNil cs"
definition Or :: "Condition list \<Rightarrow> Condition" where "Or cs = Condition [] OpOr VNil cs"

lemmas cond_defs = Eq_def NotEq_def Gt_def Gte_def Lt_def Lte_def Like_def ILike_def In_def NotIn_def
  Between_def IsNull_def IsNotNull_def And_def Or_def

record ConditionBuilder =
  conditions :: "Condition list"

definition NewConditionBuilder :: ConditionBuilder where "NewConditionBuilder = \<lparr>conditions = []\<rparr>"

definition cb_append :: "ConditionBuilder \<Rightarrow> Condition \<Rightarrow> ConditionBuilder" where
  "cb_append b c = b\<lparr>conditions := conditions b @ [c]\<rparr>"

definition cb_Eq :: "ConditionBuilder \<Rightarrow> string \<Rightarrow> anyv \<Rightarrow> ConditionBuilder" where
  "cb_Eq b c v = cb_append b (Condition c OpEq v [])"
definition cb_NotEq :: "ConditionBuilder \<Rightarrow> string \<Rightarrow> anyv \<Rightarrow> ConditionBuilder" where
  "cb_NotEq b c v = cb_append b (Condition c OpNotEq v [])"
definition cb_Gt :: "ConditionBuilder \<Rightarrow> string \<Rightarrow> anyv \<Rightarrow> ConditionBuilder" where
  "cb_Gt b c v = cb_append b (Condition c OpGt v [])"
definition cb_Gte :: "ConditionBuilder \<Rightarrow> string \<Rightarrow> anyv \<Rightarrow> ConditionBuilder" where
  "cb_Gte b c v = cb_append b (Condition c OpGte v [])"
definition cb_Lt :: "ConditionBuilder \<Rightarrow> string \<Rightarrow> anyv \<Rightarrow> ConditionBuilder" where
  "cb_Lt b c v = cb_append b (Condition c OpLt v [])"
definition cb_Lte :: "ConditionBuilder \<Rightarrow> string \<Rightarrow> anyv \<Rightarrow> ConditionBuilder" where
  "cb_Lte b c v = cb_append b (Condition c OpLte v [])"
definition cb_Like :: "ConditionBuilder \<Rightarrow> string \<Rightarrow> string \<Rightarrow> ConditionBuilder" where
  "cb_Like b c p = cb_append b (Condition c OpLike (VStr p) [])"
definition cb_ILike :: "ConditionBuilder \<Rightarrow> string \<Rightarrow> string \<Rightarrow> ConditionBuilder" where
  "cb_ILike b c p = cb_append b (Condition c OpILike (VStr p) [])"
definition cb_In :: "ConditionBuilder \<Rightarrow> string \<Rightarrow> anyv \<Rightarrow> ConditionBuilder" where
  "cb_In b c v = cb_append b (Condition c OpIn v [])"
definition cb_NotIn :: "ConditionBuilder \<Rightarrow> string \<Rightarrow> anyv \<Rightarrow> ConditionBuilder" where
  "cb_NotIn b c v = cb_append b (Condition c OpNotIn v [])"
definition cb_Between :: "ConditionBuilder \<Rightarrow> string \<Rightarrow> anyv \<Rightarrow> anyv \<Rightarrow> ConditionBuilder" where
  "cb_Between b c lo hi = cb_append b (Condition c OpBetween (VAnys [lo, hi]) [])"
definition cb_IsNull :: "ConditionBuilder \<Rightarrow> string \<Rightarrow> ConditionBuilder" where
  "cb_IsNull b c = cb_append b (Condition c OpIsNull VNil [])"
definition cb_IsNotNull :: "ConditionBuilder \<Rightarrow> string \<Rightarrow> ConditionBuilder" where
  "cb_IsNotNull b c = cb_append b (Condition c OpNotNull VNil [])"
definition cb_And :: "ConditionBuilder \<Rightarrow> Condition list \<Rightarrow> ConditionBuilder" where
  "cb_And b cs = cb_append b (Condition [] OpAnd VNil cs)"
definition cb_Or :: "ConditionBuilder \<Rightarrow> Condition list \<Rightarrow> ConditionBuilder" where
  "cb_Or b cs = cb_append b (Condition [] OpOr VNil cs)"
definition cb_Build :: "ConditionBuilder \<Rightarrow> Condition list" where "cb_Build b = conditions b"

subsection \<open>Rendering of conditions\<close>

text \<open>The pair is \<^verbatim>\<open>*args\<close> and \<^verbatim>\<open>*idx\<close>, which the Go code updates in place.\<close>

type_synonym bind_state = "anyv list \<times> int"

definition placeholder :: "int \<Rightarrow> string" where
  "placeholder i = ''$'' @ itoa i"

fun conditionSQL :: "Condition \<Rightarrow> bind_state \<Rightarrow> string \<times> bind_state"
and conditionSQLs :: "Condition list \<Rightarrow> bind_state \<Rightarrow> string list \<times> bind_state" where
  "conditionSQL (Condition col op v subs) st =
     (if op = OpIsNull then (col @ '' IS NULL'', st)
      else if op = OpNotNull then (col @ '' IS NOT NULL'', st)
      else if op = OpIn \<or> op = OpNotIn
      then (let ph = placeholder (snd st); st' = (fst st @ [v], snd st + 1)
            in if op = OpNotIn then (col @ '' <> ALL('' @ ph @ '')'', st')
               else (col @ '' = ANY('' @ ph @ '')'', st'))
      else if op = OpBetween
      then (case v of
              VAnys [lo, hi] \<Rightarrow>
                (col @ '' BETWEEN '' @ placeholder (snd st) @ '' AND '' @ placeholder (snd st + 1),
                 (fst st @ [lo, hi], snd st + 2))
            | _ \<Rightarrow> (''1=0 /* BETWEEN requires [low, high] */'', st))
      else if op = OpAnd \<or> op = OpOr
      then (case conditionSQLs subs st of
              (parts, st') \<Rightarrow> (''('' @ strings_Join parts ('' '' @ op @ '' '') @ '')'', st'))
      else (col @ '' '' @ op @ '' '' @ placeholder (snd st), (fst st @ [v], snd st + 1)))"
| "conditionSQLs [] st = ([], st)"
| "conditionSQLs (c # cs) st =
     (case conditionSQL c st of (p, st1) \<Rightarrow> (case conditionSQLs cs st1 of (ps, st2) \<Rightarrow> (p # ps, st2)))"

definition buildConditions :: "Condition list \<Rightarrow> bind_state \<Rightarrow> string \<times> bind_state" where
  "buildConditions cs st = (case conditionSQLs cs st of (parts, st') \<Rightarrow> (strings_Join parts '' AND '', st'))"

definition BuildWhere :: "Condition list \<Rightarrow> int \<Rightarrow> string \<times> anyv list" where
  "BuildWhere cs startIdx =
     (if cs = [] then ([], [])
      else case buildConditions cs ([], startIdx) of (sql, args, idx) \<Rightarrow> (sql, args))"

definition JoinAnd :: "string list \<Rightarrow> string" where
  "JoinAnd fragments = strings_Join (filter (\<lambda>f. TrimSpace f \<noteq> []) fragments) '' AND ''"

definition order_part :: "OrderBy \<Rightarrow> string" where
  "order_part ob = Order_Column ob @ '' '' @ (if Order_Desc ob then ''DESC'' else ''ASC'')"

definition BuildOrderBy :: "OrderBy list \<Rightarrow> string" where
  "BuildOrderBy orders = (if orders = [] then [] else ''ORDER BY '' @ strings_Join (map order_part orders) '', '')"

subsection \<open>Query structs (model.go) and the builder (builder.go)\<close>

record SelectQuery =
  sel_Table :: string
  sel_Distinct :: bool
  sel_Columns :: "string list"
  sel_Joins :: "Join list"
  sel_Conditions :: "Condition list"
  sel_GroupBy :: "string list"
  sel_Having :: "Condition list"
  sel_OrderBy :: "OrderBy list"
  sel_Limit :: int
  sel_Offset :: int
  sel_ForUpdate :: bool

record InsertQuery =
  ins_Table :: string
  ins_Columns :: "string list"
  ins_Values :: "anyv list"
  ins_Returning :: "string list"

record UpdateQuery =
  upd_Table :: string
  upd_Set :: "(string \<times> anyv) list"
  upd_Increment :: "string list"
  upd_Conditions :: "Condition list"
  upd_Returning :: "string list"

record DeleteQuery =
  del_Table :: string
  del_Conditions :: "Condition list"
  del_SoftDelete :: bool

record UpsertQuery =
  ups_Table :: string
  ups_Columns :: "string list"
  ups_Values :: "anyv list"
  ups_ConflictColumn :: string
  ups_UpdateColumns :: "string list"
  ups_Returning :: "string list"

text \<open>\<^verbatim>\<open> WHERE ...\<close>, \<^verbatim>\<open> HAVING ...\<close> and \<^verbatim>\<open> RETURNING ...\<close>: nothing when the slice is empty.\<close>

definition clause :: "string \<Rightarrow> Condition list \<Rightarrow> bind_state \<Rightarrow> string \<times> bind_state" where
  "clause kw cs st = (if cs = [] then ([], st) else case buildConditions cs st of (sql, st') \<Rightarrow> (kw @ sql, st'))"

definition returning :: "string list \<Rightarrow> string" where
  "returning cols = (if cols = [] then [] else '' RETURNING '' @ strings_Join cols '', '')"

fun placeholders :: "anyv list \<Rightarrow> bind_state \<Rightarrow> string list \<times> bind_state" where
  "placeholders [] st = ([], st)"
| "placeholders (v # vs) st =
     (case placeholders vs (fst st @ [v], snd st + 1) of (ps, st') \<Rightarrow> (placeholder (snd st) # ps, st'))"

fun set_parts :: "(string \<times> anyv) list \<Rightarrow> bind_state \<Rightarrow> string list \<times> bind_state" where
  "set_parts [] st = ([], st)"
| "set_parts ((col, v) # m) st =
     (case set_parts m (fst st @ [v], snd st + 1) of
        (ps, st') \<Rightarrow> ((col @ '' = '' @ placeholder (snd st)) # ps, st'))"

definition bind_if_pos :: "string \<Rightarrow> int \<Rightarrow> bind_state \<Rightarrow> string \<times> bind_state" where
  "bind_if_pos kw n st = (if n > 0 then (kw @ placeholder (snd st), (fst st @ [VInt n], snd st + 1)) else ([], st))"

definition join_part :: "Join \<Rightarrow> string" where
  "join_part j = '' '' @ Join_Type j @ '' JOIN '' @ Join_Table j @ '' ON '' @ Join_On j"

definition BuildSelect :: "SelectQuery \<Rightarrow> string \<times> anyv list" where
  "BuildSelect q =
     (let cols = (if sel_Columns q = [] then ''*'' else strings_Join (sel_Columns q) '', '');
          kw = (if sel_Distinct q then ''SELECT DISTINCT'' else ''SELECT'');
          head = kw @ '' '' @ cols @ '' FROM '' @ sel_Table q;
          joins = concat (map join_part (sel_Joins q));
          (whr, st1) = clause '' WHERE '' (sel_Conditions q) ([], 1);
          grp = (if sel_GroupBy q = [] then [] else '' GROUP BY '' @ strings_Join (sel_GroupBy q) '', '');
          (hav, st2) = clause '' HAVING '' (sel_Having q) st1;
          ord = (if sel_OrderBy q = [] then []
                 else '' ORDER BY '' @ strings_Join (map order_part (sel_OrderBy q)) '', '');
          (lim, st3) = bind_if_pos '' LIMIT '' (sel_Limit q) st2;
          (off, st4) = bind_if_pos '' OFFSET '' (sel_Offset q) st3;
          upd = (if sel_ForUpdate q then '' FOR UPDATE'' else [])
      in (head @ joins @ whr @ grp @ hav @ ord @ lim @ off @ upd, fst st4))"

definition BuildInsert :: "InsertQuery \<Rightarrow> string \<times> anyv list" where
  "BuildInsert q =
     (let (phs, st) = placeholders (ins_Values q) ([], 1)
      in (''INSERT INTO '' @ ins_Table q @ '' ('' @ strings_Join (ins_Columns q) '', '' @ '') VALUES ('' @
          strings_Join phs '', '' @ '')'' @ returning (ins_Returning q), fst st))"

definition BuildUpdate :: "UpdateQuery \<Rightarrow> string \<times> anyv list" where
  "BuildUpdate q =
     (let (sets, st1) = set_parts (upd_Set q) ([], 1);
          incs = map (\<lambda>col. col @ '' = '' @ col @ '' + 1'') (upd_Increment q);
          (whr, st2) = clause '' WHERE '' (upd_Conditions q) st1
      in (''UPDATE '' @ upd_Table q @ '' SET '' @ strings_Join (sets @ incs) '', '' @ whr @
          returning (upd_Returning q), fst st2))"

definition BuildDelete :: "DeleteQuery \<Rightarrow> string \<times> anyv list" where
  "BuildDelete q =
     (if del_SoftDelete q
      then (case clause '' WHERE '' (del_Conditions q) ([], 1) of
              (whr, st) \<Rightarrow> (''UPDATE '' @ del_Table q @ '' SET status = '' @ CHR 39 # ''DELETED'' @ CHR 39 # whr, fst st))
      else (case clause '' WHERE '' (del_Conditions q) ([], 1) of
              (whr, st) \<Rightarrow> (''DELETE FROM '' @ del_Table q @ whr, fst st)))"

definition BuildUpsert :: "UpsertQuery \<Rightarrow> string \<times> anyv list" where
  "BuildUpsert q =
     (let (phs, st) = placeholders (ups_Values q) ([], 1);
          updates = map (\<lambda>col. col @ '' = EXCLUDED.'' @ col) (ups_UpdateColumns q)
      in (''INSERT INTO '' @ ups_Table q @ '' ('' @ strings_Join (ups_Columns q) '', '' @ '') VALUES ('' @
          strings_Join phs '', '' @ '') ON CONFLICT ('' @ ups_ConflictColumn q @ '') DO UPDATE SET '' @
          strings_Join updates '', '' @ returning (ups_Returning q), fst st))"

subsection \<open>Filters (filters.go)\<close>

definition filter_condition :: "string \<Rightarrow> anyv \<Rightarrow> Condition list" where
  "filter_condition col v =
     (let slice = (\<lambda>vs. if vs = [] then [] else if length vs = 1 then [Condition col OpEq (hd vs) []]
                        else [Condition col OpIn v []])
      in case v of
           VNil \<Rightarrow> []
         | VSlice vs \<Rightarrow> slice vs
         | VAnys vs \<Rightarrow> slice vs
         | VStr s \<Rightarrow> (if s = [] then [] else [Condition col OpEq v []])
         | _ \<Rightarrow> [Condition col OpEq v []])"

definition FromFilters :: "(string \<times> anyv) list \<Rightarrow> Condition list" where
  "FromFilters filters =
     concat (map (\<lambda>col. case map_of filters col of None \<Rightarrow> [] | Some v \<Rightarrow> filter_condition col v)
               (sort (map_keys filters)))"

record TemporalFilter =
  tf_Field :: string
  tf_Rel :: string
  tf_Time :: anyv
  tf_End :: anyv

definition temporal_condition :: "TemporalFilter \<Rightarrow> Condition list" where
  "temporal_condition t =
     (if tf_Rel t = ''between'' then [Condition (tf_Field t) OpBetween (VAnys [tf_Time t, tf_End t]) []]
      else if tf_Rel t = ''after'' then [Condition (tf_Field t) OpGt (tf_Time t) []]
      else if tf_Rel t = ''before'' then [Condition (tf_Field t) OpLt (tf_Time t) []]
      else [])"

definition FromTemporal :: "TemporalFilter list \<Rightarrow> Condition list" where
  "FromTemporal filters = concat (map temporal_condition filters)"

subsection \<open>Statements with their values in place\<close>

datatype sql_tok = Txt string | Val anyv

fun render :: "int \<Rightarrow> sql_tok list \<Rightarrow> string" where
  "render i [] = []"
| "render i (Txt s # ts) = s @ render i ts"
| "render i (Val v # ts) = placeholder i @ render (i + 1) ts"

fun vals :: "sql_tok list \<Rightarrow> anyv list" where
  "vals [] = []"
| "vals (Txt s # ts) = vals ts"
| "vals (Val v # ts) = v # vals ts"

fun join_toks :: "string \<Rightarrow> sql_tok list list \<Rightarrow> sql_tok list" where
  "join_toks sep [] = []"
| "join_toks sep [x] = x"
| "join_toks sep (x # y # ys) = x @ Txt sep # join_toks sep (y # ys)"

text \<open>What a condition says: the reference for \<open>conditionSQL\<close>.\<close>

fun cond_stmt :: "Condition \<Rightarrow> sql_tok list" where
  "cond_stmt (Condition col op v subs) =
     (if op = OpIsNull then [Txt col, Txt '' IS NULL'']
      else if op = OpNotNull then [Txt col, Txt '' IS NOT NULL'']
      else if op = OpIn then [Txt col, Txt '' = ANY('', Val v, Txt '')'']
      else if op = OpNotIn then [Txt col, Txt '' <> ALL('', Val v, Txt '')'']
      else if op = OpBetween
      then (case v of VAnys [lo, hi] \<Rightarrow> [Txt col, Txt '' BETWEEN '', Val lo, Txt '' AND '', Val hi]
            | _ \<Rightarrow> [Txt ''1=0 /* BETWEEN requires [low, high] */''])
      else if op = OpAnd \<or> op = OpOr
      then Txt ''('' # join_toks ('' '' @ op @ '' '') (map cond_stmt subs) @ [Txt '')'']
      else [Txt col, Txt '' '', Txt op, Txt '' '', Val v])"

lemma render_append [simp]: "render i (a @ b) = render i a @ render (i + int (length (vals a))) b"
  by (induction i a rule: render.induct) (simp_all add: algebra_simps)

lemma vals_append [simp]: "vals (a @ b) = vals a @ vals b"
  by (induction a rule: vals.induct) auto

fun render_parts :: "int \<Rightarrow> sql_tok list list \<Rightarrow> string list" where
  "render_parts i [] = []"
| "render_parts i (p # ps) = render i p # render_parts (i + int (length (vals p))) ps"

lemma vals_join [simp]: "vals (join_toks sep ps) = concat (map vals ps)"
  by (induction sep ps rule: join_toks.induct) auto

lemma render_join [simp]: "render i (join_toks sep ps) = strings_Join (render_parts i ps) sep"
  by (induction sep ps arbitrary: i rule: join_toks.induct) (auto simp: algebra_simps)

text \<open>Binding \<open>ts\<close> from a state: the text it renders to and the state after it.\<close>

definition bound :: "bind_state \<Rightarrow> sql_tok list \<Rightarrow> bind_state" where
  "bound st ts = (fst st @ vals ts, snd st + int (length (vals ts)))"

lemma bound_simps [simp]:
  "fst (bound st ts) = fst st @ vals ts" "snd (bound st ts) = snd st + int (length (vals ts))"
  "bound st [] = st" "bound (bound st a) b = bound st (a @ b)"
  by (simp_all add: bound_def algebra_simps)

lemma conditionSQL_stmt:
  "conditionSQL c st = (render (snd st) (cond_stmt c), bound st (cond_stmt c))"
  "conditionSQLs cs st = (render_parts (snd st) (map cond_stmt cs), bound st (concat (map cond_stmt cs)))"
proof (induction c st and cs st rule: conditionSQL_conditionSQLs.induct)
  case (1 col op v subs st)
  have *: "vals (concat (map cond_stmt subs)) = concat (map (vals \<circ> cond_stmt) subs)"
    by (induction subs) auto
  show ?case
  proof (cases "op = OpAnd \<or> op = OpOr")
    case True
    then have "op \<noteq> OpIsNull" "op \<noteq> OpNotNull" "\<not> (op = OpIn \<or> op = OpNotIn)" "op \<noteq> OpBetween"
      by (auto simp: op_defs)
    then show ?thesis using True 1 by (simp add: bound_def *)
  next
    case False
    then show ?thesis
      by (cases v) (auto simp: Let_def bound_def op_defs split: list.splits)
  qed
qed (simp_all add: bound_def algebra_simps)

lemma buildConditions_stmt:
  "buildConditions cs st =
     (render (snd st) (join_toks '' AND '' (map cond_stmt cs)), bound st (join_toks '' AND '' (map cond_stmt cs)))"
proof -
  have "vals (concat (map cond_stmt cs)) = concat (map (vals \<circ> cond_stmt) cs)"
    by (induction cs) auto
  then show ?thesis by (simp add: buildConditions_def conditionSQL_stmt bound_def)
qed

definition clause_stmt :: "string \<Rightarrow> Condition list \<Rightarrow> sql_tok list" where
  "clause_stmt kw cs = (if cs = [] then [] else Txt kw # join_toks '' AND '' (map cond_stmt cs))"

lemma clause_stmt: "clause kw cs st = (render (snd st) (clause_stmt kw cs), bound st (clause_stmt kw cs))"
  by (simp add: clause_def clause_stmt_def buildConditions_stmt bound_def)

lemma placeholders_stmt:
  "placeholders vs st = (render_parts (snd st) (map (\<lambda>v. [Val v]) vs), bound st (map Val vs))"
  by (induction vs st rule: placeholders.induct) (simp_all add: bound_def algebra_simps)

lemma set_parts_stmt:
  "set_parts m st = (render_parts (snd st) (map (\<lambda>(col, v). [Txt col, Txt '' = '', Val v]) m),
     bound st (map (\<lambda>(col, v). Val v) m))"
  by (induction m st rule: set_parts.induct) (simp_all add: bound_def algebra_simps)

definition pos_stmt :: "string \<Rightarrow> int \<Rightarrow> sql_tok list" where
  "pos_stmt kw n = (if n > 0 then [Txt kw, Val (VInt n)] else [])"

lemma bind_if_pos_stmt: "bind_if_pos kw n st = (render (snd st) (pos_stmt kw n), bound st (pos_stmt kw n))"
  by (simp add: bind_if_pos_def pos_stmt_def bound_def)

subsection \<open>The builder implements the statements\<close>

definition select_stmt :: "SelectQuery \<Rightarrow> sql_tok list" where
  "select_stmt q =
     Txt (if sel_Distinct q then ''SELECT DISTINCT'' else ''SELECT'') #
     Txt ('' '' @ (if sel_Columns q = [] then ''*'' else strings_Join (sel_Columns q) '', '')) #
     Txt ('' FROM '' @ sel_Table q) #
     map (\<lambda>j. Txt (join_part j)) (sel_Joins q) @
     clause_stmt '' WHERE '' (sel_Conditions q) @
     Txt (if sel_GroupBy q = [] then [] else '' GROUP BY '' @ strings_Join (sel_GroupBy q) '', '') #
     clause_stmt '' HAVING '' (sel_Having q) @
     Txt (if sel_OrderBy q = [] then [] else '' '' @ BuildOrderBy (sel_OrderBy q)) #
     pos_stmt '' LIMIT '' (sel_Limit q) @ pos_stmt '' OFFSET '' (sel_Offset q) @
     [Txt (if sel_ForUpdate q then '' FOR UPDATE'' else [])]"

definition insert_stmt :: "InsertQuery \<Rightarrow> sql_tok list" where
  "insert_stmt q =
     Txt (''INSERT INTO '' @ ins_Table q @ '' ('' @ strings_Join (ins_Columns q) '', '' @ '') VALUES ('') #
     join_toks '', '' (map (\<lambda>v. [Val v]) (ins_Values q)) @ [Txt '')'', Txt (returning (ins_Returning q))]"

definition update_stmt :: "UpdateQuery \<Rightarrow> sql_tok list" where
  "update_stmt q =
     Txt (''UPDATE '' @ upd_Table q @ '' SET '') #
     join_toks '', '' (map (\<lambda>(col, v). [Txt col, Txt '' = '', Val v]) (upd_Set q) @
                       map (\<lambda>col. [Txt (col @ '' = '' @ col @ '' + 1'')]) (upd_Increment q)) @
     clause_stmt '' WHERE '' (upd_Conditions q) @ [Txt (returning (upd_Returning q))]"

definition delete_stmt :: "DeleteQuery \<Rightarrow> sql_tok list" where
  "delete_stmt q =
     (if del_SoftDelete q then Txt (''UPDATE '' @ del_Table q @ '' SET status = '' @ CHR 39 # ''DELETED'' @ [CHR 39])
      else Txt (''DELETE FROM '' @ del_Table q)) #
     clause_stmt '' WHERE '' (del_Conditions q)"

definition upsert_stmt :: "UpsertQuery \<Rightarrow> sql_tok list" where
  "upsert_stmt q =
     Txt (''INSERT INTO '' @ ups_Table q @ '' ('' @ strings_Join (ups_Columns q) '', '' @ '') VALUES ('') #
     join_toks '', '' (map (\<lambda>v. [Val v]) (ups_Values q)) @
     [Txt ('') ON CONFLICT ('' @ ups_ConflictColumn q @ '') DO UPDATE SET ''),
      Txt (strings_Join (map (\<lambda>col. col @ '' = EXCLUDED.'' @ col) (ups_UpdateColumns q)) '', ''),
      Txt (returning (ups_Returning q))]"

lemma render_Txts [simp]: "render i (map (\<lambda>j. Txt (f j)) js) = concat (map f js)" "vals (map (\<lambda>j. Txt (f j)) js) = []"
  by (induction js) auto

lemma vals_Vals [simp]: "vals (map Val vs) = vs" "concat (map (\<lambda>v. [v]) vs) = vs"
  by (induction vs) auto

lemma render_parts_append [simp]:
  "render_parts i (ps @ qs) = render_parts i ps @ render_parts (i + int (length (concat (map vals ps)))) qs"
  by (induction ps arbitrary: i) (simp_all add: algebra_simps)

lemma render_parts_Txts [simp]: "render_parts i (map (\<lambda>j. [Txt (f j)]) js) = map f js"
  by (induction js) auto

lemma vals_map_snd [simp]:
  "vals (map (\<lambda>(col, v). Val v) m) = map snd m"
  "concat (map (vals \<circ> (\<lambda>(col, v). [Txt col, Txt '' = '', Val v])) m) = map snd m"
  "concat (map (vals \<circ> (\<lambda>col. [Txt (f col)])) js) = []"
  by (induction m; auto)+

lemma BuildSelect_stmt: "BuildSelect q = (render 1 (select_stmt q), vals (select_stmt q))"
  by (simp add: BuildSelect_def select_stmt_def clause_stmt bind_if_pos_stmt BuildOrderBy_def Let_def algebra_simps)

lemma BuildInsert_stmt: "BuildInsert q = (render 1 (insert_stmt q), vals (insert_stmt q))"
  by (simp add: BuildInsert_def insert_stmt_def placeholders_stmt comp_def)

lemma BuildUpdate_stmt: "BuildUpdate q = (render 1 (update_stmt q), vals (update_stmt q))"
  by (simp add: BuildUpdate_def update_stmt_def set_parts_stmt clause_stmt)

lemma BuildDelete_stmt: "BuildDelete q = (render 1 (delete_stmt q), vals (delete_stmt q))"
  by (simp add: BuildDelete_def delete_stmt_def clause_stmt)

lemma BuildUpsert_stmt: "BuildUpsert q = (render 1 (upsert_stmt q), vals (upsert_stmt q))"
  by (simp add: BuildUpsert_def upsert_stmt_def placeholders_stmt comp_def)

text \<open>
  C5: Every statement the builder generates is its reference statement with the values numbered from
  left to right: the text has the placeholders \<^verbatim>\<open>$1 ... $n\<close> exactly where the values stand (also
  under nested AND/OR groups, across WHERE, HAVING, LIMIT and OFFSET, and for every iteration
  order of the \<^verbatim>\<open>Set\<close> map), and the argument list is those \<open>n\<close> values in that order.
\<close>

theorem sql_builder_refines_statements:
  "BuildSelect s = (render 1 (select_stmt s), vals (select_stmt s))
   \<and> BuildInsert i = (render 1 (insert_stmt i), vals (insert_stmt i))
   \<and> BuildUpdate u = (render 1 (update_stmt u), vals (update_stmt u))
   \<and> BuildDelete d = (render 1 (delete_stmt d), vals (delete_stmt d))
   \<and> BuildUpsert p = (render 1 (upsert_stmt p), vals (upsert_stmt p))"
  by (simp add: BuildSelect_stmt BuildInsert_stmt BuildUpdate_stmt BuildDelete_stmt BuildUpsert_stmt)

subsection \<open>The text does not depend on the bound values\<close>

fun rebind :: "(anyv \<Rightarrow> anyv) \<Rightarrow> Condition \<Rightarrow> Condition" where
  "rebind f (Condition col op v subs) =
     Condition col op
       (if op = OpBetween then (case v of VAnys [lo, hi] \<Rightarrow> VAnys [f lo, f hi] | _ \<Rightarrow> v) else f v)
       (map (rebind f) subs)"

fun tok_shape :: "sql_tok \<Rightarrow> string option" where
  "tok_shape (Txt s) = Some s" | "tok_shape (Val v) = None"

abbreviation shape :: "sql_tok list \<Rightarrow> string option list" where
  "shape ts \<equiv> map tok_shape ts"

lemma render_shape: "shape a = shape b \<Longrightarrow> render i a = render i b"
proof (induction i a arbitrary: b rule: render.induct)
  case (2 i s ts)
  then obtain t b' where b: "b = t # b'" "tok_shape t = Some s" "shape ts = shape b'" by (cases b) auto
  then show ?case using 2 by (cases t) auto
next
  case (3 i v ts)
  then obtain t b' where b: "b = t # b'" "tok_shape t = None" "shape ts = shape b'" by (cases b) auto
  then show ?case using 3 by (cases t) auto
qed simp

lemma shape_join:
  "map shape ps = map shape qs \<Longrightarrow> shape (join_toks sep ps) = shape (join_toks sep qs)"
proof (induction sep ps arbitrary: qs rule: join_toks.induct)
  case (2 sep x)
  then show ?case by (auto simp: map_eq_Cons_conv)
next
  case (3 sep x y ys)
  then obtain x' y' ys' where q: "qs = x' # y' # ys'" by (auto simp: Cons_eq_map_conv)
  then have "shape (join_toks sep (y # ys)) = shape (join_toks sep (y' # ys'))"
    using 3 by (intro "3.IH") simp
  then show ?case using 3 q by simp
qed simp

lemma shape_rebind: "shape (cond_stmt (rebind f c)) = shape (cond_stmt c)"
proof (induction c rule: cond_stmt.induct)
  case (1 col op v subs)
  have j: "op = OpAnd \<or> op = OpOr \<Longrightarrow>
      shape (join_toks sep (map (cond_stmt \<circ> rebind f) subs)) = shape (join_toks sep (map cond_stmt subs))" for sep
    by (rule shape_join) (use 1 in \<open>auto simp: op_defs\<close>)
  show ?case
  proof (cases "op = OpBetween")
    case True
    then show ?thesis by (cases v) (auto simp: op_defs split: list.splits)
  next
    case False
    then show ?thesis using j by auto
  qed
qed

lemma shape_clause: "shape (clause_stmt kw (map (rebind f) cs)) = shape (clause_stmt kw cs)"
  by (auto simp: clause_stmt_def shape_rebind intro!: shape_join)

lemma shape_vals_join: "shape (join_toks sep (map (\<lambda>v. [Val v]) (map f vs))) = shape (join_toks sep (map (\<lambda>v. [Val v]) vs))"
  by (rule shape_join) simp

lemma shape_pos: "(0 < m \<longleftrightarrow> 0 < n) \<Longrightarrow> shape (pos_stmt kw m) = shape (pos_stmt kw n)"
  by (simp add: pos_stmt_def)

lemma shape_sets:
  "shape (join_toks sep (map (\<lambda>(col, v). [Txt col, Txt '' = '', Val v]) (map (\<lambda>(col, v). (col, f v)) m) @ incs))
     = shape (join_toks sep (map (\<lambda>(col, v). [Txt col, Txt '' = '', Val v]) m @ incs))"
  by (rule shape_join) (auto simp: case_prod_beta)

text \<open>
  C32: Injection safety: replacing any bound value by any other, anywhere in a statement (conditions
  at every depth, inserted and updated values, limit and offset as long as they stay present),
  never changes a character of the SQL text. Values reach the database only as arguments.
\<close>

theorem sql_text_independent_of_values:
  assumes "0 < l \<longleftrightarrow> 0 < sel_Limit s" and "0 < k \<longleftrightarrow> 0 < sel_Offset s"
  shows "fst (BuildSelect (s\<lparr>sel_Conditions := map (rebind f) (sel_Conditions s),
                 sel_Having := map (rebind f) (sel_Having s), sel_Limit := l, sel_Offset := k\<rparr>)) = fst (BuildSelect s)
     \<and> fst (BuildInsert (i\<lparr>ins_Values := map f (ins_Values i)\<rparr>)) = fst (BuildInsert i)
     \<and> fst (BuildUpdate (u\<lparr>upd_Set := map (\<lambda>(c, v). (c, f v)) (upd_Set u),
                 upd_Conditions := map (rebind f) (upd_Conditions u)\<rparr>)) = fst (BuildUpdate u)
     \<and> fst (BuildDelete (d\<lparr>del_Conditions := map (rebind f) (del_Conditions d)\<rparr>)) = fst (BuildDelete d)
     \<and> fst (BuildUpsert (p\<lparr>ups_Values := map f (ups_Values p)\<rparr>)) = fst (BuildUpsert p)"
  unfolding BuildSelect_stmt BuildInsert_stmt BuildUpdate_stmt BuildDelete_stmt BuildUpsert_stmt fst_conv
proof (intro conjI render_shape)
  show "shape (select_stmt (s\<lparr>sel_Conditions := map (rebind f) (sel_Conditions s),
                 sel_Having := map (rebind f) (sel_Having s), sel_Limit := l, sel_Offset := k\<rparr>)) = shape (select_stmt s)"
    using shape_pos [OF assms(1)] shape_pos [OF assms(2)] by (simp add: select_stmt_def shape_clause)
qed (simp_all add: insert_stmt_def update_stmt_def delete_stmt_def upsert_stmt_def shape_vals_join shape_sets shape_clause
    del: map_map)

definition demo_select :: SelectQuery where
  "demo_select = \<lparr>sel_Table = ''items'', sel_Distinct = False, sel_Columns = [], sel_Joins = [],
     sel_Conditions = [Or [Eq ''owner'' (VStr ''bob''), Between ''age'' (VInt 1) (VInt 9)]], sel_GroupBy = [],
     sel_Having = [], sel_OrderBy = [\<lparr>Order_Column = ''id'', Order_Desc = True\<rparr>], sel_Limit = 10, sel_Offset = 0,
     sel_ForUpdate = False\<rparr>"

theorem sql_text_independent_of_values_witness:
  "fst (BuildSelect (demo_select\<lparr>sel_Conditions := map (rebind (\<lambda>_. VStr ''x; DROP TABLE items'')) (sel_Conditions demo_select),
      sel_Having := [], sel_Limit := 99, sel_Offset := 0\<rparr>)) = fst (BuildSelect demo_select)"
  using sql_text_independent_of_values [of 99 demo_select 0 "\<lambda>_. VStr ''x; DROP TABLE items''"]
  by (simp add: demo_select_def)

subsection \<open>Splicing fragments\<close>

lemma TrimSpace_empty: "TrimSpace s = [] \<longleftrightarrow> (\<forall>c \<in> set s. is_space c)"
proof
  assume "TrimSpace s = []"
  then have "\<forall>c \<in> set (dropWhile is_space s). is_space c" by (simp add: TrimSpace_def)
  then have "dropWhile is_space s = []" by (metis hd_dropWhile hd_in_set)
  then show "\<forall>c \<in> set s. is_space c" by simp
qed (auto simp: TrimSpace_def dest: set_dropWhileD)

lemma TrimSpace_visible: "c \<in> set s \<Longrightarrow> \<not> is_space c \<Longrightarrow> TrimSpace s \<noteq> []"
  using TrimSpace_empty by blast

lemma cond_text_visible: "TrimSpace (render i (cond_stmt c)) \<noteq> []"
proof -
  have v: "\<not> is_space (CHR ''$'')" "\<not> is_space (CHR ''S'')" "\<not> is_space (CHR ''('')" "\<not> is_space (CHR ''1'')"
    by (simp_all add: is_space_def)
  obtain col op w subs where c: "c = Condition col op w subs" by (cases c)
  have "CHR ''$'' \<in> set (render i (cond_stmt c)) \<or> CHR ''S'' \<in> set (render i (cond_stmt c))
      \<or> CHR ''('' \<in> set (render i (cond_stmt c)) \<or> CHR ''1'' \<in> set (render i (cond_stmt c))"
    by (cases w) (auto simp: c placeholder_def split: list.splits)
  then show ?thesis using v TrimSpace_visible by blast
qed

lemma set_strings_Join: "x \<in> set xs \<Longrightarrow> c \<in> set x \<Longrightarrow> c \<in> set (strings_Join xs sep)"
  by (induction xs sep rule: strings_Join.induct) auto

lemma strings_Join_append:
  "xs \<noteq> [] \<Longrightarrow> ys \<noteq> [] \<Longrightarrow> strings_Join (xs @ ys) sep = strings_Join xs sep @ sep @ strings_Join ys sep"
proof (induction xs sep rule: strings_Join.induct)
  case (2 x sep)
  then show ?case by (cases ys) auto
qed auto

lemma BuildWhere_stmt:
  "BuildWhere cs i = (render i (join_toks '' AND '' (map cond_stmt cs)), vals (join_toks '' AND '' (map cond_stmt cs)))"
  by (simp add: BuildWhere_def buildConditions_stmt bound_def)

lemma where_visible:
  assumes "cs \<noteq> []"
  shows "TrimSpace (fst (BuildWhere cs i)) \<noteq> []"
proof -
  obtain c cs' where cs: "cs = c # cs'" using assms by (cases cs) auto
  obtain x where "x \<in> set (render i (cond_stmt c))" "\<not> is_space x"
    using cond_text_visible [of i c] by (auto simp: TrimSpace_empty)
  then show ?thesis
    using set_strings_Join [of "render i (cond_stmt c)" "render_parts i (map cond_stmt cs)" x "'' AND ''"]
      TrimSpace_visible by (simp add: BuildWhere_stmt cs)
qed

lemma where_empty [simp]: "BuildWhere [] i = ([], [])" "TrimSpace [] = []"
  by (simp_all add: BuildWhere_def TrimSpace_def)

text \<open>
  Fragments splice: rendering two condition lists separately, the second one starting at the next
  free placeholder, and joining the texts with \<^verbatim>\<open>JoinAnd\<close> gives exactly the text and arguments
  of rendering the concatenation at once; either list may be empty.
\<close>

theorem where_fragments_splice:
  "BuildWhere (a @ b) i =
     (let (sa, va) = BuildWhere a i; (sb, vb) = BuildWhere b (i + int (length va))
      in (JoinAnd [sa, sb], va @ vb))"
proof -
  consider "a = []" | "b = []" | "a \<noteq> []" "b \<noteq> []" by blast
  then show ?thesis
  proof cases
    case 1
    then show ?thesis using where_visible [of b i] by (cases "b = []") (simp_all add: JoinAnd_def case_prod_beta)
  next
    case 2
    then show ?thesis using where_visible [of a i] by (cases "a = []") (simp_all add: JoinAnd_def case_prod_beta)
  next
    case 3
    let ?j = "i + int (length (snd (BuildWhere a i)))"
    have "TrimSpace (fst (BuildWhere a i)) \<noteq> []" "TrimSpace (fst (BuildWhere b ?j)) \<noteq> []"
      using where_visible 3 by blast+
    moreover have "render_parts i (map cond_stmt a) \<noteq> []" "render_parts k (map cond_stmt b) \<noteq> []" for k
      using 3 by (cases a; cases b; simp)+
    ultimately show ?thesis
      by (simp add: JoinAnd_def case_prod_beta BuildWhere_stmt strings_Join_append)
  qed
qed

subsection \<open>Filters\<close>

definition active_filter :: "anyv \<Rightarrow> bool" where
  "active_filter v \<longleftrightarrow> v \<noteq> VNil \<and> v \<noteq> VStr [] \<and> v \<noteq> VSlice [] \<and> v \<noteq> VAnys []"

lemma filter_condition_columns:
  "map Column (filter_condition col v) = (if active_filter v then [col] else [])"
  by (cases v) (auto simp: filter_condition_def active_filter_def Let_def)

lemma from_filters_columns:
  assumes "gomap m"
  shows "map Column (FromFilters m) = filter (\<lambda>k. active_filter (the (map_of m k))) (sort (map fst m))"
proof -
  have "map Column (concat (map (\<lambda>col. case map_of m col of None \<Rightarrow> [] | Some v \<Rightarrow> filter_condition col v) ks))
      = filter (\<lambda>k. active_filter (the (map_of m k))) ks" if "set ks \<subseteq> set (map fst m)" for ks
    using that
  proof (induction ks)
    case (Cons k ks)
    then obtain v where "map_of m k = Some v" by (metis list.set_intros(1) map_of_eq_None_iff not_None_eq set_map subset_iff)
    then show ?case using Cons by (simp add: filter_condition_columns)
  qed simp
  then show ?thesis by (simp add: FromFilters_def map_keys_def)
qed

text \<open>
  \<^verbatim>\<open>FromFilters\<close> is deterministic although it reads a Go map: two iteration orders of the same map
  give the same conditions; there is exactly one condition per filter that is set (nil, the empty
  string and empty slices are skipped, zero and false are not), in strictly ascending column order.
\<close>

theorem from_filters_deterministic:
  assumes "gomap m" and "gomap m'" and "set m = set m'"
  shows "FromFilters m = FromFilters m' \<and> sorted_wrt (<) (map Column (FromFilters m))
    \<and> set (map Column (FromFilters m)) = {k. \<exists>v. (k, v) \<in> set m \<and> active_filter v}"
proof -
  have eq: "FromFilters m = FromFilters m'"
    unfolding FromFilters_def map_keys_def
    by (simp only: gomap_perm_map_of [OF assms(1,3,2)] sorted_map_keys_unique [OF assms])
  have d: "distinct (sort (map fst m))" using assms(1) by (simp add: gomap_def)
  have "sorted_wrt (<) (map Column (FromFilters m))"
    unfolding from_filters_columns [OF assms(1)]
    by (rule sorted_wrt_filter) (use d in \<open>simp add: strict_sorted_iff\<close>)
  moreover have "set (map Column (FromFilters m)) = {k. \<exists>v. (k, v) \<in> set m \<and> active_filter v}"
    unfolding from_filters_columns [OF assms(1)] using assms(1)
    by (force simp: gomap_def intro: rev_image_eqI)
  ultimately show ?thesis using eq by blast
qed

theorem from_filters_deterministic_witness:
  "FromFilters [(''b'', VInt 0), (''a'', VStr ''x''), (''c'', VNil)]
     = FromFilters [(''c'', VNil), (''a'', VStr ''x''), (''b'', VInt 0)]"
  using from_filters_deterministic [of "[(''b'', VInt 0), (''a'', VStr ''x''), (''c'', VNil)]"
      "[(''c'', VNil), (''a'', VStr ''x''), (''b'', VInt 0)]"]
  by (simp add: gomap_def insert_commute)

end
