(* ===== verification/Pagination.thy ===== *)
theory Pagination
  imports Float64 SqlQuery
begin

text \<open>
  \<^verbatim>\<open>pagination/pagination.go\<close> and the request-facing part of \<^verbatim>\<open>model\<close>: page arithmetic at 64 bits,
  the float64 page count, the limit/offset parser, the status and item enums and URNs. \<open>oor\<close> is the
  platform's out-of-range float conversion. A query string is given by its first values (\<^verbatim>\<open>q.Get\<close>).
\<close>

subsection \<open>pagination.go\<close>

record PageRequest =
  pr_Page :: int
  pr_PageSize :: int

record PageResponse =
  ps_Page :: int
  ps_PageSize :: int
  ps_Total :: int
  ps_TotalPages :: int
  ps_HasNext :: bool
  ps_HasPrev :: bool

definition Validate :: "PageRequest \<Rightarrow> PageRequest" where
  "Validate pr =
     (let page = (if pr_Page pr < 1 then 1 else pr_Page pr);
          sz = (if pr_PageSize pr < 1 then 10 else pr_PageSize pr)
      in \<lparr>pr_Page = page, pr_PageSize = (if sz > 100 then 100 else sz)\<rparr>)"

definition page_Offset :: "PageRequest \<Rightarrow> int" where
  "page_Offset pr = int64 (int64 (pr_Page pr - 1) * pr_PageSize pr)"

definition NewResponse :: "(float64 \<Rightarrow> int) \<Rightarrow> PageRequest \<Rightarrow> int \<Rightarrow> PageResponse" where
  "NewResponse oor req cnt =
     (let pages = f64_to_int64 oor (f64_ceil_div cnt (pr_PageSize req));
          totalPages = (if cnt = 0 then 1 else pages)
      in \<lparr>ps_Page = pr_Page req, ps_PageSize = pr_PageSize req, ps_Total = cnt, ps_TotalPages = totalPages,
          ps_HasNext = (pr_Page req < totalPages), ps_HasPrev = (pr_Page req > 1)\<rparr>)"

definition ParsePaginationParams :: "string \<Rightarrow> string \<Rightarrow> PageRequest" where
  "ParsePaginationParams pageStr pageSizeStr =
     (let page = (case Atoi pageStr of Some p \<Rightarrow> (if p > 0 then p else 1) | None \<Rightarrow> 1);
          sz = (case Atoi pageSizeStr of Some p \<Rightarrow> (if p > 0 then p else 10) | None \<Rightarrow> 10)
      in Validate \<lparr>pr_Page = page, pr_PageSize = sz\<rparr>)"

record Info =
  info_Page :: int
  info_Size :: int
  info_TotalCount :: int
  info_TotalPages :: int
  info_HasNext :: bool
  info_HasPrevious :: bool

definition NewInfo :: "(float64 \<Rightarrow> int) \<Rightarrow> int \<Rightarrow> int \<Rightarrow> int \<Rightarrow> Info" where
  "NewInfo oor page sz totalCount =
     (let page' = (if page < 1 then 1 else page);
          sz' = (if sz < 1 then 10 else sz);
          totalPages = f64_to_int64 oor (f64_ceil_div totalCount sz')
      in \<lparr>info_Page = page', info_Size = sz', info_TotalCount = totalCount, info_TotalPages = totalPages,
          info_HasNext = (page' < totalPages), info_HasPrevious = (page' > 1)\<rparr>)"

record 'a PaginatedResult =
  pg_Data :: "'a list"
  pg_Pagination :: PageResponse

definition NewPaginatedResult :: "'a list \<Rightarrow> PageResponse \<Rightarrow> 'a PaginatedResult" where
  "NewPaginatedResult d p = \<lparr>pg_Data = d, pg_Pagination = p\<rparr>"

subsection \<open>model\<close>

record PaginationRequest =
  plim_Limit :: int
  plim_Offset :: int

definition ParsePagination :: "(string \<Rightarrow> string) \<Rightarrow> PaginationRequest" where
  "ParsePagination get =
     (let l = get ''limit'';
          limit = (if l = [] then 10 else case Atoi l of Some v \<Rightarrow> (if v \<ge> 1 then v else 10) | None \<Rightarrow> 10);
          limit' = (if limit > 100 then 100 else limit);
          os = get ''offset'';
          offset = (if os = [] then 0 else case Atoi os of Some v \<Rightarrow> (if v \<ge> 0 then v else 0) | None \<Rightarrow> 0)
      in \<lparr>plim_Limit = limit', plim_Offset = offset\<rparr>)"

definition RequestStatus_IsValid :: "string \<Rightarrow> bool" where
  "RequestStatus_IsValid s \<longleftrightarrow> s \<in> {''PENDING'', ''ACTIVE'', ''DELETED'', ''INACTIVE''}"

definition ItemType_IsValid :: "string \<Rightarrow> bool" where
  "ItemType_IsValid t \<longleftrightarrow> t \<in> {''DATABANK'', ''AIMODEL'', ''APPS'', ''RESOURCE_GROUP''}"

definition GenerateURN :: "string \<Rightarrow> string \<Rightarrow> string \<Rightarrow> string" where
  "GenerateURN namespace resourceType rid = ''urn:'' @ namespace @ '':'' @ resourceType @ '':'' @ rid"

subsection \<open>Page arithmetic\<close>

lemma pages_to_int:
  assumes "0 \<le> t" and "t < 2 ^ 53" and "0 < s" and "s \<le> 2 ^ 53"
  shows "f64_to_int64 oor (f64_ceil_div t s) = (t + s - 1) div s"
proof -
  have "0 \<le> (t + s - 1) div s"
    using assms by (simp add: pos_imp_zdiv_nonneg_iff)
  moreover have "(t + s - 1) div s \<le> t + s - 1"
    using assms by (intro div_le_self_int) simp_all
  ultimately show ?thesis
    using assms by (simp add: f64_ceil_div_exact f64_to_int64_def trunc_rat_def in_int64_def)
qed

lemma page_before_end:
  assumes "0 < s"
  shows "p < (t + s - 1) div s \<longleftrightarrow> p * s < (t :: int)"
proof -
  define q r where "q = (t + s - 1) div s" and "r = (t + s - 1) mod s"
  have t: "t + s - 1 = q * s + r" and r: "0 \<le> r" "r < s"
    using assms by (simp_all add: q_def r_def)
  show ?thesis
  proof (cases "p < q")
    case True
    then have "p * s \<le> (q - 1) * s"
      using assms by (intro mult_right_mono) simp_all
    then show ?thesis using True t r unfolding q_def [symmetric] by (simp add: algebra_simps)
  next
    case False
    then have "q * s \<le> p * s"
      using assms by (intro mult_right_mono) simp_all
    then show ?thesis using False t r unfolding q_def [symmetric] by linarith
  qed
qed

text \<open>
  The page count computed in float64 is the exact ceiling of total / size for every total below
  \<open>2 ^ 53\<close>, and the navigation flags mean what they say: there is a next page exactly when rows
  remain after this page, and a previous one exactly when this is not the first. \<^verbatim>\<open>NewResponse\<close> agrees,
  except that it reports one page for an empty result.
\<close>

theorem page_count_exact:
  assumes "0 \<le> cnt" and "cnt < 2 ^ 53" and "1 \<le> page" and "1 \<le> sz" and "sz \<le> 2 ^ 53"
  shows "NewInfo oor page sz cnt =
      \<lparr>info_Page = page, info_Size = sz, info_TotalCount = cnt, info_TotalPages = (cnt + sz - 1) div sz,
       info_HasNext = (page * sz < cnt), info_HasPrevious = (page > 1)\<rparr>
    \<and> ps_TotalPages (NewResponse oor \<lparr>pr_Page = page, pr_PageSize = sz\<rparr> cnt)
        = max 1 ((cnt + sz - 1) div sz)
    \<and> ps_HasNext (NewResponse oor \<lparr>pr_Page = page, pr_PageSize = sz\<rparr> cnt) = (page * sz < cnt)"
proof -
  have p: "f64_to_int64 oor (f64_ceil_div cnt sz) = (cnt + sz - 1) div sz"
    using assms by (intro pages_to_int) simp_all
  have n: "page < (cnt + sz - 1) div sz \<longleftrightarrow> page * sz < cnt"
    using assms by (intro page_before_end) simp
  have "1 \<le> (cnt + sz - 1) div sz" if "cnt \<noteq> 0"
    using page_before_end [of sz 0 cnt] assms that by simp
  moreover have "\<not> page * sz < 0" using assms by (simp add: not_less)
  ultimately show ?thesis
    using assms(3,4) n by (auto simp: NewInfo_def NewResponse_def Let_def p)
qed

theorem page_count_exact_witness:
  "info_TotalPages (NewInfo (\<lambda>_. 0) 3 10 21) = 3 \<and> \<not> info_HasNext (NewInfo (\<lambda>_. 0) 3 10 21)"
  using page_count_exact [of 21 3 10 "\<lambda>_. 0"] by simp

lemma Validate_range: "1 \<le> pr_Page (Validate r) \<and> 1 \<le> pr_PageSize (Validate r) \<and> pr_PageSize (Validate r) \<le> 100"
  by (simp add: Validate_def Let_def)

text \<open>
  Whatever a client sends, the legacy parsers return usable bounds: page at least 1, page size
  between 1 and 100, limit between 1 and 100, offset not negative; and a valid value is taken as sent.
\<close>

lemma parsed_pagination_bounds:
  "1 \<le> pr_Page (ParsePaginationParams ps ss) \<and> 1 \<le> pr_PageSize (ParsePaginationParams ps ss)
   \<and> pr_PageSize (ParsePaginationParams ps ss) \<le> 100
   \<and> 1 \<le> plim_Limit (ParsePagination get) \<and> plim_Limit (ParsePagination get) \<le> 100
   \<and> 0 \<le> plim_Offset (ParsePagination get)
   \<and> (\<forall>p s. 1 \<le> p \<and> p < 2 ^ 63 \<and> 1 \<le> s \<and> s \<le> 100
        \<longrightarrow> ParsePaginationParams (itoa p) (itoa s) = \<lparr>pr_Page = p, pr_PageSize = s\<rparr>)"
proof -
  have "ParsePaginationParams (itoa p) (itoa s) = \<lparr>pr_Page = p, pr_PageSize = s\<rparr>"
    if "1 \<le> p \<and> p < 2 ^ 63 \<and> 1 \<le> s \<and> s \<le> 100" for p s
    using that by (simp add: ParsePaginationParams_def Validate_def in_int64_def Let_def)
  moreover have "1 \<le> plim_Limit (ParsePagination get) \<and> plim_Limit (ParsePagination get) \<le> 100
   \<and> 0 \<le> plim_Offset (ParsePagination get)"
    by (simp add: ParsePagination_def Let_def split: option.splits)
  ultimately show ?thesis
    using Validate_range by (simp add: ParsePaginationParams_def Let_def)
qed

end
