(* ===== verification/Encoding.thy ===== *)
theory Encoding
  imports Prelude
begin

text \<open>
  Text encodings of the Go standard library that several packages rely on: \<^verbatim>\<open>encoding/hex\<close>,
  \<^verbatim>\<open>encoding/base64\<close> with its padded and raw variants, the query and path escapes of \<^verbatim>\<open>net/url\<close> (a query
  pair with a semicolon or a bad escape is dropped, as there), and \<^verbatim>\<open>time.Duration.String\<close>. A byte slice is a
  \<open>string\<close>, as everywhere. The lemmas of this theory are the round trips the components need.
\<close>

subsection \<open>Hexadecimal\<close>

definition hex_digit :: "nat \<Rightarrow> char" where
  "hex_digit n = (if n < 10 then char_of (48 + n) else char_of (87 + n))"

definition hex_value :: "char \<Rightarrow> nat option" where
  "hex_value c =
     (let n = (of_char c :: nat)
      in if 48 \<le> n \<and> n \<le> 57 then Some (n - 48)
         else if 97 \<le> n \<and> n \<le> 102 then Some (n - 87)
         else if 65 \<le> n \<and> n \<le> 70 then Some (n - 55)
         else None)"

fun hex_EncodeToString :: "string \<Rightarrow> string" where
  "hex_EncodeToString [] = []"
| "hex_EncodeToString (c # cs) =
     hex_digit (of_char c div 16) # hex_digit (of_char c mod 16) # hex_EncodeToString cs"

text \<open>\<open>None\<close> is the error of an odd length or of a byte that is no hexadecimal digit; both cases
  of letters are accepted.\<close>

fun hex_DecodeString :: "string \<Rightarrow> string option" where
  "hex_DecodeString [] = Some []"
| "hex_DecodeString [c] = None"
| "hex_DecodeString (c # d # cs) =
     (case (hex_value c, hex_value d) of
        (Some h, Some l) \<Rightarrow> map_option (\<lambda>r. char_of (16 * h + l) # r) (hex_DecodeString cs)
      | _ \<Rightarrow> None)"

lemma concat_singleton_map: "(\<And>x. x \<in> set xs \<Longrightarrow> f x = [g x]) \<Longrightarrow> concat (map f xs) = map g xs"
  by (induction xs) auto

lemma in_concat_map: "c \<in> set (concat (map f s)) \<Longrightarrow> \<exists>d. c \<in> set (f d)"
  by auto

lemma hex_value_digit [simp]: "n < 16 \<Longrightarrow> hex_value (hex_digit n) = Some n"
  by (auto simp: hex_value_def hex_digit_def Let_def)

lemma of_char_bound [simp]: "(of_char c :: nat) < 256"
  by (cases c) (simp add: of_char_def horner_sum_simps split: bool.splits)

lemma hex_round_trip [simp]: "hex_DecodeString (hex_EncodeToString s) = Some s"
proof (induction s)
  case (Cons c cs)
  have "(of_char c :: nat) div 16 < 16"
    using of_char_bound [of c] by (simp add: less_mult_imp_div_less)
  then show ?case
    using Cons by simp
qed simp

lemma hex_encode_nonempty [simp]: "hex_EncodeToString s = [] \<longleftrightarrow> s = []"
  by (cases s) auto

lemma hex_encode_inj: "hex_EncodeToString s = hex_EncodeToString t \<longleftrightarrow> s = t"
  by (metis hex_round_trip option.inject)

subsection \<open>Base 64\<close>

text \<open>The two alphabets; \<open>b64_index\<close> is the decoding table.\<close>

definition b64_std :: string where
  "b64_std = ''ABCDEFGHIJKLMNOPQRSTUVWXYZabcdefghijklmnopqrstuvwxyz0123456789+/''"

definition b64_url :: string where
  "b64_url = ''ABCDEFGHIJKLMNOPQRSTUVWXYZabcdefghijklmnopqrstuvwxyz0123456789-_''"

fun index_of :: "'a \<Rightarrow> 'a list \<Rightarrow> nat option" where
  "index_of x [] = None"
| "index_of x (y # ys) = (if x = y then Some 0 else map_option Suc (index_of x ys))"

text \<open>Encoding three bytes at a time; \<open>padded\<close> tells \<^verbatim>\<open>StdEncoding\<close> from \<^verbatim>\<open>RawURLEncoding\<close>.\<close>

fun b64_Encode :: "string \<Rightarrow> bool \<Rightarrow> nat list \<Rightarrow> string" where
  "b64_Encode al padded [] = []"
| "b64_Encode al padded [a] =
     [al ! (a div 4), al ! (a mod 4 * 16)] @ (if padded then ''=='' else [])"
| "b64_Encode al padded [a, b] =
     [al ! (a div 4), al ! (a mod 4 * 16 + b div 16), al ! (b mod 16 * 4)] @ (if padded then ''='' else [])"
| "b64_Encode al padded (a # b # c # r) =
     [al ! (a div 4), al ! (a mod 4 * 16 + b div 16), al ! (b mod 16 * 4 + c div 64), al ! (c mod 64)]
     @ b64_Encode al padded r"

text \<open>Decoding four symbols at a time, as \<^verbatim>\<open>decodeQuantum\<close>: a padded text must end in a full quantum,
  a raw text may end in two or three symbols; bits the last symbol leaves over are not checked.\<close>

fun b64_quanta :: "string \<Rightarrow> bool \<Rightarrow> string \<Rightarrow> nat list option" where
  "b64_quanta al padded [] = Some []"
| "b64_quanta al padded [w] = None"
| "b64_quanta al padded [w, x] =
     (if padded then None
      else case (index_of w al, index_of x al) of
             (Some i, Some j) \<Rightarrow> Some [i * 4 + j div 16] | _ \<Rightarrow> None)"
| "b64_quanta al padded [w, x, y] =
     (if padded then None
      else case (index_of w al, index_of x al, index_of y al) of
             (Some i, Some j, Some k) \<Rightarrow> Some [i * 4 + j div 16, j mod 16 * 16 + k div 4] | _ \<Rightarrow> None)"
| "b64_quanta al padded (w # x # y # z # r) =
     (case (index_of w al, index_of x al) of
        (Some i, Some j) \<Rightarrow>
          (case (index_of y al, index_of z al) of
             (Some k, Some l) \<Rightarrow>
               map_option (\<lambda>t. (i * 4 + j div 16) # (j mod 16 * 16 + k div 4) # (k mod 4 * 64 + l) # t)
                 (b64_quanta al padded r)
           | (Some k, None) \<Rightarrow>
               (if padded \<and> z = CHR ''='' \<and> r = [] then Some [i * 4 + j div 16, j mod 16 * 16 + k div 4]
                else None)
           | (None, _) \<Rightarrow>
               (if padded \<and> y = CHR ''='' \<and> z = CHR ''='' \<and> r = [] then Some [i * 4 + j div 16] else None))
      | _ \<Rightarrow> None)"

text \<open>Line breaks are skipped wherever they stand.\<close>

definition is_newline :: "char \<Rightarrow> bool" where
  "is_newline c \<longleftrightarrow> (of_char c :: nat) = 10 \<or> (of_char c :: nat) = 13"

definition b64_Decode :: "string \<Rightarrow> bool \<Rightarrow> string \<Rightarrow> string option" where
  "b64_Decode al padded s =
     map_option (map char_of) (b64_quanta al padded (filter (\<lambda>c. \<not> is_newline c) s))"

definition StdEncoding_EncodeToString :: "string \<Rightarrow> string" where
  "StdEncoding_EncodeToString s = b64_Encode b64_std True (map of_char s)"

definition StdEncoding_DecodeString :: "string \<Rightarrow> string option" where
  "StdEncoding_DecodeString = b64_Decode b64_std True"

definition RawURLEncoding_EncodeToString :: "string \<Rightarrow> string" where
  "RawURLEncoding_EncodeToString s = b64_Encode b64_url False (map of_char s)"

definition RawURLEncoding_DecodeString :: "string \<Rightarrow> string option" where
  "RawURLEncoding_DecodeString = b64_Decode b64_url False"

lemma index_of_nth: "distinct xs \<Longrightarrow> i < length xs \<Longrightarrow> index_of (xs ! i) xs = Some i"
  by (induction xs arbitrary: i) (auto simp: nth_Cons split: nat.splits)

lemma index_of_absent: "x \<notin> set xs \<Longrightarrow> index_of x xs = None"
  by (induction xs) auto

text \<open>What the proofs use of an alphabet: 64 different symbols, none of them padding.\<close>

definition alphabet :: "string \<Rightarrow> bool" where
  "alphabet al \<longleftrightarrow> length al = 64 \<and> distinct al \<and> CHR ''='' \<notin> set al"

lemma alphabet_index:
  "alphabet al \<Longrightarrow> i < 64 \<Longrightarrow> index_of (al ! i) al = Some i"
  "alphabet al \<Longrightarrow> index_of (CHR ''='') al = None"
  by (auto simp: alphabet_def index_of_nth index_of_absent)

lemma b64_bounds:
  fixes a b c :: nat
  assumes "a < 256" and "b < 256" and "c < 256"
  shows "a div 4 < 64" "a mod 4 * 16 < 64" "a mod 4 * 16 + b div 16 < 64" "b mod 16 * 4 < 64"
    "b mod 16 * 4 + c div 64 < 64" "c mod 64 < 64"
proof -
  have "a div 4 < 64" "b div 16 < 16" "c div 64 < 4"
    using assms by (simp_all add: less_mult_imp_div_less)
  moreover have "a mod 4 < 4" "b mod 16 < 16" by simp_all
  ultimately show "a div 4 < 64" "a mod 4 * 16 < 64" "a mod 4 * 16 + b div 16 < 64" "b mod 16 * 4 < 64"
    "b mod 16 * 4 + c div 64 < 64" "c mod 64 < 64"
    by simp_all
qed

lemma digit_split: "(x * n + y) div n = (x :: nat)" "(x * n + y) mod n = y" if "y < n"
  using that by simp_all

lemma b64_arith:
  fixes a b c :: nat
  assumes "a < 256" and "b < 256" and "c < 256"
  shows "a div 4 * 4 + (a mod 4 * 16 + b div 16) div 16 = a"
    "a div 4 * 4 + (a mod 4 * 16) div 16 = a"
    "(a mod 4 * 16 + b div 16) mod 16 * 16 + (b mod 16 * 4 + c div 64) div 4 = b"
    "(a mod 4 * 16 + b div 16) mod 16 * 16 + (b mod 16 * 4) div 4 = b"
    "(b mod 16 * 4 + c div 64) mod 4 * 64 + c mod 64 = c"
proof -
  have "b div 16 < 16" "c div 64 < 4"
    using assms by (simp_all add: less_mult_imp_div_less)
  then have d: "(a mod 4 * 16 + b div 16) div 16 = a mod 4" "(a mod 4 * 16 + b div 16) mod 16 = b div 16"
    "(b mod 16 * 4 + c div 64) div 4 = b mod 16" "(b mod 16 * 4 + c div 64) mod 4 = c div 64"
    by (simp_all only: digit_split)
  show "a div 4 * 4 + (a mod 4 * 16 + b div 16) div 16 = a"
    "(a mod 4 * 16 + b div 16) mod 16 * 16 + (b mod 16 * 4 + c div 64) div 4 = b"
    "(b mod 16 * 4 + c div 64) mod 4 * 64 + c mod 64 = c"
    by (simp_all only: d div_mult_mod_eq)
  show "a div 4 * 4 + (a mod 4 * 16) div 16 = a"
    "(a mod 4 * 16 + b div 16) mod 16 * 16 + (b mod 16 * 4) div 4 = b"
    by (simp_all only: d div_mult_mod_eq) (simp_all add: div_mult_mod_eq)
qed

lemma b64_quanta_Encode:
  "alphabet al \<Longrightarrow> \<forall>b \<in> set bs. b < 256 \<Longrightarrow> b64_quanta al padded (b64_Encode al padded bs) = Some bs"
proof (induction al padded bs rule: b64_Encode.induct)
  case (2 al padded a)
  then show ?case
    using b64_bounds [of a 0 0] b64_arith [of a 0 0] by (simp add: alphabet_index)
next
  case (3 al padded a b)
  then show ?case
    using b64_bounds [of a b 0] b64_arith [of a b 0] by (simp add: alphabet_index)
next
  case (4 al padded a b c r)
  then show ?case
    using b64_bounds [of a b c] b64_arith [of a b c] by (simp add: alphabet_index)
qed simp

lemma b64_Encode_no_newline:
  assumes "alphabet al" and "\<forall>c \<in> set al. \<not> is_newline c"
  shows "\<forall>b \<in> set bs. b < 256 \<Longrightarrow> \<forall>c \<in> set (b64_Encode al padded bs). \<not> is_newline c"
proof -
  have nl: "\<not> is_newline (al ! i)" if "i < 64" for i
    using assms that by (auto simp: alphabet_def)
  have "\<not> is_newline (CHR ''='')" by (simp add: is_newline_def)
  with nl show "\<forall>b \<in> set bs. b < 256 \<Longrightarrow> \<forall>c \<in> set (b64_Encode al padded bs). \<not> is_newline c"
    by (induction al padded bs rule: b64_Encode.induct) (auto simp: b64_bounds)
qed

lemma b64_round_trip:
  assumes "alphabet al" and "\<forall>c \<in> set al. \<not> is_newline c"
  shows "b64_Decode al padded (b64_Encode al padded (map of_char s)) = Some s"
proof -
  have b: "\<forall>b \<in> set (map of_char s). (b :: nat) < 256" by simp
  have "filter (\<lambda>c. \<not> is_newline c) (b64_Encode al padded (map of_char s)) = b64_Encode al padded (map of_char s)"
    using b64_Encode_no_newline [OF assms b] by (simp add: filter_id_conv)
  then show ?thesis
    using b64_quanta_Encode [OF assms(1) b] by (simp add: b64_Decode_def o_def)
qed

lemma alphabet_std: "alphabet b64_std" "\<forall>c \<in> set b64_std. \<not> is_newline c"
  by (simp_all add: alphabet_def b64_std_def is_newline_def)

lemma alphabet_url: "alphabet b64_url" "\<forall>c \<in> set b64_url. \<not> is_newline c"
  by (simp_all add: alphabet_def b64_url_def is_newline_def)

lemma StdEncoding_round_trip [simp]:
  "StdEncoding_DecodeString (StdEncoding_EncodeToString s) = Some s"
  by (simp add: StdEncoding_DecodeString_def StdEncoding_EncodeToString_def b64_round_trip alphabet_std)

lemma RawURLEncoding_round_trip [simp]:
  "RawURLEncoding_DecodeString (RawURLEncoding_EncodeToString s) = Some s"
  by (simp add: RawURLEncoding_DecodeString_def RawURLEncoding_EncodeToString_def b64_round_trip alphabet_url)

lemma b64_Encode_alphabet:
  "alphabet al \<Longrightarrow> \<forall>b \<in> set bs. b < 256 \<Longrightarrow> set (b64_Encode al False bs) \<subseteq> set al"
proof (induction al False bs rule: b64_Encode.induct)
  case (2 al a)
  then show ?case
    using b64_bounds [of a 0 0] by (simp add: alphabet_def)
next
  case (3 al a b)
  then show ?case
    using b64_bounds [of a b 0] by (simp add: alphabet_def)
next
  case (4 al a b c r)
  then show ?case
    using b64_bounds [of a b c] by (simp add: alphabet_def)
qed simp

text \<open>The raw URL alphabet has no dot and no comma, which separate such texts elsewhere.\<close>

lemma RawURLEncoding_clean:
  "CHR ''.'' \<notin> set (RawURLEncoding_EncodeToString s)" "CHR '','' \<notin> set (RawURLEncoding_EncodeToString s)"
proof -
  have "set (RawURLEncoding_EncodeToString s) \<subseteq> set b64_url"
    using b64_Encode_alphabet [OF alphabet_url(1), of "map of_char s"] by (simp add: RawURLEncoding_EncodeToString_def)
  moreover have "CHR ''.'' \<notin> set b64_url" "CHR '','' \<notin> set b64_url" by (simp_all add: b64_url_def)
  ultimately show "CHR ''.'' \<notin> set (RawURLEncoding_EncodeToString s)" "CHR '','' \<notin> set (RawURLEncoding_EncodeToString s)"
    by blast+
qed

subsection \<open>net/url\<close>

fun QueryUnescape :: "string \<Rightarrow> string option" where
  "QueryUnescape [] = Some []"
| "QueryUnescape (c # s) =
     (if c = CHR ''%''
      then (case s of
              a # b # r \<Rightarrow>
                (case (hex_value a, hex_value b) of
                   (Some x, Some y) \<Rightarrow> map_option (Cons (char_of (16 * x + y))) (QueryUnescape r)
                 | _ \<Rightarrow> None)
            | _ \<Rightarrow> None)
      else map_option (Cons (if c = CHR ''+'' then CHR '' '' else c)) (QueryUnescape s))"

type_synonym url_values = "(string \<times> string list) list"

definition values_add :: "string \<Rightarrow> string \<Rightarrow> url_values \<Rightarrow> url_values" where
  "values_add k v m = map_put k ((case map_of m k of None \<Rightarrow> [] | Some vs \<Rightarrow> vs) @ [v]) m"

definition parse_pair :: "string \<Rightarrow> url_values \<Rightarrow> url_values" where
  "parse_pair pair m =
     (if CHR '';'' \<in> set pair \<or> pair = [] then m
      else (let (k, v) = (case cut_at (CHR ''='') pair of None \<Rightarrow> (pair, []) | Some kv \<Rightarrow> kv)
            in case (QueryUnescape k, QueryUnescape v) of
                 (Some k', Some v') \<Rightarrow> values_add k' v' m
               | _ \<Rightarrow> m))"

definition url_Query :: "string \<Rightarrow> url_values" where
  "url_Query raw = fold parse_pair (split_on (CHR ''&'') raw) []"

definition values_Get :: "url_values \<Rightarrow> string \<Rightarrow> string" where
  "values_Get q k = (case map_of q k of Some (v # vs) \<Rightarrow> v | _ \<Rightarrow> [])"

text \<open>\<^verbatim>\<open>url.PathUnescape\<close>: as above, but a plus sign is itself.\<close>

fun PathUnescape :: "string \<Rightarrow> string option" where
  "PathUnescape [] = Some []"
| "PathUnescape (c # s) =
     (if c = CHR ''%''
      then (case s of
              a # b # r \<Rightarrow>
                (case (hex_value a, hex_value b) of
                   (Some x, Some y) \<Rightarrow> map_option (Cons (char_of (16 * x + y))) (PathUnescape r)
                 | _ \<Rightarrow> None)
            | _ \<Rightarrow> None)
      else map_option (Cons c) (PathUnescape s))"

definition unreserved :: "char \<Rightarrow> bool" where
  "unreserved c \<longleftrightarrow>
     (let n = (of_char c :: nat)
      in 97 \<le> n \<and> n \<le> 122 \<or> 65 \<le> n \<and> n \<le> 90 \<or> 48 \<le> n \<and> n \<le> 57 \<or> c \<in> set ''-_.~'')"

definition upper_hex :: "nat \<Rightarrow> char" where
  "upper_hex n = (if n < 10 then char_of (48 + n) else char_of (55 + n))"

definition percent :: "char \<Rightarrow> string" where
  "percent c = [CHR ''%'', upper_hex (of_char c div 16), upper_hex (of_char c mod 16)]"

definition QueryEscape :: "string \<Rightarrow> string" where
  "QueryEscape s = concat (map (\<lambda>c. if unreserved c then [c] else if c = CHR '' '' then ''+'' else percent c) s)"

definition PathEscape :: "string \<Rightarrow> string" where
  "PathEscape s = concat (map (\<lambda>c. if unreserved c \<or> c \<in> set ''$&+=:@'' then [c] else percent c) s)"

text \<open>\<^verbatim>\<open>url.Values.Encode\<close>: the pairs in the order of the sorted keys.\<close>

definition values_Encode :: "url_values \<Rightarrow> string" where
  "values_Encode m =
     strings_Join (concat (map (\<lambda>k. map (\<lambda>v. QueryEscape k @ ''='' @ QueryEscape v)
       (case map_of m k of Some vs \<Rightarrow> vs | None \<Rightarrow> [])) (sort (map fst m)))) ''&''"

lemma hex_value_upper [simp]: "n < 16 \<Longrightarrow> hex_value (upper_hex n) = Some n"
  by (auto simp: hex_value_def upper_hex_def Let_def)

lemma nibbles [simp]: "(of_char c :: nat) div 16 < 16" "16 * ((of_char c :: nat) div 16) + of_char c mod 16 = of_char c"
  using of_char_bound [of c] by (simp_all add: less_mult_imp_div_less)

lemma unreserved_plain: "unreserved c \<Longrightarrow> c \<notin> set ''%+&;=/ ?|''"
  by (auto simp: unreserved_def Let_def)

lemma QueryUnescape_percent: "QueryUnescape (percent c @ s) = map_option (Cons c) (QueryUnescape s)"
  by (simp add: percent_def)

lemma PathUnescape_percent: "PathUnescape (percent c @ s) = map_option (Cons c) (PathUnescape s)"
  by (simp add: percent_def)

lemma QueryEscape_round_trip [simp]: "QueryUnescape (QueryEscape s) = Some s"
proof (induction s)
  case (Cons c s)
  then show ?case
    using unreserved_plain [of c] by (auto simp: QueryEscape_def QueryUnescape_percent)
qed (simp add: QueryEscape_def)

lemma PathEscape_round_trip [simp]: "PathUnescape (PathEscape s) = Some s"
proof (induction s)
  case (Cons c s)
  then show ?case
    using unreserved_plain [of c] by (auto simp: PathEscape_def PathUnescape_percent)
qed (simp add: PathEscape_def)

lemma upper_hex_unreserved: "n < 16 \<Longrightarrow> unreserved (upper_hex n)"
  by (auto simp: unreserved_def upper_hex_def Let_def)

lemma QueryEscape_chars: "c \<in> set (QueryEscape s) \<Longrightarrow> unreserved c \<or> c = CHR ''+'' \<or> c = CHR ''%''"
proof -
  assume "c \<in> set (QueryEscape s)"
  then obtain d where "c \<in> set (if unreserved d then [d] else if d = CHR '' '' then ''+'' else percent d)"
    unfolding QueryEscape_def by (blast dest: in_concat_map)
  then show ?thesis
    by (cases "unreserved d"; cases "d = CHR '' ''") (auto simp: percent_def intro: upper_hex_unreserved)
qed

lemma PathEscape_chars: "c \<in> set (PathEscape s) \<Longrightarrow> unreserved c \<or> c \<in> set ''$&+=:@%''"
proof -
  assume "c \<in> set (PathEscape s)"
  then obtain d where "c \<in> set (if unreserved d \<or> d \<in> set ''$&+=:@'' then [d] else percent d)"
    unfolding PathEscape_def by (blast dest: in_concat_map)
  then show ?thesis
    by (cases "unreserved d \<or> d \<in> set ''$&+=:@''") (simp_all add: percent_def, auto intro: upper_hex_unreserved)
qed

lemma QueryEscape_clean [simp]:
  "CHR ''&'' \<notin> set (QueryEscape s)" "CHR '';'' \<notin> set (QueryEscape s)" "CHR ''='' \<notin> set (QueryEscape s)"
  by (auto dest!: QueryEscape_chars unreserved_plain)

lemma PathEscape_no_slash [simp]: "CHR ''/'' \<notin> set (PathEscape s)" "CHR ''?'' \<notin> set (PathEscape s)"
  by (auto dest!: PathEscape_chars unreserved_plain)

text \<open>Encoding values and parsing the query gives the values back, one per key, in sorted order.\<close>

lemma parse_pair_escaped:
  "parse_pair (QueryEscape k @ CHR ''='' # QueryEscape v) m = values_add k v m"
  by (simp add: parse_pair_def)

lemma fold_values_add:
  assumes "distinct ks" and "\<forall>k \<in> set ks. map_of m k = None"
  shows "fold (\<lambda>k m. values_add k (f k) m) ks m = m @ map (\<lambda>k. (k, [f k])) ks"
  using assms
proof (induction ks arbitrary: m)
  case (Cons k ks)
  have "map_put k v m = m @ [(k, v)]" if "map_of m k = None" for v and m :: url_values
    using that by (induction m) (auto split: if_splits)
  then have "values_add k (f k) m = m @ [(k, [f k])]"
    using Cons.prems by (simp add: values_add_def)
  moreover have "\<forall>x \<in> set ks. map_of (m @ [(k, [f k])]) x = None"
    using Cons.prems by (auto simp: map_add_def)
  ultimately show ?case
    using Cons.prems Cons.IH [of "m @ [(k, [f k])]"] by simp
qed simp

lemma url_Query_Encode:
  assumes m: "gomap m" and one: "\<forall>(k, vs) \<in> set m. length vs = 1"
  shows "url_Query (values_Encode m) = map (\<lambda>k. (k, [values_Get m k])) (sort (map fst m))"
proof (cases "m = []")
  case True
  then show ?thesis by (simp add: values_Encode_def url_Query_def parse_pair_def)
next
  case False
  let ?p = "\<lambda>k. QueryEscape k @ CHR ''='' # QueryEscape (values_Get m k)"
  have get: "map_of m k = Some [values_Get m k]" if k: "k \<in> set (map fst m)" for k
  proof -
    obtain vs where "map_of m k = Some vs" using k by (metis list.set_map map_of_eq_None_iff option.exhaust)
    moreover from this have "length vs = 1" using one by (auto dest: map_of_SomeD)
    ultimately show ?thesis by (cases vs) (simp_all add: values_Get_def)
  qed
  have enc: "values_Encode m = strings_Join (map ?p (sort (map fst m))) [CHR ''&'']"
    unfolding values_Encode_def
    by (rule arg_cong [where f = "\<lambda>x. strings_Join x _"]) (auto simp: get intro!: concat_singleton_map)
  have "split_on (CHR ''&'') (values_Encode m) = map ?p (sort (map fst m))"
    unfolding enc using False by (intro split_on_Join) (auto simp: sort_Nil_iff)
  moreover have "fold parse_pair (map ?p ks) acc = fold (\<lambda>k m'. values_add k (values_Get m k) m') ks acc" for ks acc
    by (induction ks arbitrary: acc) (simp_all add: parse_pair_escaped)
  ultimately have "url_Query (values_Encode m) = fold (\<lambda>k m'. values_add k (values_Get m k) m') (sort (map fst m)) []"
    by (simp add: url_Query_def)
  also have "\<dots> = map (\<lambda>k. (k, [values_Get m k])) (sort (map fst m))"
    using m fold_values_add [of "sort (map fst m)" "[]" "values_Get m"] by (simp add: gomap_def)
  finally show ?thesis .
qed

subsection \<open>Durations as text\<close>

text \<open>\<^verbatim>\<open>time.Duration.String\<close>: \<open>fmt_frac\<close> prints a fraction of \<open>prec\<close> digits without trailing zeros,
  and no point when nothing is left.\<close>

definition pad_digits :: "nat \<Rightarrow> nat \<Rightarrow> string" where
  "pad_digits n prec = (let s = nat_digits n in replicate (prec - length s) (CHR ''0'') @ s)"

definition fmt_frac :: "nat \<Rightarrow> nat \<Rightarrow> string" where
  "fmt_frac v prec =
     (let f = rev (dropWhile (\<lambda>c. c = CHR ''0'') (rev (pad_digits (v mod 10 ^ prec) prec)))
      in if f = [] then [] else CHR ''.'' # f)"

definition Duration_String :: "int \<Rightarrow> string" where
  "Duration_String d =
     (let u = nat \<bar>d\<bar>; neg = (if d < 0 then ''-'' else []);
          small = (\<lambda>prec unit. nat_digits (u div 10 ^ prec) @ fmt_frac u prec @ unit)
      in if u = 0 then ''0s''
         else if u < 1000 then neg @ small 0 ''ns''
         else if u < 1000000 then neg @ small 3 [char_of (0xC2 :: nat), char_of (0xB5 :: nat), CHR ''s'']
         else if u < 1000000000 then neg @ small 6 ''ms''
         else (let secs = u div 1000000000; mins = secs div 60; hours = mins div 60;
                   s = nat_digits (secs mod 60) @ fmt_frac u 9 @ ''s''
               in neg @ (if mins = 0 then s
                         else if hours = 0 then nat_digits (mins mod 60) @ ''m'' @ s
                         else nat_digits hours @ ''h'' @ nat_digits (mins mod 60) @ ''m'' @ s)))"

end
