(* ===== verification/Request.thy ===== *)
theory Request
  imports SqlQuery DxErrors Encoding
begin

text \<open>
  \<^verbatim>\<open>request/paginated_request.go\<close>: the strict parser of list requests. The query string is parsed as
  \<^verbatim>\<open>net/url\<close> does it (pairs with a semicolon and pairs that do not unescape are dropped); Go maps are
  association lists in iteration order, sets are lists.
\<close>

subsection \<open>The parsed request\<close>

record PaginatedRequest =
  Page :: int
  Size :: int
  Filters :: "(string \<times> anyv) list"
  FuzzyFilters :: "(string \<times> string) list"
  ReqOrderBy :: "OrderBy list"
  Temporal :: "TemporalFilter list"

definition Limit :: "PaginatedRequest \<Rightarrow> int" where "Limit p = Size p"

definition Offset :: "PaginatedRequest \<Rightarrow> int" where
  "Offset p = (if Page p < 1 then 0 else int64 (int64 (Page p - 1) * Size p))"

definition fuzzy_condition :: "string \<times> string \<Rightarrow> Condition" where
  "fuzzy_condition ft = Condition (fst ft) OpILike (VStr (''%'' @ snd ft @ ''%'')) []"

definition Conditions :: "PaginatedRequest \<Rightarrow> Condition list" where
  "Conditions p = FromFilters (Filters p) @ map fuzzy_condition (FuzzyFilters p) @ FromTemporal (Temporal p)"

subsection \<open>The builder\<close>

record Builder =
  RawQuery :: string
  allowedFiltersDBMap :: "(string \<times> string) list"
  additionalFilters :: "(string \<times> anyv) list"
  allowedTimeFields :: "string list"
  defaultTimeField :: string
  allowedSortFields :: "string list"
  defaultSortBy :: string
  defaultOrder :: string
  apiToDBMap :: "(string \<times> string) list"
  fuzzyFiltersDBMap :: "(string \<times> string) list"
  extraParams :: "string list"

definition From :: "string \<Rightarrow> Builder" where
  "From raw = \<lparr>RawQuery = raw, allowedFiltersDBMap = [], additionalFilters = [], allowedTimeFields = [],
     defaultTimeField = [], allowedSortFields = [], defaultSortBy = [], defaultOrder = ''desc'',
     apiToDBMap = [], fuzzyFiltersDBMap = [], extraParams = []\<rparr>"

definition AllowParams :: "string list \<Rightarrow> Builder \<Rightarrow> Builder" where
  "AllowParams names b = b\<lparr>extraParams := extraParams b @ names\<rparr>"
definition AllowedFiltersDBMap :: "(string \<times> string) list \<Rightarrow> Builder \<Rightarrow> Builder" where
  "AllowedFiltersDBMap m b = b\<lparr>allowedFiltersDBMap := m\<rparr>"
definition AdditionalFilters :: "(string \<times> anyv) list \<Rightarrow> Builder \<Rightarrow> Builder" where
  "AdditionalFilters m b = b\<lparr>additionalFilters := m\<rparr>"
definition AllowedSortFields :: "string list \<Rightarrow> Builder \<Rightarrow> Builder" where
  "AllowedSortFields fs b = b\<lparr>allowedSortFields := fs\<rparr>"
definition APIToDBMap :: "(string \<times> string) list \<Rightarrow> Builder \<Rightarrow> Builder" where
  "APIToDBMap m b = b\<lparr>apiToDBMap := m\<rparr>"
definition DefaultSort :: "string \<Rightarrow> string \<Rightarrow> Builder \<Rightarrow> Builder" where
  "DefaultSort field ord b =
     b\<lparr>defaultSortBy := field, defaultOrder := (if ord \<noteq> [] then ord else defaultOrder b)\<rparr>"
definition FuzzyFiltersDBMap :: "(string \<times> string) list \<Rightarrow> Builder \<Rightarrow> Builder" where
  "FuzzyFiltersDBMap m b = b\<lparr>fuzzyFiltersDBMap := m\<rparr>"
definition AllowedTimeFields :: "string list \<Rightarrow> Builder \<Rightarrow> Builder" where
  "AllowedTimeFields fs b = b\<lparr>allowedTimeFields := fs\<rparr>"
definition DefaultTimeField :: "string \<Rightarrow> Builder \<Rightarrow> Builder" where
  "DefaultTimeField f b = b\<lparr>defaultTimeField := f\<rparr>"

definition rawQueryParam :: "string \<Rightarrow> string \<Rightarrow> string" where
  "rawQueryParam rawQuery key =
     (case find (\<lambda>pair. case cut_at (CHR ''='') pair of None \<Rightarrow> False | Some (k, v) \<Rightarrow> k = key)
             (split_on (CHR ''&'') rawQuery) of
        None \<Rightarrow> []
      | Some pair \<Rightarrow>
          (case cut_at (CHR ''='') pair of
             None \<Rightarrow> []
           | Some (k, v) \<Rightarrow> (case QueryUnescape v of Some u \<Rightarrow> u | None \<Rightarrow> v)))"

definition parseIntOrDefault :: "string \<Rightarrow> int \<Rightarrow> int" where
  "parseIntOrDefault s d = (if s = [] then d else case Atoi s of Some v \<Rightarrow> v | None \<Rightarrow> d)"

definition allowedQueryParams :: "Builder \<Rightarrow> string list" where
  "allowedQueryParams b =
     [''page'', ''size'', ''sort'', ''search_term'', ''time'', ''endtime'', ''timerel'']
     @ map fst (allowedFiltersDBMap b) @ map fst (fuzzyFiltersDBMap b)
     @ concat (map (\<lambda>f. [f @ ''_time'', f @ ''_endtime'', f @ ''_timerel'']) (allowedTimeFields b))
     @ extraParams b"

text \<open>One item \<^verbatim>\<open>field:order\<close> of the sort parameter.\<close>

definition sort_column :: "Builder \<Rightarrow> string \<Rightarrow> string" where
  "sort_column b field = (case map_of (apiToDBMap b) field of Some c \<Rightarrow> c | None \<Rightarrow> field)"

definition sort_item :: "Builder \<Rightarrow> string \<Rightarrow> goerr + OrderBy" where
  "sort_item b item =
     (case cut_at (CHR '':'') item of
        None \<Rightarrow> Inl (NewValidation (''invalid sort format: '' @ item @ '' (expected field:order)'') [])
      | Some (l, r) \<Rightarrow>
          (let field = TrimSpace l; dir = ToLower (TrimSpace r)
           in if field \<notin> set (allowedSortFields b) then Inl (NewValidation (''invalid sort field: '' @ field) [])
              else if dir \<noteq> ''asc'' \<and> dir \<noteq> ''desc'' then Inl (NewValidation (''invalid sort order: '' @ dir) [])
              else Inr \<lparr>Order_Column = sort_column b field,
                        Order_Desc = (dir = ''desc'')\<rparr>))"

fun sort_items :: "Builder \<Rightarrow> string list \<Rightarrow> goerr + OrderBy list" where
  "sort_items b [] = Inr []"
| "sort_items b (i # is) =
     (case sort_item b i of
        Inl e \<Rightarrow> Inl e
      | Inr ob \<Rightarrow> (case sort_items b is of Inl e \<Rightarrow> Inl e | Inr obs \<Rightarrow> Inr (ob # obs)))"

definition extractSort :: "Builder \<Rightarrow> string \<Rightarrow> goerr + OrderBy list" where
  "extractSort b sortParam =
     (if sortParam = []
      then (if defaultSortBy b \<noteq> []
            then Inr [\<lparr>Order_Column = defaultSortBy b, Order_Desc = EqualFold (defaultOrder b) ''desc''\<rparr>]
            else Inr [])
      else (let items = split_on (CHR '';'') sortParam
            in if length items > 3 then Inl (NewValidation (''too many sort fields; max allowed is '' @ itoa 3) [])
               else sort_items b items))"

definition quoted :: "string \<Rightarrow> string" where "quoted s = CHR 39 # s @ [CHR 39]"

definition extractTemporal :: "Builder \<Rightarrow> url_values \<Rightarrow> goerr + TemporalFilter list" where
  "extractTemporal b q =
     (let get = values_Get q;
          fields = concat (map (\<lambda>f. if get (f @ ''_timerel'') \<noteq> []
                     then [\<lparr>tf_Field = f, tf_Rel = get (f @ ''_timerel''), tf_Time = VStr (get (f @ ''_time'')),
                            tf_End = VStr (get (f @ ''_endtime''))\<rparr>] else []) (allowedTimeFields b))
      in if defaultTimeField b = [] then Inr fields
         else (let t = get ''time''; et = get ''endtime''; rel = get ''timerel''
               in if et \<noteq> [] \<and> t = [] then Inl (NewValidation (''parameter '' @ quoted ''endtime'' @ '' cannot be used without '' @ quoted ''time'') [])
                  else if t \<noteq> [] \<and> rel = [] then Inl (NewValidation (''parameter '' @ quoted ''timerel'' @ '' is required for a temporal query'') [])
                  else if rel \<noteq> []
                  then Inr (\<lparr>tf_Field = defaultTimeField b, tf_Rel = rel, tf_Time = VStr t, tf_End = VStr et\<rparr> # fields)
                  else Inr fields))"

definition parse_page :: "url_values \<Rightarrow> int" where
  "parse_page q = (let page = parseIntOrDefault (values_Get q ''page'') 1 in if page < 1 then 1 else page)"

definition parse_size :: "url_values \<Rightarrow> int" where
  "parse_size q =
     (let sz = parseIntOrDefault (values_Get q ''size'') 10; sz' = (if sz < 1 then 10 else sz)
      in if sz' > 100 then 100 else sz')"

definition parse_filters :: "Builder \<Rightarrow> url_values \<Rightarrow> (string \<times> anyv) list" where
  "parse_filters b q =
     fold (\<lambda>(col, v) m. map_put col v m) (additionalFilters b)
       (fold (\<lambda>(api, db) m. case map_of q api of
                Some (x # xs) \<Rightarrow> map_put db (VSlice (map VStr (x # xs))) m | _ \<Rightarrow> m) (allowedFiltersDBMap b) [])"

definition parse_fuzzy :: "Builder \<Rightarrow> url_values \<Rightarrow> (string \<times> string) list" where
  "parse_fuzzy b q =
     fold (\<lambda>(api, db) m. let v = TrimSpace (values_Get q api) in if v \<noteq> [] then map_put db v m else m)
       (fuzzyFiltersDBMap b) []"

definition Build :: "Builder \<Rightarrow> goerr + PaginatedRequest" where
  "Build b =
     (let q = url_Query (RawQuery b)
      in case find (\<lambda>name. name \<notin> set (allowedQueryParams b)) (map fst q) of
           Some name \<Rightarrow> Inl (NewValidation (''invalid query parameter: '' @ name) [])
         | None \<Rightarrow>
             (case extractSort b (rawQueryParam (RawQuery b) ''sort'') of
                Inl e \<Rightarrow> Inl e
              | Inr obs \<Rightarrow>
                  (case extractTemporal b q of
                     Inl e \<Rightarrow> Inl e
                   | Inr ts \<Rightarrow>
                       Inr \<lparr>Page = parse_page q, Size = parse_size q, Filters = parse_filters b q,
                            FuzzyFilters = parse_fuzzy b q, ReqOrderBy = obs, Temporal = ts\<rparr>)))"

subsection \<open>What an accepted request contains\<close>

lemma Build_Inr:
  assumes "Build b = Inr p"
  shows "set (map fst (url_Query (RawQuery b))) \<subseteq> set (allowedQueryParams b)"
    and "extractSort b (rawQueryParam (RawQuery b) ''sort'') = Inr (ReqOrderBy p)"
    and "extractTemporal b (url_Query (RawQuery b)) = Inr (Temporal p)"
    and "Page p = parse_page (url_Query (RawQuery b))" "Size p = parse_size (url_Query (RawQuery b))"
    and "Filters p = parse_filters b (url_Query (RawQuery b))"
    and "FuzzyFilters p = parse_fuzzy b (url_Query (RawQuery b))"
  using assms
  by (auto simp: Build_def Let_def find_None_iff split: option.splits sum.splits)

lemma sort_item_column: "sort_item b i = Inr ob \<Longrightarrow> Order_Column ob \<in> sort_column b ` set (allowedSortFields b)"
  by (auto simp: sort_item_def Let_def split: option.splits if_splits)

lemma sort_items_columns:
  "sort_items b is = Inr obs \<Longrightarrow> length obs = length is
     \<and> Order_Column ` set obs \<subseteq> sort_column b ` set (allowedSortFields b)"
proof (induction "is" arbitrary: obs)
  case (Cons i "is")
  then show ?case using sort_item_column [of b i] by (auto simp: image_subset_iff split: sum.splits)
qed simp

definition sort_columns :: "Builder \<Rightarrow> string set" where
  "sort_columns b = insert (defaultSortBy b) (sort_column b ` set (allowedSortFields b))"

lemma extractSort_columns:
  "extractSort b s = Inr obs \<Longrightarrow> length obs \<le> 3 \<and> Order_Column ` set obs \<subseteq> sort_columns b"
  using sort_items_columns [of b "split_on (CHR '';'') s" obs]
  by (auto simp: extractSort_def sort_columns_def Let_def image_subset_iff split: if_splits)

lemma fold_put_keys:
  "set (map fst (fold (\<lambda>(col, v) m. map_put col v m) kvs m)) = set (map fst m) \<union> set (map fst kvs)"
  by (induction kvs arbitrary: m) (auto simp del: set_map simp add: case_prod_beta)

lemma fold_filters_keys:
  "set (map fst (fold (\<lambda>(api, db) m. case map_of q api of
        Some (x # xs) \<Rightarrow> map_put db (VSlice (map VStr (x # xs))) m | _ \<Rightarrow> m) fs m))
     \<subseteq> set (map fst m) \<union> snd ` set fs"
proof (induction fs arbitrary: m)
  case (Cons f fs)
  obtain api db where f: "f = (api, db)" by fastforce
  show ?case
  proof (cases "map_of q api")
    case None
    then show ?thesis using Cons [of m] by (auto simp: f simp del: set_map)
  next
    case (Some vs)
    then show ?thesis
      using Cons [of m] Cons [of "map_put db (VSlice (map VStr vs)) m"]
      by (cases vs) (auto simp: f simp del: set_map)
  qed
qed simp

lemma fold_fuzzy_keys:
  "set (map fst (fold (\<lambda>(api, db) m. let v = TrimSpace (values_Get q api) in if v \<noteq> [] then map_put db v m else m) fs m))
     \<subseteq> set (map fst m) \<union> snd ` set fs"
proof (induction fs arbitrary: m)
  case (Cons f fs)
  obtain api db where f: "f = (api, db)" by fastforce
  show ?case
    using Cons [of m] Cons [of "map_put db (TrimSpace (values_Get q api)) m"]
    by (auto simp: f Let_def simp del: set_map)
qed simp

lemma FromFilters_columns: "c \<in> set (FromFilters m) \<Longrightarrow> Column c \<in> set (map fst m)"
proof -
  assume "c \<in> set (FromFilters m)"
  then obtain k v where k: "k \<in> set (map fst m)" "c \<in> set (filter_condition k v)"
    by (auto simp: FromFilters_def map_keys_def split: option.splits)
  then have "Column c \<in> set (map Column (filter_condition k v))" by (simp del: filter_condition_columns)
  then show ?thesis using k(1) by (simp add: filter_condition_columns split: if_splits)
qed

lemma FromTemporal_columns: "c \<in> set (FromTemporal ts) \<Longrightarrow> Column c \<in> tf_Field ` set ts"
  by (auto simp: FromTemporal_def temporal_condition_def split: if_splits)

lemma extractTemporal_fields:
  "extractTemporal b q = Inr ts \<Longrightarrow> tf_Field ` set ts \<subseteq> insert (defaultTimeField b) (set (allowedTimeFields b))"
  by (auto simp: extractTemporal_def Let_def split: if_splits)

text \<open>
  No client input becomes an identifier: every column of every condition an accepted request
  produces is one the service configured (a filter or fuzzy target column, a service-side filter or
  a time field); with the statement theorems, client text can reach SQL only as a bound argument.
\<close>

lemma request_columns_configured:
  assumes "Build b = Inr p" and "c \<in> set (Conditions p)"
  shows "Column c \<in> snd ` set (allowedFiltersDBMap b) \<union> fst ` set (additionalFilters b)
     \<union> snd ` set (fuzzyFiltersDBMap b) \<union> insert (defaultTimeField b) (set (allowedTimeFields b))"
proof -
  let ?q = "url_Query (RawQuery b)"
  note B = Build_Inr [OF assms(1)]
  consider "c \<in> set (FromFilters (Filters p))" | ft where "ft \<in> set (FuzzyFilters p)" "c = fuzzy_condition ft"
    | "c \<in> set (FromTemporal (Temporal p))"
    using assms(2) by (auto simp: Conditions_def)
  then show ?thesis
  proof cases
    case 1
    then have "Column c \<in> set (map fst (parse_filters b ?q))" using FromFilters_columns B(6) by metis
    then show ?thesis
      using fold_filters_keys [of ?q "allowedFiltersDBMap b" "[]"]
      unfolding parse_filters_def fold_put_keys by (auto simp: image_iff subset_iff)
  next
    case 2
    then have "Column c \<in> set (map fst (parse_fuzzy b ?q))" using B(7) by (auto simp: fuzzy_condition_def)
    then show ?thesis
      using fold_fuzzy_keys [of ?q "fuzzyFiltersDBMap b" "[]"] by (auto simp: parse_fuzzy_def simp del: set_map)
  next
    case 3
    then show ?thesis using FromTemporal_columns extractTemporal_fields [OF B(3)] by blast
  qed
qed

text \<open>
  C35: An accepted request is within its contract: every query parameter the server sees is on the
  allowlist, the page is at least 1 (it has no upper bound), the size between 1 and 100, there are at most three sort
  fields, each a column of the sort allowlist (mapped to its database name) or the default, and every column of a condition is one
  the service configured, so no text of the client becomes an identifier.
\<close>

theorem accepted_request_in_contract:
  assumes "Build b = Inr p"
  shows "set (map fst (url_Query (RawQuery b))) \<subseteq> set (allowedQueryParams b)
    \<and> 1 \<le> Page p \<and> 1 \<le> Size p \<and> Size p \<le> 100
    \<and> length (ReqOrderBy p) \<le> 3 \<and> Order_Column ` set (ReqOrderBy p) \<subseteq> sort_columns b
    \<and> Column ` set (Conditions p) \<subseteq> snd ` set (allowedFiltersDBMap b) \<union> fst ` set (additionalFilters b)
       \<union> snd ` set (fuzzyFiltersDBMap b) \<union> insert (defaultTimeField b) (set (allowedTimeFields b))"
proof -
  have "Column ` set (Conditions p) \<subseteq> snd ` set (allowedFiltersDBMap b) \<union> fst ` set (additionalFilters b)
       \<union> snd ` set (fuzzyFiltersDBMap b) \<union> insert (defaultTimeField b) (set (allowedTimeFields b))"
    using request_columns_configured [OF assms] by (intro image_subsetI)
  then show ?thesis
    using Build_Inr [OF assms] extractSort_columns [of b "rawQueryParam (RawQuery b) ''sort''"]
    by (simp add: parse_page_def parse_size_def Let_def)
qed

definition demo_builder :: Builder where
  "demo_builder = DefaultSort ''created_at'' [] (APIToDBMap [(''name'', ''i.name'')] (AllowedSortFields [''name'']
     (AdditionalFilters [(''org_id'', VStr ''acme'')] (AllowedFiltersDBMap [(''org'', ''org_id''), (''kind'', ''item_kind'')]
       (From ''org=evil&kind=a&kind=b%26c&page=3&sort=name:desc'')))))"

lemmas demo_builder_defs = demo_builder_def From_def AllowedFiltersDBMap_def AdditionalFilters_def AllowedSortFields_def
  APIToDBMap_def DefaultSort_def

definition demo_parsed :: PaginatedRequest where
  "demo_parsed = \<lparr>Page = 3, Size = 10,
     Filters = [(''org_id'', VStr ''acme''), (''item_kind'', VSlice [VStr ''a'', VStr ''b&c''])],
     FuzzyFilters = [], ReqOrderBy = [\<lparr>Order_Column = ''i.name'', Order_Desc = True\<rparr>], Temporal = []\<rparr>"

lemma demo_query: "url_Query (RawQuery demo_builder) =
    [(''org'', [''evil'']), (''kind'', [''a'', ''b&c'']), (''page'', [''3'']), (''sort'', [''name:desc''])]"
  by code_simp

lemma demo_build: "Build demo_builder = Inr demo_parsed"
  by code_simp

theorem accepted_request_in_contract_witness:
  "1 \<le> Page demo_parsed \<and> Size demo_parsed \<le> 100 \<and> Order_Column ` set (ReqOrderBy demo_parsed) \<subseteq> sort_columns demo_builder"
  using accepted_request_in_contract [OF demo_build] by simp

lemma request_columns_configured_example:
  "Column (Condition ''org_id'' OpEq (VStr ''acme'') []) \<in> snd ` set (allowedFiltersDBMap demo_builder)
     \<union> fst ` set (additionalFilters demo_builder) \<union> snd ` set (fuzzyFiltersDBMap demo_builder)
     \<union> insert (defaultTimeField demo_builder) (set (allowedTimeFields demo_builder))"
  by (rule request_columns_configured [OF demo_build]) code_simp

subsection \<open>Service-side filters\<close>

lemma map_of_fold_put:
  "gomap kvs \<Longrightarrow> map_of (fold (\<lambda>(col, v) m. map_put col v m) kvs m) k
     = (case map_of kvs k of Some v \<Rightarrow> Some v | None \<Rightarrow> map_of m k)"
proof (induction kvs arbitrary: m)
  case (Cons kv kvs)
  then show ?case
    by (cases kv) (auto simp: gomap_def map_of_eq_None_iff image_iff split: option.splits dest: map_of_SomeD)
qed simp

lemma FromFilters_member:
  assumes "map_of m col = Some v"
  shows "set (filter_condition col v) \<subseteq> set (FromFilters m)"
proof -
  have "col \<in> set (sort (map_keys m))"
    using map_of_SomeD [OF assms] by (force simp: map_keys_def)
  then show ?thesis using assms by (auto simp: FromFilters_def intro!: bexI [of _ col])
qed

lemma FromFilters_only:
  "map_of m col = Some v \<Longrightarrow> c \<in> set (FromFilters m) \<Longrightarrow> Column c = col \<Longrightarrow> c \<in> set (filter_condition col v)"
proof -
  assume m: "map_of m col = Some v" and c: "c \<in> set (FromFilters m)" "Column c = col"
  obtain k where k': "c \<in> set (case map_of m k of None \<Rightarrow> [] | Some v \<Rightarrow> filter_condition k v)"
    using c(1) by (auto simp: FromFilters_def)
  then obtain w where k: "map_of m k = Some w" "c \<in> set (filter_condition k w)"
    by (cases "map_of m k") auto
  have "Column c \<in> set (map Column (filter_condition k w))" using k(2) by simp
  then have "k = col" using c(2) by (simp add: filter_condition_columns split: if_splits)
  then show ?thesis using k m by simp
qed

text \<open>
  C34: A service-side filter cannot be overridden: whatever the query string says, the column of an
  additional filter keeps the service's value, its condition is in the WHERE clause, and no exact
  filter of the client on that column is.
\<close>

theorem service_filters_win:
  assumes "Build b = Inr p" and "gomap (additionalFilters b)" and "(col, v) \<in> set (additionalFilters b)" and "active_filter v"
  shows "map_of (Filters p) col = Some v \<and> filter_condition col v \<noteq> []
    \<and> set (filter_condition col v) \<subseteq> set (Conditions p)
    \<and> (\<forall>c \<in> set (FromFilters (Filters p)). Column c = col \<longrightarrow> c \<in> set (filter_condition col v))"
proof -
  have "map_of (additionalFilters b) col = Some v" using assms(2,3) by (simp add: gomap_def)
  then have m: "map_of (Filters p) col = Some v"
    unfolding Build_Inr(6) [OF assms(1)] parse_filters_def by (simp add: map_of_fold_put [OF assms(2)])
  moreover have "filter_condition col v \<noteq> []"
    using filter_condition_columns [of col v] assms(4) by auto
  ultimately show ?thesis
    using FromFilters_member [OF m] FromFilters_only [OF m] by (auto simp: Conditions_def)
qed

theorem service_filters_win_witness:
  "map_of (Filters demo_parsed) ''org_id'' = Some (VStr ''acme'')"
proof -
  have "gomap (additionalFilters demo_builder)" "(''org_id'', VStr ''acme'') \<in> set (additionalFilters demo_builder)"
    "active_filter (VStr ''acme'')"
    by (simp_all add: demo_builder_defs gomap_def active_filter_def)
  from service_filters_win [OF demo_build this] show ?thesis by simp
qed

subsection \<open>Sorting\<close>

definition print_sort :: "(string \<times> bool) list \<Rightarrow> string" where
  "print_sort fs = strings_Join (map (\<lambda>(f, d). f @ '':'' @ (if d then ''desc'' else ''asc'')) fs) '';''"

lemma TrimSpace_dir: "ToLower (TrimSpace ''desc'') = ''desc''" "ToLower (TrimSpace ''asc'') = ''asc''"
  by code_simp+

lemma sort_item_print:
  assumes "f \<in> set (allowedSortFields b)" and "CHR '':'' \<notin> set f" and "TrimSpace f = f"
  shows "sort_item b (f @ '':'' @ (if d then ''desc'' else ''asc'')) = Inr \<lparr>Order_Column = sort_column b f, Order_Desc = d\<rparr>"
  using assms TrimSpace_dir by (simp add: sort_item_def Let_def)

lemma sort_items_print:
  assumes "\<forall>(f, d) \<in> set fs. f \<in> set (allowedSortFields b) \<and> CHR '':'' \<notin> set f \<and> TrimSpace f = f"
  shows "sort_items b (map (\<lambda>(f, d). f @ '':'' @ (if d then ''desc'' else ''asc'')) fs)
     = Inr (map (\<lambda>(f, d). \<lparr>Order_Column = sort_column b f, Order_Desc = d\<rparr>) fs)"
  using assms
proof (induction fs)
  case (Cons fd fs)
  then show ?case using sort_item_print [of "fst fd" b "snd fd"] by (cases fd) simp
qed simp

text \<open>
  Sort parameters round trip: one to three allowed fields with their directions, printed in the
  documented \<^verbatim>\<open>field:order;field:order\<close> form, parse back to exactly those columns (mapped to their
  database names) and directions, in order.
\<close>

theorem sort_round_trip:
  assumes "fs \<noteq> []" and "length fs \<le> 3"
    and "\<forall>(f, d) \<in> set fs. f \<in> set (allowedSortFields b) \<and> CHR '':'' \<notin> set f \<and> CHR '';'' \<notin> set f \<and> TrimSpace f = f"
  shows "extractSort b (print_sort fs) = Inr (map (\<lambda>(f, d). \<lparr>Order_Column = sort_column b f, Order_Desc = d\<rparr>) fs)"
proof -
  let ?items = "map (\<lambda>(f, d). f @ '':'' @ (if d then ''desc'' else ''asc'')) fs"
  have split: "split_on (CHR '';'') (print_sort fs) = ?items"
    unfolding print_sort_def by (rule split_on_Join) (use assms(1,3) in \<open>force split: if_splits\<close>)+
  have "print_sort fs \<noteq> []"
  proof
    assume "print_sort fs = []"
    then have "?items = [[]]" using split by simp
    then show False by (cases fs) auto
  qed
  moreover have "sort_items b ?items = Inr (map (\<lambda>(f, d). \<lparr>Order_Column = sort_column b f, Order_Desc = d\<rparr>) fs)"
    by (rule sort_items_print) (use assms(3) in auto)
  ultimately show ?thesis using assms(2) by (simp add: extractSort_def split)
qed

theorem sort_round_trip_witness:
  "extractSort demo_builder (print_sort [(''name'', True)]) = Inr [\<lparr>Order_Column = ''i.name'', Order_Desc = True\<rparr>]"
proof -
  have "TrimSpace ''name'' = ''name''" by code_simp
  then show ?thesis
    using sort_round_trip [of "[(''name'', True)]" demo_builder]
    by (simp add: demo_builder_defs sort_column_def)
qed

text \<open>
  The row offset is exact for every page up to \<open>2 ^ 56\<close>; beyond that the 64-bit product wraps:
  the strict parser accepts page 4611686018427387905 with size 4 and its offset is 0, the first page.
\<close>

theorem offset_exact_or_wraps:
  "(\<forall>p. 1 \<le> Page p \<and> Page p \<le> 2 ^ 56 \<and> 1 \<le> Size p \<and> Size p \<le> 100 \<longrightarrow> Offset p = (Page p - 1) * Size p)
   \<and> (\<exists>p. Build (From ''page=4611686018427387905&size=4'') = Inr p \<and> Page p = 4611686018427387905 \<and> Offset p = 0)"
proof (intro conjI allI impI)
  fix p :: PaginatedRequest
  assume a: "1 \<le> Page p \<and> Page p \<le> 2 ^ 56 \<and> 1 \<le> Size p \<and> Size p \<le> 100"
  then have "(Page p - 1) * Size p \<le> 2 ^ 56 * 100"
    by (intro mult_mono) simp_all
  moreover have "0 \<le> (Page p - 1) * Size p" using a by simp
  ultimately have "in_int64 ((Page p - 1) * Size p)" by (simp add: in_int64_def)
  then show "Offset p = (Page p - 1) * Size p"
    using a int64_id [of "Page p - 1"] by (simp add: Offset_def int64_id in_int64_def)
next
  let ?b = "From ''page=4611686018427387905&size=4''"
  have q: "url_Query (RawQuery ?b) = [(''page'', [''4611686018427387905'']), (''size'', [''4''])]"
    by code_simp
  have r: "rawQueryParam (RawQuery ?b) ''sort'' = []" by code_simp
  have "Atoi ''4611686018427387905'' = Some 4611686018427387905" "Atoi ''4'' = Some 4"
    by (simp_all add: Atoi_def parse_uint_def is_digit_def in_int64_def Let_def)
  then have "Build ?b = Inr \<lparr>Page = 4611686018427387905, Size = 4, Filters = [], FuzzyFilters = [],
          ReqOrderBy = [], Temporal = []\<rparr>"
    unfolding Build_def q r
    by (simp add: allowedQueryParams_def extractSort_def extractTemporal_def parse_page_def parse_size_def
        values_Get_def parseIntOrDefault_def parse_filters_def parse_fuzzy_def From_def Let_def)
  then show "\<exists>p. Build ?b = Inr p \<and> Page p = 4611686018427387905 \<and> Offset p = 0"
    by (simp add: Offset_def int64_def)
qed

theorem offset_exact_or_wraps_witness:
  "Offset \<lparr>Page = 5, Size = 20, Filters = [], FuzzyFilters = [], ReqOrderBy = [], Temporal = []\<rparr> = 80"
  using offset_exact_or_wraps by simp

end
