(* ===== verification/Transaction.thy ===== *)
theory Transaction
  imports Retry
begin

text \<open>
  \<^verbatim>\<open>database/postgres/transaction\<close>: transactions, their propagation through the context, retry on
  serialization failures and the advisory lock. pgx and PostgreSQL are a record of operations on a
  world \<open>'s\<close>, with two ghost views: the committed data and the working copy of every open
  transaction. What the code relies on is \<open>pgx_ok\<close>; a concrete in-memory database satisfies it.
\<close>

subsection \<open>pgx\<close>

record ('s, 'd) pgx =
  pool_Begin :: "'s \<Rightarrow> 's \<times> (goerr + nat)"
  tx_Commit :: "nat \<Rightarrow> 's \<Rightarrow> 's \<times> goerr option"
  tx_Rollback :: "nat \<Rightarrow> 's \<Rightarrow> 's \<times> goerr option"
  committed :: "'s \<Rightarrow> 'd"
  work :: "'s \<Rightarrow> nat \<Rightarrow> 'd option"

type_synonym 's tx_body = "nat \<Rightarrow> 's \<Rightarrow> 's \<times> goerr option"

subsection \<open>manager.go\<close>

definition begin_error :: "goerr \<Rightarrow> goerr" where "begin_error e = Errorf ''beginning transaction: '' e []"
definition commit_error :: "goerr \<Rightarrow> goerr" where "commit_error e = Errorf ''committing transaction: '' e []"
definition rollback_error :: "goerr \<Rightarrow> goerr \<Rightarrow> goerr" where
  "rollback_error fe re = Errorf ''transaction fn error: '' fe (''; rollback error: '' @ ErrorText re)"

definition WithTransaction :: "('s, 'd) pgx \<Rightarrow> 's tx_body \<Rightarrow> 's \<Rightarrow> 's \<times> goerr option" where
  "WithTransaction P fn s =
     (case pool_Begin P s of
        (s1, Inl e) \<Rightarrow> (s1, Some (begin_error e))
      | (s1, Inr tx) \<Rightarrow>
          (case fn tx s1 of
             (s2, Some fnErr) \<Rightarrow>
               (case tx_Rollback P tx s2 of
                  (s3, Some rbErr) \<Rightarrow> (s3, Some (rollback_error fnErr rbErr))
                | (s3, None) \<Rightarrow> (s3, Some fnErr))
           | (s2, None) \<Rightarrow>
               (case tx_Commit P tx s2 of
                  (s3, Some e) \<Rightarrow> (s3, Some (commit_error e))
                | (s3, None) \<Rightarrow> (s3, None))))"

text \<open>The context of a call: the ambient transaction, when there is one (\<^verbatim>\<open>TxFromContext\<close>).\<close>

type_synonym tx_ctx = "nat option"

definition TxFromContext :: "tx_ctx \<Rightarrow> nat option" where "TxFromContext ctx = ctx"

definition InTransaction ::
  "('s, 'd) pgx \<Rightarrow> tx_ctx \<Rightarrow> (tx_ctx \<Rightarrow> 's tx_body) \<Rightarrow> 's \<Rightarrow> 's \<times> goerr option" where
  "InTransaction P ctx fn s =
     (case TxFromContext ctx of
        Some tx \<Rightarrow> fn ctx tx s
      | None \<Rightarrow>
          (case pool_Begin P s of
             (s1, Inl e) \<Rightarrow> (s1, Some (begin_error e))
           | (s1, Inr tx) \<Rightarrow>
               (case fn (Some tx) tx s1 of
                  (s2, Some fnErr) \<Rightarrow>
                    (case tx_Rollback P tx s2 of
                       (s3, Some rbErr) \<Rightarrow> (s3, Some (rollback_error fnErr rbErr))
                     | (s3, None) \<Rightarrow> (s3, Some fnErr))
                | (s2, None) \<Rightarrow>
                    (case tx_Commit P tx s2 of
                       (s3, Some e) \<Rightarrow> (s3, Some (commit_error e))
                     | (s3, None) \<Rightarrow> (s3, None)))))"

text \<open>\<^verbatim>\<open>WithAdvisoryLock\<close>: the operations on the connection; the deferred unlock and release run on every
  path that reached them, in reverse order.\<close>

record 's lock_conn =
  pool_Acquire :: "'s \<Rightarrow> 's \<times> goerr option"
  conn_lock :: "int \<Rightarrow> 's \<Rightarrow> 's \<times> goerr option"
  conn_unlock :: "int \<Rightarrow> 's \<Rightarrow> 's"
  conn_Release :: "'s \<Rightarrow> 's"

definition WithAdvisoryLock ::
  "'s lock_conn \<Rightarrow> int \<Rightarrow> ('s \<Rightarrow> 's \<times> goerr option) \<Rightarrow> 's \<Rightarrow> 's \<times> goerr option" where
  "WithAdvisoryLock L key fn s =
     (case pool_Acquire L s of
        (s1, Some e) \<Rightarrow> (s1, Some (Errorf ''transaction.WithAdvisoryLock: acquire connection: '' e []))
      | (s1, None) \<Rightarrow>
          (case conn_lock L key s1 of
             (s2, Some e) \<Rightarrow> (conn_Release L s2, Some (Errorf ''transaction.WithAdvisoryLock: lock: '' e []))
           | (s2, None) \<Rightarrow>
               (case fn s2 of (s3, err) \<Rightarrow> (conn_Release L (conn_unlock L key s3), err))))"

subsection \<open>options.go\<close>

record RetryConfig =
  rc_MaxAttempts :: int
  rc_BaseDelay :: int

definition resolveRetryConfig :: "RetryConfig list \<Rightarrow> RetryConfig" where
  "resolveRetryConfig cfg =
     (let rc = \<lparr>rc_MaxAttempts = 3, rc_BaseDelay = 20 * 10 ^ 6\<rparr>
      in case cfg of
           [] \<Rightarrow> rc
         | c # cs \<Rightarrow>
             (let rc1 = (if rc_MaxAttempts c > 0 then rc\<lparr>rc_MaxAttempts := rc_MaxAttempts c\<rparr> else rc)
              in if rc_BaseDelay c > 0 then rc1\<lparr>rc_BaseDelay := rc_BaseDelay c\<rparr> else rc1))"

definition isRetryablePgError :: "goerr option \<Rightarrow> bool" where
  "isRetryablePgError err =
     (case Option.bind err errors_As_PgError of
        None \<Rightarrow> False
      | Some pg \<Rightarrow> pg_Code pg = ''40001'' \<or> pg_Code pg = ''40P01'')"

definition tx_policy :: "RetryConfig \<Rightarrow> Policy" where
  "tx_policy rc = NewPolicy [WithMaxAttempts (rc_MaxAttempts rc), WithBaseDelay (rc_BaseDelay rc), WithMultiplier (Fin 2)]"

definition retryTx ::
  "'s retry_env \<Rightarrow> string \<Rightarrow> RetryConfig \<Rightarrow> ('s \<Rightarrow> 's \<times> goerr option) \<Rightarrow> 's \<Rightarrow> 's \<times> retry_result" where
  "retryTx E label rc body s =
     (case Retry E (tx_policy rc) body [WithRetryable (Some isRetryablePgError)] s of
        (s', lg, RetErr (Some err)) \<Rightarrow>
          (s', if isRetryablePgError (Some err)
               then RetErr (Some (Errorf (''transaction.'' @ label @ '': giving up after '' @
                      itoa (rc_MaxAttempts rc) @ '' attempts: '') err []))
               else RetErr (Some err))
      | (s', lg, r) \<Rightarrow> (s', r))"

definition WithRetryableTx ::
  "'s retry_env \<Rightarrow> ('s, 'd) pgx \<Rightarrow> 's tx_body \<Rightarrow> RetryConfig list \<Rightarrow> 's \<Rightarrow> 's \<times> retry_result" where
  "WithRetryableTx E P fn cfg s = retryTx E ''WithRetryableTx'' (resolveRetryConfig cfg) (WithTransaction P fn) s"

definition InRetryableTransaction ::
  "'s retry_env \<Rightarrow> ('s, 'd) pgx \<Rightarrow> tx_ctx \<Rightarrow> (tx_ctx \<Rightarrow> 's tx_body) \<Rightarrow> RetryConfig list \<Rightarrow> 's \<Rightarrow> 's \<times> retry_result" where
  "InRetryableTransaction E P ctx fn cfg s =
     (if TxFromContext ctx \<noteq> None
      then (case InTransaction P ctx fn s of (s', err) \<Rightarrow> (s', RetErr err))
      else retryTx E ''InRetryableTransaction'' (resolveRetryConfig cfg) (InTransaction P ctx fn) s)"

subsection \<open>What pgx promises\<close>

text \<open>
  A begun transaction is new and works on a copy of the committed data. A commit that reports
  success publishes the copy; one that reports an error may or may not have (the connection was lost), but a
  serialization failure or deadlock means it was rolled back. A rollback publishes nothing. After
  either the transaction is closed.
\<close>

definition pgx_ok :: "('s, 'd) pgx \<Rightarrow> bool" where
  "pgx_ok P \<longleftrightarrow>
     (\<forall>s s' e. pool_Begin P s = (s', Inl e) \<longrightarrow> committed P s' = committed P s \<and> work P s' = work P s)
   \<and> (\<forall>s s' t. pool_Begin P s = (s', Inr t) \<longrightarrow> work P s t = None \<and> committed P s' = committed P s
        \<and> work P s' = (work P s)(t \<mapsto> committed P s))
   \<and> (\<forall>t s v s'. work P s t = Some v \<and> tx_Commit P t s = (s', None)
        \<longrightarrow> committed P s' = v \<and> work P s' = (work P s)(t := None))
   \<and> (\<forall>t s v s' e. work P s t = Some v \<and> tx_Commit P t s = (s', Some e)
        \<longrightarrow> work P s' = (work P s)(t := None)
          \<and> (committed P s' = committed P s \<or> committed P s' = v \<and> \<not> isRetryablePgError (Some e)))
   \<and> (\<forall>t s v s' r. work P s t = Some v \<and> tx_Rollback P t s = (s', r)
        \<longrightarrow> committed P s' = committed P s \<and> work P s' = (work P s)(t := None))"

text \<open>A body works on its own transaction only and leaves it open.\<close>

definition body_ok :: "('s, 'd) pgx \<Rightarrow> 's tx_body \<Rightarrow> bool" where
  "body_ok P fn \<longleftrightarrow>
     (\<forall>t s v s' r. work P s t = Some v \<and> fn t s = (s', r)
        \<longrightarrow> committed P s' = committed P s \<and> (\<exists>v'. work P s' = (work P s)(t \<mapsto> v')))"

lemma pgx_begin_failed:
  "pgx_ok P \<Longrightarrow> pool_Begin P s = (s', Inl e) \<Longrightarrow> committed P s' = committed P s \<and> work P s' = work P s"
  unfolding pgx_ok_def by metis

lemma pgx_begun:
  "pgx_ok P \<Longrightarrow> pool_Begin P s = (s', Inr t)
   \<Longrightarrow> work P s t = None \<and> committed P s' = committed P s \<and> work P s' = (work P s)(t \<mapsto> committed P s)"
  unfolding pgx_ok_def by metis

lemma pgx_commit:
  "pgx_ok P \<Longrightarrow> work P s t = Some v \<Longrightarrow> tx_Commit P t s = (s', None)
   \<Longrightarrow> committed P s' = v \<and> work P s' = (work P s)(t := None)"
  unfolding pgx_ok_def by metis

lemma pgx_commit_failed:
  "pgx_ok P \<Longrightarrow> work P s t = Some v \<Longrightarrow> tx_Commit P t s = (s', Some e)
   \<Longrightarrow> work P s' = (work P s)(t := None)
     \<and> (committed P s' = committed P s \<or> committed P s' = v \<and> \<not> isRetryablePgError (Some e))"
  unfolding pgx_ok_def by metis

lemma pgx_rollback:
  "pgx_ok P \<Longrightarrow> work P s t = Some v \<Longrightarrow> tx_Rollback P t s = (s', r)
   \<Longrightarrow> committed P s' = committed P s \<and> work P s' = (work P s)(t := None)"
  unfolding pgx_ok_def by metis

subsection \<open>One transaction\<close>

text \<open>What a call leaves behind: nothing, with an error; or the complete effect of the body on a copy of the
  committed data, published by a commit.\<close>

definition tx_published ::
  "('s, 'd) pgx \<Rightarrow> 's tx_body \<Rightarrow> 's \<Rightarrow> 's \<Rightarrow> bool" where
  "tx_published P fn s s' \<longleftrightarrow>
     (\<exists>t s1 s2. pool_Begin P s = (s1, Inr t) \<and> work P s1 t = Some (committed P s) \<and> fn t s1 = (s2, None)
        \<and> work P s2 t = Some (committed P s'))"

lemma WithTransaction_outcome:
  assumes "pgx_ok P" and "body_ok P fn" and "WithTransaction P fn s = (s', r)"
  shows "work P s' = work P s
    \<and> (r \<noteq> None \<and> committed P s' = committed P s
       \<or> r = None \<and> tx_published P fn s s'
       \<or> (\<exists>e. r = Some (commit_error e) \<and> \<not> isRetryablePgError (Some e)) \<and> tx_published P fn s s')"
proof (cases "pool_Begin P s")
  case B: (Pair s1 x)
  show ?thesis
  proof (cases x)
    case (Inl e)
    then show ?thesis
      using pgx_begin_failed [OF assms(1)] assms(3) B by (auto simp: WithTransaction_def)
  next
    case (Inr t)
    then have 1: "work P s t = None" "committed P s1 = committed P s" "work P s1 = (work P s)(t \<mapsto> committed P s)"
      using pgx_begun [OF assms(1)] B by blast+
    obtain s2 f where f: "fn t s1 = (s2, f)" by fastforce
    then obtain v where 2: "committed P s2 = committed P s1" "work P s2 = (work P s1)(t \<mapsto> v)"
      using assms(2) 1(3) unfolding body_ok_def by (metis fun_upd_same)
    have open2: "work P s2 t = Some v" by (simp add: 2)
    have w: "(work P s2)(t := None) = work P s" using 1 2 by (auto simp: fun_eq_iff)
    show ?thesis
    proof (cases f)
      case (Some fnErr)
      obtain s3 rb where rb: "tx_Rollback P t s2 = (s3, rb)" by fastforce
      then have "committed P s3 = committed P s2" "work P s3 = (work P s2)(t := None)"
        using pgx_rollback [OF assms(1) open2 rb] by blast+
      moreover have "s' = s3 \<and> r \<noteq> None"
        using assms(3) B Inr f Some rb by (cases rb) (auto simp: WithTransaction_def)
      ultimately show ?thesis using 1 2 w by simp
    next
      case None
      obtain s3 c where c: "tx_Commit P t s2 = (s3, c)" by fastforce
      have "work P s3 = (work P s2)(t := None)"
        using pgx_commit [OF assms(1) open2] pgx_commit_failed [OF assms(1) open2] c by (cases c) blast+
      moreover have "c = None \<Longrightarrow> committed P s3 = v"
        using pgx_commit [OF assms(1) open2] c by blast
      moreover have "c = Some e \<Longrightarrow> committed P s3 = committed P s2 \<or> committed P s3 = v \<and> \<not> isRetryablePgError (Some e)" for e
        using pgx_commit_failed [OF assms(1) open2] c by blast
      moreover have "s' = s3 \<and> r = map_option commit_error c"
        using assms(3) B Inr f None c by (cases c) (auto simp: WithTransaction_def)
      moreover have "committed P s3 = v \<Longrightarrow> tx_published P fn s s3"
        using B Inr f None 1 open2 by (auto simp: tx_published_def)
      ultimately show ?thesis using 1 2 w by (cases c) auto
    qed
  qed
qed

text \<open>
  C9: A transaction is atomic: afterwards no transaction is left open, and the committed data are either
  untouched (then the call returned an error) or the complete effect of the body on a copy of the
  data committed before. Success means the effect is published, a body error means nothing is, and
  only a failing commit that is neither a serialization failure nor a deadlock leaves it open which.
\<close>

theorem transaction_atomic:
  assumes "pgx_ok P" and "body_ok P fn" and "WithTransaction P fn s = (s', r)"
  shows "work P s' = work P s
    \<and> (r = None \<longrightarrow> tx_published P fn s s')
    \<and> (r \<noteq> None \<longrightarrow> committed P s' = committed P s
         \<or> tx_published P fn s s' \<and> (\<exists>e. r = Some (commit_error e) \<and> \<not> isRetryablePgError (Some e)))"
  using WithTransaction_outcome [OF assms] by blast

subsection \<open>Propagation\<close>

lemma InTransaction_outermost: "InTransaction P None fn = WithTransaction P (\<lambda>t. fn (Some t) t)"
  by (auto simp: InTransaction_def WithTransaction_def TxFromContext_def fun_eq_iff split: prod.splits sum.splits option.splits)

lemma InTransaction_joins: "InTransaction P (Some t) fn s = fn (Some t) t s"
  by (simp add: InTransaction_def TxFromContext_def)

text \<open>Repository calls one after the other, each in its own \<^verbatim>\<open>InTransaction\<close>, stopping at the first error.\<close>

fun tx_calls :: "('s, 'd) pgx \<Rightarrow> tx_ctx \<Rightarrow> (tx_ctx \<Rightarrow> 's tx_body) list \<Rightarrow> 's \<Rightarrow> 's \<times> goerr option" where
  "tx_calls P ctx [] s = (s, None)"
| "tx_calls P ctx (f # fs) s =
     (case InTransaction P ctx f s of (s', Some e) \<Rightarrow> (s', Some e) | (s', None) \<Rightarrow> tx_calls P ctx fs s')"

lemma tx_calls_body:
  assumes "\<forall>f \<in> set fs. \<forall>c. body_ok P (f c)"
  shows "body_ok P (\<lambda>t. tx_calls P (Some t) fs)"
  using assms
proof (induction fs)
  case Nil
  show ?case unfolding body_ok_def tx_calls.simps by (metis fun_upd_triv prod.inject)
next
  case (Cons f fs)
  have IH: "body_ok P (\<lambda>t. tx_calls P (Some t) fs)" using Cons by simp
  show ?case
    unfolding body_ok_def
  proof (intro allI impI)
    fix t s v s' r
    assume a: "work P s t = Some v \<and> tx_calls P (Some t) (f # fs) s = (s', r)"
    obtain s1 e where f: "f (Some t) t s = (s1, e)" by fastforce
    obtain v1 where 1: "committed P s1 = committed P s" "work P s1 = (work P s)(t \<mapsto> v1)"
      using Cons.prems a f unfolding body_ok_def by (meson list.set_intros(1))
    show "committed P s' = committed P s \<and> (\<exists>v'. work P s' = (work P s)(t \<mapsto> v'))"
    proof (cases e)
      case None
      then have "tx_calls P (Some t) fs s1 = (s', r)" using a f by (simp add: InTransaction_joins)
      moreover have "work P s1 t = Some v1" by (simp add: 1)
      ultimately obtain v2 where "committed P s' = committed P s1" "work P s' = (work P s1)(t \<mapsto> v2)"
        using IH unfolding body_ok_def by blast
      then show ?thesis using 1 by auto
    next
      case (Some x)
      then show ?thesis using a f 1 by (auto simp: InTransaction_joins)
    qed
  qed
qed

text \<open>
  Composition: several calls that each open an \<^verbatim>\<open>InTransaction\<close> of their own, wrapped in one outer
  \<^verbatim>\<open>InTransaction\<close>, begin and end exactly one transaction (the whole is one \<^verbatim>\<open>WithTransaction\<close> whose
  body runs them in order), so when any of them fails nothing any of them wrote is committed.
\<close>

theorem nested_transactions_atomic:
  assumes "pgx_ok P" and "\<forall>f \<in> set fs. \<forall>c. body_ok P (f c)"
    and "InTransaction P None (\<lambda>ctx t. tx_calls P ctx fs) s = (s', r)"
  shows "InTransaction P None (\<lambda>ctx t. tx_calls P ctx fs) s = WithTransaction P (\<lambda>t. tx_calls P (Some t) fs) s
    \<and> work P s' = work P s
    \<and> (r \<noteq> None \<longrightarrow> committed P s' = committed P s \<or> (\<exists>e. r = Some (commit_error e) \<and> \<not> isRetryablePgError (Some e)))
    \<and> (r = None \<longrightarrow> tx_published P (\<lambda>t. tx_calls P (Some t) fs) s s')"
  using WithTransaction_outcome [OF assms(1) tx_calls_body [OF assms(2)], of s s' r] assms(3)
  by (auto simp: InTransaction_outermost)

subsection \<open>Retried transactions\<close>

lemma commit_error_retryable [simp]: "isRetryablePgError (Some (commit_error e)) = isRetryablePgError (Some e)"
  by (simp add: isRetryablePgError_def commit_error_def)

text \<open>Waiting does not touch the database.\<close>

definition wait_ok :: "('s, 'd) pgx \<Rightarrow> 's retry_env \<Rightarrow> bool" where
  "wait_ok P E \<longleftrightarrow>
     (\<forall>d s. committed P (fst (timedWait E d s)) = committed P s \<and> work P (fst (timedWait E d s)) = work P s)"

lemma tx_attempts:
  assumes "pgx_ok P" and "body_ok P fn" and "wait_ok P E"
  shows "attempt_contract E (WithTransaction P fn) isRetryablePgError (\<lambda>s. committed P s = c \<and> work P s = w)"
proof
  fix s s' e
  assume "committed P s = c \<and> work P s = w" "WithTransaction P fn s = (s', Some e)" "isRetryablePgError (Some e)"
  then show "committed P s' = c \<and> work P s' = w"
    using WithTransaction_outcome [OF assms(1,2)] by fastforce
qed (use assms(3) in \<open>auto simp: wait_ok_def\<close>)

lemma retryTx_outcome:
  assumes "attempt_contract E body isRetryablePgError Inv" and "Inv s" and "retryTx E label rc body s = (s', r)"
  shows "(Inv s' \<and> r \<noteq> RetErr None)
    \<or> (\<exists>sk e. Inv sk \<and> body sk = (s', e) \<and> (e = None \<longleftrightarrow> r = RetErr None)
         \<and> (\<forall>x. e = Some x \<and> \<not> isRetryablePgError e \<longrightarrow> r = RetErr e))"
proof -
  obtain lg r0 where R: "Retry E (tx_policy rc) body [WithRetryable (Some isRetryablePgError)] s = (s', lg, r0)"
    and r: "r0 = r \<or> (\<exists>x y. r0 = RetErr (Some x) \<and> r = RetErr (Some y) \<and> isRetryablePgError (Some x))"
    using assms(3) by (auto simp: retryTx_def split: prod.splits retry_result.splits option.splits)
  have "(Inv s' \<and> r0 \<noteq> RetErr None) \<or> (\<exists>sk e. Inv sk \<and> body sk = (s', e) \<and> r0 = RetErr e)"
    by (rule attempt_contract.loop_outcome [OF assms(1,2) _ attempts_pos,
          where cfg = "retry_cfg [WithRetryable (Some isRetryablePgError)]" and p = "tx_policy rc"])
      (use R in \<open>simp_all add: retry_cfg_def WithRetryable_def Retry_def\<close>)
  then show ?thesis using r by auto
qed

text \<open>
  C10: Retrying is exactly-once: when \<^verbatim>\<open>WithRetryableTx\<close> (or an outermost \<^verbatim>\<open>InRetryableTransaction\<close>)
  returns nil, the committed data are the effect of one run of the body on the data committed
  before the call, however many attempts were rolled back first; when it fails, the data are
  untouched unless the last error is a commit error that is neither serialization failure nor
  deadlock. No transaction stays open.
\<close>

theorem retried_transaction_exactly_once:
  assumes "pgx_ok P" and "\<forall>c. body_ok P (fn c)" and "wait_ok P E"
    and "InRetryableTransaction E P None (\<lambda>ctx. fn ctx) cfg s = (s', r)"
  shows "work P s' = work P s
    \<and> (r = RetErr None \<longrightarrow> (\<exists>sk. committed P sk = committed P s \<and> work P sk = work P s
           \<and> tx_published P (\<lambda>t. fn (Some t) t) sk s'))
    \<and> (r \<noteq> RetErr None \<longrightarrow> committed P s' = committed P s
         \<or> (\<exists>e. r = RetErr (Some (commit_error e)) \<and> \<not> isRetryablePgError (Some e)))"
proof -
  let ?body = "WithTransaction P (\<lambda>t. fn (Some t) t)"
  let ?Inv = "\<lambda>x. committed P x = committed P s \<and> work P x = work P s"
  have bo: "body_ok P (\<lambda>t. fn (Some t) t)"
    using assms(2) unfolding body_ok_def by blast
  have run: "retryTx E ''InRetryableTransaction'' (resolveRetryConfig cfg) ?body s = (s', r)"
    using assms(4) by (simp add: InRetryableTransaction_def InTransaction_outermost TxFromContext_def)
  from retryTx_outcome [OF tx_attempts [OF assms(1) bo assms(3)] _ run, of "committed P s" "work P s"]
  consider "?Inv s'" "r \<noteq> RetErr None"
    | sk e where "?Inv sk" "?body sk = (s', e)" "e = None \<longleftrightarrow> r = RetErr None"
        "\<forall>x. e = Some x \<and> \<not> isRetryablePgError e \<longrightarrow> r = RetErr e"
    by auto
  then show ?thesis
  proof cases
    case (2 sk e)
    then show ?thesis
      using WithTransaction_outcome [OF assms(1) bo 2(2)] by auto
  qed auto
qed

subsection \<open>A concrete database\<close>

record memdb =
  mem_data :: int
  mem_open :: "(nat \<times> int) list"

definition mem_fresh :: "memdb \<Rightarrow> nat" where
  "mem_fresh s = Suc (fold max (map fst (mem_open s)) 0)"

definition mem_pgx :: "(memdb, int) pgx" where
  "mem_pgx = \<lparr>pool_Begin = (\<lambda>s. (s\<lparr>mem_open := (mem_fresh s, mem_data s) # mem_open s\<rparr>, Inr (mem_fresh s))),
     tx_Commit = (\<lambda>t s. case map_of (mem_open s) t of
         Some v \<Rightarrow> (\<lparr>mem_data = v, mem_open = map_del t (mem_open s)\<rparr>, None)
       | None \<Rightarrow> (s, Some (Opaque ''tx is closed''))),
     tx_Rollback = (\<lambda>t s. (s\<lparr>mem_open := map_del t (mem_open s)\<rparr>, None)),
     committed = mem_data, work = (\<lambda>s. map_of (mem_open s))\<rparr>"

lemma fold_max_ge: "k \<in> set ks \<Longrightarrow> k \<le> fold max ks (m :: nat)" "m \<le> fold max ks m"
proof (induction ks arbitrary: m)
  case (Cons a ks)
  { case 1 then show ?case using Cons(1) [of "max a m"] Cons(2) [of "max a m"] by (auto intro: order_trans) }
  { case 2 then show ?case using Cons(2) [of "max a m"] by simp }
qed auto

lemma mem_fresh_unused: "map_of (mem_open s) (mem_fresh s) = None"
  using fold_max_ge(1) [of "mem_fresh s" "map fst (mem_open s)" 0]
  by (auto simp: map_of_eq_None_iff mem_fresh_def)

lemma mem_pgx_ok: "pgx_ok mem_pgx"
  by (auto simp: pgx_ok_def mem_pgx_def mem_fresh_unused fun_eq_iff split: option.splits)

definition mem_add :: "int \<Rightarrow> memdb tx_body" where
  "mem_add n t s = (case map_of (mem_open s) t of
      Some v \<Rightarrow> (s\<lparr>mem_open := map_put t (v + n) (mem_open s)\<rparr>, if n < 0 then Some (Opaque ''negative'') else None)
    | None \<Rightarrow> (s, Some (Opaque ''closed'')))"

lemma mem_add_ok: "body_ok mem_pgx (mem_add n)"
  by (auto simp: body_ok_def mem_pgx_def mem_add_def split: option.splits)

definition mem_env :: "memdb retry_env" where
  "mem_env = \<lparr>ctxErr = (\<lambda>_. None), timedWait = (\<lambda>d s. (s, False)), Int63n = (\<lambda>s n. 0), convOOR = (\<lambda>_. 0)\<rparr>"

lemma mem_wait_ok: "wait_ok mem_pgx mem_env"
  by (simp add: wait_ok_def mem_env_def)

lemmas mem_defs = mem_pgx_def mem_add_def mem_fresh_def map_del_def

abbreviation memdb_start :: memdb where "memdb_start \<equiv> \<lparr>mem_data = 5, mem_open = []\<rparr>"

theorem transaction_atomic_witness:
  "committed mem_pgx (fst (WithTransaction mem_pgx (mem_add (- 1)) memdb_start)) = 5"
proof -
  have "WithTransaction mem_pgx (mem_add (- 1)) memdb_start = (memdb_start, Some (Opaque ''negative''))"
    by (simp add: WithTransaction_def mem_defs)
  with transaction_atomic [OF mem_pgx_ok mem_add_ok this] show ?thesis
    by (simp add: commit_error_def mem_pgx_def)
qed

theorem nested_transactions_atomic_witness:
  "committed mem_pgx (fst (InTransaction mem_pgx None (\<lambda>ctx t. tx_calls mem_pgx ctx [\<lambda>c. mem_add 3, \<lambda>c. mem_add (- 1)]) memdb_start)) = 5"
proof -
  have r: "InTransaction mem_pgx None (\<lambda>ctx t. tx_calls mem_pgx ctx [\<lambda>c. mem_add 3, \<lambda>c. mem_add (- 1)]) memdb_start
      = (memdb_start, Some (Opaque ''negative''))"
    by (simp add: InTransaction_def TxFromContext_def mem_defs)
  have "\<forall>f \<in> set [\<lambda>c. mem_add 3, \<lambda>c. mem_add (- 1)]. \<forall>c. body_ok mem_pgx (f c)" by (simp add: mem_add_ok)
  from nested_transactions_atomic [OF mem_pgx_ok this r] show ?thesis
    using r by (simp add: commit_error_def mem_pgx_def)
qed

theorem retried_transaction_exactly_once_witness:
  "\<exists>sk. committed mem_pgx sk = 5
     \<and> tx_published mem_pgx (mem_add 3) sk (fst (InRetryableTransaction mem_env mem_pgx None (\<lambda>ctx. mem_add 3) [] memdb_start))"
proof -
  let ?run = "InTransaction mem_pgx None (\<lambda>ctx. mem_add 3)" and ?last = "\<lparr>mem_data = 8, mem_open = []\<rparr>"
  have run: "?run memdb_start = (?last, None)"
    by (simp add: InTransaction_def TxFromContext_def mem_defs)
  have "retry_loop mem_env p cfg ?run (attempts p) 1 None memdb_start [] = (?last, [], RetErr None)" for p cfg
    by (subst retry_loop.simps) (simp add: run mem_env_def)
  then have r: "InRetryableTransaction mem_env mem_pgx None (\<lambda>ctx. mem_add 3) [] memdb_start = (?last, RetErr None)"
    by (simp add: InRetryableTransaction_def TxFromContext_def retryTx_def Retry_def)
  have "\<forall>c :: tx_ctx. body_ok mem_pgx (mem_add 3)" by (simp add: mem_add_ok)
  from retried_transaction_exactly_once [OF mem_pgx_ok this mem_wait_ok r]
  obtain sk where "committed mem_pgx sk = committed mem_pgx memdb_start" "tx_published mem_pgx (mem_add 3) sk ?last"
    by blast
  moreover have "committed mem_pgx memdb_start = 5" by (simp add: mem_pgx_def)
  ultimately show ?thesis unfolding r fst_conv by metis
qed

end
