(* ===== verification/Consumer.thy ===== *)
theory Consumer
  imports DxErrors
begin

text \<open>
  \<^verbatim>\<open>messaging/rabbitmq/runner.go\<close>: the consumer runner (dispatch of deliveries, attempt counting,
  deduplication, reconnect with backoff). The broker is what it delivers and the settlements it
  receives; the handler is a function on a world \<open>'h\<close>. Spans and log lines are left out. Outcomes are the three the package
  declares: an integer that is none of them, on which the source settles nothing, cannot be a handler's answer here.
\<close>

subsection \<open>Deliveries and outcomes\<close>

datatype Outcome = Ack | Requeue | DeadLetter

record Delivery =
  MessageId :: string
  d_Body :: string

type_synonym 'h handler = "Delivery \<Rightarrow> 'h \<Rightarrow> 'h \<times> Outcome"

subsection \<open>Dedup\<close>

record Dedup =
  dd_cap :: int
  dd_order :: "string list"
  dd_set :: "string set"

definition NewDedup :: "int \<Rightarrow> Dedup" where
  "NewDedup capacity = \<lparr>dd_cap = (if capacity \<le> 0 then 1024 else capacity), dd_order = [], dd_set = {}\<rparr>"

definition Seen :: "Dedup \<Rightarrow> string \<Rightarrow> bool" where
  "Seen d i = (if i = [] then False else i \<in> dd_set d)"

definition Mark :: "Dedup \<Rightarrow> string \<Rightarrow> Dedup" where
  "Mark d i =
     (if i = [] then d
      else if i \<in> dd_set d then d
      else (let d1 = (if int (length (dd_order d)) \<ge> dd_cap d
                      then d\<lparr>dd_order := tl (dd_order d), dd_set := dd_set d - {hd (dd_order d)}\<rparr> else d)
            in d1\<lparr>dd_order := dd_order d1 @ [i], dd_set := insert i (dd_set d1)\<rparr>))"

subsection \<open>The runner\<close>

record ConsumerRunner =
  cfg_MaxAttempts :: int
  cfg_Dedup :: "Dedup option"
  run_attempts :: "(string \<times> int) list"

definition NewConsumerRunner :: "int \<Rightarrow> Dedup option \<Rightarrow> ConsumerRunner" where
  "NewConsumerRunner mx dd = \<lparr>cfg_MaxAttempts = mx, cfg_Dedup = dd, run_attempts = []\<rparr>"

definition attempt_count :: "ConsumerRunner \<Rightarrow> string \<Rightarrow> int" where
  "attempt_count r i = (case map_of (run_attempts r) i of None \<Rightarrow> 0 | Some n \<Rightarrow> n)"

definition attemptExceeded :: "ConsumerRunner \<Rightarrow> string \<Rightarrow> ConsumerRunner \<times> bool" where
  "attemptExceeded r i =
     (if cfg_MaxAttempts r \<le> 0 \<or> i = [] then (r, False)
      else (let n = attempt_count r i + 1
            in (r\<lparr>run_attempts := map_put i n (run_attempts r)\<rparr>, n \<ge> cfg_MaxAttempts r)))"

definition forgetAttempts :: "ConsumerRunner \<Rightarrow> string \<Rightarrow> ConsumerRunner" where
  "forgetAttempts r i = (if i = [] then r else r\<lparr>run_attempts := map_del i (run_attempts r)\<rparr>)"

text \<open>What the broker is told about a delivery, and whether the handler ran. An error of the
  settlement is only logged.\<close>

record settlement =
  st_id :: string
  st_outcome :: Outcome
  st_handled :: bool

definition mark_handled :: "ConsumerRunner \<Rightarrow> string \<Rightarrow> ConsumerRunner" where
  "mark_handled r i = r\<lparr>cfg_Dedup := map_option (\<lambda>dd. Mark dd i) (cfg_Dedup r)\<rparr>"

definition dispatch ::
  "'h handler \<Rightarrow> Delivery \<Rightarrow> ConsumerRunner \<times> 'h \<Rightarrow> (ConsumerRunner \<times> 'h) \<times> settlement" where
  "dispatch handler d rh =
     (case rh of (r, h) \<Rightarrow>
        (if (case cfg_Dedup r of None \<Rightarrow> False | Some dd \<Rightarrow> Seen dd (MessageId d))
         then ((r, h), \<lparr>st_id = MessageId d, st_outcome = Ack, st_handled = False\<rparr>)
         else (case handler d h of
                 (h', outcome) \<Rightarrow>
                   (let (r1, outcome1) =
                          (if outcome = Requeue
                           then (case attemptExceeded r (MessageId d) of
                                   (r', True) \<Rightarrow> (r', DeadLetter) | (r', False) \<Rightarrow> (r', Requeue))
                           else (r, outcome));
                        r2 = (case outcome1 of
                                Ack \<Rightarrow> forgetAttempts (mark_handled r1 (MessageId d)) (MessageId d)
                              | Requeue \<Rightarrow> r1
                              | DeadLetter \<Rightarrow> forgetAttempts r1 (MessageId d))
                    in ((r2, h'), \<lparr>st_id = MessageId d, st_outcome = outcome1, st_handled = True\<rparr>)))))"

subsection \<open>One connection and the reconnect loop\<close>

text \<open>How the select of the consume loop can go: the context ends, the channel closes (cleanly or with an
  error), the delivery channel closes, or a delivery arrives.\<close>

datatype conn_event = CtxDone | ChannelClosed "goerr option" | DeliveriesClosed | Deliver Delivery

record connection =
  c_Dial :: "goerr option"
  c_Channel :: "goerr option"
  c_Setup :: "goerr option"
  c_Qos :: "goerr option"
  c_Consume :: "goerr option"
  c_events :: "conn_event list"

fun consume_loop ::
  "'h handler \<Rightarrow> conn_event list \<Rightarrow> ConsumerRunner \<times> 'h \<Rightarrow> settlement list
   \<Rightarrow> (ConsumerRunner \<times> 'h) \<times> settlement list \<times> goerr option" where
  "consume_loop handler [] rh lg = (rh, lg, None)"
| "consume_loop handler (CtxDone # es) rh lg = (rh, lg, None)"
| "consume_loop handler (ChannelClosed None # es) rh lg = (rh, lg, Some (Opaque ''amqp channel closed cleanly''))"
| "consume_loop handler (ChannelClosed (Some e) # es) rh lg = (rh, lg, Some (Errorf ''amqp channel closed: '' e []))"
| "consume_loop handler (DeliveriesClosed # es) rh lg = (rh, lg, Some (Opaque ''delivery channel closed''))"
| "consume_loop handler (Deliver d # es) rh lg =
     (case dispatch handler d rh of (rh', x) \<Rightarrow> consume_loop handler es rh' (lg @ [x]))"

definition runOnce ::
  "bool \<Rightarrow> int \<Rightarrow> 'h handler \<Rightarrow> connection \<Rightarrow> ConsumerRunner \<times> 'h
   \<Rightarrow> (ConsumerRunner \<times> 'h) \<times> settlement list \<times> goerr option" where
  "runOnce hasSetup prefetch handler c rh =
     (case c_Dial c of Some e \<Rightarrow> (rh, [], Some (Errorf ''dial rabbitmq: '' e []))
      | None \<Rightarrow> (case c_Channel c of Some e \<Rightarrow> (rh, [], Some (Errorf ''open channel: '' e []))
      | None \<Rightarrow> (case (if hasSetup then c_Setup c else None) of Some e \<Rightarrow> (rh, [], Some (Errorf ''topology setup: '' e []))
      | None \<Rightarrow> (case (if prefetch > 0 then c_Qos c else None) of Some e \<Rightarrow> (rh, [], Some (Errorf ''set qos: '' e []))
      | None \<Rightarrow> (case c_Consume c of Some e \<Rightarrow> (rh, [], Some (Errorf ''start consuming: '' e []))
      | None \<Rightarrow> consume_loop handler (c_events c) rh [])))))"

definition next_backoff :: "int \<Rightarrow> int" where
  "next_backoff b = (if b < 30 * 10 ^ 9 then (if 2 * b > 30 * 10 ^ 9 then 30 * 10 ^ 9 else 2 * b) else b)"

text \<open>\<^verbatim>\<open>Run\<close> over the connections it will see; each comes with whether the context is done when
  \<^verbatim>\<open>runOnce\<close> returns and whether it ends during the wait. The result lists the settlements and the
  waits begun.\<close>

fun run_loop ::
  "bool \<Rightarrow> int \<Rightarrow> 'h handler \<Rightarrow> (connection \<times> bool \<times> bool) list \<Rightarrow> int \<Rightarrow> ConsumerRunner \<times> 'h
   \<Rightarrow> (ConsumerRunner \<times> 'h) \<times> settlement list \<times> int list" where
  "run_loop hasSetup prefetch handler [] backoff rh = (rh, [], [])"
| "run_loop hasSetup prefetch handler ((c, done, waitDone) # cs) backoff rh =
     (case runOnce hasSetup prefetch handler c rh of
        (rh', lg, err) \<Rightarrow>
          if done then (rh', lg, [])
          else if waitDone then (rh', lg, [backoff])
          else (case run_loop hasSetup prefetch handler cs (next_backoff backoff) rh' of
                  (rh'', lg', ws) \<Rightarrow> (rh'', lg @ lg', backoff # ws)))"

definition Run ::
  "bool \<Rightarrow> int \<Rightarrow> 'h handler \<Rightarrow> (connection \<times> bool \<times> bool) list \<Rightarrow> ConsumerRunner \<times> 'h
   \<Rightarrow> (ConsumerRunner \<times> 'h) \<times> settlement list \<times> int list" where
  "Run hasSetup prefetch handler cs rh = run_loop hasSetup prefetch handler cs (10 ^ 9) rh"

subsection \<open>The dedup window\<close>

definition dedup_inv :: "Dedup \<Rightarrow> bool" where
  "dedup_inv d \<longleftrightarrow> 0 < dd_cap d \<and> dd_set d = set (dd_order d) \<and> distinct (dd_order d)
     \<and> int (length (dd_order d)) \<le> dd_cap d \<and> [] \<notin> dd_set d"

lemma dedup_inv_new: "dedup_inv (NewDedup n)"
  by (simp add: NewDedup_def dedup_inv_def)

lemma dedup_inv_mark: "dedup_inv d \<Longrightarrow> dedup_inv (Mark d i)"
  by (cases "dd_order d") (auto simp: dedup_inv_def Mark_def Let_def)

lemma Mark_cap [simp]: "dd_cap (Mark d i) = dd_cap d"
  by (simp add: Mark_def Let_def)

lemma Seen_Mark: "i \<noteq> [] \<Longrightarrow> Seen (Mark d i) i"
  by (simp add: Seen_def Mark_def Let_def)

text \<open>An id with at most \<open>k\<close> younger ones behind it stays while \<open>k\<close> is below the capacity.\<close>

definition in_window :: "string \<Rightarrow> nat \<Rightarrow> Dedup \<Rightarrow> bool" where
  "in_window i k d \<longleftrightarrow> dedup_inv d \<and> (\<exists>xs ys. dd_order d = xs @ i # ys \<and> length ys \<le> k)"

lemma in_window_Seen: "in_window i k d \<Longrightarrow> Seen d i"
proof -
  assume "in_window i k d"
  then obtain xs ys where "dedup_inv d" "dd_order d = xs @ i # ys" by (auto simp: in_window_def)
  then have "dd_set d = set (xs @ i # ys)" "[] \<notin> dd_set d" unfolding dedup_inv_def by metis+
  then show ?thesis by (auto simp: Seen_def)
qed

lemma in_window_mono: "in_window i k d \<Longrightarrow> k \<le> m \<Longrightarrow> in_window i m d"
  unfolding in_window_def using order_trans by blast

lemma in_window_new:
  assumes "dedup_inv d" and "i \<noteq> []" and "\<not> Seen d i"
  shows "in_window i 0 (Mark d i)"
proof -
  have "dd_order (Mark d i) = butlast (dd_order (Mark d i)) @ i # []"
    using assms by (simp add: Mark_def Seen_def Let_def)
  then show ?thesis using dedup_inv_mark [OF assms(1)] unfolding in_window_def by (metis le0 list.size(3))
qed

lemma in_window_Mark:
  assumes "in_window i k d" and "int (Suc k) < dd_cap d"
  shows "in_window i (Suc k) (Mark d j)"
proof -
  obtain xs ys where o: "dd_order d = xs @ i # ys" "length ys \<le> k" and inv: "dedup_inv d"
    using assms(1) by (auto simp: in_window_def)
  show ?thesis
  proof (cases "j = [] \<or> j \<in> dd_set d")
    case True
    then show ?thesis using in_window_mono [OF assms(1), of "Suc k"] by (auto simp: Mark_def)
  next
    case False
    show ?thesis
    proof (cases "int (length (dd_order d)) \<ge> dd_cap d")
      case True
      then have "xs \<noteq> []" using o assms(2) by auto
      then have "dd_order (Mark d j) = tl xs @ i # (ys @ [j])"
        using False True o by (simp add: Mark_def Let_def)
      then show ?thesis using dedup_inv_mark [OF inv] o(2) unfolding in_window_def
        by (intro conjI exI [of _ "tl xs"] exI [of _ "ys @ [j]"]) simp_all
    next
      case le: False
      then have "dd_order (Mark d j) = xs @ i # (ys @ [j])"
        using False o by (simp add: Mark_def Let_def)
      then show ?thesis using dedup_inv_mark [OF inv] o(2) unfolding in_window_def
        by (intro conjI exI [of _ xs] exI [of _ "ys @ [j]"]) simp_all
    qed
  qed
qed

subsection \<open>Runs of deliveries\<close>

fun dispatch_all ::
  "'h handler \<Rightarrow> Delivery list \<Rightarrow> ConsumerRunner \<times> 'h \<Rightarrow> (ConsumerRunner \<times> 'h) \<times> settlement list" where
  "dispatch_all handler [] rh = (rh, [])"
| "dispatch_all handler (d # ds) rh =
     (case dispatch handler d rh of (rh1, x) \<Rightarrow> (case dispatch_all handler ds rh1 of (rh2, xs) \<Rightarrow> (rh2, x # xs)))"

text \<open>The runner's invariant: the dedup set is well formed, its capacity is fixed, and no remembered id has
  attempts on record.\<close>

definition runner_inv :: "ConsumerRunner \<Rightarrow> bool" where
  "runner_inv r \<longleftrightarrow>
     (case cfg_Dedup r of None \<Rightarrow> True
      | Some dd \<Rightarrow> dedup_inv dd \<and> (\<forall>i. Seen dd i \<longrightarrow> attempt_count r i = 0))
   \<and> (\<forall>i n. map_of (run_attempts r) i = Some n \<longrightarrow> 0 < n \<and> n < max 1 (cfg_MaxAttempts r) \<and> i \<noteq> [])"

lemma runner_inv_new: "runner_inv (NewConsumerRunner mx (map_option NewDedup c))"
  by (auto simp: runner_inv_def NewConsumerRunner_def dedup_inv_new attempt_count_def split: option.splits)

lemma Seen_Mark_iff: "Seen (Mark d i) j \<Longrightarrow> Seen d j \<or> j = i"
  by (auto simp: Seen_def Mark_def Let_def split: if_splits)

text \<open>The attempts on record for an id, as its settlements so far give them.\<close>

definition open_attempts :: "string \<Rightarrow> settlement \<Rightarrow> int \<Rightarrow> int" where
  "open_attempts i x n =
     (if st_id x \<noteq> i \<or> \<not> st_handled x then n else if st_outcome x = Requeue then n + 1 else 0)"

lemma attempt_count_simps [simp]:
  "attempt_count (r\<lparr>run_attempts := map_put i n (run_attempts r)\<rparr>) j = (if i = j then n else attempt_count r j)"
  "attempt_count (r\<lparr>run_attempts := map_del i (run_attempts r)\<rparr>) j = (if i = j then 0 else attempt_count r j)"
  "attempt_count (r\<lparr>cfg_Dedup := dd\<rparr>) j = attempt_count r j"
  by (simp_all add: attempt_count_def)

definition seen_before :: "ConsumerRunner \<Rightarrow> string \<Rightarrow> bool" where
  "seen_before r i = (case cfg_Dedup r of None \<Rightarrow> False | Some dd \<Rightarrow> Seen dd i)"

text \<open>\<open>dispatch\<close> case by case.\<close>

lemma dispatch_cases:
  assumes "dispatch handler d (r, h) = ((r', h'), x)"
  obtains (duplicate) "seen_before r (MessageId d)" "r' = r" "h' = h" "\<not> st_handled x" "st_outcome x = Ack" "st_id x = MessageId d"
  | (acked) "\<not> seen_before r (MessageId d)" "handler d h = (h', Ack)" "st_handled x" "st_outcome x = Ack" "st_id x = MessageId d"
      "r' = forgetAttempts (mark_handled r (MessageId d)) (MessageId d)"
  | (dead) "\<not> seen_before r (MessageId d)" "handler d h = (h', DeadLetter)" "st_handled x" "st_outcome x = DeadLetter"
      "st_id x = MessageId d" "r' = forgetAttempts r (MessageId d)"
  | (exceeded) r1 where "\<not> seen_before r (MessageId d)" "handler d h = (h', Requeue)" "st_handled x" "st_outcome x = DeadLetter"
      "st_id x = MessageId d" "attemptExceeded r (MessageId d) = (r1, True)" "r' = forgetAttempts r1 (MessageId d)"
  | (requeued) "\<not> seen_before r (MessageId d)" "handler d h = (h', Requeue)" "st_handled x" "st_outcome x = Requeue"
      "st_id x = MessageId d" "attemptExceeded r (MessageId d) = (r', False)"
proof (cases "seen_before r (MessageId d)")
  case True
  then have "(if seen_before r (MessageId d) then ((r, h), \<lparr>st_id = MessageId d, st_outcome = Ack, st_handled = False\<rparr>)
      else dispatch handler d (r, h)) = ((r', h'), x)"
    using assms by (simp add: dispatch_def seen_before_def)
  with True show ?thesis by (intro duplicate) auto
next
  case new: False
  obtain h1 oc where h: "handler d h = (h1, oc)" by fastforce
  obtain r1 ex where e: "attemptExceeded r (MessageId d) = (r1, ex)" by fastforce
  note facts = assms new h e
  show ?thesis
  proof (cases oc)
    case Ack
    then show ?thesis using facts acked by (auto simp: dispatch_def seen_before_def Let_def)
  next
    case DeadLetter
    then show ?thesis using facts dead by (auto simp: dispatch_def seen_before_def Let_def)
  next
    case Requeue
    then show ?thesis using facts exceeded requeued
      by (cases ex) (auto simp: dispatch_def seen_before_def Let_def)
  qed
qed

lemma forget_frame [simp]:
  "cfg_MaxAttempts (forgetAttempts r i) = cfg_MaxAttempts r" "cfg_Dedup (forgetAttempts r i) = cfg_Dedup r"
  "cfg_MaxAttempts (mark_handled r i) = cfg_MaxAttempts r" "run_attempts (mark_handled r i) = run_attempts r"
  by (simp_all add: forgetAttempts_def mark_handled_def)

lemma attempt_count_forget [simp]: "j \<noteq> [] \<Longrightarrow> attempt_count (forgetAttempts r i) j = (if i = j then 0 else attempt_count r j)"
  by (simp add: forgetAttempts_def)

lemma attempt_count_mark [simp]: "attempt_count (mark_handled r i) j = attempt_count r j"
  by (simp add: attempt_count_def)

lemma inv_count_nonneg: "runner_inv r \<Longrightarrow> 0 \<le> attempt_count r i"
  by (auto simp: runner_inv_def attempt_count_def split: option.splits intro: less_imp_le)

lemma forget_inv: "runner_inv r \<Longrightarrow> runner_inv (forgetAttempts r i)"
  by (auto simp: runner_inv_def forgetAttempts_def split: option.splits if_splits)

lemma mark_forget_inv:
  assumes "runner_inv r"
  shows "runner_inv (forgetAttempts (mark_handled r i) i)"
proof (cases "cfg_Dedup r")
  case None
  then have "mark_handled r i = r" by (simp add: mark_handled_def)
  then show ?thesis using forget_inv [OF assms] by simp
next
  case (Some dd)
  let ?r = "forgetAttempts (mark_handled r i) i"
  have "attempt_count ?r j = 0" if "Seen (Mark dd i) j" for j
  proof -
    have "j \<noteq> []" using that by (auto simp: Seen_def)
    then show ?thesis using Seen_Mark_iff [OF that] assms Some by (auto simp: runner_inv_def)
  qed
  moreover have "map_of (run_attempts ?r) j = Some n \<Longrightarrow> map_of (run_attempts r) j = Some n" for j n
    by (auto simp: forgetAttempts_def mark_handled_def split: if_splits)
  moreover have "cfg_Dedup ?r = Some (Mark dd i)" using Some by (simp add: mark_handled_def)
  moreover have "dedup_inv dd" "\<forall>j n. map_of (run_attempts r) j = Some n \<longrightarrow> 0 < n \<and> n < max 1 (cfg_MaxAttempts r) \<and> j \<noteq> []"
    using assms Some by (auto simp: runner_inv_def)
  ultimately show ?thesis
    unfolding runner_inv_def by (simp add: dedup_inv_mark) blast
qed

definition bumped :: "ConsumerRunner \<Rightarrow> string \<Rightarrow> ConsumerRunner" where
  "bumped r i = r\<lparr>run_attempts := map_put i (attempt_count r i + 1) (run_attempts r)\<rparr>"

lemma exceeded_True:
  "attemptExceeded r i = (r1, True)
   \<Longrightarrow> 0 < cfg_MaxAttempts r \<and> i \<noteq> [] \<and> cfg_MaxAttempts r \<le> attempt_count r i + 1 \<and> r1 = bumped r i"
  by (simp add: attemptExceeded_def bumped_def Let_def split: if_splits)

lemma exceeded_False:
  "attemptExceeded r i = (r1, False)
   \<Longrightarrow> (cfg_MaxAttempts r \<le> 0 \<or> i = []) \<and> r1 = r
     \<or> 0 < cfg_MaxAttempts r \<and> i \<noteq> [] \<and> attempt_count r i + 1 < cfg_MaxAttempts r \<and> r1 = bumped r i"
  by (auto simp: attemptExceeded_def bumped_def Let_def split: if_splits)

lemma bumped_frame [simp]:
  "cfg_Dedup (bumped r i) = cfg_Dedup r" "cfg_MaxAttempts (bumped r i) = cfg_MaxAttempts r"
  "attempt_count (bumped r i) j = (if i = j then attempt_count r i + 1 else attempt_count r j)"
  "map_of (run_attempts (bumped r i)) = (map_of (run_attempts r))(i \<mapsto> attempt_count r i + 1)"
  by (simp_all add: bumped_def)

lemma runner_inv_cong:
  assumes "map_of (run_attempts r) = map_of (run_attempts r')" "cfg_Dedup r = cfg_Dedup r'" "cfg_MaxAttempts r = cfg_MaxAttempts r'"
  shows "runner_inv r = runner_inv r'"
proof -
  have "attempt_count r = attempt_count r'" using assms(1) by (simp add: attempt_count_def fun_eq_iff)
  then show ?thesis using assms unfolding runner_inv_def by (simp cong: option.case_cong)
qed

lemma forget_bumped: "map_of (run_attempts (forgetAttempts (bumped r i) i)) = map_of (run_attempts (forgetAttempts r i))" if "i \<noteq> []"
  using that by (simp add: forgetAttempts_def)

lemma requeue_inv:
  assumes "runner_inv r" and "\<not> seen_before r i" and "attemptExceeded r i = (r', False)"
  shows "runner_inv r'"
proof (cases "r' = r")
  case False
  then have c: "i \<noteq> []" "attempt_count r i + 1 < cfg_MaxAttempts r" "r' = bumped r i"
    using exceeded_False [OF assms(3)] by auto
  have "Seen dd i \<Longrightarrow> cfg_Dedup r \<noteq> Some dd" for dd
    using assms(2) by (auto simp: seen_before_def)
  then show ?thesis
    using assms(1) c inv_count_nonneg [OF assms(1), of i]
    by (auto simp: runner_inv_def split: option.splits if_splits)
qed (use assms(1) in simp)

lemma dispatch_inv:
  assumes "runner_inv r" and "dispatch handler d (r, h) = ((r', h'), x)"
  shows "runner_inv r' \<and> cfg_MaxAttempts r' = cfg_MaxAttempts r"
  using assms(2)
proof (cases rule: dispatch_cases)
  case (exceeded r1)
  then show ?thesis
    using exceeded_True [OF exceeded(6)] forget_inv [OF assms(1), of "MessageId d"] forget_bumped [of "MessageId d" r]
      runner_inv_cong [of r' "forgetAttempts r (MessageId d)"] by simp
next
  case requeued
  then show ?thesis using requeue_inv [OF assms(1) requeued(1,6)] exceeded_False [OF requeued(6)] by auto
qed (use assms(1) in \<open>auto intro: forget_inv mark_forget_inv\<close>)

lemma dispatch_counts:
  assumes "runner_inv r" and "0 < cfg_MaxAttempts r" and "i \<noteq> []" and "dispatch handler d (r, h) = ((r', h'), x)"
  shows "attempt_count r' i = open_attempts i x (attempt_count r i)"
  using assms(4)
proof (cases rule: dispatch_cases)
  case (exceeded r1)
  then show ?thesis using assms(3) exceeded_True [OF exceeded(6)] by (simp add: open_attempts_def)
next
  case requeued
  then show ?thesis using assms(2,3) exceeded_False [OF requeued(6)] by (auto simp: open_attempts_def)
qed (use assms(3) in \<open>simp_all add: open_attempts_def\<close>)

lemma dispatch_all_counts:
  assumes "runner_inv (fst rh)" and "0 < cfg_MaxAttempts (fst rh)" and "i \<noteq> []" and "dispatch_all handler ds rh = (rh', xs)"
  shows "runner_inv (fst rh') \<and> cfg_MaxAttempts (fst rh') = cfg_MaxAttempts (fst rh)
    \<and> attempt_count (fst rh') i = fold (open_attempts i) xs (attempt_count (fst rh) i)"
  using assms
proof (induction ds arbitrary: rh xs)
  case (Cons d ds)
  obtain r h where rh: "rh = (r, h)" by fastforce
  obtain r1 h1 x where d: "dispatch handler d (r, h) = ((r1, h1), x)" by (metis prod.exhaust)
  obtain ys where ds: "dispatch_all handler ds (r1, h1) = (rh', ys)" "xs = x # ys"
    using Cons.prems rh d by (auto split: prod.splits)
  have 1: "runner_inv r1" "cfg_MaxAttempts r1 = cfg_MaxAttempts r"
    using dispatch_inv [OF _ d] Cons.prems(1) rh by auto
  have "attempt_count r1 i = open_attempts i x (attempt_count r i)"
    using dispatch_counts [OF _ _ Cons.prems(3) d] Cons.prems(1,2) rh by simp
  then show ?case
    using Cons.IH [OF _ _ Cons.prems(3) ds(1)] 1 Cons.prems(2) rh ds(2) by simp
qed simp

lemma open_count_bounds:
  assumes "runner_inv r" and "0 < cfg_MaxAttempts r"
  shows "attempt_count r i < cfg_MaxAttempts r"
  using assms by (fastforce simp: runner_inv_def attempt_count_def max_def split: option.splits if_splits)

lemma dispatch_all_frame:
  assumes "runner_inv (fst rh)" and "dispatch_all handler ds rh = (rh', xs)"
  shows "runner_inv (fst rh') \<and> cfg_MaxAttempts (fst rh') = cfg_MaxAttempts (fst rh)"
  using assms
proof (induction ds arbitrary: rh xs)
  case (Cons d ds)
  obtain r h where rh: "rh = (r, h)" by fastforce
  obtain r1 h1 x where d: "dispatch handler d (r, h) = ((r1, h1), x)" by (metis prod.exhaust)
  obtain ys where ds: "dispatch_all handler ds (r1, h1) = (rh', ys)" "xs = x # ys"
    using Cons.prems rh d by (auto split: prod.splits)
  then show ?case using dispatch_inv [OF _ d] Cons.prems(1) Cons.IH [OF _ ds(1)] rh by simp
qed simp

lemma requeue_is_handled: "dispatch_all handler ds rh = (rh', xs) \<Longrightarrow> x \<in> set xs \<Longrightarrow> st_outcome x = Requeue \<Longrightarrow> st_handled x"
proof (induction ds arbitrary: rh xs)
  case (Cons d ds)
  obtain r h where rh: "rh = (r, h)" by fastforce
  obtain r1 h1 y where d: "dispatch handler d (r, h) = ((r1, h1), y)" by (metis prod.exhaust)
  obtain ys where ds: "dispatch_all handler ds (r1, h1) = (rh', ys)" "xs = y # ys"
    using Cons.prems(1) rh d by (auto split: prod.splits)
  have "st_outcome y = Requeue \<Longrightarrow> st_handled y" using d by (cases rule: dispatch_cases) auto
  then show ?case using Cons.IH [OF ds(1)] Cons.prems(2,3) ds(2) by auto
qed simp

lemma only_requeued_counts:
  "\<forall>x \<in> set xs. st_id x = i \<longrightarrow> st_outcome x = Requeue \<and> st_handled x
   \<Longrightarrow> fold (open_attempts i) xs n = n + int (length (filter (\<lambda>x. st_id x = i) xs))"
  by (induction xs arbitrary: n) (auto simp: open_attempts_def)

lemma dispatch_outcome:
  assumes "\<not> seen_before r (MessageId d)" and "handler d h = (h', oc)"
  shows "st_outcome (snd (dispatch handler d (r, h))) =
    (if oc = Requeue \<and> 0 < cfg_MaxAttempts r \<and> MessageId d \<noteq> [] \<and> cfg_MaxAttempts r \<le> attempt_count r (MessageId d) + 1
     then DeadLetter else oc)"
  using assms by (cases oc) (auto simp: dispatch_def seen_before_def attemptExceeded_def Let_def)

text \<open>Finding: \<^verbatim>\<open>MaxAttempts\<close> is the number of times a message is handled; it is requeued one time less.\<close>

lemma requeued_one_less:
  assumes "0 < mx" and "i \<noteq> []"
    and "dispatch_all handler ds (NewConsumerRunner mx (map_option NewDedup c), h) = ((r, h'), xs)"
  shows "fold (open_attempts i) xs 0 < mx"
  using dispatch_all_counts [OF _ _ assms(2,3)] open_count_bounds [of r i] runner_inv_new assms(1)
  by (auto simp: NewConsumerRunner_def attempt_count_def)

text \<open>
  C36: Poison messages are capped, through any interleaving with other messages. With \<^verbatim>\<open>MaxAttempts\<close> set, a message with an id is requeued at
  most \<^verbatim>\<open>MaxAttempts\<close> times between two other settlements of it, so among any \<^verbatim>\<open>MaxAttempts + 1\<close> of its deliveries one is acknowledged
  or dead-lettered. And the cap does nothing else: what the handler decides about a delivery is what the broker is told, except that a requeue becomes
  a dead letter, only if \<^verbatim>\<open>MaxAttempts\<close> is set, the message has an id, and the requeues since its last other settlement have come to
  \<^verbatim>\<open>MaxAttempts\<close> with this failure.
\<close>

theorem poison_message_cap:
  assumes "dispatch_all handler ds (NewConsumerRunner mx (map_option NewDedup c), h) = ((r, h'), xs)"
  shows "(0 < mx \<and> i \<noteq> [] \<longrightarrow> fold (open_attempts i) xs 0 \<le> mx
      \<and> (int (length (filter (\<lambda>x. st_id x = i) xs)) > mx \<longrightarrow> (\<exists>x \<in> set xs. st_id x = i \<and> st_outcome x \<in> {Ack, DeadLetter})))
    \<and> (\<forall>d h'' oc. \<not> seen_before r (MessageId d) \<and> handler d h' = (h'', oc) \<longrightarrow>
         (let told = st_outcome (snd (dispatch handler d (r, h')))
          in told = oc \<or> told = DeadLetter \<and> oc = Requeue \<and> 0 < mx \<and> MessageId d \<noteq> []
               \<and> fold (open_attempts (MessageId d)) xs 0 + 1 \<ge> mx))"
proof (intro conjI impI allI)
  let ?r0 = "NewConsumerRunner mx (map_option NewDedup c)"
  have m: "cfg_MaxAttempts ?r0 = mx" "attempt_count ?r0 j = 0" for j
    by (simp_all add: NewConsumerRunner_def attempt_count_def)
  have count: "attempt_count r j = fold (open_attempts j) xs 0" if "0 < mx" "j \<noteq> []" for j
    using dispatch_all_counts [OF _ _ that(2) assms] runner_inv_new that(1) m by auto
  have mx: "cfg_MaxAttempts r = mx" using dispatch_all_frame [OF _ assms] runner_inv_new m by auto
  {
    assume c: "0 < mx \<and> i \<noteq> []"
    show le: "fold (open_attempts i) xs 0 \<le> mx" using requeued_one_less [OF _ _ assms, of i] c by simp
    assume more: "int (length (filter (\<lambda>x. st_id x = i) xs)) > mx"
    show "\<exists>x \<in> set xs. st_id x = i \<and> st_outcome x \<in> {Ack, DeadLetter}"
    proof (rule ccontr)
      assume "\<not> ?thesis"
      then have "\<forall>x \<in> set xs. st_id x = i \<longrightarrow> st_outcome x = Requeue \<and> st_handled x"
        using requeue_is_handled [OF assms] Outcome.exhaust by blast
      then show False using only_requeued_counts [of xs i 0] le more by simp
    qed
  next
    fix d h'' oc
    assume "\<not> seen_before r (MessageId d) \<and> handler d h' = (h'', oc)"
    then show "let told = st_outcome (snd (dispatch handler d (r, h')))
          in told = oc \<or> told = DeadLetter \<and> oc = Requeue \<and> 0 < mx \<and> MessageId d \<noteq> []
               \<and> fold (open_attempts (MessageId d)) xs 0 + 1 \<ge> mx"
      using dispatch_outcome [of r d handler h' h'' oc] mx count [of "MessageId d"] by (auto simp: Let_def split: if_splits)
  }
qed

theorem poison_message_cap_witness:
  "\<exists>r h' xs. dispatch_all (\<lambda>d h. (h, Requeue)) (replicate 4 \<lparr>MessageId = ''m'', d_Body = ''x''\<rparr>)
        (NewConsumerRunner 3 (map_option NewDedup None), ()) = ((r, h'), xs)
     \<and> fold (open_attempts ''m'') xs 0 \<le> 3 \<and> map st_outcome xs = [Requeue, Requeue, DeadLetter, Requeue]"
proof -
  let ?h = "\<lambda>d h. (h :: unit, Requeue)" and ?ds = "replicate 4 \<lparr>MessageId = ''m'', d_Body = ''x''\<rparr>"
  obtain r h' xs where D: "dispatch_all ?h ?ds (NewConsumerRunner 3 (map_option NewDedup None), ()) = ((r, h'), xs)"
    by (metis prod.exhaust)
  moreover have "map st_outcome (snd (dispatch_all ?h ?ds (NewConsumerRunner 3 (map_option NewDedup None), ())))
      = [Requeue, Requeue, DeadLetter, Requeue]"
    by (simp add: numeral_eq_Suc dispatch_def attemptExceeded_def attempt_count_def NewConsumerRunner_def
        forgetAttempts_def map_del_def Let_def)
  ultimately show ?thesis using poison_message_cap [OF D, of "''m''"] by auto
qed

subsection \<open>Deduplication across deliveries\<close>

definition runner_window :: "string \<Rightarrow> nat \<Rightarrow> int \<Rightarrow> ConsumerRunner \<Rightarrow> bool" where
  "runner_window i k cap r \<longleftrightarrow> (\<exists>dd. cfg_Dedup r = Some dd \<and> dd_cap dd = cap \<and> in_window i k dd)"

lemma dispatch_window:
  assumes "runner_window i k cap r" and "int (Suc k) < cap" and "dispatch handler d (r, h) = ((r', h'), x)"
  shows "runner_window i (Suc k) cap r'"
proof -
  obtain dd where dd: "cfg_Dedup r = Some dd" "dd_cap dd = cap" "in_window i k dd"
    using assms(1) by (auto simp: runner_window_def)
  have keep: "in_window i (Suc k) dd" using dd(3) by (rule in_window_mono) simp
  have mark: "in_window i (Suc k) (Mark dd j)" for j
    using in_window_Mark [OF dd(3)] assms(2) dd(2) by simp
  from assms(3) show ?thesis
  proof (cases rule: dispatch_cases)
    case acked
    then show ?thesis using dd mark [of "MessageId d"] by (simp add: runner_window_def mark_handled_def)
  next
    case (exceeded r1)
    then show ?thesis using dd keep exceeded_True [OF exceeded(6)] by (simp add: runner_window_def)
  next
    case requeued
    then show ?thesis using dd keep exceeded_False [OF requeued(6)] by (auto simp: runner_window_def)
  qed (use dd keep in \<open>simp_all add: runner_window_def\<close>)
qed

lemma dispatch_all_window:
  "runner_window i k cap (fst rh) \<Longrightarrow> int (k + length ds) < cap \<Longrightarrow> dispatch_all handler ds rh = (rh', xs)
   \<Longrightarrow> runner_window i (k + length ds) cap (fst rh')"
proof (induction ds arbitrary: rh k xs)
  case (Cons d ds)
  obtain r h where rh: "rh = (r, h)" by fastforce
  obtain r1 h1 x where d: "dispatch handler d (r, h) = ((r1, h1), x)" by (metis prod.exhaust)
  obtain ys where ds: "dispatch_all handler ds (r1, h1) = (rh', ys)" "xs = x # ys"
    using Cons.prems rh d by (auto split: prod.splits)
  have "runner_window i (Suc k) cap r1"
    using dispatch_window [OF _ _ d] Cons.prems(1,2) rh by simp
  then show ?case
    using Cons.IH [OF _ _ ds(1), of "Suc k"] Cons.prems(2) by simp
qed simp

text \<open>
  A message that was handled and acknowledged is not handled again while its id is in the dedup
  window: whatever fewer than \<^verbatim>\<open>cap\<close> deliveries come in between, another delivery with the same id is
  acknowledged without calling the handler and without changing the runner.
\<close>

theorem dedup_absorbs_redelivery:
  assumes "runner_inv r" and "cfg_Dedup r = Some dd" and "MessageId d \<noteq> []"
    and "dispatch handler d (r, h) = (rh1, x)" and "st_handled x" and "st_outcome x = Ack"
    and "dispatch_all handler ds rh1 = (rh2, xs)" and "int (length ds) < dd_cap dd"
    and "MessageId d' = MessageId d"
  shows "dispatch handler d' rh2 = (rh2, \<lparr>st_id = MessageId d, st_outcome = Ack, st_handled = False\<rparr>)"
proof -
  obtain r1 h1 where rh1: "rh1 = (r1, h1)" by fastforce
  have inv: "dedup_inv dd" using assms(1,2) by (simp add: runner_inv_def)
  have "runner_window (MessageId d) 0 (dd_cap dd) r1"
    using assms(4) unfolding rh1
  proof (cases rule: dispatch_cases)
    case acked
    then have "in_window (MessageId d) 0 (Mark dd (MessageId d))"
      using in_window_new [OF inv assms(3)] assms(2) by (simp add: seen_before_def)
    then show ?thesis using acked assms(2) by (simp add: runner_window_def mark_handled_def)
  qed (use assms(5,6) in simp_all)
  then have "runner_window (MessageId d) (length ds) (dd_cap dd) (fst rh2)"
    using dispatch_all_window [of "MessageId d" 0 "dd_cap dd" rh1 ds handler rh2 xs] assms(7,8) rh1 by simp
  then obtain dd' where "cfg_Dedup (fst rh2) = Some dd'" "Seen dd' (MessageId d)"
    using in_window_Seen by (auto simp: runner_window_def)
  then show ?thesis using assms(9) by (cases rh2) (simp add: dispatch_def)
qed

theorem dedup_absorbs_redelivery_witness:
  "\<exists>rh2. dispatch (\<lambda>d h. (h + 1, Ack)) \<lparr>MessageId = ''m'', d_Body = ''again''\<rparr> rh2
     = (rh2, \<lparr>st_id = ''m'', st_outcome = Ack, st_handled = False\<rparr>) \<and> snd rh2 = (2 :: int)"
proof -
  let ?r = "NewConsumerRunner 0 (map_option NewDedup (Some 8))" and ?h = "\<lambda>d h. (h + 1 :: int, Ack)"
  let ?m = "\<lparr>MessageId = ''m'', d_Body = ''x''\<rparr>" and ?n = "\<lparr>MessageId = ''n'', d_Body = ''y''\<rparr>"
  have dd: "cfg_Dedup ?r = Some (NewDedup 8)" by (simp add: NewConsumerRunner_def)
  obtain rh1 where 1: "dispatch ?h ?m (?r, 0) = (rh1, \<lparr>st_id = ''m'', st_outcome = Ack, st_handled = True\<rparr>)" "snd rh1 = 1"
    by (simp add: dispatch_def NewConsumerRunner_def NewDedup_def Seen_def)
  obtain rh2 xs where 2: "dispatch_all ?h [?n] rh1 = (rh2, xs)" by fastforce
  have "dispatch ?h \<lparr>MessageId = ''m'', d_Body = ''again''\<rparr> rh2 = (rh2, \<lparr>st_id = MessageId ?m, st_outcome = Ack, st_handled = False\<rparr>)"
    by (rule dedup_absorbs_redelivery [OF runner_inv_new dd _ 1(1) _ _ 2]) (simp_all add: NewDedup_def)
  moreover have "snd rh2 = 2"
    using 1 2 by (auto simp: dispatch_def NewConsumerRunner_def NewDedup_def Seen_def Let_def mark_handled_def
        forgetAttempts_def map_del_def Mark_def)
  ultimately show ?thesis by (intro exI [of _ rh2]) simp
qed

subsection \<open>Reconnecting\<close>

lemma consume_loop_dispatches:
  "consume_loop handler es rh lg = (rh', lg', err) \<Longrightarrow> \<exists>ds xs. lg' = lg @ xs \<and> dispatch_all handler ds rh = (rh', xs)"
proof (induction handler es rh lg rule: consume_loop.induct)
  case (6 handler d es rh lg)
  obtain rh1 x where d: "dispatch handler d rh = (rh1, x)" by fastforce
  then obtain ds xs where "lg' = (lg @ [x]) @ xs" "dispatch_all handler ds rh1 = (rh', xs)"
    using 6 by fastforce
  then show ?case using d by (intro exI [of _ "d # ds"] exI [of _ "x # xs"]) simp
qed (auto intro: exI [of _ "[]"])

lemma runOnce_dispatches:
  assumes "runOnce hs pf handler c rh = (rh', lg, err)"
  shows "\<exists>ds. dispatch_all handler ds rh = (rh', lg)"
proof (cases "consume_loop handler (c_events c) rh [] = (rh', lg, err)")
  case True
  then show ?thesis using consume_loop_dispatches by fastforce
next
  case False
  then have "rh' = rh" "lg = []"
    using assms by (auto simp: runOnce_def split: option.splits)
  then show ?thesis by (intro exI [of _ "[]"]) simp
qed

lemma dispatch_all_append:
  "dispatch_all handler (ds @ es) rh =
     (case dispatch_all handler ds rh of (rh1, xs) \<Rightarrow> (case dispatch_all handler es rh1 of (rh2, ys) \<Rightarrow> (rh2, xs @ ys)))"
  by (induction ds arbitrary: rh) (auto split: prod.splits)

lemma next_backoff_pow: "next_backoff (min (30 * 10 ^ 9) (2 ^ k * 10 ^ 9)) = min (30 * 10 ^ 9) (2 ^ Suc k * 10 ^ 9)"
  by (simp add: next_backoff_def min_def)

lemma run_loop_facts:
  "run_loop hs pf handler cs (min (30 * 10 ^ 9) (2 ^ k * 10 ^ 9)) rh = (rh', lg, ws) \<Longrightarrow>
     (\<exists>ds. dispatch_all handler ds rh = (rh', lg)) \<and> length ws \<le> length cs
     \<and> (\<forall>j < length ws. ws ! j = min (30 * 10 ^ 9) (2 ^ (k + j) * 10 ^ 9))"
proof (induction cs arbitrary: k rh lg ws)
  case Nil
  then show ?case by (auto intro: exI [of _ "[]"])
next
  case (Cons c cs)
  obtain con d w where c: "c = (con, d, w)" by (metis prod.exhaust)
  obtain rh1 lg1 e where r1: "runOnce hs pf handler con rh = (rh1, lg1, e)" by (metis prod.exhaust)
  obtain ds1 where ds1: "dispatch_all handler ds1 rh = (rh1, lg1)" using runOnce_dispatches [OF r1] by blast
  show ?case
  proof (cases "d \<or> w")
    case True
    then show ?thesis using Cons.prems c r1 ds1 by (auto split: if_splits)
  next
    case False
    obtain lg2 ws2 where r2: "run_loop hs pf handler cs (min (30 * 10 ^ 9) (2 ^ Suc k * 10 ^ 9)) rh1 = (rh', lg2, ws2)"
      and eq: "lg = lg1 @ lg2" "ws = min (30 * 10 ^ 9) (2 ^ k * 10 ^ 9) # ws2"
      using Cons.prems False c r1 by (simp only: run_loop.simps next_backoff_pow) (auto split: prod.splits)
    obtain ds2 where ds2: "dispatch_all handler ds2 rh1 = (rh', lg2)" "length ws2 \<le> length cs"
      "\<forall>j < length ws2. ws2 ! j = min (30 * 10 ^ 9) (2 ^ (Suc k + j) * 10 ^ 9)"
      using Cons.IH [OF r2] by blast
    have "dispatch_all handler (ds1 @ ds2) rh = (rh', lg)" by (simp add: dispatch_all_append ds1 ds2 eq)
    moreover have "ws ! j = min (30 * 10 ^ 9) (2 ^ (k + j) * 10 ^ 9)" if "j < length ws" for j
      using that ds2(3) eq(2) by (cases j) simp_all
    ultimately show ?thesis using ds2(2) eq(2) by auto
  qed
qed

text \<open>
  Reconnects do not lose the runner's state: the settlements of a whole \<^verbatim>\<open>Run\<close>, over any sequence of
  connections and failures, are those of one uninterrupted sequence of dispatches (so the attempt
  cap and the dedup window span reconnects), and the waits between connections double from one
  second to thirty and stay there, a connection that worked in between not resetting them.
\<close>

theorem run_is_one_dispatch_sequence:
  assumes "Run hs pf handler cs rh = (rh', lg, ws)"
  shows "(\<exists>ds. dispatch_all handler ds rh = (rh', lg)) \<and> length ws \<le> length cs
    \<and> (\<forall>j < length ws. ws ! j = min (30 * 10 ^ 9) (2 ^ j * 10 ^ 9))"
  using run_loop_facts [of hs pf handler cs 0 rh rh' lg ws] assms by (simp add: Run_def)

definition broken_conn :: "conn_event list \<Rightarrow> connection" where
  "broken_conn es = \<lparr>c_Dial = None, c_Channel = None, c_Setup = None, c_Qos = None, c_Consume = None, c_events = es\<rparr>"

theorem run_is_one_dispatch_sequence_witness:
  "\<exists>rh' lg ws. Run True 10 (\<lambda>d h. (h, Requeue))
      [(broken_conn [Deliver \<lparr>MessageId = ''m'', d_Body = []\<rparr>, DeliveriesClosed], False, False),
       (broken_conn [Deliver \<lparr>MessageId = ''m'', d_Body = []\<rparr>, ChannelClosed None], False, False),
       (broken_conn [CtxDone], True, False)] (NewConsumerRunner 2 None, ()) = (rh', lg, ws)
     \<and> map st_outcome lg = [Requeue, DeadLetter] \<and> ws = [10 ^ 9, 2 * 10 ^ 9] \<and> (\<forall>j < length ws. ws ! j = min (30 * 10 ^ 9) (2 ^ j * 10 ^ 9))"
proof -
  let ?cs = "[(broken_conn [Deliver \<lparr>MessageId = ''m'', d_Body = []\<rparr>, DeliveriesClosed], False, False),
       (broken_conn [Deliver \<lparr>MessageId = ''m'', d_Body = []\<rparr>, ChannelClosed None], False, False),
       (broken_conn [CtxDone], True, False)]"
  obtain rh' lg ws where R: "Run True 10 (\<lambda>d h. (h, Requeue)) ?cs (NewConsumerRunner 2 None, ()) = (rh', lg, ws)"
    by (metis prod.exhaust)
  have out: "map st_outcome lg = [Requeue, DeadLetter]" "ws = [10 ^ 9, 2 * 10 ^ 9]"
    using R by (auto simp: Run_def runOnce_def broken_conn_def dispatch_def attemptExceeded_def attempt_count_def
        NewConsumerRunner_def forgetAttempts_def next_backoff_def Let_def)
  have "\<forall>j < length ws. ws ! j = min (30 * 10 ^ 9) (2 ^ j * 10 ^ 9)"
    using run_is_one_dispatch_sequence [OF R] by blast
  with R out show ?thesis by (intro exI conjI)
qed

end
