(* ===== verification/Outbox.thy ===== *)
theory Outbox
  imports DxErrors
begin

text \<open>
  \<^verbatim>\<open>messaging/outbox\<close>: the store of pending events and the dispatcher that drains it. The dispatcher
  is written against an interface (\<^verbatim>\<open>Store\<close>); here the interface is a locale with the laws a store
  promises, and the PostgreSQL store, read from its SQL as operations on a table, interprets it. The
  loop of \<^verbatim>\<open>drain\<close> has no bound of its own, so its model counts rounds: \<open>None\<close> means still running.
\<close>

subsection \<open>Rows and the interface (outbox.go)\<close>

record Row =
  row_ID :: nat
  row_Action :: string
  row_Payload :: string
  row_RequestID :: string
  row_CreatedAt :: int
  row_Attempts :: int

record 's Store =
  st_Fetch :: "int \<Rightarrow> 's \<Rightarrow> 's \<times> (goerr + Row list)"
  st_MarkSent :: "nat \<Rightarrow> 's \<Rightarrow> 's \<times> goerr option"

subsection \<open>PGStore\<close>

text \<open>A table row and the table. \<open>tbl_errs\<close> says what the coming statements meet, in order: nothing, or an
  error together with whether the server had carried the statement out before the reply was lost.\<close>

record trow =
  t_row :: Row
  t_sent :: "int option"

record table =
  tbl_rows :: "trow list"
  tbl_now :: int
  tbl_errs :: "(goerr \<times> bool) option list"

definition next_err :: "table \<Rightarrow> (goerr \<times> bool) option" where
  "next_err t = (case tbl_errs t of [] \<Rightarrow> None | e # es \<Rightarrow> e)"

definition stmt_done :: "table \<Rightarrow> table" where
  "stmt_done t = t\<lparr>tbl_errs := tl (tbl_errs t)\<rparr>"

definition exec_stmt :: "(trow list \<Rightarrow> trow list) \<Rightarrow> table \<Rightarrow> table \<times> goerr option" where
  "exec_stmt f t =
     (case next_err t of
        None \<Rightarrow> ((stmt_done t)\<lparr>tbl_rows := f (tbl_rows t)\<rparr>, None)
      | Some (e, carried_out) \<Rightarrow> (if carried_out then (stmt_done t)\<lparr>tbl_rows := f (tbl_rows t)\<rparr> else stmt_done t, Some e))"

definition pg_Insert :: "nat \<Rightarrow> string \<Rightarrow> string \<Rightarrow> string \<Rightarrow> table \<Rightarrow> table \<times> goerr option" where
  "pg_Insert uuid action payload requestID t =
     (case exec_stmt (\<lambda>rows. rows @
            [\<lparr>t_row = \<lparr>row_ID = uuid, row_Action = action, row_Payload = payload, row_RequestID = requestID,
                       row_CreatedAt = tbl_now t, row_Attempts = 0\<rparr>, t_sent = None\<rparr>]) t of
        (t', Some e) \<Rightarrow> (t', Some (Errorf ''outbox: insert: '' e []))
      | (t', None) \<Rightarrow> (t', None))"

text \<open>\<^verbatim>\<open>FetchUnsent\<close>: the unsent rows, oldest first, at most \<open>limit\<close>; their attempt counters go up and the
  updated rows are returned. A negative limit is an error of the server.\<close>

definition bump :: "Row \<Rightarrow> Row" where
  "bump r = r\<lparr>row_Attempts := row_Attempts r + 1\<rparr>"

definition claimed :: "int \<Rightarrow> table \<Rightarrow> Row list" where
  "claimed limit t = take (nat limit) (sort_key row_CreatedAt (map t_row (filter (\<lambda>x. t_sent x = None) (tbl_rows t))))"

definition bump_rows :: "nat list \<Rightarrow> trow list \<Rightarrow> trow list" where
  "bump_rows ids = map (\<lambda>x. if row_ID (t_row x) \<in> set ids then x\<lparr>t_row := bump (t_row x)\<rparr> else x)"

definition pg_FetchUnsent :: "int \<Rightarrow> table \<Rightarrow> table \<times> (goerr + Row list)" where
  "pg_FetchUnsent limit t =
     (if limit < 0 \<and> next_err t = None
      then (stmt_done t, Inl (Errorf ''outbox: fetch unsent: '' (PgError ''2201W'' [] [] []) []))
      else (case exec_stmt (bump_rows (map row_ID (claimed limit t))) t of
              (t', Some e) \<Rightarrow> (t', Inl (Errorf ''outbox: fetch unsent: '' e []))
            | (t', None) \<Rightarrow> (t', Inr (map bump (claimed limit t)))))"

definition mark_rows :: "nat \<Rightarrow> int \<Rightarrow> trow list \<Rightarrow> trow list" where
  "mark_rows rid now = map (\<lambda>x. if row_ID (t_row x) = rid then x\<lparr>t_sent := Some now\<rparr> else x)"

definition pg_MarkSent :: "nat \<Rightarrow> table \<Rightarrow> table \<times> goerr option" where
  "pg_MarkSent rid t =
     (case exec_stmt (mark_rows rid (tbl_now t)) t of
        (t', Some e) \<Rightarrow> (t', Some (Errorf ''outbox: mark sent: '' e []))
      | (t', None) \<Rightarrow> (t', None))"

definition PGStore :: "table Store" where
  "PGStore = \<lparr>st_Fetch = pg_FetchUnsent, st_MarkSent = pg_MarkSent\<rparr>"

subsection \<open>The dispatcher (dispatcher.go)\<close>

record Dispatcher =
  disp_interval :: int
  disp_batch :: int
  disp_kick :: bool

definition WithInterval :: "int \<Rightarrow> Dispatcher \<Rightarrow> Dispatcher" where "WithInterval d disp = disp\<lparr>disp_interval := d\<rparr>"
definition WithBatchSize :: "int \<Rightarrow> Dispatcher \<Rightarrow> Dispatcher" where "WithBatchSize n disp = disp\<lparr>disp_batch := n\<rparr>"

definition NewDispatcher :: "(Dispatcher \<Rightarrow> Dispatcher) list \<Rightarrow> Dispatcher" where
  "NewDispatcher opts = fold (\<lambda>opt d. opt d) opts \<lparr>disp_interval = 5 * 10 ^ 9, disp_batch = 100, disp_kick = False\<rparr>"

definition Kick :: "Dispatcher option \<Rightarrow> Dispatcher option" where
  "Kick d = map_option (\<lambda>x. x\<lparr>disp_kick := True\<rparr>) d"

text \<open>What the dispatcher did, in order: rows handed to \<^verbatim>\<open>Publish\<close> with its answer, and rows marked sent.\<close>

datatype drain_event = Published Row "goerr option" | Marked nat "goerr option"

type_synonym 's publisher = "Row \<Rightarrow> 's \<Rightarrow> 's \<times> goerr option"

text \<open>The inner loop over one batch; the last component says whether \<^verbatim>\<open>drain\<close> returned from inside it.\<close>

fun drain_batch ::
  "'s Store \<Rightarrow> 's publisher \<Rightarrow> Row list \<Rightarrow> 's \<Rightarrow> drain_event list \<Rightarrow> 's \<times> drain_event list \<times> bool" where
  "drain_batch S publish [] s lg = (s, lg, False)"
| "drain_batch S publish (row # rows) s lg =
     (case publish row s of
        (s1, Some e) \<Rightarrow> (s1, lg @ [Published row (Some e)], True)
      | (s1, None) \<Rightarrow>
          (case st_MarkSent S (row_ID row) s1 of
             (s2, Some e) \<Rightarrow> (s2, lg @ [Published row None, Marked (row_ID row) (Some e)], True)
           | (s2, None) \<Rightarrow> drain_batch S publish rows s2 (lg @ [Published row None, Marked (row_ID row) None])))"

fun drain ::
  "'s Store \<Rightarrow> 's publisher \<Rightarrow> int \<Rightarrow> nat \<Rightarrow> 's \<Rightarrow> drain_event list \<Rightarrow> ('s \<times> drain_event list) option" where
  "drain S publish batch 0 s lg = None"
| "drain S publish batch (Suc fuel) s lg =
     (case st_Fetch S batch s of
        (s1, Inl e) \<Rightarrow> Some (s1, lg)
      | (s1, Inr rows) \<Rightarrow>
          if rows = [] then Some (s1, lg)
          else (case drain_batch S publish rows s1 lg of
                  (s2, lg2, True) \<Rightarrow> Some (s2, lg2)
                | (s2, lg2, False) \<Rightarrow>
                    if int (length rows) < batch then Some (s2, lg2)
                    else drain S publish batch fuel s2 lg2))"

text \<open>The store with the rest of the world (the broker) beside it.\<close>

definition beside :: "'s Store \<Rightarrow> ('b \<times> 's) Store" where
  "beside S = \<lparr>st_Fetch = (\<lambda>n w. case st_Fetch S n (snd w) of (s', x) \<Rightarrow> ((fst w, s'), x)),
     st_MarkSent = (\<lambda>i w. case st_MarkSent S i (snd w) of (s', x) \<Rightarrow> ((fst w, s'), x))\<rparr>"

subsection \<open>What a store promises\<close>

fun published_rows :: "drain_event list \<Rightarrow> Row list" where
  "published_rows [] = []"
| "published_rows (Published r None # es) = r # published_rows es"
| "published_rows (e # es) = published_rows es"

lemma published_rows_append [simp]: "published_rows (a @ b) = published_rows a @ published_rows b"
  by (induction a rule: published_rows.induct) auto

lemma removed_psubset: "B \<subseteq> A \<Longrightarrow> B \<noteq> {} \<Longrightarrow> A - B \<subset> A"
  by blast

text \<open>A publisher does not touch the store.\<close>

definition publisher_ok :: "('s \<Rightarrow> nat set) \<Rightarrow> ('s \<Rightarrow> bool) \<Rightarrow> 's publisher \<Rightarrow> bool" where
  "publisher_ok pending valid publish \<longleftrightarrow>
     (\<forall>row s s' e. valid s \<and> publish row s = (s', e) \<longrightarrow> valid s' \<and> pending s' = pending s)"

locale outbox_store =
  fixes S :: "'s Store" and pending :: "'s \<Rightarrow> nat set" and valid :: "'s \<Rightarrow> bool"
  assumes fetch_keeps: "valid s \<Longrightarrow> st_Fetch S n s = (s', x) \<Longrightarrow> valid s' \<and> pending s' = pending s"
    and fetch_pending: "valid s \<Longrightarrow> st_Fetch S n s = (s', Inr rows)
      \<Longrightarrow> distinct (map row_ID rows) \<and> set (map row_ID rows) \<subseteq> pending s"
    and fetch_short: "valid s \<Longrightarrow> st_Fetch S n s = (s', Inr rows) \<Longrightarrow> int (length rows) < n
      \<Longrightarrow> set (map row_ID rows) = pending s"
    and mark_sent: "valid s \<Longrightarrow> st_MarkSent S i s = (s', None) \<Longrightarrow> valid s' \<and> pending s' = pending s - {i}"
    and mark_failed: "valid s \<Longrightarrow> st_MarkSent S i s = (s', Some e)
      \<Longrightarrow> valid s' \<and> (pending s' = pending s \<or> pending s' = pending s - {i})"
    and finite_pending: "valid s \<Longrightarrow> finite (pending s)"
begin

text \<open>One batch: ids leave the pending set only after they were published; a batch that went through
  published exactly its rows and left none of them pending.\<close>

lemma batch_facts:
  assumes "publisher_ok pending valid publish" and "valid s" and "drain_batch S publish rows s lg = (s', lg', stop)"
  shows "valid s' \<and> (\<exists>es. lg' = lg @ es \<and> pending s' \<subseteq> pending s \<and> pending s - pending s' \<subseteq> row_ID ` set (published_rows es)
     \<and> (\<not> stop \<longrightarrow> published_rows es = rows \<and> pending s' = pending s - row_ID ` set rows))"
  using assms(2,3)
proof (induction rows arbitrary: s lg)
  case Nil
  then show ?case by auto
next
  case (Cons r rows)
  obtain s1 p where p: "publish r s = (s1, p)" by fastforce
  have 1: "valid s1" "pending s1 = pending s"
    using assms(1) Cons.prems(1) p unfolding publisher_ok_def by blast+
  show ?case
  proof (cases p)
    case (Some e)
    then show ?thesis using Cons.prems p 1 by (auto intro!: exI [of _ "[Published r (Some e)]"])
  next
    case None
    obtain s2 m where m: "st_MarkSent S (row_ID r) s1 = (s2, m)" by fastforce
    show ?thesis
    proof (cases m)
      case (Some e)
      then have "valid s2" "pending s2 \<subseteq> pending s" "pending s - pending s2 \<subseteq> {row_ID r}" using mark_failed [OF 1(1)] m 1(2) by auto
      moreover have "s' = s2" "lg' = lg @ [Published r None, Marked (row_ID r) (Some e)]" "stop"
        using Cons.prems p None m Some by auto
      ultimately show ?thesis by (intro conjI exI [of _ "[Published r None, Marked (row_ID r) (Some e)]"]) auto
    next
      case ok: None
      then have 2: "valid s2" "pending s2 = pending s - {row_ID r}" using mark_sent [OF 1(1)] m 1(2) by auto
      have "drain_batch S publish rows s2 (lg @ [Published r None, Marked (row_ID r) None]) = (s', lg', stop)"
        using Cons.prems(2) p None m ok by simp
      from Cons.IH [OF 2(1) this] obtain es where es: "valid s'" "lg' = (lg @ [Published r None, Marked (row_ID r) None]) @ es"
        "pending s' \<subseteq> pending s2" "pending s2 - pending s' \<subseteq> row_ID ` set (published_rows es)"
        "\<not> stop \<longrightarrow> published_rows es = rows \<and> pending s' = pending s2 - row_ID ` set rows"
        by auto
      have "pending s - pending s' \<subseteq> insert (row_ID r) (row_ID ` set (published_rows es))"
        using es(4) 2(2) by auto
      then show ?thesis
        using es 2(2) by (intro conjI exI [of _ "[Published r None, Marked (row_ID r) None] @ es"]) auto
    qed
  qed
qed

lemma drain_safe:
  assumes "publisher_ok pending valid publish" and "valid s" and "drain S publish batch fuel s lg = Some (s', lg')"
  shows "valid s' \<and> (\<exists>es. lg' = lg @ es \<and> pending s' \<subseteq> pending s \<and> pending s - pending s' \<subseteq> row_ID ` set (published_rows es))"
  using assms(2,3)
proof (induction fuel arbitrary: s lg)
  case (Suc fuel)
  obtain s1 x where f: "st_Fetch S batch s = (s1, x)" by fastforce
  have 1: "valid s1" "pending s1 = pending s" using fetch_keeps [OF Suc.prems(1) f] by auto
  show ?case
  proof (cases "\<exists>rows. x = Inr rows \<and> rows \<noteq> []")
    case False
    then show ?thesis using Suc.prems f 1 by (cases x) auto
  next
    case True
    then obtain rows where x: "x = Inr rows" "rows \<noteq> []" by blast
    obtain s2 lg2 stop where b: "drain_batch S publish rows s1 lg = (s2, lg2, stop)" by (metis prod.exhaust)
    obtain es where es: "valid s2" "lg2 = lg @ es" "pending s2 \<subseteq> pending s"
      "pending s - pending s2 \<subseteq> row_ID ` set (published_rows es)"
      using batch_facts [OF assms(1) 1(1) b] 1(2) by auto
    show ?thesis
    proof (cases "stop \<or> int (length rows) < batch")
      case True
      then show ?thesis using Suc.prems(2) f x b es by (auto split: if_splits bool.splits)
    next
      case False
      then have "drain S publish batch fuel s2 lg2 = Some (s', lg')" using Suc.prems(2) f x b by simp
      from Suc.IH [OF es(1) this] obtain es2 where "valid s'" "lg' = lg2 @ es2" "pending s' \<subseteq> pending s2"
        "pending s2 - pending s' \<subseteq> row_ID ` set (published_rows es2)" by auto
      moreover from this es have "pending s - pending s' \<subseteq> row_ID ` set (published_rows es) \<union> row_ID ` set (published_rows es2)"
        by blast
      ultimately show ?thesis using es by (intro conjI exI [of _ "es @ es2"]) (auto simp: image_Un)
    qed
  qed
qed simp

lemma drain_returns:
  assumes "publisher_ok pending valid publish" and "valid s" and "0 < batch" and "card (pending s) < fuel"
  shows "\<exists>r. drain S publish batch fuel s lg = Some r"
  using assms(2,4)
proof (induction fuel arbitrary: s lg)
  case (Suc fuel)
  obtain s1 x where f: "st_Fetch S batch s = (s1, x)" by fastforce
  have 1: "valid s1" "pending s1 = pending s" using fetch_keeps [OF Suc.prems(1) f] by auto
  show ?case
  proof (cases "\<exists>rows. x = Inr rows \<and> rows \<noteq> []")
    case False
    then show ?thesis using f by (cases x) auto
  next
    case True
    then obtain rows where x: "x = Inr rows" "rows \<noteq> []" by blast
    obtain s2 lg2 stop where b: "drain_batch S publish rows s1 lg = (s2, lg2, stop)" by (metis prod.exhaust)
    show ?thesis
    proof (cases "stop \<or> int (length rows) < batch")
      case True
      then show ?thesis using f x b by (auto split: bool.splits)
    next
      case False
      have 2: "valid s2" "pending s2 = pending s - row_ID ` set rows"
        using batch_facts [OF assms(1) 1(1) b] 1(2) False by auto
      have "row_ID ` set rows \<subseteq> pending s" using fetch_pending [OF Suc.prems(1)] f x by simp
      moreover have "row_ID ` set rows \<noteq> {}" using x(2) by simp
      ultimately have "pending s2 \<subset> pending s" unfolding 2(2) by (rule removed_psubset)
      then have "card (pending s2) < card (pending s)"
        using finite_pending [OF Suc.prems(1)] by (rule psubset_card_mono [rotated])
      then have "card (pending s2) < fuel" using Suc.prems(2) by simp
      then obtain r where "drain S publish batch fuel s2 lg2 = Some r" using Suc.IH [OF 2(1)] by blast
      then show ?thesis using False f x b by simp
    qed
  qed
qed simp

lemma calm_batch:
  assumes "\<And>row s. calm s \<Longrightarrow> \<exists>s'. publish row s = (s', None) \<and> calm s'"
    and "\<And>i s. calm s \<Longrightarrow> \<exists>s'. st_MarkSent S i s = (s', None) \<and> calm s'"
    and "calm s" and "drain_batch S publish rows s lg = (s', lg', stop)"
  shows "calm s' \<and> \<not> stop"
  using assms(3,4)
proof (induction rows arbitrary: s lg)
  case (Cons r rows)
  obtain s1 where s1: "publish r s = (s1, None)" "calm s1" using assms(1) Cons.prems(1) by blast
  obtain s2 where s2: "st_MarkSent S (row_ID r) s1 = (s2, None)" "calm s2" using assms(2) s1(2) by blast
  have "drain_batch S publish rows s2 (lg @ [Published r None, Marked (row_ID r) None]) = (s', lg', stop)"
    using Cons.prems(2) s1 s2 by simp
  then show ?case by (rule Cons.IH [OF s2(2)])
qed simp

lemma drain_complete:
  assumes "publisher_ok pending valid publish" and "valid s" and "0 < batch" and "card (pending s) < fuel"
    and "\<And>s. calm s \<Longrightarrow> \<exists>s' rows. st_Fetch S batch s = (s', Inr rows) \<and> calm s'"
    and "\<And>row s. calm s \<Longrightarrow> \<exists>s'. publish row s = (s', None) \<and> calm s'"
    and "\<And>i s. calm s \<Longrightarrow> \<exists>s'. st_MarkSent S i s = (s', None) \<and> calm s'" and "calm s"
  shows "\<exists>s' es. drain S publish batch fuel s lg = Some (s', lg @ es) \<and> pending s' = {}
    \<and> distinct (map row_ID (published_rows es)) \<and> set (map row_ID (published_rows es)) = pending s"
  using assms(2,4,8)
proof (induction fuel arbitrary: s lg)
  case (Suc fuel)
  obtain s1 rows where f: "st_Fetch S batch s = (s1, Inr rows)" "calm s1" using assms(5) Suc.prems(3) by blast
  have 1: "valid s1" "pending s1 = pending s" using fetch_keeps [OF Suc.prems(1) f(1)] by auto
  note ids = fetch_pending [OF Suc.prems(1) f(1)] fetch_short [OF Suc.prems(1) f(1)]
  obtain s2 lg2 stop where b: "drain_batch S publish rows s1 lg = (s2, lg2, stop)" by (metis prod.exhaust)
  have 2: "calm s2" "\<not> stop" using calm_batch [OF assms(6,7) f(2) b] by blast+
  obtain es where es: "valid s2" "lg2 = lg @ es" "published_rows es = rows" "pending s2 = pending s - row_ID ` set rows"
    using batch_facts [OF assms(1) 1(1) b] 1(2) 2(2) by auto
  show ?case
  proof (cases "int (length rows) < batch")
    case True
    then have "drain S publish batch (Suc fuel) s lg = Some (if rows = [] then s1 else s2, lg @ (if rows = [] then [] else es))"
      using f b es 2(2) by simp
    then show ?thesis
      using ids True es(3,4) 1(2) by (intro exI [of _ "if rows = [] then s1 else s2"] exI [of _ "if rows = [] then [] else es"]) auto
  next
    case False
    then have ne: "rows \<noteq> []" using assms(3) by auto
    have "row_ID ` set rows \<subseteq> pending s" "row_ID ` set rows \<noteq> {}" using ids(1) ne by simp_all
    then have "pending s2 \<subset> pending s" unfolding es(4) by (rule removed_psubset)
    then have "card (pending s2) < card (pending s)"
      using finite_pending [OF Suc.prems(1)] by (rule psubset_card_mono [rotated])
    then have "card (pending s2) < fuel" using Suc.prems(2) by simp
    from Suc.IH [OF es(1) this 2(1), of lg2] obtain s3 es2 where
      3: "drain S publish batch fuel s2 lg2 = Some (s3, lg2 @ es2)" "pending s3 = {}"
        "distinct (map row_ID (published_rows es2))" "set (map row_ID (published_rows es2)) = pending s2" by blast
    have "drain S publish batch (Suc fuel) s lg = Some (s3, lg @ (es @ es2))"
      using f b es(2) 2(2) False ne 3(1) by simp
    moreover have "distinct (map row_ID (published_rows (es @ es2)))"
      using ids(1) 3(3,4) es(3,4) by auto
    moreover have "set (map row_ID (published_rows (es @ es2))) = pending s"
      using ids(1) 3(4) es(3,4) by auto
    ultimately show ?thesis using 3(2) by blast
  qed
qed simp

end

subsection \<open>PGStore keeps the promise\<close>

definition pg_pending :: "'b \<times> table \<Rightarrow> nat set" where
  "pg_pending w = set (map (\<lambda>x. row_ID (t_row x)) (filter (\<lambda>x. t_sent x = None) (tbl_rows (snd w))))"

text \<open>The primary key.\<close>

definition pg_valid :: "'b \<times> table \<Rightarrow> bool" where
  "pg_valid w \<longleftrightarrow> distinct (map (\<lambda>x. row_ID (t_row x)) (tbl_rows (snd w)))"

lemma bump_ID [simp]: "row_ID (bump r) = row_ID r"
  by (simp add: bump_def)

lemma stmt_done_rows [simp]: "tbl_rows (stmt_done t) = tbl_rows t"
  by (simp add: stmt_done_def)

lemma updated_rows [simp]:
  "row_ID (t_row (if c then x\<lparr>t_row := bump (t_row x)\<rparr> else x)) = row_ID (t_row x)"
  "t_sent (if c then x\<lparr>t_row := bump (t_row x)\<rparr> else x) = t_sent x"
  "row_ID (t_row (if c then x\<lparr>t_sent := v\<rparr> else x)) = row_ID (t_row x)"
  by simp_all

lemma claimed_ids:
  assumes "pg_valid (b, t)"
  shows "distinct (map row_ID (claimed n t))" "set (map row_ID (claimed n t)) \<subseteq> pg_pending (b, t)"
    "int (length (claimed n t)) < n \<Longrightarrow> set (map row_ID (claimed n t)) = pg_pending (b, t)"
proof -
  define u where "u = map t_row (filter (\<lambda>x. t_sent x = None) (tbl_rows t))"
  have p: "set (map row_ID u) = pg_pending (b, t)" by (auto simp: u_def pg_pending_def)
  have "distinct (map (\<lambda>x. row_ID (t_row x)) (filter (\<lambda>x. t_sent x = None) (tbl_rows t)))"
    using assms by (simp add: pg_valid_def distinct_map_filter)
  then have "distinct (map row_ID u)" by (simp add: u_def comp_def)
  then have "distinct (map row_ID (sort_key row_CreatedAt u))"
    by (simp add: distinct_map)
  then show "distinct (map row_ID (claimed n t))"
    by (simp add: claimed_def take_map flip: u_def) (metis distinct_take take_map)
  show "set (map row_ID (claimed n t)) \<subseteq> pg_pending (b, t)"
    unfolding p [symmetric] by (auto simp: claimed_def simp flip: u_def dest!: in_set_takeD)
  show "set (map row_ID (claimed n t)) = pg_pending (b, t)" if "int (length (claimed n t)) < n"
  proof -
    have "length u \<le> nat n" using that by (auto simp: claimed_def simp flip: u_def)
    then have "claimed n t = sort_key row_CreatedAt u" by (simp add: claimed_def flip: u_def)
    then show ?thesis using p by simp
  qed
qed

lemma exec_stmt_rows:
  assumes "exec_stmt f t = (t', e)"
  shows "tbl_rows t' = f (tbl_rows t) \<or> e \<noteq> None \<and> tbl_rows t' = tbl_rows t"
  using assms by (auto simp: exec_stmt_def split: option.splits prod.splits if_splits)

lemma pending_bump: "tbl_rows t' = bump_rows ids (tbl_rows t) \<Longrightarrow> pg_valid (b, t') = pg_valid (b, t) \<and> pg_pending (b, t') = pg_pending (b, t)"
  by (simp add: pg_valid_def pg_pending_def bump_rows_def filter_map comp_def del: set_map)

lemma pending_mark:
  assumes "tbl_rows t' = mark_rows i now (tbl_rows t)"
  shows "pg_valid (b, t') = pg_valid (b, t) \<and> pg_pending (b, t') = pg_pending (b, t) - {i}"
proof -
  let ?f = "\<lambda>x. if row_ID (t_row x) = i then x\<lparr>t_sent := Some now\<rparr> else x"
  have "row_ID (t_row (?f x)) = row_ID (t_row x)" "(t_sent (?f x) = None) = (t_sent x = None \<and> row_ID (t_row x) \<noteq> i)" for x
    by simp_all
  then have "pg_pending (b, t') = set (map (\<lambda>x. row_ID (t_row x)) (filter (\<lambda>x. t_sent x = None \<and> row_ID (t_row x) \<noteq> i) (tbl_rows t)))"
    "pg_valid (b, t') = pg_valid (b, t)"
    unfolding pg_pending_def pg_valid_def snd_conv assms mark_rows_def
    by (simp_all add: filter_map comp_def del: set_map) (auto intro: rev_image_eqI)
  then show ?thesis by (auto simp: pg_pending_def)
qed

lemma same_rows: "tbl_rows t' = tbl_rows t \<Longrightarrow> pg_valid (b, t') = pg_valid (b, t) \<and> pg_pending (b, t') = pg_pending (b, t)"
  by (simp add: pg_valid_def pg_pending_def)

lemma pg_fetch_keeps:
  assumes "pg_valid w" and "st_Fetch (beside PGStore) n w = (w', x)"
  shows "pg_valid w' \<and> pg_pending w' = pg_pending w"
proof -
  obtain b t where w: "w = (b, t)" by fastforce
  obtain t' where t': "w' = (b, t')" "pg_FetchUnsent n t = (t', x)"
    using assms(2) by (auto simp: w beside_def PGStore_def split: prod.splits)
  have "tbl_rows t' = tbl_rows t \<or> tbl_rows t' = bump_rows (map row_ID (claimed n t)) (tbl_rows t)"
    using t'(2) exec_stmt_rows [of "bump_rows (map row_ID (claimed n t))" t]
    by (auto simp: pg_FetchUnsent_def split: if_splits prod.splits option.splits)
  then show ?thesis using assms(1) same_rows [of t' t b] pending_bump [of t' _ t b] w t'(1) by auto
qed

lemma pg_mark:
  assumes "pg_valid w" and "st_MarkSent (beside PGStore) i w = (w', e)"
  shows "pg_valid w' \<and> (pg_pending w' = pg_pending w - {i} \<or> e \<noteq> None \<and> pg_pending w' = pg_pending w)"
proof -
  obtain b t where w: "w = (b, t)" by fastforce
  obtain t' where t': "w' = (b, t')" "pg_MarkSent i t = (t', e)"
    using assms(2) by (auto simp: w beside_def PGStore_def split: prod.splits)
  have "tbl_rows t' = mark_rows i (tbl_now t) (tbl_rows t) \<or> e \<noteq> None \<and> tbl_rows t' = tbl_rows t"
    using t'(2) exec_stmt_rows [of "mark_rows i (tbl_now t)" t] by (auto simp: pg_MarkSent_def split: prod.splits option.splits)
  then show ?thesis using assms(1) same_rows [of t' t b] pending_mark [of t' i _ t b] w t'(1) by auto
qed

interpretation pg: outbox_store "beside PGStore" pg_pending pg_valid
proof
  fix w w' :: "'b \<times> table" and n rows
  assume v: "pg_valid w" and f: "st_Fetch (beside PGStore) n w = (w', Inr rows)"
  obtain b t where w: "w = (b, t)" by fastforce
  have rows: "map row_ID rows = map row_ID (claimed n t)"
    using f by (auto simp: w beside_def PGStore_def pg_FetchUnsent_def split: option.splits if_splits prod.splits)
  then have len: "length rows = length (claimed n t)" by (metis length_map)
  show "distinct (map row_ID rows) \<and> set (map row_ID rows) \<subseteq> pg_pending w"
    using claimed_ids(1,2) [of b t n] v unfolding rows w by blast
  show "set (map row_ID rows) = pg_pending w" if "int (length rows) < n"
    using claimed_ids(3) [of b t n] v that unfolding rows w len by blast
next
  fix w w' :: "'b \<times> table" and i and e :: goerr
  assume v: "pg_valid w"
  show "pg_valid w' \<and> pg_pending w' = pg_pending w" if "st_Fetch (beside PGStore) n w = (w', x)" for n x
    using pg_fetch_keeps [OF v that] .
  show "pg_valid w' \<and> pg_pending w' = pg_pending w - {i}" if "st_MarkSent (beside PGStore) i w = (w', None)"
    using pg_mark [OF v that] by simp
  show "pg_valid w' \<and> (pg_pending w' = pg_pending w \<or> pg_pending w' = pg_pending w - {i})"
    if "st_MarkSent (beside PGStore) i w = (w', Some e)"
    using pg_mark [OF v that] by auto
  show "finite (pg_pending w)" by (simp add: pg_pending_def)
qed

subsection \<open>Delivery guarantees\<close>

text \<open>The broker's world is beside the table; publishing leaves the table alone.\<close>

definition broker_only :: "('b \<times> table) publisher \<Rightarrow> bool" where
  "broker_only publish \<longleftrightarrow> (\<forall>row w. snd (fst (publish row w)) = snd w)"

lemma broker_only_ok: "broker_only publish \<Longrightarrow> publisher_ok pg_pending pg_valid publish"
  unfolding broker_only_def publisher_ok_def pg_pending_def pg_valid_def by (metis fst_conv)

text \<open>
  C23: Delivery is at least once: whatever fails (fetching, publishing, marking, with or without effect), an event leaves the
  pending set of the PostgreSQL outbox only if \<^verbatim>\<open>Publish\<close> returned nil for it in this drain, no
  event is invented, and the drain returns after at most one round more than there are pending events.
\<close>

theorem outbox_at_least_once:
  assumes "broker_only publish" and "pg_valid w" and "0 < batch" and "card (pg_pending w) < fuel"
  shows "\<exists>w' lg. drain (beside PGStore) publish batch fuel w [] = Some (w', lg)
    \<and> pg_valid w' \<and> pg_pending w' \<subseteq> pg_pending w
    \<and> (\<forall>i \<in> pg_pending w - pg_pending w'. \<exists>row \<in> set (published_rows lg). row_ID row = i)"
proof -
  note ok = broker_only_ok [OF assms(1)]
  obtain w' lg where d: "drain (beside PGStore) publish batch fuel w [] = Some (w', lg)"
    using pg.drain_returns [OF ok assms(2,3,4)] by fastforce
  then show ?thesis using pg.drain_safe [OF ok assms(2) d] by auto
qed

text \<open>
  With the database and the broker up, one drain empties the outbox: it returns, nothing is pending
  afterwards, and every event that was pending was published exactly once, in however many batches.
\<close>

theorem outbox_drains_everything:
  assumes "broker_only publish" and "\<And>row w. snd (publish row w) = None"
    and "pg_valid w" and "tbl_errs (snd w) = []" and "0 < batch" and "card (pg_pending w) < fuel"
  shows "\<exists>w' lg. drain (beside PGStore) publish batch fuel w [] = Some (w', lg) \<and> pg_pending w' = {}
    \<and> distinct (map row_ID (published_rows lg)) \<and> set (map row_ID (published_rows lg)) = pg_pending w"
proof -
  let ?calm = "\<lambda>w :: 'a \<times> table. tbl_errs (snd w) = []"
  have "\<exists>w' es. drain (beside PGStore) publish batch fuel w [] = Some (w', [] @ es) \<and> pg_pending w' = {}
    \<and> distinct (map row_ID (published_rows es)) \<and> set (map row_ID (published_rows es)) = pg_pending w"
  proof (rule pg.drain_complete [OF broker_only_ok [OF assms(1)] assms(3,5,6), where calm = ?calm])
    fix w :: "'a \<times> table" assume c: "?calm w"
    show "\<exists>w' rows. st_Fetch (beside PGStore) batch w = (w', Inr rows) \<and> ?calm w'"
      using c assms(5) by (simp add: beside_def PGStore_def pg_FetchUnsent_def exec_stmt_def next_err_def stmt_done_def case_prod_beta)
    show "\<exists>w'. publish row w = (w', None) \<and> ?calm w'" for row
      using c assms(1,2) unfolding broker_only_def by (metis prod.collapse)
    show "\<exists>w'. st_MarkSent (beside PGStore) i w = (w', None) \<and> ?calm w'" for i
      using c by (simp add: beside_def PGStore_def pg_MarkSent_def exec_stmt_def next_err_def stmt_done_def case_prod_beta)
  qed (rule assms(4))
  then show ?thesis by simp
qed

definition demo_table :: table where
  "demo_table = \<lparr>tbl_rows = map (\<lambda>i. \<lparr>t_row = \<lparr>row_ID = i, row_Action = ''a'', row_Payload = [], row_RequestID = [],
      row_CreatedAt = int i, row_Attempts = 0\<rparr>, t_sent = None\<rparr>) [0, 1, 2], tbl_now = 9, tbl_errs = []\<rparr>"

lemma demo_table_facts: "pg_valid (b, demo_table)" "pg_pending (b, demo_table) = {0, 1, 2}" "tbl_errs demo_table = []"
  by (auto simp: demo_table_def pg_valid_def pg_pending_def)

theorem outbox_at_least_once_witness:
  "\<exists>w' lg. drain (beside PGStore) (\<lambda>row w. (w, if row_ID row = 1 then Some (Opaque ''down'') else None)) 2 9 ((), demo_table) [] = Some (w', lg)
     \<and> pg_pending w' \<subseteq> {0, 1, 2}"
proof -
  let ?p = "\<lambda>row w. (w, if row_ID row = 1 then Some (Opaque ''down'') else None)"
  have "broker_only ?p" by (simp add: broker_only_def)
  from outbox_at_least_once [OF this demo_table_facts(1), where b1 = "()" and batch = 2 and fuel = 9] show ?thesis
    by (auto simp: demo_table_facts)
qed

theorem outbox_drains_everything_witness:
  "\<exists>w' lg. drain (beside PGStore) (\<lambda>row w. ((row # fst w, snd w), None)) 2 9 ([], demo_table) [] = Some (w', lg)
     \<and> pg_pending w' = {} \<and> set (map row_ID (published_rows lg)) = {0, 1, 2}"
proof -
  let ?p = "\<lambda>row w. ((row # fst w, snd w), None)"
  have "broker_only ?p" by (simp add: broker_only_def)
  from outbox_drains_everything [OF this _ demo_table_facts(1), where b1 = "[]" and batch = 2 and fuel = 9] show ?thesis
    by (auto simp: demo_table_facts)
qed

end
