(* ===== verification/Cache.thy ===== *)
theory Cache
  imports DxErrors
begin

text \<open>
  Package \<^verbatim>\<open>cache\<close>: the \<^verbatim>\<open>Cache\<close> interface, the in-memory implementation, the two read-through
  helpers (\<^verbatim>\<open>CacheHelper\<close>, \<^verbatim>\<open>GetOrLoad\<close>) and \<^verbatim>\<open>CacheKey\<close>. An operation takes the
  time at which it reads the clock as its first argument. The interface's promises are the locales
  \<open>string_cache\<close> and \<open>reliable_cache\<close>; \<open>MemoryCache\<close> interprets them. JSON coding of the caller's Go
  types and \<^verbatim>\<open>singleflight.Group.Do\<close> (module \<^verbatim>\<open>golang.org/x/sync\<close>) are parameters.
\<close>

subsection \<open>The interface (cache.go)\<close>

text \<open>\<^verbatim>\<open>json.Marshal\<close> and \<^verbatim>\<open>json.Unmarshal\<close> at the types the caller uses.\<close>

record ('v, 't) codec =
  Marshal :: "'v \<Rightarrow> goerr + string"
  Unmarshal :: "string \<Rightarrow> goerr + 't"

text \<open>An \<^verbatim>\<open>interface{}\<close> argument of \<^verbatim>\<open>Set\<close>: a string, or a value of another type.\<close>

datatype 'v iface = GoString string | GoOther 'v

record ('v, 't, 's) Cache =
  c_Get :: "int \<Rightarrow> string \<Rightarrow> 's \<Rightarrow> 's \<times> (goerr + string)"
  c_GetJSON :: "int \<Rightarrow> string \<Rightarrow> 's \<Rightarrow> 's \<times> (goerr + 't)"
  c_Set :: "int \<Rightarrow> string \<Rightarrow> 'v iface \<Rightarrow> int \<Rightarrow> 's \<Rightarrow> 's \<times> goerr option"
  c_Delete :: "int \<Rightarrow> string \<Rightarrow> 's \<Rightarrow> 's \<times> goerr option"
  c_Exists :: "int \<Rightarrow> string \<Rightarrow> 's \<Rightarrow> 's \<times> (goerr + bool)"
  c_Clear :: "int \<Rightarrow> 's \<Rightarrow> 's \<times> goerr option"

definition redis_Nil :: goerr where "redis_Nil = Opaque ''redis: nil''"

definition payload :: "('v iface, 't) codec \<Rightarrow> 'v iface \<Rightarrow> goerr + string" where
  "payload J x = (case x of GoString s \<Rightarrow> Inr s | GoOther _ \<Rightarrow> Marshal J x)"

subsection \<open>MemoryCache\<close>

record MemoryCache =
  mc_data :: "(string \<times> string) list"
  mc_ttl :: "(string \<times> int) list"

definition NewMemoryCache :: MemoryCache where
  "NewMemoryCache = \<lparr>mc_data = [], mc_ttl = []\<rparr>"

definition mc_expired :: "int \<Rightarrow> string \<Rightarrow> MemoryCache \<Rightarrow> bool" where
  "mc_expired now key mc \<longleftrightarrow> (case map_of (mc_ttl mc) key of None \<Rightarrow> False | Some expiry \<Rightarrow> expiry < now)"

definition mc_drop :: "string \<Rightarrow> MemoryCache \<Rightarrow> MemoryCache" where
  "mc_drop key mc = \<lparr>mc_data = map_del key (mc_data mc), mc_ttl = map_del key (mc_ttl mc)\<rparr>"

definition mc_Get :: "int \<Rightarrow> string \<Rightarrow> MemoryCache \<Rightarrow> MemoryCache \<times> (goerr + string)" where
  "mc_Get now key mc =
     (if mc_expired now key mc then (mc_drop key mc, Inr [])
      else (mc, Inr (case map_of (mc_data mc) key of None \<Rightarrow> [] | Some v \<Rightarrow> v)))"

definition mc_GetJSON :: "('v, 't) codec \<Rightarrow> int \<Rightarrow> string \<Rightarrow> MemoryCache \<Rightarrow> MemoryCache \<times> (goerr + 't)" where
  "mc_GetJSON J now key mc =
     (case mc_Get now key mc of
        (mc', Inl e) \<Rightarrow> (mc', Inl e)
      | (mc', Inr val) \<Rightarrow> (mc', if val = [] then Inl redis_Nil else Unmarshal J val))"

definition mc_Set :: "('v iface, 't) codec \<Rightarrow> int \<Rightarrow> string \<Rightarrow> 'v iface \<Rightarrow> int \<Rightarrow> MemoryCache \<Rightarrow> MemoryCache \<times> goerr option" where
  "mc_Set J now key value ttl mc =
     (case payload J value of
        Inl e \<Rightarrow> (mc, Some (Errorf (''memory cache: marshal value for '' @ go_quote key @ '': '') e []))
      | Inr val \<Rightarrow>
          (\<lparr>mc_data = map_put key val (mc_data mc),
            mc_ttl = (if 0 < ttl then map_put key (now + ttl) (mc_ttl mc) else map_del key (mc_ttl mc))\<rparr>, None))"

definition mc_Delete :: "int \<Rightarrow> string \<Rightarrow> MemoryCache \<Rightarrow> MemoryCache \<times> goerr option" where
  "mc_Delete now key mc = (mc_drop key mc, None)"

definition mc_Exists :: "int \<Rightarrow> string \<Rightarrow> MemoryCache \<Rightarrow> MemoryCache \<times> (goerr + bool)" where
  "mc_Exists now key mc =
     (if mc_expired now key mc then (mc_drop key mc, Inr False)
      else (mc, Inr (map_of (mc_data mc) key \<noteq> None)))"

definition mc_Clear :: "int \<Rightarrow> MemoryCache \<Rightarrow> MemoryCache \<times> goerr option" where
  "mc_Clear now mc = (NewMemoryCache, None)"

definition memory_impl :: "('v iface, 't) codec \<Rightarrow> ('v, 't, MemoryCache) Cache" where
  "memory_impl J = \<lparr>c_Get = mc_Get, c_GetJSON = mc_GetJSON J, c_Set = mc_Set J, c_Delete = mc_Delete,
     c_Exists = mc_Exists, c_Clear = mc_Clear\<rparr>"

subsection \<open>Read-through helpers\<close>

text \<open>\<^verbatim>\<open>CacheHelper\<close> (cache.go). The fetched value is an \<^verbatim>\<open>interface{}\<close>, and so is the answer.\<close>

record ('v, 't, 's) CacheHelper =
  ch_cache :: "('v, 't, 's) Cache"
  ch_ttl :: int

definition fetch_and_set ::
  "('v, 't, 's) CacheHelper \<Rightarrow> int \<Rightarrow> string \<Rightarrow> ('s \<Rightarrow> 's \<times> (goerr + 'v iface)) \<Rightarrow> 's \<Rightarrow> 's \<times> (goerr + 'v iface)" where
  "fetch_and_set ch now key fetch s =
     (case fetch s of
        (s1, Inl e) \<Rightarrow> (s1, Inl e)
      | (s1, Inr result) \<Rightarrow> (fst (c_Set (ch_cache ch) now key result (ch_ttl ch) s1), Inr result))"

definition GetOrFetch ::
  "('v, 't, 's) CacheHelper \<Rightarrow> int \<Rightarrow> int \<Rightarrow> string \<Rightarrow> ('s \<Rightarrow> 's \<times> (goerr + 'v iface)) \<Rightarrow> 's \<Rightarrow> 's \<times> (goerr + 'v iface)" where
  "GetOrFetch ch t1 t2 key fetch s =
     (case c_Get (ch_cache ch) t1 key s of
        (s1, Inl e) \<Rightarrow> fetch_and_set ch t2 key fetch s1
      | (s1, Inr val) \<Rightarrow> if val \<noteq> [] then (s1, Inr (GoString val)) else fetch_and_set ch t2 key fetch s1)"

text \<open>\<^verbatim>\<open>GetJSONOrFetch\<close> fills \<^verbatim>\<open>dest\<close>; a failing final \<^verbatim>\<open>Set\<close> is reported although
  \<^verbatim>\<open>dest\<close> is filled, so the answer has both parts.\<close>

definition GetJSONOrFetch ::
  "('v iface, 't) codec \<Rightarrow> ('v, 't, 's) CacheHelper \<Rightarrow> int \<Rightarrow> int \<Rightarrow> string \<Rightarrow> ('s \<Rightarrow> 's \<times> (goerr + 'v iface)) \<Rightarrow> 's
     \<Rightarrow> 's \<times> 't option \<times> goerr option" where
  "GetJSONOrFetch J ch t1 t2 key fetch s =
     (case c_GetJSON (ch_cache ch) t1 key s of
        (s1, Inr d) \<Rightarrow> (s1, Some d, None)
      | (s1, Inl _) \<Rightarrow>
          (case fetch s1 of
             (s2, Inl e) \<Rightarrow> (s2, None, Some e)
           | (s2, Inr result) \<Rightarrow>
               (case Marshal J result of
                  Inl e \<Rightarrow> (s2, None, Some e)
                | Inr b \<Rightarrow>
                    (case Unmarshal J b of
                       Inl e \<Rightarrow> (s2, None, Some e)
                     | Inr d \<Rightarrow> (case c_Set (ch_cache ch) t2 key (GoString b) (ch_ttl ch) s2 of
                                   (s3, err) \<Rightarrow> (s3, Some d, err))))))"

text \<open>\<^verbatim>\<open>GetOrLoad\<close> (getorload.go): \<open>t1\<close> and \<open>t2\<close> are the times of the two lookups, \<open>t3\<close> that of the
  write; \<open>Do\<close> is \<^verbatim>\<open>loadGroup.Do\<close>.\<close>

definition cached :: "('t, 't) codec \<Rightarrow> ('v, 'd, 's) Cache \<Rightarrow> int \<Rightarrow> string \<Rightarrow> 's \<Rightarrow> 's \<times> 't option" where
  "cached J C now key s =
     (case c_Get C now key s of
        (s1, Inl e) \<Rightarrow> (s1, None)
      | (s1, Inr v) \<Rightarrow>
          if v = [] then (s1, None)
          else (case Unmarshal J v of Inl e \<Rightarrow> (s1, None) | Inr x \<Rightarrow> (s1, Some x)))"

type_synonym ('s, 't) loader = "'s \<Rightarrow> 's \<times> (goerr + 't)"

definition load_flight ::
  "('t, 't) codec \<Rightarrow> ('v, 'd, 's) Cache \<Rightarrow> int \<Rightarrow> int \<Rightarrow> string \<Rightarrow> int \<Rightarrow> ('s, 't) loader \<Rightarrow> ('s, 't) loader" where
  "load_flight J C t2 t3 key ttl load s =
     (case cached J C t2 key s of
        (s1, Some v) \<Rightarrow> (s1, Inr v)
      | (s1, None) \<Rightarrow>
          (case load s1 of
             (s2, Inl e) \<Rightarrow> (s2, Inl e)
           | (s2, Inr v) \<Rightarrow>
               (case Marshal J v of
                  Inl _ \<Rightarrow> (s2, Inr v)
                | Inr b \<Rightarrow> (fst (c_Set C t3 key (GoString b) ttl s2), Inr v))))"

definition GetOrLoad ::
  "(string \<Rightarrow> ('s, 't) loader \<Rightarrow> ('s, 't) loader) \<Rightarrow> ('t, 't) codec \<Rightarrow> ('v, 'd, 's) Cache
     \<Rightarrow> int \<Rightarrow> int \<Rightarrow> int \<Rightarrow> string \<Rightarrow> int \<Rightarrow> ('s, 't) loader \<Rightarrow> ('s, 't) loader" where
  "GetOrLoad Do J C t1 t2 t3 key ttl load s =
     (case cached J C t1 key s of
        (s1, Some v) \<Rightarrow> (s1, Inr v)
      | (s1, None) \<Rightarrow> Do key (load_flight J C t2 t3 key ttl load) s1)"

definition CacheKey :: "string \<Rightarrow> string list \<Rightarrow> string" where
  "CacheKey prefix parts = foldl (\<lambda>key part. key @ '':'' @ part) prefix parts"

text \<open>A cache with the rest of the caller's world beside it.\<close>

definition cache_beside :: "('v, 't, 's) Cache \<Rightarrow> ('v, 't, 'b \<times> 's) Cache" where
  "cache_beside C = \<lparr>
     c_Get = (\<lambda>t k w. case c_Get C t k (snd w) of (s, r) \<Rightarrow> ((fst w, s), r)),
     c_GetJSON = (\<lambda>t k w. case c_GetJSON C t k (snd w) of (s, r) \<Rightarrow> ((fst w, s), r)),
     c_Set = (\<lambda>t k v ttl w. case c_Set C t k v ttl (snd w) of (s, r) \<Rightarrow> ((fst w, s), r)),
     c_Delete = (\<lambda>t k w. case c_Delete C t k (snd w) of (s, r) \<Rightarrow> ((fst w, s), r)),
     c_Exists = (\<lambda>t k w. case c_Exists C t k (snd w) of (s, r) \<Rightarrow> ((fst w, s), r)),
     c_Clear = (\<lambda>t w. case c_Clear C t (snd w) of (s, r) \<Rightarrow> ((fst w, s), r))\<rparr>"

subsection \<open>What the interface promises\<close>

text \<open>
  \<open>live s t k\<close> is the content of \<open>k\<close> at time \<open>t\<close>, \<open>lifetime\<close> the time to live the implementation
  uses for a requested one (not positive: no expiry). A lookup may fail at any time (the cache is
  best effort), but it never answers with anything but the live content, and it changes no content.
\<close>

locale string_cache =
  fixes C :: "('v, 'd, 's) Cache"
    and live :: "'s \<Rightarrow> int \<Rightarrow> string \<Rightarrow> string option"
    and lifetime :: "int \<Rightarrow> int"
  assumes get_sound: "c_Get C t k s = (s', Inr v) \<Longrightarrow> v \<noteq> [] \<Longrightarrow> live s t k = Some v"
    and get_keeps: "c_Get C t k s = (s', r) \<Longrightarrow> t \<le> u \<Longrightarrow> live s' u k' = live s u k'"
    and set_live: "c_Set C t k (GoString v) ttl s = (s', None) \<Longrightarrow> t \<le> u \<Longrightarrow>
      live s' u k' = (if k' \<noteq> k then live s u k'
                      else if 0 < lifetime ttl \<and> t + lifetime ttl < u then None else Some v)"
    and live_expires: "t \<le> u \<Longrightarrow> live s u k = Some v \<Longrightarrow> live s t k = Some v"
begin

lemma cached_sound: "cached J C t k s = (s', Some x) \<Longrightarrow> \<exists>v. live s t k = Some v \<and> Unmarshal J v = Inr x"
  by (auto simp: cached_def split: prod.splits sum.splits if_splits dest: get_sound)

lemma cached_keeps: "cached J C t k s = (s', r) \<Longrightarrow> t \<le> u \<Longrightarrow> live s' u k' = live s u k'"
  by (auto simp: cached_def split: prod.splits sum.splits if_splits dest: get_keeps)

lemma cached_dead: "live s t k = None \<Longrightarrow> \<exists>s'. cached J C t k s = (s', None)"
  using cached_sound [of J t k s] by (cases "cached J C t k s"; cases "snd (cached J C t k s)") auto

text \<open>Nothing is served from beyond its lifetime: on a dead key the call is decided by its own loader.\<close>

lemma load_when_dead:
  assumes Do: "\<And>k f s. Do k f s = f s" and dead: "live s t1 key = None" and t: "t1 \<le> t2"
  shows "\<exists>s'. snd (GetOrLoad Do J C t1 t2 t3 key ttl load s) = snd (load s')"
proof -
  obtain s1 where 1: "cached J C t1 key s = (s1, None)" using cached_dead [OF dead] by blast
  have "live s1 t2 key = None"
    using cached_keeps [OF 1 t] live_expires [OF t, of s key] dead by (cases "live s t2 key") auto
  then obtain s2 where 2: "cached J C t2 key s1 = (s2, None)" using cached_dead by blast
  have "snd (GetOrLoad Do J C t1 t2 t3 key ttl load s) = snd (load s2)"
    by (simp add: GetOrLoad_def Do load_flight_def 1 2 split: prod.split sum.split)
  then show ?thesis by blast
qed

text \<open>A successful load whose write succeeded leaves its encoding live until its lifetime ends.\<close>

lemma load_fills:
  assumes Do: "\<And>k f s. Do k f s = f s"
    and 1: "cached J C t1 key s = (s1, None)" and 2: "cached J C t2 key s1 = (s2, None)"
    and load: "load s2 = (s3, Inr v)" and enc: "Marshal J v = Inr b"
    and set: "c_Set C t3 key (GoString b) ttl s3 = (s4, None)"
  shows "GetOrLoad Do J C t1 t2 t3 key ttl load s = (s4, Inr v)"
    and "t3 \<le> u \<Longrightarrow> live s4 u key = (if 0 < lifetime ttl \<and> t3 + lifetime ttl < u then None else Some b)"
  using set_live [OF set, of u key] by (simp_all add: GetOrLoad_def Do load_flight_def 1 2 load enc set)

end

text \<open>A cache that does not fail.\<close>

locale reliable_cache = string_cache +
  assumes get_hit: "live s t k = Some v \<Longrightarrow> \<exists>s'. c_Get C t k s = (s', Inr v)"
    and set_succeeds: "\<exists>s'. c_Set C t k (GoString v) ttl s = (s', None)"
begin

lemma hit_without_load:
  assumes "live s t1 key = Some b" and "b \<noteq> []" and "Unmarshal J b = Inr v"
  shows "GetOrLoad Do J C t1 t2 t3 key ttl load s = (fst (c_Get C t1 key s), Inr v)"
proof -
  obtain s' where g: "c_Get C t1 key s = (s', Inr b)" using get_hit [OF assms(1)] by blast
  then have "cached J C t1 key s = (s', Some v)" by (simp add: cached_def assms(2,3))
  then show ?thesis by (simp add: GetOrLoad_def g)
qed

end

subsection \<open>MemoryCache keeps the promises\<close>

definition mc_live :: "MemoryCache \<Rightarrow> int \<Rightarrow> string \<Rightarrow> string option" where
  "mc_live mc t k = (if mc_expired t k mc then None else map_of (mc_data mc) k)"

lemmas mc_simps = mc_live_def mc_expired_def mc_drop_def NewMemoryCache_def

lemma mc_live_drop: "mc_live (mc_drop key mc) u k = (if k = key then None else mc_live mc u k)"
  by (simp add: mc_simps)

lemma mc_live_expired: "mc_expired t key mc \<Longrightarrow> t \<le> u \<Longrightarrow> mc_live mc u key = None"
  by (auto simp: mc_simps split: option.splits)

lemma mc_live_purge: "mc_expired t key mc \<Longrightarrow> t \<le> u \<Longrightarrow> mc_live (mc_drop key mc) u k = mc_live mc u k"
  by (simp add: mc_live_drop mc_live_expired)

lemma mc_Get_live:
  "snd (mc_Get t k mc) = Inr (case mc_live mc t k of None \<Rightarrow> [] | Some v \<Rightarrow> v)"
  "t \<le> u \<Longrightarrow> mc_live (fst (mc_Get t k mc)) u k' = mc_live mc u k'"
  by (simp_all add: mc_Get_def mc_live_purge mc_live_def [of _ t])

lemma mc_Exists_live:
  "snd (mc_Exists t k mc) = Inr (mc_live mc t k \<noteq> None)"
  "t \<le> u \<Longrightarrow> mc_live (fst (mc_Exists t k mc)) u k' = mc_live mc u k'"
  by (simp_all add: mc_Exists_def mc_live_purge mc_live_def [of _ t])

lemma mc_GetJSON_live:
  "snd (mc_GetJSON J t k mc) = (case mc_live mc t k of None \<Rightarrow> Inl redis_Nil
     | Some v \<Rightarrow> if v = [] then Inl redis_Nil else Unmarshal J v)"
  "fst (mc_GetJSON J t k mc) = fst (mc_Get t k mc)"
  by (simp_all add: mc_GetJSON_def mc_Get_def mc_live_def split: option.split)

lemma mc_Set_live:
  "payload J x = Inr v \<Longrightarrow> t \<le> u \<Longrightarrow> mc_live (fst (mc_Set J t k x ttl mc)) u k' =
     (if k' \<noteq> k then mc_live mc u k' else if 0 < ttl \<and> t + ttl < u then None else Some v)"
  by (simp add: mc_Set_def mc_simps)

lemma mc_live_expires: "t \<le> u \<Longrightarrow> mc_live mc u k = Some v \<Longrightarrow> mc_live mc t k = Some v"
  by (auto simp: mc_simps split: option.splits if_splits)

lemma beside_memory:
  "c_Get (cache_beside (memory_impl J)) t k w = ((fst w, fst (mc_Get t k (snd w))), snd (mc_Get t k (snd w)))"
  "c_Set (cache_beside (memory_impl J)) t k x ttl w =
     ((fst w, fst (mc_Set J t k x ttl (snd w))), snd (mc_Set J t k x ttl (snd w)))"
  "c_GetJSON (cache_beside (memory_impl J)) t k w = ((fst w, fst (mc_Get t k (snd w))), snd (mc_GetJSON J t k (snd w)))"
  by (simp_all add: cache_beside_def memory_impl_def split: prod.split)
    (metis fst_conv mc_GetJSON_live(2))

lemma mc_Set_string: "snd (mc_Set J t k (GoString v) ttl mc) = None"
  by (simp add: mc_Set_def payload_def)

interpretation memory: reliable_cache "cache_beside (memory_impl J)" "\<lambda>w. mc_live (snd w)" "\<lambda>ttl. ttl"
  for J :: "('v iface, 't) codec"
proof
  fix t u k k' ttl v r and w w' :: "'b \<times> MemoryCache"
  show "mc_live (snd w) t k = Some v" if "c_Get (cache_beside (memory_impl J)) t k w = (w', Inr v)" "v \<noteq> []"
    using that by (auto simp: beside_memory mc_Get_live split: option.splits)
  show "mc_live (snd w') u k' = mc_live (snd w) u k'" if "c_Get (cache_beside (memory_impl J)) t k w = (w', r)" "t \<le> u"
    using that by (auto simp: beside_memory mc_Get_live)
  show "mc_live (snd w') u k' = (if k' \<noteq> k then mc_live (snd w) u k' else if 0 < ttl \<and> t + ttl < u then None else Some v)"
    if "c_Set (cache_beside (memory_impl J)) t k (GoString v) ttl w = (w', None)" "t \<le> u"
    using that mc_Set_live [of J "GoString v" v t u k ttl "snd w" k'] by (auto simp: beside_memory payload_def)
  show "mc_live (snd w) t k = Some v" if "t \<le> u" "mc_live (snd w) u k = Some v"
    using mc_live_expires that .
  show "\<exists>w'. c_Get (cache_beside (memory_impl J)) t k w = (w', Inr v)" if "mc_live (snd w) t k = Some v"
    using that by (simp add: beside_memory mc_Get_live)
  show "\<exists>w'. c_Set (cache_beside (memory_impl J)) t k (GoString v) ttl w = (w', None)"
    by (simp add: beside_memory mc_Set_string)
qed

subsection \<open>Every answer is the last write\<close>

text \<open>Timed operations on a cache, and the reference: the content of a key is what the most recent
  write of the history (newest first) says about it. Nothing is ever purged there.\<close>

datatype 'v cache_op = OGet string | OGetJSON string | OSet string "'v iface" int | ODelete string | OExists string | OClear

datatype 't cache_reply = RString "goerr + string" | RJSON "goerr + 't" | RBool "goerr + bool" | RDone "goerr option"

fun cache_do :: "('v, 't, 's) Cache \<Rightarrow> int \<Rightarrow> 'v cache_op \<Rightarrow> 's \<Rightarrow> 's \<times> 't cache_reply" where
  "cache_do C t (OGet k) s = map_prod (\<lambda>x. x) RString (c_Get C t k s)"
| "cache_do C t (OGetJSON k) s = map_prod (\<lambda>x. x) RJSON (c_GetJSON C t k s)"
| "cache_do C t (OSet k x ttl) s = map_prod (\<lambda>x. x) RDone (c_Set C t k x ttl s)"
| "cache_do C t (ODelete k) s = map_prod (\<lambda>x. x) RDone (c_Delete C t k s)"
| "cache_do C t (OExists k) s = map_prod (\<lambda>x. x) RBool (c_Exists C t k s)"
| "cache_do C t OClear s = map_prod (\<lambda>x. x) RDone (c_Clear C t s)"

fun cache_run :: "('v, 't, 's) Cache \<Rightarrow> (int \<times> 'v cache_op) list \<Rightarrow> 's \<Rightarrow> 's \<times> 't cache_reply list" where
  "cache_run C [] s = (s, [])"
| "cache_run C ((t, x) # ops) s =
     (case cache_do C t x s of (s1, r) \<Rightarrow> case cache_run C ops s1 of (s2, rs) \<Rightarrow> (s2, r # rs))"

fun written :: "('v iface, 't) codec \<Rightarrow> (int \<times> 'v cache_op) list \<Rightarrow> int \<Rightarrow> string \<Rightarrow> string option" where
  "written J [] now k = None"
| "written J ((t, OSet k' x ttl) # h) now k =
     (case payload J x of
        Inl _ \<Rightarrow> written J h now k
      | Inr v \<Rightarrow> if k' \<noteq> k then written J h now k else if 0 < ttl \<and> t + ttl < now then None else Some v)"
| "written J ((t, ODelete k') # h) now k = (if k' = k then None else written J h now k)"
| "written J ((t, OClear) # h) now k = None"
| "written J ((t, _) # h) now k = written J h now k"

fun answer :: "('v iface, 't) codec \<Rightarrow> (string \<Rightarrow> string option) \<Rightarrow> 'v cache_op \<Rightarrow> 't cache_reply" where
  "answer J m (OGet k) = RString (Inr (case m k of None \<Rightarrow> [] | Some v \<Rightarrow> v))"
| "answer J m (OGetJSON k) = RJSON (case m k of None \<Rightarrow> Inl redis_Nil | Some v \<Rightarrow> if v = [] then Inl redis_Nil else Unmarshal J v)"
| "answer J m (OExists k) = RBool (Inr (m k \<noteq> None))"
| "answer J m (OSet k x ttl) = RDone (case payload J x of
      Inl e \<Rightarrow> Some (Errorf (''memory cache: marshal value for '' @ go_quote k @ '': '') e []) | Inr _ \<Rightarrow> None)"
| "answer J m (ODelete k) = RDone None"
| "answer J m OClear = RDone None"

fun cache_answers :: "('v iface, 't) codec \<Rightarrow> (int \<times> 'v cache_op) list \<Rightarrow> (int \<times> 'v cache_op) list \<Rightarrow> 't cache_reply list" where
  "cache_answers J h [] = []"
| "cache_answers J h ((t, x) # ops) = answer J (written J h t) x # cache_answers J ((t, x) # h) ops"

lemma cache_do_memory:
  assumes now: "\<And>u k. t \<le> u \<Longrightarrow> mc_live mc u k = written J h u k"
  shows "snd (cache_do (memory_impl J) t x mc) = answer J (written J h t) x"
    and "t \<le> u \<Longrightarrow> mc_live (fst (cache_do (memory_impl J) t x mc)) u k = written J ((t, x) # h) u k"
proof -
  show "snd (cache_do (memory_impl J) t x mc) = answer J (written J h t) x"
    using now by (cases x) (simp_all add: memory_impl_def mc_Get_live mc_GetJSON_live mc_Exists_live
        mc_Delete_def mc_Clear_def mc_Set_def split: sum.split)
  show "mc_live (fst (cache_do (memory_impl J) t x mc)) u k = written J ((t, x) # h) u k" if u: "t \<le> u"
  proof (cases x)
    case (OSet k' v ttl)
    then show ?thesis
      using now [OF u] mc_Set_live [OF _ u, of J v _ k' ttl mc k]
      by (cases "payload J v") (simp_all add: memory_impl_def mc_Set_def)
  qed (simp_all add: memory_impl_def now u mc_Get_live(2) mc_GetJSON_live(2) mc_Exists_live(2) mc_Delete_def mc_Clear_def
      mc_live_drop, simp add: mc_simps)
qed

lemma cache_run_memory:
  assumes "sorted (map fst ops)" and "\<And>t. t \<in> set (map fst ops) \<Longrightarrow> t0 \<le> t"
    and "\<And>u k. t0 \<le> u \<Longrightarrow> mc_live mc u k = written J h u k"
  shows "snd (cache_run (memory_impl J) ops mc) = cache_answers J h ops"
  using assms
proof (induction ops arbitrary: mc h t0)
  case (Cons tx ops)
  obtain t x where tx: "tx = (t, x)" by fastforce
  have now: "\<And>u k. t \<le> u \<Longrightarrow> mc_live mc u k = written J h u k" 
    using Cons.prems(2) [of t] Cons.prems(3) by (simp add: tx)
  have "snd (cache_run (memory_impl J) ops (fst (cache_do (memory_impl J) t x mc))) = cache_answers J ((t, x) # h) ops"
    using Cons.prems(1) cache_do_memory(2) [OF now] by (intro Cons.IH [of t]) (auto simp: tx)
  then show ?case using cache_do_memory(1) [of t mc J h x, OF now] by (simp add: tx case_prod_beta)
qed simp

text \<open>
  C28: The in-memory cache answers every sequence of operations, made at non-decreasing times, exactly as
  the history of writes says: a lookup gives the value of the most recent successful \<^verbatim>\<open>Set\<close> of the
  key that no \<^verbatim>\<open>Delete\<close> or \<^verbatim>\<open>Clear\<close> followed, unless its time to live has passed; the lazy
  purging of expired entries is never observable.
\<close>

theorem memory_cache_serves_last_write:
  assumes "sorted (map fst ops)"
  shows "snd (cache_run (memory_impl J) ops NewMemoryCache) = cache_answers J [] ops"
proof (cases ops)
  case (Cons x rest)
  then show ?thesis using assms
    by (intro cache_run_memory [of ops "fst x"]) (auto simp: mc_simps)
qed simp

text \<open>A codec for the natural numbers, with one value that cannot be encoded and one text that cannot be decoded.\<close>

definition unary_codec :: "(nat, nat) codec" where
  "unary_codec = \<lparr>Marshal = (\<lambda>n. if n = 7 then Inl (Opaque ''unsupported'') else Inr (replicate (Suc n) (CHR ''1''))),
     Unmarshal = (\<lambda>s. if s = ''x'' then Inl (Opaque ''invalid'') else Inr (length s - 1))\<rparr>"

definition iface_codec :: "(nat iface, nat) codec" where
  "iface_codec = \<lparr>Marshal = (\<lambda>x. case x of GoString s \<Rightarrow> Inr s | GoOther n \<Rightarrow> Marshal unary_codec n),
     Unmarshal = Unmarshal unary_codec\<rparr>"

theorem memory_cache_serves_last_write_witness:
  "snd (cache_run (memory_impl iface_codec)
      [(0, OSet ''k'' (GoString ''v'') 5), (5, OGet ''k''), (6, OGet ''k''), (6, OSet ''k'' (GoOther 7) 5), (7, OGetJSON ''k''),
       (8, OSet ''k'' (GoOther 2) 0), (900, OGetJSON ''k''), (901, OClear), (902, OExists ''k'')] NewMemoryCache)
   = [RDone None, RString (Inr ''v''), RString (Inr []),
      RDone (Some (Errorf (''memory cache: marshal value for '' @ go_quote ''k'' @ '': '') (Opaque ''unsupported'') [])), RJSON (Inl redis_Nil),
      RDone None, RJSON (Inr 2), RDone None, RBool (Inr False)]"
  by (subst memory_cache_serves_last_write)
    (simp_all add: payload_def iface_codec_def unary_codec_def numeral_eq_Suc)

text \<open>Cache operations that do not write \<open>key\<close>.\<close>

fun leaves :: "string \<Rightarrow> 'v cache_op \<Rightarrow> bool" where
  "leaves key (OSet k x ttl) \<longleftrightarrow> k \<noteq> key"
| "leaves key (ODelete k) \<longleftrightarrow> k \<noteq> key"
| "leaves key OClear \<longleftrightarrow> False"
| "leaves key _ \<longleftrightarrow> True"

lemma cache_do_leaves:
  assumes "leaves key x" and "t \<le> u"
  shows "mc_live (fst (cache_do (memory_impl J) t x mc)) u key = mc_live mc u key"
proof (cases x)
  case (OSet k v ttl)
  then show ?thesis using assms mc_Set_live [OF _ assms(2), of J v _ k ttl mc key]
    by (cases "payload J v") (simp_all add: memory_impl_def mc_Set_def)
qed (use assms in \<open>simp_all add: memory_impl_def mc_Get_live(2) mc_GetJSON_live(2) mc_Exists_live(2) mc_Delete_def mc_live_drop\<close>)

lemma cache_run_leaves:
  assumes "\<And>t x. (t, x) \<in> set ops \<Longrightarrow> leaves key x \<and> t \<le> u"
  shows "mc_live (fst (cache_run (memory_impl J) ops mc)) u key = mc_live mc u key"
  using assms
proof (induction ops arbitrary: mc)
  case (Cons tx ops)
  obtain t x where tx: "tx = (t, x)" by fastforce
  have "mc_live (fst (cache_run (memory_impl J) ops (fst (cache_do (memory_impl J) t x mc)))) u key
      = mc_live (fst (cache_do (memory_impl J) t x mc)) u key"
    by (rule Cons.IH) (use Cons.prems in auto)
  moreover have "leaves key x \<and> t \<le> u" using Cons.prems [of t x] tx by simp
  ultimately show ?case using cache_do_leaves [of key x t u J mc] by (simp add: tx case_prod_beta)
qed simp

text \<open>
  \<^verbatim>\<open>GetOrLoad\<close> on the in-memory cache loads once per lifetime. After a call that missed and loaded
  \<open>v\<close>, and after any operations that do not write the key, every call within the time to live returns
  \<open>v\<close> whatever loader it is given, without running it; every call after it is decided by its own loader.
  The singleflight group runs the function of a caller that finds no other call in flight, and decoding
  inverts encoding.
\<close>

theorem load_once_per_lifetime:
  fixes load :: "('b \<times> MemoryCache, 't) loader"
  assumes Do: "\<And>k f s. Do k f s = f s"
    and codec: "\<And>x b. Marshal J x = Inr b \<Longrightarrow> b \<noteq> [] \<and> Unmarshal J b = Inr x"
    and miss: "mc_live mc t1 key = None" and t: "t1 \<le> t2" "t2 \<le> t3"
    and load: "load (b, mc1) = ((b1, mc1), Inr v)" and enc: "Marshal J v = Inr e"
    and mc1: "mc1 = fst (mc_Get t2 key (fst (mc_Get t1 key mc)))"
    and ops: "\<And>t x. (t, x) \<in> set ops \<Longrightarrow> leaves key x \<and> t \<le> u1"
    and u: "t3 \<le> u1" "u1 \<le> u2"
  shows "\<exists>mc2. GetOrLoad Do J (cache_beside (memory_impl I)) t1 t2 t3 key ttl load (b, mc) = ((b1, mc2), Inr v) \<and>
    (\<forall>load' b'. let again = GetOrLoad Do J (cache_beside (memory_impl I)) u1 u2 u3 key ttl load' (b', fst (cache_run (memory_impl I) ops mc2))
       in if 0 < ttl \<and> t3 + ttl < u1 then \<exists>s. snd again = snd (load' s) else snd again = Inr v \<and> fst (fst again) = b')"
proof -
  let ?C = "cache_beside (memory_impl I)" and ?w1 = "(b, fst (mc_Get t1 key mc))"
  have miss2: "mc_live (fst (mc_Get t1 key mc)) t2 key = None"
    using miss t mc_live_expires [OF t(1), of mc key] by (cases "mc_live mc t2 key") (auto simp: mc_Get_live)
  have c1: "cached J ?C t1 key (b, mc) = (?w1, None)" using miss by (simp add: cached_def beside_memory mc_Get_live)
  have c2: "cached J ?C t2 key ?w1 = ((b, mc1), None)" using miss2 by (simp add: cached_def beside_memory mc_Get_live mc1)
  define mc2 where "mc2 = fst (mc_Set I t3 key (GoString e) ttl mc1)"
  have set: "c_Set ?C t3 key (GoString e) ttl (b1, mc1) = ((b1, mc2), None)" by (simp add: beside_memory mc2_def mc_Set_string)
  note fill = memory.load_fills [where Do = Do and load = load, OF Do c1 c2 load enc set]
  have live: "mc_live (fst (cache_run (memory_impl I) ops mc2)) u1 key = (if 0 < ttl \<and> t3 + ttl < u1 then None else Some e)"
    using cache_run_leaves [of ops key u1 I mc2, OF ops] fill(2) [OF u(1)] by simp
  show ?thesis
  proof (intro exI conjI allI)
    show "GetOrLoad Do J ?C t1 t2 t3 key ttl load (b, mc) = ((b1, mc2), Inr v)" by (rule fill(1))
    fix load' :: "('b \<times> MemoryCache, 't) loader" and b' :: 'b
    let ?w = "(b', fst (cache_run (memory_impl I) ops mc2))"
    show "let again = GetOrLoad Do J ?C u1 u2 u3 key ttl load' ?w
       in if 0 < ttl \<and> t3 + ttl < u1 then \<exists>s. snd again = snd (load' s) else snd again = Inr v \<and> fst (fst again) = b'"
      using live memory.load_when_dead [where Do = Do, OF Do, of "?w" u1 key u2 J I u3 ttl load'] u(2)
        memory.hit_without_load [of "?w" u1 key e J v Do I u2 u3 ttl load'] codec [OF enc]
      by (simp add: Let_def beside_memory)
  qed
qed

theorem load_once_per_lifetime_witness:
  "\<exists>mc2. GetOrLoad (\<lambda>k f. f) unary_codec (cache_beside (memory_impl iface_codec)) 0 1 2 ''k'' 10 (\<lambda>(b, mc). ((Suc b, mc), Inr 3))
       (0, NewMemoryCache) = ((1 :: nat, mc2), Inr 3) \<and>
     snd (GetOrLoad (\<lambda>k f. f) unary_codec (cache_beside (memory_impl iface_codec)) 12 12 12 ''k'' 10 (\<lambda>s. (s, Inr 9))
       (1 :: nat, fst (cache_run (memory_impl iface_codec) [(5, OSet ''j'' (GoString ''v'') 0), (6, OGet ''k'')] mc2))) = Inr 3"
proof -
  have codec: "b \<noteq> [] \<and> Unmarshal unary_codec b = Inr x" if "Marshal unary_codec x = Inr b" for x b
    using that by (cases x) (auto simp: unary_codec_def split: if_splits)
  have mc: "NewMemoryCache = fst (mc_Get 1 ''k'' (fst (mc_Get 0 ''k'' NewMemoryCache)))" "mc_live NewMemoryCache 0 ''k'' = None"
    by (simp_all add: mc_simps mc_Get_def)
  have enc: "Marshal unary_codec 3 = Inr ''1111''" by (simp add: unary_codec_def numeral_eq_Suc)
  have ops: "leaves ''k'' x \<and> t \<le> 12" if "(t, x) \<in> set [(5, OSet ''j'' (GoString ''v'') 0), (6, OGet ''k'')]" for t :: int and x :: "nat cache_op"
    using that by auto
  note use = load_once_per_lifetime [where Do = "\<lambda>k f. f" and J = unary_codec and I = iface_codec and mc = NewMemoryCache
      and ?mc1.0 = NewMemoryCache and ?t1.0 = 0 and ?t2.0 = 1 and ?t3.0 = 2 and key = "''k''" and b = 0 and ?b1.0 = 1 and v = 3
      and load = "\<lambda>(b, mc). ((Suc b, mc), Inr 3)" and e = "''1111''" and ops = "[(5, OSet ''j'' (GoString ''v'') 0), (6, OGet ''k'')]"
      and ?u1.0 = 12 and ?u2.0 = 12 and ?u3.0 = 12 and ttl = 10, OF refl codec mc(2) _ _ _ enc mc(1) ops]
  show ?thesis using use by (simp add: Let_def del: cache_run.simps) blast
qed

end
