(* ===== verification/Redis.thy ===== *)
theory Redis
  imports Cache
begin

text \<open>
  Package \<^verbatim>\<open>database/redis\<close> and the deprecated \<^verbatim>\<open>cache.RedisCache\<close>: typed helpers, the
  production implementation of the cache interface, the distributed mutex and the fixed-window rate
  limiter. The go-redis client with the server behind it is a parameter, a record of the commands the
  sources issue; every command takes the time at which the server runs it. What the code relies on is
  \<open>redis_ok\<close>, the documented effect of each command on the live keys.
\<close>

subsection \<open>The client commands\<close>

text \<open>\<open>Get\<close> answers \<open>redis_Nil\<close> for an absent key. \<open>Eval\<close> runs a script that maps the live keys to
  the new ones and a number. \<open>Scan\<close> gives the keys an iteration yields and the error that ended it.\<close>

type_synonym keyspace = "string \<Rightarrow> string option"

record 'r rdb =
  rdb_Get :: "int \<Rightarrow> string \<Rightarrow> 'r \<Rightarrow> 'r \<times> (goerr + string)"
  rdb_Set :: "int \<Rightarrow> string \<Rightarrow> string \<Rightarrow> int \<Rightarrow> 'r \<Rightarrow> 'r \<times> goerr option"
  rdb_SetNX :: "int \<Rightarrow> string \<Rightarrow> string \<Rightarrow> int \<Rightarrow> 'r \<Rightarrow> 'r \<times> (goerr + bool)"
  rdb_Del :: "int \<Rightarrow> string list \<Rightarrow> 'r \<Rightarrow> 'r \<times> goerr option"
  rdb_Exists :: "int \<Rightarrow> string \<Rightarrow> 'r \<Rightarrow> 'r \<times> (goerr + int)"
  rdb_TTL :: "int \<Rightarrow> string \<Rightarrow> 'r \<Rightarrow> 'r \<times> (goerr + int)"
  rdb_Incr :: "int \<Rightarrow> string \<Rightarrow> 'r \<Rightarrow> 'r \<times> (goerr + int)"
  rdb_Expire :: "int \<Rightarrow> string \<Rightarrow> int \<Rightarrow> 'r \<Rightarrow> 'r \<times> goerr option"
  rdb_Eval :: "int \<Rightarrow> (keyspace \<Rightarrow> keyspace \<times> int) \<Rightarrow> 'r \<Rightarrow> 'r \<times> (goerr + int)"
  rdb_Scan :: "int \<Rightarrow> string \<Rightarrow> 'r \<Rightarrow> 'r \<times> string list \<times> goerr option"
  rdb_FlushDB :: "int \<Rightarrow> 'r \<Rightarrow> 'r \<times> goerr option"

definition wrap_sum :: "string \<Rightarrow> 's \<times> (goerr + 'a) \<Rightarrow> 's \<times> (goerr + 'a)" where
  "wrap_sum pre x = (fst x, case snd x of Inl e \<Rightarrow> Inl (Errorf pre e []) | Inr v \<Rightarrow> Inr v)"

subsection \<open>Typed helpers (cache.go)\<close>

definition redis_SetJSON :: "'r rdb \<Rightarrow> ('v, 't) codec \<Rightarrow> int \<Rightarrow> string \<Rightarrow> 'v \<Rightarrow> int \<Rightarrow> 'r \<Rightarrow> 'r \<times> goerr option" where
  "redis_SetJSON R J now key v ttl s =
     (case Marshal J v of
        Inl e \<Rightarrow> (s, Some (Errorf ''redis.SetJSON: marshal: '' e []))
      | Inr data \<Rightarrow> wrap_err ''redis.SetJSON: set: '' (rdb_Set R now key data ttl s))"

definition redis_GetJSON :: "'r rdb \<Rightarrow> ('v, 't) codec \<Rightarrow> int \<Rightarrow> string \<Rightarrow> 'r \<Rightarrow> 'r \<times> (goerr + 't option)" where
  "redis_GetJSON R J now key s =
     (case rdb_Get R now key s of
        (s1, Inl e) \<Rightarrow> (s1, if errors_Is e redis_Nil then Inr None else Inl (Errorf ''redis.GetJSON: get: '' e []))
      | (s1, Inr data) \<Rightarrow>
          (s1, case Unmarshal J data of
                 Inl e \<Rightarrow> Inl (Errorf ''redis.GetJSON: unmarshal: '' e [])
               | Inr v \<Rightarrow> Inr (Some v)))"

definition redis_Delete :: "'r rdb \<Rightarrow> int \<Rightarrow> string list \<Rightarrow> 'r \<Rightarrow> 'r \<times> goerr option" where
  "redis_Delete R now keys s = wrap_err ''redis.Delete: '' (rdb_Del R now keys s)"

definition redis_Exists :: "'r rdb \<Rightarrow> int \<Rightarrow> string \<Rightarrow> 'r \<Rightarrow> 'r \<times> (goerr + bool)" where
  "redis_Exists R now key s =
     map_prod (\<lambda>x. x) (map_sum (\<lambda>e. e) (\<lambda>n. 0 < n)) (wrap_sum ''redis.Exists: '' (rdb_Exists R now key s))"

definition redis_TTL :: "'r rdb \<Rightarrow> int \<Rightarrow> string \<Rightarrow> 'r \<Rightarrow> 'r \<times> (goerr + int)" where
  "redis_TTL R now key s = wrap_sum ''redis.TTL: '' (rdb_TTL R now key s)"

definition redis_Increment :: "'r rdb \<Rightarrow> int \<Rightarrow> string \<Rightarrow> 'r \<Rightarrow> 'r \<times> (goerr + int)" where
  "redis_Increment R now key s = wrap_sum ''redis.Increment: '' (rdb_Incr R now key s)"

text \<open>A failing final write is reported beside the loaded value, so the answer has both parts; \<open>None\<close>
  as the value is the zero value of the caller's type.\<close>

definition redis_GetOrSet ::
  "'r rdb \<Rightarrow> ('t, 't) codec \<Rightarrow> int \<Rightarrow> int \<Rightarrow> string \<Rightarrow> int \<Rightarrow> ('r \<Rightarrow> 'r \<times> (goerr + 't)) \<Rightarrow> 'r \<Rightarrow> 'r \<times> 't option \<times> goerr option" where
  "redis_GetOrSet R J t1 t2 key ttl loader s =
     (case redis_GetJSON R J t1 key s of
        (s1, Inl e) \<Rightarrow> (s1, None, Some (Errorf ''redis.GetOrSet: '' e []))
      | (s1, Inr (Some v)) \<Rightarrow> (s1, Some v, None)
      | (s1, Inr None) \<Rightarrow>
          (case loader s1 of
             (s2, Inl e) \<Rightarrow> (s2, None, Some e)
           | (s2, Inr v) \<Rightarrow>
               (case wrap_err ''redis.GetOrSet: '' (redis_SetJSON R J t2 key v ttl s2) of (s3, e) \<Rightarrow> (s3, Some v, e))))"

subsection \<open>The cache implementations (cacheimpl.go, cache/cache.go)\<close>

record redisCache =
  rc_prefix :: string
  rc_ttl :: int

definition WithKeyPrefix :: "string \<Rightarrow> redisCache \<Rightarrow> redisCache" where "WithKeyPrefix p r = r\<lparr>rc_prefix := p\<rparr>"
definition WithDefaultTTL :: "int \<Rightarrow> redisCache \<Rightarrow> redisCache" where "WithDefaultTTL d r = r\<lparr>rc_ttl := d\<rparr>"

definition NewCache :: "(redisCache \<Rightarrow> redisCache) list \<Rightarrow> redisCache" where
  "NewCache opts = fold (\<lambda>opt r. opt r) opts \<lparr>rc_prefix = [], rc_ttl = 0\<rparr>"

definition rc_key :: "redisCache \<Rightarrow> string \<Rightarrow> string" where
  "rc_key r k = rc_prefix r @ k"

definition rc_Get :: "'r rdb \<Rightarrow> redisCache \<Rightarrow> int \<Rightarrow> string \<Rightarrow> 'r \<Rightarrow> 'r \<times> (goerr + string)" where
  "rc_Get R r now key s = rdb_Get R now (rc_key r key) s"

definition rc_GetJSON :: "'r rdb \<Rightarrow> ('v, 't) codec \<Rightarrow> redisCache \<Rightarrow> int \<Rightarrow> string \<Rightarrow> 'r \<Rightarrow> 'r \<times> (goerr + 't)" where
  "rc_GetJSON R J r now key s =
     (case rc_Get R r now key s of (s1, Inl e) \<Rightarrow> (s1, Inl e) | (s1, Inr v) \<Rightarrow> (s1, Unmarshal J v))"

definition rc_Set :: "'r rdb \<Rightarrow> ('v iface, 't) codec \<Rightarrow> redisCache \<Rightarrow> int \<Rightarrow> string \<Rightarrow> 'v iface \<Rightarrow> int \<Rightarrow> 'r \<Rightarrow> 'r \<times> goerr option" where
  "rc_Set R J r now key value ttl s =
     (let ttl' = (if ttl \<le> 0 then rc_ttl r else ttl)
      in case payload J value of
           Inl e \<Rightarrow> (s, Some (Errorf (''redis cache set '' @ go_quote key @ '': marshal: '') e []))
         | Inr p \<Rightarrow> rdb_Set R now (rc_key r key) p ttl' s)"

definition rc_Delete :: "'r rdb \<Rightarrow> redisCache \<Rightarrow> int \<Rightarrow> string \<Rightarrow> 'r \<Rightarrow> 'r \<times> goerr option" where
  "rc_Delete R r now key s = rdb_Del R now [rc_key r key] s"

definition rc_Exists :: "'r rdb \<Rightarrow> redisCache \<Rightarrow> int \<Rightarrow> string \<Rightarrow> 'r \<Rightarrow> 'r \<times> (goerr + bool)" where
  "rc_Exists R r now key s = map_prod (\<lambda>x. x) (map_sum (\<lambda>e. e) (\<lambda>n. 0 < n)) (rdb_Exists R now (rc_key r key) s)"

fun del_each :: "'r rdb \<Rightarrow> int \<Rightarrow> string list \<Rightarrow> 'r \<Rightarrow> 'r \<times> goerr option" where
  "del_each R now [] s = (s, None)"
| "del_each R now (k # ks) s =
     (case rdb_Del R now [k] s of (s1, Some e) \<Rightarrow> (s1, Some e) | (s1, None) \<Rightarrow> del_each R now ks s1)"

definition rc_Clear :: "'r rdb \<Rightarrow> redisCache \<Rightarrow> int \<Rightarrow> 'r \<Rightarrow> 'r \<times> goerr option" where
  "rc_Clear R r now s =
     (if rc_prefix r = [] then (s, Some (Opaque ''redis cache: Clear requires WithKeyPrefix (refusing to flush a shared DB)''))
      else (case rdb_Scan R now (rc_prefix r @ ''*'') s of
              (s1, ks, end_err) \<Rightarrow>
                (case del_each R now ks s1 of (s2, Some e) \<Rightarrow> (s2, Some e) | (s2, None) \<Rightarrow> (s2, end_err))))"

definition redis_impl :: "'r rdb \<Rightarrow> ('v iface, 't) codec \<Rightarrow> redisCache \<Rightarrow> ('v, 't, 'r) Cache" where
  "redis_impl R J r = \<lparr>c_Get = rc_Get R r, c_GetJSON = rc_GetJSON R J r, c_Set = rc_Set R J r, c_Delete = rc_Delete R r,
     c_Exists = rc_Exists R r, c_Clear = rc_Clear R r\<rparr>"

text \<open>The deprecated \<^verbatim>\<open>cache.RedisCache\<close>: no prefix, an absent key is the empty string.\<close>

definition old_Get :: "'r rdb \<Rightarrow> int \<Rightarrow> string \<Rightarrow> 'r \<Rightarrow> 'r \<times> (goerr + string)" where
  "old_Get R now key s =
     (case rdb_Get R now key s of (s1, Inl e) \<Rightarrow> (s1, if e = redis_Nil then Inr [] else Inl e) | (s1, Inr v) \<Rightarrow> (s1, Inr v))"

definition old_GetJSON :: "'r rdb \<Rightarrow> ('v, 't) codec \<Rightarrow> int \<Rightarrow> string \<Rightarrow> 'r \<Rightarrow> 'r \<times> (goerr + 't)" where
  "old_GetJSON R J now key s =
     (case old_Get R now key s of
        (s1, Inl e) \<Rightarrow> (s1, Inl e)
      | (s1, Inr val) \<Rightarrow> (s1, if val = [] then Inl redis_Nil else Unmarshal J val))"

definition old_Set :: "'r rdb \<Rightarrow> ('v iface, 't) codec \<Rightarrow> int \<Rightarrow> string \<Rightarrow> 'v iface \<Rightarrow> int \<Rightarrow> 'r \<Rightarrow> 'r \<times> goerr option" where
  "old_Set R J now key value ttl s =
     (case payload J value of Inl e \<Rightarrow> (s, Some e) | Inr v \<Rightarrow> rdb_Set R now key v ttl s)"

definition old_Delete :: "'r rdb \<Rightarrow> int \<Rightarrow> string \<Rightarrow> 'r \<Rightarrow> 'r \<times> goerr option" where
  "old_Delete R now key s = rdb_Del R now [key] s"

definition old_Exists :: "'r rdb \<Rightarrow> int \<Rightarrow> string \<Rightarrow> 'r \<Rightarrow> 'r \<times> (goerr + bool)" where
  "old_Exists R now key s = map_prod (\<lambda>x. x) (map_sum (\<lambda>e. e) (\<lambda>n. 0 < n)) (rdb_Exists R now key s)"

definition old_Clear :: "'r rdb \<Rightarrow> int \<Rightarrow> 'r \<Rightarrow> 'r \<times> goerr option" where
  "old_Clear R now s = rdb_FlushDB R now s"

definition RedisCache :: "'r rdb \<Rightarrow> ('v iface, 't) codec \<Rightarrow> ('v, 't, 'r) Cache" where
  "RedisCache R J = \<lparr>c_Get = old_Get R, c_GetJSON = old_GetJSON R J, c_Set = old_Set R J, c_Delete = old_Delete R,
     c_Exists = old_Exists R, c_Clear = old_Clear R\<rparr>"

subsection \<open>The mutex (lock.go)\<close>

definition ErrLockNotHeld :: goerr where "ErrLockNotHeld = Opaque ''redis: lock not held''"

record Mutex =
  mu_key :: string
  mu_ttl :: int
  mu_token :: string

definition NewMutex :: "string \<Rightarrow> int \<Rightarrow> Mutex" where
  "NewMutex key ttl = \<lparr>mu_key = ''lock:'' @ key, mu_ttl = ttl, mu_token = []\<rparr>"

text \<open>\<open>token\<close> is the value \<^verbatim>\<open>uuid.NewString()\<close> returns.\<close>

definition Lock :: "'r rdb \<Rightarrow> int \<Rightarrow> string \<Rightarrow> Mutex \<Rightarrow> 'r \<Rightarrow> 'r \<times> Mutex \<times> (goerr + bool)" where
  "Lock R now token m s =
     (case rdb_SetNX R now (mu_key m) token (mu_ttl m) s of
        (s1, Inl e) \<Rightarrow> (s1, m, Inl (Errorf ''redis.Mutex.Lock: '' e []))
      | (s1, Inr True) \<Rightarrow> (s1, m\<lparr>mu_token := token\<rparr>, Inr True)
      | (s1, Inr False) \<Rightarrow> (s1, m, Inr False))"

definition unlockScript :: "string \<Rightarrow> string \<Rightarrow> keyspace \<Rightarrow> keyspace \<times> int" where
  "unlockScript key token m = (if m key = Some token then (m(key := None), 1) else (m, 0))"

definition Unlock :: "'r rdb \<Rightarrow> int \<Rightarrow> Mutex \<Rightarrow> 'r \<Rightarrow> 'r \<times> Mutex \<times> goerr option" where
  "Unlock R now m s =
     (if mu_token m = [] then (s, m, Some ErrLockNotHeld)
      else (case rdb_Eval R now (unlockScript (mu_key m) (mu_token m)) s of
              (s1, Inl e) \<Rightarrow> (s1, m, Some (Errorf ''redis.Mutex.Unlock: '' e []))
            | (s1, Inr n) \<Rightarrow> (s1, m\<lparr>mu_token := []\<rparr>, if n = 0 then Some ErrLockNotHeld else None)))"

subsection \<open>The rate limiter (ratelimit.go)\<close>


subsection \<open>What the code relies on\<close>

text \<open>
  \<open>live s t k\<close> is the value of \<open>k\<close> a server in state \<open>s\<close> would report at time \<open>t\<close>, \<open>life ttl\<close> the
  lifetime it gives a key written with \<open>ttl\<close>. A command that reports an error may or may not have
  been carried out.
\<close>

definition effect :: "('r \<Rightarrow> int \<Rightarrow> keyspace) \<Rightarrow> int \<Rightarrow> string \<Rightarrow> (int \<Rightarrow> string option) \<Rightarrow> 'r \<Rightarrow> 'r \<Rightarrow> bool" where
  "effect live t k f s s' \<longleftrightarrow> (\<forall>u k'. t \<le> u \<longrightarrow> live s' u k' = (if k' = k then f u else live s u k'))"

definition silent :: "('r \<Rightarrow> int \<Rightarrow> keyspace) \<Rightarrow> int \<Rightarrow> 'r \<Rightarrow> 'r \<Rightarrow> bool" where
  "silent live t s s' \<longleftrightarrow> (\<forall>u k. t \<le> u \<longrightarrow> live s' u k = live s u k)"

definition leased :: "(int \<Rightarrow> int) \<Rightarrow> int \<Rightarrow> int \<Rightarrow> string \<Rightarrow> int \<Rightarrow> string option" where
  "leased life t ttl v u = (if 0 < life ttl \<and> t + life ttl < u then None else Some v)"

definition get_ok :: "'r rdb \<Rightarrow> ('r \<Rightarrow> int \<Rightarrow> keyspace) \<Rightarrow> bool" where
  "get_ok R live \<longleftrightarrow> (\<forall>t k s s' r. rdb_Get R t k s = (s', r) \<longrightarrow> silent live t s s' \<and> (\<forall>v. r = Inr v \<longrightarrow> live s t k = Some v))"

definition set_ok :: "'r rdb \<Rightarrow> ('r \<Rightarrow> int \<Rightarrow> keyspace) \<Rightarrow> (int \<Rightarrow> int) \<Rightarrow> bool" where
  "set_ok R live life \<longleftrightarrow> (\<forall>t k v ttl s s'. rdb_Set R t k v ttl s = (s', None) \<longrightarrow> effect live t k (leased life t ttl v) s s')"

definition setnx_ok :: "'r rdb \<Rightarrow> ('r \<Rightarrow> int \<Rightarrow> keyspace) \<Rightarrow> (int \<Rightarrow> int) \<Rightarrow> bool" where
  "setnx_ok R live life \<longleftrightarrow> (\<forall>t k v ttl s s' r. rdb_SetNX R t k v ttl s = (s', r) \<longrightarrow>
     (if live s t k \<noteq> None then silent live t s s' \<and> r \<noteq> Inr True
      else r \<noteq> Inr False \<and> (effect live t k (leased life t ttl v) s s' \<or> r \<noteq> Inr True \<and> silent live t s s')))"




definition scripted :: "('r \<Rightarrow> int \<Rightarrow> keyspace) \<Rightarrow> int \<Rightarrow> (keyspace \<Rightarrow> keyspace \<times> int) \<Rightarrow> int \<Rightarrow> 'r \<Rightarrow> 'r \<Rightarrow> bool" where
  "scripted live t script n s s' \<longleftrightarrow> n = snd (script (live s t)) \<and>
     (\<forall>u k. t \<le> u \<longrightarrow> live s' u k = (let after = fst (script (live s t)) k in if after = live s t k then live s u k else after))"

definition eval_ok :: "'r rdb \<Rightarrow> ('r \<Rightarrow> int \<Rightarrow> keyspace) \<Rightarrow> bool" where
  "eval_ok R live \<longleftrightarrow> (\<forall>t script s s' r. rdb_Eval R t script s = (s', r) \<longrightarrow>
     (case r of Inr n \<Rightarrow> scripted live t script n s s' | Inl _ \<Rightarrow> silent live t s s' \<or> (\<exists>n. scripted live t script n s s')))"

definition only_expires :: "('r \<Rightarrow> int \<Rightarrow> keyspace) \<Rightarrow> bool" where
  "only_expires live \<longleftrightarrow> (\<forall>s t u k v. t \<le> u \<longrightarrow> live s u k = Some v \<longrightarrow> live s t k = Some v)"

text \<open>With a lawful server the production cache keeps the promises of the interface that hold under
  failures, so the lemmas on \<^verbatim>\<open>GetOrLoad\<close> apply to it.\<close>

lemma redis_string_cache:
  assumes "get_ok R live" and "set_ok R live life" and "only_expires live"
  shows "string_cache (redis_impl R J r) (\<lambda>s t k. live s t (rc_key r k)) (\<lambda>ttl. life (if ttl \<le> 0 then rc_ttl r else ttl))"
proof
  fix t u k k' ttl v s s' x
  show "live s t (rc_key r k) = Some v" if "c_Get (redis_impl R J r) t k s = (s', Inr v)" "v \<noteq> []"
    using assms(1) that unfolding get_ok_def redis_impl_def by (simp add: rc_Get_def)
  show "live s' u (rc_key r k') = live s u (rc_key r k')" if "c_Get (redis_impl R J r) t k s = (s', x)" "t \<le> u"
    using assms(1) that unfolding get_ok_def redis_impl_def silent_def by (simp add: rc_Get_def)
  show "live s t (rc_key r k) = Some v" if "t \<le> u" "live s u (rc_key r k) = Some v"
    using assms(3) that unfolding only_expires_def by blast
  show "live s' u (rc_key r k') = (if k' \<noteq> k then live s u (rc_key r k')
      else if 0 < life (if ttl \<le> 0 then rc_ttl r else ttl) \<and> t + life (if ttl \<le> 0 then rc_ttl r else ttl) < u then None else Some v)"
    if "c_Set (redis_impl R J r) t k (GoString v) ttl s = (s', None)" "t \<le> u"
  proof -
    have "effect live t (rc_key r k) (leased life t (if ttl \<le> 0 then rc_ttl r else ttl) v) s s'"
      using assms(2) that(1) unfolding set_ok_def redis_impl_def by (simp add: rc_Set_def payload_def Let_def)
    then show ?thesis using that(2) by (simp add: effect_def leased_def rc_key_def)
  qed
qed

subsection \<open>Exclusive leases\<close>

text \<open>Clients numbered \<open>i\<close>, each with its own \<^verbatim>\<open>Mutex\<close> value on one key: a step is an attempt to
  lock with a fresh token or to unlock.\<close>

datatype mutex_call = TryLock string | TryUnlock

datatype mutex_reply = Locked "goerr + bool" | Unlocked "goerr option"

definition mutex_step :: "'r rdb \<Rightarrow> int \<times> nat \<times> mutex_call \<Rightarrow> 'r \<times> (nat \<Rightarrow> Mutex) \<Rightarrow> ('r \<times> (nat \<Rightarrow> Mutex)) \<times> mutex_reply" where
  "mutex_step R c w =
     (case (c, w) of
        ((t, i, TryLock token), (s, ms)) \<Rightarrow> (case Lock R t token (ms i) s of (s', m', r) \<Rightarrow> ((s', ms(i := m')), Locked r))
      | ((t, i, TryUnlock), (s, ms)) \<Rightarrow> (case Unlock R t (ms i) s of (s', m', r) \<Rightarrow> ((s', ms(i := m')), Unlocked r)))"

fun mutex_run :: "'r rdb \<Rightarrow> (int \<times> nat \<times> mutex_call) list \<Rightarrow> 'r \<times> (nat \<Rightarrow> Mutex) \<Rightarrow> ('r \<times> (nat \<Rightarrow> Mutex)) \<times> mutex_reply list" where
  "mutex_run R [] w = (w, [])"
| "mutex_run R (c # cs) w = (case mutex_step R c w of (w1, r) \<Rightarrow> case mutex_run R cs w1 of (w2, rs) \<Rightarrow> (w2, r # rs))"

definition foreign :: "string \<Rightarrow> string \<Rightarrow> (nat \<Rightarrow> Mutex) \<Rightarrow> bool" where
  "foreign key token ms \<longleftrightarrow> (\<forall>i. mu_key (ms i) = key \<and> mu_token (ms i) \<noteq> token)"

definition held :: "('r \<Rightarrow> int \<Rightarrow> keyspace) \<Rightarrow> string \<Rightarrow> string \<Rightarrow> int \<Rightarrow> int \<Rightarrow> 'r \<Rightarrow> bool" where
  "held live key token t until s \<longleftrightarrow> (\<forall>u. t \<le> u \<and> u \<le> until \<longrightarrow> live s u key = Some token)"

lemma held_silent: "held live key token t until s \<Longrightarrow> t \<le> t' \<Longrightarrow> silent live t' s s' \<Longrightarrow> held live key token t' until s'"
  by (simp add: held_def silent_def)

lemma foreign_upd: "foreign key token ms \<Longrightarrow> mu_key m = key \<Longrightarrow> mu_token m \<noteq> token \<Longrightarrow> foreign key token (ms(i := m))"
  by (simp add: foreign_def)

lemma setnx_taken:
  "setnx_ok R live life \<Longrightarrow> rdb_SetNX R t k v ttl s = (s', r) \<Longrightarrow> live s t k = Some x \<Longrightarrow> silent live t s s' \<and> r \<noteq> Inr True"
  unfolding setnx_ok_def by (drule spec [of _ t], drule spec [of _ k], drule spec [of _ v], drule spec [of _ ttl], drule spec [of _ s]) simp

lemma eval_cases:
  "eval_ok R live \<Longrightarrow> rdb_Eval R t script s = (s', r) \<Longrightarrow>
     (\<exists>n. scripted live t script n s s' \<and> (\<forall>m. r = Inr m \<longrightarrow> m = n)) \<or> silent live t s s' \<and> (\<forall>n. r \<noteq> Inr n)"
  unfolding eval_ok_def by (drule spec [of _ t], drule spec [of _ script], drule spec [of _ s]) (auto split: sum.splits)

lemma lock_foreign:
  assumes "setnx_ok R live life" and "held live (mu_key m) token t0 until s" and "t0 \<le> t" "t \<le> until"
    and "Lock R t token' m s = (s', m', r)"
  shows "held live (mu_key m) token t until s' \<and> m' = m \<and> r \<noteq> Inr True"
proof -
  obtain s1 x where x: "rdb_SetNX R t (mu_key m) token' (mu_ttl m) s = (s1, x)" by fastforce
  have "live s t (mu_key m) = Some token" using assms(2-4) by (simp add: held_def)
  then have "silent live t s s1" "x \<noteq> Inr True" using setnx_taken [OF assms(1) x] by auto
  then show ?thesis using assms(5) held_silent [OF assms(2,3)] by (auto simp: Lock_def x split: sum.splits bool.splits)
qed

lemma unlock_foreign:
  assumes "eval_ok R live" and "held live (mu_key m) token t0 until s" and "t0 \<le> t" "t \<le> until" and "mu_token m \<noteq> token"
    and "token \<noteq> []" and "Unlock R t m s = (s', m', r)"
  shows "held live (mu_key m) token t until s' \<and> mu_key m' = mu_key m \<and> mu_token m' \<noteq> token"
proof (cases "mu_token m = []")
  case True
  then show ?thesis using assms(2,3,6,7) by (auto simp: Unlock_def held_def)
next
  case False
  obtain s1 x where x: "rdb_Eval R t (unlockScript (mu_key m) (mu_token m)) s = (s1, x)" by fastforce
  have "live s t (mu_key m) = Some token" using assms(2-4) by (simp add: held_def)
  then have "silent live t s s1"
    if "scripted live t (unlockScript (mu_key m) (mu_token m)) n s s1" for n
    using that assms(5) by (simp add: scripted_def unlockScript_def silent_def Let_def)
  then have "silent live t s s1" using eval_cases [OF assms(1) x] by blast
  then show ?thesis
    using assms(5,6,7) False held_silent [OF assms(2,3)] by (auto simp: Unlock_def x split: sum.splits)
qed

lemma mutex_run_foreign:
  assumes "setnx_ok R live life" and "eval_ok R live" and "token \<noteq> []"
    and "held live key token t0 until s" and "foreign key token ms"
    and "sorted (t0 # map fst cs)" and "list_all (\<lambda>(t, i, c). t \<le> until \<and> c \<noteq> TryLock token) cs"
    and "mutex_run R cs (s, ms) = ((s', ms'), rs)"
  shows "(\<exists>t1. t1 \<ge> t0 \<and> (t1 \<le> until \<or> t1 = t0) \<and> held live key token t1 until s') \<and> Locked (Inr True) \<notin> set rs"
  using assms(4-8)
proof (induction cs arbitrary: s ms t0 rs)
  case Nil
  then show ?case by auto
next
  case (Cons c cs)
  obtain t i a where c: "c = (t, i, a)" by (cases c) auto
  obtain s1 ms1 r where st: "mutex_step R c (s, ms) = ((s1, ms1), r)" by (metis surj_pair)
  obtain rs1 where run: "mutex_run R cs (s1, ms1) = ((s', ms'), rs1)" "rs = r # rs1"
    using Cons.prems(5) st by (auto split: prod.splits)
  have t: "t0 \<le> t" "t \<le> until" "a \<noteq> TryLock token" using Cons.prems(3,4) c by auto
  have key: "mu_key (ms i) = key" "mu_token (ms i) \<noteq> token" using Cons.prems(2) by (simp_all add: foreign_def)
  have "held live key token t until s1 \<and> foreign key token ms1 \<and> r \<noteq> Locked (Inr True)"
  proof (cases a)
    case (TryLock token')
    obtain s2 m2 x where l: "Lock R t token' (ms i) s = (s2, m2, x)" by (metis surj_pair)
    show ?thesis
      using lock_foreign [OF assms(1) _ t(1,2) l] Cons.prems(1,2) st key
      by (auto simp: mutex_step_def c TryLock l foreign_def)
  next
    case TryUnlock
    obtain s2 m2 x where l: "Unlock R t (ms i) s = (s2, m2, x)" by (metis surj_pair)
    show ?thesis
      using unlock_foreign [OF assms(2) _ t(1,2) key(2) assms(3) l] Cons.prems(1,2) st key
      by (auto simp: mutex_step_def c TryUnlock l intro!: foreign_upd)
  qed
  then have h: "held live key token t until s1" "foreign key token ms1" "r \<noteq> Locked (Inr True)" by auto
  have "(\<exists>t1\<ge>t. (t1 \<le> until \<or> t1 = t) \<and> held live key token t1 until s') \<and> Locked (Inr True) \<notin> set rs1"
    by (rule Cons.IH [OF h(1,2) _ _ run(1)]) (use Cons.prems(3,4) c in auto)
  then show ?case using t h(3) run(2) by (auto intro: order_trans)
qed

text \<open>
  C24: A lock that was acquired is exclusive until its lease ends: whatever other clients do with their
  own mutexes on the same key (any number of attempts to lock or unlock, commands lost on the way
  included), none of them acquires it, the key keeps the holder's token, and the holder's own
  \<^verbatim>\<open>Unlock\<close> within the lease finds the lock held and, when it reports success, has released it.
\<close>

theorem mutex_lease_exclusive:
  assumes laws: "setnx_ok R live life" "eval_ok R live"
    and lock: "Lock R t0 token m s = (s0, m1, Inr True)" and token: "token \<noteq> []"
    and others: "foreign (mu_key m) token ms" "sorted (t0 # map fst cs)"
      "list_all (\<lambda>(t, i, c). t \<le> until \<and> c \<noteq> TryLock token) cs"
    and lease: "t0 \<le> until" "0 < life (mu_ttl m) \<Longrightarrow> until \<le> t0 + life (mu_ttl m)"
    and run: "mutex_run R cs (s0, ms) = ((s1, ms1), rs)"
  shows "Locked (Inr True) \<notin> set rs \<and> live s1 until (mu_key m) = Some token \<and>
    (\<forall>s2 m2 r. Unlock R until m1 s1 = (s2, m2, r) \<longrightarrow>
       r \<noteq> Some ErrLockNotHeld \<and> (r = None \<longrightarrow> live s2 until (mu_key m) = None))"
proof -
  have set: "rdb_SetNX R t0 (mu_key m) token (mu_ttl m) s = (s0, Inr True)" and m1: "m1 = m\<lparr>mu_token := token\<rparr>"
    using lock by (auto simp: Lock_def split: prod.splits sum.splits bool.splits)
  have "effect live t0 (mu_key m) (leased life t0 (mu_ttl m) token) s s0"
    using laws(1) set unfolding setnx_ok_def by metis
  then have "held live (mu_key m) token t0 until s0"
    using lease by (auto simp: held_def effect_def leased_def)
  from mutex_run_foreign [OF laws token this others run]
  have h: "live s1 until (mu_key m) = Some token" "Locked (Inr True) \<notin> set rs"
    using lease(1) by (auto simp: held_def)
  have "r \<noteq> Some ErrLockNotHeld \<and> (r = None \<longrightarrow> live s2 until (mu_key m) = None)"
    if u: "Unlock R until m1 s1 = (s2, m2, r)" for s2 m2 r
  proof -
    obtain s3 x where x: "rdb_Eval R until (unlockScript (mu_key m) token) s1 = (s3, x)" by fastforce
    show ?thesis
      using eval_cases [OF laws(2) x] u token h(1)
      by (auto simp: Unlock_def m1 x scripted_def unlockScript_def Let_def ErrLockNotHeld_def split: sum.splits if_splits)
  qed
  with h show ?thesis by blast
qed

subsection \<open>A server that satisfies the laws\<close>

type_synonym kv_state = "string \<Rightarrow> (string \<times> int option) option"

definition kv_live :: "kv_state \<Rightarrow> int \<Rightarrow> keyspace" where
  "kv_live s t k = (case s k of None \<Rightarrow> None | Some (v, None) \<Rightarrow> Some v | Some (v, Some e) \<Rightarrow> if e < t then None else Some v)"

definition kv_expiry :: "int \<Rightarrow> int \<Rightarrow> int option" where
  "kv_expiry t ttl = (if 0 < ttl then Some (t + ttl) else None)"

definition kv :: "kv_state rdb" where
  "kv = \<lparr>
    rdb_Get = (\<lambda>t k s. (s, case kv_live s t k of None \<Rightarrow> Inl redis_Nil | Some v \<Rightarrow> Inr v)),
    rdb_Set = (\<lambda>t k v ttl s. (s(k \<mapsto> (v, kv_expiry t ttl)), None)),
    rdb_SetNX = (\<lambda>t k v ttl s. if kv_live s t k \<noteq> None then (s, Inr False) else (s(k \<mapsto> (v, kv_expiry t ttl)), Inr True)),
    rdb_Del = (\<lambda>t ks s. ((\<lambda>k. if k \<in> set ks then None else s k), None)),
    rdb_Exists = (\<lambda>t k s. (s, Inr (if kv_live s t k = None then 0 else 1))),
    rdb_TTL = (\<lambda>t k s. (s, Inr (case s k of Some (v, Some e) \<Rightarrow> e - t | Some (v, None) \<Rightarrow> - 1 | None \<Rightarrow> - 2))),
    rdb_Incr = (\<lambda>t k s. case kv_live s t k of
        None \<Rightarrow> (s(k \<mapsto> (''1'', None)), Inr 1)
      | Some v \<Rightarrow> (case Atoi v of
            None \<Rightarrow> (s, Inl (Opaque ''ERR value is not an integer or out of range''))
          | Some c \<Rightarrow> if in_int64 (c + 1) then (s(k \<mapsto> (itoa (c + 1), snd (the (s k)))), Inr (c + 1))
                      else (s, Inl (Opaque ''ERR increment or decrement would overflow'')))),
    rdb_Expire = (\<lambda>t k w s. case kv_live s t k of None \<Rightarrow> (s(k := None), None) | Some v \<Rightarrow> (s(k \<mapsto> (v, Some (t + w))), None)),
    rdb_Eval = (\<lambda>t script s. case script (kv_live s t) of
        (m, n) \<Rightarrow> ((\<lambda>k. if m k = kv_live s t k then s k else map_option (\<lambda>v. (v, None)) (m k)), Inr n)),
    rdb_Scan = (\<lambda>t pat s. (s, [], None)),
    rdb_FlushDB = (\<lambda>t s. ((\<lambda>k. None), None))\<rparr>"

lemma kv_live_upd: "kv_live (s(k := x)) t k' = (if k' = k then kv_live (\<lambda>_. x) t k else kv_live s t k')"
  by (simp add: kv_live_def)

lemma kv_live_kept: "kv_live (\<lambda>k. if p k then s k else f k) t k = (if p k then kv_live s t k else kv_live f t k)"
  by (simp add: kv_live_def)

lemma kv_live_later: "t \<le> u \<Longrightarrow> kv_live s t k = None \<Longrightarrow> kv_live s u k = None"
  by (auto simp: kv_live_def split: option.splits if_splits)


lemma kv_get_ok: "get_ok kv kv_live"
  by (auto simp: get_ok_def kv_def silent_def split: option.splits)

lemma kv_set_ok: "set_ok kv kv_live (\<lambda>d. d)"
  by (auto simp: set_ok_def kv_def effect_def leased_def kv_live_upd kv_expiry_def) (auto simp: kv_live_def)

lemma kv_setnx_ok: "setnx_ok kv kv_live (\<lambda>d. d)"
  by (auto simp: setnx_ok_def kv_def effect_def silent_def leased_def kv_live_upd kv_expiry_def split: if_splits)
    (auto simp: kv_live_def)



lemma kv_eval_ok: "eval_ok kv kv_live"
  unfolding eval_ok_def kv_def
  by (auto simp: scripted_def kv_live_kept Let_def split: prod.splits) (auto simp: kv_live_def split: option.splits)

theorem mutex_lease_exclusive_witness:
  "\<exists>s1 ms1 rs s2 m2. Lock kv 0 ''A'' (NewMutex ''job'' 10) (\<lambda>_. None) = (s1, m2, Inr True)
    \<and> mutex_run kv [(3, 1, TryLock ''B''), (4, 1, TryUnlock), (9, 2, TryLock ''C'')] (s1, \<lambda>_. NewMutex ''job'' 5) = ((s2, ms1), rs)
    \<and> Locked (Inr True) \<notin> set rs \<and> kv_live s2 10 ''lock:job'' = Some ''A''"
proof -
  obtain s1 m2 where l: "Lock kv 0 ''A'' (NewMutex ''job'' 10) (\<lambda>_. None) = (s1, m2, Inr True)"
    by (simp add: Lock_def kv_def kv_live_def NewMutex_def)
  obtain s2 ms1 rs where r:
    "mutex_run kv [(3, 1, TryLock ''B''), (4, 1, TryUnlock), (9, 2, TryLock ''C'')] (s1, \<lambda>_. NewMutex ''job'' 5) = ((s2, ms1), rs)"
    by (metis surj_pair)
  have f: "foreign (mu_key (NewMutex ''job'' 10)) ''A'' (\<lambda>_. NewMutex ''job'' 5)" by (simp add: foreign_def NewMutex_def)
  from mutex_lease_exclusive [OF kv_setnx_ok kv_eval_ok l _ f _ _ _ _ r, of 10] l r show ?thesis
    by (simp add: NewMutex_def del: mutex_run.simps)
qed

subsection \<open>The fixed window\<close>



















end
