(* ===== verification/Scheduler.thy ===== *)
theory Scheduler
  imports DxErrors "HOL-Library.Word"
begin

text \<open>
  Package \<^verbatim>\<open>scheduler\<close>: job registration, the tick loop with panic recovery and counters, and the
  non-blocking PostgreSQL advisory lock that lets one replica run a tick. The connection pool is a
  parameter (pgx and the server are not part of the repository); what the code relies on is \<open>pool_ok\<close>,
  the documented behaviour of connections and session-level advisory locks.
\<close>

unbundle bit_operations_syntax

subsection \<open>Jobs and registration (job.go, runner.go)\<close>

text \<open>A run returns an error value or panics. It sees the deadline of its context, if one was set.\<close>

datatype run_result = Returned "goerr option" | Panicked string

record 'w Job =
  job_Name :: string
  job_Every :: int
  job_Jitter :: int
  job_Timeout :: int
  job_Run :: "int option \<Rightarrow> 'w \<Rightarrow> 'w \<times> run_result"

record 'w registeredJob =
  rj_job :: "'w Job"
  rj_singleton :: bool
  rj_kick :: bool

type_synonym 'w Runner = "'w registeredJob list"

definition New :: "'w Runner" where "New = []"

definition WithSingleton :: "'w registeredJob \<Rightarrow> 'w registeredJob" where
  "WithSingleton rj = rj\<lparr>rj_singleton := True\<rparr>"

text \<open>\<open>Inl\<close> is the panic with its message.\<close>

definition Register :: "'w Runner \<Rightarrow> 'w Job \<Rightarrow> ('w registeredJob \<Rightarrow> 'w registeredJob) list \<Rightarrow> string + 'w Runner" where
  "Register r j opts =
     (if job_Every j \<le> 0 then Inl (''scheduler: Job.Every must be positive: '' @ job_Name j)
      else if list_ex (\<lambda>x. job_Name (rj_job x) = job_Name j) r then Inl (''scheduler: duplicate job name: '' @ job_Name j)
      else Inr (r @ [fold (\<lambda>opt rj. opt rj) opts \<lparr>rj_job = j, rj_singleton = False, rj_kick = False\<rparr>]))"

text \<open>The kick channel has room for one request.\<close>

fun runner_Kick :: "'w Runner \<Rightarrow> string \<Rightarrow> 'w Runner" where
  "runner_Kick [] name = []"
| "runner_Kick (rj # r) name = (if job_Name (rj_job rj) = name then rj\<lparr>rj_kick := True\<rparr> # r else rj # runner_Kick r name)"

subsection \<open>The advisory lock (advisorylock.go)\<close>

text \<open>\<^verbatim>\<open>hash/fnv\<close>'s 64-bit FNV-1a, and the conversion to a signed key.\<close>

definition fnv1a :: "string \<Rightarrow> 64 word" where
  "fnv1a s = foldl (\<lambda>h c. (h XOR of_nat (of_char c)) * 1099511628211) 14695981039346656037 s"

definition lockKey :: "string \<Rightarrow> int" where
  "lockKey name = sint (fnv1a name)"

record 'd pool =
  pool_Acquire :: "'d \<Rightarrow> 'd \<times> (goerr + nat)"
  pool_Release :: "nat \<Rightarrow> 'd \<Rightarrow> 'd"
  pg_try_advisory_lock :: "nat \<Rightarrow> int \<Rightarrow> 'd \<Rightarrow> 'd \<times> (goerr + bool)"
  pg_advisory_unlock :: "nat \<Rightarrow> int \<Rightarrow> 'd \<Rightarrow> 'd"

text \<open>\<open>Inr (Some conn)\<close> is success; the closure the source returns is \<open>unlock\<close> on that connection.\<close>

definition tryAdvisoryLock :: "'d pool \<Rightarrow> int \<Rightarrow> 'd \<Rightarrow> 'd \<times> (goerr + nat option)" where
  "tryAdvisoryLock P key d =
     (case pool_Acquire P d of
        (d1, Inl e) \<Rightarrow> (d1, Inl (Errorf ''scheduler: acquire connection: '' e []))
      | (d1, Inr conn) \<Rightarrow>
          (case pg_try_advisory_lock P conn key d1 of
             (d2, Inl e) \<Rightarrow> (pool_Release P conn d2, Inl (Errorf ''scheduler: pg_try_advisory_lock: '' e []))
           | (d2, Inr False) \<Rightarrow> (pool_Release P conn d2, Inr None)
           | (d2, Inr True) \<Rightarrow> (d2, Inr (Some conn))))"

definition unlock :: "'d pool \<Rightarrow> int \<Rightarrow> nat \<Rightarrow> 'd \<Rightarrow> 'd" where
  "unlock P key conn d = pool_Release P conn (pg_advisory_unlock P conn key d)"

subsection \<open>Running a job (runner.go)\<close>

definition runProtected :: "'w Job \<Rightarrow> int option \<Rightarrow> 'w \<Rightarrow> 'w \<times> goerr option" where
  "runProtected job deadline w =
     (case job_Run job deadline w of
        (w1, Returned err) \<Rightarrow> (w1, err)
      | (w1, Panicked p) \<Rightarrow> (w1, Some (Opaque (''scheduler: job '' @ [CHR 0x22] @ job_Name job @ [CHR 0x22] @ '' panicked: '' @ p))))"

text \<open>The Prometheus counters by job name, the pool, and the world the job works on.\<close>

record ('d, 'w) process =
  runsTotal :: "string \<Rightarrow> nat"
  failuresTotal :: "string \<Rightarrow> nat"
  skippedSingletonTotal :: "string \<Rightarrow> nat"
  p_pool :: 'd
  p_world :: 'w

definition inc :: "string \<Rightarrow> (string \<Rightarrow> nat) \<Rightarrow> string \<Rightarrow> nat" where
  "inc name c = c(name := Suc (c name))"

definition run_counted :: "'w Job \<Rightarrow> ('d, 'w) process \<Rightarrow> ('d, 'w) process" where
  "run_counted job p =
     (case runProtected job (if 0 < job_Timeout job then Some (job_Timeout job) else None) (p_world p) of
        (w1, err) \<Rightarrow>
          p\<lparr>p_world := w1, runsTotal := inc (job_Name job) (runsTotal p),
            failuresTotal := (if err \<noteq> None then inc (job_Name job) (failuresTotal p) else failuresTotal p)\<rparr>)"

text \<open>
  \<^verbatim>\<open>runOnce\<close> up to the body: the tick fails, is skipped, or starts, with the connection that holds the lock if the job is a singleton;
  and the deferred unlock after the body.
\<close>

datatype run_start = LockFailed goerr | TickSkipped | Started "nat option"

definition job_key :: "'w registeredJob \<Rightarrow> int" where
  "job_key rj = lockKey (job_Name (rj_job rj))"

definition begin_run :: "'d pool \<Rightarrow> 'w registeredJob \<Rightarrow> 'd \<Rightarrow> 'd \<times> run_start" where
  "begin_run P rj d =
     (if rj_singleton rj
      then (case tryAdvisoryLock P (job_key rj) d of
              (d1, Inl e) \<Rightarrow> (d1, LockFailed e)
            | (d1, Inr None) \<Rightarrow> (d1, TickSkipped)
            | (d1, Inr (Some conn)) \<Rightarrow> (d1, Started (Some conn)))
      else (d, Started None))"

definition end_run :: "'d pool \<Rightarrow> 'w registeredJob \<Rightarrow> nat option \<Rightarrow> 'd \<Rightarrow> 'd" where
  "end_run P rj held d = (case held of Some conn \<Rightarrow> unlock P (job_key rj) conn d | None \<Rightarrow> d)"

definition sched_runOnce :: "'d pool \<Rightarrow> 'w registeredJob \<Rightarrow> ('d, 'w) process \<Rightarrow> ('d, 'w) process" where
  "sched_runOnce P rj p =
     (case begin_run P rj (p_pool p) of
        (d1, LockFailed e) \<Rightarrow> p\<lparr>p_pool := d1\<rparr>
      | (d1, TickSkipped) \<Rightarrow>
          p\<lparr>p_pool := d1, skippedSingletonTotal := inc (job_Name (rj_job rj)) (skippedSingletonTotal p)\<rparr>
      | (d1, Started held) \<Rightarrow>
          (let p1 = run_counted (rj_job rj) (p\<lparr>p_pool := d1\<rparr>) in p1\<lparr>p_pool := end_run P rj held (p_pool p1)\<rparr>))"

lemma begin_run_plain [simp]: "\<not> rj_singleton rj \<Longrightarrow> begin_run P rj d = (d, Started None)"
  by (simp add: begin_run_def)

lemma runOnce_plain: "\<not> rj_singleton rj \<Longrightarrow> sched_runOnce P rj p = run_counted (rj_job rj) p"
  by (simp add: sched_runOnce_def end_run_def Let_def run_counted_def split: prod.split)

text \<open>What the select of the loop receives, in order, and how the wait for the jitter before it ended, which
  happens only when the job has one. The second component of the result says whether the loop has returned.\<close>

datatype wakeup = CtxDone | TimerFired | Kicked

datatype jitter_wait = StillWaiting | Cancelled | Elapsed

fun tick_loop :: "'d pool \<Rightarrow> 'w registeredJob \<Rightarrow> wakeup list \<Rightarrow> ('d, 'w) process \<Rightarrow> ('d, 'w) process \<times> bool" where
  "tick_loop P rj [] p = (sched_runOnce P rj p, False)"
| "tick_loop P rj (e # es) p =
     (let p1 = sched_runOnce P rj p in if e = CtxDone then (p1, True) else tick_loop P rj es p1)"

definition runLoop ::
  "'d pool \<Rightarrow> 'w registeredJob \<Rightarrow> jitter_wait \<Rightarrow> wakeup list \<Rightarrow> ('d, 'w) process \<Rightarrow> ('d, 'w) process \<times> bool" where
  "runLoop P rj jw es p =
     (if 0 < job_Jitter (rj_job rj)
      then (case jw of StillWaiting \<Rightarrow> (p, False) | Cancelled \<Rightarrow> (p, True) | Elapsed \<Rightarrow> tick_loop P rj es p)
      else tick_loop P rj es p)"

subsection \<open>Registration\<close>

definition runner_ok :: "'w Runner \<Rightarrow> bool" where
  "runner_ok r \<longleftrightarrow> distinct (map (job_Name \<circ> rj_job) r) \<and> list_all (\<lambda>x. 0 < job_Every (rj_job x)) r"

definition keeps_job :: "('w registeredJob \<Rightarrow> 'w registeredJob) \<Rightarrow> bool" where
  "keeps_job opt \<longleftrightarrow> (\<forall>rj. rj_job (opt rj) = rj_job rj)"

lemma keeps_job_fold: "list_all keeps_job opts \<Longrightarrow> rj_job (fold (\<lambda>opt rj. opt rj) opts rj) = rj_job rj"
  by (induction opts arbitrary: rj) (auto simp: keeps_job_def)

lemma keeps_job_singleton: "keeps_job WithSingleton"
  by (simp add: keeps_job_def WithSingleton_def)

lemma register_ok: "runner_ok r \<Longrightarrow> list_all keeps_job opts \<Longrightarrow> Register r j opts = Inr r' \<Longrightarrow> runner_ok r'"
  by (fastforce simp: Register_def runner_ok_def keeps_job_fold list_ex_iff split: if_splits)

lemma register_panics:
  "(\<exists>msg. Register r j opts = Inl msg) \<longleftrightarrow> job_Every j \<le> 0 \<or> job_Name j \<in> set (map (job_Name \<circ> rj_job) r)"
  by (force simp: Register_def list_ex_iff)

lemma kick_keeps: "map rj_job (runner_Kick r name) = map rj_job r"
  by (induction r) auto

lemma kick_idem: "runner_Kick (runner_Kick r name) name = runner_Kick r name"
  by (induction r) auto

subsection \<open>The loop survives its job\<close>

lemma run_counted_counts:
  "runsTotal (run_counted job p) = inc (job_Name job) (runsTotal p)"
  "p_pool (run_counted job p) = p_pool p"
  "skippedSingletonTotal (run_counted job p) = skippedSingletonTotal p"
  by (simp_all add: run_counted_def split: prod.split)

fun rounds :: "wakeup list \<Rightarrow> nat" where
  "rounds [] = 1"
| "rounds (e # es) = (if e = CtxDone then 1 else Suc (rounds es))"

fun outcomes :: "'w Job \<Rightarrow> nat \<Rightarrow> 'w \<Rightarrow> 'w \<times> bool list" where
  "outcomes job 0 w = (w, [])"
| "outcomes job (Suc n) w =
     (case job_Run job (if 0 < job_Timeout job then Some (job_Timeout job) else None) w of
        (w1, r) \<Rightarrow> case outcomes job n w1 of (w2, bs) \<Rightarrow> (w2, (r = Returned None) # bs))"

lemma run_counted_outcome:
  assumes "job_Run job (if 0 < job_Timeout job then Some (job_Timeout job) else None) (p_world p) = (w1, r)"
  shows "run_counted job p = p\<lparr>p_world := w1, runsTotal := inc (job_Name job) (runsTotal p),
    failuresTotal := (if r = Returned None then failuresTotal p else inc (job_Name job) (failuresTotal p))\<rparr>"
  using assms by (cases r) (simp_all add: run_counted_def runProtected_def)

lemma tick_loop_counts:
  assumes "\<not> rj_singleton rj" and "outcomes (rj_job rj) (rounds es) (p_world p) = (w', bs)"
  shows "let p' = fst (tick_loop P rj es p); n = job_Name (rj_job rj)
    in p_world p' = w' \<and> runsTotal p' n = runsTotal p n + rounds es
     \<and> failuresTotal p' n = failuresTotal p n + length (filter Not bs) \<and> snd (tick_loop P rj es p) = (CtxDone \<in> set es)"
  using assms(2)
proof (induction es arbitrary: p bs)
  case Nil
  obtain w1 r where r: "job_Run (rj_job rj) (if 0 < job_Timeout (rj_job rj) then Some (job_Timeout (rj_job rj)) else None) (p_world p) = (w1, r)"
    by fastforce
  show ?case using Nil assms(1) r
    by (simp add: runOnce_plain run_counted_outcome [OF r] inc_def Let_def) auto
next
  case (Cons e es)
  obtain w1 r where r: "job_Run (rj_job rj) (if 0 < job_Timeout (rj_job rj) then Some (job_Timeout (rj_job rj)) else None) (p_world p) = (w1, r)"
    by fastforce
  note one = run_counted_outcome [OF r]
  show ?case
  proof (cases "e = CtxDone")
    case True
    then show ?thesis using Cons.prems assms(1) r by (simp add: runOnce_plain one inc_def Let_def) auto
  next
    case False
    obtain bs1 where bs: "outcomes (rj_job rj) (rounds es) w1 = (w', bs1)" "bs = (r = Returned None) # bs1"
      using Cons.prems False r by (auto split: prod.splits)
    show ?thesis using Cons.IH [of "run_counted (rj_job rj) p" bs1] bs False assms(1)
      by (simp add: runOnce_plain one inc_def Let_def)
  qed
qed

text \<open>
  One failing job never stops its loop: for a job without singleton lock, whatever its runs do (return
  an error, panic, change the world), the loop, once its jitter has passed, runs it once at the start and once for every timer tick
  or kick until the context is done, passing the world from run to run; every run is counted and exactly
  the runs that returned an error or panicked are counted as failures.
\<close>

theorem job_loop_survives_failures:
  assumes "\<not> rj_singleton rj" and "job_Jitter (rj_job rj) \<le> 0 \<or> jw = Elapsed"
    and "outcomes (rj_job rj) (rounds es) (p_world p) = (w', bs)"
  shows "let p' = fst (runLoop P rj jw es p); n = job_Name (rj_job rj)
    in p_world p' = w' \<and> runsTotal p' n = runsTotal p n + rounds es
     \<and> failuresTotal p' n = failuresTotal p n + length (filter Not bs) \<and> snd (runLoop P rj jw es p) = (CtxDone \<in> set es)"
  using tick_loop_counts [OF assms(1,3), of P] assms(2) by (auto simp: runLoop_def)

definition flaky_job :: "nat Job" where
  "flaky_job = \<lparr>job_Name = ''flaky'', job_Every = 5, job_Jitter = 2, job_Timeout = 0,
     job_Run = (\<lambda>_ w. (Suc w, if w = 0 then Panicked ''boom'' else if w = 1 then Returned (Some (Opaque ''down'')) else Returned None))\<rparr>"

definition idle_process :: "'d \<Rightarrow> 'w \<Rightarrow> ('d, 'w) process" where
  "idle_process d w = \<lparr>runsTotal = (\<lambda>_. 0), failuresTotal = (\<lambda>_. 0), skippedSingletonTotal = (\<lambda>_. 0), p_pool = d, p_world = w\<rparr>"

theorem job_loop_survives_failures_witness:
  "\<forall>P d. let p' = fst (runLoop P \<lparr>rj_job = flaky_job, rj_singleton = False, rj_kick = False\<rparr> Elapsed [TimerFired, Kicked, CtxDone, TimerFired] (idle_process d 0))
   in p_world p' = 3 \<and> runsTotal p' ''flaky'' = 3 \<and> failuresTotal p' ''flaky'' = 2"
proof (intro allI)
  fix P :: "'d pool" and d :: 'd
  show "let p' = fst (runLoop P \<lparr>rj_job = flaky_job, rj_singleton = False, rj_kick = False\<rparr> Elapsed [TimerFired, Kicked, CtxDone, TimerFired] (idle_process d 0))
   in p_world p' = 3 \<and> runsTotal p' ''flaky'' = 3 \<and> failuresTotal p' ''flaky'' = 2"
    using job_loop_survives_failures [of "\<lparr>rj_job = flaky_job, rj_singleton = False, rj_kick = False\<rparr>"
        Elapsed "[TimerFired, Kicked, CtxDone, TimerFired]" "idle_process d 0" 3 "[False, False, True]" P]
    by (simp add: flaky_job_def idle_process_def Let_def)
qed

subsection \<open>One replica at a time\<close>

text \<open>
  What the code relies on: \<open>busy d\<close> are the connections handed out, \<open>holds d c k\<close> says that the session of connection \<open>c\<close> holds the
  advisory lock \<open>k\<close>, \<open>broken d c\<close> that the connection is no longer usable. A connection is handed out to one caller. A lock is granted only
  while no other session holds it, and refused only then; an attempt that ends in an error may have taken the lock, on a connection that is broken.
  An unlock gives the lock back or breaks the connection; releasing a broken connection closes its session, which gives up its locks, while a
  usable one keeps them. Commands on one connection leave the locks of other sessions alone.
\<close>

definition others_kept :: "('d \<Rightarrow> nat \<Rightarrow> int \<Rightarrow> bool) \<Rightarrow> nat \<Rightarrow> 'd \<Rightarrow> 'd \<Rightarrow> bool" where
  "others_kept holds c d d' \<longleftrightarrow> (\<forall>c' k. c' \<noteq> c \<longrightarrow> holds d' c' k = holds d c' k)"

definition try_ok :: "'d pool \<Rightarrow> ('d \<Rightarrow> nat \<Rightarrow> int \<Rightarrow> bool) \<Rightarrow> ('d \<Rightarrow> nat set) \<Rightarrow> ('d \<Rightarrow> nat \<Rightarrow> bool) \<Rightarrow> bool" where
  "try_ok P holds busy broken \<longleftrightarrow>
     (\<forall>c k d d' r. pg_try_advisory_lock P c k d = (d', r) \<longrightarrow> busy d' = busy d \<and> others_kept holds c d d' \<and>
        (\<forall>k'. holds d' c k' \<longrightarrow> k' = k \<or> holds d c k') \<and>
        (r = Inr True \<longrightarrow> holds d' c k \<and> (\<forall>c'. c' \<noteq> c \<longrightarrow> \<not> holds d c' k)) \<and>
        (r = Inr False \<longrightarrow> holds d' c k = holds d c k \<and> (\<exists>c'. holds d c' k)) \<and>
        (\<forall>e. r = Inl e \<longrightarrow> holds d' c k \<longrightarrow> broken d' c))"

definition pool_ok :: "'d pool \<Rightarrow> ('d \<Rightarrow> nat \<Rightarrow> int \<Rightarrow> bool) \<Rightarrow> ('d \<Rightarrow> nat set) \<Rightarrow> ('d \<Rightarrow> nat \<Rightarrow> bool) \<Rightarrow> bool" where
  "pool_ok P holds busy broken \<longleftrightarrow> try_ok P holds busy broken \<and>
     (\<forall>d d' r. pool_Acquire P d = (d', r) \<longrightarrow> holds d' = holds d \<and>
        (case r of Inl _ \<Rightarrow> busy d' = busy d | Inr c \<Rightarrow> c \<notin> busy d \<and> busy d' = insert c (busy d))) \<and>
     (\<forall>c d. busy (pool_Release P c d) = busy d - {c} \<and> others_kept holds c d (pool_Release P c d) \<and>
        (\<forall>k. holds (pool_Release P c d) c k \<longleftrightarrow> holds d c k \<and> \<not> broken d c)) \<and>
     (\<forall>c k d. busy (pg_advisory_unlock P c k d) = busy d \<and> others_kept holds c d (pg_advisory_unlock P c k d) \<and>
        (\<forall>k'. holds (pg_advisory_unlock P c k d) c k' \<longrightarrow> holds d c k') \<and>
        (holds (pg_advisory_unlock P c k d) c k \<longrightarrow> broken (pg_advisory_unlock P c k d) c))"

text \<open>
  Replicas (and jobs within one) that share a database: \<open>on i = Some (rj, held)\<close> while \<open>i\<close> runs the body of \<open>rj\<close>. Between the start and the
  end of one tick any number of steps of others can happen. \<open>lost\<close> are the connections whose session has ended (the server was restarted, the network
  failed) since the lock was taken on them: the server gives up the locks of the session, the body goes on.
\<close>

type_synonym ('d, 'w) replicas = "'d \<times> (nat \<Rightarrow> ('w registeredJob \<times> nat option) option) \<times> nat set"

inductive replica_step ::
  "'d pool \<Rightarrow> ('d \<Rightarrow> nat \<Rightarrow> int \<Rightarrow> bool) \<Rightarrow> ('d \<Rightarrow> nat set) \<Rightarrow> ('d, 'w) replicas \<Rightarrow> ('d, 'w) replicas \<Rightarrow> bool"
  for P holds busy where
  enter: "on i = None \<Longrightarrow> begin_run P rj d = (d', Started held) \<Longrightarrow>
    replica_step P holds busy (d, on, lost) (d', on(i \<mapsto> (rj, held)), lost - set_option held)"
| refused: "on i = None \<Longrightarrow> begin_run P (rj :: 'w registeredJob) d = (d', r) \<Longrightarrow> (\<And>held. r \<noteq> Started held) \<Longrightarrow>
    replica_step P holds busy (d, on, lost) (d', on, lost)"
| leave: "on i = Some (rj, held) \<Longrightarrow> replica_step P holds busy (d, on, lost) (end_run P rj held d, on(i := None), lost)"
| lose: "busy d' = busy d \<Longrightarrow> others_kept holds c d d' \<Longrightarrow> (\<And>k. \<not> holds d' c k) \<Longrightarrow>
    replica_step P holds busy (d, on, lost) (d', on, insert c lost)"

definition conns :: "(nat \<Rightarrow> ('w registeredJob \<times> nat option) option) \<Rightarrow> nat set" where
  "conns on = {c. \<exists>i rj. on i = Some (rj, Some c)}"

text \<open>Locks are held exactly by the bodies that run with a live session, one session a lock, and a connection belongs to one of them.\<close>

definition replicas_ok :: "('d \<Rightarrow> nat \<Rightarrow> int \<Rightarrow> bool) \<Rightarrow> ('d \<Rightarrow> nat set) \<Rightarrow> ('d, 'w) replicas \<Rightarrow> bool" where
  "replicas_ok holds busy x \<longleftrightarrow> (case x of (d, on, lost) \<Rightarrow>
     (\<forall>i rj c. on i = Some (rj, Some c) \<longrightarrow> c \<notin> lost \<longrightarrow> holds d c (job_key rj)) \<and>
     (\<forall>i j rj rj' c. on i = Some (rj, Some c) \<longrightarrow> on j = Some (rj', Some c) \<longrightarrow> i = j) \<and>
     (\<forall>i rj held. on i = Some (rj, held) \<longrightarrow> rj_singleton rj \<longrightarrow> held \<noteq> None) \<and>
     (\<forall>c k. holds d c k \<longrightarrow> (\<exists>i rj. on i = Some (rj, Some c) \<and> job_key rj = k)) \<and>
     (\<forall>c c' k. holds d c k \<longrightarrow> holds d c' k \<longrightarrow> c = c') \<and>
     busy d = conns on)"

lemma pool_laws:
  assumes "pool_ok P holds busy broken"
  shows "pool_Acquire P d = (d', Inr c) \<Longrightarrow> holds d' = holds d \<and> c \<notin> busy d \<and> busy d' = insert c (busy d)"
    and "pool_Acquire P d = (d', Inl e) \<Longrightarrow> holds d' = holds d \<and> busy d' = busy d"
    and "busy (pool_Release P c d) = busy d - {c}" and "c' \<noteq> c \<Longrightarrow> holds (pool_Release P c d) c' k = holds d c' k"
    and "holds (pool_Release P c d) c k \<longleftrightarrow> holds d c k \<and> \<not> broken d c"
    and "busy (pg_advisory_unlock P c k d) = busy d" and "c' \<noteq> c \<Longrightarrow> holds (pg_advisory_unlock P c k d) c' k' = holds d c' k'"
    and "holds (pg_advisory_unlock P c k d) c k' \<Longrightarrow> holds d c k'"
    and "holds (pg_advisory_unlock P c k d) c k \<Longrightarrow> broken (pg_advisory_unlock P c k d) c"
proof -
  have A: "\<And>d d' r. pool_Acquire P d = (d', r) \<Longrightarrow> holds d' = holds d \<and>
      (case r of Inl _ \<Rightarrow> busy d' = busy d | Inr c \<Rightarrow> c \<notin> busy d \<and> busy d' = insert c (busy d))"
    using assms by (simp add: pool_ok_def)
  have R: "\<And>c d. busy (pool_Release P c d) = busy d - {c} \<and> others_kept holds c d (pool_Release P c d) \<and>
      (\<forall>k. holds (pool_Release P c d) c k \<longleftrightarrow> holds d c k \<and> \<not> broken d c)"
    using assms by (simp add: pool_ok_def)
  have U: "\<And>c k d. busy (pg_advisory_unlock P c k d) = busy d \<and> others_kept holds c d (pg_advisory_unlock P c k d) \<and>
      (\<forall>k'. holds (pg_advisory_unlock P c k d) c k' \<longrightarrow> holds d c k') \<and>
      (holds (pg_advisory_unlock P c k d) c k \<longrightarrow> broken (pg_advisory_unlock P c k d) c)"
    using assms by (simp add: pool_ok_def)
  show "pool_Acquire P d = (d', Inr c) \<Longrightarrow> holds d' = holds d \<and> c \<notin> busy d \<and> busy d' = insert c (busy d)" using A by fastforce
  show "pool_Acquire P d = (d', Inl e) \<Longrightarrow> holds d' = holds d \<and> busy d' = busy d" using A by fastforce
  show "busy (pool_Release P c d) = busy d - {c}" "c' \<noteq> c \<Longrightarrow> holds (pool_Release P c d) c' k = holds d c' k"
    "holds (pool_Release P c d) c k \<longleftrightarrow> holds d c k \<and> \<not> broken d c" using R [of c d] by (simp_all add: others_kept_def)
  show "busy (pg_advisory_unlock P c k d) = busy d" "c' \<noteq> c \<Longrightarrow> holds (pg_advisory_unlock P c k d) c' k' = holds d c' k'"
    "holds (pg_advisory_unlock P c k d) c k' \<Longrightarrow> holds d c k'"
    "holds (pg_advisory_unlock P c k d) c k \<Longrightarrow> broken (pg_advisory_unlock P c k d) c" using U [of c k d] by (simp_all add: others_kept_def)
qed

lemma try_laws:
  assumes "pool_ok P holds busy broken" and "pg_try_advisory_lock P c k d = (d', r)"
  shows "busy d' = busy d" and "c' \<noteq> c \<Longrightarrow> holds d' c' k' = holds d c' k'" and "holds d' c k' \<Longrightarrow> k' = k \<or> holds d c k'"
    and "r = Inr True \<Longrightarrow> holds d' c k \<and> (c' \<noteq> c \<longrightarrow> \<not> holds d c' k)"
    and "r = Inr False \<Longrightarrow> holds d' c k = holds d c k \<and> (\<exists>c'. holds d c' k)" and "r = Inl e \<Longrightarrow> holds d' c k \<Longrightarrow> broken d' c"
proof -
  have "try_ok P holds busy broken" using assms(1) by (simp add: pool_ok_def)
  from this [unfolded try_ok_def, THEN spec, THEN spec, THEN spec, THEN spec, THEN spec, THEN mp, OF assms(2)]
  have t: "busy d' = busy d \<and> others_kept holds c d d' \<and> (\<forall>k'. holds d' c k' \<longrightarrow> k' = k \<or> holds d c k') \<and>
      (r = Inr True \<longrightarrow> holds d' c k \<and> (\<forall>c'. c' \<noteq> c \<longrightarrow> \<not> holds d c' k)) \<and>
      (r = Inr False \<longrightarrow> holds d' c k = holds d c k \<and> (\<exists>c'. holds d c' k)) \<and> (\<forall>e. r = Inl e \<longrightarrow> holds d' c k \<longrightarrow> broken d' c)" .
  from t show "busy d' = busy d" by blast
  from t show "c' \<noteq> c \<Longrightarrow> holds d' c' k' = holds d c' k'" by (simp add: others_kept_def)
  from t show "holds d' c k' \<Longrightarrow> k' = k \<or> holds d c k'" by blast
  from t show "r = Inr True \<Longrightarrow> holds d' c k \<and> (c' \<noteq> c \<longrightarrow> \<not> holds d c' k)" by blast
  from t show "r = Inr False \<Longrightarrow> holds d' c k = holds d c k \<and> (\<exists>c'. holds d c' k)" by blast
  from t show "r = Inl e \<Longrightarrow> holds d' c k \<Longrightarrow> broken d' c" by blast
qed

text \<open>The three outcomes of an attempt, when connections that are not handed out hold no locks.\<close>

lemma try_granted:
  assumes ok: "pool_ok P holds busy broken" and "tryAdvisoryLock P key d = (d', Inr (Some c))" and idle: "\<And>c k. c \<notin> busy d \<Longrightarrow> \<not> holds d c k"
  shows "c \<notin> busy d \<and> busy d' = insert c (busy d) \<and> (\<forall>k. holds d' c k \<longleftrightarrow> k = key)
    \<and> (\<forall>c' k. c' \<noteq> c \<longrightarrow> holds d' c' k = holds d c' k \<and> \<not> holds d c' key)"
proof -
  obtain d1 where a: "pool_Acquire P d = (d1, Inr c)" and t: "pg_try_advisory_lock P c key d1 = (d', Inr True)"
    using assms(2) by (auto simp: tryAdvisoryLock_def split: prod.splits sum.splits bool.splits)
  note A = pool_laws(1) [OF ok a] and T = try_laws [OF ok t]
  show ?thesis using A T(1-3) T(4) [OF refl] idle [of c] by (metis (no_types))
qed

lemma try_refused:
  assumes ok: "pool_ok P holds busy broken" and t: "tryAdvisoryLock P key d = (d', r)" and r: "\<And>c. r \<noteq> Inr (Some c)"
    and idle: "\<And>c k. c \<notin> busy d \<Longrightarrow> \<not> holds d c k"
  shows "busy d' = busy d \<and> holds d' = holds d \<and> (r = Inr None \<longrightarrow> (\<exists>c. holds d c key))"
proof (cases "pool_Acquire P d")
  case (Pair d1 a)
  show ?thesis
  proof (cases a)
    case (Inl e)
    then show ?thesis using Pair t pool_laws(2) [OF ok] by (auto simp: tryAdvisoryLock_def)
  next
    case (Inr c)
    obtain d2 x where x: "pg_try_advisory_lock P c key d1 = (d2, x)" by fastforce
    have d': "d' = pool_Release P c d2" and x': "x = Inr False \<or> (\<exists>e. x = Inl e)" and rx: "r = Inr None \<Longrightarrow> x = Inr False"
      using t r Pair Inr x by (auto simp: tryAdvisoryLock_def split: sum.splits bool.splits)
    note A = pool_laws(1) [OF ok Pair [unfolded Inr]] and T = try_laws [OF ok x]
    have "\<not> holds d' c k" for k
      using T(3) [of k] T(5) T(6) x' idle [of c k] A pool_laws(5) [OF ok, of c d2 k] d' by auto
    moreover have "holds d' c' k = holds d c' k" if "c' \<noteq> c" for c' k
      using that T(2) [OF that] pool_laws(4) [OF ok that] A d' by simp
    ultimately have "holds d' c' k = holds d c' k" for c' k using idle [of c k] A by (cases "c' = c") auto
    then have "holds d' = holds d" by (intro ext)
    moreover have "busy d' = busy d" using A T(1) pool_laws(3) [OF ok, of c d2] d' by auto
    moreover have "r = Inr None \<Longrightarrow> \<exists>c. holds d c key" using T(5) [OF rx] A by simp
    ultimately show ?thesis by blast
  qed
qed

lemma unlocked:
  assumes ok: "pool_ok P holds busy broken" and only: "\<And>k. holds d c k \<Longrightarrow> k = key"
  shows "busy (unlock P key c d) = busy d - {c}" and "\<not> holds (unlock P key c d) c k" and "c' \<noteq> c \<Longrightarrow> holds (unlock P key c d) c' k = holds d c' k"
proof -
  show "busy (unlock P key c d) = busy d - {c}" by (simp add: unlock_def pool_laws(3,6) [OF ok])
  show "\<not> holds (unlock P key c d) c k"
    using only [of k] pool_laws(8) [OF ok, of c key d k] pool_laws(9) [OF ok, of c key d] by (auto simp: unlock_def pool_laws(5) [OF ok])
  show "c' \<noteq> c \<Longrightarrow> holds (unlock P key c d) c' k = holds d c' k" by (simp add: unlock_def pool_laws(4,7) [OF ok])
qed

lemma replicas_okD:
  assumes "replicas_ok holds busy (d, on, lost)"
  shows "on i = Some (rj, Some c) \<Longrightarrow> c \<notin> lost \<Longrightarrow> holds d c (job_key rj)"
    and "on i = Some (rj, Some c) \<Longrightarrow> on j = Some (rj', Some c) \<Longrightarrow> i = j"
    and "on i = Some (rj, held) \<Longrightarrow> rj_singleton rj \<Longrightarrow> held \<noteq> None"
    and "holds d c k \<Longrightarrow> \<exists>i rj. on i = Some (rj, Some c) \<and> job_key rj = k"
    and "holds d c k \<Longrightarrow> holds d c' k \<Longrightarrow> c = c'" and "busy d = conns on" and "c \<notin> busy d \<Longrightarrow> \<not> holds d c k"
proof -
  note I = assms [unfolded replicas_ok_def prod.case]
  from I show "on i = Some (rj, Some c) \<Longrightarrow> c \<notin> lost \<Longrightarrow> holds d c (job_key rj)" by (elim conjE) metis
  from I show "on i = Some (rj, Some c) \<Longrightarrow> on j = Some (rj', Some c) \<Longrightarrow> i = j" by (elim conjE) metis
  from I show "on i = Some (rj, held) \<Longrightarrow> rj_singleton rj \<Longrightarrow> held \<noteq> None" by (elim conjE) metis
  from I show h: "holds d c k \<Longrightarrow> \<exists>i rj. on i = Some (rj, Some c) \<and> job_key rj = k" for c k by (elim conjE) metis
  from I show "holds d c k \<Longrightarrow> holds d c' k \<Longrightarrow> c = c'" by (elim conjE) metis
  from I show b: "busy d = conns on" by (elim conjE)
  show "c \<notin> busy d \<Longrightarrow> \<not> holds d c k" using h [of c k] b unfolding conns_def by blast
qed

lemma replicas_okI:
  assumes "\<And>i rj c. on i = Some (rj, Some c) \<Longrightarrow> c \<notin> lost \<Longrightarrow> holds d c (job_key rj)"
    and "\<And>i j rj rj' c. on i = Some (rj, Some c) \<Longrightarrow> on j = Some (rj', Some c) \<Longrightarrow> i = j"
    and "\<And>i rj held. on i = Some (rj, held) \<Longrightarrow> rj_singleton rj \<Longrightarrow> held \<noteq> None"
    and "\<And>c k. holds d c k \<Longrightarrow> \<exists>i rj. on i = Some (rj, Some c) \<and> job_key rj = k"
    and "\<And>c c' k. holds d c k \<Longrightarrow> holds d c' k \<Longrightarrow> c = c'" and "busy d = conns on"
  shows "replicas_ok holds busy (d, on, lost)"
  unfolding replicas_ok_def prod.case using assms by (intro conjI allI impI)

lemma conns_upd: "conns (on(i := v)) = {c. \<exists>rj. v = Some (rj, Some c)} \<union> {c. \<exists>j rj. j \<noteq> i \<and> on j = Some (rj, Some c)}"
  unfolding conns_def by (auto split: if_splits)

lemma conns_rest:
  assumes "\<And>rj c. on i \<noteq> Some (rj, Some c)"
  shows "{c. \<exists>j rj. j \<noteq> i \<and> on j = Some (rj, Some c)} = conns on"
  unfolding conns_def using assms by (auto, metis)

lemma enter_plain_ok:
  assumes I: "replicas_ok holds busy (d, on, lost)" and "on i = None" and "\<not> rj_singleton rj"
  shows "replicas_ok holds busy (d, on(i \<mapsto> (rj, None)), lost)"
proof -
  note D = replicas_okD [OF I]
  have "conns (on(i \<mapsto> (rj, None))) = conns on" using assms(2) conns_rest [of on i] by (simp add: conns_upd)
  moreover have "\<exists>j rj'. (on(i \<mapsto> (rj, None))) j = Some (rj', Some c) \<and> job_key rj' = k" if h: "holds d c k" for c k
  proof -
    obtain j rj' where "on j = Some (rj', Some c)" "job_key rj' = k" using D(4) [OF h] by blast
    then show ?thesis using assms(2) by (intro exI [of _ j] exI [of _ rj']) auto
  qed
  ultimately show ?thesis using D(1-3,5,6) assms(3) by (intro replicas_okI) (auto split: if_splits, blast?)
qed

lemma enter_singleton_ok:
  assumes ok: "pool_ok P holds busy broken" and I: "replicas_ok holds busy (d, on, lost)" and i: "on i = None"
    and t: "tryAdvisoryLock P (job_key rj) d = (d', Inr (Some c))"
  shows "replicas_ok holds busy (d', on(i \<mapsto> (rj, Some c)), lost - {c})"
proof -
  note D = replicas_okD [OF I]
  from try_granted [OF ok t D(7)] have new: "c \<notin> busy d" "busy d' = insert c (busy d)" and own: "\<And>k. holds d' c k \<longleftrightarrow> k = job_key rj"
    and oth: "\<And>c' k. c' \<noteq> c \<Longrightarrow> holds d' c' k = holds d c' k" and free: "\<And>c'. c' \<noteq> c \<Longrightarrow> \<not> holds d c' (job_key rj)" by auto
  have un: "on j \<noteq> Some (rj', Some c)" for j rj' using new(1) D(6) by (auto simp: conns_def)
  have "conns (on(i \<mapsto> (rj, Some c))) = insert c (conns on)" using i conns_rest [of on i] by (auto simp: conns_upd)
  then have b: "busy d' = conns (on(i \<mapsto> (rj, Some c)))" using new D(6) by simp
  have h4: "\<exists>j rj'. (on(i \<mapsto> (rj, Some c))) j = Some (rj', Some c') \<and> job_key rj' = k" if h: "holds d' c' k" for c' k
  proof (cases "c' = c")
    case True
    then show ?thesis using h own by (intro exI [of _ i] exI [of _ rj]) simp
  next
    case False
    then obtain j rj' where "on j = Some (rj', Some c')" "job_key rj' = k" using D(4) [of c' k] h oth by blast
    then show ?thesis using i by (intro exI [of _ j] exI [of _ rj']) auto
  qed
  have h5: "c1 = c2" if "holds d' c1 k" "holds d' c2 k" for c1 c2 k
    using that own [of k] oth [of c1 k] oth [of c2 k] free [of c1] free [of c2] D(5) [of c1 k c2] by (cases "c1 = c"; cases "c2 = c") auto
  show ?thesis
  proof (rule replicas_okI)
    fix j rj' c' assume a: "(on(i \<mapsto> (rj, Some c))) j = Some (rj', Some c')" "c' \<notin> lost - {c}"
    show "holds d' c' (job_key rj')"
    proof (cases "j = i")
      case True
      then show ?thesis using a own by simp
    next
      case False
      then have "on j = Some (rj', Some c')" "c' \<noteq> c" using a un by auto
      then show ?thesis using D(1) [of j rj' c'] a oth by simp
    qed
  next
    fix j j' rj1 rj2 c' assume "(on(i \<mapsto> (rj, Some c))) j = Some (rj1, Some c')" "(on(i \<mapsto> (rj, Some c))) j' = Some (rj2, Some c')"
    then show "j = j'" using un D(2) [of j rj1 c' j' rj2] by (auto split: if_splits)
  next
    fix j rj' held assume "(on(i \<mapsto> (rj, Some c))) j = Some (rj', held)" "rj_singleton rj'"
    then show "held \<noteq> None" using D(3) [of j rj' held] by (auto split: if_splits)
  qed (erule h4, erule (1) h5, rule b)
qed

lemma leave_ok:
  assumes ok: "pool_ok P holds busy broken" and I: "replicas_ok holds busy (d, on, lost)" and i: "on i = Some (rj, held)"
  shows "replicas_ok holds busy (end_run P rj held d, on(i := None), lost)"
proof (cases held)
  case None
  note D = replicas_okD [OF I]
  have "conns (on(i := None)) = conns on" using i None conns_rest [of on i] by (simp add: conns_upd)
  moreover have "\<exists>j rj'. (on(i := None)) j = Some (rj', Some c) \<and> job_key rj' = k" if h: "holds d c k" for c k
  proof -
    obtain j rj' where "on j = Some (rj', Some c)" "job_key rj' = k" using D(4) [OF h] by blast
    then show ?thesis using i None by (intro exI [of _ j] exI [of _ rj']) auto
  qed
  ultimately show ?thesis using D(1-3,5,6) None by (intro replicas_okI) (auto simp: end_run_def split: if_splits)
next
  case (Some c)
  note D = replicas_okD [OF I]
  have only: "k = job_key rj" if "holds d c k" for k using D(4) [OF that] D(2) i Some by (metis option.inject prod.inject)
  note U = unlocked [OF ok only]
  have oc: "c' \<noteq> c" if "(on(i := None)) j = Some (rj', Some c')" for j rj' c'
    using that D(2) [of i rj c j rj'] i Some by (auto split: if_splits)
  have "conns (on(i := None)) = conns on - {c}"
    using oc i Some D(2) unfolding conns_def by (auto split: if_splits) (metis option.inject prod.inject)
  then have b: "busy (unlock P (job_key rj) c d) = conns (on(i := None))" using U(1) D(6) by simp
  have h4: "\<exists>j rj'. (on(i := None)) j = Some (rj', Some c') \<and> job_key rj' = k" if h: "holds (unlock P (job_key rj) c d) c' k" for c' k
  proof -
    have "c' \<noteq> c" using h U(2) by auto
    moreover then obtain j rj' where "on j = Some (rj', Some c')" "job_key rj' = k" using D(4) [of c' k] h U(3) by blast
    ultimately show ?thesis using i Some by (intro exI [of _ j] exI [of _ rj']) auto
  qed
  have h5: "c1 = c2" if "holds (unlock P (job_key rj) c d) c1 k" "holds (unlock P (job_key rj) c d) c2 k" for c1 c2 k
    using that U(2) U(3) [where c' = c1] U(3) [where c' = c2] D(5) [of c1 k c2] by (cases "c1 = c"; cases "c2 = c") auto
  have "replicas_ok holds busy (unlock P (job_key rj) c d, on(i := None), lost)"
  proof (rule replicas_okI)
    fix j rj' c' assume a: "(on(i := None)) j = Some (rj', Some c')" "c' \<notin> lost"
    then show "holds (unlock P (job_key rj) c d) c' (job_key rj')" using oc [OF a(1)] U(3) D(1) [of j rj' c'] by (auto split: if_splits)
  next
    fix j j' rj1 rj2 c' assume "(on(i := None)) j = Some (rj1, Some c')" "(on(i := None)) j' = Some (rj2, Some c')"
    then show "j = j'" using D(2) [of j rj1 c' j' rj2] by (auto split: if_splits)
  next
    fix j rj' held' assume "(on(i := None)) j = Some (rj', held')" "rj_singleton rj'"
    then show "held' \<noteq> None" using D(3) [of j rj' held'] by (auto split: if_splits)
  qed (erule h4, erule (1) h5, rule b)
  then show ?thesis using Some by (simp add: end_run_def)
qed

lemma lose_ok:
  assumes I: "replicas_ok holds busy (d, on, lost)" and "busy d' = busy d" and o: "others_kept holds c d d'" and l: "\<And>k. \<not> holds d' c k"
  shows "replicas_ok holds busy (d', on, insert c lost)"
proof -
  note D = replicas_okD [OF I]
  have h: "holds d' c' k \<longleftrightarrow> c' \<noteq> c \<and> holds d c' k" for c' k using o l by (cases "c' = c") (auto simp: others_kept_def)
  show ?thesis
    by (rule replicas_okI) (use D(1-6) assms(2) in \<open>auto simp: h\<close>)
qed

lemma replica_step_ok:
  assumes ok: "pool_ok P holds busy broken" and "replica_step P holds busy x y" and "replicas_ok holds busy x"
  shows "replicas_ok holds busy y"
  using assms(2,3)
proof (induction rule: replica_step.induct)
  case (enter on i rj d d' held lost)
  show ?case
  proof (cases "rj_singleton rj")
    case True
    then obtain c where "held = Some c" "tryAdvisoryLock P (job_key rj) d = (d', Inr (Some c))"
      using enter(2) by (auto simp: begin_run_def split: prod.splits sum.splits option.splits)
    then show ?thesis using enter_singleton_ok [OF ok enter(3,1)] by simp
  next
    case False
    then show ?thesis using enter enter_plain_ok [OF enter(3,1)] by simp
  qed
next
  case (refused on i rj d d' r lost)
  note D = replicas_okD [OF refused(4)]
  obtain x where t: "tryAdvisoryLock P (job_key rj) d = (d', x)" and "\<And>c. x \<noteq> Inr (Some c)"
    using refused(2,3) by (cases "rj_singleton rj") (auto simp: begin_run_def split: prod.splits sum.splits option.splits)
  from try_refused [OF ok this D(7)] have "busy d' = busy d" "holds d' = holds d" by auto
  then show ?case using refused(4) by (simp add: replicas_ok_def)
next
  case (leave on i rj held d lost)
  then show ?case by (intro leave_ok [OF ok])
next
  case (lose d' d c on lost)
  then show ?case by (intro lose_ok)
qed

text \<open>A tick takes these steps and no others: it fails, is skipped, or enters, runs and leaves.\<close>

lemma tick_takes_replica_steps:
  assumes "on i = None"
  shows "\<exists>lost'. (replica_step P holds busy)\<^sup>*\<^sup>* (p_pool (p :: ('d, 'w) process), on :: nat \<Rightarrow> ('w registeredJob \<times> nat option) option, lost) (p_pool (sched_runOnce P rj p), on, lost')"
proof -
  obtain d1 r where b: "begin_run P rj (p_pool p) = (d1, r)" by fastforce
  show ?thesis
  proof (cases "\<exists>held. r = Started held")
    case True
    then obtain held where r: "r = Started held" by blast
    let ?on = "on(i \<mapsto> (rj, held))" and ?lost = "lost - set_option held"
    have "replica_step P holds busy (p_pool p, on, lost) (d1, ?on, ?lost)" using enter assms b r by metis
    moreover have "replica_step P holds busy (d1, ?on, ?lost) (end_run P rj held d1, ?on(i := None), ?lost)" by (rule leave) simp
    ultimately have "(replica_step P holds busy)\<^sup>*\<^sup>* (p_pool p, on, lost) (end_run P rj held d1, ?on(i := None), ?lost)"
      by (meson converse_rtranclp_into_rtranclp r_into_rtranclp)
    then show ?thesis using assms b r by (auto simp: sched_runOnce_def run_counted_counts Let_def fun_upd_idem)
  next
    case False
    then have "replica_step P holds busy (p_pool p, on, lost) (d1, on, lost)" using refused assms b by metis
    then show ?thesis using b False by (cases r) (auto simp: sched_runOnce_def)
  qed
qed

text \<open>
  C37: Singleton jobs run alone. Whatever the interleaving of the ticks of all replicas and jobs that share a database, with failing attempts, failing
  unlocks and sessions lost at any moment: of the bodies that run under one lock key at most one has a live session, that is, as long as no
  session is lost a singleton job runs on one replica at a time. The connections in use are exactly those of the running bodies, and no lock is
  left behind: every lock held belongs to a running body, so a tick is skipped only while another body runs under the same key. A call
  of \<^verbatim>\<open>runOnce\<close> moves the database only by these steps, and does not run the job unless it has started.
\<close>

theorem singleton_runs_alone:
  assumes "pool_ok P holds busy broken" and "busy d0 = {}" and "\<And>c k. \<not> holds d0 c k"
    and "(replica_step P holds busy)\<^sup>*\<^sup>* (d0 :: 'd, (\<lambda>_. None) :: nat \<Rightarrow> ('w registeredJob \<times> nat option) option, {}) (d, on, lost)"
  shows "(\<forall>i j rj rj' held held'. on i = Some (rj, held) \<and> on j = Some (rj', held') \<and> rj_singleton rj \<and> rj_singleton rj' \<and>
        job_key rj = job_key rj' \<and> set_option held \<inter> lost = {} \<and> set_option held' \<inter> lost = {} \<longrightarrow> i = j)
    \<and> busy d = conns on
    \<and> (\<forall>c k. holds d c k \<longrightarrow> (\<exists>i rj. on i = Some (rj, Some c) \<and> job_key rj = k))
    \<and> (\<forall>rj d'. begin_run P rj d = (d', TickSkipped) \<longrightarrow> (\<exists>i rj' c. on i = Some (rj', Some c) \<and> job_key rj' = job_key rj))
    \<and> (\<forall>i rj (p :: ('d, 'w) process). on i = None \<longrightarrow> p_pool p = d \<longrightarrow>
        (\<exists>lost'. (replica_step P holds busy)\<^sup>*\<^sup>* (d, on, lost) (p_pool (sched_runOnce P rj p), on, lost')) \<and>
        ((\<nexists>held. snd (begin_run P rj d) = Started held) \<longrightarrow> p_world (sched_runOnce P rj p) = p_world p))"
proof -
  have "replicas_ok holds busy (d0, \<lambda>_. None :: ('w registeredJob \<times> nat option) option, {})" using assms(2,3) by (simp add: replicas_ok_def conns_def)
  with assms(4) have "replicas_ok holds busy (d, on, lost)"
    by (induction rule: rtranclp_induct) (auto intro: replica_step_ok [OF assms(1)])
  note D = replicas_okD [OF this]
  have "i = j" if h: "on i = Some (rj, held)" "on j = Some (rj', held')" "rj_singleton rj" "rj_singleton rj'" "job_key rj = job_key rj'"
    "set_option held \<inter> lost = {}" "set_option held' \<inter> lost = {}" for i j rj rj' held held'
  proof -
    obtain c c' where c: "held = Some c" "held' = Some c'" using D(3) [OF h(1,3)] D(3) [OF h(2,4)] by auto
    then have "holds d c (job_key rj)" "holds d c' (job_key rj)" using D(1) that by (metis disjoint_iff option.set_intros)+
    then show ?thesis using D(2,5) that c by metis
  qed
  moreover have "\<exists>i rj' c. on i = Some (rj', Some c) \<and> job_key rj' = job_key rj" if "begin_run P rj d = (d', TickSkipped)" for rj d'
  proof -
    have "tryAdvisoryLock P (job_key rj) d = (d', Inr None)"
      using that by (auto simp: begin_run_def split: if_splits prod.splits sum.splits option.splits)
    from try_refused [OF assms(1) this _ D(7)] obtain c where "holds d c (job_key rj)" by auto
    then show ?thesis using D(4) by blast
  qed
  moreover have "\<exists>lost'. (replica_step P holds busy)\<^sup>*\<^sup>* (d, on, lost) (p_pool (sched_runOnce P rj p), on, lost')" if "on i = None" "p_pool p = d" for i and rj :: "'w registeredJob" and p :: "('d, 'w) process"
    using tick_takes_replica_steps [of on i P holds busy p lost rj] that by simp
  moreover have "p_world (sched_runOnce P rj p) = p_world p" if "\<nexists>held. snd (begin_run P rj d) = Started held" "p_pool p = d" for rj :: "'w registeredJob" and p :: "('d, 'w) process"
    using that by (cases "begin_run P rj d"; cases "snd (begin_run P rj d)") (auto simp: sched_runOnce_def)
  ultimately show ?thesis using D(4,6) by blast
qed

text \<open>A pool that satisfies the laws: the connections handed out and the pairs of session and lock.\<close>

definition demo_pool :: "(nat list \<times> (nat \<times> int) list) pool" where
  "demo_pool = \<lparr>pool_Acquire = (\<lambda>(b, l). ((Suc (sum_list b) # b, l), Inr (Suc (sum_list b)))),
     pool_Release = (\<lambda>c (b, l). (filter (\<lambda>x. x \<noteq> c) b, l)),
     pg_try_advisory_lock = (\<lambda>c k (b, l). if list_ex (\<lambda>(c', k'). c' \<noteq> c \<and> k' = k) l then ((b, l), Inr False)
        else ((b, (c, k) # l), Inr True)),
     pg_advisory_unlock = (\<lambda>c k (b, l). (b, filter (\<lambda>x. x \<noteq> (c, k)) l))\<rparr>"

definition demo_holds :: "nat list \<times> (nat \<times> int) list \<Rightarrow> nat \<Rightarrow> int \<Rightarrow> bool" where
  "demo_holds d c k \<longleftrightarrow> (c, k) \<in> set (snd d)"

lemma fresh_conn: "Suc (sum_list b) \<notin> set b" for b :: "nat list"
  using member_le_sum_list [of "Suc (sum_list b)" b] by auto

lemma demo_try_ok: "try_ok demo_pool demo_holds (set \<circ> fst) (\<lambda>d c. False)"
  by (auto simp: try_ok_def demo_pool_def demo_holds_def others_kept_def list_ex_iff split: if_splits)

lemma demo_pool_ok: "pool_ok demo_pool demo_holds (set \<circ> fst) (\<lambda>d c. False)"
  unfolding pool_ok_def
proof (intro conjI demo_try_ok allI)
  fix d d' r
  show "pool_Acquire demo_pool d = (d', r) \<longrightarrow> demo_holds d' = demo_holds d \<and> (case r of
      Inl _ \<Rightarrow> (set \<circ> fst) d' = (set \<circ> fst) d
    | Inr c \<Rightarrow> c \<notin> (set \<circ> fst) d \<and> (set \<circ> fst) d' = insert c ((set \<circ> fst) d))"
    by (cases d) (auto simp: demo_pool_def demo_holds_def fresh_conn intro!: ext)
qed (auto simp: demo_pool_def demo_holds_def others_kept_def split: prod.splits)

definition nightly :: "nat registeredJob" where
  "nightly = \<lparr>rj_job = \<lparr>job_Name = ''nightly'', job_Every = 5, job_Jitter = 0, job_Timeout = 0, job_Run = (\<lambda>_ w. (w, Returned None))\<rparr>,
     rj_singleton = True, rj_kick = False\<rparr>"

lemma nightly_enters:
  "begin_run demo_pool nightly ([], []) = (([1], [(1, job_key nightly)]), Started (Some 1))"
  "begin_run demo_pool nightly ([1], [(1, job_key nightly)]) = (([1], [(1, job_key nightly)]), TickSkipped)"
  "begin_run demo_pool nightly ([1], []) = (([2, 1], [(2, job_key nightly)]), Started (Some 2))"
  by (simp_all add: begin_run_def tryAdvisoryLock_def demo_pool_def nightly_def job_key_def numeral_2_eq_2)

theorem singleton_runs_alone_witness:
  "\<exists>d on. (replica_step demo_pool demo_holds (set \<circ> fst))\<^sup>*\<^sup>* (([], []), \<lambda>_. None, {}) (d, on, {}) \<and> on 7 = Some (nightly, Some 1)
     \<and> begin_run demo_pool nightly d = (d, TickSkipped) \<and> (\<forall>j held. on j = Some (nightly, held) \<longrightarrow> 7 = j)"
proof -
  let ?d = "([1], [(1, job_key nightly)])" and ?on = "(\<lambda>_ :: nat. None)(7 := Some (nightly, Some (1 :: nat)))"
  have "replica_step demo_pool demo_holds (set \<circ> fst) (([], []), \<lambda>_. None, {}) (?d, ?on, {} - set_option (Some 1))"
    by (rule enter) (simp_all add: nightly_enters)
  then have r: "(replica_step demo_pool demo_holds (set \<circ> fst))\<^sup>*\<^sup>* (([], []), \<lambda>_. None, {}) (?d, ?on, {})" by auto
  have start: "(set \<circ> fst) ([] :: nat list, [] :: (nat \<times> int) list) = {}" "\<And>c k. \<not> demo_holds ([], []) c k" by (simp_all add: demo_holds_def)
  note alone = singleton_runs_alone [OF demo_pool_ok start r, THEN conjunct1]
  have "7 = j" if "?on j = Some (nightly, held)" for j held
    by (rule alone [rule_format, of _ nightly "Some 1" _ nightly held], intro conjI)
      (rule that | simp add: nightly_def)+
  then show ?thesis by (intro exI [of _ ?d] exI [of _ ?on] conjI r nightly_enters(2) allI impI) (simp only: fun_upd_same)
qed

text \<open>A session that is lost while its body runs is not noticed: the lock is free, and a second replica runs the job beside the first.\<close>

lemma lost_session_overlaps:
  "\<exists>d on. (replica_step demo_pool demo_holds (set \<circ> fst))\<^sup>*\<^sup>* (([], []), \<lambda>_. None, {}) (d, on, {1}) \<and>
     on 7 = Some (nightly, Some 1) \<and> on 8 = Some (nightly, Some 2)"
proof -
  let ?on = "(\<lambda>_ :: nat. None)(7 := Some (nightly, Some (1 :: nat)))"
  let ?step = "replica_step demo_pool demo_holds (set \<circ> fst)"
  have 1: "?step (([], []), \<lambda>_. None, {}) (([1], [(1, job_key nightly)]), ?on, {} - set_option (Some 1))"
    by (rule enter) (simp_all add: nightly_enters)
  have 2: "?step (([1], [(1, job_key nightly)]), ?on, {}) (([1], []), ?on, insert 1 {})"
    by (rule lose) (auto simp: others_kept_def demo_holds_def)
  have 3: "?step (([1], []), ?on, {1}) (([2, 1], [(2, job_key nightly)]), ?on(8 \<mapsto> (nightly, Some 2)), {1} - set_option (Some 2))"
    by (rule enter) (simp, rule nightly_enters(3))
  have "?step\<^sup>*\<^sup>* (([], []), \<lambda>_. None, {}) (([2, 1], [(2, job_key nightly)]), ?on(8 \<mapsto> (nightly, Some 2)), {1})"
    using 1 2 3 by (simp add: rtranclp.rtrancl_into_rtrancl)
  then show ?thesis by (intro exI [of _ "([2, 1], [(2, job_key nightly)])"] exI [of _ "?on(8 \<mapsto> (nightly, Some 2))"]) simp
qed

end
