(* ===== verification/Identity.thy ===== *)
theory Identity
  imports DxErrors
begin

text \<open>
  The resolved identity of a request (\<^verbatim>\<open>auth/user.go\<close>, \<^verbatim>\<open>auth/context.go\<close>,
  \<^verbatim>\<open>auth/resolver/origin.go\<close>), HTTP headers, and the shape every middleware of the library has: a
  function from the next handler to a handler.

  A handler takes the request and the response written so far and runs on a world \<open>'s\<close> (whatever
  the application keeps); so a statement about a middleware for every next handler says exactly when,
  and with which request, the protected handler runs.
\<close>

subsection \<open>Users\<close>

record DelegationScopeEntry =
  ds_Scope :: string
  ds_EntityID :: string
  ds_Expiry :: string

record DxUser =
  u_ID :: string
  u_Email :: string
  u_Name :: string
  u_Roles :: "string list"
  u_OrganisationID :: string
  u_OrganisationName :: string
  u_DelegatorID :: string
  u_Scopes :: "DelegationScopeEntry list"

definition zero_user :: DxUser where
  "zero_user = \<lparr>u_ID = [], u_Email = [], u_Name = [], u_Roles = [], u_OrganisationID = [],
     u_OrganisationName = [], u_DelegatorID = [], u_Scopes = []\<rparr>"

subsection \<open>Contexts\<close>

text \<open>The values the library stores in a context, by key: a context without a value for a key holds
  \<open>None\<close> there, and \<^verbatim>\<open>context.WithValue\<close> shadows an earlier value of the same key.\<close>

datatype Origin = OriginGateway | OriginDirect

record gocontext =
  ctx_user :: "DxUser option"
  ctx_origin :: "Origin option"
  ctx_values :: "string \<rightharpoonup> string"

definition background :: gocontext where
  "background = \<lparr>ctx_user = None, ctx_origin = None, ctx_values = Map.empty\<rparr>"

definition WithUser :: "gocontext \<Rightarrow> DxUser \<Rightarrow> gocontext" where
  "WithUser c u = c\<lparr>ctx_user := Some u\<rparr>"

definition UserFromCtx :: "gocontext \<Rightarrow> DxUser option" where
  "UserFromCtx c = ctx_user c"

definition WithOrigin :: "gocontext \<Rightarrow> Origin \<Rightarrow> gocontext" where
  "WithOrigin c org = c\<lparr>ctx_origin := Some org\<rparr>"

definition OriginFromCtx :: "gocontext \<Rightarrow> Origin option" where
  "OriginFromCtx c = ctx_origin c"

lemmas ctx_defs = WithUser_def UserFromCtx_def WithOrigin_def OriginFromCtx_def

subsection \<open>Headers and handlers\<close>

text \<open>\<^verbatim>\<open>http.Header\<close>: a Go map from canonical names to values. The names the library passes to
  \<^verbatim>\<open>Get\<close> and \<^verbatim>\<open>Set\<close> are in canonical form already.\<close>

type_synonym Header = "(string \<times> string list) list"

definition hdr_Get :: "Header \<Rightarrow> string \<Rightarrow> string" where
  "hdr_Get h k = (case map_of h k of Some (v # _) \<Rightarrow> v | _ \<Rightarrow> [])"

definition hdr_Set :: "string \<Rightarrow> string \<Rightarrow> Header \<Rightarrow> Header" where
  "hdr_Set k v h = map_put k [v] h"

definition hdr_Values :: "Header \<Rightarrow> string \<Rightarrow> string list" where
  "hdr_Values h k = (case map_of h k of Some vs \<Rightarrow> vs | None \<Rightarrow> [])"

lemma hdr_Get_Set [simp]: "hdr_Get (hdr_Set k v h) k' = (if k' = k then v else hdr_Get h k')"
  by (simp add: hdr_Get_def hdr_Set_def)

lemma hdr_Get_Nil [simp]: "hdr_Get [] k = []"
  by (simp add: hdr_Get_def)

lemma gomap_hdr_Set [simp]: "gomap h \<Longrightarrow> gomap (hdr_Set k v h)"
  by (simp add: hdr_Set_def)

record request =
  r_Method :: string
  r_Header :: Header
  r_ctx :: gocontext
  r_params :: "string \<rightharpoonup> string"

definition WithContext :: "request \<Rightarrow> gocontext \<Rightarrow> request" where
  "WithContext r c = r\<lparr>r_ctx := c\<rparr>"

type_synonym 's http_handler =
  "request \<Rightarrow> DxErrorResponse writer \<Rightarrow> 's \<Rightarrow> DxErrorResponse writer \<times> 's"

text \<open>Answering with an error and returning.\<close>

definition reject :: "goerr \<Rightarrow> DxErrorResponse writer \<Rightarrow> 's \<Rightarrow> DxErrorResponse writer \<times> 's" where
  "reject e w s = (WriteError w e, s)"

end
