(* ===== verification/SubjectHeaders.thy ===== *)
theory SubjectHeaders
  imports Identity Encoding
begin

text \<open>
  Package \<^verbatim>\<open>transport/headers\<close>: the gateway signs the identity of a user into a few headers, a service
  behind it verifies them.

  The MAC (\<^verbatim>\<open>HMAC-SHA256\<close>) is a function \<open>mac key data\<close> and a parameter: the properties hold for
  every such function, and where authenticity is concerned its unforgeability is a hypothesis about
  the signatures an adversary can present. A clock reading is a number of nanoseconds since the epoch.
\<close>

subsection \<open>Constants and configuration\<close>

definition HdrSubjectID :: string where "HdrSubjectID = ''X-Subject-Id''"
definition HdrSubjectEmail :: string where "HdrSubjectEmail = ''X-Subject-Email''"
definition HdrSubjectRoles :: string where "HdrSubjectRoles = ''X-Subject-Roles''"
definition HdrSubjectOrgID :: string where "HdrSubjectOrgID = ''X-Subject-Org-Id''"
definition HdrSubjectIssuedAt :: string where "HdrSubjectIssuedAt = ''X-Subject-Issued-At''"
definition HdrSubjectSig :: string where "HdrSubjectSig = ''X-Subject-Sig''"

lemmas hdr_names = HdrSubjectID_def HdrSubjectEmail_def HdrSubjectRoles_def HdrSubjectOrgID_def
  HdrSubjectIssuedAt_def HdrSubjectSig_def

definition Second :: int where "Second = 1000000000"

definition DefaultMaxAge :: int where "DefaultMaxAge = 60 * Second"

record HdrConfig =
  hc_Secret :: string
  hc_AdditionalSecrets :: "string list"
  hc_MaxAge :: int

definition ErrNotSigned :: goerr where
  "ErrNotSigned = Opaque ''request has no subject signature''"

definition ErrInvalidSignature :: goerr where
  "ErrInvalidSignature = Opaque ''invalid subject signature''"

subsection \<open>Internals\<close>

definition canonicalString :: "string \<Rightarrow> string \<Rightarrow> string \<Rightarrow> string \<Rightarrow> int \<Rightarrow> string" where
  "canonicalString sid email roles org issuedAt =
     strings_Join [sid, email, roles, org, itoa issuedAt] ''|''"

definition joinRoles :: "string list \<Rightarrow> string" where
  "joinRoles roles = (if roles = [] then [] else strings_Join (sort roles) '','')"

definition splitRoles :: "string \<Rightarrow> string list" where
  "splitRoles joined = (if joined = [] then [] else split_on (CHR '','') joined)"

definition hmacHex :: "(string \<Rightarrow> string \<Rightarrow> string) \<Rightarrow> string \<Rightarrow> string \<Rightarrow> string" where
  "hmacHex mac key data = hex_EncodeToString (mac key data)"

definition verifyAgainst :: "(string \<Rightarrow> string \<Rightarrow> string) \<Rightarrow> string \<Rightarrow> string \<Rightarrow> string \<Rightarrow> bool" where
  "verifyAgainst mac key canonical expected =
     (if key = [] then False
      else case hex_DecodeString expected of
             None \<Rightarrow> False
           | Some got \<Rightarrow> mac key canonical = got)"

fun containsSeparator :: "string list \<Rightarrow> bool" where
  "containsSeparator [] = False"
| "containsSeparator (f # fs) = (if CHR ''|'' \<in> set f then True else containsSeparator fs)"

fun rolesContainSeparator :: "string list \<Rightarrow> bool" where
  "rolesContainSeparator [] = False"
| "rolesContainSeparator (r # rs) =
     (if \<exists>c \<in> set r. c = CHR ''|'' \<or> c = CHR '','' then True else rolesContainSeparator rs)"

definition makeUser :: "string \<Rightarrow> string \<Rightarrow> string \<Rightarrow> string \<Rightarrow> DxUser" where
  "makeUser sid email roles org =
     zero_user\<lparr>u_ID := sid, u_Email := email, u_Roles := splitRoles roles, u_OrganisationID := org\<rparr>"

subsection \<open>Signing\<close>

definition time_Unix :: "int \<Rightarrow> int" where
  "time_Unix now = now div Second"

definition Sign :: "(string \<Rightarrow> string \<Rightarrow> string) \<Rightarrow> int \<Rightarrow> DxUser \<Rightarrow> HdrConfig \<Rightarrow> goerr + Header" where
  "Sign mac clock user cfg =
     (if hc_Secret cfg = [] then Inl (Opaque ''headers.Sign: Secret is required'')
      else if TrimSpace (u_ID user) = [] then Inl (Opaque ''headers.Sign: user ID is required'')
      else if containsSeparator [u_ID user, u_Email user, u_OrganisationID user]
              \<or> rolesContainSeparator (u_Roles user)
      then Inl (Opaque (''headers.Sign: subject fields must not contain '' @ [CHR 0x27] @ ''|'' @ [CHR 0x27]))
      else
        (let now = time_Unix clock;
             rolesJoined = joinRoles (u_Roles user);
             canonical = canonicalString (u_ID user) (u_Email user) rolesJoined (u_OrganisationID user) now;
             sig = hmacHex mac (hc_Secret cfg) canonical;
             h = hdr_Set HdrSubjectID (u_ID user) [];
             h = (if u_Email user \<noteq> [] then hdr_Set HdrSubjectEmail (u_Email user) h else h);
             h = (if rolesJoined \<noteq> [] then hdr_Set HdrSubjectRoles rolesJoined h else h);
             h = (if u_OrganisationID user \<noteq> [] then hdr_Set HdrSubjectOrgID (u_OrganisationID user) h else h);
             h = hdr_Set HdrSubjectIssuedAt (itoa now) h;
             h = hdr_Set HdrSubjectSig sig h
         in Inr h))"

definition Apply :: "Header \<Rightarrow> Header \<Rightarrow> Header" where
  "Apply req signed = fold (\<lambda>k h. hdr_Set k (hdr_Get signed k) h) (map fst signed) req"

subsection \<open>Verification\<close>

text \<open>\<^verbatim>\<open>time.Unix(sec, 0)\<close> adds the distance of the epoch from year one in 64 bits, so seconds
  close to the upper end wrap; \<^verbatim>\<open>time.Since\<close> saturates.\<close>

definition unixToInternal :: int where "unixToInternal = 62135596800"

definition time_of_Unix :: "int \<Rightarrow> int" where
  "time_of_Unix sec = (int64 (sec + unixToInternal) - unixToInternal) * Second"

definition maxAge :: "HdrConfig \<Rightarrow> int" where
  "maxAge cfg = (if hc_MaxAge cfg = 0 then DefaultMaxAge else hc_MaxAge cfg)"

fun any_secret :: "(string \<Rightarrow> string \<Rightarrow> string) \<Rightarrow> string list \<Rightarrow> string \<Rightarrow> string \<Rightarrow> bool" where
  "any_secret mac [] canonical sig = False"
| "any_secret mac (alt # alts) canonical sig =
     (if verifyAgainst mac alt canonical sig then True else any_secret mac alts canonical sig)"

definition Verify :: "(string \<Rightarrow> string \<Rightarrow> string) \<Rightarrow> int \<Rightarrow> Header \<Rightarrow> HdrConfig \<Rightarrow> goerr + DxUser" where
  "Verify mac clock h cfg =
     (let sig = hdr_Get h HdrSubjectSig
      in if sig = [] then Inl ErrNotSigned
         else case Atoi (hdr_Get h HdrSubjectIssuedAt) of
           None \<Rightarrow> Inl (Errorf [] ErrInvalidSignature '': bad issued_at'')
         | Some issuedAt \<Rightarrow>
             (let age = time_Sub clock (time_of_Unix issuedAt)
              in if age < - 10 * Second \<or> maxAge cfg < age
                 then Inl (Errorf [] ErrInvalidSignature
                            ('': outside validity window (age='' @ Duration_String age @ '')''))
                 else
                   (let sid = hdr_Get h HdrSubjectID; email = hdr_Get h HdrSubjectEmail;
                        roles = hdr_Get h HdrSubjectRoles; org = hdr_Get h HdrSubjectOrgID
                    in if TrimSpace sid = [] then Inl (Errorf [] ErrInvalidSignature '': empty subject id'')
                       else
                         (let canonical = canonicalString sid email roles org issuedAt
                          in if \<not> verifyAgainst mac (hc_Secret cfg) canonical sig
                             then (if any_secret mac (hc_AdditionalSecrets cfg) canonical sig
                                   then Inr (makeUser sid email roles org)
                                   else Inl ErrInvalidSignature)
                             else Inr (makeUser sid email roles org)))))"

definition headers_Middleware ::
  "(string \<Rightarrow> string \<Rightarrow> string) \<Rightarrow> ('s \<Rightarrow> int) \<Rightarrow> HdrConfig \<Rightarrow> 's http_handler \<Rightarrow> 's http_handler" where
  "headers_Middleware mac clock cfg nxt r w s =
     (case Verify mac (clock s) (r_Header r) cfg of
        Inl err \<Rightarrow> reject (NewUnauthorized ''invalid or missing subject headers'' []) w s
      | Inr user \<Rightarrow> nxt (WithContext r (WithUser (r_ctx r) user)) w s)"

subsection \<open>Canonical strings\<close>

lemma set_itoa: "c \<in> set (itoa i) \<Longrightarrow> is_digit c \<or> c = CHR ''-''"
  by (auto simp: itoa_def dest: nat_digits_all_digits split: if_splits)

lemma itoa_no_bar [simp]: "CHR ''|'' \<notin> set (itoa i)"
  using set_itoa [of "CHR ''|''" i] by (auto simp: is_digit_def)

lemma itoa_inj: "itoa i = itoa j \<longleftrightarrow> i = j"
proof -
  have "\<not> is_digit (CHR ''-'')" by (simp add: is_digit_def)
  then have "nat_digits n \<noteq> CHR ''-'' # r" for n r
    using nat_digits_all_digits [of "CHR ''-''" n] by auto
  then show ?thesis
    by (auto simp: itoa_def nat_digits_inj dest: sym split: if_splits)
qed

lemma canonicalString_split:
  assumes "CHR ''|'' \<notin> set sid" "CHR ''|'' \<notin> set email" "CHR ''|'' \<notin> set roles" "CHR ''|'' \<notin> set org"
  shows "split_on (CHR ''|'') (canonicalString sid email roles org i) = [sid, email, roles, org, itoa i]"
  unfolding canonicalString_def using assms by (intro split_on_Join) auto

lemma count_bars:
  "count_list (canonicalString sid email roles org i) (CHR ''|'') =
     4 + count_list sid (CHR ''|'') + count_list email (CHR ''|'') + count_list roles (CHR ''|'')
       + count_list org (CHR ''|'')"
  by (simp add: canonicalString_def count_list_0_iff)

text \<open>A canonical string made of fields without the separator has one reading only: no choice of
  other fields, with or without separators, gives the same string.\<close>

lemma canonicalString_unambiguous:
  assumes clean: "CHR ''|'' \<notin> set a" "CHR ''|'' \<notin> set b" "CHR ''|'' \<notin> set c" "CHR ''|'' \<notin> set d"
    and eq: "canonicalString a' b' c' d' i' = canonicalString a b c d i"
  shows "a' = a \<and> b' = b \<and> c' = c \<and> d' = d \<and> i' = i"
proof -
  have "count_list a' (CHR ''|'') = 0 \<and> count_list b' (CHR ''|'') = 0 \<and> count_list c' (CHR ''|'') = 0 \<and>
        count_list d' (CHR ''|'') = 0"
    using count_bars [of a' b' c' d' i'] count_bars [of a b c d i] clean eq by (simp add: count_list_0_iff)
  then have "[a', b', c', d', itoa i'] = [a, b, c, d, itoa i]"
    using canonicalString_split [of a' b' c' d' i'] canonicalString_split [of a b c d i] clean eq
    by (simp add: count_list_0_iff)
  then show ?thesis by (simp add: itoa_inj)
qed

lemma containsSeparator_iff: "containsSeparator fs \<longleftrightarrow> (\<exists>f \<in> set fs. CHR ''|'' \<in> set f)"
  by (induction fs) auto

lemma rolesContainSeparator_iff:
  "rolesContainSeparator rs \<longleftrightarrow> (\<exists>r \<in> set rs. CHR ''|'' \<in> set r \<or> CHR '','' \<in> set r)"
  by (induction rs) auto

lemma any_secret_iff: "any_secret mac ks m sig \<longleftrightarrow> (\<exists>k \<in> set ks. verifyAgainst mac k m sig)"
  by (induction ks) auto

subsection \<open>Roles\<close>

lemma strings_Join_chars: "c \<in> set (strings_Join xs sep) \<Longrightarrow> c \<in> set sep \<or> (\<exists>x \<in> set xs. c \<in> set x)"
  by (induction xs sep rule: strings_Join.induct) auto

lemma joinRoles_no_bar: "\<not> rolesContainSeparator rs \<Longrightarrow> CHR ''|'' \<notin> set (joinRoles rs)"
  using strings_Join_chars [of "CHR ''|''" "sort rs" "'',''"]
  by (auto simp: joinRoles_def rolesContainSeparator_iff)

lemma strings_Join_Nil_iff: "sep \<noteq> [] \<Longrightarrow> strings_Join xs sep = [] \<longleftrightarrow> xs = [] \<or> xs = [[]]"
  by (induction xs sep rule: strings_Join.induct) auto

lemma sort_singleton: "sort xs = [x] \<longleftrightarrow> xs = [x]"
proof
  assume a: "sort xs = [x]"
  then have "length xs = 1" by (metis length_sort length_Cons list.size(3) One_nat_def)
  then obtain y where "xs = [y]" by (metis One_nat_def length_0_conv length_Suc_conv)
  then show "xs = [x]" using a by simp
qed simp

text \<open>What arrives of a list of roles: the sorted list. A list holding just the empty role is
  indistinguishable from no roles.\<close>

lemma splitRoles_joinRoles:
  assumes "\<not> rolesContainSeparator rs"
  shows "splitRoles (joinRoles rs) = (if rs = [[]] then [] else sort rs)"
proof (cases "rs = [] \<or> rs = [[]]")
  case True
  then show ?thesis by (auto simp: splitRoles_def joinRoles_def)
next
  case False
  then have ne: "strings_Join (sort rs) '','' \<noteq> []"
    by (simp add: strings_Join_Nil_iff sort_singleton sort_Nil_iff)
  have "split_on (CHR '','') (strings_Join (sort rs) [CHR '','']) = sort rs"
    using False assms by (intro split_on_Join) (auto simp: rolesContainSeparator_iff sort_Nil_iff)
  then show ?thesis using False ne by (simp add: splitRoles_def joinRoles_def)
qed

subsection \<open>What signing writes and verifying reads\<close>

text \<open>The identity a verifier reconstructs: the signed fields, the roles in sorted order; the other
  fields of the user do not travel.\<close>

definition delivered :: "DxUser \<Rightarrow> DxUser" where
  "delivered u = zero_user\<lparr>u_ID := u_ID u, u_Email := u_Email u,
     u_Roles := (if u_Roles u = [[]] then [] else sort (u_Roles u)), u_OrganisationID := u_OrganisationID u\<rparr>"

definition signed_string :: "int \<Rightarrow> DxUser \<Rightarrow> string" where
  "signed_string t u =
     canonicalString (u_ID u) (u_Email u) (joinRoles (u_Roles u)) (u_OrganisationID u) (time_Unix t)"

definition signable :: "DxUser \<Rightarrow> bool" where
  "signable u \<longleftrightarrow> TrimSpace (u_ID u) \<noteq> [] \<and> \<not> containsSeparator [u_ID u, u_Email u, u_OrganisationID u]
     \<and> \<not> rolesContainSeparator (u_Roles u)"

lemma Sign_ok_iff: "(\<exists>h. Sign mac t u cfg = Inr h) \<longleftrightarrow> hc_Secret cfg \<noteq> [] \<and> signable u"
  by (auto simp: Sign_def signable_def Let_def)

lemma Sign_headers:
  assumes "Sign mac t u cfg = Inr h"
  shows "hdr_Get h HdrSubjectID = u_ID u" "hdr_Get h HdrSubjectEmail = u_Email u"
    "hdr_Get h HdrSubjectRoles = joinRoles (u_Roles u)" "hdr_Get h HdrSubjectOrgID = u_OrganisationID u"
    "hdr_Get h HdrSubjectIssuedAt = itoa (time_Unix t)"
    "hdr_Get h HdrSubjectSig = hmacHex mac (hc_Secret cfg) (signed_string t u)"
    "hc_Secret cfg \<noteq> []" "signable u"
  using assms by (auto simp: Sign_def signable_def signed_string_def Let_def hdr_names split: if_splits)

definition hdr_keys :: "Header \<Rightarrow> string set" where
  "hdr_keys h = set (map fst h)"

lemma hdr_keys_simps [simp]: "hdr_keys [] = {}" "hdr_keys (hdr_Set k v h) = insert k (hdr_keys h)"
  by (simp_all add: hdr_keys_def hdr_Set_def del: set_map)

lemma Sign_keys:
  assumes "Sign mac t u cfg = Inr h"
  shows "hdr_keys h = {HdrSubjectID, HdrSubjectIssuedAt, HdrSubjectSig}
    \<union> (if u_Email u \<noteq> [] then {HdrSubjectEmail} else {})
    \<union> (if joinRoles (u_Roles u) \<noteq> [] then {HdrSubjectRoles} else {})
    \<union> (if u_OrganisationID u \<noteq> [] then {HdrSubjectOrgID} else {})"
proof -
  define c where "c = containsSeparator [u_ID u, u_Email u, u_OrganisationID u]"
  have "hc_Secret cfg \<noteq> []" "TrimSpace (u_ID u) \<noteq> []" "\<not> c" "\<not> rolesContainSeparator (u_Roles u)"
    using Sign_headers(7,8) [OF assms] by (simp_all add: signable_def c_def)
  with assms show ?thesis
    unfolding Sign_def Let_def c_def [symmetric]
    by (cases "u_Email u = []"; cases "joinRoles (u_Roles u) = []"; cases "u_OrganisationID u = []"; simp; elim subst; auto)
qed

lemma hdr_Get_Apply:
  "hdr_Get (Apply req signed) k = (if k \<in> hdr_keys signed then hdr_Get signed k else hdr_Get req k)"
proof -
  have "hdr_Get (fold (\<lambda>k h. hdr_Set k (hdr_Get signed k) h) ks req) k =
        (if k \<in> set ks then hdr_Get signed k else hdr_Get req k)" for ks
    by (induction ks arbitrary: req) auto
  then show ?thesis by (simp add: Apply_def hdr_keys_def)
qed

lemma time_of_Unix_clock:
  assumes "0 \<le> t" and "t < 2 ^ 63"
  shows "time_of_Unix (time_Unix t) = time_Unix t * Second" "in_int64 (time_Unix t)"
proof -
  have "0 \<le> time_Unix t" "time_Unix t \<le> t div 1000000000"
    using assms by (simp_all add: time_Unix_def Second_def)
  moreover have "t div 1000000000 \<le> 9223372036"
    using zdiv_mono1 [of t "2 ^ 63" 1000000000] assms by simp
  ultimately have b: "0 \<le> time_Unix t" "time_Unix t \<le> 9223372036" by simp_all
  then show "in_int64 (time_Unix t)" by (simp add: in_int64_def)
  from b have "in_int64 (time_Unix t + unixToInternal)" by (simp add: in_int64_def unixToInternal_def)
  then show "time_of_Unix (time_Unix t) = time_Unix t * Second" by (simp add: time_of_Unix_def int64_id)
qed

text \<open>The accepting branch of \<open>Verify\<close>, with both key loops folded into one set of keys.\<close>

lemma Verify_Inr_iff:
  "Verify mac clock h cfg = Inr u \<longleftrightarrow>
     hdr_Get h HdrSubjectSig \<noteq> [] \<and>
     (\<exists>i. Atoi (hdr_Get h HdrSubjectIssuedAt) = Some i \<and>
        - 10 * Second \<le> time_Sub clock (time_of_Unix i) \<and> time_Sub clock (time_of_Unix i) \<le> maxAge cfg \<and>
        TrimSpace (hdr_Get h HdrSubjectID) \<noteq> [] \<and>
        (\<exists>k \<in> insert (hc_Secret cfg) (set (hc_AdditionalSecrets cfg)).
           verifyAgainst mac k (canonicalString (hdr_Get h HdrSubjectID) (hdr_Get h HdrSubjectEmail)
             (hdr_Get h HdrSubjectRoles) (hdr_Get h HdrSubjectOrgID) i) (hdr_Get h HdrSubjectSig)) \<and>
        u = makeUser (hdr_Get h HdrSubjectID) (hdr_Get h HdrSubjectEmail) (hdr_Get h HdrSubjectRoles)
              (hdr_Get h HdrSubjectOrgID))"
  by (auto simp: Verify_def Let_def any_secret_iff split: option.splits if_splits)

lemma time_Sub_window:
  assumes "m < 2 ^ 63 - 1"
  shows "- 10 * Second \<le> time_Sub c x \<and> time_Sub c x \<le> m \<longleftrightarrow> - 10 * Second \<le> c - x \<and> c - x \<le> m"
  using assms by (auto simp: time_Sub_def Second_def)

lemma makeUser_delivered:
  "signable u \<Longrightarrow> makeUser (u_ID u) (u_Email u) (joinRoles (u_Roles u)) (u_OrganisationID u) = delivered u"
  by (simp add: makeUser_def delivered_def signable_def splitRoles_joinRoles)

text \<open>The window a verifier accepts, for a signature minted at clock reading \<open>t\<close> and read at \<open>now\<close>.\<close>

definition in_validity_window :: "HdrConfig \<Rightarrow> int \<Rightarrow> int \<Rightarrow> bool" where
  "in_validity_window cfg t now \<longleftrightarrow>
     - 10 * Second \<le> now - time_Unix t * Second \<and> now - time_Unix t * Second \<le> maxAge cfg"

text \<open>The request a signed header set is copied to carries no stale value of a field that the signed
  set leaves out.\<close>

definition no_stale :: "Header \<Rightarrow> DxUser \<Rightarrow> bool" where
  "no_stale req u \<longleftrightarrow>
     (u_Email u = [] \<longrightarrow> hdr_Get req HdrSubjectEmail = []) \<and>
     (joinRoles (u_Roles u) = [] \<longrightarrow> hdr_Get req HdrSubjectRoles = []) \<and>
     (u_OrganisationID u = [] \<longrightarrow> hdr_Get req HdrSubjectOrgID = [])"

lemma Apply_headers:
  assumes "Sign mac t u cfg = Inr h" and "no_stale req u"
  shows "hdr_Get (Apply req h) HdrSubjectID = u_ID u" "hdr_Get (Apply req h) HdrSubjectEmail = u_Email u"
    "hdr_Get (Apply req h) HdrSubjectRoles = joinRoles (u_Roles u)"
    "hdr_Get (Apply req h) HdrSubjectOrgID = u_OrganisationID u"
    "hdr_Get (Apply req h) HdrSubjectIssuedAt = itoa (time_Unix t)"
    "hdr_Get (Apply req h) HdrSubjectSig = hmacHex mac (hc_Secret cfg) (signed_string t u)"
  using assms(2) unfolding hdr_Get_Apply Sign_keys [OF assms(1)] Sign_headers(1-6) [OF assms(1)] no_stale_def
  by (auto simp: hdr_names)

lemma Verify_signed:
  assumes sign: "Sign mac t u cfg = Inr h" and stale: "no_stale req u"
    and key: "hc_Secret cfg \<in> insert (hc_Secret cfg') (set (hc_AdditionalSecrets cfg'))"
    and mac: "mac (hc_Secret cfg) (signed_string t u) \<noteq> []"
    and time: "0 \<le> t" "t < 2 ^ 63" and age: "hc_MaxAge cfg' < 2 ^ 63 - 1"
  shows "Verify mac now (Apply req h) cfg' = Inr v \<longleftrightarrow> in_validity_window cfg' t now \<and> v = delivered u"
proof -
  note hs = Apply_headers [OF sign stale] and sg = Sign_headers(7,8) [OF sign]
  have "maxAge cfg' < 2 ^ 63 - 1" using age by (simp add: maxAge_def DefaultMaxAge_def Second_def)
  note win = time_Sub_window [OF this]
  have ver: "verifyAgainst mac (hc_Secret cfg) (signed_string t u) (hmacHex mac (hc_Secret cfg) (signed_string t u))"
    using sg by (simp add: verifyAgainst_def hmacHex_def)
  have id: "TrimSpace (u_ID u) \<noteq> []" using sg by (simp add: signable_def)
  have sig: "hmacHex mac (hc_Secret cfg) (signed_string t u) \<noteq> []" using mac by (simp add: hmacHex_def)
  show ?thesis
    unfolding Verify_Inr_iff hs using time_of_Unix_clock [OF time] win [of now "time_Unix t * Second"] ver key id sig sg
    by (auto simp: in_validity_window_def makeUser_delivered signed_string_def)
qed

text \<open>
  C12: Signing and verifying are inverse. Headers minted by \<^verbatim>\<open>Sign\<close> and copied to a request by \<^verbatim>\<open>Apply\<close> are
  accepted by \<^verbatim>\<open>Verify\<close>, under any configuration that knows the signing key as its active or as an
  additional secret, exactly while the reading clock is at most ten seconds behind and at most \<^verbatim>\<open>MaxAge\<close>
  ahead of the second of signing; the user returned is the signed one with its roles sorted (and
  without the fields that are not transported).
\<close>

theorem signed_headers_round_trip:
  assumes sign: "Sign mac t u cfg = Inr h" and stale: "no_stale req u"
    and key: "hc_Secret cfg \<in> insert (hc_Secret cfg') (set (hc_AdditionalSecrets cfg'))"
    and mac: "mac (hc_Secret cfg) (signed_string t u) \<noteq> []"
    and time: "0 \<le> t" "t < 2 ^ 63" and age: "hc_MaxAge cfg' < 2 ^ 63 - 1"
  shows "Verify mac now (Apply req h) cfg' = Inr v \<longleftrightarrow> in_validity_window cfg' t now \<and> v = delivered u"
  by (rule Verify_signed [OF assms])

text \<open>A log of signings, each with its clock reading, user, configuration and result, and whether it
  contains the computation of the MAC of \<open>m\<close> under \<open>k\<close>.\<close>

definition was_signed :: "(int \<times> DxUser \<times> HdrConfig \<times> Header) list \<Rightarrow> string \<Rightarrow> string \<Rightarrow> bool" where
  "was_signed signings k m \<longleftrightarrow> list_ex (\<lambda>(t, u, c, hs). hc_Secret c = k \<and> signed_string t u = m) signings"

text \<open>
  C2: No identity is accepted that was not signed. Suppose a signature an adversary can present for an
  accepted key is one the gateway computed: if it is the MAC of a string under such a key, the string is
  that of a \<^verbatim>\<open>Sign\<close> in the log. Then headers that \<^verbatim>\<open>Verify\<close> accepts, whatever bytes they carry, give
  exactly the identity of a logged call, signed within the window; in particular no choice of fields
  with embedded separators shifts one field into another.
\<close>

theorem verified_identity_was_signed:
  assumes ver: "Verify mac now h cfg = Inr v"
    and log: "list_all (\<lambda>(t, u, c, hs). Sign mac t u c = Inr hs \<and> 0 \<le> t \<and> t < 2 ^ 63) signings"
    and unforgeable: "\<forall>k m. k \<in> insert (hc_Secret cfg) (set (hc_AdditionalSecrets cfg)) \<and> k \<noteq> [] \<and>
        hex_DecodeString (hdr_Get h HdrSubjectSig) = Some (mac k m) \<longrightarrow>
        was_signed signings k m"
    and age: "hc_MaxAge cfg < 2 ^ 63 - 1"
  shows "\<exists>(t, u, c, hs) \<in> set signings. v = delivered u \<and> in_validity_window cfg t now \<and>
           hc_Secret c \<in> insert (hc_Secret cfg) (set (hc_AdditionalSecrets cfg))"
proof -
  define G where "G = hdr_Get h"
  from ver obtain i k where i: "- 10 * Second \<le> time_Sub now (time_of_Unix i)" "time_Sub now (time_of_Unix i) \<le> maxAge cfg"
    and k: "k \<in> insert (hc_Secret cfg) (set (hc_AdditionalSecrets cfg))"
    and va: "verifyAgainst mac k (canonicalString (G HdrSubjectID) (G HdrSubjectEmail) (G HdrSubjectRoles)
       (G HdrSubjectOrgID) i) (G HdrSubjectSig)"
    and v: "v = makeUser (G HdrSubjectID) (G HdrSubjectEmail) (G HdrSubjectRoles) (G HdrSubjectOrgID)"
    unfolding Verify_Inr_iff G_def by blast
  from va have "k \<noteq> []" "hex_DecodeString (G HdrSubjectSig) = Some (mac k (canonicalString (G HdrSubjectID)
      (G HdrSubjectEmail) (G HdrSubjectRoles) (G HdrSubjectOrgID) i))"
    by (auto simp: verifyAgainst_def split: if_splits option.splits)
  with unforgeable k have "was_signed signings k (canonicalString (G HdrSubjectID)
      (G HdrSubjectEmail) (G HdrSubjectRoles) (G HdrSubjectOrgID) i)" unfolding G_def by blast
  then obtain t u c hs where e: "(t, u, c, hs) \<in> set signings" "hc_Secret c = k"
    and m: "canonicalString (G HdrSubjectID) (G HdrSubjectEmail) (G HdrSubjectRoles) (G HdrSubjectOrgID) i = signed_string t u"
    by (auto simp: was_signed_def list_ex_iff)
  from log e have s: "Sign mac t u c = Inr hs" and time: "0 \<le> t" "t < 2 ^ 63" by (auto simp: list_all_iff)
  have sg: "signable u" by (rule Sign_headers(8) [OF s])
  have "G HdrSubjectID = u_ID u \<and> G HdrSubjectEmail = u_Email u \<and> G HdrSubjectRoles = joinRoles (u_Roles u) \<and>
        G HdrSubjectOrgID = u_OrganisationID u \<and> i = time_Unix t"
    using m sg joinRoles_no_bar [of "u_Roles u"] unfolding signed_string_def
    by (intro canonicalString_unambiguous) (auto simp: signable_def containsSeparator_iff)
  moreover have "maxAge cfg < 2 ^ 63 - 1" using age by (simp add: maxAge_def DefaultMaxAge_def Second_def)
  ultimately have "v = delivered u \<and> in_validity_window cfg t now"
    using v i sg time_of_Unix_clock [OF time] time_Sub_window [of "maxAge cfg" now "time_Unix t * Second"]
    by (simp add: makeUser_delivered in_validity_window_def)
  then show ?thesis using e k by blast
qed

subsection \<open>A concrete gateway\<close>

text \<open>A user, a key and a (weak) MAC to run the definitions on: the reading \<open>t\<close> is second 100.\<close>

definition toy_mac :: "string \<Rightarrow> string \<Rightarrow> string" where
  "toy_mac k m = k @ ''/'' @ m"

definition alice :: DxUser where
  "alice = zero_user\<lparr>u_ID := ''alice'', u_Name := ''Alice'', u_Roles := [''provider'', ''consumer''],
     u_OrganisationID := ''org1''\<rparr>"

definition gateway_cfg :: HdrConfig where
  "gateway_cfg = \<lparr>hc_Secret = ''k1'', hc_AdditionalSecrets = [], hc_MaxAge = 0\<rparr>"

definition rotated_cfg :: HdrConfig where
  "rotated_cfg = \<lparr>hc_Secret = ''k2'', hc_AdditionalSecrets = [''k0'', ''k1''], hc_MaxAge = 0\<rparr>"

lemma alice_signable: "signable alice"
  by (simp add: signable_def alice_def zero_user_def TrimSpace_def is_space_def)

lemma alice_delivered:
  "delivered alice = zero_user\<lparr>u_ID := ''alice'', u_Roles := [''consumer'', ''provider''], u_OrganisationID := ''org1''\<rparr>"
  unfolding delivered_def alice_def by code_simp

definition alice_headers :: Header where
  "alice_headers = (case Sign toy_mac 100500000000 alice gateway_cfg of Inl e \<Rightarrow> [] | Inr h \<Rightarrow> h)"

lemma alice_signed: "Sign toy_mac 100500000000 alice gateway_cfg = Inr alice_headers"
proof -
  obtain h where "Sign toy_mac 100500000000 alice gateway_cfg = Inr h"
    using Sign_ok_iff [of toy_mac 100500000000 alice gateway_cfg] alice_signable by (auto simp: gateway_cfg_def)
  then show ?thesis by (simp add: alice_headers_def)
qed

theorem signed_headers_round_trip_witness:
  "Verify toy_mac 160000000000 (Apply [(''Accept'', [''text/plain''])] alice_headers) rotated_cfg =
     Inr (zero_user\<lparr>u_ID := ''alice'', u_Roles := [''consumer'', ''provider''], u_OrganisationID := ''org1''\<rparr>)
   \<and> (\<forall>v. Verify toy_mac 161000000000 (Apply [(''Accept'', [''text/plain''])] alice_headers) rotated_cfg \<noteq> Inr v)"
proof -
  have stale: "no_stale [(''Accept'', [''text/plain''])] alice"
    by (simp add: no_stale_def hdr_Get_def hdr_names)
  have rt: "Verify toy_mac now (Apply [(''Accept'', [''text/plain''])] alice_headers) rotated_cfg = Inr v \<longleftrightarrow>
      in_validity_window rotated_cfg 100500000000 now \<and> v = delivered alice" for now v
    by (rule signed_headers_round_trip [OF alice_signed stale])
      (simp_all add: gateway_cfg_def rotated_cfg_def toy_mac_def)
  show ?thesis
    unfolding rt alice_delivered [symmetric]
    by (simp add: in_validity_window_def time_Unix_def Second_def maxAge_def DefaultMaxAge_def rotated_cfg_def)
qed

theorem verified_identity_was_signed_witness:
  "Verify toy_mac 160000000000 (Apply [] alice_headers) gateway_cfg = Inr (delivered alice) \<and>
   (\<exists>(t, u, c, hs) \<in> set [(100500000000, alice, gateway_cfg, alice_headers)].
      delivered alice = delivered u \<and> in_validity_window gateway_cfg t 160000000000 \<and> hc_Secret c \<in> {''k1''})"
proof -
  define sigs where "sigs = [(100500000000 :: int, alice, gateway_cfg, alice_headers)]"
  have stale: "no_stale [] alice" by (simp add: no_stale_def)
  have v: "Verify toy_mac 160000000000 (Apply [] alice_headers) gateway_cfg = Inr (delivered alice)"
    by (subst Verify_signed [OF alice_signed stale])
      (simp_all add: gateway_cfg_def toy_mac_def in_validity_window_def time_Unix_def Second_def maxAge_def DefaultMaxAge_def)
  have u: "\<forall>k m. k \<in> insert (hc_Secret gateway_cfg) (set (hc_AdditionalSecrets gateway_cfg)) \<and> k \<noteq> [] \<and>
      hex_DecodeString (hdr_Get (Apply [] alice_headers) HdrSubjectSig) = Some (toy_mac k m) \<longrightarrow>
      was_signed sigs k m"
    unfolding Apply_headers(6) [OF alice_signed stale] hmacHex_def
    by (simp add: gateway_cfg_def toy_mac_def was_signed_def sigs_def)
  have l: "list_all (\<lambda>(t, u, c, hs). Sign toy_mac t u c = Inr hs \<and> 0 \<le> t \<and> t < 2 ^ 63) sigs"
    by (simp add: sigs_def alice_signed)
  have "\<exists>(t, w, c, hs) \<in> set sigs. delivered alice = delivered w \<and> in_validity_window gateway_cfg t 160000000000 \<and>
      hc_Secret c \<in> insert (hc_Secret gateway_cfg) (set (hc_AdditionalSecrets gateway_cfg))"
    by (rule verified_identity_was_signed [OF v l u]) (simp add: gateway_cfg_def)
  then show ?thesis using v by (simp add: sigs_def gateway_cfg_def)
qed

text \<open>\<^verbatim>\<open>Apply\<close> replaces only the headers the signed set has: a value the caller sent for a field the
  user leaves empty stays on the request, and what was minted for the user is then refused.\<close>

lemma stale_header_refused:
  "Verify toy_mac 160000000000 (Apply [(HdrSubjectEmail, [''x@y''])] alice_headers) gateway_cfg = Inl ErrInvalidSignature"
proof -
  note s = Sign_headers [OF alice_signed] Sign_keys [OF alice_signed]
  define G where "G = hdr_Get (Apply [(HdrSubjectEmail, [''x@y''])] alice_headers)"
  have e: "u_Email alice = []" by (simp add: alice_def zero_user_def)
  have g: "G HdrSubjectEmail = ''x@y''" "G HdrSubjectID = u_ID alice"
    "G HdrSubjectIssuedAt = itoa 100" "G HdrSubjectSig = hmacHex toy_mac ''k1'' (signed_string 100500000000 alice)"
    unfolding G_def hdr_Get_Apply s using e
    by (simp_all add: s hdr_names hdr_Get_def gateway_cfg_def time_Unix_def Second_def)
  have "canonicalString (u_ID alice) ''x@y'' r p 100 \<noteq> signed_string 100500000000 alice" for r p
  proof
    assume "canonicalString (u_ID alice) ''x@y'' r p 100 = signed_string 100500000000 alice"
    then have "''x@y'' = u_Email alice"
      using alice_signable joinRoles_no_bar [of "u_Roles alice"] unfolding signed_string_def
      by (auto simp: signable_def containsSeparator_iff dest!: canonicalString_unambiguous [rotated 4])
    then show False by (simp add: e)
  qed
  moreover have "time_Sub 160000000000 (time_of_Unix 100) = 60000000000"
    by (simp add: time_Sub_def time_of_Unix_def int64_def unixToInternal_def Second_def)
  ultimately show ?thesis
    using alice_signable
    by (simp add: Verify_def G_def [symmetric] g Let_def hmacHex_def toy_mac_def maxAge_def DefaultMaxAge_def Second_def
        gateway_cfg_def in_int64_def signable_def verifyAgainst_def)
qed

end
