(* ===== verification/Auth.thy ===== *)
theory Auth
  imports SubjectHeaders
begin

text \<open>
  Packages \<^verbatim>\<open>auth/authorization\<close> (roles, delegation scopes and the two middlewares that check them),
  \<^verbatim>\<open>auth/jwt\<close> (claims, configuration, validator, middleware) and \<^verbatim>\<open>auth/resolver\<close> (one middleware that
  takes the identity from signed headers or from a bearer token).

  Parsing and verifying a token is golang-jwt's work and fetching keys is keyfunc's: both are
  parameters, the first with the options the source passes to it, and \<open>parser_ok\<close> states what those
  options promise. A middleware that panics while it is being built is \<open>Inl\<close> of the panic's text.
\<close>

subsection \<open>Roles and scopes\<close>

type_synonym DxRole = string
type_synonym DelegationScope = string

definition RoleProvider :: DxRole where "RoleProvider = ''provider''"
definition RoleConsumer :: DxRole where "RoleConsumer = ''consumer''"
definition RoleCosAdmin :: DxRole where "RoleCosAdmin = ''cos_admin''"
definition RoleOrgAdmin :: DxRole where "RoleOrgAdmin = ''org_admin''"
definition RoleDelegate :: DxRole where "RoleDelegate = ''delegate''"

type_synonym RoleSet = "(DxRole \<times> unit) list"

definition NewRoleSet :: "DxRole list \<Rightarrow> RoleSet" where
  "NewRoleSet roles = fold (\<lambda>r s. map_put r () s) roles []"

definition RoleSet_Has :: "RoleSet \<Rightarrow> DxRole \<Rightarrow> bool" where
  "RoleSet_Has s role \<longleftrightarrow> map_of s role \<noteq> None"

fun RoleSet_HasAny :: "RoleSet \<Rightarrow> DxRole list \<Rightarrow> bool" where
  "RoleSet_HasAny s [] = False"
| "RoleSet_HasAny s (r # rs) = (if RoleSet_Has s r then True else RoleSet_HasAny s rs)"

definition ScopeDataAccess :: DelegationScope where "ScopeDataAccess = ''data-access''"
definition ScopeWildcard :: DelegationScope where "ScopeWildcard = ''*''"

type_synonym ScopeSet = "(DelegationScope \<times> unit) list"

definition NewScopeSet :: "DelegationScope list \<Rightarrow> ScopeSet" where
  "NewScopeSet scopes = fold (\<lambda>sc s. map_put sc () s) scopes []"

definition ScopeSet_Has :: "ScopeSet \<Rightarrow> DelegationScope \<Rightarrow> bool" where
  "ScopeSet_Has s scope = (if map_of s ScopeWildcard \<noteq> None then True else map_of s scope \<noteq> None)"

definition AllSystemScopes :: ScopeSet where
  "AllSystemScopes = NewScopeSet
     [ScopeDataAccess, ''own-asset-management'', ''org-asset-management'', ''asset-management'',
      ''org-user-management'', ''user-management'', ''org-asset-publish'', ''asset-publish'',
      ''org-publisher-management'', ''publisher-management'', ''org-management'', ''role-management'',
      ''compute-management'', ''credit-management'']"

fun rolesToString_from :: "nat \<Rightarrow> DxRole list \<Rightarrow> string \<Rightarrow> string" where
  "rolesToString_from i [] out = out"
| "rolesToString_from i (r # rs) out = rolesToString_from (Suc i) rs ((if 0 < i then out @ '', '' else out) @ r)"

definition rolesToString :: "DxRole list \<Rightarrow> string" where
  "rolesToString roles = rolesToString_from 0 roles []"

definition ForRoles :: "DxRole list \<Rightarrow> 's http_handler \<Rightarrow> 's http_handler" where
  "ForRoles roles nxt r w s =
     (let required = NewRoleSet roles
      in case UserFromCtx (r_ctx r) of
           None \<Rightarrow> reject (NewUnauthorized ''no authenticated user in context'' []) w s
         | Some user \<Rightarrow>
             if \<not> RoleSet_HasAny required (u_Roles user)
             then reject (NewForbidden (''insufficient role: one of '' @ rolesToString roles @ '' required'') []) w s
             else nxt r w s)"

definition URLParam :: "request \<Rightarrow> string \<Rightarrow> string" where
  "URLParam r k = (case r_params r k of Some v \<Rightarrow> v | None \<Rightarrow> [])"

fun scope_granted :: "DelegationScope \<Rightarrow> string \<Rightarrow> DelegationScopeEntry list \<Rightarrow> bool" where
  "scope_granted scope entityID [] = False"
| "scope_granted scope entityID (e # es) =
     (if ds_EntityID e = entityID \<or> ds_EntityID e = ''*''
      then (if ds_Scope e = scope \<or> ds_Scope e = ScopeWildcard then True else scope_granted scope entityID es)
      else scope_granted scope entityID es)"

definition ForScope :: "DelegationScope \<Rightarrow> string \<Rightarrow> 's http_handler \<Rightarrow> 's http_handler" where
  "ForScope scope entityIDParam nxt r w s =
     (case UserFromCtx (r_ctx r) of
        None \<Rightarrow> reject (NewUnauthorized ''no authenticated user in context'' []) w s
      | Some user \<Rightarrow>
          if scope_granted scope (URLParam r entityIDParam) (u_Scopes user) then nxt r w s
          else reject (NewForbidden (''delegation scope '' @ scope @ '' not granted for this entity'') []) w s)"

subsection \<open>Token claims\<close>

record DelegationScopeClaim =
  dc_Scope :: string
  dc_EntityID :: string
  dc_Expiry :: string

record RegisteredClaims =
  cl_Issuer :: string
  cl_Subject :: string
  cl_Audience :: "string list"
  cl_ExpiresAt :: "int option"

record DxClaims = RegisteredClaims +
  cl_Email :: string
  cl_EmailVerified :: bool
  cl_Name :: string
  cl_PreferredUsername :: string
  cl_RealmAccess :: "string list"
  cl_ResourceAccess :: "(string \<times> string list) list"
  cl_OrganisationID :: string
  cl_OrganisationName :: string
  cl_DelegatorID :: string
  cl_Scope :: string
  cl_DelegationScopes :: "DelegationScopeClaim list"

text \<open>The body both loops of \<^verbatim>\<open>AllRoles\<close> share, on the pair of the \<^verbatim>\<open>seen\<close> map and the slice.\<close>

definition add_role :: "string \<Rightarrow> (string \<times> unit) list \<times> string list \<Rightarrow> (string \<times> unit) list \<times> string list" where
  "add_role r st = (if map_of (fst st) r = None then (map_put r () (fst st), snd st @ [r]) else st)"

definition AllRoles :: "DxClaims \<Rightarrow> string list" where
  "AllRoles c =
     snd (fold (\<lambda>(client, roles). fold add_role roles) (cl_ResourceAccess c)
            (fold add_role (cl_RealmAccess c) ([], [])))"

definition HasRole :: "DxClaims \<Rightarrow> string \<Rightarrow> bool" where
  "HasRole c role = list_ex (\<lambda>r. r = role) (AllRoles c)"

definition HasScopeForEntity :: "DxClaims \<Rightarrow> string \<Rightarrow> string \<Rightarrow> bool" where
  "HasScopeForEntity c scope entityID =
     list_ex (\<lambda>ds. dc_Scope ds = scope \<and> dc_EntityID ds = entityID) (cl_DelegationScopes c)"

subsection \<open>Configuration and validator\<close>

record JwtConfig =
  jc_JwksURL :: string
  jc_Issuer :: string
  jc_Audience :: string
  jc_LeewaySeconds :: int
  jc_RefreshInterval :: int
  jc_Enabled :: bool

definition maxLeewaySeconds :: int where "maxLeewaySeconds = 300"

definition JwtConfig_Validate :: "JwtConfig \<Rightarrow> goerr option" where
  "JwtConfig_Validate c =
     (if \<not> jc_Enabled c then None
      else if jc_JwksURL c = [] then Some (Opaque ''jwt config: jwks_url is required when jwt is enabled'')
      else if jc_Issuer c = [] then Some (Opaque ''jwt config: issuer is required when jwt is enabled'')
      else if jc_Audience c = [] then Some (Opaque ''jwt config: audience is required when jwt is enabled'')
      else if jc_LeewaySeconds c < 0 \<or> maxLeewaySeconds < jc_LeewaySeconds c
      then Some (Opaque (''jwt config: leeway_seconds must be between 0 and '' @ itoa maxLeewaySeconds))
      else None)"

text \<open>What the fetch of the key set gives within thirty seconds; \<open>TimedOut\<close> when the timer fires first.\<close>

datatype 'k fetch = Fetched 'k | FetchFailed goerr | TimedOut

definition NewKeycloakJWKS :: "(string \<Rightarrow> 'k fetch) \<Rightarrow> JwtConfig \<Rightarrow> goerr + 'k" where
  "NewKeycloakJWKS fetch cfg =
     (case fetch (jc_JwksURL cfg) of
        Fetched k \<Rightarrow> Inr k
      | FetchFailed e \<Rightarrow> Inl (Errorf (''initialising keyfunc JWKS from '' @ go_quote (jc_JwksURL cfg) @ '': '') e [])
      | TimedOut \<Rightarrow> Inl (Opaque (''initialising keyfunc JWKS from '' @ go_quote (jc_JwksURL cfg) @ '': timed out after 30s'')))"

text \<open>The options of \<^verbatim>\<open>gojwt.NewParser\<close>; an issuer or audience that is \<open>None\<close> is not checked.\<close>

record ParserOptions =
  po_Leeway :: int
  po_IssuedAt :: bool
  po_ValidMethods :: "string list"
  po_Issuer :: "string option"
  po_Audience :: "string option"

record 'k Validator =
  v_cfg :: JwtConfig
  v_keyfn :: 'k
  v_parser :: ParserOptions

definition jwt_New :: "(string \<Rightarrow> 'k fetch) \<Rightarrow> JwtConfig \<Rightarrow> goerr + 'k Validator" where
  "jwt_New fetch cfg =
     (case JwtConfig_Validate cfg of
        Some err \<Rightarrow> Inl (Errorf ''jwt.New: '' err [])
      | None \<Rightarrow>
          (case NewKeycloakJWKS fetch cfg of
             Inl err \<Rightarrow> Inl (Errorf ''jwt.New: '' err [])
           | Inr jwks \<Rightarrow>
               Inr \<lparr>v_cfg = cfg, v_keyfn = jwks,
                    v_parser = \<lparr>po_Leeway = int64 (jc_LeewaySeconds cfg * Second), po_IssuedAt = True,
                                po_ValidMethods = [''RS256''],
                                po_Issuer = (if jc_Issuer cfg \<noteq> [] then Some (jc_Issuer cfg) else None),
                                po_Audience = (if jc_Audience cfg \<noteq> [] then Some (jc_Audience cfg) else None)\<rparr>\<rparr>))"

type_synonym 'k parser = "ParserOptions \<Rightarrow> 'k \<Rightarrow> int \<Rightarrow> string \<Rightarrow> goerr + (DxClaims \<times> bool)"

definition jwt_Validate :: "'k parser \<Rightarrow> 'k Validator \<Rightarrow> int \<Rightarrow> string \<Rightarrow> goerr + DxClaims" where
  "jwt_Validate ParseWithClaims v now tokenString =
     (case ParseWithClaims (v_parser v) (v_keyfn v) now tokenString of
        Inl err \<Rightarrow> Inl (Errorf ''token validation failed: '' err [])
      | Inr (claims, valid) \<Rightarrow>
          if \<not> valid then Inl (Opaque ''token is not valid'') else Inr claims)"

subsection \<open>The token middleware\<close>

definition claims_user :: "DxClaims \<Rightarrow> DxUser" where
  "claims_user c =
     \<lparr>u_ID = cl_Subject c, u_Email = cl_Email c, u_Name = cl_Name c, u_Roles = AllRoles c,
      u_OrganisationID = cl_OrganisationID c, u_OrganisationName = cl_OrganisationName c,
      u_DelegatorID = cl_DelegatorID c,
      u_Scopes = map (\<lambda>ds. \<lparr>ds_Scope = dc_Scope ds, ds_EntityID = dc_EntityID ds, ds_Expiry = dc_Expiry ds\<rparr>)
                   (cl_DelegationScopes c)\<rparr>"

definition mockUser :: DxUser where
  "mockUser = zero_user\<lparr>u_ID := ''00000000-0000-0000-0000-000000000000'', u_Email := ''dev@local'',
     u_Name := ''Dev User'', u_Roles := [''consumer'', ''provider'']\<rparr>"

definition jwt_handler :: "'k parser \<Rightarrow> ('s \<Rightarrow> int) \<Rightarrow> 'k Validator \<Rightarrow> 's http_handler \<Rightarrow> 's http_handler" where
  "jwt_handler parse clock v nxt r w s =
     (let authHeader = hdr_Get (r_Header r) ''Authorization''
      in if authHeader = [] then reject (NewUnauthorized ''missing Authorization header'' []) w s
         else case cut_at (CHR '' '') authHeader of
           None \<Rightarrow> reject (NewUnauthorized (''Authorization header must be '' @ [CHR 0x27] @ ''Bearer <token>'' @ [CHR 0x27]) []) w s
         | Some (scheme, token) \<Rightarrow>
             if \<not> EqualFold scheme ''bearer''
             then reject (NewUnauthorized (''Authorization header must be '' @ [CHR 0x27] @ ''Bearer <token>'' @ [CHR 0x27]) []) w s
             else case jwt_Validate parse v (clock s) token of
               Inl err \<Rightarrow> reject (NewUnauthorized ''invalid or expired token'' []) w s
             | Inr claims \<Rightarrow> nxt (WithContext r (WithUser (r_ctx r) (claims_user claims))) w s)"

definition jwt_Middleware ::
  "'k parser \<Rightarrow> (string \<Rightarrow> 'k fetch) \<Rightarrow> ('s \<Rightarrow> int) \<Rightarrow> string \<Rightarrow> JwtConfig \<Rightarrow> string + ('s http_handler \<Rightarrow> 's http_handler)" where
  "jwt_Middleware parse fetch clock DX_ENV cfg =
     (if \<not> jc_Enabled cfg
      then (if EqualFold DX_ENV ''production'' \<or> EqualFold DX_ENV ''prod''
            then Inl (''jwt.Middleware: jwt.enabled=false is not allowed when DX_ENV='' @ DX_ENV)
            else Inr (\<lambda>nxt r w s. nxt (WithContext r (WithUser (r_ctx r) mockUser)) w s))
      else case jwt_New fetch cfg of
             Inl err \<Rightarrow> Inl (''jwt.Middleware: failed to initialise validator: '' @ ErrorText err)
           | Inr validator \<Rightarrow> Inr (jwt_handler parse clock validator))"

subsection \<open>The resolver\<close>

record ResolverConfig =
  rc_Headers :: HdrConfig
  rc_JWT :: JwtConfig
  rc_AllowDirect :: bool

definition firstWord :: "string \<Rightarrow> string" where
  "firstWord s = (case cut_at (CHR '' '') s of Some (a, _) \<Rightarrow> if a \<noteq> [] then a else s | None \<Rightarrow> s)"

definition resolver_handler ::
  "(string \<Rightarrow> string \<Rightarrow> string) \<Rightarrow> ('s \<Rightarrow> int) \<Rightarrow> ResolverConfig \<Rightarrow> ('s http_handler \<Rightarrow> 's http_handler) option
   \<Rightarrow> 's http_handler \<Rightarrow> 's http_handler" where
  "resolver_handler mac clock cfg jwtMW nxt r w s =
     (let allowHMAC = hc_Secret (rc_Headers cfg) \<noteq> []
      in if allowHMAC \<and> hdr_Get (r_Header r) HdrSubjectSig \<noteq> []
         then (case Verify mac (clock s) (r_Header r) (rc_Headers cfg) of
                 Inl err \<Rightarrow> reject (NewUnauthorized ''invalid subject signature'' []) w s
               | Inr user \<Rightarrow> nxt (WithContext r (WithOrigin (WithUser (r_ctx r) user) OriginGateway)) w s)
         else case jwtMW of
                None \<Rightarrow> reject (NewUnauthorized ''gateway-signed subject headers required'' []) w s
              | Some mw \<Rightarrow>
                  (let authz = hdr_Get (r_Header r) ''Authorization''
                   in if authz = [] then reject (NewUnauthorized ''missing Authorization header'' []) w s
                      else if \<not> EqualFold (firstWord authz) ''bearer''
                      then reject (NewUnauthorized (''Authorization header must be '' @ [CHR 0x27] @ ''Bearer <token>'' @ [CHR 0x27]) []) w s
                      else mw (\<lambda>rr ww ss. nxt (WithContext rr (WithOrigin (r_ctx rr) OriginDirect)) ww ss) r w s))"

definition resolver_Middleware ::
  "(string \<Rightarrow> string \<Rightarrow> string) \<Rightarrow> 'k parser \<Rightarrow> (string \<Rightarrow> 'k fetch) \<Rightarrow> ('s \<Rightarrow> int) \<Rightarrow> string \<Rightarrow> ResolverConfig
   \<Rightarrow> string + ('s http_handler \<Rightarrow> 's http_handler)" where
  "resolver_Middleware mac parse fetch clock DX_ENV cfg =
     (if hc_Secret (rc_Headers cfg) = [] \<and> \<not> rc_AllowDirect cfg
      then Inl ''resolver.Middleware: at least one of Headers.Secret or AllowDirect must be set''
      else if rc_AllowDirect cfg
      then (case jwt_Middleware parse fetch clock DX_ENV (rc_JWT cfg) of
              Inl p \<Rightarrow> Inl p
            | Inr mw \<Rightarrow> Inr (resolver_handler mac clock cfg (Some mw)))
      else Inr (resolver_handler mac clock cfg None))"

definition RequireGatewayOrigin :: "'s http_handler \<Rightarrow> 's http_handler" where
  "RequireGatewayOrigin nxt r w s =
     (if OriginFromCtx (r_ctx r) \<noteq> Some OriginGateway
      then reject (NewForbidden ''this endpoint is only accessible via the gateway'' []) w s
      else nxt r w s)"

subsection \<open>Sets of roles and scopes\<close>

lemma map_of_fold_set: "map_of (fold (\<lambda>k s. map_put k () s) ks m) x = (if x \<in> set ks then Some () else map_of m x)"
  by (induction ks arbitrary: m) auto

lemma RoleSet_Has_New [simp]: "RoleSet_Has (NewRoleSet roles) r \<longleftrightarrow> r \<in> set roles"
  by (simp add: RoleSet_Has_def NewRoleSet_def map_of_fold_set)

lemma RoleSet_HasAny_New [simp]: "RoleSet_HasAny (NewRoleSet roles) rs \<longleftrightarrow> set rs \<inter> set roles \<noteq> {}"
  by (induction rs) auto

lemma ScopeSet_Has_New: "ScopeSet_Has (NewScopeSet scopes) sc \<longleftrightarrow> ScopeWildcard \<in> set scopes \<or> sc \<in> set scopes"
  by (simp add: ScopeSet_Has_def NewScopeSet_def map_of_fold_set)

lemma scope_granted_iff:
  "scope_granted scope entityID es \<longleftrightarrow>
     (\<exists>e \<in> set es. ds_EntityID e \<in> {entityID, ''*''} \<and> ds_Scope e \<in> {scope, ScopeWildcard})"
  by (induction es) auto

lemma rolesToString_from_Suc: "rolesToString_from (Suc i) rs out = out @ concat (map (\<lambda>r. '', '' @ r) rs)"
  by (induction rs arbitrary: i out) auto

lemma strings_Join_Cons: "strings_Join (x # xs) sep = x @ concat (map (\<lambda>r. sep @ r) xs)"
  by (induction xs arbitrary: x) auto

lemma rolesToString_Join: "rolesToString roles = strings_Join roles '', ''"
  by (cases roles) (simp_all add: rolesToString_def rolesToString_from_Suc strings_Join_Cons)

text \<open>\<^verbatim>\<open>AllRoles\<close>: every role once, whatever order the runtime walks the client map in.\<close>

definition roles_inv :: "string set \<Rightarrow> (string \<times> unit) list \<times> string list \<Rightarrow> bool" where
  "roles_inv R st \<longleftrightarrow> set (snd st) = R \<and> distinct (snd st) \<and> (\<forall>r. map_of (fst st) r \<noteq> None \<longleftrightarrow> r \<in> R)"

lemma add_role_inv: "roles_inv R st \<Longrightarrow> roles_inv (insert r R) (add_role r st)"
  by (cases "r \<in> R") (auto simp: roles_inv_def add_role_def insert_absorb)

lemma add_roles_inv: "roles_inv R st \<Longrightarrow> roles_inv (R \<union> set rs) (fold add_role rs st)"
proof (induction rs arbitrary: R st)
  case (Cons r rs)
  then show ?case using Cons.IH [OF add_role_inv [OF Cons.prems]] by simp
qed simp

lemma add_clients_inv:
  "roles_inv R st \<Longrightarrow>
     roles_inv (R \<union> (\<Union>(c, rs) \<in> set m. set rs)) (fold (\<lambda>(client, roles). fold add_role roles) m st)"
proof (induction m arbitrary: R st)
  case (Cons x m)
  obtain c rs where x: "x = (c, rs)" by (cases x)
  from Cons.IH [OF add_roles_inv [OF Cons.prems]] show ?case
    unfolding x by (simp add: Un_assoc)
qed simp

lemma AllRoles_inv:
  "roles_inv (set (cl_RealmAccess c) \<union> (\<Union>(k, rs) \<in> set (cl_ResourceAccess c). set rs))
     (fold (\<lambda>(client, roles). fold add_role roles) (cl_ResourceAccess c) (fold add_role (cl_RealmAccess c) ([], [])))"
proof -
  have "roles_inv {} ([], [])" by (simp add: roles_inv_def)
  from add_clients_inv [OF add_roles_inv [OF this]] show ?thesis by simp
qed

lemma set_AllRoles: "set (AllRoles c) = set (cl_RealmAccess c) \<union> (\<Union>(k, rs) \<in> set (cl_ResourceAccess c). set rs)"
  and distinct_AllRoles: "distinct (AllRoles c)"
  using AllRoles_inv [of c] by (simp_all add: roles_inv_def AllRoles_def)

lemma joinRoles_set: "distinct xs \<Longrightarrow> distinct ys \<Longrightarrow> set xs = set ys \<Longrightarrow> joinRoles xs = joinRoles ys"
  using sorted_list_of_set_sort_remdups [of xs] sorted_list_of_set_sort_remdups [of ys]
  by (auto simp: joinRoles_def distinct_remdups_id)

lemma HasRole_iff: "HasRole c role \<longleftrightarrow> role \<in> set (AllRoles c)"
  by (simp add: HasRole_def list_ex_iff)

text \<open>
  The roles of a token do not depend on the order in which Go walks the map of clients: two tokens
  that differ in that order only have the same roles without repetition, get the same answer from
  \<^verbatim>\<open>HasRole\<close> and from the role middleware, and are signed by the gateway with the same role header.
\<close>

theorem roles_independent_of_map_order:
  assumes "set (cl_ResourceAccess c) = set (cl_ResourceAccess d)" and "cl_RealmAccess c = cl_RealmAccess d"
  shows "set (AllRoles c) = set (AllRoles d) \<and> distinct (AllRoles c) \<and> HasRole c role = HasRole d role
    \<and> RoleSet_HasAny (NewRoleSet required) (AllRoles c) = RoleSet_HasAny (NewRoleSet required) (AllRoles d)
    \<and> joinRoles (AllRoles c) = joinRoles (AllRoles d)"
proof -
  have s: "set (AllRoles c) = set (AllRoles d)" by (simp add: set_AllRoles assms)
  then show ?thesis
    using joinRoles_set [OF distinct_AllRoles distinct_AllRoles s] by (simp add: distinct_AllRoles HasRole_iff)
qed

definition token_claims :: DxClaims where
  "token_claims = \<lparr>cl_Issuer = ''https://kc/realms/dx'', cl_Subject = ''bob'', cl_Audience = [''account'', ''files''],
     cl_ExpiresAt = Some 200, cl_Email = ''bob@x'', cl_EmailVerified = True, cl_Name = ''Bob'', cl_PreferredUsername = ''bob'',
     cl_RealmAccess = [''consumer''], cl_ResourceAccess = [(''a'', [''org_admin'', ''consumer'']), (''b'', [''delegate''])],
     cl_OrganisationID = ''org1'', cl_OrganisationName = [], cl_DelegatorID = [], cl_Scope = [], cl_DelegationScopes = []\<rparr>"

theorem roles_independent_of_map_order_witness:
  "joinRoles (AllRoles token_claims) =
   joinRoles (AllRoles (token_claims\<lparr>cl_ResourceAccess := rev (cl_ResourceAccess token_claims)\<rparr>)) \<and>
   AllRoles token_claims \<noteq> AllRoles (token_claims\<lparr>cl_ResourceAccess := rev (cl_ResourceAccess token_claims)\<rparr>)"
proof
  show "joinRoles (AllRoles token_claims) =
      joinRoles (AllRoles (token_claims\<lparr>cl_ResourceAccess := rev (cl_ResourceAccess token_claims)\<rparr>))"
    using roles_independent_of_map_order [of token_claims "token_claims\<lparr>cl_ResourceAccess := rev (cl_ResourceAccess token_claims)\<rparr>"]
    by simp
  show "AllRoles token_claims \<noteq> AllRoles (token_claims\<lparr>cl_ResourceAccess := rev (cl_ResourceAccess token_claims)\<rparr>)"
    by (simp add: AllRoles_def add_role_def token_claims_def)
qed

subsection \<open>Middlewares decide before they call\<close>

text \<open>A middleware passes a request when it runs the next handler, whatever that is, on \<open>r'\<close>; it
  refuses when it answers with one of the given statuses and leaves the world alone.\<close>

definition passes :: "('s http_handler \<Rightarrow> 's http_handler) \<Rightarrow> request \<Rightarrow> DxErrorResponse writer \<Rightarrow> 's \<Rightarrow> request \<Rightarrow> bool" where
  "passes M r w s r' \<longleftrightarrow> (\<forall>nxt. M nxt r w s = nxt r' w s)"

definition refuses :: "('s http_handler \<Rightarrow> 's http_handler) \<Rightarrow> request \<Rightarrow> DxErrorResponse writer \<Rightarrow> 's \<Rightarrow> int set \<Rightarrow> bool" where
  "refuses M r w s S \<longleftrightarrow> (\<exists>e. HTTPStatus e \<in> S \<and> is_dx e \<and> (\<forall>nxt. M nxt r w s = (WriteError w e, s)))"

lemma refuses_401:
  "(\<And>nxt. M nxt r w s = reject (NewUnauthorized m []) w s) \<Longrightarrow> 401 \<in> S \<Longrightarrow> refuses M r w s S"
  by (auto simp: refuses_def reject_def NewUnauthorized_def HTTPStatus_def httpStatusMap_def code_defs is_dx_def
      intro!: exI [of _ "BaseDxError ErrUnauthorized m [] None"])

lemma refuses_403:
  "(\<And>nxt. M nxt r w s = reject (NewForbidden m []) w s) \<Longrightarrow> 403 \<in> S \<Longrightarrow> refuses M r w s S"
  by (auto simp: refuses_def reject_def NewForbidden_def HTTPStatus_def httpStatusMap_def code_defs is_dx_def
      intro!: exI [of _ "BaseDxError ErrForbidden m [] None"])

lemma passes_comp: "passes M r w s r' \<Longrightarrow> passes N r' w s r'' \<Longrightarrow> passes (\<lambda>nxt. M (N nxt)) r w s r''"
  by (simp add: passes_def)

lemma refuses_comp: "passes M r w s r' \<Longrightarrow> refuses N r' w s S \<Longrightarrow> refuses (\<lambda>nxt. M (N nxt)) r w s S"
  by (auto simp: passes_def refuses_def)

lemma refuses_first: "refuses M r w s S \<Longrightarrow> S \<subseteq> S' \<Longrightarrow> refuses (\<lambda>nxt. M (N nxt)) r w s S'"
  unfolding refuses_def by blast

lemma refuses_mono: "refuses M r w s S \<Longrightarrow> S \<subseteq> S' \<Longrightarrow> refuses M r w s S'"
  unfolding refuses_def by blast

lemma ForRoles_cases:
  "(case UserFromCtx (r_ctx r) of
      None \<Rightarrow> refuses (ForRoles roles) r w s {401}
    | Some u \<Rightarrow> (if set (u_Roles u) \<inter> set roles \<noteq> {} then passes (ForRoles roles) r w s r
                 else refuses (ForRoles roles) r w s {403}))"
proof (cases "UserFromCtx (r_ctx r)")
  case None
  then show ?thesis by (auto intro!: refuses_401 simp: ForRoles_def)
next
  case (Some u)
  then show ?thesis
    by (auto intro!: refuses_403 [where m = "''insufficient role: one of '' @ rolesToString roles @ '' required''"]
        simp: ForRoles_def passes_def)
qed

lemma ForScope_cases:
  "(case UserFromCtx (r_ctx r) of
      None \<Rightarrow> refuses (ForScope scope param) r w s {401}
    | Some u \<Rightarrow> (if scope_granted scope (URLParam r param) (u_Scopes u) then passes (ForScope scope param) r w s r
                 else refuses (ForScope scope param) r w s {403}))"
proof (cases "UserFromCtx (r_ctx r)")
  case None
  then show ?thesis by (auto intro!: refuses_401 simp: ForScope_def)
next
  case (Some u)
  then show ?thesis
    by (auto intro!: refuses_403 [where m = "''delegation scope '' @ scope @ '' not granted for this entity''"]
        simp: ForScope_def passes_def)
qed

lemma RequireGatewayOrigin_cases:
  "(if OriginFromCtx (r_ctx r) = Some OriginGateway then passes RequireGatewayOrigin r w s r
    else refuses RequireGatewayOrigin r w s {403})"
  by (auto intro!: refuses_403 simp: RequireGatewayOrigin_def passes_def)

subsection \<open>The two ways to an identity\<close>

definition identified :: "request \<Rightarrow> DxUser \<Rightarrow> Origin \<Rightarrow> request" where
  "identified r u org = WithContext r (WithOrigin (WithUser (r_ctx r) u) org)"

text \<open>The options the validator of a configuration parses with.\<close>

definition parser_options :: "JwtConfig \<Rightarrow> ParserOptions" where
  "parser_options cfg =
     \<lparr>po_Leeway = jc_LeewaySeconds cfg * Second, po_IssuedAt = True, po_ValidMethods = [''RS256''],
      po_Issuer = Some (jc_Issuer cfg), po_Audience = Some (jc_Audience cfg)\<rparr>"

text \<open>A bearer token in the Authorization header that the parser accepts with these options.\<close>

definition bearer_claims ::
  "'k parser \<Rightarrow> (string \<Rightarrow> 'k fetch) \<Rightarrow> int \<Rightarrow> JwtConfig \<Rightarrow> request \<Rightarrow> string \<Rightarrow> 'k \<Rightarrow> DxClaims \<Rightarrow> bool" where
  "bearer_claims parse fetch now cfg r token keys claims \<longleftrightarrow>
     (\<exists>scheme. cut_at (CHR '' '') (hdr_Get (r_Header r) ''Authorization'') = Some (scheme, token) \<and> EqualFold scheme ''bearer'') \<and>
     fetch (jc_JwksURL cfg) = Fetched keys \<and> parse (parser_options cfg) keys now token = Inr (claims, True)"

lemma jwt_New_Inr:
  assumes "jwt_New fetch cfg = Inr v" and "jc_Enabled cfg"
  shows "v_parser v = parser_options cfg \<and> fetch (jc_JwksURL cfg) = Fetched (v_keyfn v) \<and> jc_JwksURL cfg \<noteq> [] \<and>
    jc_Issuer cfg \<noteq> [] \<and> jc_Audience cfg \<noteq> [] \<and> 0 \<le> jc_LeewaySeconds cfg \<and> jc_LeewaySeconds cfg \<le> 300"
proof -
  from assms have c: "jc_JwksURL cfg \<noteq> []" "jc_Issuer cfg \<noteq> []" "jc_Audience cfg \<noteq> []"
      "0 \<le> jc_LeewaySeconds cfg" "jc_LeewaySeconds cfg \<le> 300"
    by (auto simp: jwt_New_def JwtConfig_Validate_def maxLeewaySeconds_def split: if_splits)
  from c have "in_int64 (jc_LeewaySeconds cfg * Second)" by (simp add: in_int64_def Second_def)
  then have "int64 (jc_LeewaySeconds cfg * Second) = jc_LeewaySeconds cfg * Second" by (rule int64_id)
  with assms c show ?thesis
    by (auto simp: jwt_New_def NewKeycloakJWKS_def parser_options_def split: option.splits sum.splits fetch.splits)
qed

lemma jwt_handler_cases:
  assumes v: "v_parser v = parser_options cfg" "fetch (jc_JwksURL cfg) = Fetched (v_keyfn v)"
  shows "refuses (jwt_handler parse clock v) r w s {401} \<or>
    (\<exists>token claims. bearer_claims parse fetch (clock s) cfg r token (v_keyfn v) claims \<and>
       passes (jwt_handler parse clock v) r w s (WithContext r (WithUser (r_ctx r) (claims_user claims))))"
proof -
  let ?a = "hdr_Get (r_Header r) ''Authorization''"
  consider "?a = []" | "?a \<noteq> []" "cut_at (CHR '' '') ?a = None"
    | scheme token where "?a \<noteq> []" "cut_at (CHR '' '') ?a = Some (scheme, token)" by fastforce
  then show ?thesis
  proof cases
    case 1
    then show ?thesis by (intro disjI1 refuses_401) (simp_all add: jwt_handler_def)
  next
    case 2
    then show ?thesis by (intro disjI1 refuses_401) (simp_all add: jwt_handler_def)
  next
    case 3
    show ?thesis
    proof (cases "jwt_Validate parse v (clock s) token")
      case (Inl e)
      with 3 show ?thesis
        by (cases "EqualFold scheme ''bearer''"; intro disjI1 refuses_401) (simp_all add: jwt_handler_def)
    next
      case (Inr claims)
      then have p: "parse (parser_options cfg) (v_keyfn v) (clock s) token = Inr (claims, True)"
        by (auto simp: jwt_Validate_def v split: sum.splits if_splits)
      show ?thesis
      proof (cases "EqualFold scheme ''bearer''")
        case True
        with 3 Inr p v show ?thesis by (auto simp: jwt_handler_def passes_def bearer_claims_def)
      next
        case False
        with 3 show ?thesis by (intro disjI1 refuses_401) (simp_all add: jwt_handler_def)
      qed
    qed
  qed
qed

text \<open>The identity a direct caller gets: that of an accepted token, or the fixed development user when
  validation is switched off outside production.\<close>

definition direct_identity ::
  "'k parser \<Rightarrow> (string \<Rightarrow> 'k fetch) \<Rightarrow> int \<Rightarrow> string \<Rightarrow> ResolverConfig \<Rightarrow> request \<Rightarrow> DxUser \<Rightarrow> bool" where
  "direct_identity parse fetch now DX_ENV cfg r u \<longleftrightarrow>
     rc_AllowDirect cfg \<and>
     (if jc_Enabled (rc_JWT cfg)
      then \<exists>token keys claims. bearer_claims parse fetch now (rc_JWT cfg) r token keys claims \<and> u = claims_user claims
      else u = mockUser \<and> \<not> EqualFold DX_ENV ''production'' \<and> \<not> EqualFold DX_ENV ''prod'')"

lemma jwt_Middleware_cases:
  assumes "jwt_Middleware parse fetch clock DX_ENV (rc_JWT cfg) = Inr mw" and "rc_AllowDirect cfg"
  shows "refuses mw r w s {401} \<or>
    (\<exists>u. direct_identity parse fetch (clock s) DX_ENV cfg r u \<and> passes mw r w s (WithContext r (WithUser (r_ctx r) u)))"
proof (cases "jc_Enabled (rc_JWT cfg)")
  case True
  with assms obtain v where v: "jwt_New fetch (rc_JWT cfg) = Inr v" "mw = jwt_handler parse clock v"
    by (auto simp: jwt_Middleware_def split: sum.splits)
  from jwt_New_Inr [OF v(1) True]
  have "v_parser v = parser_options (rc_JWT cfg)" "fetch (jc_JwksURL (rc_JWT cfg)) = Fetched (v_keyfn v)" by auto
  from jwt_handler_cases [of v "rc_JWT cfg" fetch parse clock r w s, OF this] show ?thesis
    using True assms(2) v(2) by (auto simp: direct_identity_def)
next
  case False
  with assms show ?thesis by (auto simp: jwt_Middleware_def direct_identity_def passes_def split: if_splits)
qed

lemma passes_tagged:
  "passes mw r w s (WithContext r (WithUser (r_ctx r) u)) \<Longrightarrow>
   passes (\<lambda>nxt. mw (\<lambda>rr ww ss. nxt (WithContext rr (WithOrigin (r_ctx rr) OriginDirect)) ww ss)) r w s
     (identified r u OriginDirect)"
  by (simp add: passes_def identified_def WithContext_def)

lemma resolver_cases:
  assumes M: "resolver_Middleware mac parse fetch clock DX_ENV cfg = Inr M"
  shows "(if hc_Secret (rc_Headers cfg) \<noteq> [] \<and> hdr_Get (r_Header r) HdrSubjectSig \<noteq> []
          then (case Verify mac (clock s) (r_Header r) (rc_Headers cfg) of
                  Inl _ \<Rightarrow> refuses M r w s {401}
                | Inr u \<Rightarrow> passes M r w s (identified r u OriginGateway))
          else refuses M r w s {401} \<or>
               (\<exists>u. direct_identity parse fetch (clock s) DX_ENV cfg r u \<and> passes M r w s (identified r u OriginDirect)))"
proof -
  obtain jm where jm: "M = resolver_handler mac clock cfg jm"
    and some: "\<And>mw. jm = Some mw \<Longrightarrow> jwt_Middleware parse fetch clock DX_ENV (rc_JWT cfg) = Inr mw \<and> rc_AllowDirect cfg"
    using M by (auto simp: resolver_Middleware_def split: if_splits sum.splits)
  show ?thesis
  proof (cases "hc_Secret (rc_Headers cfg) \<noteq> [] \<and> hdr_Get (r_Header r) HdrSubjectSig \<noteq> []")
    case True
    then show ?thesis
      by (cases "Verify mac (clock s) (r_Header r) (rc_Headers cfg)")
        (auto simp: jm resolver_handler_def passes_def identified_def intro!: refuses_401)
  next
    case hm: False
    let ?a = "hdr_Get (r_Header r) ''Authorization''"
    show ?thesis
    proof (cases "jm = None \<or> ?a = [] \<or> \<not> EqualFold (firstWord ?a) ''bearer''")
      case True
      have "refuses M r w s {401}"
      proof (cases jm)
        case None
        with hm show ?thesis by (intro refuses_401) (auto simp: jm resolver_handler_def)
      next
        case (Some mw)
        with True hm show ?thesis
          by (cases "?a = []"; intro refuses_401) (auto simp: jm resolver_handler_def)
      qed
      then show ?thesis using hm by auto
    next
      case False
      then obtain mw where mw: "jm = Some mw" by auto
      with False hm have M': "\<And>nxt. M nxt r w s = mw (\<lambda>rr ww ss. nxt (WithContext rr (WithOrigin (r_ctx rr) OriginDirect)) ww ss) r w s"
        by (auto simp: jm resolver_handler_def Let_def)
      from jwt_Middleware_cases [of parse fetch clock DX_ENV cfg mw r w s] some [OF mw]
      consider "refuses mw r w s {401}"
        | u where "direct_identity parse fetch (clock s) DX_ENV cfg r u" "passes mw r w s (WithContext r (WithUser (r_ctx r) u))"
        by blast
      then show ?thesis
      proof cases
        case 1
        then have "refuses M r w s {401}" by (auto simp: refuses_def M')
        then show ?thesis using hm by auto
      next
        case 2
        from passes_tagged [OF 2(2)] have "passes M r w s (identified r u OriginDirect)"
          by (simp add: passes_def M')
        then show ?thesis using hm 2(1) by auto
      qed
    qed
  qed
qed

lemma identified_simps [simp]:
  "UserFromCtx (r_ctx (identified r u org)) = Some u" "OriginFromCtx (r_ctx (identified r u org)) = Some org"
  "r_Header (identified r u org) = r_Header r" "r_params (identified r u org) = r_params r"
  by (simp_all add: identified_def WithContext_def ctx_defs)

lemma ForRoles_identified:
  assumes "passes M r w s (identified r u org)"
  shows "if set (u_Roles u) \<inter> set roles \<noteq> {} then passes (\<lambda>nxt. M (ForRoles roles nxt)) r w s (identified r u org)
    else refuses (\<lambda>nxt. M (ForRoles roles nxt)) r w s {401, 403}"
proof (cases "set (u_Roles u) \<inter> set roles = {}")
  case True
  then have "refuses (ForRoles roles) (identified r u org) w s {403}"
    using ForRoles_cases [where r = "identified r u org" and roles = roles and w = w and s = s] by simp
  then have "refuses (\<lambda>nxt. M (ForRoles roles nxt)) r w s {403}" by (rule refuses_comp [OF assms])
  then show ?thesis using True by (auto intro: refuses_mono)
next
  case False
  then have "passes (ForRoles roles) (identified r u org) w s (identified r u org)"
    using ForRoles_cases [where r = "identified r u org" and roles = roles and w = w and s = s] by simp
  then show ?thesis using False passes_comp [OF assms] by simp
qed

text \<open>What golang-jwt documents for a parser built with options: an accepted token is signed, with one
  of the allowed algorithms, by a key of the key set; issuer and audience are checked when given; a
  token that has an expiry is not older than it by more than the leeway. \<open>signed_by keys alg token claims\<close>
  stands for the signature check.\<close>

definition parser_ok :: "('k \<Rightarrow> string \<Rightarrow> string \<Rightarrow> DxClaims \<Rightarrow> bool) \<Rightarrow> 'k parser \<Rightarrow> bool" where
  "parser_ok signed_by parse \<longleftrightarrow>
     (\<forall>opts keys now token claims. parse opts keys now token = Inr (claims, True) \<longrightarrow>
        (\<exists>alg \<in> set (po_ValidMethods opts). signed_by keys alg token claims) \<and>
        (\<forall>i. po_Issuer opts = Some i \<longrightarrow> cl_Issuer claims = i) \<and>
        (\<forall>a. po_Audience opts = Some a \<longrightarrow> a \<in> set (cl_Audience claims)) \<and>
        (\<forall>e. cl_ExpiresAt claims = Some e \<longrightarrow> now < e * Second + po_Leeway opts))"

text \<open>A direct caller with a genuine token for this service.\<close>

definition genuine_token ::
  "('k \<Rightarrow> string \<Rightarrow> string \<Rightarrow> DxClaims \<Rightarrow> bool) \<Rightarrow> (string \<Rightarrow> 'k fetch) \<Rightarrow> int \<Rightarrow> JwtConfig \<Rightarrow> request \<Rightarrow> DxUser \<Rightarrow> bool" where
  "genuine_token signed_by fetch now cfg r u \<longleftrightarrow>
     (\<exists>token keys claims scheme.
        cut_at (CHR '' '') (hdr_Get (r_Header r) ''Authorization'') = Some (scheme, token) \<and> EqualFold scheme ''bearer'' \<and>
        fetch (jc_JwksURL cfg) = Fetched keys \<and> signed_by keys ''RS256'' token claims \<and>
        cl_Issuer claims = jc_Issuer cfg \<and> jc_Issuer cfg \<noteq> [] \<and>
        jc_Audience cfg \<in> set (cl_Audience claims) \<and> jc_Audience cfg \<noteq> [] \<and>
        (\<forall>e. cl_ExpiresAt claims = Some e \<longrightarrow> now < (e + 300) * Second) \<and> u = claims_user claims)"

lemma direct_identity_genuine:
  assumes "direct_identity parse fetch now DX_ENV cfg r u" and "parser_ok signed_by parse"
    and "EqualFold DX_ENV ''production''"
    and M: "resolver_Middleware mac parse fetch clock DX_ENV cfg = Inr M"
  shows "genuine_token signed_by fetch now (rc_JWT cfg) r u"
proof -
  from assms have en: "rc_AllowDirect cfg" "jc_Enabled (rc_JWT cfg)" by (auto simp: direct_identity_def split: if_splits)
  with M obtain v where v: "jwt_New fetch (rc_JWT cfg) = Inr v"
    by (auto simp: resolver_Middleware_def jwt_Middleware_def split: if_splits sum.splits)
  note c = jwt_New_Inr [OF v en(2)]
  from assms(1) en obtain token keys claims scheme where
    h: "cut_at (CHR '' '') (hdr_Get (r_Header r) ''Authorization'') = Some (scheme, token)" "EqualFold scheme ''bearer''"
      "fetch (jc_JwksURL (rc_JWT cfg)) = Fetched keys" "u = claims_user claims"
    and p: "parse (parser_options (rc_JWT cfg)) keys now token = Inr (claims, True)"
    by (auto simp: direct_identity_def bearer_claims_def)
  from assms(2) p have ok: "signed_by keys ''RS256'' token claims" "cl_Issuer claims = jc_Issuer (rc_JWT cfg)"
    "jc_Audience (rc_JWT cfg) \<in> set (cl_Audience claims)"
    "\<forall>e. cl_ExpiresAt claims = Some e \<longrightarrow> now < e * Second + jc_LeewaySeconds (rc_JWT cfg) * Second"
    unfolding parser_ok_def by (fastforce simp: parser_options_def)+
  have "now < (e + 300) * Second" if "cl_ExpiresAt claims = Some e" for e
    using ok(4) that c by (force simp: Second_def)
  with h ok c show ?thesis unfolding genuine_token_def by blast
qed

text \<open>
  C1: In production, a route behind the resolver and a role check runs its handler only for a proved
  identity. Every request is either refused with 401 or 403, with the world unchanged, or passed on
  with a user that holds one of the required roles and is identified by the only source its headers
  allow: signed subject headers that \<^verbatim>\<open>Verify\<close> accepts, or, when no signature was sent or none is
  configured, a bearer token signed with RS256 by a key of the configured key set, with the configured
  issuer and audience, and expired by at most 300 seconds. A bad signature never falls back to the token.
\<close>

theorem protected_route_sound:
  assumes M: "resolver_Middleware mac parse fetch clock DX_ENV cfg = Inr M"
    and ok: "parser_ok signed_by parse" and prod: "EqualFold DX_ENV ''production''"
  shows "refuses (\<lambda>nxt. M (ForRoles roles nxt)) r w s {401, 403} \<or>
    (\<exists>u org. passes (\<lambda>nxt. M (ForRoles roles nxt)) r w s (identified r u org) \<and> set (u_Roles u) \<inter> set roles \<noteq> {} \<and>
       (if hc_Secret (rc_Headers cfg) \<noteq> [] \<and> hdr_Get (r_Header r) HdrSubjectSig \<noteq> []
        then org = OriginGateway \<and> Verify mac (clock s) (r_Header r) (rc_Headers cfg) = Inr u
        else org = OriginDirect \<and> rc_AllowDirect cfg \<and> genuine_token signed_by fetch (clock s) (rc_JWT cfg) r u))"
proof -
  let ?hmac = "hc_Secret (rc_Headers cfg) \<noteq> [] \<and> hdr_Get (r_Header r) HdrSubjectSig \<noteq> []"
  consider (no) "refuses M r w s {401}"
    | (gw) u where "?hmac" "Verify mac (clock s) (r_Header r) (rc_Headers cfg) = Inr u" "passes M r w s (identified r u OriginGateway)"
    | (direct) u where "\<not> ?hmac" "direct_identity parse fetch (clock s) DX_ENV cfg r u" "passes M r w s (identified r u OriginDirect)"
    using resolver_cases [OF M, where r = r and s = s and w = w]
    by (cases "Verify mac (clock s) (r_Header r) (rc_Headers cfg)"; cases ?hmac) auto
  then show ?thesis
  proof cases
    case no
    then show ?thesis by (intro disjI1) (rule refuses_first, auto)
  next
    case gw
    then show ?thesis using ForRoles_identified [OF gw(3), of roles] by (auto split: if_splits)
  next
    case direct
    note g = direct_identity_genuine [OF direct(2) ok prod M]
    have a: "rc_AllowDirect cfg" using direct(2) by (simp add: direct_identity_def)
    show ?thesis using direct(1) g a ForRoles_identified [OF direct(3), of roles] by (auto split: if_splits)
  qed
qed

text \<open>
  C14: A route that also requires the gateway as origin runs its handler exactly for the users whose
  signed headers verify and who hold a required role. Whatever else a request carries, a valid token
  included, and whatever the configuration of the token path, it is refused.
\<close>

theorem gateway_route_exact:
  assumes M: "resolver_Middleware mac parse fetch clock DX_ENV cfg = Inr M"
  shows "(case Verify mac (clock s) (r_Header r) (rc_Headers cfg) of
            Inr u \<Rightarrow>
              (if hc_Secret (rc_Headers cfg) \<noteq> [] \<and> set (u_Roles u) \<inter> set roles \<noteq> {}
               then passes (\<lambda>nxt. M (RequireGatewayOrigin (ForRoles roles nxt))) r w s (identified r u OriginGateway)
               else refuses (\<lambda>nxt. M (RequireGatewayOrigin (ForRoles roles nxt))) r w s {401, 403})
          | Inl _ \<Rightarrow> refuses (\<lambda>nxt. M (RequireGatewayOrigin (ForRoles roles nxt))) r w s {401, 403})"
proof -
  let ?hmac = "hc_Secret (rc_Headers cfg) \<noteq> [] \<and> hdr_Get (r_Header r) HdrSubjectSig \<noteq> []"
  let ?C = "\<lambda>nxt. M (RequireGatewayOrigin (ForRoles roles nxt))"
  have sig: "Verify mac (clock s) (r_Header r) (rc_Headers cfg) = Inr u \<Longrightarrow> hdr_Get (r_Header r) HdrSubjectSig \<noteq> []" for u
    by (auto simp: Verify_def)
  consider (no) "refuses M r w s {401}" "\<And>u. \<not> (?hmac \<and> Verify mac (clock s) (r_Header r) (rc_Headers cfg) = Inr u)"
    | (gw) u where "?hmac" "Verify mac (clock s) (r_Header r) (rc_Headers cfg) = Inr u" "passes M r w s (identified r u OriginGateway)"
    | (direct) u where "\<not> ?hmac" "passes M r w s (identified r u OriginDirect)"
    using resolver_cases [OF M, where r = r and s = s and w = w]
    by (cases "Verify mac (clock s) (r_Header r) (rc_Headers cfg)"; cases ?hmac) auto
  then show ?thesis
  proof cases
    case no
    have "refuses ?C r w s {401, 403}" by (rule refuses_first [OF no(1)]) simp
    then show ?thesis using no(2) sig by (auto split: sum.splits)
  next
    case gw
    have o: "passes (\<lambda>nxt. M (RequireGatewayOrigin nxt)) r w s (identified r u OriginGateway)"
      using RequireGatewayOrigin_cases [where r = "identified r u OriginGateway" and w = w and s = s] gw(3)
      by (auto intro: passes_comp)
    from ForRoles_identified [OF o, of roles] gw(1,2) show ?thesis by (auto split: if_splits)
  next
    case direct
    have "refuses (\<lambda>nxt. M (RequireGatewayOrigin nxt)) r w s {403}"
      using RequireGatewayOrigin_cases [where r = "identified r u OriginDirect" and w = w and s = s] direct(2) by (auto intro: refuses_comp)
    then have "refuses ?C r w s {401, 403}" by (rule refuses_first) simp
    then show ?thesis using direct(1) sig by (auto split: sum.splits)
  qed
qed

subsection \<open>A concrete service\<close>

text \<open>A parser that knows one token, checks everything the options ask for and honours the leeway.\<close>

definition toy_parse :: "nat parser" where
  "toy_parse opts keys now token =
     (if token = ''bobs-token'' \<and> keys = 7 \<and> ''RS256'' \<in> set (po_ValidMethods opts)
         \<and> po_Issuer opts \<in> {None, Some (cl_Issuer token_claims)}
         \<and> (case po_Audience opts of None \<Rightarrow> True | Some a \<Rightarrow> a \<in> set (cl_Audience token_claims))
         \<and> now < 200 * Second + po_Leeway opts
      then Inr (token_claims, True) else Inl (Opaque ''invalid''))"

definition toy_signed_by :: "nat \<Rightarrow> string \<Rightarrow> string \<Rightarrow> DxClaims \<Rightarrow> bool" where
  "toy_signed_by keys alg token claims \<longleftrightarrow> keys = 7 \<and> alg = ''RS256'' \<and> token = ''bobs-token'' \<and> claims = token_claims"

lemma toy_parser_ok: "parser_ok toy_signed_by toy_parse"
  by (auto simp: parser_ok_def toy_parse_def toy_signed_by_def token_claims_def split: if_splits option.splits)

definition files_cfg :: ResolverConfig where
  "files_cfg = \<lparr>rc_Headers = gateway_cfg,
     rc_JWT = \<lparr>jc_JwksURL = ''https://kc/certs'', jc_Issuer = ''https://kc/realms/dx'', jc_Audience = ''files'',
       jc_LeewaySeconds = 30, jc_RefreshInterval = 0, jc_Enabled = True\<rparr>,
     rc_AllowDirect = True\<rparr>"

definition files_mw :: "int http_handler \<Rightarrow> int http_handler" where
  "files_mw = (case resolver_Middleware toy_mac toy_parse (\<lambda>_. Fetched (7 :: nat)) id ''production'' files_cfg of
     Inl p \<Rightarrow> id | Inr M \<Rightarrow> M)"

lemma files_mw_ok: "resolver_Middleware toy_mac toy_parse (\<lambda>_. Fetched (7 :: nat)) id ''production'' files_cfg = Inr files_mw"
  by (simp add: files_mw_def resolver_Middleware_def files_cfg_def jwt_Middleware_def jwt_New_def JwtConfig_Validate_def
      NewKeycloakJWKS_def maxLeewaySeconds_def)

definition bobs_request :: request where
  "bobs_request = \<lparr>r_Method = ''GET'', r_Header = [(''Authorization'', [''Bearer bobs-token''])], r_ctx = background,
     r_params = Map.empty\<rparr>"

lemma bob_direct:
  "files_mw (ForRoles [''org_admin''] nxt) bobs_request w 210000000000 =
   nxt (identified bobs_request (claims_user token_claims) OriginDirect) w 210000000000"
proof -
  have cut: "cut_at (CHR '' '') ''Bearer bobs-token'' = Some (''Bearer'', ''bobs-token'')" by simp
  have b: "EqualFold ''Bearer'' ''bearer''" by code_simp
  have roles: "set (AllRoles token_claims) \<inter> {''org_admin''} \<noteq> {}"
    by (simp add: set_AllRoles token_claims_def)
  show ?thesis
    using roles
    by (simp add: files_mw_def resolver_Middleware_def files_cfg_def jwt_Middleware_def jwt_New_def JwtConfig_Validate_def
        NewKeycloakJWKS_def maxLeewaySeconds_def resolver_handler_def bobs_request_def hdr_Get_def HdrSubjectSig_def
        jwt_handler_def cut b firstWord_def jwt_Validate_def toy_parse_def int64_def Second_def
        token_claims_def [THEN arg_cong [where f = cl_Issuer]] token_claims_def [THEN arg_cong [where f = cl_Audience]]
        ForRoles_def WithContext_def ctx_defs identified_def claims_user_def)
qed

theorem protected_route_sound_witness:
  "(\<exists>u org. passes (\<lambda>nxt. files_mw (ForRoles [''org_admin''] nxt)) bobs_request fresh_writer 210000000000 (identified bobs_request u org) \<and>
       org = OriginDirect \<and> genuine_token toy_signed_by (\<lambda>_. Fetched 7) 210000000000 (rc_JWT files_cfg) bobs_request u)
   \<and> refuses (\<lambda>nxt. files_mw (ForRoles [''org_admin''] nxt)) (bobs_request\<lparr>r_Header := []\<rparr>) fresh_writer 210000000000 {401, 403}"
proof
  have prod: "EqualFold ''production'' ''production''" by (simp add: EqualFold_def)
  note ps = protected_route_sound [OF files_mw_ok toy_parser_ok prod, where roles = "[''org_admin'']" and w = fresh_writer and s = 210000000000]
  have nosig: "hdr_Get (r_Header bobs_request) HdrSubjectSig = []"
    by (simp add: bobs_request_def hdr_Get_def HdrSubjectSig_def)
  have "\<not> refuses (\<lambda>nxt. files_mw (ForRoles [''org_admin''] nxt)) bobs_request fresh_writer 210000000000 {401, 403}"
    unfolding refuses_def bob_direct
    by (auto dest!: spec [of _ "\<lambda>_ w s. (w, s + 1)"])
  with ps [of bobs_request] nosig show "\<exists>u org. passes (\<lambda>nxt. files_mw (ForRoles [''org_admin''] nxt)) bobs_request fresh_writer 210000000000 (identified bobs_request u org) \<and>
       org = OriginDirect \<and> genuine_token toy_signed_by (\<lambda>_. Fetched 7) 210000000000 (rc_JWT files_cfg) bobs_request u"
    by auto
  have "\<not> genuine_token toy_signed_by (\<lambda>_. Fetched 7) n c (bobs_request\<lparr>r_Header := []\<rparr>) u" for n c u
    by (auto simp: genuine_token_def)
  with ps [of "bobs_request\<lparr>r_Header := []\<rparr>"]
  show "refuses (\<lambda>nxt. files_mw (ForRoles [''org_admin''] nxt)) (bobs_request\<lparr>r_Header := []\<rparr>) fresh_writer 210000000000 {401, 403}"
    by auto
qed

theorem gateway_route_exact_witness:
  "passes (\<lambda>nxt. files_mw (RequireGatewayOrigin (ForRoles [''consumer''] nxt)))
     (bobs_request\<lparr>r_Header := Apply [] alice_headers\<rparr>) fresh_writer 160000000000
     (identified (bobs_request\<lparr>r_Header := Apply [] alice_headers\<rparr>) (delivered alice) OriginGateway)
   \<and> refuses (\<lambda>nxt. files_mw (RequireGatewayOrigin (ForRoles [''consumer''] nxt))) bobs_request fresh_writer 160000000000 {401, 403}"
proof
  note ge = gateway_route_exact [OF files_mw_ok, where roles = "[''consumer'']" and w = fresh_writer and s = 160000000000]
  have cfg: "rc_Headers files_cfg = gateway_cfg" by (simp add: files_cfg_def)
  have stale: "no_stale [] alice" by (simp add: no_stale_def)
  have v: "Verify toy_mac 160000000000 (Apply [] alice_headers) gateway_cfg = Inr (delivered alice)"
    using Verify_signed [OF alice_signed stale, of gateway_cfg 160000000000]
    by (simp add: gateway_cfg_def toy_mac_def in_validity_window_def time_Unix_def Second_def maxAge_def DefaultMaxAge_def)
  show "passes (\<lambda>nxt. files_mw (RequireGatewayOrigin (ForRoles [''consumer''] nxt)))
     (bobs_request\<lparr>r_Header := Apply [] alice_headers\<rparr>) fresh_writer 160000000000
     (identified (bobs_request\<lparr>r_Header := Apply [] alice_headers\<rparr>) (delivered alice) OriginGateway)"
    using ge [of "bobs_request\<lparr>r_Header := Apply [] alice_headers\<rparr>"] v
    by (simp add: cfg alice_delivered) (simp add: gateway_cfg_def)
  have "Verify toy_mac 160000000000 (r_Header bobs_request) gateway_cfg = Inl ErrNotSigned"
    by (simp add: Verify_def bobs_request_def hdr_Get_def HdrSubjectSig_def)
  with ge [of bobs_request]
  show "refuses (\<lambda>nxt. files_mw (RequireGatewayOrigin (ForRoles [''consumer''] nxt))) bobs_request fresh_writer 160000000000 {401, 403}"
    by (simp add: cfg)
qed

text \<open>With the token path allowed and validation disabled, any bearer header outside production makes the
  caller the development user.\<close>

lemma disabled_validation_injects_user:
  assumes "\<not> jc_Enabled (rc_JWT cfg)" "rc_AllowDirect cfg" "\<not> EqualFold DX_ENV ''production''" "\<not> EqualFold DX_ENV ''prod''"
    and "hdr_Get (r_Header r) HdrSubjectSig = []" "hdr_Get (r_Header r) ''Authorization'' = ''Bearer anything''"
  shows "\<exists>M. resolver_Middleware mac parse fetch clock DX_ENV cfg = Inr M \<and> passes M r w s (identified r mockUser OriginDirect)"
proof -
  have b: "EqualFold (firstWord ''Bearer anything'') ''bearer''"
    by code_simp
  show ?thesis
    using assms b
    by (auto simp: resolver_Middleware_def jwt_Middleware_def resolver_handler_def passes_def identified_def WithContext_def)
qed

text \<open>An expiry in a delegation entry plays no part in the scope check.\<close>

lemma scope_check_ignores_expiry:
  "scope_granted scope e (map (\<lambda>d. d\<lparr>ds_Expiry := f d\<rparr>) es) \<longleftrightarrow> scope_granted scope e es"
  by (auto simp: scope_granted_iff)

text \<open>The claim-level check knows no wildcards, the middleware does.\<close>

lemma scope_checks_agree_without_wildcards:
  assumes "\<forall>d \<in> set (cl_DelegationScopes c). dc_EntityID d \<noteq> ''*'' \<and> dc_Scope d \<noteq> ''*''"
  shows "scope_granted scope e (u_Scopes (claims_user c)) \<longleftrightarrow> HasScopeForEntity c scope e"
  using assms by (auto simp: scope_granted_iff claims_user_def HasScopeForEntity_def list_ex_iff ScopeWildcard_def)

end
