(* ===== verification/AppId.thy ===== *)
theory AppId
  imports Auth
begin

text \<open>
  Packages \<^verbatim>\<open>auth/appid\<close> (machine clients: service token, verification by the control plane with a cache
  of confirmed identities, the Basic middleware) and \<^verbatim>\<open>auth/fga\<close> (the client of the authorization
  service).

  The world \<open>'w\<close> holds everything outside: \<open>now\<close> reads the clock, \<open>http_Do\<close> is \<^verbatim>\<open>http.Client.Do\<close> with
  the whole response read, the stubs are the generated gRPC client, \<open>decode_token\<close> is the JSON decoder
  of the token response, \<open>sha256\<close> the hash.
\<close>

subsection \<open>Configuration\<close>

record AppConfig =
  ap_Enabled :: bool
  ap_Address :: string
  ap_TokenURL :: string
  ap_ClientID :: string
  ap_ClientSecret :: string
  ap_Scope :: string
  ap_CallTimeout :: int
  ap_VerifyCacheTTL :: int

definition AppConfig_Validate :: "AppConfig \<Rightarrow> goerr option" where
  "AppConfig_Validate c =
     (if \<not> ap_Enabled c then None
      else if ap_Address c = [] then Some (Opaque ''appid config: address is required'')
      else if ap_TokenURL c = [] \<or> ap_ClientID c = [] \<or> ap_ClientSecret c = []
      then Some (Opaque ''appid config: token_url, client_id and client_secret are required'')
      else None)"

definition callTimeout :: "AppConfig \<Rightarrow> int" where
  "callTimeout c = (if ap_CallTimeout c \<le> 0 then 5 * Second else ap_CallTimeout c)"

definition verifyCacheTTL :: "AppConfig \<Rightarrow> int" where
  "verifyCacheTTL c = (if ap_VerifyCacheTTL c \<le> 0 then 60 * Second else ap_VerifyCacheTTL c)"

definition token_scope :: "AppConfig \<Rightarrow> string" where
  "token_scope c = (if ap_Scope c = [] then ''grpc:controlplane'' else ap_Scope c)"

subsection \<open>The outside\<close>

record http_request =
  hq_Method :: string
  hq_URL :: string
  hq_Header :: Header
  hq_Body :: "string option"

record Principal =
  p_UserId :: string
  p_Roles :: "string list"
  p_OrganisationId :: string
  p_Scopes :: "string list"
  p_ExpiresAtEpoch :: int

record VerifyAppIdResponse =
  vr_Success :: bool
  vr_ErrorCode :: string
  vr_Principal :: Principal

datatype rpc_request =
    CheckItemAccessRequest (UserId: string) (EntityId: string) (Did: string)
  | ResolveDelegationRequest (DelegatorSub: string) (DelegateeSub: string)
  | GetItemRequest (ItemId: string) (ItemUserId: string)

record ('w, 'r) appenv =
  now :: "'w \<Rightarrow> int \<times> 'w"
  new_request :: "string \<Rightarrow> string \<Rightarrow> goerr option"
  http_Do :: "http_request \<Rightarrow> 'w \<Rightarrow> (goerr + int \<times> string) \<times> 'w"
  decode_token :: "string \<Rightarrow> goerr + (string \<times> int)"
  stub_VerifyAppId :: "int \<Rightarrow> string \<Rightarrow> string \<Rightarrow> string \<Rightarrow> 'w \<Rightarrow> (goerr + VerifyAppIdResponse) \<times> 'w"
  stub_call :: "int \<Rightarrow> string \<Rightarrow> rpc_request \<Rightarrow> 'w \<Rightarrow> (goerr + 'r) \<times> 'w"
  sha256 :: "string \<Rightarrow> string"

subsection \<open>The service token (token.go)\<close>

record tokenSource =
  ts_token :: string
  ts_expiresAt :: int

definition newTokenSource :: tokenSource where
  "newTokenSource = \<lparr>ts_token = [], ts_expiresAt = - unixToInternal * Second\<rparr>"

definition token_form :: "AppConfig \<Rightarrow> url_values" where
  "token_form cfg = [(''grant_type'', [''client_credentials'']), (''client_id'', [ap_ClientID cfg]),
     (''client_secret'', [ap_ClientSecret cfg]), (''scope'', [token_scope cfg])]"

definition Token ::
  "('w, 'r) appenv \<Rightarrow> AppConfig \<Rightarrow> tokenSource \<Rightarrow> 'w \<Rightarrow> (goerr + string) \<times> tokenSource \<times> 'w" where
  "Token E cfg t s =
     (let (t1, s1) = (if ts_token t \<noteq> [] then now E s else (0, s))
      in if ts_token t \<noteq> [] \<and> t1 + 30 * Second < ts_expiresAt t then (Inr (ts_token t), t, s1)
         else case new_request E ''POST'' (ap_TokenURL cfg) of
           Some e \<Rightarrow> (Inl (Errorf ''appid token: build request: '' e []), t, s1)
         | None \<Rightarrow>
             (let (resp, s2) = http_Do E
                    \<lparr>hq_Method = ''POST'', hq_URL = ap_TokenURL cfg,
                     hq_Header = hdr_Set ''Content-Type'' ''application/x-www-form-urlencoded'' [],
                     hq_Body = Some (values_Encode (token_form cfg))\<rparr> s1
              in case resp of
                   Inl e \<Rightarrow> (Inl (Errorf ''appid token: request: '' e []), t, s2)
                 | Inr (status, body) \<Rightarrow>
                     if status \<noteq> 200
                     then (Inl (Opaque (''appid token: keycloak returned '' @ itoa status)), t, s2)
                     else case decode_token E body of
                       Inl e \<Rightarrow> (Inl (Errorf ''appid token: decode response: '' e []), t, s2)
                     | Inr (accessToken, expiresIn) \<Rightarrow>
                         if accessToken = [] then (Inl (Opaque ''appid token: empty access_token''), t, s2)
                         else (let (t3, s3) = now E s2
                               in (Inr accessToken,
                                   \<lparr>ts_token = accessToken, ts_expiresAt = t3 + int64 (expiresIn * Second)\<rparr>, s3))))"

subsection \<open>Verification with a cache (client.go)\<close>

record verifyEntry =
  ve_user :: DxUser
  ve_expiresAt :: int

record Client =
  ac_cfg :: AppConfig
  ac_tokens :: tokenSource
  ac_cache :: "(string \<times> verifyEntry) list"

datatype verify_error = VerificationError (ve_Code: string) | OtherError goerr

definition NewClient :: "(string \<Rightarrow> goerr option) \<Rightarrow> AppConfig \<Rightarrow> goerr + Client" where
  "NewClient Dial cfg =
     (case AppConfig_Validate cfg of
        Some e \<Rightarrow> Inl e
      | None \<Rightarrow>
          (case Dial (ap_Address cfg) of
             Some e \<Rightarrow> Inl (Errorf ''appid.NewClient: '' e [])
           | None \<Rightarrow> Inr \<lparr>ac_cfg = cfg, ac_tokens = newTokenSource, ac_cache = []\<rparr>))"

text \<open>The bearer token and the deadline an RPC is sent with.\<close>

definition authCtx :: "('w, 'r) appenv \<Rightarrow> Client \<Rightarrow> 'w \<Rightarrow> (goerr + int \<times> string) \<times> Client \<times> 'w" where
  "authCtx E c s =
     (let (r, t, s') = Token E (ac_cfg c) (ac_tokens c) s; c' = c\<lparr>ac_tokens := t\<rparr>
      in case r of
           Inl e \<Rightarrow> (Inl e, c', s')
         | Inr token \<Rightarrow> (Inr (callTimeout (ac_cfg c), ''Bearer '' @ token), c', s'))"

definition cacheKey :: "('w, 'r) appenv \<Rightarrow> string \<Rightarrow> string \<Rightarrow> string" where
  "cacheKey E appID secret = hex_EncodeToString (sha256 E (appID @ '':'' @ secret))"

definition principal_user :: "Principal \<Rightarrow> DxUser" where
  "principal_user p =
     zero_user\<lparr>u_ID := p_UserId p, u_Roles := p_Roles p, u_OrganisationID := p_OrganisationId p,
       u_Scopes := map (\<lambda>s. \<lparr>ds_Scope = s, ds_EntityID = [], ds_Expiry = []\<rparr>) (p_Scopes p)\<rparr>"

text \<open>The cache update after a confirmation: the lifetime is cut to the principal's expiry.\<close>

definition remember :: "('w, 'r) appenv \<Rightarrow> string \<Rightarrow> Principal \<Rightarrow> Client \<Rightarrow> 'w \<Rightarrow> Client \<times> 'w" where
  "remember E key p c s =
     (let ttl0 = verifyCacheTTL (ac_cfg c); exp = p_ExpiresAtEpoch p;
          (ttl, s1) = (if 0 < exp
                       then (let (t2, s1) = now E s; until = time_Sub (time_of_Unix exp) t2
                             in (if until < ttl0 then until else ttl0, s1))
                       else (ttl0, s))
      in if 0 < ttl
         then (let (t3, s2) = now E s1
               in (c\<lparr>ac_cache := map_put key \<lparr>ve_user = principal_user p, ve_expiresAt = t3 + ttl\<rparr> (ac_cache c)\<rparr>, s2))
         else (c, s1))"

text \<open>A cached identity and the clock reading it was served at, when the lookup hits; the clock is
  read only when there is an entry.\<close>

definition cache_lookup :: "('w, 'r) appenv \<Rightarrow> string \<Rightarrow> Client \<Rightarrow> 'w \<Rightarrow> DxUser option \<times> 'w" where
  "cache_lookup E key c s =
     (case map_of (ac_cache c) key of
        None \<Rightarrow> (None, s)
      | Some e \<Rightarrow> (let (t1, s1) = now E s in (if t1 < ve_expiresAt e then Some (ve_user e) else None, s1)))"

definition VerifyAppId ::
  "('w, 'r) appenv \<Rightarrow> string \<Rightarrow> string \<Rightarrow> Client \<Rightarrow> 'w \<Rightarrow> (verify_error + DxUser) \<times> Client \<times> 'w" where
  "VerifyAppId E appID appSecret c s =
     (let key = cacheKey E appID appSecret; (hit, s1) = cache_lookup E key c s
      in case hit of
           Some u \<Rightarrow> (Inr u, c, s1)
         | None \<Rightarrow>
             (let (a, c2, s2) = authCtx E c s1
              in case a of
                   Inl e \<Rightarrow> (Inl (OtherError (Errorf ''appid.VerifyAppId: service token: '' e [])), c2, s2)
                 | Inr (timeout, bearer) \<Rightarrow>
                     (let (resp, s3) = stub_VerifyAppId E timeout bearer appID appSecret s2
                      in case resp of
                           Inl e \<Rightarrow> (Inl (OtherError (Errorf ''appid.VerifyAppId: rpc: '' e [])), c2, s3)
                         | Inr v \<Rightarrow>
                             if \<not> vr_Success v then (Inl (VerificationError (vr_ErrorCode v)), c2, s3)
                             else (let (c3, s4) = remember E key (vr_Principal v) c2 s3
                                   in (Inr (principal_user (vr_Principal v)), c3, s4)))))"

text \<open>The three plain calls differ in the request and in the name their errors carry.\<close>

definition app_call ::
  "('w, 'r) appenv \<Rightarrow> string \<Rightarrow> rpc_request \<Rightarrow> Client \<Rightarrow> 'w \<Rightarrow> (goerr + 'r) \<times> Client \<times> 'w" where
  "app_call E name req c s =
     (let (a, c2, s2) = authCtx E c s
      in case a of
           Inl e \<Rightarrow> (Inl (Errorf (''appid.'' @ name @ '': service token: '') e []), c2, s2)
         | Inr (timeout, bearer) \<Rightarrow>
             (let (resp, s3) = stub_call E timeout bearer req s2
              in case resp of
                   Inl e \<Rightarrow> (Inl (Errorf (''appid.'' @ name @ '': rpc: '') e []), c2, s3)
                 | Inr x \<Rightarrow> (Inr x, c2, s3)))"

definition CheckItemAccess where
  "CheckItemAccess E userID entityID did = app_call E ''CheckItemAccess'' (CheckItemAccessRequest userID entityID did)"

definition ResolveDelegation where
  "ResolveDelegation E delegatorSub delegateeSub =
     app_call E ''ResolveDelegation'' (ResolveDelegationRequest delegatorSub delegateeSub)"

definition GetItem where
  "GetItem E itemID userID = app_call E ''GetItem'' (GetItemRequest itemID userID)"

subsection \<open>The Basic middleware (middleware.go)\<close>

definition basicCredentials :: "Header \<Rightarrow> (string \<times> string) option" where
  "basicCredentials hds =
     (let h = hdr_Get hds ''Authorization''
      in if h = [] then None
         else case cut_at (CHR '' '') h of
           None \<Rightarrow> None
         | Some (scheme, rest) \<Rightarrow>
             if \<not> EqualFold scheme ''basic'' then None
             else case StdEncoding_DecodeString (TrimSpace rest) of
               None \<Rightarrow> None
             | Some decoded \<Rightarrow>
                 (case cut_at (CHR '':'') decoded of
                    None \<Rightarrow> None
                  | Some (uid, secret) \<Rightarrow> if uid = [] \<or> secret = [] then None else Some (uid, secret)))"

definition app_Middleware :: "('w, 'r) appenv \<Rightarrow> (Client \<times> 'w) http_handler \<Rightarrow> (Client \<times> 'w) http_handler" where
  "app_Middleware E nxt r w st =
     (case basicCredentials (r_Header r) of
        None \<Rightarrow> nxt r w st
      | Some (appID, secret) \<Rightarrow>
          (let (res, c, s) = VerifyAppId E appID secret (fst st) (snd st)
           in case res of
                Inl (VerificationError code) \<Rightarrow>
                  reject (NewUnauthorized (''app credentials rejected: '' @ code) []) w (c, s)
              | Inl (OtherError _) \<Rightarrow>
                  reject (NewInternal ''app credential verification unavailable'' []) w (c, s)
              | Inr user \<Rightarrow> nxt (WithContext r (WithUser (r_ctx r) user)) w (c, s)))"

subsection \<open>What the cache holds\<close>

text \<open>Sequences of calls on one client.\<close>

datatype app_op = OpVerify string string | OpCall string rpc_request

definition app_step :: "('w, 'r) appenv \<Rightarrow> app_op \<Rightarrow> Client \<times> 'w \<Rightarrow> Client \<times> 'w" where
  "app_step E op st =
     (case op of OpVerify a b \<Rightarrow> snd (VerifyAppId E a b (fst st) (snd st))
      | OpCall name req \<Rightarrow> snd (app_call E name req (fst st) (snd st)))"

fun op_credentials :: "app_op \<Rightarrow> (string \<times> string) list" where
  "op_credentials (OpVerify a b) = [(a, b)]"
| "op_credentials (OpCall name req) = []"

text \<open>A successful verification RPC for these credentials, in world \<open>w\<close>.\<close>

definition confirmed ::
  "('w, 'r) appenv \<Rightarrow> int \<Rightarrow> string \<Rightarrow> string \<Rightarrow> string \<Rightarrow> 'w \<Rightarrow> Principal \<Rightarrow> 'w \<Rightarrow> bool" where
  "confirmed E timeout bearer appID secret w p w' \<longleftrightarrow>
     (\<exists>v. stub_VerifyAppId E timeout bearer appID secret w = (Inr v, w') \<and> vr_Success v \<and> vr_Principal v = p)"

text \<open>Until when a confirmation that ended in world \<open>w\<close> may be served: the readings of the clock that
  follow it decide.\<close>

definition deadline :: "('w, 'r) appenv \<Rightarrow> AppConfig \<Rightarrow> Principal \<Rightarrow> 'w \<Rightarrow> int" where
  "deadline E cfg p w =
     (if 0 < p_ExpiresAtEpoch p
      then (let (t2, w1) = now E w
            in fst (now E w1) + min (verifyCacheTTL cfg) (time_Sub (time_of_Unix (p_ExpiresAtEpoch p)) t2))
      else fst (now E w) + verifyCacheTTL cfg)"

definition justified :: "('w, 'r) appenv \<Rightarrow> AppConfig \<Rightarrow> string \<Rightarrow> string \<Rightarrow> verifyEntry \<Rightarrow> bool" where
  "justified E cfg a b e \<longleftrightarrow>
     (\<exists>timeout bearer w p w'. confirmed E timeout bearer a b w p w' \<and> ve_user e = principal_user p \<and>
        ve_expiresAt e = deadline E cfg p w')"

definition cache_ok :: "('w, 'r) appenv \<Rightarrow> AppConfig \<Rightarrow> (string \<times> string) set \<Rightarrow> Client \<Rightarrow> bool" where
  "cache_ok E cfg C c \<longleftrightarrow> ac_cfg c = cfg \<and>
     (\<forall>key e. map_of (ac_cache c) key = Some e \<longrightarrow> (\<exists>a b. (a, b) \<in> C \<and> cacheKey E a b = key \<and> justified E cfg a b e))"

lemma authCtx_keeps:
  assumes "authCtx E c s = (a, c', s')"
  shows "ac_cache c' = ac_cache c \<and> ac_cfg c' = ac_cfg c"
  using assms by (auto simp: authCtx_def case_prod_beta Let_def split: sum.splits)

lemma app_call_keeps:
  assumes "app_call E name req c s = (a, c', s')"
  shows "ac_cache c' = ac_cache c \<and> ac_cfg c' = ac_cfg c"
proof -
  obtain r c2 s2 where a: "authCtx E c s = (r, c2, s2)" by (cases "authCtx E c s")
  then show ?thesis
    using assms authCtx_keeps [OF a]
    by (auto simp: app_call_def case_prod_beta split: sum.splits)
qed

lemma remember_cache:
  assumes "remember E key p c s = (c', s')"
  shows "ac_cfg c' = ac_cfg c \<and>
    (ac_cache c' = ac_cache c \<or>
     ac_cache c' = map_put key \<lparr>ve_user = principal_user p, ve_expiresAt = deadline E (ac_cfg c) p s\<rparr> (ac_cache c))"
proof -
  have "min x y = (if y < x then y else x)" for x y :: int by auto
  then show ?thesis
    using assms by (auto simp: remember_def deadline_def case_prod_beta Let_def split: if_splits)
qed

text \<open>The three ways a verification ends, with what happens to the client.\<close>

lemma VerifyAppId_cases:
  assumes v: "VerifyAppId E a b c s = (res, c', s')"
  obtains (hit) e where "map_of (ac_cache c) (cacheKey E a b) = Some e" "fst (now E s) < ve_expiresAt e"
      "res = Inr (ve_user e)" "c' = c"
    | (rpc) timeout bearer c2 s1 w p w' where "authCtx E c s1 = (Inr (timeout, bearer), c2, w)"
      "s1 = snd (cache_lookup E (cacheKey E a b) c s)"
      "confirmed E timeout bearer a b w p w'" "res = Inr (principal_user p)"
      "remember E (cacheKey E a b) p c2 w' = (c', s')"
    | (failed) e where "res = Inl e" "ac_cache c' = ac_cache c" "ac_cfg c' = ac_cfg c"
proof -
  let ?key = "cacheKey E a b"
  obtain h s1 where cl: "cache_lookup E ?key c s = (h, s1)" by (cases "cache_lookup E ?key c s")
  obtain au c2 s2 where ac: "authCtx E c s1 = (au, c2, s2)" by (cases "authCtx E c s1")
  note keeps = authCtx_keeps [OF ac]
  show thesis
  proof (cases h)
    case (Some u)
    then obtain e where "map_of (ac_cache c) ?key = Some e" "fst (now E s) < ve_expiresAt e" "u = ve_user e"
      using cl by (auto simp: cache_lookup_def case_prod_beta split: option.splits if_splits)
    moreover have "res = Inr u" "c' = c" using v Some cl by (auto simp: VerifyAppId_def)
    ultimately show thesis by (intro hit) auto
  next
    case None
    show thesis
    proof (cases au)
      case (Inl e)
      then show thesis using v None cl ac keeps by (intro failed) (auto simp: VerifyAppId_def)
    next
      case (Inr tb)
      obtain timeout bearer where tb: "tb = (timeout, bearer)" by (cases tb)
      obtain resp s3 where st: "stub_VerifyAppId E timeout bearer a b s2 = (resp, s3)"
        by (cases "stub_VerifyAppId E timeout bearer a b s2")
      show thesis
      proof (cases "\<exists>v. resp = Inr v \<and> vr_Success v")
        case True
        then obtain v' where v': "resp = Inr v'" "vr_Success v'" by blast
        obtain c3 s4 where r: "remember E ?key (vr_Principal v') c2 s3 = (c3, s4)" by fastforce
        have "res = Inr (principal_user (vr_Principal v'))" "c3 = c'" "s4 = s'"
          using v None cl ac Inr tb st v' r by (auto simp: VerifyAppId_def)
        moreover have "confirmed E timeout bearer a b s2 (vr_Principal v') s3" using st v' by (simp add: confirmed_def)
        ultimately show thesis using ac Inr tb r cl by (intro rpc) auto
      next
        case False
        then obtain e where "res = Inl e" "c' = c2"
          using v None cl ac Inr tb st by (cases resp) (auto simp: VerifyAppId_def)
        then show thesis using keeps by (intro failed) auto
      qed
    qed
  qed
qed

lemma cache_ok_insert:
  "cache_ok E cfg C c \<Longrightarrow> ac_cache c' = ac_cache c \<Longrightarrow> ac_cfg c' = ac_cfg c \<Longrightarrow> cache_ok E cfg (insert x C) c'"
  unfolding cache_ok_def by fastforce

lemma VerifyAppId_keeps:
  assumes ok: "cache_ok E cfg C c" and v: "VerifyAppId E a b c s = (res, c', s')"
  shows "cache_ok E cfg (insert (a, b) C) c'"
  using v
proof (cases rule: VerifyAppId_cases)
  case (hit e)
  then show ?thesis using ok by (auto intro: cache_ok_insert)
next
  case failed
  then show ?thesis using ok by (auto intro: cache_ok_insert)
next
  case (rpc timeout bearer c2 s1 w p w')
  have c2: "ac_cfg c2 = cfg" "ac_cache c2 = ac_cache c" using authCtx_keeps [OF rpc(1)] ok by (auto simp: cache_ok_def)
  from remember_cache [OF rpc(5)] c2 consider "ac_cache c' = ac_cache c" "ac_cfg c' = cfg"
    | "ac_cache c' = map_put (cacheKey E a b) \<lparr>ve_user = principal_user p, ve_expiresAt = deadline E cfg p w'\<rparr> (ac_cache c)"
      "ac_cfg c' = cfg" by auto
  then show ?thesis
  proof cases
    case 1
    then show ?thesis using ok by (intro cache_ok_insert) (auto simp: cache_ok_def)
  next
    case 2
    have j: "justified E cfg a b \<lparr>ve_user = principal_user p, ve_expiresAt = deadline E cfg p w'\<rparr>"
      unfolding justified_def using rpc(3) by (intro exI conjI) (assumption, simp_all)
    show ?thesis
      unfolding cache_ok_def
    proof (intro conjI allI impI)
      fix key e assume m: "map_of (ac_cache c') key = Some e"
      show "\<exists>x y. (x, y) \<in> insert (a, b) C \<and> cacheKey E x y = key \<and> justified E cfg x y e"
      proof (cases "key = cacheKey E a b")
        case True
        with m 2 j show ?thesis by auto
      next
        case False
        with m 2 have "map_of (ac_cache c) key = Some e" by simp
        with ok show ?thesis unfolding cache_ok_def by blast
      qed
    qed (rule 2)
  qed
qed

lemma app_run_keeps:
  assumes "cache_ok E cfg C (fst st)"
  shows "cache_ok E cfg (C \<union> set (concat (map op_credentials ops))) (fst (fold (app_step E) ops st))"
  using assms
proof (induction ops arbitrary: C st)
  case (Cons op ops)
  have "cache_ok E cfg (C \<union> set (op_credentials op)) (fst (app_step E op st))"
  proof (cases op)
    case (OpVerify a b)
    obtain res c' s' where "VerifyAppId E a b (fst st) (snd st) = (res, c', s')" by (cases "VerifyAppId E a b (fst st) (snd st)")
    from VerifyAppId_keeps [OF Cons.prems this] this show ?thesis by (simp add: OpVerify app_step_def)
  next
    case (OpCall name req)
    obtain res c' s' where r: "app_call E name req (fst st) (snd st) = (res, c', s')" by (cases "app_call E name req (fst st) (snd st)")
    from app_call_keeps [OF r] show ?thesis using Cons.prems r by (simp add: OpCall app_step_def cache_ok_def)
  qed
  from Cons.IH [OF this] show ?case by (simp add: Un_assoc)
qed simp

text \<open>\<^verbatim>\<open>basicCredentials\<close> splits at the first colon, so an application id from a request has none, and the
  cache key determines both parts.\<close>

lemma basicCredentials_no_colon: "basicCredentials h = Some (a, b) \<Longrightarrow> CHR '':'' \<notin> set a \<and> a \<noteq> [] \<and> b \<noteq> []"
  by (auto simp: basicCredentials_def Let_def split: if_splits option.splits dest!: cut_at_Some [of "CHR '':''"])

lemma colon_unambiguous:
  assumes "CHR '':'' \<notin> set a" "CHR '':'' \<notin> set a'" "a @ '':'' @ b = a' @ '':'' @ b'"
  shows "a = a' \<and> b = b'"
proof -
  have "Some (a, b) = cut_at (CHR '':'') (a @ '':'' @ b)" using cut_at_append [OF assms(1), of b] by simp
  also have "\<dots> = Some (a', b')" unfolding assms(3) using cut_at_append [OF assms(2), of b'] by simp
  finally show ?thesis by simp
qed

text \<open>
  C11: An identity served for application credentials was confirmed for exactly these credentials. After
  any sequence of calls on a client, an accepted \<^verbatim>\<open>VerifyAppId\<close> either made the RPC itself and returns the
  principal of its answer, or returns the principal of an earlier successful RPC for the same id and
  secret, at a time before that confirmation's deadline: at most the configured lifetime after it, and,
  when the principal expires, not later than the expiry but for the time between two consecutive clock
  readings. (Ids carry no colon, as those of the Basic middleware; the hash has no collision among the
  credentials used.)
\<close>

theorem cached_identity_confirmed:
  assumes client: "NewClient Dial cfg = Inr c0"
    and st: "fold (app_step E) ops (c0, s0) = (c, s)"
    and v: "VerifyAppId E a b c s = (Inr u, c', s')"
    and colon: "list_all (\<lambda>(x, y). CHR '':'' \<notin> set x) ((a, b) # concat (map op_credentials ops))"
    and inj: "inj_on (sha256 E) ((\<lambda>(x, y). x @ '':'' @ y) ` set ((a, b) # concat (map op_credentials ops)))"
  shows "\<exists>timeout bearer w p w'. confirmed E timeout bearer a b w p w' \<and> u = principal_user p \<and>
    ((\<exists>c2. authCtx E c (snd (cache_lookup E (cacheKey E a b) c s)) = (Inr (timeout, bearer), c2, w)) \<or>
     fst (now E s) < deadline E cfg p w')"
proof -
  let ?C = "set (concat (map op_credentials ops))"
  have "cache_ok E cfg {} (fst (c0, s0))"
    using client by (auto simp: NewClient_def cache_ok_def split: option.splits)
  from app_run_keeps [OF this, of ops] st have ok: "cache_ok E cfg ?C c" by simp
  from v show ?thesis
  proof (cases rule: VerifyAppId_cases)
    case (hit e)
    with ok obtain x y where xy: "(x, y) \<in> ?C" "cacheKey E x y = cacheKey E a b" "justified E cfg x y e"
      unfolding cache_ok_def by blast
    from xy(2) have "sha256 E (x @ '':'' @ y) = sha256 E (a @ '':'' @ b)" by (simp add: cacheKey_def hex_encode_inj)
    then have "x @ '':'' @ y = a @ '':'' @ b"
      by (rule inj_onD [OF inj]) (insert xy(1), auto intro: rev_image_eqI [of "(x, y)"] rev_image_eqI [of "(a, b)"])
    with colon xy(1) have "x = a \<and> y = b" by (intro colon_unambiguous) (auto simp: list_all_iff)
    with xy(3) obtain timeout bearer w p w' where "confirmed E timeout bearer a b w p w'" "ve_user e = principal_user p"
      "ve_expiresAt e = deadline E cfg p w'" by (auto simp: justified_def)
    with hit show ?thesis by (intro exI conjI disjI2) (assumption, simp_all)
  next
    case (rpc timeout bearer c2 s1 w p w')
    then show ?thesis by blast
  next
    case (failed e)
    then show ?thesis by simp
  qed
qed

lemma deadline_bounds:
  assumes "now E w = (t2, w1)"
  shows "p_ExpiresAtEpoch p \<le> 0 \<Longrightarrow> deadline E cfg p w = t2 + verifyCacheTTL cfg"
    and "0 < p_ExpiresAtEpoch p \<Longrightarrow> deadline E cfg p w \<le> fst (now E w1) + verifyCacheTTL cfg"
    and "0 < p_ExpiresAtEpoch p \<Longrightarrow> t2 - 2 ^ 63 \<le> time_of_Unix (p_ExpiresAtEpoch p) \<Longrightarrow>
      deadline E cfg p w \<le> time_of_Unix (p_ExpiresAtEpoch p) + (fst (now E w1) - t2)"
  using assms by (auto simp: deadline_def time_Sub_def)

subsection \<open>A concrete control plane\<close>

text \<open>The world is the clock, one second per reading; one application is known.\<close>

definition toy_app :: "(int, unit) appenv" where
  "toy_app = \<lparr>now = (\<lambda>s. (s, s + Second)), new_request = (\<lambda>_ _. None),
     http_Do = (\<lambda>_ s. (Inr (200, ''tok''), s)), decode_token = (\<lambda>b. Inr (b, 300)),
     stub_VerifyAppId = (\<lambda>_ bearer a b s.
       (Inr (if bearer = ''Bearer tok'' \<and> a = ''app1'' \<and> b = ''s:1''
             then \<lparr>vr_Success = True, vr_ErrorCode = [], vr_Principal = \<lparr>p_UserId = ''svc'', p_Roles = [''provider''],
               p_OrganisationId = ''org1'', p_Scopes = [''data-access''], p_ExpiresAtEpoch = 1000\<rparr>\<rparr>
             else \<lparr>vr_Success = False, vr_ErrorCode = ''INVALID_CREDENTIALS'', vr_Principal = \<lparr>p_UserId = [], p_Roles = [],
               p_OrganisationId = [], p_Scopes = [], p_ExpiresAtEpoch = 0\<rparr>\<rparr>), s)),
     stub_call = (\<lambda>_ _ _ s. (Inr (), s)), sha256 = (\<lambda>x. [last x])\<rparr>"

definition toy_app_cfg :: AppConfig where
  "toy_app_cfg = \<lparr>ap_Enabled = True, ap_Address = ''cp:9090'', ap_TokenURL = ''http://kc/token'', ap_ClientID = ''me'',
     ap_ClientSecret = ''pw'', ap_Scope = [], ap_CallTimeout = 0, ap_VerifyCacheTTL = 0\<rparr>"

definition toy_client :: Client where
  "toy_client = \<lparr>ac_cfg = toy_app_cfg, ac_tokens = newTokenSource, ac_cache = []\<rparr>"

definition toy_app_state :: "Client \<times> int" where
  "toy_app_state = fold (app_step toy_app) [OpVerify ''app1'' ''s:1'', OpVerify ''app2'' ''x''] (toy_client, 100 * Second)"

definition toy_cached :: Client where
  "toy_cached = toy_client\<lparr>ac_tokens := \<lparr>ts_token = ''tok'', ts_expiresAt = 400 * Second\<rparr>,
     ac_cache := [(cacheKey toy_app ''app1'' ''s:1'',
       \<lparr>ve_user = zero_user\<lparr>u_ID := ''svc'', u_Roles := [''provider''], u_OrganisationID := ''org1'',
          u_Scopes := [\<lparr>ds_Scope = ''data-access'', ds_EntityID = [], ds_Expiry = []\<rparr>]\<rparr>, ve_expiresAt = 162 * Second\<rparr>)]\<rparr>"

lemma toy_app_state_eq: "toy_app_state = (toy_cached, 104 * Second)"
  by code_simp

lemma toy_app_run:
  "VerifyAppId toy_app ''app1'' ''s:1'' (fst toy_app_state) (snd toy_app_state) =
     (Inr (zero_user\<lparr>u_ID := ''svc'', u_Roles := [''provider''], u_OrganisationID := ''org1'',
        u_Scopes := [\<lparr>ds_Scope = ''data-access'', ds_EntityID = [], ds_Expiry = []\<rparr>]\<rparr>), fst toy_app_state, 105 * Second)"
  "VerifyAppId toy_app ''app2'' ''x'' (fst toy_app_state) (snd toy_app_state) =
     (Inl (VerificationError ''INVALID_CREDENTIALS''), fst toy_app_state, 105 * Second)"
  unfolding toy_app_state_eq prod.sel by code_simp+

theorem cached_identity_confirmed_witness:
  "\<exists>timeout bearer w p w'. confirmed toy_app timeout bearer ''app1'' ''s:1'' w p w' \<and>
     zero_user\<lparr>u_ID := ''svc'', u_Roles := [''provider''], u_OrganisationID := ''org1'',
        u_Scopes := [\<lparr>ds_Scope = ''data-access'', ds_EntityID = [], ds_Expiry = []\<rparr>]\<rparr> = principal_user p \<and>
     ((\<exists>c2. authCtx toy_app (fst toy_app_state) (snd (cache_lookup toy_app (cacheKey toy_app ''app1'' ''s:1'') (fst toy_app_state)
          (snd toy_app_state))) = (Inr (timeout, bearer), c2, w)) \<or>
      fst (now toy_app (snd toy_app_state)) < deadline toy_app toy_app_cfg p w')"
proof (rule cached_identity_confirmed [OF _ _ toy_app_run(1)])
  show "NewClient (\<lambda>_. None) toy_app_cfg = Inr toy_client"
    by (simp add: NewClient_def AppConfig_Validate_def toy_app_cfg_def toy_client_def)
  show "fold (app_step toy_app) [OpVerify ''app1'' ''s:1'', OpVerify ''app2'' ''x''] (toy_client, 100 * Second) =
      (fst toy_app_state, snd toy_app_state)"
    by (simp add: toy_app_state_def)
qed (simp_all add: toy_app_def)

text \<open>Without that restriction two different pairs of credentials share a cache entry.\<close>

lemma cacheKey_ambiguous: "cacheKey E ''a:b'' ''c'' = cacheKey E ''a'' ''b:c''"
  by (simp add: cacheKey_def)

text \<open>The scopes of a machine client name no entity, so the scope middleware grants them only where the
  route has no entity.\<close>

lemma app_scopes_need_no_entity:
  assumes "URLParam r param \<noteq> []" and "ctx_user (r_ctx r) = Some (principal_user p)"
  shows "refuses (ForScope scope param) r w s {403}"
proof -
  have "\<not> scope_granted scope (URLParam r param) (u_Scopes (principal_user p))"
    using assms(1) by (auto simp: scope_granted_iff principal_user_def)
  then show ?thesis
    using ForScope_cases [where r = r and scope = scope and param = param and w = w and s = s] assms(2)
    by (simp add: UserFromCtx_def)
qed

subsection \<open>The authorization client (auth/fga)\<close>

record FgaConfig =
  fc_BaseURL :: string
  fc_Timeout :: int
  fc_ServiceToken :: string
  fc_SharedSecret :: string
  fc_ServiceName :: string

definition TrimRight_slash :: "string \<Rightarrow> string" where
  "TrimRight_slash s = rev (dropWhile (\<lambda>c. c = CHR ''/'') (rev s))"

definition fga_New :: "FgaConfig \<Rightarrow> goerr + FgaConfig" where
  "fga_New cfg =
     (if fc_BaseURL cfg = [] then Inl (Opaque ''fga.New: BaseURL is required'')
      else if fc_SharedSecret cfg \<noteq> [] \<and> fc_ServiceName cfg = []
      then Inl (Opaque ''fga.New: ServiceName is required when SharedSecret is set'')
      else Inr (cfg\<lparr>fc_BaseURL := TrimRight_slash (fc_BaseURL cfg),
                    fc_Timeout := (if fc_Timeout cfg = 0 then 2 * Second else fc_Timeout cfg)\<rparr>))"

record CheckRequest =
  cq_SubjectType :: string
  cq_SubjectID :: string
  cq_OrganisationID :: string
  cq_ResourceType :: string
  cq_ResourceID :: string
  cq_Relation :: string

record CheckResponse =
  cr_Allowed :: bool
  cr_Subject :: string
  cr_Object :: string
  cr_Relation :: string

record ListPoliciesRequest =
  lp_SubjectType :: string
  lp_SubjectID :: string
  lp_OrganisationID :: string
  lp_ResourceType :: string
  lp_ResourceID :: string
  lp_PageSize :: int
  lp_ContinuationToken :: string

text \<open>The bodies the client sends, with the JSON encoder as a parameter, and the decoder: the raw value
  under \<^verbatim>\<open>results\<close>, if the body is an object that has one, and a value of the answer's type.\<close>

datatype fga_body = CheckBody CheckRequest | PolicyBody CheckRequest | MemberBody string

record ('w, 'o) fgaenv =
  fga_now :: "'w \<Rightarrow> int"
  fga_mac :: "string \<Rightarrow> string \<Rightarrow> string"
  fga_marshal :: "fga_body \<Rightarrow> goerr + string"
  fga_new_request :: "string \<Rightarrow> string \<Rightarrow> goerr option"
  fga_Do :: "http_request \<Rightarrow> 'w \<Rightarrow> (goerr + int \<times> string) \<times> 'w"
  fga_results :: "string \<Rightarrow> string option"
  fga_unmarshal :: "string \<Rightarrow> goerr + 'o"

definition service_user :: "FgaConfig \<Rightarrow> DxUser" where
  "service_user cfg = zero_user\<lparr>u_ID := ''svc:'' @ fc_ServiceName cfg, u_Roles := [''service'']\<rparr>"

definition fga_base_headers :: "FgaConfig \<Rightarrow> bool \<Rightarrow> Header" where
  "fga_base_headers cfg hasBody =
     (let h = (if hasBody then hdr_Set ''Content-Type'' ''application/json'' [] else []);
          h = hdr_Set ''Accept'' ''application/json'' h
      in if fc_ServiceToken cfg \<noteq> [] then hdr_Set ''Authorization'' (''Bearer '' @ fc_ServiceToken cfg) h else h)"

definition fga_headers :: "('w, 'o) fgaenv \<Rightarrow> FgaConfig \<Rightarrow> bool \<Rightarrow> 'w \<Rightarrow> goerr + Header" where
  "fga_headers E cfg hasBody s =
     (let h = fga_base_headers cfg hasBody
      in if fc_SharedSecret cfg \<noteq> []
         then (case Sign (fga_mac E) (fga_now E s) (service_user cfg)
                      \<lparr>hc_Secret = fc_SharedSecret cfg, hc_AdditionalSecrets = [], hc_MaxAge = 0\<rparr> of
                 Inl e \<Rightarrow> Inl (Errorf ''fga client: sign service identity: '' e [])
               | Inr signed \<Rightarrow> Inr (Apply h signed))
         else Inr h)"

definition fga_decode :: "('w, 'o) fgaenv \<Rightarrow> string \<Rightarrow> goerr + 'o" where
  "fga_decode E respBody =
     (case fga_results E respBody of
        Some raw \<Rightarrow>
          if raw \<noteq> []
          then (case fga_unmarshal E raw of
                  Inl e \<Rightarrow> Inl (Errorf ''fga client: decode results: '' e []) | Inr x \<Rightarrow> Inr x)
          else (case fga_unmarshal E respBody of
                  Inl e \<Rightarrow> Inl (Errorf ''fga client: decode response: '' e []) | Inr x \<Rightarrow> Inr x)
      | None \<Rightarrow>
          (case fga_unmarshal E respBody of
             Inl e \<Rightarrow> Inl (Errorf ''fga client: decode response: '' e []) | Inr x \<Rightarrow> Inr x))"

text \<open>\<open>out\<close> is the zero value of the answer, \<open>None\<close> when the caller wants none.\<close>

definition fga_do ::
  "('w, 'o) fgaenv \<Rightarrow> FgaConfig \<Rightarrow> string \<Rightarrow> string \<Rightarrow> fga_body option \<Rightarrow> 'o option \<Rightarrow> 'w \<Rightarrow> (goerr + 'o option) \<times> 'w" where
  "fga_do E cfg meth path body out s =
     (let enc = (case body of None \<Rightarrow> Inr None
                 | Some b \<Rightarrow> (case fga_marshal E b of
                                Inl e \<Rightarrow> Inl (Errorf ''fga client: marshal body: '' e []) | Inr t \<Rightarrow> Inr (Some t)))
      in case enc of
           Inl e \<Rightarrow> (Inl e, s)
         | Inr reqBody \<Rightarrow>
             (case fga_new_request E meth (fc_BaseURL cfg @ path) of
                Some e \<Rightarrow> (Inl (Errorf ''fga client: new request: '' e []), s)
              | None \<Rightarrow>
                  (case fga_headers E cfg (body \<noteq> None) s of
                     Inl e \<Rightarrow> (Inl e, s)
                   | Inr h \<Rightarrow>
                       (let (resp, s') = fga_Do E \<lparr>hq_Method = meth, hq_URL = fc_BaseURL cfg @ path, hq_Header = h,
                                                   hq_Body = reqBody\<rparr> s
                        in case resp of
                             Inl e \<Rightarrow> (Inl (Errorf (''fga client: '' @ meth @ '' '' @ path @ '': '') e []), s')
                           | Inr (status, respBody) \<Rightarrow>
                               if 400 \<le> status
                               then (Inl (Opaque (''fga client: '' @ meth @ '' '' @ path @ '': status '' @ itoa status
                                       @ '': '' @ TrimSpace respBody)), s')
                               else if out \<noteq> None \<and> respBody \<noteq> []
                               then (case fga_decode E respBody of
                                       Inl e \<Rightarrow> (Inl e, s') | Inr x \<Rightarrow> (Inr (Some x), s'))
                               else (Inr out, s')))))"

definition fga_Check where
  "fga_Check E cfg req zero = fga_do E cfg ''POST'' ''/v1/check'' (Some (CheckBody req)) (Some zero)"

definition fga_CreatePolicy where
  "fga_CreatePolicy E cfg req zero = fga_do E cfg ''POST'' ''/v1/policies'' (Some (PolicyBody req)) (Some zero)"

definition fga_DeletePolicy where
  "fga_DeletePolicy E cfg req zero = fga_do E cfg ''DELETE'' ''/v1/policies'' (Some (PolicyBody req)) (Some zero)"

definition policies_query :: "ListPoliciesRequest \<Rightarrow> url_values" where
  "policies_query req =
     (let add = (\<lambda>k v q. if v \<noteq> [] then map_put k [v] q else q);
          q = add ''subject_type'' (lp_SubjectType req) [];
          q = add ''subject_id'' (lp_SubjectID req) q;
          q = add ''organisation_id'' (lp_OrganisationID req) q;
          q = add ''resource_type'' (lp_ResourceType req) q;
          q = add ''resource_id'' (lp_ResourceID req) q;
          q = (if 0 < lp_PageSize req then map_put ''page_size'' [itoa (lp_PageSize req)] q else q)
      in add ''continuation_token'' (lp_ContinuationToken req) q)"

definition policies_path :: "ListPoliciesRequest \<Rightarrow> string" where
  "policies_path req =
     (let q = policies_query req in if q \<noteq> [] then ''/v1/policies?'' @ values_Encode q else ''/v1/policies'')"

definition fga_ListPolicies where
  "fga_ListPolicies E cfg req zero = fga_do E cfg ''GET'' (policies_path req) None (Some zero)"

definition members_path :: "string \<Rightarrow> string \<Rightarrow> string" where
  "members_path orgID groupID = ''/v1/groups/'' @ PathEscape orgID @ ''/'' @ PathEscape groupID @ ''/members''"

definition fga_AddGroupMember where
  "fga_AddGroupMember E cfg orgID groupID userID =
     fga_do E cfg ''POST'' (members_path orgID groupID) (Some (MemberBody userID)) None"

definition fga_RemoveGroupMember where
  "fga_RemoveGroupMember E cfg orgID groupID userID =
     fga_do E cfg ''DELETE'' (members_path orgID groupID @ ''/'' @ PathEscape userID) None None"

text \<open>Names with slashes, dots or queries in them do not change the structure of a path: the segments of
  the path decode to the names given.\<close>

lemma member_path_segments:
  "map PathUnescape (split_on (CHR ''/'') (members_path orgID groupID @ ''/'' @ PathEscape userID)) =
     map Some [[], ''v1'', ''groups'', orgID, groupID, ''members'', userID]"
proof -
  have "members_path orgID groupID @ ''/'' @ PathEscape userID =
      strings_Join [[], ''v1'', ''groups'', PathEscape orgID, PathEscape groupID, ''members'', PathEscape userID] [CHR ''/'']"
    by (simp add: members_path_def)
  then have "split_on (CHR ''/'') (members_path orgID groupID @ ''/'' @ PathEscape userID) =
      [[], ''v1'', ''groups'', PathEscape orgID, PathEscape groupID, ''members'', PathEscape userID]"
    by (simp only:) (rule split_on_Join, auto)
  then show ?thesis by simp
qed

definition one_each :: "url_values \<Rightarrow> bool" where
  "one_each q \<longleftrightarrow> gomap q \<and> (\<forall>(k, vs) \<in> set q. length vs = 1)"

lemma one_each_put: "one_each q \<Longrightarrow> one_each (if b then map_put k [v] q else q)"
proof -
  assume q: "one_each q"
  have "\<forall>p \<in> set (map_put k [v] q). length (snd p) = 1" if "\<forall>p \<in> set q. length (snd p) = 1" for q :: url_values
    using that by (induction q) (force split: if_splits)+
  from this [of q] q show ?thesis by (auto simp: one_each_def case_prod_beta)
qed

lemma policies_query_wf: "one_each (policies_query req)"
  unfolding policies_query_def Let_def by (intro one_each_put) (simp add: one_each_def)

text \<open>A listing request arrives at the service as the filters it was made of.\<close>

lemma policies_query_round_trip:
  "url_Query (values_Encode (policies_query req)) =
     map (\<lambda>k. (k, [values_Get (policies_query req) k])) (sort (map fst (policies_query req)))"
  using policies_query_wf [of req] by (intro url_Query_Encode) (auto simp: one_each_def)

lemma delivered_service: "delivered (service_user cfg) = service_user cfg"
  by (simp add: delivered_def service_user_def zero_user_def)

text \<open>
  A client of the authorization service that shares a secret with it is recognised by it: the headers
  of every request the client sends verify, for as long as the validity window is open, as the service
  identity \<^verbatim>\<open>svc:<name>\<close> with the role \<^verbatim>\<open>service\<close>, next to whatever bearer token is configured; and the only
  reason not to send is a service name that cannot be signed.
\<close>

theorem fga_service_identity:
  assumes secret: "fc_SharedSecret cfg \<noteq> []"
    and clock: "0 \<le> fga_now E s" "fga_now E s < 2 ^ 63"
    and key: "fc_SharedSecret cfg \<in> insert (hc_Secret cfg') (set (hc_AdditionalSecrets cfg'))"
    and mac: "\<forall>m. fga_mac E (fc_SharedSecret cfg) m \<noteq> []" and age: "hc_MaxAge cfg' < 2 ^ 63 - 1"
  shows "(case fga_headers E cfg hasBody s of
            Inl e \<Rightarrow> CHR ''|'' \<in> set (fc_ServiceName cfg)
          | Inr h \<Rightarrow> \<forall>v. Verify (fga_mac E) t h cfg' = Inr v \<longleftrightarrow> in_validity_window cfg' (fga_now E s) t \<and> v = service_user cfg)"
proof -
  let ?h0 = "fga_base_headers cfg hasBody"
  define sc where "sc = \<lparr>hc_Secret = fc_SharedSecret cfg, hc_AdditionalSecrets = [], hc_MaxAge = 0\<rparr>"
  have fh: "fga_headers E cfg hasBody s = (case Sign (fga_mac E) (fga_now E s) (service_user cfg) sc of
      Inl e \<Rightarrow> Inl (Errorf ''fga client: sign service identity: '' e []) | Inr signed \<Rightarrow> Inr (Apply ?h0 signed))"
    using secret by (simp add: fga_headers_def sc_def)
  have stale: "no_stale ?h0 u" for u
    by (simp add: no_stale_def fga_base_headers_def hdr_names Let_def)
  show ?thesis
  proof (cases "Sign (fga_mac E) (fga_now E s) (service_user cfg) sc")
    case (Inl e)
    then have "\<not> signable (service_user cfg)"
      using Sign_ok_iff [of "fga_mac E" "fga_now E s" "service_user cfg" sc] secret by (auto simp: sc_def)
    then have "CHR ''|'' \<in> set (fc_ServiceName cfg)"
      by (auto simp: signable_def service_user_def zero_user_def TrimSpace_def is_space_def split: if_splits)
    then show ?thesis using Inl fh by simp
  next
    case (Inr signed)
    have "Verify (fga_mac E) t (Apply ?h0 signed) cfg' = Inr v \<longleftrightarrow>
        in_validity_window cfg' (fga_now E s) t \<and> v = delivered (service_user cfg)" for v
      by (rule Verify_signed [OF Inr stale]) (use clock key mac age in \<open>simp_all add: sc_def\<close>)
    then show ?thesis using Inr fh by (simp add: delivered_service)
  qed
qed

definition toy_fga :: "(int, bool) fgaenv" where
  "toy_fga = \<lparr>fga_now = id, fga_mac = toy_mac, fga_marshal = (\<lambda>_. Inr ''{}''), fga_new_request = (\<lambda>_ _. None),
     fga_Do = (\<lambda>_ s. (Inr (200, ''{}''), s)), fga_results = (\<lambda>_. None), fga_unmarshal = (\<lambda>_. Inr True)\<rparr>"

definition toy_fga_cfg :: FgaConfig where
  "toy_fga_cfg = \<lparr>fc_BaseURL = ''http://authz'', fc_Timeout = 0, fc_ServiceToken = ''t'', fc_SharedSecret = ''k1'',
     fc_ServiceName = ''gateway''\<rparr>"

theorem fga_service_identity_witness:
  "\<exists>h. fga_headers toy_fga toy_fga_cfg True 100000000000 = Inr h \<and>
     Verify toy_mac 120000000000 h gateway_cfg = Inr (service_user toy_fga_cfg) \<and>
     (\<forall>v. Verify toy_mac 161000000000 h gateway_cfg \<noteq> Inr v)"
proof -
  have f: "case fga_headers toy_fga toy_fga_cfg True 100000000000 of
      Inl e \<Rightarrow> CHR ''|'' \<in> set (fc_ServiceName toy_fga_cfg)
    | Inr h \<Rightarrow> \<forall>v. Verify (fga_mac toy_fga) t h gateway_cfg = Inr v \<longleftrightarrow>
        in_validity_window gateway_cfg (fga_now toy_fga 100000000000) t \<and> v = service_user toy_fga_cfg" for t
    by (rule fga_service_identity) (simp_all add: toy_fga_def toy_fga_cfg_def toy_mac_def gateway_cfg_def)
  have "CHR ''|'' \<notin> set (fc_ServiceName toy_fga_cfg)" by (simp add: toy_fga_cfg_def)
  then obtain h where h: "fga_headers toy_fga toy_fga_cfg True 100000000000 = Inr h"
    using f [of 0] by (auto split: sum.splits)
  show ?thesis
    using f [of 120000000000] f [of 161000000000] h
    by (simp add: toy_fga_def in_validity_window_def time_Unix_def Second_def maxAge_def DefaultMaxAge_def gateway_cfg_def)
qed

end
