(* ===== verification/Envelope.thy ===== *)
theory Envelope
  imports DxErrors Encoding
begin

text \<open>
  Package \<^verbatim>\<open>crypto/envelope\<close>: a sealed token is a payload encrypted to a recipient (ephemeral ECDH, HKDF,
  AES-GCM) inside an envelope signed by the sender (ES256).

  The primitives of the Go crypto packages and the JSON coders are the fields of the record \<open>crypto\<close>;
  random choices are drawn by a seed. What is written out is what the package itself does: the order of
  the steps, the encodings, the fixed-width signature, the checks. \<open>crypto_ok\<close> lists the documented
  laws of the primitives. The value of \<^verbatim>\<open>Open\<close> is a plaintext, an error, or the panic of \<^verbatim>\<open>cipher.AEAD.Open\<close>
  on a nonce of the wrong length.
\<close>

subsection \<open>Structures\<close>

definition algSign :: string where "algSign = ''ES256''"
definition encAlg :: string where "encAlg = ''A256GCM''"
definition kdfInfo :: string where "kdfInfo = ''dx-envelope/v1 A256GCM''"

record sealed =
  se_Enc :: string
  se_EPK :: string
  se_IV :: string
  se_CT :: string
  se_RID :: string

record outer =
  ou_Alg :: string
  ou_SID :: string
  ou_Payload :: string
  ou_Sig :: string

record ('priv, 'pub) crypto =
  public_of :: "'priv \<Rightarrow> 'pub"
  ec_GenerateKey :: "nat \<Rightarrow> goerr + 'priv"
  pub_ECDH :: "'pub \<Rightarrow> goerr option"
  priv_ECDH :: "'priv \<Rightarrow> goerr option"
  ECDH :: "'priv \<Rightarrow> 'pub \<Rightarrow> goerr + string"
  point_Bytes :: "'pub \<Rightarrow> string"
  NewPublicKey :: "string \<Rightarrow> goerr + 'pub"
  point_XY :: "'pub \<Rightarrow> nat \<times> nat"
  hkdf_Read :: "string \<Rightarrow> string \<Rightarrow> goerr + string"
  aes_gcm :: "string \<Rightarrow> goerr option"
  rand_nonce :: "nat \<Rightarrow> goerr + string"
  gcm_Seal :: "string \<Rightarrow> string \<Rightarrow> string \<Rightarrow> string"
  gcm_Open :: "string \<Rightarrow> string \<Rightarrow> string \<Rightarrow> goerr + string"
  Sum256 :: "string \<Rightarrow> string"
  ecdsa_Sign :: "nat \<Rightarrow> 'priv \<Rightarrow> string \<Rightarrow> goerr + (nat \<times> nat)"
  ecdsa_Verify :: "'pub \<Rightarrow> string \<Rightarrow> nat \<Rightarrow> nat \<Rightarrow> bool"
  Marshal_sealed :: "sealed \<Rightarrow> goerr + string"
  Unmarshal_sealed :: "string \<Rightarrow> goerr + sealed"
  Marshal_outer :: "outer \<Rightarrow> goerr + string"
  Unmarshal_outer :: "string \<Rightarrow> goerr + outer"

subsection \<open>Numbers as bytes\<close>

text \<open>\<^verbatim>\<open>big.Int.FillBytes\<close> into a slice of \<open>k\<close> bytes (for a number that fits) and \<^verbatim>\<open>SetBytes\<close>.\<close>

fun FillBytes :: "nat \<Rightarrow> nat \<Rightarrow> string" where
  "FillBytes 0 n = []"
| "FillBytes (Suc k) n = FillBytes k (n div 256) @ [char_of (n mod 256)]"

definition SetBytes :: "string \<Rightarrow> nat" where
  "SetBytes s = foldl (\<lambda>acc c. acc * 256 + of_char c) 0 s"

lemma length_FillBytes [simp]: "length (FillBytes k n) = k"
  by (induction k arbitrary: n) auto

lemma SetBytes_FillBytes [simp]: "n < 256 ^ k \<Longrightarrow> SetBytes (FillBytes k n) = n"
proof (induction k arbitrary: n)
  case (Suc k)
  then have "n div 256 < 256 ^ k" by (simp add: less_mult_imp_div_less mult.commute)
  with Suc.IH show ?case by (simp add: SetBytes_def)
qed (simp add: SetBytes_def)

subsection \<open>Key identifiers and signatures\<close>

definition KeyID :: "('priv, 'pub) crypto \<Rightarrow> 'pub \<Rightarrow> string" where
  "KeyID C pub =
     (let (x, y) = point_XY C pub; buf = FillBytes 32 x @ FillBytes 32 y
      in RawURLEncoding_EncodeToString (take 16 (Sum256 C buf)))"

definition signES256 :: "('priv, 'pub) crypto \<Rightarrow> nat \<Rightarrow> 'priv \<Rightarrow> string \<Rightarrow> goerr + string" where
  "signES256 C seed priv msg =
     (case ecdsa_Sign C seed priv (Sum256 C msg) of
        Inl e \<Rightarrow> Inl (Errorf ''envelope: sign: '' e [])
      | Inr (r, s) \<Rightarrow> Inr (FillBytes 32 r @ FillBytes 32 s))"

definition verifyES256 :: "('priv, 'pub) crypto \<Rightarrow> 'pub \<Rightarrow> string \<Rightarrow> string \<Rightarrow> bool" where
  "verifyES256 C pub msg sig =
     (if length sig \<noteq> 64 then False
      else ecdsa_Verify C pub (Sum256 C msg) (SetBytes (take 32 sig)) (SetBytes (drop 32 sig)))"

definition deriveKey :: "('priv, 'pub) crypto \<Rightarrow> string \<Rightarrow> goerr + string" where
  "deriveKey C shared =
     (case hkdf_Read C shared kdfInfo of
        Inl e \<Rightarrow> Inl (Errorf ''envelope: hkdf: '' e []) | Inr key \<Rightarrow> Inr key)"

definition newGCM :: "('priv, 'pub) crypto \<Rightarrow> string \<Rightarrow> goerr option" where
  "newGCM C key = map_option (\<lambda>e. Errorf ''envelope: aes: '' e []) (aes_gcm C key)"

subsection \<open>Sealing\<close>

definition bind :: "goerr + 'a \<Rightarrow> ('a \<Rightarrow> goerr + 'b) \<Rightarrow> goerr + 'b" where
  "bind r f = (case r of Inl e \<Rightarrow> Inl e | Inr x \<Rightarrow> f x)"

definition wrap :: "string \<Rightarrow> goerr + 'a \<Rightarrow> goerr + 'a" where
  "wrap msg r = (case r of Inl e \<Rightarrow> Inl (Errorf msg e []) | Inr x \<Rightarrow> Inr x)"

definition require :: "goerr option \<Rightarrow> goerr + unit" where
  "require c = (case c of Some e \<Rightarrow> Inl e | None \<Rightarrow> Inr ())"

text \<open>The encrypted inner part, as the payload string the signature covers.\<close>

definition seal_payload :: "('priv, 'pub) crypto \<Rightarrow> nat \<Rightarrow> string \<Rightarrow> 'pub \<Rightarrow> goerr + string" where
  "seal_payload C seed plaintext recipientPub =
     bind (wrap ''envelope: recipient key not ECDH-usable: '' (require (pub_ECDH C recipientPub))) (\<lambda>_.
     bind (wrap ''envelope: generate ephemeral key: '' (ec_GenerateKey C seed)) (\<lambda>ephemeral.
     bind (wrap ''envelope: ephemeral key not ECDH-usable: '' (require (priv_ECDH C ephemeral))) (\<lambda>_.
     bind (wrap ''envelope: ECDH: '' (ECDH C ephemeral recipientPub)) (\<lambda>shared.
     bind (deriveKey C shared) (\<lambda>key.
     bind (require (newGCM C key)) (\<lambda>_.
     bind (wrap ''envelope: nonce: '' (rand_nonce C seed)) (\<lambda>nonce.
     bind (wrap ''envelope: marshal inner: ''
             (Marshal_sealed C
                \<lparr>se_Enc = encAlg,
                 se_EPK = RawURLEncoding_EncodeToString (point_Bytes C (public_of C ephemeral)),
                 se_IV = RawURLEncoding_EncodeToString nonce,
                 se_CT = RawURLEncoding_EncodeToString (gcm_Seal C key nonce plaintext),
                 se_RID = KeyID C recipientPub\<rparr>)) (\<lambda>innerJSON.
     Inr (RawURLEncoding_EncodeToString innerJSON)))))))))"

definition Seal :: "('priv, 'pub) crypto \<Rightarrow> nat \<Rightarrow> string \<Rightarrow> 'pub option \<Rightarrow> 'priv option \<Rightarrow> goerr + string" where
  "Seal C seed plaintext recipientPub signerPriv =
     (case (recipientPub, signerPriv) of
        (Some rpub, Some spriv) \<Rightarrow>
          bind (seal_payload C seed plaintext rpub) (\<lambda>payload.
          bind (signES256 C seed spriv payload) (\<lambda>sig.
          bind (wrap ''envelope: marshal outer: ''
                  (Marshal_outer C
                     \<lparr>ou_Alg = algSign, ou_SID = KeyID C (public_of C spriv), ou_Payload = payload,
                      ou_Sig = RawURLEncoding_EncodeToString sig\<rparr>)) (\<lambda>envJSON.
          Inr (RawURLEncoding_EncodeToString envJSON))))
      | _ \<Rightarrow> Inl (Opaque ''envelope: recipient public key and signer private key are required''))"

subsection \<open>Opening\<close>

definition b64_DecodeString :: "string \<Rightarrow> goerr + string" where
  "b64_DecodeString s =
     (case RawURLEncoding_DecodeString s of None \<Rightarrow> Inl (Opaque ''illegal base64 data'') | Some x \<Rightarrow> Inr x)"

text \<open>The outer part: decode, check the algorithm, verify the signature; the result is the payload.\<close>

definition open_outer :: "('priv, 'pub) crypto \<Rightarrow> string \<Rightarrow> 'pub \<Rightarrow> goerr + string" where
  "open_outer C token signerPub =
     bind (wrap ''envelope: decode token: '' (b64_DecodeString token)) (\<lambda>envJSON.
     bind (wrap ''envelope: unmarshal outer: '' (Unmarshal_outer C envJSON)) (\<lambda>env.
     if ou_Alg env \<noteq> algSign then Inl (Opaque (''envelope: unsupported signature alg '' @ go_quote (ou_Alg env)))
     else bind (wrap ''envelope: decode sig: '' (b64_DecodeString (ou_Sig env))) (\<lambda>sig.
     if \<not> verifyES256 C signerPub (ou_Payload env) sig then Inl (Opaque ''envelope: signature verification failed'')
     else Inr (ou_Payload env))))"

datatype opened = Plain string | OpenErr goerr | OpenPanic

definition obind :: "goerr + 'a \<Rightarrow> ('a \<Rightarrow> opened) \<Rightarrow> opened" where
  "obind r f = (case r of Inl e \<Rightarrow> OpenErr e | Inr x \<Rightarrow> f x)"

text \<open>The inner part: everything that touches the recipient's key. \<^verbatim>\<open>NonceSize\<close> of GCM is 12.\<close>

definition open_payload :: "('priv, 'pub) crypto \<Rightarrow> string \<Rightarrow> 'priv \<Rightarrow> opened" where
  "open_payload C payload recipientPriv =
     obind (wrap ''envelope: decode payload: '' (b64_DecodeString payload)) (\<lambda>innerJSON.
     obind (wrap ''envelope: unmarshal inner: '' (Unmarshal_sealed C innerJSON)) (\<lambda>inner.
     if se_Enc inner \<noteq> encAlg then OpenErr (Opaque (''envelope: unsupported content alg '' @ go_quote (se_Enc inner)))
     else
     obind (wrap ''envelope: recipient key not ECDH-usable: '' (require (priv_ECDH C recipientPriv))) (\<lambda>_.
     obind (wrap ''envelope: decode epk: '' (b64_DecodeString (se_EPK inner))) (\<lambda>epkBytes.
     obind (wrap ''envelope: parse epk: '' (NewPublicKey C epkBytes)) (\<lambda>epk.
     obind (wrap ''envelope: ECDH: '' (ECDH C recipientPriv epk)) (\<lambda>shared.
     obind (deriveKey C shared) (\<lambda>key.
     obind (require (newGCM C key)) (\<lambda>_.
     obind (wrap ''envelope: decode iv: '' (b64_DecodeString (se_IV inner))) (\<lambda>nonce.
     obind (wrap ''envelope: decode ct: '' (b64_DecodeString (se_CT inner))) (\<lambda>ct.
     if length nonce \<noteq> 12 then OpenPanic
     else obind (wrap ''envelope: decrypt: '' (gcm_Open C key nonce ct)) Plain))))))))))"

definition Open :: "('priv, 'pub) crypto \<Rightarrow> string \<Rightarrow> 'priv option \<Rightarrow> 'pub option \<Rightarrow> opened" where
  "Open C token recipientPriv signerPub =
     (case (recipientPriv, signerPub) of
        (Some rpriv, Some spub) \<Rightarrow> obind (open_outer C token spub) (\<lambda>payload. open_payload C payload rpriv)
      | _ \<Rightarrow> OpenErr (Opaque ''envelope: recipient private key and signer public key are required''))"

subsection \<open>Keys as PEM (keys.go)\<close>

text \<open>The DER and PEM coders of \<^verbatim>\<open>crypto/x509\<close> and \<^verbatim>\<open>encoding/pem\<close>; a parsed key is an ECDSA key
  on some curve or a key of another kind.\<close>

datatype 'k any_key = is_EC: EC (ec_key: 'k) | OtherKey

record ('priv, 'pub) x509 =
  MarshalPKCS8 :: "'priv \<Rightarrow> goerr + string"
  MarshalPKIX :: "'pub \<Rightarrow> goerr + string"
  ParsePKCS8 :: "string \<Rightarrow> goerr + 'priv any_key"
  ParseEC :: "string \<Rightarrow> goerr + 'priv"
  ParsePKIX :: "string \<Rightarrow> goerr + 'pub any_key"
  pem_Encode :: "string \<Rightarrow> string \<Rightarrow> string"
  pem_Decode :: "string \<Rightarrow> string option"
  priv_P256 :: "'priv \<Rightarrow> bool"
  pub_P256 :: "'pub \<Rightarrow> bool"

definition MarshalPrivateKeyPEM :: "('priv, 'pub) x509 \<Rightarrow> 'priv \<Rightarrow> goerr + string" where
  "MarshalPrivateKeyPEM X key =
     bind (wrap ''marshal private key: '' (MarshalPKCS8 X key)) (\<lambda>der. Inr (pem_Encode X ''PRIVATE KEY'' der))"

definition MarshalPublicKeyPEM :: "('priv, 'pub) x509 \<Rightarrow> 'pub \<Rightarrow> goerr + string" where
  "MarshalPublicKeyPEM X key =
     bind (wrap ''marshal public key: '' (MarshalPKIX X key)) (\<lambda>der. Inr (pem_Encode X ''PUBLIC KEY'' der))"

definition requireP256 :: "('priv, 'pub) x509 \<Rightarrow> 'priv \<Rightarrow> goerr + 'priv" where
  "requireP256 X key =
     (if \<not> priv_P256 X key then Inl (Opaque ''private key is not on the P-256 curve'') else Inr key)"

definition ParsePrivateKeyPEM :: "('priv, 'pub) x509 \<Rightarrow> string \<Rightarrow> goerr + 'priv" where
  "ParsePrivateKeyPEM X pemBytes =
     (case pem_Decode X pemBytes of
        None \<Rightarrow> Inl (Opaque ''no PEM block found'')
      | Some der \<Rightarrow>
          (case ParsePKCS8 X der of
             Inr (EC key) \<Rightarrow> requireP256 X key
           | Inr OtherKey \<Rightarrow> Inl (Opaque ''private key is not ECDSA'')
           | Inl _ \<Rightarrow> bind (wrap ''parse EC private key: '' (ParseEC X der)) (requireP256 X)))"

definition ParsePublicKeyPEM :: "('priv, 'pub) x509 \<Rightarrow> string \<Rightarrow> goerr + 'pub" where
  "ParsePublicKeyPEM X pemBytes =
     (case pem_Decode X pemBytes of
        None \<Rightarrow> Inl (Opaque ''no PEM block found'')
      | Some der \<Rightarrow>
          bind (wrap ''parse public key: '' (ParsePKIX X der)) (\<lambda>key.
          case key of
            OtherKey \<Rightarrow> Inl (Opaque ''public key is not ECDSA'')
          | EC k \<Rightarrow> if \<not> pub_P256 X k then Inl (Opaque ''public key is not on the P-256 curve'') else Inr k))"

subsection \<open>Laws of the primitives\<close>

definition crypto_ok :: "('priv, 'pub) crypto \<Rightarrow> bool" where
  "crypto_ok C \<longleftrightarrow>
     (\<forall>a b s. ECDH C a (public_of C b) = Inr s \<longrightarrow> ECDH C b (public_of C a) = Inr s) \<and>
     (\<forall>k. pub_ECDH C (public_of C k) = None \<longrightarrow> priv_ECDH C k = None) \<and>
     (\<forall>k. NewPublicKey C (point_Bytes C (public_of C k)) = Inr (public_of C k)) \<and>
     (\<forall>key n p. gcm_Open C key n (gcm_Seal C key n p) = Inr p) \<and>
     (\<forall>seed n. rand_nonce C seed = Inr n \<longrightarrow> length n = 12) \<and>
     (\<forall>seed k h r s. ecdsa_Sign C seed k h = Inr (r, s) \<longrightarrow>
        r < 256 ^ 32 \<and> s < 256 ^ 32 \<and> ecdsa_Verify C (public_of C k) h r s) \<and>
     (\<forall>x j. Marshal_sealed C x = Inr j \<longrightarrow> Unmarshal_sealed C j = Inr x) \<and>
     (\<forall>x j. Marshal_outer C x = Inr j \<longrightarrow> Unmarshal_outer C j = Inr x)"

lemma crypto_okD:
  assumes "crypto_ok C"
  shows "ECDH C a (public_of C b) = Inr s \<Longrightarrow> ECDH C b (public_of C a) = Inr s"
    "pub_ECDH C (public_of C k) = None \<Longrightarrow> priv_ECDH C k = None"
    "NewPublicKey C (point_Bytes C (public_of C k)) = Inr (public_of C k)"
    "gcm_Open C key n (gcm_Seal C key n p) = Inr p"
    "rand_nonce C seed = Inr n \<Longrightarrow> length n = 12"
    "ecdsa_Sign C seed k h = Inr (r, s') \<Longrightarrow> r < 256 ^ 32 \<and> s' < 256 ^ 32 \<and> ecdsa_Verify C (public_of C k) h r s'"
    "Marshal_sealed C x = Inr j \<Longrightarrow> Unmarshal_sealed C j = Inr x"
    "Marshal_outer C y = Inr j \<Longrightarrow> Unmarshal_outer C j = Inr y"
  using assms unfolding crypto_ok_def by blast+

lemma bind_Inr: "bind r f = Inr y \<longleftrightarrow> (\<exists>x. r = Inr x \<and> f x = Inr y)"
  by (auto simp: bind_def split: sum.splits)

lemma wrap_Inr [simp]: "wrap m r = Inr x \<longleftrightarrow> r = Inr x"
  by (auto simp: wrap_def split: sum.splits)

lemma require_Inr [simp]: "require c = Inr x \<longleftrightarrow> c = None"
  by (auto simp: require_def split: option.splits)

lemma obind_Inr [simp]: "obind (Inr x) f = f x" and obind_Inl [simp]: "obind (Inl e) f = OpenErr e"
  by (simp_all add: obind_def)

lemma wrap_simps [simp]: "wrap m (Inr x) = Inr x" "require None = Inr ()"
  by (simp_all add: wrap_def require_def)

lemma b64_decode_encode [simp]: "b64_DecodeString (RawURLEncoding_EncodeToString s) = Inr s"
  by (simp add: b64_DecodeString_def)

lemma obind_Plain: "obind r f = Plain p \<longleftrightarrow> (\<exists>x. r = Inr x \<and> f x = Plain p)"
  by (auto simp: obind_def split: sum.splits)

subsection \<open>Signatures\<close>

lemma sign_verify:
  assumes "crypto_ok C" and "signES256 C seed priv msg = Inr sig"
  shows "verifyES256 C (public_of C priv) msg sig"
proof -
  from assms(2) obtain r s where rs: "ecdsa_Sign C seed priv (Sum256 C msg) = Inr (r, s)"
    and sig: "sig = FillBytes 32 r @ FillBytes 32 s"
    by (auto simp: signES256_def split: sum.splits)
  from crypto_okD(6) [OF assms(1) rs] show ?thesis
    by (simp add: verifyES256_def sig)
qed

subsection \<open>Round trip\<close>

lemma seal_payload_encoded: "seal_payload C seed p r = Inr pl \<Longrightarrow> \<exists>j. RawURLEncoding_EncodeToString j = pl"
  by (auto simp: seal_payload_def bind_Inr)

lemma open_payload_seal:
  assumes ok: "crypto_ok C" and s: "seal_payload C seed p (public_of C rk) = Inr payload"
  shows "open_payload C payload rk = Plain p"
proof -
  note d = crypto_okD [OF ok]
  from s obtain eph shared key nonce j where
    e: "pub_ECDH C (public_of C rk) = None" "ECDH C eph (public_of C rk) = Inr shared" "deriveKey C shared = Inr key"
       "newGCM C key = None" "rand_nonce C seed = Inr nonce"
    and j: "Marshal_sealed C \<lparr>se_Enc = encAlg, se_EPK = RawURLEncoding_EncodeToString (point_Bytes C (public_of C eph)),
        se_IV = RawURLEncoding_EncodeToString nonce, se_CT = RawURLEncoding_EncodeToString (gcm_Seal C key nonce p),
        se_RID = KeyID C (public_of C rk)\<rparr> = Inr j"
    and pl: "payload = RawURLEncoding_EncodeToString j"
    by (auto simp: seal_payload_def bind_Inr)
  show ?thesis
    unfolding open_payload_def
    using d(7) [OF j] d(1) [OF e(2)] d(2) [OF e(1)] d(5) [OF e(5)] e(3,4) by (simp add: pl d(3,4))
qed

lemma open_outer_seal:
  assumes ok: "crypto_ok C" and s: "Seal C seed p (Some rpub) (Some sk) = Inr token"
  obtains payload where "seal_payload C seed p rpub = Inr payload" "open_outer C token (public_of C sk) = Inr payload"
proof -
  from s obtain payload sig j where pl: "seal_payload C seed p rpub = Inr payload" and sg: "signES256 C seed sk payload = Inr sig"
    and j: "Marshal_outer C \<lparr>ou_Alg = algSign, ou_SID = KeyID C (public_of C sk), ou_Payload = payload,
       ou_Sig = RawURLEncoding_EncodeToString sig\<rparr> = Inr j" and t: "token = RawURLEncoding_EncodeToString j"
    by (auto simp: Seal_def bind_Inr)
  have "open_outer C token (public_of C sk) = Inr payload"
    using crypto_okD(8) [OF ok j] sign_verify [OF ok sg] by (simp add: open_outer_def t bind_def)
  with pl show thesis by (rule that)
qed

lemma Open_Seal:
  assumes "crypto_ok C" and "Seal C seed p (Some (public_of C rk)) (Some sk) = Inr token"
  shows "Open C token (Some rk) (Some (public_of C sk)) = Plain p"
proof -
  obtain payload where "seal_payload C seed p (public_of C rk) = Inr payload" "open_outer C token (public_of C sk) = Inr payload"
    by (rule open_outer_seal [OF assms])
  with open_payload_seal [OF assms(1)] show ?thesis by (simp add: Open_def)
qed

text \<open>
  C13: Opening undoes sealing. Whatever randomness \<^verbatim>\<open>Seal\<close> draws, a token it returns for a recipient opens,
  with that recipient's private key and the signer's public key, to the plaintext that was sealed.
\<close>

theorem envelope_round_trip:
  assumes "crypto_ok C" and "Seal C seed p (Some (public_of C rk)) (Some sk) = Inr token"
  shows "Open C token (Some rk) (Some (public_of C sk)) = Plain p"
  by (rule Open_Seal [OF assms])

text \<open>
  What a token presents: its payload and the pair of numbers of its signature. A token is a forgery when that pair verifies for a digest the
  signer never signed, and a collision when its payload was never sealed and has the digest of one that was.
\<close>

definition presented :: "('priv, 'pub) crypto \<Rightarrow> string \<Rightarrow> (string \<times> nat \<times> nat) option" where
  "presented C token =
     (case bind (b64_DecodeString token) (Unmarshal_outer C) of Inl _ \<Rightarrow> None
      | Inr env \<Rightarrow> (case b64_DecodeString (ou_Sig env) of Inl _ \<Rightarrow> None
          | Inr sig \<Rightarrow> Some (ou_Payload env, SetBytes (take 32 sig), SetBytes (drop 32 sig))))"

definition sealed_payloads :: "('priv, 'pub) crypto \<Rightarrow> (nat \<times> string \<times> 'pub) list \<Rightarrow> string list" where
  "sealed_payloads C seals =
     concat (map (\<lambda>(seed, p, rpub). case seal_payload C seed p rpub of Inl _ \<Rightarrow> [] | Inr payload \<Rightarrow> [payload]) seals)"

definition forged :: "('priv, 'pub) crypto \<Rightarrow> 'pub \<Rightarrow> string list \<Rightarrow> string \<Rightarrow> bool" where
  "forged C spub payloads token \<longleftrightarrow>
     (case presented C token of None \<Rightarrow> False
      | Some (payload, r, s) \<Rightarrow> ecdsa_Verify C spub (Sum256 C payload) r s \<and> Sum256 C payload \<notin> Sum256 C ` set payloads)"

definition collides :: "('priv, 'pub) crypto \<Rightarrow> string list \<Rightarrow> string \<Rightarrow> bool" where
  "collides C payloads token \<longleftrightarrow>
     (case presented C token of None \<Rightarrow> False
      | Some (payload, r, s) \<Rightarrow> payload \<notin> set payloads \<and> Sum256 C payload \<in> Sum256 C ` set payloads)"

lemma open_outer_presented:
  assumes "open_outer C token spub = Inr payload"
  shows "\<exists>r s. presented C token = Some (payload, r, s) \<and> ecdsa_Verify C spub (Sum256 C payload) r s"
  using assms by (auto simp: open_outer_def presented_def bind_Inr verifyES256_def bind_def split: if_splits sum.splits)

lemma sealed_payloads_iff:
  "payload \<in> set (sealed_payloads C seals) \<longleftrightarrow> (\<exists>(seed, p, rpub) \<in> set seals. seal_payload C seed p rpub = Inr payload)"
  by (force simp: sealed_payloads_def split: sum.splits)

lemma opened_was_sealed:
  assumes "open_outer C token spub = Inr payload" and "\<not> forged C spub (sealed_payloads C seals) token"
    and "\<not> collides C (sealed_payloads C seals) token"
  shows "payload \<in> set (sealed_payloads C seals)"
  using open_outer_presented [OF assms(1)] assms(2,3) by (auto simp: forged_def collides_def)

text \<open>
  C6: Nothing is decrypted that the signer did not sign. Until the signature has been verified the outcome is the same error for every
  recipient key and every decryption routine. And when \<^verbatim>\<open>Open\<close> returns a plaintext, whatever the token and whoever made it, then
  the payload of the token is one that the signer sealed in one of its calls of \<^verbatim>\<open>Seal\<close> (\<open>seals\<close>), and the plaintext is exactly the one sealed
  when that call was for this recipient; or the token itself is an ECDSA forgery (its two numbers verify for a digest that was never signed)
  or a SHA-256 collision. No assumption is made on the strength of either.
\<close>

theorem envelope_authentic:
  assumes ok: "crypto_ok C"
  shows "(\<forall>e. open_outer C token spub = Inl e \<longrightarrow> Open (C\<lparr>gcm_Open := g, ECDH := f\<rparr>) token (Some rk) (Some spub) = OpenErr e) \<and>
    (\<forall>plain. Open C token (Some rk) (Some spub) = Plain plain \<longrightarrow>
       (\<exists>payload. \<exists>(seed, p, rpub) \<in> set seals. open_outer C token spub = Inr payload \<and> seal_payload C seed p rpub = Inr payload \<and>
          (rpub = public_of C rk \<longrightarrow> plain = p))
       \<or> forged C spub (sealed_payloads C seals) token \<or> collides C (sealed_payloads C seals) token)"
proof (intro conjI allI impI)
  fix e assume e: "open_outer C token spub = Inl e"
  have "verifyES256 (C\<lparr>gcm_Open := g, ECDH := f\<rparr>) = verifyES256 C"
    by (intro ext) (simp add: verifyES256_def)
  then have "open_outer (C\<lparr>gcm_Open := g, ECDH := f\<rparr>) token spub = open_outer C token spub"
    by (simp add: open_outer_def cong: if_cong)
  with e show "Open (C\<lparr>gcm_Open := g, ECDH := f\<rparr>) token (Some rk) (Some spub) = OpenErr e"
    by (simp add: Open_def)
next
  fix plain assume o: "Open C token (Some rk) (Some spub) = Plain plain"
  then obtain payload where pl: "open_outer C token spub = Inr payload" "open_payload C payload rk = Plain plain"
    by (auto simp: Open_def obind_Plain)
  show "(\<exists>payload. \<exists>(seed, p, rpub) \<in> set seals. open_outer C token spub = Inr payload \<and> seal_payload C seed p rpub = Inr payload \<and>
      (rpub = public_of C rk \<longrightarrow> plain = p)) \<or> forged C spub (sealed_payloads C seals) token \<or> collides C (sealed_payloads C seals) token"
  proof (rule ccontr)
    assume n: "\<not> ?thesis"
    then have "payload \<in> set (sealed_payloads C seals)" using opened_was_sealed [OF pl(1)] by blast
    then obtain seed p rpub where s: "(seed, p, rpub) \<in> set seals" "seal_payload C seed p rpub = Inr payload"
      by (auto simp: sealed_payloads_iff)
    have "rpub = public_of C rk \<longrightarrow> plain = p" using open_payload_seal [OF ok] s(2) pl(2) by fastforce
    with s pl n show False by blast
  qed
qed

subsection \<open>A concrete instance\<close>

text \<open>A toy suite (no security) in which every law holds: keys are numbers, a shared secret is a product,
  JSON is a comma-separated list, and a signature is the number of the key with the number of the digest.\<close>

definition csv_Marshal :: "string list \<Rightarrow> goerr + string" where
  "csv_Marshal xs = (if list_ex (\<lambda>x. CHR '','' \<in> set x) xs then Inl (Opaque ''comma'') else Inr (strings_Join xs '',''))"

definition toy0 :: "(nat, nat) crypto" where
  "toy0 = \<lparr>public_of = (\<lambda>k. k), ec_GenerateKey = (\<lambda>seed. Inr (seed + 3)), pub_ECDH = (\<lambda>_. None), priv_ECDH = (\<lambda>_. None),
     ECDH = (\<lambda>a b. Inr (replicate (a * b) (CHR ''s''))), point_Bytes = (\<lambda>n. replicate n (CHR ''x'')),
     NewPublicKey = (\<lambda>s. Inr (length s)), point_XY = (\<lambda>n. (n, n)), hkdf_Read = (\<lambda>s info. Inr s), aes_gcm = (\<lambda>_. None),
     rand_nonce = (\<lambda>seed. Inr ''nonce-nonce-''), gcm_Seal = (\<lambda>k n p. CHR ''c'' # p), gcm_Open = (\<lambda>k n c. Inr (tl c)),
     Sum256 = (\<lambda>s. s), ecdsa_Sign = (\<lambda>_ _ _. Inl (Opaque [])), ecdsa_Verify = (\<lambda>_ _ _ _. False),
     Marshal_sealed = (\<lambda>x. csv_Marshal [se_Enc x, se_EPK x, se_IV x, se_CT x, se_RID x]),
     Unmarshal_sealed = (\<lambda>s. case split_on (CHR '','') s of
        [a, b, c, d, e] \<Rightarrow> Inr \<lparr>se_Enc = a, se_EPK = b, se_IV = c, se_CT = d, se_RID = e\<rparr> | _ \<Rightarrow> Inl (Opaque ''json'')),
     Marshal_outer = (\<lambda>x. csv_Marshal [ou_Alg x, ou_SID x, ou_Payload x, ou_Sig x]),
     Unmarshal_outer = (\<lambda>s. case split_on (CHR '','') s of
        [a, b, c, d] \<Rightarrow> Inr \<lparr>ou_Alg = a, ou_SID = b, ou_Payload = c, ou_Sig = d\<rparr> | _ \<Rightarrow> Inl (Opaque ''json''))\<rparr>"

definition payload0 :: string where
  "payload0 = (case seal_payload toy0 0 ''hi'' 2 of Inr s \<Rightarrow> s | Inl _ \<Rightarrow> [])"

definition toy_crypto :: "(nat, nat) crypto" where
  "toy_crypto = toy0\<lparr>
     ecdsa_Sign := (\<lambda>_ k h. Inr (k mod 256 ^ 32, SetBytes h mod 256 ^ 32)),
     ecdsa_Verify := (\<lambda>pub h r s. r = pub mod 256 ^ 32 \<and> s = SetBytes h mod 256 ^ 32)\<rparr>"

lemma csv_round_trip: "csv_Marshal (x # xs) = Inr j \<Longrightarrow> split_on (CHR '','') j = x # xs"
  using split_on_Join [of "x # xs" "CHR '',''"] by (auto simp: csv_Marshal_def list_ex_iff split: if_splits)

lemma toy_crypto_ok: "crypto_ok toy_crypto"
  unfolding crypto_ok_def
  by (intro conjI) (auto simp: toy_crypto_def toy0_def mult.commute dest!: csv_round_trip split: if_splits)

definition toy_token :: string where
  "toy_token = (case Seal toy_crypto 0 ''hi'' (Some 2) (Some 5) of Inr t \<Rightarrow> t | Inl _ \<Rightarrow> [])"

lemma toy_sealed: "Seal toy_crypto 0 ''hi'' (Some 2) (Some 5) = Inr toy_token"
  "seal_payload toy_crypto 0 ''hi'' 2 = Inr payload0"
proof -
  have sp: "seal_payload toy_crypto 0 ''hi'' 2 = seal_payload toy0 0 ''hi'' 2"
    by (simp add: seal_payload_def toy_crypto_def deriveKey_def newGCM_def KeyID_def)
  have "\<exists>x. seal_payload toy0 0 ''hi'' 2 = Inr x"
    by (simp add: seal_payload_def toy0_def bind_Inr deriveKey_def newGCM_def csv_Marshal_def encAlg_def KeyID_def RawURLEncoding_clean)
  then show p: "seal_payload toy_crypto 0 ''hi'' 2 = Inr payload0"
    by (auto simp: sp payload0_def)
  have "CHR '','' \<notin> set payload0"
  proof -
    obtain j where "RawURLEncoding_EncodeToString j = payload0" using seal_payload_encoded [OF p] by blast
    then show ?thesis using RawURLEncoding_clean(2) [of j] by simp
  qed
  moreover have "signES256 toy_crypto 0 5 payload0 = Inr (FillBytes 32 5 @ FillBytes 32 (SetBytes payload0 mod 256 ^ 32))"
    by (simp add: signES256_def toy_crypto_def toy0_def)
  ultimately have "\<exists>t. Seal toy_crypto 0 ''hi'' (Some 2) (Some 5) = Inr t"
    by (simp add: Seal_def p bind_def algSign_def KeyID_def case_prod_beta)
      (simp add: toy_crypto_def toy0_def csv_Marshal_def RawURLEncoding_clean)
  then show "Seal toy_crypto 0 ''hi'' (Some 2) (Some 5) = Inr toy_token"
    by (auto simp: toy_token_def)
qed

lemma toy_public [simp]: "public_of toy_crypto k = k"
  by (simp add: toy_crypto_def toy0_def)

theorem envelope_round_trip_witness:
  "Open toy_crypto toy_token (Some 2) (Some 5) = Plain ''hi''"
  using envelope_round_trip [OF toy_crypto_ok, of 0 "''hi''" 2 5 toy_token] toy_sealed by simp

theorem envelope_authentic_witness:
  "\<exists>payload. \<exists>(seed, p, rpub) \<in> set [(0, ''hi'', 2)]. open_outer toy_crypto toy_token 5 = Inr payload \<and>
     seal_payload toy_crypto seed p rpub = Inr payload \<and> (rpub = public_of toy_crypto 2 \<longrightarrow> ''hi'' = p)"
proof -
  let ?sealed = "sealed_payloads toy_crypto [(0, ''hi'', 2)]"
  have o: "open_outer toy_crypto toy_token 5 = Inr payload0"
    using open_outer_seal [OF toy_crypto_ok, of 0 "''hi''" 2 5 toy_token] toy_sealed by simp
  obtain r s where "presented toy_crypto toy_token = Some (payload0, r, s)" using open_outer_presented [OF o] by blast
  then have "\<not> forged toy_crypto 5 ?sealed toy_token" "\<not> collides toy_crypto ?sealed toy_token"
    using toy_sealed(2) by (simp_all add: forged_def collides_def sealed_payloads_def)
  moreover have "Open toy_crypto toy_token (Some 2) (Some 5) = Plain ''hi''"
    using Open_Seal [OF toy_crypto_ok, of 0 "''hi''" 2 5 toy_token] toy_sealed by simp
  ultimately show ?thesis
    using envelope_authentic [OF toy_crypto_ok, of toy_token 5 _ _ 2 "[(0, ''hi'', 2)]"] by blast
qed

text \<open>A signed payload whose nonce has another length makes \<^verbatim>\<open>Open\<close> panic instead of failing.\<close>

lemma short_nonce_panics:
  assumes "open_outer C token spub = Inr (RawURLEncoding_EncodeToString j)"
    and "Unmarshal_sealed C j = Inr \<lparr>se_Enc = encAlg, se_EPK = RawURLEncoding_EncodeToString (point_Bytes C (public_of C k)),
      se_IV = RawURLEncoding_EncodeToString ''short'', se_CT = RawURLEncoding_EncodeToString ct, se_RID = rid\<rparr>"
    and "crypto_ok C" "priv_ECDH C rk = None" "ECDH C rk (public_of C k) = Inr shared" "deriveKey C shared = Inr key" "newGCM C key = None"
  shows "Open C token (Some rk) (Some spub) = OpenPanic"
  using assms crypto_okD(3) [OF assms(3), of k] by (simp add: Open_def open_payload_def)

subsection \<open>Keys\<close>

text \<open>What the coders document: decoding a block gives its bytes, parsing what was marshalled gives the key.\<close>

definition x509_ok :: "('priv, 'pub) x509 \<Rightarrow> bool" where
  "x509_ok X \<longleftrightarrow>
     (\<forall>t der. pem_Decode X (pem_Encode X t der) = Some der) \<and>
     (\<forall>k der. MarshalPKCS8 X k = Inr der \<longrightarrow> ParsePKCS8 X der = Inr (EC k)) \<and>
     (\<forall>k der. MarshalPKIX X k = Inr der \<longrightarrow> ParsePKIX X der = Inr (EC k))"

lemma private_key_round_trip:
  assumes "x509_ok X" and "MarshalPrivateKeyPEM X k = Inr pem"
  shows "ParsePrivateKeyPEM X pem =
    (if priv_P256 X k then Inr k else Inl (Opaque ''private key is not on the P-256 curve''))"
proof -
  from assms obtain der where "MarshalPKCS8 X k = Inr der" "pem = pem_Encode X ''PRIVATE KEY'' der"
    by (auto simp: MarshalPrivateKeyPEM_def bind_Inr)
  with assms(1) show ?thesis by (simp add: x509_ok_def ParsePrivateKeyPEM_def requireP256_def)
qed

lemma public_key_round_trip:
  assumes "x509_ok X" and "MarshalPublicKeyPEM X k = Inr pem"
  shows "ParsePublicKeyPEM X pem =
    (if pub_P256 X k then Inr k else Inl (Opaque ''public key is not on the P-256 curve''))"
proof -
  from assms obtain der where "MarshalPKIX X k = Inr der" "pem = pem_Encode X ''PUBLIC KEY'' der"
    by (auto simp: MarshalPublicKeyPEM_def bind_Inr)
  with assms(1) show ?thesis by (simp add: x509_ok_def ParsePublicKeyPEM_def bind_def)
qed

lemma parsed_private_key_P256: "ParsePrivateKeyPEM X pem = Inr k \<Longrightarrow> priv_P256 X k"
  by (auto simp: ParsePrivateKeyPEM_def requireP256_def bind_Inr split: option.splits sum.splits any_key.splits if_splits)

text \<open>The identifier of a key has 22 characters of the URL alphabet when the hash has at least 16 bytes.\<close>

lemma KeyID_no_dot: "CHR ''.'' \<notin> set (KeyID C pub)"
  by (simp add: KeyID_def case_prod_beta RawURLEncoding_clean)

end
