(* ===== verification/Trust.thy ===== *)
theory Trust
  imports DxErrors
begin

text \<open>
  Package \<^verbatim>\<open>trust\<close>, the hot-swappable store of anchors and revocation lists, and package \<^verbatim>\<open>mtls\<close>, which
  puts it into TLS configurations.

  Building chains is \<^verbatim>\<open>crypto/x509\<close>'s work and a parameter; \<open>x509_chains_ok\<close> states what is documented of it.
  What \<^verbatim>\<open>crypto/tls\<close> does with a configuration during a handshake is written out in \<open>server_handshake\<close>
  and \<open>client_handshake\<close>, from its documentation, so that the decisions of the two packages can be composed.
  Resumed connections are in the model: neither configuration disables session tickets, the clone that \<^verbatim>\<open>GetConfigForClient\<close> returns
  shares the ticket keys of its base, and the hook is not called when a session is resumed. The configuration of a client has
  no session cache, so that side never resumes.
\<close>

subsection \<open>Certificates and lists\<close>

record cert =
  c_Issuer :: string
  c_SerialNumber :: int
  c_Raw :: string

record crl =
  crl_Issuer :: string
  crl_Revoked :: "int list"

datatype usage = AnyUsage | ClientAuthUsage | ServerAuthUsage

text \<open>\<open>chains roots intermediates now usage leaf\<close> is \<^verbatim>\<open>Certificate.Verify\<close>, \<open>hostname\<close> its \<^verbatim>\<open>DNSName\<close>
  check, \<open>parse\<close> is \<^verbatim>\<open>ParseCertificate\<close>.\<close>

record x509env =
  x_Verify :: "cert list \<Rightarrow> cert list \<Rightarrow> int \<Rightarrow> usage \<Rightarrow> cert \<Rightarrow> goerr + cert list list"
  x_Parse :: "string \<Rightarrow> goerr + cert"
  x_Hostname :: "string \<Rightarrow> cert \<Rightarrow> goerr option"

subsection \<open>The store\<close>

record snapshot =
  sn_pool :: "cert list"
  sn_anchors :: "cert list"
  sn_crls :: "crl list"

record TrustStore =
  st_snap :: snapshot
  st_policy :: "(cert \<Rightarrow> goerr option) option"

definition NewStore :: "(cert \<Rightarrow> goerr option) option \<Rightarrow> TrustStore" where
  "NewStore policy = \<lparr>st_snap = \<lparr>sn_pool = [], sn_anchors = [], sn_crls = []\<rparr>, st_policy = policy\<rparr>"

definition Replace :: "cert list \<Rightarrow> crl list \<Rightarrow> TrustStore \<Rightarrow> TrustStore" where
  "Replace anchors crls s =
     s\<lparr>st_snap := \<lparr>sn_pool = fold (\<lambda>a pool. pool @ [a]) anchors [], sn_anchors = anchors, sn_crls = crls\<rparr>\<rparr>"

definition Anchors :: "TrustStore \<Rightarrow> cert list" where
  "Anchors s = sn_anchors (st_snap s)"

definition ClientCAs :: "TrustStore \<Rightarrow> cert list" where
  "ClientCAs s = sn_pool (st_snap s)"

definition revoked_error :: "cert \<Rightarrow> goerr" where
  "revoked_error leaf = Opaque (''trust: certificate '' @ itoa (c_SerialNumber leaf) @ '' is revoked'')"

fun checkRevocation :: "cert \<Rightarrow> crl list \<Rightarrow> goerr option" where
  "checkRevocation leaf [] = None"
| "checkRevocation leaf (l # ls) =
     (if crl_Issuer l \<noteq> c_Issuer leaf then checkRevocation leaf ls
      else if list_ex (\<lambda>n. n = c_SerialNumber leaf) (crl_Revoked l) then Some (revoked_error leaf)
      else checkRevocation leaf ls)"

definition check_policy :: "TrustStore \<Rightarrow> cert \<Rightarrow> goerr option" where
  "check_policy s leaf =
     (case st_policy s of
        None \<Rightarrow> None
      | Some p \<Rightarrow> map_option (\<lambda>e. Errorf ''trust: policy rejected peer: '' e []) (p leaf))"

definition TrustStore_Verify :: "x509env \<Rightarrow> int \<Rightarrow> TrustStore \<Rightarrow> cert \<Rightarrow> cert list \<Rightarrow> goerr option" where
  "TrustStore_Verify X now s leaf intermediates =
     (let snap = st_snap s
      in if sn_anchors snap = [] then Some (Opaque ''trust: store is empty (no anchors synced yet)'')
         else case x_Verify X (sn_pool snap) intermediates now AnyUsage leaf of
           Inl e \<Rightarrow> Some (Errorf ''trust: chain verification failed: '' e [])
         | Inr _ \<Rightarrow>
             (case checkRevocation leaf (sn_crls snap) of
                Some e \<Rightarrow> Some e
              | None \<Rightarrow> check_policy s leaf))"

fun parse_rest :: "x509env \<Rightarrow> string list \<Rightarrow> cert list" where
  "parse_rest X [] = []"
| "parse_rest X (raw # raws) = (case x_Parse X raw of Inr c \<Rightarrow> c # parse_rest X raws | Inl _ \<Rightarrow> parse_rest X raws)"

text \<open>A verified chain of the TLS stack is never empty, so its head is the leaf.\<close>

definition VerifyPeer :: "x509env \<Rightarrow> int \<Rightarrow> TrustStore \<Rightarrow> string list \<Rightarrow> cert list list \<Rightarrow> goerr option" where
  "VerifyPeer X now s rawCerts verifiedChains =
     (case verifiedChains of
        ch # _ \<Rightarrow>
          (let leaf = hd ch
           in case checkRevocation leaf (sn_crls (st_snap s)) of
                Some e \<Rightarrow> Some e
              | None \<Rightarrow> check_policy s leaf)
      | [] \<Rightarrow>
          (case rawCerts of
             [] \<Rightarrow> Some (Opaque ''trust: no peer certificate presented'')
           | raw # rest \<Rightarrow>
               (case x_Parse X raw of
                  Inl e \<Rightarrow> Some (Errorf ''trust: parse peer certificate: '' e [])
                | Inr leaf \<Rightarrow> TrustStore_Verify X now s leaf (parse_rest X rest))))"

subsection \<open>TLS configurations (mtls.go)\<close>

text \<open>The fields the two functions set. \<open>GetConfigForClient\<close> builds a configuration at every handshake;
  the verify hook is called with the store as it is then.\<close>

record tls_Config =
  tc_MinVersion :: nat
  tc_ClientAuth :: bool
  tc_RootCAs :: "cert list"
  tc_ClientCAs :: "cert list"
  tc_ServerName :: string
  tc_InsecureSkipVerify :: bool
  tc_VerifyPeer :: bool

definition VersionTLS12 :: nat where "VersionTLS12 = 0x0303"

definition server_base :: tls_Config where
  "server_base = \<lparr>tc_MinVersion = VersionTLS12, tc_ClientAuth = True, tc_RootCAs = [], tc_ClientCAs = [],
     tc_ServerName = [], tc_InsecureSkipVerify = False, tc_VerifyPeer = False\<rparr>"

definition GetConfigForClient :: "TrustStore \<Rightarrow> tls_Config" where
  "GetConfigForClient tp = server_base\<lparr>tc_ClientCAs := ClientCAs tp, tc_VerifyPeer := True\<rparr>"

definition ServerConfig :: "TrustStore option \<Rightarrow> goerr + tls_Config" where
  "ServerConfig tp =
     (case tp of None \<Rightarrow> Inl (Opaque ''mtls: trust provider is required'') | Some _ \<Rightarrow> Inr server_base)"

definition ClientConfig :: "TrustStore option \<Rightarrow> string \<Rightarrow> goerr + tls_Config" where
  "ClientConfig tp serverName =
     (case tp of
        None \<Rightarrow> Inl (Opaque ''mtls: trust provider is required'')
      | Some s \<Rightarrow>
          (let cfg = \<lparr>tc_MinVersion = VersionTLS12, tc_ClientAuth = False, tc_RootCAs = ClientCAs s, tc_ClientCAs = [],
                      tc_ServerName = serverName, tc_InsecureSkipVerify = False, tc_VerifyPeer = False\<rparr>
           in Inr (if serverName = [] then cfg\<lparr>tc_InsecureSkipVerify := True, tc_VerifyPeer := True\<rparr> else cfg)))"

subsection \<open>Handshakes\<close>

text \<open>The certificate checks of a full handshake: \<open>parse_all\<close> fails on any malformed certificate. On the
  server a chain to \<^verbatim>\<open>ClientCAs\<close> for client authentication is required; on the client one to
  \<^verbatim>\<open>RootCAs\<close> for the server's name, unless verification is off. The hook then gets the chains built.\<close>

fun parse_all :: "x509env \<Rightarrow> string list \<Rightarrow> goerr + cert list" where
  "parse_all X [] = Inr []"
| "parse_all X (raw # raws) =
     (case x_Parse X raw of
        Inl e \<Rightarrow> Inl e
      | Inr c \<Rightarrow> (case parse_all X raws of Inl e \<Rightarrow> Inl e | Inr cs \<Rightarrow> Inr (c # cs)))"

definition run_hook :: "x509env \<Rightarrow> int \<Rightarrow> tls_Config \<Rightarrow> TrustStore \<Rightarrow> string list \<Rightarrow> cert list list \<Rightarrow> goerr option" where
  "run_hook X now cfg tp raws chs = (if tc_VerifyPeer cfg then VerifyPeer X now tp raws chs else None)"

definition server_handshake :: "x509env \<Rightarrow> int \<Rightarrow> tls_Config \<Rightarrow> TrustStore \<Rightarrow> string list \<Rightarrow> goerr option" where
  "server_handshake X now cfg tp raws =
     (case parse_all X raws of
        Inl e \<Rightarrow> Some e
      | Inr [] \<Rightarrow> if tc_ClientAuth cfg then Some (Opaque ''tls: client did not provide a certificate'') else None
      | Inr (leaf # rest) \<Rightarrow>
          (case x_Verify X (tc_ClientCAs cfg) rest now ClientAuthUsage leaf of
             Inl e \<Rightarrow> Some e
           | Inr chs \<Rightarrow> run_hook X now cfg tp raws chs))"

definition client_handshake :: "x509env \<Rightarrow> int \<Rightarrow> tls_Config \<Rightarrow> TrustStore \<Rightarrow> string list \<Rightarrow> goerr option" where
  "client_handshake X now cfg tp raws =
     (case parse_all X raws of
        Inl e \<Rightarrow> Some e
      | Inr [] \<Rightarrow> Some (Opaque ''tls: received empty certificates message'')
      | Inr (leaf # rest) \<Rightarrow>
          if tc_InsecureSkipVerify cfg then run_hook X now cfg tp raws []
          else (case x_Verify X (tc_RootCAs cfg) rest now ServerAuthUsage leaf of
                  Inl e \<Rightarrow> Some e
                | Inr chs \<Rightarrow>
                    (case x_Hostname X (tc_ServerName cfg) leaf of
                       Some e \<Rightarrow> Some e
                     | None \<Rightarrow> run_hook X now cfg tp raws chs)))"

text \<open>
  A server over time: the store is replaced, clients make full handshakes (with the replacements that fall between their hello and the
  hook), or present the ticket of a session. A session keeps the certificates of its handshake; \<^verbatim>\<open>crypto/tls\<close> may decline
  a ticket (\<open>usable\<close>), and never calls the hook for one.
\<close>

datatype tls_event =
  Replaced "cert list" "crl list"
| FullHandshake int "string list" "(cert list \<times> crl list) list"
| Resumption "string list" bool

fun server_run :: "x509env \<Rightarrow> TrustStore \<Rightarrow> string list list \<Rightarrow> tls_event list \<Rightarrow> (string list \<times> goerr option) list" where
  "server_run X s sessions [] = []"
| "server_run X s sessions (Replaced anchors crls # es) = server_run X (Replace anchors crls s) sessions es"
| "server_run X s sessions (FullHandshake now raws during # es) =
     (let s1 = fold (\<lambda>(a, c). Replace a c) during s; r = server_handshake X now (GetConfigForClient s) s1 raws
      in (raws, r) # server_run X s1 (if r = None then raws # sessions else sessions) es)"
| "server_run X s sessions (Resumption raws usable # es) =
     (raws, if usable \<and> raws \<in> set sessions then None else Some (Opaque ''tls: session not resumed'')) # server_run X s sessions es"

fun replacements :: "tls_event list \<Rightarrow> (cert list \<times> crl list) list" where
  "replacements [] = []"
| "replacements (Replaced anchors crls # es) = (anchors, crls) # replacements es"
| "replacements (FullHandshake now raws during # es) = during @ replacements es"
| "replacements (Resumption raws usable # es) = replacements es"

subsection \<open>Decisions\<close>

text \<open>What is documented of \<^verbatim>\<open>Verify\<close>: on success there is a chain, each starts at the leaf and ends at a
  root given.\<close>

definition x509_chains_ok :: "x509env \<Rightarrow> bool" where
  "x509_chains_ok X \<longleftrightarrow>
     (\<forall>roots ints now u leaf chs. x_Verify X roots ints now u leaf = Inr chs \<longrightarrow>
        chs \<noteq> [] \<and> (\<forall>ch \<in> set chs. ch \<noteq> [] \<and> hd ch = leaf \<and> last ch \<in> set roots))"

definition revoked :: "cert \<Rightarrow> crl list \<Rightarrow> bool" where
  "revoked leaf crls \<longleftrightarrow> (\<exists>l \<in> set crls. crl_Issuer l = c_Issuer leaf \<and> c_SerialNumber leaf \<in> set (crl_Revoked l))"

definition policy_allows :: "TrustStore \<Rightarrow> cert \<Rightarrow> bool" where
  "policy_allows s leaf \<longleftrightarrow> (case st_policy s of None \<Rightarrow> True | Some p \<Rightarrow> p leaf = None)"

lemma checkRevocation_iff: "checkRevocation leaf crls = None \<longleftrightarrow> \<not> revoked leaf crls"
  by (induction crls) (auto simp: revoked_def list_ex_iff)

lemma check_policy_iff: "check_policy s leaf = None \<longleftrightarrow> policy_allows s leaf"
  by (auto simp: check_policy_def policy_allows_def split: option.splits)

lemma fold_snoc: "fold (\<lambda>a pool. pool @ [a]) xs acc = acc @ xs"
  by (induction xs arbitrary: acc) auto

text \<open>A store after any number of replacements: the pool is the list of anchors, and the policy never changes.\<close>

definition store_after :: "(cert \<Rightarrow> goerr option) option \<Rightarrow> (cert list \<times> crl list) list \<Rightarrow> TrustStore" where
  "store_after policy rs = fold (\<lambda>(a, c). Replace a c) rs (NewStore policy)"

lemma store_after_snoc: "store_after policy (rs @ [(a, c)]) = Replace a c (store_after policy rs)"
  by (simp add: store_after_def)

lemma store_after_simps:
  "ClientCAs (store_after policy rs) = (if rs = [] then [] else fst (last rs))"
  "Anchors (store_after policy rs) = (if rs = [] then [] else fst (last rs))"
  "sn_crls (st_snap (store_after policy rs)) = (if rs = [] then [] else snd (last rs))"
  "st_policy (store_after policy rs) = policy"
proof -
  have "ClientCAs (store_after policy rs) = (if rs = [] then [] else fst (last rs)) \<and>
    Anchors (store_after policy rs) = (if rs = [] then [] else fst (last rs)) \<and>
    sn_crls (st_snap (store_after policy rs)) = (if rs = [] then [] else snd (last rs)) \<and>
    st_policy (store_after policy rs) = policy"
  proof (induction rs rule: rev_induct)
    case Nil
    show ?case by (simp add: store_after_def NewStore_def ClientCAs_def Anchors_def)
  next
    case (snoc x rs)
    obtain a c where "x = (a, c)" by (cases x)
    with snoc show ?case by (simp add: store_after_snoc Replace_def ClientCAs_def Anchors_def fold_snoc)
  qed
  then show "ClientCAs (store_after policy rs) = (if rs = [] then [] else fst (last rs))"
    "Anchors (store_after policy rs) = (if rs = [] then [] else fst (last rs))"
    "sn_crls (st_snap (store_after policy rs)) = (if rs = [] then [] else snd (last rs))"
    "st_policy (store_after policy rs) = policy"
    by simp_all
qed

lemma parse_all_rest: "parse_all X raws = Inr cs \<Longrightarrow> parse_rest X raws = cs"
  by (induction raws arbitrary: cs) (auto split: sum.splits)

lemma VerifyPeer_chains:
  "chs \<noteq> [] \<Longrightarrow> VerifyPeer X now s raws chs = None \<longleftrightarrow>
     \<not> revoked (hd (hd chs)) (sn_crls (st_snap s)) \<and> policy_allows s (hd (hd chs))"
  by (cases chs) (auto simp: VerifyPeer_def Let_def checkRevocation_iff [symmetric] check_policy_iff split: option.splits)

lemma VerifyPeer_raw:
  assumes "parse_all X raws = Inr (leaf # rest)"
  shows "VerifyPeer X now s raws [] = None \<longleftrightarrow> Anchors s \<noteq> [] \<and>
    (\<exists>chs. x_Verify X (ClientCAs s) rest now AnyUsage leaf = Inr chs) \<and>
    \<not> revoked leaf (sn_crls (st_snap s)) \<and> policy_allows s leaf"
proof -
  obtain raw raws' where r: "raws = raw # raws'" "x_Parse X raw = Inr leaf" "parse_all X raws' = Inr rest"
    using assms by (cases raws) (auto split: sum.splits)
  show ?thesis
    using parse_all_rest [OF r(3)] r
    by (auto simp: VerifyPeer_def TrustStore_Verify_def Let_def Anchors_def ClientCAs_def
        checkRevocation_iff [symmetric] check_policy_iff split: option.splits sum.splits)
qed

lemma chains_okD:
  assumes "x509_chains_ok X" and "x_Verify X roots ints now u leaf = Inr chs"
  shows "roots \<noteq> []" "chs \<noteq> []" "hd (hd chs) = leaf"
proof -
  from assms have c: "chs \<noteq> []" "\<forall>ch \<in> set chs. ch \<noteq> [] \<and> hd ch = leaf \<and> last ch \<in> set roots"
    unfolding x509_chains_ok_def by blast+
  then have "hd chs \<in> set chs" by simp
  with c show "roots \<noteq> []" "chs \<noteq> []" "hd (hd chs) = leaf" by auto
qed

text \<open>The decision both sides make, on the anchors \<open>roots\<close> and the lists \<open>crls\<close>.\<close>

definition trusted ::
  "x509env \<Rightarrow> int \<Rightarrow> usage \<Rightarrow> (cert \<Rightarrow> goerr option) option \<Rightarrow> cert list \<Rightarrow> crl list \<Rightarrow> string list \<Rightarrow> bool" where
  "trusted X now u policy roots crls raws \<longleftrightarrow>
     (\<exists>leaf rest chs. parse_all X raws = Inr (leaf # rest) \<and> x_Verify X roots rest now u leaf = Inr chs \<and>
        \<not> revoked leaf crls \<and> (case policy of None \<Rightarrow> True | Some p \<Rightarrow> p leaf = None))"

lemma policy_allows_store [simp]:
  "policy_allows (store_after policy rs) leaf \<longleftrightarrow> (case policy of None \<Rightarrow> True | Some p \<Rightarrow> p leaf = None)"
  by (simp add: policy_allows_def store_after_simps)

lemma not_trusted_empty: "x509_chains_ok X \<Longrightarrow> \<not> trusted X now u policy [] crls raws"
  by (auto simp: trusted_def dest: chains_okD(1))

lemma server_accepts_iff:
  assumes X: "x509_chains_ok X"
  shows "server_handshake X now (GetConfigForClient (store_after policy rs)) (store_after policy ts) raws = None \<longleftrightarrow>
    trusted X now ClientAuthUsage policy (Anchors (store_after policy rs)) (sn_crls (st_snap (store_after policy ts))) raws"
proof (cases "parse_all X raws")
  case (Inl e)
  then show ?thesis by (simp add: server_handshake_def trusted_def)
next
  case (Inr cs)
  show ?thesis
  proof (cases cs)
    case Nil
    then show ?thesis using Inr by (simp add: server_handshake_def trusted_def GetConfigForClient_def server_base_def)
  next
    case (Cons leaf rest)
    have p: "tc_ClientCAs (GetConfigForClient (store_after policy rs)) = Anchors (store_after policy rs)"
      by (simp add: GetConfigForClient_def store_after_simps)
    show ?thesis
    proof (cases "x_Verify X (Anchors (store_after policy rs)) rest now ClientAuthUsage leaf")
      case (Inl e)
      then show ?thesis using Inr Cons by (simp add: server_handshake_def trusted_def p)
    next
      case (Inr chs)
      from VerifyPeer_chains [OF chains_okD(2) [OF X Inr]] chains_okD(3) [OF X Inr] \<open>parse_all X raws = Inr cs\<close> Cons Inr
      show ?thesis
        by (simp add: server_handshake_def trusted_def p run_hook_def) (simp add: GetConfigForClient_def)
    qed
  qed
qed

lemma node_client_accepts_iff:
  assumes X: "x509_chains_ok X" and cfg: "ClientConfig (Some (store_after policy rs)) [] = Inr cfg"
  shows "client_handshake X now cfg (store_after policy ts) raws = None \<longleftrightarrow>
    trusted X now AnyUsage policy (Anchors (store_after policy ts)) (sn_crls (st_snap (store_after policy ts))) raws"
proof -
  from cfg have c: "tc_InsecureSkipVerify cfg" "tc_VerifyPeer cfg" by (auto simp: ClientConfig_def Let_def)
  have e: "ClientCAs (store_after policy ts) = Anchors (store_after policy ts)" by (simp add: store_after_simps)
  have "Anchors (store_after policy ts) \<noteq> []" if "trusted X now AnyUsage policy (Anchors (store_after policy ts)) crls raws" for crls
    using that not_trusted_empty [OF X] by auto
  then show ?thesis
    using VerifyPeer_raw [of X raws] c e
    by (cases "parse_all X raws"; cases "projr (parse_all X raws)")
      (auto simp: client_handshake_def trusted_def run_hook_def split: sum.splits list.splits)
qed

lemma store_after_fold: "fold (\<lambda>(a, c). Replace a c) ys (store_after policy rs) = store_after policy (rs @ ys)"
  by (simp add: store_after_def)

lemma store_after_Replace: "Replace a c (store_after policy rs) = store_after policy (rs @ [(a, c)])"
  by (simp add: store_after_snoc)

text \<open>A full handshake with these certificates, trusted on what the store held then: \<open>rs\<close> are the replacements before the events.\<close>

definition handshaken ::
  "x509env \<Rightarrow> (cert \<Rightarrow> goerr option) option \<Rightarrow> (cert list \<times> crl list) list \<Rightarrow> tls_event list \<Rightarrow> string list \<Rightarrow> bool" where
  "handshaken X policy rs es raws \<longleftrightarrow>
     (\<exists>pre now during post. es = pre @ FullHandshake now raws during # post \<and> rs @ replacements pre \<noteq> [] \<and>
        trusted X now ClientAuthUsage policy (fst (last (rs @ replacements pre))) (snd (last (rs @ replacements pre @ during))) raws)"

lemma handshaken_here:
  "handshaken X policy rs (FullHandshake now raws during # es) raws"
  if "rs \<noteq> []" "trusted X now ClientAuthUsage policy (fst (last rs)) (snd (last (rs @ during))) raws"
  unfolding handshaken_def using that by (intro exI [of _ "[]"] exI [of _ now] exI [of _ during] exI [of _ es]) simp

lemma handshaken_later: "handshaken X policy (rs @ replacements [e]) es raws \<Longrightarrow> handshaken X policy rs (e # es) raws"
  unfolding handshaken_def
proof (elim exE conjE)
  fix pre now during post
  assume a: "es = pre @ FullHandshake now raws during # post" "(rs @ replacements [e]) @ replacements pre \<noteq> []"
    "trusted X now ClientAuthUsage policy (fst (last ((rs @ replacements [e]) @ replacements pre)))
       (snd (last ((rs @ replacements [e]) @ replacements pre @ during))) raws"
  have r: "replacements (e # pre) = replacements [e] @ replacements pre" by (cases e) simp_all
  show "\<exists>pre now during post. e # es = pre @ FullHandshake now raws during # post \<and> rs @ replacements pre \<noteq> [] \<and>
      trusted X now ClientAuthUsage policy (fst (last (rs @ replacements pre))) (snd (last (rs @ replacements pre @ during))) raws"
    using a r by (intro exI [of _ "e # pre"] exI [of _ now] exI [of _ during] exI [of _ post]) simp
qed

lemma full_handshake_iff:
  assumes "x509_chains_ok X"
  shows "server_handshake X now (GetConfigForClient (store_after policy rs)) (store_after policy (rs @ rs')) raws = None \<longleftrightarrow>
    rs \<noteq> [] \<and> trusted X now ClientAuthUsage policy (fst (last rs)) (snd (last (rs @ rs'))) raws"
  using server_accepts_iff [OF assms] not_trusted_empty [OF assms] by (auto simp: store_after_simps)

lemma accepted_handshaken:
  assumes "x509_chains_ok X" and "(raws, None) \<in> set (server_run X (store_after policy rs) sessions es)"
  shows "raws \<in> set sessions \<or> handshaken X policy rs es raws"
  using assms(2)
proof (induction es arbitrary: rs sessions)
  case (Cons e es)
  show ?case
  proof (cases e)
    case (Replaced a c)
    then show ?thesis using Cons.IH [of "rs @ [(a, c)]" sessions] Cons.prems handshaken_later [of X policy rs e es raws]
      by (auto simp: store_after_Replace)
  next
    case (FullHandshake now raws' during)
    let ?ok = "server_handshake X now (GetConfigForClient (store_after policy rs)) (store_after policy (rs @ during)) raws' = None"
    have here: "handshaken X policy rs (e # es) raws'" if ?ok
      unfolding FullHandshake using that full_handshake_iff [OF assms(1), of now policy rs during raws'] by (intro handshaken_here) simp_all
    from Cons.prems FullHandshake consider "raws = raws'" ?ok
      | "(raws, None) \<in> set (server_run X (store_after policy (rs @ during)) (if ?ok then raws' # sessions else sessions) es)"
      by (auto simp: Let_def store_after_fold)
    then show ?thesis
    proof cases
      case 2
      from Cons.IH [OF this] here handshaken_later [of X policy rs e es raws] FullHandshake show ?thesis by (auto split: if_splits)
    qed (use here in simp)
  next
    case (Resumption raws' usable)
    then show ?thesis using Cons.IH [of rs sessions] Cons.prems handshaken_later [of X policy rs e es raws]
      by (auto split: if_splits)
  qed
qed simp

text \<open>
  C7: Who is let in. With the configuration of \<^verbatim>\<open>ServerConfig\<close> a full handshake succeeds exactly when the certificates of the
  client chain, for client authentication, to an anchor of the replacement current when the handshake began, the leaf is on no revocation list
  of its issuer current when the hook runs, and the policy allows it; so a revocation also stops handshakes already under way, and before
  the first replacement nobody gets in. With the configuration of \<^verbatim>\<open>ClientConfig\<close> without a server name (that side never resumes) the server is
  accepted under the same conditions, on the anchors and lists current when the hook runs. Over any history of replacements, full
  handshakes and resumptions on a server, every accepted connection, a resumed one too, goes back to a full handshake of the same certificates that was
  trusted on what the store held at that time; a resumed one is not judged again, so it may outlive a revocation.
\<close>

theorem peer_accepted_exactly:
  assumes "x509_chains_ok X" and "ClientConfig (Some (store_after policy rs)) [] = Inr cfg"
  shows "(server_handshake X now (GetConfigForClient (store_after policy rs)) (store_after policy (rs @ rs')) raws = None \<longleftrightarrow>
      rs \<noteq> [] \<and> trusted X now ClientAuthUsage policy (fst (last rs)) (snd (last (rs @ rs'))) raws) \<and>
    (client_handshake X now cfg (store_after policy (rs @ rs')) raws = None \<longleftrightarrow>
      rs @ rs' \<noteq> [] \<and> trusted X now AnyUsage policy (fst (last (rs @ rs'))) (snd (last (rs @ rs'))) raws) \<and>
    ((peer, None) \<in> set (server_run X (NewStore policy) [] es) \<longrightarrow>
      (\<exists>pre t during post. es = pre @ FullHandshake t peer during # post \<and> replacements pre \<noteq> [] \<and>
         trusted X t ClientAuthUsage policy (fst (last (replacements pre))) (snd (last (replacements pre @ during))) peer))"
proof (intro conjI impI)
  show "server_handshake X now (GetConfigForClient (store_after policy rs)) (store_after policy (rs @ rs')) raws = None \<longleftrightarrow>
      rs \<noteq> [] \<and> trusted X now ClientAuthUsage policy (fst (last rs)) (snd (last (rs @ rs'))) raws"
    by (rule full_handshake_iff [OF assms(1)])
  show "client_handshake X now cfg (store_after policy (rs @ rs')) raws = None \<longleftrightarrow>
      rs @ rs' \<noteq> [] \<and> trusted X now AnyUsage policy (fst (last (rs @ rs'))) (snd (last (rs @ rs'))) raws"
    using node_client_accepts_iff [OF assms] not_trusted_empty [OF assms(1)] by (auto simp: store_after_simps)
  assume "(peer, None) \<in> set (server_run X (NewStore policy) [] es)"
  then show "\<exists>pre t during post. es = pre @ FullHandshake t peer during # post \<and> replacements pre \<noteq> [] \<and>
      trusted X t ClientAuthUsage policy (fst (last (replacements pre))) (snd (last (replacements pre @ during))) peer"
    using accepted_handshaken [OF assms(1), of peer policy "[]" "[]" es] by (simp add: handshaken_def store_after_def)
qed

text \<open>With a server name the hook is not installed: an outgoing connection checks neither revocation nor
  policy, and uses the anchors of the time the configuration was made.\<close>

lemma named_server_not_checked:
  assumes "ClientConfig (Some s) name = Inr cfg" and "name \<noteq> []" and "parse_all X raws = Inr (leaf # rest)"
    and "x_Verify X (ClientCAs s) rest now ServerAuthUsage leaf = Inr chs" and "x_Hostname X name leaf = None"
  shows "client_handshake X now cfg tp raws = None"
  using assms by (auto simp: ClientConfig_def client_handshake_def run_hook_def)

text \<open>\<^verbatim>\<open>VerifyPeer\<close> given a verified chain does not look at the anchors: an empty store accepts it.\<close>

lemma empty_store_accepts_chain: "VerifyPeer X now (NewStore None) raws [[leaf]] = None"
  by (simp add: VerifyPeer_def NewStore_def check_policy_def)

subsection \<open>A concrete authority\<close>

definition toy_ca :: cert where "toy_ca = \<lparr>c_Issuer = ''CA'', c_SerialNumber = 1, c_Raw = ''ca''\<rparr>"
definition toy_leaf :: cert where "toy_leaf = \<lparr>c_Issuer = ''CA'', c_SerialNumber = 7, c_Raw = ''leaf''\<rparr>"

definition toy_x509 :: x509env where
  "toy_x509 = \<lparr>x_Verify = (\<lambda>roots ints now u leaf. if toy_ca \<in> set roots \<and> c_Issuer leaf = ''CA'' then Inr [[leaf, toy_ca]]
       else Inl (Opaque ''x509: certificate signed by unknown authority'')),
     x_Parse = (\<lambda>raw. if raw = ''leaf'' then Inr toy_leaf else Inl (Opaque ''x509: malformed certificate'')),
     x_Hostname = (\<lambda>_ _. None)\<rparr>"

text \<open>A peer that is revoked after its first handshake fails the next full handshake and gets in with its session ticket.\<close>

definition toy_events :: "tls_event list" where
  "toy_events = [Replaced [toy_ca] [], FullHandshake 0 [''leaf''] [], Replaced [toy_ca] [\<lparr>crl_Issuer = ''CA'', crl_Revoked = [7]\<rparr>],
     FullHandshake 1 [''leaf''] [], Resumption [''leaf''] True]"

lemma revoked_peer_resumes:
  "server_run toy_x509 (NewStore None) [] toy_events
   = [([''leaf''], None), ([''leaf''], Some (revoked_error toy_leaf)), ([''leaf''], None)]"
  by (simp add: toy_events_def server_handshake_def run_hook_def VerifyPeer_def GetConfigForClient_def server_base_def Replace_def ClientCAs_def
      NewStore_def check_policy_def toy_x509_def toy_leaf_def Let_def)
theorem peer_accepted_exactly_witness:
  "server_handshake toy_x509 0 (GetConfigForClient (store_after None [([toy_ca], [])])) (store_after None [([toy_ca], [])]) [''leaf''] = None
   \<and> server_handshake toy_x509 0 (GetConfigForClient (store_after None [([toy_ca], [])]))
       (store_after None [([toy_ca], []), ([toy_ca], [\<lparr>crl_Issuer = ''CA'', crl_Revoked = [7]\<rparr>])]) [''leaf''] \<noteq> None
   \<and> (\<exists>pre t during post. toy_events = pre @ FullHandshake t [''leaf''] during # post \<and> replacements pre \<noteq> [] \<and>
        trusted toy_x509 t ClientAuthUsage None (fst (last (replacements pre))) (snd (last (replacements pre @ during))) [''leaf''])"
proof -
  have X: "x509_chains_ok toy_x509" by (auto simp: x509_chains_ok_def toy_x509_def split: if_splits)
  obtain cfg where cfg: "ClientConfig (Some (store_after None [([toy_ca], [])])) [] = Inr cfg"
    by (auto simp: ClientConfig_def Let_def)
  have p: "parse_all toy_x509 [''leaf''] = Inr [toy_leaf]" by (simp add: toy_x509_def)
  have v: "x_Verify toy_x509 [toy_ca] [] 0 u toy_leaf = Inr [[toy_leaf, toy_ca]]" for u
    by (simp add: toy_x509_def toy_leaf_def)
  have t: "trusted toy_x509 0 u None [toy_ca] [] [''leaf'']" for u
    using p v by (simp add: trusted_def revoked_def)
  have r: "\<not> trusted toy_x509 0 u None [toy_ca] [\<lparr>crl_Issuer = ''CA'', crl_Revoked = [7]\<rparr>] [''leaf'']" for u
    using p by (simp add: trusted_def revoked_def toy_leaf_def)
  have "([''leaf''], None) \<in> set (server_run toy_x509 (NewStore None) [] toy_events)" by (simp add: revoked_peer_resumes)
  with peer_accepted_exactly [OF X cfg, where rs' = "[]" and now = 0 and raws = "[''leaf'']" and peer = "[''leaf'']" and es = toy_events]
    peer_accepted_exactly [OF X cfg, where rs' = "[([toy_ca], [\<lparr>crl_Issuer = ''CA'', crl_Revoked = [7]\<rparr>])]" and now = 0 and raws = "[''leaf'']"] t r
  show ?thesis by simp
qed

end
