(* ===== verification/Dao.thy ===== *)
theory Dao
  imports SqlQuery Transaction
begin

text \<open>
  Packages \<^verbatim>\<open>database/postgres/dao\<close> (the generic data access object: reads, paging, writes, soft
  deletion, audit columns, optimistic locking, batches, the fluent finder) and
  \<^verbatim>\<open>database/postgres/repository\<close> (the same operations bound to the ambient transaction).

  A connection is the pool or an open transaction. The database is the record \<open>querier\<close>: it gets the
  statement text and the bound values, nothing else, as pgx does. A row is a list of named values;
  \<open>scan\<close> stands for \<^verbatim>\<open>pgx.RowToStructByNameLax\<close> of the row type.
\<close>

subsection \<open>Connections, rows and pgx's collectors\<close>

datatype conn = Pool | Tx nat

type_synonym row = "(string \<times> anyv) list"

record 's querier =
  q_Query :: "conn \<Rightarrow> string \<Rightarrow> anyv list \<Rightarrow> 's \<Rightarrow> 's \<times> (goerr + row list \<times> goerr option)"
  q_Exec :: "conn \<Rightarrow> string \<Rightarrow> anyv list \<Rightarrow> 's \<Rightarrow> 's \<times> (goerr + int)"
  q_CopyFrom :: "(conn \<Rightarrow> string \<Rightarrow> string list \<Rightarrow> anyv list list \<Rightarrow> 's \<Rightarrow> 's \<times> (goerr + int)) option"

fun scan_all :: "(row \<Rightarrow> goerr + 't) \<Rightarrow> row list \<Rightarrow> goerr + 't list" where
  "scan_all scan [] = Inr []"
| "scan_all scan (r # rs) =
     (case scan r of
        Inl e \<Rightarrow> Inl e
      | Inr x \<Rightarrow> (case scan_all scan rs of Inl e \<Rightarrow> Inl e | Inr xs \<Rightarrow> Inr (x # xs)))"

definition CollectRows :: "(row \<Rightarrow> goerr + 't) \<Rightarrow> row list \<times> goerr option \<Rightarrow> goerr + 't list" where
  "CollectRows scan rows =
     (case scan_all scan (fst rows) of
        Inl e \<Rightarrow> Inl e
      | Inr xs \<Rightarrow> (case snd rows of Some e \<Rightarrow> Inl e | None \<Rightarrow> Inr xs))"

definition CollectOneRow :: "(row \<Rightarrow> goerr + 't) \<Rightarrow> row list \<times> goerr option \<Rightarrow> goerr + 't" where
  "CollectOneRow scan rows =
     (case fst rows of
        [] \<Rightarrow> (case snd rows of Some e \<Rightarrow> Inl e | None \<Rightarrow> Inl ErrNoRows)
      | r # _ \<Rightarrow>
          (case scan r of
             Inl e \<Rightarrow> Inl e
           | Inr x \<Rightarrow> (case snd rows of Some e \<Rightarrow> Inl e | None \<Rightarrow> Inr x)))"

definition scan_error :: goerr where
  "scan_error = Opaque ''cannot scan into dest''"

definition scan_count :: "row \<Rightarrow> goerr + int" where
  "scan_count r = (case r of (_, VInt n) # _ \<Rightarrow> Inr n | _ \<Rightarrow> Inl scan_error)"

subsection \<open>Errors and the context actor (errors.go, extras.go)\<close>

definition ErrStaleVersion :: goerr where
  "ErrStaleVersion = NewConflict ''resource was modified by another update (stale version)'' []"

definition MapPgError :: "goerr \<Rightarrow> goerr" where
  "MapPgError e = the (MapPostgresError (Some e))"

record dao_ctx =
  cx_tx :: tx_ctx
  cx_actor :: "string option"

definition WithActor :: "dao_ctx \<Rightarrow> string \<Rightarrow> dao_ctx" where
  "WithActor ctx actor = ctx\<lparr>cx_actor := Some actor\<rparr>"

definition ActorFromContext :: "dao_ctx \<Rightarrow> string option" where
  "ActorFromContext ctx = (case cx_actor ctx of Some a \<Rightarrow> if a \<noteq> [] then Some a else None | None \<Rightarrow> None)"

subsection \<open>The object and its options (base.go)\<close>

record BaseDAO =
  d_DB :: conn
  d_TableName :: string
  d_IDColumn :: string
  d_softDeleteColumn :: string
  d_softDeleteDeleted :: string
  d_softDeleteActive :: string
  d_unscoped :: bool
  d_auditCreatedBy :: string
  d_auditUpdatedBy :: string

definition NewBaseDAO :: "conn \<Rightarrow> string \<Rightarrow> BaseDAO" where
  "NewBaseDAO db tableName =
     \<lparr>d_DB = db, d_TableName = tableName, d_IDColumn = ''id'', d_softDeleteColumn = [], d_softDeleteDeleted = [],
      d_softDeleteActive = [], d_unscoped = False, d_auditCreatedBy = [], d_auditUpdatedBy = []\<rparr>"

definition WithSoftDeleteFilter :: "string \<Rightarrow> BaseDAO \<Rightarrow> BaseDAO" where
  "WithSoftDeleteFilter column d = d\<lparr>d_softDeleteColumn := column\<rparr>"

definition WithIDColumn :: "string \<Rightarrow> BaseDAO \<Rightarrow> BaseDAO" where
  "WithIDColumn column d = d\<lparr>d_IDColumn := column\<rparr>"

definition WithSoftDeleteValues :: "string \<Rightarrow> string \<Rightarrow> BaseDAO \<Rightarrow> BaseDAO" where
  "WithSoftDeleteValues deleted active d = d\<lparr>d_softDeleteDeleted := deleted, d_softDeleteActive := active\<rparr>"

definition WithAuditColumns :: "string \<Rightarrow> string \<Rightarrow> BaseDAO \<Rightarrow> BaseDAO" where
  "WithAuditColumns createdBy updatedBy d = d\<lparr>d_auditCreatedBy := createdBy, d_auditUpdatedBy := updatedBy\<rparr>"

definition NewBaseDAOWith :: "conn \<Rightarrow> string \<Rightarrow> (BaseDAO \<Rightarrow> BaseDAO) list \<Rightarrow> BaseDAO" where
  "NewBaseDAOWith db tableName opts = fold (\<lambda>opt d. opt d) opts (NewBaseDAO db tableName)"

text \<open>\<^verbatim>\<open>NewBaseDAOFromEntity\<close>: \<open>None\<close> is its panic, for a row type that does not describe its table.\<close>

definition NewBaseDAOFromEntity ::
  "conn \<Rightarrow> (string \<times> string) option \<Rightarrow> (BaseDAO \<Rightarrow> BaseDAO) list \<Rightarrow> BaseDAO option" where
  "NewBaseDAOFromEntity db describer opts =
     (case describer of
        None \<Rightarrow> None
      | Some (table, idColumn) \<Rightarrow>
          Some (fold (\<lambda>opt d. opt d) opts ((NewBaseDAO db table)\<lparr>d_IDColumn := idColumn\<rparr>)))"

definition WithTx :: "nat \<Rightarrow> BaseDAO \<Rightarrow> BaseDAO" where
  "WithTx tx d = d\<lparr>d_DB := Tx tx\<rparr>"

definition Unscoped :: "BaseDAO \<Rightarrow> BaseDAO" where
  "Unscoped d = d\<lparr>d_unscoped := True\<rparr>"

definition deletedValue :: "BaseDAO \<Rightarrow> string" where
  "deletedValue d = (if d_softDeleteDeleted d \<noteq> [] then d_softDeleteDeleted d else ''DELETED'')"

definition activeValue :: "BaseDAO \<Rightarrow> string" where
  "activeValue d = (if d_softDeleteActive d \<noteq> [] then d_softDeleteActive d else ''ACTIVE'')"

definition withSoftDeleteFilter :: "BaseDAO \<Rightarrow> Condition list \<Rightarrow> Condition list" where
  "withSoftDeleteFilter d conds =
     (if d_softDeleteColumn d = [] \<or> d_unscoped d then conds
      else conds @ [Condition (d_softDeleteColumn d) OpNotEq (VStr (deletedValue d)) []])"

subsection \<open>Sending statements\<close>

definition selectOne ::
  "'s querier \<Rightarrow> (row \<Rightarrow> goerr + 't) \<Rightarrow> BaseDAO \<Rightarrow> string \<times> anyv list \<Rightarrow> 's \<Rightarrow> 's \<times> (goerr + 't)" where
  "selectOne P scan d stmt s =
     (case q_Query P (d_DB d) (fst stmt) (snd stmt) s of
        (s', Inl e) \<Rightarrow> (s', Inl (MapPgError e))
      | (s', Inr rows) \<Rightarrow> (s', case CollectOneRow scan rows of Inl e \<Rightarrow> Inl (MapPgError e) | Inr x \<Rightarrow> Inr x))"

definition selectMany ::
  "'s querier \<Rightarrow> (row \<Rightarrow> goerr + 't) \<Rightarrow> BaseDAO \<Rightarrow> string \<times> anyv list \<Rightarrow> 's \<Rightarrow> 's \<times> (goerr + 't list)" where
  "selectMany P scan d stmt s =
     (case q_Query P (d_DB d) (fst stmt) (snd stmt) s of
        (s', Inl e) \<Rightarrow> (s', Inl (MapPgError e))
      | (s', Inr rows) \<Rightarrow> (s', case CollectRows scan rows of Inl e \<Rightarrow> Inl (MapPgError e) | Inr xs \<Rightarrow> Inr xs))"

text \<open>\<^verbatim>\<open>QueryRow(...).Scan(...)\<close> gives the error of the query, or what collecting one row gives.\<close>

definition queryRow ::
  "'s querier \<Rightarrow> (row \<Rightarrow> goerr + 't) \<Rightarrow> conn \<Rightarrow> string \<times> anyv list \<Rightarrow> 's \<Rightarrow> 's \<times> (goerr + 't)" where
  "queryRow P scan c stmt s =
     (case q_Query P c (fst stmt) (snd stmt) s of
        (s', Inl e) \<Rightarrow> (s', Inl e)
      | (s', Inr rows) \<Rightarrow> (s', CollectOneRow scan rows))"

definition dao_Exec :: "'s querier \<Rightarrow> BaseDAO \<Rightarrow> string \<times> anyv list \<Rightarrow> 's \<Rightarrow> 's \<times> (goerr + int)" where
  "dao_Exec P d stmt s =
     (case q_Exec P (d_DB d) (fst stmt) (snd stmt) s of
        (s', Inl e) \<Rightarrow> (s', Inl (MapPgError e)) | (s', Inr n) \<Rightarrow> (s', Inr n))"

text \<open>A write whose result is only an error.\<close>

definition exec_only :: "'s \<times> (goerr + int) \<Rightarrow> 's \<times> goerr option" where
  "exec_only r = (case r of (s, Inl e) \<Rightarrow> (s, Some e) | (s, Inr _) \<Rightarrow> (s, None))"

definition select_of :: "BaseDAO \<Rightarrow> Condition list \<Rightarrow> SelectQuery" where
  "select_of d conds =
     \<lparr>sel_Table = d_TableName d, sel_Distinct = False, sel_Columns = [], sel_Joins = [],
      sel_Conditions = withSoftDeleteFilter d conds, sel_GroupBy = [], sel_Having = [], sel_OrderBy = [],
      sel_Limit = 0, sel_Offset = 0, sel_ForUpdate = False\<rparr>"

subsection \<open>Reads (base.go, exists.go, extras.go)\<close>

definition by_id :: "BaseDAO \<Rightarrow> string \<Rightarrow> Condition list" where
  "by_id d i = cb_Build (cb_Eq NewConditionBuilder (d_IDColumn d) (VStr i))"

definition by_ids :: "BaseDAO \<Rightarrow> string list \<Rightarrow> Condition list" where
  "by_ids d ids = cb_Build (cb_In NewConditionBuilder (d_IDColumn d) (VSlice (map VStr ids)))"

definition FindByID where
  "FindByID P scan d i = selectOne P scan d (BuildSelect ((select_of d (by_id d i))\<lparr>sel_Limit := 1\<rparr>))"

definition FindOne where
  "FindOne P scan d conds = selectOne P scan d (BuildSelect ((select_of d conds)\<lparr>sel_Limit := 1\<rparr>))"

definition FindAll where
  "FindAll P scan d conds = selectMany P scan d (BuildSelect (select_of d conds))"

definition FindAllOrdered where
  "FindAllOrdered P scan d conds orderBy = selectMany P scan d (BuildSelect ((select_of d conds)\<lparr>sel_OrderBy := orderBy\<rparr>))"

definition FindByIDs ::
  "'s querier \<Rightarrow> (row \<Rightarrow> goerr + 't) \<Rightarrow> BaseDAO \<Rightarrow> string list \<Rightarrow> 's \<Rightarrow> 's \<times> (goerr + 't list)" where
  "FindByIDs P scan d ids s = (if ids = [] then (s, Inr []) else FindAll P scan d (by_ids d ids) s)"

definition exists_of :: "'s \<times> (goerr + 't) \<Rightarrow> 's \<times> (goerr + bool)" where
  "exists_of r =
     (case r of (s, Inr _) \<Rightarrow> (s, Inr True)
      | (s, Inl e) \<Rightarrow> (s, if IsNotFoundError (Some e) then Inr False else Inl e))"

definition dao_Exists where
  "dao_Exists P scan d conds s = exists_of (FindOne P scan d conds s)"

subsection \<open>Counting and pages (count.go)\<close>

record 't DaoPage =
  pg_Data :: "'t list"
  pg_Total :: int
  pg_Limit :: int
  pg_Offset :: int
  pg_HasNext :: bool

definition Count :: "'s querier \<Rightarrow> BaseDAO \<Rightarrow> Condition list \<Rightarrow> 's \<Rightarrow> 's \<times> (goerr + int)" where
  "Count P d conds s =
     (case queryRow P scan_count (d_DB d) (BuildSelect ((select_of d conds)\<lparr>sel_Columns := [''COUNT(*) AS count'']\<rparr>)) s of
        (s', Inl e) \<Rightarrow> (s', Inl (MapPgError e)) | (s', Inr n) \<Rightarrow> (s', Inr n))"

text \<open>The part \<^verbatim>\<open>FindPage\<close> and the finder's \<^verbatim>\<open>Page\<close> share: the total \<open>count\<close> is known, \<open>q\<close> is the page query.\<close>

definition page_of ::
  "'s querier \<Rightarrow> (row \<Rightarrow> goerr + 't) \<Rightarrow> BaseDAO \<Rightarrow> int \<Rightarrow> int \<Rightarrow> SelectQuery \<Rightarrow> 's \<times> (goerr + int)
   \<Rightarrow> 's \<times> (goerr + 't DaoPage)" where
  "page_of P scan d limit offset q count =
     (case count of
        (s, Inl e) \<Rightarrow> (s, Inl e)
      | (s, Inr tot) \<Rightarrow>
          (let page = (\<lambda>data. \<lparr>pg_Data = data, pg_Total = tot, pg_Limit = limit, pg_Offset = offset,
                               pg_HasNext = (int64 (offset + int (length data)) < tot)\<rparr>)
           in if offset < tot
              then (case selectMany P scan d (BuildSelect q) s of
                      (s', Inl e) \<Rightarrow> (s', Inl e)
                    | (s', Inr data) \<Rightarrow> (s', Inr (page data)))
              else (s, Inr (page []))))"

definition page_limit :: "int \<Rightarrow> int" where "page_limit n = (if n \<le> 0 then 10 else n)"
definition page_offset :: "int \<Rightarrow> int" where "page_offset n = (if n < 0 then 0 else n)"

definition FindPage ::
  "'s querier \<Rightarrow> (row \<Rightarrow> goerr + 't) \<Rightarrow> BaseDAO \<Rightarrow> Condition list \<Rightarrow> OrderBy list \<Rightarrow> int \<Rightarrow> int \<Rightarrow> 's
   \<Rightarrow> 's \<times> (goerr + 't DaoPage)" where
  "FindPage P scan d conds orderBy limit0 offset0 s =
     (let limit = page_limit limit0; offset = page_offset offset0
      in page_of P scan d limit offset
           ((select_of d conds)\<lparr>sel_OrderBy := orderBy, sel_Limit := limit, sel_Offset := offset\<rparr>)
           (Count P d conds s))"

fun count_rows :: "(anyv \<Rightarrow> goerr + 'k) \<Rightarrow> row list \<Rightarrow> ('k \<times> int) list \<Rightarrow> goerr + ('k \<times> int) list" where
  "count_rows key [] m = Inr m"
| "count_rows key (r # rs) m =
     (case r of
        (_, k) # (_, VInt n) # _ \<Rightarrow>
          (case key k of Inl e \<Rightarrow> Inl e | Inr k' \<Rightarrow> count_rows key rs (map_put k' n m))
      | _ \<Rightarrow> Inl scan_error)"

definition CountBy ::
  "'s querier \<Rightarrow> (anyv \<Rightarrow> goerr + 'k) \<Rightarrow> BaseDAO \<Rightarrow> string \<Rightarrow> Condition list \<Rightarrow> 's \<Rightarrow> 's \<times> (goerr + ('k \<times> int) list)" where
  "CountBy P key d column conds s =
     (let stmt = BuildSelect ((select_of d conds)\<lparr>sel_Columns := [column, ''COUNT(*) AS count''], sel_GroupBy := [column]\<rparr>)
      in case q_Query P (d_DB d) (fst stmt) (snd stmt) s of
           (s', Inl e) \<Rightarrow> (s', Inl (MapPgError e))
         | (s', Inr rows) \<Rightarrow>
             (s', case count_rows key (fst rows) [] of
                    Inl e \<Rightarrow> Inl (MapPgError e)
                  | Inr m \<Rightarrow> (case snd rows of Some e \<Rightarrow> Inl (MapPgError e) | None \<Rightarrow> Inr m)))"

subsection \<open>Audit columns (extras.go)\<close>

definition put_unless_set :: "string \<Rightarrow> string \<Rightarrow> (string \<times> anyv) list \<Rightarrow> (string \<times> anyv) list" where
  "put_unless_set col actor m = (if col \<noteq> [] \<and> map_of m col = None then map_put col (VStr actor) m else m)"

definition auditInsert :: "BaseDAO \<Rightarrow> dao_ctx \<Rightarrow> (string \<times> anyv) list \<Rightarrow> (string \<times> anyv) list" where
  "auditInsert d ctx m =
     (case ActorFromContext ctx of
        None \<Rightarrow> m
      | Some actor \<Rightarrow>
          if d_auditCreatedBy d = [] \<and> d_auditUpdatedBy d = [] then m
          else put_unless_set (d_auditUpdatedBy d) actor (put_unless_set (d_auditCreatedBy d) actor m))"

definition auditUpdate :: "BaseDAO \<Rightarrow> dao_ctx \<Rightarrow> (string \<times> anyv) list \<Rightarrow> (string \<times> anyv) list" where
  "auditUpdate d ctx m =
     (case ActorFromContext ctx of
        None \<Rightarrow> m
      | Some actor \<Rightarrow>
          if d_auditUpdatedBy d = [] then m
          else if map_of m (d_auditUpdatedBy d) \<noteq> None then m
          else map_put (d_auditUpdatedBy d) (VStr actor) m)"

definition auditUpdateColumns :: "BaseDAO \<Rightarrow> string list \<Rightarrow> string list" where
  "auditUpdateColumns d cols =
     (if d_auditUpdatedBy d = [] then cols
      else if d_auditUpdatedBy d \<in> set cols then cols
      else cols @ [d_auditUpdatedBy d])"

definition splitMap :: "(string \<times> anyv) list \<Rightarrow> string list \<times> anyv list" where
  "splitMap m = (let cols = sort (map fst m) in (cols, map (\<lambda>c. the (map_of m c)) cols))"

subsection \<open>Inserts (insert.go, batch.go)\<close>

definition dao_Insert where
  "dao_Insert P d columns values s =
     exec_only (dao_Exec P d (BuildInsert \<lparr>ins_Table = d_TableName d, ins_Columns = columns, ins_Values = values,
       ins_Returning = []\<rparr>) s)"

definition InsertIgnore ::
  "'s querier \<Rightarrow> BaseDAO \<Rightarrow> string list \<Rightarrow> anyv list \<Rightarrow> string \<Rightarrow> 's \<Rightarrow> 's \<times> (goerr + bool)" where
  "InsertIgnore P d columns values conflictColumn s =
     (if length columns \<noteq> length values
      then (s, Inl (Opaque (''dao.InsertIgnore: '' @ itoa (int (length columns)) @ '' columns but '' @
                            itoa (int (length values)) @ '' values'')))
      else (let phs = map (\<lambda>i. placeholder (int i + 1)) [0..<length values];
                sql = ''INSERT INTO '' @ d_TableName d @ '' ('' @ strings_Join columns '', '' @ '') VALUES ('' @
                      strings_Join phs '', '' @ '') ON CONFLICT ('' @ conflictColumn @ '') DO NOTHING''
            in case dao_Exec P d (sql, values) s of
                 (s', Inl e) \<Rightarrow> (s', Inl e) | (s', Inr n) \<Rightarrow> (s', Inr (n > 0))))"

definition InsertMap where
  "InsertMap P scan d ctx m =
     (let (columns, values) = splitMap (auditInsert d ctx m)
      in selectOne P scan d (BuildInsert \<lparr>ins_Table = d_TableName d, ins_Columns = columns, ins_Values = values,
           ins_Returning = [''*'']\<rparr>))"

definition InsertReturning where
  "InsertReturning P scan d columns values rets s =
     (case queryRow P scan (d_DB d) (BuildInsert \<lparr>ins_Table = d_TableName d, ins_Columns = columns, ins_Values = values,
             ins_Returning = rets\<rparr>) s of
        (s', Inl e) \<Rightarrow> (s', Inl (Errorf ''InsertReturning: '' (MapPgError e) []))
      | (s', Inr x) \<Rightarrow> (s', Inr x))"

text \<open>The loop of \<^verbatim>\<open>InsertMany\<close>: row \<open>i\<close>, the text and the arguments so far, the next placeholder.\<close>

fun many_rows ::
  "nat \<Rightarrow> nat \<Rightarrow> anyv list list \<Rightarrow> string \<Rightarrow> anyv list \<Rightarrow> int \<Rightarrow> goerr + string \<times> anyv list" where
  "many_rows width i [] sb args idx = Inr (sb, args)"
| "many_rows width i (r # rs) sb args idx =
     (if length r \<noteq> width
      then Inl (Opaque (''dao.InsertMany: row '' @ itoa (int i) @ '' has '' @ itoa (int (length r)) @ '' values, want '' @
                        itoa (int width)))
      else many_rows width (Suc i) rs
             (sb @ (if i > 0 then '', '' else []) @ ''('' @
              strings_Join (map (\<lambda>j. placeholder (idx + int j)) [0..<length r]) '','' @ '')'')
             (args @ r) (idx + int (length r)))"

definition InsertMany ::
  "'s querier \<Rightarrow> BaseDAO \<Rightarrow> string list \<Rightarrow> anyv list list \<Rightarrow> 's \<Rightarrow> 's \<times> goerr option" where
  "InsertMany P d columns rows s =
     (if rows = [] then (s, None)
      else case many_rows (length columns) 0 rows
                  (''INSERT INTO '' @ d_TableName d @ '' ('' @ strings_Join columns '', '' @ '') VALUES '') [] 1 of
             Inl e \<Rightarrow> (s, Some e)
           | Inr stmt \<Rightarrow> exec_only (dao_Exec P d stmt s))"

definition CopyFrom ::
  "'s querier \<Rightarrow> BaseDAO \<Rightarrow> string list \<Rightarrow> anyv list list \<Rightarrow> 's \<Rightarrow> 's \<times> (goerr + int)" where
  "CopyFrom P d columns rows s =
     (case q_CopyFrom P of
        None \<Rightarrow> (s, Inl (Opaque ''dao.CopyFrom: underlying connection does not support CopyFrom''))
      | Some cp \<Rightarrow>
          (case cp (d_DB d) (d_TableName d) columns rows s of
             (s', Inl e) \<Rightarrow> (s', Inl (MapPgError e)) | (s', Inr n) \<Rightarrow> (s', Inr n)))"

subsection \<open>Updates (update.go)\<close>

definition update_of :: "BaseDAO \<Rightarrow> (string \<times> anyv) list \<Rightarrow> Condition list \<Rightarrow> UpdateQuery" where
  "update_of d m conds =
     \<lparr>upd_Table = d_TableName d, upd_Set = m, upd_Increment = [], upd_Conditions = conds, upd_Returning = []\<rparr>"

definition Update where
  "Update P d ctx m conds s = exec_only (dao_Exec P d (BuildUpdate (update_of d (auditUpdate d ctx m) conds)) s)"

definition UpdateReturning where
  "UpdateReturning P scan d ctx m conds =
     selectOne P scan d (BuildUpdate ((update_of d (auditUpdate d ctx m) conds)\<lparr>upd_Returning := [''*'']\<rparr>))"

definition Upsert where
  "Upsert P scan d ctx m conflictColumn updateColumns =
     (let (columns, values) = splitMap (auditInsert d ctx m)
      in selectOne P scan d (BuildUpsert \<lparr>ups_Table = d_TableName d, ups_Columns = columns, ups_Values = values,
           ups_ConflictColumn = conflictColumn, ups_UpdateColumns = auditUpdateColumns d updateColumns,
           ups_Returning = [''*'']\<rparr>))"

definition versioned_update :: "BaseDAO \<Rightarrow> (string \<times> anyv) list \<Rightarrow> Condition list \<Rightarrow> string \<Rightarrow> int \<Rightarrow> UpdateQuery" where
  "versioned_update d m conds versionCol expected =
     (update_of d m (conds @ [Condition versionCol OpEq (VInt expected) []]))
       \<lparr>upd_Increment := [versionCol], upd_Returning := [''*'']\<rparr>"

definition UpdateVersioned ::
  "'s querier \<Rightarrow> (row \<Rightarrow> goerr + 't) \<Rightarrow> BaseDAO \<Rightarrow> (string \<times> anyv) list \<Rightarrow> Condition list \<Rightarrow> string \<Rightarrow> int \<Rightarrow> 's
   \<Rightarrow> 's \<times> (goerr + 't)" where
  "UpdateVersioned P scan d m conds versionCol expected s =
     (let stmt = BuildUpdate (versioned_update d m conds versionCol expected)
      in case q_Query P (d_DB d) (fst stmt) (snd stmt) s of
           (s', Inl e) \<Rightarrow> (s', Inl (MapPgError e))
         | (s', Inr rows) \<Rightarrow>
             (s', case CollectOneRow scan rows of
                    Inl e \<Rightarrow> if errors_Is e ErrNoRows then Inl ErrStaleVersion else Inl (MapPgError e)
                  | Inr x \<Rightarrow> Inr x))"

definition UpdateByIDs ::
  "'s querier \<Rightarrow> BaseDAO \<Rightarrow> dao_ctx \<Rightarrow> string list \<Rightarrow> (string \<times> anyv) list \<Rightarrow> 's \<Rightarrow> 's \<times> goerr option" where
  "UpdateByIDs P d ctx ids m s = (if ids = [] then (s, None) else Update P d ctx m (by_ids d ids) s)"

subsection \<open>Deletes (delete.go)\<close>

definition SoftDelete :: "'s querier \<Rightarrow> BaseDAO \<Rightarrow> string \<Rightarrow> 's \<Rightarrow> 's \<times> goerr option" where
  "SoftDelete P d i s =
     (case dao_Exec P d (BuildDelete \<lparr>del_Table = d_TableName d, del_Conditions = by_id d i, del_SoftDelete = True\<rparr>) s of
        (s', Inl e) \<Rightarrow> (s', Some e)
      | (s', Inr n) \<Rightarrow> (s', if n = 0 then Some (MapPgError ErrNoRows) else None))"

definition HardDelete where
  "HardDelete P d conds s =
     exec_only (dao_Exec P d (BuildDelete \<lparr>del_Table = d_TableName d, del_Conditions = conds, del_SoftDelete = False\<rparr>) s)"

definition DeleteByIDs :: "'s querier \<Rightarrow> BaseDAO \<Rightarrow> string list \<Rightarrow> 's \<Rightarrow> 's \<times> goerr option" where
  "DeleteByIDs P d ids s = (if ids = [] then (s, None) else HardDelete P d (by_ids d ids) s)"

definition Restore :: "'s querier \<Rightarrow> BaseDAO \<Rightarrow> dao_ctx \<Rightarrow> string \<Rightarrow> 's \<Rightarrow> 's \<times> goerr option" where
  "Restore P d ctx i s =
     (if d_softDeleteColumn d = []
      then (s, Some (Opaque ''dao: Restore requires WithSoftDeleteFilter configuration''))
      else Update P (Unscoped d) ctx [(d_softDeleteColumn d, VStr (activeValue d))] (by_id d i) s)"

subsection \<open>The fluent finder (finder.go)\<close>

record Finder =
  f_dao :: BaseDAO
  f_conditions :: "Condition list"
  f_orderBy :: "OrderBy list"
  f_limit :: int
  f_offset :: int
  f_joins :: "Join list"
  f_columns :: "string list"
  f_groupBy :: "string list"
  f_having :: "Condition list"
  f_distinct :: bool

definition dao_Query :: "BaseDAO \<Rightarrow> Finder" where
  "dao_Query d = \<lparr>f_dao = d, f_conditions = [], f_orderBy = [], f_limit = 0, f_offset = 0, f_joins = [], f_columns = [],
     f_groupBy = [], f_having = [], f_distinct = False\<rparr>"

definition f_Where where "f_Where conds f = f\<lparr>f_conditions := f_conditions f @ conds\<rparr>"
definition f_OrderBy where "f_OrderBy c f = f\<lparr>f_orderBy := f_orderBy f @ [\<lparr>Order_Column = c, Order_Desc = False\<rparr>]\<rparr>"
definition f_OrderByDesc where "f_OrderByDesc c f = f\<lparr>f_orderBy := f_orderBy f @ [\<lparr>Order_Column = c, Order_Desc = True\<rparr>]\<rparr>"
definition f_Limit where "f_Limit n f = f\<lparr>f_limit := n\<rparr>"
definition f_Offset where "f_Offset n f = f\<lparr>f_offset := n\<rparr>"
definition f_Join where "f_Join j f = f\<lparr>f_joins := f_joins f @ [j]\<rparr>"
definition f_Select where "f_Select cols f = f\<lparr>f_columns := f_columns f @ cols\<rparr>"
definition f_Distinct where "f_Distinct f = f\<lparr>f_distinct := True\<rparr>"
definition f_GroupBy where "f_GroupBy cols f = f\<lparr>f_groupBy := f_groupBy f @ cols\<rparr>"
definition f_Having where "f_Having conds f = f\<lparr>f_having := f_having f @ conds\<rparr>"

definition finder_query :: "Finder \<Rightarrow> int \<Rightarrow> int \<Rightarrow> SelectQuery" where
  "finder_query f limit offset =
     (select_of (f_dao f) (f_conditions f))
       \<lparr>sel_Distinct := f_distinct f, sel_Columns := f_columns f, sel_Joins := f_joins f, sel_GroupBy := f_groupBy f,
        sel_Having := f_having f, sel_OrderBy := f_orderBy f, sel_Limit := limit, sel_Offset := offset\<rparr>"

definition f_Find where
  "f_Find P scan f = selectMany P scan (f_dao f) (BuildSelect (finder_query f (f_limit f) (f_offset f)))"

definition f_One where
  "f_One P scan f = selectOne P scan (f_dao f) (BuildSelect (finder_query f 1 (f_offset f)))"

definition f_Count :: "'s querier \<Rightarrow> Finder \<Rightarrow> 's \<Rightarrow> 's \<times> (goerr + int)" where
  "f_Count P f s =
     (if f_joins f = [] then Count P (f_dao f) (f_conditions f) s
      else case queryRow P scan_count (d_DB (f_dao f))
                  (BuildSelect ((select_of (f_dao f) (f_conditions f))
                     \<lparr>sel_Columns := [''COUNT(*) AS count''], sel_Joins := f_joins f\<rparr>)) s of
             (s', Inl e) \<Rightarrow> (s', Inl (MapPgError e)) | (s', Inr n) \<Rightarrow> (s', Inr n))"

definition f_Exists where
  "f_Exists P scan f s =
     (if f_joins f = [] \<and> f_columns f = [] then dao_Exists P scan (f_dao f) (f_conditions f) s
      else exists_of (selectOne P scan (f_dao f)
             (BuildSelect ((select_of (f_dao f) (f_conditions f))
                \<lparr>sel_Columns := f_columns f, sel_Joins := f_joins f, sel_Limit := 1\<rparr>)) s))"

definition f_Page where
  "f_Page P scan f s =
     (if \<not> f_distinct f \<and> f_joins f = [] \<and> f_columns f = [] \<and> f_groupBy f = [] \<and> f_having f = []
      then FindPage P scan (f_dao f) (f_conditions f) (f_orderBy f) (f_limit f) (f_offset f) s
      else (let limit = page_limit (f_limit f); offset = page_offset (f_offset f)
            in page_of P scan (f_dao f) limit offset (finder_query f limit offset) (f_Count P f s)))"

subsection \<open>What the database answers\<close>

text \<open>The meaning of the statements the builder writes, on a table given as a list of rows: \<open>holds\<close> is the
  database's three-valued evaluation of a condition (\<open>None\<close> is SQL's unknown, which selects nothing),
  \<open>order\<close> its ordering. Of \<open>holds\<close> only equality and inequality with a non-null constant are used.\<close>

type_synonym evaluation = "Condition \<Rightarrow> row \<Rightarrow> bool option"

definition col_val :: "row \<Rightarrow> string \<Rightarrow> anyv" where
  "col_val r c = (case map_of r c of Some v \<Rightarrow> v | None \<Rightarrow> VNil)"

definition compares_ok :: "evaluation \<Rightarrow> bool" where
  "compares_ok holds \<longleftrightarrow>
     (\<forall>c v r. v \<noteq> VNil \<longrightarrow>
        holds (Condition c OpEq v []) r = (if col_val r c = VNil then None else Some (col_val r c = v)) \<and>
        holds (Condition c OpNotEq v []) r = (if col_val r c = VNil then None else Some (col_val r c \<noteq> v)))"

definition row_matches :: "evaluation \<Rightarrow> Condition list \<Rightarrow> row \<Rightarrow> bool" where
  "row_matches holds cs r \<longleftrightarrow> (\<forall>c \<in> set cs. holds c r = Some True)"

definition window :: "int \<Rightarrow> int \<Rightarrow> 'a list \<Rightarrow> 'a list" where
  "window limit offset xs =
     (let ys = (if 0 < offset then drop (nat offset) xs else xs) in if 0 < limit then take (nat limit) ys else ys)"

definition selected :: "evaluation \<Rightarrow> (OrderBy list \<Rightarrow> row list \<Rightarrow> row list) \<Rightarrow> SelectQuery \<Rightarrow> row list \<Rightarrow> row list" where
  "selected holds order q tab =
     window (sel_Limit q) (sel_Offset q) (order (sel_OrderBy q) (filter (row_matches holds (sel_Conditions q)) tab))"

text \<open>A database that answers one plain select, or one count, as it should, and does not change.\<close>

definition answers_select where
  "answers_select P c holds order tab q s \<longleftrightarrow>
     q_Query P c (fst (BuildSelect q)) (snd (BuildSelect q)) s = (s, Inr (selected holds order q tab, None))"

definition answers_count where
  "answers_count P c holds tab q s \<longleftrightarrow>
     q_Query P c (fst (BuildSelect (q\<lparr>sel_Columns := [''COUNT(*) AS count'']\<rparr>)))
       (snd (BuildSelect (q\<lparr>sel_Columns := [''COUNT(*) AS count'']\<rparr>))) s =
     (s, Inr ([[(''count'', VInt (int (length (filter (row_matches holds (sel_Conditions q)) tab))))]], None))"

lemma scan_all_total: "\<forall>r \<in> set rs. scan r = Inr (f r) \<Longrightarrow> scan_all scan rs = Inr (map f rs)"
  by (induction rs) auto

lemma selectMany_answer:
  assumes "answers_select P (d_DB d) holds order tab q s" and "\<forall>r \<in> set (selected holds order q tab). scan r = Inr (f r)"
  shows "selectMany P scan d (BuildSelect q) s = (s, Inr (map f (selected holds order q tab)))"
  using assms scan_all_total [OF assms(2)] by (simp add: selectMany_def answers_select_def CollectRows_def)

text \<open>Which rows a DAO sees: with a filter configured and not suspended, those whose column is neither the
  deleted value nor null.\<close>

definition live :: "BaseDAO \<Rightarrow> row \<Rightarrow> bool" where
  "live d r \<longleftrightarrow> d_softDeleteColumn d = [] \<or> d_unscoped d \<or>
     col_val r (d_softDeleteColumn d) \<noteq> VNil \<and> col_val r (d_softDeleteColumn d) \<noteq> VStr (deletedValue d)"

lemma row_matches_scoped:
  "compares_ok holds \<Longrightarrow> row_matches holds (withSoftDeleteFilter d cs) r \<longleftrightarrow> row_matches holds cs r \<and> live d r"
  by (auto simp: row_matches_def withSoftDeleteFilter_def live_def compares_ok_def split: if_splits)

lemma filter_scoped:
  "compares_ok holds \<Longrightarrow> filter (row_matches holds (withSoftDeleteFilter d cs)) tab = filter (\<lambda>r. row_matches holds cs r \<and> live d r) tab"
  by (intro filter_cong refl row_matches_scoped)

lemma FindAllOrdered_answer:
  assumes "compares_ok holds" and "\<forall>q. answers_select P (d_DB d) holds order tab q s"
    and "\<forall>r \<in> set (order ob (filter (\<lambda>r. row_matches holds cs r \<and> live d r) tab)). scan r = Inr (f r)"
  shows "FindAllOrdered P scan d cs ob s = (s, Inr (map f (order ob (filter (\<lambda>r. row_matches holds cs r \<and> live d r) tab))))"
proof -
  let ?q = "(select_of d cs)\<lparr>sel_OrderBy := ob\<rparr>"
  have sel: "selected holds order ?q tab = order ob (filter (\<lambda>r. row_matches holds cs r \<and> live d r) tab)"
    by (simp add: selected_def select_of_def window_def filter_scoped [OF assms(1)])
  have "selectMany P scan d (BuildSelect ?q) s = (s, Inr (map f (selected holds order ?q tab)))"
    by (rule selectMany_answer) (use assms(2,3) in \<open>simp_all add: sel\<close>)
  then show ?thesis by (simp add: FindAllOrdered_def sel)
qed

subsection \<open>Pages\<close>

lemma Count_answer:
  assumes "compares_ok holds" and "answers_count P (d_DB d) holds tab (select_of d cs) s"
  shows "Count P d cs s = (s, Inr (int (length (filter (\<lambda>r. row_matches holds cs r \<and> live d r) tab))))"
proof -
  have c: "sel_Conditions (select_of d cs) = withSoftDeleteFilter d cs" by (simp add: select_of_def)
  show ?thesis
    using assms unfolding answers_count_def c row_matches_scoped [OF assms(1)]
    by (simp add: Count_def queryRow_def CollectOneRow_def scan_count_def)
qed

lemma window_pos: "0 < limit \<Longrightarrow> 0 \<le> offset \<Longrightarrow> window limit offset xs = take (nat limit) (drop (nat offset) xs)"
  by (auto simp: window_def)

lemma length_window:
  assumes "0 < limit" "0 \<le> offset"
  shows "int (length (window limit offset xs)) = max 0 (min limit (int (length xs) - offset))"
  using assms by (auto simp: window_pos min_def max_def)

text \<open>
  C16: One page of a list. On a database that answers the count and the page query from the same table
  (fewer than \<open>2\<^sup>6\<^sup>3\<close> rows), \<^verbatim>\<open>FindPage\<close> returns the window of the matching rows, soft-deleted ones left
  out, in the requested order, with limit 10 for a limit that is not positive and offset 0 for a negative
  one; the total is the number of matching rows and there is a next page exactly when rows remain
  after this one.
\<close>

theorem page_is_window:
  fixes limit offset :: int
  assumes cmp: "compares_ok holds"
    and cnt: "answers_count P (d_DB d) holds tab (select_of d cs) s"
    and sel: "answers_select P (d_DB d) holds order tab
      ((select_of d cs)\<lparr>sel_OrderBy := ob, sel_Limit := page_limit limit, sel_Offset := page_offset offset\<rparr>) s"
    and all: "all_rows = order ob (filter (\<lambda>r. row_matches holds cs r \<and> live d r) tab)"
    and len: "length all_rows = length (filter (\<lambda>r. row_matches holds cs r \<and> live d r) tab)" "int (length all_rows) < 2 ^ 63"
    and scan: "list_all (\<lambda>r. scan r = Inr (f r)) all_rows"
    and off: "in_int64 offset"
  shows "FindPage P scan d cs ob limit offset s =
    (s, Inr \<lparr>pg_Data = map f (take (nat (page_limit limit)) (drop (nat (page_offset offset)) all_rows)),
             pg_Total = int (length all_rows), pg_Limit = page_limit limit, pg_Offset = page_offset offset,
             pg_HasNext = (page_offset offset + page_limit limit < int (length all_rows))\<rparr>)"
proof -
  let ?q = "(select_of d cs)\<lparr>sel_OrderBy := ob, sel_Limit := page_limit limit, sel_Offset := page_offset offset\<rparr>"
  let ?w = "window (page_limit limit) (page_offset offset) all_rows"
  have lim: "0 < page_limit limit" "0 \<le> page_offset offset" "page_offset offset < 2 ^ 63"
    using off by (auto simp: page_limit_def page_offset_def in_int64_def)
  have sw: "selected holds order ?q tab = ?w"
    by (simp add: selected_def select_of_def filter_scoped [OF cmp] all)
  have w: "?w = take (nat (page_limit limit)) (drop (nat (page_offset offset)) all_rows)"
    using lim by (simp add: window_pos)
  have "\<forall>r \<in> set ?w. scan r = Inr (f r)"
    using scan unfolding w by (auto simp: list_all_iff dest: in_set_takeD in_set_dropD)
  with selectMany_answer [OF sel] sw have many: "selectMany P scan d (BuildSelect ?q) s = (s, Inr (map f ?w))" by simp
  have count: "Count P d cs s = (s, Inr (int (length all_rows)))"
    using Count_answer [OF cmp cnt] len(1) by simp
  have lw: "int (length ?w) = max 0 (min (page_limit limit) (int (length all_rows) - page_offset offset))"
    by (rule length_window) (use lim in simp_all)
  show ?thesis
  proof (cases "page_offset offset < int (length all_rows)")
    case True
    have "in_int64 (page_offset offset + int (length ?w))" using True len(2) lim lw by (simp add: in_int64_def)
    then have "(int64 (page_offset offset + int (length ?w)) < int (length all_rows)) =
        (page_offset offset + page_limit limit < int (length all_rows))"
      using True lim lw by (auto simp: int64_id)
    then show ?thesis using True many count by (simp add: FindPage_def page_of_def w Let_def)
  next
    case False
    have "in_int64 (page_offset offset)" using lim by (simp add: in_int64_def)
    then show ?thesis using False lim count by (simp add: FindPage_def page_of_def int64_id Let_def)
  qed
qed

text \<open>The pages of one size, one after the other, are the whole list.\<close>

lemma pages_concat: "concat (map (\<lambda>k. take n (drop (k * n) xs)) [0..<m]) = take (m * n) xs"
proof (induction m)
  case (Suc m)
  have "take (Suc m * n) xs = take (m * n) xs @ take n (drop (m * n) xs)"
    using take_add [of "m * n" n xs] by (simp add: add.commute)
  with Suc show ?case by simp
qed simp

subsection \<open>Optimistic locking\<close>

text \<open>The meaning of an update: the rows it matches get the new values and their counters incremented.\<close>

definition increment :: "anyv \<Rightarrow> anyv" where
  "increment v = (case v of VInt n \<Rightarrow> VInt (n + 1) | _ \<Rightarrow> v)"

definition updated :: "UpdateQuery \<Rightarrow> row \<Rightarrow> row" where
  "updated q r =
     fold (\<lambda>c r'. map_put c (increment (col_val r c)) r') (upd_Increment q)
       (fold (\<lambda>(c, v) r'. map_put c v r') (upd_Set q) r)"

definition answers_update :: "'s querier \<Rightarrow> conn \<Rightarrow> evaluation \<Rightarrow> ('s \<Rightarrow> row list) \<Rightarrow> UpdateQuery \<Rightarrow> bool" where
  "answers_update P c holds tbl q \<longleftrightarrow>
     (\<forall>s. \<exists>s'. q_Query P c (fst (BuildUpdate q)) (snd (BuildUpdate q)) s =
           (s', Inr (map (updated q) (filter (row_matches holds (upd_Conditions q)) (tbl s)), None)) \<and>
         tbl s' = map (\<lambda>r. if row_matches holds (upd_Conditions q) r then updated q r else r) (tbl s))"

text \<open>A row with its key: it is the only one with that key and is at version \<open>v\<close>.\<close>

definition at_version :: "('s \<Rightarrow> row list) \<Rightarrow> string \<Rightarrow> anyv \<Rightarrow> string \<Rightarrow> int \<Rightarrow> 's \<Rightarrow> bool" where
  "at_version tbl key i vcol v s \<longleftrightarrow>
     (\<exists>r. filter (\<lambda>r. col_val r key = i) (tbl s) = [r] \<and> col_val r vcol = VInt v)"

lemma col_val_map_put [simp]: "col_val (map_put c v r) c' = (if c' = c then v else col_val r c')"
  by (simp add: col_val_def)

lemma col_val_fold_put:
  "c \<notin> fst ` set m \<Longrightarrow> col_val (fold (\<lambda>(c, v) r'. map_put c v r') m r) c = col_val r c"
  by (induction m arbitrary: r) auto

lemma updated_cols:
  assumes "key \<notin> fst ` set m" "key \<noteq> vcol"
  shows "col_val (updated (versioned_update d m cs vcol e) r) key = col_val r key"
    "col_val (updated (versioned_update d m cs vcol e) r) vcol = increment (col_val r vcol)"
  using assms by (simp_all add: updated_def versioned_update_def update_of_def col_val_fold_put)

text \<open>Compare and swap on a counter, the reference.\<close>

fun cas_run :: "int \<Rightarrow> int list \<Rightarrow> bool list" where
  "cas_run v [] = []"
| "cas_run v (e # es) = (if e = v then True # cas_run (v + 1) es else False # cas_run v es)"

text \<open>Versioned updates of one row, in the order their statements reach the database; each gives whether it succeeded.\<close>

fun versioned_run ::
  "'s querier \<Rightarrow> (row \<Rightarrow> goerr + 't) \<Rightarrow> string \<Rightarrow> string \<Rightarrow> (BaseDAO \<times> (string \<times> anyv) list \<times> int) list \<Rightarrow> 's
   \<Rightarrow> (goerr + 't) list" where
  "versioned_run P scan i vcol [] s = []"
| "versioned_run P scan i vcol ((d, m, e) # cs) s =
     (case UpdateVersioned P scan d m (by_id d i) vcol e s of (s', res) \<Rightarrow> res # versioned_run P scan i vcol cs s')"

lemma row_matches_versioned:
  assumes "compares_ok holds"
  shows "row_matches holds (upd_Conditions (versioned_update d m (by_id d i) vcol e)) r \<longleftrightarrow>
    col_val r (d_IDColumn d) = VStr i \<and> col_val r vcol = VInt e"
  using assms
  by (auto simp: row_matches_def versioned_update_def update_of_def by_id_def cb_Build_def cb_Eq_def cb_append_def
      NewConditionBuilder_def compares_ok_def split: if_splits)

lemma filter_map_same:
  assumes "\<And>x. x \<in> set xs \<Longrightarrow> Q (f x) = Q x"
  shows "filter Q (map f xs) = map f (filter Q xs)"
  using assms by (induction xs) auto

lemma UpdateVersioned_step:
  assumes cmp: "compares_ok holds" and ans: "answers_update P (d_DB d) holds tbl (versioned_update d m (by_id d i) vcol e)"
    and cols: "d_IDColumn d \<notin> fst ` set m" "d_IDColumn d \<noteq> vcol" and scan: "\<forall>r. \<exists>x. scan r = Inr x"
    and at: "at_version tbl (d_IDColumn d) (VStr i) vcol v s"
    and u: "UpdateVersioned P scan d m (by_id d i) vcol e s = (s', res)"
  shows "if e = v then (\<exists>x. res = Inr x) \<and> at_version tbl (d_IDColumn d) (VStr i) vcol (v + 1) s'
    else res = Inl ErrStaleVersion \<and> at_version tbl (d_IDColumn d) (VStr i) vcol v s'"
proof -
  define q where "q = versioned_update d m (by_id d i) vcol e"
  define M where "M = row_matches holds (upd_Conditions q)"
  define K where "K = (\<lambda>r. col_val r (d_IDColumn d) = VStr i)"
  have M: "M r \<longleftrightarrow> K r \<and> col_val r vcol = VInt e" for r
    unfolding M_def q_def K_def by (rule row_matches_versioned [OF cmp])
  from ans u [unfolded UpdateVersioned_def Let_def] have s': "tbl s' = map (\<lambda>r. if M r then updated q r else r) (tbl s)"
    and res: "res = (case CollectOneRow scan (map (updated q) (filter M (tbl s)), None) of
        Inl e \<Rightarrow> if errors_Is e ErrNoRows then Inl ErrStaleVersion else Inl (MapPgError e) | Inr x \<Rightarrow> Inr x)"
    unfolding answers_update_def q_def [symmetric] M_def [symmetric] by (auto dest!: spec [of _ s])
  obtain r where r: "filter K (tbl s) = [r]" "col_val r vcol = VInt v"
    using at unfolding at_version_def K_def by blast
  have fM: "filter M (tbl s) = filter (\<lambda>r. col_val r vcol = VInt e) (filter K (tbl s))"
    by (simp add: M filter_filter conj_commute cong: filter_cong)
  have keyK: "K (if M r then updated q r else r) = K r" for r
    using updated_cols(1) [OF cols] by (simp add: K_def q_def)
  have fK: "filter K (tbl s') = [if M r then updated q r else r]"
    unfolding s' using filter_map_same [of "tbl s" K, OF keyK] r(1) by simp
  have Kr: "K r" using r(1) by (metis (mono_tags) filter_eq_ConsD)
  obtain x where x: "scan (updated q r) = Inr x" using scan by blast
  show ?thesis
  proof (cases "e = v")
    case True
    then have "M r" "filter M (tbl s) = [r]" using r Kr by (simp_all add: M fM)
    with res fK x r(2) updated_cols(2) [OF cols] True show ?thesis
      by (auto simp: CollectOneRow_def at_version_def K_def q_def increment_def)
  next
    case False
    then have "\<not> M r" "filter M (tbl s) = []" using r Kr by (simp_all add: M fM)
    with res fK r(2) False show ?thesis
      by (simp add: CollectOneRow_def at_version_def K_def errors_Is_def)
  qed
qed

text \<open>
  C8: Versioned updates are a compare-and-swap. Take any sequence of \<^verbatim>\<open>UpdateVersioned\<close> calls on one row,
  whoever makes them (each is a single statement, so every interleaving is such a sequence), on a
  database that runs the statements as written. They succeed exactly where a compare-and-swap on the
  version counter would: the ones that expect the current version, which then goes up by one; all
  others report a stale version. So of the calls that expect the same version at most one succeeds.
\<close>

theorem versioned_updates_refine_cas:
  assumes cmp: "compares_ok holds"
    and calls: "list_all (\<lambda>(d, m, e). answers_update P (d_DB d) holds tbl (versioned_update d m (by_id d i) vcol e) \<and>
        d_IDColumn d = key \<and> key \<notin> fst ` set m) calls"
    and key: "key \<noteq> vcol" and scan: "\<forall>r. \<exists>x. scan r = Inr x"
    and at: "at_version tbl key (VStr i) vcol v s"
  shows "map (\<lambda>r. \<exists>x. r = Inr x) (versioned_run P scan i vcol calls s) = cas_run v (map (\<lambda>(d, m, e). e) calls) \<and>
    (\<forall>r \<in> set (versioned_run P scan i vcol calls s). r = Inl ErrStaleVersion \<or> (\<exists>x. r = Inr x))"
  using calls at
proof (induction calls arbitrary: v s)
  case (Cons call calls)
  obtain d m e where c: "call = (d, m, e)" by (cases call)
  obtain s' res where u: "UpdateVersioned P scan d m (by_id d i) vcol e s = (s', res)" by fastforce
  from Cons.prems c have h: "answers_update P (d_DB d) holds tbl (versioned_update d m (by_id d i) vcol e)"
    "d_IDColumn d = key" "key \<notin> fst ` set m" by auto
  note st = UpdateVersioned_step [OF cmp h(1) _ _ scan _ u, of v, unfolded h(2), OF h(3) key Cons.prems(2)]
  have run: "versioned_run P scan i vcol (call # calls) s = res # versioned_run P scan i vcol calls s'"
    by (simp add: c u)
  show ?case
    using st Cons.IH [of "if e = v then v + 1 else v" s'] Cons.prems(1) unfolding run by (auto simp: c split: if_splits)
qed simp

lemma cas_run_below: "k < length es \<Longrightarrow> es ! k < v \<Longrightarrow> \<not> cas_run v es ! k"
  by (induction es arbitrary: v k) (auto simp: nth_Cons split: nat.splits)

lemma cas_run_exclusive:
  "i < j \<Longrightarrow> j < length es \<Longrightarrow> es ! i = es ! j \<Longrightarrow> cas_run v es ! i \<Longrightarrow> \<not> cas_run v es ! j"
proof (induction es arbitrary: v i j)
  case (Cons e es)
  from Cons.prems show ?case
    by (cases i; cases j) (auto simp: cas_run_below dest: Cons.IH split: if_splits)
qed simp

subsection \<open>Batch inserts\<close>

text \<open>The statement of \<^verbatim>\<open>InsertMany\<close> as tokens: one group of values per row.\<close>

definition row_toks :: "anyv list \<Rightarrow> sql_tok list" where
  "row_toks r = Txt ''('' # join_toks '','' (map (\<lambda>v. [Val v]) r) @ [Txt '')'']"

definition insert_many_stmt :: "string \<Rightarrow> string list \<Rightarrow> anyv list list \<Rightarrow> sql_tok list" where
  "insert_many_stmt table columns rows =
     Txt (''INSERT INTO '' @ table @ '' ('' @ strings_Join columns '', '' @ '') VALUES '') # join_toks '', '' (map row_toks rows)"

lemma render_parts_Vals: "render_parts i (map (\<lambda>v. [Val v]) vs) = map (\<lambda>j. placeholder (i + int j)) [0..<length vs]"
proof (induction vs arbitrary: i)
  case (Cons v vs)
  have "map (\<lambda>j. placeholder (i + int j)) [0..<length (v # vs)] =
      placeholder i # map (\<lambda>j. placeholder (i + 1 + int j)) [0..<length vs]"
    by (simp add: upt_conv_Cons map_Suc_upt [symmetric] algebra_simps del: upt_Suc)
  with Cons show ?case by simp
qed simp

lemma row_toks_simps [simp]:
  "vals (row_toks r) = r"
  "render i (row_toks r) = ''('' @ strings_Join (map (\<lambda>j. placeholder (i + int j)) [0..<length r]) '','' @ '')''"
  by (simp_all add: row_toks_def render_parts_Vals comp_def)

lemma many_rows_spec:
  assumes "\<forall>r \<in> set rs. length r = width"
  shows "many_rows width i rs sb args idx =
    Inr (sb @ (if i > 0 \<and> rs \<noteq> [] then '', '' else []) @ render idx (join_toks '', '' (map row_toks rs)), args @ concat rs)"
  using assms
proof (induction rs arbitrary: i sb args idx)
  case (Cons r rs)
  then have w: "length r = width" and "\<forall>r \<in> set rs. length r = width" by simp_all
  note IH = Cons.IH [OF this(2)]
  show ?case
    unfolding many_rows.simps IH using w by (cases rs) simp_all
qed simp

lemma many_rows_error:
  assumes "\<not> (\<forall>r \<in> set rs. length r = width)"
  shows "\<exists>m. many_rows width i rs sb args idx = Inl (Opaque m)"
  using assms by (induction rs arbitrary: i sb args idx) auto

text \<open>A batch is one statement: the table's columns, then one group of placeholders per row, numbered through, with
  the values of all rows in the same order; a row of the wrong length sends nothing.\<close>

lemma InsertMany_statement:
  assumes "rows \<noteq> []" and "\<forall>r \<in> set rows. length r = length columns"
  shows "InsertMany P d columns rows s = exec_only (dao_Exec P d
    (render 1 (insert_many_stmt (d_TableName d) columns rows), vals (insert_many_stmt (d_TableName d) columns rows)) s)"
  using assms by (simp add: InsertMany_def many_rows_spec insert_many_stmt_def comp_def)

lemma InsertMany_ragged:
  assumes "\<exists>r \<in> set rows. length r \<noteq> length columns"
  shows "\<exists>m. InsertMany P d columns rows s = (s, Some (Opaque m))"
proof -
  from many_rows_error [of rows "length columns"] assms
  obtain m where "many_rows (length columns) 0 rows
      (''INSERT INTO '' @ d_TableName d @ '' ('' @ strings_Join columns '', '' @ '') VALUES '') [] 1 = Inl (Opaque m)" by blast
  with assms show ?thesis by (auto simp: InsertMany_def)
qed

subsection \<open>Audit columns\<close>

lemma map_of_put_unless_set:
  "map_of (put_unless_set col a m) c =
    (if c = col \<and> col \<noteq> [] \<and> map_of m col = None then Some (VStr a) else map_of m c)"
  by (auto simp: put_unless_set_def)

text \<open>The actor fills the audit columns the caller left out and changes nothing else.\<close>

lemma auditInsert_fills:
  "map_of (auditInsert d ctx m) c =
    (case ActorFromContext ctx of
       Some a \<Rightarrow> if c \<noteq> [] \<and> c \<in> {d_auditCreatedBy d, d_auditUpdatedBy d} \<and> map_of m c = None then Some (VStr a) else map_of m c
     | None \<Rightarrow> map_of m c)"
  by (auto simp: auditInsert_def map_of_put_unless_set split: option.splits)

lemma auditUpdate_fills:
  "map_of (auditUpdate d ctx m) c =
    (case ActorFromContext ctx of
       Some a \<Rightarrow> if c \<noteq> [] \<and> c = d_auditUpdatedBy d \<and> map_of m c = None then Some (VStr a) else map_of m c
     | None \<Rightarrow> map_of m c)"
  by (auto simp: auditUpdate_def split: option.splits)

text \<open>Columns and values stay aligned, in an order that does not depend on the map's.\<close>

lemma splitMap_aligned:
  assumes "splitMap m = (cols, vs)"
  shows "zip cols vs = map (\<lambda>c. (c, the (map_of m c))) (sort (map fst m)) \<and> map_of (zip cols vs) = map_of m"
proof -
  have z: "zip cols vs = map (\<lambda>c. (c, the (map_of m c))) (sort (map fst m))"
    using assms by (auto simp: splitMap_def Let_def zip_map2 zip_same_conv_map)
  have "map_of (zip cols vs) c = map_of m c" for c
    unfolding z using map_of_eq_None_iff [of m c] by (cases "map_of m c") (simp_all add: map_of_map_restrict restrict_map_def)
  then show ?thesis using z by auto
qed

subsection \<open>A concrete table\<close>

definition holds_simple :: evaluation where
  "holds_simple c r =
     (case c of Condition col op v _ \<Rightarrow>
        if col_val r col = VNil then None
        else if op = OpEq then Some (col_val r col = v)
        else if op = OpNotEq then Some (col_val r col \<noteq> v)
        else None)"

lemma holds_simple_ok: "compares_ok holds_simple"
  by (simp add: compares_ok_def holds_simple_def OpEq_def OpNotEq_def)

definition demo_rows :: "row list" where
  "demo_rows =
     [[(''id'', VStr ''a''), (''status'', VStr ''ACTIVE'')], [(''id'', VStr ''b''), (''status'', VStr ''DELETED'')],
      [(''id'', VStr ''c''), (''status'', VStr ''ACTIVE'')], [(''id'', VStr ''d''), (''status'', VStr ''ACTIVE'')]]"

definition demo_dao :: BaseDAO where
  "demo_dao = NewBaseDAOWith Pool ''item'' [WithSoftDeleteFilter ''status'']"

definition demo_scan :: "row \<Rightarrow> goerr + anyv" where
  "demo_scan r = Inr (col_val r ''id'')"

definition demo_count :: SelectQuery where
  "demo_count = (select_of demo_dao [])\<lparr>sel_Columns := [''COUNT(*) AS count'']\<rparr>"

definition demo_page :: SelectQuery where
  "demo_page = (select_of demo_dao [])\<lparr>sel_OrderBy := [], sel_Limit := 1, sel_Offset := 1\<rparr>"

definition demo_querier :: "unit querier" where
  "demo_querier =
     \<lparr>q_Query = (\<lambda>c sql args s. (s, Inr (
        if sql = fst (BuildSelect demo_count)
        then [[(''count'', VInt (int (length (filter (row_matches holds_simple (sel_Conditions demo_count)) demo_rows))))]]
        else selected holds_simple (\<lambda>_ rs. rs) demo_page demo_rows, None))),
      q_Exec = (\<lambda>c sql args s. (s, Inr 0)), q_CopyFrom = None\<rparr>"

lemma demo_statements_differ: "fst (BuildSelect demo_page) \<noteq> fst (BuildSelect demo_count)"
  by code_simp

lemma demo_live: "filter (\<lambda>r. row_matches holds_simple [] r \<and> live demo_dao r) demo_rows = [demo_rows ! 0, demo_rows ! 2, demo_rows ! 3]"
  by code_simp

theorem page_is_window_witness:
  "FindPage demo_querier demo_scan demo_dao [] [] 1 1 () =
     ((), Inr \<lparr>pg_Data = [VStr ''c''], pg_Total = 3, pg_Limit = 1, pg_Offset = 1, pg_HasNext = True\<rparr>)"
proof -
  have cnt: "answers_count demo_querier (d_DB demo_dao) holds_simple demo_rows (select_of demo_dao []) ()"
    unfolding answers_count_def demo_count_def [symmetric]
    by (simp add: demo_querier_def) (simp add: demo_count_def)
  have sel: "answers_select demo_querier (d_DB demo_dao) holds_simple (\<lambda>_ rs. rs) demo_rows
      ((select_of demo_dao [])\<lparr>sel_OrderBy := [], sel_Limit := page_limit 1, sel_Offset := page_offset 1\<rparr>) ()"
    unfolding answers_select_def page_limit_def page_offset_def
    using demo_statements_differ by (simp add: demo_querier_def demo_page_def)
  note page = page_is_window [where f = "\<lambda>r. col_val r ''id''" and scan = demo_scan, OF holds_simple_ok cnt sel refl]
  show ?thesis
    using page unfolding demo_live
    by (simp add: demo_scan_def in_int64_def page_limit_def page_offset_def demo_rows_def col_val_def)
qed

definition demo_update_querier :: "row list querier" where
  "demo_update_querier =
     \<lparr>q_Query = (\<lambda>c sql args tab.
        (case args of
           [v, i, e] \<Rightarrow>
             (let M = (\<lambda>r. col_val r ''id'' = i \<and> col_val r ''version'' = e);
                  U = (\<lambda>r. map_put ''version'' (increment (col_val r ''version'')) (map_put ''name'' v r))
              in (map (\<lambda>r. if M r then U r else r) tab, Inr (map U (filter M tab), None)))
         | _ \<Rightarrow> (tab, Inr ([], None)))),
      q_Exec = (\<lambda>c sql args s. (s, Inr 0)), q_CopyFrom = None\<rparr>"

lemma demo_update_args:
  "snd (BuildUpdate (versioned_update (NewBaseDAO Pool ''item'') [(''name'', v)] (by_id (NewBaseDAO Pool ''item'') i) ''version'' e)) =
    [v, VStr i, VInt e]"
  by (simp add: BuildUpdate_stmt update_stmt_def versioned_update_def update_of_def by_id_def clause_stmt_def
      cb_Build_def cb_Eq_def cb_append_def NewConditionBuilder_def op_defs)

theorem versioned_updates_refine_cas_witness:
  "map (\<lambda>r. \<exists>x. r = Inr x)
     (versioned_run demo_update_querier demo_scan ''a'' ''version''
        [(NewBaseDAO Pool ''item'', [(''name'', VStr ''x'')], 4), (NewBaseDAO Pool ''item'', [(''name'', VStr ''y'')], 4),
         (NewBaseDAO Pool ''item'', [(''name'', VStr ''z'')], 5)]
        [[(''id'', VStr ''a''), (''version'', VInt 4)]]) = [True, False, True]"
proof -
  have ans: "answers_update demo_update_querier Pool holds_simple (\<lambda>s. s)
      (versioned_update (NewBaseDAO Pool ''item'') [(''name'', v)] (by_id (NewBaseDAO Pool ''item'') ''a'') ''version'' e)" for v e
    unfolding answers_update_def demo_update_args row_matches_versioned [OF holds_simple_ok]
    by (simp add: demo_update_querier_def Let_def NewBaseDAO_def updated_def versioned_update_def update_of_def)
  show ?thesis
    using versioned_updates_refine_cas [OF holds_simple_ok, where i = "''a''" and vcol = "''version''" and key = "''id''" and v = 4
      and P = demo_update_querier and tbl = "\<lambda>s. s" and scan = demo_scan
      and s = "[[(''id'', VStr ''a''), (''version'', VInt 4)]]" and calls =
      "[(NewBaseDAO Pool ''item'', [(''name'', VStr ''x'')], 4), (NewBaseDAO Pool ''item'', [(''name'', VStr ''y'')], 4),
         (NewBaseDAO Pool ''item'', [(''name'', VStr ''z'')], 5)]"] ans
    by (simp add: NewBaseDAO_def demo_scan_def at_version_def col_val_def)
qed

subsection \<open>Soft deletion and its filter\<close>

text \<open>\<^verbatim>\<open>SoftDelete\<close> sends the same statement whatever column and values were configured: with a filter on another
  column, or another deleted value, the row it marks stays visible.\<close>

lemma soft_delete_ignores_configuration:
  "SoftDelete P (WithSoftDeleteFilter col (WithSoftDeleteValues deleted active d)) i = SoftDelete P d i"
  by (simp add: fun_eq_iff SoftDelete_def dao_Exec_def by_id_def WithSoftDeleteFilter_def WithSoftDeleteValues_def)

end
