(* ===== verification/Repository.thy ===== *)
theory Repository
  imports Dao
begin

text \<open>
  Package \<^verbatim>\<open>database/postgres/repository\<close> and \<^verbatim>\<open>database/postgres/sqlcx\<close>: the embeddable repository, whose every
  method runs the data access object's on the ambient transaction when the context carries one, and
  the connection handed to generated queries by the same rule. The closing property composes them
  with \<^verbatim>\<open>transaction.InTransaction\<close>.
\<close>

subsection \<open>Construction (base.go, options.go, sql.go)\<close>

record Base =
  r_dao :: BaseDAO

record repo_config =
  rc_table :: string
  rc_idCol :: string
  rc_daoOpts :: "(BaseDAO \<Rightarrow> BaseDAO) list"

type_synonym repo_option = "repo_config \<Rightarrow> repo_config"

definition WithTable :: "string \<Rightarrow> repo_option" where
  "WithTable table c = c\<lparr>rc_table := table\<rparr>"

definition WithID :: "string \<Rightarrow> repo_option" where
  "WithID column c = c\<lparr>rc_idCol := column\<rparr>"

definition WithDAOOption :: "(BaseDAO \<Rightarrow> BaseDAO) \<Rightarrow> repo_option" where
  "WithDAOOption opt c = c\<lparr>rc_daoOpts := rc_daoOpts c @ [opt]\<rparr>"

text \<open>\<open>describer\<close> is what the row type says of its table when it implements \<^verbatim>\<open>dao.TableDescriber\<close>; \<open>None\<close> is
  the panic of \<^verbatim>\<open>New\<close>.\<close>

definition repo_New :: "(string \<times> string) option \<Rightarrow> repo_option list \<Rightarrow> Base option" where
  "repo_New describer opts =
     (let cfg = fold (\<lambda>opt c. opt c) opts \<lparr>rc_table = [], rc_idCol = [], rc_daoOpts = []\<rparr>;
          daoOpts = rc_daoOpts cfg @ (if rc_idCol cfg \<noteq> [] then [WithIDColumn (rc_idCol cfg)] else [])
      in if rc_table cfg \<noteq> [] then Some \<lparr>r_dao = NewBaseDAOWith Pool (rc_table cfg) daoOpts\<rparr>
         else map_option (\<lambda>d. \<lparr>r_dao = d\<rparr>) (NewBaseDAOFromEntity Pool describer daoOpts))"

record 'q BaseWithSQL = Base +
  r_sql :: 'q

definition NewWithSQL :: "(string \<times> string) option \<Rightarrow> 'q \<Rightarrow> repo_option list \<Rightarrow> 'q BaseWithSQL option" where
  "NewWithSQL describer sql opts = map_option (\<lambda>b. \<lparr>r_dao = r_dao b, r_sql = sql\<rparr>) (repo_New describer opts)"

definition SQL :: "'q BaseWithSQL \<Rightarrow> 'q" where
  "SQL b = r_sql b"

definition repo_DAO :: "Base \<Rightarrow> dao_ctx \<Rightarrow> BaseDAO" where
  "repo_DAO b ctx = (case TxFromContext (cx_tx ctx) of Some tx \<Rightarrow> WithTx tx (r_dao b) | None \<Rightarrow> r_dao b)"

definition repo_Unscoped :: "Base \<Rightarrow> Base" where
  "repo_Unscoped b = b\<lparr>r_dao := Unscoped (r_dao b)\<rparr>"

definition repo_Query :: "Base \<Rightarrow> dao_ctx \<Rightarrow> Finder" where
  "repo_Query b ctx = dao_Query (repo_DAO b ctx)"

definition sqlcx_DB :: "dao_ctx \<Rightarrow> conn" where
  "sqlcx_DB ctx = (case TxFromContext (cx_tx ctx) of Some tx \<Rightarrow> Tx tx | None \<Rightarrow> Pool)"

subsection \<open>The methods (crud.go, batch.go, paging.go)\<close>

definition repo_FindByID where "repo_FindByID P scan b ctx i = FindByID P scan (repo_DAO b ctx) i"
definition repo_FindOne where "repo_FindOne P scan b ctx conds = FindOne P scan (repo_DAO b ctx) conds"
definition repo_FindAll where "repo_FindAll P scan b ctx conds = FindAll P scan (repo_DAO b ctx) conds"
definition repo_FindAllOrdered where
  "repo_FindAllOrdered P scan b ctx conds orderBy = FindAllOrdered P scan (repo_DAO b ctx) conds orderBy"
definition repo_InsertMap where "repo_InsertMap P scan b ctx m = InsertMap P scan (repo_DAO b ctx) ctx m"
definition repo_Insert where "repo_Insert P b ctx columns vs = dao_Insert P (repo_DAO b ctx) columns vs"
definition repo_InsertIgnore where
  "repo_InsertIgnore P b ctx columns vs conflictColumn = InsertIgnore P (repo_DAO b ctx) columns vs conflictColumn"
definition repo_InsertReturning where
  "repo_InsertReturning P scan b ctx columns vs rets = InsertReturning P scan (repo_DAO b ctx) columns vs rets"
definition repo_Update where "repo_Update P b ctx m conds = Update P (repo_DAO b ctx) ctx m conds"
definition repo_UpdateReturning where
  "repo_UpdateReturning P scan b ctx m conds = UpdateReturning P scan (repo_DAO b ctx) ctx m conds"
definition repo_Upsert where
  "repo_Upsert P scan b ctx m conflictColumn cols = Upsert P scan (repo_DAO b ctx) ctx m conflictColumn cols"
definition repo_UpdateVersioned where
  "repo_UpdateVersioned P scan b ctx m conds versionCol expected =
     UpdateVersioned P scan (repo_DAO b ctx) m conds versionCol expected"
definition repo_SoftDelete where "repo_SoftDelete P b ctx i = SoftDelete P (repo_DAO b ctx) i"
definition repo_Restore where "repo_Restore P b ctx i = Restore P (repo_DAO b ctx) ctx i"
definition repo_HardDelete where "repo_HardDelete P b ctx conds = HardDelete P (repo_DAO b ctx) conds"
definition repo_Select where "repo_Select P scan b ctx sql args = selectMany P scan (repo_DAO b ctx) (sql, args)"
definition repo_SelectOne where "repo_SelectOne P scan b ctx sql args = selectOne P scan (repo_DAO b ctx) (sql, args)"
definition repo_Exec where "repo_Exec P b ctx sql args = dao_Exec P (repo_DAO b ctx) (sql, args)"
definition repo_InsertMany where "repo_InsertMany P b ctx columns rows = InsertMany P (repo_DAO b ctx) columns rows"
definition repo_CopyFrom where "repo_CopyFrom P b ctx columns rows = CopyFrom P (repo_DAO b ctx) columns rows"
definition repo_UpdateByIDs where "repo_UpdateByIDs P b ctx ids m = UpdateByIDs P (repo_DAO b ctx) ctx ids m"
definition repo_DeleteByIDs where "repo_DeleteByIDs P b ctx ids = DeleteByIDs P (repo_DAO b ctx) ids"
definition repo_FindByIDs where "repo_FindByIDs P scan b ctx ids = FindByIDs P scan (repo_DAO b ctx) ids"
definition repo_FindPage where
  "repo_FindPage P scan b ctx conds orderBy limit offset = FindPage P scan (repo_DAO b ctx) conds orderBy limit offset"
definition repo_Count where "repo_Count P b ctx conds = Count P (repo_DAO b ctx) conds"
definition repo_Exists where "repo_Exists P scan b ctx conds = dao_Exists P scan (repo_DAO b ctx) conds"

subsection \<open>Where the statements go\<close>

text \<open>A relation between the worlds before and after that every statement on one connection keeps, as an interface: the
  operations of a data access object bound to that connection keep it too.\<close>

locale confined =
  fixes P :: "'s querier" and c :: conn and R :: "'s \<Rightarrow> 's \<Rightarrow> bool"
  assumes R_refl: "R s s"
    and R_query: "R s (fst (q_Query P c sql args s))"
    and R_exec: "R s (fst (q_Exec P c sql args s))"
    and R_copy: "q_CopyFrom P = Some cp \<Longrightarrow> R s (fst (cp c table columns rows s))"
    and R_trans: "R s s' \<Longrightarrow> R s' s'' \<Longrightarrow> R s s''"
begin

lemma query_step: "q_Query P c sql args s = (s', r) \<Longrightarrow> R s s'"
  using R_query [of s sql args] by simp

lemma exec_step: "q_Exec P c sql args s = (s', r) \<Longrightarrow> R s s'"
  using R_exec [of s sql args] by simp

lemma copy_step: "q_CopyFrom P = Some cp \<Longrightarrow> cp c table columns rows s = (s', r) \<Longrightarrow> R s s'"
  using R_copy [of cp s table columns rows] by simp

lemma statements_keep:
  assumes "d_DB d = c"
  shows "R s (fst (selectOne P scan d stmt s))" "R s (fst (selectMany P scan d stmt s))"
    "R s (fst (queryRow P scan c stmt s))" "R s (fst (dao_Exec P d stmt s))"
  by (auto simp: selectOne_def selectMany_def queryRow_def dao_Exec_def assms dest: query_step exec_step
      split: prod.splits sum.splits)

lemma exec_only_keeps: "R s (fst r) \<Longrightarrow> R s (fst (exec_only r))"
  by (auto simp: exec_only_def split: prod.splits sum.splits)

lemma exists_of_keeps: "R s (fst r) \<Longrightarrow> R s (fst (exists_of r))"
  by (auto simp: exists_of_def split: prod.splits sum.splits)

lemma reads_keep:
  assumes "d_DB d = c"
  shows "R s (fst (FindByID P scan d i s))" "R s (fst (FindOne P scan d cs s))" "R s (fst (FindAll P scan d cs s))"
    "R s (fst (FindAllOrdered P scan d cs ob s))" "R s (fst (FindByIDs P scan d ids s))" "R s (fst (dao_Exists P scan d cs s))"
  by (simp_all add: FindByID_def FindOne_def FindAll_def FindAllOrdered_def FindByIDs_def dao_Exists_def R_refl exists_of_keeps
      statements_keep [OF assms])

lemma count_step: "queryRow P scan_count c stmt s = (s', r) \<Longrightarrow> R s s'"
  using query_step by (auto simp: queryRow_def split: prod.splits sum.splits)

lemma Count_keeps:
  assumes "d_DB d = c"
  shows "R s (fst (Count P d cs s))"
  by (auto simp: Count_def assms dest: count_step split: prod.splits sum.splits)

lemma page_of_keeps:
  assumes "d_DB d = c" "R s (fst cnt)"
  shows "R s (fst (page_of P scan d limit offset q cnt))"
proof -
  have "R s1 s2" if "selectMany P scan d (BuildSelect q) s1 = (s2, r)" for s1 s2 r
    using statements_keep(2) [OF assms(1), of s1 scan "BuildSelect q"] that by simp
  with assms(2) show ?thesis by (auto simp: page_of_def Let_def split: prod.splits sum.splits intro: R_trans)
qed

lemma FindPage_keeps: "d_DB d = c \<Longrightarrow> R s (fst (FindPage P scan d cs ob limit offset s))"
  by (simp add: FindPage_def Let_def page_of_keeps Count_keeps)

lemma inserts_keep:
  assumes "d_DB d = c"
  shows "R s (fst (dao_Insert P d cols vs s))" "R s (fst (InsertMap P scan d ctx m s))"
    "R s (fst (InsertIgnore P d cols vs cf s))" "R s (fst (InsertReturning P scan d cols vs rets s))"
    "R s (fst (InsertMany P d cols rows s))" "R s (fst (CopyFrom P d cols rows s))"
proof -
  note st = statements_keep [OF assms]
  show "R s (fst (dao_Insert P d cols vs s))" "R s (fst (InsertMap P scan d ctx m s))"
    by (simp_all add: dao_Insert_def InsertMap_def exec_only_keeps st split: prod.splits)
  show "R s (fst (InsertMany P d cols rows s))"
    by (simp add: InsertMany_def exec_only_keeps st R_refl split: sum.splits)
  have "R s s'" if "dao_Exec P d stmt s = (s', r)" for s' r stmt using st(4) [of s stmt] that by simp
  then show "R s (fst (InsertIgnore P d cols vs cf s))"
    by (auto simp: InsertIgnore_def Let_def R_refl split: prod.splits sum.splits)
  have "R s s'" if "queryRow P scan c stmt s = (s', r)" for s' r stmt using st(3) [of s scan stmt] that by simp
  then show "R s (fst (InsertReturning P scan d cols vs rets s))"
    by (auto simp: InsertReturning_def assms split: prod.splits sum.splits)
  show "R s (fst (CopyFrom P d cols rows s))"
    by (auto simp: CopyFrom_def R_refl assms dest: copy_step split: option.splits prod.splits sum.splits)
qed

lemma writes_keep:
  assumes "d_DB d = c"
  shows "R s (fst (Update P d ctx m cs s))" "R s (fst (UpdateReturning P scan d ctx m cs s))"
    "R s (fst (Upsert P scan d ctx m cf cols s))" "R s (fst (UpdateVersioned P scan d m cs vcol e s))"
    "R s (fst (UpdateByIDs P d ctx ids m s))" "R s (fst (SoftDelete P d i s))" "R s (fst (HardDelete P d cs s))"
    "R s (fst (DeleteByIDs P d ids s))" "R s (fst (Restore P d ctx i s))"
proof -
  note st = statements_keep [OF assms]
  have upd: "d_DB d' = c \<Longrightarrow> R s (fst (Update P d' ctx m cs s))" for d' m cs
    using statements_keep [of d'] by (simp add: Update_def exec_only_keeps)
  then show "R s (fst (Update P d ctx m cs s))" using assms by simp
  show "R s (fst (UpdateReturning P scan d ctx m cs s))" "R s (fst (Upsert P scan d ctx m cf cols s))"
    by (simp_all add: UpdateReturning_def Upsert_def st split: prod.splits)
  show "R s (fst (UpdateVersioned P scan d m cs vcol e s))"
    by (auto simp: UpdateVersioned_def Let_def assms dest: query_step split: prod.splits sum.splits)
  show "R s (fst (UpdateByIDs P d ctx ids m s))"
    using upd assms by (simp add: UpdateByIDs_def R_refl)
  have "R s s'" if "dao_Exec P d stmt s = (s', r)" for s' r stmt using st(4) [of s stmt] that by simp
  then show "R s (fst (SoftDelete P d i s))" by (auto simp: SoftDelete_def split: prod.splits sum.splits)
  show "R s (fst (HardDelete P d cs s))" "R s (fst (DeleteByIDs P d ids s))"
    by (simp_all add: HardDelete_def DeleteByIDs_def exec_only_keeps st R_refl)
  show "R s (fst (Restore P d ctx i s))"
    using upd [of "Unscoped d"] assms by (simp add: Restore_def R_refl Unscoped_def)
qed

lemma finder_keeps:
  assumes "d_DB (f_dao f) = c"
  shows "R s (fst (f_Find P scan f s))" "R s (fst (f_One P scan f s))" "R s (fst (f_Count P f s))"
    "R s (fst (f_Exists P scan f s))" "R s (fst (f_Page P scan f s))"
proof -
  note st = statements_keep [OF assms]
  show "R s (fst (f_Find P scan f s))" "R s (fst (f_One P scan f s))"
    by (simp_all add: f_Find_def f_One_def st)
  show cnt: "R s (fst (f_Count P f s))"
    using Count_keeps [OF assms] by (simp add: f_Count_def assms split: prod.splits sum.splits) (blast intro: count_step)
  show "R s (fst (f_Exists P scan f s))"
    by (simp add: f_Exists_def reads_keep(6) [OF assms] exists_of_keeps st)
  show "R s (fst (f_Page P scan f s))"
    by (simp add: f_Page_def Let_def FindPage_keeps [OF assms] page_of_keeps [OF assms] cnt)
qed

end

subsection \<open>Any call\<close>

text \<open>One value per method of the repository, and the fluent queries by what ends them.\<close>

datatype finder_end = EndFind | EndOne | EndCount | EndExists | EndPage

datatype repo_call =
    CallFindByID string
  | CallFindOne "Condition list"
  | CallFindAll "Condition list"
  | CallFindAllOrdered "Condition list" "OrderBy list"
  | CallFindByIDs "string list"
  | CallFindPage "Condition list" "OrderBy list" int int
  | CallCount "Condition list"
  | CallExists "Condition list"
  | CallInsertMap "(string \<times> anyv) list"
  | CallInsert "string list" "anyv list"
  | CallInsertIgnore "string list" "anyv list" string
  | CallInsertReturning "string list" "anyv list" "string list"
  | CallInsertMany "string list" "anyv list list"
  | CallCopyFrom "string list" "anyv list list"
  | CallUpdate "(string \<times> anyv) list" "Condition list"
  | CallUpdateReturning "(string \<times> anyv) list" "Condition list"
  | CallUpsert "(string \<times> anyv) list" string "string list"
  | CallUpdateVersioned "(string \<times> anyv) list" "Condition list" string int
  | CallUpdateByIDs "string list" "(string \<times> anyv) list"
  | CallSoftDelete string
  | CallRestore string
  | CallHardDelete "Condition list"
  | CallDeleteByIDs "string list"
  | CallSelect string "anyv list"
  | CallSelectOne string "anyv list"
  | CallExec string "anyv list"
  | CallQuery finder_end "Condition list" "OrderBy list" int int "Join list" "string list" "string list" "Condition list" bool

text \<open>The error a call gives its caller; its other result is not needed here.\<close>

definition outcome :: "'s \<times> (goerr + 'a) \<Rightarrow> 's \<times> goerr option" where
  "outcome r = (fst r, case snd r of Inl e \<Rightarrow> Some e | Inr _ \<Rightarrow> None)"

definition end_finder :: "'s querier \<Rightarrow> (row \<Rightarrow> goerr + 't) \<Rightarrow> finder_end \<Rightarrow> Finder \<Rightarrow> 's \<Rightarrow> 's \<times> goerr option" where
  "end_finder P scan k f s =
     (case k of
        EndFind \<Rightarrow> outcome (f_Find P scan f s) | EndOne \<Rightarrow> outcome (f_One P scan f s)
      | EndCount \<Rightarrow> outcome (f_Count P f s) | EndExists \<Rightarrow> outcome (f_Exists P scan f s)
      | EndPage \<Rightarrow> outcome (f_Page P scan f s))"

fun run_call :: "'s querier \<Rightarrow> (row \<Rightarrow> goerr + 't) \<Rightarrow> Base \<Rightarrow> dao_ctx \<Rightarrow> repo_call \<Rightarrow> 's \<Rightarrow> 's \<times> goerr option" where
  "run_call P scan b ctx (CallFindByID i) s = outcome (repo_FindByID P scan b ctx i s)"
| "run_call P scan b ctx (CallFindOne cs) s = outcome (repo_FindOne P scan b ctx cs s)"
| "run_call P scan b ctx (CallFindAll cs) s = outcome (repo_FindAll P scan b ctx cs s)"
| "run_call P scan b ctx (CallFindAllOrdered cs ob) s = outcome (repo_FindAllOrdered P scan b ctx cs ob s)"
| "run_call P scan b ctx (CallFindByIDs ids) s = outcome (repo_FindByIDs P scan b ctx ids s)"
| "run_call P scan b ctx (CallFindPage cs ob limit offset) s = outcome (repo_FindPage P scan b ctx cs ob limit offset s)"
| "run_call P scan b ctx (CallCount cs) s = outcome (repo_Count P b ctx cs s)"
| "run_call P scan b ctx (CallExists cs) s = outcome (repo_Exists P scan b ctx cs s)"
| "run_call P scan b ctx (CallInsertMap m) s = outcome (repo_InsertMap P scan b ctx m s)"
| "run_call P scan b ctx (CallInsert cols vs) s = repo_Insert P b ctx cols vs s"
| "run_call P scan b ctx (CallInsertIgnore cols vs cf) s = outcome (repo_InsertIgnore P b ctx cols vs cf s)"
| "run_call P scan b ctx (CallInsertReturning cols vs rets) s = outcome (repo_InsertReturning P scan b ctx cols vs rets s)"
| "run_call P scan b ctx (CallInsertMany cols rows) s = repo_InsertMany P b ctx cols rows s"
| "run_call P scan b ctx (CallCopyFrom cols rows) s = outcome (repo_CopyFrom P b ctx cols rows s)"
| "run_call P scan b ctx (CallUpdate m cs) s = repo_Update P b ctx m cs s"
| "run_call P scan b ctx (CallUpdateReturning m cs) s = outcome (repo_UpdateReturning P scan b ctx m cs s)"
| "run_call P scan b ctx (CallUpsert m cf cols) s = outcome (repo_Upsert P scan b ctx m cf cols s)"
| "run_call P scan b ctx (CallUpdateVersioned m cs vcol e) s = outcome (repo_UpdateVersioned P scan b ctx m cs vcol e s)"
| "run_call P scan b ctx (CallUpdateByIDs ids m) s = repo_UpdateByIDs P b ctx ids m s"
| "run_call P scan b ctx (CallSoftDelete i) s = repo_SoftDelete P b ctx i s"
| "run_call P scan b ctx (CallRestore i) s = repo_Restore P b ctx i s"
| "run_call P scan b ctx (CallHardDelete cs) s = repo_HardDelete P b ctx cs s"
| "run_call P scan b ctx (CallDeleteByIDs ids) s = repo_DeleteByIDs P b ctx ids s"
| "run_call P scan b ctx (CallSelect sql args) s = outcome (repo_Select P scan b ctx sql args s)"
| "run_call P scan b ctx (CallSelectOne sql args) s = outcome (repo_SelectOne P scan b ctx sql args s)"
| "run_call P scan b ctx (CallExec sql args) s = outcome (repo_Exec P b ctx sql args s)"
| "run_call P scan b ctx (CallQuery k cs ob limit offset js cols grp hav dst) s =
     end_finder P scan k ((repo_Query b ctx)\<lparr>f_conditions := cs, f_orderBy := ob, f_limit := limit, f_offset := offset,
       f_joins := js, f_columns := cols, f_groupBy := grp, f_having := hav, f_distinct := dst\<rparr>) s"

lemmas repo_defs = repo_FindByID_def repo_FindOne_def repo_FindAll_def repo_FindAllOrdered_def repo_InsertMap_def
  repo_Insert_def repo_InsertIgnore_def repo_InsertReturning_def repo_Update_def repo_UpdateReturning_def repo_Upsert_def
  repo_UpdateVersioned_def repo_SoftDelete_def repo_Restore_def repo_HardDelete_def repo_Select_def repo_SelectOne_def
  repo_Exec_def repo_InsertMany_def repo_CopyFrom_def repo_UpdateByIDs_def repo_DeleteByIDs_def repo_FindByIDs_def
  repo_FindPage_def repo_Count_def repo_Exists_def

lemma fst_outcome [simp]: "fst (outcome r) = fst r"
  by (simp add: outcome_def)

lemma repo_DAO_conn: "d_DB (r_dao b) = Pool \<Longrightarrow> d_DB (repo_DAO b ctx) = sqlcx_DB ctx"
  by (simp add: repo_DAO_def sqlcx_DB_def WithTx_def split: option.splits)

context confined
begin

lemma run_call_keeps:
  assumes "d_DB (repo_DAO b ctx) = c"
  shows "R s (fst (run_call P scan b ctx call s))"
proof (cases call)
  case (CallQuery k)
  then show ?thesis
    by (cases k) (simp_all add: end_finder_def repo_Query_def dao_Query_def finder_keeps assms)
qed (simp_all add: repo_defs statements_keep [OF assms] reads_keep [OF assms] Count_keeps [OF assms] FindPage_keeps [OF assms]
    inserts_keep [OF assms] writes_keep [OF assms])

end

text \<open>A database that also records the connection of every statement.\<close>

definition tracing :: "'s querier \<Rightarrow> ('s \<times> conn list) querier" where
  "tracing P =
     \<lparr>q_Query = (\<lambda>c sql args (s, l). case q_Query P c sql args s of (s', r) \<Rightarrow> ((s', l @ [c]), r)),
      q_Exec = (\<lambda>c sql args (s, l). case q_Exec P c sql args s of (s', r) \<Rightarrow> ((s', l @ [c]), r)),
      q_CopyFrom = map_option (\<lambda>cp c table columns rows (s, l).
        case cp c table columns rows s of (s', r) \<Rightarrow> ((s', l @ [c]), r)) (q_CopyFrom P)\<rparr>"

definition only_on :: "conn \<Rightarrow> 's \<times> conn list \<Rightarrow> 's \<times> conn list \<Rightarrow> bool" where
  "only_on c st st' \<longleftrightarrow> (\<exists>l. snd st' = snd st @ l \<and> set l \<subseteq> {c})"

interpretation traced: confined "tracing P" c "only_on c" for P c
  by unfold_locales (auto simp: only_on_def tracing_def split: prod.splits)

text \<open>The options of the two packages leave the connection alone.\<close>

definition dao_options :: "(BaseDAO \<Rightarrow> BaseDAO) set" where
  "dao_options = range WithSoftDeleteFilter \<union> range WithIDColumn \<union> range (\<lambda>(a, b). WithSoftDeleteValues a b)
     \<union> range (\<lambda>(a, b). WithAuditColumns a b)"

definition repo_options :: "repo_option set" where
  "repo_options = range WithTable \<union> range WithID \<union> WithDAOOption ` dao_options"

lemma dao_options_conn: "set opts \<subseteq> dao_options \<Longrightarrow> d_DB (fold (\<lambda>opt d. opt d) opts d) = d_DB d"
  by (induction opts arbitrary: d)
    (auto simp: dao_options_def WithSoftDeleteFilter_def WithIDColumn_def WithSoftDeleteValues_def WithAuditColumns_def)

lemma repo_options_daoOpts:
  "set opts \<subseteq> repo_options \<Longrightarrow> set (rc_daoOpts c) \<subseteq> dao_options
   \<Longrightarrow> set (rc_daoOpts (fold (\<lambda>opt c. opt c) opts c)) \<subseteq> dao_options"
proof (induction opts arbitrary: c)
  case (Cons opt opts)
  from Cons.prems have "set (rc_daoOpts (opt c)) \<subseteq> dao_options"
    by (auto simp: repo_options_def WithTable_def WithID_def WithDAOOption_def)
  with Cons show ?case by simp
qed simp

lemma repo_New_pool:
  assumes "set opts \<subseteq> repo_options" and "repo_New describer opts = Some b"
  shows "d_DB (r_dao b) = Pool"
proof -
  let ?opts = "rc_daoOpts (fold (\<lambda>opt c. opt c) opts \<lparr>rc_table = [], rc_idCol = [], rc_daoOpts = []\<rparr>)"
  have o: "set ?opts \<subseteq> dao_options" "set (?opts @ [WithIDColumn i]) \<subseteq> dao_options" for i
    using repo_options_daoOpts [OF assms(1), of "\<lparr>rc_table = [], rc_idCol = [], rc_daoOpts = []\<rparr>"]
    by (auto simp: dao_options_def)
  show ?thesis
    using assms(2) dao_options_conn [OF o(1)] dao_options_conn [OF o(2)]
    by (auto simp: repo_New_def Let_def NewBaseDAOWith_def NewBaseDAOFromEntity_def NewBaseDAO_def split: if_splits option.splits)
qed

text \<open>
  C15: Transaction propagation. Take a repository built with the options of the package. Whatever method is
  called, with whatever arguments and on whatever database, every statement it sends goes to the
  connection of the context: the ambient transaction when there is one, else the pool; the same
  connection \<^verbatim>\<open>sqlcx.DB\<close> gives generated queries.
\<close>

theorem repository_on_ambient_connection:
  assumes "set opts \<subseteq> repo_options" and "repo_New describer opts = Some b"
    and "run_call (tracing P) scan b ctx call (s, []) = ((s', used), r)"
  shows "set used \<subseteq> {sqlcx_DB ctx}"
proof -
  have "only_on (sqlcx_DB ctx) (s, []) (fst (run_call (tracing P) scan b ctx call (s, [])))"
    by (rule traced.run_call_keeps [OF repo_DAO_conn [OF repo_New_pool [OF assms(1,2)]]])
  with assms(3) show ?thesis by (simp add: only_on_def)
qed

theorem repository_on_ambient_connection_witness:
  "repo_New None [WithTable ''item''] = Some \<lparr>r_dao = NewBaseDAO Pool ''item''\<rparr> \<and>
   snd (fst (run_call (tracing demo_querier) demo_scan \<lparr>r_dao = NewBaseDAO Pool ''item''\<rparr> \<lparr>cx_tx = Some 7, cx_actor = None\<rparr>
     (CallUpdateByIDs [''a''] []) ((), []))) = [Tx 7] \<and>
   set (snd (fst (run_call (tracing demo_querier) demo_scan \<lparr>r_dao = NewBaseDAO Pool ''item''\<rparr> \<lparr>cx_tx = Some 7, cx_actor = None\<rparr>
     (CallUpdateByIDs [''a''] []) ((), [])))) \<subseteq> {Tx 7}"
proof -
  let ?b = "\<lparr>r_dao = NewBaseDAO Pool ''item''\<rparr>" and ?ctx = "\<lparr>cx_tx = Some 7, cx_actor = None\<rparr>"
  have new: "repo_New None [WithTable ''item''] = Some ?b"
    by (simp add: repo_New_def WithTable_def NewBaseDAOWith_def)
  obtain s' used r where run: "run_call (tracing demo_querier) demo_scan ?b ?ctx (CallUpdateByIDs [''a''] []) ((), []) = ((s', used), r)"
    by (metis prod.exhaust)
  have "set used \<subseteq> {sqlcx_DB ?ctx}"
    by (rule repository_on_ambient_connection [OF _ new run]) (simp add: repo_options_def)
  moreover have "used = [Tx 7]"
    using run by (simp add: repo_defs UpdateByIDs_def Update_def dao_Exec_def exec_only_def tracing_def demo_querier_def
        repo_DAO_def TxFromContext_def WithTx_def)
  ultimately show ?thesis using new run by (simp add: sqlcx_DB_def TxFromContext_def)
qed

subsection \<open>Atomic units\<close>

text \<open>Statements on a transaction work on its copy only.\<close>

definition tx_step :: "('s, 'd) pgx \<Rightarrow> nat \<Rightarrow> 's \<Rightarrow> 's \<Rightarrow> bool" where
  "tx_step P t s s' \<longleftrightarrow>
     (work P s t \<noteq> None \<longrightarrow> committed P s' = committed P s \<and> (\<exists>v. work P s' = (work P s)(t \<mapsto> v)))"

definition tx_querier_ok :: "('s, 'd) pgx \<Rightarrow> 's querier \<Rightarrow> bool" where
  "tx_querier_ok P Q \<longleftrightarrow>
     (\<forall>t sql args s. tx_step P t s (fst (q_Query Q (Tx t) sql args s)) \<and> tx_step P t s (fst (q_Exec Q (Tx t) sql args s)))
   \<and> (\<forall>cp t table columns rows s. q_CopyFrom Q = Some cp \<longrightarrow> tx_step P t s (fst (cp (Tx t) table columns rows s)))"

lemma tx_step_refl: "tx_step P t s s"
  by (auto simp: tx_step_def) (metis fun_upd_triv)

lemma tx_step_trans: "tx_step P t s s' \<Longrightarrow> tx_step P t s' s'' \<Longrightarrow> tx_step P t s s''"
  by (auto simp: tx_step_def)

lemma tx_querier_confined: "tx_querier_ok P Q \<Longrightarrow> confined Q (Tx t) (tx_step P t)"
  by unfold_locales (auto simp: tx_querier_ok_def tx_step_refl intro: tx_step_trans)

text \<open>Repository calls in order, of any repositories, stopping at the first error.\<close>

fun run_unit ::
  "'s querier \<Rightarrow> (row \<Rightarrow> goerr + 't) \<Rightarrow> dao_ctx \<Rightarrow> (Base \<times> repo_call) list \<Rightarrow> 's \<Rightarrow> 's \<times> goerr option" where
  "run_unit Q scan ctx [] s = (s, None)"
| "run_unit Q scan ctx ((b, call) # calls) s =
     (case run_call Q scan b ctx call s of (s', Some e) \<Rightarrow> (s', Some e) | (s', None) \<Rightarrow> run_unit Q scan ctx calls s')"

lemma run_unit_steps:
  assumes ok: "tx_querier_ok P Q" and "\<forall>(b, call) \<in> set calls. d_DB (r_dao b) = Pool"
  shows "tx_step P t s (fst (run_unit Q scan (ctx\<lparr>cx_tx := Some t\<rparr>) calls s))"
  using assms(2)
proof (induction calls arbitrary: s)
  case Nil
  show ?case by (simp add: tx_step_refl)
next
  case (Cons bc calls)
  obtain b call where bc: "bc = (b, call)" by (cases bc)
  obtain s1 r where c: "run_call Q scan b (ctx\<lparr>cx_tx := Some t\<rparr>) call s = (s1, r)" by fastforce
  have "d_DB (repo_DAO b (ctx\<lparr>cx_tx := Some t\<rparr>)) = Tx t"
    using Cons.prems bc by (simp add: repo_DAO_conn sqlcx_DB_def TxFromContext_def)
  from confined.run_call_keeps [OF tx_querier_confined [OF ok] this, of s scan call] have 1: "tx_step P t s s1" by (simp add: c)
  from Cons have "tx_step P t s1 (fst (run_unit Q scan (ctx\<lparr>cx_tx := Some t\<rparr>) calls s1))" by simp
  with 1 show ?case by (auto simp: bc c split: option.splits intro: tx_step_trans)
qed

lemma run_unit_body:
  assumes "tx_querier_ok P Q" and "\<forall>(b, call) \<in> set calls. d_DB (r_dao b) = Pool"
  shows "body_ok P (\<lambda>t. run_unit Q scan (ctx\<lparr>cx_tx := Some t\<rparr>) calls)"
  unfolding body_ok_def
proof (intro allI impI)
  fix t s v s' r
  assume "work P s t = Some v \<and> run_unit Q scan (ctx\<lparr>cx_tx := Some t\<rparr>) calls s = (s', r)"
  with run_unit_steps [OF assms, of t s scan ctx] show "committed P s' = committed P s \<and> (\<exists>v'. work P s' = (work P s)(t \<mapsto> v'))"
    by (simp add: tx_step_def)
qed

text \<open>
  C3: Repository calls compose atomically. Any sequence of repository calls, of any number of repositories,
  inside one \<^verbatim>\<open>InTransaction\<close> (repositories hold no transaction code: they only read the context) is one
  atomic unit: it leaves no transaction open; if it succeeds, the complete effect of all the calls is
  published; if it fails, nothing is, except when the error is that of a commit whose outcome is
  unknown.
\<close>

theorem repository_unit_atomic:
  assumes "pgx_ok P" and "tx_querier_ok P Q" and "\<forall>(b, call) \<in> set calls. d_DB (r_dao b) = Pool"
    and "InTransaction P None (\<lambda>tx t. run_unit Q scan (ctx\<lparr>cx_tx := tx\<rparr>) calls) s = (s', r)"
  shows "work P s' = work P s
    \<and> (r = None \<longrightarrow> tx_published P (\<lambda>t. run_unit Q scan (ctx\<lparr>cx_tx := Some t\<rparr>) calls) s s')
    \<and> (r \<noteq> None \<longrightarrow> committed P s' = committed P s \<or> (\<exists>e. r = Some (commit_error e) \<and> \<not> isRetryablePgError (Some e)))"
  using WithTransaction_outcome [OF assms(1) run_unit_body [OF assms(2,3), of scan ctx], of s s' r] assms(4)
  by (auto simp: InTransaction_outermost)

text \<open>An in-memory database whose statements add to the transaction's copy: inserting succeeds, deleting fails.\<close>

definition mem_querier :: "memdb querier" where
  "mem_querier =
     \<lparr>q_Query = (\<lambda>c sql args s. (s, Inr ([], None))),
      q_Exec = (\<lambda>c sql args s. case c of
         Pool \<Rightarrow> (s\<lparr>mem_data := mem_data s + 1\<rparr>, Inr 1)
       | Tx t \<Rightarrow> (case mem_add (if take 6 sql = ''INSERT'' then 1 else - 1) t s of (s', Some e) \<Rightarrow> (s', Inl e) | (s', None) \<Rightarrow> (s', Inr 1))),
      q_CopyFrom = None\<rparr>"

lemma mem_add_step: "mem_add n t s = (s', r) \<Longrightarrow> tx_step mem_pgx t s s'"
  using mem_add_ok [of n] unfolding body_ok_def tx_step_def by blast

lemma mem_querier_ok: "tx_querier_ok mem_pgx mem_querier"
  by (auto simp: tx_querier_ok_def mem_querier_def tx_step_refl dest: mem_add_step split: prod.splits option.splits)

definition demo_unit :: "memdb \<times> goerr option" where
  "demo_unit = InTransaction mem_pgx None (\<lambda>tx t. run_unit mem_querier demo_scan (\<lparr>cx_tx = None, cx_actor = None\<rparr>\<lparr>cx_tx := tx\<rparr>)
     [(\<lparr>r_dao = NewBaseDAO Pool ''item''\<rparr>, CallInsert [''id''] [VStr ''x'']),
      (\<lparr>r_dao = NewBaseDAO Pool ''item''\<rparr>, CallHardDelete [])]) \<lparr>mem_data = 5, mem_open = []\<rparr>"

lemma demo_unit_fails: "snd demo_unit = Some (MapPgError (Opaque ''negative''))"
  by code_simp

theorem repository_unit_atomic_witness:
  "snd demo_unit = Some (MapPgError (Opaque ''negative'')) \<and> map_of (mem_open (fst demo_unit)) = Map.empty \<and> mem_data (fst demo_unit) = 5"
proof -
  have run: "InTransaction mem_pgx None (\<lambda>tx t. run_unit mem_querier demo_scan (\<lparr>cx_tx = None, cx_actor = None\<rparr>\<lparr>cx_tx := tx\<rparr>)
     [(\<lparr>r_dao = NewBaseDAO Pool ''item''\<rparr>, CallInsert [''id''] [VStr ''x'']),
      (\<lparr>r_dao = NewBaseDAO Pool ''item''\<rparr>, CallHardDelete [])]) \<lparr>mem_data = 5, mem_open = []\<rparr> = (fst demo_unit, snd demo_unit)"
    by (simp only: demo_unit_def prod.collapse)
  have nc: "MapPgError (Opaque ''negative'') \<noteq> commit_error e" for e
    by (simp add: MapPgError_def MapPostgresError_def errors_Is_def errors_As_PgError_def is_pg_def Let_def commit_error_def)
  show ?thesis
    using repository_unit_atomic [OF mem_pgx_ok mem_querier_ok _ run] nc demo_unit_fails
    by (auto simp: NewBaseDAO_def mem_pgx_def)
qed

subsection \<open>The errors of the calls\<close>

lemma mapped_not_retryable: "\<not> isRetryablePgError (MapPostgresError err)"
proof (cases err)
  case (Some e)
  show ?thesis
  proof (cases "errors_As_PgError e")
    case None
    then have "errors_As_PgError (Errorf p e x) = None" for p x
      by (simp add: errors_As_PgError_def is_pg_def find_None_iff)
    then show ?thesis
      by (simp add: Some None MapPostgresError_def isRetryablePgError_def Let_def NewNotFound_def errors_As_PgError_def is_pg_def)
  next
    case pg: (Some pg)
    then have "errors_As_PgError (Errorf p e x) = Some pg" for p x
      by (simp add: errors_As_PgError_def is_pg_def)
    then show ?thesis
      by (simp add: Some pg MapPostgresError_def isRetryablePgError_def Let_def new_defs errors_As_PgError_def is_pg_def)
  qed
qed (simp add: MapPostgresError_def isRetryablePgError_def)

definition quiet :: "goerr \<Rightarrow> bool" where
  "quiet e \<longleftrightarrow> \<not> isRetryablePgError (Some e)"

lemma quiet_errors [simp]: "quiet (MapPgError e)" "quiet (Opaque m)" "quiet ErrStaleVersion" "quiet e' \<Longrightarrow> quiet (Errorf p e' x)"
proof -
  show "quiet (MapPgError e)"
    using mapped_not_retryable [of "Some e"] MapPostgresError_Some [of e] by (auto simp: quiet_def MapPgError_def)
qed (simp_all add: quiet_def isRetryablePgError_def errors_As_PgError_def is_pg_def ErrStaleVersion_def NewConflict_def)

definition quiet_sum :: "'s \<times> (goerr + 'a) \<Rightarrow> bool" where
  "quiet_sum r \<longleftrightarrow> (\<forall>s e. r = (s, Inl e) \<longrightarrow> quiet e)"

definition quiet_opt :: "'s \<times> goerr option \<Rightarrow> bool" where
  "quiet_opt r \<longleftrightarrow> (\<forall>s e. r = (s, Some e) \<longrightarrow> quiet e)"

lemma quiet_statements [simp]:
  "quiet_sum (selectOne P scan d stmt s)" "quiet_sum (selectMany P scan d stmt s)" "quiet_sum (dao_Exec P d stmt s)"
  by (auto simp: quiet_sum_def selectOne_def selectMany_def dao_Exec_def split: prod.splits sum.splits)

lemma quiet_results [simp]:
  "quiet_sum r \<Longrightarrow> quiet_opt (exec_only r)" "quiet_sum r' \<Longrightarrow> quiet_sum (exists_of r')" "quiet_sum r'' \<Longrightarrow> quiet_opt (outcome r'')"
  by (cases r; cases r'; cases r''; auto simp: quiet_sum_def quiet_opt_def exec_only_def exists_of_def outcome_def
      split: sum.splits if_splits)+

lemma quiet_reads [simp]:
  "quiet_sum (FindByID P scan d i s)" "quiet_sum (FindOne P scan d cs s)" "quiet_sum (FindAll P scan d cs s)"
  "quiet_sum (FindAllOrdered P scan d cs ob s)" "quiet_sum (FindByIDs P scan d ids s)" "quiet_sum (dao_Exists P scan d cs s)"
  by (simp_all add: FindByID_def FindOne_def FindAll_def FindAllOrdered_def FindByIDs_def dao_Exists_def)
    (simp add: quiet_sum_def)

lemma quiet_count [simp]: "quiet_sum (Count P d cs s)" "quiet_sum (f_Count P f s)"
proof -
  show c: "quiet_sum (Count P d cs s)" for d cs
    by (auto simp: quiet_sum_def Count_def split: prod.splits sum.splits)
  show "quiet_sum (f_Count P f s)"
    using c by (auto simp: quiet_sum_def f_Count_def split: prod.splits sum.splits if_splits)
qed

lemma quiet_page_of:
  assumes "quiet_sum cnt"
  shows "quiet_sum (page_of P scan d limit offset q cnt)"
proof -
  have "quiet e" if "selectMany P scan d (BuildSelect q) s = (s', Inl e)" for s s' e
    using quiet_statements(2) [of P scan d "BuildSelect q" s] that by (simp add: quiet_sum_def)
  with assms show ?thesis
    by (auto simp: quiet_sum_def page_of_def Let_def split: prod.splits sum.splits if_splits)
qed

lemma quiet_pages [simp]:
  "quiet_sum (FindPage P scan d cs ob limit offset s)" "quiet_sum (f_Page P scan f s)"
  "quiet_sum (f_Find P scan f s)" "quiet_sum (f_One P scan f s)" "quiet_sum (f_Exists P scan f s)"
  by (simp_all add: FindPage_def f_Page_def Let_def quiet_page_of f_Find_def f_One_def f_Exists_def)

lemma quiet_inserts [simp]:
  "quiet_opt (dao_Insert P d cols vs s)" "quiet_sum (InsertMap P scan d ctx m s)" "quiet_sum (InsertIgnore P d cols vs cf s)"
  "quiet_sum (InsertReturning P scan d cols vs rets s)" "quiet_opt (InsertMany P d cols rows s)" "quiet_sum (CopyFrom P d cols rows s)"
proof -
  show "quiet_opt (dao_Insert P d cols vs s)" "quiet_sum (InsertMap P scan d ctx m s)"
    by (simp_all add: dao_Insert_def InsertMap_def split: prod.splits)
  have "quiet e" if "dao_Exec P d stmt s = (s', Inl e)" for stmt s' e
    using quiet_statements(3) [of P d stmt s] that by (simp add: quiet_sum_def)
  then show "quiet_sum (InsertIgnore P d cols vs cf s)"
    by (auto simp: quiet_sum_def InsertIgnore_def Let_def split: prod.splits sum.splits if_splits)
  show "quiet_sum (InsertReturning P scan d cols vs rets s)" "quiet_sum (CopyFrom P d cols rows s)"
    by (auto simp: quiet_sum_def InsertReturning_def CopyFrom_def split: prod.splits sum.splits option.splits)
  show "quiet_opt (InsertMany P d cols rows s)"
  proof (cases "\<forall>r \<in> set rows. length r = length cols")
    case True
    then show ?thesis by (cases "rows = []") (simp_all add: InsertMany_statement, simp add: InsertMany_def quiet_opt_def)
  next
    case False
    then show ?thesis using InsertMany_ragged [of rows cols P d s] by (auto simp: quiet_opt_def)
  qed
qed

lemma quiet_writes [simp]:
  "quiet_opt (Update P d ctx m cs s)" "quiet_sum (UpdateReturning P scan d ctx m cs s)" "quiet_sum (Upsert P scan d ctx m cf cols s)"
  "quiet_sum (UpdateVersioned P scan d m cs vcol e s)" "quiet_opt (UpdateByIDs P d ctx ids m s)" "quiet_opt (SoftDelete P d i s)"
  "quiet_opt (HardDelete P d cs s)" "quiet_opt (DeleteByIDs P d ids s)" "quiet_opt (Restore P d ctx i s)"
proof -
  show upd: "quiet_opt (Update P d ctx m cs s)" for d m cs by (simp add: Update_def)
  show "quiet_sum (UpdateReturning P scan d ctx m cs s)" "quiet_sum (Upsert P scan d ctx m cf cols s)"
    by (simp_all add: UpdateReturning_def Upsert_def split: prod.splits)
  show "quiet_sum (UpdateVersioned P scan d m cs vcol e s)"
    by (auto simp: quiet_sum_def UpdateVersioned_def Let_def split: prod.splits sum.splits if_splits)
  have none: "quiet_opt (s, None)" by (simp add: quiet_opt_def)
  show "quiet_opt (UpdateByIDs P d ctx ids m s)" using upd by (simp add: UpdateByIDs_def none)
  show del: "quiet_opt (HardDelete P d cs s)" for cs by (simp add: HardDelete_def)
  show "quiet_opt (DeleteByIDs P d ids s)" using del by (simp add: DeleteByIDs_def none)
  have "quiet e" if "dao_Exec P d stmt s = (s', Inl e)" for stmt s' e
    using quiet_statements(3) [of P d stmt s] that by (simp add: quiet_sum_def)
  then show "quiet_opt (SoftDelete P d i s)"
    by (auto simp: quiet_opt_def SoftDelete_def split: prod.splits sum.splits if_splits)
  show "quiet_opt (Restore P d ctx i s)"
    using upd by (simp add: Restore_def) (simp add: quiet_opt_def)
qed

lemma quiet_call: "quiet_opt (run_call Q scan b ctx call s)"
proof (cases call)
  case (CallQuery k)
  then show ?thesis by (cases k) (simp_all add: end_finder_def)
qed (simp_all add: repo_defs)

lemma quiet_unit: "quiet_opt (run_unit Q scan ctx calls s)"
proof (induction calls arbitrary: s)
  case (Cons bc calls)
  obtain b call where bc: "bc = (b, call)" by (cases bc)
  with Cons quiet_call [of Q scan b ctx call s] show ?case
    by (auto simp: quiet_opt_def split: prod.splits option.splits)
qed (simp add: quiet_opt_def)

end
