(* ===== verification/Publisher.thy ===== *)
theory Publisher
  imports SqlQuery DxErrors
begin

text \<open>
  The sending side of \<^verbatim>\<open>messaging/rabbitmq\<close>: the reliable publisher with its redial and publisher confirms
  (\<^verbatim>\<open>reliable_publisher.go\<close>). The driver amqp091 and the broker behind it are the record \<open>amqp\<close> of operations on a
  world \<open>'s\<close>, with ghost views of the open connections and of the messages the broker is responsible for; the plain client
  and the topology (theory \<open>Topology\<close>) use it too. Spans and log lines are left out; \<open>headers\<close> is what the propagator
  injects.
\<close>

subsection \<open>The driver\<close>

record Publishing =
  pb_ContentType :: string
  pb_DeliveryMode :: int
  pb_Timestamp :: "int option"
  pb_MessageId :: string
  pb_Headers :: "(string \<times> string) list"
  pb_Body :: string

type_synonym message = "string \<times> string \<times> Publishing"

text \<open>Calls on a channel that answer with an error only; the flags are those of the driver's methods.\<close>

datatype channel_call =
    Confirm bool
  | ExchangeDeclare string string bool bool bool bool "(string \<times> anyv) list"
  | QueueBind string string string bool "(string \<times> anyv) list"
  | QueueDelete string bool bool bool

record 's amqp =
  amqp_Dial :: "string \<Rightarrow> 's \<Rightarrow> 's \<times> (goerr + nat)"
  conn_Channel :: "nat \<Rightarrow> 's \<Rightarrow> 's \<times> (goerr + nat)"
  amqp_conn_Close :: "nat \<Rightarrow> 's \<Rightarrow> 's \<times> goerr option"
  ch_Close :: "nat \<Rightarrow> 's \<Rightarrow> 's"
  ch_IsClosed :: "nat \<Rightarrow> 's \<Rightarrow> bool"
  ch_call :: "nat \<Rightarrow> channel_call \<Rightarrow> 's \<Rightarrow> 's \<times> goerr option"
  ch_QueueDeclare :: "nat \<Rightarrow> string \<Rightarrow> bool \<Rightarrow> bool \<Rightarrow> bool \<Rightarrow> bool \<Rightarrow> (string \<times> anyv) list \<Rightarrow> 's \<Rightarrow> 's \<times> (goerr + string)"
  ch_Publish :: "nat \<Rightarrow> string \<Rightarrow> string \<Rightarrow> bool \<Rightarrow> bool \<Rightarrow> Publishing \<Rightarrow> 's \<Rightarrow> 's \<times> goerr option"
  ch_PublishDeferred :: "nat \<Rightarrow> string \<Rightarrow> string \<Rightarrow> bool \<Rightarrow> bool \<Rightarrow> Publishing \<Rightarrow> 's \<Rightarrow> 's \<times> (goerr + nat)"
  dc_wait :: "nat \<Rightarrow> 's \<Rightarrow> 's \<times> (goerr + bool)"
  open_conns :: "'s \<Rightarrow> nat set"
  confirming :: "'s \<Rightarrow> nat set"
  stored :: "'s \<Rightarrow> message set"
  unroutable :: "'s \<Rightarrow> message set"
  dc_msg :: "'s \<Rightarrow> nat \<rightharpoonup> message"

text \<open>
  \<open>dc_wait\<close> is the select on the confirmation: whether the broker acked, or the error of the context. The last five fields are ghosts: the
  open connections, the channels in confirm mode, the messages the broker has put into queues, those for which it found no queue, and
  the message of a confirmation, defined only for publishes on a channel in confirm mode.
\<close>

subsection \<open>ReliablePublisher\<close>

record PublisherConfig =
  pc_URL :: string
  pc_Exchange :: string
  pc_ExchangeType :: string
  pc_Confirms :: bool

record ReliablePublisher =
  rp_cfg :: PublisherConfig
  rp_conn :: "nat option"
  rp_ch :: "nat option"

definition Persistent :: int where "Persistent = 2"

definition close_both :: "'s amqp \<Rightarrow> nat \<Rightarrow> nat \<Rightarrow> 's \<Rightarrow> 's" where
  "close_both A conn ch s = fst (amqp_conn_Close A conn (ch_Close A ch s))"

definition rp_dial :: "'s amqp \<Rightarrow> ReliablePublisher \<Rightarrow> 's \<Rightarrow> ReliablePublisher \<times> 's \<times> goerr option" where
  "rp_dial A p s =
     (case amqp_Dial A (pc_URL (rp_cfg p)) s of
        (s1, Inl e) \<Rightarrow> (p, s1, Some (Errorf ''dial rabbitmq: '' e []))
      | (s1, Inr conn) \<Rightarrow>
          (case conn_Channel A conn s1 of
             (s2, Inl e) \<Rightarrow> (p, fst (amqp_conn_Close A conn s2), Some (Errorf ''open channel: '' e []))
           | (s2, Inr ch) \<Rightarrow>
               (case (if pc_Confirms (rp_cfg p) then ch_call A ch (Confirm False) s2 else (s2, None)) of
                  (s3, Some e) \<Rightarrow> (p, close_both A conn ch s3, Some (Errorf ''enable publisher confirms: '' e []))
                | (s3, None) \<Rightarrow>
                    (let kind = (if pc_ExchangeType (rp_cfg p) = [] then ''topic'' else pc_ExchangeType (rp_cfg p))
                     in case (if pc_Exchange (rp_cfg p) \<noteq> []
                              then ch_call A ch (ExchangeDeclare (pc_Exchange (rp_cfg p)) kind True False False False []) s3
                              else (s3, None)) of
                          (s4, Some e) \<Rightarrow>
                            (p, close_both A conn ch s4,
                             Some (Errorf (''declare exchange '' @ go_quote (pc_Exchange (rp_cfg p)) @ '': '') e []))
                        | (s4, None) \<Rightarrow>
                            (p\<lparr>rp_conn := Some conn, rp_ch := Some ch\<rparr>,
                             (case rp_conn p of Some old \<Rightarrow> fst (amqp_conn_Close A old s4) | None \<Rightarrow> s4), None)))))"

definition NewReliablePublisher :: "'s amqp \<Rightarrow> PublisherConfig \<Rightarrow> 's \<Rightarrow> goerr + ReliablePublisher \<times> 's" where
  "NewReliablePublisher A cfg s =
     (if pc_URL cfg = [] then Inl (Opaque ''rabbitmq publisher: URL is required'')
      else (case rp_dial A \<lparr>rp_cfg = cfg, rp_conn = None, rp_ch = None\<rparr> s of (p, s', _) \<Rightarrow> Inr (p, s')))"

definition isChannelClosedErr :: "goerr \<Rightarrow> bool" where
  "isChannelClosedErr e =
     (let t = ErrorText e
      in t = ''channel/connection is not open'' \<or>
         t = ''Exception (504) Reason: '' @ go_quote ''channel/connection is not open'')"

definition publishOnce ::
  "'s amqp \<Rightarrow> ReliablePublisher \<Rightarrow> string \<Rightarrow> string \<Rightarrow> Publishing \<Rightarrow> 's \<Rightarrow> 's \<times> goerr option" where
  "publishOnce A p exchange routingKey pub s =
     (case rp_ch p of
        None \<Rightarrow> (s, Some ErrClosed)
      | Some ch \<Rightarrow>
          if \<not> pc_Confirms (rp_cfg p) then ch_Publish A ch exchange routingKey False False pub s
          else (case ch_PublishDeferred A ch exchange routingKey False False pub s of
                  (s1, Inl e) \<Rightarrow> (s1, Some e)
                | (s1, Inr dc) \<Rightarrow>
                    (case dc_wait A dc s1 of
                       (s2, Inr acked) \<Rightarrow>
                         (s2, if \<not> acked
                              then Some (Opaque (''rabbitmq publisher: broker nacked message (exchange='' @ go_quote exchange @
                                                 '' key='' @ go_quote routingKey @ '')''))
                              else None)
                     | (s2, Inl ctxErr) \<Rightarrow> (s2, Some (Errorf ''rabbitmq publisher: confirm wait: '' ctxErr [])))))"

definition publishWithRetry ::
  "'s amqp \<Rightarrow> string \<Rightarrow> string \<Rightarrow> Publishing \<Rightarrow> ReliablePublisher \<times> 's \<Rightarrow> (ReliablePublisher \<times> 's) \<times> goerr option" where
  "publishWithRetry A exchange routingKey pub ps =
     (case publishOnce A (fst ps) exchange routingKey pub (snd ps) of
        (s1, None) \<Rightarrow> ((fst ps, s1), None)
      | (s1, Some err) \<Rightarrow>
          if errors_Is err ErrClosed \<or> isChannelClosedErr err
          then (case rp_dial A (fst ps) s1 of
                  (p2, s2, Some derr) \<Rightarrow> ((p2, s2), Some (Errorf ''redial after publish failure: '' derr []))
                | (p2, s2, None) \<Rightarrow>
                    (case publishOnce A p2 exchange routingKey pub s2 of
                       (s3, Some err2) \<Rightarrow> ((p2, s3), Some (Errorf ''publish after redial: '' err2 []))
                     | (s3, None) \<Rightarrow> ((p2, s3), None)))
          else ((fst ps, s1), Some err))"

definition rp_publishing :: "int \<Rightarrow> (string \<times> string) list \<Rightarrow> string \<Rightarrow> string \<Rightarrow> Publishing" where
  "rp_publishing now headers messageID body =
     \<lparr>pb_ContentType = ''application/json'', pb_DeliveryMode = Persistent, pb_Timestamp = Some now,
      pb_MessageId = messageID, pb_Headers = headers, pb_Body = body\<rparr>"

definition rp_Publish ::
  "'s amqp \<Rightarrow> int \<Rightarrow> (string \<times> string) list \<Rightarrow> string \<Rightarrow> string \<Rightarrow> string \<Rightarrow> string \<Rightarrow> ReliablePublisher \<times> 's
   \<Rightarrow> (ReliablePublisher \<times> 's) \<times> goerr option" where
  "rp_Publish A now headers exchange routingKey body messageID ps =
     publishWithRetry A exchange routingKey (rp_publishing now headers messageID body) ps"

definition rp_PublishJSON ::
  "'s amqp \<Rightarrow> ('v \<Rightarrow> goerr + string) \<Rightarrow> int \<Rightarrow> (string \<times> string) list \<Rightarrow> string \<Rightarrow> string \<Rightarrow> 'v \<Rightarrow> ReliablePublisher \<times> 's
   \<Rightarrow> (ReliablePublisher \<times> 's) \<times> goerr option" where
  "rp_PublishJSON A marshal now headers exchange routingKey v ps =
     (case marshal v of
        Inl e \<Rightarrow> (ps, Some (Errorf ''rabbitmq publisher: marshal: '' e []))
      | Inr body \<Rightarrow> rp_Publish A now headers exchange routingKey body [] ps)"

definition rp_IsConnected :: "'s amqp \<Rightarrow> ReliablePublisher \<times> 's \<Rightarrow> bool" where
  "rp_IsConnected A ps = (case rp_ch (fst ps) of None \<Rightarrow> False | Some ch \<Rightarrow> \<not> ch_IsClosed A ch (snd ps))"

definition rp_Close :: "'s amqp \<Rightarrow> ReliablePublisher \<times> 's \<Rightarrow> ReliablePublisher \<times> 's" where
  "rp_Close A ps =
     (let s1 = (case rp_ch (fst ps) of Some ch \<Rightarrow> ch_Close A ch (snd ps) | None \<Rightarrow> snd ps);
          s2 = (case rp_conn (fst ps) of Some conn \<Rightarrow> fst (amqp_conn_Close A conn s1) | None \<Rightarrow> s1)
      in (fst ps, s2))"

subsection \<open>What the publisher relies on\<close>

text \<open>
  A successful dial opens the connection it returns, closing a connection closes it, and nothing else
  opens one. The broker never gives up a message it has stored. A channel is in confirm mode once \<^verbatim>\<open>confirm.select\<close> succeeded on it, and stays so.
  There a confirmation belongs to the message of its publish, and the broker acks only what it has stored or, when the message is not
  mandatory, what it found no queue for. Of other channels nothing is promised.
\<close>

definition steps_ok :: "'s amqp \<Rightarrow> 's \<Rightarrow> 's \<Rightarrow> bool" where
  "steps_ok A s s' \<longleftrightarrow> open_conns A s' \<subseteq> open_conns A s \<and> confirming A s \<subseteq> confirming A s' \<and> stored A s \<subseteq> stored A s' \<and> unroutable A s \<subseteq> unroutable A s'"

definition dial_ok :: "'s amqp \<Rightarrow> bool" where
  "dial_ok A \<longleftrightarrow>
     (\<forall>url s s' e. amqp_Dial A url s = (s', Inl e) \<longrightarrow> steps_ok A s s')
   \<and> (\<forall>url s s' c. amqp_Dial A url s = (s', Inr c) \<longrightarrow>
        open_conns A s' \<subseteq> insert c (open_conns A s) \<and> confirming A s \<subseteq> confirming A s' \<and> stored A s \<subseteq> stored A s' \<and>
        unroutable A s \<subseteq> unroutable A s')"

definition close_ok :: "'s amqp \<Rightarrow> bool" where
  "close_ok A \<longleftrightarrow> (\<forall>c s. steps_ok A s (fst (amqp_conn_Close A c s)) \<and> c \<notin> open_conns A (fst (amqp_conn_Close A c s)))"

definition calls_ok :: "'s amqp \<Rightarrow> bool" where
  "calls_ok A \<longleftrightarrow>
     (\<forall>c s. steps_ok A s (fst (conn_Channel A c s))) \<and> (\<forall>ch s. steps_ok A s (ch_Close A ch s))
   \<and> (\<forall>ch x s. steps_ok A s (fst (ch_call A ch x s)))
   \<and> (\<forall>ch ex key m i pub s. steps_ok A s (fst (ch_Publish A ch ex key m i pub s)))
   \<and> (\<forall>ch ex key m i pub s. steps_ok A s (fst (ch_PublishDeferred A ch ex key m i pub s)))
   \<and> (\<forall>dc s. steps_ok A s (fst (dc_wait A dc s)))"

definition confirms_ok :: "'s amqp \<Rightarrow> bool" where
  "confirms_ok A \<longleftrightarrow>
     (\<forall>ch s s'. ch_call A ch (Confirm False) s = (s', None) \<longrightarrow> ch \<in> confirming A s')
   \<and> (\<forall>ch ex key m i pub s s' dc. ch \<in> confirming A s \<longrightarrow> ch_PublishDeferred A ch ex key m i pub s = (s', Inr dc) \<longrightarrow>
        dc_msg A s' dc = Some (ex, key, pub))
   \<and> (\<forall>dc s s' msg. dc_msg A s dc = Some msg \<longrightarrow> dc_wait A dc s = (s', Inr True) \<longrightarrow> msg \<in> stored A s' \<union> unroutable A s')"

definition amqp_ok :: "'s amqp \<Rightarrow> bool" where
  "amqp_ok A \<longleftrightarrow> dial_ok A \<and> close_ok A \<and> calls_ok A \<and> confirms_ok A"

lemma steps_refl [simp]: "steps_ok A s s"
  by (simp add: steps_ok_def)

lemma steps_trans: "steps_ok A s s' \<Longrightarrow> steps_ok A s' s'' \<Longrightarrow> steps_ok A s s''"
  by (auto simp: steps_ok_def)

text \<open>One call on the driver at a time.\<close>

lemma amqp_steps:
  assumes "amqp_ok A"
  shows "conn_Channel A c s = (s', r1) \<Longrightarrow> steps_ok A s s'"
    "steps_ok A s (ch_Close A ch s)"
    "ch_call A ch x s = (s', r2) \<Longrightarrow> steps_ok A s s'"
    "ch_Publish A ch ex key m i pub s = (s', r2) \<Longrightarrow> steps_ok A s s'"
    "ch_PublishDeferred A ch ex key m i pub s = (s', r1) \<Longrightarrow> steps_ok A s s'"
    "dc_wait A dc s = (s', r3) \<Longrightarrow> steps_ok A s s'"
proof -
  from assms have c: "calls_ok A" by (simp add: amqp_ok_def)
  show "conn_Channel A c s = (s', r1) \<Longrightarrow> steps_ok A s s'" using c unfolding calls_ok_def by (metis fst_conv)
  show "steps_ok A s (ch_Close A ch s)" using c by (simp add: calls_ok_def)
  show "ch_call A ch x s = (s', r2) \<Longrightarrow> steps_ok A s s'" using c unfolding calls_ok_def by (metis fst_conv)
  show "ch_Publish A ch ex key m i pub s = (s', r2) \<Longrightarrow> steps_ok A s s'" using c unfolding calls_ok_def by (metis fst_conv)
  show "ch_PublishDeferred A ch ex key m i pub s = (s', r1) \<Longrightarrow> steps_ok A s s'" using c unfolding calls_ok_def by (metis fst_conv)
  show "dc_wait A dc s = (s', r3) \<Longrightarrow> steps_ok A s s'" using c unfolding calls_ok_def by (metis fst_conv)
qed

lemma amqp_confirmed:
  assumes "amqp_ok A"
  shows "ch_call A ch (Confirm False) s = (s', None) \<Longrightarrow> ch \<in> confirming A s'"
    "ch \<in> confirming A s \<Longrightarrow> ch_PublishDeferred A ch ex key m i pub s = (s', Inr dc) \<Longrightarrow> dc_msg A s' dc = Some (ex, key, pub)"
    "dc_msg A s dc = Some msg \<Longrightarrow> dc_wait A dc s = (s', Inr True) \<Longrightarrow> msg \<in> stored A s' \<union> unroutable A s'"
  using assms unfolding amqp_ok_def confirms_ok_def by blast+

lemma amqp_close:
  assumes "amqp_ok A"
  shows "steps_ok A s (fst (amqp_conn_Close A c s))" "c \<notin> open_conns A (fst (amqp_conn_Close A c s))"
  using assms by (simp_all add: amqp_ok_def close_ok_def)

lemma amqp_dialled:
  assumes "amqp_ok A"
  shows "amqp_Dial A url s = (s', Inl e) \<Longrightarrow> steps_ok A s s'"
    "amqp_Dial A url s = (s', Inr c) \<Longrightarrow> open_conns A s' \<subseteq> insert c (open_conns A s) \<and> confirming A s \<subseteq> confirming A s' \<and> stored A s \<subseteq> stored A s' \<and>
       unroutable A s \<subseteq> unroutable A s'"
  using assms unfolding amqp_ok_def dial_ok_def by blast+

text \<open>The connections that are open beside those of others (\<open>X\<close>) are at most the publisher's own, nothing the broker had (\<open>Y\<close> stored, \<open>Z\<close>
  not routed) is forgotten, and a publisher with confirms uses a channel in confirm mode only.\<close>

definition armed :: "'s amqp \<Rightarrow> ReliablePublisher \<times> 's \<Rightarrow> bool" where
  "armed A ps \<longleftrightarrow> (pc_Confirms (rp_cfg (fst ps)) \<longrightarrow> set_option (rp_ch (fst ps)) \<subseteq> confirming A (snd ps))"

definition holds_one :: "'s amqp \<Rightarrow> nat set \<Rightarrow> message set \<Rightarrow> message set \<Rightarrow> ReliablePublisher \<times> 's \<Rightarrow> bool" where
  "holds_one A X Y Z ps \<longleftrightarrow> open_conns A (snd ps) \<subseteq> X \<union> set_option (rp_conn (fst ps)) \<and> Y \<subseteq> stored A (snd ps) \<and>
     Z \<subseteq> unroutable A (snd ps) \<and> armed A ps"

lemma holds_one_steps: "holds_one A X Y Z (p, s) \<Longrightarrow> steps_ok A s s' \<Longrightarrow> holds_one A X Y Z (p, s')"
  by (auto simp: holds_one_def steps_ok_def armed_def)

lemma close_both_steps:
  assumes "amqp_ok A"
  shows "steps_ok A s (close_both A conn ch s)" "conn \<notin> open_conns A (close_both A conn ch s)"
  using amqp_close [OF assms, where s = "ch_Close A ch s" and c = conn] steps_trans [OF amqp_steps(2) [OF assms]] by (simp_all add: close_both_def)

text \<open>After a dial the new connection is either the publisher's (and the old one closed) or closed.\<close>

lemma rp_dial_shape:
  assumes ok: "amqp_ok A" and d: "rp_dial A p s = (p', s', r)"
  obtains (no_conn) "p' = p" "r \<noteq> None" "steps_ok A s s'"
  | (abandoned) conn s1 where "p' = p" "r \<noteq> None" "amqp_Dial A (pc_URL (rp_cfg p)) s = (s1, Inr conn)" "steps_ok A s1 s'" "conn \<notin> open_conns A s'"
  | (swapped) conn ch s1 s4 where "r = None" "p' = p\<lparr>rp_conn := Some conn, rp_ch := Some ch\<rparr>"
      "amqp_Dial A (pc_URL (rp_cfg p)) s = (s1, Inr conn)" "steps_ok A s1 s4" "pc_Confirms (rp_cfg p) \<Longrightarrow> ch \<in> confirming A s4"
      "s' = (case rp_conn p of Some old \<Rightarrow> fst (amqp_conn_Close A old s4) | None \<Rightarrow> s4)"
proof (cases "amqp_Dial A (pc_URL (rp_cfg p)) s")
  case D: (Pair s1 x)
  show ?thesis
  proof (cases x)
    case (Inl e)
    with d D amqp_dialled(1) [OF ok] show ?thesis by (intro no_conn) (auto simp: rp_dial_def)
  next
    case x: (Inr conn)
    obtain s2 y where C: "conn_Channel A conn s1 = (s2, y)" by fastforce
    note 2 = amqp_steps(1) [OF ok C]
    show ?thesis
    proof (cases y)
      case (Inl e)
      with d D x C 2 show ?thesis
        using amqp_close [OF ok, where s = s2 and c = conn] by (intro abandoned [of s1 conn]) (auto simp: rp_dial_def intro: steps_trans)
    next
      case y: (Inr ch)
      define conf where "conf = (if pc_Confirms (rp_cfg p) then ch_call A ch (Confirm False) s2 else (s2, None))"
      define kind where "kind = (if pc_ExchangeType (rp_cfg p) = [] then ''topic'' else pc_ExchangeType (rp_cfg p))"
      define decl where "decl s3 = (if pc_Exchange (rp_cfg p) \<noteq> []
         then ch_call A ch (ExchangeDeclare (pc_Exchange (rp_cfg p)) kind True False False False []) s3 else (s3, None))" for s3
      obtain s3 z where Z: "conf = (s3, z)" by fastforce
      have 3: "steps_ok A s2 s3" using Z amqp_steps(3) [OF ok, of ch _ s2] by (auto simp: conf_def split: if_splits)
      obtain s4 w where W: "decl s3 = (s4, w)" by fastforce
      have 4: "steps_ok A s3 s4" using W amqp_steps(3) [OF ok, of ch _ s3] by (auto simp: decl_def split: if_splits)
      have d': "rp_dial A p s = (case z of
           Some e \<Rightarrow> (p, close_both A conn ch s3, Some (Errorf ''enable publisher confirms: '' e []))
         | None \<Rightarrow> (case w of
             Some e \<Rightarrow> (p, close_both A conn ch s4, Some (Errorf (''declare exchange '' @ go_quote (pc_Exchange (rp_cfg p)) @ '': '') e []))
           | None \<Rightarrow> (p\<lparr>rp_conn := Some conn, rp_ch := Some ch\<rparr>,
               (case rp_conn p of Some old \<Rightarrow> fst (amqp_conn_Close A old s4) | None \<Rightarrow> s4), None)))"
        using D x C y W by (simp add: rp_dial_def conf_def [symmetric] kind_def [symmetric] decl_def [symmetric] Z Let_def split: option.splits)
      from steps_trans [OF 2 3] have 13: "steps_ok A s1 s3" .
      from steps_trans [OF this 4] have 14: "steps_ok A s1 s4" .
      show ?thesis
      proof (cases z)
        case (Some e)
        with d d' D x 13 close_both_steps [OF ok, where s = s3 and conn = conn and ch = ch] show ?thesis
          by (intro abandoned [of s1 conn]) (auto intro: steps_trans)
      next
        case z: None
        show ?thesis
        proof (cases w)
          case (Some e)
          with d d' z D x 14 close_both_steps [OF ok, where s = s4 and conn = conn and ch = ch] show ?thesis
            by (intro abandoned [of s1 conn]) (auto intro: steps_trans)
        next
          case None
          have "ch \<in> confirming A s4" if "pc_Confirms (rp_cfg p)"
            using that Z z 4 amqp_confirmed(1) [OF ok, of ch s2 s3] by (auto simp: conf_def steps_ok_def)
          with None d d' z D x 14 show ?thesis by (intro swapped [of ch conn s1 s4]) auto
        qed
      qed
    qed
  qed
qed

lemma rp_dial_holds:
  assumes "amqp_ok A" and "holds_one A X Y Z (p, s)" and "rp_dial A p s = (p', s', r)"
  shows "holds_one A X Y Z (p', s')"
  using assms(1,3)
proof (cases rule: rp_dial_shape)
  case no_conn
  then show ?thesis using holds_one_steps [OF assms(2)] by simp
next
  case (abandoned conn s1)
  then show ?thesis using amqp_dialled(2) [OF assms(1) abandoned(3)] assms(2) by (auto simp: holds_one_def steps_ok_def armed_def)
next
  case (swapped conn ch s1 s4)
  then show ?thesis
    using amqp_dialled(2) [OF assms(1) swapped(3)] amqp_close [OF assms(1), where s = s4] assms(2)
    by (cases "rp_conn p") (fastforce simp: holds_one_def steps_ok_def armed_def)+
qed

lemma rp_dial_cfg: "rp_dial A p s = (p', s', r) \<Longrightarrow> rp_cfg p' = rp_cfg p"
  by (auto simp: rp_dial_def Let_def split: prod.splits sum.splits option.splits if_splits)

lemma publishOnce_steps:
  assumes "amqp_ok A" and "publishOnce A p ex key pub s = (s', r)"
  shows "steps_ok A s s'"
proof (cases "rp_ch p")
  case (Some ch)
  show ?thesis
  proof (cases "pc_Confirms (rp_cfg p)")
    case True
    obtain s1 x where 1: "ch_PublishDeferred A ch ex key False False pub s = (s1, x)" by fastforce
    note amqp_steps(5) [OF assms(1) 1]
    moreover have "steps_ok A s1 s'"
      using assms(2) Some True 1 amqp_steps(6) [OF assms(1)]
      by (auto simp: publishOnce_def split: prod.splits sum.splits)
    ultimately show ?thesis by (rule steps_trans)
  next
    case False
    with assms(2) Some amqp_steps(4) [OF assms(1)] show ?thesis by (simp add: publishOnce_def)
  qed
qed (use assms(2) in \<open>simp add: publishOnce_def\<close>)

lemma publishOnce_acked:
  assumes "amqp_ok A" and "pc_Confirms (rp_cfg p)" and "publishOnce A p ex key pub s = (s', None)" and "armed A (p, s)"
  shows "(ex, key, pub) \<in> stored A s' \<union> unroutable A s'"
proof -
  obtain ch where ch: "rp_ch p = Some ch" using assms(3) by (cases "rp_ch p") (simp_all add: publishOnce_def)
  obtain s1 dc where 1: "ch_PublishDeferred A ch ex key False False pub s = (s1, Inr dc)"
    and 2: "dc_wait A dc s1 = (s', Inr True)"
    using assms(2,3) ch by (auto simp: publishOnce_def split: prod.splits sum.splits if_splits)
  have "ch \<in> confirming A s" using assms(2,4) ch by (simp add: armed_def)
  from amqp_confirmed(3) [OF assms(1) amqp_confirmed(2) [OF assms(1) this 1] 2] show ?thesis .
qed

lemma publishWithRetry_holds:
  assumes ok: "amqp_ok A" and inv: "holds_one A X Y Z ps" and r: "publishWithRetry A ex key pub ps = (ps', r)"
  shows "holds_one A X Y Z ps'"
proof -
  obtain p s where ps: "ps = (p, s)" by (cases ps)
  obtain s1 e where 1: "publishOnce A p ex key pub s = (s1, e)" by fastforce
  have h1: "holds_one A X Y Z (p, s1)" using holds_one_steps [OF inv [unfolded ps] publishOnce_steps [OF ok 1]] .
  obtain p2 s2 d where 2: "rp_dial A p s1 = (p2, s2, d)" by (metis prod.exhaust)
  have h2: "holds_one A X Y Z (p2, s2)" by (rule rp_dial_holds [OF ok h1 2])
  obtain s3 e2 where 3: "publishOnce A p2 ex key pub s2 = (s3, e2)" by fastforce
  have h3: "holds_one A X Y Z (p2, s3)" using holds_one_steps [OF h2 publishOnce_steps [OF ok 3]] .
  show ?thesis
    using r h1 h2 h3 by (auto simp: publishWithRetry_def ps 1 2 3 split: option.splits if_splits)
qed

lemma publishWithRetry_acked:
  assumes ok: "amqp_ok A" and c: "pc_Confirms (rp_cfg (fst ps))" and r: "publishWithRetry A ex key pub ps = (ps', None)"
    and inv: "holds_one A X Y Z ps"
  shows "(ex, key, pub) \<in> stored A (snd ps') \<union> unroutable A (snd ps')"
proof -
  obtain p s where ps: "ps = (p, s)" by (cases ps)
  obtain s1 e where 1: "publishOnce A p ex key pub s = (s1, e)" by fastforce
  obtain p2 s2 d where 2: "rp_dial A p s1 = (p2, s2, d)" by (metis prod.exhaust)
  obtain s3 e2 where 3: "publishOnce A p2 ex key pub s2 = (s3, e2)" by fastforce
  have a1: "armed A (p, s)" using inv ps by (simp add: holds_one_def)
  have "holds_one A X Y Z (p, s1)" using holds_one_steps [OF inv [unfolded ps] publishOnce_steps [OF ok 1]] .
  from rp_dial_holds [OF ok this 2] have a2: "armed A (p2, s2)" by (simp add: holds_one_def)
  show ?thesis
  proof (cases e)
    case None
    then show ?thesis using r c publishOnce_acked [OF ok _ 1 [unfolded None] a1] by (auto simp: publishWithRetry_def ps 1)
  next
    case (Some x)
    with r have e2: "e2 = None" and "ps' = (p2, s3)"
      by (auto simp: publishWithRetry_def ps 1 2 3 split: option.splits if_splits)
    then show ?thesis
      using c rp_dial_cfg [OF 2] publishOnce_acked [OF ok _ 3 [unfolded e2] a2] by (simp add: ps)
  qed
qed

subsection \<open>Any use of the publisher\<close>

datatype pub_op =
    PubPublish int "(string \<times> string) list" string string string string
  | PubClose

definition pub_step :: "'s amqp \<Rightarrow> pub_op \<Rightarrow> ReliablePublisher \<times> 's \<Rightarrow> ReliablePublisher \<times> 's" where
  "pub_step A x ps =
     (case x of
        PubPublish now headers ex key body mid \<Rightarrow> fst (rp_Publish A now headers ex key body mid ps)
      | PubClose \<Rightarrow> rp_Close A ps)"

lemma rp_Close_holds:
  assumes "amqp_ok A" and "holds_one A X Y Z ps"
  shows "holds_one A X Y Z (rp_Close A ps)"
proof -
  obtain p s where ps: "ps = (p, s)" by (cases ps)
  define s1 where "s1 = (case rp_ch p of Some ch \<Rightarrow> ch_Close A ch s | None \<Rightarrow> s)"
  have 1: "steps_ok A s s1" using amqp_steps(2) [OF assms(1)] by (simp add: s1_def split: option.splits)
  have 2: "steps_ok A s1 (case rp_conn p of Some conn \<Rightarrow> fst (amqp_conn_Close A conn s1) | None \<Rightarrow> s1)"
    using amqp_close(1) [OF assms(1)] by (simp split: option.splits)
  from holds_one_steps [OF assms(2) [unfolded ps] steps_trans [OF 1 2]] show ?thesis
    by (simp add: rp_Close_def ps s1_def Let_def cong: option.case_cong)
qed

lemma pub_steps_hold:
  assumes "amqp_ok A" and "holds_one A X Y Z ps"
  shows "holds_one A X Y Z (fold (pub_step A) ops ps)"
  using assms(2)
proof (induction ops arbitrary: ps)
  case (Cons x ops)
  have "holds_one A X Y Z (pub_step A x ps)"
    using publishWithRetry_holds [OF assms(1) Cons.prems] rp_Close_holds [OF assms(1) Cons.prems]
    by (auto simp: pub_step_def rp_Publish_def split: pub_op.splits) (metis prod.collapse)
  with Cons.IH show ?case by simp
qed simp

lemma NewReliablePublisher_holds:
  assumes "amqp_ok A" and "NewReliablePublisher A cfg s = Inr ps"
  shows "holds_one A (open_conns A s) (stored A s) (unroutable A s) ps" "rp_cfg (fst ps) = cfg"
proof -
  obtain r where d: "rp_dial A \<lparr>rp_cfg = cfg, rp_conn = None, rp_ch = None\<rparr> s = (fst ps, snd ps, r)"
    using assms(2) by (auto simp: NewReliablePublisher_def split: if_splits prod.splits)
  have "holds_one A (open_conns A s) (stored A s) (unroutable A s) (\<lparr>rp_cfg = cfg, rp_conn = None, rp_ch = None\<rparr>, s)"
    by (simp add: holds_one_def armed_def)
  from rp_dial_holds [OF assms(1) this d] rp_dial_cfg [OF d]
  show "holds_one A (open_conns A s) (stored A s) (unroutable A s) ps" "rp_cfg (fst ps) = cfg" by simp_all
qed

lemma pub_step_cfg: "rp_cfg (fst (pub_step A x ps)) = rp_cfg (fst ps)"
proof -
  have "rp_cfg (fst (fst (publishWithRetry A ex key pub ps))) = rp_cfg (fst ps)" for ex key pub
    using rp_dial_cfg [of A "fst ps"]
    by (auto simp: publishWithRetry_def split: prod.splits option.splits)
  then show ?thesis by (simp add: pub_step_def rp_Publish_def rp_Close_def Let_def split: pub_op.splits)
qed

lemma pub_steps_cfg: "rp_cfg (fst (fold (pub_step A) ops ps)) = rp_cfg (fst ps)"
  by (induction ops arbitrary: ps) (simp_all add: pub_step_cfg)

text \<open>
  C22: The reliable publisher keeps its promises. After any sequence of publishes, redials and closes, of the
  connections it opened at most the current one is open (a failed redial leaks nothing, a
  successful one closes its predecessor), no message the broker has stored is lost, and in
  confirm mode a publish that returns nil, directly or after the redial, means that the broker has taken this very
  message: it has stored it or found no queue for it (messages are not mandatory). The broker is trusted for this only on channels
  that were put into confirm mode.
\<close>

theorem publisher_confirmed_and_leak_free:
  assumes "amqp_ok A" and "NewReliablePublisher A cfg s0 = Inr ps0" and "fold (pub_step A) ops ps0 = (p, s)"
  shows "open_conns A s \<subseteq> open_conns A s0 \<union> set_option (rp_conn p) \<and> stored A s0 \<subseteq> stored A s \<and>
    (\<forall>now headers ex key body mid p' s'. pc_Confirms cfg \<and> rp_Publish A now headers ex key body mid (p, s) = ((p', s'), None) \<longrightarrow>
      (ex, key, rp_publishing now headers mid body) \<in> stored A s' \<union> unroutable A s' \<and>
      open_conns A s' \<subseteq> open_conns A s0 \<union> set_option (rp_conn p'))"
proof -
  have h: "holds_one A (open_conns A s0) (stored A s0) (unroutable A s0) (p, s)"
    using pub_steps_hold [OF assms(1) NewReliablePublisher_holds(1) [OF assms(1,2)], of ops] assms(3) by simp
  have cfg: "rp_cfg p = cfg"
    using pub_steps_cfg [of A ops ps0] NewReliablePublisher_holds(2) [OF assms(1,2)] assms(3) by simp
  have "(ex, key, rp_publishing now headers mid body) \<in> stored A s' \<union> unroutable A s' \<and> open_conns A s' \<subseteq> open_conns A s0 \<union> set_option (rp_conn p')"
    if "pc_Confirms cfg" and r: "rp_Publish A now headers ex key body mid (p, s) = ((p', s'), None)"
    for now headers ex key body mid p' s'
  proof -
    have r': "publishWithRetry A ex key (rp_publishing now headers mid body) (p, s) = ((p', s'), None)" using r by (simp add: rp_Publish_def)
    from publishWithRetry_acked [OF assms(1) _ r' h] publishWithRetry_holds [OF assms(1) h r'] that(1) cfg show ?thesis
      by (simp add: holds_one_def)
  qed
  with h show ?thesis unfolding holds_one_def fst_conv snd_conv by blast
qed

subsection \<open>A broker in memory\<close>

text \<open>
  Connections and channels are numbered; publishes to a connection that was replaced or dropped fail as closed. What is sent to an exchange other than the
  declared one, or under an empty key, finds no queue.
\<close>

definition routed :: "message \<Rightarrow> bool" where
  "routed m \<longleftrightarrow> fst m = ''dx'' \<and> fst (snd m) \<noteq> []"

record mem_broker =
  mb_next :: nat
  mb_open :: "nat set"
  mb_modes :: "nat set"
  mb_sent :: "message list"
  mb_down :: bool

definition mem_amqp :: "mem_broker amqp" where
  "mem_amqp =
     \<lparr>amqp_Dial = (\<lambda>url b. if mb_down b then (b, Inl (Opaque ''connection refused''))
        else (b\<lparr>mb_next := Suc (mb_next b), mb_open := insert (mb_next b) (mb_open b)\<rparr>, Inr (mb_next b))),
      conn_Channel = (\<lambda>c b. (b, if c \<in> mb_open b then Inr c else Inl ErrClosed)),
      amqp_conn_Close = (\<lambda>c b. (b\<lparr>mb_open := mb_open b - {c}\<rparr>, None)),
      ch_Close = (\<lambda>ch b. b), ch_IsClosed = (\<lambda>ch b. ch \<notin> mb_open b),
      ch_call = (\<lambda>ch x b. if ch \<in> mb_open b then (if x = Confirm False then b\<lparr>mb_modes := insert ch (mb_modes b)\<rparr> else b, None) else (b, Some ErrClosed)),
      ch_QueueDeclare = (\<lambda>ch q _ _ _ _ _ b. (b, if ch \<in> mb_open b then Inr q else Inl ErrClosed)),
      ch_Publish = (\<lambda>ch ex key _ _ pub b.
        if ch \<in> mb_open b then (b\<lparr>mb_sent := mb_sent b @ [(ex, key, pub)]\<rparr>, None) else (b, Some ErrClosed)),
      ch_PublishDeferred = (\<lambda>ch ex key _ _ pub b.
        if ch \<in> mb_open b then (b\<lparr>mb_sent := mb_sent b @ [(ex, key, pub)]\<rparr>, Inr (length (mb_sent b))) else (b, Inl ErrClosed)),
      dc_wait = (\<lambda>dc b. (b, Inr (dc < length (mb_sent b)))),
      open_conns = mb_open, confirming = mb_modes, stored = (\<lambda>b. set (filter routed (mb_sent b))),
      unroutable = (\<lambda>b. set (filter (\<lambda>m. \<not> routed m) (mb_sent b))),
      dc_msg = (\<lambda>b dc. if dc < length (mb_sent b) then Some (mb_sent b ! dc) else None)\<rparr>"

lemma mem_amqp_ok: "amqp_ok mem_amqp"
  unfolding amqp_ok_def
proof (intro conjI)
  show "dial_ok mem_amqp" by (auto simp: dial_ok_def mem_amqp_def steps_ok_def split: if_splits)
  show "close_ok mem_amqp" by (auto simp: close_ok_def mem_amqp_def steps_ok_def)
  show "calls_ok mem_amqp" by (auto simp: calls_ok_def mem_amqp_def steps_ok_def)
  show "confirms_ok mem_amqp" by (auto simp: confirms_ok_def mem_amqp_def split: if_splits) (metis nth_mem)+
qed

definition demo_pub_cfg :: PublisherConfig where
  "demo_pub_cfg = \<lparr>pc_URL = ''amqp://mq'', pc_Exchange = ''dx'', pc_ExchangeType = [], pc_Confirms = True\<rparr>"

text \<open>The connection drops after the first publish; the second one redials.\<close>

definition demo_publisher :: "ReliablePublisher \<times> mem_broker" where
  "demo_publisher = (\<lparr>rp_cfg = demo_pub_cfg, rp_conn = Some 1, rp_ch = Some 1\<rparr>,
     \<lparr>mb_next = 2, mb_open = {0, 1}, mb_modes = {1}, mb_sent = [(''dx'', ''a'', rp_publishing 5 [] ''m1'' ''{}'')], mb_down = False\<rparr>)"

definition demo_start :: "ReliablePublisher \<times> mem_broker" where
  "demo_start = (\<lparr>rp_cfg = demo_pub_cfg, rp_conn = Some 1, rp_ch = Some 1\<rparr>,
     \<lparr>mb_next = 2, mb_open = {0, 1}, mb_modes = {1}, mb_sent = [], mb_down = False\<rparr>)"

lemma demo_publisher_new:
  "NewReliablePublisher mem_amqp demo_pub_cfg \<lparr>mb_next = 1, mb_open = {0}, mb_modes = {}, mb_sent = [], mb_down = False\<rparr> = Inr demo_start"
  by (simp add: NewReliablePublisher_def rp_dial_def mem_amqp_def demo_pub_cfg_def demo_start_def insert_commute)

lemma demo_publisher_run:
  "fold (pub_step mem_amqp) [PubPublish 5 [] ''dx'' ''a'' ''{}'' ''m1''] demo_start = (fst demo_publisher, snd demo_publisher)"
  by (simp add: pub_step_def rp_Publish_def publishWithRetry_def publishOnce_def mem_amqp_def demo_pub_cfg_def demo_publisher_def demo_start_def)

theorem publisher_confirmed_and_leak_free_witness:
  "open_conns mem_amqp (snd demo_publisher) \<subseteq> {0} \<union> {1} \<and>
   (let s' = snd (fst (rp_Publish mem_amqp 6 [] ''dx'' ''b'' ''{}'' ''m2'' demo_publisher))
    in (''dx'', ''b'', rp_publishing 6 [] ''m2'' ''{}'') \<in> stored mem_amqp s' \<union> unroutable mem_amqp s')"
proof -
  let ?p = "\<lparr>rp_cfg = demo_pub_cfg, rp_conn = Some 1, rp_ch = Some 1\<rparr>"
  have pub: "rp_Publish mem_amqp 6 [] ''dx'' ''b'' ''{}'' ''m2'' (fst demo_publisher, snd demo_publisher) =
      ((?p, snd (fst (rp_Publish mem_amqp 6 [] ''dx'' ''b'' ''{}'' ''m2'' demo_publisher))), None)"
    by (simp add: rp_Publish_def publishWithRetry_def publishOnce_def mem_amqp_def demo_pub_cfg_def demo_publisher_def)
  note facts = publisher_confirmed_and_leak_free [OF mem_amqp_ok demo_publisher_new demo_publisher_run]
  have "pc_Confirms demo_pub_cfg" by (simp add: demo_pub_cfg_def)
  with facts pub have "(let s' = snd (fst (rp_Publish mem_amqp 6 [] ''dx'' ''b'' ''{}'' ''m2'' demo_publisher))
      in (''dx'', ''b'', rp_publishing 6 [] ''m2'' ''{}'') \<in> stored mem_amqp s' \<union> unroutable mem_amqp s')" unfolding Let_def by blast
  moreover have "open_conns mem_amqp (snd demo_publisher) \<subseteq> {0} \<union> {1}"
    using facts by (simp add: mem_amqp_def demo_publisher_def)
  ultimately show ?thesis by blast
qed

text \<open>\<^verbatim>\<open>Close\<close> does not retire the publisher: the next publish dials again, and the new connection stays open.\<close>

lemma publish_after_close_reconnects:
  "mb_open (snd (fold (pub_step mem_amqp) [PubClose, PubPublish 7 [] ''dx'' ''c'' ''{}'' ''m3''] demo_publisher)) = {0, 2}"
  by (simp add: pub_step_def rp_Close_def rp_Publish_def publishWithRetry_def publishOnce_def rp_dial_def mem_amqp_def demo_pub_cfg_def
      demo_publisher_def errors_Is_def Let_def) auto

text \<open>A message that reaches no queue is acked all the same, and \<^verbatim>\<open>Publish\<close> returns nil for it.\<close>

lemma unroutable_confirmed:
  "\<exists>ps'. rp_Publish mem_amqp 6 [] ''other'' ''b'' ''{}'' ''m2'' demo_publisher = (ps', None) \<and> stored mem_amqp (snd ps') = stored mem_amqp (snd demo_publisher)"
  by (simp add: rp_Publish_def publishWithRetry_def publishOnce_def mem_amqp_def demo_pub_cfg_def demo_publisher_def routed_def) auto

end
