(* ===== verification/Topology.thy ===== *)
theory Topology
  imports Publisher Consumer
begin

text \<open>
  The plain client of \<^verbatim>\<open>messaging/rabbitmq\<close> (\<^verbatim>\<open>client.go\<close>, \<^verbatim>\<open>publisher.go\<close>, \<^verbatim>\<open>consumer.go\<close>) with its reconnect
  loop, and the declarations of \<^verbatim>\<open>topology.go\<close>. The reconnect loop runs over what it receives: what
  the connection reports and, while it waits, whether the timer or the shutdown came first.
\<close>

subsection \<open>Client\<close>

record RmqClient =
  cl_URL :: string
  cl_ReconnectDelay :: int
  cl_conn :: nat
  cl_channel :: nat

definition rmq_connect :: "'s amqp \<Rightarrow> string \<Rightarrow> 's \<Rightarrow> 's \<times> (goerr + nat \<times> nat)" where
  "rmq_connect A url s =
     (case amqp_Dial A url s of
        (s1, Inl e) \<Rightarrow> (s1, Inl (Errorf ''dial: '' e []))
      | (s1, Inr conn) \<Rightarrow>
          (case conn_Channel A conn s1 of
             (s2, Inl e) \<Rightarrow> (fst (amqp_conn_Close A conn s2), Inl (Errorf ''open channel: '' e []))
           | (s2, Inr ch) \<Rightarrow> (s2, Inr (conn, ch))))"

definition Sec :: int where "Sec = 10 ^ 9"

definition rmq_NewClient :: "'s amqp \<Rightarrow> string \<Rightarrow> int \<Rightarrow> 's \<Rightarrow> 's \<times> (goerr + RmqClient)" where
  "rmq_NewClient A url delay s =
     (case rmq_connect A url s of
        (s1, Inl e) \<Rightarrow> (s1, Inl (Errorf ''rabbitmq.NewClient: initial connect: '' e []))
      | (s1, Inr (conn, ch)) \<Rightarrow>
          (s1, Inr \<lparr>cl_URL = url, cl_ReconnectDelay = (if delay = 0 then 5 * Sec else delay), cl_conn = conn, cl_channel = ch\<rparr>))"

datatype rmq_wait = TimerFired | DoneClosed

datatype rmq_event = ConnectionLost "rmq_wait list" | NotifyEnded | Shutdown

definition next_delay :: "int \<Rightarrow> int" where
  "next_delay delay = (let d = int64 (delay * 2) in if d > 60 * Sec then 60 * Sec else d)"

text \<open>The inner loop: the delays it waited, and whether it returned, reconnected or is still waiting.\<close>

datatype redial = Returned | Reconnected | Waiting

fun redial_loop ::
  "'s amqp \<Rightarrow> int \<Rightarrow> rmq_wait list \<Rightarrow> RmqClient \<times> 's \<Rightarrow> int list \<Rightarrow> (RmqClient \<times> 's) \<times> int list \<times> redial" where
  "redial_loop A delay [] cs lg = (cs, lg, Waiting)"
| "redial_loop A delay (DoneClosed # ws) cs lg = (cs, lg, Returned)"
| "redial_loop A delay (TimerFired # ws) cs lg =
     (case rmq_connect A (cl_URL (fst cs)) (snd cs) of
        (s1, Inl e) \<Rightarrow> redial_loop A (next_delay delay) ws (fst cs, s1) (lg @ [delay])
      | (s1, Inr (conn, ch)) \<Rightarrow> (((fst cs)\<lparr>cl_conn := conn, cl_channel := ch\<rparr>, s1), lg @ [delay], Reconnected))"

fun reconnectLoop :: "'s amqp \<Rightarrow> rmq_event list \<Rightarrow> RmqClient \<times> 's \<Rightarrow> RmqClient \<times> 's" where
  "reconnectLoop A [] cs = cs"
| "reconnectLoop A (Shutdown # es) cs = cs"
| "reconnectLoop A (NotifyEnded # es) cs = cs"
| "reconnectLoop A (ConnectionLost ws # es) cs =
     (case redial_loop A (cl_ReconnectDelay (fst cs)) ws cs [] of
        (cs', _, Reconnected) \<Rightarrow> reconnectLoop A es cs'
      | (cs', _, _) \<Rightarrow> cs')"

definition rmq_IsConnected :: "'s amqp \<Rightarrow> RmqClient \<times> 's \<Rightarrow> bool" where
  "rmq_IsConnected A cs \<longleftrightarrow> \<not> ch_IsClosed A (cl_channel (fst cs)) (snd cs)"

definition rmq_Close :: "'s amqp \<Rightarrow> RmqClient \<times> 's \<Rightarrow> 's \<times> goerr option" where
  "rmq_Close A cs = amqp_conn_Close A (cl_conn (fst cs)) (ch_Close A (cl_channel (fst cs)) (snd cs))"

subsection \<open>Publishing and consuming\<close>

definition raw_publishing :: "string \<Rightarrow> string \<Rightarrow> Publishing" where
  "raw_publishing contentType body =
     \<lparr>pb_ContentType = contentType, pb_DeliveryMode = Persistent, pb_Timestamp = None, pb_MessageId = [], pb_Headers = [],
      pb_Body = body\<rparr>"

definition rmq_Publish :: "'s amqp \<Rightarrow> RmqClient \<Rightarrow> string \<Rightarrow> string \<Rightarrow> string \<Rightarrow> 's \<Rightarrow> 's \<times> goerr option" where
  "rmq_Publish A c exchange routingKey body s =
     wrap_err ''rabbitmq.Publish: ''
       (ch_Publish A (cl_channel c) exchange routingKey False False (raw_publishing ''application/octet-stream'' body) s)"

definition rmq_PublishJSON ::
  "'s amqp \<Rightarrow> ('v \<Rightarrow> goerr + string) \<Rightarrow> RmqClient \<Rightarrow> string \<Rightarrow> string \<Rightarrow> 'v \<Rightarrow> 's \<Rightarrow> 's \<times> goerr option" where
  "rmq_PublishJSON A marshal c exchange routingKey v s =
     (case marshal v of
        Inl e \<Rightarrow> (s, Some (Errorf ''rabbitmq.PublishJSON: marshal: '' e []))
      | Inr data \<Rightarrow>
          wrap_err ''rabbitmq.PublishJSON: publish: ''
            (ch_Publish A (cl_channel c) exchange routingKey False False (raw_publishing ''application/json'' data) s))"

text \<open>The goroutine of \<^verbatim>\<open>Consume\<close>: every delivery is settled once, by the handler's answer.\<close>

datatype client_settlement = AckMsg bool | NackMsg bool bool

fun client_consume_loop :: "(string \<Rightarrow> 'h \<Rightarrow> 'h \<times> goerr option) \<Rightarrow> string list \<Rightarrow> 'h \<Rightarrow> 'h \<times> client_settlement list" where
  "client_consume_loop handler [] h = (h, [])"
| "client_consume_loop handler (body # ds) h =
     (case handler body h of
        (h1, r) \<Rightarrow>
          (case client_consume_loop handler ds h1 of
             (h2, sts) \<Rightarrow> (h2, (case r of Some e \<Rightarrow> NackMsg False False | None \<Rightarrow> AckMsg False) # sts)))"

subsection \<open>Declarations (topology.go)\<close>

definition DeclareExchange :: "'s amqp \<Rightarrow> RmqClient \<Rightarrow> string \<Rightarrow> string \<Rightarrow> bool \<Rightarrow> 's \<Rightarrow> 's \<times> goerr option" where
  "DeclareExchange A c nm kind durable s =
     wrap_err (''rabbitmq.DeclareExchange '' @ go_quote nm @ '': '')
       (ch_call A (cl_channel c) (ExchangeDeclare nm kind durable False False False []) s)"

definition DeclareQueueWithArgs ::
  "'s amqp \<Rightarrow> RmqClient \<Rightarrow> string \<Rightarrow> bool \<Rightarrow> (string \<times> anyv) list \<Rightarrow> 's \<Rightarrow> 's \<times> (goerr + string)" where
  "DeclareQueueWithArgs A c nm durable args s =
     (case ch_QueueDeclare A (cl_channel c) nm durable False False False args s of
        (s1, Inl e) \<Rightarrow> (s1, Inl (Errorf (''rabbitmq.DeclareQueue '' @ go_quote nm @ '': '') e []))
      | (s1, Inr q) \<Rightarrow> (s1, Inr q))"

definition DeclareQueue :: "'s amqp \<Rightarrow> RmqClient \<Rightarrow> string \<Rightarrow> bool \<Rightarrow> 's \<Rightarrow> 's \<times> (goerr + string)" where
  "DeclareQueue A c nm durable s = DeclareQueueWithArgs A c nm durable [] s"

definition DeleteQueue :: "'s amqp \<Rightarrow> RmqClient \<Rightarrow> string \<Rightarrow> 's \<Rightarrow> 's \<times> goerr option" where
  "DeleteQueue A c nm s =
     wrap_err (''rabbitmq.DeleteQueue '' @ go_quote nm @ '': '') (ch_call A (cl_channel c) (QueueDelete nm False False False) s)"

definition BindQueue :: "'s amqp \<Rightarrow> RmqClient \<Rightarrow> string \<Rightarrow> string \<Rightarrow> string \<Rightarrow> 's \<Rightarrow> 's \<times> goerr option" where
  "BindQueue A c queue exchange routingKey s =
     wrap_err (''rabbitmq.BindQueue '' @ go_quote queue @ [CHR 0xE2, CHR 0x86, CHR 0x92] @ go_quote exchange @ '' (key='' @ go_quote routingKey @ ''): '')
       (ch_call A (cl_channel c) (QueueBind queue routingKey exchange False []) s)"

definition dlq_error :: "string \<Rightarrow> string \<Rightarrow> goerr \<Rightarrow> goerr" where
  "dlq_error what nm e = Errorf (''rabbitmq.DeclareQueueWithDLQ: '' @ what @ '' '' @ go_quote nm @ '': '') e []"

text \<open>A declaration step: go on with the rest when it succeeded.\<close>

definition andThen :: "'s \<times> (goerr + 'a) \<Rightarrow> (goerr \<Rightarrow> goerr) \<Rightarrow> ('a \<Rightarrow> 's \<Rightarrow> 's \<times> (goerr + 'b)) \<Rightarrow> 's \<times> (goerr + 'b)" where
  "andThen r err f = (case r of (s, Inl e) \<Rightarrow> (s, Inl (err e)) | (s, Inr x) \<Rightarrow> f x s)"

definition as_sum :: "'s \<times> goerr option \<Rightarrow> 's \<times> (goerr + unit)" where
  "as_sum r = (case r of (s, Some e) \<Rightarrow> (s, Inl e) | (s, None) \<Rightarrow> (s, Inr ()))"

definition DeclareQueueWithDLQ ::
  "'s amqp \<Rightarrow> nat \<Rightarrow> string \<Rightarrow> string \<Rightarrow> string \<Rightarrow> string \<Rightarrow> bool \<Rightarrow> 's \<Rightarrow> 's \<times> (goerr + string)" where
  "DeclareQueueWithDLQ A ch exchange exchangeKind queue bindingKey durable s =
     (let dlx = exchange @ ''.dlx''; dlq = queue @ ''.dlq''
      in andThen (as_sum (ch_call A ch (ExchangeDeclare exchange exchangeKind durable False False False []) s))
           (dlq_error ''declare exchange'' exchange) (\<lambda>_ s1.
         andThen (as_sum (ch_call A ch (ExchangeDeclare dlx ''topic'' durable False False False []) s1))
           (dlq_error ''declare dlx'' dlx) (\<lambda>_ s2.
         andThen (ch_QueueDeclare A ch dlq durable False False False [] s2)
           (dlq_error ''declare dlq'' dlq) (\<lambda>_ s3.
         andThen (as_sum (ch_call A ch (QueueBind dlq ''#'' dlx False []) s3))
           (dlq_error ''bind dlq'' dlq) (\<lambda>_ s4.
         andThen (ch_QueueDeclare A ch queue durable False False False [(''x-dead-letter-exchange'', VStr dlx)] s4)
           (dlq_error ''declare queue'' queue) (\<lambda>q s5.
         andThen (as_sum (ch_call A ch (QueueBind queue bindingKey exchange False []) s5))
           (dlq_error ''bind queue'' queue) (\<lambda>_ s6. (s6, Inr q))))))))"

definition client_DeclareQueueWithDLQ ::
  "'s amqp \<Rightarrow> RmqClient \<Rightarrow> string \<Rightarrow> string \<Rightarrow> string \<Rightarrow> string \<Rightarrow> bool \<Rightarrow> 's \<Rightarrow> 's \<times> (goerr + string)" where
  "client_DeclareQueueWithDLQ A c = DeclareQueueWithDLQ A (cl_channel c)"

subsection \<open>The delays of the reconnect loop\<close>

lemma next_delay_doubles:
  assumes "0 < d" "d \<le> 60 * Sec"
  shows "next_delay d = min (2 * d) (60 * Sec)"
proof -
  have "int64 (d * 2) = d * 2" using assms by (intro int64_id) (simp add: in_int64_def Sec_def)
  then show ?thesis by (simp add: next_delay_def min_def)
qed

lemma redial_loop_log:
  assumes "0 < d" "d \<le> 60 * Sec" and "redial_loop A d ws cs lg = (cs', lg', r)"
  shows "\<exists>k. lg' = lg @ map (\<lambda>i. min (d * 2 ^ i) (60 * Sec)) [0..<k]"
  using assms
proof (induction A d ws cs lg arbitrary: cs' lg' r rule: redial_loop.induct)
  case (1 A d cs lg)
  then show ?case by (intro exI [of _ 0]) simp
next
  case (2 A d ws cs lg)
  then show ?case by (intro exI [of _ 0]) simp
next
  case (3 A d ws cs lg)
  obtain s1 x where c: "rmq_connect A (cl_URL (fst cs)) (snd cs) = (s1, x)" by fastforce
  show ?case
  proof (cases x)
    case (Inl e)
    let ?d = "next_delay d"
    have nd: "?d = min (2 * d) (60 * Sec)" by (rule next_delay_doubles) fact+
    then have pos: "0 < ?d" "?d \<le> 60 * Sec" using "3.prems"(1) by (auto simp: Sec_def)
    from "3.prems"(3) c Inl have "redial_loop A ?d ws (fst cs, s1) (lg @ [d]) = (cs', lg', r)" by simp
    from "3.IH" [OF c [symmetric] Inl pos this] obtain k where
      k: "lg' = (lg @ [d]) @ map (\<lambda>i. min (?d * 2 ^ i) (60 * Sec)) [0..<k]" by blast
    have "min (?d * 2 ^ i) (60 * Sec) = min (d * 2 ^ Suc i) (60 * Sec)" for i :: nat
    proof (cases "2 * d \<le> 60 * Sec")
      case True
      then show ?thesis by (simp add: nd mult_ac)
    next
      case False
      have "(1::int) \<le> 2 ^ i" by simp
      then have "60 * Sec \<le> 60 * Sec * 2 ^ i" "60 * Sec \<le> 2 * d * 2 ^ i"
        using False mult_mono [of "60 * Sec" "60 * Sec" 1 "2 ^ i :: int"] mult_mono [of "60 * Sec" "2 * d" 1 "2 ^ i :: int"]
        by (auto simp: Sec_def)
      with False show ?thesis by (simp add: nd mult_ac)
    qed
    then have "lg' = lg @ map (\<lambda>i. min (d * 2 ^ i) (60 * Sec)) [0..<Suc k]"
      using "3.prems"(2) by (simp add: k upt_conv_Cons map_Suc_upt [symmetric] del: upt_Suc)
    then show ?thesis by blast
  next
    case (Inr cc)
    with "3.prems" c have "lg' = lg @ map (\<lambda>i. min (d * 2 ^ i) (60 * Sec)) [0..<1]"
      by (auto split: prod.splits)
    then show ?thesis by blast
  qed
qed

subsection \<open>What reaches the dead-letter queue\<close>

text \<open>The declarations a broker has accepted, and how it routes by them: a topic pattern is a list of words,
  \<open>*\<close> stands for one word and \<open>#\<close> for any number. A message rejected without requeue goes to the
  dead-letter exchange of its queue with its original routing key.\<close>

record topology =
  tp_exchanges :: "(string \<times> string) set"
  tp_queues :: "(string \<times> (string \<times> anyv) list) set"
  tp_bindings :: "(string \<times> string \<times> string) set"

fun topic_match :: "string list \<Rightarrow> string list \<Rightarrow> bool" where
  "topic_match [] [] = True"
| "topic_match [] (w # ws) = False"
| "topic_match (p # ps) [] = (p = ''#'' \<and> topic_match ps [])"
| "topic_match (p # ps) (w # ws) =
     (if p = ''#'' then topic_match ps (w # ws) \<or> topic_match (p # ps) ws
      else (p = ''*'' \<or> p = w) \<and> topic_match ps ws)"

definition routes :: "topology \<Rightarrow> string \<Rightarrow> string \<Rightarrow> string set" where
  "routes tp ex key =
     {q. \<exists>pat. (q, pat, ex) \<in> tp_bindings tp \<and>
        ((ex, ''topic'') \<in> tp_exchanges tp \<and> topic_match (split_on CHR ''.'' pat) (split_on CHR ''.'' key) \<or>
         (ex, ''direct'') \<in> tp_exchanges tp \<and> pat = key \<or> (ex, ''fanout'') \<in> tp_exchanges tp)}"

definition dead_letters_to :: "topology \<Rightarrow> string \<Rightarrow> string \<Rightarrow> string set" where
  "dead_letters_to tp queue key =
     {q. \<exists>args dlx. (queue, args) \<in> tp_queues tp \<and> map_of args ''x-dead-letter-exchange'' = Some (VStr dlx) \<and> q \<in> routes tp dlx key}"

text \<open>A driver that also records the declarations the broker accepted.\<close>

definition beside_topology :: "('s \<Rightarrow> 's \<times> 'r) \<Rightarrow> 's \<times> topology \<Rightarrow> ('s \<times> topology) \<times> 'r" where
  "beside_topology f st = (case f (fst st) of (s', r) \<Rightarrow> ((s', snd st), r))"

definition accepted :: "channel_call \<Rightarrow> goerr option \<Rightarrow> topology \<Rightarrow> topology" where
  "accepted x r tp =
     (case (r, x) of
        (None, ExchangeDeclare nm kind _ _ _ _ _) \<Rightarrow> tp\<lparr>tp_exchanges := insert (nm, kind) (tp_exchanges tp)\<rparr>
      | (None, QueueBind q key ex _ _) \<Rightarrow> tp\<lparr>tp_bindings := insert (q, key, ex) (tp_bindings tp)\<rparr>
      | _ \<Rightarrow> tp)"

definition recording :: "'s amqp \<Rightarrow> ('s \<times> topology) amqp" where
  "recording A =
     \<lparr>amqp_Dial = (\<lambda>u. beside_topology (amqp_Dial A u)), conn_Channel = (\<lambda>c. beside_topology (conn_Channel A c)),
      amqp_conn_Close = (\<lambda>c. beside_topology (amqp_conn_Close A c)),
      ch_Close = (\<lambda>ch st. (ch_Close A ch (fst st), snd st)), ch_IsClosed = (\<lambda>ch st. ch_IsClosed A ch (fst st)),
      ch_call = (\<lambda>ch x st. case ch_call A ch x (fst st) of (s', r) \<Rightarrow> ((s', accepted x r (snd st)), r)),
      ch_QueueDeclare = (\<lambda>ch q du ad ex nw args st.
        case ch_QueueDeclare A ch q du ad ex nw args (fst st) of
          (s', Inl e) \<Rightarrow> ((s', snd st), Inl e)
        | (s', Inr x) \<Rightarrow> ((s', (snd st)\<lparr>tp_queues := insert (q, args) (tp_queues (snd st))\<rparr>), Inr x)),
      ch_Publish = (\<lambda>ch ex key m i pub. beside_topology (ch_Publish A ch ex key m i pub)),
      ch_PublishDeferred = (\<lambda>ch ex key m i pub. beside_topology (ch_PublishDeferred A ch ex key m i pub)),
      dc_wait = (\<lambda>dc. beside_topology (dc_wait A dc)),
      open_conns = (\<lambda>st. open_conns A (fst st)), confirming = (\<lambda>st. confirming A (fst st)), stored = (\<lambda>st. stored A (fst st)),
      unroutable = (\<lambda>st. unroutable A (fst st)), dc_msg = (\<lambda>st. dc_msg A (fst st))\<rparr>"

lemma andThen_ok: "andThen r err f = (s', Inr y) \<longleftrightarrow> (\<exists>s x. r = (s, Inr x) \<and> f x s = (s', Inr y))"
  by (auto simp: andThen_def split: prod.splits sum.splits)

lemma recorded_call:
  "as_sum (ch_call (recording A) ch x st) = (st', Inr u) \<Longrightarrow> snd st' = accepted x None (snd st)"
  by (auto simp: as_sum_def recording_def split: prod.splits option.splits)

lemma recorded_queue:
  "ch_QueueDeclare (recording A) ch q du ad ex nw args st = (st', Inr x)
   \<Longrightarrow> snd st' = (snd st)\<lparr>tp_queues := insert (q, args) (tp_queues (snd st))\<rparr>"
  by (auto simp: recording_def split: prod.splits sum.splits)

lemma topic_match_all: "topic_match [''#''] ws"
  by (induction ws) simp_all

lemma declared_topology:
  assumes "DeclareQueueWithDLQ (recording A) ch ex kind queue key du (s, tp) = ((s', tp'), Inr q)"
  shows "tp' = tp\<lparr>tp_exchanges := insert (ex @ ''.dlx'', ''topic'') (insert (ex, kind) (tp_exchanges tp)),
     tp_queues := insert (queue, [(''x-dead-letter-exchange'', VStr (ex @ ''.dlx''))]) (insert (queue @ ''.dlq'', []) (tp_queues tp)),
     tp_bindings := insert (queue, key, ex) (insert (queue @ ''.dlq'', ''#'', ex @ ''.dlx'') (tp_bindings tp))\<rparr>"
  using assms unfolding DeclareQueueWithDLQ_def Let_def andThen_ok
  by (auto dest!: recorded_call recorded_queue simp: accepted_def)

text \<open>
  No dead letter is dropped. When \<^verbatim>\<open>DeclareQueueWithDLQ\<close> succeeds, on whatever the broker had before, a message
  rejected from the queue without requeue is routed to the queue's dead-letter queue, whatever its
  routing key; and a message the exchange routes by the binding key reaches the queue itself.
\<close>

theorem dead_letters_reach_dlq:
  assumes "DeclareQueueWithDLQ (recording A) ch ex kind queue pat du (s, tp) = ((s', tp'), Inr q)"
  shows "queue @ ''.dlq'' \<in> dead_letters_to tp' queue key \<and>
    (kind = ''topic'' \<and> topic_match (split_on CHR ''.'' pat) (split_on CHR ''.'' key) \<or> kind = ''direct'' \<and> pat = key \<or> kind = ''fanout''
      \<longrightarrow> queue \<in> routes tp' ex key)"
proof -
  note tp = declared_topology [OF assms]
  have "queue @ ''.dlq'' \<in> routes tp' (ex @ ''.dlx'') key"
    unfolding routes_def tp using topic_match_all by (auto intro!: exI [of _ "''#''"])
  then have "queue @ ''.dlq'' \<in> dead_letters_to tp' queue key"
    unfolding dead_letters_to_def by (auto simp: tp intro!: exI [of _ "[(''x-dead-letter-exchange'', VStr (ex @ ''.dlx''))]"])
  then show ?thesis by (auto simp: routes_def tp)
qed

theorem dead_letters_reach_dlq_witness:
  "''audit.q.dlq'' \<in> dead_letters_to
     (snd (fst (DeclareQueueWithDLQ (recording mem_amqp) 0 ''dx'' ''topic'' ''audit.q'' ''audit.#'' True
       (\<lparr>mb_next = 1, mb_open = {0}, mb_modes = {}, mb_sent = [], mb_down = False\<rparr>, \<lparr>tp_exchanges = {}, tp_queues = {}, tp_bindings = {}\<rparr>))))
     ''audit.q'' ''user.login.failed''"
proof -
  let ?st = "(\<lparr>mb_next = 1, mb_open = {0}, mb_modes = {}, mb_sent = [], mb_down = False\<rparr>, \<lparr>tp_exchanges = {}, tp_queues = {}, tp_bindings = {}\<rparr>)"
  let ?r = "DeclareQueueWithDLQ (recording mem_amqp) 0 ''dx'' ''topic'' ''audit.q'' ''audit.#'' True ?st"
  have "?r = ((fst (fst ?r), snd (fst ?r)), Inr ''audit.q'')"
    by (simp add: DeclareQueueWithDLQ_def recording_def mem_amqp_def andThen_def as_sum_def Let_def)
  from dead_letters_reach_dlq [OF this] show ?thesis by simp
qed

end
