(* ===== verification/Delivery.thy ===== *)
theory Delivery
  imports Outbox Publisher
begin

text \<open>
  The path of an event out of the service: outbox rows (\<^verbatim>\<open>messaging/outbox\<close>) drained through the reliable
  publisher (\<^verbatim>\<open>messaging/rabbitmq\<close>) in confirm mode, as its configuration comment asks for. The
  service's callback chooses exchange, key and message id of a row and hands it to \<^verbatim>\<open>Publish\<close>.
\<close>

record route =
  rt_exchange :: string
  rt_key :: string
  rt_headers :: "(string \<times> string) list"
  rt_messageID :: string
  rt_now :: int

definition event_message :: "(Row \<Rightarrow> route) \<Rightarrow> Row \<Rightarrow> message" where
  "event_message to row =
     (rt_exchange (to row), rt_key (to row),
      rp_publishing (rt_now (to row)) (rt_headers (to row)) (rt_messageID (to row)) (row_Payload row))"

definition publish_event :: "'s amqp \<Rightarrow> (Row \<Rightarrow> route) \<Rightarrow> ((ReliablePublisher \<times> 's) \<times> table) publisher" where
  "publish_event A to row w =
     (case rp_Publish A (rt_now (to row)) (rt_headers (to row)) (rt_exchange (to row)) (rt_key (to row)) (row_Payload row)
             (rt_messageID (to row)) (fst w) of
        (ps', r) \<Rightarrow> ((ps', snd w), r))"

text \<open>What holds of a row once it is published, and is never lost, holds of every row a drain published.\<close>

lemma beside_keeps:
  "st_Fetch (beside S) n w = (w', x) \<Longrightarrow> fst w' = fst w" "st_MarkSent (beside S) i w = (w', y) \<Longrightarrow> fst w' = fst w"
  by (auto simp: beside_def split: prod.splits)

lemma drain_batch_published:
  assumes pub: "\<And>row w w' r. publish row w = (w', r) \<Longrightarrow> I (fst w) \<Longrightarrow> I (fst w') \<and> (r = None \<longrightarrow> Q row (fst w')) \<and> (\<forall>row'. Q row' (fst w) \<longrightarrow> Q row' (fst w'))"
    and "drain_batch (beside S) publish rows w lg = (w', lg', stop)" "I (fst w)" "\<forall>row \<in> set (published_rows lg). Q row (fst w)"
  shows "I (fst w') \<and> (\<forall>row \<in> set (published_rows lg'). Q row (fst w'))"
  using assms(2-)
proof (induction rows arbitrary: w lg)
  case (Cons row rows)
  obtain w1 r where 1: "publish row w = (w1, r)" by fastforce
  note p = pub [OF 1 Cons.prems(2)]
  obtain w2 m where 2: "st_MarkSent (beside S) (row_ID row) w1 = (w2, m)" by fastforce
  have f: "fst w2 = fst w1" by (rule beside_keeps(2) [OF 2])
  show ?case
  proof (cases r)
    case (Some e)
    then show ?thesis using Cons.prems 1 p by auto
  next
    case r: None
    show ?thesis
    proof (cases m)
      case (Some e)
      then show ?thesis using Cons.prems 1 2 p r f by auto
    next
      case None
      from Cons.prems(1) 1 2 r None
      have "drain_batch (beside S) publish rows w2 (lg @ [Published row None, Marked (row_ID row) None]) = (w', lg', stop)" by simp
      then show ?thesis using Cons.IH p r f Cons.prems(3) by auto
    qed
  qed
qed auto

lemma drain_published:
  assumes pub: "\<And>row w w' r. publish row w = (w', r) \<Longrightarrow> I (fst w) \<Longrightarrow> I (fst w') \<and> (r = None \<longrightarrow> Q row (fst w')) \<and> (\<forall>row'. Q row' (fst w) \<longrightarrow> Q row' (fst w'))"
    and "drain (beside S) publish batch fuel w lg = Some (w', lg')" "I (fst w)" "\<forall>row \<in> set (published_rows lg). Q row (fst w)"
  shows "\<forall>row \<in> set (published_rows lg'). Q row (fst w')"
  using assms(2-)
proof (induction fuel arbitrary: w lg)
  case (Suc fuel)
  obtain w1 x where 1: "st_Fetch (beside S) batch w = (w1, x)" by fastforce
  have f: "fst w1 = fst w" by (rule beside_keeps(1) [OF 1])
  show ?case
  proof (cases x)
    case (Inl e)
    then show ?thesis using Suc.prems 1 f by auto
  next
    case (Inr rows)
    obtain w2 lg2 stop where 2: "drain_batch (beside S) publish rows w1 lg = (w2, lg2, stop)" by (metis prod.exhaust)
    have "I (fst w2) \<and> (\<forall>row \<in> set (published_rows lg2). Q row (fst w2))"
      by (rule drain_batch_published [where publish = publish and I = I and Q = Q, OF _ 2]) (use pub Suc.prems f in auto)
    then show ?thesis using Suc.prems Suc.IH [of w2 lg2] 1 Inr 2 f by (auto split: if_splits bool.splits)
  qed
qed simp

text \<open>What the broker has taken: stored, or found no queue for.\<close>

definition taken :: "'s amqp \<Rightarrow> 's \<Rightarrow> message set" where
  "taken A s = stored A s \<union> unroutable A s"

definition in_service :: "'s amqp \<Rightarrow> ReliablePublisher \<times> 's \<Rightarrow> bool" where
  "in_service A ps \<longleftrightarrow> pc_Confirms (rp_cfg (fst ps)) \<and> armed A ps"

lemma publish_event_step:
  assumes ok: "amqp_ok A" and r: "publish_event A to row w = (w', r)" and i: "in_service A (fst w)"
  shows "in_service A (fst w') \<and> (r = None \<longrightarrow> event_message to row \<in> taken A (snd (fst w'))) \<and> taken A (snd (fst w)) \<subseteq> taken A (snd (fst w'))"
proof -
  obtain ps' where p: "rp_Publish A (rt_now (to row)) (rt_headers (to row)) (rt_exchange (to row)) (rt_key (to row)) (row_Payload row)
      (rt_messageID (to row)) (fst w) = (ps', r)" and w': "w' = (ps', snd w)"
    using r by (auto simp: publish_event_def split: prod.splits)
  have c: "rp_cfg (fst ps') = rp_cfg (fst (fst w))"
    using pub_step_cfg [of A "PubPublish (rt_now (to row)) (rt_headers (to row)) (rt_exchange (to row)) (rt_key (to row)) (row_Payload row)
      (rt_messageID (to row))" "fst w"] p by (simp add: pub_step_def)
  have h: "holds_one A UNIV (stored A (snd (fst w))) (unroutable A (snd (fst w))) (fst w)" using i by (simp add: holds_one_def in_service_def)
  have "holds_one A UNIV (stored A (snd (fst w))) (unroutable A (snd (fst w))) ps'"
    by (rule publishWithRetry_holds [OF ok h p [unfolded rp_Publish_def]])
  then have "taken A (snd (fst w)) \<subseteq> taken A (snd ps')" "armed A ps'" unfolding holds_one_def taken_def by blast+
  moreover have "r = None \<longrightarrow> event_message to row \<in> taken A (snd ps')"
    using publishWithRetry_acked [OF ok _ _ h] i p by (auto simp: rp_Publish_def event_message_def taken_def in_service_def)
  ultimately show ?thesis using c i by (simp add: w' in_service_def)
qed

text \<open>The rows a drain publishes are rows of the table, but for the attempt counter.\<close>

definition event_of :: "Row \<Rightarrow> Row" where
  "event_of r = r\<lparr>row_Attempts := 0\<rparr>"

definition events :: "table \<Rightarrow> Row set" where
  "events t = set (map (\<lambda>x. event_of (t_row x)) (tbl_rows t))"

lemma event_of_rows:
  "map (\<lambda>x. event_of (t_row x)) (bump_rows ids rows) = map (\<lambda>x. event_of (t_row x)) rows"
  "map (\<lambda>x. event_of (t_row x)) (mark_rows i n rows) = map (\<lambda>x. event_of (t_row x)) rows"
  by (simp_all add: bump_rows_def mark_rows_def event_of_def bump_def)

lemma events_stmts:
  "events (t\<lparr>tbl_rows := bump_rows ids (tbl_rows t)\<rparr>) = events t" "events (t\<lparr>tbl_rows := mark_rows i n (tbl_rows t)\<rparr>) = events t"
  "events (stmt_done t) = events t"
  "events ((stmt_done t)\<lparr>tbl_rows := bump_rows ids (tbl_rows t)\<rparr>) = events t"
  "events ((stmt_done t)\<lparr>tbl_rows := mark_rows i n (tbl_rows t)\<rparr>) = events t"
  by (simp_all only: events_def event_of_rows stmt_done_def table.select_convs table.update_convs table.surjective)
    (simp_all add: event_of_rows)

lemma events_pg:
  "events (fst (pg_MarkSent i t)) = events t" "events (fst (pg_FetchUnsent n t)) = events t"
  "pg_FetchUnsent n t = (t', Inr rows) \<Longrightarrow> event_of ` set rows \<subseteq> events t"
proof -
  show "events (fst (pg_MarkSent i t)) = events t"
    by (simp add: pg_MarkSent_def exec_stmt_def events_stmts split: option.splits prod.splits)
  show "events (fst (pg_FetchUnsent n t)) = events t"
    by (simp add: pg_FetchUnsent_def exec_stmt_def events_stmts split: option.splits prod.splits)
  show "pg_FetchUnsent n t = (t', Inr rows) \<Longrightarrow> event_of ` set rows \<subseteq> events t"
    by (auto simp: pg_FetchUnsent_def events_def event_of_def bump_def claimed_def dest!: in_set_takeD
        split: if_splits option.splits prod.splits)
qed

lemma drain_batch_events:
  assumes "broker_only publish" and "drain_batch (beside PGStore) publish rows w lg = (w', lg', stop)"
    and "event_of ` (set rows \<union> set (published_rows lg)) \<subseteq> events (snd w)"
  shows "events (snd w') = events (snd w) \<and> event_of ` set (published_rows lg') \<subseteq> events (snd w)"
  using assms(2,3)
proof (induction rows arbitrary: w lg)
  case (Cons row rows)
  obtain w1 r where 1: "publish row w = (w1, r)" by fastforce
  have w1: "snd w1 = snd w" using assms(1) 1 unfolding broker_only_def by (metis fst_conv)
  obtain w2 m where 2: "st_MarkSent (beside PGStore) (row_ID row) w1 = (w2, m)" by fastforce
  then have "snd w2 = fst (pg_MarkSent (row_ID row) (snd w1))" by (auto simp: beside_def PGStore_def split: prod.splits)
  then have w2: "events (snd w2) = events (snd w)" using events_pg(1) w1 by simp
  show ?case
  proof (cases r)
    case (Some e)
    then show ?thesis using Cons.prems 1 w1 by (auto simp: image_Un image_subset_iff)
  next
    case r: None
    show ?thesis
    proof (cases m)
      case (Some e)
      then show ?thesis using Cons.prems 1 2 r w2 by (auto simp: image_Un image_subset_iff)
    next
      case None
      with Cons.prems(1) 1 2 r
      have "drain_batch (beside PGStore) publish rows w2 (lg @ [Published row None, Marked (row_ID row) None]) = (w', lg', stop)" by simp
      moreover have "event_of ` (set rows \<union> set (published_rows (lg @ [Published row None, Marked (row_ID row) None]))) \<subseteq> events (snd w2)"
        using Cons.prems(2) w2 by (simp add: image_Un)
      ultimately have "events (snd w') = events (snd w2) \<and> event_of ` set (published_rows lg') \<subseteq> events (snd w2)" by (rule Cons.IH)
      with w2 show ?thesis by simp
    qed
  qed
qed auto

lemma drain_events:
  assumes "broker_only publish" and "drain (beside PGStore) publish batch fuel w lg = Some (w', lg')"
    and "event_of ` set (published_rows lg) \<subseteq> events (snd w)"
  shows "event_of ` set (published_rows lg') \<subseteq> events (snd w)"
  using assms(2,3)
proof (induction fuel arbitrary: w lg)
  case (Suc fuel)
  obtain w1 x where 1: "st_Fetch (beside PGStore) batch w = (w1, x)" by fastforce
  then have f: "pg_FetchUnsent batch (snd w) = (snd w1, x)" by (auto simp: beside_def PGStore_def split: prod.splits)
  then have w1: "events (snd w1) = events (snd w)" using events_pg(2) [of batch "snd w"] by simp
  have rows: "x = Inr rows \<Longrightarrow> event_of ` set rows \<subseteq> events (snd w)" for rows using f events_pg(3) by blast
  show ?case
  proof (cases x)
    case (Inl e)
    then show ?thesis using Suc.prems 1 by auto
  next
    case (Inr r)
    obtain w2 lg2 stop where 2: "drain_batch (beside PGStore) publish r w1 lg = (w2, lg2, stop)" by (metis prod.exhaust)
    have "events (snd w2) = events (snd w1) \<and> event_of ` set (published_rows lg2) \<subseteq> events (snd w1)"
      by (rule drain_batch_events [OF assms(1) 2]) (use rows [OF Inr] w1 Suc.prems(2) in auto)
    then show ?thesis using Suc.prems Suc.IH [of w2 lg2] 1 Inr 2 w1 by (auto split: if_splits bool.splits)
  qed
qed simp

text \<open>
  C21: Events are not lost on the way to the broker. Take a publisher in confirm mode after any use (made by \<^verbatim>\<open>NewReliablePublisher\<close>, then any
  sequence of publishes, redials and closes). Whatever fails (fetching, dialling, publishing, confirming,
  marking), a drain of the outbox through it returns, and for every event that is no longer pending afterwards the broker has taken a message
  with the payload of its row in the table: it has stored it, or found no queue for it.
\<close>

theorem outbox_events_reach_broker:
  assumes "amqp_ok A" and "NewReliablePublisher A cfg s0 = Inr ps0" and "pc_Confirms cfg" and "fold (pub_step A) ops ps0 = (p, s)"
    and "pg_valid ((p, s), tbl)" and "0 < batch" and "card (pg_pending ((p, s), tbl)) < fuel"
  shows "\<exists>p' s' tbl' lg. drain (beside PGStore) (publish_event A to) batch fuel ((p, s), tbl) [] = Some (((p', s'), tbl'), lg) \<and>
    (\<forall>i \<in> pg_pending ((p, s), tbl) - pg_pending ((p', s'), tbl').
       \<exists>row. row_ID row = i \<and> event_of row \<in> events tbl \<and> event_message to row \<in> stored A s' \<union> unroutable A s')"
proof -
  have bo: "broker_only (publish_event A to)"
    by (auto simp: broker_only_def publish_event_def split: prod.splits)
  note ok = broker_only_ok [OF bo]
  have srv: "in_service A (p, s)"
    using pub_steps_hold [OF assms(1) NewReliablePublisher_holds(1) [OF assms(1,2)], of ops] pub_steps_cfg [of A ops ps0]
      NewReliablePublisher_holds(2) [OF assms(1,2)] assms(3,4) by (simp add: in_service_def holds_one_def)
  obtain w' lg where d: "drain (beside PGStore) (publish_event A to) batch fuel ((p, s), tbl) [] = Some (w', lg)"
    using pg.drain_returns [OF ok assms(5-7)] by fastforce
  have safe: "\<forall>i \<in> pg_pending ((p, s), tbl) - pg_pending w'. \<exists>row \<in> set (published_rows lg). row_ID row = i"
    using pg.drain_safe [OF ok assms(5) d] by auto
  have ev: "event_of ` set (published_rows lg) \<subseteq> events tbl"
    using drain_events [OF bo d] by simp
  have step: "in_service A (fst w2) \<and> (r = None \<longrightarrow> event_message to row \<in> taken A (snd (fst w2))) \<and>
      (\<forall>row'. event_message to row' \<in> taken A (snd (fst w1)) \<longrightarrow> event_message to row' \<in> taken A (snd (fst w2)))"
    if "publish_event A to row w1 = (w2, r)" "in_service A (fst w1)" for row w1 w2 r
    using publish_event_step [OF assms(1) that] by blast
  have "\<forall>row \<in> set (published_rows lg). event_message to row \<in> taken A (snd (fst w'))"
    by (rule drain_published [where I = "in_service A" and Q = "\<lambda>row b. event_message to row \<in> taken A (snd b)", OF step d])
      (use srv in simp_all)
  then have "\<forall>i \<in> pg_pending ((p, s), tbl) - pg_pending w'.
      \<exists>row. row_ID row = i \<and> event_of row \<in> events tbl \<and> event_message to row \<in> taken A (snd (fst w'))"
    using safe ev by blast
  with d show ?thesis unfolding taken_def by (cases w'; cases "fst w'") auto
qed

theorem outbox_events_reach_broker_witness:
  "\<exists>p' s' tbl' lg. drain (beside PGStore)
       (publish_event mem_amqp (\<lambda>row. \<lparr>rt_exchange = ''dx'', rt_key = row_Action row, rt_headers = [], rt_messageID = [], rt_now = 5\<rparr>))
       2 9 (demo_publisher, demo_table) [] = Some (((p', s'), tbl'), lg) \<and>
     (\<forall>i \<in> pg_pending (demo_publisher, demo_table) - pg_pending ((p', s'), tbl'). \<exists>row. row_ID row = i \<and> event_of row \<in> events demo_table \<and>
       event_message (\<lambda>row. \<lparr>rt_exchange = ''dx'', rt_key = row_Action row, rt_headers = [], rt_messageID = [], rt_now = 5\<rparr>) row
         \<in> stored mem_amqp s' \<union> unroutable mem_amqp s')"
proof -
  have c: "pc_Confirms demo_pub_cfg" by (simp add: demo_pub_cfg_def)
  show ?thesis
    using outbox_events_reach_broker [OF mem_amqp_ok demo_publisher_new c demo_publisher_run, where tbl = demo_table and batch = 2 and fuel = 9]
    unfolding prod.collapse by (simp only: demo_table_facts) simp
qed

end
