(* ===== verification/Validation.thy ===== *)
theory Validation
  imports Identity Encoding
begin

text \<open>
  Package \<^verbatim>\<open>validation\<close>: the accumulating validator and the request helpers. The standard library's part of it
  is modelled too: UTF-8 decoding as \<^verbatim>\<open>unicode/utf8\<close> does it (an invalid byte counts as one
  replacement rune) and the fixed patterns of the validator as regular expressions over runes, matched by
  derivatives and proved to match their language. A pattern the service passes in is a parameter:
  \<open>compile\<close> gives its matcher, or nothing when it does not compile.
\<close>

subsection \<open>Runes\<close>

definition byte :: "char \<Rightarrow> int" where
  "byte c = int (of_char c)"

definition cont :: "string \<Rightarrow> nat \<Rightarrow> bool" where
  "cont s i \<longleftrightarrow> i < length s \<and> 128 \<le> byte (s ! i) \<and> byte (s ! i) < 192"

definition byte_in :: "string \<Rightarrow> nat \<Rightarrow> int \<Rightarrow> int \<Rightarrow> bool" where
  "byte_in s i lo hi \<longleftrightarrow> i < length s \<and> lo \<le> byte (s ! i) \<and> byte (s ! i) \<le> hi"

definition RuneError :: int where "RuneError = 65533"

text \<open>The first rune of a non-empty string and its width.\<close>

definition DecodeRune :: "string \<Rightarrow> int \<times> nat" where
  "DecodeRune s =
     (let b = (\<lambda>i. byte (s ! i));
          three = (\<lambda>lo hi. if byte_in s 1 lo hi \<and> cont s 2
                     then ((b 0 - 224) * 4096 + (b 1 - 128) * 64 + (b 2 - 128), 3) else (RuneError, 1));
          four = (\<lambda>lo hi. if byte_in s 1 lo hi \<and> cont s 2 \<and> cont s 3
                    then ((b 0 - 240) * 262144 + (b 1 - 128) * 4096 + (b 2 - 128) * 64 + (b 3 - 128), 4) else (RuneError, 1))
      in if b 0 < 128 then (b 0, 1)
         else if 194 \<le> b 0 \<and> b 0 \<le> 223
         then (if cont s 1 then ((b 0 - 192) * 64 + (b 1 - 128), 2) else (RuneError, 1))
         else if b 0 = 224 then three 160 191
         else if b 0 = 237 then three 128 159
         else if 225 \<le> b 0 \<and> b 0 \<le> 239 then three 128 191
         else if b 0 = 240 then four 144 191
         else if 241 \<le> b 0 \<and> b 0 \<le> 243 then four 128 191
         else if b 0 = 244 then four 128 143
         else (RuneError, 1))"

function runes :: "string \<Rightarrow> int list" where
  "runes [] = []"
| "runes (c # s) = (case DecodeRune (c # s) of (r, n) \<Rightarrow> r # runes (drop (n - 1) s))"
  by pat_completeness auto
termination by (relation "measure length") auto

definition RuneCountInString :: "string \<Rightarrow> int" where
  "RuneCountInString s = int (length (runes s))"

lemma RuneCount_le: "RuneCountInString s \<le> int (length s)"
proof -
  have "length (runes s) \<le> length s"
  proof (induction s rule: runes.induct)
    case (2 c s)
    obtain r n where d: "DecodeRune (c # s) = (r, n)" by fastforce
    from 2 [OF d [symmetric]] have "length (runes (drop (n - 1) s)) \<le> length s" by simp
    then show ?case by (simp add: d)
  qed simp
  then show ?thesis by (simp add: RuneCountInString_def)
qed

lemma runes_ascii: "\<forall>c \<in> set s. byte c < 128 \<Longrightarrow> runes s = map byte s"
  by (induction s) (auto simp: DecodeRune_def)

lemma byte_nonneg [simp]: "0 \<le> byte c" "byte c < 256"
proof -
  have "of_char c < (256 :: nat)" by simp
  then show "0 \<le> byte c" "byte c < 256" by (simp_all add: byte_def del: nat_of_char_less_256)
qed

lemma byte_eq_iff: "byte c = byte d \<longleftrightarrow> c = d"
  by (simp add: byte_def)

lemma DecodeRune_ascii: "fst (DecodeRune (c # s)) < 128 \<longleftrightarrow> byte c < 128"
  by (auto simp: DecodeRune_def Let_def RuneError_def cont_def byte_in_def split: if_splits)

lemma runes_ascii_iff: "(\<forall>r \<in> set (runes s). r < 128) \<longleftrightarrow> (\<forall>c \<in> set s. byte c < 128)"
proof
  show "\<forall>r \<in> set (runes s). r < 128 \<Longrightarrow> \<forall>c \<in> set s. byte c < 128"
  proof (induction s rule: runes.induct)
    case (2 c s)
    obtain r n where d: "DecodeRune (c # s) = (r, n)" by fastforce
    with 2(2) have "r < 128" by simp
    then have c: "byte c < 128" using DecodeRune_ascii [of c s] d by simp
    then have "n = 1" using d by (simp add: DecodeRune_def Let_def)
    with 2 d c show ?case by simp
  qed simp
qed (auto simp: runes_ascii)

subsection \<open>Regular expressions\<close>

datatype re = Zero | One | Cls bool "(int \<times> int) list" | Sq re re | Alt re re | Star re

definition in_ranges :: "(int \<times> int) list \<Rightarrow> int \<Rightarrow> bool" where
  "in_ranges rs c \<longleftrightarrow> list_ex (\<lambda>(lo, hi). lo \<le> c \<and> c \<le> hi) rs"

definition in_cls :: "bool \<Rightarrow> (int \<times> int) list \<Rightarrow> int \<Rightarrow> bool" where
  "in_cls neg rs c \<longleftrightarrow> in_ranges rs c \<noteq> neg"

fun nullable :: "re \<Rightarrow> bool" where
  "nullable Zero = False"
| "nullable One = True"
| "nullable (Cls n rs) = False"
| "nullable (Sq r s) = (nullable r \<and> nullable s)"
| "nullable (Alt r s) = (nullable r \<or> nullable s)"
| "nullable (Star r) = True"

fun deriv :: "int \<Rightarrow> re \<Rightarrow> re" where
  "deriv c Zero = Zero"
| "deriv c One = Zero"
| "deriv c (Cls n rs) = (if in_cls n rs c then One else Zero)"
| "deriv c (Sq r s) = (if nullable r then Alt (Sq (deriv c r) s) (deriv c s) else Sq (deriv c r) s)"
| "deriv c (Alt r s) = Alt (deriv c r) (deriv c s)"
| "deriv c (Star r) = Sq (deriv c r) (Star r)"

text \<open>\<^verbatim>\<open>MatchString\<close> of a pattern anchored at both ends.\<close>

fun re_match :: "re \<Rightarrow> int list \<Rightarrow> bool" where
  "re_match r [] = nullable r"
| "re_match r (c # cs) = re_match (deriv c r) cs"

fun repeat :: "nat \<Rightarrow> re \<Rightarrow> re" where
  "repeat 0 r = One"
| "repeat (Suc n) r = Sq r (repeat n r)"

definition at_least :: "nat \<Rightarrow> re \<Rightarrow> re" where
  "at_least n r = Sq (repeat n r) (Star r)"

text \<open>The words of an expression.\<close>

inductive matches :: "re \<Rightarrow> int list \<Rightarrow> bool" where
  m_one: "matches One []"
| m_cls: "in_cls n rs c \<Longrightarrow> matches (Cls n rs) [c]"
| m_seq: "matches r u \<Longrightarrow> matches s v \<Longrightarrow> matches (Sq r s) (u @ v)"
| m_alt1: "matches r u \<Longrightarrow> matches (Alt r s) u"
| m_alt2: "matches s u \<Longrightarrow> matches (Alt r s) u"
| m_star0: "matches (Star r) []"
| m_star1: "matches r u \<Longrightarrow> u \<noteq> [] \<Longrightarrow> matches (Star r) v \<Longrightarrow> matches (Star r) (u @ v)"

inductive_simps matches_simps: "matches Zero w" "matches One w" "matches (Cls n rs) w" "matches (Sq r s) w" "matches (Alt r s) w"
inductive_cases matches_StarE: "matches (Star r) w"

lemma matches_Star_Cons:
  "matches (Star r) (c # w) \<longleftrightarrow> (\<exists>u v. w = u @ v \<and> matches r (c # u) \<and> matches (Star r) v)"
proof
  show "matches (Star r) (c # w) \<Longrightarrow> \<exists>u v. w = u @ v \<and> matches r (c # u) \<and> matches (Star r) v"
    by (erule matches_StarE) (auto simp: Cons_eq_append_conv)
  show "\<exists>u v. w = u @ v \<and> matches r (c # u) \<and> matches (Star r) v \<Longrightarrow> matches (Star r) (c # w)"
    using m_star1 [of r "c # u" v for u v] by auto
qed

lemma matches_Nil: "matches r [] \<longleftrightarrow> nullable r"
  by (induction r) (auto simp: matches_simps intro: m_star0)

lemma matches_Sq_Cons:
  "matches (Sq r s) (c # w) \<longleftrightarrow> nullable r \<and> matches s (c # w) \<or> (\<exists>u v. w = u @ v \<and> matches r (c # u) \<and> matches s v)"
  (is "?L \<longleftrightarrow> ?R")
proof
  assume ?L
  then obtain u v where uv: "c # w = u @ v" "matches r u" "matches s v" by (auto simp: matches_simps)
  then show ?R by (cases u) (auto simp: matches_Nil [symmetric])
next
  assume ?R
  then show ?L using m_seq [of r "[]" s "c # w"] m_seq [of r "c # u" s v for u v] by (auto simp: matches_Nil [symmetric])
qed

lemma matches_Cls_Sq: "matches (Sq (Cls n rs) r) w \<longleftrightarrow> (\<exists>c v. w = c # v \<and> in_cls n rs c \<and> matches r v)"
  by (cases w) (auto simp: matches_Sq_Cons matches_Nil matches_simps(3))

lemma matches_deriv: "matches (deriv c r) w \<longleftrightarrow> matches r (c # w)"
proof (induction r arbitrary: w)
  case (Sq r s)
  have "matches (Sq (deriv c r) s) w \<longleftrightarrow> (\<exists>u v. w = u @ v \<and> matches r (c # u) \<and> matches s v)"
    by (simp add: matches_simps(4) Sq)
  then show ?case by (auto simp: matches_Sq_Cons matches_simps(5) Sq)
next
  case (Star r)
  then show ?case by (auto simp: matches_simps matches_Star_Cons)
qed (auto simp: matches_simps)

lemma re_match_iff: "re_match r w \<longleftrightarrow> matches r w"
  by (induction w arbitrary: r) (simp_all add: matches_Nil matches_deriv)

lemma matches_Star_Cls: "matches (Star (Cls n rs)) w \<longleftrightarrow> list_all (in_cls n rs) w"
proof (induction w)
  case (Cons c w)
  then show ?case by (auto simp: matches_Star_Cons matches_simps)
qed (simp add: m_star0)

lemma matches_repeat_Cls: "matches (repeat k (Cls n rs)) w \<longleftrightarrow> length w = k \<and> list_all (in_cls n rs) w"
proof (induction k arbitrary: w)
  case (Suc k)
  then show ?case by (cases w) (auto simp: matches_Cls_Sq)
qed (auto simp: matches_simps)

lemma matches_at_least_Cls: "matches (at_least k (Cls n rs)) w \<longleftrightarrow> k \<le> length w \<and> list_all (in_cls n rs) w"
proof -
  have "(\<exists>u v. w = u @ v \<and> length u = k \<and> list_all (in_cls n rs) u \<and> list_all (in_cls n rs) v) \<longleftrightarrow>
      k \<le> length w \<and> list_all (in_cls n rs) w"
    (is "?L \<longleftrightarrow> ?R")
  proof
    assume ?R
    then show ?L by (intro exI [of _ "take k w"] exI [of _ "drop k w"]) (auto simp: list_all_iff dest: in_set_takeD in_set_dropD)
  qed auto
  then show ?thesis by (simp add: at_least_def matches_simps matches_repeat_Cls matches_Star_Cls)
qed

subsection \<open>The validator (validator.go)\<close>

record val_Validator =
  v_errors :: "string list"

definition val_New :: val_Validator where "val_New = \<lparr>v_errors = []\<rparr>"

definition HasErrors :: "val_Validator \<Rightarrow> bool" where "HasErrors v \<longleftrightarrow> v_errors v \<noteq> []"

definition Errors :: "val_Validator \<Rightarrow> string list" where "Errors v = v_errors v"

definition addError :: "string \<Rightarrow> string \<Rightarrow> val_Validator \<Rightarrow> val_Validator" where
  "addError field message v = v\<lparr>v_errors := v_errors v @ [field @ '': '' @ message]\<rparr>"

record StringConfig =
  MinLength :: int
  MaxLength :: int
  cfg_Pattern :: string
  cfg_OneOf :: "string list"

type_synonym StringOption = "StringConfig \<Rightarrow> StringConfig"

definition MinLen :: "int \<Rightarrow> StringOption" where "MinLen n cfg = cfg\<lparr>MinLength := n\<rparr>"
definition MaxLen :: "int \<Rightarrow> StringOption" where "MaxLen n cfg = cfg\<lparr>MaxLength := n\<rparr>"
definition Pattern :: "string \<Rightarrow> StringOption" where "Pattern p cfg = cfg\<lparr>cfg_Pattern := p\<rparr>"
definition OneOf :: "string list \<Rightarrow> StringOption" where "OneOf vs cfg = cfg\<lparr>cfg_OneOf := vs\<rparr>"
definition SkipEmpty :: "string \<Rightarrow> StringOption" where "SkipEmpty v cfg = (if v = [] then cfg\<lparr>MaxLength := 0\<rparr> else cfg)"

definition string_config :: "StringOption list \<Rightarrow> StringConfig" where
  "string_config opts = fold (\<lambda>opt cfg. opt cfg) opts \<lparr>MinLength = 0, MaxLength = 10000, cfg_Pattern = [], cfg_OneOf = []\<rparr>"

type_synonym regexps = "string \<Rightarrow> (string \<Rightarrow> bool) option"

definition val_String :: "regexps \<Rightarrow> string \<Rightarrow> string \<Rightarrow> StringOption list \<Rightarrow> val_Validator \<Rightarrow> val_Validator" where
  "val_String compile field value opts v =
     (if value = [] then addError field ''is required'' v
      else (let cfg = string_config opts; len = RuneCountInString value;
                v1 = (if len < MinLength cfg then addError field (''must be at least '' @ itoa (MinLength cfg) @ '' characters'') v else v);
                v2 = (if MaxLength cfg < len then addError field (''must be at most '' @ itoa (MaxLength cfg) @ '' characters'') v1 else v1);
                v3 = (if cfg_Pattern cfg \<noteq> []
                      then (case compile (cfg_Pattern cfg) of
                              Some re \<Rightarrow> if \<not> re value then addError field (''must match pattern '' @ cfg_Pattern cfg) v2 else v2
                            | None \<Rightarrow> v2)
                      else v2)
            in if cfg_OneOf cfg \<noteq> [] \<and> value \<notin> set (cfg_OneOf cfg)
               then addError field (''must be one of: '' @ strings_Join (cfg_OneOf cfg) '', '') v3 else v3))"

definition val_OptionalString :: "regexps \<Rightarrow> string \<Rightarrow> string option \<Rightarrow> StringOption list \<Rightarrow> val_Validator \<Rightarrow> val_Validator" where
  "val_OptionalString compile field value opts v = (case value of None \<Rightarrow> v | Some x \<Rightarrow> val_String compile field x opts v)"

text \<open>The fixed patterns. \<open>lit\<close> is one literal rune; \<^verbatim>\<open>\s\<close> is tab, newline, form feed, return and space.\<close>

definition lit :: "int \<Rightarrow> re" where "lit c = Cls False [(c, c)]"

definition letters :: "(int \<times> int) list" where "letters = [(97, 122), (65, 90)]"
definition digits :: "(int \<times> int) list" where "digits = [(48, 57)]"
definition space_chars :: "(int \<times> int) list" where "space_chars = [(9, 10), (12, 13), (32, 32)]"
definition hex_chars :: "(int \<times> int) list" where "hex_chars = [(48, 57), (97, 102)]"

definition email_re :: re where
  "email_re =
     Sq (at_least 1 (Cls False (letters @ digits @ [(46, 46), (95, 95), (37, 37), (43, 43), (45, 45)])))
       (Sq (lit 64)
         (Sq (at_least 1 (Cls False (letters @ digits @ [(46, 46), (45, 45)])))
           (Sq (lit 46) (at_least 2 (Cls False letters)))))"

definition uuid_re :: re where
  "uuid_re =
     (let hex = Cls False hex_chars
      in Sq (repeat 8 hex) (Sq (lit 45) (Sq (repeat 4 hex) (Sq (lit 45)
           (Sq (Sq (Cls False [(49, 56)]) (repeat 3 hex)) (Sq (lit 45)
             (Sq (Sq (Cls False [(56, 57), (97, 98)]) (repeat 3 hex)) (Sq (lit 45) (repeat 12 hex)))))))))"

definition url_re :: re where
  "url_re =
     Sq (lit 104) (Sq (lit 116) (Sq (lit 116) (Sq (lit 112) (Sq (Alt One (lit 115)) (Sq (lit 58) (Sq (lit 47) (Sq (lit 47)
       (Sq (Cls True (space_chars @ [(47, 47), (36, 36), (46, 46), (63, 63), (35, 35)]))
         (Sq (Cls True [(10, 10)]) (Star (Cls True space_chars)))))))))))"

definition phone_re :: re where
  "phone_re = at_least 10 (Cls False (digits @ space_chars @ [(45, 45), (43, 43), (40, 40), (41, 41)]))"

definition checked :: "string \<Rightarrow> string \<Rightarrow> string \<Rightarrow> bool \<Rightarrow> val_Validator \<Rightarrow> val_Validator" where
  "checked field value message matched v =
     (if value = [] then addError field ''is required'' v else if \<not> matched then addError field message v else v)"

definition val_Email :: "string \<Rightarrow> string \<Rightarrow> val_Validator \<Rightarrow> val_Validator" where
  "val_Email field value v = checked field value ''must be a valid email address'' (re_match email_re (runes value)) v"

definition val_UUID :: "string \<Rightarrow> string \<Rightarrow> val_Validator \<Rightarrow> val_Validator" where
  "val_UUID field value v = checked field value ''must be a valid UUID'' (re_match uuid_re (runes (ToLower value))) v"

definition val_URL :: "string \<Rightarrow> string \<Rightarrow> val_Validator \<Rightarrow> val_Validator" where
  "val_URL field value v = checked field value ''must be a valid URL'' (re_match url_re (runes value)) v"

definition val_Phone :: "string \<Rightarrow> string \<Rightarrow> val_Validator \<Rightarrow> val_Validator" where
  "val_Phone field value v =
     checked field value ''must be a valid phone number'' (re_match phone_re (runes (filter (\<lambda>c. c \<noteq> CHR '' '') value))) v"

record IntConfig =
  MinValue :: int
  MaxValue :: int

type_synonym IntOption = "IntConfig \<Rightarrow> IntConfig"

definition Min_opt :: "int \<Rightarrow> IntOption" where "Min_opt n cfg = cfg\<lparr>MinValue := n\<rparr>"
definition Max_opt :: "int \<Rightarrow> IntOption" where "Max_opt n cfg = cfg\<lparr>MaxValue := n\<rparr>"

definition int_config :: "IntOption list \<Rightarrow> IntConfig" where
  "int_config opts = fold (\<lambda>opt cfg. opt cfg) opts \<lparr>MinValue = - 999999999, MaxValue = 999999999\<rparr>"

definition val_Integer :: "string \<Rightarrow> int \<Rightarrow> IntOption list \<Rightarrow> val_Validator \<Rightarrow> val_Validator" where
  "val_Integer field value opts v =
     (let cfg = int_config opts;
          v1 = (if value < MinValue cfg then addError field (''must be at least '' @ itoa (MinValue cfg)) v else v)
      in if MaxValue cfg < value then addError field (''must be at most '' @ itoa (MaxValue cfg)) v1 else v1)"

definition val_NonEmpty :: "string \<Rightarrow> int \<Rightarrow> val_Validator \<Rightarrow> val_Validator" where
  "val_NonEmpty field len v = (if len = 0 then addError field ''must not be empty'' v else v)"

definition val_Custom :: "string \<Rightarrow> bool \<Rightarrow> string \<Rightarrow> val_Validator \<Rightarrow> val_Validator" where
  "val_Custom field condition message v = (if condition then addError field message v else v)"

definition val_Boolean :: "string \<Rightarrow> bool option \<Rightarrow> val_Validator \<Rightarrow> val_Validator" where
  "val_Boolean field value v = (if value = None then addError field ''is required'' v else v)"

subsection \<open>Requests (request.go)\<close>

text \<open>
  Both functions return the request beside the error. \<open>decode\<close> is the JSON decoder with the value it leaves in the variable, filled in part when it
  fails; the validator function gets a pointer, so it may change the request.
\<close>

definition ValidateRequest ::
  "(string \<Rightarrow> 't \<times> goerr option) \<Rightarrow> string \<Rightarrow> ('t \<Rightarrow> 't \<times> val_Validator) \<Rightarrow> 't \<times> goerr option" where
  "ValidateRequest decode body validatorFunc =
     (case decode body of
        (req, Some _) \<Rightarrow> (req, Some (NewValidation ''invalid request body'' []))
      | (req, None) \<Rightarrow>
          (case validatorFunc req of
             (req1, validator) \<Rightarrow>
               if HasErrors validator then (req1, Some (NewValidation ''validation failed'' (Errors validator))) else (req1, None)))"

definition ValidateRawRequest :: "'t \<Rightarrow> (string \<Rightarrow> 't \<times> goerr option) \<Rightarrow> goerr + string \<Rightarrow> 't \<times> goerr option" where
  "ValidateRawRequest zero unmarshal read =
     (case read of
        Inl _ \<Rightarrow> (zero, Some (NewValidation ''failed to read request body'' []))
      | Inr body \<Rightarrow>
          (case unmarshal body of (req, Some _) \<Rightarrow> (req, Some (NewValidation ''invalid request body'' [])) | (req, None) \<Rightarrow> (req, None)))"

text \<open>\<^verbatim>\<open>r.URL.Query().Get\<close> of the raw query, and \<^verbatim>\<open>r.Header.Get\<close> with the canonical form of a name the caller chose.\<close>

definition ValidateQueryParam :: "string \<Rightarrow> string \<Rightarrow> goerr + string" where
  "ValidateQueryParam rawQuery paramName =
     (let value = values_Get (url_Query rawQuery) paramName
      in if value = [] then Inl (NewValidation (''missing required query parameter: '' @ paramName) []) else Inr value)"

definition upper_char :: "char \<Rightarrow> char" where
  "upper_char c = (if 97 \<le> byte c \<and> byte c \<le> 122 then char_of (of_char c - 32 :: nat) else c)"

definition token_char :: "char \<Rightarrow> bool" where
  "token_char c \<longleftrightarrow> in_ranges letters (byte c) \<or> is_digit c \<or> c \<in> set (''!#$%&*+-.^_|~'' @ [CHR 0x27, CHR 0x60])"

fun canonical_words :: "bool \<Rightarrow> string \<Rightarrow> string" where
  "canonical_words upper [] = []"
| "canonical_words upper (c # cs) = (if upper then upper_char c else lower_char c) # canonical_words (c = CHR ''-'') cs"

definition CanonicalHeaderKey :: "string \<Rightarrow> string" where
  "CanonicalHeaderKey s = (if list_all token_char s then canonical_words True s else s)"

definition ValidateHeaderParam :: "request \<Rightarrow> string \<Rightarrow> goerr + string" where
  "ValidateHeaderParam r headerName =
     (let value = hdr_Get (r_Header r) (CanonicalHeaderKey headerName)
      in if value = [] then Inl (NewValidation (''missing required header: '' @ headerName) []) else Inr value)"

subsection \<open>The UUID pattern\<close>

text \<open>The canonical text of the 16 bytes of a UUID, and the UUIDs of a version from 1 to 8 and the RFC 9562 variant.\<close>

definition uuid_string :: "string \<Rightarrow> string" where
  "uuid_string bs =
     strings_Join (map hex_EncodeToString
       [take 4 bs, take 2 (drop 4 bs), take 2 (drop 6 bs), take 2 (drop 8 bs), drop 10 bs]) ''-''"

definition rfc_uuid :: "string \<Rightarrow> bool" where
  "rfc_uuid bs \<longleftrightarrow> length bs = 16 \<and> of_char (bs ! 6) div 16 \<in> {1..8 :: nat} \<and> of_char (bs ! 8) div 64 = (2 :: nat)"

definition hexc :: "nat \<Rightarrow> int" where "hexc n = byte (hex_digit n)"

lemma hexc_simps: "n < 16 \<Longrightarrow> hexc n = (if n < 10 then 48 + int n else 87 + int n)"
  by (simp add: hexc_def hex_digit_def byte_def)

lemma hex_cls: "in_cls False hex_chars x \<longleftrightarrow> (\<exists>n < 16. x = hexc n)"
proof
  assume "in_cls False hex_chars x"
  then have "(48 \<le> x \<and> x \<le> 57) \<or> (97 \<le> x \<and> x \<le> 102)" by (simp add: in_cls_def in_ranges_def hex_chars_def)
  then have "nat (if x < 58 then x - 48 else x - 87) < 16 \<and> x = hexc (nat (if x < 58 then x - 48 else x - 87))"
    by (auto simp: hexc_simps)
  then show "\<exists>n < 16. x = hexc n" by blast
qed (auto simp: hexc_simps in_cls_def in_ranges_def hex_chars_def split: if_splits)

lemma div_less_16: "of_char (c :: char) div 16 < (16 :: nat)"
  using nat_of_char_less_256 [of c] by simp

lemma hex_pair: "in_cls False hex_chars x \<and> in_cls False hex_chars y \<longleftrightarrow> (\<exists>c. x = hexc (of_char c div 16) \<and> y = hexc (of_char c mod 16))"
proof
  assume "in_cls False hex_chars x \<and> in_cls False hex_chars y"
  then obtain n m where "n < 16" "m < 16" "x = hexc n" "y = hexc m" by (auto simp: hex_cls)
  then have "x = hexc (of_char (char_of (16 * n + m) :: char) div 16) \<and> y = hexc (of_char (char_of (16 * n + m) :: char) mod 16)" by simp
  then show "\<exists>c. x = hexc (of_char c div 16) \<and> y = hexc (of_char c mod 16)" by blast
next
  assume "\<exists>c. x = hexc (of_char c div 16) \<and> y = hexc (of_char c mod 16)"
  then obtain c where c: "x = hexc (of_char c div 16)" "y = hexc (of_char c mod 16)" by blast
  have "of_char c mod 16 < (16 :: nat)" by simp
  then show "in_cls False hex_chars x \<and> in_cls False hex_chars y" unfolding hex_cls c using div_less_16 [of c] by blast
qed

definition hexs :: "string \<Rightarrow> int list" where "hexs bs = map byte (hex_EncodeToString bs)"

lemma hexs_simps [simp]: "hexs [] = []" "hexs (c # cs) = hexc (of_char c div 16) # hexc (of_char c mod 16) # hexs cs"
  by (simp_all add: hexs_def hexc_def)

lemma matches_hex: "matches (repeat (2 * k) (Cls False hex_chars)) w \<longleftrightarrow> (\<exists>bs. length bs = k \<and> w = hexs bs)"
proof (induction k arbitrary: w)
  case 0
  then show ?case by (simp add: matches_simps)
next
  case (Suc k)
  have "matches (repeat (2 * Suc k) (Cls False hex_chars)) w \<longleftrightarrow>
      (\<exists>x y v. w = x # y # v \<and> (in_cls False hex_chars x \<and> in_cls False hex_chars y) \<and> (\<exists>bs. length bs = k \<and> v = hexs bs))"
    by (auto simp: matches_Cls_Sq Suc)
  also have "\<dots> \<longleftrightarrow> (\<exists>c bs. length bs = k \<and> w = hexs (c # bs))" by (auto simp: hex_pair)
  also have "\<dots> \<longleftrightarrow> (\<exists>bs. length bs = Suc k \<and> w = hexs bs)" by (metis length_Suc_conv)
  finally show ?case .
qed

text \<open>The first digit of the third group is the version, that of the fourth has the variant.\<close>

lemma marked_group:
  assumes cls: "\<And>n. n < 16 \<Longrightarrow> in_cls False rs (hexc n) \<longleftrightarrow> P n" and hex: "\<And>x. in_cls False rs x \<Longrightarrow> in_cls False hex_chars x"
  shows "matches (Sq (Cls False rs) (repeat 3 (Cls False hex_chars))) w \<longleftrightarrow> (\<exists>c d. w = hexs [c, d] \<and> P (of_char c div 16))"
  (is "?L \<longleftrightarrow> ?R")
proof -
  have 3: "repeat 3 (Cls False hex_chars) = Sq (Cls False hex_chars) (repeat (2 * 1) (Cls False hex_chars))"
    by (simp add: numeral_3_eq_3 numeral_2_eq_2)
  have 1: "(\<exists>bs. length bs = 1 \<and> u = hexs bs) \<longleftrightarrow> (\<exists>d. u = hexs [d])" for u
    by (metis One_nat_def length_0_conv length_Suc_conv)
  have "?L \<longleftrightarrow> (\<exists>x y d. w = x # y # hexs [d] \<and> in_cls False rs x \<and> (in_cls False hex_chars x \<and> in_cls False hex_chars y))"
    using hex unfolding 3 matches_Cls_Sq matches_hex 1 by blast
  also have "\<dots> \<longleftrightarrow> ?R" unfolding hex_pair using cls div_less_16 by auto
  finally show ?thesis .
qed

lemma version_group:
  "matches (Sq (Cls False [(49, 56)]) (repeat 3 (Cls False hex_chars))) w \<longleftrightarrow>
     (\<exists>c d. w = hexs [c, d] \<and> of_char c div 16 \<in> {1..8 :: nat})"
  by (rule marked_group) (auto simp: in_cls_def in_ranges_def hexc_simps hex_chars_def)

lemma variant_group:
  "matches (Sq (Cls False [(56, 57), (97, 98)]) (repeat 3 (Cls False hex_chars))) w \<longleftrightarrow>
     (\<exists>c d. w = hexs [c, d] \<and> of_char c div 64 = (2 :: nat))"
proof -
  have "in_cls False [(56, 57), (97, 98)] (hexc n) \<longleftrightarrow> n div 4 = 2" if "n < 16" for n
    using that by (auto simp: in_cls_def in_ranges_def hexc_simps split: if_splits)
  then have "matches (Sq (Cls False [(56, 57), (97, 98)]) (repeat 3 (Cls False hex_chars))) w \<longleftrightarrow>
     (\<exists>c d. w = hexs [c, d] \<and> of_char c div 16 div 4 = (2 :: nat))"
    by (rule marked_group) (auto simp: in_cls_def in_ranges_def hex_chars_def)
  then show ?thesis by (simp only: div_mult2_eq [symmetric]) simp
qed

lemma matches_until_lit: "matches (Sq r (Sq (lit c) s)) w \<longleftrightarrow> (\<exists>u v. w = u @ c # v \<and> matches r u \<and> matches s v)"
proof -
  have "in_cls False [(c, c)] x \<longleftrightarrow> x = c" for x by (auto simp: in_cls_def in_ranges_def)
  then show ?thesis by (auto simp: lit_def matches_Cls_Sq matches_simps(4) [of r])
qed

lemma hexs_uuid_string:
  "map byte (uuid_string bs) =
     hexs (take 4 bs) @ 45 # hexs (take 2 (drop 4 bs)) @ 45 # hexs (take 2 (drop 6 bs)) @ 45 # hexs (take 2 (drop 8 bs)) @ 45 # hexs (drop 10 bs)"
  by (simp add: uuid_string_def hexs_def byte_def)

lemma uuid_groups:
  "matches uuid_re w \<longleftrightarrow> (\<exists>a b c1 c2 d1 d2 e. w = hexs a @ 45 # hexs b @ 45 # hexs [c1, c2] @ 45 # hexs [d1, d2] @ 45 # hexs e \<and>
     length a = 4 \<and> length b = 2 \<and> length e = 6 \<and> of_char c1 div 16 \<in> {1..8 :: nat} \<and> of_char d1 div 64 = (2 :: nat))"
proof -
  have even: "repeat 8 = repeat (2 * 4)" "repeat 4 = repeat (2 * 2)" "repeat 12 = repeat (2 * 6)" by simp_all
  show ?thesis
    unfolding uuid_re_def Let_def matches_until_lit version_group variant_group even matches_hex by blast
qed

lemma uuid_words: "matches uuid_re w \<longleftrightarrow> (\<exists>bs. rfc_uuid bs \<and> w = map byte (uuid_string bs))"
proof
  assume "matches uuid_re w"
  then obtain a b c1 c2 d1 d2 e where w: "w = hexs a @ 45 # hexs b @ 45 # hexs [c1, c2] @ 45 # hexs [d1, d2] @ 45 # hexs e"
    and len: "length a = 4" "length b = 2" "length e = 6"
    and mark: "of_char c1 div 16 \<in> {1..8 :: nat}" "of_char d1 div 64 = (2 :: nat)"
    unfolding uuid_groups by blast
  define bs where "bs = a @ b @ [c1, c2] @ [d1, d2] @ e"
  have "rfc_uuid bs" using len mark by (simp add: rfc_uuid_def bs_def nth_append)
  moreover have "w = map byte (uuid_string bs)" using len by (simp add: hexs_uuid_string bs_def w)
  ultimately show "\<exists>bs. rfc_uuid bs \<and> w = map byte (uuid_string bs)" by blast
next
  assume "\<exists>bs. rfc_uuid bs \<and> w = map byte (uuid_string bs)"
  then obtain bs where bs: "rfc_uuid bs" and w: "w = map byte (uuid_string bs)" by blast
  have two: "take 2 (drop n bs) = [bs ! n, bs ! Suc n]" if "Suc n < length bs" for n
    using that by (simp add: numeral_2_eq_2 take_Suc_conv_app_nth drop_Suc nth_append hd_drop_conv_nth nth_tl flip: Cons_nth_drop_Suc)
  have len: "length bs = 16" and mark: "of_char (bs ! 6) div 16 \<in> {1..8 :: nat}" "of_char (bs ! 8) div 64 = (2 :: nat)"
    using bs by (simp_all add: rfc_uuid_def)
  have 68: "take 2 (drop 6 bs) = [bs ! 6, bs ! 7]" "take 2 (drop 8 bs) = [bs ! 8, bs ! 9]"
    using two [of 6] two [of 8] len by simp_all
  have lens: "length (take 4 bs) = 4" "length (take 2 (drop 4 bs)) = 2" "length (drop 10 bs) = 6" using len by simp_all
  show "matches uuid_re w"
    unfolding uuid_groups w hexs_uuid_string 68 using lens mark by blast
qed

lemma uuid_string_ascii: "c \<in> set (uuid_string bs) \<Longrightarrow> byte c < 128"
proof -
  assume c: "c \<in> set (uuid_string bs)"
  have "x < 128" if "x \<in> set (hexs cs)" for x cs
  proof -
    have "hexc n < 128" if "n < 16" for n using that by (simp add: hexc_simps)
    with that div_less_16 show ?thesis by (induction cs) auto
  qed
  then have "x < 128" if "x \<in> set (map byte (uuid_string bs))" for x
    using that unfolding hexs_uuid_string by auto
  then show ?thesis using c by simp
qed

lemma uuid_pattern_iff: "re_match uuid_re (runes s) \<longleftrightarrow> (\<exists>bs. rfc_uuid bs \<and> s = uuid_string bs)"
proof
  assume "re_match uuid_re (runes s)"
  then obtain bs where bs: "rfc_uuid bs" "runes s = map byte (uuid_string bs)" by (auto simp: re_match_iff uuid_words)
  then have "\<forall>r \<in> set (runes s). r < 128" using uuid_string_ascii by auto
  then have "runes s = map byte s" by (simp only: runes_ascii_iff runes_ascii)
  then have "s = uuid_string bs" using bs by (metis byte_eq_iff injI inj_map_eq_map)
  with bs show "\<exists>bs. rfc_uuid bs \<and> s = uuid_string bs" by blast
next
  assume "\<exists>bs. rfc_uuid bs \<and> s = uuid_string bs"
  then show "re_match uuid_re (runes s)" by (auto simp: re_match_iff uuid_words runes_ascii uuid_string_ascii)
qed

lemma v_errors_addError [simp]: "v_errors (addError field m v) = v_errors v @ [field @ '': '' @ m]"
  by (simp add: addError_def)

text \<open>
  The UUID check accepts exactly the UUIDs: a value passes if and only if, up to letter case, it is the
  canonical text of 16 bytes with a version from 1 to 8 and the RFC variant; otherwise one message for the field is
  added. No other string passes, in particular none with non-ASCII characters or invalid UTF-8.
\<close>

theorem uuid_check_exact:
  "Errors (val_UUID field value v) =
     Errors v @ (if value = [] then [field @ '': is required'']
                 else if \<exists>bs. rfc_uuid bs \<and> ToLower value = uuid_string bs then [] else [field @ '': must be a valid UUID''])"
  by (auto simp: val_UUID_def checked_def Errors_def uuid_pattern_iff)

subsection \<open>The words of the other patterns\<close>

lemma lit_iff [simp]: "in_cls False [(c, c)] x \<longleftrightarrow> x = c"
  by (auto simp: in_cls_def in_ranges_def)

lemma matches_lit: "matches (Sq (lit c) r) w \<longleftrightarrow> (\<exists>v. w = c # v \<and> matches r v)"
  by (simp add: lit_def matches_Cls_Sq)

definition letter :: "int \<Rightarrow> bool" where "letter c \<longleftrightarrow> c \<in> {97..122} \<union> {65..90}"
definition digit :: "int \<Rightarrow> bool" where "digit c \<longleftrightarrow> c \<in> {48..57}"
definition white :: "int \<Rightarrow> bool" where "white c \<longleftrightarrow> c \<in> {9, 10, 12, 13, 32}"

text \<open>A local part, an at sign, a domain, a dot and a top-level domain of at least two letters.\<close>

definition email_address :: "int list \<Rightarrow> bool" where
  "email_address w \<longleftrightarrow> (\<exists>l d t. w = l @ 64 # d @ 46 # t \<and> l \<noteq> [] \<and> d \<noteq> [] \<and> 2 \<le> length t \<and>
     list_all (\<lambda>c. letter c \<or> digit c \<or> c \<in> {46, 95, 37, 43, 45}) l \<and> list_all (\<lambda>c. letter c \<or> digit c \<or> c \<in> {46, 45}) d \<and> list_all letter t)"

text \<open>At least ten digits, blanks and signs of a phone number.\<close>

definition phone_number :: "int list \<Rightarrow> bool" where
  "phone_number w \<longleftrightarrow> 10 \<le> length w \<and> list_all (\<lambda>c. digit c \<or> white c \<or> c \<in> {45, 43, 40, 41}) w"

text \<open>http or https, a colon and two slashes, a first character of a host, another that is no newline, and no blanks.\<close>

definition web_address :: "int list \<Rightarrow> bool" where
  "web_address w \<longleftrightarrow> (\<exists>p c d v. w = [104, 116, 116, 112] @ p @ [58, 47, 47] @ c # d # v \<and> p \<in> {[], [115]} \<and>
     \<not> white c \<and> c \<notin> {47, 36, 46, 63, 35} \<and> d \<noteq> 10 \<and> list_all (\<lambda>x. \<not> white x) v)"

lemma in_ranges_simps:
  "in_ranges (xs @ ys) c \<longleftrightarrow> in_ranges xs c \<or> in_ranges ys c" "in_ranges [] c \<longleftrightarrow> False" "in_ranges ((x, x) # xs) c \<longleftrightarrow> c = x \<or> in_ranges xs c"
  "in_ranges letters c \<longleftrightarrow> letter c" "in_ranges digits c \<longleftrightarrow> digit c" "in_ranges space_chars c \<longleftrightarrow> white c"
proof -
  show "in_ranges space_chars c \<longleftrightarrow> white c" unfolding space_chars_def in_ranges_def white_def by simp presburger
qed (auto simp: in_ranges_def letters_def letter_def digits_def digit_def)

lemma cls_simps:
  "in_cls False (letters @ digits @ [(46, 46), (95, 95), (37, 37), (43, 43), (45, 45)]) c \<longleftrightarrow> letter c \<or> digit c \<or> c \<in> {46, 95, 37, 43, 45}"
  "in_cls False (letters @ digits @ [(46, 46), (45, 45)]) c \<longleftrightarrow> letter c \<or> digit c \<or> c \<in> {46, 45}"
  "in_cls False letters c \<longleftrightarrow> letter c"
  "in_cls False (digits @ space_chars @ [(45, 45), (43, 43), (40, 40), (41, 41)]) c \<longleftrightarrow> digit c \<or> white c \<or> c \<in> {45, 43, 40, 41}"
  "in_cls True (space_chars @ [(47, 47), (36, 36), (46, 46), (63, 63), (35, 35)]) c \<longleftrightarrow> \<not> white c \<and> c \<notin> {47, 36, 46, 63, 35}"
  "in_cls True space_chars c \<longleftrightarrow> \<not> white c" "in_cls True [(10, 10)] c \<longleftrightarrow> c \<noteq> 10"
  by (simp_all add: in_cls_def in_ranges_simps)

lemma matches_run:
  "matches (Sq (at_least k (Cls n rs)) r) w \<longleftrightarrow> (\<exists>u v. w = u @ v \<and> k \<le> length u \<and> list_all (in_cls n rs) u \<and> matches r v)"
  by (simp add: matches_simps(4) matches_at_least_Cls conj_assoc)

lemma email_words: "matches email_re w \<longleftrightarrow> email_address w"
  unfolding email_re_def email_address_def matches_run matches_lit matches_at_least_Cls cls_simps
  by (simp add: Suc_le_eq) blast

lemma phone_words: "matches phone_re w \<longleftrightarrow> phone_number w"
  unfolding phone_re_def phone_number_def matches_at_least_Cls cls_simps ..

lemma url_words: "matches url_re w \<longleftrightarrow> web_address w"
proof -
  have s: "matches (Sq (Alt One (lit 115)) r) w \<longleftrightarrow> (\<exists>p v. w = p @ v \<and> p \<in> {[], [115]} \<and> matches r v)" for r w
    by (auto simp: matches_simps lit_def)
  have h: "matches (Sq (lit 104) (Sq (lit 116) (Sq (lit 116) (Sq (lit 112) r)))) w \<longleftrightarrow> (\<exists>v. w = [104, 116, 116, 112] @ v \<and> matches r v)" for r w
    unfolding matches_lit by auto
  have c: "matches (Sq (lit 58) (Sq (lit 47) (Sq (lit 47) r))) w \<longleftrightarrow> (\<exists>v. w = [58, 47, 47] @ v \<and> matches r v)" for r w
    unfolding matches_lit by auto
  have t: "matches (Sq (Cls True (space_chars @ [(47, 47), (36, 36), (46, 46), (63, 63), (35, 35)])) (Sq (Cls True [(10, 10)]) (Star (Cls True space_chars)))) w \<longleftrightarrow>
      (\<exists>c d u. w = c # d # u \<and> \<not> white c \<and> c \<notin> {47, 36, 46, 63, 35} \<and> d \<noteq> 10 \<and> list_all (\<lambda>x. \<not> white x) u)" for w
    unfolding matches_Cls_Sq matches_Star_Cls cls_simps by blast
  show ?thesis unfolding url_re_def web_address_def h s c t by blast
qed

subsection \<open>Schemas\<close>

text \<open>
  The body of a validator function is a chain of checks on the fields of the request, with rules for strings and integers; of two rules of one kind the last
  counts. \<open>conforms\<close> says what a field has to be. \<^verbatim>\<open>SkipEmpty\<close> is not among the rules: it does not do what it is for (below).
\<close>

datatype string_rule = AtLeast int | AtMost int | Like string | Among "string list"
datatype int_rule = NotBelow int | NotAbove int

fun string_option :: "string_rule \<Rightarrow> StringOption" where
  "string_option (AtLeast n) = MinLen n"
| "string_option (AtMost n) = MaxLen n"
| "string_option (Like p) = Pattern p"
| "string_option (Among vs) = OneOf vs"

fun int_option :: "int_rule \<Rightarrow> IntOption" where
  "int_option (NotBelow n) = Min_opt n"
| "int_option (NotAbove n) = Max_opt n"

datatype field_check =
    CString string string "string_rule list"
  | COptionalString string "string option" "string_rule list"
  | CEmail string string
  | CUUID string string
  | CURL string string
  | CPhone string string
  | CInteger string int "int_rule list"
  | CNonEmpty string int
  | CCustom string bool string
  | CBoolean string "bool option"

fun run_check :: "regexps \<Rightarrow> field_check \<Rightarrow> val_Validator \<Rightarrow> val_Validator" where
  "run_check compile (CString f x rs) = val_String compile f x (map string_option rs)"
| "run_check compile (COptionalString f x rs) = val_OptionalString compile f x (map string_option rs)"
| "run_check compile (CEmail f x) = val_Email f x"
| "run_check compile (CUUID f x) = val_UUID f x"
| "run_check compile (CURL f x) = val_URL f x"
| "run_check compile (CPhone f x) = val_Phone f x"
| "run_check compile (CInteger f x rs) = val_Integer f x (map int_option rs)"
| "run_check compile (CNonEmpty f n) = val_NonEmpty f n"
| "run_check compile (CCustom f bad m) = val_Custom f bad m"
| "run_check compile (CBoolean f b) = val_Boolean f b"

fun check_field :: "field_check \<Rightarrow> string" where
  "check_field (CString f x rs) = f"
| "check_field (COptionalString f x rs) = f"
| "check_field (CEmail f x) = f"
| "check_field (CUUID f x) = f"
| "check_field (CURL f x) = f"
| "check_field (CPhone f x) = f"
| "check_field (CInteger f x rs) = f"
| "check_field (CNonEmpty f n) = f"
| "check_field (CCustom f bad m) = f"
| "check_field (CBoolean f b) = f"

text \<open>A rule of its kind that no later one of the same kind replaces.\<close>

fun same_kind :: "string_rule \<Rightarrow> string_rule \<Rightarrow> bool" where
  "same_kind (AtLeast _) (AtLeast _) = True"
| "same_kind (AtMost _) (AtMost _) = True"
| "same_kind (Like _) (Like _) = True"
| "same_kind (Among _) (Among _) = True"
| "same_kind _ _ = False"

fun same_bound :: "int_rule \<Rightarrow> int_rule \<Rightarrow> bool" where
  "same_bound (NotBelow _) (NotBelow _) = True"
| "same_bound (NotAbove _) (NotAbove _) = True"
| "same_bound _ _ = False"

fun in_force :: "('r \<Rightarrow> 'r \<Rightarrow> bool) \<Rightarrow> 'r list \<Rightarrow> 'r list" where
  "in_force same [] = []"
| "in_force same (r # rs) = (if list_ex (same r) rs then in_force same rs else r # in_force same rs)"

fun obeys :: "regexps \<Rightarrow> string \<Rightarrow> string_rule \<Rightarrow> bool" where
  "obeys compile x (AtLeast n) \<longleftrightarrow> n \<le> RuneCountInString x"
| "obeys compile x (AtMost n) \<longleftrightarrow> RuneCountInString x \<le> n"
| "obeys compile x (Like p) \<longleftrightarrow> (\<forall>re. p \<noteq> [] \<and> compile p = Some re \<longrightarrow> re x)"
| "obeys compile x (Among vs) \<longleftrightarrow> vs = [] \<or> x \<in> set vs"

fun within :: "int \<Rightarrow> int_rule \<Rightarrow> bool" where
  "within x (NotBelow n) \<longleftrightarrow> n \<le> x"
| "within x (NotAbove n) \<longleftrightarrow> x \<le> n"

definition string_conforms :: "regexps \<Rightarrow> string_rule list \<Rightarrow> string \<Rightarrow> bool" where
  "string_conforms compile rs x \<longleftrightarrow> x \<noteq> [] \<and> list_all (obeys compile x) (in_force same_kind (AtMost 10000 # rs))"

fun conforms :: "regexps \<Rightarrow> field_check \<Rightarrow> bool" where
  "conforms compile (CString f x rs) = string_conforms compile rs x"
| "conforms compile (COptionalString f x rs) = (\<forall>y. x = Some y \<longrightarrow> string_conforms compile rs y)"
| "conforms compile (CEmail f x) = email_address (runes x)"
| "conforms compile (CUUID f x) = (\<exists>bs. rfc_uuid bs \<and> ToLower x = uuid_string bs)"
| "conforms compile (CURL f x) = web_address (runes x)"
| "conforms compile (CPhone f x) = phone_number (runes (filter (\<lambda>c. c \<noteq> CHR '' '') x))"
| "conforms compile (CInteger f x rs) = list_all (within x) (in_force same_bound (NotBelow (- 999999999) # NotAbove 999999999 # rs))"
| "conforms compile (CNonEmpty f n) = (n \<noteq> 0)"
| "conforms compile (CCustom f bad m) = (\<not> bad)"
| "conforms compile (CBoolean f b) = (b \<noteq> None)"

definition problems :: "regexps \<Rightarrow> field_check \<Rightarrow> string list" where
  "problems compile c = Errors (run_check compile c val_New)"

lemmas check_defs = val_String_def val_OptionalString_def val_Email_def val_UUID_def val_URL_def val_Phone_def
  val_Integer_def val_NonEmpty_def val_Custom_def val_Boolean_def checked_def

lemma run_check_problems: "Errors (run_check compile c v) = Errors v @ problems compile c"
  by (cases c) (auto simp: check_defs problems_def Errors_def val_New_def Let_def split: option.splits)

lemma patterns_not_empty: "\<not> nullable email_re" "\<not> nullable url_re" "\<not> nullable phone_re" "\<not> nullable uuid_re"
  by (simp_all add: email_re_def url_re_def phone_re_def uuid_re_def at_least_def lit_def eval_nat_numeral Let_def)

text \<open>The configuration the options build means the rules in force.\<close>

definition config_allows :: "regexps \<Rightarrow> StringConfig \<Rightarrow> string \<Rightarrow> bool" where
  "config_allows compile cfg x \<longleftrightarrow> obeys compile x (AtLeast (MinLength cfg)) \<and> obeys compile x (AtMost (MaxLength cfg)) \<and>
     obeys compile x (Like (cfg_Pattern cfg)) \<and> obeys compile x (Among (cfg_OneOf cfg))"

lemma options_allow:
  "config_allows compile (fold (\<lambda>opt cfg. opt cfg) (map string_option rs) cfg) x \<longleftrightarrow>
     list_all (obeys compile x)
       (in_force same_kind (AtLeast (MinLength cfg) # AtMost (MaxLength cfg) # Like (cfg_Pattern cfg) # Among (cfg_OneOf cfg) # rs))"
proof (induction rs arbitrary: cfg)
  case Nil
  then show ?case by (simp add: config_allows_def)
next
  case (Cons r rs)
  show ?case
    by (cases r) (auto simp: Cons.IH MinLen_def MaxLen_def Pattern_def OneOf_def)
qed

lemma defaults_allow:
  "config_allows compile (string_config (map string_option rs)) x \<longleftrightarrow> list_all (obeys compile x) (in_force same_kind (AtMost 10000 # rs))"
proof -
  have c: "0 \<le> RuneCountInString x" by (simp add: RuneCountInString_def)
  then show ?thesis unfolding string_config_def options_allow by (auto split: if_splits)
qed

lemma int_options_allow:
  "(let cfg' = fold (\<lambda>opt cfg. opt cfg) (map int_option rs) cfg in MinValue cfg' \<le> x \<and> x \<le> MaxValue cfg') \<longleftrightarrow>
     list_all (within x) (in_force same_bound (NotBelow (MinValue cfg) # NotAbove (MaxValue cfg) # rs))"
proof (induction rs arbitrary: cfg)
  case (Cons r rs)
  show ?case by (cases r) (use Cons.IH in \<open>auto simp: Let_def Min_opt_def Max_opt_def\<close>)
qed simp

lemma val_String_problems:
  "Errors (val_String compile f x opts val_New) = [] \<longleftrightarrow> x \<noteq> [] \<and> config_allows compile (string_config opts) x"
  by (auto simp: val_String_def config_allows_def Errors_def val_New_def addError_def Let_def split: option.splits)

lemma problems_iff: "problems compile c = [] \<longleftrightarrow> conforms compile c"
proof (cases c)
  case (CString f x rs)
  then show ?thesis by (simp add: problems_def val_String_problems defaults_allow string_conforms_def)
next
  case (COptionalString f x rs)
  then show ?thesis
    by (cases x) (simp_all add: problems_def val_OptionalString_def val_String_problems defaults_allow string_conforms_def, simp add: Errors_def val_New_def)
next
  case (CInteger f x rs)
  have "problems compile c = [] \<longleftrightarrow> MinValue (int_config (map int_option rs)) \<le> x \<and> x \<le> MaxValue (int_config (map int_option rs))"
    using CInteger by (auto simp: problems_def val_Integer_def Errors_def val_New_def addError_def Let_def)
  then show ?thesis using int_options_allow [of rs "\<lparr>MinValue = - 999999999, MaxValue = 999999999\<rparr>" x] CInteger
    by (simp add: int_config_def Let_def)
next
  case (CEmail f x)
  then show ?thesis using patterns_not_empty
    by (auto simp: problems_def check_defs Errors_def val_New_def addError_def re_match_iff matches_Nil simp flip: email_words)
next
  case (CURL f x)
  then show ?thesis using patterns_not_empty
    by (auto simp: problems_def check_defs Errors_def val_New_def addError_def re_match_iff matches_Nil simp flip: url_words)
next
  case (CPhone f x)
  then show ?thesis using patterns_not_empty
    by (auto simp: problems_def check_defs Errors_def val_New_def addError_def re_match_iff matches_Nil simp flip: phone_words)
next
  case (CUUID f x)
  then show ?thesis using uuid_pattern_iff [of "[]"] patterns_not_empty
    by (auto simp: problems_def check_defs Errors_def val_New_def addError_def uuid_pattern_iff ToLower_def)
qed (auto simp: problems_def check_defs Errors_def val_New_def addError_def)

lemma problems_name_field: "list_all (\<lambda>m. take (length (check_field c) + 2) m = check_field c @ '': '') (problems compile c)"
  by (cases c) (auto simp: problems_def check_defs Errors_def val_New_def Let_def split: option.splits if_splits)

lemma chain_problems: "Errors (fold (run_check compile) cs v) = Errors v @ concat (map (problems compile) cs)"
  by (induction cs arbitrary: v) (simp_all add: run_check_problems)

text \<open>
  C33: What passes validation has the shape of its schema. Let the validator function be any chain of checks whose string rules are \<^verbatim>\<open>MinLen\<close>,
  \<^verbatim>\<open>MaxLen\<close>, \<^verbatim>\<open>Pattern\<close> and \<^verbatim>\<open>OneOf\<close>, and let it change the request as it likes. \<^verbatim>\<open>ValidateRequest\<close>
  returns without an error exactly when the body decodes and every field conforms: required strings obey the rules in force, an e-mail address, a URL, a phone number has
  its form, a UUID is the text of the sixteen bytes of one, integers are in range. When a field does not conform, the error of code validation names every such field
  and no other, and what the fields report is what each would report alone. The request the function left comes back in either case.
\<close>

theorem validated_request_conforms:
  assumes "ValidateRequest decode body (\<lambda>req. (change req, fold (run_check compile) (schema req) val_New)) = (req', err)"
  shows "(err = None \<longleftrightarrow> (\<exists>req. decode body = (req, None) \<and> list_all (conforms compile) (schema req)))
   \<and> (\<forall>req. decode body = (req, None) \<longrightarrow> req' = change req \<and>
        (\<not> list_all (conforms compile) (schema req) \<longrightarrow>
          (\<exists>details. err = Some (NewValidation ''validation failed'' details) \<and> details = concat (map (problems compile) (schema req)) \<and>
             (\<forall>c \<in> set (schema req). (problems compile c = [] \<longleftrightarrow> conforms compile c) \<and>
                list_all (\<lambda>m. take (length (check_field c) + 2) m = check_field c @ '': '') (problems compile c)))))"
proof -
  have e: "Errors (fold (run_check compile) cs val_New) = concat (map (problems compile) cs)" for cs
    using chain_problems [of compile cs val_New] by (simp add: Errors_def val_New_def)
  have h: "HasErrors (fold (run_check compile) cs val_New) \<longleftrightarrow> \<not> list_all (conforms compile) cs" for cs
    using e [of cs] by (auto simp: HasErrors_def Errors_def list_all_iff simp flip: problems_iff)
  show ?thesis
    using assms problems_name_field by (auto simp: ValidateRequest_def h e problems_iff split: prod.splits option.splits if_splits)
qed

definition demo_schema :: "string \<times> int \<Rightarrow> field_check list" where
  "demo_schema req = [CString ''name'' (fst req) [AtLeast 3, AtMost 5], CInteger ''age'' (snd req) [NotBelow 18]]"

theorem validated_request_conforms_witness:
  "\<exists>err. ValidateRequest (\<lambda>body. ((body, 17), None)) ''Go'' (\<lambda>req. ((fst req, 0), fold (run_check (\<lambda>_. None)) (demo_schema req) val_New))
       = ((''Go'', 0), err) \<and> err \<noteq> None \<and> \<not> conforms (\<lambda>_. None) (CString ''name'' ''Go'' [AtLeast 3, AtMost 5])"
proof -
  obtain req' err where v: "ValidateRequest (\<lambda>body. ((body, 17), None)) ''Go'' (\<lambda>req. ((fst req, 0), fold (run_check (\<lambda>_. None)) (demo_schema req) val_New))
       = (req', err)" by fastforce
  have r: "RuneCountInString ''Go'' = 2" by code_simp
  then have n: "\<not> conforms (\<lambda>_. None) (CString ''name'' ''Go'' [AtLeast 3, AtMost 5])" by (simp add: string_conforms_def)
  from validated_request_conforms [OF v] have "req' = (''Go'', 0)" "err \<noteq> None" using n by (auto simp: demo_schema_def)
  with v n show ?thesis by blast
qed

text \<open>\<^verbatim>\<open>SkipEmpty\<close> skips nothing: an empty value is reported as missing before any option is applied.\<close>

lemma skip_empty_is_reported: "Errors (val_String compile field [] (SkipEmpty [] # opts) v) = Errors v @ [field @ '': is required'']"
  by (simp add: val_String_def Errors_def)

text \<open>An optional string that is present but empty is refused as well.\<close>

lemma optional_empty_is_reported: "Errors (val_OptionalString compile field (Some []) opts v) = Errors v @ [field @ '': is required'']"
  by (simp add: val_OptionalString_def val_String_def Errors_def)

end
