(* ===== verification/Health.thy ===== *)
theory Health
  imports DxErrors "HOL-Library.Multiset"
begin

text \<open>
  Package \<^verbatim>\<open>health\<close>: the checkers (\<^verbatim>\<open>checkers.go\<close>) and the probes over them (\<^verbatim>\<open>handler.go\<close>). A dependency is what its
  ping does to the world \<open>'s\<close> and answers, given the deadline of its context; \<open>clock\<close> reads the time of the world in nanoseconds. All checkers of
  a probe share one deadline. The registered checkers are a Go map, and the probes take the order in which the map is visited: any arrangement
  of its entries. A request context that is cancelled before its deadline, because the client went away, is not modelled.
\<close>

subsection \<open>Checkers (checkers.go)\<close>

record ServiceStatus =
  ss_Name :: string
  ss_Status :: string
  ss_Message :: string
  ss_Duration :: int

type_synonym 's ping = "int \<Rightarrow> 's \<Rightarrow> 's \<times> goerr option"

text \<open>The checkers of the package, with the dependency each holds (asking whether a connection is open takes no time); \<open>ServiceChecker\<close> is a checker the service brings itself.\<close>

datatype 's Checker =
    PgxPoolChecker "'s ping"
  | PostgreSQLChecker "'s ping"
  | RedisChecker "'s ping"
  | RabbitMQChecker "'s \<Rightarrow> bool"
  | PingChecker string "'s ping"
  | CustomChecker string "'s ping"
  | AlwaysHealthyChecker string
  | MultiChecker string "'s Checker list"
  | ServiceChecker "int \<Rightarrow> 's \<Rightarrow> 's \<times> ServiceStatus"

definition NewObjectStoreChecker :: "string \<Rightarrow> 's ping \<Rightarrow> 's Checker" where
  "NewObjectStoreChecker nm store = PingChecker nm store"

definition NewElasticsearchChecker :: "'s ping \<Rightarrow> 's Checker" where
  "NewElasticsearchChecker es = PingChecker ''elasticsearch'' es"

definition status_of :: "string \<Rightarrow> string \<Rightarrow> string \<Rightarrow> int \<Rightarrow> ServiceStatus" where
  "status_of nm st msg d = \<lparr>ss_Name = nm, ss_Status = st, ss_Message = msg, ss_Duration = d\<rparr>"

definition ping_Check :: "('s \<Rightarrow> int) \<Rightarrow> string \<Rightarrow> string \<Rightarrow> 's ping \<Rightarrow> int \<Rightarrow> 's \<Rightarrow> 's \<times> ServiceStatus" where
  "ping_Check clock nm prefix ping deadline s =
     (case ping deadline s of
        (s1, Some err) \<Rightarrow> (s1, status_of nm ''unhealthy'' (prefix @ ErrorText err) (clock s1 - clock s))
      | (s1, None) \<Rightarrow> (s1, status_of nm ''healthy'' [] (clock s1 - clock s)))"

definition PgxPoolChecker_Check :: "('s \<Rightarrow> int) \<Rightarrow> 's ping \<Rightarrow> int \<Rightarrow> 's \<Rightarrow> 's \<times> ServiceStatus" where
  "PgxPoolChecker_Check clock = ping_Check clock ''database'' ''failed to connect: ''"

definition PostgreSQLChecker_Check :: "('s \<Rightarrow> int) \<Rightarrow> 's ping \<Rightarrow> int \<Rightarrow> 's \<Rightarrow> 's \<times> ServiceStatus" where
  "PostgreSQLChecker_Check clock = ping_Check clock ''database'' ''failed to connect: ''"

definition RedisChecker_Check :: "('s \<Rightarrow> int) \<Rightarrow> 's ping \<Rightarrow> int \<Rightarrow> 's \<Rightarrow> 's \<times> ServiceStatus" where
  "RedisChecker_Check clock = ping_Check clock ''redis'' ''failed to connect: ''"

definition RabbitMQChecker_Check :: "('s \<Rightarrow> bool) \<Rightarrow> 's \<Rightarrow> 's \<times> ServiceStatus" where
  "RabbitMQChecker_Check IsConnected s =
     (s, if \<not> IsConnected s then status_of ''rabbitmq'' ''unhealthy'' ''not connected'' 0 else status_of ''rabbitmq'' ''healthy'' [] 0)"

definition PingChecker_Check :: "('s \<Rightarrow> int) \<Rightarrow> string \<Rightarrow> 's ping \<Rightarrow> int \<Rightarrow> 's \<Rightarrow> 's \<times> ServiceStatus" where
  "PingChecker_Check clock nm = ping_Check clock nm []"

definition CustomChecker_Check :: "('s \<Rightarrow> int) \<Rightarrow> string \<Rightarrow> 's ping \<Rightarrow> int \<Rightarrow> 's \<Rightarrow> 's \<times> ServiceStatus" where
  "CustomChecker_Check clock nm = ping_Check clock nm []"

definition AlwaysHealthyChecker_Check :: "string \<Rightarrow> 's \<Rightarrow> 's \<times> ServiceStatus" where
  "AlwaysHealthyChecker_Check nm s = (s, status_of nm ''healthy'' [] 0)"

fun first_unhealthy :: "('s \<Rightarrow> 's \<times> ServiceStatus) list \<Rightarrow> 's \<Rightarrow> 's \<times> ServiceStatus option" where
  "first_unhealthy [] s = (s, None)"
| "first_unhealthy (c # cs) s =
     (case c s of (s1, st) \<Rightarrow> if ss_Status st \<noteq> ''healthy'' then (s1, Some st) else first_unhealthy cs s1)"

definition MultiChecker_Check :: "('s \<Rightarrow> int) \<Rightarrow> string \<Rightarrow> ('s \<Rightarrow> 's \<times> ServiceStatus) list \<Rightarrow> 's \<Rightarrow> 's \<times> ServiceStatus" where
  "MultiChecker_Check clock nm cs s =
     (case first_unhealthy cs s of
        (s1, Some st) \<Rightarrow> (s1, status_of nm ''unhealthy'' (ss_Name st @ '' is unhealthy'') (clock s1 - clock s))
      | (s1, None) \<Rightarrow> (s1, status_of nm ''healthy'' [] (clock s1 - clock s)))"

text \<open>The method of the interface.\<close>

fun Check :: "('s \<Rightarrow> int) \<Rightarrow> int \<Rightarrow> 's Checker \<Rightarrow> 's \<Rightarrow> 's \<times> ServiceStatus" where
  "Check clock deadline (PgxPoolChecker ping) = PgxPoolChecker_Check clock ping deadline"
| "Check clock deadline (PostgreSQLChecker ping) = PostgreSQLChecker_Check clock ping deadline"
| "Check clock deadline (RedisChecker ping) = RedisChecker_Check clock ping deadline"
| "Check clock deadline (RabbitMQChecker connected) = RabbitMQChecker_Check connected"
| "Check clock deadline (PingChecker nm ping) = PingChecker_Check clock nm ping deadline"
| "Check clock deadline (CustomChecker nm ping) = CustomChecker_Check clock nm ping deadline"
| "Check clock deadline (AlwaysHealthyChecker nm) = AlwaysHealthyChecker_Check nm"
| "Check clock deadline (MultiChecker nm cs) = MultiChecker_Check clock nm (map (Check clock deadline) cs)"
| "Check clock deadline (ServiceChecker f) = f deadline"

lemmas checker_defs = PgxPoolChecker_Check_def PostgreSQLChecker_Check_def RedisChecker_Check_def RabbitMQChecker_Check_def
  PingChecker_Check_def CustomChecker_Check_def AlwaysHealthyChecker_Check_def MultiChecker_Check_def

subsection \<open>Probes (handler.go)\<close>

record 's health_handler =
  h_checkers :: "(string \<times> 's Checker) list"

definition health_NewHandler :: "'s health_handler" where "health_NewHandler = \<lparr>h_checkers = []\<rparr>"

definition health_Register :: "string \<Rightarrow> 's Checker \<Rightarrow> 's health_handler \<Rightarrow> 's health_handler" where
  "health_Register nm c h = h\<lparr>h_checkers := map_put nm c (h_checkers h)\<rparr>"

text \<open>An order in which Go may visit the map.\<close>

definition visits :: "'s health_handler \<Rightarrow> (string \<times> 's Checker) list \<Rightarrow> bool" where
  "visits h cs \<longleftrightarrow> mset cs = mset (h_checkers h)"

record HealthStatus =
  hs_Status :: string
  hs_Timestamp :: int
  hs_Services :: "ServiceStatus list"

definition add_status :: "ServiceStatus \<Rightarrow> HealthStatus \<Rightarrow> HealthStatus" where
  "add_status svc st =
     st\<lparr>hs_Services := hs_Services st @ [svc],
        hs_Status := (if ss_Status svc \<noteq> ''healthy'' then (if ss_Status svc = ''unhealthy'' then ''unhealthy'' else ''degraded'') else hs_Status st)\<rparr>"

text \<open>\<^verbatim>\<open>context.WithTimeout\<close> on the context of the request, which may have a deadline of its own.\<close>

definition WithTimeout :: "('s \<Rightarrow> int) \<Rightarrow> int option \<Rightarrow> int \<Rightarrow> 's \<Rightarrow> int" where
  "WithTimeout clock rctx d s = (case rctx of None \<Rightarrow> clock s + d | Some t \<Rightarrow> min t (clock s + d))"

fun health_loop :: "('s \<Rightarrow> int) \<Rightarrow> int \<Rightarrow> (string \<times> 's Checker) list \<Rightarrow> HealthStatus \<Rightarrow> 's \<Rightarrow> 's \<times> HealthStatus" where
  "health_loop clock deadline [] st s = (s, st)"
| "health_loop clock deadline ((nm, c) # cs) st s =
     (case Check clock deadline c s of (s1, svc) \<Rightarrow> health_loop clock deadline cs (add_status svc st) s1)"

definition write_json :: "int \<Rightarrow> 'b \<Rightarrow> 'b writer \<Rightarrow> 'b writer" where
  "write_json code b w = write_body b (WriteHeader code (header_Set ''Content-Type'' ''application/json'' w))"

definition Health :: "('s \<Rightarrow> int) \<Rightarrow> int option \<Rightarrow> (string \<times> 's Checker) list \<Rightarrow> HealthStatus writer \<Rightarrow> 's \<Rightarrow> HealthStatus writer \<times> 's" where
  "Health clock rctx cs w s =
     (case health_loop clock (WithTimeout clock rctx (5 * 10 ^ 9) s) cs \<lparr>hs_Status = ''healthy'', hs_Timestamp = clock s, hs_Services = []\<rparr> s of
        (s1, st) \<Rightarrow> (write_json (if hs_Status st = ''unhealthy'' then 503 else 200) st w, s1))"

definition Live :: "string writer \<Rightarrow> string writer" where
  "Live w = write_json 200 ''alive'' w"

record readyResponse =
  rr_Ready :: bool
  rr_Services :: "(string \<times> string) list"

fun ready_loop :: "('s \<Rightarrow> int) \<Rightarrow> int \<Rightarrow> (string \<times> 's Checker) list \<Rightarrow> readyResponse \<Rightarrow> 's \<Rightarrow> 's \<times> readyResponse" where
  "ready_loop clock deadline [] rr s = (s, rr)"
| "ready_loop clock deadline ((nm, c) # cs) rr s =
     (case Check clock deadline c s of
        (s1, svc) \<Rightarrow>
          ready_loop clock deadline cs
            (rr\<lparr>rr_Services := map_put nm (ss_Status svc) (rr_Services rr), rr_Ready := rr_Ready rr \<and> ss_Status svc = ''healthy''\<rparr>) s1)"

definition Ready :: "('s \<Rightarrow> int) \<Rightarrow> int option \<Rightarrow> (string \<times> 's Checker) list \<Rightarrow> readyResponse writer \<Rightarrow> 's \<Rightarrow> readyResponse writer \<times> 's" where
  "Ready clock rctx cs w s =
     (case ready_loop clock (WithTimeout clock rctx (3 * 10 ^ 9) s) cs \<lparr>rr_Ready = True, rr_Services = []\<rparr> s of
        (s1, rr) \<Rightarrow> (write_json (if rr_Ready rr then 200 else 503) rr w, s1))"

subsection \<open>What the probes say\<close>

text \<open>The checkers of the package, as opposed to those a service brings.\<close>

fun library_checker :: "'s Checker \<Rightarrow> bool" where
  "library_checker (ServiceChecker f) = False"
| "library_checker (MultiChecker nm cs) = list_all library_checker cs"
| "library_checker c = True"

text \<open>
  Asking the dependencies directly, without the checkers: does the ping, called at that moment with that deadline, answer without an error; is
  the broker connection open. A group asks its members in turn until one fails. The state moves on as the pings take time.
\<close>

fun ask_all :: "('s \<Rightarrow> 's \<times> bool) list \<Rightarrow> 's \<Rightarrow> 's \<times> bool" where
  "ask_all [] s = (s, True)"
| "ask_all (f # fs) s = (case f s of (s1, ok) \<Rightarrow> if ok then ask_all fs s1 else (s1, False))"

definition ask_ping :: "'s ping \<Rightarrow> int \<Rightarrow> 's \<Rightarrow> 's \<times> bool" where
  "ask_ping ping deadline s = (fst (ping deadline s), snd (ping deadline s) = None)"

fun reach :: "int \<Rightarrow> 's Checker \<Rightarrow> 's \<Rightarrow> 's \<times> bool" where
  "reach deadline (PgxPoolChecker ping) = ask_ping ping deadline"
| "reach deadline (PostgreSQLChecker ping) = ask_ping ping deadline"
| "reach deadline (RedisChecker ping) = ask_ping ping deadline"
| "reach deadline (RabbitMQChecker connected) = (\<lambda>s. (s, connected s))"
| "reach deadline (PingChecker nm ping) = ask_ping ping deadline"
| "reach deadline (CustomChecker nm ping) = ask_ping ping deadline"
| "reach deadline (AlwaysHealthyChecker nm) = (\<lambda>s. (s, True))"
| "reach deadline (MultiChecker nm cs) = ask_all (map (reach deadline) cs)"
| "reach deadline (ServiceChecker f) = (\<lambda>s. (fst (f deadline s), ss_Status (snd (f deadline s)) = ''healthy''))"

text \<open>Every registered dependency once, in the order visited.\<close>

fun survey :: "int \<Rightarrow> (string \<times> 's Checker) list \<Rightarrow> 's \<Rightarrow> 's \<times> (string \<times> bool) list" where
  "survey deadline [] s = (s, [])"
| "survey deadline ((nm, c) # cs) s =
     (case reach deadline c s of (s1, ok) \<Rightarrow> case survey deadline cs s1 of (s2, outs) \<Rightarrow> (s2, (nm, ok) # outs))"

definition verdict :: "bool \<Rightarrow> string" where
  "verdict ok = (if ok then ''healthy'' else ''unhealthy'')"

lemma verdict_healthy [simp]: "verdict ok = ''healthy'' \<longleftrightarrow> ok" "verdict ok = ''unhealthy'' \<longleftrightarrow> \<not> ok"
  by (simp_all add: verdict_def)

text \<open>A checker reports what its dependency answers.\<close>

lemma ping_Check_reach:
  "fst (ping_Check clock nm p ping dl s) = fst (ask_ping ping dl s)" "ss_Status (snd (ping_Check clock nm p ping dl s)) = verdict (snd (ask_ping ping dl s))"
  by (simp_all add: ping_Check_def ask_ping_def status_of_def verdict_def split: prod.split option.split)

lemma first_unhealthy_ask:
  assumes "\<And>c s. c \<in> set cs \<Longrightarrow> fst (f c s) = fst (g c s) \<and> ss_Status (snd (f c s)) = verdict (snd (g c s))"
  shows "fst (first_unhealthy (map f cs) s) = fst (ask_all (map g cs) s) \<and>
    (snd (first_unhealthy (map f cs) s) = None \<longleftrightarrow> snd (ask_all (map g cs) s))"
  using assms
proof (induction cs arbitrary: s)
  case (Cons c cs)
  have c: "fst (f c s) = fst (g c s)" "ss_Status (snd (f c s)) = verdict (snd (g c s))" using Cons.prems by auto
  show ?case using Cons.IH [of "fst (g c s)"] Cons.prems c by (cases "f c s"; cases "g c s") auto
qed simp

lemma Check_reach:
  "library_checker c \<Longrightarrow> fst (Check clock dl c s) = fst (reach dl c s) \<and> ss_Status (snd (Check clock dl c s)) = verdict (snd (reach dl c s))"
proof (induction c arbitrary: s)
  case (MultiChecker nm cs)
  then have "fst (first_unhealthy (map (Check clock dl) cs) s) = fst (ask_all (map (reach dl) cs) s) \<and>
      (snd (first_unhealthy (map (Check clock dl) cs) s) = None \<longleftrightarrow> snd (ask_all (map (reach dl) cs) s))"
    by (intro first_unhealthy_ask) (simp add: list_all_iff)
  then show ?case by (auto simp: MultiChecker_Check_def status_of_def verdict_def split: prod.splits option.splits)
qed (simp_all add: checker_defs ping_Check_reach status_of_def verdict_def)

lemma ready_loop_survey:
  assumes "\<forall>(nm, c) \<in> set cs. library_checker c" and "survey dl cs s = (s1, outs)"
  shows "fst (ready_loop clock dl cs rr s) = s1" and "rr_Ready (snd (ready_loop clock dl cs rr s)) \<longleftrightarrow> rr_Ready rr \<and> list_all snd outs"
    and "rr_Services (snd (ready_loop clock dl cs rr s)) = fold (\<lambda>(n, ok). map_put n (verdict ok)) outs (rr_Services rr)"
proof -
  have "fst (ready_loop clock dl cs rr s) = s1 \<and> (rr_Ready (snd (ready_loop clock dl cs rr s)) \<longleftrightarrow> rr_Ready rr \<and> list_all snd outs) \<and>
      rr_Services (snd (ready_loop clock dl cs rr s)) = fold (\<lambda>(n, ok). map_put n (verdict ok)) outs (rr_Services rr)"
    using assms
  proof (induction cs arbitrary: rr s outs)
    case (Cons x cs)
    obtain nm c where x: "x = (nm, c)" by (cases x)
    obtain sa svc where c: "Check clock dl c s = (sa, svc)" by fastforce
    have r: "reach dl c s = (sa, ss_Status svc = ''healthy'')" "ss_Status svc = verdict (snd (reach dl c s))"
      using Check_reach [of c clock dl s] Cons.prems(1) c x by (auto simp: prod_eq_iff)
    obtain os where os: "survey dl cs sa = (s1, os)" "outs = (nm, ss_Status svc = ''healthy'') # os"
      using Cons.prems(2) x r(1) by (auto split: prod.splits)
    have v: "verdict (ss_Status svc = ''healthy'') = ss_Status svc" using r by (auto simp: verdict_def split: if_splits)
    show ?case
      using Cons.IH [of sa os "rr\<lparr>rr_Services := map_put nm (ss_Status svc) (rr_Services rr), rr_Ready := rr_Ready rr \<and> ss_Status svc = ''healthy''\<rparr>"]
        Cons.prems(1) os by (auto simp: x c v)
  qed simp
  then show "fst (ready_loop clock dl cs rr s) = s1" "rr_Ready (snd (ready_loop clock dl cs rr s)) \<longleftrightarrow> rr_Ready rr \<and> list_all snd outs"
    "rr_Services (snd (ready_loop clock dl cs rr s)) = fold (\<lambda>(n, ok). map_put n (verdict ok)) outs (rr_Services rr)" by blast+
qed

lemma health_loop_survey:
  assumes "\<forall>(nm, c) \<in> set cs. library_checker c" and "survey dl cs s = (s1, outs)"
  shows "fst (health_loop clock dl cs st s) = s1" and "hs_Status (snd (health_loop clock dl cs st s)) = (if list_all snd outs then hs_Status st else ''unhealthy'')"
    and "map ss_Status (hs_Services (snd (health_loop clock dl cs st s))) = map ss_Status (hs_Services st) @ map (verdict \<circ> snd) outs"
proof -
  have "fst (health_loop clock dl cs st s) = s1 \<and>
      hs_Status (snd (health_loop clock dl cs st s)) = (if list_all snd outs then hs_Status st else ''unhealthy'') \<and>
      map ss_Status (hs_Services (snd (health_loop clock dl cs st s))) = map ss_Status (hs_Services st) @ map (verdict \<circ> snd) outs"
    using assms
  proof (induction cs arbitrary: st s outs)
    case (Cons x cs)
    obtain nm c where x: "x = (nm, c)" by (cases x)
    obtain sa svc where c: "Check clock dl c s = (sa, svc)" by fastforce
    have r: "reach dl c s = (sa, ss_Status svc = ''healthy'')" "ss_Status svc = verdict (snd (reach dl c s))"
      using Check_reach [of c clock dl s] Cons.prems(1) c x by (auto simp: prod_eq_iff)
    obtain os where os: "survey dl cs sa = (s1, os)" "outs = (nm, ss_Status svc = ''healthy'') # os"
      using Cons.prems(2) x r(1) by (auto split: prod.splits)
    have v: "verdict (ss_Status svc = ''healthy'') = ss_Status svc" "ss_Status svc \<in> {''healthy'', ''unhealthy''}"
      using r by (auto simp: verdict_def split: if_splits)
    show ?case using Cons.IH [of sa os "add_status svc st"] Cons.prems(1) os v(2) by (auto simp: x c v(1) add_status_def)
  qed simp
  then show "fst (health_loop clock dl cs st s) = s1" "hs_Status (snd (health_loop clock dl cs st s)) = (if list_all snd outs then hs_Status st else ''unhealthy'')"
    "map ss_Status (hs_Services (snd (health_loop clock dl cs st s))) = map ss_Status (hs_Services st) @ map (verdict \<circ> snd) outs" by blast+
qed

text \<open>Dependencies that give up at their deadline make a probe that answers by it.\<close>

fun prompt :: "('s \<Rightarrow> int) \<Rightarrow> 's Checker \<Rightarrow> bool" where
  "prompt clock (PgxPoolChecker ping) \<longleftrightarrow> (\<forall>dl s. clock (fst (ping dl s)) \<le> max (clock s) dl)"
| "prompt clock (PostgreSQLChecker ping) \<longleftrightarrow> (\<forall>dl s. clock (fst (ping dl s)) \<le> max (clock s) dl)"
| "prompt clock (RedisChecker ping) \<longleftrightarrow> (\<forall>dl s. clock (fst (ping dl s)) \<le> max (clock s) dl)"
| "prompt clock (PingChecker nm ping) \<longleftrightarrow> (\<forall>dl s. clock (fst (ping dl s)) \<le> max (clock s) dl)"
| "prompt clock (CustomChecker nm ping) \<longleftrightarrow> (\<forall>dl s. clock (fst (ping dl s)) \<le> max (clock s) dl)"
| "prompt clock (MultiChecker nm cs) \<longleftrightarrow> list_all (prompt clock) cs"
| "prompt clock (ServiceChecker f) \<longleftrightarrow> (\<forall>dl s. clock (fst (f dl s)) \<le> max (clock s) dl)"
| "prompt clock c \<longleftrightarrow> True"

lemma ask_all_prompt:
  assumes "\<And>f s. f \<in> set fs \<Longrightarrow> clock (fst (f s)) \<le> max (clock s) (dl :: int)"
  shows "clock (fst (ask_all fs s)) \<le> max (clock s) dl"
  using assms
proof (induction fs arbitrary: s)
  case (Cons f fs)
  have "clock (fst (f s)) \<le> max (clock s) dl" using Cons.prems by simp
  moreover have "clock (fst (ask_all fs (fst (f s)))) \<le> max (clock (fst (f s))) dl" using Cons by simp
  ultimately show ?case by (cases "f s") (auto simp: max_def split: if_splits)
qed simp

lemma reach_prompt: "prompt clock c \<Longrightarrow> clock (fst (reach dl c s)) \<le> max (clock s) dl"
proof (induction c arbitrary: s)
  case (MultiChecker nm cs)
  then show ?case by (auto simp: list_all_iff intro!: ask_all_prompt)
qed (simp_all add: ask_ping_def)

lemma survey_prompt:
  "\<forall>(nm, c) \<in> set cs. prompt clock c \<Longrightarrow> clock (fst (survey dl cs s)) \<le> max (clock s) dl"
proof (induction cs arbitrary: s)
  case (Cons x cs)
  obtain nm c where x: "x = (nm, c)" by (cases x)
  have "clock (fst (reach dl c s)) \<le> max (clock s) dl" using Cons.prems x by (intro reach_prompt) simp
  moreover have "clock (fst (survey dl cs (fst (reach dl c s)))) \<le> max (clock (fst (reach dl c s))) dl" using Cons by simp
  ultimately show ?case by (simp add: x max_def split: prod.splits if_splits) (auto split: if_splits)
qed simp

lemma survey_names: "map fst (snd (survey dl cs s)) = map fst cs"
  by (induction cs arbitrary: s) (auto split: prod.splits, metis snd_conv)

lemma fold_put_map_of:
  "distinct (map fst outs) \<Longrightarrow> map_of (fold (\<lambda>(n, ok). map_put n (f ok)) outs m) = (map_of m ++ map_of (map (\<lambda>(n, ok). (n, f ok)) outs))"
proof (induction outs arbitrary: m)
  case (Cons x outs)
  obtain n ok where x: "x = (n, ok)" by (cases x)
  have "n \<notin> dom (map_of (map (\<lambda>(n, ok). (n, f ok)) outs))" using Cons.prems x by (auto simp: dom_map_of_conv_image_fst image_iff)
  then show ?case using Cons x by (auto simp: fun_eq_iff map_add_def split: option.splits)
qed simp

lemma registered_gomap: "gomap (h_checkers (fold (\<lambda>(n, c). health_Register n c) regs health_NewHandler))"
proof -
  have "gomap (h_checkers h) \<Longrightarrow> gomap (h_checkers (fold (\<lambda>(n, c). health_Register n c) regs h))" for h :: "'a health_handler"
    by (induction regs arbitrary: h) (auto simp: health_Register_def split: prod.splits)
  then show ?thesis by (simp add: health_NewHandler_def)
qed

lemma registered_from:
  "set (h_checkers (fold (\<lambda>(n, c). health_Register n c) regs health_NewHandler)) \<subseteq> set regs"
proof -
  have put: "set (map_put k v m) \<subseteq> insert (k, v) (set m)" for k v and m :: "(string \<times> 'a Checker) list"
    by (induction k v m rule: map_put.induct) auto
  have "set (h_checkers (fold (\<lambda>(n, c). health_Register n c) regs h)) \<subseteq> set (h_checkers h) \<union> set regs" for h :: "'a health_handler"
  proof (induction regs arbitrary: h)
    case (Cons x regs)
    obtain n c where x: "x = (n, c)" by (cases x)
    have "set (h_checkers (health_Register n c h)) \<subseteq> insert (n, c) (set (h_checkers h))" using put by (simp add: health_Register_def)
    with Cons.IH [of "health_Register n c h"] show ?case by (auto simp: x)
  qed simp
  from this [of health_NewHandler] show ?thesis by (simp add: health_NewHandler_def)
qed

text \<open>
  C27: The probes say whether the dependencies answer. Register checkers of the package in any way and let the map be visited in any order: readiness asks
  every dependency once, in that order, with one deadline three seconds after the request came (or the earlier deadline of the request), and answers 200 if all answered without an
  error and 503 otherwise, with the verdict of each name and of no other; health does the same with five seconds, and lists the verdicts. What a
  dependency answered is what its ping returned, or whether the connection was open, not what the checker made of it. If no ping outlasts its deadline, the probe answers by
  the deadline.
\<close>

theorem probes_report_dependencies:
  assumes "visits (fold (\<lambda>(n, c). health_Register n c) regs health_NewHandler) cs" and "\<forall>(nm, c) \<in> set regs. library_checker c"
    and "survey (WithTimeout clock rctx (3 * 10 ^ 9) s) cs s = (s1, outs)" and "survey (WithTimeout clock rctx (5 * 10 ^ 9) s) cs s = (s2, outs')"
  shows "snd (Ready clock rctx cs fresh_writer s) = s1
    \<and> w_status (fst (Ready clock rctx cs fresh_writer s)) = Some (if list_all snd outs then 200 else 503)
    \<and> (\<exists>rr. w_body (fst (Ready clock rctx cs fresh_writer s)) = [rr] \<and> rr_Ready rr = list_all snd outs \<and>
         map_of (rr_Services rr) = map_of (map (\<lambda>(n, ok). (n, verdict ok)) outs))
    \<and> snd (Health clock rctx cs fresh_writer s) = s2
    \<and> w_status (fst (Health clock rctx cs fresh_writer s)) = Some (if list_all snd outs' then 200 else 503)
    \<and> (\<exists>hs. w_body (fst (Health clock rctx cs fresh_writer s)) = [hs] \<and> map ss_Status (hs_Services hs) = map (verdict \<circ> snd) outs')
    \<and> map fst outs = map fst cs \<and> map fst outs' = map fst cs
    \<and> ((\<forall>(nm, c) \<in> set cs. prompt clock c) \<longrightarrow> clock s1 \<le> max (clock s) (WithTimeout clock rctx (3 * 10 ^ 9) s) \<and>
         clock s2 \<le> max (clock s) (WithTimeout clock rctx (5 * 10 ^ 9) s))"
proof -
  have set: "mset cs = mset (h_checkers (fold (\<lambda>(n, c). health_Register n c) regs health_NewHandler))" using assms(1) by (simp add: visits_def)
  then have "set cs \<subseteq> set regs" using registered_from [of regs] by (metis mset_eq_setD)
  then have lib: "\<forall>(nm, c) \<in> set cs. library_checker c" using assms(2) by blast
  have "mset (map fst cs) = mset (map fst (h_checkers (fold (\<lambda>(n, c). health_Register n c) regs health_NewHandler)))" using set by (metis mset_map)
  then have d: "distinct (map fst cs)" using registered_gomap [of regs] by (metis gomap_def mset_eq_imp_distinct_iff)
  have names: "map fst outs = map fst cs" "map fst outs' = map fst cs"
    using survey_names [of "WithTimeout clock rctx (3 * 10 ^ 9) s" cs s] survey_names [of "WithTimeout clock rctx (5 * 10 ^ 9) s" cs s] assms(3,4) by simp_all
  note R = ready_loop_survey [OF lib assms(3), of clock "\<lparr>rr_Ready = True, rr_Services = []\<rparr>"]
  note H = health_loop_survey [OF lib assms(4), of clock "\<lparr>hs_Status = ''healthy'', hs_Timestamp = clock s, hs_Services = []\<rparr>"]
  have sv: "map_of (rr_Services (snd (ready_loop clock (WithTimeout clock rctx (3 * 10 ^ 9) s) cs \<lparr>rr_Ready = True, rr_Services = []\<rparr> s))) =
      map_of (map (\<lambda>(n, ok). (n, verdict ok)) outs)"
    unfolding R(3) using fold_put_map_of [of outs verdict] names d by simp
  have p: "clock s1 \<le> max (clock s) (WithTimeout clock rctx (3 * 10 ^ 9) s) \<and> clock s2 \<le> max (clock s) (WithTimeout clock rctx (5 * 10 ^ 9) s)"
    if "\<forall>(nm, c) \<in> set cs. prompt clock c"
    using survey_prompt [OF that, of "WithTimeout clock rctx (3 * 10 ^ 9) s" s] survey_prompt [OF that, of "WithTimeout clock rctx (5 * 10 ^ 9) s" s] assms(3,4) by simp
  have ready: "snd (Ready clock rctx cs fresh_writer s) = s1"
    "w_status (fst (Ready clock rctx cs fresh_writer s)) = Some (if list_all snd outs then 200 else 503)"
    "w_body (fst (Ready clock rctx cs fresh_writer s)) = [snd (ready_loop clock (WithTimeout clock rctx (3 * 10 ^ 9) s) cs \<lparr>rr_Ready = True, rr_Services = []\<rparr> s)]"
    using R(1,2) by (auto simp: Ready_def write_json_def fresh_writer_def write_body_def WriteHeader_def header_Set_def Let_def split: prod.splits)
  have health: "snd (Health clock rctx cs fresh_writer s) = s2"
    "w_status (fst (Health clock rctx cs fresh_writer s)) = Some (if list_all snd outs' then 200 else 503)"
    "w_body (fst (Health clock rctx cs fresh_writer s)) =
       [snd (health_loop clock (WithTimeout clock rctx (5 * 10 ^ 9) s) cs \<lparr>hs_Status = ''healthy'', hs_Timestamp = clock s, hs_Services = []\<rparr> s)]"
    using H(1,2) by (auto simp: Health_def write_json_def fresh_writer_def write_body_def WriteHeader_def header_Set_def Let_def split: prod.splits if_splits)
  show ?thesis
    by (intro conjI exI impI) (use ready health names sv R(2) H(3) p in simp_all)
qed

text \<open>A replica with a database that answers after four seconds, if it may, and a broker connection that is open: ready says no, health says yes.\<close>

definition slow_ping :: "int ping" where
  "slow_ping dl s = (if s + 4 * 10 ^ 9 \<le> dl then (s + 4 * 10 ^ 9, None) else (max s dl, Some (Opaque ''context deadline exceeded'')))"

definition demo_regs :: "(string \<times> int Checker) list" where
  "demo_regs = [(''db'', PgxPoolChecker slow_ping), (''broker'', RabbitMQChecker (\<lambda>s. True))]"

lemma probes_report_dependencies_witness:
  "w_status (fst (Ready (\<lambda>s. s) None demo_regs fresh_writer 0)) = Some 503
   \<and> w_status (fst (Health (\<lambda>s. s) None demo_regs fresh_writer 0)) = Some 200
   \<and> snd (Ready (\<lambda>s. s) None demo_regs fresh_writer 0) = 3 * 10 ^ 9"
proof -
  have v: "visits (fold (\<lambda>(n, c). health_Register n c) demo_regs health_NewHandler) demo_regs"
    by (simp add: visits_def demo_regs_def health_Register_def health_NewHandler_def)
  have l: "\<forall>(nm, c) \<in> set demo_regs. library_checker c" by (simp add: demo_regs_def)
  have s3: "survey (WithTimeout (\<lambda>s. s) None (3 * 10 ^ 9) 0) demo_regs 0 = (3 * 10 ^ 9, [(''db'', False), (''broker'', True)])"
    by (simp add: demo_regs_def WithTimeout_def ask_ping_def slow_ping_def)
  have s5: "survey (WithTimeout (\<lambda>s. s) None (5 * 10 ^ 9) 0) demo_regs 0 = (4 * 10 ^ 9, [(''db'', True), (''broker'', True)])"
    by (simp add: demo_regs_def WithTimeout_def ask_ping_def slow_ping_def)
  from probes_report_dependencies [OF v l s3 s5] show ?thesis by simp
qed

text \<open>
  With a checker that reports a degraded dependency the answer of \<^verbatim>\<open>Health\<close> depends on the order of the map: the last unwell
  dependency decides, so an unhealthy one can be answered with 200.
\<close>

lemma health_depends_on_order:
  fixes broker degraded
  defines "broker \<equiv> (''broker'', RabbitMQChecker (\<lambda>s :: int. False))"
    and "degraded \<equiv> (''cache'', ServiceChecker (\<lambda>dl s :: int. (s, status_of ''cache'' ''degraded'' [] 0)))"
  shows "w_status (fst (Health (\<lambda>s. s) None [degraded, broker] fresh_writer 0)) = Some 503"
    and "w_status (fst (Health (\<lambda>s. s) None [broker, degraded] fresh_writer 0)) = Some 200"
  by (simp_all add: broker_def degraded_def Health_def write_json_def fresh_writer_def write_body_def WriteHeader_def header_Set_def
      add_status_def checker_defs status_of_def)

text \<open>A second checker registered under a name replaces the first.\<close>

lemma register_replaces: "map_of (h_checkers (health_Register nm c h)) = (map_of (h_checkers h))(nm \<mapsto> c)"
  by (simp add: health_Register_def fun_eq_iff)

end
