(* ===== verification/HttpMiddleware.thy ===== *)
theory HttpMiddleware
  imports Identity
begin

text \<open>
  Package \<^verbatim>\<open>middleware\<close>: request id, panic recovery, timeout, CORS, compression, logging and the standard stacks. A handler
  is what it does to the world \<open>'s\<close>, the calls it makes on its response writer in order, and how it ends.
  Handlers of the library do not read from the writer, so a wrapper of the writer is a translation of calls. The
  writer underneath is that of \<^verbatim>\<open>net/http\<close> for requests other than HEAD (it discards the body of an answer to HEAD) and for status codes
  between 100 and 999 (it panics on others); its check of a declared content length is left out. The log lines of \<^verbatim>\<open>Recovery\<close> and
  \<^verbatim>\<open>Logger\<close> are not part of the response and are left out. JSON encoding, gzip and the middleware of chi are parameters.
\<close>

subsection \<open>Handlers and the writer of net/http\<close>

datatype action = HSet string string | HAdd string string | HDel string | WHeader int | WBytes string

record response =
  rs_header :: Header
  rs_sent :: "(int \<times> Header) option"
  rs_body :: string

definition fresh_response :: response where
  "fresh_response = \<lparr>rs_header = [], rs_sent = None, rs_body = []\<rparr>"

text \<open>The first final status is sent with the headers set so far; later ones are ignored, 1xx is informational.\<close>

definition send_header :: "int \<Rightarrow> response \<Rightarrow> response" where
  "send_header c r =
     (if rs_sent r = None \<and> \<not> (100 \<le> c \<and> c \<le> 199 \<and> c \<noteq> 101) then r\<lparr>rs_sent := Some (c, rs_header r)\<rparr> else r)"

definition body_allowed :: "int \<Rightarrow> bool" where
  "body_allowed c \<longleftrightarrow> \<not> (100 \<le> c \<and> c \<le> 199) \<and> c \<noteq> 204 \<and> c \<noteq> 304"

definition send_bytes :: "string \<Rightarrow> response \<Rightarrow> response" where
  "send_bytes b r =
     (let r1 = send_header 200 r
      in case rs_sent r1 of Some (c, h) \<Rightarrow> if body_allowed c then r1\<lparr>rs_body := rs_body r1 @ b\<rparr> else r1 | None \<Rightarrow> r1)"

definition hdr_Add :: "string \<Rightarrow> string \<Rightarrow> Header \<Rightarrow> Header" where
  "hdr_Add k v h = map_put k (hdr_Values h k @ [v]) h"

definition hdr_Del :: "string \<Rightarrow> Header \<Rightarrow> Header" where
  "hdr_Del k h = map_del k h"

fun perform :: "action \<Rightarrow> response \<Rightarrow> response" where
  "perform (HSet k v) r = r\<lparr>rs_header := hdr_Set k v (rs_header r)\<rparr>"
| "perform (HAdd k v) r = r\<lparr>rs_header := hdr_Add k v (rs_header r)\<rparr>"
| "perform (HDel k) r = r\<lparr>rs_header := hdr_Del k (rs_header r)\<rparr>"
| "perform (WHeader c) r = send_header c r"
| "perform (WBytes b) r = send_bytes b r"

definition perform_all :: "action list \<Rightarrow> response \<Rightarrow> response" where
  "perform_all acts r = fold perform acts r"

text \<open>What the client gets when the handler returned: the server sends 200 when nothing was sent.\<close>

definition client_sees :: "action list \<Rightarrow> int \<times> Header \<times> string" where
  "client_sees acts =
     (let r = send_header 200 (perform_all acts fresh_response)
      in case rs_sent r of Some (c, h) \<Rightarrow> (c, h, rs_body r) | None \<Rightarrow> (200, [], []))"

text \<open>A panic in the goroutine of the server ends the request; in any other goroutine it ends the process.\<close>

datatype ending = Finished | Panicking panic_value | ProcessCrash

record mw_request = request +
  r_Path :: string
  r_RemoteAddr :: string
  r_RequestID :: "string option"

type_synonym 's served = "'s \<times> action list \<times> ending"
type_synonym 's hhandler = "mw_request \<Rightarrow> 's \<Rightarrow> 's served"

definition before_next :: "action list \<Rightarrow> 's served \<Rightarrow> 's served" where
  "before_next acts x = (case x of (s, as, e) \<Rightarrow> (s, acts @ as, e))"

text \<open>\<^verbatim>\<open>dxerrors.WriteError\<close> as calls on the writer; \<open>encode\<close> is the JSON text of the body.\<close>

definition error_body :: "goerr \<Rightarrow> DxErrorResponse" where
  "error_body err = \<lparr>resp_Type = URN err, resp_Title = Title err, resp_Detail = dx_message err, resp_Errors = dx_details err\<rparr>"

definition error_actions :: "(DxErrorResponse \<Rightarrow> string) \<Rightarrow> goerr \<Rightarrow> action list" where
  "error_actions encode err =
     [HSet ''Content-Type'' ''application/json'', WHeader (HTTPStatus err), WBytes (encode (error_body err))]"

subsection \<open>Request ids (requestid.go)\<close>

definition RequestID :: "('s \<Rightarrow> 's \<times> string) \<Rightarrow> 's hhandler \<Rightarrow> 's hhandler" where
  "RequestID NewString next_h r s =
     (case (if hdr_Get (r_Header r) ''X-Request-Id'' = [] then NewString s else (s, hdr_Get (r_Header r) ''X-Request-Id'')) of
        (s1, i) \<Rightarrow> before_next [HSet ''X-Request-Id'' i] (next_h (r\<lparr>r_RequestID := Some i\<rparr>) s1))"

definition RequestIDFromCtx :: "mw_request \<Rightarrow> string" where
  "RequestIDFromCtx r = (case r_RequestID r of Some i \<Rightarrow> i | None \<Rightarrow> [])"

subsection \<open>Panic recovery (recovery.go)\<close>

text \<open>The call of \<^verbatim>\<open>logger.Error\<close> with the panic value and the stack is left out; nothing else is.\<close>

definition Recovery :: "(DxErrorResponse \<Rightarrow> string) \<Rightarrow> 's hhandler \<Rightarrow> 's hhandler" where
  "Recovery encode next_h r s =
     (case next_h r s of
        (s1, acts, Panicking v) \<Rightarrow> (s1, acts @ error_actions encode (NewInternal ''internal server error'' []), Finished)
      | x \<Rightarrow> x)"

subsection \<open>Timeout (timeout.go)\<close>

record timeoutWriter =
  tw_buf :: string
  tw_code :: int
  tw_headers :: Header
  tw_timedOut :: bool

definition new_timeoutWriter :: timeoutWriter where
  "new_timeoutWriter = \<lparr>tw_buf = [], tw_code = 0, tw_headers = [], tw_timedOut = False\<rparr>"

fun tw_perform :: "action \<Rightarrow> timeoutWriter \<Rightarrow> timeoutWriter" where
  "tw_perform (HSet k v) tw = tw\<lparr>tw_headers := hdr_Set k v (tw_headers tw)\<rparr>"
| "tw_perform (HAdd k v) tw = tw\<lparr>tw_headers := hdr_Add k v (tw_headers tw)\<rparr>"
| "tw_perform (HDel k) tw = tw\<lparr>tw_headers := hdr_Del k (tw_headers tw)\<rparr>"
| "tw_perform (WHeader code) tw = (if tw_timedOut tw then tw else tw\<lparr>tw_code := code\<rparr>)"
| "tw_perform (WBytes b) tw = (if tw_timedOut tw then tw else tw\<lparr>tw_buf := tw_buf tw @ b\<rparr>)"

definition tw_flush :: "timeoutWriter \<Rightarrow> action list" where
  "tw_flush tw =
     (if tw_timedOut tw then []
      else concat (map (\<lambda>(k, vs). map (HAdd k) vs) (tw_headers tw))
         @ (if tw_code tw \<noteq> 0 then [WHeader (tw_code tw)] else [])
         @ (if tw_buf tw \<noteq> [] then [WBytes (tw_buf tw)] else []))"

text \<open>\<open>in_time\<close> says which case of the select was taken. On a timeout the handler goes on in its goroutine against the buffer,
  which is never sent; its effects on the world take place all the same.\<close>

definition Timeout :: "(DxErrorResponse \<Rightarrow> string) \<Rightarrow> ('s \<Rightarrow> bool) \<Rightarrow> 's hhandler \<Rightarrow> 's hhandler" where
  "Timeout encode in_time next_h r s =
     (case next_h r s of
        (s1, acts, Finished) \<Rightarrow>
          (if in_time s1 then (s1, tw_flush (fold tw_perform acts new_timeoutWriter), Finished)
           else (s1, error_actions encode (NewServiceUnavailable ''request timeout'' []), Finished))
      | (s1, acts, _) \<Rightarrow> (s1, [], ProcessCrash))"

subsection \<open>CORS (cors.go)\<close>

record CORSConfig =
  AllowedOrigins :: "string list"
  AllowedMethods :: "string list"
  AllowedHeaders :: "string list"
  MaxAge :: int

definition DefaultCORSConfig :: CORSConfig where
  "DefaultCORSConfig =
     \<lparr>AllowedOrigins = [''*''], AllowedMethods = [''GET'', ''POST'', ''PUT'', ''PATCH'', ''DELETE'', ''OPTIONS''],
      AllowedHeaders = [''Accept'', ''Authorization'', ''Content-Type'', ''X-Request-ID''], MaxAge = 86400\<rparr>"

definition allowed_origin :: "CORSConfig \<Rightarrow> string \<Rightarrow> string" where
  "allowed_origin cfg origin = (case find (\<lambda>x. x = ''*'' \<or> x = origin) (AllowedOrigins cfg) of Some x \<Rightarrow> x | None \<Rightarrow> [])"

definition cors_headers :: "CORSConfig \<Rightarrow> string \<Rightarrow> action list" where
  "cors_headers cfg origin =
     (let allowed = allowed_origin cfg origin
      in (if allowed \<noteq> []
          then HSet ''Access-Control-Allow-Origin'' allowed # (if allowed \<noteq> ''*'' then [HAdd ''Vary'' ''Origin''] else [])
          else [])
         @ [HSet ''Access-Control-Allow-Methods'' (strings_Join (AllowedMethods cfg) '', ''),
            HSet ''Access-Control-Allow-Headers'' (strings_Join (AllowedHeaders cfg) '', '')]
         @ (if 0 < MaxAge cfg then [HSet ''Access-Control-Max-Age'' (itoa (MaxAge cfg))] else []))"

definition CORS :: "CORSConfig \<Rightarrow> 's hhandler \<Rightarrow> 's hhandler" where
  "CORS cfg next_h r s =
     before_next (cors_headers cfg (hdr_Get (r_Header r) ''Origin''))
       (if r_Method r = ''OPTIONS'' then (s, [WHeader 204], Finished) else next_h r s)"

subsection \<open>Logging (logging.go)\<close>

text \<open>What \<^verbatim>\<open>responseWriter\<close> has captured: the code of the last \<^verbatim>\<open>WriteHeader\<close>, and the bytes the writer of the server took.\<close>

definition rw_status :: "action list \<Rightarrow> int" where
  "rw_status acts = fold (\<lambda>a st. case a of WHeader c \<Rightarrow> c | _ \<Rightarrow> st) acts 200"

definition rw_bytes :: "action list \<Rightarrow> int" where
  "rw_bytes acts = int (length (rs_body (perform_all acts fresh_response)))"

record log_line =
  ll_method :: string
  ll_path :: string
  ll_status :: int
  ll_duration :: int
  ll_bytes :: int
  ll_request_id :: string
  ll_remote_addr :: string

definition Logger :: "(log_line \<Rightarrow> 's \<Rightarrow> 's) \<Rightarrow> ('s \<Rightarrow> int) \<Rightarrow> 's hhandler \<Rightarrow> 's hhandler" where
  "Logger info clock next_h r s =
     (case next_h r s of
        (s1, acts, Finished) \<Rightarrow>
          (info \<lparr>ll_method = r_Method r, ll_path = r_Path r, ll_status = rw_status acts, ll_duration = clock s1 - clock s,
                 ll_bytes = rw_bytes acts, ll_request_id = RequestIDFromCtx r, ll_remote_addr = r_RemoteAddr r\<rparr> s1,
           acts, Finished)
      | x \<Rightarrow> x)"

subsection \<open>Compression (compression.go)\<close>

text \<open>A gzip writer: the chunks it writes to the writer underneath on a write and when it is closed.\<close>

record 'z gzip =
  gz_New :: 'z
  gz_Write :: "'z \<Rightarrow> string \<Rightarrow> 'z \<times> string list"
  gz_Close :: "'z \<Rightarrow> string list"

fun gzip_perform :: "'z gzip \<Rightarrow> action \<Rightarrow> 'z \<times> action list \<Rightarrow> 'z \<times> action list" where
  "gzip_perform G (WBytes b) (z, out) = (case gz_Write G z b of (z', cs) \<Rightarrow> (z', out @ map WBytes cs))"
| "gzip_perform G a (z, out) = (z, out @ [a])"

definition contains :: "string \<Rightarrow> string \<Rightarrow> bool" where
  "contains s sub \<longleftrightarrow> list_ex (\<lambda>i. take (length sub) (drop i s) = sub) [0 ..< Suc (length s)]"

definition accepts_gzip :: "mw_request \<Rightarrow> bool" where
  "accepts_gzip r \<longleftrightarrow> contains (hdr_Get (r_Header r) ''Accept-Encoding'') ''gzip''"

text \<open>The deferred close also runs when the handler panics; it does not when the process ends.\<close>

definition Compression :: "'z gzip \<Rightarrow> 's hhandler \<Rightarrow> 's hhandler" where
  "Compression G next_h r s =
     (if \<not> accepts_gzip r then next_h r s
      else case next_h r s of
        (s1, acts, e) \<Rightarrow>
          (case fold (gzip_perform G) acts (gz_New G, [HSet ''Content-Encoding'' ''gzip'', HDel ''Content-Length'']) of
             (z, out) \<Rightarrow> (s1, out @ (if e = ProcessCrash then [] else map WBytes (gz_Close G z)), e)))"

record 'z responseWriterWrapper =
  rww_written :: bool
  rww_gw :: "'z option"
  rww_header :: Header
  rww_out :: "action list"

definition shouldCompress :: "string list \<Rightarrow> string \<Rightarrow> bool" where
  "shouldCompress types contentType \<longleftrightarrow> list_ex (\<lambda>t. contains contentType t) types"

text \<open>The wrapper reads the header map of the response, which the model keeps beside the calls it passes on.\<close>

definition rww_pass :: "action \<Rightarrow> 'z responseWriterWrapper \<Rightarrow> 'z responseWriterWrapper" where
  "rww_pass a w = w\<lparr>rww_header := rs_header (perform a (fresh_response\<lparr>rs_header := rww_header w\<rparr>)), rww_out := rww_out w @ [a]\<rparr>"

definition rww_gzip :: "'z gzip \<Rightarrow> 'z \<Rightarrow> string \<Rightarrow> 'z responseWriterWrapper \<Rightarrow> 'z responseWriterWrapper" where
  "rww_gzip G z b w = (case gz_Write G z b of (z', cs) \<Rightarrow> w\<lparr>rww_gw := Some z', rww_out := rww_out w @ map WBytes cs\<rparr>)"

definition rww_Write :: "'z gzip \<Rightarrow> string list \<Rightarrow> string \<Rightarrow> 'z responseWriterWrapper \<Rightarrow> 'z responseWriterWrapper" where
  "rww_Write G types b w =
     (if \<not> rww_written w \<and> shouldCompress types (hdr_Get (rww_header w) ''Content-Type'')
      then rww_gzip G (gz_New G) b (rww_pass (HDel ''Content-Length'') (rww_pass (HSet ''Content-Encoding'' ''gzip'') (w\<lparr>rww_written := True\<rparr>)))
      else (case rww_gw w of
              Some z \<Rightarrow> rww_gzip G z b (w\<lparr>rww_written := True\<rparr>)
            | None \<Rightarrow> rww_pass (WBytes b) (w\<lparr>rww_written := True\<rparr>)))"

definition rww_perform :: "'z gzip \<Rightarrow> string list \<Rightarrow> action \<Rightarrow> 'z responseWriterWrapper \<Rightarrow> 'z responseWriterWrapper" where
  "rww_perform G types a w = (case a of WBytes b \<Rightarrow> rww_Write G types b w | _ \<Rightarrow> rww_pass a w)"

definition rww_Close :: "'z gzip \<Rightarrow> 'z responseWriterWrapper \<Rightarrow> action list" where
  "rww_Close G w = (case rww_gw w of Some z \<Rightarrow> map WBytes (gz_Close G z) | None \<Rightarrow> [])"

definition types_to_compress :: "string list \<Rightarrow> string list" where
  "types_to_compress types =
     (if types = [] then [''application/json'', ''text/html'', ''text/plain'', ''text/css'', ''application/javascript''] else types)"

text \<open>The headers set before are those of the middleware outside; the close is not deferred.\<close>

definition SelectiveCompression :: "'z gzip \<Rightarrow> Header \<Rightarrow> string list \<Rightarrow> 's hhandler \<Rightarrow> 's hhandler" where
  "SelectiveCompression G outer types next_h r s =
     (if \<not> accepts_gzip r then next_h r s
      else case next_h r s of
        (s1, acts, e) \<Rightarrow>
          (let w = fold (rww_perform G (types_to_compress types)) acts
                     \<lparr>rww_written = False, rww_gw = None, rww_header = outer, rww_out = []\<rparr>
           in (s1, rww_out w @ (if e = Finished then rww_Close G w else []), e)))"

subsection \<open>Stacks (standard.go, tracing.go)\<close>

definition MetricsHandler :: "'s hhandler option \<Rightarrow> 's hhandler" where
  "MetricsHandler handler r s =
     (case handler of Some h \<Rightarrow> h r s | None \<Rightarrow> (s, [WHeader 200, WBytes (''# no metrics registered'' @ [CHR 0x0A])], Finished))"

text \<open>The middleware of chi and of otelhttp are parameters.\<close>

record ('s, 'z) stack_env =
  se_NewString :: "'s \<Rightarrow> 's \<times> string"
  se_RealIP :: "'s hhandler \<Rightarrow> 's hhandler"
  se_info :: "log_line \<Rightarrow> 's \<Rightarrow> 's"
  se_clock :: "'s \<Rightarrow> int"
  se_gzip :: "'z gzip"
  se_Recoverer :: "'s hhandler \<Rightarrow> 's hhandler"
  se_Timeout :: "int \<Rightarrow> 's hhandler \<Rightarrow> 's hhandler"
  se_otelhttp :: "'s hhandler \<Rightarrow> 's hhandler"

definition StandardStack :: "('s, 'z) stack_env \<Rightarrow> int \<Rightarrow> 's hhandler \<Rightarrow> 's hhandler" where
  "StandardStack E timeout h =
     RequestID (se_NewString E) (se_RealIP E (Logger (se_info E) (se_clock E) (CORS DefaultCORSConfig
       (Compression (se_gzip E) (se_Recoverer E (se_Timeout E timeout h))))))"

record standardConfig =
  sc_tracing :: bool

definition WithTracing :: "standardConfig \<Rightarrow> standardConfig" where
  "WithTracing c = c\<lparr>sc_tracing := True\<rparr>"

definition Standard :: "('s, 'z) stack_env \<Rightarrow> int \<Rightarrow> (standardConfig \<Rightarrow> standardConfig) list \<Rightarrow> 's hhandler \<Rightarrow> 's hhandler" where
  "Standard E timeout opts h =
     (let cfg = fold (\<lambda>opt c. opt c) opts \<lparr>sc_tracing = False\<rparr>; inner = StandardStack E timeout h
      in if sc_tracing cfg then se_otelhttp E inner else inner)"

subsection \<open>Responses\<close>

lemma perform_all_simps [simp]:
  "perform_all [] r = r" "perform_all (a # acts) r = perform_all acts (perform a r)"
  "perform_all (as @ bs) r = perform_all bs (perform_all as r)"
  by (simp_all add: perform_all_def)

fun header_action :: "action \<Rightarrow> bool" where
  "header_action (WHeader c) = False"
| "header_action (WBytes b) = False"
| "header_action a = True"

fun is_write :: "action \<Rightarrow> bool" where
  "is_write (WBytes b) = True"
| "is_write a = False"

fun written_bytes :: "action \<Rightarrow> string" where
  "written_bytes (WBytes b) = b"
| "written_bytes a = []"

lemma sent_stays: "rs_sent r = Some x \<Longrightarrow> rs_sent (perform a r) = Some x"
  by (cases a) (auto simp: send_header_def send_bytes_def split: prod.split)

lemma sent_stays_all: "rs_sent r = Some x \<Longrightarrow> rs_sent (perform_all acts r) = Some x"
  by (induction acts arbitrary: r) (auto dest: sent_stays)

lemma header_actions_send_nothing:
  "list_all header_action acts \<Longrightarrow> rs_sent (perform_all acts r) = rs_sent r \<and> rs_body (perform_all acts r) = rs_body r"
proof (induction acts arbitrary: r)
  case (Cons a acts)
  then show ?case by (cases a) auto
qed simp

lemma unsent_no_body:
  assumes "rs_sent (perform_all acts fresh_response) = None"
  shows "rs_body (perform_all acts fresh_response) = []"
proof -
  have "rs_sent (perform_all acts r) = None \<longrightarrow> rs_body (perform_all acts r) = []" if "rs_sent r = None \<longrightarrow> rs_body r = []" for r
    using that
  proof (induction acts arbitrary: r)
    case (Cons a acts)
    have "rs_sent (perform a r) = None \<longrightarrow> rs_body (perform a r) = []"
      using Cons.prems by (cases a) (auto simp: send_header_def send_bytes_def Let_def split: option.split)
    then show ?case using Cons.IH by simp
  qed simp
  then show ?thesis using assms by (simp add: fresh_response_def)
qed

text \<open>Writing in pieces is writing at once.\<close>

lemma send_bytes_append: "send_bytes c (send_bytes b r) = send_bytes (b @ c) r"
  by (auto simp: send_bytes_def send_header_def Let_def split: option.split prod.split)

lemma perform_writes:
  "list_all is_write acts \<Longrightarrow> perform_all acts r = (if acts = [] then r else send_bytes (concat (map written_bytes acts)) r)"
proof (induction acts arbitrary: r)
  case (Cons a acts)
  then obtain b where a: "a = WBytes b" by (cases a) auto
  show ?case using Cons by (auto simp: a send_bytes_append)
qed simp

lemma client_sees_send: "client_sees acts = (case rs_sent (send_header 200 (perform_all acts fresh_response)) of
    Some (c, h) \<Rightarrow> (c, h, rs_body (perform_all acts fresh_response)) | None \<Rightarrow> (200, [], []))"
  by (simp add: client_sees_def send_header_def Let_def split: option.split)

text \<open>
  C39: No panic reaches the server through \<^verbatim>\<open>Recovery\<close>, and what the client learns does not depend on it. Whatever the handler panics
  with, before it has sent anything the client gets the 500 error body and nothing else; a status
  that was sent already stays. A handler that returns is served unchanged, and its effects are kept in every case.
\<close>

theorem recovery_contains_panics:
  "case next_h r s of
     (s1, acts, Panicking v) \<Rightarrow>
       (\<exists>acts'. Recovery encode next_h r s = (s1, acts', Finished) \<and>
         (case rs_sent (perform_all acts fresh_response) of
            None \<Rightarrow> (\<exists>h. client_sees acts' = (500, h, encode (error_body (NewInternal ''internal server error'' []))) \<and>
                         hdr_Get h ''Content-Type'' = ''application/json'')
          | Some (c, h) \<Rightarrow> \<exists>b. client_sees acts' = (c, h, b)))
   | x \<Rightarrow> Recovery encode next_h r s = x"
proof (cases "next_h r s")
  case (fields s1 acts e)
  define err where "err = error_actions encode (NewInternal ''internal server error'' [])"
  have st: "HTTPStatus (NewInternal ''internal server error'' []) = 500" by (simp add: NewInternal_def HTTPStatus_def httpStatusMap_def code_defs)
  have none: "\<exists>h. client_sees (acts @ err) = (500, h, encode (error_body (NewInternal ''internal server error'' []))) \<and>
      hdr_Get h ''Content-Type'' = ''application/json''"
    if "rs_sent (perform_all acts fresh_response) = None"
  proof -
    show ?thesis
      using that unsent_no_body [OF that] st by (simp add: client_sees_send err_def error_actions_def send_header_def send_bytes_def body_allowed_def)
  qed
  have some: "\<exists>b. client_sees (acts @ err) = (c, h, b)" if "rs_sent (perform_all acts fresh_response) = Some (c, h)" for c h
    using sent_stays_all [OF that, of err] by (simp add: client_sees_send send_header_def)
  show ?thesis
    using none some by (simp add: fields Recovery_def err_def split: ending.split option.split)
qed

subsection \<open>Timeouts\<close>

text \<open>A handler that sets its headers, then the status if it does, then writes the body.\<close>

definition orderly :: "action list \<Rightarrow> bool" where
  "orderly acts \<longleftrightarrow>
     (\<exists>hs ws bs. acts = hs @ ws @ bs \<and> list_all header_action hs \<and> list_all is_write bs \<and>
        (ws = [] \<or> (\<exists>c. ws = [WHeader c] \<and> 200 \<le> c)))"

definition full_header :: "Header \<Rightarrow> bool" where
  "full_header h \<longleftrightarrow> gomap h \<and> list_all (\<lambda>(k, vs). vs \<noteq> []) h"

lemma values_map_put: "list_all (\<lambda>(k, vs). vs \<noteq> []) m \<Longrightarrow> v \<noteq> [] \<Longrightarrow> list_all (\<lambda>(k, vs). vs \<noteq> []) (map_put k v m)"
  by (induction m) auto

lemma full_header_ops [simp]:
  "full_header h \<Longrightarrow> full_header (hdr_Set k v h)" "full_header h \<Longrightarrow> full_header (hdr_Add k v h)"
  "full_header h \<Longrightarrow> full_header (hdr_Del k h)"
  by (auto simp: full_header_def hdr_Set_def hdr_Add_def hdr_Del_def values_map_put) (auto simp: map_del_def list_all_iff)

lemma map_put_new: "k \<notin> fst ` set m \<Longrightarrow> map_put k v m = m @ [(k, v)]"
  by (induction m) auto

lemma map_put_last: "k \<notin> fst ` set m \<Longrightarrow> map_put k v (m @ [(k, u)]) = m @ [(k, v)]"
  by (induction m) auto

lemma add_values: "k \<notin> fst ` set m \<Longrightarrow> vs \<noteq> [] \<Longrightarrow> fold (hdr_Add k) vs m = m @ [(k, vs)]"
proof (induction vs rule: rev_induct)
  case (snoc v vs)
  have "map_of (m @ [(k, vs)]) k = Some vs" using snoc.prems by (simp add: map_add_def map_of_eq_None_iff [THEN iffD2] split: option.split)
  then show ?case using snoc by (cases "vs = []") (auto simp: hdr_Add_def hdr_Values_def map_put_new map_put_last map_of_eq_None_iff split: option.split)
qed simp

lemma perform_adds: "perform_all (map (HAdd k) vs) r = r\<lparr>rs_header := fold (hdr_Add k) vs (rs_header r)\<rparr>"
  by (induction vs arbitrary: r) simp_all

lemma copy_headers:
  "gomap (g @ h) \<Longrightarrow> list_all (\<lambda>(k, vs). vs \<noteq> []) h \<Longrightarrow> rs_header r = g \<Longrightarrow>
   perform_all (concat (map (\<lambda>(k, vs). map (HAdd k) vs) h)) r = r\<lparr>rs_header := g @ h\<rparr>"
proof (induction h arbitrary: g r)
  case (Cons p h)
  obtain k vs where p: "p = (k, vs)" by fastforce
  have "fold (hdr_Add k) vs g = g @ [(k, vs)]"
    using Cons.prems by (intro add_values) (auto simp: p gomap_def)
  then show ?case
    using Cons.IH [of "g @ [p]"] Cons.prems by (simp add: p perform_adds)
qed simp

text \<open>The buffer of an orderly handler replays it.\<close>

lemma tw_header_actions:
  "list_all header_action hs \<Longrightarrow>
   fold tw_perform hs tw = tw\<lparr>tw_headers := rs_header (perform_all hs (fresh_response\<lparr>rs_header := tw_headers tw\<rparr>))\<rparr>"
proof (induction hs arbitrary: tw)
  case (Cons a hs)
  then show ?case by (cases a) (simp_all add: fresh_response_def)
qed (simp add: fresh_response_def)

lemma tw_writes:
  "list_all is_write bs \<Longrightarrow> \<not> tw_timedOut tw \<Longrightarrow> fold tw_perform bs tw = tw\<lparr>tw_buf := tw_buf tw @ concat (map written_bytes bs)\<rparr>"
proof (induction bs arbitrary: tw)
  case (Cons a bs)
  then show ?case by (cases a) simp_all
qed simp

lemma full_header_perform: "full_header (rs_header r) \<Longrightarrow> full_header (rs_header (perform a r))"
  by (cases a) (auto simp: send_header_def send_bytes_def Let_def split: option.split)

lemma full_header_perform_all: "full_header (rs_header r) \<Longrightarrow> full_header (rs_header (perform_all acts r))"
  by (induction acts arbitrary: r) (simp_all add: full_header_perform)

lemma send_nothing: "send_header 200 (send_bytes [] r) = send_header 200 r"
  by (auto simp: send_bytes_def send_header_def Let_def split: option.split)

lemma timeout_replays:
  assumes "orderly acts"
  shows "client_sees (tw_flush (fold tw_perform acts new_timeoutWriter)) = client_sees acts"
proof -
  obtain hs ws bs where acts: "acts = hs @ ws @ bs" and hs: "list_all header_action hs" and bs: "list_all is_write bs"
    and ws: "ws = [] \<or> (\<exists>c. ws = [WHeader c] \<and> 200 \<le> c)"
    using assms by (auto simp: orderly_def)
  define r where "r = perform_all hs fresh_response"
  define H where "H = rs_header r"
  define code where "code = (case ws of [WHeader c] \<Rightarrow> c | _ \<Rightarrow> 0)"
  have r: "r = fresh_response\<lparr>rs_header := H\<rparr>"
    using header_actions_send_nothing [OF hs, of fresh_response] by (simp add: r_def H_def fresh_response_def)
  have "full_header H" unfolding H_def r_def by (rule full_header_perform_all) (simp add: fresh_response_def full_header_def)
  then have copy: "perform_all (concat (map (\<lambda>(k, vs). map (HAdd k) vs) H)) fresh_response = r"
    using copy_headers [of "[]" H fresh_response] r by (simp add: fresh_response_def full_header_def)
  have tw: "fold tw_perform acts new_timeoutWriter =
      \<lparr>tw_buf = concat (map written_bytes bs), tw_code = code, tw_headers = H, tw_timedOut = False\<rparr>"
    using ws by (auto simp: acts tw_header_actions [OF hs] tw_writes [OF bs] new_timeoutWriter_def H_def r_def fresh_response_def code_def)
  have "perform_all ws r = (if code \<noteq> 0 then send_header code r else r)" using ws by (auto simp: code_def)
  then have "send_header 200 (perform_all acts fresh_response) =
      send_header 200 (perform_all (tw_flush (fold tw_perform acts new_timeoutWriter)) fresh_response)"
    unfolding tw by (simp add: acts tw_flush_def copy perform_writes [OF bs] r_def [symmetric] send_nothing del: concat_eq_Nil_conv)
  then show ?thesis by (simp add: client_sees_def del: perform_all_simps)
qed

text \<open>
  A response under \<^verbatim>\<open>Timeout\<close> is all or nothing. When the handler returns in time the client gets exactly the response the
  handler would have given without the middleware (for a handler that sets headers, then at most one status, then
  the body); when it does not, the client gets exactly the 503 error and nothing the handler wrote,
  before or after the deadline.
\<close>

theorem timeout_all_or_nothing:
  assumes "next_h r s = (s1, acts, Finished)" and "orderly acts"
  shows "\<exists>acts'. Timeout encode in_time next_h r s = (s1, acts', Finished) \<and>
    client_sees acts' =
      (if in_time s1 then client_sees acts
       else (503, [(''Content-Type'', [''application/json''])], encode (error_body (NewServiceUnavailable ''request timeout'' []))))"
proof -
  have "HTTPStatus (NewServiceUnavailable ''request timeout'' []) = 503"
    by (simp add: NewServiceUnavailable_def HTTPStatus_def httpStatusMap_def code_defs)
  then have "client_sees (error_actions encode (NewServiceUnavailable ''request timeout'' [])) =
      (503, [(''Content-Type'', [''application/json''])], encode (error_body (NewServiceUnavailable ''request timeout'' [])))"
    by (simp add: client_sees_send error_actions_def fresh_response_def send_header_def send_bytes_def body_allowed_def hdr_Set_def Let_def)
  with assms timeout_replays show ?thesis by (simp add: Timeout_def)
qed

text \<open>Two handlers, one fast and one that misses the deadline.\<close>

definition hello :: "int hhandler" where
  "hello r s = (s + 7, [HSet ''Content-Type'' ''text/plain'', WHeader 201, WBytes ''hel'', WBytes ''lo''], Finished)"

lemma timeout_all_or_nothing_witness:
  "(\<exists>acts'. Timeout (\<lambda>_. ''{}'') (\<lambda>s. s < 10) hello r 0 = (7, acts', Finished) \<and>
      client_sees acts' = (201, [(''Content-Type'', [''text/plain''])], ''hello'')) \<and>
   (\<exists>acts'. Timeout (\<lambda>_. ''{}'') (\<lambda>s. s < 10) hello r 5 = (12, acts', Finished) \<and>
      client_sees acts' = (503, [(''Content-Type'', [''application/json''])], ''{}''))"
proof -
  define acts where "acts = [HSet ''Content-Type'' ''text/plain'', WHeader 201, WBytes ''hel'', WBytes ''lo'']"
  have o: "orderly acts"
    unfolding orderly_def acts_def
    by (intro exI [of _ "[HSet ''Content-Type'' ''text/plain'']"] exI [of _ "[WHeader 201]"] exI [of _ "[WBytes ''hel'', WBytes ''lo'']"]) simp
  have c: "client_sees acts = (201, [(''Content-Type'', [''text/plain''])], ''hello'')"
    by (simp add: acts_def client_sees_send fresh_response_def send_header_def send_bytes_def body_allowed_def hdr_Set_def Let_def)
  from timeout_all_or_nothing [OF _ o, where next_h = hello and r = r and s = 0 and encode = "\<lambda>_. ''{}''" and in_time = "\<lambda>s. s < 10"]
    timeout_all_or_nothing [OF _ o, where next_h = hello and r = r and s = 5 and encode = "\<lambda>_. ''{}''" and in_time = "\<lambda>s. s < 10"] c
  show ?thesis by (simp add: hello_def acts_def)
qed

text \<open>A panic under \<^verbatim>\<open>Timeout\<close> is in a goroutine of its own: \<^verbatim>\<open>Recovery\<close> around it does not see it, and the process ends.\<close>

lemma timeout_panic_crashes:
  assumes "next_h r s = (s1, acts, Panicking v)"
  shows "Recovery encode (Timeout encode in_time next_h) r s = (s1, [], ProcessCrash)"
  using assms by (simp add: Recovery_def Timeout_def)

text \<open>Outside \<^verbatim>\<open>orderly\<close> the buffer differs from the writer of the server: the last status wins, not the first.\<close>

lemma timeout_last_status_wins:
  assumes "200 \<le> c" and "200 \<le> d"
  shows "fst (client_sees [WHeader c, WHeader d]) = c"
    and "fst (client_sees (tw_flush (fold tw_perform [WHeader c, WHeader d] new_timeoutWriter))) = d"
  using assms
  by (simp_all add: client_sees_send fresh_response_def send_header_def tw_flush_def new_timeoutWriter_def)

subsection \<open>Compression is transparent\<close>

text \<open>What is relied on: the chunks of a gzip writer decode to what was written_bytes to it, and the first write emits
  something (the gzip header).\<close>

definition gz_fold :: "'z gzip \<Rightarrow> string list \<Rightarrow> 'z \<times> string list" where
  "gz_fold G bs = fold (\<lambda>b (z, cs). case gz_Write G z b of (z', c) \<Rightarrow> (z', cs @ c)) bs (gz_New G, [])"

definition gzip_ok :: "'z gzip \<Rightarrow> (string \<Rightarrow> string option) \<Rightarrow> bool" where
  "gzip_ok G gunzip \<longleftrightarrow>
     (\<forall>b. snd (gz_Write G (gz_New G) b) \<noteq> [])
   \<and> (\<forall>bs z cs. gz_fold G bs = (z, cs) \<longrightarrow> gunzip (concat (cs @ gz_Close G z)) = Some (concat bs))"

fun avoids :: "string \<Rightarrow> action \<Rightarrow> bool" where
  "avoids k (HSet k' v) = (k' \<noteq> k)"
| "avoids k (HAdd k' v) = (k' \<noteq> k)"
| "avoids k (HDel k') = (k' \<noteq> k)"
| "avoids k a = True"

definition encoded :: "Header \<Rightarrow> Header \<Rightarrow> bool" where
  "encoded h h' \<longleftrightarrow> map_of h' = (map_of h)(''Content-Encoding'' \<mapsto> [''gzip''])"

lemma encoded_ops:
  "encoded h h' \<Longrightarrow> k \<noteq> ''Content-Encoding'' \<Longrightarrow> encoded (hdr_Set k v h) (hdr_Set k v h')"
  "encoded h h' \<Longrightarrow> k \<noteq> ''Content-Encoding'' \<Longrightarrow> encoded (hdr_Add k v h) (hdr_Add k v h')"
  "encoded h h' \<Longrightarrow> k \<noteq> ''Content-Encoding'' \<Longrightarrow> encoded (hdr_Del k h) (hdr_Del k h')"
  by (auto simp: encoded_def hdr_Set_def hdr_Add_def hdr_Del_def hdr_Values_def fun_upd_twist)

text \<open>The response of the handler \<open>d\<close> and the one behind the gzip writer \<open>g\<close>, after the writes \<open>bs\<close> and the chunks \<open>cs\<close>.\<close>

definition gz_sim :: "response \<Rightarrow> response \<Rightarrow> string list \<Rightarrow> string list \<Rightarrow> bool" where
  "gz_sim d g bs cs \<longleftrightarrow>
     encoded (rs_header d) (rs_header g)
   \<and> (case rs_sent d of
        None \<Rightarrow> rs_sent g = None \<and> bs = [] \<and> cs = [] \<and> rs_body d = [] \<and> rs_body g = []
      | Some (c, h) \<Rightarrow> (\<exists>h'. rs_sent g = Some (c, h') \<and> encoded h h') \<and> (body_allowed c \<longrightarrow> rs_body d = concat bs \<and> rs_body g = concat cs))"

lemma gz_sim_other:
  assumes "gz_sim d g bs cs" "\<not> is_write a" "avoids ''Content-Encoding'' a"
  shows "gz_sim (perform a d) (perform a g) bs cs"
  using assms by (cases a) (auto simp: gz_sim_def encoded_ops send_header_def split: option.splits)

lemma gz_sim_write:
  assumes "gz_sim d g bs cs" and "bs = [] \<longrightarrow> cs' \<noteq> []"
  shows "gz_sim (send_bytes b d) (perform_all (map WBytes cs') g) (bs @ [b]) (cs @ cs')"
proof -
  have w: "perform_all (map WBytes cs') g = (if cs' = [] then g else send_bytes (concat cs') g)"
    using perform_writes [of "map WBytes cs'" g] by (simp add: list_all_iff comp_def)
  show ?thesis
  proof (cases "rs_sent d")
    case None
    with assms show ?thesis
      by (auto simp: w gz_sim_def send_bytes_def send_header_def body_allowed_def Let_def)
  next
    case (Some p)
    with assms show ?thesis
      by (cases p) (auto simp: w gz_sim_def send_bytes_def send_header_def Let_def split: option.splits)
  qed
qed

lemma gz_sim_loop:
  assumes "gzip_ok G gunzip" and "list_all (avoids ''Content-Encoding'') acts"
    and "gz_sim d (perform_all out fresh_response) bs cs" and "gz_fold G bs = (z, cs)"
    and "fold (gzip_perform G) acts (z, out) = (z', out')"
  shows "\<exists>bs' cs'. gz_fold G bs' = (z', cs') \<and> gz_sim (perform_all acts d) (perform_all out' fresh_response) bs' cs'"
  using assms(2-)
proof (induction acts arbitrary: d out bs cs z)
  case (Cons a acts)
  show ?case
  proof (cases "is_write a")
    case True
    then obtain b where a: "a = WBytes b" by (cases a) auto
    obtain z1 c where w: "gz_Write G z b = (z1, c)" by fastforce
    have "bs = [] \<longrightarrow> c \<noteq> []" using assms(1) Cons.prems(3) w by (auto simp: gzip_ok_def gz_fold_def dest: spec [of _ b])
    then have "gz_sim (send_bytes b d) (perform_all (map WBytes c) (perform_all out fresh_response)) (bs @ [b]) (cs @ c)"
      using Cons.prems(2) by (rule gz_sim_write [rotated])
    moreover have "gz_fold G (bs @ [b]) = (z1, cs @ c)" using Cons.prems(3) w by (simp add: gz_fold_def)
    ultimately show ?thesis using Cons.IH [of "send_bytes b d" "out @ map WBytes c" "bs @ [b]" "cs @ c" z1] Cons.prems by (simp add: a w)
  next
    case False
    then have "gzip_perform G a (z, out) = (z, out @ [a])" by (cases a) auto
    then show ?thesis
      using Cons.IH [of "perform a d" "out @ [a]" bs cs z] Cons.prems gz_sim_other [OF Cons.prems(2) False] by simp
  qed
qed auto

text \<open>
  Compression is transparent. A client that accepts gzip gets the status and the headers the handler gave, with
  \<^verbatim>\<open>Content-Encoding: gzip\<close> added, and a body that decompresses to the handler's body, for every handler that
  leaves the encoding to the middleware; any other client gets the handler's response as it is.
\<close>

theorem compression_transparent:
  assumes "gzip_ok G gunzip" and "next_h r s = (s1, acts, Finished)"
    and "list_all (avoids ''Content-Encoding'') acts" and "list_all (avoids ''Content-Length'') acts"
    and "client_sees acts = (c, h, b)"
  shows "\<exists>acts'. Compression G next_h r s = (s1, acts', Finished) \<and>
    (if accepts_gzip r
     then \<exists>h' b'. client_sees acts' = (c, h', b') \<and> map_of h' = (map_of h)(''Content-Encoding'' \<mapsto> [''gzip'']) \<and>
            (body_allowed c \<longrightarrow> gunzip b' = Some b)
     else acts' = acts)"
proof (cases "accepts_gzip r")
  case True
  define out where "out = [HSet ''Content-Encoding'' ''gzip'', HDel ''Content-Length'']"
  obtain z out' where f: "fold (gzip_perform G) acts (gz_New G, out) = (z, out')" by fastforce
  have "gz_sim fresh_response (perform_all out fresh_response) [] []"
    by (simp add: gz_sim_def out_def fresh_response_def encoded_def hdr_Set_def hdr_Del_def map_del_def)
  from gz_sim_loop [OF assms(1,3) this _ f] obtain bs cs where
    z: "gz_fold G bs = (z, cs)" and sim: "gz_sim (perform_all acts fresh_response) (perform_all out' fresh_response) bs cs"
    by (auto simp: gz_fold_def)
  have dec: "gunzip (concat cs @ concat (gz_Close G z)) = Some (concat bs)" using assms(1) z by (auto simp: gzip_ok_def)
  define g where "g = perform_all out' fresh_response"
  define g' where "g' = perform_all (map WBytes (gz_Close G z)) g"
  have w: "g' = (if gz_Close G z = [] then g else send_bytes (concat (gz_Close G z)) g)"
    using perform_writes [of "map WBytes (gz_Close G z)" g] by (simp add: g'_def list_all_iff comp_def)
  have "\<exists>h' b'. client_sees (out' @ map WBytes (gz_Close G z)) = (c, h', b') \<and> encoded h h' \<and> (body_allowed c \<longrightarrow> gunzip b' = Some b)"
  proof (cases "rs_sent (perform_all acts fresh_response)")
    case None
    with sim assms(5) dec show ?thesis
      by (auto simp: client_sees_send gz_sim_def send_header_def g_def [symmetric] g'_def [symmetric] w send_bytes_def body_allowed_def Let_def)
  next
    case (Some p)
    then have p: "p = (c, h)" "b = rs_body (perform_all acts fresh_response)"
      using assms(5) by (simp_all add: client_sees_send send_header_def split: prod.splits)
    with sim Some obtain h' where g: "rs_sent g = Some (c, h')" "encoded h h'" and bd: "body_allowed c \<longrightarrow> b = concat bs \<and> rs_body g = concat cs"
      by (auto simp: gz_sim_def g_def)
    then have "rs_sent g' = Some (c, h') \<and> (body_allowed c \<longrightarrow> rs_body g' = concat cs @ concat (gz_Close G z))"
      by (simp add: w send_bytes_def send_header_def Let_def)
    then show ?thesis using g bd dec by (simp add: client_sees_send g_def [symmetric] g'_def [symmetric] send_header_def)
  qed
  then show ?thesis using True assms(2) f by (auto simp: Compression_def out_def encoded_def)
qed (simp add: Compression_def assms)

text \<open>A stored format: a byte that starts the stream, the data, a byte that ends it.\<close>

definition store_gzip :: "bool gzip" where
  "store_gzip = \<lparr>gz_New = False, gz_Write = (\<lambda>started b. (True, if started then [b] else [''<'', b])),
     gz_Close = (\<lambda>started. if started then [''>''] else [''<'', ''>''])\<rparr>"

definition store_gunzip :: "string \<Rightarrow> string option" where
  "store_gunzip s = (if s \<noteq> [] \<and> tl s \<noteq> [] then Some (butlast (tl s)) else None)"

lemma store_gzip_ok: "gzip_ok store_gzip store_gunzip"
proof -
  have run: "gz_fold store_gzip bs = (bs \<noteq> [], if bs = [] then [] else ''<'' # bs)" for bs
    by (induction bs rule: rev_induct) (auto simp: gz_fold_def store_gzip_def)
  show ?thesis by (auto simp: gzip_ok_def run) (auto simp: store_gzip_def store_gunzip_def butlast_append)
qed

definition gzip_client :: mw_request where
  "gzip_client = \<lparr>r_Method = ''GET'', r_Header = [(''Accept-Encoding'', [''gzip''])], r_ctx = background, r_params = Map.empty,
     r_Path = ''/'', r_RemoteAddr = [], r_RequestID = None\<rparr>"

lemma compression_transparent_witness:
  "\<exists>acts' h' b'. Compression store_gzip hello gzip_client 0 = (7, acts', Finished) \<and> client_sees acts' = (201, h', b') \<and>
     map_of h' = [''Content-Type'' \<mapsto> [''text/plain''], ''Content-Encoding'' \<mapsto> [''gzip'']] \<and> store_gunzip b' = Some ''hello''"
proof -
  define acts where "acts = [HSet ''Content-Type'' ''text/plain'', WHeader 201, WBytes ''hel'', WBytes ''lo'']"
  have h: "hello gzip_client 0 = (7, acts, Finished)" by (simp add: hello_def acts_def)
  have c: "client_sees acts = (201, [(''Content-Type'', [''text/plain''])], ''hello'')"
    by (simp add: acts_def client_sees_send fresh_response_def send_header_def send_bytes_def body_allowed_def hdr_Set_def Let_def)
  have a: "accepts_gzip gzip_client" by code_simp
  have "list_all (avoids ''Content-Encoding'') acts" "list_all (avoids ''Content-Length'') acts" by (simp_all add: acts_def)
  from compression_transparent [where next_h = hello and r = gzip_client and s = 0, OF store_gzip_ok h this c] a show ?thesis by (auto simp: body_allowed_def)
qed

text \<open>
  Outside these theorems: a length the handler declares is kept although the body is compressed; a panic is answered with
  the status 200 when \<^verbatim>\<open>Recovery\<close> stands outside \<^verbatim>\<open>Compression\<close>, because closing the gzip stream sends it; and
  \<^verbatim>\<open>SelectiveCompression\<close> compresses without saying so when the handler calls \<^verbatim>\<open>WriteHeader\<close> before it writes.
\<close>

lemma compression_keeps_declared_length:
  "(\<lambda>(c, h, b). (hdr_Get h ''Content-Length'', length b))
     (client_sees (fst (snd (Compression store_gzip (\<lambda>r s :: nat. (s, [HSet ''Content-Length'' ''2'', WBytes ''ok''], Finished)) gzip_client 0))))
   = (''2'', 4)"
  by code_simp

lemma panic_under_compression_is_200:
  assumes "accepts_gzip r" and "next_h r s = (s1, [], Panicking v)" and "gz_Close G (gz_New G) \<noteq> []"
  shows "case Recovery encode (Compression G next_h) r s of (_, acts, e) \<Rightarrow> e = Finished \<and> fst (client_sees acts) = 200"
proof -
  obtain c cs where cs: "gz_Close G (gz_New G) = c # cs" using assms(3) by (cases "gz_Close G (gz_New G)") auto
  define r1 where "r1 = perform_all [HSet ''Content-Encoding'' ''gzip'', HDel ''Content-Length'', WBytes c] fresh_response"
  have "\<exists>h. rs_sent r1 = Some (200, h)" by (simp add: r1_def fresh_response_def send_bytes_def send_header_def body_allowed_def Let_def)
  then obtain h where "rs_sent r1 = Some (200, h)" ..
  from sent_stays_all [OF this, of "map WBytes cs @ error_actions encode (NewInternal ''internal server error'' [])"]
  show ?thesis using assms(1,2) cs by (simp add: Recovery_def Compression_def client_sees_send send_header_def r1_def)
qed

lemma selective_compression_unlabelled:
  "(\<lambda>(c, h, b). (hdr_Get h ''Content-Encoding'', b))
     (client_sees (fst (snd (SelectiveCompression store_gzip [] [] (\<lambda>r s :: nat. (s, [HSet ''Content-Type'' ''text/plain'', WHeader 200, WBytes ''ok''], Finished))
        gzip_client 0)))) = ([], ''<ok>'')"
  by code_simp

subsection \<open>The standard stack\<close>

lemma header_kept:
  assumes "list_all (avoids k) acts" and "rs_sent r = None"
  shows "rs_sent (send_header 200 (perform_all acts r)) = Some (c, h) \<Longrightarrow> hdr_Values h k = hdr_Values (rs_header r) k"
  using assms
proof (induction acts arbitrary: r)
  case Nil
  then show ?case by (auto simp: send_header_def)
next
  case (Cons a acts)
  have same: "hdr_Values (rs_header (perform a r)) k = hdr_Values (rs_header r) k"
    using Cons.prems(2) by (cases a) (auto simp: hdr_Values_def hdr_Set_def hdr_Add_def hdr_Del_def send_header_def send_bytes_def Let_def split: option.split)
  show ?case
  proof (cases "rs_sent (perform a r)")
    case None
    then show ?thesis using Cons same by simp
  next
    case (Some p)
    then have "p = (c, h)" using sent_stays_all [OF Some, of acts] Cons.prems(1) by (simp add: send_header_def)
    then have "h = rs_header r" using Some Cons.prems(3) by (cases a) (auto simp: send_header_def send_bytes_def Let_def split: if_splits)
    then show ?thesis by simp
  qed
qed

text \<open>Headers set before do not change what is sent as status and body.\<close>

definition same_sent :: "response \<Rightarrow> response \<Rightarrow> bool" where
  "same_sent r r' \<longleftrightarrow> rs_body r = rs_body r' \<and> map_option fst (rs_sent r) = map_option fst (rs_sent r')"

lemma same_sent_header: "same_sent r r' \<Longrightarrow> same_sent (r\<lparr>rs_header := x\<rparr>) (r'\<lparr>rs_header := y\<rparr>)"
  by (simp add: same_sent_def)

lemma same_sent_send: "same_sent r r' \<Longrightarrow> same_sent (send_header c r) (send_header c r')"
  by (cases "rs_sent r"; cases "rs_sent r'") (simp_all add: same_sent_def send_header_def)

lemma same_sent_bytes: "same_sent r r' \<Longrightarrow> same_sent (send_bytes b r) (send_bytes b r')"
  using same_sent_send [of r r' 200]
  by (cases "rs_sent (send_header 200 r)"; cases "rs_sent (send_header 200 r')") (auto simp: same_sent_def send_bytes_def Let_def)

lemma body_ignores_headers: "same_sent r r' \<Longrightarrow> same_sent (perform_all acts r) (perform_all acts r')"
proof (induction acts arbitrary: r r')
  case (Cons a acts)
  then have "same_sent (perform a r) (perform a r')" by (cases a) (simp_all add: same_sent_header same_sent_send same_sent_bytes)
  with Cons.IH show ?case by simp
qed simp

lemma orderly_status:
  assumes "orderly acts" and "rs_sent r = None" and "rs_sent (send_header 200 (perform_all acts r)) = Some (c, h)"
  shows "c = rw_status acts"
proof -
  obtain hs ws bs where acts: "acts = hs @ ws @ bs" and hs: "list_all header_action hs" and bs: "list_all is_write bs"
    and ws: "ws = [] \<or> (\<exists>c. ws = [WHeader c] \<and> 200 \<le> c)"
    using assms(1) by (auto simp: orderly_def)
  have st: "fold (\<lambda>a st. case a of WHeader c \<Rightarrow> c | _ \<Rightarrow> st) xs n = n" if "list_all (\<lambda>a. header_action a \<or> is_write a) xs" for xs and n :: int
    using that
  proof (induction xs)
    case (Cons a xs)
    then show ?case by (cases a) auto
  qed simp
  have rw: "rw_status acts = (case ws of [WHeader c] \<Rightarrow> c | _ \<Rightarrow> 200)"
    using ws st [of hs] st [of bs] hs bs by (auto simp: rw_status_def acts list_all_iff)
  have n: "rs_sent (perform_all hs r) = None" using header_actions_send_nothing [OF hs] assms(2) by simp
  show ?thesis
  proof (cases "ws = []")
    case True
    then show ?thesis
      using assms(3) n rw by (auto simp: acts perform_writes [OF bs] send_bytes_def send_header_def Let_def split: if_splits)
  next
    case False
    with ws obtain d where d: "ws = [WHeader d]" "200 \<le> d" by blast
    then have "rs_sent (perform_all ws (perform_all hs r)) = Some (d, rs_header (perform_all hs r))" using n by (simp add: send_header_def)
    from sent_stays_all [OF this, of bs] show ?thesis using assms(3) rw d by (simp add: acts send_header_def)
  qed
qed

text \<open>The handler of a service inside the stack: behind CORS, compression and the middleware of chi.\<close>

definition inside :: "('s, 'z) stack_env \<Rightarrow> int \<Rightarrow> 's hhandler \<Rightarrow> 's hhandler" where
  "inside E timeout h = CORS DefaultCORSConfig (Compression (se_gzip E) (se_Recoverer E (se_Timeout E timeout h)))"

text \<open>
  Every request has one id. Under \<^verbatim>\<open>StandardStack\<close> the id of the incoming header, or a new one when there is none, is the one the
  handler finds in its context, the one in the log line of the request and, unless the handler itself sets the header, the
  one the client gets back. The log line has the number of bytes the client got and, when the response is sent in
  order (headers, one status, body), its status.
\<close>

theorem standard_stack_correlates:
  assumes "se_RealIP E = (\<lambda>h r. h (r\<lparr>r_RemoteAddr := ip r\<rparr>))"
    and "(if hdr_Get (r_Header r) ''X-Request-Id'' = [] then se_NewString E s else (s, hdr_Get (r_Header r) ''X-Request-Id'')) = (s1, i)"
    and "inside E timeout h (r\<lparr>r_RequestID := Some i, r_RemoteAddr := ip (r\<lparr>r_RequestID := Some i\<rparr>)\<rparr>) s1 = (s2, acts, Finished)"
    and "list_all (avoids ''X-Request-Id'') acts"
  shows "\<exists>acts' line c hs b. StandardStack E timeout h r s = (se_info E line s2, acts', Finished) \<and> ll_request_id line = i \<and>
    client_sees acts' = (c, hs, b) \<and> hdr_Values hs ''X-Request-Id'' = [i] \<and> (orderly acts \<longrightarrow> ll_status line = c) \<and> ll_bytes line = int (length b)"
proof -
  define r1 where "r1 = perform (HSet ''X-Request-Id'' i) fresh_response"
  have r1: "rs_sent r1 = None" "hdr_Values (rs_header r1) ''X-Request-Id'' = [i]"
    by (simp_all add: r1_def fresh_response_def hdr_Values_def hdr_Set_def)
  have sent: "\<exists>c hs. rs_sent (send_header 200 (perform_all acts r1)) = Some (c, hs)"
    by (cases "rs_sent (perform_all acts r1)") (auto simp: send_header_def)
  then obtain c hs where s: "rs_sent (send_header 200 (perform_all acts r1)) = Some (c, hs)" by blast
  note v = header_kept [OF assms(4) r1(1) s]
  have b: "rs_body (perform_all acts r1) = rs_body (perform_all acts fresh_response)"
    using body_ignores_headers [of r1 fresh_response acts] by (simp add: same_sent_def r1_def fresh_response_def)
  define line where "line = \<lparr>ll_method = r_Method r, ll_path = r_Path r, ll_status = rw_status acts, ll_duration = se_clock E s2 - se_clock E s1,
    ll_bytes = rw_bytes acts, ll_request_id = i, ll_remote_addr = ip (r\<lparr>r_RequestID := Some i\<rparr>)\<rparr>"
  have "StandardStack E timeout h r s = (se_info E line s2, HSet ''X-Request-Id'' i # acts, Finished)"
    using assms(1-3) by (simp add: StandardStack_def RequestID_def inside_def Logger_def RequestIDFromCtx_def before_next_def line_def)
  moreover have "client_sees (HSet ''X-Request-Id'' i # acts) = (c, hs, rs_body (perform_all acts r1))"
    using s by (simp add: client_sees_send r1_def)
  moreover have "orderly acts \<longrightarrow> ll_status line = c" using orderly_status [OF _ r1(1) s] by (simp add: line_def)
  moreover have "ll_request_id line = i" "ll_bytes line = int (length (rs_body (perform_all acts r1)))"
    by (simp_all add: line_def rw_bytes_def b)
  ultimately show ?thesis using v [unfolded r1(2)] by blast
qed

text \<open>A request without an id through the stack around a small handler.\<close>

definition demo_stack :: "(int \<times> log_line list, bool) stack_env" where
  "demo_stack = \<lparr>se_NewString = (\<lambda>(t, lg). ((t, lg), ''id-'' @ itoa t)), se_RealIP = (\<lambda>h r. h (r\<lparr>r_RemoteAddr := ''10.0.0.1''\<rparr>)),
     se_info = (\<lambda>l (t, lg). (t, lg @ [l])), se_clock = fst, se_gzip = store_gzip, se_Recoverer = (\<lambda>h. h), se_Timeout = (\<lambda>d h. h),
     se_otelhttp = (\<lambda>h. h)\<rparr>"

definition plain_client :: mw_request where
  "plain_client = \<lparr>r_Method = ''GET'', r_Header = [], r_ctx = background, r_params = Map.empty, r_Path = ''/'', r_RemoteAddr = [], r_RequestID = None\<rparr>"

definition demo_handler :: "(int \<times> log_line list) hhandler" where
  "demo_handler r s = ((fst s + 7, snd s), [HSet ''Content-Type'' ''text/plain'', WHeader 201, WBytes ''hello''], Finished)"

lemma standard_stack_correlates_witness:
  "\<exists>acts' line c hs b. StandardStack demo_stack 30 demo_handler plain_client (5, []) = (se_info demo_stack line (12, []), acts', Finished) \<and>
     ll_request_id line = ''id-5'' \<and> client_sees acts' = (c, hs, b) \<and> hdr_Values hs ''X-Request-Id'' = [''id-5'']"
proof -
  define acts where "acts = cors_headers DefaultCORSConfig [] @ [HSet ''Content-Type'' ''text/plain'', WHeader 201, WBytes ''hello'']"
  have "\<not> accepts_gzip (plain_client\<lparr>r_RequestID := Some ''id-5'', r_RemoteAddr := ''10.0.0.1''\<rparr>)" by (simp add: accepts_gzip_def plain_client_def contains_def)
  then have "inside demo_stack 30 demo_handler (plain_client\<lparr>r_RequestID := Some ''id-5'', r_RemoteAddr := ''10.0.0.1''\<rparr>) (5, []) = ((12, []), acts, Finished)"
    by (simp add: inside_def demo_stack_def demo_handler_def plain_client_def CORS_def Compression_def before_next_def acts_def)
  moreover have "list_all (avoids ''X-Request-Id'') acts" by (simp add: acts_def cors_headers_def DefaultCORSConfig_def Let_def)
  moreover have "itoa 5 = ''5''" by code_simp
  then have "(if hdr_Get (r_Header plain_client) ''X-Request-Id'' = [] then se_NewString demo_stack (5, [])
      else ((5, []), hdr_Get (r_Header plain_client) ''X-Request-Id'')) = ((5, []), ''id-5'')" by (simp add: plain_client_def demo_stack_def)
  moreover have "se_RealIP demo_stack = (\<lambda>h r. h (r\<lparr>r_RemoteAddr := ''10.0.0.1''\<rparr>))" by (simp add: demo_stack_def)
  ultimately show ?thesis
    using standard_stack_correlates [where E = demo_stack and timeout = 30 and h = demo_handler and r = plain_client and s = "(5, [])"
        and ip = "\<lambda>_. ''10.0.0.1''"] by blast
qed

subsection \<open>CORS\<close>

text \<open>Only a configured origin, or the wildcard, is ever announced, and a pre-flight request never reaches the handler.\<close>

lemma cors_announces_configured:
  assumes "allowed_origin cfg origin \<noteq> []"
  shows "allowed_origin cfg origin \<in> set (AllowedOrigins cfg) \<and> (allowed_origin cfg origin = ''*'' \<or> allowed_origin cfg origin = origin)"
proof (cases "find (\<lambda>x. x = ''*'' \<or> x = origin) (AllowedOrigins cfg)")
  case (Some x)
  then have "x \<in> set (AllowedOrigins cfg) \<and> (x = ''*'' \<or> x = origin)" unfolding find_Some_iff by (metis nth_mem)
  with Some show ?thesis by (simp add: allowed_origin_def)
qed (use assms in \<open>simp add: allowed_origin_def\<close>)

lemma cors_preflight: "r_Method r = ''OPTIONS'' \<Longrightarrow> fst (CORS cfg next_h r s) = s \<and> fst (client_sees (fst (snd (CORS cfg next_h r s)))) = 204"
proof -
  assume "r_Method r = ''OPTIONS''"
  moreover have "list_all header_action (cors_headers cfg origin)" for origin by (simp add: cors_headers_def Let_def)
  from header_actions_send_nothing [OF this, of _ fresh_response]
  have "rs_sent (perform_all (cors_headers cfg origin) fresh_response) = None" for origin by (simp add: fresh_response_def)
  ultimately show ?thesis by (simp add: CORS_def before_next_def client_sees_send send_header_def)
qed

end
