(* ===== verification/RequestLimits.thy ===== *)
theory RequestLimits
  imports HttpMiddleware "HOL-Library.Sublist"
begin

text \<open>
  Package \<^verbatim>\<open>middleware\<close>, second part: rate limits per client and endpoint (\<^verbatim>\<open>ratelimit.go\<close>), the audit worker with its bounded queue
  (\<^verbatim>\<open>audit.go\<close>) and the checks on uploads (\<^verbatim>\<open>upload.go\<close>). The limiter of \<^verbatim>\<open>golang.org/x/time/rate\<close>, the parser of multipart
  forms and content sniffing are parameters.
\<close>

subsection \<open>Rate limits (ratelimit.go)\<close>

record 'l rate_lib =
  rate_NewLimiter :: "int \<Rightarrow> int \<Rightarrow> 'l"
  lim_Allow :: "int \<Rightarrow> 'l \<Rightarrow> 'l \<times> bool"
  lim_Tokens :: "int \<Rightarrow> 'l \<Rightarrow> int"

record RateLimitConfig =
  RequestsPerSecond :: int
  BurstSize :: int
  PerUser :: bool

record 'l RateLimiter =
  rl_limiters :: "(string \<times> 'l) list"
  rl_cfg :: RateLimitConfig

definition limit_defaults :: "RateLimitConfig \<Rightarrow> RateLimitConfig" where
  "limit_defaults cfg =
     (let cfg1 = (if RequestsPerSecond cfg = 0 then cfg\<lparr>RequestsPerSecond := 100\<rparr> else cfg)
      in if BurstSize cfg1 = 0 then cfg1\<lparr>BurstSize := RequestsPerSecond cfg1\<rparr> else cfg1)"

definition NewRateLimiter :: "RateLimitConfig \<Rightarrow> 'l RateLimiter" where
  "NewRateLimiter cfg = \<lparr>rl_limiters = [], rl_cfg = limit_defaults cfg\<rparr>"

definition getLimiter :: "'l rate_lib \<Rightarrow> 'l RateLimiter \<Rightarrow> string \<Rightarrow> 'l" where
  "getLimiter L rl key =
     (case map_of (rl_limiters rl) key of
        Some l \<Rightarrow> l
      | None \<Rightarrow> rate_NewLimiter L (RequestsPerSecond (rl_cfg rl)) (BurstSize (rl_cfg rl)))"

definition getKey :: "RateLimitConfig \<Rightarrow> mw_request \<Rightarrow> string" where
  "getKey cfg r =
     (case (if PerUser cfg then UserFromCtx (r_ctx r) else None) of
        Some user \<Rightarrow> if u_ID user \<noteq> [] then ''user:'' @ u_ID user else ''ip:'' @ (let ip = hdr_Get (r_Header r) ''X-Forwarded-For'' in if ip = [] then r_RemoteAddr r else ip)
      | None \<Rightarrow> ''ip:'' @ (let ip = hdr_Get (r_Header r) ''X-Forwarded-For'' in if ip = [] then r_RemoteAddr r else ip))"

text \<open>The decision on one request: the limiter of its key is created if needed and asked; it stays in the map.\<close>

definition rl_admit :: "'l rate_lib \<Rightarrow> int \<Rightarrow> string \<Rightarrow> 'l RateLimiter \<Rightarrow> 'l RateLimiter \<times> 'l \<times> bool" where
  "rl_admit L now key rl =
     (case lim_Allow L now (getLimiter L rl key) of
        (l, ok) \<Rightarrow> (rl\<lparr>rl_limiters := map_put key l (rl_limiters rl)\<rparr>, l, ok))"

definition too_many :: "(DxErrorResponse \<Rightarrow> string) \<Rightarrow> RateLimitConfig \<Rightarrow> action list" where
  "too_many encode cfg =
     error_actions encode (NewTooManyRequests (''rate limit exceeded: '' @ itoa (RequestsPerSecond cfg) @ '' requests per second'') [])"

definition limit_headers :: "'l rate_lib \<Rightarrow> int \<Rightarrow> RateLimitConfig \<Rightarrow> 'l \<Rightarrow> action list" where
  "limit_headers L now cfg l =
     [HSet ''X-Ratelimit-Limit'' (itoa (RequestsPerSecond cfg)), HSet ''X-Ratelimit-Remaining'' (itoa (lim_Tokens L now l))]"


record 'l RateLimitByEndpoint =
  rbe_limiters :: "(string \<times> 'l RateLimiter) list"
  rbe_defaults :: RateLimitConfig

definition NewRateLimitByEndpoint :: "RateLimitConfig \<Rightarrow> 'l RateLimitByEndpoint" where
  "NewRateLimitByEndpoint defaults = \<lparr>rbe_limiters = [], rbe_defaults = defaults\<rparr>"

definition SetLimit :: "string \<Rightarrow> RateLimitConfig \<Rightarrow> 'l RateLimitByEndpoint \<Rightarrow> 'l RateLimitByEndpoint" where
  "SetLimit pattern cfg rbe = rbe\<lparr>rbe_limiters := map_put pattern (NewRateLimiter cfg) (rbe_limiters rbe)\<rparr>"

text \<open>The limiter of a path and the pattern it is kept under; the default one is kept nowhere.\<close>

definition GetLimiter :: "string \<Rightarrow> 'l RateLimitByEndpoint \<Rightarrow> string option \<times> 'l RateLimiter" where
  "GetLimiter path rbe =
     (case map_of (rbe_limiters rbe) path of
        Some rl \<Rightarrow> (Some path, rl)
      | None \<Rightarrow>
          (case map_of (rbe_limiters rbe) ''*'' of
             Some rl \<Rightarrow> (Some ''*'', rl)
           | None \<Rightarrow> (None, NewRateLimiter (rbe_defaults rbe))))"

definition rbe_Middleware ::
  "'l rate_lib \<Rightarrow> ('s \<Rightarrow> int) \<Rightarrow> (DxErrorResponse \<Rightarrow> string) \<Rightarrow> 's hhandler \<Rightarrow> ('l RateLimitByEndpoint \<times> 's) hhandler" where
  "rbe_Middleware L clock encode next_h r st =
     (case st of
        (rbe, s) \<Rightarrow>
          (case GetLimiter (r_Path r) rbe of
             (at, rl) \<Rightarrow>
               (case rl_admit L (clock s) (getKey (rl_cfg rl) r) rl of
                  (rl1, l, ok) \<Rightarrow>
                    (let rbe1 = (case at of Some p \<Rightarrow> rbe\<lparr>rbe_limiters := map_put p rl1 (rbe_limiters rbe)\<rparr> | None \<Rightarrow> rbe)
                     in if \<not> ok then ((rbe1, s), too_many encode (rl_cfg rl), Finished)
                        else (case next_h r s of
                                (s1, acts, e) \<Rightarrow> ((rbe1, s1), limit_headers L (clock s) (rl_cfg rl) l @ acts, e))))))"

subsection \<open>One bucket per client\<close>


fun admits :: "'l rate_lib \<Rightarrow> (string \<times> int) list \<Rightarrow> 'l RateLimiter \<Rightarrow> bool list" where
  "admits L [] rl = []"
| "admits L ((key, now) # xs) rl = (case rl_admit L now key rl of (rl1, l, ok) \<Rightarrow> ok # admits L xs rl1)"

text \<open>The decisions of one limiter.\<close>

fun run_one :: "'l rate_lib \<Rightarrow> 'l \<Rightarrow> int list \<Rightarrow> bool list" where
  "run_one L l [] = []"
| "run_one L l (t # ts) = (case lim_Allow L t l of (l', ok) \<Rightarrow> ok # run_one L l' ts)"

lemma length_run_one [simp]: "length (run_one L l ts) = length ts"
  by (induction ts arbitrary: l) (auto split: prod.split)

lemma length_admits [simp]: "length (admits L xs rl) = length xs"
  by (induction L xs rl rule: admits.induct) (auto split: prod.split)

















definition from_ip :: "string \<Rightarrow> mw_request" where
  "from_ip a = plain_client\<lparr>r_RemoteAddr := a\<rparr>"

definition limit_one :: RateLimitConfig where
  "limit_one = \<lparr>RequestsPerSecond = 1, BurstSize = 1, PerUser = False\<rparr>"


text \<open>Without a limit for its path and without a wildcard a request meets a full bucket, and nothing is kept of it.\<close>

lemma default_limit_not_kept:
  assumes "map_of (rbe_limiters rbe) (r_Path r) = None" and "map_of (rbe_limiters rbe) ''*'' = None"
    and "snd (lim_Allow L (clock s) (rate_NewLimiter L (RequestsPerSecond (limit_defaults (rbe_defaults rbe))) (BurstSize (limit_defaults (rbe_defaults rbe)))))"
  shows "\<exists>hs. rbe_Middleware L clock encode next_h r (rbe, s) = (case next_h r s of (s1, acts, e) \<Rightarrow> ((rbe, s1), hs @ acts, e))"
  using assms
  by (auto simp: rbe_Middleware_def GetLimiter_def rl_admit_def getLimiter_def NewRateLimiter_def split: prod.split)

text \<open>A client that is not logged in chooses its bucket with a header of its own.\<close>

lemma forwarded_header_chooses_bucket:
  assumes "map_of (rl_limiters rl) (''ip:'' @ a) = None" and "a \<noteq> []" and "hdr_Get (r_Header r) ''X-Forwarded-For'' = a"
    and "PerUser (rl_cfg rl) \<longrightarrow> UserFromCtx (r_ctx r) = None"
  shows "getLimiter L rl (getKey (rl_cfg rl) r) = rate_NewLimiter L (RequestsPerSecond (rl_cfg rl)) (BurstSize (rl_cfg rl))"
  using assms by (auto simp: getKey_def getLimiter_def)

text \<open>The address of a peer has its port: two connections from one host have a bucket each.\<close>

lemma connections_have_own_buckets:
  "getKey limit_one (from_ip ''10.0.0.1:1000'') \<noteq> getKey limit_one (from_ip ''10.0.0.1:1001'')"
  by (simp add: getKey_def limit_one_def from_ip_def plain_client_def Let_def)

subsection \<open>Audit events (audit.go)\<close>

record AuditEvent =
  ae_RequestID :: string
  ae_UserID :: string
  ae_Action :: string
  ae_Resource :: string
  ae_ResourceID :: string
  ae_Method :: string
  ae_Path :: string
  ae_StatusCode :: int
  ae_Timestamp :: int

text \<open>The worker: the channel with its capacity, the event its goroutine is emitting, and what has been handed to the emitter.\<close>

record AuditWorker =
  aw_events :: "AuditEvent list"
  aw_cap :: nat
  aw_closed :: bool
  aw_current :: "AuditEvent option"
  aw_emitted :: "AuditEvent list"

definition NewAuditWorker :: "int \<Rightarrow> AuditWorker" where
  "NewAuditWorker queueSize =
     \<lparr>aw_events = [], aw_cap = nat (if queueSize \<le> 0 then 256 else queueSize), aw_closed = False, aw_current = None, aw_emitted = []\<rparr>"

text \<open>\<open>None\<close> is the panic of a send on a closed channel.\<close>

definition aw_Send :: "AuditEvent \<Rightarrow> AuditWorker \<Rightarrow> AuditWorker option" where
  "aw_Send event w =
     (if aw_closed w then None
      else if length (aw_events w) < aw_cap w then Some (w\<lparr>aw_events := aw_events w @ [event]\<rparr>)
      else Some w)"

text \<open>One step of \<^verbatim>\<open>drain\<close>: take the next event, or finish emitting the current one (a failure is only logged).\<close>

definition drain_step :: "AuditWorker \<Rightarrow> AuditWorker option" where
  "drain_step w =
     (case aw_current w of
        Some e \<Rightarrow> Some (w\<lparr>aw_current := None, aw_emitted := aw_emitted w @ [e]\<rparr>)
      | None \<Rightarrow> (case aw_events w of [] \<Rightarrow> None | e # es \<Rightarrow> Some (w\<lparr>aw_current := Some e, aw_events := es\<rparr>)))"

text \<open>\<^verbatim>\<open>Stop\<close> closes the channel and waits until \<^verbatim>\<open>drain\<close> has emptied it; closing twice panics.\<close>

function drain_all :: "AuditWorker \<Rightarrow> AuditWorker" where
  "drain_all w = (case drain_step w of None \<Rightarrow> w | Some w' \<Rightarrow> drain_all w')"
  by pat_completeness auto
termination
  by (relation "measure (\<lambda>w. 2 * length (aw_events w) + (if aw_current w = None then 0 else 1))")
    (auto simp: drain_step_def split: option.splits list.splits)

definition aw_Stop :: "AuditWorker \<Rightarrow> AuditWorker option" where
  "aw_Stop w = (if aw_closed w then None else Some (drain_all (w\<lparr>aw_closed := True\<rparr>)))"

definition AuditWithWorker :: "('s \<Rightarrow> int) \<Rightarrow> string \<Rightarrow> string \<Rightarrow> 's hhandler \<Rightarrow> (AuditWorker \<times> 's) hhandler" where
  "AuditWithWorker clock resource action_name next_h r st =
     (case st of
        (w, s) \<Rightarrow>
          (case next_h r s of
             (s1, acts, Finished) \<Rightarrow>
               (case aw_Send
                       \<lparr>ae_RequestID = RequestIDFromCtx r,
                        ae_UserID = (case UserFromCtx (r_ctx r) of Some u \<Rightarrow> u_ID u | None \<Rightarrow> []),
                        ae_Action = action_name, ae_Resource = resource, ae_ResourceID = [], ae_Method = r_Method r, ae_Path = r_Path r,
                        ae_StatusCode = rw_status acts, ae_Timestamp = clock s1\<rparr> w of
                  Some w1 \<Rightarrow> ((w1, s1), acts, Finished)
                | None \<Rightarrow> ((w, s1), acts, Panicking (PanicOther ''send on closed channel'')))
           | (s1, acts, e) \<Rightarrow> ((w, s1), acts, e)))"

definition Audit :: "('s \<Rightarrow> int) \<Rightarrow> string \<Rightarrow> string \<Rightarrow> 's hhandler \<Rightarrow> 's \<Rightarrow> mw_request \<Rightarrow> (AuditWorker \<times> 's) served" where
  "Audit clock resource action_name next_h s r = AuditWithWorker clock resource action_name next_h r (NewAuditWorker 256, s)"

text \<open>The worker as a state machine: requests send, the goroutine drains, the service stops it. The last two parts of a state are
  the events that were sent and those that were accepted.\<close>

inductive audit_run :: "nat \<Rightarrow> AuditWorker \<Rightarrow> AuditEvent list \<Rightarrow> AuditEvent list \<Rightarrow> bool" for cap where
  start: "audit_run cap \<lparr>aw_events = [], aw_cap = cap, aw_closed = False, aw_current = None, aw_emitted = []\<rparr> [] []"
| accept: "audit_run cap w sent acc \<Longrightarrow> \<not> aw_closed w \<Longrightarrow> length (aw_events w) < cap \<Longrightarrow> aw_Send e w = Some w' \<Longrightarrow>
    audit_run cap w' (sent @ [e]) (acc @ [e])"
| reject: "audit_run cap w sent acc \<Longrightarrow> \<not> aw_closed w \<Longrightarrow> length (aw_events w) = cap \<Longrightarrow> aw_Send e w = Some w' \<Longrightarrow>
    audit_run cap w' (sent @ [e]) acc"
| drain: "audit_run cap w sent acc \<Longrightarrow> drain_step w = Some w' \<Longrightarrow> audit_run cap w' sent acc"
| stop: "audit_run cap w sent acc \<Longrightarrow> aw_Stop w = Some w' \<Longrightarrow> audit_run cap w' sent acc"

definition pending :: "AuditWorker \<Rightarrow> AuditEvent list" where
  "pending w = aw_emitted w @ (case aw_current w of Some e \<Rightarrow> [e] | None \<Rightarrow> []) @ aw_events w"

lemma drain_step_pending: "drain_step w = Some w' \<Longrightarrow> pending w' = pending w \<and> length (aw_events w') \<le> length (aw_events w) \<and> aw_cap w' = aw_cap w \<and> aw_closed w' = aw_closed w"
  by (auto simp: drain_step_def pending_def split: option.splits list.splits)

lemma drain_all_pending:
  "aw_emitted (drain_all w) = pending w \<and> aw_events (drain_all w) = [] \<and> aw_current (drain_all w) = None \<and>
   aw_cap (drain_all w) = aw_cap w \<and> aw_closed (drain_all w) = aw_closed w"
proof (induction w rule: drain_all.induct)
  case (1 w)
  show ?case
  proof (cases "drain_step w")
    case None
    then show ?thesis by (simp add: pending_def) (auto simp: drain_step_def split: option.splits list.splits)
  next
    case (Some w')
    with 1 drain_step_pending [OF Some] show ?thesis by (simp add: Some del: drain_all.simps) (simp add: Some)
  qed
qed

declare drain_all.simps [simp del]

lemma audit_invariant:
  "audit_run cap w sent acc \<Longrightarrow>
   pending w = acc \<and> subseq acc sent \<and> length (aw_events w) \<le> cap \<and> aw_cap w = cap \<and> (length sent \<le> cap \<longrightarrow> acc = sent) \<and>
   (aw_closed w \<longrightarrow> aw_emitted w = acc)"
proof (induction rule: audit_run.induct)
  case start
  then show ?case by (simp add: pending_def)
next
  case (accept w sent acc e w')
  then have w': "w' = w\<lparr>aw_events := aw_events w @ [e]\<rparr>" by (simp add: aw_Send_def)
  with accept show ?case by (auto simp: pending_def list_emb_append_mono)
next
  case (reject w sent acc e w')
  then have w': "w' = w" by (auto simp: aw_Send_def)
  have "length (aw_events w) \<le> length (pending w)" by (simp add: pending_def)
  then have "cap \<le> length (pending w)" using reject(3) by simp
  moreover have "length acc \<le> length sent" using reject by (auto dest: list_emb_length)
  ultimately have "\<not> length (sent @ [e]) \<le> cap" using reject by auto
  with reject w' show ?case by (auto intro: subseq_order.order_trans)
next
  case (drain w sent acc w')
  then show ?case using drain_step_pending [of w w']
    by (auto simp: drain_step_def pending_def split: option.splits list.splits)
next
  case (stop w sent acc w')
  then have w': "w' = drain_all (w\<lparr>aw_closed := True\<rparr>)" by (auto simp: aw_Stop_def split: if_splits)
  have "pending (w\<lparr>aw_closed := True\<rparr>) = pending w" by (simp add: pending_def)
  with stop w' drain_all_pending [of "w\<lparr>aw_closed := True\<rparr>"] show ?case by (simp add: pending_def)
qed

text \<open>
  C40: Audit events are emitted in order and at most once, and lost only when the queue is full. In every interleaving of requests, the
  draining goroutine and \<^verbatim>\<open>Stop\<close>: what was emitted, the event in work and the queue are together exactly the accepted events in the order
  they were sent; the queue never exceeds its capacity; no event is lost while no more than its capacity were sent; and
  when \<^verbatim>\<open>Stop\<close> has returned every accepted event was emitted.
\<close>

theorem audit_events_in_order:
  assumes "audit_run cap w sent acc"
  shows "aw_emitted w @ (case aw_current w of Some e \<Rightarrow> [e] | None \<Rightarrow> []) @ aw_events w = acc \<and> subseq acc sent \<and>
    length (aw_events w) \<le> cap \<and> (length sent \<le> cap \<longrightarrow> acc = sent) \<and> (aw_closed w \<longrightarrow> aw_emitted w = acc)"
  using audit_invariant [OF assms] by (simp add: pending_def)

definition demo_event :: "string \<Rightarrow> AuditEvent" where
  "demo_event i = \<lparr>ae_RequestID = i, ae_UserID = [], ae_Action = ''read'', ae_Resource = ''dataset'', ae_ResourceID = [], ae_Method = ''GET'',
     ae_Path = ''/'', ae_StatusCode = 200, ae_Timestamp = 0\<rparr>"

text \<open>A queue of one: the second event is dropped while the first waits, the third is accepted after it was taken.\<close>

lemma audit_events_in_order_witness:
  "\<exists>w. audit_run 1 w [demo_event ''1'', demo_event ''2'', demo_event ''3''] [demo_event ''1'', demo_event ''3''] \<and>
     aw_emitted w = [demo_event ''1'', demo_event ''3'']"
proof -
  define w0 where "w0 = \<lparr>aw_events = [], aw_cap = 1, aw_closed = False, aw_current = None, aw_emitted = []\<rparr>"
  define w1 where "w1 = w0\<lparr>aw_events := [demo_event ''1'']\<rparr>"
  define w2 where "w2 = w0\<lparr>aw_current := Some (demo_event ''1'')\<rparr>"
  define w3 where "w3 = w2\<lparr>aw_events := [demo_event ''3'']\<rparr>"
  define w4 where "w4 = drain_all (w3\<lparr>aw_closed := True\<rparr>)"
  note d = w0_def w1_def w2_def w3_def
  have "audit_run 1 w0 [] []" unfolding w0_def by (rule audit_run.start)
  then have "audit_run 1 w1 ([] @ [demo_event ''1'']) ([] @ [demo_event ''1''])" by (rule audit_run.accept) (simp_all add: d aw_Send_def)
  then have "audit_run 1 w1 (([] @ [demo_event ''1'']) @ [demo_event ''2'']) ([] @ [demo_event ''1''])" by (rule audit_run.reject) (simp_all add: d aw_Send_def)
  then have "audit_run 1 w2 (([] @ [demo_event ''1'']) @ [demo_event ''2'']) ([] @ [demo_event ''1''])" by (rule audit_run.drain) (simp add: d drain_step_def)
  then have "audit_run 1 w3 ((([] @ [demo_event ''1'']) @ [demo_event ''2'']) @ [demo_event ''3'']) (([] @ [demo_event ''1'']) @ [demo_event ''3''])"
    by (rule audit_run.accept) (simp_all add: d aw_Send_def)
  then have run: "audit_run 1 w4 ((([] @ [demo_event ''1'']) @ [demo_event ''2'']) @ [demo_event ''3'']) (([] @ [demo_event ''1'']) @ [demo_event ''3''])"
    by (rule audit_run.stop) (simp add: d aw_Stop_def w4_def)
  have "aw_closed w4" using drain_all_pending by (simp add: w4_def)
  with audit_events_in_order [OF run] run show ?thesis by auto
qed

text \<open>A request that ends after \<^verbatim>\<open>Stop\<close> panics although its response was complete, and a request whose handler panics leaves no event.\<close>

lemma send_after_stop_panics:
  "aw_Stop w = Some w1 \<Longrightarrow> next_h r s = (s1, acts, Finished) \<Longrightarrow>
   AuditWithWorker clock resource action_name next_h r (w1, s) = ((w1, s1), acts, Panicking (PanicOther ''send on closed channel''))"
  using drain_all_pending [of "w\<lparr>aw_closed := True\<rparr>"] by (auto simp: AuditWithWorker_def aw_Send_def aw_Stop_def split: if_splits)

lemma panic_is_not_audited:
  "next_h r s = (s1, acts, Panicking v) \<Longrightarrow> AuditWithWorker clock resource action_name next_h r (w, s) = ((w, s1), acts, Panicking v)"
  by (simp add: AuditWithWorker_def)

subsection \<open>Uploads (upload.go)\<close>

record UploadConfig =
  MaxFileSize :: int
  MaxMemory :: int
  AllowedMimeTypes :: "string list"

definition DefaultUploadConfig :: UploadConfig where
  "DefaultUploadConfig = \<lparr>MaxFileSize = 100 * 1024 * 1024, MaxMemory = 10 * 1024 * 1024, AllowedMimeTypes = []\<rparr>"

text \<open>An uploaded file: what opening it gives, and the bytes and the error of the first read (\<open>io.EOF\<close> for an empty file).\<close>

datatype read_error = EOF | ReadErr goerr

record upload_file =
  uf_Filename :: string
  uf_Size :: int
  uf_Open :: "goerr option"
  uf_read :: "string \<times> read_error option"

text \<open>A parsed form as Go visits it: the fields in map order, each with its files.\<close>

type_synonym form_files = "(string \<times> upload_file list) list"

text \<open>\<^verbatim>\<open>string(rune(n))\<close>: the UTF-8 text of the code point \<open>n\<close>, wrapped to 32 bits; no code point gives the replacement character.\<close>

definition int32 :: "int \<Rightarrow> int" where
  "int32 n = (n + 2 ^ 31) mod 2 ^ 32 - 2 ^ 31"

definition string_of_rune :: "int \<Rightarrow> string" where
  "string_of_rune n =
     (let c = int32 n; b = (\<lambda>x. char_of (nat x) :: char)
      in if 0 \<le> c \<and> c < 128 then [b c]
         else if 128 \<le> c \<and> c < 2048 then [b (192 + c div 64), b (128 + c mod 64)]
         else if 2048 \<le> c \<and> c < 65536 \<and> \<not> (55296 \<le> c \<and> c \<le> 57343)
         then [b (224 + c div 4096), b (128 + c div 64 mod 64), b (128 + c mod 64)]
         else if 65536 \<le> c \<and> c < 1114112
         then [b (240 + c div 262144), b (128 + c div 4096 mod 64), b (128 + c div 64 mod 64), b (128 + c mod 64)]
         else [CHR 0xEF, CHR 0xBF, CHR 0xBD])"

definition formatBytes :: "int \<Rightarrow> string" where
  "formatBytes n =
     (let KB = 1024; MB = 1024 * KB; GB = 1024 * MB
      in if n < KB then ''bytes''
         else if n < MB then string_of_rune (n div KB) @ '' KB''
         else if n < GB then string_of_rune (n div MB) @ '' MB''
         else string_of_rune (n div GB) @ '' GB'')"

definition pad512 :: "string \<Rightarrow> string" where
  "pad512 b = take 512 b @ replicate (512 - length b) (CHR 0x00)"

definition check_file :: "(string \<Rightarrow> string) \<Rightarrow> UploadConfig \<Rightarrow> string \<Rightarrow> upload_file \<Rightarrow> goerr option" where
  "check_file DetectContentType cfg fieldName f =
     (if MaxFileSize cfg < uf_Size f
      then Some (NewValidation (''file too large: '' @ uf_Filename f) [''maximum size is '' @ formatBytes (MaxFileSize cfg)])
      else if AllowedMimeTypes cfg = [] then None
      else (case uf_Open f of
              Some e \<Rightarrow> Some (NewInternal ''failed to process uploaded file'' [])
            | None \<Rightarrow>
                (case snd (uf_read f) of
                   Some (ReadErr e) \<Rightarrow> Some (NewInternal ''failed to process uploaded file'' [])
                 | _ \<Rightarrow>
                     (let mimeType = DetectContentType (pad512 (fst (uf_read f)))
                      in if mimeType \<in> set (AllowedMimeTypes cfg) then None
                         else Some (NewValidation (''invalid file type for '' @ fieldName) [''file type '' @ mimeType @ '' not allowed''])))))"

definition check_form :: "(string \<Rightarrow> string) \<Rightarrow> UploadConfig \<Rightarrow> form_files \<Rightarrow> goerr option" where
  "check_form DetectContentType cfg fs =
     (case filter (\<lambda>x. x \<noteq> None) (concat (map (\<lambda>(field, files). map (check_file DetectContentType cfg field) files) fs)) of
        [] \<Rightarrow> None | x # xs \<Rightarrow> x)"

definition ValidateMultipartUpload ::
  "(int \<Rightarrow> mw_request \<Rightarrow> 's \<Rightarrow> 's \<times> (goerr + form_files)) \<Rightarrow> (string \<Rightarrow> string) \<Rightarrow> (DxErrorResponse \<Rightarrow> string) \<Rightarrow> UploadConfig
   \<Rightarrow> 's hhandler \<Rightarrow> 's hhandler" where
  "ValidateMultipartUpload ParseMultipartForm DetectContentType encode cfg next_h r s =
     (if hdr_Get (r_Header r) ''Content-Type'' = [] \<or> r_Method r \<noteq> ''POST'' \<and> r_Method r \<noteq> ''PUT'' then next_h r s
      else (case ParseMultipartForm (MaxMemory cfg) r s of
              (s1, Inl e) \<Rightarrow> (s1, error_actions encode (NewValidation ''failed to parse multipart form'' []), Finished)
            | (s1, Inr fs) \<Rightarrow>
                (case check_form DetectContentType cfg fs of
                   Some err \<Rightarrow> (s1, error_actions encode err, Finished)
                 | None \<Rightarrow> next_h r s1)))"

text \<open>A form passes exactly when every file does, in whatever order the fields are visited.\<close>

lemma check_form_iff:
  "check_form detect cfg fs = None \<longleftrightarrow> (\<forall>(field, files) \<in> set fs. \<forall>f \<in> set files. check_file detect cfg field f = None)"
proof -
  define xs where "xs = concat (map (\<lambda>(field, files). map (check_file detect cfg field) files) fs)"
  have "check_form detect cfg fs = None \<longleftrightarrow> filter (\<lambda>x. x \<noteq> None) xs = []"
  proof (cases "filter (\<lambda>x. x \<noteq> None) xs")
    case (Cons x ys)
    then have "x \<noteq> None" by (metis (mono_tags, lifting) filter_eq_ConsD)
    with Cons show ?thesis by (simp add: check_form_def xs_def)
  qed (simp add: check_form_def xs_def)
  also have "\<dots> \<longleftrightarrow> (\<forall>x \<in> set xs. x = None)" by (simp add: filter_empty_conv)
  also have "\<dots> \<longleftrightarrow> (\<forall>(field, files) \<in> set fs. \<forall>f \<in> set files. check_file detect cfg field f = None)"
    by (auto simp: xs_def)
  finally show ?thesis .
qed

lemma accepted_file: "check_file detect cfg field f = None \<Longrightarrow> uf_Size f \<le> MaxFileSize cfg"
  by (simp add: check_file_def split: if_splits)

text \<open>
  The check takes every body with a content type for a form: a JSON request, which the form parser refuses, is answered as a broken upload.
  The size in the error message is a character with that code, not a number.
\<close>

lemma non_multipart_post_refused:
  assumes "hdr_Get (r_Header r) ''Content-Type'' = ''application/json''" and "r_Method r = ''POST''"
    and "parse (MaxMemory cfg) r s = (s1, Inl e)"
  shows "ValidateMultipartUpload parse detect encode cfg next_h r s =
    (s1, error_actions encode (NewValidation ''failed to parse multipart form'' []), Finished)"
  using assms by (simp add: ValidateMultipartUpload_def)

lemma size_is_not_a_number: "formatBytes (10 * 1024 * 1024) = [CHR 0x0A] @ '' MB''"
  by (simp add: formatBytes_def string_of_rune_def int32_def) (simp add: char_of_def bit_0)

end
