(* ===== verification/Response.thy ===== *)
theory Response
  imports HttpMiddleware Pagination
begin

text \<open>
  Package \<^verbatim>\<open>response\<close>: the success envelope, its builder and the writers. A writer is the calls it makes on the response; \<open>encode\<close> is the
  JSON text of a body. Every writer, and the error writer too, is shown to send its parts in order, which is what the timeout middleware
  relies on.
\<close>

subsection \<open>Envelopes (model.go, builder.go, urn.go)\<close>

record 't DxResponse =
  dr_Type :: string
  dr_Title :: string
  dr_Detail :: string
  dr_Result :: "'t option"
  dr_TotalHits :: "int option"
  dr_Limit :: "int option"
  dr_Offset :: "int option"

text \<open>\<open>None\<close> as the result is the zero value of its type, which the JSON text leaves out.\<close>

record PaginationInfo =
  pi_TotalHits :: int
  pi_Limit :: int
  pi_Offset :: int

record 't DxPagedResponse =
  dp_Type :: string
  dp_Title :: string
  dp_Detail :: string
  dp_Result :: 't
  dp_PaginationInfo :: Info

definition zero_response :: "'t DxResponse" where
  "zero_response = \<lparr>dr_Type = [], dr_Title = [], dr_Detail = [], dr_Result = None, dr_TotalHits = None, dr_Limit = None, dr_Offset = None\<rparr>"

definition rb_New :: "'t DxResponse" where "rb_New = zero_response"
definition WithType :: "string \<Rightarrow> 't DxResponse \<Rightarrow> 't DxResponse" where "WithType urn b = b\<lparr>dr_Type := urn\<rparr>"
definition WithTitle :: "string \<Rightarrow> 't DxResponse \<Rightarrow> 't DxResponse" where "WithTitle title b = b\<lparr>dr_Title := title\<rparr>"
definition WithDetail :: "string \<Rightarrow> 't DxResponse \<Rightarrow> 't DxResponse" where "WithDetail detail b = b\<lparr>dr_Detail := detail\<rparr>"
definition WithResult :: "'t \<Rightarrow> 't DxResponse \<Rightarrow> 't DxResponse" where "WithResult result b = b\<lparr>dr_Result := Some result\<rparr>"
definition WithPagination :: "PaginationInfo \<Rightarrow> 't DxResponse \<Rightarrow> 't DxResponse" where
  "WithPagination pg b = b\<lparr>dr_TotalHits := Some (pi_TotalHits pg), dr_Limit := Some (pi_Limit pg), dr_Offset := Some (pi_Offset pg)\<rparr>"
definition rb_Build :: "'t DxResponse \<Rightarrow> 't DxResponse" where "rb_Build b = b"

definition URNRsSuccess :: string where "URNRsSuccess = ''urn:dx:rs:success''"
definition URNRsCreated :: string where "URNRsCreated = ''urn:dx:rs:created''"
definition URNAsSuccess :: string where "URNAsSuccess = ''urn:dx:as:success''"
definition URNAsCreated :: string where "URNAsCreated = ''urn:dx:as:created''"
definition URNAclSuccess :: string where "URNAclSuccess = ''urn:dx:acl:success''"
definition URNAclCreated :: string where "URNAclCreated = ''urn:dx:acl:created''"
definition URNCommunitySuccess :: string where "URNCommunitySuccess = ''urn:dx:community:success''"
definition URNCommunityCreated :: string where "URNCommunityCreated = ''urn:dx:community:created''"

subsection \<open>Writers (writer.go)\<close>

definition resp_Write :: "('b \<Rightarrow> string) \<Rightarrow> int \<Rightarrow> 'b \<Rightarrow> action list" where
  "resp_Write encode statusCode body = [HSet ''Content-Type'' ''application/json'', WHeader statusCode, WBytes (encode body)]"

definition WriteSuccess :: "('t DxResponse \<Rightarrow> string) \<Rightarrow> 't \<Rightarrow> string \<Rightarrow> string \<Rightarrow> action list" where
  "WriteSuccess encode result title detail =
     resp_Write encode 200 (zero_response\<lparr>dr_Type := URNRsSuccess, dr_Title := title, dr_Detail := detail, dr_Result := Some result\<rparr>)"

definition WritePaginated :: "('t DxResponse \<Rightarrow> string) \<Rightarrow> 't \<Rightarrow> PaginationInfo \<Rightarrow> string \<Rightarrow> action list" where
  "WritePaginated encode results pg title =
     resp_Write encode 200
       (zero_response\<lparr>dr_Type := URNRsSuccess, dr_Title := title, dr_Result := Some results, dr_TotalHits := Some (pi_TotalHits pg),
          dr_Limit := Some (pi_Limit pg), dr_Offset := Some (pi_Offset pg)\<rparr>)"

definition WritePaginatedInfo :: "('t DxPagedResponse \<Rightarrow> string) \<Rightarrow> 't \<Rightarrow> Info \<Rightarrow> string \<Rightarrow> string \<Rightarrow> action list" where
  "WritePaginatedInfo encode results info title detail =
     resp_Write encode 200
       \<lparr>dp_Type = URNRsSuccess, dp_Title = title, dp_Detail = detail, dp_Result = results, dp_PaginationInfo = info\<rparr>"

definition WriteCreated :: "('t DxResponse \<Rightarrow> string) \<Rightarrow> 't \<Rightarrow> string \<Rightarrow> action list" where
  "WriteCreated encode result title =
     resp_Write encode 201 (zero_response\<lparr>dr_Type := URNRsCreated, dr_Title := title, dr_Result := Some result\<rparr>)"

definition WriteAccepted :: "('t DxResponse \<Rightarrow> string) \<Rightarrow> 't \<Rightarrow> string \<Rightarrow> action list" where
  "WriteAccepted encode result title =
     resp_Write encode 202 (zero_response\<lparr>dr_Type := URNRsSuccess, dr_Title := title, dr_Result := Some result\<rparr>)"

definition WriteNoContent :: "action list" where
  "WriteNoContent = [WHeader 204]"

text \<open>\<^verbatim>\<open>ServiceWriter\<close>: the same envelopes with the URN prefix of a service.\<close>

record ServiceWriter =
  sw_prefix :: string

definition NewServiceWriter :: "string \<Rightarrow> ServiceWriter" where
  "NewServiceWriter urnPrefix = \<lparr>sw_prefix = urnPrefix\<rparr>"

definition sw_Success :: "ServiceWriter \<Rightarrow> ('t DxResponse \<Rightarrow> string) \<Rightarrow> 't \<Rightarrow> string \<Rightarrow> string \<Rightarrow> action list" where
  "sw_Success sw encode result title detail =
     resp_Write encode 200
       (zero_response\<lparr>dr_Type := sw_prefix sw @ ''success'', dr_Title := title, dr_Detail := detail, dr_Result := Some result\<rparr>)"

definition sw_PaginatedInfo :: "ServiceWriter \<Rightarrow> ('t DxPagedResponse \<Rightarrow> string) \<Rightarrow> 't \<Rightarrow> Info \<Rightarrow> string \<Rightarrow> string \<Rightarrow> action list" where
  "sw_PaginatedInfo sw encode result info title detail =
     resp_Write encode 200
       \<lparr>dp_Type = sw_prefix sw @ ''success'', dp_Title = title, dp_Detail = detail, dp_Result = result, dp_PaginationInfo = info\<rparr>"

definition sw_Created :: "ServiceWriter \<Rightarrow> ('t DxResponse \<Rightarrow> string) \<Rightarrow> 't \<Rightarrow> string \<Rightarrow> action list" where
  "sw_Created sw encode result title =
     resp_Write encode 201 (zero_response\<lparr>dr_Type := sw_prefix sw @ ''created'', dr_Title := title, dr_Result := Some result\<rparr>)"

definition sw_Accepted :: "ServiceWriter \<Rightarrow> ('t DxResponse \<Rightarrow> string) \<Rightarrow> 't \<Rightarrow> string \<Rightarrow> action list" where
  "sw_Accepted sw encode result title =
     resp_Write encode 202 (zero_response\<lparr>dr_Type := sw_prefix sw @ ''success'', dr_Title := title, dr_Result := Some result\<rparr>)"

definition sw_NoContent :: "ServiceWriter \<Rightarrow> action list" where
  "sw_NoContent sw = [WHeader 204]"

subsection \<open>What they send\<close>

lemmas writer_defs = WriteSuccess_def WritePaginated_def WritePaginatedInfo_def WriteCreated_def WriteAccepted_def
  sw_Success_def sw_PaginatedInfo_def sw_Created_def sw_Accepted_def

text \<open>With the prefix of the resource server the writer of a service is the plain one; the constants of a service are its prefix with the
  outcome.\<close>

lemma service_writer_agrees:
  fixes sw
  defines "sw \<equiv> NewServiceWriter ''urn:dx:rs:''"
  shows "sw_Success sw encode r t d = WriteSuccess encode r t d" "sw_Created sw encode r t = WriteCreated encode r t"
    "sw_Accepted sw encode r t = WriteAccepted encode r t" "sw_PaginatedInfo sw encode' r i t d = WritePaginatedInfo encode' r i t d"
    "sw_NoContent sw = WriteNoContent"
  by (simp_all add: sw_def NewServiceWriter_def writer_defs URNRsSuccess_def URNRsCreated_def sw_NoContent_def WriteNoContent_def)

lemma builder_builds:
  "rb_Build (WithPagination pg (WithResult r (WithDetail d (WithTitle t (WithType u rb_New))))) =
     \<lparr>dr_Type = u, dr_Title = t, dr_Detail = d, dr_Result = Some r, dr_TotalHits = Some (pi_TotalHits pg), dr_Limit = Some (pi_Limit pg),
      dr_Offset = Some (pi_Offset pg)\<rparr>"
  by (simp add: rb_Build_def WithPagination_def WithResult_def WithDetail_def WithTitle_def WithType_def rb_New_def zero_response_def)

lemma orderly_write: "200 \<le> c \<Longrightarrow> orderly (resp_Write encode c b)"
  unfolding orderly_def resp_Write_def
  by (intro exI [of _ "[HSet ''Content-Type'' ''application/json'']"] exI [of _ "[WHeader c]"] exI [of _ "[WBytes (encode b)]"]) simp

lemma orderly_error: "orderly (error_actions encode e)"
  using orderly_write [of "HTTPStatus e" encode "error_body e"] HTTPStatus_range [of e] by (simp add: error_actions_def resp_Write_def)

lemma orderly_no_content: "orderly WriteNoContent"
  unfolding orderly_def WriteNoContent_def by (intro exI [of _ "[]"] exI [of _ "[WHeader 204]"]) simp

lemma client_sees_write:
  assumes "body_allowed c"
  shows "client_sees (resp_Write encode c b) = (c, [(''Content-Type'', [''application/json''])], encode b)"
  using assms by (auto simp: client_sees_send resp_Write_def fresh_response_def send_header_def send_bytes_def hdr_Set_def body_allowed_def Let_def)

text \<open>
  C25: An answer written by the library reaches a client that accepts gzip whole. A handler that answers with one of the success writers (with a status that allows a body) or with the error
  writer, behind the timeout and compression middleware, gives a client that decompresses exactly the status and JSON text the writer
  encoded, or the 503 error when it missed the deadline; never a part of it.
\<close>

theorem library_answers_whole:
  assumes "gzip_ok G gunzip" and "accepts_gzip r" and "next_h r s = (s1, acts, Finished)"
    and "acts = resp_Write encode c b \<and> body_allowed c \<and> 200 \<le> c \<or> acts = error_actions encode_err e"
  shows "\<exists>acts' h body. Compression G (Timeout encode_err in_time next_h) r s = (s1, acts', Finished) \<and>
    client_sees acts' = (if in_time s1 then fst (client_sees acts) else 503, h, body) \<and> hdr_Get h ''Content-Type'' = ''application/json'' \<and>
    gunzip body = Some (if in_time s1 then snd (snd (client_sees acts)) else encode_err (error_body (NewServiceUnavailable ''request timeout'' [])))"
proof -
  obtain c t where acts: "acts = [HSet ''Content-Type'' ''application/json'', WHeader c, WBytes t]" and c: "body_allowed c" "200 \<le> c"
    using assms(4) HTTPStatus_range [of e] by (auto simp: resp_Write_def error_actions_def body_allowed_def)
  have direct: "client_sees acts = (c, [(''Content-Type'', [''application/json''])], t)"
    using client_sees_write [OF c(1), of "\<lambda>x. x" t] by (simp add: acts resp_Write_def)
  have ord: "orderly acts" using orderly_write [OF c(2), of "\<lambda>x. x" t] by (simp add: acts resp_Write_def)
  obtain acts1 where T: "Timeout encode_err in_time next_h r s = (s1, acts1, Finished)" and
    sees: "client_sees acts1 = (if in_time s1 then client_sees acts
       else (503, [(''Content-Type'', [''application/json''])], encode_err (error_body (NewServiceUnavailable ''request timeout'' []))))"
    using timeout_all_or_nothing [where next_h = next_h and encode = encode_err, OF assms(3) ord] by blast
  have "acts1 = (if in_time s1 then tw_flush (fold tw_perform acts new_timeoutWriter)
      else error_actions encode_err (NewServiceUnavailable ''request timeout'' []))"
    using T assms(3) by (auto simp: Timeout_def)
  then have "list_all (avoids ''Content-Encoding'') acts1" "list_all (avoids ''Content-Length'') acts1"
    by (auto simp: acts tw_flush_def new_timeoutWriter_def error_actions_def hdr_Set_def)
  note tr = compression_transparent [where next_h = "Timeout encode_err in_time next_h", OF assms(1) T this]
  define c' b' where "c' = (if in_time s1 then c else 503)"
    and "b' = (if in_time s1 then t else encode_err (error_body (NewServiceUnavailable ''request timeout'' [])))"
  have "client_sees acts1 = (c', [(''Content-Type'', [''application/json''])], b')" by (simp add: sees direct c'_def b'_def)
  from tr [OF this] obtain acts' h' body where C: "Compression G (Timeout encode_err in_time next_h) r s = (s1, acts', Finished)"
    "client_sees acts' = (c', h', body)" "map_of h' = [''Content-Type'' \<mapsto> [''application/json''], ''Content-Encoding'' \<mapsto> [''gzip'']]"
    "body_allowed c' \<longrightarrow> gunzip body = Some b'"
    using assms(2) by auto
  have "body_allowed c'" using c by (simp add: c'_def body_allowed_def)
  with C show ?thesis
    by (intro exI [of _ acts'] exI [of _ h'] exI [of _ body]) (simp add: hdr_Get_def direct c'_def b'_def split: if_splits)
qed

text \<open>A created resource, answered in time to a client that accepts gzip.\<close>

definition created :: "int hhandler" where
  "created r s = (s + 1, WriteCreated (\<lambda>resp :: string DxResponse. dr_Type resp @ '' '' @ dr_Title resp) ''42'' ''made'', Finished)"

lemma library_answers_whole_witness:
  "\<exists>acts' h body. Compression store_gzip (Timeout (\<lambda>_. ''late'') (\<lambda>s. s < 5) created) gzip_client 0 = (1, acts', Finished) \<and>
     client_sees acts' = (201, h, body) \<and> store_gunzip body = Some ''urn:dx:rs:created made''"
proof -
  define encode where "encode = (\<lambda>resp :: string DxResponse. dr_Type resp @ '' '' @ dr_Title resp)"
  define b where "b = (zero_response\<lparr>dr_Type := URNRsCreated, dr_Title := ''made'', dr_Result := Some ''42''\<rparr>)"
  have n: "created gzip_client 0 = (1, resp_Write encode 201 b, Finished)" by (simp add: created_def WriteCreated_def encode_def b_def)
  have a: "accepts_gzip gzip_client" by code_simp
  have ok: "body_allowed 201" by (simp add: body_allowed_def)
  have eb: "encode b = ''urn:dx:rs:created made''" by (simp add: encode_def b_def zero_response_def URNRsCreated_def)
  from library_answers_whole [where next_h = created and in_time = "\<lambda>s. s < 5" and encode_err = "\<lambda>_. ''late''" and encode = encode and c = 201 and b = b,
      OF store_gzip_ok a n] ok
  show ?thesis by (auto simp: client_sees_write eb)
qed

end
