(* ===== verification/Json.thy ===== *)
theory Json
  imports DxErrors Float64
begin

text \<open>
  JSON values as \<^verbatim>\<open>encoding/json\<close> sees them, shared by the Elasticsearch packages: a \<^verbatim>\<open>map[string]any\<close> is an object, a Go value passed as
  \<^verbatim>\<open>any\<close> is its JSON value. The second part reads typed fields out of a decoded value the way \<^verbatim>\<open>json.Unmarshal\<close> fills a struct:
  an absent field or null gives the zero value, a value of another kind an error.
\<close>

datatype json = JNull | JBool bool | JInt int | JFloat float64 | JStr string | JArr "json list" | JObj "(string \<times> json) list"

fun jfields :: "json \<Rightarrow> (string \<times> json) list" where
  "jfields (JObj fs) = fs"
| "jfields j = []"

definition jget :: "string \<Rightarrow> json \<Rightarrow> json option" where
  "jget k j = map_of (jfields j) k"

definition strs :: "string list \<Rightarrow> json" where
  "strs xs = JArr (map JStr xs)"

text \<open>\<open>m[k] = v\<close> on an object, and \<open>m[k] = v\<close> under a condition.\<close>

definition jput :: "string \<Rightarrow> json \<Rightarrow> json \<Rightarrow> json" where
  "jput k v j = JObj (map_put k v (jfields j))"

definition jput_if :: "bool \<Rightarrow> string \<Rightarrow> json \<Rightarrow> json \<Rightarrow> json" where
  "jput_if c k v j = (if c then jput k v j else j)"

lemma jget_jput [simp]: "jget k' (jput k v j) = (if k' = k then Some v else jget k' j)"
  by (simp add: jget_def jput_def)

lemma jget_jput_if [simp]: "jget k' (jput_if c k v j) = (if c \<and> k' = k then Some v else jget k' j)"
  by (simp add: jput_if_def)

lemma jget_Nil [simp]: "jget k (JObj []) = None"
  by (simp add: jget_def)

text \<open>The string at a path of two keys.\<close>

definition str_at :: "string \<Rightarrow> string \<Rightarrow> json \<Rightarrow> string" where
  "str_at k k' j = (case Option.bind (jget k j) (jget k') of Some (JStr x) \<Rightarrow> x | _ \<Rightarrow> [])"

subsection \<open>Decoding\<close>

definition type_error :: goerr where
  "type_error = Opaque ''json: cannot unmarshal into Go value''"

definition dec_field :: "(json \<Rightarrow> goerr + 'a) \<Rightarrow> 'a \<Rightarrow> string \<Rightarrow> json \<Rightarrow> goerr + 'a" where
  "dec_field dec zero k j = (case jget k j of None \<Rightarrow> Inr zero | Some JNull \<Rightarrow> Inr zero | Some v \<Rightarrow> dec v)"

fun dec_str :: "json \<Rightarrow> goerr + string" where
  "dec_str (JStr s) = Inr s"
| "dec_str j = Inl type_error"

fun dec_int :: "json \<Rightarrow> goerr + int" where
  "dec_int (JInt n) = Inr n"
| "dec_int j = Inl type_error"

fun dec_bool :: "json \<Rightarrow> goerr + bool" where
  "dec_bool (JBool b) = Inr b"
| "dec_bool j = Inl type_error"

text \<open>Decoding the elements in turn; the first failure is the error.\<close>

fun dec_all :: "('a \<Rightarrow> goerr + 'b) \<Rightarrow> 'a list \<Rightarrow> goerr + 'b list" where
  "dec_all dec [] = Inr []"
| "dec_all dec (x # xs) =
     (case dec x of
        Inl e \<Rightarrow> Inl e
      | Inr y \<Rightarrow> (case dec_all dec xs of Inl e \<Rightarrow> Inl e | Inr ys \<Rightarrow> Inr (y # ys)))"

fun dec_list :: "(json \<Rightarrow> goerr + 'a) \<Rightarrow> json \<Rightarrow> goerr + 'a list" where
  "dec_list dec (JArr xs) = dec_all dec xs"
| "dec_list dec j = Inl type_error"

text \<open>A struct needs an object (or null, which leaves it zero).\<close>

definition is_struct :: "json \<Rightarrow> bool" where
  "is_struct j \<longleftrightarrow> (case j of JObj _ \<Rightarrow> True | JNull \<Rightarrow> True | _ \<Rightarrow> False)"

definition dec_struct :: "(json \<Rightarrow> goerr + 'a) \<Rightarrow> json \<Rightarrow> goerr + 'a" where
  "dec_struct dec j = (if is_struct j then dec j else Inl type_error)"

text \<open>The next step on a successful result.\<close>

definition and_then :: "goerr + 'a \<Rightarrow> ('a \<Rightarrow> goerr + 'b) \<Rightarrow> goerr + 'b" where
  "and_then r f = (case r of Inl e \<Rightarrow> Inl e | Inr x \<Rightarrow> f x)"

lemma and_then_simps [simp]: "and_then (Inl e) f = Inl e" "and_then (Inr x) f = f x"
  by (simp_all add: and_then_def)

end
