(* ===== verification/EsQuery.thy ===== *)
theory EsQuery
  imports Json
begin

text \<open>
  Package \<^verbatim>\<open>database/elasticsearch/query\<close>: the query DSL. Every constructor gives the JSON body the source builds; a Go map literal is an object with its
  keys in literal order, an absent query (\<^verbatim>\<open>nil\<close>) is \<open>None\<close>.
\<close>

subsection \<open>Leaf queries (query.go, geo.go)\<close>

definition MatchAll :: json where "MatchAll = JObj [(''match_all'', JObj [])]"

definition Match :: "string \<Rightarrow> json \<Rightarrow> json" where
  "Match field value = JObj [(''match'', JObj [(field, JObj [(''query'', value)])])]"

definition MatchFuzzy :: "string \<Rightarrow> json \<Rightarrow> string \<Rightarrow> json" where
  "MatchFuzzy field value fuzziness = JObj [(''match'', JObj [(field, JObj [(''query'', value), (''fuzziness'', JStr fuzziness)])])]"

definition MatchPhrase :: "string \<Rightarrow> json \<Rightarrow> json" where
  "MatchPhrase field value = JObj [(''match_phrase'', JObj [(field, JObj [(''query'', value)])])]"

definition MultiMatch :: "json \<Rightarrow> string list \<Rightarrow> json" where
  "MultiMatch value flds = JObj [(''multi_match'', JObj [(''query'', value), (''fields'', strs flds)])]"

definition Term :: "string \<Rightarrow> json \<Rightarrow> json" where
  "Term field value = JObj [(''term'', JObj [(field, JObj [(''value'', value)])])]"

definition Terms :: "string \<Rightarrow> json list \<Rightarrow> json" where
  "Terms field values = JObj [(''terms'', JObj [(field, JArr values)])]"

definition es_Exists :: "string \<Rightarrow> json" where
  "es_Exists field = JObj [(''exists'', JObj [(''field'', JStr field)])]"

definition Wildcard :: "string \<Rightarrow> string \<Rightarrow> bool \<Rightarrow> json" where
  "Wildcard field pattern caseInsensitive =
     JObj [(''wildcard'', JObj [(field, jput_if caseInsensitive ''case_insensitive'' (JBool True) (JObj [(''value'', JStr pattern)]))])]"

definition MatchBoolPrefix :: "string \<Rightarrow> json \<Rightarrow> json" where
  "MatchBoolPrefix field value = JObj [(''match_bool_prefix'', JObj [(field, JObj [(''query'', value)])])]"

definition Nested :: "string \<Rightarrow> json \<Rightarrow> json" where
  "Nested path inner = JObj [(''nested'', JObj [(''path'', JStr path), (''query'', inner)])]"

definition es_Prefix :: "string \<Rightarrow> string \<Rightarrow> json" where
  "es_Prefix field value = JObj [(''prefix'', JObj [(field, JObj [(''value'', JStr value)])])]"

definition IDs :: "string list \<Rightarrow> json" where
  "IDs ids = JObj [(''ids'', JObj [(''values'', strs ids)])]"

definition QueryString :: "string \<Rightarrow> string list \<Rightarrow> json" where
  "QueryString queryStr flds =
     JObj [(''query_string'', jput_if (flds \<noteq> []) ''fields'' (strs flds) (JObj [(''query'', JStr queryStr)]))]"

definition Fuzzy :: "string \<Rightarrow> json \<Rightarrow> string \<Rightarrow> json" where
  "Fuzzy field value fuzziness =
     JObj [(''fuzzy'', JObj [(field, JObj [(''value'', value), (''fuzziness'', JStr (if fuzziness = [] then ''AUTO'' else fuzziness))])])]"

definition Regexp :: "string \<Rightarrow> string \<Rightarrow> json" where
  "Regexp field pattern = JObj [(''regexp'', JObj [(field, JObj [(''value'', JStr pattern)])])]"

definition ScriptQuery :: "string \<Rightarrow> (string \<times> json) list \<Rightarrow> json" where
  "ScriptQuery source params =
     JObj [(''script'', JObj [(''script'', jput_if (params \<noteq> []) ''params'' (JObj params) (JObj [(''source'', JStr source), (''lang'', JStr ''painless'')]))])]"

definition HasChild :: "string \<Rightarrow> json \<Rightarrow> string \<Rightarrow> json" where
  "HasChild childType query scoreMode =
     JObj [(''has_child'', jput_if (scoreMode \<noteq> []) ''score_mode'' (JStr scoreMode) (JObj [(''type'', JStr childType), (''query'', query)]))]"

definition HasParent :: "string \<Rightarrow> json \<Rightarrow> json" where
  "HasParent parentType query = JObj [(''has_parent'', JObj [(''parent_type'', JStr parentType), (''query'', query)])]"

definition ParentID :: "string \<Rightarrow> string \<Rightarrow> json" where
  "ParentID childType i = JObj [(''parent_id'', JObj [(''type'', JStr childType), (''id'', JStr i)])]"

definition geo_point :: "float64 \<Rightarrow> float64 \<Rightarrow> json" where
  "geo_point lat lon = JObj [(''lat'', JFloat lat), (''lon'', JFloat lon)]"

definition GeoBoundingBox :: "string \<Rightarrow> float64 \<Rightarrow> float64 \<Rightarrow> float64 \<Rightarrow> float64 \<Rightarrow> json" where
  "GeoBoundingBox field topLeftLat topLeftLon bottomRightLat bottomRightLon =
     JObj [(''geo_bounding_box'', JObj [(field,
       JObj [(''top_left'', geo_point topLeftLat topLeftLon), (''bottom_right'', geo_point bottomRightLat bottomRightLon)])])]"

text \<open>The field name is a key beside \<^verbatim>\<open>distance\<close>: a map literal, in which the later key wins.\<close>

definition GeoDistance :: "string \<Rightarrow> float64 \<Rightarrow> float64 \<Rightarrow> string \<Rightarrow> json" where
  "GeoDistance field lat lon distance =
     JObj [(''geo_distance'', jput field (geo_point lat lon) (JObj [(''distance'', JStr distance)]))]"

definition GeoShape :: "string \<Rightarrow> string \<Rightarrow> json \<Rightarrow> string \<Rightarrow> json" where
  "GeoShape field shapeType coordinates relation =
     JObj [(''geo_shape'', JObj [(field,
       JObj [(''shape'', JObj [(''type'', JStr shapeType), (''coordinates'', coordinates)]), (''relation'', JStr relation)])])]"

definition ScriptScore :: "json \<Rightarrow> string \<Rightarrow> (string \<times> json) list \<Rightarrow> json" where
  "ScriptScore inner source params =
     JObj [(''script_score'', JObj [(''query'', inner), (''script'', jput_if (params \<noteq> []) ''params'' (JObj params) (JObj [(''source'', JStr source)]))])]"

subsection \<open>Builders (bool.go, filter.go, geo.go, knn.go)\<close>

record BoolBuilder =
  bb_must :: "json list"
  bb_should :: "json list"
  bb_mustNot :: "json list"
  bb_filter :: "json list"
  bb_minimumShouldMatch :: "json option"

definition es_Bool :: BoolBuilder where
  "es_Bool = \<lparr>bb_must = [], bb_should = [], bb_mustNot = [], bb_filter = [], bb_minimumShouldMatch = None\<rparr>"

definition bb_Must :: "json list \<Rightarrow> BoolBuilder \<Rightarrow> BoolBuilder" where "bb_Must qs b = b\<lparr>bb_must := bb_must b @ qs\<rparr>"
definition bb_Should :: "json list \<Rightarrow> BoolBuilder \<Rightarrow> BoolBuilder" where "bb_Should qs b = b\<lparr>bb_should := bb_should b @ qs\<rparr>"
definition bb_MustNot :: "json list \<Rightarrow> BoolBuilder \<Rightarrow> BoolBuilder" where "bb_MustNot qs b = b\<lparr>bb_mustNot := bb_mustNot b @ qs\<rparr>"
definition bb_Filter :: "json list \<Rightarrow> BoolBuilder \<Rightarrow> BoolBuilder" where "bb_Filter qs b = b\<lparr>bb_filter := bb_filter b @ qs\<rparr>"
definition bb_MinimumShouldMatch :: "json option \<Rightarrow> BoolBuilder \<Rightarrow> BoolBuilder" where
  "bb_MinimumShouldMatch v b = b\<lparr>bb_minimumShouldMatch := v\<rparr>"

definition bool_body :: "BoolBuilder \<Rightarrow> json" where
  "bool_body b =
     (let j1 = jput_if (bb_must b \<noteq> []) ''must'' (JArr (bb_must b)) (JObj []);
          j2 = jput_if (bb_should b \<noteq> []) ''should'' (JArr (bb_should b)) j1;
          j3 = jput_if (bb_mustNot b \<noteq> []) ''must_not'' (JArr (bb_mustNot b)) j2;
          j4 = jput_if (bb_filter b \<noteq> []) ''filter'' (JArr (bb_filter b)) j3
      in case bb_minimumShouldMatch b of None \<Rightarrow> j4 | Some v \<Rightarrow> jput ''minimum_should_match'' v j4)"

definition bb_Build :: "BoolBuilder \<Rightarrow> json" where
  "bb_Build b = JObj [(''bool'', bool_body b)]"

record RangeBuilder =
  rb_field :: string
  rb_body :: json

definition es_Range :: "string \<Rightarrow> RangeBuilder" where "es_Range field = \<lparr>rb_field = field, rb_body = JObj []\<rparr>"
definition rb_Gte :: "json \<Rightarrow> RangeBuilder \<Rightarrow> RangeBuilder" where "rb_Gte v r = r\<lparr>rb_body := jput ''gte'' v (rb_body r)\<rparr>"
definition rb_Gt :: "json \<Rightarrow> RangeBuilder \<Rightarrow> RangeBuilder" where "rb_Gt v r = r\<lparr>rb_body := jput ''gt'' v (rb_body r)\<rparr>"
definition rb_Lte :: "json \<Rightarrow> RangeBuilder \<Rightarrow> RangeBuilder" where "rb_Lte v r = r\<lparr>rb_body := jput ''lte'' v (rb_body r)\<rparr>"
definition rb_Lt :: "json \<Rightarrow> RangeBuilder \<Rightarrow> RangeBuilder" where "rb_Lt v r = r\<lparr>rb_body := jput ''lt'' v (rb_body r)\<rparr>"
definition rb_Format :: "string \<Rightarrow> RangeBuilder \<Rightarrow> RangeBuilder" where "rb_Format f r = r\<lparr>rb_body := jput ''format'' (JStr f) (rb_body r)\<rparr>"
definition range_Build :: "RangeBuilder \<Rightarrow> json" where "range_Build r = JObj [(''range'', JObj [(rb_field r, rb_body r)])]"

record FunctionScoreBuilder =
  fs_query :: "json option"
  fs_functions :: "json list"
  fs_scoreMode :: string
  fs_boostMode :: string

definition FunctionScore :: "json option \<Rightarrow> FunctionScoreBuilder" where
  "FunctionScore query = \<lparr>fs_query = query, fs_functions = [], fs_scoreMode = [], fs_boostMode = []\<rparr>"

definition FieldValueFactor :: "string \<Rightarrow> float64 \<Rightarrow> string \<Rightarrow> float64 \<Rightarrow> FunctionScoreBuilder \<Rightarrow> FunctionScoreBuilder" where
  "FieldValueFactor field factor modifier missing f =
     (let fn = jput_if (modifier \<noteq> []) ''modifier'' (JStr modifier)
                 (JObj [(''field'', JStr field), (''factor'', JFloat factor), (''missing'', JFloat missing)])
      in f\<lparr>fs_functions := fs_functions f @ [JObj [(''field_value_factor'', fn)]]\<rparr>)"

definition fs_Weight :: "float64 \<Rightarrow> json option \<Rightarrow> FunctionScoreBuilder \<Rightarrow> FunctionScoreBuilder" where
  "fs_Weight weight flt f =
     (let fn = JObj [(''weight'', JFloat weight)]
      in f\<lparr>fs_functions := fs_functions f @ [case flt of Some q \<Rightarrow> jput ''filter'' q fn | None \<Rightarrow> fn]\<rparr>)"

definition Decay :: "string \<Rightarrow> string \<Rightarrow> json \<Rightarrow> json \<Rightarrow> FunctionScoreBuilder \<Rightarrow> FunctionScoreBuilder" where
  "Decay kind field origin scale f =
     f\<lparr>fs_functions := fs_functions f @ [JObj [(kind, JObj [(field, JObj [(''origin'', origin), (''scale'', scale)])])]]\<rparr>"

definition ScoreMode :: "string \<Rightarrow> FunctionScoreBuilder \<Rightarrow> FunctionScoreBuilder" where "ScoreMode mode f = f\<lparr>fs_scoreMode := mode\<rparr>"
definition BoostMode :: "string \<Rightarrow> FunctionScoreBuilder \<Rightarrow> FunctionScoreBuilder" where "BoostMode mode f = f\<lparr>fs_boostMode := mode\<rparr>"

definition fs_Build :: "FunctionScoreBuilder \<Rightarrow> json" where
  "fs_Build f =
     (let j1 = (case fs_query f of Some q \<Rightarrow> jput ''query'' q (JObj []) | None \<Rightarrow> JObj []);
          j2 = jput_if (fs_functions f \<noteq> []) ''functions'' (JArr (fs_functions f)) j1;
          j3 = jput_if (fs_scoreMode f \<noteq> []) ''score_mode'' (JStr (fs_scoreMode f)) j2
      in JObj [(''function_score'', jput_if (fs_boostMode f \<noteq> []) ''boost_mode'' (JStr (fs_boostMode f)) j3)])"

text \<open>The vector is a slice of \<^verbatim>\<open>float32\<close>: each entry is the float64 of the same value, and the JSON number stands for that value, not for its text.\<close>

record KNN =
  k_Field :: string
  k_QueryVector :: "float64 list"
  k_K :: int
  k_NumCandidates :: int
  k_Filter :: "json option"
  k_Boost :: float64

definition knn_Body :: "KNN \<Rightarrow> json" where
  "knn_Body k =
     (let numCandidates = (if k_NumCandidates k \<le> 0 then int64 (10 * k_K k) else k_NumCandidates k);
          j1 = JObj [(''field'', JStr (k_Field k)), (''query_vector'', JArr (map JFloat (k_QueryVector k))), (''k'', JInt (k_K k)),
                     (''num_candidates'', JInt numCandidates)];
          j2 = (case k_Filter k of Some q \<Rightarrow> jput ''filter'' q j1 | None \<Rightarrow> j1)
      in jput_if (f64_less (Fin 0) (k_Boost k)) ''boost'' (JFloat (k_Boost k)) j2)"

subsection \<open>Sorts, aggregations, highlights, suggesters\<close>

type_synonym es_sort = "(string \<times> string) list"

definition By :: "string \<Rightarrow> string \<Rightarrow> es_sort" where "By field direction = [(field, direction)]"
definition sort_Asc :: "string \<Rightarrow> es_sort \<Rightarrow> es_sort" where "sort_Asc field s = s @ [(field, ''asc'')]"
definition sort_Desc :: "string \<Rightarrow> es_sort \<Rightarrow> es_sort" where "sort_Desc field s = s @ [(field, ''desc'')]"

definition TermsAgg :: "string \<Rightarrow> int \<Rightarrow> json" where
  "TermsAgg field n = JObj [(''terms'', jput_if (0 < n) ''size'' (JInt n) (JObj [(''field'', JStr field)]))]"

definition MetricAgg :: "string \<Rightarrow> string \<Rightarrow> json" where
  "MetricAgg kind field = JObj [(kind, JObj [(''field'', JStr field)])]"

definition DateHistogramAgg :: "string \<Rightarrow> string \<Rightarrow> json" where
  "DateHistogramAgg field calendarInterval =
     JObj [(''date_histogram'', JObj [(''field'', JStr field), (''calendar_interval'', JStr calendarInterval)])]"

definition FilterAgg :: "json \<Rightarrow> json" where
  "FilterAgg flt = JObj [(''filter'', flt)]"

definition agg_Sub :: "string \<Rightarrow> json \<Rightarrow> json \<Rightarrow> json" where
  "agg_Sub nm child a = jput ''aggs'' (jput nm child (case jget ''aggs'' a of Some (JObj subs) \<Rightarrow> JObj subs | _ \<Rightarrow> JObj [])) a"

record Highlight =
  hl_Fields :: "string list"
  hl_PreTags :: "string list"
  hl_PostTags :: "string list"
  hl_FragmentSize :: int
  hl_NumberOfFragments :: int

definition highlight_Body :: "Highlight \<Rightarrow> json" where
  "highlight_Body h =
     (let j1 = JObj [(''fields'', fold (\<lambda>f j. jput f (JObj []) j) (hl_Fields h) (JObj []))];
          j2 = jput_if (hl_PreTags h \<noteq> []) ''pre_tags'' (strs (hl_PreTags h)) j1;
          j3 = jput_if (hl_PostTags h \<noteq> []) ''post_tags'' (strs (hl_PostTags h)) j2;
          j4 = jput_if (0 < hl_FragmentSize h) ''fragment_size'' (JInt (hl_FragmentSize h)) j3
      in jput_if (0 < hl_NumberOfFragments h) ''number_of_fragments'' (JInt (hl_NumberOfFragments h)) j4)"

definition TermSuggester :: "string \<Rightarrow> string \<Rightarrow> json" where
  "TermSuggester t field = JObj [(''text'', JStr t), (''term'', JObj [(''field'', JStr field)])]"

definition PhraseSuggester :: "string \<Rightarrow> string \<Rightarrow> json" where
  "PhraseSuggester t field = JObj [(''text'', JStr t), (''phrase'', JObj [(''field'', JStr field)])]"

definition CompletionSuggester :: "string \<Rightarrow> string \<Rightarrow> int \<Rightarrow> bool \<Rightarrow> json" where
  "CompletionSuggester prefix field n fuzzy =
     (let c1 = jput_if (0 < n) ''size'' (JInt n) (JObj [(''field'', JStr field)]);
          c2 = jput_if fuzzy ''fuzzy'' (JObj [(''fuzziness'', JStr ''AUTO'')]) c1
      in JObj [(''prefix'', JStr prefix), (''completion'', c2)])"

subsection \<open>Search requests (request.go)\<close>

record PIT =
  pit_ID :: string
  pit_KeepAlive :: string

record SearchRequest =
  sr_Query :: "json option"
  sr_Size :: int
  sr_From :: int
  sr_Sort :: es_sort
  sr_SourceIncludes :: "string list"
  sr_SourceExcludes :: "string list"
  sr_Aggregations :: "(string \<times> json) list"
  sr_TrackTotalHits :: bool
  sr_SizeZero :: bool
  sr_SearchAfter :: "json list"
  sr_Highlight :: "Highlight option"
  sr_Suggest :: "(string \<times> json) list"
  sr_KNN :: "KNN list"
  sr_PIT :: "PIT option"

definition zero_request :: SearchRequest where
  "zero_request = \<lparr>sr_Query = None, sr_Size = 0, sr_From = 0, sr_Sort = [], sr_SourceIncludes = [], sr_SourceExcludes = [],
     sr_Aggregations = [], sr_TrackTotalHits = False, sr_SizeZero = False, sr_SearchAfter = [], sr_Highlight = None, sr_Suggest = [],
     sr_KNN = [], sr_PIT = None\<rparr>"

definition source_body :: "SearchRequest \<Rightarrow> json" where
  "source_body r =
     jput_if (sr_SourceExcludes r \<noteq> []) ''excludes'' (strs (sr_SourceExcludes r))
       (jput_if (sr_SourceIncludes r \<noteq> []) ''includes'' (strs (sr_SourceIncludes r)) (JObj []))"

definition pit_body :: "PIT \<Rightarrow> json" where
  "pit_body p = jput_if (pit_KeepAlive p \<noteq> []) ''keep_alive'' (JStr (pit_KeepAlive p)) (JObj [(''id'', JStr (pit_ID p))])"

definition sr_Body :: "SearchRequest \<Rightarrow> json" where
  "sr_Body r =
     (let b1 = (case sr_Query r of Some q \<Rightarrow> jput ''query'' q (JObj []) | None \<Rightarrow> JObj []);
          b2 = (if 0 < sr_Size r then jput ''size'' (JInt (sr_Size r)) b1 else jput_if (sr_SizeZero r) ''size'' (JInt 0) b1);
          b3 = jput_if (0 < sr_From r) ''from'' (JInt (sr_From r)) b2;
          b4 = jput_if (sr_TrackTotalHits r) ''track_total_hits'' (JBool True) b3;
          b5 = jput_if (sr_Sort r \<noteq> []) ''sort'' (JArr (map (\<lambda>(f, d). JObj [(f, JStr d)]) (sr_Sort r))) b4;
          b6 = jput_if (sr_SourceIncludes r \<noteq> [] \<or> sr_SourceExcludes r \<noteq> []) ''_source'' (source_body r) b5;
          b7 = jput_if (sr_Aggregations r \<noteq> []) ''aggs'' (JObj (sr_Aggregations r)) b6;
          b8 = jput_if (sr_SearchAfter r \<noteq> []) ''search_after'' (JArr (sr_SearchAfter r)) b7;
          b9 = (case sr_Highlight r of Some h \<Rightarrow> jput_if (hl_Fields h \<noteq> []) ''highlight'' (highlight_Body h) b8 | None \<Rightarrow> b8);
          b10 = jput_if (sr_Suggest r \<noteq> []) ''suggest'' (JObj (sr_Suggest r)) b9;
          b11 = jput_if (sr_KNN r \<noteq> []) ''knn'' (JArr (map knn_Body (sr_KNN r))) b10
      in case sr_PIT r of Some p \<Rightarrow> jput ''pit'' (pit_body p) b11 | None \<Rightarrow> b11)"

subsection \<open>What a query matches\<close>

text \<open>
  The documented meaning of the part of the DSL that selects documents: a document has an id and the values of its fields.
  In a bool query all of \<^verbatim>\<open>must\<close> and \<^verbatim>\<open>filter\<close> and none of \<^verbatim>\<open>must_not\<close> have to match, and of \<^verbatim>\<open>should\<close> as many as \<^verbatim>\<open>minimum_should_match\<close>
  says, which is 1 by default when there is nothing in \<^verbatim>\<open>must\<close> and \<^verbatim>\<open>filter\<close> and 0 otherwise. Queries that analyse text, geometry or
  scripts are decided by \<open>other\<close>.
\<close>

record es_doc =
  ed_id :: string
  ed_values :: "string \<Rightarrow> json list"

fun starts_with :: "string \<Rightarrow> json \<Rightarrow> bool" where
  "starts_with p (JStr s) = (take (length p) s = p)"
| "starts_with p j = False"

fun int_bound :: "(int \<Rightarrow> int \<Rightarrow> bool) \<Rightarrow> json option \<Rightarrow> json \<Rightarrow> bool" where
  "int_bound R None v = True"
| "int_bound R (Some (JInt b)) (JInt n) = R n b"
| "int_bound R x v = False"

definition in_range :: "json \<Rightarrow> json \<Rightarrow> bool" where
  "in_range body v \<longleftrightarrow>
     int_bound (\<ge>) (jget ''gte'' body) v \<and> int_bound (>) (jget ''gt'' body) v \<and> int_bound (\<le>) (jget ''lte'' body) v \<and> int_bound (<) (jget ''lt'' body) v"

definition should_needed :: "json \<Rightarrow> nat" where
  "should_needed body =
     (case jget ''minimum_should_match'' body of
        Some (JInt n) \<Rightarrow> nat n
      | _ \<Rightarrow> if jget ''must'' body = None \<and> jget ''filter'' body = None \<and> jget ''should'' body \<noteq> None then 1 else 0)"

definition bool_clause :: "(string \<times> bool list) list \<Rightarrow> string \<Rightarrow> bool list" where
  "bool_clause rs k = (case map_of rs k of Some bs \<Rightarrow> bs | None \<Rightarrow> [])"

definition bool_verdict :: "json \<Rightarrow> (string \<times> bool list) list \<Rightarrow> bool" where
  "bool_verdict body rs \<longleftrightarrow>
     list_all (\<lambda>b. b) (bool_clause rs ''must'') \<and> list_all (\<lambda>b. b) (bool_clause rs ''filter'') \<and> list_all (\<lambda>b. \<not> b) (bool_clause rs ''must_not'') \<and>
     should_needed body \<le> length (filter (\<lambda>b. b) (bool_clause rs ''should''))"

definition leaf_eval :: "(json \<Rightarrow> es_doc \<Rightarrow> bool) \<Rightarrow> string \<Rightarrow> (string \<times> json) list \<Rightarrow> es_doc \<Rightarrow> bool" where
  "leaf_eval other kind body d =
     (if kind = ''match_all'' then True
      else case body of
        [(f, v)] \<Rightarrow>
          if kind = ''term'' then (case jget ''value'' v of Some x \<Rightarrow> x \<in> set (ed_values d f) | None \<Rightarrow> False)
          else if kind = ''terms'' then (case v of JArr xs \<Rightarrow> set xs \<inter> set (ed_values d f) \<noteq> {} | _ \<Rightarrow> False)
          else if kind = ''exists'' then (case v of JStr g \<Rightarrow> ed_values d g \<noteq> [] | _ \<Rightarrow> False)
          else if kind = ''ids'' then (case v of JArr xs \<Rightarrow> JStr (ed_id d) \<in> set xs | _ \<Rightarrow> False)
          else if kind = ''prefix'' then (case jget ''value'' v of Some (JStr p) \<Rightarrow> list_ex (starts_with p) (ed_values d f) | _ \<Rightarrow> False)
          else if kind = ''range'' then list_ex (in_range v) (ed_values d f)
          else other (JObj [(kind, JObj body)]) d
      | _ \<Rightarrow> other (JObj [(kind, JObj body)]) d)"

fun es_eval :: "(json \<Rightarrow> es_doc \<Rightarrow> bool) \<Rightarrow> json \<Rightarrow> es_doc \<Rightarrow> bool" where
  "es_eval other (JObj [(kind, JObj body)]) d =
     (if kind = ''bool''
      then bool_verdict (JObj body) (map (\<lambda>(k, v). (k, case v of JArr qs \<Rightarrow> map (\<lambda>q. es_eval other q d) qs | _ \<Rightarrow> [])) body)
      else leaf_eval other kind body d)"
| "es_eval other q d = other q d"

lemma clause_of:
  "bool_clause (map (\<lambda>(k, v). (k, case v of JArr qs \<Rightarrow> map (\<lambda>q. es_eval other q d) qs | _ \<Rightarrow> [])) body) k =
     (case jget k (JObj body) of Some (JArr qs) \<Rightarrow> map (\<lambda>q. es_eval other q d) qs | _ \<Rightarrow> [])"
  by (simp add: bool_clause_def jget_def map_of_map split: option.split json.split)

lemma es_eval_bool:
  "es_eval other (JObj [(''bool'', JObj body)]) d \<longleftrightarrow>
     (let qs = (\<lambda>k. case jget k (JObj body) of Some (JArr qs) \<Rightarrow> qs | _ \<Rightarrow> [])
      in (\<forall>q \<in> set (qs ''must'') \<union> set (qs ''filter''). es_eval other q d) \<and> (\<forall>q \<in> set (qs ''must_not''). \<not> es_eval other q d) \<and>
         should_needed (JObj body) \<le> length (filter (\<lambda>q. es_eval other q d) (qs ''should'')))"
proof -
  have "bool_clause (map (\<lambda>(k, v). (k, case v of JArr qs \<Rightarrow> map (\<lambda>q. es_eval other q d) qs | _ \<Rightarrow> [])) body) k =
      map (\<lambda>q. es_eval other q d) (case jget k (JObj body) of Some (JArr qs) \<Rightarrow> qs | _ \<Rightarrow> [])" for k
    unfolding clause_of by (simp split: option.split json.split)
  then show ?thesis
    by (simp add: bool_verdict_def Let_def list_all_iff filter_map comp_def) blast
qed

declare es_eval.simps [simp del]

lemma bool_body_obj: "\<exists>fs. bool_body b = JObj fs"
  by (auto simp: bool_body_def Let_def jput_if_def jput_def split: option.split)

lemma bool_body_get:
  "jget ''must'' (bool_body b) = (if bb_must b = [] then None else Some (JArr (bb_must b)))"
  "jget ''filter'' (bool_body b) = (if bb_filter b = [] then None else Some (JArr (bb_filter b)))"
  "jget ''should'' (bool_body b) = (if bb_should b = [] then None else Some (JArr (bb_should b)))"
  "jget ''must_not'' (bool_body b) = (if bb_mustNot b = [] then None else Some (JArr (bb_mustNot b)))"
  "jget ''minimum_should_match'' (bool_body b) = bb_minimumShouldMatch b"
  by (simp_all add: bool_body_def Let_def split: option.split)

text \<open>A built bool query matches exactly the documents its clauses say.\<close>

lemma bool_build_meaning:
  "es_eval other (bb_Build b) d \<longleftrightarrow>
     (\<forall>q \<in> set (bb_must b) \<union> set (bb_filter b). es_eval other q d) \<and> (\<forall>q \<in> set (bb_mustNot b). \<not> es_eval other q d) \<and>
     (case bb_minimumShouldMatch b of
        Some (JInt n) \<Rightarrow> nat n
      | _ \<Rightarrow> if bb_must b = [] \<and> bb_filter b = [] \<and> bb_should b \<noteq> [] then 1 else 0)
       \<le> length (filter (\<lambda>q. es_eval other q d) (bb_should b))"
proof -
  obtain fs where fs: "bool_body b = JObj fs" using bool_body_obj by blast
  show ?thesis
    unfolding bb_Build_def fs es_eval_bool Let_def
    by (simp add: bool_body_get [of b, unfolded fs] should_needed_def split: option.split json.split) auto
qed

text \<open>Leaf queries, and ranges over integers.\<close>

lemma leaf_meaning:
  "es_eval other MatchAll d" "es_eval other (Term f v) d \<longleftrightarrow> v \<in> set (ed_values d f)"
  "es_eval other (Terms f vs) d \<longleftrightarrow> set vs \<inter> set (ed_values d f) \<noteq> {}" "es_eval other (es_Exists f) d \<longleftrightarrow> ed_values d f \<noteq> []"
  "es_eval other (IDs ids) d \<longleftrightarrow> ed_id d \<in> set ids" "es_eval other (es_Prefix f p) d \<longleftrightarrow> list_ex (starts_with p) (ed_values d f)"
  by (auto simp: es_eval.simps leaf_eval_def MatchAll_def Term_def Terms_def es_Exists_def IDs_def es_Prefix_def strs_def jget_def)

lemma range_meaning:
  "es_eval other (range_Build (rb_Lt (JInt hi) (rb_Gte (JInt lo) (es_Range f)))) d \<longleftrightarrow> (\<exists>n. JInt n \<in> set (ed_values d f) \<and> lo \<le> n \<and> n < hi)"
proof -
  have "in_range (jput ''lt'' (JInt hi) (jput ''gte'' (JInt lo) (JObj []))) v \<longleftrightarrow> (\<exists>n. v = JInt n \<and> lo \<le> n \<and> n < hi)" for v
    by (cases v) (auto simp: in_range_def)
  moreover have "jput ''lt'' (JInt hi) (jput ''gte'' (JInt lo) (JObj [])) = JObj [(''gte'', JInt lo), (''lt'', JInt hi)]"
    by (simp add: jput_def)
  ultimately show ?thesis
    by (auto simp: range_Build_def rb_Lt_def rb_Gte_def es_Range_def es_eval.simps leaf_eval_def list_ex_iff) 
qed

end
