(* ===== verification/EsClient.thy ===== *)
theory EsClient
  imports EsQuery Encoding
begin

text \<open>
  Packages \<^verbatim>\<open>database/elasticsearch/client\<close> and \<^verbatim>\<open>repository\<close>: the request primitive with its error translation, document operations, searches
  with scroll and point-in-time, the typed repository and the fluent search builder. The go-elasticsearch transport, the rendering of JSON text and its
  parser are the record \<open>es_lib\<close>; a response is read as far as it is decoded. Log lines, metrics and tracing are left out.
\<close>

subsection \<open>Requests (client.go, health.go)\<close>

text \<open>\<open>es_Perform\<close> sends method, path and, if there is one, a body with its content type; it answers with a transport error or with the status and the
  outcome of reading the body.\<close>

record 's es_lib =
  es_NewRequest :: "string \<Rightarrow> string \<Rightarrow> goerr option"
  es_Perform :: "string \<Rightarrow> string \<Rightarrow> (string \<times> string) option \<Rightarrow> 's \<Rightarrow> 's \<times> (goerr + int \<times> (goerr + string))"
  es_Marshal :: "json \<Rightarrow> goerr + string"
  es_Unmarshal :: "string \<Rightarrow> goerr + json"

definition decode :: "'s es_lib \<Rightarrow> string \<Rightarrow> (json \<Rightarrow> goerr + 'a) \<Rightarrow> string \<Rightarrow> goerr + 'a" where
  "decode E what dec payload =
     (case and_then (es_Unmarshal E payload) (dec_struct dec) of
        Inl e \<Rightarrow> Inl (Errorf (''elastic: decode '' @ what @ '': '') e [])
      | Inr x \<Rightarrow> Inr x)"

definition extractESError :: "'s es_lib \<Rightarrow> string \<Rightarrow> string" where
  "extractESError E payload =
     (case and_then (es_Unmarshal E payload) (dec_struct (dec_field (dec_struct (\<lambda>err.
              and_then (dec_field dec_str [] ''type'' err) (\<lambda>t. and_then (dec_field dec_str [] ''reason'' err) (\<lambda>r. Inr (t, r)))))
            ([], []) ''error'')) of
        Inr (t, r) \<Rightarrow> if r \<noteq> [] then t @ '': '' @ r else take 300 (TrimSpace payload)
      | Inl _ \<Rightarrow> take 300 (TrimSpace payload))"

definition status_error :: "int \<Rightarrow> string \<Rightarrow> goerr" where
  "status_error status detail =
     (if status = 404 then NewNotFound detail []
      else if status = 400 then NewValidation detail []
      else if status = 409 then NewConflict detail []
      else NewInternal (''elasticsearch '' @ itoa status @ '': '' @ detail) [])"

definition es_Do :: "'s es_lib \<Rightarrow> string \<Rightarrow> string \<Rightarrow> json option \<Rightarrow> 's \<Rightarrow> 's \<times> (goerr + string)" where
  "es_Do E method path body s =
     (case (case body of None \<Rightarrow> Inr None | Some j \<Rightarrow> map_sum (\<lambda>e. e) Some (es_Marshal E j)) of
        Inl e \<Rightarrow> (s, Inl (Errorf ''elastic: marshal request: '' e []))
      | Inr t \<Rightarrow>
          (case es_NewRequest E method path of
             Some e \<Rightarrow> (s, Inl (Errorf ''elastic: build request: '' e []))
           | None \<Rightarrow>
               (case es_Perform E method path (map_option (\<lambda>x. (''application/json'', x)) t) s of
                  (s1, Inl e) \<Rightarrow> (s1, Inl (Errorf ''elasticsearch unreachable: '' e []))
                | (s1, Inr (status, Inl e)) \<Rightarrow> (s1, Inl (Errorf ''elastic: read response: '' e []))
                | (s1, Inr (status, Inr payload)) \<Rightarrow>
                    (s1, if 400 \<le> status then Inl (status_error status (extractESError E payload)) else Inr payload))))"

definition es_DoNDJSON :: "'s es_lib \<Rightarrow> string \<Rightarrow> string \<Rightarrow> 's \<Rightarrow> 's \<times> (goerr + string)" where
  "es_DoNDJSON E path body s =
     (case es_NewRequest E ''POST'' path of
        Some e \<Rightarrow> (s, Inl (Errorf ''elastic: build bulk request: '' e []))
      | None \<Rightarrow>
          (case es_Perform E ''POST'' path (Some (''application/x-ndjson'', body)) s of
             (s1, Inl e) \<Rightarrow> (s1, Inl (Errorf ''elastic: bulk request: '' e []))
           | (s1, Inr (status, Inl e)) \<Rightarrow> (s1, Inl (Errorf ''elastic: read response: '' e []))
           | (s1, Inr (status, Inr payload)) \<Rightarrow>
               (s1, if 400 \<le> status then Inl (Opaque (''elastic: bulk status '' @ itoa status @ '': '' @ extractESError E payload)) else Inr payload)))"

definition IsNotFound :: "goerr \<Rightarrow> bool" where
  "IsNotFound err = (case errors_As_DxError err of Some dxe \<Rightarrow> dx_code dxe = ErrNotFound | None \<Rightarrow> False)"

text \<open>A request of which only the outcome counts, and one whose response is decoded.\<close>

definition done_of :: "'s \<times> (goerr + 'a) \<Rightarrow> 's \<times> goerr option" where
  "done_of x = (case x of (s, Inl e) \<Rightarrow> (s, Some e) | (s, Inr _) \<Rightarrow> (s, None))"

definition decoded :: "('a \<Rightarrow> goerr + 'b) \<Rightarrow> 's \<times> (goerr + 'a) \<Rightarrow> 's \<times> (goerr + 'b)" where
  "decoded f x = (case x of (s, r) \<Rightarrow> (s, and_then r f))"

definition ClusterHealth :: "'s es_lib \<Rightarrow> 's \<Rightarrow> 's \<times> (goerr + string)" where
  "ClusterHealth E s = decoded (decode E ''cluster health'' (dec_field dec_str [] ''status'')) (es_Do E ''GET'' ''/_cluster/health'' None s)"

definition es_HealthCheck :: "'s es_lib \<Rightarrow> 's \<Rightarrow> 's \<times> goerr option" where
  "es_HealthCheck E s =
     (case ClusterHealth E s of
        (s1, Inl e) \<Rightarrow> (s1, Some e)
      | (s1, Inr status) \<Rightarrow> (s1, if status = ''red'' then Some (Opaque ''elasticsearch cluster status is red'') else None))"

subsection \<open>Documents (document.go)\<close>

definition index_path :: "string \<Rightarrow> string" where
  "index_path index = ''/'' @ PathEscape index"

definition IndexDoc :: "'s es_lib \<Rightarrow> string \<Rightarrow> string \<Rightarrow> json \<Rightarrow> 's \<Rightarrow> 's \<times> (goerr + string)" where
  "IndexDoc E index i doc s =
     (let path = index_path index @ ''/_doc''
      in decoded (decode E ''index response'' (dec_field dec_str [] ''_id''))
           (if i \<noteq> [] then es_Do E ''PUT'' (path @ ''/'' @ PathEscape i) (Some doc) s else es_Do E ''POST'' path (Some doc) s))"

definition GetDoc :: "'s es_lib \<Rightarrow> (json \<Rightarrow> goerr + 't) \<Rightarrow> string \<Rightarrow> string \<Rightarrow> 's \<Rightarrow> 's \<times> (goerr + 't)" where
  "GetDoc E dec_t index i s =
     decoded (\<lambda>payload. and_then (decode E ''get response'' (\<lambda>j. Inr (jget ''_source'' j)) payload)
                (\<lambda>src. case src of Some j \<Rightarrow> dec_t j | None \<Rightarrow> Inl (Opaque ''unexpected end of JSON input'')))
       (es_Do E ''GET'' (index_path index @ ''/_doc/'' @ PathEscape i) None s)"

definition UpdateDoc :: "'s es_lib \<Rightarrow> string \<Rightarrow> string \<Rightarrow> json \<Rightarrow> 's \<Rightarrow> 's \<times> goerr option" where
  "UpdateDoc E index i partial s =
     done_of (es_Do E ''POST'' (index_path index @ ''/_update/'' @ PathEscape i) (Some (JObj [(''doc'', partial)])) s)"

definition painless :: "string \<Rightarrow> json \<Rightarrow> json" where
  "painless script params = JObj [(''source'', JStr script), (''lang'', JStr ''painless''), (''params'', params)]"

definition ScriptUpdate :: "'s es_lib \<Rightarrow> string \<Rightarrow> string \<Rightarrow> string \<Rightarrow> json \<Rightarrow> 's \<Rightarrow> 's \<times> goerr option" where
  "ScriptUpdate E index i script params s =
     done_of (es_Do E ''POST'' (index_path index @ ''/_update/'' @ PathEscape i) (Some (JObj [(''script'', painless script params)])) s)"

definition opt_json :: "json option \<Rightarrow> json" where
  "opt_json q = (case q of Some j \<Rightarrow> j | None \<Rightarrow> JNull)"

definition UpdateByQuery :: "'s es_lib \<Rightarrow> string \<Rightarrow> json option \<Rightarrow> string \<Rightarrow> json \<Rightarrow> 's \<Rightarrow> 's \<times> (goerr + int)" where
  "UpdateByQuery E index q script params s =
     decoded (decode E ''update_by_query response'' (dec_field dec_int 0 ''updated''))
       (es_Do E ''POST'' (index_path index @ ''/_update_by_query'') (Some (JObj [(''query'', opt_json q), (''script'', painless script params)])) s)"

definition DeleteDoc :: "'s es_lib \<Rightarrow> string \<Rightarrow> string \<Rightarrow> 's \<Rightarrow> 's \<times> goerr option" where
  "DeleteDoc E index i s = done_of (es_Do E ''DELETE'' (index_path index @ ''/_doc/'' @ PathEscape i) None s)"

definition DeleteByQuery :: "'s es_lib \<Rightarrow> string \<Rightarrow> json option \<Rightarrow> 's \<Rightarrow> 's \<times> (goerr + int)" where
  "DeleteByQuery E index q s =
     decoded (decode E ''delete_by_query response'' (dec_field dec_int 0 ''deleted''))
       (es_Do E ''POST'' (index_path index @ ''/_delete_by_query'') (Some (JObj [(''query'', opt_json q)])) s)"

subsection \<open>Searches (search.go)\<close>

record Hit =
  hit_ID :: string
  hit_Source :: "json option"
  hit_Sort :: "json list"

text \<open>Scores and highlights are passed on and not looked at.\<close>

definition dec_hit :: "json \<Rightarrow> goerr + Hit" where
  "dec_hit =
     dec_struct (\<lambda>j. and_then (dec_field dec_str [] ''_id'' j) (\<lambda>i.
       and_then (dec_field (dec_list Inr) [] ''sort'' j) (\<lambda>srt.
         Inr \<lparr>hit_ID = i, hit_Source = jget ''_source'' j, hit_Sort = srt\<rparr>)))"

record SearchResult =
  sres_Hits :: "Hit list"
  sres_Total :: int
  sres_Aggregations :: "(string \<times> json) list"
  sres_Suggest :: "(string \<times> json list) list"

definition flattenSuggest :: "(string \<times> json list list) list \<Rightarrow> (string \<times> json list) list" where
  "flattenSuggest raw = map (\<lambda>(nm, entries). (nm, concat entries)) raw"

definition dec_hits :: "json \<Rightarrow> goerr + int \<times> Hit list" where
  "dec_hits =
     dec_struct (\<lambda>j. and_then (dec_field (dec_struct (dec_field dec_int 0 ''value'')) 0 ''total'' j) (\<lambda>n.
       and_then (dec_field (dec_list dec_hit) [] ''hits'' j) (\<lambda>hs. Inr (n, hs))))"

fun dec_object :: "(json \<Rightarrow> goerr + 'a) \<Rightarrow> json \<Rightarrow> goerr + (string \<times> 'a) list" where
  "dec_object dec (JObj fs) = dec_all (\<lambda>(k, v). and_then (dec v) (\<lambda>x. Inr (k, x))) fs"
| "dec_object dec j = Inl type_error"

definition parseSearchResult :: "'s es_lib \<Rightarrow> string \<Rightarrow> goerr + SearchResult" where
  "parseSearchResult E =
     decode E ''search response'' (\<lambda>j.
       and_then (dec_field dec_hits (0, []) ''hits'' j) (\<lambda>(n, hs).
       and_then (dec_field (dec_object Inr) [] ''aggregations'' j) (\<lambda>aggs.
       and_then (dec_field (dec_object (dec_list (dec_struct (dec_field (dec_list Inr) [] ''options'')))) [] ''suggest'' j) (\<lambda>sg.
         Inr \<lparr>sres_Hits = hs, sres_Total = n, sres_Aggregations = aggs, sres_Suggest = flattenSuggest sg\<rparr>))))"

definition HitsAs :: "(json \<Rightarrow> goerr + 't) \<Rightarrow> SearchResult \<Rightarrow> goerr + 't list" where
  "HitsAs dec_t r =
     dec_all (\<lambda>h. case (case hit_Source h of Some j \<Rightarrow> dec_t j | None \<Rightarrow> Inl (Opaque ''unexpected end of JSON input'')) of
                    Inl e \<Rightarrow> Inl (Errorf (''elastic: decode hit '' @ hit_ID h @ '': '') e [])
                  | Inr x \<Rightarrow> Inr x) (sres_Hits r)"

definition searchPath :: "string list \<Rightarrow> string" where
  "searchPath indices = (if indices = [] then ''/_search'' else ''/'' @ strings_Join (map PathEscape indices) '','' @ ''/_search'')"

definition SearchMulti :: "'s es_lib \<Rightarrow> string list \<Rightarrow> SearchRequest \<Rightarrow> 's \<Rightarrow> 's \<times> (goerr + SearchResult)" where
  "SearchMulti E indices req s =
     (let indices' = (if sr_PIT req \<noteq> None then [] else indices)
      in decoded (parseSearchResult E) (es_Do E ''POST'' (searchPath indices') (Some (sr_Body req)) s))"

definition es_Search :: "'s es_lib \<Rightarrow> string \<Rightarrow> SearchRequest \<Rightarrow> 's \<Rightarrow> 's \<times> (goerr + SearchResult)" where
  "es_Search E index req s = (if index = [] then SearchMulti E [] req s else SearchMulti E [index] req s)"

text \<open>The body variable is a nil map: as the body of \<^verbatim>\<open>Do\<close> it is not nil and its JSON text is \<^verbatim>\<open>null\<close>.\<close>

definition es_Count :: "'s es_lib \<Rightarrow> string \<Rightarrow> json option \<Rightarrow> 's \<Rightarrow> 's \<times> (goerr + int)" where
  "es_Count E index q s =
     decoded (decode E ''count response'' (dec_field dec_int 0 ''count''))
       (es_Do E ''POST'' (index_path index @ ''/_count'') (Some (case q of Some j \<Rightarrow> JObj [(''query'', j)] | None \<Rightarrow> JNull)) s)"

record ScrollResult =
  scr_Hits :: "Hit list"
  scr_Total :: int
  scr_ScrollID :: string

definition parseScrollResult :: "'s es_lib \<Rightarrow> string \<Rightarrow> goerr + ScrollResult" where
  "parseScrollResult E =
     decode E ''scroll response'' (\<lambda>j.
       and_then (dec_field dec_str [] ''_scroll_id'' j) (\<lambda>i.
       and_then (dec_field dec_hits (0, []) ''hits'' j) (\<lambda>(n, hs). Inr \<lparr>scr_Hits = hs, scr_Total = n, scr_ScrollID = i\<rparr>)))"

definition keep_alive :: "string \<Rightarrow> string" where
  "keep_alive k = (if k = [] then ''1m'' else k)"

definition Scroll :: "'s es_lib \<Rightarrow> string \<Rightarrow> SearchRequest \<Rightarrow> string \<Rightarrow> 's \<Rightarrow> 's \<times> (goerr + ScrollResult)" where
  "Scroll E index req keepAlive s =
     decoded (parseScrollResult E)
       (es_Do E ''POST'' (index_path index @ ''/_search?scroll='' @ QueryEscape (keep_alive keepAlive)) (Some (sr_Body req)) s)"

definition ScrollNext :: "'s es_lib \<Rightarrow> string \<Rightarrow> string \<Rightarrow> 's \<Rightarrow> 's \<times> (goerr + ScrollResult)" where
  "ScrollNext E scrollID keepAlive s =
     decoded (parseScrollResult E)
       (es_Do E ''POST'' ''/_search/scroll'' (Some (JObj [(''scroll'', JStr (keep_alive keepAlive)), (''scroll_id'', JStr scrollID)])) s)"

definition ClearScroll :: "'s es_lib \<Rightarrow> string \<Rightarrow> 's \<Rightarrow> 's \<times> goerr option" where
  "ClearScroll E scrollID s = done_of (es_Do E ''DELETE'' ''/_search/scroll'' (Some (JObj [(''scroll_id'', JStr scrollID)])) s)"

definition OpenPIT :: "'s es_lib \<Rightarrow> string \<Rightarrow> string \<Rightarrow> 's \<Rightarrow> 's \<times> (goerr + string)" where
  "OpenPIT E index keepAlive s =
     decoded (decode E ''PIT response'' (dec_field dec_str [] ''id''))
       (es_Do E ''POST'' (index_path index @ ''/_pit?keep_alive='' @ QueryEscape (keep_alive keepAlive)) None s)"

definition ClosePIT :: "'s es_lib \<Rightarrow> string \<Rightarrow> 's \<Rightarrow> 's \<times> goerr option" where
  "ClosePIT E pitID s = done_of (es_Do E ''DELETE'' ''/_pit'' (Some (JObj [(''id'', JStr pitID)])) s)"

subsection \<open>The typed repository (base.go, options.go)\<close>

record SearchOpts =
  so_Size :: int
  so_From :: int
  so_Sort :: es_sort
  so_SourceIncludes :: "string list"
  so_SourceExcludes :: "string list"
  so_TrackTotalHits :: bool

text \<open>\<^verbatim>\<open>Repo[T]\<close> is the name of its index; \<open>dec_t\<close> decodes a document into \<^verbatim>\<open>T\<close> and \<open>enc_t\<close> is its JSON value.\<close>

definition er_Search :: "'s es_lib \<Rightarrow> (json \<Rightarrow> goerr + 't) \<Rightarrow> string \<Rightarrow> json option \<Rightarrow> SearchOpts \<Rightarrow> 's \<Rightarrow> 's \<times> (goerr + 't list \<times> int)" where
  "er_Search E dec_t index q opts s =
     decoded (\<lambda>res. and_then (HitsAs dec_t res) (\<lambda>items. Inr (items, sres_Total res)))
       (es_Search E index (zero_request\<lparr>sr_Query := q, sr_Size := so_Size opts, sr_From := so_From opts, sr_Sort := so_Sort opts,
          sr_SourceIncludes := so_SourceIncludes opts, sr_SourceExcludes := so_SourceExcludes opts, sr_TrackTotalHits := so_TrackTotalHits opts\<rparr>) s)"

definition er_SearchAfter ::
  "'s es_lib \<Rightarrow> (json \<Rightarrow> goerr + 't) \<Rightarrow> string \<Rightarrow> json option \<Rightarrow> es_sort \<Rightarrow> json list \<Rightarrow> int \<Rightarrow> 's \<Rightarrow> 's \<times> (goerr + 't list \<times> json list)" where
  "er_SearchAfter E dec_t index q srt after n s =
     decoded (\<lambda>res. and_then (HitsAs dec_t res) (\<lambda>items. Inr (items, if sres_Hits res \<noteq> [] then hit_Sort (last (sres_Hits res)) else [])))
       (es_Search E index (zero_request\<lparr>sr_Query := q, sr_Sort := srt, sr_Size := n, sr_SearchAfter := after\<rparr>) s)"

definition er_Get :: "'s es_lib \<Rightarrow> (json \<Rightarrow> goerr + 't) \<Rightarrow> string \<Rightarrow> string \<Rightarrow> 's \<Rightarrow> 's \<times> (goerr + 't)" where
  "er_Get E dec_t index i s = GetDoc E dec_t index i s"

definition er_FindByID :: "'s es_lib \<Rightarrow> (json \<Rightarrow> goerr + 't) \<Rightarrow> string \<Rightarrow> string \<Rightarrow> 's \<Rightarrow> 's \<times> (goerr + 't)" where
  "er_FindByID E dec_t index i s = er_Get E dec_t index i s"

definition er_Exists :: "'s es_lib \<Rightarrow> (json \<Rightarrow> goerr + 't) \<Rightarrow> string \<Rightarrow> string \<Rightarrow> 's \<Rightarrow> 's \<times> (goerr + bool)" where
  "er_Exists E dec_t index i s =
     (case er_Get E dec_t index i s of
        (s1, Inl e) \<Rightarrow> (s1, if IsNotFound e then Inr False else Inl e)
      | (s1, Inr _) \<Rightarrow> (s1, Inr True))"

definition er_Index :: "'s es_lib \<Rightarrow> ('t \<Rightarrow> json) \<Rightarrow> string \<Rightarrow> string \<Rightarrow> 't \<Rightarrow> 's \<Rightarrow> 's \<times> goerr option" where
  "er_Index E enc_t index i doc s = done_of (IndexDoc E index i (enc_t doc) s)"

definition er_Update :: "'s es_lib \<Rightarrow> string \<Rightarrow> string \<Rightarrow> json \<Rightarrow> 's \<Rightarrow> 's \<times> goerr option" where
  "er_Update E index i partial s = UpdateDoc E index i partial s"

definition er_Delete :: "'s es_lib \<Rightarrow> string \<Rightarrow> string \<Rightarrow> 's \<Rightarrow> 's \<times> goerr option" where
  "er_Delete E index i s = DeleteDoc E index i s"

definition er_Count :: "'s es_lib \<Rightarrow> string \<Rightarrow> json option \<Rightarrow> 's \<Rightarrow> 's \<times> (goerr + int)" where
  "er_Count E index q s = es_Count E index q s"

subsection \<open>The fluent search (search_builder.go)\<close>

record SearchBuilder =
  sb_indices :: "string list"
  sb_boolQ :: "BoolBuilder option"
  sb_rawQuery :: "json option"
  sb_req :: SearchRequest

definition sb_NewSearch :: "string list \<Rightarrow> SearchBuilder" where
  "sb_NewSearch indices = \<lparr>sb_indices = indices, sb_boolQ = None, sb_rawQuery = None, sb_req = zero_request\<rparr>"

definition ensureBool :: "SearchBuilder \<Rightarrow> BoolBuilder" where
  "ensureBool b = (case sb_boolQ b of Some bq \<Rightarrow> bq | None \<Rightarrow> es_Bool)"

definition sb_Must :: "json list \<Rightarrow> SearchBuilder \<Rightarrow> SearchBuilder" where "sb_Must qs b = b\<lparr>sb_boolQ := Some (bb_Must qs (ensureBool b))\<rparr>"
definition sb_Should :: "json list \<Rightarrow> SearchBuilder \<Rightarrow> SearchBuilder" where "sb_Should qs b = b\<lparr>sb_boolQ := Some (bb_Should qs (ensureBool b))\<rparr>"
definition sb_MustNot :: "json list \<Rightarrow> SearchBuilder \<Rightarrow> SearchBuilder" where "sb_MustNot qs b = b\<lparr>sb_boolQ := Some (bb_MustNot qs (ensureBool b))\<rparr>"
definition sb_Filter :: "json list \<Rightarrow> SearchBuilder \<Rightarrow> SearchBuilder" where "sb_Filter qs b = b\<lparr>sb_boolQ := Some (bb_Filter qs (ensureBool b))\<rparr>"
definition sb_Query :: "json option \<Rightarrow> SearchBuilder \<Rightarrow> SearchBuilder" where "sb_Query q b = b\<lparr>sb_rawQuery := q\<rparr>"

text \<open>The other calls set a part of the request.\<close>

definition on_req :: "(SearchRequest \<Rightarrow> SearchRequest) \<Rightarrow> SearchBuilder \<Rightarrow> SearchBuilder" where "on_req f b = b\<lparr>sb_req := f (sb_req b)\<rparr>"

definition sb_SortAsc :: "string \<Rightarrow> SearchBuilder \<Rightarrow> SearchBuilder" where "sb_SortAsc f = on_req (\<lambda>r. r\<lparr>sr_Sort := sr_Sort r @ [(f, ''asc'')]\<rparr>)"
definition sb_SortDesc :: "string \<Rightarrow> SearchBuilder \<Rightarrow> SearchBuilder" where "sb_SortDesc f = on_req (\<lambda>r. r\<lparr>sr_Sort := sr_Sort r @ [(f, ''desc'')]\<rparr>)"

definition sb_Page :: "int \<Rightarrow> int \<Rightarrow> SearchBuilder \<Rightarrow> SearchBuilder" where
  "sb_Page page n = on_req (\<lambda>r. r\<lparr>sr_From := int64 (int64 ((if page < 1 then 1 else page) - 1) * n), sr_Size := n\<rparr>)"

definition sb_From :: "int \<Rightarrow> SearchBuilder \<Rightarrow> SearchBuilder" where "sb_From n = on_req (\<lambda>r. r\<lparr>sr_From := n\<rparr>)"
definition sb_Size :: "int \<Rightarrow> SearchBuilder \<Rightarrow> SearchBuilder" where "sb_Size n = on_req (\<lambda>r. r\<lparr>sr_Size := n\<rparr>)"
definition sb_SearchAfter :: "json list \<Rightarrow> SearchBuilder \<Rightarrow> SearchBuilder" where "sb_SearchAfter cursor = on_req (\<lambda>r. r\<lparr>sr_SearchAfter := cursor\<rparr>)"
definition sb_Source :: "string list \<Rightarrow> SearchBuilder \<Rightarrow> SearchBuilder" where "sb_Source xs = on_req (\<lambda>r. r\<lparr>sr_SourceIncludes := xs\<rparr>)"
definition sb_ExcludeSource :: "string list \<Rightarrow> SearchBuilder \<Rightarrow> SearchBuilder" where "sb_ExcludeSource xs = on_req (\<lambda>r. r\<lparr>sr_SourceExcludes := xs\<rparr>)"
definition sb_Agg :: "string \<Rightarrow> json \<Rightarrow> SearchBuilder \<Rightarrow> SearchBuilder" where "sb_Agg nm a = on_req (\<lambda>r. r\<lparr>sr_Aggregations := map_put nm a (sr_Aggregations r)\<rparr>)"
definition sb_AggsOnly :: "SearchBuilder \<Rightarrow> SearchBuilder" where "sb_AggsOnly = on_req (\<lambda>r. r\<lparr>sr_SizeZero := True, sr_Size := 0\<rparr>)"
definition sb_Highlight :: "Highlight \<Rightarrow> SearchBuilder \<Rightarrow> SearchBuilder" where "sb_Highlight h = on_req (\<lambda>r. r\<lparr>sr_Highlight := Some h\<rparr>)"
definition sb_Suggest :: "string \<Rightarrow> json \<Rightarrow> SearchBuilder \<Rightarrow> SearchBuilder" where "sb_Suggest nm x = on_req (\<lambda>r. r\<lparr>sr_Suggest := map_put nm x (sr_Suggest r)\<rparr>)"
definition sb_KNN :: "KNN \<Rightarrow> SearchBuilder \<Rightarrow> SearchBuilder" where "sb_KNN k = on_req (\<lambda>r. r\<lparr>sr_KNN := sr_KNN r @ [k]\<rparr>)"
definition sb_PIT :: "string \<Rightarrow> string \<Rightarrow> SearchBuilder \<Rightarrow> SearchBuilder" where
  "sb_PIT i keepAlive = on_req (\<lambda>r. r\<lparr>sr_PIT := Some \<lparr>pit_ID = i, pit_KeepAlive = keepAlive\<rparr>\<rparr>)"
definition sb_TrackTotal :: "SearchBuilder \<Rightarrow> SearchBuilder" where "sb_TrackTotal = on_req (\<lambda>r. r\<lparr>sr_TrackTotalHits := True\<rparr>)"

definition sb_Request :: "SearchBuilder \<Rightarrow> SearchRequest" where
  "sb_Request b =
     (case sb_rawQuery b of
        Some q \<Rightarrow> (sb_req b)\<lparr>sr_Query := Some q\<rparr>
      | None \<Rightarrow> (case sb_boolQ b of Some bq \<Rightarrow> (sb_req b)\<lparr>sr_Query := Some (bb_Build bq)\<rparr> | None \<Rightarrow> sb_req b))"

definition sb_Do :: "'s es_lib \<Rightarrow> SearchBuilder \<Rightarrow> 's \<Rightarrow> 's \<times> (goerr + SearchResult)" where
  "sb_Do E b s = SearchMulti E (sb_indices b) (sb_Request b) s"

definition sb_Count :: "'s es_lib \<Rightarrow> SearchBuilder \<Rightarrow> 's \<Rightarrow> 's \<times> (goerr + int)" where
  "sb_Count E b s = es_Count E (case sb_indices b of i # _ \<Rightarrow> i | [] \<Rightarrow> []) (sr_Query (sb_Request b)) s"

definition SearchAs :: "'s es_lib \<Rightarrow> (json \<Rightarrow> goerr + 't) \<Rightarrow> SearchBuilder \<Rightarrow> 's \<Rightarrow> 's \<times> (goerr + 't list \<times> int)" where
  "SearchAs E dec_t b s = decoded (\<lambda>res. and_then (HitsAs dec_t res) (\<lambda>items. Inr (items, sres_Total res))) (sb_Do E b s)"

definition er_NewSearch :: "string \<Rightarrow> SearchBuilder" where "er_NewSearch index = sb_NewSearch [index]"

subsection \<open>What a fluent search selects\<close>

text \<open>The calls of a chain.\<close>

datatype search_call =
    CQuery "json option" | CMust "json list" | CShould "json list" | CMustNot "json list" | CFilter "json list"
  | CSortAsc string | CSortDesc string | CPage int int | CFrom int | CSize int | CSearchAfter "json list" | CSource "string list"
  | CExcludeSource "string list" | CAgg string json | CAggsOnly | CHighlight Highlight | CSuggest string json | CKNN KNN | CPIT string string | CTrackTotal

fun sb_call :: "search_call \<Rightarrow> SearchBuilder \<Rightarrow> SearchBuilder" where
  "sb_call (CQuery q) = sb_Query q"
| "sb_call (CMust qs) = sb_Must qs"
| "sb_call (CShould qs) = sb_Should qs"
| "sb_call (CMustNot qs) = sb_MustNot qs"
| "sb_call (CFilter qs) = sb_Filter qs"
| "sb_call (CSortAsc f) = sb_SortAsc f"
| "sb_call (CSortDesc f) = sb_SortDesc f"
| "sb_call (CPage p n) = sb_Page p n"
| "sb_call (CFrom n) = sb_From n"
| "sb_call (CSize n) = sb_Size n"
| "sb_call (CSearchAfter c) = sb_SearchAfter c"
| "sb_call (CSource xs) = sb_Source xs"
| "sb_call (CExcludeSource xs) = sb_ExcludeSource xs"
| "sb_call (CAgg nm a) = sb_Agg nm a"
| "sb_call CAggsOnly = sb_AggsOnly"
| "sb_call (CHighlight h) = sb_Highlight h"
| "sb_call (CSuggest nm x) = sb_Suggest nm x"
| "sb_call (CKNN k) = sb_KNN k"
| "sb_call (CPIT i k) = sb_PIT i k"
| "sb_call CTrackTotal = sb_TrackTotal"

lemmas call_defs = sb_Query_def sb_Must_def sb_Should_def sb_MustNot_def sb_Filter_def sb_SortAsc_def sb_SortDesc_def sb_Page_def sb_From_def sb_Size_def
  sb_SearchAfter_def sb_Source_def sb_ExcludeSource_def sb_Agg_def sb_AggsOnly_def sb_Highlight_def sb_Suggest_def sb_KNN_def sb_PIT_def
  sb_TrackTotal_def on_req_def

fun required :: "search_call \<Rightarrow> json list" where
  "required (CMust qs) = qs"
| "required (CFilter qs) = qs"
| "required c = []"

fun excluded :: "search_call \<Rightarrow> json list" where
  "excluded (CMustNot qs) = qs"
| "excluded c = []"

fun optional :: "search_call \<Rightarrow> json list" where
  "optional (CShould qs) = qs"
| "optional c = []"

fun neighbours :: "search_call \<Rightarrow> KNN list" where
  "neighbours (CKNN k) = [k]"
| "neighbours c = []"

fun composes :: "search_call \<Rightarrow> bool" where
  "composes (CMust qs) = True"
| "composes (CShould qs) = True"
| "composes (CMustNot qs) = True"
| "composes (CFilter qs) = True"
| "composes c = False"

text \<open>The last \<^verbatim>\<open>Query\<close> of a chain counts.\<close>

fun replaced_by :: "search_call \<Rightarrow> json option \<Rightarrow> json option" where
  "replaced_by (CQuery q) _ = q"
| "replaced_by c q = q"

text \<open>
  The documents a request body matches: those of its query, or all if it has neither query nor nearest-neighbour clauses, and those that one of these
  clauses finds (\<open>near\<close>); Elasticsearch returns both.
\<close>

definition body_matches :: "(json \<Rightarrow> es_doc \<Rightarrow> bool) \<Rightarrow> (json \<Rightarrow> es_doc \<Rightarrow> bool) \<Rightarrow> json \<Rightarrow> es_doc \<Rightarrow> bool" where
  "body_matches other near body d \<longleftrightarrow>
     (case jget ''query'' body of Some q \<Rightarrow> es_eval other q d | None \<Rightarrow> jget ''knn'' body = None) \<or>
     (case jget ''knn'' body of Some (JArr ks) \<Rightarrow> list_ex (\<lambda>k. near k d) ks | _ \<Rightarrow> False)"

lemma sr_Body_get:
  "jget ''query'' (sr_Body r) = sr_Query r"
  "jget ''knn'' (sr_Body r) = (if sr_KNN r = [] then None else Some (JArr (map knn_Body (sr_KNN r))))"
  by (simp_all add: sr_Body_def Let_def split: option.split)

lemma chain_frame:
  "sb_rawQuery (fold sb_call cs b) = fold replaced_by cs (sb_rawQuery b) \<and> sr_Query (sb_req (fold sb_call cs b)) = sr_Query (sb_req b) \<and>
   sr_KNN (sb_req (fold sb_call cs b)) = sr_KNN (sb_req b) @ concat (map neighbours cs) \<and>
   (sb_boolQ (fold sb_call cs b) = None \<longleftrightarrow> sb_boolQ b = None \<and> \<not> list_ex composes cs)"
proof (induction cs arbitrary: b)
  case (Cons c cs)
  have "sb_rawQuery (sb_call c b) = replaced_by c (sb_rawQuery b)" "sr_Query (sb_req (sb_call c b)) = sr_Query (sb_req b)"
    "sr_KNN (sb_req (sb_call c b)) = sr_KNN (sb_req b) @ neighbours c" "sb_boolQ (sb_call c b) = None \<longleftrightarrow> sb_boolQ b = None \<and> \<not> composes c"
    by (cases c; simp add: call_defs)+
  with Cons.IH [of "sb_call c b"] show ?case by auto
qed simp

text \<open>The clauses a builder has collected.\<close>

definition clauses_of :: "SearchBuilder \<Rightarrow> json set \<times> json list \<times> json list \<times> json option" where
  "clauses_of b = (let q = ensureBool b in (set (bb_must q) \<union> set (bb_filter q), bb_mustNot q, bb_should q, bb_minimumShouldMatch q))"

lemma call_clauses:
  "clauses_of (sb_call c b) = (case clauses_of b of (r, x, t, m) \<Rightarrow> (r \<union> set (required c), x @ excluded c, t @ optional c, m))"
  by (cases c) (auto simp: clauses_of_def ensureBool_def call_defs bb_Must_def bb_Should_def bb_MustNot_def bb_Filter_def Let_def)

lemma chain_clauses:
  "clauses_of (fold sb_call cs b) =
     (case clauses_of b of (r, x, t, m) \<Rightarrow> (r \<union> set (concat (map required cs)), x @ concat (map excluded cs), t @ concat (map optional cs), m))"
  by (induction cs arbitrary: b) (auto simp: call_clauses split: prod.splits)

lemma composed_meaning:
  assumes "clauses_of b = (set R, X, T, None)" and "sb_boolQ b = Some bq"
  shows "es_eval other (bb_Build bq) d \<longleftrightarrow> list_all (\<lambda>q. es_eval other q d) R \<and> list_all (\<lambda>q. \<not> es_eval other q d) X \<and>
    (if R = [] \<and> T \<noteq> [] then list_ex (\<lambda>q. es_eval other q d) T else True)"
proof -
  have q: "set (bb_must bq) \<union> set (bb_filter bq) = set R" "bb_mustNot bq = X" "bb_should bq = T" "bb_minimumShouldMatch bq = None"
    using assms by (simp_all add: clauses_of_def ensureBool_def Let_def)
  then have e: "bb_must bq = [] \<and> bb_filter bq = [] \<longleftrightarrow> R = []" by (metis Un_empty set_empty)
  have n: "1 \<le> length (filter P xs) \<longleftrightarrow> list_ex P xs" for P and xs :: "json list"
    by (induction xs) auto
  show ?thesis unfolding bool_build_meaning q using e n [of "\<lambda>q. es_eval other q d" T] by (auto simp: list_all_iff)
qed

text \<open>
  C19: A fluent search matches exactly what its calls say. Whatever calls are chained in whatever order, a document matches the body sent if and only if
  it is found by one of the \<^verbatim>\<open>KNN\<close> clauses or by the query part, which is: the query of the last \<^verbatim>\<open>Query\<close> call, if that gave one; otherwise, if
  there was any clause call, every query given to \<^verbatim>\<open>Must\<close> and \<^verbatim>\<open>Filter\<close>, none given to \<^verbatim>\<open>MustNot\<close> and, when there are
  only \<^verbatim>\<open>Should\<close> clauses, at least one of these; otherwise everything, unless there are \<^verbatim>\<open>KNN\<close> clauses. So among chains without \<^verbatim>\<open>Query\<close>
  and \<^verbatim>\<open>KNN\<close> no call can undo a filter. What a text, geometry or script query matches (\<open>other\<close>) and what a clause finds nearby (\<open>near\<close>) is
  arbitrary.
\<close>

theorem fluent_search_selects:
  "body_matches other near (sr_Body (sb_Request (fold sb_call cs (sb_NewSearch indices)))) d \<longleftrightarrow>
     (case fold replaced_by cs None of
        Some q \<Rightarrow> es_eval other q d
      | None \<Rightarrow>
          if list_ex composes cs
          then list_all (\<lambda>q. es_eval other q d) (concat (map required cs)) \<and> list_all (\<lambda>q. \<not> es_eval other q d) (concat (map excluded cs)) \<and>
               (if concat (map required cs) = [] \<and> concat (map optional cs) \<noteq> [] then list_ex (\<lambda>q. es_eval other q d) (concat (map optional cs)) else True)
          else concat (map neighbours cs) = [])
     \<or> list_ex (\<lambda>k. near (knn_Body k) d) (concat (map neighbours cs))"
proof -
  define b where "b = fold sb_call cs (sb_NewSearch indices)"
  define K where "K = concat (map neighbours cs)"
  note fr = chain_frame [of cs "sb_NewSearch indices", folded b_def K_def]
  have raw: "sb_rawQuery b = fold replaced_by cs None" "sr_Query (sb_req b) = None" "sr_KNN (sb_req b) = K" "sb_boolQ b = None \<longleftrightarrow> \<not> list_ex composes cs"
    using fr by (simp_all add: sb_NewSearch_def zero_request_def)
  have cl: "clauses_of b = (set (concat (map required cs)), concat (map excluded cs), concat (map optional cs), None)"
    using chain_clauses [of cs "sb_NewSearch indices"] by (simp add: b_def clauses_of_def ensureBool_def sb_NewSearch_def es_Bool_def Let_def)
  have k: "sr_KNN (sb_Request b) = K" using raw(3) by (simp add: sb_Request_def split: option.split)
  have m: "body_matches other near (sr_Body (sb_Request b)) d \<longleftrightarrow>
      (case sr_Query (sb_Request b) of Some q \<Rightarrow> es_eval other q d | None \<Rightarrow> K = []) \<or> list_ex (\<lambda>k. near (knn_Body k) d) K"
    by (simp add: body_matches_def sr_Body_get k list_ex_iff split: option.split)
  show ?thesis
  proof (cases "fold replaced_by cs None")
    case (Some q)
    with raw(1) m show ?thesis unfolding b_def [symmetric] K_def [symmetric] by (simp add: sb_Request_def)
  next
    case None
    show ?thesis
    proof (cases "sb_boolQ b")
      case N: None
      then show ?thesis using raw None m unfolding b_def [symmetric] K_def [symmetric] by (simp add: sb_Request_def)
    next
      case (Some bq)
      with composed_meaning [OF cl Some, of other d] raw None m show ?thesis
        unfolding b_def [symmetric] K_def [symmetric] by (simp add: sb_Request_def)
    qed
  qed
qed

text \<open>A neighbour is returned although a filter of the same chain excludes it.\<close>

lemma knn_bypasses_filter:
  "near (knn_Body k) d \<Longrightarrow> body_matches other near (sr_Body (sb_Request (sb_KNN k (sb_Filter [q] (sb_NewSearch indices))))) d"
  by (simp add: body_matches_def sr_Body_get sb_Request_def sb_KNN_def sb_Filter_def on_req_def sb_NewSearch_def zero_request_def)

text \<open>Findings: a count looks at the first index only, and a count without a query sends the JSON text null as its body.\<close>

lemma count_uses_first_index: "sb_Count E (sb_NewSearch (i # is)) s = es_Count E i None s"
  by (simp add: sb_Count_def sb_NewSearch_def sb_Request_def zero_request_def)

lemma count_all_sends_null: "es_Count E index None s = decoded (decode E ''count response'' (dec_field dec_int 0 ''count'')) (es_Do E ''POST'' (index_path index @ ''/_count'') (Some JNull) s)"
  by (simp add: es_Count_def)

end
