(* ===== verification/EsIndices.thy ===== *)
theory EsIndices
  imports EsClient
begin

text \<open>
  Package \<^verbatim>\<open>database/elasticsearch/mapping\<close>, index lifecycle and aliases (\<^verbatim>\<open>lifecycle.go\<close>, \<^verbatim>\<open>aliases.go\<close>), with the copy step of \<^verbatim>\<open>indexing/reindex.go\<close>
  and the template requests of \<^verbatim>\<open>template.go\<close>. Shown: a migration behind an alias never leaves it without an index and loses no stored document, whichever
  of its requests fails and after every one of them.
\<close>

subsection \<open>Operations\<close>

definition Reindex :: "'s es_lib \<Rightarrow> string \<Rightarrow> string \<Rightarrow> string \<Rightarrow> 's \<Rightarrow> 's \<times> goerr option" where
  "Reindex E src dst script s =
     done_of (es_Do E ''POST'' ''/_reindex?wait_for_completion=true''
       (Some (jput_if (script \<noteq> []) ''script'' (JObj [(''source'', JStr script), (''lang'', JStr ''painless'')])
         (JObj [(''source'', JObj [(''index'', JStr src)]), (''dest'', JObj [(''index'', JStr dst)])]))) s)"

text \<open>The repository's copy of its own index.\<close>

definition er_ReindexTo :: "'s es_lib \<Rightarrow> string \<Rightarrow> string \<Rightarrow> string \<Rightarrow> 's \<Rightarrow> 's \<times> goerr option" where
  "er_ReindexTo E index dst script s = Reindex E index dst script s"

definition EnsureAlias :: "'s es_lib \<Rightarrow> string \<Rightarrow> string \<Rightarrow> 's \<Rightarrow> 's \<times> goerr option" where
  "EnsureAlias E index alias s = done_of (es_Do E ''PUT'' (index_path index @ ''/_alias/'' @ PathEscape alias) None s)"

definition swap_actions :: "string \<Rightarrow> string \<Rightarrow> string \<Rightarrow> json" where
  "swap_actions alias oldIndex newIndex =
     JObj [(''actions'', JArr [JObj [(''remove'', JObj [(''index'', JStr oldIndex), (''alias'', JStr alias)])],
                               JObj [(''add'', JObj [(''index'', JStr newIndex), (''alias'', JStr alias)])]])]"

definition SwapAlias :: "'s es_lib \<Rightarrow> string \<Rightarrow> string \<Rightarrow> string \<Rightarrow> 's \<Rightarrow> 's \<times> goerr option" where
  "SwapAlias E alias oldIndex newIndex s = done_of (es_Do E ''POST'' ''/_aliases'' (Some (swap_actions alias oldIndex newIndex)) s)"

definition PutMapping :: "'s es_lib \<Rightarrow> string \<Rightarrow> json \<Rightarrow> 's \<Rightarrow> 's \<times> goerr option" where
  "PutMapping E index mapping s = done_of (es_Do E ''PUT'' (index_path index @ ''/_mapping'') (Some mapping) s)"

definition AliasIndices :: "'s es_lib \<Rightarrow> string \<Rightarrow> 's \<Rightarrow> 's \<times> (goerr + string list)" where
  "AliasIndices E alias s =
     (case es_Do E ''GET'' (''/_alias/'' @ PathEscape alias) None s of
        (s1, Inl e) \<Rightarrow> (s1, if IsNotFound e then Inr [] else Inl e)
      | (s1, Inr payload) \<Rightarrow> (s1, decode E ''alias response'' (\<lambda>j. Inr (sort (map fst (jfields j)))) payload))"

text \<open>A nil body (\<open>None\<close>) becomes the empty object.\<close>

definition CreateIndex :: "'s es_lib \<Rightarrow> string \<Rightarrow> json option \<Rightarrow> 's \<Rightarrow> 's \<times> goerr option" where
  "CreateIndex E index body s = done_of (es_Do E ''PUT'' (index_path index) (Some (case body of None \<Rightarrow> JObj [] | Some j \<Rightarrow> j)) s)"

definition IndexExists :: "'s es_lib \<Rightarrow> string \<Rightarrow> 's \<Rightarrow> 's \<times> (goerr + bool)" where
  "IndexExists E index s =
     (case es_Do E ''GET'' (index_path index) None s of
        (s1, Inl e) \<Rightarrow> (s1, if IsNotFound e then Inr False else Inl e)
      | (s1, Inr _) \<Rightarrow> (s1, Inr True))"

definition EnsureIndex :: "'s es_lib \<Rightarrow> string \<Rightarrow> json option \<Rightarrow> 's \<Rightarrow> 's \<times> (goerr + bool)" where
  "EnsureIndex E index body s =
     (case IndexExists E index s of
        (s1, Inl e) \<Rightarrow> (s1, Inl e)
      | (s1, Inr True) \<Rightarrow> (s1, Inr False)
      | (s1, Inr False) \<Rightarrow> (case CreateIndex E index body s1 of (s2, Some e) \<Rightarrow> (s2, Inl e) | (s2, None) \<Rightarrow> (s2, Inr True)))"

definition DeleteIndex :: "'s es_lib \<Rightarrow> string \<Rightarrow> 's \<Rightarrow> 's \<times> goerr option" where
  "DeleteIndex E index s = done_of (es_Do E ''DELETE'' (index_path index) None s)"

definition es_Refresh :: "'s es_lib \<Rightarrow> string \<Rightarrow> 's \<Rightarrow> 's \<times> goerr option" where
  "es_Refresh E index s = done_of (es_Do E ''POST'' (index_path index @ ''/_refresh'') None s)"

definition UpdateIndexSettings :: "'s es_lib \<Rightarrow> string \<Rightarrow> json \<Rightarrow> 's \<Rightarrow> 's \<times> goerr option" where
  "UpdateIndexSettings E index settings s = done_of (es_Do E ''PUT'' (index_path index @ ''/_settings'') (Some (JObj [(''index'', settings)])) s)"

definition PutILMPolicy :: "'s es_lib \<Rightarrow> string \<Rightarrow> json \<Rightarrow> 's \<Rightarrow> 's \<times> goerr option" where
  "PutILMPolicy E nm phases s =
     done_of (es_Do E ''PUT'' (''/_ilm/policy/'' @ PathEscape nm) (Some (JObj [(''policy'', JObj [(''phases'', phases)])])) s)"

definition PutIndexTemplate :: "'s es_lib \<Rightarrow> string \<Rightarrow> json \<Rightarrow> 's \<Rightarrow> 's \<times> goerr option" where
  "PutIndexTemplate E nm body s = done_of (es_Do E ''PUT'' (''/_index_template/'' @ PathEscape nm) (Some body) s)"

definition DeleteIndexTemplate :: "'s es_lib \<Rightarrow> string \<Rightarrow> 's \<Rightarrow> 's \<times> goerr option" where
  "DeleteIndexTemplate E nm s = done_of (es_Do E ''DELETE'' (''/_index_template/'' @ PathEscape nm) None s)"

record MigrateOptions =
  mo_Script :: string
  mo_DeleteOld :: bool

text \<open>The arrow of the messages, in UTF-8.\<close>

definition arrow :: string where
  "arrow = [CHR '' '', CHR 0xE2, CHR 0x86, CHR 0x92, CHR '' '']"

text \<open>The three loops of \<^verbatim>\<open>MigrateIndex\<close> have one shape: a request for every old index other than the target, ended by the first error.\<close>

fun each_old :: "string \<Rightarrow> (string \<Rightarrow> string) \<Rightarrow> (string \<Rightarrow> 's \<Rightarrow> 's \<times> goerr option) \<Rightarrow> string list \<Rightarrow> 's \<Rightarrow> 's \<times> goerr option" where
  "each_old newIndex msg f [] s = (s, None)"
| "each_old newIndex msg f (old # olds) s =
     (if old = newIndex then each_old newIndex msg f olds s
      else case wrap_err (msg old) (f old s) of
             (s1, Some e) \<Rightarrow> (s1, Some e)
           | (s1, None) \<Rightarrow> each_old newIndex msg f olds s1)"

definition MigrateIndex :: "'s es_lib \<Rightarrow> string \<Rightarrow> string \<Rightarrow> json option \<Rightarrow> MigrateOptions \<Rightarrow> 's \<Rightarrow> 's \<times> goerr option" where
  "MigrateIndex E alias newIndex body opts s =
     (let pre = ''elastic: migrate '' @ alias @ '': '' in
      if alias = newIndex then (s, Some (Opaque (''elastic: alias '' @ go_quote alias @ '' must differ from the physical index name'')))
      else case AliasIndices E alias s of
        (s1, Inl e) \<Rightarrow> (s1, Some (Errorf (pre @ ''resolve alias: '') e []))
      | (s1, Inr olds) \<Rightarrow>
          (case EnsureIndex E newIndex body s1 of
             (s2, Inl e) \<Rightarrow> (s2, Some (Errorf (pre @ ''create '' @ newIndex @ '': '') e []))
           | (s2, Inr _) \<Rightarrow>
               if olds = [] then wrap_err (pre @ ''point alias: '') (EnsureAlias E newIndex alias s2)
               else (case each_old newIndex (\<lambda>old. pre @ ''reindex '' @ old @ arrow @ newIndex @ '': '')
                            (\<lambda>old. Reindex E old newIndex (mo_Script opts)) olds s2 of
                       (s3, Some e) \<Rightarrow> (s3, Some e)
                     | (s3, None) \<Rightarrow>
                         (case each_old newIndex (\<lambda>old. pre @ ''swap '' @ old @ arrow @ newIndex @ '': '')
                                 (\<lambda>old. SwapAlias E alias old newIndex) olds s3 of
                            (s4, Some e) \<Rightarrow> (s4, Some e)
                          | (s4, None) \<Rightarrow>
                              if mo_DeleteOld opts
                              then each_old newIndex (\<lambda>old. pre @ ''delete old '' @ old @ '': '') (DeleteIndex E) olds s4
                              else (s4, None)))))"

subsection \<open>What Elasticsearch promises\<close>

text \<open>
  \<open>al s a\<close> are the indices alias \<open>a\<close> points at (none if it is not an alias), \<open>docs s i\<close> the documents stored in index \<open>i\<close> by id, and \<open>fr s\<close> the indices
  that are refreshed: what is stored in them is what searches, and copies, see. A request that is answered with a status below 400 has taken
  effect; one that fails, is lost on the way or whose answer is lost may or may not have. An index that is not written to stays refreshed.
\<close>

type_synonym es_answer = "goerr + int \<times> (goerr + string)"

fun es_answered :: "es_answer \<Rightarrow> bool" where
  "es_answered (Inr (status, Inr payload)) \<longleftrightarrow> status < 400"
| "es_answered r \<longleftrightarrow> False"

type_synonym 's alias_view = "'s \<Rightarrow> string \<Rightarrow> string set"
type_synonym 's doc_view = "'s \<Rightarrow> string \<Rightarrow> string \<rightharpoonup> string"
type_synonym 's fresh_view = "'s \<Rightarrow> string set"

definition unseen :: "'s alias_view \<Rightarrow> 's doc_view \<Rightarrow> 's fresh_view \<Rightarrow> 's \<Rightarrow> 's \<Rightarrow> bool" where
  "unseen al docs fr s s' \<longleftrightarrow> al s' = al s \<and> docs s' = docs s \<and> fr s \<subseteq> fr s'"

text \<open>Looking up an alias or an index and creating an index leave aliases and documents as they are; the first answers with the indices as keys, or 404.\<close>

definition lookup_ok :: "'s es_lib \<Rightarrow> 's alias_view \<Rightarrow> 's doc_view \<Rightarrow> 's fresh_view \<Rightarrow> bool" where
  "lookup_ok E al docs fr \<longleftrightarrow>
     (\<forall>a s s' r. es_Perform E ''GET'' (''/_alias/'' @ PathEscape a) None s = (s', r) \<longrightarrow>
        unseen al docs fr s s' \<and>
        (\<forall>payload. r = Inr (404, Inr payload) \<longrightarrow> al s a = {}) \<and>
        (\<forall>status payload j. r = Inr (status, Inr payload) \<longrightarrow> status < 400 \<longrightarrow> es_Unmarshal E payload = Inr j \<longrightarrow>
           set (map fst (jfields j)) = al s a)) \<and>
     (\<forall>i s s' r. es_Perform E ''GET'' (''/'' @ PathEscape i) None s = (s', r) \<longrightarrow> unseen al docs fr s s') \<and>
     (\<forall>i t s s' r. es_Perform E ''PUT'' (''/'' @ PathEscape i) (Some (''application/json'', t)) s = (s', r) \<longrightarrow> unseen al docs fr s s')"

text \<open>Aliases are changed atomically.\<close>

definition alias_ok :: "'s es_lib \<Rightarrow> 's alias_view \<Rightarrow> 's doc_view \<Rightarrow> 's fresh_view \<Rightarrow> bool" where
  "alias_ok E al docs fr \<longleftrightarrow>
     (\<forall>i a s s' r. al s i = {} \<longrightarrow> es_Perform E ''PUT'' (''/'' @ PathEscape i @ ''/_alias/'' @ PathEscape a) None s = (s', r) \<longrightarrow>
        docs s' = docs s \<and> fr s \<subseteq> fr s' \<and> (al s' = (al s)(a := insert i (al s a)) \<or> al s' = al s \<and> \<not> es_answered r)) \<and>
     (\<forall>a old new t s s' r. al s old = {} \<longrightarrow> al s new = {} \<longrightarrow> es_Marshal E (swap_actions a old new) = Inr t \<longrightarrow>
        es_Perform E ''POST'' ''/_aliases'' (Some (''application/json'', t)) s = (s', r) \<longrightarrow>
        docs s' = docs s \<and> fr s \<subseteq> fr s' \<and> (al s' = (al s)(a := insert new (al s a - {old})) \<or> al s' = al s \<and> \<not> es_answered r))"

text \<open>
  A copy without a script from a refreshed index that is answered has put every document of the source into the target, over one of the same id; before
  that any part of them. Nothing is promised of a source that is not refreshed, or of when the target becomes searchable. Only the target changes. A deleted index
  leaves its aliases too.
\<close>

definition copied_part :: "(string \<rightharpoonup> string) \<Rightarrow> (string \<rightharpoonup> string) \<Rightarrow> (string \<rightharpoonup> string) \<Rightarrow> bool" where
  "copied_part src dst dst' \<longleftrightarrow> (\<forall>i. dst' i = dst i \<or> src i \<noteq> None \<and> dst' i = src i)"

definition copy_ok :: "'s es_lib \<Rightarrow> 's alias_view \<Rightarrow> 's doc_view \<Rightarrow> 's fresh_view \<Rightarrow> bool" where
  "copy_ok E al docs fr \<longleftrightarrow>
     (\<forall>src dst script t s s' r.
        al s src = {} \<longrightarrow> al s dst = {} \<longrightarrow>
        es_Marshal E (jput_if (script \<noteq> []) ''script'' (JObj [(''source'', JStr script), (''lang'', JStr ''painless'')])
          (JObj [(''source'', JObj [(''index'', JStr src)]), (''dest'', JObj [(''index'', JStr dst)])])) = Inr t \<longrightarrow>
        es_Perform E ''POST'' ''/_reindex?wait_for_completion=true'' (Some (''application/json'', t)) s = (s', r) \<longrightarrow>
        al s' = al s \<and> fr s - {dst} \<subseteq> fr s' \<and> (\<forall>i. i \<noteq> dst \<longrightarrow> docs s' i = docs s i) \<and>
        (script = [] \<longrightarrow> src \<in> fr s \<longrightarrow> copied_part (docs s src) (docs s dst) (docs s' dst) \<and>
           (es_answered r \<longrightarrow> docs s' dst = docs s dst ++ docs s src))) \<and>
     (\<forall>i s s' r. al s i = {} \<longrightarrow> es_Perform E ''DELETE'' (''/'' @ PathEscape i) None s = (s', r) \<longrightarrow>
        al s' = (\<lambda>a. al s a - {i}) \<and> docs s' = (docs s)(i := Map.empty) \<or> unseen al docs fr s s')"

text \<open>The errors of the transport are none of this library's own.\<close>

definition foreign_ok :: "'s es_lib \<Rightarrow> bool" where
  "foreign_ok E \<longleftrightarrow>
     (\<forall>m p e. es_NewRequest E m p = Some e \<longrightarrow> errors_As_DxError e = None) \<and>
     (\<forall>j e. es_Marshal E j = Inl e \<longrightarrow> errors_As_DxError e = None) \<and>
     (\<forall>m p b s s' e. es_Perform E m p b s = (s', Inl e) \<longrightarrow> errors_As_DxError e = None) \<and>
     (\<forall>m p b s s' st e. es_Perform E m p b s = (s', Inr (st, Inl e)) \<longrightarrow> errors_As_DxError e = None)"

definition elastic_ok :: "'s es_lib \<Rightarrow> 's alias_view \<Rightarrow> 's doc_view \<Rightarrow> 's fresh_view \<Rightarrow> bool" where
  "elastic_ok E al docs fr \<longleftrightarrow> foreign_ok E \<and> lookup_ok E al docs fr \<and> alias_ok E al docs fr \<and> copy_ok E al docs fr"

text \<open>The same cluster with a witness beside it that notes every state it passes through.\<close>

definition watched :: "'s es_lib \<Rightarrow> ('s \<times> 's list) es_lib" where
  "watched E = \<lparr>es_NewRequest = es_NewRequest E,
     es_Perform = (\<lambda>m p b w. case es_Perform E m p b (fst w) of (s', r) \<Rightarrow> ((s', snd w @ [s']), r)),
     es_Marshal = es_Marshal E, es_Unmarshal = es_Unmarshal E\<rparr>"

lemma watched_Do:
  assumes "es_Do (watched E) m p b (s, h) = ((s', h'), r)"
  shows "es_Do E m p b s = (s', r)" and "s' = s \<and> h' = h \<or> h' = h @ [s']"
proof -
  have x: "extractESError (watched E) = extractESError E" by (simp add: extractESError_def watched_def fun_eq_iff)
  show "es_Do E m p b s = (s', r)"
    using assms unfolding es_Do_def x by (simp add: watched_def split: sum.splits option.splits prod.splits if_splits)
  show "s' = s \<and> h' = h \<or> h' = h @ [s']"
    using assms unfolding es_Do_def x by (auto simp: watched_def split: sum.splits option.splits prod.splits if_splits)
qed

lemma IsNotFound_simps [simp]:
  "errors_As_DxError e = None \<Longrightarrow> IsNotFound (Errorf pre e post) = False"
  "IsNotFound (status_error st detail) \<longleftrightarrow> st = 404"
  by (simp_all add: IsNotFound_def status_error_def NewNotFound_def NewValidation_def NewConflict_def NewInternal_def code_defs)

lemma Do_cases:
  assumes "es_Do E m p b s = (s', r)" and "foreign_ok E"
  obtains (unsent) e where "s' = s" "r = Inl e" "\<not> IsNotFound e"
  | (none) rp where "b = None" "es_Perform E m p None s = (s', rp)" "es_answered rp \<longleftrightarrow> (\<exists>x. r = Inr x)"
      "\<And>x. r = Inr x \<Longrightarrow> \<exists>st. rp = Inr (st, Inr x) \<and> st < 400" "\<And>e. r = Inl e \<Longrightarrow> IsNotFound e \<Longrightarrow> \<exists>x. rp = Inr (404, Inr x)"
  | (body) j t rp where "b = Some j" "es_Marshal E j = Inr t" "es_Perform E m p (Some (''application/json'', t)) s = (s', rp)"
      "es_answered rp \<longleftrightarrow> (\<exists>x. r = Inr x)"
proof -
  have perform: "(es_answered rp \<longleftrightarrow> (\<exists>x. r = Inr x)) \<and> (\<forall>x. r = Inr x \<longrightarrow> (\<exists>st. rp = Inr (st, Inr x) \<and> st < 400)) \<and>
      (\<forall>e. r = Inl e \<longrightarrow> IsNotFound e \<longrightarrow> (\<exists>x. rp = Inr (404, Inr x))) \<and> s1 = s'"
    if p: "es_Perform E m p t s = (s1, rp)"
      and d: "(case es_Perform E m p t s of
                  (s1, Inl e) \<Rightarrow> (s1, Inl (Errorf ''elasticsearch unreachable: '' e []))
                | (s1, Inr (status, Inl e)) \<Rightarrow> (s1, Inl (Errorf ''elastic: read response: '' e []))
                | (s1, Inr (status, Inr payload)) \<Rightarrow>
                    (s1, if 400 \<le> status then Inl (status_error status (extractESError E payload)) else Inr payload)) = (s', r)" for t s1 rp
  proof -
    have f: "rp = Inl e \<Longrightarrow> errors_As_DxError e = None" "rp = Inr (st, Inl e) \<Longrightarrow> errors_As_DxError e = None" for st e
      using p assms(2) unfolding foreign_ok_def by blast+
    show ?thesis using d p f by (auto split: sum.splits prod.splits if_splits)
  qed
  show ?thesis
  proof (cases b)
    case None
    show ?thesis
    proof (cases "es_NewRequest E m p")
      case N: None
      obtain s1 rp where p: "es_Perform E m p None s = (s1, rp)" by force
      from perform [OF p] assms(1) None N p show ?thesis by (intro none [of rp]) (auto simp: es_Do_def)
    next
      case (Some e)
      with assms None show ?thesis by (intro unsent) (auto simp: es_Do_def foreign_ok_def)
    qed
  next
    case (Some j)
    consider e where "es_Marshal E j = Inl e" | t e where "es_Marshal E j = Inr t" "es_NewRequest E m p = Some e"
      | t where "es_Marshal E j = Inr t" "es_NewRequest E m p = None"
      by (metis sum.exhaust option.exhaust)
    then show ?thesis
    proof cases
      case 3
      obtain s1 rp where p: "es_Perform E m p (Some (''application/json'', t)) s = (s1, rp)" by force
      from perform [OF p] assms(1) Some 3 p show ?thesis by (intro body [of j t rp]) (auto simp: es_Do_def)
    next
      case 1
      then have "errors_As_DxError e = None" using assms(2) by (auto simp: foreign_ok_def)
      with 1 assms(1) Some show ?thesis by (intro unsent) (auto simp: es_Do_def)
    next
      case 2
      then have "errors_As_DxError e = None" using assms(2) by (auto simp: foreign_ok_def)
      with 2 assms(1) Some show ?thesis by (intro unsent) (auto simp: es_Do_def)
    qed
  qed
qed

subsection \<open>The effect of each operation\<close>

lemma done_of_Do: "done_of (es_Do E m p b s) = (s', r) \<Longrightarrow> \<exists>x. es_Do E m p b s = (s', x) \<and> (r = None \<longleftrightarrow> (\<exists>y. x = Inr y))"
  by (auto simp: done_of_def split: prod.splits sum.splits)

lemma copied_part_refl [simp]: "copied_part src dst dst"
  by (simp add: copied_part_def)

lemma Reindex_effect:
  assumes "Reindex E src dst script s = (s', r)" and ok: "elastic_ok E al docs fr" and "al s src = {}" and "al s dst = {}"
  shows "al s' = al s" and "fr s - {dst} \<subseteq> fr s'" and "i \<noteq> dst \<Longrightarrow> docs s' i = docs s i"
    and "script = [] \<Longrightarrow> src \<in> fr s \<Longrightarrow> copied_part (docs s src) (docs s dst) (docs s' dst)"
    and "script = [] \<Longrightarrow> src \<in> fr s \<Longrightarrow> r = None \<Longrightarrow> docs s' dst = docs s dst ++ docs s src"
proof -
  from assms(1) obtain x where d: "es_Do E ''POST'' ''/_reindex?wait_for_completion=true''
       (Some (jput_if (script \<noteq> []) ''script'' (JObj [(''source'', JStr script), (''lang'', JStr ''painless'')])
         (JObj [(''source'', JObj [(''index'', JStr src)]), (''dest'', JObj [(''index'', JStr dst)])]))) s = (s', x)"
    and x: "r = None \<longleftrightarrow> (\<exists>y. x = Inr y)" unfolding Reindex_def by (blast dest: done_of_Do)
  from ok have f: "foreign_ok E" and c: "copy_ok E al docs fr" by (simp_all add: elastic_ok_def)
  from d f have "al s' = al s \<and> fr s - {dst} \<subseteq> fr s' \<and> (\<forall>i. i \<noteq> dst \<longrightarrow> docs s' i = docs s i) \<and>
     (script = [] \<longrightarrow> src \<in> fr s \<longrightarrow> copied_part (docs s src) (docs s dst) (docs s' dst) \<and> (r = None \<longrightarrow> docs s' dst = docs s dst ++ docs s src))"
  proof (cases rule: Do_cases)
    case (body j t rp)
    from body(1) have t: "es_Marshal E (jput_if (script \<noteq> []) ''script'' (JObj [(''source'', JStr script), (''lang'', JStr ''painless'')])
          (JObj [(''source'', JObj [(''index'', JStr src)]), (''dest'', JObj [(''index'', JStr dst)])])) = Inr t" using body(2) by simp
    from c [unfolded copy_ok_def, THEN conjunct1, rule_format, OF assms(3,4) t body(3)] body(4) x show ?thesis by simp
  qed (use x in auto)
  then show "al s' = al s" "fr s - {dst} \<subseteq> fr s'" "i \<noteq> dst \<Longrightarrow> docs s' i = docs s i"
    "script = [] \<Longrightarrow> src \<in> fr s \<Longrightarrow> copied_part (docs s src) (docs s dst) (docs s' dst)"
    "script = [] \<Longrightarrow> src \<in> fr s \<Longrightarrow> r = None \<Longrightarrow> docs s' dst = docs s dst ++ docs s src" by blast+
qed

lemma SwapAlias_effect:
  assumes "SwapAlias E a old new s = (s', r)" and ok: "elastic_ok E al docs fr" and "al s old = {}" and "al s new = {}"
  shows "docs s' = docs s" and "al s' = (al s)(a := insert new (al s a - {old})) \<or> al s' = al s \<and> r \<noteq> None"
proof -
  from assms(1) obtain x where d: "es_Do E ''POST'' ''/_aliases'' (Some (swap_actions a old new)) s = (s', x)"
    and x: "r = None \<longleftrightarrow> (\<exists>y. x = Inr y)" unfolding SwapAlias_def by (blast dest: done_of_Do)
  from ok have f: "foreign_ok E" and c: "alias_ok E al docs fr" by (simp_all add: elastic_ok_def)
  from d f have "docs s' = docs s \<and> (al s' = (al s)(a := insert new (al s a - {old})) \<or> al s' = al s \<and> r \<noteq> None)"
  proof (cases rule: Do_cases)
    case (body j t rp)
    then show ?thesis using c [unfolded alias_ok_def, THEN conjunct2, rule_format, OF assms(3,4) _ body(3)] x by auto
  qed (use x in auto)
  then show "docs s' = docs s" "al s' = (al s)(a := insert new (al s a - {old})) \<or> al s' = al s \<and> r \<noteq> None" by blast+
qed

lemma EnsureAlias_effect:
  assumes "EnsureAlias E i a s = (s', r)" and ok: "elastic_ok E al docs fr" and "al s i = {}"
  shows "docs s' = docs s" and "al s' = (al s)(a := insert i (al s a)) \<or> al s' = al s \<and> r \<noteq> None"
proof -
  from assms(1) obtain x where d: "es_Do E ''PUT'' (''/'' @ PathEscape i @ ''/_alias/'' @ PathEscape a) None s = (s', x)"
    and x: "r = None \<longleftrightarrow> (\<exists>y. x = Inr y)" unfolding EnsureAlias_def index_path_def by (auto dest: done_of_Do)
  from ok have f: "foreign_ok E" and c: "alias_ok E al docs fr" by (simp_all add: elastic_ok_def)
  from d f have "docs s' = docs s \<and> (al s' = (al s)(a := insert i (al s a)) \<or> al s' = al s \<and> r \<noteq> None)"
  proof (cases rule: Do_cases)
    case (none rp)
    then show ?thesis using c [unfolded alias_ok_def, THEN conjunct1, rule_format, OF assms(3) none(2)] x by auto
  qed (use x in auto)
  then show "docs s' = docs s" "al s' = (al s)(a := insert i (al s a)) \<or> al s' = al s \<and> r \<noteq> None" by blast+
qed

lemma DeleteIndex_effect:
  assumes "DeleteIndex E i s = (s', r)" and ok: "elastic_ok E al docs fr" and "al s i = {}"
  shows "al s' = (\<lambda>a. al s a - {i}) \<and> docs s' = (docs s)(i := Map.empty) \<or> unseen al docs fr s s'"
proof -
  from assms(1) obtain x where d: "es_Do E ''DELETE'' (''/'' @ PathEscape i) None s = (s', x)"
    unfolding DeleteIndex_def index_path_def by (auto dest: done_of_Do)
  from ok have f: "foreign_ok E" and c: "copy_ok E al docs fr" by (simp_all add: elastic_ok_def)
  from d f show ?thesis
  proof (cases rule: Do_cases)
    case (none rp)
    from c [unfolded copy_ok_def, THEN conjunct2, rule_format, OF assms(3) none(2)] show ?thesis .
  qed (auto simp: unseen_def)
qed

lemma AliasIndices_effect:
  assumes "AliasIndices E a s = (s', r)" and ok: "elastic_ok E al docs fr"
  shows "unseen al docs fr s s'" and "r = Inr olds \<Longrightarrow> set olds = al s a"
proof -
  obtain x where d: "es_Do E ''GET'' (''/_alias/'' @ PathEscape a) None s = (s', x)"
    and x: "r = (case x of Inl e \<Rightarrow> if IsNotFound e then Inr [] else Inl e
                 | Inr payload \<Rightarrow> decode E ''alias response'' (\<lambda>j. Inr (sort (map fst (jfields j)))) payload)"
    using assms(1) by (auto simp: AliasIndices_def split: prod.splits sum.splits)
  from ok have f: "foreign_ok E" and c: "lookup_ok E al docs fr" by (simp_all add: elastic_ok_def)
  from d f have "unseen al docs fr s s' \<and> (r = Inr olds \<longrightarrow> set olds = al s a)"
  proof (cases rule: Do_cases)
    case (none rp)
    note law = c [unfolded lookup_ok_def, THEN conjunct1, rule_format, OF none(2)]
    show ?thesis
    proof (cases x)
      case (Inl e)
      then show ?thesis using law none(5) x by auto
    next
      case (Inr payload)
      then obtain st where "rp = Inr (st, Inr payload)" "st < 400" using none(4) by blast
      then show ?thesis using law Inr x by (auto simp: decode_def dec_struct_def and_then_def split: sum.splits if_splits)
    qed
  qed (use x in \<open>auto simp: unseen_def\<close>)
  then show "unseen al docs fr s s'" "r = Inr olds \<Longrightarrow> set olds = al s a" by blast+
qed

lemma IndexExists_effect:
  assumes "IndexExists E i s = (s', r)" and ok: "elastic_ok E al docs fr"
  shows "unseen al docs fr s s'"
proof -
  from ok have f: "foreign_ok E" and c: "lookup_ok E al docs fr" by (simp_all add: elastic_ok_def)
  from assms(1) obtain x where "es_Do E ''GET'' (''/'' @ PathEscape i) None s = (s', x)"
    unfolding IndexExists_def index_path_def by (auto split: prod.splits sum.splits)
  then show ?thesis using f
  proof (cases rule: Do_cases)
    case (none rp)
    from c [unfolded lookup_ok_def, THEN conjunct2, THEN conjunct1, rule_format, OF none(2)] show ?thesis .
  qed (simp_all add: unseen_def)
qed

lemma CreateIndex_effect:
  assumes "CreateIndex E i body s = (s', r)" and ok: "elastic_ok E al docs fr"
  shows "unseen al docs fr s s'"
proof -
  from ok have f: "foreign_ok E" and c: "lookup_ok E al docs fr" by (simp_all add: elastic_ok_def)
  from assms(1) obtain j x where "es_Do E ''PUT'' (''/'' @ PathEscape i) (Some j) s = (s', x)"
    unfolding CreateIndex_def index_path_def by (auto dest: done_of_Do)
  then show ?thesis using f
  proof (cases rule: Do_cases)
    case (body j t rp)
    from c [unfolded lookup_ok_def, THEN conjunct2, THEN conjunct2, rule_format, OF body(3)] show ?thesis .
  qed (simp_all add: unseen_def)
qed

subsection \<open>Migration\<close>

text \<open>An operation of one request, watched: it does what it does, and its end state is the only one noted.\<close>

definition one_request :: "('s \<Rightarrow> 's \<times> 'r) \<Rightarrow> ('s \<times> 's list \<Rightarrow> ('s \<times> 's list) \<times> 'r) \<Rightarrow> bool" where
  "one_request f g \<longleftrightarrow> (\<forall>s h s' h' r. g (s, h) = ((s', h'), r) \<longrightarrow> f s = (s', r) \<and> (s' = s \<and> h' = h \<or> h' = h @ [s']))"

lemma one_request_Do: "one_request (es_Do E m p b) (es_Do (watched E) m p b)"
  unfolding one_request_def by (blast dest: watched_Do)

lemma one_request_done: "one_request f g \<Longrightarrow> one_request (\<lambda>s. done_of (f s)) (\<lambda>w. done_of (g w))"
  unfolding one_request_def done_of_def by (fastforce split: prod.splits sum.splits)

lemma one_request_ops:
  "one_request (Reindex E src dst script) (Reindex (watched E) src dst script)"
  "one_request (SwapAlias E a old new) (SwapAlias (watched E) a old new)"
  "one_request (DeleteIndex E i) (DeleteIndex (watched E) i)"
  "one_request (EnsureAlias E i a) (EnsureAlias (watched E) i a)"
  "one_request (CreateIndex E i body) (CreateIndex (watched E) i body)"
  unfolding Reindex_def SwapAlias_def DeleteIndex_def EnsureAlias_def CreateIndex_def
  by (intro one_request_done one_request_Do)+

lemma decode_watched [simp]: "decode (watched E) = decode E"
  by (simp add: decode_def watched_def fun_eq_iff)

lemma one_request_AliasIndices: "one_request (AliasIndices E a) (AliasIndices (watched E) a)"
  unfolding one_request_def AliasIndices_def decode_watched
  by (fastforce split: prod.splits sum.splits dest: watched_Do)

lemma one_request_IndexExists: "one_request (IndexExists E i) (IndexExists (watched E) i)"
  unfolding one_request_def IndexExists_def by (fastforce split: prod.splits sum.splits dest: watched_Do)

lemma one_requestD: "one_request f g \<Longrightarrow> g w = (w', r) \<Longrightarrow> f (fst w) = (fst w', r) \<and> set (snd w') \<subseteq> insert (fst w') (set (snd w))"
  unfolding one_request_def by (cases w, cases w') fastforce

text \<open>A loop over the old indices: \<open>I A\<close> holds once the indices \<open>A\<close> are done, \<open>S\<close> at every moment.\<close>

lemma each_old_rule:
  assumes step: "\<And>old A s s' r. old \<in> set olds \<Longrightarrow> old \<noteq> new \<Longrightarrow> I A s \<Longrightarrow> f old s = (s', r) \<Longrightarrow> S s' \<and> (r = None \<longrightarrow> I (insert old A) s')"
    and one: "\<And>old. one_request (f old) (g old)"
    and "each_old new msg g olds w = (w', r)" and "I A (fst w)" and "\<forall>t \<in> insert (fst w) (set (snd w)). S t"
  shows "(\<forall>t \<in> insert (fst w') (set (snd w')). S t) \<and> (r = None \<longrightarrow> I (A \<union> (set olds - {new})) (fst w')) \<and>
         each_old new msg f olds (fst w) = (fst w', r)"
  using assms(1,3-)
proof (induction olds arbitrary: w A)
  case (Cons old olds)
  note step = Cons.prems(1)
  have step': "S s' \<and> (q = None \<longrightarrow> I (insert x B) s')" if "x \<in> set olds" "x \<noteq> new" "I B s" "f x s = (s', q)" for x B s s' q
    using step [of x B s s' q] that by simp
  show ?case
  proof (cases "old = new")
    case True
    with Cons.IH [OF step' _ Cons.prems(3,4)] Cons.prems(2) show ?thesis by simp
  next
    case False
    obtain w1 r1 where g: "g old w = (w1, r1)" by (rule prod.exhaust)
    from one_requestD [OF one g] have f: "f old (fst w) = (fst w1, r1)" and h: "set (snd w1) \<subseteq> insert (fst w1) (set (snd w))" by auto
    have k: "S (fst w1)" "r1 = None \<Longrightarrow> I (insert old A) (fst w1)" using step [of old A "fst w" "fst w1" r1] False Cons.prems(3) f by auto
    then have S: "\<forall>t \<in> insert (fst w1) (set (snd w1)). S t" using h Cons.prems(4) by auto
    show ?thesis
    proof (cases r1)
      case (Some e)
      with Cons.prems(2) False g f S show ?thesis by (auto simp: wrap_err_def)
    next
      case None
      have "each_old new msg g olds w1 = (w', r)" using Cons.prems(2) False g None by (simp add: wrap_err_def)
      from Cons.IH [OF step' this k(2) [OF None] S] False f None show ?thesis by (auto simp: wrap_err_def insert_Diff_if)
    qed
  qed
qed auto

text \<open>The contents stored under an id in the indices of an alias.\<close>

definition held_behind :: "'s alias_view \<Rightarrow> 's doc_view \<Rightarrow> string \<Rightarrow> 's \<Rightarrow> string \<Rightarrow> string set" where
  "held_behind al docs a s did = (\<Union>i \<in> al s a. set_option (docs s i did))"

text \<open>
  What readers of the alias find stored in \<open>t\<close>, against \<open>s\<close>: the alias resolves; without a script every document that was there is there, with a
  content it had, and under other ids there is at most what the new index itself held before.
\<close>

definition keeps :: "'s alias_view \<Rightarrow> 's doc_view \<Rightarrow> string \<Rightarrow> string \<Rightarrow> string \<Rightarrow> 's \<Rightarrow> 's \<Rightarrow> bool" where
  "keeps al docs a new script s t \<longleftrightarrow> (al s a \<noteq> {} \<longrightarrow> al t a \<noteq> {}) \<and>
     (script = [] \<longrightarrow> (\<forall>did. if held_behind al docs a s did = {} then held_behind al docs a t did \<subseteq> set_option (docs s new did)
        else held_behind al docs a t did \<noteq> {} \<and> held_behind al docs a t did \<subseteq> held_behind al docs a s did))"

text \<open>The three phases after \<open>A\<close>: copied into the new index, moved over to it, removed.\<close>

definition indices_only :: "'s alias_view \<Rightarrow> string \<Rightarrow> string \<Rightarrow> 's \<Rightarrow> 's \<Rightarrow> bool" where
  "indices_only al a new s t \<longleftrightarrow> (\<forall>i \<in> insert new (al s a). al t i = {})"

text \<open>At the start: neither the new name nor the indices of the alias are aliases, and the old indices are refreshed.\<close>

definition migratable :: "'s alias_view \<Rightarrow> 's fresh_view \<Rightarrow> string \<Rightarrow> string \<Rightarrow> 's \<Rightarrow> bool" where
  "migratable al fr a new s \<longleftrightarrow> indices_only al a new s s \<and> al s a - {new} \<subseteq> fr s"

definition from_old :: "'s alias_view \<Rightarrow> 's doc_view \<Rightarrow> string \<Rightarrow> string \<Rightarrow> 's \<Rightarrow> 's \<Rightarrow> string \<Rightarrow> bool" where
  "from_old al docs a new s t did \<longleftrightarrow> (\<exists>i \<in> al s a - {new}. docs s i did \<noteq> None \<and> docs t new did = docs s i did)"

text \<open>The new index holds, for every id of the indices \<open>A\<close>, a content of an old index, and otherwise that or what it had.\<close>

definition merged :: "'s alias_view \<Rightarrow> 's doc_view \<Rightarrow> string \<Rightarrow> string \<Rightarrow> 's \<Rightarrow> string set \<Rightarrow> 's \<Rightarrow> bool" where
  "merged al docs a new s A t \<longleftrightarrow>
     (\<forall>did. docs t new did = docs s new did \<and> (\<forall>i \<in> A. docs s i did = None) \<or> from_old al docs a new s t did)"

definition old_kept :: "'s alias_view \<Rightarrow> 's doc_view \<Rightarrow> string \<Rightarrow> string \<Rightarrow> 's \<Rightarrow> 's \<Rightarrow> bool" where
  "old_kept al docs a new s t \<longleftrightarrow> (\<forall>i \<in> al s a - {new}. docs t i = docs s i)"

definition copying :: "'s alias_view \<Rightarrow> 's doc_view \<Rightarrow> 's fresh_view \<Rightarrow> string \<Rightarrow> string \<Rightarrow> string \<Rightarrow> 's \<Rightarrow> string set \<Rightarrow> 's \<Rightarrow> bool" where
  "copying al docs fr a new script s A t \<longleftrightarrow>
     indices_only al a new s t \<and> al t a = al s a \<and> old_kept al docs a new s t \<and> al s a - {new} \<subseteq> fr t \<and>
     (script = [] \<longrightarrow> merged al docs a new s A t)"

definition moving :: "'s alias_view \<Rightarrow> 's doc_view \<Rightarrow> 's fresh_view \<Rightarrow> string \<Rightarrow> string \<Rightarrow> string \<Rightarrow> 's \<Rightarrow> string set \<Rightarrow> 's \<Rightarrow> bool" where
  "moving al docs fr a new script s A t \<longleftrightarrow>
     indices_only al a new s t \<and> old_kept al docs a new s t \<and> (script = [] \<longrightarrow> merged al docs a new s (al s a - {new}) t) \<and>
     al t a = (if A = {} then al s a else insert new (al s a - A))"

definition removing :: "'s alias_view \<Rightarrow> 's doc_view \<Rightarrow> 's fresh_view \<Rightarrow> string \<Rightarrow> string \<Rightarrow> string \<Rightarrow> 's \<Rightarrow> string set \<Rightarrow> 's \<Rightarrow> bool" where
  "removing al docs fr a new script s A t \<longleftrightarrow>
     indices_only al a new s t \<and> (script = [] \<longrightarrow> merged al docs a new s (al s a - {new}) t) \<and> al t a = {new}"

lemma held_behind_None: "held_behind al docs a s did = {} \<longleftrightarrow> (\<forall>i \<in> al s a. docs s i did = None)"
  by (auto simp: held_behind_def)

lemma held_behind_sub: "(\<And>j c. j \<in> al t a \<Longrightarrow> docs t j did = Some c \<Longrightarrow> c \<in> X) \<Longrightarrow> held_behind al docs a t did \<subseteq> X"
  by (fastforce simp: held_behind_def)

lemma held_behind_in: "i \<in> al s a \<Longrightarrow> docs s i did = Some c \<Longrightarrow> c \<in> held_behind al docs a s did"
  by (force simp: held_behind_def)

text \<open>While nothing was moved the old indices answer; afterwards the new one does.\<close>

lemma keeps_before:
  assumes "al t a = al s a" and o: "old_kept al docs a new s t" and m: "script = [] \<Longrightarrow> merged al docs a new s A t"
  shows "keeps al docs a new script s t"
proof -
  have "if held_behind al docs a s did = {} then held_behind al docs a t did \<subseteq> set_option (docs s new did)
      else held_behind al docs a t did \<noteq> {} \<and> held_behind al docs a t did \<subseteq> held_behind al docs a s did" if n: "script = []" for did
  proof -
    have old: "docs t i did = docs s i did" if "i \<in> al s a" "i \<noteq> new" for i using o that by (simp add: old_kept_def)
    consider "docs t new did = docs s new did" | i where "i \<in> al s a" "i \<noteq> new" "docs s i did \<noteq> None" "docs t new did = docs s i did"
      using m [OF n] unfolding merged_def from_old_def by blast
    then show ?thesis
    proof cases
      case 1
      then have "docs t i did = docs s i did" if "i \<in> al s a" for i using old that by (cases "i = new") auto
      then have "held_behind al docs a t did = held_behind al docs a s did" using assms(1) by (simp add: held_behind_def)
      then show ?thesis by simp
    next
      case (2 i)
      then have "docs t i did \<noteq> None" using old by simp
      with 2 have ne: "held_behind al docs a s did \<noteq> {}" "held_behind al docs a t did \<noteq> {}" using assms(1) by (auto simp only: held_behind_None)
      have "c \<in> held_behind al docs a s did" if "j \<in> al s a" "docs t j did = Some c" for j c
        using that 2 old [of j] by (cases "j = new") (auto intro: held_behind_in)
      then have "held_behind al docs a t did \<subseteq> held_behind al docs a s did" using assms(1) by (intro held_behind_sub) simp
      with ne show ?thesis by simp
    qed
  qed
  with assms(1) show ?thesis by (simp add: keeps_def)
qed

lemma keeps_after:
  assumes n: "new \<in> al t a" and sub: "al t a \<subseteq> insert new (al s a)" and o: "\<And>i. i \<in> al t a \<Longrightarrow> i \<noteq> new \<Longrightarrow> docs t i = docs s i"
    and m: "script = [] \<Longrightarrow> merged al docs a new s (al s a - {new}) t"
  shows "keeps al docs a new script s t"
proof -
  have "if held_behind al docs a s did = {} then held_behind al docs a t did \<subseteq> set_option (docs s new did)
      else held_behind al docs a t did \<noteq> {} \<and> held_behind al docs a t did \<subseteq> held_behind al docs a s did" if e: "script = []" for did
  proof -
    have old: "docs s j did = Some c \<and> j \<in> al s a" if "j \<in> al t a" "j \<noteq> new" "docs t j did = Some c" for j c using o that sub by auto
    consider "docs t new did = docs s new did" "\<forall>i \<in> al s a - {new}. docs s i did = None"
      | i where "i \<in> al s a" "i \<noteq> new" "docs s i did \<noteq> None" "docs t new did = docs s i did"
      using m [OF e] unfolding merged_def from_old_def by blast
    then show ?thesis
    proof cases
      case 1
      have st: "held_behind al docs a t did = set_option (docs s new did)"
        using n old 1 by (auto simp: held_behind_def) (metis DiffI option.distinct(1) singletonD)+
      have "held_behind al docs a s did = (if new \<in> al s a then set_option (docs s new did) else {})"
        using 1(2) by (auto simp: held_behind_def) (metis DiffI option.distinct(1) singletonD)+
      then show ?thesis using st by (auto split: if_splits)
    next
      case (2 i)
      have "c \<in> held_behind al docs a s did" if "j \<in> al t a" "docs t j did = Some c" for j c
        using that 2 old [of j c] by (cases "j = new") (auto intro: held_behind_in)
      then have "held_behind al docs a t did \<subseteq> held_behind al docs a s did" by (rule held_behind_sub)
      moreover have "held_behind al docs a s did \<noteq> {}" "held_behind al docs a t did \<noteq> {}" using 2 n unfolding held_behind_None by metis+
      ultimately show ?thesis by simp
    qed
  qed
  with n show ?thesis by (auto simp: keeps_def)
qed

lemma copying_keeps: "copying al docs fr a new script s A t \<Longrightarrow> keeps al docs a new script s t"
  by (rule keeps_before [where A = A]) (simp_all add: copying_def)

lemma moving_keeps: "moving al docs fr a new script s A t \<Longrightarrow> keeps al docs a new script s t"
  by (cases "A = {}") (auto simp: moving_def old_kept_def intro: keeps_before keeps_after)

lemma removing_keeps: "removing al docs fr a new script s A t \<Longrightarrow> keeps al docs a new script s t"
  by (rule keeps_after) (simp_all add: removing_def)

lemma merged_part:
  assumes "merged al docs a new s A t" and "old \<in> al s a" and "old \<noteq> new" and "copied_part (docs s old) (docs t new) (docs t' new)"
  shows "merged al docs a new s A t'"
  unfolding merged_def
proof
  fix did
  have o: "old \<in> al s a - {new}" using assms(2,3) by simp
  have "docs t' new did = docs t new did \<or> docs s old did \<noteq> None \<and> docs t' new did = docs s old did" using assms(4) by (simp add: copied_part_def)
  then show "docs t' new did = docs s new did \<and> (\<forall>i \<in> A. docs s i did = None) \<or> from_old al docs a new s t' did"
  proof
    assume "docs t' new did = docs t new did"
    then show ?thesis using assms(1) unfolding merged_def from_old_def by metis
  next
    assume "docs s old did \<noteq> None \<and> docs t' new did = docs s old did"
    then show ?thesis using o unfolding from_old_def by blast
  qed
qed

lemma merged_all:
  assumes "merged al docs a new s A t" and "old \<in> al s a" and "old \<noteq> new" and "docs t' new = docs t new ++ docs s old"
  shows "merged al docs a new s (insert old A) t'"
  unfolding merged_def
proof
  fix did
  have o: "old \<in> al s a - {new}" using assms(2,3) by simp
  show "docs t' new did = docs s new did \<and> (\<forall>i \<in> insert old A. docs s i did = None) \<or> from_old al docs a new s t' did"
  proof (cases "docs s old did")
    case None
    then have "docs t' new did = docs t new did" using assms(4) by (simp add: map_add_def)
    then show ?thesis using assms(1) None unfolding merged_def from_old_def by (metis insert_iff)
  next
    case (Some c)
    then have "docs t' new did = docs s old did" using assms(4) by (simp add: map_add_def)
    then show ?thesis using o Some unfolding from_old_def by blast
  qed
qed

lemma copying_step:
  assumes "elastic_ok E al docs fr" and "old \<in> al s a" and "old \<noteq> new" and p: "copying al docs fr a new script s A t"
    and r: "Reindex E old new script t = (t', r)"
  shows "keeps al docs a new script s t' \<and> (r = None \<longrightarrow> copying al docs fr a new script s (insert old A) t')"
proof -
  have i: "al t old = {}" "al t new = {}" using p assms(2) by (simp_all add: copying_def indices_only_def)
  note e = Reindex_effect [OF r assms(1) i]
  have fo: "old \<in> fr t" "docs t old = docs s old" using p assms(2,3) by (auto simp: copying_def old_kept_def)
  have k: "old_kept al docs a new s t'" using p e(3) by (auto simp: copying_def old_kept_def)
  have m: "merged al docs a new s A t'" if "script = []"
    using merged_part [of al docs a new s A t old t'] assms(2,3) p e(4) [OF that fo(1)] that fo(2) by (simp add: copying_def)
  have c: "copying al docs fr a new script s A t'" using p e(1,2) k m by (auto simp: copying_def indices_only_def)
  have "merged al docs a new s (insert old A) t'" if "script = []" "r = None"
    using merged_all [of al docs a new s A t old t'] assms(2,3) p e(5) [OF that(1) fo(1) that(2)] that(1) fo(2) by (simp add: copying_def)
  with c have "r = None \<longrightarrow> copying al docs fr a new script s (insert old A) t'" by (simp add: copying_def)
  with copying_keeps [OF c] show ?thesis by simp
qed

lemma merged_cong: "docs t' new = docs t new \<Longrightarrow> merged al docs a new s A t' = merged al docs a new s A t"
  by (simp add: merged_def from_old_def)

lemma moving_step:
  assumes "elastic_ok E al docs fr" and "a \<noteq> new" and "old \<in> al s a" and "old \<noteq> new" and p: "moving al docs fr a new script s A t"
    and r: "SwapAlias E a old new t = (t', r)" and h: "\<forall>i \<in> al s a. i \<noteq> a"
  shows "keeps al docs a new script s t' \<and> (r = None \<longrightarrow> moving al docs fr a new script s (insert old A) t')"
proof -
  have i: "al t old = {}" "al t new = {}" using p assms(3) by (simp_all add: moving_def indices_only_def)
  note e = SwapAlias_effect [OF r assms(1) i]
  have mc: "merged al docs a new s B t' = merged al docs a new s B t" for B using e(1) by (intro merged_cong) simp
  show ?thesis
  proof (cases "al t' = al t \<and> r \<noteq> None")
    case True
    then have "moving al docs fr a new script s A t'" using p e(1) mc by (simp add: moving_def indices_only_def old_kept_def)
    from moving_keeps [OF this] True show ?thesis by blast
  next
    case False
    with e(2) have a: "al t' = (al t)(a := insert new (al t a - {old}))" by blast
    then have "al t' a = insert new (al s a - insert old A)" using p by (auto simp: moving_def split: if_splits)
    moreover have "indices_only al a new s t'" using p a assms(2) h by (auto simp: moving_def indices_only_def)
    ultimately have "moving al docs fr a new script s (insert old A) t'" using p e(1) mc by (simp add: moving_def old_kept_def)
    from moving_keeps [OF this] this show ?thesis by simp
  qed
qed

lemma removing_step:
  assumes "elastic_ok E al docs fr" and "old \<in> al s a" and "old \<noteq> new" and p: "removing al docs fr a new script s A t"
    and r: "DeleteIndex E old t = (t', r)"
  shows "keeps al docs a new script s t' \<and> (r = None \<longrightarrow> removing al docs fr a new script s (insert old A) t')"
proof -
  have i: "al t old = {}" using p assms(2) by (simp add: removing_def indices_only_def)
  note d = DeleteIndex_effect [OF r assms(1) i]
  then have "docs t' new = docs t new" using assms(3) by (auto simp: unseen_def)
  then have "merged al docs a new s B t' = merged al docs a new s B t" for B by (rule merged_cong)
  then have c: "removing al docs fr a new script s A t'" using d p assms(3) by (auto simp: removing_def indices_only_def unseen_def)
  then have "removing al docs fr a new script s (insert old A) t'" by (simp add: removing_def)
  with removing_keeps [OF c] show ?thesis by simp
qed

text \<open>The alias lookup and the creation of the index, watched.\<close>

lemma EnsureIndex_watched:
  assumes ok: "elastic_ok E al docs fr" and e: "EnsureIndex (watched E) new body w = (w2, r)"
  shows "EnsureIndex E new body (fst w) = (fst w2, r)" and "\<forall>t \<in> insert (fst w2) (set (snd w2)). t \<in> set (snd w) \<or> unseen al docs fr (fst w) t"
proof -
  obtain wx x where X: "IndexExists (watched E) new w = (wx, x)" by (rule prod.exhaust)
  note x' = one_requestD [OF one_request_IndexExists X]
  have u: "unseen al docs fr (fst w) (fst wx)" using IndexExists_effect [OF conjunct1 [OF x'] ok] .
  obtain wc c where C: "CreateIndex (watched E) new body wx = (wc, c)" by (rule prod.exhaust)
  note c' = one_requestD [OF one_request_ops(5) C]
  have "unseen al docs fr (fst wx) (fst wc)" using CreateIndex_effect [OF conjunct1 [OF c'] ok] .
  with u have v: "unseen al docs fr (fst w) (fst wc)" by (auto simp: unseen_def)
  show "EnsureIndex E new body (fst w) = (fst w2, r)"
    using e x' c' by (auto simp: EnsureIndex_def X C split: sum.splits bool.splits option.splits)
  show "\<forall>t \<in> insert (fst w2) (set (snd w2)). t \<in> set (snd w) \<or> unseen al docs fr (fst w) t"
    using e x' c' u v by (auto simp: EnsureIndex_def X C split: sum.splits bool.splits option.splits)
qed

lemma AliasIndices_watched:
  assumes ok: "elastic_ok E al docs fr" and l: "AliasIndices (watched E) a w = (w1, x)"
  shows "AliasIndices E a (fst w) = (fst w1, x)" and "x = Inr olds \<Longrightarrow> set olds = al (fst w) a"
    and "\<forall>t \<in> insert (fst w1) (set (snd w1)). t \<in> set (snd w) \<or> unseen al docs fr (fst w) t"
proof -
  note l' = one_requestD [OF one_request_AliasIndices l]
  show L: "AliasIndices E a (fst w) = (fst w1, x)" using l' by simp
  note u = AliasIndices_effect [OF L ok]
  show "x = Inr olds \<Longrightarrow> set olds = al (fst w) a" by (rule u(2))
  show "\<forall>t \<in> insert (fst w1) (set (snd w1)). t \<in> set (snd w) \<or> unseen al docs fr (fst w) t" using u(1) l' by auto
qed

lemma unseen_keeps: "unseen al docs fr s t \<Longrightarrow> keeps al docs a new script s t"
  by (auto simp: unseen_def keeps_def held_behind_def)

lemma keeps_first: "al s a = {} \<Longrightarrow> al t a \<subseteq> {new} \<Longrightarrow> docs t new = docs s new \<Longrightarrow> keeps al docs a new script s t"
  by (auto simp: keeps_def held_behind_def)

text \<open>The second half of a migration, from the copying on.\<close>

lemma migrate_loops:
  assumes ok: "elastic_ok E al docs fr" and "a \<noteq> new" and h: "migratable al fr a new s" and olds: "set olds = al s a" "olds \<noteq> []"
    and u: "unseen al docs fr s (fst w)" and S: "\<forall>t \<in> insert (fst w) (set (snd w)). keeps al docs a new script s t"
    and copy: "each_old new m1 (\<lambda>old. Reindex (watched E) old new script) olds w = (w3, r3)"
    and move: "each_old new m2 (\<lambda>old. SwapAlias (watched E) a old new) olds w3 = (w4, r4)"
    and rem: "each_old new m3 (DeleteIndex (watched E)) olds w4 = (w5, r5)"
  defines "held \<equiv> \<lambda>w. \<forall>t \<in> insert (fst w) (set (snd w)). keeps al docs a new script s t"
  shows "held w3" and "each_old new m1 (\<lambda>old. Reindex E old new script) olds (fst w) = (fst w3, r3)"
    and "r3 = None \<Longrightarrow> held w4 \<and> each_old new m2 (\<lambda>old. SwapAlias E a old new) olds (fst w3) = (fst w4, r4)"
    and "r3 = None \<Longrightarrow> r4 = None \<Longrightarrow> al (fst w4) a = {new}"
    and "r3 = None \<Longrightarrow> r4 = None \<Longrightarrow> held w5 \<and> each_old new m3 (DeleteIndex E) olds (fst w4) = (fst w5, r5) \<and> (r5 = None \<longrightarrow> al (fst w5) a = {new})"
proof -
  have "copying al docs fr a new script s {} (fst w)" using u h
    by (auto simp: copying_def indices_only_def unseen_def migratable_def old_kept_def merged_def)
  with S have c: "held w3 \<and> (r3 = None \<longrightarrow> copying al docs fr a new script s ({} \<union> (set olds - {new})) (fst w3)) \<and>
      each_old new m1 (\<lambda>old. Reindex E old new script) olds (fst w) = (fst w3, r3)"
    unfolding held_def
    by (intro each_old_rule [where S = "keeps al docs a new script s" and I = "copying al docs fr a new script s" and f = "\<lambda>old. Reindex E old new script" and g = "\<lambda>old. Reindex (watched E) old new script", OF _ _ copy])
        (simp_all add: olds one_request_ops copying_step [OF ok])
  then show "held w3" "each_old new m1 (\<lambda>old. Reindex E old new script) olds (fst w) = (fst w3, r3)" by blast+
  have old_a: "\<forall>i \<in> al s a. i \<noteq> a" using h by (auto simp: migratable_def indices_only_def)
  have m: "held w4 \<and> (r4 = None \<longrightarrow> moving al docs fr a new script s ({} \<union> (set olds - {new})) (fst w4)) \<and>
      each_old new m2 (\<lambda>old. SwapAlias E a old new) olds (fst w3) = (fst w4, r4)" if "r3 = None"
  proof -
    have k: "copying al docs fr a new script s (al s a - {new}) (fst w3)" using c that olds by simp
    then have "moving al docs fr a new script s {} (fst w3)" by (simp add: copying_def moving_def)
    then show ?thesis using c unfolding held_def
      by (intro each_old_rule [where S = "keeps al docs a new script s" and I = "moving al docs fr a new script s" and f = "\<lambda>old. SwapAlias E a old new" and g = "\<lambda>old. SwapAlias (watched E) a old new", OF _ _ move])
        (simp_all add: olds one_request_ops moving_step [OF ok assms(2) _ _ _ _ old_a])
  qed
  then show "r3 = None \<Longrightarrow> held w4 \<and> each_old new m2 (\<lambda>old. SwapAlias E a old new) olds (fst w3) = (fst w4, r4)" by blast
  have fin: "removing al docs fr a new script s {} (fst w4)" if "r3 = None" "r4 = None"
  proof -
    have "al s a \<noteq> {}" using olds by (metis set_empty)
    with m that olds show ?thesis by (auto simp: moving_def removing_def split: if_splits)
  qed
  then show "r3 = None \<Longrightarrow> r4 = None \<Longrightarrow> al (fst w4) a = {new}" by (simp add: removing_def)
  show "held w5 \<and> each_old new m3 (DeleteIndex E) olds (fst w4) = (fst w5, r5) \<and> (r5 = None \<longrightarrow> al (fst w5) a = {new})" if "r3 = None" "r4 = None"
  proof -
    have "held w5 \<and> (r5 = None \<longrightarrow> removing al docs fr a new script s ({} \<union> (set olds - {new})) (fst w5)) \<and>
        each_old new m3 (DeleteIndex E) olds (fst w4) = (fst w5, r5)"
      using m that fin unfolding held_def
      by (intro each_old_rule [where S = "keeps al docs a new script s" and I = "removing al docs fr a new script s" and f = "DeleteIndex E" and g = "DeleteIndex (watched E)", OF _ _ rem])
        (simp_all add: olds one_request_ops removing_step [OF ok])
    then show ?thesis by (auto simp: removing_def)
  qed
qed

lemma migrate_tail:
  assumes "elastic_ok E al docs fr" and "alias \<noteq> newIndex" and "migratable al fr alias newIndex s" and "set olds = al s alias" and "olds \<noteq> []"
    and "unseen al docs fr s (fst w2)" and "\<forall>t \<in> insert (fst w2) (set (snd w2)). keeps al docs alias newIndex (mo_Script opts) s t"
    and "AliasIndices (watched E) alias (s, []) = (w1, Inr olds)" and "EnsureIndex (watched E) newIndex body w1 = (w2, Inr b)"
    and "AliasIndices E alias s = (fst w1, Inr olds)" and "EnsureIndex E newIndex body (fst w1) = (fst w2, Inr b)"
    and "MigrateIndex (watched E) alias newIndex body opts (s, []) = ((s', seen), r)"
  shows "MigrateIndex E alias newIndex body opts s = (s', r) \<and>
    (\<forall>t \<in> insert s' (set seen). keeps al docs alias newIndex (mo_Script opts) s t) \<and> (r = None \<longrightarrow> al s' alias = {newIndex})"
proof -
  define pre where "pre = ''elastic: migrate '' @ alias @ '': ''"
  obtain w3 r3 where c3: "each_old newIndex (\<lambda>old. pre @ ''reindex '' @ old @ arrow @ newIndex @ '': '')
      (\<lambda>old. Reindex (watched E) old newIndex (mo_Script opts)) olds w2 = (w3, r3)" by (rule prod.exhaust)
  obtain w4 r4 where c4: "each_old newIndex (\<lambda>old. pre @ ''swap '' @ old @ arrow @ newIndex @ '': '')
      (\<lambda>old. SwapAlias (watched E) alias old newIndex) olds w3 = (w4, r4)" by (rule prod.exhaust)
  obtain w5 r5 where c5: "each_old newIndex (\<lambda>old. pre @ ''delete old '' @ old @ '': '') (DeleteIndex (watched E)) olds w4 = (w5, r5)"
    by (rule prod.exhaust)
  note K = migrate_loops [OF assms(1-7) c3 c4 c5]
  have run: "MigrateIndex (watched E) alias newIndex body opts (s, []) =
      (if r3 \<noteq> None then (w3, r3) else if r4 \<noteq> None then (w4, r4) else if mo_DeleteOld opts then (w5, r5) else (w4, None))"
    using assms(2,5,8,9) c3 c4 c5 unfolding MigrateIndex_def pre_def Let_def by (simp split: option.splits)
  have run': "MigrateIndex E alias newIndex body opts s =
      (if r3 \<noteq> None then (fst w3, r3) else if r4 \<noteq> None then (fst w4, r4) else if mo_DeleteOld opts then (fst w5, r5) else (fst w4, None))"
    using assms(2,5,10,11) K unfolding MigrateIndex_def pre_def Let_def by (auto split: option.splits)
  show ?thesis
  proof (cases "r3 = None \<and> r4 = None")
    case True
    with K(3-5) run run' assms(12) show ?thesis by (cases "mo_DeleteOld opts") auto
  next
    case False
    with K(1,3) run run' assms(12) show ?thesis by (cases r3) auto
  qed
qed

text \<open>
  C17: A migration behind an alias loses no document. Whatever happens to its requests (refused, lost, carried out but answered with an error), after
  every request and at its end, the alias resolves to an index if it did at the start and, unless a script rewrites the documents, every
  document stored behind it is still stored behind it, with a content that it had there; under other ids there is at most what the new index held before.
  When the migration reports success the alias points at the new index and at nothing else. That the states seen in between are those of the
  real run is the first conjunct. Assumed are the documented effects of the requests (\<open>elastic_ok\<close>), no writes by others meanwhile, that the
  old indices are refreshed at the start, and that neither the new name nor the indices of the alias are aliases. Nothing is said of when the copied documents
  can be found by a search: the migration does not refresh the new index.
\<close>

theorem migration_keeps_documents:
  assumes "elastic_ok E al docs fr" and "migratable al fr alias newIndex s"
    and "MigrateIndex (watched E) alias newIndex body opts (s, []) = ((s', seen), r)"
  shows "MigrateIndex E alias newIndex body opts s = (s', r) \<and>
    (\<forall>t \<in> insert s' (set seen). keeps al docs alias newIndex (mo_Script opts) s t) \<and> (r = None \<longrightarrow> al s' alias = {newIndex})"
proof (cases "alias = newIndex")
  case True
  with assms(3) show ?thesis by (auto simp: MigrateIndex_def keeps_def held_behind_def)
next
  case False
  obtain w1 x where l: "AliasIndices (watched E) alias (s, []) = (w1, x)" by (rule prod.exhaust)
  note L = AliasIndices_watched [OF assms(1) l, simplified]
  show ?thesis
  proof (cases x)
    case (Inl e)
    with assms(3) l L(1) have "s' = fst w1" "seen = snd w1" "r \<noteq> None" "MigrateIndex E alias newIndex body opts s = (s', r)"
      using False by (auto simp: MigrateIndex_def Let_def)
    with L(3) show ?thesis by (auto intro: unseen_keeps)
  next
    case (Inr olds)
    obtain w2 y where e: "EnsureIndex (watched E) newIndex body w1 = (w2, y)" by (rule prod.exhaust)
    note En = EnsureIndex_watched [OF assms(1) e]
    have u: "unseen al docs fr s t" if "t \<in> insert (fst w2) (set (snd w2))" for t
      using that En(2) L(3) by (auto simp: unseen_def)
    then have S: "\<forall>t \<in> insert (fst w2) (set (snd w2)). keeps al docs alias newIndex (mo_Script opts) s t" by (blast intro: unseen_keeps)
    have i: "al (fst w2) newIndex = {}" and s2: "unseen al docs fr s (fst w2)" using u assms(2) by (auto simp: unseen_def migratable_def indices_only_def)
    consider e where "y = Inl e" | b where "y = Inr b" "olds = []" | b where "y = Inr b" "olds \<noteq> []" by (cases y) auto
    then show ?thesis
    proof cases
      case 1
      with assms(3) l L(1) e En(1) Inr have "s' = fst w2" "seen = snd w2" "r \<noteq> None" "MigrateIndex E alias newIndex body opts s = (s', r)"
        using False by (auto simp: MigrateIndex_def Let_def)
      with S show ?thesis by blast
    next
      case 2
      obtain w3 z where p: "EnsureAlias (watched E) newIndex alias w2 = (w3, z)" by (rule prod.exhaust)
      note P = one_requestD [OF one_request_ops(4) p]
      have q: "al s alias = {}" using L(2) Inr 2 by simp
      with assms(3) l L(1) e En(1) Inr 2 p P have m: "s' = fst w3" "seen = snd w3" "r = None \<longleftrightarrow> z = None" "MigrateIndex E alias newIndex body opts s = (s', r)"
        using False by (auto simp: MigrateIndex_def Let_def wrap_err_def)
      note ea = EnsureAlias_effect [OF conjunct1 [OF P] assms(1) i]
      have e3: "al (fst w3) alias = {newIndex} \<or> al (fst w3) alias = {} \<and> z \<noteq> None" "docs (fst w3) = docs s"
        using ea s2 q by (auto simp: unseen_def)
      then have "keeps al docs alias newIndex (mo_Script opts) s (fst w3)" by (intro keeps_first q) auto
      with m S P e3(1) show ?thesis by auto
    next
      case 3
      from migrate_tail [OF assms(1) False assms(2) L(2) [OF Inr] 3(2) s2 S l [unfolded Inr] e [unfolded 3(1)] L(1) [unfolded Inr] En(1) [unfolded 3(1)] assms(3)] show ?thesis .
    qed
  qed
qed

subsection \<open>A cluster in memory\<close>

text \<open>Indices with their documents, aliases with their indices, every change searchable at once; requests and answers as names separated by slashes.\<close>

type_synonym mem_cluster = "(string \<times> (string \<times> string) list) list \<times> (string \<times> string list) list"

definition named :: "(string \<times> 'a list) list \<Rightarrow> string \<Rightarrow> 'a list" where
  "named m k = (case map_of m k of Some xs \<Rightarrow> xs | None \<Rightarrow> [])"

definition mem_al :: "mem_cluster alias_view" where "mem_al s a = set (named (snd s) a)"
definition mem_docs :: "mem_cluster doc_view" where "mem_docs s i = map_of (named (fst s) i)"
definition mem_refreshed :: "mem_cluster fresh_view" where "mem_refreshed s = UNIV"

definition wire :: "string list \<Rightarrow> string" where
  "wire xs = strings_Join (map PathEscape xs) [CHR ''/'']"

definition unwire :: "string \<Rightarrow> string list" where
  "unwire t = map (\<lambda>p. case PathUnescape p of Some x \<Rightarrow> x | None \<Rightarrow> p) (split_on (CHR ''/'') t)"

definition mem_Marshal :: "json \<Rightarrow> string" where
  "mem_Marshal j =
     (case jget ''actions'' j of
        Some (JArr [r, x]) \<Rightarrow> wire [str_at ''add'' ''alias'' x, str_at ''remove'' ''index'' r, str_at ''add'' ''index'' x]
      | _ \<Rightarrow> wire [str_at ''source'' ''index'' j, str_at ''dest'' ''index'' j])"

fun mem_op :: "string \<Rightarrow> string list \<Rightarrow> string list \<Rightarrow> mem_cluster \<Rightarrow> mem_cluster" where
  "mem_op m [_, i] [a, old, new] (d, s) = (if i = ''_aliases'' then (d, map_put a (new # filter (\<lambda>x. x \<noteq> old) (named s a)) s) else (d, s))"
| "mem_op m [_, i] [src, dst] (d, s) = (if i = ''_reindex?wait_for_completion=true'' then (map_put dst (named d src @ named d dst) d, s) else (d, s))"
| "mem_op m [_, i] [] (d, s) =
     (if m = ''DELETE'' then (map_del i d, map (\<lambda>(a, xs). (a, filter (\<lambda>x. x \<noteq> i) xs)) s)
      else if m = ''PUT'' then (map_put i (named d i) d, s) else (d, s))"
| "mem_op m [_, i, _, a] b (d, s) = (d, map_put a (i # named s a) s)"
| "mem_op m p b s = s"

definition mem_Perform :: "string \<Rightarrow> string \<Rightarrow> (string \<times> string) option \<Rightarrow> mem_cluster \<Rightarrow> mem_cluster \<times> es_answer" where
  "mem_Perform m p b s =
     (mem_op m (unwire p) (if m = ''POST'' then (case b of Some (_, t) \<Rightarrow> unwire t | None \<Rightarrow> []) else []) s,
      Inr (case unwire p of [_, _, a] \<Rightarrow> if named (snd s) a = [] then (404, Inr []) else (200, Inr (wire (named (snd s) a))) 
              | [_, i] \<Rightarrow> if m = ''GET'' \<and> map_of (fst s) i = None then (404, Inr []) else (200, Inr [])
              | _ \<Rightarrow> (200, Inr [])))"

definition mem_es :: "mem_cluster es_lib" where
  "mem_es = \<lparr>es_NewRequest = (\<lambda>m p. None), es_Perform = mem_Perform, es_Marshal = (\<lambda>j. Inr (mem_Marshal j)),
     es_Unmarshal = (\<lambda>t. Inr (JObj (map (\<lambda>n. (n, JObj [])) (unwire t))))\<rparr>"

lemma unwire_wire [simp]: "xs \<noteq> [] \<Longrightarrow> unwire (wire xs) = xs"
proof -
  assume "xs \<noteq> []"
  then have "split_on (CHR ''/'') (strings_Join (map PathEscape xs) [CHR ''/'']) = map PathEscape xs" by (intro split_on_Join) auto
  then show ?thesis by (simp add: unwire_def wire_def o_def)
qed

lemma named_put [simp]: "named (map_put k v m) k' = (if k' = k then v else named m k')"
  by (simp add: named_def)

lemma named_del [simp]: "named (map_del k m) k' = (if k' = k then [] else named m k')"
  by (simp add: named_def)

lemma named_filter [simp]: "named (map (\<lambda>(a, xs). (a, filter P xs)) m) k = filter P (named m k)"
  by (induction m) (auto simp: named_def split: option.splits)

lemma unwire_paths [simp]:
  "unwire (''/_alias/'' @ PathEscape a) = [[], ''_alias'', a]"
  "unwire (''/'' @ PathEscape i) = [[], i]"
  "unwire (''/'' @ PathEscape i @ ''/_alias/'' @ PathEscape a) = [[], i, ''_alias'', a]"
  "unwire ''/_aliases'' = [[], ''_aliases'']"
  "unwire ''/_reindex?wait_for_completion=true'' = [[], ''_reindex?wait_for_completion=true'']"
  by (simp_all add: unwire_def split_on_append split_on_absent)

lemma mem_Marshal_swap [simp]: "unwire (mem_Marshal (swap_actions a old new)) = [a, old, new]"
  by (simp add: mem_Marshal_def swap_actions_def jget_def str_at_def)

lemma mem_Marshal_copy [simp]:
  "unwire (mem_Marshal (jput_if c ''script'' x (JObj [(''source'', JObj [(''index'', JStr src)]), (''dest'', JObj [(''index'', JStr dst)])]))) = [src, dst]"
  by (simp add: mem_Marshal_def str_at_def jput_if_def jput_def jget_def)

lemma mem_simps [simp]:
  "es_NewRequest mem_es m p = None" "es_Perform mem_es = mem_Perform" "es_Marshal mem_es j = Inr (mem_Marshal j)"
  "es_Unmarshal mem_es t = Inr (JObj (map (\<lambda>n. (n, JObj [])) (unwire t)))"
  by (simp_all add: mem_es_def)

lemma mem_op_index [simp]:
  "mem_op m [x, i] [] s =
     (if m = ''DELETE'' then (map_del i (fst s), map (\<lambda>(a, xs). (a, filter (\<lambda>x. x \<noteq> i) xs)) (snd s))
      else if m = ''PUT'' then (map_put i (named (fst s) i) (fst s), snd s) else s)"
  by (cases s) simp

lemma mem_lookup_ok: "lookup_ok mem_es mem_al mem_docs mem_refreshed"
  unfolding lookup_ok_def
  by (auto simp: mem_Perform_def unseen_def mem_al_def mem_docs_def mem_refreshed_def fun_eq_iff o_def image_image simp del: append.simps append_Cons split: if_splits)

lemma mem_alias_ok: "alias_ok mem_es mem_al mem_docs mem_refreshed"
  unfolding alias_ok_def
  by (auto simp: mem_Perform_def mem_al_def mem_docs_def mem_refreshed_def fun_eq_iff simp del: append_Cons)

lemma mem_copy_ok: "copy_ok mem_es mem_al mem_docs mem_refreshed"
  unfolding copy_ok_def
  by (auto simp: mem_Perform_def mem_al_def mem_docs_def mem_refreshed_def fun_eq_iff copied_part_def map_add_def simp del: append_Cons split: option.splits)

lemma mem_elastic_ok: "elastic_ok mem_es mem_al mem_docs mem_refreshed"
  using mem_lookup_ok mem_alias_ok mem_copy_ok by (auto simp: elastic_ok_def foreign_ok_def mem_Perform_def split: list.splits if_splits)

definition demo_cluster :: mem_cluster where
  "demo_cluster = ([(''items-v1'', [(''a'', ''1''), (''b'', ''2'')]), (''extra'', [(''c'', ''3'')])], [(''items'', [''items-v1'', ''extra''])])"

theorem migration_keeps_documents_witness:
  "\<exists>s' seen. MigrateIndex (watched mem_es) ''items'' ''items-v2'' None \<lparr>mo_Script = [], mo_DeleteOld = True\<rparr> (demo_cluster, []) = ((s', seen), None) \<and>
     length seen = 9 \<and> mem_al s' ''items'' = {''items-v2''} \<and>
     (\<forall>t \<in> insert s' (set seen). keeps mem_al mem_docs ''items'' ''items-v2'' [] demo_cluster t) \<and> mem_docs s' ''items-v2'' ''b'' = Some ''2''"
proof -
  let ?run = "MigrateIndex (watched mem_es) ''items'' ''items-v2'' None \<lparr>mo_Script = [], mo_DeleteOld = True\<rparr> (demo_cluster, [])"
  have ran: "snd ?run = None \<and> length (snd (fst ?run)) = 9 \<and>
      fst (fst (fst ?run)) = [(''items-v2'', [(''a'', ''1''), (''b'', ''2''), (''c'', ''3'')])]" by code_simp
  obtain s' seen r where run: "?run = ((s', seen), r)" by (metis prod.exhaust)
  have "migratable mem_al mem_refreshed ''items'' ''items-v2'' demo_cluster"
    by (simp add: migratable_def indices_only_def mem_al_def named_def demo_cluster_def mem_refreshed_def)
  from migration_keeps_documents [OF mem_elastic_ok this run] ran run show ?thesis
    by (auto simp: mem_docs_def named_def)
qed

end
