(* ===== verification/EsIndexing.thy ===== *)
theory EsIndexing
  imports EsClient Retry "HOL-Library.Multiset"
begin

text \<open>
  Package \<^verbatim>\<open>database/elasticsearch/indexing\<close> (\<^verbatim>\<open>bulk.go\<close>, \<^verbatim>\<open>sync.go\<close>, \<^verbatim>\<open>worker.go\<close>) and the bulk operations of the repository: bulk requests with the retry
  engine, the synchronisation of an index with a source, the periodic worker. Shown: a successful synchronisation ends and leaves every document of
  the source in the index or in the report.
\<close>

subsection \<open>Bulk requests (bulk.go)\<close>

record ItemError =
  ie_ID :: string
  ie_Reason :: string

record BulkStats =
  bs_Indexed :: int
  bs_Failed :: int
  bs_Errors :: "ItemError list"

definition zero_stats :: BulkStats where
  "zero_stats = \<lparr>bs_Indexed = 0, bs_Failed = 0, bs_Errors = []\<rparr>"

record BulkOp =
  bo_action :: string
  bo_id :: string
  bo_doc :: json

definition IndexOp :: "string \<Rightarrow> json \<Rightarrow> BulkOp" where "IndexOp i doc = \<lparr>bo_action = ''index'', bo_id = i, bo_doc = doc\<rparr>"
definition UpdateOp :: "string \<Rightarrow> json \<Rightarrow> BulkOp" where "UpdateOp i part = \<lparr>bo_action = ''update'', bo_id = i, bo_doc = part\<rparr>"
definition DeleteOp :: "string \<Rightarrow> BulkOp" where "DeleteOp i = \<lparr>bo_action = ''delete'', bo_id = i, bo_doc = JNull\<rparr>"

text \<open>A line of the body; a document that cannot be rendered ends the call.\<close>

definition bulk_line :: "'s es_lib \<Rightarrow> string \<Rightarrow> json \<Rightarrow> goerr + string" where
  "bulk_line E msg j = (case es_Marshal E j of Inl e \<Rightarrow> Inl (Errorf (''elastic: marshal bulk '' @ msg @ '': '') e []) | Inr t \<Rightarrow> Inr (t @ ''\<newline>''))"

definition bulk_meta :: "'s es_lib \<Rightarrow> string \<Rightarrow> string \<Rightarrow> string \<Rightarrow> string" where
  "bulk_meta E action index i =
     (case es_Marshal E (JObj [(action, JObj [(''_index'', JStr index), (''_id'', JStr i)])]) of Inl _ \<Rightarrow> [] | Inr t \<Rightarrow> t) @ ''\<newline>''"

definition bulk_source :: "'s es_lib \<Rightarrow> BulkOp \<Rightarrow> goerr + string" where
  "bulk_source E op =
     (if bo_action op = ''index'' then bulk_line E (''doc '' @ bo_id op) (bo_doc op)
      else if bo_action op = ''update'' then bulk_line E (''update '' @ bo_id op) (JObj [(''doc'', bo_doc op)])
      else if bo_action op = ''delete'' then Inr []
      else Inl (Opaque (''elastic: unknown bulk action '' @ go_quote (bo_action op) @ '' for '' @ bo_id op)))"

fun bulk_body :: "'s es_lib \<Rightarrow> string \<Rightarrow> BulkOp list \<Rightarrow> goerr + string" where
  "bulk_body E index [] = Inr []"
| "bulk_body E index (op # ops) =
     and_then (bulk_source E op) (\<lambda>l. and_then (bulk_body E index ops) (\<lambda>ls. Inr (bulk_meta E (bo_action op) index (bo_id op) @ l @ ls)))"

definition dec_bulk_result :: "json \<Rightarrow> goerr + string \<times> (string \<times> string) option" where
  "dec_bulk_result =
     dec_struct (\<lambda>j. and_then (dec_field dec_str [] ''_id'' j) (\<lambda>i.
       and_then (dec_field (dec_struct (\<lambda>e. and_then (dec_field dec_str [] ''type'' e) (\<lambda>t. and_then (dec_field dec_str [] ''reason'' e) (\<lambda>r. Inr (Some (t, r))))))
                   None ''error'' j) (\<lambda>err. Inr (i, err))))"

definition count_result :: "BulkStats \<Rightarrow> string \<times> (string \<times> string) option \<Rightarrow> BulkStats" where
  "count_result stats r =
     (case snd r of
        Some (t, reason) \<Rightarrow> stats\<lparr>bs_Failed := bs_Failed stats + 1, bs_Errors := bs_Errors stats @ [\<lparr>ie_ID = fst r, ie_Reason = t @ '': '' @ reason\<rparr>]\<rparr>
      | None \<Rightarrow> stats\<lparr>bs_Indexed := bs_Indexed stats + 1\<rparr>)"

definition parseBulkResponse :: "'s es_lib \<Rightarrow> string \<Rightarrow> goerr + BulkStats" where
  "parseBulkResponse E raw =
     and_then (decode E ''bulk response'' (dec_field (dec_list (\<lambda>j. if j = JNull then Inr [] else dec_object dec_bulk_result j)) [] ''items'') raw)
       (\<lambda>items. Inr (foldl count_result zero_stats (map snd (concat items))))"

text \<open>One attempt; the response of a successful one is kept beside the world.\<close>

definition bulk_attempt :: "'s es_lib \<Rightarrow> string \<Rightarrow> 's \<times> string \<Rightarrow> ('s \<times> string) \<times> goerr option" where
  "bulk_attempt E payload w =
     (case es_DoNDJSON E ''/_bulk'' payload (fst w) of
        (s1, Inl e) \<Rightarrow> ((s1, snd w), Some e)
      | (s1, Inr r) \<Rightarrow> ((s1, r), None))"

definition BulkDo :: "'s es_lib \<Rightarrow> 's retry_env \<Rightarrow> string \<Rightarrow> BulkOp list \<Rightarrow> int \<Rightarrow> 's \<Rightarrow> 's \<times> BulkStats \<times> retry_result" where
  "BulkDo E R index ops maxAttempts s =
     (if ops = [] then (s, zero_stats, RetErr None)
      else (let n = (if maxAttempts \<le> 0 then 3 else maxAttempts)
            in case bulk_body E index ops of
                 Inl e \<Rightarrow> (s, zero_stats, RetErr (Some e))
               | Inr payload \<Rightarrow>
                   (case Retry (observed_env R) (NewPolicy [WithMaxAttempts n, WithBaseDelay (100 * 10 ^ 6)]) (bulk_attempt E payload) [] (s, []) of
                      (w, lg, RetPanic) \<Rightarrow> (fst w, zero_stats, RetPanic)
                    | (w, lg, RetErr (Some e)) \<Rightarrow> (fst w, zero_stats, RetErr (Some (Errorf (''elastic: bulk failed after '' @ itoa n @ '' attempts: '') e [])))
                    | (w, lg, RetErr None) \<Rightarrow>
                        (case parseBulkResponse E (snd w) of
                           Inl e \<Rightarrow> (fst w, zero_stats, RetErr (Some e))
                         | Inr stats \<Rightarrow> (fst w, stats, RetErr None)))))"

definition BulkIndexWithRetry :: "'s es_lib \<Rightarrow> 's retry_env \<Rightarrow> string \<Rightarrow> (string \<times> json) list \<Rightarrow> int \<Rightarrow> 's \<Rightarrow> 's \<times> BulkStats \<times> retry_result" where
  "BulkIndexWithRetry E R index docs maxAttempts s = BulkDo E R index (map (\<lambda>(i, doc). IndexOp i doc) docs) maxAttempts s"

fun index_body :: "'s es_lib \<Rightarrow> string \<Rightarrow> (string \<times> json) list \<Rightarrow> goerr + string" where
  "index_body E index [] = Inr []"
| "index_body E index ((i, doc) # docs) =
     and_then (bulk_line E (''doc '' @ i) doc) (\<lambda>l. and_then (index_body E index docs) (\<lambda>ls. Inr (bulk_meta E ''index'' index i @ l @ ls)))"

definition BulkIndex :: "'s es_lib \<Rightarrow> string \<Rightarrow> (string \<times> json) list \<Rightarrow> 's \<Rightarrow> 's \<times> goerr option" where
  "BulkIndex E index docs s =
     (if docs = [] then (s, None)
      else case index_body E index docs of
        Inl e \<Rightarrow> (s, Some e)
      | Inr payload \<Rightarrow>
          (case decoded (decode E ''bulk response'' (dec_field dec_bool False ''errors'')) (es_DoNDJSON E ''/_bulk'' payload s) of
             (s1, Inl e) \<Rightarrow> (s1, Some e)
           | (s1, Inr True) \<Rightarrow> (s1, Some (Opaque ''elastic: bulk request reported item failures''))
           | (s1, Inr False) \<Rightarrow> (s1, None)))"

text \<open>The repository (\<^verbatim>\<open>repository/bulk.go\<close>).\<close>

definition er_BulkIndex :: "'s es_lib \<Rightarrow> 's retry_env \<Rightarrow> ('t \<Rightarrow> json) \<Rightarrow> string \<Rightarrow> (string \<times> 't) list \<Rightarrow> 's \<Rightarrow> 's \<times> BulkStats \<times> retry_result" where
  "er_BulkIndex E R enc_t index docs s = BulkIndexWithRetry E R index (map (\<lambda>(i, doc). (i, enc_t doc)) docs) 3 s"

definition er_BulkDelete :: "'s es_lib \<Rightarrow> 's retry_env \<Rightarrow> string \<Rightarrow> string list \<Rightarrow> 's \<Rightarrow> 's \<times> BulkStats \<times> retry_result" where
  "er_BulkDelete E R index ids s = BulkDo E R index (map DeleteOp ids) 3 s"

subsection \<open>Synchronisation (sync.go)\<close>

record Doc =
  doc_ID :: string
  doc_Body :: json

record 's SyncConfig =
  sc_Index :: string
  sc_MaxAttempts :: int
  sc_OnBatch :: "(BulkStats \<Rightarrow> 's \<Rightarrow> 's) option"

record Report =
  rep_Batches :: int
  rep_Indexed :: int
  rep_Failed :: int
  rep_Errors :: "ItemError list"

type_synonym 's doc_source = "'s \<Rightarrow> 's \<times> (goerr + Doc list \<times> bool)"

text \<open>The operations of a batch: documents without an id in order, then the map of the others, in the order \<open>visit\<close> the runtime ranges over it.\<close>

definition batch_ops :: "((string \<times> json) list \<Rightarrow> (string \<times> json) list) \<Rightarrow> Doc list \<Rightarrow> BulkOp list" where
  "batch_ops visit batch =
     map (\<lambda>d. IndexOp [] (doc_Body d)) (filter (\<lambda>d. doc_ID d = []) batch) @
     map (\<lambda>(i, body). IndexOp i body) (visit (fold (\<lambda>d docs. if doc_ID d \<noteq> [] then map_put (doc_ID d) (doc_Body d) docs else docs) batch []))"

definition add_stats :: "BulkStats \<Rightarrow> Report \<Rightarrow> Report" where
  "add_stats stats rep =
     \<lparr>rep_Batches = rep_Batches rep + 1, rep_Indexed = rep_Indexed rep + bs_Indexed stats, rep_Failed = rep_Failed rep + bs_Failed stats,
      rep_Errors = rep_Errors rep @ bs_Errors stats\<rparr>"

partial_function (option) Sync_loop ::
  "'s es_lib \<Rightarrow> 's retry_env \<Rightarrow> 's doc_source \<Rightarrow> ((string \<times> json) list \<Rightarrow> (string \<times> json) list) \<Rightarrow> 's SyncConfig \<Rightarrow> Report \<Rightarrow> 's
   \<Rightarrow> ('s \<times> Report \<times> retry_result) option" where
  "Sync_loop E R nxt visit cfg rep s =
     (case ctxErr R s of
        Some e \<Rightarrow> Some (s, rep, RetErr (Some e))
      | None \<Rightarrow>
          (case nxt s of
             (s1, Inl e) \<Rightarrow> Some (s1, rep, RetErr (Some e))
           | (s1, Inr (batch, fin)) \<Rightarrow>
               if batch = [] then (if fin then Some (s1, rep, RetErr None) else Sync_loop E R nxt visit cfg rep s1)
               else (case BulkDo E R (sc_Index cfg) (batch_ops visit batch) (sc_MaxAttempts cfg) s1 of
                       (s2, stats, RetErr None) \<Rightarrow>
                         (let rep' = add_stats stats rep;
                              s3 = (case sc_OnBatch cfg of Some f \<Rightarrow> f stats s2 | None \<Rightarrow> s2)
                          in if fin then Some (s3, rep', RetErr None) else Sync_loop E R nxt visit cfg rep' s3)
                     | (s2, stats, r) \<Rightarrow> Some (s2, rep, r))))"

declare Sync_loop.simps [code]

definition Sync ::
  "'s es_lib \<Rightarrow> 's retry_env \<Rightarrow> 's doc_source \<Rightarrow> ((string \<times> json) list \<Rightarrow> (string \<times> json) list) \<Rightarrow> 's SyncConfig \<Rightarrow> 's \<Rightarrow> ('s \<times> Report \<times> retry_result) option" where
  "Sync E R nxt visit cfg s = Sync_loop E R nxt visit cfg \<lparr>rep_Batches = 0, rep_Indexed = 0, rep_Failed = 0, rep_Errors = []\<rparr> s"

subsection \<open>The worker (worker.go)\<close>

text \<open>A job ends with an error, without one, or by a panic, which \<^verbatim>\<open>runOnce\<close> recovers; log lines are left out.\<close>

datatype job_end = JobEnd "goerr option" | JobPanic

record 's Worker =
  wk_Name :: string
  wk_Interval :: int
  wk_Jitter :: int
  wk_RunOnStart :: bool
  wk_Job :: "('s \<Rightarrow> 's \<times> job_end) option"

definition wk_runOnce :: "('s \<Rightarrow> 's \<times> job_end) \<Rightarrow> 's \<Rightarrow> 's" where
  "wk_runOnce job s = fst (job s)"

text \<open>\<open>None\<close> is the panic of \<^verbatim>\<open>rand.Int63n\<close> on an argument that is not positive.\<close>

definition nextDelay :: "(int \<Rightarrow> int) \<Rightarrow> 's Worker \<Rightarrow> int option" where
  "nextDelay rnd w =
     (if wk_Jitter w \<le> 0 then Some (wk_Interval w)
      else (let n = int64 (2 * wk_Jitter w + 1)
            in if n \<le> 0 then None
               else (let d = int64 (wk_Interval w + int64 (rnd n - wk_Jitter w)) in Some (if d < 0 then 0 else d))))"

partial_function (option) Start_loop :: "'s retry_env \<Rightarrow> 's Worker \<Rightarrow> ('s \<Rightarrow> 's \<times> job_end) \<Rightarrow> 's \<Rightarrow> ('s \<times> retry_result) option" where
  "Start_loop R w job s =
     (case nextDelay (Int63n R s) w of
        None \<Rightarrow> Some (s, RetPanic)
      | Some d \<Rightarrow> (case timedWait R d s of (s1, cancelled) \<Rightarrow> if cancelled then Some (s1, RetErr (ctxErr R s1)) else Start_loop R w job (wk_runOnce job s1)))"

declare Start_loop.simps [code]

definition wk_Start :: "'s retry_env \<Rightarrow> 's Worker \<Rightarrow> 's \<Rightarrow> ('s \<times> retry_result) option" where
  "wk_Start R w s =
     (let at_w = ''elastic indexing.Worker '' @ go_quote (wk_Name w) in
      if wk_Interval w \<le> 0 then Some (s, RetErr (Some (Opaque (at_w @ '': Interval must be > 0''))))
      else case wk_Job w of
        None \<Rightarrow> Some (s, RetErr (Some (Opaque (at_w @ '': Job is required''))))
      | Some job \<Rightarrow> Start_loop R w job (if wk_RunOnStart w then wk_runOnce job s else s))"

subsection \<open>What a synchronisation leaves behind\<close>

text \<open>
  \<open>stored s\<close> are the ids of the documents of the index and \<open>src s\<close> the batches the source has still to give. An answered bulk request answers each
  operation, in order, with an item that says whether it was carried out; whatever happens, indexing removes nothing.
\<close>

definition item_for :: "string set \<Rightarrow> BulkOp \<Rightarrow> json \<Rightarrow> bool" where
  "item_for st op item \<longleftrightarrow>
     (\<exists>act fs i. item = JObj [(act, JObj fs)] \<and> map_of fs ''_id'' = Some (JStr i) \<and> (bo_id op \<noteq> [] \<longrightarrow> i = bo_id op) \<and>
        (map_of fs ''error'' = None \<and> (bo_id op \<noteq> [] \<longrightarrow> i \<in> st) \<or>
         (\<exists>es t why. map_of fs ''error'' = Some (JObj es) \<and> map_of es ''type'' = Some (JStr t) \<and> map_of es ''reason'' = Some (JStr why))))"

definition bulk_ok :: "'s es_lib \<Rightarrow> string \<Rightarrow> ('s \<Rightarrow> string set) \<Rightarrow> ('s \<Rightarrow> Doc list list) \<Rightarrow> bool" where
  "bulk_ok E index stored src \<longleftrightarrow>
     (\<forall>ops payload s s' r. list_all (\<lambda>op. bo_action op = ''index'') ops \<longrightarrow> bulk_body E index ops = Inr payload \<longrightarrow>
        es_Perform E ''POST'' ''/_bulk'' (Some (''application/x-ndjson'', payload)) s = (s', r) \<longrightarrow>
        stored s \<subseteq> stored s' \<and> src s' = src s \<and>
        (\<forall>status resp. r = Inr (status, Inr resp) \<longrightarrow> status < 400 \<longrightarrow>
           (\<exists>j items. es_Unmarshal E resp = Inr j \<and> jget ''items'' j = Some (JArr items) \<and> list_all2 (item_for (stored s')) ops items)))"

text \<open>The contract of \<^verbatim>\<open>Source\<close>: batch after batch, done with the last one or with an empty one after it.\<close>

definition source_ok :: "'s doc_source \<Rightarrow> ('s \<Rightarrow> string set) \<Rightarrow> ('s \<Rightarrow> Doc list list) \<Rightarrow> bool" where
  "source_ok nxt stored src \<longleftrightarrow>
     (\<forall>s s' r. nxt s = (s', r) \<longrightarrow> stored s \<subseteq> stored s' \<and>
        (\<forall>batch fin. r = Inr (batch, fin) \<longrightarrow>
           (case src s of [] \<Rightarrow> batch = [] \<and> fin \<and> src s' = [] | b # bs \<Rightarrow> batch = b \<and> src s' = bs \<and> (fin \<longrightarrow> bs = []))))"

text \<open>Waiting and the progress hook touch neither.\<close>

definition aside_ok :: "'s retry_env \<Rightarrow> 's SyncConfig \<Rightarrow> ('s \<Rightarrow> string set) \<Rightarrow> ('s \<Rightarrow> Doc list list) \<Rightarrow> bool" where
  "aside_ok R cfg stored src \<longleftrightarrow>
     (\<forall>d s. stored s \<subseteq> stored (fst (timedWait R d s)) \<and> src (fst (timedWait R d s)) = src s) \<and>
     (\<forall>f stats s. sc_OnBatch cfg = Some f \<longrightarrow> stored s \<subseteq> stored (f stats s) \<and> src (f stats s) = src s)"

lemma DoNDJSON_cases:
  assumes "es_DoNDJSON E p body s = (s', r)"
  obtains e where "s' = s" "r = Inl e"
  | rp where "es_Perform E ''POST'' p (Some (''application/x-ndjson'', body)) s = (s', rp)" "\<And>x. r = Inr x \<Longrightarrow> \<exists>st. rp = Inr (st, Inr x) \<and> st < 400"
  using assms by (auto simp: es_DoNDJSON_def split: option.splits prod.splits sum.splits if_splits)

definition covered :: "BulkOp list \<Rightarrow> BulkStats \<Rightarrow> string set \<Rightarrow> bool" where
  "covered ops stats st \<longleftrightarrow> bs_Failed stats = int (length (bs_Errors stats)) \<and> bs_Indexed stats + bs_Failed stats = int (length ops) \<and>
     (\<forall>op \<in> set ops. bo_id op \<noteq> [] \<longrightarrow> bo_id op \<in> st \<or> bo_id op \<in> ie_ID ` set (bs_Errors stats))"

definition result_for :: "string set \<Rightarrow> BulkOp \<Rightarrow> (string \<times> string \<times> (string \<times> string) option) list \<Rightarrow> bool" where
  "result_for st op rs \<longleftrightarrow> (\<exists>act i err. rs = [(act, i, err)] \<and> (bo_id op \<noteq> [] \<longrightarrow> i = bo_id op \<and> (err = None \<longrightarrow> i \<in> st)))"

lemma dec_item:
  assumes "item_for st op item"
  shows "\<exists>rs. (if item = JNull then Inr [] else dec_object dec_bulk_result item) = Inr rs \<and> result_for st op rs"
proof -
  from assms obtain act fs i where f: "item = JObj [(act, JObj fs)]" "map_of fs ''_id'' = Some (JStr i)" "bo_id op \<noteq> [] \<longrightarrow> i = bo_id op"
    and e: "map_of fs ''error'' = None \<and> (bo_id op \<noteq> [] \<longrightarrow> i \<in> st) \<or>
         (\<exists>es t why. map_of fs ''error'' = Some (JObj es) \<and> map_of es ''type'' = Some (JStr t) \<and> map_of es ''reason'' = Some (JStr why))"
    unfolding item_for_def by blast
  from e show ?thesis
  proof (elim disjE exE conjE)
    assume "map_of fs ''error'' = None" "bo_id op \<noteq> [] \<longrightarrow> i \<in> st"
    then show ?thesis using f by (simp add: dec_bulk_result_def dec_struct_def is_struct_def dec_field_def jget_def result_for_def)
  next
    fix es t why
    assume "map_of fs ''error'' = Some (JObj es)" "map_of es ''type'' = Some (JStr t)" "map_of es ''reason'' = Some (JStr why)"
    then show ?thesis using f by (simp add: dec_bulk_result_def dec_struct_def is_struct_def dec_field_def jget_def result_for_def)
  qed
qed

lemma dec_items:
  "list_all2 (item_for st) ops items \<Longrightarrow>
     \<exists>rss. dec_all (\<lambda>j. if j = JNull then Inr [] else dec_object dec_bulk_result j) items = Inr rss \<and> list_all2 (result_for st) ops rss"
  by (induction rule: list_all2_induct) (auto dest!: dec_item)

lemma count_results:
  assumes "list_all2 (result_for st) ops rss" and "covered prev stats st"
  shows "covered (prev @ ops) (foldl count_result stats (map snd (concat rss))) st"
  using assms
proof (induction ops rss arbitrary: prev stats rule: list_all2_induct)
  case (Cons op ops rs rss)
  from Cons.hyps(1) obtain act i err where r: "rs = [(act, i, err)]" "bo_id op \<noteq> [] \<longrightarrow> i = bo_id op \<and> (err = None \<longrightarrow> i \<in> st)"
    unfolding result_for_def by blast
  have "covered (prev @ [op]) (count_result stats (i, err)) st"
    using r Cons.prems by (cases err) (auto simp: covered_def count_result_def)
  from Cons.IH [OF this] r show ?case by simp
qed simp

lemma parse_covered:
  assumes "es_Unmarshal E resp = Inr j" and "jget ''items'' j = Some (JArr items)" and "list_all2 (item_for st) ops items"
  shows "\<exists>stats. parseBulkResponse E resp = Inr stats \<and> covered ops stats st"
proof -
  from dec_items [OF assms(3)] obtain rss where d: "dec_all (\<lambda>j. if j = JNull then Inr [] else dec_object dec_bulk_result j) items = Inr rss"
    and r: "list_all2 (result_for st) ops rss" by blast
  have "is_struct j" using assms(2) by (cases j) (auto simp: is_struct_def jget_def)
  then have "parseBulkResponse E resp = Inr (foldl count_result zero_stats (map snd (concat rss)))"
    using assms(1,2) d by (simp add: parseBulkResponse_def decode_def dec_struct_def dec_field_def)
  moreover have "covered [] zero_stats st" by (simp add: covered_def zero_stats_def)
  ultimately show ?thesis using count_results [OF r] by fastforce
qed

text \<open>An attempt that is repeated and every wait leave the index no smaller and the source alone: the contract of the retry loop.\<close>

definition no_loss :: "('s \<Rightarrow> string set) \<Rightarrow> ('s \<Rightarrow> Doc list list) \<Rightarrow> 's \<Rightarrow> 's \<Rightarrow> bool" where
  "no_loss stored src s t \<longleftrightarrow> stored s \<subseteq> stored t \<and> src t = src s"

lemma no_loss_trans [trans]: "no_loss stored src s t \<Longrightarrow> no_loss stored src t u \<Longrightarrow> no_loss stored src s u"
  by (auto simp: no_loss_def)

lemma no_loss_refl [simp]: "no_loss stored src s s"
  by (simp add: no_loss_def)

lemma bulk_attempt_keeps:
  assumes "bulk_ok E index stored src" and "list_all (\<lambda>op. bo_action op = ''index'') ops" and "bulk_body E index ops = Inr payload"
    and a: "bulk_attempt E payload w = (w', r)"
  shows "no_loss stored src (fst w) (fst w')" and "r = None \<Longrightarrow> \<exists>stats. parseBulkResponse E (snd w') = Inr stats \<and> covered ops stats (stored (fst w'))"
proof -
  obtain s1 x where d: "es_DoNDJSON E ''/_bulk'' payload (fst w) = (s1, x)" by (rule prod.exhaust)
  have s1: "fst w' = s1" using a d by (auto simp: bulk_attempt_def split: sum.splits)
  from d have "no_loss stored src (fst w) s1 \<and> (\<forall>resp. x = Inr resp \<longrightarrow> (\<exists>stats. parseBulkResponse E resp = Inr stats \<and> covered ops stats (stored s1)))"
  proof (cases rule: DoNDJSON_cases)
    case (2 rp)
    note law = assms(1) [unfolded bulk_ok_def, rule_format, OF assms(2,3) 2(1)]
    have "\<exists>stats. parseBulkResponse E resp = Inr stats \<and> covered ops stats (stored s1)" if x: "x = Inr resp" for resp
    proof -
      from 2(2) [OF x] obtain st where "rp = Inr (st, Inr resp)" "st < 400" by blast
      with law obtain j items where "es_Unmarshal E resp = Inr j" "jget ''items'' j = Some (JArr items)" "list_all2 (item_for (stored s1)) ops items" by blast
      then show ?thesis by (rule parse_covered)
    qed
    with law show ?thesis by (simp add: no_loss_def)
  qed simp
  then show "no_loss stored src (fst w) (fst w')" "r = None \<Longrightarrow> \<exists>stats. parseBulkResponse E (snd w') = Inr stats \<and> covered ops stats (stored (fst w'))"
    using a d s1 by (cases w'; auto simp: bulk_attempt_def split: sum.splits)+
qed

lemma BulkDo_covers:
  assumes ok: "bulk_ok E index stored src" and wait: "\<And>d s. no_loss stored src s (fst (timedWait R d s))"
    and ops: "list_all (\<lambda>op. bo_action op = ''index'') ops" and b: "BulkDo E R index ops n s = (s', stats, r)"
  shows "no_loss stored src s s'" and "r = RetErr None \<Longrightarrow> covered ops stats (stored s')"
proof -
  have "no_loss stored src s s' \<and> (r = RetErr None \<longrightarrow> covered ops stats (stored s'))"
  proof (cases "ops = []")
    case True
    with b show ?thesis by (auto simp: BulkDo_def covered_def zero_stats_def)
  next
    case False
    show ?thesis
    proof (cases "bulk_body E index ops")
      case (Inl e)
      with b False show ?thesis by (auto simp: BulkDo_def)
    next
      case (Inr payload)
      let ?p = "NewPolicy [WithMaxAttempts (if n \<le> 0 then 3 else n), WithBaseDelay (100 * 10 ^ 6)]"
      note keeps = bulk_attempt_keeps [OF ok ops Inr]
      obtain w lg rr where R: "Retry (observed_env R) ?p (bulk_attempt E payload) [] (s, []) = (w, lg, rr)" by (metis prod.exhaust)
      have "(no_loss stored src s (fst w) \<and> rr \<noteq> RetErr None) \<or> (\<exists>sk e. no_loss stored src s (fst sk) \<and> bulk_attempt E payload sk = (w, e) \<and> rr = RetErr e)"
      proof (rule attempt_contract.loop_outcome [where E = "observed_env R" and fn = "bulk_attempt E payload" and Inv = "\<lambda>w. no_loss stored src s (fst w)"])
        show "attempt_contract (observed_env R) (bulk_attempt E payload) defaultRetryable (\<lambda>w. no_loss stored src s (fst w))"
          using keeps(1) wait by unfold_locales (auto simp: observed_env_def split: prod.splits intro: no_loss_trans, metis fst_conv no_loss_trans)
        show "retry_loop (observed_env R) ?p \<lparr>retryable = defaultRetryable, onRetry = False\<rparr> (bulk_attempt E payload) (attempts ?p) 1 None (s, []) [] = (w, lg, rr)"
          using R by (simp add: Retry_def)
      qed simp_all
      then have "no_loss stored src s (fst w) \<and> (rr = RetErr None \<longrightarrow> (\<exists>stats. parseBulkResponse E (snd w) = Inr stats \<and> covered ops stats (stored (fst w))))"
      proof (elim disjE exE conjE)
        fix sk e
        assume "no_loss stored src s (fst sk)" "bulk_attempt E payload sk = (w, e)" "rr = RetErr e"
        then show ?thesis using keeps [of sk w e] no_loss_trans [of stored src s "fst sk" "fst w"] by simp
      qed simp
      then show ?thesis using b False Inr R by (auto simp: BulkDo_def Let_def split: retry_result.splits option.splits sum.splits)
    qed
  qed
  then show "no_loss stored src s s'" "r = RetErr None \<Longrightarrow> covered ops stats (stored s')" by blast+
qed

lemma batch_keys:
  "fst ` set (fold (\<lambda>d docs. if doc_ID d \<noteq> [] then map_put (doc_ID d) (doc_Body d) docs else docs) batch m) = fst ` set m \<union> {doc_ID d | d. d \<in> set batch \<and> doc_ID d \<noteq> []}"
proof (induction batch arbitrary: m)
  case (Cons d batch)
  show ?case using keys_map_put [of "doc_ID d" "doc_Body d" m] by (auto simp: Cons.IH)
qed simp

lemma batch_ops_index: "list_all (\<lambda>op. bo_action op = ''index'') (batch_ops visit batch)"
  by (auto simp: batch_ops_def list_all_iff IndexOp_def)

lemma batch_ops_ids:
  assumes "\<forall>m. mset (visit m) = mset m" and "d \<in> set batch" and "doc_ID d \<noteq> []"
  shows "\<exists>op \<in> set (batch_ops visit batch). bo_id op = doc_ID d"
proof -
  let ?m = "fold (\<lambda>d docs. if doc_ID d \<noteq> [] then map_put (doc_ID d) (doc_Body d) docs else docs) batch []"
  have "doc_ID d \<in> fst ` set ?m" using batch_keys [of batch "[]"] assms(2,3) by auto
  then obtain body where "(doc_ID d, body) \<in> set (visit ?m)" using mset_eq_setD [OF assms(1) [rule_format, of ?m]] by auto
  then have "IndexOp (doc_ID d) body \<in> set (batch_ops visit batch)" by (force simp: batch_ops_def)
  then show ?thesis by (intro bexI) (simp_all add: IndexOp_def)
qed

text \<open>How many operations a batch makes: one for every document without an id and one for every different id.\<close>

definition batch_count :: "Doc list \<Rightarrow> nat" where
  "batch_count batch = length (filter (\<lambda>d. doc_ID d = []) batch) + card (doc_ID ` set batch - {[]})"

lemma batch_ops_length:
  assumes "\<forall>m. mset (visit m) = mset m"
  shows "length (batch_ops visit batch) = batch_count batch"
proof -
  let ?f = "\<lambda>d docs. if doc_ID d \<noteq> [] then map_put (doc_ID d) (doc_Body d) docs else docs"
  have "gomap m \<Longrightarrow> gomap (fold ?f batch m)" for m by (induction batch arbitrary: m) auto
  from this [of "[]"] have "length (fold ?f batch []) = card (fst ` set (fold ?f batch []))"
    using distinct_card [of "map fst (fold ?f batch [])"] by (simp add: gomap_def)
  also have "fst ` set (fold ?f batch []) = doc_ID ` set batch - {[]}" using batch_keys [of batch "[]"] by auto
  finally show ?thesis using assms [rule_format, THEN mset_eq_length] by (simp add: batch_ops_def batch_count_def)
qed

definition accounted :: "Doc list list \<Rightarrow> Report \<Rightarrow> string set \<Rightarrow> bool" where
  "accounted batches rep st \<longleftrightarrow> rep_Failed rep = int (length (rep_Errors rep)) \<and>
     rep_Indexed rep + rep_Failed rep = int (sum_list (map batch_count batches)) \<and>
     (\<forall>d \<in> set (concat batches). doc_ID d \<noteq> [] \<longrightarrow> doc_ID d \<in> st \<or> doc_ID d \<in> ie_ID ` set (rep_Errors rep))"

lemma accounted_batch:
  assumes "accounted prev rep st" and "covered (batch_ops visit batch) stats st'" and "st \<subseteq> st'" and "\<forall>m. mset (visit m) = mset m"
  shows "accounted (prev @ [batch]) (add_stats stats rep) st'"
proof -
  have "doc_ID d \<in> st' \<or> doc_ID d \<in> ie_ID ` set (bs_Errors stats)" if "d \<in> set batch" "doc_ID d \<noteq> []" for d
    using batch_ops_ids [OF assms(4) that] assms(2) that(2) unfolding covered_def by metis
  moreover have "doc_ID d \<in> st' \<or> doc_ID d \<in> ie_ID ` set (rep_Errors rep)" if "d \<in> set (concat prev)" "doc_ID d \<noteq> []" for d
    using assms(1,3) that by (auto simp: accounted_def)
  ultimately have "\<forall>d \<in> set (concat (prev @ [batch])). doc_ID d \<noteq> [] \<longrightarrow> doc_ID d \<in> st' \<or> doc_ID d \<in> ie_ID ` set (rep_Errors (add_stats stats rep))"
    unfolding add_stats_def by (simp add: image_Un) blast
  then show ?thesis using assms(1,2) batch_ops_length [OF assms(4), of batch] by (simp add: accounted_def covered_def add_stats_def)
qed

lemma accounted_mono: "accounted prev rep st \<Longrightarrow> st \<subseteq> st' \<Longrightarrow> accounted prev rep st'"
  by (auto simp: accounted_def)

lemma Sync_loop_covers:
  assumes b: "bulk_ok E (sc_Index cfg) stored src" and so: "source_ok nxt stored src" and a: "aside_ok R cfg stored src" and v: "\<forall>m. mset (visit m) = mset m"
    and acc: "accounted prev rep (stored s)"
  shows "\<exists>s' rep' r. Sync_loop E R nxt visit cfg rep s = Some (s', rep', r) \<and>
    (r = RetErr None \<longrightarrow> src s' = [] \<and> accounted (prev @ src s) rep' (stored s'))"
  using acc
proof (induction "src s" arbitrary: s rep prev)
  case Nil
  obtain s1 x where n: "nxt s = (s1, x)" by (rule prod.exhaust)
  note law = so [unfolded source_ok_def, rule_format, OF n, folded Nil.hyps]
  then show ?case using n Nil accounted_mono by (subst Sync_loop.simps) (auto split: option.splits sum.splits)
next
  case (Cons batch bs)
  obtain s1 x where n: "nxt s = (s1, x)" by (rule prod.exhaust)
  note law = so [unfolded source_ok_def, rule_format, OF n, folded Cons.hyps(2)]
  show ?case
  proof (cases "ctxErr R s = None \<and> (\<exists>fin. x = Inr (batch, fin))")
    case False
    with n law show ?thesis by (subst Sync_loop.simps) (auto split: option.splits sum.splits)
  next
    case True
    then obtain fin where c: "ctxErr R s = None" and x: "x = Inr (batch, fin)" by blast
    with law have s1: "stored s \<subseteq> stored s1" "src s1 = bs" "fin \<longrightarrow> bs = []" by auto
    show ?thesis
    proof (cases "batch = []")
      case True
      have acc: "accounted prev rep (stored s1)" using accounted_mono [OF Cons.prems s1(1)] .
      then have acc': "accounted (prev @ [[]]) rep (stored s1)" by (simp add: accounted_def batch_count_def)
      show ?thesis
        using Cons.hyps(1) [OF s1(2) [symmetric] acc'] True c n x s1(2,3) acc' Cons.hyps(2) [symmetric]
        by (subst Sync_loop.simps) auto
    next
      case False
      obtain s2 stats r where bd: "BulkDo E R (sc_Index cfg) (batch_ops visit batch) (sc_MaxAttempts cfg) s1 = (s2, stats, r)" by (metis prod.exhaust)
      have wait: "no_loss stored src s (fst (timedWait R d s))" for d s using a by (simp add: aside_ok_def no_loss_def)
      note cov = BulkDo_covers [OF b wait batch_ops_index bd]
      define s3 where "s3 = (case sc_OnBatch cfg of Some f \<Rightarrow> f stats s2 | None \<Rightarrow> s2)"
      have s3: "stored s2 \<subseteq> stored s3" "src s3 = src s2" using a by (auto simp: s3_def aside_ok_def split: option.splits)
      show ?thesis
      proof (cases "r = RetErr None")
        case r: True
        have "stored s \<subseteq> stored s2" "src s2 = bs" using s1 cov(1) by (auto simp: no_loss_def)
        then have acc: "accounted (prev @ [batch]) (add_stats stats rep) (stored s3)"
          using accounted_mono [OF accounted_batch [OF Cons.prems cov(2) [OF r] _ v] s3(1)] by blast
        have "src s3 = bs" using s3(2) \<open>src s2 = bs\<close> by simp
        show ?thesis
          using Cons.hyps(1) [OF \<open>src s3 = bs\<close> [symmetric] acc] False c n x bd r s1(3) acc \<open>src s3 = bs\<close> Cons.hyps(2) [symmetric]
          by (subst Sync_loop.simps) (auto simp: s3_def Let_def)
      next
        case nr: False
        then show ?thesis using False c n x bd by (subst Sync_loop.simps) (auto split: retry_result.splits option.splits)
      qed
    qed
  qed
qed

text \<open>
  C18: Synchronising an index with a source ends, and when it reports success nothing was dropped: the source is exhausted, and every document it gave
  that has an id is in the index or named in the errors of the report (documents without an id are only counted). The counts of the report add up: failures are the errors listed, and together with the
  indexed ones they are all operations asked for, one for every document without an id and one for every different id of a batch. This holds whatever bulk requests failed and were
  repeated on the way, for every order in which the runtime ranges over a batch.
\<close>

theorem sync_accounts_for_all:
  assumes "bulk_ok E (sc_Index cfg) stored src" and "source_ok nxt stored src" and "aside_ok R cfg stored src" and "\<forall>m. mset (visit m) = mset m"
  shows "\<exists>s' rep r. Sync E R nxt visit cfg s = Some (s', rep, r) \<and> (r = RetErr None \<longrightarrow> src s' = [] \<and> rep_Failed rep = int (length (rep_Errors rep)) \<and>
    rep_Indexed rep + rep_Failed rep = int (sum_list (map batch_count (src s))) \<and>
    (\<forall>d \<in> set (concat (src s)). doc_ID d \<noteq> [] \<longrightarrow> doc_ID d \<in> stored s' \<or> doc_ID d \<in> ie_ID ` set (rep_Errors rep)))"
proof -
  have "accounted [] \<lparr>rep_Batches = 0, rep_Indexed = 0, rep_Failed = 0, rep_Errors = []\<rparr> (stored s)" by (simp add: accounted_def)
  from Sync_loop_covers [OF assms this] show ?thesis unfolding Sync_def accounted_def by simp
qed

subsection \<open>An index in memory\<close>

text \<open>Ids stored and batches to come. A request is read back as the ids of its action lines; the id \<open>bad\<close> is refused.\<close>

type_synonym mem_index = "string list \<times> Doc list list"

fun odd_lines :: "'a list \<Rightarrow> 'a list" where
  "odd_lines (x # y # xs) = x # odd_lines xs"
| "odd_lines xs = []"

definition bulk_ids :: "string \<Rightarrow> string list" where
  "bulk_ids payload = map (\<lambda>l. case PathUnescape l of Some i \<Rightarrow> i | None \<Rightarrow> l) (odd_lines (split_on (CHR 0x0A) payload))"

definition mem_item :: "string \<Rightarrow> json" where
  "mem_item i =
     JObj [(''index'', JObj ((''_id'', JStr i) # (if i = ''bad'' then [(''error'', JObj [(''type'', JStr ''mapping''), (''reason'', JStr ''no'')])] else [])))]"

definition mem_bulk :: "mem_index es_lib" where
  "mem_bulk = \<lparr>es_NewRequest = (\<lambda>m p. None),
     es_Perform = (\<lambda>m p b (st, bs). case b of
        Some (_, payload) \<Rightarrow> ((filter (\<lambda>i. i \<noteq> ''bad'') (bulk_ids payload) @ st, bs), Inr (200, Inr payload))
      | None \<Rightarrow> ((st, bs), Inr (200, Inr []))),
     es_Marshal = (\<lambda>j. Inr (PathEscape (str_at ''index'' ''_id'' j))),
     es_Unmarshal = (\<lambda>t. Inr (JObj [(''items'', JArr (map mem_item (bulk_ids t)))]))\<rparr>"

definition mem_next :: "mem_index doc_source" where
  "mem_next s = (case snd s of [] \<Rightarrow> (s, Inr ([], True)) | b # bs \<Rightarrow> ((fst s, bs), Inr (b, False)))"

definition sync_env :: "mem_index retry_env" where
  "sync_env = \<lparr>ctxErr = (\<lambda>s. None), timedWait = (\<lambda>d s. (s, False)), Int63n = (\<lambda>s n. 0), convOOR = (\<lambda>x. 0)\<rparr>"

lemma PathEscape_no_newline: "CHR 0x0A \<notin> set (PathEscape s)"
  by (auto dest!: PathEscape_chars simp: unreserved_def)

lemma mem_bulk_body:
  "list_all (\<lambda>op. bo_action op = ''index'') ops \<Longrightarrow> \<exists>t. bulk_body mem_bulk index ops = Inr t \<and> bulk_ids t = map bo_id ops"
proof (induction ops)
  case Nil
  show ?case by (simp add: bulk_ids_def)
next
  case (Cons op ops)
  then obtain t where t: "bulk_body mem_bulk index ops = Inr t" "bulk_ids t = map bo_id ops" by auto
  have "bulk_body mem_bulk index (op # ops) = Inr (PathEscape (bo_id op) @ CHR 0x0A # PathEscape (str_at ''index'' ''_id'' (bo_doc op)) @ CHR 0x0A # t)"
    using Cons.prems t by (simp add: bulk_source_def bulk_line_def bulk_meta_def mem_bulk_def str_at_def jget_def)
  then show ?case using t(2) by (simp add: bulk_ids_def split_on_append PathEscape_no_newline)
qed

lemma mem_bulk_ok: "bulk_ok mem_bulk index (\<lambda>s. set (fst s)) snd"
proof -
  have "list_all2 (item_for (set (filter (\<lambda>i. i \<noteq> ''bad'') (map bo_id ops) @ st))) ops (map mem_item (map bo_id ops))" for ops st
    unfolding list_all2_conv_all_nth by (auto simp: item_for_def mem_item_def)
  then show ?thesis
    unfolding bulk_ok_def using mem_bulk_body [of _ index] by (fastforce simp: mem_bulk_def jget_def split: prod.splits)
qed

definition demo_sync :: "mem_index SyncConfig" where
  "demo_sync = \<lparr>sc_Index = ''items'', sc_MaxAttempts = 0, sc_OnBatch = None\<rparr>"

definition demo_batches :: "Doc list list" where
  "demo_batches = [[\<lparr>doc_ID = ''a'', doc_Body = JNull\<rparr>, \<lparr>doc_ID = ''bad'', doc_Body = JNull\<rparr>], [\<lparr>doc_ID = ''b'', doc_Body = JInt 1\<rparr>]]"

theorem sync_accounts_for_all_witness:
  "\<exists>s' rep. Sync mem_bulk sync_env mem_next rev demo_sync ([], demo_batches) = Some (s', rep, RetErr None) \<and> rep_Indexed rep = 2 \<and> snd s' = [] \<and>
     (\<forall>d \<in> set (concat demo_batches). doc_ID d \<in> set (fst s') \<or> doc_ID d \<in> ie_ID ` set (rep_Errors rep))"
proof -
  have ids: "\<forall>d \<in> set (concat demo_batches). doc_ID d \<noteq> []" by (simp add: demo_batches_def)
  have so: "source_ok mem_next (\<lambda>s. set (fst s)) snd" by (auto simp: source_ok_def mem_next_def split: list.splits)
  have as: "aside_ok sync_env demo_sync (\<lambda>s. set (fst s)) snd" by (simp add: aside_ok_def sync_env_def demo_sync_def)
  have "map_option (\<lambda>(s, rep, r). (r, rep_Indexed rep)) (Sync mem_bulk sync_env mem_next rev demo_sync ([], demo_batches)) = Some (RetErr None, 2)"
    by code_simp
  then show ?thesis
    using sync_accounts_for_all [OF mem_bulk_ok so as, of rev "([], demo_batches)"] ids by auto
qed

subsection \<open>The worker\<close>

text \<open>The delay stays within the jitter of the interval, and the worker ends by cancellation only: no error and no panic of its job ends it.\<close>

lemma nextDelay_range:
  assumes "0 < wk_Interval w" and "0 \<le> wk_Jitter w" and "wk_Jitter w < 2 ^ 62" and "wk_Interval w + wk_Jitter w < 2 ^ 63"
    and "\<And>n. 0 < n \<Longrightarrow> 0 \<le> rnd n \<and> rnd n < n"
  shows "\<exists>d. nextDelay rnd w = Some d \<and> max 0 (wk_Interval w - wk_Jitter w) \<le> d \<and> d \<le> wk_Interval w + wk_Jitter w"
proof (cases "wk_Jitter w = 0")
  case False
  define n where "n = 2 * wk_Jitter w + 1"
  have n: "int64 n = n" "0 < n" using assms(2,3) by (auto simp: n_def in_int64_def intro!: int64_id)
  have r: "0 \<le> rnd n" "rnd n < n" using assms(5) [OF n(2)] by auto
  have j: "int64 (rnd n - wk_Jitter w) = rnd n - wk_Jitter w" using r assms(2,3) by (intro int64_id) (auto simp: n_def in_int64_def)
  have d: "int64 (wk_Interval w + (rnd n - wk_Jitter w)) = wk_Interval w + (rnd n - wk_Jitter w)" using r assms(1-4) by (intro int64_id) (auto simp: n_def in_int64_def)
  have "nextDelay rnd w = Some (if wk_Interval w + (rnd n - wk_Jitter w) < 0 then 0 else wk_Interval w + (rnd n - wk_Jitter w))"
    using False assms(2) n by (simp add: nextDelay_def Let_def n_def [symmetric] j d)
  then show ?thesis using r assms(1,2) by (auto simp: n_def)
qed (use assms in \<open>simp add: nextDelay_def\<close>)

lemma worker_ends_by_cancellation:
  assumes "Start_loop R w job s = Some (s', RetErr e)"
  shows "e = ctxErr R s'"
proof -
  have "Start_loop R w job s = Some x \<Longrightarrow> snd x = RetPanic \<or> snd x = RetErr (ctxErr R (fst x))" for s x
  proof (induction rule: Start_loop.raw_induct [rotated 1, consumes 1])
    case (1 Start_loop R w job s x)
    then show ?case by (auto split: option.splits prod.splits if_splits)
  qed
  from this [OF assms] show ?thesis by simp
qed

text \<open>Finding: an answer with an error status counts as retryable too, although a response was received.\<close>

lemma bulk_status_retried:
  assumes "es_NewRequest E ''POST'' ''/_bulk'' = None" and "es_Perform E ''POST'' ''/_bulk'' (Some (''application/x-ndjson'', payload)) s = (s', Inr (400, Inr resp))"
  shows "\<exists>e. bulk_attempt E payload (s, raw) = ((s', raw), Some e) \<and> defaultRetryable (Some e)"
  using assms by (simp add: bulk_attempt_def es_DoNDJSON_def defaultRetryable_def errors_Is_def)

end
