(* ===== verification/EsMapping.thy ===== *)
theory EsMapping
  imports EsIndices
begin

text \<open>
  Package \<^verbatim>\<open>database/elasticsearch/mapping\<close>, the mapping builder (\<^verbatim>\<open>template.go\<close>, \<^verbatim>\<open>analyzer.go\<close>): index bodies, automatic mapping of a struct type and the
  check of a body. Struct types that refer to themselves, on which \<^verbatim>\<open>AutoMap\<close> recurses without end, cannot be expressed, and nothing is said of
  them. Shown: for the types that can be, an automatic mapping is well formed at every depth and passes the check, and has a property for exactly the fields that the
  JSON encoding of the struct has, if no struct is embedded.
\<close>

subsection \<open>The builder\<close>

record MappingBuilder =
  mb_properties :: "(string \<times> json) list"
  mb_dynamic :: string
  mb_dynamicTemplates :: "json list"
  mb_runtime :: "(string \<times> json) list"
  mb_analyzers :: "(string \<times> json) list"
  mb_tokenizers :: "(string \<times> json) list"
  mb_filters :: "(string \<times> json) list"
  mb_normalizer :: "(string \<times> json) list"
  mb_settings :: "(string \<times> json) list"

definition NewMapping :: MappingBuilder where
  "NewMapping = \<lparr>mb_properties = [], mb_dynamic = [], mb_dynamicTemplates = [], mb_runtime = [], mb_analyzers = [], mb_tokenizers = [], mb_filters = [],
     mb_normalizer = [], mb_settings = []\<rparr>"

definition mb_Dynamic :: "string \<Rightarrow> MappingBuilder \<Rightarrow> MappingBuilder" where "mb_Dynamic mode m = m\<lparr>mb_dynamic := mode\<rparr>"

definition mb_Field :: "string \<Rightarrow> json \<Rightarrow> MappingBuilder \<Rightarrow> MappingBuilder" where
  "mb_Field nm property m = m\<lparr>mb_properties := map_put nm property (mb_properties m)\<rparr>"

definition typed :: "string \<Rightarrow> json" where "typed t = JObj [(''type'', JStr t)]"

definition mb_Text :: "string \<Rightarrow> string \<Rightarrow> MappingBuilder \<Rightarrow> MappingBuilder" where
  "mb_Text nm analyzer = mb_Field nm (jput_if (analyzer \<noteq> []) ''analyzer'' (JStr analyzer) (typed ''text''))"

definition mb_TextWithKeyword :: "string \<Rightarrow> MappingBuilder \<Rightarrow> MappingBuilder" where
  "mb_TextWithKeyword nm =
     mb_Field nm (JObj [(''type'', JStr ''text''), (''fields'', JObj [(''keyword'', JObj [(''type'', JStr ''keyword''), (''ignore_above'', JInt 256)])])])"

definition mb_Keyword :: "string \<Rightarrow> MappingBuilder \<Rightarrow> MappingBuilder" where "mb_Keyword nm = mb_Field nm (typed ''keyword'')"
definition mb_Date :: "string \<Rightarrow> MappingBuilder \<Rightarrow> MappingBuilder" where "mb_Date nm = mb_Field nm (typed ''date'')"
definition mb_Long :: "string \<Rightarrow> MappingBuilder \<Rightarrow> MappingBuilder" where "mb_Long nm = mb_Field nm (typed ''long'')"
definition mb_Double :: "string \<Rightarrow> MappingBuilder \<Rightarrow> MappingBuilder" where "mb_Double nm = mb_Field nm (typed ''double'')"
definition mb_Boolean :: "string \<Rightarrow> MappingBuilder \<Rightarrow> MappingBuilder" where "mb_Boolean nm = mb_Field nm (typed ''boolean'')"
definition mb_GeoPoint :: "string \<Rightarrow> MappingBuilder \<Rightarrow> MappingBuilder" where "mb_GeoPoint nm = mb_Field nm (typed ''geo_point'')"
definition mb_GeoShape :: "string \<Rightarrow> MappingBuilder \<Rightarrow> MappingBuilder" where "mb_GeoShape nm = mb_Field nm (typed ''geo_shape'')"

definition mb_DenseVector :: "string \<Rightarrow> int \<Rightarrow> string \<Rightarrow> MappingBuilder \<Rightarrow> MappingBuilder" where
  "mb_DenseVector nm dims similarity =
     mb_Field nm (JObj [(''type'', JStr ''dense_vector''), (''dims'', JInt dims), (''index'', JBool True),
       (''similarity'', JStr (if similarity = [] then ''cosine'' else similarity))])"

definition mb_Completion :: "string \<Rightarrow> MappingBuilder \<Rightarrow> MappingBuilder" where "mb_Completion nm = mb_Field nm (typed ''completion'')"

definition mb_Object :: "string \<Rightarrow> MappingBuilder \<Rightarrow> MappingBuilder \<Rightarrow> MappingBuilder" where
  "mb_Object nm sub = mb_Field nm (JObj [(''type'', JStr ''object''), (''properties'', JObj (mb_properties sub))])"

definition mb_NestedField :: "string \<Rightarrow> MappingBuilder \<Rightarrow> MappingBuilder \<Rightarrow> MappingBuilder" where
  "mb_NestedField nm sub = mb_Field nm (JObj [(''type'', JStr ''nested''), (''properties'', JObj (mb_properties sub))])"

definition mb_Join :: "string \<Rightarrow> (string \<times> string list) list \<Rightarrow> MappingBuilder \<Rightarrow> MappingBuilder" where
  "mb_Join nm relations = mb_Field nm (JObj [(''type'', JStr ''join''), (''relations'', JObj (map (\<lambda>(p, cs). (p, strs cs)) relations))])"

definition mb_RuntimeField :: "string \<Rightarrow> string \<Rightarrow> string \<Rightarrow> MappingBuilder \<Rightarrow> MappingBuilder" where
  "mb_RuntimeField nm kind script m =
     m\<lparr>mb_runtime := map_put nm (JObj [(''type'', JStr kind), (''script'', JObj [(''source'', JStr script)])]) (mb_runtime m)\<rparr>"

definition mb_DynamicTemplate :: "string \<Rightarrow> json \<Rightarrow> MappingBuilder \<Rightarrow> MappingBuilder" where
  "mb_DynamicTemplate nm template m = m\<lparr>mb_dynamicTemplates := mb_dynamicTemplates m @ [JObj [(nm, template)]]\<rparr>"

definition mb_CustomAnalyzer :: "string \<Rightarrow> string \<Rightarrow> string list \<Rightarrow> MappingBuilder \<Rightarrow> MappingBuilder" where
  "mb_CustomAnalyzer nm tokenizer filters m =
     m\<lparr>mb_analyzers := map_put nm (JObj [(''type'', JStr ''custom''), (''tokenizer'', JStr tokenizer), (''filter'', strs filters)]) (mb_analyzers m)\<rparr>"

definition mb_Tokenizer :: "string \<Rightarrow> json \<Rightarrow> MappingBuilder \<Rightarrow> MappingBuilder" where
  "mb_Tokenizer nm def m = m\<lparr>mb_tokenizers := map_put nm def (mb_tokenizers m)\<rparr>"

definition mb_TokenFilter :: "string \<Rightarrow> json \<Rightarrow> MappingBuilder \<Rightarrow> MappingBuilder" where
  "mb_TokenFilter nm def m = m\<lparr>mb_filters := map_put nm def (mb_filters m)\<rparr>"

definition mb_Synonyms :: "string \<Rightarrow> string list \<Rightarrow> MappingBuilder \<Rightarrow> MappingBuilder" where
  "mb_Synonyms nm entries = mb_TokenFilter nm (JObj [(''type'', JStr ''synonym_graph''), (''synonyms'', strs entries)])"

definition mb_Normalizer :: "string \<Rightarrow> string list \<Rightarrow> MappingBuilder \<Rightarrow> MappingBuilder" where
  "mb_Normalizer nm filters m = m\<lparr>mb_normalizer := map_put nm (JObj [(''type'', JStr ''custom''), (''filter'', strs filters)]) (mb_normalizer m)\<rparr>"

definition mb_Setting :: "string \<Rightarrow> json \<Rightarrow> MappingBuilder \<Rightarrow> MappingBuilder" where
  "mb_Setting key v m = m\<lparr>mb_settings := map_put key v (mb_settings m)\<rparr>"

definition mb_Shards :: "int \<Rightarrow> int \<Rightarrow> MappingBuilder \<Rightarrow> MappingBuilder" where
  "mb_Shards primaries replicas m = mb_Setting ''number_of_replicas'' (JInt replicas) (mb_Setting ''number_of_shards'' (JInt primaries) m)"

text \<open>\<^verbatim>\<open>len(m) > 0\<close> before a part is rendered.\<close>

definition part_of :: "string \<Rightarrow> (string \<times> json) list \<Rightarrow> json \<Rightarrow> json" where
  "part_of k fs = jput_if (fs \<noteq> []) k (JObj fs)"

definition mb_Build :: "MappingBuilder \<Rightarrow> json" where
  "mb_Build m =
     (let mappings = part_of ''runtime'' (mb_runtime m)
            (jput_if (mb_dynamicTemplates m \<noteq> []) ''dynamic_templates'' (JArr (mb_dynamicTemplates m))
              (jput_if (mb_dynamic m \<noteq> []) ''dynamic'' (JStr (mb_dynamic m)) (JObj [(''properties'', JObj (mb_properties m))])));
          analysis = part_of ''normalizer'' (mb_normalizer m) (part_of ''filter'' (mb_filters m)
            (part_of ''tokenizer'' (mb_tokenizers m) (part_of ''analyzer'' (mb_analyzers m) (JObj []))));
          settings = part_of ''analysis'' (jfields analysis) (JObj (mb_settings m))
      in part_of ''settings'' (jfields settings) (JObj [(''mappings'', mappings)]))"

subsection \<open>Automatic mapping\<close>

text \<open>
  Go types as far as \<^verbatim>\<open>reflect\<close> is asked about them. A struct type is unfolded, so recursive struct types, on which the source does not end, are not
  among them. \<open>TOther\<close> are interfaces, functions, channels, complex numbers and \<^verbatim>\<open>uintptr\<close>. The fields of a field: name, whether exported and
  embedded, the \<^verbatim>\<open>json\<close> and \<^verbatim>\<open>es\<close> tags, type.
\<close>

datatype go_type = TTime | TString | TBool | TInteger | TFloat | TMap | TOther | TPointer go_type | TSlice go_type | TStruct "go_field list"
  and go_field = GoField (gf_Name: string) (gf_Exported: bool) (gf_Anonymous: bool) (gf_json: string) (gf_es: string) (gf_Type: go_type)

definition jsonFieldName :: "go_field \<Rightarrow> string" where
  "jsonFieldName f =
     (if gf_json f = [] then gf_Name f
      else (let nm = hd (split_on (CHR '','') (gf_json f)) in if nm = ''-'' then [] else if nm = [] then gf_Name f else nm))"

fun strip_pointers :: "go_type \<Rightarrow> go_type" where
  "strip_pointers (TPointer t) = strip_pointers t"
| "strip_pointers t = t"

lemma size_strip_pointers: "size (strip_pointers t) \<le> size t"
  by (induction t rule: strip_pointers.induct) auto

lemma strip_pointers_size [termination_simp]: "strip_pointers t = e \<Longrightarrow> size e < Suc (size t)"
  using size_strip_pointers [of t] by auto

lemma strip_pointers_struct [termination_simp]: "strip_pointers t = TStruct fs \<Longrightarrow> size_list size fs < Suc (size t)"
  using size_strip_pointers [of t] by auto

lemma size_gf_Type [termination_simp]: "size (gf_Type f) < Suc (size f + n)"
  by (cases f) auto

function autoMapFields :: "go_field list \<Rightarrow> MappingBuilder \<Rightarrow> MappingBuilder"
  and mapFieldType :: "string \<Rightarrow> go_type \<Rightarrow> MappingBuilder \<Rightarrow> MappingBuilder" where
  "autoMapFields [] m = m"
| "autoMapFields (f # fs) m =
     autoMapFields fs
       (if \<not> gf_Exported f then m
        else if jsonFieldName f = [] then m
        else if gf_es f \<noteq> [] then (if gf_es f = ''-'' then m else mb_Field (jsonFieldName f) (typed (gf_es f)) m)
        else mapFieldType (jsonFieldName f) (gf_Type f) m)"
| "mapFieldType nm (TPointer t) m = mapFieldType nm t m"
| "mapFieldType nm TTime m = mb_Date nm m"
| "mapFieldType nm TString m = mb_TextWithKeyword nm m"
| "mapFieldType nm TBool m = mb_Boolean nm m"
| "mapFieldType nm TInteger m = mb_Long nm m"
| "mapFieldType nm TFloat m = mb_Double nm m"
| "mapFieldType nm (TSlice t) m =
     (case strip_pointers t of
        TStruct fs \<Rightarrow> mb_NestedField nm (autoMapFields fs NewMapping) m
      | e \<Rightarrow> mapFieldType nm e m)"
| "mapFieldType nm (TStruct fs) m = mb_Object nm (autoMapFields fs NewMapping) m"
| "mapFieldType nm TMap m = mb_Field nm (JObj [(''type'', JStr ''object''), (''dynamic'', JBool True)]) m"
| "mapFieldType nm TOther m = m"
  by pat_completeness auto
termination
  by (relation "measure (case_sum (\<lambda>(fs, m). size_list size fs) (\<lambda>(nm, t, m). size t))")
    (auto simp: termination_simp dest!: strip_pointers_size strip_pointers_struct)

definition autoMapStruct :: "go_type \<Rightarrow> MappingBuilder \<Rightarrow> MappingBuilder" where
  "autoMapStruct t m = (case t of TStruct fs \<Rightarrow> autoMapFields fs m | _ \<Rightarrow> m)"

definition AutoMap :: "go_type \<Rightarrow> MappingBuilder" where
  "AutoMap t = autoMapStruct t NewMapping"

subsection \<open>The check of a body\<close>

fun check_props :: "(string \<times> json) list \<Rightarrow> goerr option" where
  "check_props [] = None"
| "check_props ((nm, p) # ps) =
     (case p of
        JObj fs \<Rightarrow>
          if map_of fs ''type'' = None \<and> map_of fs ''properties'' = None
          then Some (Opaque (''elastic mapping: property '' @ go_quote nm @ '' has neither type nor properties''))
          else check_props ps
      | _ \<Rightarrow> Some (Opaque (''elastic mapping: property '' @ go_quote nm @ '' is not an object'')))"

definition ValidateMapping :: "json \<Rightarrow> goerr option" where
  "ValidateMapping body =
     check_props (case jget ''mappings'' body of Some m \<Rightarrow> (case jget ''properties'' m of Some p \<Rightarrow> jfields p | None \<Rightarrow> []) | None \<Rightarrow> [])"

subsection \<open>Automatic mappings are well formed\<close>

text \<open>A property has a type, and if it has properties it is an object or nested and these are properties in turn, one for each name.\<close>

inductive good_prop :: "json \<Rightarrow> bool" where
  leaf: "map_of fs ''type'' = Some (JStr t) \<Longrightarrow> t \<noteq> [] \<Longrightarrow> map_of fs ''properties'' = None \<Longrightarrow> good_prop (JObj fs)"
| inner: "map_of fs ''type'' = Some (JStr t) \<Longrightarrow> t = ''object'' \<or> t = ''nested'' \<Longrightarrow> map_of fs ''properties'' = Some (JObj ps) \<Longrightarrow>
     gomap ps \<Longrightarrow> \<forall>p \<in> snd ` set ps. good_prop p \<Longrightarrow> good_prop (JObj fs)"

inductive_cases good_propE: "good_prop p"

definition good_props :: "(string \<times> json) list \<Rightarrow> bool" where
  "good_props ps \<longleftrightarrow> gomap ps \<and> (\<forall>p \<in> snd ` set ps. good_prop p)"

lemma set_map_put: "set (map_put k v m) \<subseteq> insert (k, v) (set m)"
  by (induction k v m rule: map_put.induct) auto

lemma good_props_Field: "good_props (mb_properties m) \<Longrightarrow> good_prop p \<Longrightarrow> good_props (mb_properties (mb_Field nm p m))"
  using set_map_put [of nm p "mb_properties m"] by (auto simp: good_props_def mb_Field_def)

lemma good_props_sub:
  assumes "good_props (mb_properties m)" and "good_props (mb_properties sub)"
  shows "good_props (mb_properties (mb_Object nm sub m))" and "good_props (mb_properties (mb_NestedField nm sub m))"
proof -
  have "good_prop (JObj [(''type'', JStr t), (''properties'', JObj (mb_properties sub))])" if "t = ''object'' \<or> t = ''nested''" for t
    using assms(2) that unfolding good_props_def by (intro good_prop.inner) auto
  then show "good_props (mb_properties (mb_Object nm sub m))" "good_props (mb_properties (mb_NestedField nm sub m))"
    unfolding mb_Object_def mb_NestedField_def using good_props_Field [OF assms(1)] by blast+
qed

lemma good_typed: "t \<noteq> [] \<Longrightarrow> good_prop (typed t)"
  by (auto simp: typed_def intro: good_prop.leaf)

lemmas good_scalars = mb_Date_def mb_TextWithKeyword_def mb_Boolean_def mb_Long_def mb_Double_def

lemma good_props_New [simp]: "good_props (mb_properties NewMapping)"
  by (simp add: NewMapping_def good_props_def)

lemma autoMap_good:
  "good_props (mb_properties m) \<Longrightarrow> good_props (mb_properties (autoMapFields fs m))"
  "good_props (mb_properties m) \<Longrightarrow> good_props (mb_properties (mapFieldType nm t m))"
proof (induction fs m and nm t m rule: autoMapFields_mapFieldType.induct)
  case (2 f fs m)
  show ?case
    unfolding autoMapFields.simps by (rule "2.IH"(2)) (use "2.IH"(1) "2.prems" in \<open>auto intro: good_props_Field good_typed\<close>)
next
  case (9 nm t m)
  then show ?case by (auto intro: good_props_sub split: go_type.splits)
qed (auto simp: good_scalars intro!: good_props_Field good_typed good_prop.leaf good_props_sub)

lemma check_good: "good_props ps \<Longrightarrow> check_props ps = None"
proof (induction ps)
  case (Cons x ps)
  obtain nm p where x: "x = (nm, p)" by (rule prod.exhaust)
  with Cons.prems have "good_prop p" "good_props ps" by (auto simp: good_props_def gomap_def)
  then show ?case using Cons.IH x by (auto elim!: good_propE)
qed simp

lemma validate_build: "ValidateMapping (mb_Build m) = check_props (mb_properties m)"
proof -
  have one: "jget k (JObj [(k', v)]) = (if k = k' then Some v else None)" for k k' v by (simp add: jget_def)
  show ?thesis by (simp add: ValidateMapping_def mb_Build_def Let_def part_of_def one)
qed

text \<open>
  The mapping derived from a struct type is well formed at every depth: each property has one entry and a type, and only objects and
  nested fields have properties of their own. In particular its body passes \<^verbatim>\<open>ValidateMapping\<close>, also after the dynamic mode, runtime fields, templates,
  analysis and settings were added to the builder.
\<close>

theorem automap_well_formed:
  "good_props (mb_properties (AutoMap t)) \<and>
   ValidateMapping (mb_Build ((AutoMap t)\<lparr>mb_dynamic := d, mb_dynamicTemplates := dts, mb_runtime := rt, mb_analyzers := an, mb_tokenizers := tk,
     mb_filters := fi, mb_normalizer := no, mb_settings := se\<rparr>)) = None"
proof -
  have "good_props (mb_properties (AutoMap t))"
    using autoMap_good(1) [of NewMapping] by (auto simp: AutoMap_def autoMapStruct_def split: go_type.splits)
  then show ?thesis by (simp add: validate_build check_good)
qed

subsection \<open>Mapped names and encoded names\<close>

text \<open>The key under which \<^verbatim>\<open>encoding/json\<close> writes a field that is not an embedded struct: none for the tag \<^verbatim>\<open>-\<close>, the name of the tag, or the field's own.\<close>

definition json_key :: "go_field \<Rightarrow> string option" where
  "json_key f =
     (if \<not> gf_Exported f \<or> gf_json f = ''-'' then None
      else (let nm = hd (split_on (CHR '','') (gf_json f)) in Some (if nm = [] then gf_Name f else nm)))"

text \<open>Types that get a property: all but those whose element, below pointers and slices, is none of the supported kinds.\<close>

fun mappable :: "go_type \<Rightarrow> bool" where
  "mappable (TPointer t) = mappable t"
| "mappable (TSlice t) = mappable t"
| "mappable TOther = False"
| "mappable t = True"

lemma mappable_strip: "mappable (strip_pointers t) = mappable t"
  by (induction t rule: strip_pointers.induct) auto

lemma mapFieldType_names:
  "set (map fst (mb_properties (mapFieldType nm t m))) = (if mappable t then insert nm (set (map fst (mb_properties m))) else set (map fst (mb_properties m)))"
proof (induction t arbitrary: m rule: measure_induct_rule [where f = size])
  case (less t)
  have put: "set (map fst (mb_properties (mb_Field nm p m))) = insert nm (set (map fst (mb_properties m)))" for p
    unfolding mb_Field_def using keys_map_put [of nm p "mb_properties m"] by simp
  show ?case
  proof (cases t)
    case (TPointer u)
    with less [of u m] show ?thesis by simp
  next
    case (TSlice u)
    have s: "size (strip_pointers u) < size t" using size_strip_pointers [of u] TSlice by simp
    show ?thesis using less [OF s, of m] mappable_strip [of u] TSlice put by (cases "strip_pointers u") (simp_all add: mb_NestedField_def)
  qed (use put in \<open>simp_all add: good_scalars mb_Object_def\<close>)
qed

definition has_property :: "go_field \<Rightarrow> bool" where
  "has_property f \<longleftrightarrow> gf_Exported f \<and> jsonFieldName f \<noteq> [] \<and> gf_es f \<noteq> ''-'' \<and> (gf_es f \<noteq> [] \<or> mappable (gf_Type f))"

lemma autoMapFields_names:
  "set (map fst (mb_properties (autoMapFields fs m))) = set (map fst (mb_properties m)) \<union> {jsonFieldName f | f. f \<in> set fs \<and> has_property f}"
proof (induction fs arbitrary: m)
  case (Cons f fs)
  have put: "set (map fst (mb_properties (mb_Field k p m))) = insert k (set (map fst (mb_properties m)))" for k p
    unfolding mb_Field_def using keys_map_put [of k p "mb_properties m"] by simp
  show ?case
    using mapFieldType_names [of "jsonFieldName f" "gf_Type f" m] put [of "jsonFieldName f" "typed (gf_es f)"]
    by (auto simp: Cons.IH has_property_def simp del: set_map)
qed simp

text \<open>
  A struct without embedded structs gets a property for exactly the keys its JSON encoding can have, less the fields the \<^verbatim>\<open>es\<close> tag excludes or that
  have no mapping.
\<close>

theorem automap_matches_encoding:
  assumes "\<forall>f \<in> set fs. gf_json f = ''-'' \<or> hd (split_on (CHR '','') (gf_json f)) \<noteq> ''-''" and "\<forall>f \<in> set fs. gf_Name f \<noteq> []" and "\<forall>f \<in> set fs. \<not> gf_Anonymous f"
  shows "set (map fst (mb_properties (AutoMap (TStruct fs)))) =
    {k. \<exists>f \<in> set fs. json_key f = Some k \<and> gf_es f \<noteq> ''-'' \<and> (gf_es f \<noteq> [] \<or> mappable (gf_Type f))}"
proof -
  have K: "has_property f \<and> jsonFieldName f = k \<longleftrightarrow> json_key f = Some k \<and> gf_es f \<noteq> ''-'' \<and> (gf_es f \<noteq> [] \<or> mappable (gf_Type f))" if "f \<in> set fs" for f k
    using assms that by (auto simp: has_property_def jsonFieldName_def json_key_def Let_def)
  have "{jsonFieldName f | f. f \<in> set fs \<and> has_property f} =
      {k. \<exists>f \<in> set fs. json_key f = Some k \<and> gf_es f \<noteq> ''-'' \<and> (gf_es f \<noteq> [] \<or> mappable (gf_Type f))}"
    by (rule set_eqI, unfold mem_Collect_eq) (metis K)
  then show ?thesis using autoMapFields_names [of fs NewMapping] by (simp add: AutoMap_def autoMapStruct_def NewMapping_def)
qed

theorem automap_matches_encoding_witness:
  "set (map fst (mb_properties (AutoMap (TStruct [GoField ''ID'' True False ''id,omitempty'' [] TString, GoField ''Loc'' True False [] ''geo_point'' TOther,
     GoField ''Raw'' True False ''-'' [] TString])))) = {''id'', ''Loc''}"
  by (subst automap_matches_encoding) (auto simp: json_key_def Let_def)

text \<open>Finding: an embedded struct is encoded as its promoted fields, but mapped as an object under its type name.\<close>

lemma automap_embedded_not_promoted:
  "mb_properties (AutoMap (TStruct [GoField ''Base'' True True [] [] (TStruct [GoField ''ID'' True False ''id'' [] TString])])) =
     [(''Base'', JObj [(''type'', JStr ''object''), (''properties'', JObj (mb_properties (mb_TextWithKeyword ''id'' NewMapping)))])]"
  by (simp add: AutoMap_def autoMapStruct_def NewMapping_def jsonFieldName_def mb_Object_def mb_Field_def)

text \<open>Finding: the tag \<^verbatim>\<open>"-,"\<close> names a field \<^verbatim>\<open>-\<close>, which is encoded but not mapped.\<close>

lemma automap_dash_comma:
  "json_key (GoField nm True False ''-,'' es t) = Some ''-'' \<and> jsonFieldName (GoField nm True False ''-,'' es t) = []"
  by (simp add: json_key_def jsonFieldName_def)

end
