(* ===== verification/ObjectStore.thy ===== *)
theory ObjectStore
  imports Json Encoding
begin

text \<open>
  Package \<^verbatim>\<open>storage/s3\<close> (\<^verbatim>\<open>object.go\<close>, \<^verbatim>\<open>list.go\<close>, \<^verbatim>\<open>multipart.go\<close>, \<^verbatim>\<open>presign.go\<close>, \<^verbatim>\<open>health.go\<close>, the endpoint of \<^verbatim>\<open>client.go\<close>) and \<^verbatim>\<open>storage/s3/sts\<close>. The AWS SDK is the
  record \<open>s3_api\<close>; an input field left out is \<open>None\<close>, an output pointer is read as its value or zero. Shown: the listing of uploads ends and is
  complete, a range request reads exactly the bytes asked for, and a prefix policy grants exactly what lies under the prefix.
\<close>

subsection \<open>The client\<close>

record ObjectInfo =
  oi_Key :: string
  oi_Size :: int
  oi_ETag :: string
  oi_ContentType :: string
  oi_LastModified :: int

record CompletedPart =
  cp_PartNumber :: int
  cp_ETag :: string

record MultipartUpload =
  mu_Key :: string
  mu_UploadID :: string
  mu_Initiated :: int

record put_input =
  pi_Bucket :: string
  pi_Key :: string
  pi_Body :: string
  pi_ContentType :: "string option"
  pi_ContentLength :: "int option"

text \<open>What \<^verbatim>\<open>GetObject\<close> and \<^verbatim>\<open>HeadObject\<close> report of an object.\<close>

record object_meta =
  om_ETag :: string
  om_ContentType :: string
  om_ContentLength :: int
  om_LastModified :: int

record upload_page =
  up_Uploads :: "MultipartUpload list"
  up_IsTruncated :: bool
  up_NextKeyMarker :: "string option"
  up_NextUploadIdMarker :: "string option"

record 's s3_api =
  api_Put :: "put_input \<Rightarrow> 's \<Rightarrow> 's \<times> goerr option"
  api_Get :: "string \<Rightarrow> string \<Rightarrow> string option \<Rightarrow> 's \<Rightarrow> 's \<times> (goerr + string \<times> object_meta)"
  api_Head :: "string \<Rightarrow> string \<Rightarrow> 's \<Rightarrow> 's \<times> (goerr + object_meta)"
  api_HeadBucket :: "string \<Rightarrow> 's \<Rightarrow> 's \<times> goerr option"
  api_Delete :: "string \<Rightarrow> string \<Rightarrow> 's \<Rightarrow> 's \<times> goerr option"
  api_Copy :: "string \<Rightarrow> string \<Rightarrow> string \<Rightarrow> 's \<Rightarrow> 's \<times> goerr option"
  api_CreateMultipart :: "string \<Rightarrow> string \<Rightarrow> string option \<Rightarrow> 's \<Rightarrow> 's \<times> (goerr + string)"
  api_UploadPart :: "string \<Rightarrow> string \<Rightarrow> string \<Rightarrow> int \<Rightarrow> string \<Rightarrow> int option \<Rightarrow> 's \<Rightarrow> 's \<times> (goerr + string)"
  api_CompleteMultipart :: "string \<Rightarrow> string \<Rightarrow> string \<Rightarrow> (int \<times> string) list \<Rightarrow> 's \<Rightarrow> 's \<times> goerr option"
  api_AbortMultipart :: "string \<Rightarrow> string \<Rightarrow> string \<Rightarrow> 's \<Rightarrow> 's \<times> goerr option"
  api_ListUploads :: "string \<Rightarrow> string option \<Rightarrow> string option \<Rightarrow> 's \<Rightarrow> 's \<times> (goerr + upload_page)"
  api_ListPages :: "string \<Rightarrow> string option \<Rightarrow> string option \<Rightarrow> 's \<Rightarrow> 's \<times> ((goerr + ObjectInfo list) list)"
  api_NotFound :: "goerr \<Rightarrow> bool"
  api_PresignGet :: "string \<Rightarrow> string \<Rightarrow> int \<Rightarrow> goerr + string"
  api_PresignPut :: "string \<Rightarrow> string \<Rightarrow> string option \<Rightarrow> int \<Rightarrow> goerr + string"
  api_PresignPart :: "string \<Rightarrow> string \<Rightarrow> string \<Rightarrow> int \<Rightarrow> int \<Rightarrow> goerr + string"

definition s3_err :: "string \<Rightarrow> string \<Rightarrow> goerr \<Rightarrow> goerr" where
  "s3_err op key e = Errorf (''s3.'' @ op @ '' '' @ go_quote key @ '': '') e []"

definition s3_done :: "(goerr \<Rightarrow> goerr) \<Rightarrow> 's \<times> goerr option \<Rightarrow> 's \<times> goerr option" where
  "s3_done wrap x = (fst x, map_option wrap (snd x))"

definition s3_result :: "(goerr \<Rightarrow> goerr) \<Rightarrow> ('a \<Rightarrow> 'b) \<Rightarrow> 's \<times> (goerr + 'a) \<Rightarrow> 's \<times> (goerr + 'b)" where
  "s3_result wrap f x = (fst x, map_sum wrap f (snd x))"

definition given :: "bool \<Rightarrow> 'a \<Rightarrow> 'a option" where
  "given c v = (if c then Some v else None)"

definition s3_PutObject :: "'s s3_api \<Rightarrow> string \<Rightarrow> string \<Rightarrow> string \<Rightarrow> string \<Rightarrow> int \<Rightarrow> 's \<Rightarrow> 's \<times> goerr option" where
  "s3_PutObject A bucket key contentType body n s =
     s3_done (s3_err ''PutObject'' key)
       (api_Put A \<lparr>pi_Bucket = bucket, pi_Key = key, pi_Body = body, pi_ContentType = given (contentType \<noteq> []) contentType,
          pi_ContentLength = given (n > 0) n\<rparr> s)"

definition info_of :: "string \<Rightarrow> object_meta \<Rightarrow> ObjectInfo" where
  "info_of key m = \<lparr>oi_Key = key, oi_Size = om_ContentLength m, oi_ETag = om_ETag m, oi_ContentType = om_ContentType m, oi_LastModified = om_LastModified m\<rparr>"

definition s3_getObject :: "'s s3_api \<Rightarrow> string \<Rightarrow> string \<Rightarrow> string \<Rightarrow> 's \<Rightarrow> 's \<times> (goerr + string \<times> ObjectInfo)" where
  "s3_getObject A bucket key rng s =
     s3_result (s3_err ''GetObject'' key) (\<lambda>(body, m). (body, info_of key m)) (api_Get A bucket key (given (rng \<noteq> []) rng) s)"

definition s3_GetObject :: "'s s3_api \<Rightarrow> string \<Rightarrow> string \<Rightarrow> 's \<Rightarrow> 's \<times> (goerr + string \<times> ObjectInfo)" where
  "s3_GetObject A bucket key s = s3_getObject A bucket key [] s"

definition byte_range :: "int \<Rightarrow> int \<Rightarrow> string" where
  "byte_range offset n =
     (if n > 0 then ''bytes='' @ itoa offset @ ''-'' @ itoa (int64 (int64 (offset + n) - 1)) else ''bytes='' @ itoa offset @ ''-'')"

definition s3_GetObjectRange :: "'s s3_api \<Rightarrow> string \<Rightarrow> string \<Rightarrow> int \<Rightarrow> int \<Rightarrow> 's \<Rightarrow> 's \<times> (goerr + string \<times> ObjectInfo)" where
  "s3_GetObjectRange A bucket key offset n s = s3_getObject A bucket key (byte_range offset n) s"

definition s3_HeadObject :: "'s s3_api \<Rightarrow> string \<Rightarrow> string \<Rightarrow> 's \<Rightarrow> 's \<times> (goerr + ObjectInfo)" where
  "s3_HeadObject A bucket key s = s3_result (s3_err ''HeadObject'' key) (info_of key) (api_Head A bucket key s)"

definition s3_ObjectExists :: "'s s3_api \<Rightarrow> string \<Rightarrow> string \<Rightarrow> 's \<Rightarrow> 's \<times> (goerr + bool)" where
  "s3_ObjectExists A bucket key s =
     (case api_Head A bucket key s of
        (s1, Inl e) \<Rightarrow> (s1, if api_NotFound A e then Inr False else Inl (s3_err ''ObjectExists'' key e))
      | (s1, Inr _) \<Rightarrow> (s1, Inr True))"

definition s3_DeleteObject :: "'s s3_api \<Rightarrow> string \<Rightarrow> string \<Rightarrow> 's \<Rightarrow> 's \<times> goerr option" where
  "s3_DeleteObject A bucket key s = s3_done (s3_err ''DeleteObject'' key) (api_Delete A bucket key s)"

definition s3_CopyObject :: "'s s3_api \<Rightarrow> string \<Rightarrow> string \<Rightarrow> string \<Rightarrow> 's \<Rightarrow> 's \<times> goerr option" where
  "s3_CopyObject A bucket srcKey dstKey s =
     s3_done (\<lambda>e. Errorf (''s3.CopyObject '' @ go_quote srcKey @ '' -> '' @ go_quote dstKey @ '': '') e [])
       (api_Copy A bucket (bucket @ ''/'' @ srcKey) dstKey s)"

text \<open>The pages of the SDK's paginator, up to the first that fails.\<close>

fun collect_pages :: "string \<Rightarrow> (goerr + ObjectInfo list) list \<Rightarrow> ObjectInfo list \<Rightarrow> goerr + ObjectInfo list" where
  "collect_pages prefix [] objects = Inr objects"
| "collect_pages prefix (Inl e # ps) objects = Inl (s3_err ''ListObjects'' prefix e)"
| "collect_pages prefix (Inr page # ps) objects =
     collect_pages prefix ps (objects @ map (\<lambda>x. x\<lparr>oi_ContentType := []\<rparr>) page)"

definition s3_ListObjects :: "'s s3_api \<Rightarrow> string \<Rightarrow> string \<Rightarrow> string list \<Rightarrow> 's \<Rightarrow> 's \<times> (goerr + ObjectInfo list)" where
  "s3_ListObjects A bucket prefix delimiters s =
     (let delimiter = (if delimiters = [] then [] else last delimiters)
      in case api_ListPages A bucket (given (prefix \<noteq> []) prefix) (given (delimiter \<noteq> []) delimiter) s of
           (s1, pages) \<Rightarrow> (s1, collect_pages prefix pages []))"

definition InitiateMultipartUpload :: "'s s3_api \<Rightarrow> string \<Rightarrow> string \<Rightarrow> string \<Rightarrow> 's \<Rightarrow> 's \<times> (goerr + string)" where
  "InitiateMultipartUpload A bucket key contentType s =
     s3_result (s3_err ''InitiateMultipartUpload'' key) (\<lambda>i. i) (api_CreateMultipart A bucket key (given (contentType \<noteq> []) contentType) s)"

definition part_err :: "string \<Rightarrow> string \<Rightarrow> int \<Rightarrow> goerr \<Rightarrow> goerr" where
  "part_err op key partNumber e = Errorf (''s3.'' @ op @ '' '' @ go_quote key @ '' part '' @ itoa partNumber @ '': '') e []"

definition s3_UploadPart :: "'s s3_api \<Rightarrow> string \<Rightarrow> string \<Rightarrow> string \<Rightarrow> int \<Rightarrow> string \<Rightarrow> int \<Rightarrow> 's \<Rightarrow> 's \<times> (goerr + string)" where
  "s3_UploadPart A bucket key uploadID partNumber body n s =
     s3_result (part_err ''UploadPart'' key partNumber) (\<lambda>i. i) (api_UploadPart A bucket key uploadID partNumber body (given (n > 0) n) s)"

definition CompleteMultipartUpload :: "'s s3_api \<Rightarrow> string \<Rightarrow> string \<Rightarrow> string \<Rightarrow> CompletedPart list \<Rightarrow> 's \<Rightarrow> 's \<times> goerr option" where
  "CompleteMultipartUpload A bucket key uploadID parts s =
     s3_done (s3_err ''CompleteMultipartUpload'' key) (api_CompleteMultipart A bucket key uploadID (map (\<lambda>p. (cp_PartNumber p, cp_ETag p)) parts) s)"

definition AbortMultipartUpload :: "'s s3_api \<Rightarrow> string \<Rightarrow> string \<Rightarrow> string \<Rightarrow> 's \<Rightarrow> 's \<times> goerr option" where
  "AbortMultipartUpload A bucket key uploadID s = s3_done (s3_err ''AbortMultipartUpload'' key) (api_AbortMultipart A bucket key uploadID s)"

partial_function (option) list_uploads ::
  "'s s3_api \<Rightarrow> string \<Rightarrow> string option \<Rightarrow> string option \<Rightarrow> MultipartUpload list \<Rightarrow> 's \<Rightarrow> ('s \<times> (goerr + MultipartUpload list)) option" where
  "list_uploads A bucket keyMarker uploadIDMarker uploads s =
     (case api_ListUploads A bucket keyMarker uploadIDMarker s of
        (s1, Inl e) \<Rightarrow> Some (s1, Inl (Errorf ''s3.ListMultipartUploads: '' e []))
      | (s1, Inr page) \<Rightarrow>
          (let uploads' = uploads @ up_Uploads page
           in if \<not> up_IsTruncated page then Some (s1, Inr uploads')
              else list_uploads A bucket (up_NextKeyMarker page) (up_NextUploadIdMarker page) uploads' s1))"

declare list_uploads.simps [code]

definition ListMultipartUploads :: "'s s3_api \<Rightarrow> string \<Rightarrow> 's \<Rightarrow> ('s \<times> (goerr + MultipartUpload list)) option" where
  "ListMultipartUploads A bucket s = list_uploads A bucket None None [] s"

definition PresignGetURL :: "'s s3_api \<Rightarrow> string \<Rightarrow> string \<Rightarrow> int \<Rightarrow> goerr + string" where
  "PresignGetURL A bucket key expiry = map_sum (s3_err ''PresignGetURL'' key) (\<lambda>u. u) (api_PresignGet A bucket key expiry)"

definition PresignPutURL :: "'s s3_api \<Rightarrow> string \<Rightarrow> string \<Rightarrow> string \<Rightarrow> int \<Rightarrow> goerr + string" where
  "PresignPutURL A bucket key contentType expiry =
     map_sum (s3_err ''PresignPutURL'' key) (\<lambda>u. u) (api_PresignPut A bucket key (given (contentType \<noteq> []) contentType) expiry)"

definition PresignUploadPart :: "'s s3_api \<Rightarrow> string \<Rightarrow> string \<Rightarrow> string \<Rightarrow> int \<Rightarrow> int \<Rightarrow> goerr + string" where
  "PresignUploadPart A bucket key uploadID partNumber expiry =
     map_sum (part_err ''PresignUploadPart'' key partNumber) (\<lambda>u. u) (api_PresignPart A bucket key uploadID partNumber expiry)"

definition s3_HealthCheck :: "'s s3_api \<Rightarrow> string \<Rightarrow> 's \<Rightarrow> 's \<times> goerr option" where
  "s3_HealthCheck A bucket s = s3_done (\<lambda>e. Errorf (''s3.HealthCheck bucket '' @ go_quote bucket @ '': '') e []) (api_HeadBucket A bucket s)"

definition has_scheme :: "string \<Rightarrow> bool" where
  "has_scheme s \<longleftrightarrow> list_ex (\<lambda>i. take 3 (drop i s) = ''://'') [0 ..< length s]"

definition normalizeEndpoint :: "string \<Rightarrow> bool \<Rightarrow> string" where
  "normalizeEndpoint endpoint useSSL =
     (if endpoint = [] then [] else if has_scheme endpoint then endpoint else (if useSSL then ''https'' else ''http'') @ ''://'' @ endpoint)"

subsection \<open>Scoped credentials (sts)\<close>

definition ReadActions :: "string list" where "ReadActions = [''s3:GetObject'']"
definition ReadWriteActions :: "string list" where "ReadWriteActions = [''s3:GetObject'', ''s3:PutObject'', ''s3:DeleteObject'']"

definition slash_prefix :: "string \<Rightarrow> string" where
  "slash_prefix prefix = (if prefix \<noteq> [] \<and> last prefix = CHR ''/'' then butlast prefix else prefix) @ ''/''"

definition bucket_arn :: "string \<Rightarrow> string" where "bucket_arn bucket = ''arn:aws:s3:::'' @ bucket"

definition prefix_statements :: "string \<Rightarrow> string \<Rightarrow> string list \<Rightarrow> json" where
  "prefix_statements bucket prefix objectActions =
     JObj [(''Version'', JStr ''2012-10-17''),
       (''Statement'', JArr
         [JObj [(''Effect'', JStr ''Allow''), (''Action'', strs objectActions), (''Resource'', strs [bucket_arn bucket @ ''/'' @ prefix @ ''*''])],
          JObj [(''Effect'', JStr ''Allow''), (''Action'', strs [''s3:ListBucket'']), (''Resource'', strs [bucket_arn bucket]),
                (''Condition'', JObj [(''StringLike'', JObj [(''s3:prefix'', strs [prefix @ ''*''])])])]])]"

definition PrefixPolicy :: "(json \<Rightarrow> goerr + string) \<Rightarrow> string \<Rightarrow> string \<Rightarrow> string list \<Rightarrow> goerr + string" where
  "PrefixPolicy marshal bucket prefix objectActions =
     (if bucket = [] then Inl (Opaque ''sts.PrefixPolicy: bucket is required'')
      else if objectActions = [] then Inl (Opaque ''sts.PrefixPolicy: at least one object action is required'')
      else map_sum (\<lambda>e. Errorf ''sts.PrefixPolicy: marshal: '' e []) (\<lambda>t. t) (marshal (prefix_statements bucket (slash_prefix prefix) objectActions)))"

definition PrefixReadOnlyPolicy :: "(json \<Rightarrow> goerr + string) \<Rightarrow> string \<Rightarrow> string \<Rightarrow> goerr + string" where
  "PrefixReadOnlyPolicy marshal bucket prefix = PrefixPolicy marshal bucket prefix ReadActions"

record Credentials =
  cr_AccessKeyID :: string
  cr_SecretAccessKey :: string
  cr_SessionToken :: string
  cr_Expiration :: int

record sts_Request =
  stq_RoleARN :: string
  stq_SessionName :: string
  stq_Duration :: int
  stq_Policy :: string

text \<open>\<open>secs\<close> is the conversion of the duration, as floating point seconds, to \<^verbatim>\<open>int32\<close>: whole seconds while they fit.\<close>

definition AssumeRole ::
  "(string \<Rightarrow> string \<Rightarrow> int \<Rightarrow> string option \<Rightarrow> 's \<Rightarrow> 's \<times> (goerr + Credentials)) \<Rightarrow> (int \<Rightarrow> int) \<Rightarrow> sts_Request \<Rightarrow> 's \<Rightarrow> 's \<times> (goerr + Credentials)" where
  "AssumeRole call secs req s =
     (if stq_RoleARN req = [] \<or> stq_SessionName req = [] then (s, Inl (Opaque ''sts.AssumeRole: RoleARN and SessionName are required''))
      else (let duration = (if secs (stq_Duration req) \<le> 0 then 3600 else secs (stq_Duration req))
            in s3_result (\<lambda>e. Errorf ''sts.AssumeRole: '' e []) (\<lambda>c. c)
                 (call (stq_RoleARN req) (stq_SessionName req) duration (given (stq_Policy req \<noteq> []) (stq_Policy req)) s)))"

subsection \<open>The listing of uploads is complete\<close>

text \<open>
  The service lists the uploads in a fixed order and, given markers, those behind the marked one; a page is truncated exactly if some are left, and then it is
  not empty and its markers are its last entry.
\<close>

definition behind :: "string option \<Rightarrow> string option \<Rightarrow> MultipartUpload list \<Rightarrow> MultipartUpload list" where
  "behind k i us = (case k of None \<Rightarrow> us | Some key \<Rightarrow> tl (dropWhile (\<lambda>u. \<not> (mu_Key u = key \<and> Some (mu_UploadID u) = i)) us))"

definition listing_ok :: "'s s3_api \<Rightarrow> string \<Rightarrow> ('s \<Rightarrow> MultipartUpload list) \<Rightarrow> bool" where
  "listing_ok A bucket pending \<longleftrightarrow>
     (\<forall>k i s s' page. api_ListUploads A bucket k i s = (s', Inr page) \<longrightarrow>
        pending s' = pending s \<and> (\<exists>left. behind k i (pending s) = up_Uploads page @ left \<and> (up_IsTruncated page \<longleftrightarrow> left \<noteq> []) \<and>
        (up_IsTruncated page \<longrightarrow> up_Uploads page \<noteq> [] \<and>
           up_NextKeyMarker page = Some (mu_Key (last (up_Uploads page))) \<and> up_NextUploadIdMarker page = Some (mu_UploadID (last (up_Uploads page))))))"

definition upload_id :: "MultipartUpload \<Rightarrow> string \<times> string" where
  "upload_id u = (mu_Key u, mu_UploadID u)"

lemma behind_last:
  assumes "distinct (map upload_id us)" and "us = before @ u # left"
  shows "behind (Some (mu_Key u)) (Some (mu_UploadID u)) us = left"
proof -
  have "\<forall>x \<in> set before. upload_id x \<noteq> upload_id u" using assms by (force simp: image_iff)
  then have "dropWhile (\<lambda>x. \<not> (mu_Key x = mu_Key u \<and> Some (mu_UploadID x) = Some (mu_UploadID u))) (before @ u # left) = u # left"
    by (induction before) (auto simp: upload_id_def)
  then show ?thesis using assms(2) by (simp add: behind_def)
qed

lemma list_uploads_complete:
  assumes ok: "listing_ok A bucket pending" and d: "distinct (map upload_id (pending s))"
    and "pending s = uploads @ behind k i (pending s)"
  shows "\<exists>s' r. list_uploads A bucket k i uploads s = Some (s', r) \<and> (\<forall>us. r = Inr us \<longrightarrow> us = pending s)"
  using d assms(3)
proof (induction "length (behind k i (pending s))" arbitrary: k i uploads s rule: less_induct)
  case less
  obtain s1 x where a: "api_ListUploads A bucket k i s = (s1, x)" by (rule prod.exhaust)
  show ?case
  proof (cases x)
    case (Inl e)
    then show ?thesis using a by (subst list_uploads.simps) simp
  next
    case (Inr page)
    from ok [unfolded listing_ok_def, rule_format, OF a [unfolded Inr]] obtain left where p: "pending s1 = pending s"
      and m: "behind k i (pending s) = up_Uploads page @ left" "up_IsTruncated page \<longleftrightarrow> left \<noteq> []"
      and t: "up_IsTruncated page \<Longrightarrow> up_Uploads page \<noteq> []"
        "up_IsTruncated page \<Longrightarrow> up_NextKeyMarker page = Some (mu_Key (last (up_Uploads page)))"
        "up_IsTruncated page \<Longrightarrow> up_NextUploadIdMarker page = Some (mu_UploadID (last (up_Uploads page)))" by blast
    have all: "pending s = (uploads @ up_Uploads page) @ left" using less.prems(2) m(1) by simp
    show ?thesis
    proof (cases "up_IsTruncated page")
      case False
      then show ?thesis using a Inr all m(2) by (subst list_uploads.simps) simp
    next
      case True
      let ?u = "last (up_Uploads page)"
      have "pending s = (uploads @ butlast (up_Uploads page)) @ ?u # left" using all t(1) [OF True] by simp
      from behind_last [OF less.prems(1) this] have b: "behind (up_NextKeyMarker page) (up_NextUploadIdMarker page) (pending s1) = left"
        using t(2,3) [OF True] p by simp
      have "length left < length (behind k i (pending s))" using m(1) t(1) [OF True] by simp
      then have "\<exists>s' r. list_uploads A bucket (up_NextKeyMarker page) (up_NextUploadIdMarker page) (uploads @ up_Uploads page) s1 = Some (s', r) \<and>
          (\<forall>us. r = Inr us \<longrightarrow> us = pending s1)"
        by (intro less.hyps) (use b p all less.prems(1) in simp_all)
      then show ?thesis using a Inr True p by (subst list_uploads.simps) simp
    qed
  qed
qed

text \<open>
  Listing the uploads in progress ends, however many pages there are, and an answer without error has all of them, each once and in order; so
  a clean-up that works through it overlooks no orphan.
\<close>

theorem uploads_listed_completely:
  assumes "listing_ok A bucket pending" and "distinct (map upload_id (pending s))"
  shows "\<exists>s' r. ListMultipartUploads A bucket s = Some (s', r) \<and> (\<forall>us. r = Inr us \<longrightarrow> us = pending s)"
  unfolding ListMultipartUploads_def by (rule list_uploads_complete [OF assms]) (simp add: behind_def)

subsection \<open>What a prefix policy grants\<close>

text \<open>The matching of IAM: a star stands for any characters, a question mark for one.\<close>

fun glob :: "string \<Rightarrow> string \<Rightarrow> bool" where
  "glob [] s \<longleftrightarrow> s = []"
| "glob (p # ps) [] \<longleftrightarrow> p = CHR ''*'' \<and> glob ps []"
| "glob (p # ps) (c # s) \<longleftrightarrow>
     (if p = CHR ''*'' then glob ps (c # s) \<or> glob (p # ps) s else (p = CHR ''?'' \<or> p = c) \<and> glob ps s)"

definition texts :: "json option \<Rightarrow> string list" where
  "texts j = (case j of Some (JArr xs) \<Rightarrow> concat (map (\<lambda>x. case x of JStr t \<Rightarrow> [t] | _ \<Rightarrow> []) xs) | _ \<Rightarrow> [])"

text \<open>A statement allows a request if action, resource and the listed prefix (for listings) match; a policy allows what one of its statements does.\<close>

definition statement_allows :: "json \<Rightarrow> string \<Rightarrow> string \<Rightarrow> string option \<Rightarrow> bool" where
  "statement_allows st action resource prefix \<longleftrightarrow>
     jget ''Effect'' st = Some (JStr ''Allow'') \<and> list_ex (\<lambda>a. glob a action) (texts (jget ''Action'' st)) \<and>
     list_ex (\<lambda>r. glob r resource) (texts (jget ''Resource'' st)) \<and>
     (case Option.bind (jget ''Condition'' st) (jget ''StringLike'') of
        None \<Rightarrow> True
      | Some c \<Rightarrow> (case prefix of None \<Rightarrow> False | Some p \<Rightarrow> list_ex (\<lambda>g. glob g p) (texts (jget ''s3:prefix'' c))))"

definition iam_allows :: "json \<Rightarrow> string \<Rightarrow> string \<Rightarrow> string option \<Rightarrow> bool" where
  "iam_allows policy action resource prefix \<longleftrightarrow>
     (case jget ''Statement'' policy of Some (JArr sts) \<Rightarrow> list_ex (\<lambda>st. statement_allows st action resource prefix) sts | _ \<Rightarrow> False)"

definition no_wildcard :: "string \<Rightarrow> bool" where
  "no_wildcard s \<longleftrightarrow> CHR ''*'' \<notin> set s \<and> CHR ''?'' \<notin> set s \<and> CHR ''$'' \<notin> set s"

lemma glob_star [simp]: "glob ''*'' s"
  by (induction s) auto

lemma glob_plain: "no_wildcard p \<Longrightarrow> glob (p @ q) s \<longleftrightarrow> (\<exists>r. s = p @ r \<and> glob q r)"
proof (induction p arbitrary: s)
  case (Cons c p)
  then show ?case by (cases s) (auto simp: no_wildcard_def)
qed simp

lemma glob_prefix: "no_wildcard p \<Longrightarrow> glob (p @ ''*'') s \<longleftrightarrow> (\<exists>r. s = p @ r)"
  using glob_plain [of p "''*''" s] by simp

lemma glob_exact: "no_wildcard p \<Longrightarrow> glob p s \<longleftrightarrow> s = p"
  using glob_plain [of p "[]" s] by simp

lemma no_wildcard_append [simp]: "no_wildcard (a @ b) \<longleftrightarrow> no_wildcard a \<and> no_wildcard b"
  by (auto simp: no_wildcard_def)

lemma texts_strs [simp]: "texts (Some (strs xs)) = xs"
  by (simp add: texts_def strs_def o_def)

lemma object_statement:
  "statement_allows (JObj [(''Effect'', JStr ''Allow''), (''Action'', strs as), (''Resource'', strs [r])]) action resource listed \<longleftrightarrow>
     list_ex (\<lambda>a. glob a action) as \<and> glob r resource"
  by (simp add: statement_allows_def jget_def)

lemma listing_statement:
  "statement_allows (JObj [(''Effect'', JStr ''Allow''), (''Action'', strs [a]), (''Resource'', strs [r]),
       (''Condition'', JObj [(''StringLike'', JObj [(''s3:prefix'', strs [g])])])]) action resource listed \<longleftrightarrow>
     glob a action \<and> glob r resource \<and> (\<exists>p. listed = Some p \<and> glob g p)"
  by (cases listed) (simp_all add: statement_allows_def jget_def)

lemma two_statements:
  "iam_allows (JObj [(''Version'', v), (''Statement'', JArr [s, t])]) action resource listed \<longleftrightarrow>
     statement_allows s action resource listed \<or> statement_allows t action resource listed"
  by (simp add: iam_allows_def jget_def)

lemma slash_prefix_dir: "dir = [] \<or> last dir \<noteq> CHR ''/'' \<Longrightarrow> prefix = dir \<or> prefix = dir @ ''/'' \<Longrightarrow> slash_prefix prefix = dir @ ''/''"
  by (auto simp: slash_prefix_def)

lemma prefix_statements_allow:
  assumes "no_wildcard bucket" and "no_wildcard p" and "list_all no_wildcard actions"
  shows "iam_allows (prefix_statements bucket p actions) action resource listed \<longleftrightarrow>
     action \<in> set actions \<and> (\<exists>k. resource = bucket_arn bucket @ ''/'' @ p @ k) \<or> action = ''s3:ListBucket'' \<and> resource = bucket_arn bucket \<and> (\<exists>k. listed = Some (p @ k))"
proof -
  let ?b = "bucket_arn bucket"
  have w: "no_wildcard ?b" using assms(1) by (auto simp: bucket_arn_def no_wildcard_def)
  then have res: "glob (?b @ ''/'' @ p @ ''*'') resource \<longleftrightarrow> (\<exists>k. resource = ?b @ ''/'' @ p @ k)"
    using glob_prefix [of "?b @ ''/'' @ p" resource] assms(2) by (simp add: no_wildcard_def)
  have act: "list_ex (\<lambda>a. glob a action) actions \<longleftrightarrow> action \<in> set actions"
    using assms(3) by (induction actions) (auto simp: glob_exact)
  have list: "glob ''s3:ListBucket'' action \<longleftrightarrow> action = ''s3:ListBucket''" by (rule glob_exact) (simp add: no_wildcard_def)
  have lst: "(\<exists>q. listed = Some q \<and> (\<exists>r. q = p @ r)) \<longleftrightarrow> (\<exists>k. listed = Some (p @ k))" by auto
  show ?thesis
    unfolding prefix_statements_def two_statements object_statement listing_statement act list res glob_exact [OF w] glob_prefix [OF assms(2)] lst by (rule refl)
qed

text \<open>
  C20: Credentials with a prefix policy are confined to the prefix. The policy allows exactly the given actions on exactly the objects of the bucket whose
  key lies under the prefix as a directory (so a neighbour with a longer name is out), and listing the bucket with exactly the prefixes under it; nothing of
  another bucket. The prefix may be given with or without its final slash. Bucket and prefix are free of the pattern characters of IAM.
\<close>

theorem prefix_policy_confines:
  assumes "no_wildcard bucket" and "no_wildcard dir" and "list_all no_wildcard actions"
    and "dir = [] \<or> last dir \<noteq> CHR ''/''" and "prefix = dir \<or> prefix = dir @ ''/''" and "PrefixPolicy marshal bucket prefix actions = Inr text"
  shows "\<exists>policy. marshal policy = Inr text \<and> (\<forall>action resource listed. iam_allows policy action resource listed \<longleftrightarrow>
     action \<in> set actions \<and> (\<exists>k. resource = ''arn:aws:s3:::'' @ bucket @ ''/'' @ dir @ ''/'' @ k) \<or>
     action = ''s3:ListBucket'' \<and> resource = ''arn:aws:s3:::'' @ bucket \<and> (\<exists>k. listed = Some (dir @ ''/'' @ k)))"
proof -
  let ?p = "slash_prefix prefix"
  have p: "?p = dir @ ''/''" using assms(4,5) slash_prefix_dir by blast
  have "no_wildcard ?p" using assms(2) by (simp add: p no_wildcard_def)
  moreover have "marshal (prefix_statements bucket ?p actions) = Inr text"
    using assms(6) by (cases "marshal (prefix_statements bucket ?p actions)") (auto simp: PrefixPolicy_def split: if_splits)
  ultimately show ?thesis using prefix_statements_allow [OF assms(1) _ assms(3), of ?p] by (auto simp: p bucket_arn_def)
qed

theorem prefix_policy_confines_witness:
  "\<exists>policy. (\<lambda>j. if j = prefix_statements ''bkt'' ''team/a/'' ReadActions then Inr ''{}'' else Inl (Opaque [])) policy = Inr ''{}'' \<and>
     iam_allows policy ''s3:GetObject'' ''arn:aws:s3:::bkt/team/a/x'' None \<and> \<not> iam_allows policy ''s3:GetObject'' ''arn:aws:s3:::bkt/team/ab/x'' None"
proof -
  let ?m = "\<lambda>j. if j = prefix_statements ''bkt'' ''team/a/'' ReadActions then Inr ''{}'' else Inl (Opaque [])"
  have "PrefixPolicy ?m ''bkt'' ''team/a'' ReadActions = Inr ''{}''" by (simp add: PrefixPolicy_def ReadActions_def slash_prefix_def)
  then obtain policy where m: "?m policy = Inr ''{}''" and a: "\<And>action resource listed. iam_allows policy action resource listed \<longleftrightarrow>
     action \<in> set ReadActions \<and> (\<exists>k. resource = ''arn:aws:s3:::'' @ ''bkt'' @ ''/'' @ ''team/a'' @ ''/'' @ k) \<or>
     action = ''s3:ListBucket'' \<and> resource = ''arn:aws:s3:::'' @ ''bkt'' \<and> (\<exists>k. listed = Some (''team/a'' @ ''/'' @ k))"
    using prefix_policy_confines [of "''bkt''" "''team/a''" ReadActions "''team/a''" ?m "''{}''"] by (auto simp: no_wildcard_def ReadActions_def)
  show ?thesis by (intro exI [of _ policy] conjI m) (simp_all add: a ReadActions_def)
qed

text \<open>Finding: the prefix is not escaped, so a pattern character in it widens the grant.\<close>

lemma wildcard_prefix_widens:
  "iam_allows (prefix_statements ''bkt'' (slash_prefix ''u*'') ReadActions) ''s3:GetObject'' ''arn:aws:s3:::bkt/uncle/x'' None"
  by code_simp

subsection \<open>Ranges\<close>

text \<open>A range of HTTP names its first and last byte; under that reading of the header the body is the slice asked for.\<close>

definition slice :: "int \<Rightarrow> int \<Rightarrow> string \<Rightarrow> string" where
  "slice first final body = take (nat (final - first + 1)) (drop (nat first) body)"

lemma range_reads_slice:
  assumes law: "\<And>a b. 0 \<le> a \<Longrightarrow> a \<le> b \<Longrightarrow> api_Get A bucket key (Some (''bytes='' @ itoa a @ ''-'' @ itoa b)) s = (s', Inr (slice a b body, m))"
    and "0 \<le> offset" and "0 < n" and "offset + n < 2 ^ 63"
  shows "s3_GetObjectRange A bucket key offset n s = (s', Inr (take (nat n) (drop (nat offset) body), info_of key m))"
proof -
  have "int64 (int64 (offset + n) - 1) = offset + n - 1" using assms(2-4) by (subst int64_id; simp add: in_int64_def int64_id)
  then have "byte_range offset n = ''bytes='' @ itoa offset @ ''-'' @ itoa (offset + n - 1)" using assms(3) by (simp add: byte_range_def)
  then show ?thesis
    using law [of offset "offset + n - 1"] assms(2,3) by (simp add: s3_GetObjectRange_def s3_getObject_def s3_result_def given_def slice_def)
qed

text \<open>Finding: a lifetime below one second becomes one hour.\<close>

lemma short_lifetime_is_one_hour:
  assumes "secs (stq_Duration req) = 0" and "stq_RoleARN req \<noteq> []" and "stq_SessionName req \<noteq> []"
    and "call (stq_RoleARN req) (stq_SessionName req) 3600 (given (stq_Policy req \<noteq> []) (stq_Policy req)) s = (s', Inr c)"
  shows "AssumeRole call secs req s = (s', Inr c)"
  using assms by (simp add: AssumeRole_def s3_result_def)

text \<open>A listing in memory, two uploads a page.\<close>

definition mem_s3 :: "MultipartUpload list s3_api" where
  "mem_s3 = \<lparr>api_Put = (\<lambda>i s. (s, None)), api_Get = (\<lambda>b k r s. (s, Inl (Opaque []))), api_Head = (\<lambda>b k s. (s, Inl (Opaque []))),
     api_HeadBucket = (\<lambda>b s. (s, None)), api_Delete = (\<lambda>b k s. (s, None)), api_Copy = (\<lambda>b k k' s. (s, None)),
     api_CreateMultipart = (\<lambda>b k t s. (s, Inr [])), api_UploadPart = (\<lambda>b k u n d l s. (s, Inr [])),
     api_CompleteMultipart = (\<lambda>b k u ps s. (s, None)), api_AbortMultipart = (\<lambda>b k u s. (s, None)),
     api_ListUploads = (\<lambda>b k i s. let rest = behind k i s; page = take 2 rest in
       (s, Inr \<lparr>up_Uploads = page, up_IsTruncated = (2 < length rest),
          up_NextKeyMarker = given (page \<noteq> []) (mu_Key (last page)), up_NextUploadIdMarker = given (page \<noteq> []) (mu_UploadID (last page))\<rparr>)),
     api_ListPages = (\<lambda>b p d s. (s, [])), api_NotFound = (\<lambda>e. True), api_PresignGet = (\<lambda>b k e. Inr []), api_PresignPut = (\<lambda>b k t e. Inr []),
     api_PresignPart = (\<lambda>b k u n e. Inr [])\<rparr>"

lemma mem_listing_ok: "listing_ok mem_s3 bucket (\<lambda>s. s)"
  unfolding listing_ok_def
proof (intro allI impI)
  fix k i s s' page
  assume "api_ListUploads mem_s3 bucket k i s = (s', Inr page)"
  then show "s' = s \<and> (\<exists>left. behind k i s = up_Uploads page @ left \<and> (up_IsTruncated page \<longleftrightarrow> left \<noteq> []) \<and>
      (up_IsTruncated page \<longrightarrow> up_Uploads page \<noteq> [] \<and>
         up_NextKeyMarker page = Some (mu_Key (last (up_Uploads page))) \<and> up_NextUploadIdMarker page = Some (mu_UploadID (last (up_Uploads page)))))"
    by (intro conjI exI [of _ "drop 2 (behind k i s)"]) (auto simp: mem_s3_def Let_def given_def)
qed

definition demo_uploads :: "MultipartUpload list" where
  "demo_uploads = map (\<lambda>n. \<lparr>mu_Key = ''k'', mu_UploadID = nat_digits n, mu_Initiated = 0\<rparr>) [1 ..< 6]"

theorem uploads_listed_completely_witness:
  "\<exists>s'. ListMultipartUploads mem_s3 ''bkt'' demo_uploads = Some (s', Inr demo_uploads) \<and> length demo_uploads = 5"
proof -
  have d: "distinct (map upload_id demo_uploads) \<and> length demo_uploads = 5" by code_simp
  have "map_option (isl \<circ> snd) (ListMultipartUploads mem_s3 ''bkt'' demo_uploads) = Some False" by code_simp
  with uploads_listed_completely [OF mem_listing_ok, of demo_uploads "''bkt''"] d show ?thesis by (auto simp: isl_def) (metis sum.exhaust)
qed

end
