(* ===== verification/Auditing.thy ===== *)
theory Auditing
  imports HttpMiddleware Publisher
begin

text \<open>
  Package \<^verbatim>\<open>auditing\<close>: the audit record, the middleware that fills and publishes it, and the publisher on top of the reliable publisher. The generator and the parser
  of UUIDs, the clock and the JSON encoder are parameters; the log lines of a failed publish are left out. Shown: what of a request can enter the record, and when a
  record is published.
\<close>

subsection \<open>Records (record.go, gatewayevent.go)\<close>

type_synonym LogType = string

definition LogTypeUserAction :: LogType where "LogTypeUserAction = ''USER_ACTION''"
definition LogTypeAsset :: LogType where "LogTypeAsset = ''ASSET''"
definition LogTypeCredit :: LogType where "LogTypeCredit = ''CREDIT''"

record Record =
  rec_ID :: string
  rec_UserID :: string
  rec_UserName :: string
  rec_Role :: string
  rec_Issuer :: string
  rec_OrgID :: string
  rec_OrgName :: string
  rec_OrgType :: string
  rec_AppID :: string
  rec_DelegatorID :: string
  rec_DelegatorRole :: string
  rec_API :: string
  rec_Method :: string
  rec_Action :: string
  rec_OriginServer :: string
  rec_AssetID :: string
  rec_AssetName :: string
  rec_AssetShortDescription :: string
  rec_AssetType :: string
  rec_AssetAccessPolicy :: string
  rec_AssetOrgID :: string
  rec_AssetOrgName :: string
  rec_AssetOrgType :: string
  rec_AssetProviderID :: string
  rec_AssetProviderName :: string
  rec_SizeBytes :: int
  rec_Amount :: string
  rec_RequestID :: string
  rec_LogType :: LogType
  rec_SandboxType :: string
  rec_IPAddress :: string
  rec_UserAgent :: string
  rec_CreatedAt :: string
  rec_Context :: string

definition zero_record :: Record where
  "zero_record = \<lparr>rec_ID = [], rec_UserID = [], rec_UserName = [], rec_Role = [], rec_Issuer = [], rec_OrgID = [], rec_OrgName = [], rec_OrgType = [],
     rec_AppID = [], rec_DelegatorID = [], rec_DelegatorRole = [], rec_API = [], rec_Method = [], rec_Action = [], rec_OriginServer = [], rec_AssetID = [],
     rec_AssetName = [], rec_AssetShortDescription = [], rec_AssetType = [], rec_AssetAccessPolicy = [], rec_AssetOrgID = [], rec_AssetOrgName = [],
     rec_AssetOrgType = [], rec_AssetProviderID = [], rec_AssetProviderName = [], rec_SizeBytes = 0, rec_Amount = [], rec_RequestID = [], rec_LogType = [],
     rec_SandboxType = [], rec_IPAddress = [], rec_UserAgent = [], rec_CreatedAt = [], rec_Context = []\<rparr>"

definition rolePrecedence :: "string list" where
  "rolePrecedence = [''cos_admin'', ''org_admin'', ''provider'', ''consumer'']"

definition EffectiveRole :: "string list \<Rightarrow> string" where
  "EffectiveRole roles =
     (case find (\<lambda>want. list_ex (\<lambda>r. r = want) roles) rolePrecedence of
        Some want \<Rightarrow> want
      | None \<Rightarrow> (case roles of r # _ \<Rightarrow> r | [] \<Rightarrow> []))"

text \<open>\<open>is_uuid\<close> is success of \<^verbatim>\<open>uuid.Parse\<close>; \<open>newID\<close> and \<open>now\<close> are the generated id and the formatted time.\<close>

definition BaseRecord ::
  "(string \<Rightarrow> bool) \<Rightarrow> string \<Rightarrow> string \<Rightarrow> DxUser \<Rightarrow> string \<Rightarrow> string \<Rightarrow> string \<Rightarrow> string \<Rightarrow> string \<Rightarrow> string \<Rightarrow> Record" where
  "BaseRecord is_uuid newID now user originServer api method ip userAgent requestID =
     (let r0 = zero_record\<lparr>rec_ID := newID, rec_UserName := u_Name user, rec_Role := EffectiveRole (u_Roles user), rec_API := api, rec_Method := method,
                 rec_OriginServer := originServer, rec_LogType := LogTypeUserAction, rec_IPAddress := ip, rec_UserAgent := userAgent, rec_CreatedAt := now\<rparr>;
          r1 = (if is_uuid (u_ID user) then r0\<lparr>rec_UserID := u_ID user\<rparr> else r0);
          r2 = (if is_uuid (u_OrganisationID user) then r1\<lparr>rec_OrgID := u_OrganisationID user, rec_OrgName := u_OrganisationName user\<rparr> else r1);
          r3 = (if is_uuid (u_DelegatorID user) then r2\<lparr>rec_DelegatorID := u_DelegatorID user\<rparr> else r2)
      in if is_uuid requestID then r3\<lparr>rec_RequestID := requestID\<rparr> else r3)"

definition EventAuthFailed :: string where "EventAuthFailed = ''AUTH_FAILED''"
definition EventAccessDenied :: string where "EventAccessDenied = ''ACCESS_DENIED''"
definition EventRouteNotFound :: string where "EventRouteNotFound = ''ROUTE_NOT_FOUND''"
definition EventUpstreamError :: string where "EventUpstreamError = ''UPSTREAM_ERROR''"

record GatewayEvent =
  ge_RequestID :: string
  ge_Event :: string
  ge_UserID :: string
  ge_Method :: string
  ge_API :: string
  ge_Status :: int
  ge_AuthPath :: string
  ge_FgaRelation :: string
  ge_FgaResource :: string
  ge_Upstream :: string
  ge_IPAddress :: string
  ge_UserAgent :: string
  ge_Detail :: string
  ge_CreatedAt :: string

definition NewGatewayEvent :: "string \<Rightarrow> string \<Rightarrow> GatewayEvent" where
  "NewGatewayEvent now event = \<lparr>ge_RequestID = [], ge_Event = event, ge_UserID = [], ge_Method = [], ge_API = [], ge_Status = 0, ge_AuthPath = [],
     ge_FgaRelation = [], ge_FgaResource = [], ge_Upstream = [], ge_IPAddress = [], ge_UserAgent = [], ge_Detail = [], ge_CreatedAt = now\<rparr>"

subsection \<open>The publisher (publisher.go)\<close>

record audit_Config =
  ac_Enabled :: bool
  ac_URL :: string
  ac_Exchange :: string
  ac_RoutingKey :: string

definition ac_applyDefaults :: "audit_Config \<Rightarrow> audit_Config" where
  "ac_applyDefaults c =
     (let c1 = (if ac_Exchange c = [] then c\<lparr>ac_Exchange := ''auditing''\<rparr> else c)
      in if ac_RoutingKey c1 = [] then c1\<lparr>ac_RoutingKey := ''##''\<rparr> else c1)"

text \<open>The publisher of a service: where it publishes; the reliable publisher is part of the world it is passed with. \<open>None\<close> is the nil publisher.\<close>

record audit_Publisher =
  ap_exchange :: string
  ap_routingKey :: string

definition audit_publisher_config :: "audit_Config \<Rightarrow> PublisherConfig" where
  "audit_publisher_config c = \<lparr>pc_URL = ac_URL c, pc_Exchange = ac_Exchange c, pc_ExchangeType = ''topic'', pc_Confirms = False\<rparr>"

definition audit_NewPublisher :: "'s amqp \<Rightarrow> audit_Config \<Rightarrow> 's \<Rightarrow> goerr + (audit_Publisher \<times> ReliablePublisher \<times> 's) option" where
  "audit_NewPublisher A cfg s =
     (if \<not> ac_Enabled cfg then Inr None
      else (let c = ac_applyDefaults cfg
            in case NewReliablePublisher A (audit_publisher_config c) s of
                 Inl e \<Rightarrow> Inl e
               | Inr (p, s1) \<Rightarrow> Inr (Some (\<lparr>ap_exchange = ac_Exchange c, ap_routingKey = ac_RoutingKey c\<rparr>, p, s1))))"

definition audit_publish_value ::
  "'s amqp \<Rightarrow> ('v \<Rightarrow> goerr + string) \<Rightarrow> int \<Rightarrow> audit_Publisher option \<Rightarrow> 'v option \<Rightarrow> ReliablePublisher \<times> 's \<Rightarrow> ReliablePublisher \<times> 's" where
  "audit_publish_value A marshal now p v ps =
     (case (p, v) of (Some p', Some x) \<Rightarrow> fst (rp_PublishJSON A marshal now [] (ap_exchange p') (ap_routingKey p') x ps) | _ \<Rightarrow> ps)"

definition audit_Publish ::
  "'s amqp \<Rightarrow> (Record \<Rightarrow> goerr + string) \<Rightarrow> int \<Rightarrow> audit_Publisher option \<Rightarrow> Record option \<Rightarrow> ReliablePublisher \<times> 's \<Rightarrow> ReliablePublisher \<times> 's" where
  "audit_Publish A marshal now p r ps = audit_publish_value A marshal now p r ps"

definition PublishEvent ::
  "'s amqp \<Rightarrow> (GatewayEvent \<Rightarrow> goerr + string) \<Rightarrow> int \<Rightarrow> audit_Publisher option \<Rightarrow> GatewayEvent option \<Rightarrow> ReliablePublisher \<times> 's \<Rightarrow> ReliablePublisher \<times> 's" where
  "PublishEvent A marshal now p ev ps = audit_publish_value A marshal now p ev ps"

definition audit_Close :: "'s amqp \<Rightarrow> audit_Publisher option \<Rightarrow> ReliablePublisher \<times> 's \<Rightarrow> ReliablePublisher \<times> 's" where
  "audit_Close A p ps = (case p of None \<Rightarrow> ps | Some _ \<Rightarrow> rp_Close A ps)"

subsection \<open>The middleware (middleware.go)\<close>

text \<open>A handler gets the record of its request, which it may change, and returns it as it left it.\<close>

type_synonym 's audited_handler = "mw_request \<Rightarrow> Record \<Rightarrow> 's \<Rightarrow> 's \<times> Record \<times> action list \<times> ending"

definition statusesToAudit :: "int list" where "statusesToAudit = [200, 201, 204]"

definition SetAction :: "string \<Rightarrow> Record option \<Rightarrow> Record option" where
  "SetAction action r = map_option (rec_Action_update (\<lambda>_. action)) r"

text \<open>From the end: what is before the last colon, unless a bracket comes first.\<close>

fun before_port :: "string \<Rightarrow> string option" where
  "before_port [] = None"
| "before_port (c # s) = (if c = CHR '':'' then Some (rev s) else if c = CHR '']'' then None else before_port s)"

definition clientIP :: "mw_request \<Rightarrow> string" where
  "clientIP r = (case before_port (rev (r_RemoteAddr r)) of Some h \<Rightarrow> h | None \<Rightarrow> r_RemoteAddr r)"

definition audit_user :: "mw_request \<Rightarrow> DxUser" where
  "audit_user r = (case ctx_user (r_ctx r) of Some u \<Rightarrow> u | None \<Rightarrow> zero_user)"

definition request_record :: "(string \<Rightarrow> bool) \<Rightarrow> string \<Rightarrow> mw_request \<Rightarrow> string \<Rightarrow> string \<Rightarrow> Record" where
  "request_record is_uuid originServer r newID now =
     BaseRecord is_uuid newID now (audit_user r) originServer (r_Path r) (r_Method r) (clientIP r) (hdr_Get (r_Header r) ''User-Agent'') (RequestIDFromCtx r)"

text \<open>\<open>spawn\<close> starts the goroutine that publishes the record; \<open>fresh\<close> gives the new id and the time.\<close>

definition audit_Middleware ::
  "(string \<Rightarrow> bool) \<Rightarrow> ('s \<Rightarrow> 's \<times> string \<times> string) \<Rightarrow> (Record \<Rightarrow> 's \<Rightarrow> 's) \<Rightarrow> bool \<Rightarrow> string \<Rightarrow> 's audited_handler \<Rightarrow> 's hhandler" where
  "audit_Middleware is_uuid fresh spawn has_pub originServer next_h r s =
     (case fresh s of
        (s0, newID, now) \<Rightarrow>
          (case next_h r (request_record is_uuid originServer r newID now) s0 of
             (s1, rc, acts, Finished) \<Rightarrow>
               if \<not> has_pub \<or> rec_Action rc = [] then (s1, acts, Finished)
               else if rw_status acts \<notin> set statusesToAudit then (s1, acts, Finished)
               else (spawn rc s1, acts, Finished)
           | (s1, rc, acts, e) \<Rightarrow> (s1, acts, e)))"

subsection \<open>What is shown\<close>

text \<open>The role in the record does not depend on the order of the roles, if one of them is known, and no other role of the user ranks above it.\<close>

lemma effective_role_known:
  assumes "set roles \<inter> set rolePrecedence \<noteq> {}"
  shows "EffectiveRole roles \<in> set roles" and "set roles = set roles' \<Longrightarrow> EffectiveRole roles' = EffectiveRole roles"
    and "rolePrecedence = higher @ EffectiveRole roles # lower \<Longrightarrow> set higher \<inter> set roles = {}"
proof -
  have e: "list_ex (\<lambda>r. r = want) xs \<longleftrightarrow> want \<in> set xs" for want xs by (induction xs) auto
  obtain want where f: "find (\<lambda>want. want \<in> set roles) rolePrecedence = Some want"
    using assms by (metis disjoint_iff find_None_iff option.exhaust)
  then have r: "EffectiveRole roles = want" by (simp add: EffectiveRole_def e)
  show "EffectiveRole roles \<in> set roles" using f r by (simp add: find_Some_iff) blast
  show "set roles = set roles' \<Longrightarrow> EffectiveRole roles' = EffectiveRole roles" using f r by (simp add: EffectiveRole_def e)
  assume h: "rolePrecedence = higher @ EffectiveRole roles # lower"
  have d: "distinct rolePrecedence" by (simp add: rolePrecedence_def)
  show "set higher \<inter> set roles = {}"
  proof (rule ccontr)
    assume "set higher \<inter> set roles \<noteq> {}"
    then obtain x where x: "x \<in> set higher" "x \<in> set roles" by blast
    then obtain y where "find (\<lambda>want. want \<in> set roles) higher = Some y" "y \<in> set higher"
      by (metis find_None_iff find_Some_iff nth_mem option.exhaust)
    moreover have "find P (xs @ ys) = (case find P xs of Some y \<Rightarrow> Some y | None \<Rightarrow> find P ys)" for P and xs ys :: "string list"
      by (induction xs) auto
    ultimately have "find (\<lambda>want. want \<in> set roles) (higher @ EffectiveRole roles # lower) = Some y" by simp
    with f h have "y = want" by simp
    moreover have "distinct (higher @ EffectiveRole roles # lower)" using d h by simp
    ultimately show False using \<open>y \<in> set higher\<close> r by simp
  qed
qed

text \<open>
  Nothing a client writes into headers reaches the record except its user agent and, through the middleware for request ids, a well-formed request id: two requests
  with the same authenticated user, route, peer, request id and user agent have the same record, and the identity in it is that of the user of the context.
\<close>

lemma record_independent_of_headers:
  assumes "r_ctx r = r_ctx r'" and "r_Path r = r_Path r'" and "r_Method r = r_Method r'" and "r_RemoteAddr r = r_RemoteAddr r'" and "r_RequestID r = r_RequestID r'"
    and "hdr_Get (r_Header r) ''User-Agent'' = hdr_Get (r_Header r') ''User-Agent''"
  shows "request_record is_uuid o_s r i now = request_record is_uuid o_s r' i now"
proof -
  have "clientIP r = clientIP r'" unfolding clientIP_def assms(4) ..
  then show ?thesis using assms by (simp add: request_record_def audit_user_def RequestIDFromCtx_def)
qed

lemma record_identity:
  assumes "rc = request_record is_uuid o_s r i now"
  shows "rec_UserID rc = (if is_uuid (u_ID (audit_user r)) then u_ID (audit_user r) else [])" and "rec_UserName rc = u_Name (audit_user r)"
    and "rec_Role rc = EffectiveRole (u_Roles (audit_user r))" and "rec_Action rc = []"
    and "is_uuid (u_OrganisationID (audit_user r)) \<Longrightarrow> rec_OrgID rc = u_OrganisationID (audit_user r)"
  unfolding assms request_record_def BaseRecord_def Let_def by (simp_all add: zero_record_def)

text \<open>The middleware over a world with the list of the records whose publication was started.\<close>

definition queueing :: "'s audited_handler \<Rightarrow> ('s \<times> Record list) audited_handler" where
  "queueing h r rc w = (case h r rc (fst w) of (s, rc', acts, e) \<Rightarrow> ((s, snd w), rc', acts, e))"

text \<open>
  A request is audited exactly when its handler named an action, returned and answered with 200, 201 or 204; then the record as the handler left it is published once.
  The middleware changes nothing of the response.
\<close>

lemma audited_exactly:
  assumes "audit_Middleware is_uuid fresh (\<lambda>rc w. (fst w, snd w @ [rc])) True o_s (queueing next_h) r (s, q) = ((s', q'), acts, e)"
    and "fresh (s, q) = ((s0, q), i, now)" and "next_h r (request_record is_uuid o_s r i now) s0 = (s1, rc, acts1, e1)"
  shows "s' = s1 \<and> acts = acts1 \<and> e = e1 \<and>
    q' = (if e = Finished \<and> rec_Action rc \<noteq> [] \<and> rw_status acts \<in> {200, 201, 204} then q @ [rc] else q)"
  using assms by (cases e1) (auto simp: audit_Middleware_def queueing_def statusesToAudit_def split: if_splits)

text \<open>Findings: the status is that of the last call of WriteHeader, which need not be the one the client got, and a request whose handler panics is not audited.\<close>

lemma audited_status_not_sent:
  "rw_status [WHeader 500, WHeader 200] = 200 \<and> fst (client_sees [WHeader 500, WHeader 200]) = 500"
  by code_simp

text \<open>An IPv6 peer address loses its port and keeps its brackets; without a port and brackets it loses its last group.\<close>

lemma clientIP_v6: "clientIP (r\<lparr>r_RemoteAddr := ''[::1]:443''\<rparr>) = ''[::1]''" "clientIP (r\<lparr>r_RemoteAddr := ''fe80::1''\<rparr>) = ''fe80:''"
  by (simp_all add: clientIP_def)

text \<open>Finding: audit events are published without confirms, so a nil error does not mean that the broker has the event.\<close>

lemma audit_without_confirms: "\<not> pc_Confirms (audit_publisher_config c)"
  by (simp add: audit_publisher_config_def)

end
