(* ===== verification/Edge.thy ===== *)
theory Edge
  imports HttpMiddleware
begin

text \<open>
  Small packages at the edge of a service: request validation against an OpenAPI document (\<^verbatim>\<open>openapi/middleware.go\<close>), e-mail requests to the control
  plane (\<^verbatim>\<open>notify/email\<close>) and the life cycle of the server (\<^verbatim>\<open>httpserver\<close>). Router and validator of kin-openapi, the publisher of the notifier and the
  server of \<^verbatim>\<open>net/http\<close> are parameters; log lines are left out.
\<close>

subsection \<open>OpenAPI validation\<close>

record openapi_Config =
  oc_SpecPath :: string
  oc_SwaggerUIEnabled :: bool
  oc_SwaggerUIPath :: string
  oc_ValidateRequests :: bool
  oc_ValidateResponses :: bool

definition openapi_DefaultConfig :: openapi_Config where
  "openapi_DefaultConfig = \<lparr>oc_SpecPath = [], oc_SwaggerUIEnabled = True, oc_SwaggerUIPath = ''/docs'', oc_ValidateRequests = True, oc_ValidateResponses = False\<rparr>"

definition healthPaths :: "string list" where "healthPaths = [''/health'', ''/healthz'', ''/ready'', ''/live'']"

text \<open>\<open>find_route\<close> is the router built from the document, \<open>conforms\<close> the outcome of \<^verbatim>\<open>ValidateRequest\<close> for a route.\<close>

definition ValidationMiddleware ::
  "(mw_request \<Rightarrow> 'route option) \<Rightarrow> (mw_request \<Rightarrow> 'route \<Rightarrow> bool) \<Rightarrow> (DxErrorResponse \<Rightarrow> string) \<Rightarrow> openapi_Config \<Rightarrow> 's hhandler \<Rightarrow> 's hhandler" where
  "ValidationMiddleware find_route conforms encode cfg next_h r s =
     (if list_ex (HasPrefix (r_Path r)) healthPaths then next_h r s
      else if \<not> oc_ValidateRequests cfg then next_h r s
      else case find_route r of
             None \<Rightarrow> next_h r s
           | Some route \<Rightarrow>
               if \<not> conforms r route then (s, error_actions encode (NewValidation ''request validation failed'' []), Finished) else next_h r s)"

text \<open>With validation on, a request to a route of the document other than the exempt paths reaches the handler exactly if it conforms; otherwise the client gets 400.\<close>

lemma validated_routes_conform:
  assumes "oc_ValidateRequests cfg" and "find_route r = Some route" and "\<not> list_ex (HasPrefix (r_Path r)) healthPaths"
  shows "conforms r route \<Longrightarrow> ValidationMiddleware find_route conforms encode cfg next_h r s = next_h r s"
    and "\<not> conforms r route \<Longrightarrow> \<exists>acts. ValidationMiddleware find_route conforms encode cfg next_h r s = (s, acts, Finished) \<and> fst (client_sees acts) = 400"
  using assms
  by (simp_all add: ValidationMiddleware_def error_actions_def client_sees_def perform_all_def fresh_response_def send_header_def send_bytes_def body_allowed_def
      NewValidation_def HTTPStatus_def httpStatusMap_def code_defs Let_def)

text \<open>Finding: the exemption is by prefix, so any route that starts like a health path is not validated.\<close>

lemma health_prefix_bypasses:
  assumes "r_Path r = ''/healthcare/records''"
  shows "ValidationMiddleware find_route conforms encode cfg next_h r s = next_h r s"
  using assms by (simp add: ValidationMiddleware_def healthPaths_def HasPrefix_def)

subsection \<open>E-mail notifications\<close>

record email_Request =
  em_ConsumerUserID :: string
  em_TemplateType :: string
  em_TemplateStructure :: string
  em_IsCreated :: bool
  em_ProviderUserID :: string
  em_AssetType :: string
  em_ItemID :: string
  em_ShortDescription :: string
  em_Status :: string
  em_AssetName :: string
  em_ExpiryAt :: string

definition em_validate :: "email_Request \<Rightarrow> goerr option" where
  "em_validate r =
     (if em_ConsumerUserID r = [] then Some (Opaque ''email: consumerUserId is required'')
      else if em_TemplateType r \<noteq> ''PATH'' \<and> em_TemplateType r \<noteq> ''INLINE'' then Some (Opaque ''email: templateType must be PATH or INLINE'')
      else if em_TemplateStructure r = [] then Some (Opaque ''email: templateStructure is required'')
      else None)"

record email_Config =
  ec_Enabled :: bool
  ec_Queue :: string
  ec_TemplateType :: string
  ec_TemplateStructure :: string

definition NewNotifier :: "email_Config \<Rightarrow> email_Config" where
  "NewNotifier cfg = (if ec_Queue cfg = [] then cfg\<lparr>ec_Queue := ''email-notification''\<rparr> else cfg)"

text \<open>\<open>None\<close> is the nil notifier; \<open>publish\<close> is \<^verbatim>\<open>PublishJSON\<close> of the client.\<close>

definition em_Send :: "(string \<Rightarrow> string \<Rightarrow> email_Request \<Rightarrow> 's \<Rightarrow> 's \<times> goerr option) \<Rightarrow> email_Config option \<Rightarrow> email_Request \<Rightarrow> 's \<Rightarrow> 's \<times> goerr option" where
  "em_Send publish n req s =
     (case n of
        None \<Rightarrow> (s, None)
      | Some cfg \<Rightarrow>
          if \<not> ec_Enabled cfg then (s, None)
          else (let r1 = (if em_TemplateType req = [] then req\<lparr>em_TemplateType := ec_TemplateType cfg\<rparr> else req);
                    r2 = (if em_TemplateStructure r1 = [] then r1\<lparr>em_TemplateStructure := ec_TemplateStructure cfg\<rparr> else r1)
                in case em_validate r2 of
                     Some e \<Rightarrow> (s, Some e)
                   | None \<Rightarrow>
                       (case publish [] (ec_Queue cfg) r2 s of
                          (s1, Some e) \<Rightarrow> (s1, Some (Errorf ''email: publish: '' e []))
                        | (s1, None) \<Rightarrow> (s1, None))))"

text \<open>What reaches the queue of the control plane satisfies the contract of its consumer, whatever requests are sent and whatever the configuration.\<close>

fun em_send_all :: "email_Config option \<Rightarrow> email_Request list \<Rightarrow> (string \<times> string \<times> email_Request) list \<Rightarrow> (string \<times> string \<times> email_Request) list" where
  "em_send_all n [] log = log"
| "em_send_all n (r # rs) log = em_send_all n rs (fst (em_Send (\<lambda>ex key v l. (l @ [(ex, key, v)], None)) n r log))"

definition em_contract :: "email_Config \<Rightarrow> string \<times> string \<times> email_Request \<Rightarrow> bool" where
  "em_contract cfg m \<longleftrightarrow> fst m = [] \<and> fst (snd m) = ec_Queue cfg \<and> fst (snd m) \<noteq> [] \<and> em_ConsumerUserID (snd (snd m)) \<noteq> [] \<and>
     em_TemplateType (snd (snd m)) \<in> {''PATH'', ''INLINE''} \<and> em_TemplateStructure (snd (snd m)) \<noteq> []"

lemma emails_meet_contract:
  "list_all (em_contract (NewNotifier cfg)) log \<Longrightarrow> list_all (em_contract (NewNotifier cfg)) (em_send_all (Some (NewNotifier cfg)) rs log)"
proof (induction rs arbitrary: log)
  case (Cons r rs)
  have q: "ec_Queue (NewNotifier cfg) \<noteq> []" by (simp add: NewNotifier_def)
  have v: "em_validate x = None \<Longrightarrow> em_contract (NewNotifier cfg) ([], ec_Queue (NewNotifier cfg), x)" for x
    using q by (auto simp: em_validate_def em_contract_def split: if_splits)
  have "list_all (em_contract (NewNotifier cfg)) (fst (em_Send (\<lambda>ex key v l. (l @ [(ex, key, v)], None)) (Some (NewNotifier cfg)) r log))"
    using Cons.prems v by (auto simp: em_Send_def Let_def split: option.splits)
  then show ?case using Cons.IH by simp
qed simp

subsection \<open>The server\<close>

record httpserver_Config =
  hs_Port :: int
  hs_ReadTimeout :: int
  hs_WriteTimeout :: int
  hs_IdleTimeout :: int
  hs_ShutdownTimeout :: int
  hs_TLSCertFile :: string
  hs_TLSKeyFile :: string

definition httpserver_DefaultConfig :: httpserver_Config where
  "httpserver_DefaultConfig = \<lparr>hs_Port = 8080, hs_ReadTimeout = 15 * 10 ^ 9, hs_WriteTimeout = 30 * 10 ^ 9, hs_IdleTimeout = 60 * 10 ^ 9,
     hs_ShutdownTimeout = 10 * 10 ^ 9, hs_TLSCertFile = [], hs_TLSKeyFile = []\<rparr>"

text \<open>The select of \<^verbatim>\<open>Start\<close>: the listener failed, or a signal came; a listener that was closed says nothing.\<close>

datatype server_event = ListenFailed goerr | SignalCame

definition hs_shutdown :: "(int \<Rightarrow> 's \<Rightarrow> 's \<times> goerr option) \<Rightarrow> httpserver_Config \<Rightarrow> 's \<Rightarrow> 's \<times> goerr option" where
  "hs_shutdown Shutdown cfg s = wrap_err ''graceful shutdown failed: '' (Shutdown (hs_ShutdownTimeout cfg) s)"

definition hs_Start :: "('s \<Rightarrow> 's \<times> server_event) \<Rightarrow> (int \<Rightarrow> 's \<Rightarrow> 's \<times> goerr option) \<Rightarrow> httpserver_Config \<Rightarrow> 's \<Rightarrow> 's \<times> goerr option" where
  "hs_Start wait Shutdown cfg s =
     (case wait s of
        (s1, ListenFailed e) \<Rightarrow> (s1, Some (Errorf ''server error: '' e []))
      | (s1, SignalCame) \<Rightarrow> hs_shutdown Shutdown cfg s1)"

definition hs_StartTLS ::
  "(string \<Rightarrow> string \<Rightarrow> goerr option) \<Rightarrow> ('s \<Rightarrow> 's \<times> server_event) \<Rightarrow> (int \<Rightarrow> 's \<Rightarrow> 's \<times> goerr option) \<Rightarrow> httpserver_Config \<Rightarrow> 's \<Rightarrow> 's \<times> goerr option" where
  "hs_StartTLS LoadX509KeyPair wait Shutdown cfg s =
     (if hs_TLSCertFile cfg = [] \<or> hs_TLSKeyFile cfg = [] then (s, Some (Opaque ''TLSCertFile and TLSKeyFile must be set for StartTLS''))
      else case LoadX509KeyPair (hs_TLSCertFile cfg) (hs_TLSKeyFile cfg) of
             Some e \<Rightarrow> (s, Some (Errorf ''loading TLS key pair: '' e []))
           | None \<Rightarrow> hs_Start wait Shutdown cfg s)"

text \<open>The server returns nil exactly when a signal came and the shutdown was clean within the configured time.\<close>

lemma clean_stop_exactly:
  "snd (hs_Start wait Shutdown cfg s) = None \<longleftrightarrow>
     (\<exists>s1 s2. wait s = (s1, SignalCame) \<and> Shutdown (hs_ShutdownTimeout cfg) s1 = (s2, None))"
  by (auto simp: hs_Start_def hs_shutdown_def wrap_err_def split: prod.splits server_event.splits) (metis prod.collapse)

end
