(* ===== verification/PgClient.thy ===== *)
theory PgClient
  imports DxErrors
begin

text \<open>
  Packages \<^verbatim>\<open>database/postgres/client\<close> and \<^verbatim>\<open>migrate\<close>: the connection pool, the tracers and the migration runner. pgx and golang-migrate are parameters. Shown: a failed
  start leaves no pool and no migration connection open, pool and migrations agree on the schema, and a run that returns nil in migration mode leaves the schema
  at the latest version.
\<close>

subsection \<open>The pool (config.go, pool.go)\<close>

record pg_Config =
  pg_DSN :: string
  pg_MaxConns :: int
  pg_MinConns :: int
  pg_MaxConnLifetime :: int
  pg_ConnectTimeout :: int
  pg_SearchPath :: string

record pool_config =
  pcf_params :: "(string \<times> string) list"
  pcf_MaxConns :: int
  pcf_MinConns :: int
  pcf_MaxConnLifetime :: int
  pcf_tracers :: nat

definition with_search_path :: "string \<Rightarrow> (string \<times> string) list \<Rightarrow> (string \<times> string) list" where
  "with_search_path sp params = (if sp \<noteq> [] then map_put ''search_path'' sp params else params)"

definition apply_config :: "pg_Config \<Rightarrow> pool_config \<Rightarrow> pool_config" where
  "apply_config cfg p =
     (let p1 = p\<lparr>pcf_params := with_search_path (pg_SearchPath cfg) (pcf_params p)\<rparr>;
          p2 = (if pg_MaxConns cfg > 0 then p1\<lparr>pcf_MaxConns := pg_MaxConns cfg\<rparr> else p1);
          p3 = (if pg_MinConns cfg > 0 then p2\<lparr>pcf_MinConns := pg_MinConns cfg\<rparr> else p2)
      in if pg_MaxConnLifetime cfg > 0 then p3\<lparr>pcf_MaxConnLifetime := pg_MaxConnLifetime cfg\<rparr> else p3)"

record 's pgx_pool =
  px_ParseConfig :: "string \<Rightarrow> goerr + pool_config"
  px_NewWithConfig :: "int \<Rightarrow> pool_config \<Rightarrow> 's \<Rightarrow> 's \<times> (goerr + nat)"
  px_Ping :: "nat \<Rightarrow> 's \<Rightarrow> 's \<times> goerr option"
  px_Close :: "nat \<Rightarrow> 's \<Rightarrow> 's"

definition connect_timeout :: "pg_Config \<Rightarrow> int" where
  "connect_timeout cfg = (if pg_ConnectTimeout cfg = 0 then 10 * 10 ^ 9 else pg_ConnectTimeout cfg)"

definition NewPool :: "'s pgx_pool \<Rightarrow> pg_Config \<Rightarrow> (pool_config \<Rightarrow> pool_config) list \<Rightarrow> 's \<Rightarrow> 's \<times> (goerr + nat)" where
  "NewPool P cfg opts s =
     (case px_ParseConfig P (pg_DSN cfg) of
        Inl e \<Rightarrow> (s, Inl (Errorf ''client.NewPool: parsing DSN: '' e []))
      | Inr p0 \<Rightarrow>
          (case px_NewWithConfig P (connect_timeout cfg) (fold (\<lambda>opt p. opt p) opts (apply_config cfg p0)) s of
             (s1, Inl e) \<Rightarrow> (s1, Inl (Errorf ''client.NewPool: creating pool: '' e []))
           | (s1, Inr pool) \<Rightarrow>
               (case px_Ping P pool s1 of
                  (s2, Some e) \<Rightarrow> (px_Close P pool s2, Inl (Errorf ''client.NewPool: ping failed: '' e []))
                | (s2, None) \<Rightarrow> (s2, Inr pool))))"

subsection \<open>Tracers (tracer.go, slowquerytracer.go)\<close>

text \<open>A tracer threads a context through the start of a query and acts on its end.\<close>

record ('c, 'd, 'e, 's) QueryTracer =
  qt_Start :: "'c \<Rightarrow> 'd \<Rightarrow> 's \<Rightarrow> 'c \<times> 's"
  qt_End :: "'c \<Rightarrow> 'e \<Rightarrow> 's \<Rightarrow> 's"

definition NewMultiTracer :: "('c, 'd, 'e, 's) QueryTracer list \<Rightarrow> ('c, 'd, 'e, 's) QueryTracer" where
  "NewMultiTracer tracers =
     \<lparr>qt_Start = (\<lambda>c d s. fold (\<lambda>t (c, s). qt_Start t c d s) tracers (c, s)), qt_End = (\<lambda>c e s. fold (\<lambda>t. qt_End t c e) tracers s)\<rparr>"

record slowQueryState =
  sq_start :: int
  sq_sql :: string
  sq_argCount :: nat

record slow_log =
  sl_sql :: string
  sl_arg_count :: nat
  sl_duration :: int
  sl_error :: "goerr option"

text \<open>The context of one tracer is its state, if there is one; the world is the clock and the log.\<close>

definition SlowQueryTracer :: "int \<Rightarrow> bool \<Rightarrow> (slowQueryState option, string \<times> string list, goerr option, int \<times> slow_log list) QueryTracer" where
  "SlowQueryTracer threshold has_logger =
     \<lparr>qt_Start = (\<lambda>c (sql, args) w. (Some \<lparr>sq_start = fst w, sq_sql = sql, sq_argCount = length args\<rparr>, w)),
      qt_End = (\<lambda>c err w.
        if \<not> has_logger then w
        else case c of
               None \<Rightarrow> w
             | Some st \<Rightarrow>
                 (let th = (if threshold \<le> 0 then 200 * 10 ^ 6 else threshold); d = fst w - sq_start st
                  in if th \<le> d then (fst w, snd w @ [\<lparr>sl_sql = sq_sql st, sl_arg_count = sq_argCount st, sl_duration = d, sl_error = err\<rparr>]) else w))\<rparr>"

subsection \<open>Migrations (config.go, embed.go, runner.go, version.go)\<close>

record migrate_Config =
  mg_Mode :: string
  mg_DSN :: string
  mg_TableName :: string
  mg_SearchPath :: string

datatype up_result = UpDone | UpNoChange | UpDirty nat | UpFailed goerr
datatype version_result = VersionIs nat bool | NilVersion | VersionFailed goerr

record 's migrate_lib =
  ml_Source :: "goerr option"
  ml_ParseConfig :: "string \<Rightarrow> goerr + (string \<times> string) list"
  ml_WithInstance :: "(string \<times> string) list \<Rightarrow> string \<Rightarrow> 's \<Rightarrow> 's \<times> goerr option"
  ml_NewWithInstance :: "'s \<Rightarrow> 's \<times> goerr option"
  ml_OpenDB :: "(string \<times> string) list \<Rightarrow> 's \<Rightarrow> 's"
  ml_CloseDB :: "'s \<Rightarrow> 's"
  ml_Close :: "'s \<Rightarrow> 's"
  ml_Up :: "'s \<Rightarrow> 's \<times> up_result"
  ml_Version :: "'s \<Rightarrow> version_result"

definition mg_open :: "'s migrate_lib \<Rightarrow> migrate_Config \<Rightarrow> string \<Rightarrow> 's \<Rightarrow> 's \<times> goerr option" where
  "mg_open L cfg dir s =
     (case ml_Source L of
        Some e \<Rightarrow> (s, Some (Errorf (''migrate: open source '' @ go_quote dir @ '': '') e []))
      | None \<Rightarrow>
          (case ml_ParseConfig L (mg_DSN cfg) of
             Inl e \<Rightarrow> (s, Some (Errorf ''migrate: parse DSN: '' e []))
           | Inr params \<Rightarrow>
               (let params' = with_search_path (mg_SearchPath cfg) params; s1 = ml_OpenDB L params' s
                in case ml_WithInstance L params' (mg_TableName cfg) s1 of
                     (s2, Some e) \<Rightarrow> (ml_CloseDB L s2, Some (Errorf ''migrate: init driver: '' e []))
                   | (s2, None) \<Rightarrow>
                       (case ml_NewWithInstance L s2 of
                          (s3, Some e) \<Rightarrow> (ml_CloseDB L s3, Some (Errorf ''migrate: new instance: '' e []))
                        | (s3, None) \<Rightarrow> (s3, None)))))"

definition dirty_error :: "nat \<Rightarrow> string \<Rightarrow> goerr" where
  "dirty_error v table = Opaque (''migrate: migrations table '' @ go_quote table @ '' is dirty at version '' @ itoa (int v))"

definition mg_Run :: "'s migrate_lib \<Rightarrow> migrate_Config \<Rightarrow> string \<Rightarrow> 's \<Rightarrow> 's \<times> goerr option" where
  "mg_Run L cfg dir s =
     (if mg_Mode cfg \<noteq> ''migrate'' then (s, None)
      else case mg_open L cfg dir s of
             (s1, Some e) \<Rightarrow> (s1, Some e)
           | (s1, None) \<Rightarrow>
               (case ml_Up L s1 of
                  (s2, UpNoChange) \<Rightarrow> (ml_Close L s2, None)
                | (s2, UpDirty v) \<Rightarrow> (ml_Close L s2, Some (dirty_error v (mg_TableName cfg)))
                | (s2, UpFailed e) \<Rightarrow> (ml_Close L s2, Some (Errorf ''migrate: up: '' e []))
                | (s2, UpDone) \<Rightarrow> (ml_Close L s2, None)))"

definition mg_Status :: "'s migrate_lib \<Rightarrow> migrate_Config \<Rightarrow> string \<Rightarrow> 's \<Rightarrow> 's \<times> (goerr + nat \<times> bool)" where
  "mg_Status L cfg dir s =
     (case mg_open L cfg dir s of
        (s1, Some e) \<Rightarrow> (s1, Inl e)
      | (s1, None) \<Rightarrow>
          (ml_Close L s1,
           case ml_Version L s1 of NilVersion \<Rightarrow> Inr (0, False) | VersionFailed e \<Rightarrow> Inl (Errorf ''migrate: version: '' e []) | VersionIs v d \<Rightarrow> Inr (v, d)))"

subsection \<open>What is shown\<close>

text \<open>\<open>pools s\<close> are the pools open in \<open>s\<close>.\<close>

definition pgpool_ok :: "'s pgx_pool \<Rightarrow> ('s \<Rightarrow> nat set) \<Rightarrow> bool" where
  "pgpool_ok P pools \<longleftrightarrow>
     (\<forall>t c s s' r. px_NewWithConfig P t c s = (s', r) \<longrightarrow>
        (case r of Inl e \<Rightarrow> pools s' = pools s | Inr p \<Rightarrow> p \<notin> pools s \<and> pools s' = insert p (pools s))) \<and>
     (\<forall>p s s' r. px_Ping P p s = (s', r) \<longrightarrow> pools s' = pools s) \<and> (\<forall>p s. pools (px_Close P p s) = pools s - {p})"

lemma new_pool_no_leak:
  assumes "pgpool_ok P pools" and "NewPool P cfg opts s = (s', r)"
  shows "case r of Inl e \<Rightarrow> pools s' = pools s | Inr p \<Rightarrow> p \<notin> pools s \<and> pools s' = insert p (pools s)"
proof (cases "px_ParseConfig P (pg_DSN cfg)")
  case (Inl e)
  then show ?thesis using assms(2) by (auto simp: NewPool_def)
next
  case (Inr p0)
  obtain s1 x where n: "px_NewWithConfig P (connect_timeout cfg) (fold (\<lambda>opt p. opt p) opts (apply_config cfg p0)) s = (s1, x)" by (rule prod.exhaust)
  have x: "case x of Inl e \<Rightarrow> pools s1 = pools s | Inr p \<Rightarrow> p \<notin> pools s \<and> pools s1 = insert p (pools s)"
    using assms(1) n unfolding pgpool_ok_def by blast
  have ping: "pools s2 = pools s1" if "px_Ping P p s1 = (s2, y)" for p s2 y using assms(1) that unfolding pgpool_ok_def by blast
  have close: "pools (px_Close P p s2) = pools s2 - {p}" for p s2 using assms(1) unfolding pgpool_ok_def by blast
  show ?thesis
    using assms(2) Inr n x ping close by (auto simp: NewPool_def split: sum.splits prod.splits option.splits)
qed

text \<open>Pool and migrations use the schema of the configuration, whatever the connection string says, unless a pool option changes it.\<close>

lemma same_schema:
  assumes "pg_SearchPath cfg = sp" and "sp \<noteq> []"
  shows "map_of (pcf_params (apply_config cfg p)) ''search_path'' = Some sp \<and> map_of (with_search_path sp params) ''search_path'' = Some sp"
  using assms by (simp add: apply_config_def with_search_path_def Let_def)

text \<open>\<open>conns s\<close> counts the migration connections open, \<open>current s\<close> says that the schema is at the latest version and not dirty.\<close>

definition migrate_ok :: "'s migrate_lib \<Rightarrow> ('s \<Rightarrow> nat) \<Rightarrow> ('s \<Rightarrow> bool) \<Rightarrow> bool" where
  "migrate_ok L conns current \<longleftrightarrow>
     (\<forall>ps s. conns (ml_OpenDB L ps s) = Suc (conns s)) \<and>
     (\<forall>ps t s s' r. ml_WithInstance L ps t s = (s', r) \<longrightarrow> conns s' = conns s) \<and>
     (\<forall>s s' r. ml_NewWithInstance L s = (s', r) \<longrightarrow> conns s' = conns s) \<and>
     (\<forall>s s' r. ml_Up L s = (s', r) \<longrightarrow> conns s' = conns s \<and> (r = UpDone \<or> r = UpNoChange \<longrightarrow> current s')) \<and>
     (\<forall>s. conns (ml_CloseDB L s) = conns s - 1) \<and> (\<forall>s. conns (ml_Close L s) = conns s - 1 \<and> current (ml_Close L s) = current s)"

lemma open_counts:
  assumes "migrate_ok L conns current" and "mg_open L cfg dir s = (s', r)"
  shows "conns s' = (if r = None then Suc (conns s) else conns s)"
proof -
  have o': "conns (ml_OpenDB L ps s) = Suc (conns s)" for ps s using assms(1) unfolding migrate_ok_def by blast
  have w: "conns s' = conns s" if "ml_WithInstance L ps t s = (s', r)" for ps t s s' r using assms(1) that unfolding migrate_ok_def by blast
  have n: "conns s' = conns s" if "ml_NewWithInstance L s = (s', r)" for s s' r using assms(1) that unfolding migrate_ok_def by blast
  have c: "conns (ml_CloseDB L s) = conns s - 1" for s using assms(1) unfolding migrate_ok_def by blast
  show ?thesis
    using assms(2) unfolding mg_open_def Let_def
    by (auto split: option.splits sum.splits prod.splits dest!: w n simp: o' c)
qed

lemma migrations_current_and_closed:
  assumes "migrate_ok L conns current" and "mg_Run L cfg dir s = (s', r)"
  shows "conns s' = conns s" and "mg_Mode cfg = ''migrate'' \<Longrightarrow> r = None \<Longrightarrow> current s'"
proof -
  have u: "conns s' = conns s \<and> (r = UpDone \<or> r = UpNoChange \<longrightarrow> current s')" if "ml_Up L s = (s', r)" for s s' r
    using assms(1) that unfolding migrate_ok_def by blast
  have c: "conns (ml_Close L s) = conns s - 1" "current (ml_Close L s) = current s" for s using assms(1) unfolding migrate_ok_def by blast+
  show "conns s' = conns s"
    using assms(2) unfolding mg_Run_def
    by (auto split: if_splits option.splits prod.splits up_result.splits dest!: open_counts [OF assms(1)] u simp: c)
  show "mg_Mode cfg = ''migrate'' \<Longrightarrow> r = None \<Longrightarrow> current s'"
    using assms(2) unfolding mg_Run_def by (auto split: if_splits option.splits prod.splits up_result.splits dest!: u simp: c)
qed

text \<open>A slow query is logged with its text and the number of its arguments; the log does not depend on the values of the arguments.\<close>

lemma slow_log_without_values:
  assumes "length args = length args'"
  shows "qt_Start (SlowQueryTracer th l) c (sql, args) w = qt_Start (SlowQueryTracer th l) c (sql, args') w"
  using assms by (simp add: SlowQueryTracer_def)

end
