(* ===== verification/Scaffold.thy ===== *)
theory Scaffold
  imports Validation Encoding
begin

text \<open>
  The developer tool \<^verbatim>\<open>cmd/dx\<close>: numbered migration files (\<^verbatim>\<open>newmigration.go\<close>), the sqlc layout (\<^verbatim>\<open>sqlcinit.go\<close>) and the dispatch of the
  command line (\<^verbatim>\<open>main.go\<close>). The file system is the record \<open>os_lib\<close>. Shown: no command changes a file that exists, and a new migration
  is the last of the numbered ones; and where the four digits run out.
\<close>

subsection \<open>Files\<close>

text \<open>\<open>os_Stat\<close> gives the error of \<^verbatim>\<open>os.Stat\<close>, if any; modes are the permission bits.\<close>

record 's os_lib =
  os_MkdirAll :: "string \<Rightarrow> int \<Rightarrow> 's \<Rightarrow> 's \<times> goerr option"
  os_ReadDir :: "string \<Rightarrow> 's \<Rightarrow> goerr + string list"
  os_IsNotExist :: "goerr \<Rightarrow> bool"
  os_Stat :: "string \<Rightarrow> 's \<Rightarrow> goerr option"
  os_WriteFile :: "string \<Rightarrow> string \<Rightarrow> int \<Rightarrow> 's \<Rightarrow> 's \<times> goerr option"

definition writeIfAbsent :: "'s os_lib \<Rightarrow> string \<Rightarrow> string \<Rightarrow> 's \<Rightarrow> 's \<times> goerr option" where
  "writeIfAbsent Os path contents s =
     (case os_Stat Os path s of
        None \<Rightarrow> (s, Some (Opaque (path @ '' already exists'')))
      | Some _ \<Rightarrow> os_WriteFile Os path contents 0x1A4 s)"

subsection \<open>Migrations (newmigration.go)\<close>

definition migrationsDir :: string where "migrationsDir = ''db/migrations''"

text \<open>The pattern of four digits and an underscore, with the digits it captures.\<close>

definition migrationPrefix :: "string \<Rightarrow> string option" where
  "migrationPrefix name =
     (if 5 \<le> length name \<and> list_all is_digit (take 4 name) \<and> name ! 4 = CHR ''_'' then Some (take 4 name) else None)"

definition migration_number :: "string \<Rightarrow> int option" where
  "migration_number name = (case migrationPrefix name of None \<Rightarrow> None | Some m \<Rightarrow> Atoi m)"

fun max_number :: "string list \<Rightarrow> int \<Rightarrow> int" where
  "max_number [] mx = mx"
| "max_number (e # es) mx =
     max_number es (case migration_number e of None \<Rightarrow> mx | Some n \<Rightarrow> if n > mx then n else mx)"

definition nextMigrationNumber :: "'s os_lib \<Rightarrow> string \<Rightarrow> 's \<Rightarrow> goerr + int" where
  "nextMigrationNumber Os dir s =
     (case os_ReadDir Os dir s of
        Inl err \<Rightarrow> if os_IsNotExist Os err then Inr 1 else Inl (Errorf (''read '' @ dir @ '': '') err [])
      | Inr entries \<Rightarrow> Inr (max_number entries 0 + 1))"

text \<open>
  \<^verbatim>\<open>strings.ToLower\<close> as far as the pattern of the slug can tell: besides the capital letters, the Kelvin sign and the dotted capital I become
  ASCII letters, and no other character does.
\<close>

definition lower_rune :: "int \<Rightarrow> int" where
  "lower_rune r = (if 65 \<le> r \<and> r \<le> 90 then r + 32 else if r = 0x212A then 107 else if r = 0x130 then 105 else r)"

definition slug_rune :: "int \<Rightarrow> bool" where
  "slug_rune r \<longleftrightarrow> 97 \<le> r \<and> r \<le> 122 \<or> 48 \<le> r \<and> r \<le> 57"

text \<open>Every run of other characters becomes one underscore; \<open>inside\<close> says that the run has begun.\<close>

fun collapse_runs :: "bool \<Rightarrow> int list \<Rightarrow> string" where
  "collapse_runs inside [] = []"
| "collapse_runs inside (r # rs) =
     (if slug_rune r then char_of (nat r) # collapse_runs False rs
      else if inside then collapse_runs True rs
      else CHR ''_'' # collapse_runs True rs)"

definition trim_underscores :: "string \<Rightarrow> string" where
  "trim_underscores s = rev (dropWhile (\<lambda>c. c = CHR ''_'') (rev (dropWhile (\<lambda>c. c = CHR ''_'') s)))"

definition slugify :: "string \<Rightarrow> string" where
  "slugify name = trim_underscores (collapse_runs False (map lower_rune (runes name)))"

text \<open>\<^verbatim>\<open>unicode.IsSpace\<close>; trimming leaves nothing exactly when all characters are spaces.\<close>

definition unicode_space :: "int \<Rightarrow> bool" where
  "unicode_space r \<longleftrightarrow> 9 \<le> r \<and> r \<le> 13 \<or> 0x2000 \<le> r \<and> r \<le> 0x200A \<or>
     r \<in> {0x20, 0x85, 0xA0, 0x1680, 0x2028, 0x2029, 0x202F, 0x205F, 0x3000}"

definition migration_base :: "int \<Rightarrow> string \<Rightarrow> string" where
  "migration_base n slug = pad_digits (nat n) 4 @ ''_'' @ slug"

definition in_dir :: "string \<Rightarrow> string \<Rightarrow> string" where "in_dir dir name = dir @ ''/'' @ name"

text \<open>The result is the error or the text that is printed.\<close>

definition cmdNewMigration :: "'s os_lib \<Rightarrow> string list \<Rightarrow> 's \<Rightarrow> 's \<times> (goerr + string)" where
  "cmdNewMigration Os args s =
     (if length args \<noteq> 1 \<or> list_all unicode_space (runes (args ! 0)) then (s, Inl (Opaque ''usage: dx new migration <name>''))
      else let name = args ! 0; slug = slugify name
      in if slug = [] then (s, Inl (Opaque (''migration name '' @ go_quote name @ '' has no usable characters'')))
      else case os_MkdirAll Os migrationsDir 0x1ED s of
        (s1, Some err) \<Rightarrow> (s1, Inl (Errorf (''create '' @ migrationsDir @ '': '') err []))
      | (s1, None) \<Rightarrow>
          (case nextMigrationNumber Os migrationsDir s1 of
             Inl err \<Rightarrow> (s1, Inl err)
           | Inr n \<Rightarrow>
               (let base = migration_base n slug;
                    up = in_dir migrationsDir (base @ ''.up.sql''); down = in_dir migrationsDir (base @ ''.down.sql'')
                in case writeIfAbsent Os up (''-- '' @ base @ '': describe the schema change here.'' @ [CHR 0x0A]) s1 of
                     (s2, Some err) \<Rightarrow> (s2, Inl err)
                   | (s2, None) \<Rightarrow>
                       (case writeIfAbsent Os down (''-- '' @ base @ '': reverse of the .up.sql migration.'' @ [CHR 0x0A]) s2 of
                          (s3, Some err) \<Rightarrow> (s3, Inl err)
                        | (s3, None) \<Rightarrow> (s3, Inr (''created '' @ up @ [CHR 0x0A] @ ''created '' @ down @ [CHR 0x0A]))))))"

subsection \<open>The sqlc layout (sqlcinit.go)\<close>

definition text_lines :: "string list \<Rightarrow> string" where
  "text_lines ls = concat (map (\<lambda>l. l @ [CHR 0x0A]) ls)"

definition dq :: "string \<Rightarrow> string \<Rightarrow> string" where
  "dq pre s = pre @ [CHR 0x22] @ s @ [CHR 0x22]"

definition canonicalSqlcYAML :: string where
  "canonicalSqlcYAML = text_lines
     [dq ''version: '' ''2'',
      ''sql:'',
      dq ''  - engine: '' ''postgresql'',
      dq ''    schema: '' ''db/sqlc/schema.sql'',
      dq ''    queries: '' ''db/sqlc/queries'',
      ''    gen:'',
      ''      go:'',
      dq ''        package: '' ''sqlcgen'',
      dq ''        out: '' ''internal/repository/postgres/sqlcgen'',
      dq ''        sql_package: '' ''pgx/v5'',
      ''        emit_json_tags: false'',
      ''        emit_interface: false'',
      ''        overrides:'',
      dq ''          - db_type: '' ''uuid'',
      ''            go_type:'',
      dq ''              import: '' ''github.com/google/uuid'',
      dq ''              type: '' ''UUID'',
      dq ''          - db_type: '' ''uuid'',
      ''            nullable: true'',
      ''            go_type:'',
      dq ''              import: '' ''github.com/google/uuid'',
      dq ''              type: '' ''UUID'',
      ''              pointer: true'',
      dq ''          - db_type: '' ''timestamptz'',
      ''            go_type:'',
      dq ''              import: '' ''time'',
      dq ''              type: '' ''Time'',
      dq ''          - db_type: '' ''pg_catalog.timestamptz'',
      ''            go_type:'',
      dq ''              import: '' ''time'',
      dq ''              type: '' ''Time'']"

definition schemaPlaceholder :: string where
  "schemaPlaceholder = text_lines
     [''-- Reference schema snapshot ONLY '' @ [CHR 0xE2, CHR 0x80, CHR 0x94] @ '' never applied. Paste the service'' @ [CHR 0x27] @ ''s'',
      ''-- current table definitions here so sqlc can validate queries/*.sql'',
      ''-- against real columns/types. Keep this in sync by hand when the schema'',
      ''-- (Flyway-owned or migration-owned) changes.'']"

definition gitkeep :: string where "gitkeep = ''db/sqlc/queries/.gitkeep''"

definition cmdSqlcInit :: "'s os_lib \<Rightarrow> string list \<Rightarrow> 's \<Rightarrow> 's \<times> (goerr + string)" where
  "cmdSqlcInit Os args s =
     (let ready = Inr (''created sqlc.yaml, db/sqlc/schema.sql, db/sqlc/queries/'' @ [CHR 0x0A])
      in if args \<noteq> [] then (s, Inl (Opaque ''usage: dx sqlc init''))
      else case writeIfAbsent Os ''sqlc.yaml'' canonicalSqlcYAML s of
        (s1, Some err) \<Rightarrow> (s1, Inl err)
      | (s1, None) \<Rightarrow>
          (case os_MkdirAll Os ''db/sqlc/queries'' 0x1ED s1 of
             (s2, Some err) \<Rightarrow> (s2, Inl (Errorf ''create db/sqlc/queries: '' err []))
           | (s2, None) \<Rightarrow>
               (case writeIfAbsent Os ''db/sqlc/schema.sql'' schemaPlaceholder s2 of
                  (s3, Some err) \<Rightarrow> (s3, Inl err)
                | (s3, None) \<Rightarrow>
                    (case os_Stat Os gitkeep s3 of
                       Some err \<Rightarrow>
                         if os_IsNotExist Os err
                         then (case os_WriteFile Os gitkeep [] 0x1A4 s3 of
                                 (s4, Some e) \<Rightarrow> (s4, Inl (Errorf (''create '' @ gitkeep @ '': '') e []))
                               | (s4, None) \<Rightarrow> (s4, ready))
                         else (s3, ready)
                     | None \<Rightarrow> (s3, ready)))))"

subsection \<open>The command line (main.go)\<close>

text \<open>The exit status and what is printed; \<open>argv\<close> starts with the name of the program.\<close>

definition dx_usage :: string where
  "dx_usage = text_lines [''usage:'',
     ''  dx new migration <name>   create a timestamped db/migrations/NNNN_<name>.up/.down.sql pair'',
     ''  dx sqlc init               write a canonical sqlc.yaml + db/sqlc/{schema.sql,queries/}'']"

definition dx_main :: "'s os_lib \<Rightarrow> string list \<Rightarrow> 's \<Rightarrow> 's \<times> int \<times> string" where
  "dx_main Os argv s =
     (let finish = (\<lambda>x. case x of (s', Inl err) \<Rightarrow> (s', 1, ''dx: '' @ ErrorText err @ [CHR 0x0A]) | (s', Inr printed) \<Rightarrow> (s', 0, printed))
      in case argv of
           prog # grp # sub # rest \<Rightarrow>
             if grp = ''new'' \<and> sub = ''migration'' then finish (cmdNewMigration Os rest s)
             else if grp = ''sqlc'' \<and> sub = ''init'' then finish (cmdSqlcInit Os rest s)
             else (s, 2, dx_usage)
         | _ \<Rightarrow> (s, 2, dx_usage))"

subsection \<open>What the file system promises\<close>

text \<open>
  \<open>files s p\<close> is the contents of the regular file at \<open>p\<close>. Making directories and reading change no file, a listing has every file of the directory, an
  existing file is found by \<^verbatim>\<open>Stat\<close>, and writing concerns one path: when it fails, that path may hold anything.
\<close>

definition fs_ok :: "'s os_lib \<Rightarrow> ('s \<Rightarrow> string \<Rightarrow> string option) \<Rightarrow> bool" where
  "fs_ok Os files \<longleftrightarrow>
     (\<forall>dir md s. files (fst (os_MkdirAll Os dir md s)) = files s) \<and>
     (\<forall>dir s names nm. os_ReadDir Os dir s = Inr names \<longrightarrow> files s (in_dir dir nm) \<noteq> None \<longrightarrow> CHR ''/'' \<notin> set nm \<longrightarrow> nm \<in> set names) \<and>
     (\<forall>dir s e nm. os_ReadDir Os dir s = Inl e \<longrightarrow> os_IsNotExist Os e \<longrightarrow> files s (in_dir dir nm) = None) \<and>
     (\<forall>p s. files s p \<noteq> None \<longrightarrow> os_Stat Os p s = None) \<and>
     (\<forall>p c md s s' r q. os_WriteFile Os p c md s = (s', r) \<longrightarrow> (q \<noteq> p \<longrightarrow> files s' q = files s q) \<and> (r = None \<longrightarrow> files s' p = Some c))"

lemma fs_okD:
  assumes "fs_ok Os files"
  shows "files (fst (os_MkdirAll Os dir md s)) = files s"
    and "os_ReadDir Os dir s = Inr names \<Longrightarrow> files s (in_dir dir nm) \<noteq> None \<Longrightarrow> CHR ''/'' \<notin> set nm \<Longrightarrow> nm \<in> set names"
    and "os_ReadDir Os dir s = Inl e \<Longrightarrow> os_IsNotExist Os e \<Longrightarrow> files s (in_dir dir nm) = None"
    and "os_Stat Os p s = Some e \<Longrightarrow> files s p = None"
    and "os_WriteFile Os p c md s = (s', r) \<Longrightarrow> q \<noteq> p \<Longrightarrow> files s' q = files s q"
    and "os_WriteFile Os p c md s = (s', None) \<Longrightarrow> files s' p = Some c"
  using assms unfolding fs_ok_def by - (blast | metis option.distinct(1))+

lemma MkdirAll_files: "fs_ok Os files \<Longrightarrow> os_MkdirAll Os dir md s = (s', r) \<Longrightarrow> files s' = files s"
  using fs_okD(1) [of Os files dir md s] by simp

lemma written_file: "fs_ok Os files \<Longrightarrow> os_WriteFile Os p c md s = (s', None) \<Longrightarrow> files s' = (files s)(p \<mapsto> c)"
  using fs_okD(5,6) [of Os files p c md s s'] by (auto simp: fun_eq_iff)

lemma WriteFile_fresh:
  assumes "fs_ok Os files" and "os_Stat Os p s = Some e" and "os_WriteFile Os p c md s = (s', r)"
  shows "files s \<subseteq>\<^sub>m files s'"
  using fs_okD(4) [OF assms(1,2)] fs_okD(5) [OF assms(1,3)] by (auto simp: map_le_def) (metis option.distinct(1))

text \<open>An existing file is left alone, and success means the file is new and has the contents.\<close>

lemma writeIfAbsent_keeps:
  assumes "fs_ok Os files" and "writeIfAbsent Os p c s = (s', r)"
  shows "files s \<subseteq>\<^sub>m files s'" and "r = None \<Longrightarrow> files s p = None \<and> files s' = (files s)(p \<mapsto> c)"
proof -
  show "files s \<subseteq>\<^sub>m files s'" using assms by (auto simp: writeIfAbsent_def split: option.splits intro: WriteFile_fresh)
  show "r = None \<Longrightarrow> files s p = None \<and> files s' = (files s)(p \<mapsto> c)"
    using assms written_file [OF assms(1)] fs_okD(4) [OF assms(1)] by (auto simp: writeIfAbsent_def split: option.splits)
qed

subsection \<open>Numbers\<close>

lemma max_number_ge: "mx \<le> max_number es mx"
proof (induction es arbitrary: mx)
  case (Cons e es)
  show ?case using Cons [of "case migration_number e of None \<Rightarrow> mx | Some n \<Rightarrow> if n > mx then n else mx"]
    by (auto split: option.splits if_splits)
qed simp

lemma max_number_upper: "nm \<in> set es \<Longrightarrow> migration_number nm = Some n \<Longrightarrow> n \<le> max_number es mx"
proof (induction es arbitrary: mx)
  case (Cons e es)
  then show ?case using max_number_ge [of "if n > mx then n else mx" es] by (auto split: if_splits)
qed simp

lemma parse_digits_bound: "parse_digits acc s = Some n \<Longrightarrow> n < (acc + 1) * 10 ^ length s"
proof (induction s arbitrary: acc)
  case (Cons c s)
  then have d: "is_digit c" and n: "n < (10 * acc + (of_char c - 48) + 1) * 10 ^ length s" by (auto split: if_splits)
  note n
  also have "(10 * acc + (of_char c - 48) + 1) * 10 ^ length s \<le> (10 * acc + 10) * 10 ^ length s" using d by (intro mult_right_mono) (auto simp: is_digit_def)
  finally show ?case by (simp add: algebra_simps)
qed simp

lemma migration_number_bound: "migration_number nm = Some n \<Longrightarrow> 0 \<le> n \<and> n \<le> 9999"
proof -
  assume a: "migration_number nm = Some n"
  then have l: "5 \<le> length nm" "list_all is_digit (take 4 nm)" and at: "Atoi (take 4 nm) = Some n"
    by (auto simp: migration_number_def migrationPrefix_def split: if_splits)
  then obtain c r where t: "take 4 nm = c # r" "is_digit c" by (cases "take 4 nm") auto
  then have "c \<noteq> CHR ''-''" "c \<noteq> CHR ''+''" by (auto simp: is_digit_def)
  with at t obtain k where "parse_digits 0 (take 4 nm) = Some k" "n = int k"
    by (auto simp: Atoi_def Let_def parse_uint_def split: option.splits if_splits)
  then show ?thesis using parse_digits_bound [of 0 "take 4 nm" k] l by simp
qed

lemma max_number_bound: "0 \<le> mx \<Longrightarrow> mx \<le> 9999 \<Longrightarrow> max_number es mx \<le> 9999"
proof (induction es arbitrary: mx)
  case (Cons e es)
  then show ?case using migration_number_bound [of e] by (cases "migration_number e") auto
qed simp

lemma nextMigrationNumber_range:
  assumes "nextMigrationNumber Os dir s = Inr n"
  shows "1 \<le> n" and "n \<le> 10000"
  using assms max_number_ge [of 0] max_number_bound [of 0]
  by (auto simp: nextMigrationNumber_def split: sum.splits if_splits)

lemma nextMigrationNumber_last:
  assumes "fs_ok Os files" and "nextMigrationNumber Os dir s = Inr n" and "files s (in_dir dir nm) \<noteq> None"
    and "CHR ''/'' \<notin> set nm" and "migration_number nm = Some m"
  shows "m < n"
proof (cases "os_ReadDir Os dir s")
  case (Inl e)
  then show ?thesis using assms fs_okD(3) [OF assms(1)] by (auto simp: nextMigrationNumber_def split: if_splits)
next
  case (Inr names)
  then have "m \<le> max_number names 0" using max_number_upper [OF fs_okD(2) [OF assms(1) Inr assms(3,4)] assms(5)] by simp
  with Inr assms(2) show ?thesis by (simp add: nextMigrationNumber_def)
qed

lemma nat_digits_length: "n < 10 ^ Suc k \<Longrightarrow> length (nat_digits n) \<le> Suc k"
proof (induction k arbitrary: n)
  case (Suc k)
  then have "n div 10 < 10 ^ Suc k" by (simp add: less_mult_imp_div_less)
  then show ?case using Suc.IH by (subst nat_digits.simps) simp
qed (simp add: nat_digits.simps)

lemma pad_digits_length: "n < 10 ^ Suc k \<Longrightarrow> length (pad_digits n (Suc k)) = Suc k"
  using nat_digits_length [of n k] by (simp add: pad_digits_def Let_def)

lemma is_digit_zero: "is_digit (CHR ''0'')"
  by (simp add: is_digit_def)

lemma pad_digits_digit: "c \<in> set (pad_digits n k) \<Longrightarrow> is_digit c"
  by (auto simp: pad_digits_def Let_def is_digit_zero nat_digits_all_digits)

lemma parse_digits_zeros [simp]: "parse_digits 0 (replicate k (CHR ''0'') @ s) = parse_digits 0 s"
  by (induction k) (simp_all add: is_digit_zero)

lemma Atoi_pad_digits:
  assumes "in_int64 (int n)"
  shows "Atoi (pad_digits n k) = Some (int n)"
proof -
  have p: "parse_uint (pad_digits n k) = Some n"
    by (simp add: parse_uint_def pad_digits_def Let_def parse_digits_nat_digits)
  obtain c r where d: "pad_digits n k = c # r" by (cases "pad_digits n k") (use p in \<open>auto simp: parse_uint_def\<close>)
  then have "is_digit c" using pad_digits_digit [of c n k] by simp
  then have "c \<noteq> CHR ''-''" "c \<noteq> CHR ''+''" by (auto simp: is_digit_def)
  then show ?thesis using p assms by (simp add: Atoi_def d)
qed

lemma migration_number_base:
  assumes "0 \<le> n" and "n \<le> 9999"
  shows "migration_number (migration_base n slug @ ext) = Some n"
proof -
  have l: "length (pad_digits (nat n) 4) = 4" using assms pad_digits_length [of "nat n" 3] by simp
  then have t: "migrationPrefix (migration_base n slug @ ext) = Some (pad_digits (nat n) 4)"
    by (auto simp: migrationPrefix_def migration_base_def list_all_iff nth_append intro: pad_digits_digit)
  have "Atoi (pad_digits (nat n) 4) = Some n" using assms Atoi_pad_digits [of "nat n" 4] by (simp add: in_int64_def)
  with t show ?thesis by (simp add: migration_number_def)
qed

subsection \<open>Slugs\<close>

definition slug_char :: "char \<Rightarrow> bool" where
  "slug_char c \<longleftrightarrow> c = CHR ''_'' \<or> slug_rune (byte c)"

lemma collapse_runs_chars: "c \<in> set (collapse_runs b rs) \<Longrightarrow> slug_char c"
  by (induction b rs rule: collapse_runs.induct) (auto simp: slug_char_def slug_rune_def byte_def split: if_splits)

lemma slugify_chars: "c \<in> set (slugify name) \<Longrightarrow> slug_char c"
  unfolding slugify_def trim_underscores_def by (auto dest!: set_dropWhileD collapse_runs_chars)

lemma slug_char_no_slash: "\<not> slug_char (CHR ''/'')" "\<not> is_digit (CHR ''/'')"
  by (simp_all add: slug_char_def slug_rune_def byte_def is_digit_def)

lemma migration_base_no_slash: "CHR ''/'' \<notin> set (migration_base n (slugify name))"
  using pad_digits_digit [of "CHR ''/''" "nat n" 4] slugify_chars [of "CHR ''/''" name] slug_char_no_slash
  by (auto simp: migration_base_def)

lemma slugify_border:
  assumes "slugify name \<noteq> []"
  shows "hd (slugify name) \<noteq> CHR ''_''" and "last (slugify name) \<noteq> CHR ''_''"
proof -
  let ?u = "\<lambda>c. c = CHR ''_''"
  obtain t where t: "slugify name = rev (dropWhile ?u (rev (dropWhile ?u t)))" by (auto simp: slugify_def trim_underscores_def)
  let ?d = "dropWhile ?u t" and ?e = "dropWhile ?u (rev (dropWhile ?u t))"
  have e: "?e \<noteq> []" using assms t by auto
  have "rev ?d = takeWhile ?u (rev ?d) @ ?e" by simp
  then have split: "?d = rev ?e @ rev (takeWhile ?u (rev ?d))" by (metis rev_append rev_rev_ident)
  then have "hd ?d = hd (rev ?e)" and "?d \<noteq> []" using e by (metis hd_append2 rev_is_Nil_conv, metis Nil_is_append_conv rev_is_Nil_conv)
  then show "hd (slugify name) \<noteq> CHR ''_''" using hd_dropWhile [of ?u t] t by metis
  show "last (slugify name) \<noteq> CHR ''_''" using hd_dropWhile [of ?u "rev ?d"] e t by (metis last_rev)
qed

subsection \<open>The commands\<close>

definition up_file :: "int \<Rightarrow> string \<Rightarrow> string" where "up_file n slug = migration_base n slug @ ''.up.sql''"
definition down_file :: "int \<Rightarrow> string \<Rightarrow> string" where "down_file n slug = migration_base n slug @ ''.down.sql''"

lemma cmdNewMigration_success:
  assumes "cmdNewMigration Os args s = (s', Inr out)"
  obtains name n s1 s2 c1 c2 where "args = [name]" and "slugify name \<noteq> []" and "os_MkdirAll Os migrationsDir 0x1ED s = (s1, None)"
    and "nextMigrationNumber Os migrationsDir s1 = Inr n"
    and "writeIfAbsent Os (in_dir migrationsDir (up_file n (slugify name))) c1 s1 = (s2, None)"
    and "writeIfAbsent Os (in_dir migrationsDir (down_file n (slugify name))) c2 s2 = (s', None)"
proof -
  have "length args = 1" using assms by (auto simp: cmdNewMigration_def split: if_splits)
  then obtain name where "args = [name]" by (cases args) auto
  with assms that show ?thesis
    by (auto simp: cmdNewMigration_def Let_def up_file_def down_file_def split: if_splits prod.splits option.splits sum.splits)
qed

lemma cmdNewMigration_keeps:
  assumes "fs_ok Os files" and "cmdNewMigration Os args s = (s', r)"
  shows "files s \<subseteq>\<^sub>m files s'"
  using assms(2)
  by (auto simp: cmdNewMigration_def Let_def split: if_splits prod.splits option.splits sum.splits
      dest!: MkdirAll_files [OF assms(1)] writeIfAbsent_keeps(1) [OF assms(1)] elim: map_le_trans)

text \<open>
  A new migration is the last one and disturbs nothing. Whatever happens, no existing file changes. If the command succeeds, exactly two files are
  new, named by one number and slug: the number is larger than that of every numbered file of the directory, the slug is made of lower case
  letters, digits and inner underscores, and up to 9999 the number can be read back from the names.
\<close>

theorem new_migration_appended:
  assumes "fs_ok Os files" and "cmdNewMigration Os args s = (s', r)"
  shows "files s \<subseteq>\<^sub>m files s' \<and>
    (\<forall>out. r = Inr out \<longrightarrow>
       (\<exists>name n slug up down.
          args = [name] \<and> slug = slugify name \<and> slug \<noteq> [] \<and> 1 \<le> n \<and> n \<le> 10000 \<and>
          up = up_file n slug \<and> down = down_file n slug \<and>
          dom (files s') = insert (in_dir migrationsDir up) (insert (in_dir migrationsDir down) (dom (files s))) \<and>
          files s (in_dir migrationsDir up) = None \<and> files s (in_dir migrationsDir down) = None \<and>
          (\<forall>nm m. files s (in_dir migrationsDir nm) \<noteq> None \<longrightarrow> CHR ''/'' \<notin> set nm \<longrightarrow> migration_number nm = Some m \<longrightarrow> m < n) \<and>
          (n \<le> 9999 \<longrightarrow> migration_number up = Some n \<and> migration_number down = Some n)))"
proof (intro conjI allI impI)
  show "files s \<subseteq>\<^sub>m files s'" using cmdNewMigration_keeps [OF assms] .
next
  fix out assume "r = Inr out"
  with assms(2) obtain name n s1 s2 c1 c2 where run: "args = [name]" "slugify name \<noteq> []" "os_MkdirAll Os migrationsDir 0x1ED s = (s1, None)"
      "nextMigrationNumber Os migrationsDir s1 = Inr n"
      "writeIfAbsent Os (in_dir migrationsDir (up_file n (slugify name))) c1 s1 = (s2, None)"
      "writeIfAbsent Os (in_dir migrationsDir (down_file n (slugify name))) c2 s2 = (s', None)"
    by (auto elim: cmdNewMigration_success)
  let ?up = "up_file n (slugify name)" and ?down = "down_file n (slugify name)"
  have f1: "files s1 = files s" using MkdirAll_files [OF assms(1) run(3)] .
  have w1: "files s (in_dir migrationsDir ?up) = None" "files s2 = (files s)(in_dir migrationsDir ?up \<mapsto> c1)"
    using writeIfAbsent_keeps(2) [OF assms(1) run(5)] f1 by simp_all
  have w2: "files s (in_dir migrationsDir ?down) = None" "files s' = (files s2)(in_dir migrationsDir ?down \<mapsto> c2)"
    using writeIfAbsent_keeps(2) [OF assms(1) run(6)] w1 by (auto split: if_splits)
  have "dom (files s') = insert (in_dir migrationsDir ?up) (insert (in_dir migrationsDir ?down) (dom (files s)))"
    using w1(2) w2(2) by auto
  moreover have "\<forall>nm m. files s (in_dir migrationsDir nm) \<noteq> None \<longrightarrow> CHR ''/'' \<notin> set nm \<longrightarrow> migration_number nm = Some m \<longrightarrow> m < n"
    using nextMigrationNumber_last [OF assms(1) run(4)] unfolding f1 by blast
  moreover have "n \<le> 9999 \<longrightarrow> migration_number ?up = Some n \<and> migration_number ?down = Some n"
    using nextMigrationNumber_range(1) [OF run(4)] migration_number_base [of n "slugify name"] by (simp add: up_file_def down_file_def)
  ultimately show "\<exists>name n slug up down.
          args = [name] \<and> slug = slugify name \<and> slug \<noteq> [] \<and> 1 \<le> n \<and> n \<le> 10000 \<and> up = up_file n slug \<and> down = down_file n slug \<and>
          dom (files s') = insert (in_dir migrationsDir up) (insert (in_dir migrationsDir down) (dom (files s))) \<and>
          files s (in_dir migrationsDir up) = None \<and> files s (in_dir migrationsDir down) = None \<and>
          (\<forall>nm m. files s (in_dir migrationsDir nm) \<noteq> None \<longrightarrow> CHR ''/'' \<notin> set nm \<longrightarrow> migration_number nm = Some m \<longrightarrow> m < n) \<and>
          (n \<le> 9999 \<longrightarrow> migration_number up = Some n \<and> migration_number down = Some n)"
    using run(1,2) w1(1) w2(1) nextMigrationNumber_range [OF run(4)] by metis
qed

text \<open>
  After 9999 the numbers stop: the next file is numbered 10000, but five digits do not match the pattern, so every later migration gets 10000 too and
  the versions of two migrations coincide.
\<close>

theorem migration_numbers_stop:
  assumes "os_ReadDir Os dir s = Inr names" and "nm \<in> set names" and "migration_number nm = Some 9999"
  shows "nextMigrationNumber Os dir s = Inr 10000" and "migration_number (up_file 10000 slug) = None"
proof -
  show "nextMigrationNumber Os dir s = Inr 10000"
    using assms max_number_upper [OF assms(2,3), of 0] max_number_bound [of 0 names] by (simp add: nextMigrationNumber_def)
  have "pad_digits (nat 10000) 4 = ''10000''" by (simp add: pad_digits_def nat_digits.simps digit_char_def char_of_def bit_0)
  then show "migration_number (up_file 10000 slug) = None"
    by (simp add: migration_number_def migrationPrefix_def up_file_def migration_base_def)
qed

text \<open>The sqlc command changes no existing file either; it is complete when it succeeds.\<close>

lemma gitkeep_other: "gitkeep \<noteq> ''sqlc.yaml''" "gitkeep \<noteq> ''db/sqlc/schema.sql''"
  by (simp_all add: gitkeep_def)

lemma cmdSqlcInit_keeps:
  assumes "fs_ok Os files" and "cmdSqlcInit Os args s = (s', r)"
  shows "files s \<subseteq>\<^sub>m files s'"
  using assms(2)
  by (auto simp: cmdSqlcInit_def Let_def split: if_splits prod.splits option.splits
      dest!: MkdirAll_files [OF assms(1)] writeIfAbsent_keeps(1) [OF assms(1)] WriteFile_fresh [OF assms(1)] elim: map_le_trans)
    (meson map_le_trans)+

lemma cmdSqlcInit_success:
  assumes "fs_ok Os files" and "cmdSqlcInit Os args s = (s', Inr out)"
  obtains s1 s2 s3 where "writeIfAbsent Os ''sqlc.yaml'' canonicalSqlcYAML s = (s1, None)" and "files s2 = files s1"
    and "writeIfAbsent Os ''db/sqlc/schema.sql'' schemaPlaceholder s2 = (s3, None)" and "\<And>p. p \<noteq> gitkeep \<Longrightarrow> files s' p = files s3 p"
  using assms(2)
  by (auto simp: cmdSqlcInit_def Let_def split: if_splits prod.splits option.splits
      dest!: MkdirAll_files [OF assms(1)] dest: fs_okD(5) [OF assms(1)] intro: that)

theorem sqlc_init_complete:
  assumes "fs_ok Os files" and "cmdSqlcInit Os args s = (s', r)"
  shows "files s \<subseteq>\<^sub>m files s' \<and>
    (\<forall>out. r = Inr out \<longrightarrow> files s' ''sqlc.yaml'' = Some canonicalSqlcYAML \<and> files s' ''db/sqlc/schema.sql'' = Some schemaPlaceholder)"
proof (intro conjI allI impI)
  show "files s \<subseteq>\<^sub>m files s'" using cmdSqlcInit_keeps [OF assms] .
next
  fix out assume "r = Inr out"
  with assms(2) obtain s1 s2 s3 where run: "writeIfAbsent Os ''sqlc.yaml'' canonicalSqlcYAML s = (s1, None)" "files s2 = files s1"
      "writeIfAbsent Os ''db/sqlc/schema.sql'' schemaPlaceholder s2 = (s3, None)" "\<And>p. p \<noteq> gitkeep \<Longrightarrow> files s' p = files s3 p"
    by (auto elim: cmdSqlcInit_success [OF assms(1)])
  show "files s' ''sqlc.yaml'' = Some canonicalSqlcYAML" and "files s' ''db/sqlc/schema.sql'' = Some schemaPlaceholder"
    using writeIfAbsent_keeps(2) [OF assms(1) run(1)] writeIfAbsent_keeps(2) [OF assms(1) run(3)] run(2,4) gitkeep_other by auto
qed

text \<open>It cannot be run again, although it is documented as safe to re-run: after an attempt that wrote the first file, it never gets beyond it.\<close>

theorem sqlc_init_not_repeatable:
  assumes "fs_ok Os files" and "files s ''sqlc.yaml'' \<noteq> None"
  shows "cmdSqlcInit Os [] s = (s, Inl (Opaque ''sqlc.yaml already exists''))"
  using assms by (simp add: cmdSqlcInit_def writeIfAbsent_def fs_ok_def)

subsection \<open>A file system in memory\<close>

text \<open>Paths with their contents; directories exist as soon as they are used.\<close>

type_synonym mem_fs = "(string \<times> string) list"

definition mem_os :: "mem_fs os_lib" where
  "mem_os = \<lparr>os_MkdirAll = (\<lambda>dir md s. (s, None)),
     os_ReadDir = (\<lambda>dir s. Inr (map (drop (length (in_dir dir []))) (filter (\<lambda>p. HasPrefix p (in_dir dir [])) (map fst s)))),
     os_IsNotExist = (\<lambda>e. True),
     os_Stat = (\<lambda>p s. if map_of s p = None then Some (Opaque ''no such file'') else None),
     os_WriteFile = (\<lambda>p c md s. (map_put p c s, None))\<rparr>"

lemma mem_os_ok: "fs_ok mem_os map_of"
proof -
  have "nm \<in> set (map (drop (length (in_dir dir []))) (filter (\<lambda>p. HasPrefix p (in_dir dir [])) (map fst s)))"
    if "map_of s (in_dir dir nm) \<noteq> None" for dir nm and s :: mem_fs
  proof -
    have "in_dir dir nm \<in> fst ` set s" using that by (metis map_of_eq_None_iff)
    then show ?thesis by (force simp: HasPrefix_def in_dir_def)
  qed
  then show ?thesis unfolding fs_ok_def mem_os_def by auto
qed

definition demo_fs :: mem_fs where
  "demo_fs = [(''db/migrations/0001_baseline.up.sql'', ''CREATE''), (''db/migrations/0001_baseline.down.sql'', ''DROP'')]"

lemma demo_migration:
  "map fst (fst (cmdNewMigration mem_os [''Add users!''] demo_fs)) =
     map fst demo_fs @ [''db/migrations/0002_add_users.up.sql'', ''db/migrations/0002_add_users.down.sql'']"
  by code_simp

end
