(* ===== verification/Wiring.thy ===== *)
theory Wiring
  imports Retry SqlQuery Scaffold EsClient ObjectStore Edge
begin

text \<open>
  How a service is put together: the constructors of the clients (\<^verbatim>\<open>grpc/client\<close>, \<^verbatim>\<open>database/elasticsearch/client\<close>, \<^verbatim>\<open>database/redis\<close>, \<^verbatim>\<open>storage/s3\<close>), the loaders
  of configuration and OpenAPI documents (\<^verbatim>\<open>config\<close>, \<^verbatim>\<open>openapi\<close>), and the instrumentation (\<^verbatim>\<open>observability\<close>, \<^verbatim>\<open>metrics\<close>, \<^verbatim>\<open>messaging/rabbitmq/otel.go\<close>). The
  libraries that are set up are parameters; what they are set up with is written out. Shown: TLS verification is never weakened unless the configuration
  says so, a failed start of the Redis client leaves no connection open, tracing is initialised once, the transport of Elasticsearch is transparent, and
  a trace context travels with a message.
\<close>

subsection \<open>TLS\<close>

text \<open>The pool of trusted roots is named by the PEM text it was filled from, \<open>None\<close> being the roots of the system. \<open>pem_ok\<close> is the answer of \<^verbatim>\<open>AppendCertsFromPEM\<close>.\<close>

record tls_settings =
  tls_ServerName :: string
  tls_MinVersion :: int
  tls_RootCAs :: "string option"
  tls_InsecureSkipVerify :: bool

record os_files =
  ReadFile :: "string \<Rightarrow> goerr + string"
  pem_ok :: "string \<Rightarrow> bool"

definition with_roots :: "os_files \<Rightarrow> string \<Rightarrow> string \<Rightarrow> string \<Rightarrow> tls_settings \<Rightarrow> goerr + tls_settings" where
  "with_roots F unread invalid path tlsCfg =
     (if path = [] then Inr tlsCfg
      else case ReadFile F path of
        Inl e \<Rightarrow> Inl (Errorf unread e [])
      | Inr pem \<Rightarrow> if \<not> pem_ok F pem then Inl (Opaque invalid) else Inr (tlsCfg\<lparr>tls_RootCAs := Some pem\<rparr>))"

subsection \<open>gRPC channels (grpc/client)\<close>

record grpcclient_Config =
  gd_Target :: string
  gd_TLS :: bool
  gd_CACertPath :: string
  gd_ServerNameOverride :: string
  gd_KeepaliveTime :: int
  gd_KeepaliveTimeout :: int

datatype credentials = Insecure | NewTLS tls_settings

text \<open>An interceptor is the resilience interceptor with its options or one of the application.\<close>

datatype 'i unary = Resilience "(grpcConfig \<Rightarrow> grpcConfig) list" | Application 'i

datatype ('i, 'd) DialOption =
    WithTransportCredentials credentials
  | WithKeepaliveParams int int
  | WithStatsHandler
  | WithChainUnaryInterceptor "'i unary list"
  | RawOption 'd

record ('i, 'd) dialConfig =
  dc_tracing :: bool
  dc_resilient :: bool
  dc_resilienceOpts :: "(grpcConfig \<Rightarrow> grpcConfig) list"
  dc_unary :: "'i list"
  dc_extra :: "'d list"

type_synonym ('i, 'd) dial_opt = "('i, 'd) dialConfig \<Rightarrow> ('i, 'd) dialConfig"

definition WithoutResilience :: "('i, 'd) dial_opt" where "WithoutResilience c = c\<lparr>dc_resilient := False\<rparr>"
definition WithoutTracing :: "('i, 'd) dial_opt" where "WithoutTracing c = c\<lparr>dc_tracing := False\<rparr>"
definition WithResilience :: "(grpcConfig \<Rightarrow> grpcConfig) list \<Rightarrow> ('i, 'd) dial_opt" where
  "WithResilience opts c = c\<lparr>dc_resilienceOpts := dc_resilienceOpts c @ opts\<rparr>"
definition WithUnaryInterceptors :: "'i list \<Rightarrow> ('i, 'd) dial_opt" where
  "WithUnaryInterceptors is c = c\<lparr>dc_unary := dc_unary c @ is\<rparr>"
definition WithDialOptions :: "'d list \<Rightarrow> ('i, 'd) dial_opt" where
  "WithDialOptions opts c = c\<lparr>dc_extra := dc_extra c @ opts\<rparr>"

definition transportCredentials :: "os_files \<Rightarrow> grpcclient_Config \<Rightarrow> goerr + credentials" where
  "transportCredentials F cfg =
     (if \<not> gd_TLS cfg then Inr Insecure
      else map_sum (\<lambda>e. e) NewTLS
        (with_roots F ''grpc client: read ca_cert_path: '' ''grpc client: ca_cert_path has no valid PEM certificates'' (gd_CACertPath cfg)
           \<lparr>tls_ServerName = gd_ServerNameOverride cfg, tls_MinVersion = 0x0303, tls_RootCAs = None, tls_InsecureSkipVerify = False\<rparr>))"

definition dial_options :: "credentials \<Rightarrow> grpcclient_Config \<Rightarrow> ('i, 'd) dialConfig \<Rightarrow> ('i, 'd) DialOption list" where
  "dial_options creds cfg dc =
     (let kaTime = (if gd_KeepaliveTime cfg \<le> 0 then 30 * 10 ^ 9 else gd_KeepaliveTime cfg);
          kaTimeout = (if gd_KeepaliveTimeout cfg \<le> 0 then 10 * 10 ^ 9 else gd_KeepaliveTimeout cfg);
          unary = (if dc_resilient dc then [Resilience (dc_resilienceOpts dc)] else []) @ map Application (dc_unary dc)
      in [WithTransportCredentials creds, WithKeepaliveParams kaTime kaTimeout]
         @ (if dc_tracing dc then [WithStatsHandler] else [])
         @ (if unary \<noteq> [] then [WithChainUnaryInterceptor unary] else [])
         @ map RawOption (dc_extra dc))"

definition Dial ::
  "os_files \<Rightarrow> (string \<Rightarrow> ('i, 'd) DialOption list \<Rightarrow> goerr + 'c) \<Rightarrow> grpcclient_Config \<Rightarrow> ('i, 'd) dial_opt list \<Rightarrow> goerr + 'c" where
  "Dial F newClient cfg opts =
     (if gd_Target cfg = [] then Inl (Opaque ''grpc client: target is required'')
      else let dc = fold (\<lambda>opt c. opt c) opts
             \<lparr>dc_tracing = True, dc_resilient = True, dc_resilienceOpts = [], dc_unary = [], dc_extra = []\<rparr>
      in case transportCredentials F cfg of
           Inl e \<Rightarrow> Inl e
         | Inr creds \<Rightarrow>
             (case newClient (gd_Target cfg) (dial_options creds cfg dc) of
                Inl e \<Rightarrow> Inl (Errorf (''grpc client: dial '' @ gd_Target cfg @ '': '') e [])
              | Inr conn \<Rightarrow> Inr conn))"

subsection \<open>The Elasticsearch client (client.go, config.go, instrument.go)\<close>

text \<open>A transport is the one given in the configuration, the default one, a clone of it with its pool sizes and TLS configuration, or a wrapper. Of the logger it only
  matters whether there is one.\<close>

datatype 't RoundTripper =
    Given 't
  | DefaultTransport
  | Cloned int int "tls_settings option"
  | Observed "'t RoundTripper" bool bool
  | Traced "'t RoundTripper"

record 't es_Config =
  esc_Addresses :: "string list"
  esc_Username :: string
  esc_Password :: string
  esc_APIKey :: string
  esc_Timeout :: int
  esc_CACertPath :: string
  esc_InsecureSkipVerify :: bool
  esc_MaxRetries :: int
  esc_DisableRetry :: bool
  esc_MaxIdleConnsPerHost :: int
  esc_EnableMetrics :: bool
  esc_EnableTracing :: bool
  esc_Logger :: bool
  esc_Transport :: "'t option"

text \<open>\<open>base\<close> are \<^verbatim>\<open>MaxIdleConns\<close> and \<^verbatim>\<open>MaxIdleConnsPerHost\<close> of the default transport, if it is one of \<^verbatim>\<open>net/http\<close>.\<close>

definition cloned_transport :: "os_files \<Rightarrow> (int \<times> int) option \<Rightarrow> 't es_Config \<Rightarrow> goerr + 't RoundTripper" where
  "cloned_transport F base cfg =
     (case base of
        None \<Rightarrow> Inl (Opaque ''elastic config: default transport unavailable for TLS/pool configuration'')
      | Some (idle, perHost) \<Rightarrow>
          (let n = esc_MaxIdleConnsPerHost cfg;
               perHost' = (if n > 0 then n else perHost);
               idle' = (if n > 0 \<and> idle < n then n else idle)
           in if esc_CACertPath cfg \<noteq> [] \<or> esc_InsecureSkipVerify cfg
              then map_sum (\<lambda>e. e) (\<lambda>t. Cloned idle' perHost' (Some t))
                (with_roots F ''elastic config: read ca_cert_path: '' ''elastic config: ca_cert_path contains no valid PEM certificates'' (esc_CACertPath cfg)
                   \<lparr>tls_ServerName = [], tls_MinVersion = 0, tls_RootCAs = None, tls_InsecureSkipVerify = esc_InsecureSkipVerify cfg\<rparr>)
              else Inr (Cloned idle' perHost' None)))"

definition or_default :: "'t RoundTripper option \<Rightarrow> 't RoundTripper" where
  "or_default rt = (case rt of Some t \<Rightarrow> t | None \<Rightarrow> DefaultTransport)"

definition buildTransport :: "os_files \<Rightarrow> (int \<times> int) option \<Rightarrow> 't es_Config \<Rightarrow> goerr + 't RoundTripper option" where
  "buildTransport F base cfg =
     (case (case esc_Transport cfg of
              Some t \<Rightarrow> Inr (Some (Given t))
            | None \<Rightarrow>
                if esc_CACertPath cfg \<noteq> [] \<or> esc_InsecureSkipVerify cfg \<or> esc_MaxIdleConnsPerHost cfg > 0
                then map_sum (\<lambda>e. e) Some (cloned_transport F base cfg)
                else Inr None) of
        Inl e \<Rightarrow> Inl e
      | Inr rt \<Rightarrow>
          (let rt1 = (if esc_EnableMetrics cfg \<or> esc_Logger cfg then Some (Observed (or_default rt) (esc_Logger cfg) (esc_EnableMetrics cfg)) else rt)
           in Inr (if esc_EnableTracing cfg then Some (Traced (or_default rt1)) else rt1)))"

record 't es_settings =
  ess_Addresses :: "string list"
  ess_Username :: string
  ess_Password :: string
  ess_APIKey :: string
  ess_DisableRetry :: bool
  ess_MaxRetries :: int
  ess_RetryOnStatus :: "int list"
  ess_RetryBackoff :: "(int \<Rightarrow> int) option"
  ess_Transport :: "'t RoundTripper option"

definition es_RetryBackoff :: "int \<Rightarrow> int" where
  "es_RetryBackoff attempt = int64 (int64 (int64 (attempt * attempt) * 100) * 1000000)"

definition es_settings_of :: "'t es_Config \<Rightarrow> 't RoundTripper option \<Rightarrow> 't es_settings" where
  "es_settings_of cfg transport =
     (let s = \<lparr>ess_Addresses = esc_Addresses cfg, ess_Username = esc_Username cfg, ess_Password = esc_Password cfg, ess_APIKey = esc_APIKey cfg,
          ess_DisableRetry = False, ess_MaxRetries = 0, ess_RetryOnStatus = [], ess_RetryBackoff = None, ess_Transport = transport\<rparr>
      in if esc_DisableRetry cfg then s\<lparr>ess_DisableRetry := True\<rparr>
         else s\<lparr>ess_MaxRetries := (if esc_MaxRetries cfg \<le> 0 then 3 else esc_MaxRetries cfg), ess_RetryOnStatus := [429, 502, 503, 504],
                ess_RetryBackoff := Some es_RetryBackoff\<rparr>)"

text \<open>The client is the library below with the timeout of each request.\<close>

definition es_New ::
  "os_files \<Rightarrow> (int \<times> int) option \<Rightarrow> ('t es_settings \<Rightarrow> goerr + 's es_lib) \<Rightarrow> 't es_Config \<Rightarrow> 's \<Rightarrow> 's \<times> (goerr + 's es_lib \<times> int)" where
  "es_New F base newClient cfg s =
     (if esc_Addresses cfg = [] then (s, Inl (Opaque ''elastic config: addresses is required''))
      else let timeout = (if esc_Timeout cfg \<le> 0 then 10 * 10 ^ 9 else esc_Timeout cfg)
      in case buildTransport F base cfg of
           Inl e \<Rightarrow> (s, Inl e)
         | Inr transport \<Rightarrow>
             (case newClient (es_settings_of cfg transport) of
                Inl e \<Rightarrow> (s, Inl (Errorf ''elastic.New: '' e []))
              | Inr E \<Rightarrow>
                  (case es_Do E ''GET'' ''/'' None s of
                     (s1, Inl e) \<Rightarrow> (s1, Inl (Errorf ''elastic.New: ping: '' e []))
                   | (s1, Inr _) \<Rightarrow> (s1, Inr (E, timeout)))))"

text \<open>The observing wrapper: what the next transport answers, with the sample for the metrics (method and status) and the line for the log.\<close>

datatype es_log_line = LogWarn string string goerr | LogDebug string string string

definition observed_RoundTrip ::
  "(string \<Rightarrow> string \<Rightarrow> 's \<Rightarrow> 's \<times> (goerr + int \<times> 'p)) \<Rightarrow> bool \<Rightarrow> bool \<Rightarrow> string \<Rightarrow> string \<Rightarrow> 's
   \<Rightarrow> 's \<times> (goerr + int \<times> 'p) \<times> (string \<times> string) list \<times> es_log_line list" where
  "observed_RoundTrip nxt logger metrics method path s =
     (case nxt method path s of
        (s1, res) \<Rightarrow>
          (let status = (case res of Inl _ \<Rightarrow> ''error'' | Inr (code, _) \<Rightarrow> itoa code)
           in (s1, res, if metrics then [(method, status)] else [],
               if \<not> logger then [] else case res of Inl e \<Rightarrow> [LogWarn method path e] | Inr _ \<Rightarrow> [LogDebug method path status])))"

subsection \<open>Redis (client.go, config.go)\<close>

record redis_Config =
  rdc_Addr :: string
  rdc_Password :: string
  rdc_DB :: int
  rdc_PoolSize :: int
  rdc_EnableTracing :: bool

record redis_Options =
  ro_Addr :: string
  ro_Password :: string
  ro_DB :: int
  ro_PoolSize :: int

text \<open>go-redis: clients are numbers; \<open>rds_open\<close> is the ghost view of the clients that are open.\<close>

record 's goredis =
  rds_NewClient :: "redis_Options \<Rightarrow> 's \<Rightarrow> 's \<times> nat"
  rds_InstrumentTracing :: "nat \<Rightarrow> 's \<Rightarrow> 's \<times> goerr option"
  rds_Ping :: "nat \<Rightarrow> int \<Rightarrow> 's \<Rightarrow> 's \<times> goerr option"
  rds_Close :: "nat \<Rightarrow> 's \<Rightarrow> 's \<times> goerr option"
  rds_open :: "'s \<Rightarrow> nat set"

definition redis_NewClient :: "'s goredis \<Rightarrow> redis_Config \<Rightarrow> 's \<Rightarrow> 's \<times> (goerr + nat)" where
  "redis_NewClient G cfg s =
     (case rds_NewClient G \<lparr>ro_Addr = rdc_Addr cfg, ro_Password = rdc_Password cfg, ro_DB = rdc_DB cfg,
              ro_PoolSize = (if rdc_PoolSize cfg > 0 then rdc_PoolSize cfg else 0)\<rparr> s of
        (s1, rdb) \<Rightarrow>
          (case (if rdc_EnableTracing cfg then rds_InstrumentTracing G rdb s1 else (s1, None)) of
             (s2, Some e) \<Rightarrow> (fst (rds_Close G rdb s2), Inl (Errorf ''redis.NewClient: instrument tracing: '' e []))
           | (s2, None) \<Rightarrow>
               (case rds_Ping G rdb (5 * 10 ^ 9) s2 of
                  (s3, Some e) \<Rightarrow> (fst (rds_Close G rdb s3), Inl (Errorf ''redis.NewClient: ping failed: '' e []))
                | (s3, None) \<Rightarrow> (s3, Inr rdb))))"

definition redis_Close :: "'s goredis \<Rightarrow> nat \<Rightarrow> 's \<Rightarrow> 's \<times> goerr option" where
  "redis_Close G rdb = rds_Close G rdb"

subsection \<open>Object store and credentials (storage/s3)\<close>

record s3_Config =
  s3c_Provider :: string
  s3c_Endpoint :: string
  s3c_Region :: string
  s3c_AccessKeyID :: string
  s3c_SecretAccessKey :: string
  s3c_Bucket :: string
  s3c_UseSSL :: bool
  s3c_ForcePathStyle :: bool

text \<open>\<open>load\<close> takes the region and the static credentials; \<open>mk\<close> builds the SDK client from the configuration, the base endpoint and the path style.\<close>

definition s3_NewClient ::
  "(string \<Rightarrow> string \<times> string \<times> string \<Rightarrow> goerr + 'c) \<Rightarrow> ('c \<Rightarrow> string option \<Rightarrow> bool \<Rightarrow> 'api) \<Rightarrow> s3_Config \<Rightarrow> goerr + 'api \<times> string" where
  "s3_NewClient load mk cfg =
     (if s3c_Bucket cfg = [] then Inl (Opaque ''s3.NewClient: bucket is required'')
      else case load (s3c_Region cfg) (s3c_AccessKeyID cfg, s3c_SecretAccessKey cfg, []) of
        Inl e \<Rightarrow> Inl (Errorf ''s3.NewClient: load config: '' e [])
      | Inr c \<Rightarrow>
          (let endpoint = normalizeEndpoint (s3c_Endpoint cfg) (s3c_UseSSL cfg)
           in Inr (mk c (if endpoint \<noteq> [] then Some endpoint else None) (s3c_ForcePathStyle cfg), s3c_Bucket cfg)))"

record sts_Config =
  stc_Region :: string
  stc_Endpoint :: string
  stc_AccessKeyID :: string
  stc_SecretAccessKey :: string

definition NewVendor ::
  "(string \<Rightarrow> string \<times> string \<times> string \<Rightarrow> goerr + 'c) \<Rightarrow> ('c \<Rightarrow> string option \<Rightarrow> 'api) \<Rightarrow> sts_Config \<Rightarrow> goerr + 'api" where
  "NewVendor load mk cfg =
     (case load (stc_Region cfg) (stc_AccessKeyID cfg, stc_SecretAccessKey cfg, []) of
        Inl e \<Rightarrow> Inl (Errorf ''sts.NewVendor: load config: '' e [])
      | Inr c \<Rightarrow> Inr (mk c (if stc_Endpoint cfg \<noteq> [] then Some (stc_Endpoint cfg) else None)))"

subsection \<open>Tracing (observability)\<close>

record obs_Config =
  ob_ServiceName :: string
  ob_Endpoint :: string

text \<open>The OpenTelemetry SDK: exporters are numbers. \<open>ot_install\<close> makes a provider over an exporter and sets it and the propagator globally. \<open>ot_exporters\<close> is the
  ghost view of the exporters created and not shut down.\<close>

record 's otel =
  ot_env :: "'s \<Rightarrow> string"
  ot_NewExporter :: "string \<Rightarrow> 's \<Rightarrow> 's \<times> (goerr + nat)"
  ot_NewResource :: "string \<Rightarrow> 's \<Rightarrow> 's \<times> goerr option"
  ot_install :: "nat \<Rightarrow> string \<Rightarrow> 's \<Rightarrow> 's"
  ot_exporters :: "'s \<Rightarrow> nat set"

datatype shutdown = ShutdownNoop | ShutdownExporter nat

text \<open>The body of the once: the first call.\<close>

definition obs_setup :: "'s otel \<Rightarrow> obs_Config \<Rightarrow> 's \<Rightarrow> 's \<times> shutdown \<times> goerr option" where
  "obs_setup T cfg s =
     (let endpoint = (if ob_Endpoint cfg = [] then ot_env T s else ob_Endpoint cfg)
      in if endpoint = [] then (s, ShutdownNoop, None)
         else case ot_NewExporter T endpoint s of
           (s1, Inl e) \<Rightarrow> (s1, ShutdownNoop, Some (Errorf ''observability.Init: create OTLP exporter: '' e []))
         | (s1, Inr exporter) \<Rightarrow>
             (case ot_NewResource T (ob_ServiceName cfg) s1 of
                (s2, Some e) \<Rightarrow> (s2, ShutdownNoop, Some (Errorf ''observability.Init: build resource: '' e []))
              | (s2, None) \<Rightarrow> (ot_install T exporter (ob_ServiceName cfg) s2, ShutdownExporter exporter, None)))"

text \<open>\<open>initOnce\<close> is the state of the package: whether a call has been made.\<close>

definition obs_Init :: "'s otel \<Rightarrow> obs_Config \<Rightarrow> bool \<times> 's \<Rightarrow> (bool \<times> 's) \<times> shutdown \<times> goerr option" where
  "obs_Init T cfg st =
     (case st of (initOnce, s) \<Rightarrow>
        if initOnce then ((True, s), ShutdownNoop, None)
        else (case obs_setup T cfg s of (s1, r) \<Rightarrow> ((True, s1), r)))"

subsection \<open>Metrics (metrics.go)\<close>

text \<open>The counter and the samples of the histogram, by code and method.\<close>

record RequestMetrics =
  rm_requests :: "string \<times> string \<Rightarrow> nat"
  rm_duration :: "string \<times> string \<Rightarrow> int list"

definition NewRequestMetrics :: RequestMetrics where
  "NewRequestMetrics = \<lparr>rm_requests = (\<lambda>_. 0), rm_duration = (\<lambda>_. [])\<rparr>"

definition RecordRequest :: "string \<Rightarrow> int \<Rightarrow> int \<Rightarrow> RequestMetrics \<Rightarrow> RequestMetrics" where
  "RecordRequest method statusCode duration rm =
     (let k = (itoa statusCode, method)
      in rm\<lparr>rm_requests := (rm_requests rm)(k := rm_requests rm k + 1), rm_duration := (rm_duration rm)(k := rm_duration rm k @ [duration])\<rparr>)"

subsection \<open>OpenAPI documents (loader.go, swagger.go)\<close>

text \<open>Parsing and checking a document is kin-openapi's work; a loader is its document.\<close>

record 'doc openapi_lib =
  LoadFromData :: "string \<Rightarrow> goerr + 'doc"
  doc_Validate :: "'doc \<Rightarrow> goerr option"
  doc_Encode :: "'doc \<Rightarrow> string option"

definition NewLoaderFromBytes :: "'doc openapi_lib \<Rightarrow> string \<Rightarrow> goerr + 'doc" where
  "NewLoaderFromBytes L data =
     (case LoadFromData L data of
        Inl e \<Rightarrow> Inl (Errorf ''parsing OpenAPI spec: '' e [])
      | Inr doc \<Rightarrow> (case doc_Validate L doc of Some e \<Rightarrow> Inl (Errorf ''validating OpenAPI spec: '' e []) | None \<Rightarrow> Inr doc))"

definition NewLoader :: "os_files \<Rightarrow> 'doc openapi_lib \<Rightarrow> string \<Rightarrow> goerr + 'doc" where
  "NewLoader F L specPath =
     (case ReadFile F specPath of
        Inl e \<Rightarrow> Inl (Errorf (''reading OpenAPI spec file '' @ go_quote specPath @ '': '') e [])
      | Inr data \<Rightarrow> NewLoaderFromBytes L data)"

definition sq :: "string \<Rightarrow> string" where "sq s = [CHR 0x27] @ s @ [CHR 0x27]"

definition swaggerUIHTML :: string where
  "swaggerUIHTML = strings_Join
     [''<!DOCTYPE html>'',
      dq ''<html lang='' ''en'' @ ''>'',
      ''<head>'',
      dq ''  <meta charset='' ''UTF-8'' @ ''>'',
      dq ''  <meta name='' ''viewport'' @ dq '' content='' ''width=device-width, initial-scale=1.0'' @ ''>'',
      ''  <title>API Documentation</title>'',
      dq ''  <link rel='' ''stylesheet'' @ dq '' href='' ''https://unpkg.com/swagger-ui-dist@5/swagger-ui.css'' @ ''>'',
      ''</head>'',
      ''<body>'',
      dq ''  <div id='' ''swagger-ui'' @ ''></div>'',
      dq ''  <script src='' ''https://unpkg.com/swagger-ui-dist@5/swagger-ui-bundle.js'' @ ''></script>'',
      ''  <script>'',
      ''    SwaggerUIBundle({'',
      ''      url: window.location.pathname.replace(/'' @ [CHR 0x5C] @ ''/?$/, '' @ sq [] @ '') + '' @ sq ''/openapi.json'' @ '','',
      ''      dom_id: '' @ sq ''#swagger-ui'' @ '','',
      ''      presets: [SwaggerUIBundle.presets.apis, SwaggerUIBundle.SwaggerUIStandalonePreset],'',
      ''      layout: '' @ sq ''BaseLayout'' @ '','',
      ''      deepLinking: true,'',
      ''    });'',
      ''  </script>'',
      ''</body>'',
      ''</html>''] [CHR 0x0A]"

text \<open>The handlers that are registered for GET, by path.\<close>

definition spec_handler :: "'doc openapi_lib \<Rightarrow> (DxErrorResponse \<Rightarrow> string) \<Rightarrow> 'doc \<Rightarrow> 's hhandler" where
  "spec_handler L encode doc r s =
     (s, HSet ''Content-Type'' ''application/json'' #
         (case doc_Encode L doc of Some body \<Rightarrow> [WBytes body] | None \<Rightarrow> error_actions encode (NewInternal ''failed to encode spec'' [])), Finished)"

definition ui_handler :: "'s hhandler" where
  "ui_handler r s = (s, [HSet ''Content-Type'' ''text/html; charset=utf-8'', WBytes swaggerUIHTML], Finished)"

definition ServeUI :: "'doc openapi_lib \<Rightarrow> (DxErrorResponse \<Rightarrow> string) \<Rightarrow> 'doc \<Rightarrow> openapi_Config \<Rightarrow> (string \<times> 's hhandler) list" where
  "ServeUI L encode doc cfg =
     (let base = (if oc_SwaggerUIPath cfg = [] then ''/docs'' else oc_SwaggerUIPath cfg)
      in (base @ ''/openapi.json'', spec_handler L encode doc) #
         (if \<not> oc_SwaggerUIEnabled cfg then [] else [(base, ui_handler), (base @ ''/'', ui_handler)]))"

subsection \<open>Configuration (loader.go, service.go)\<close>

text \<open>The configuration library, as its operations on a value; \<open>vp_EnvReplaceDot\<close> is the key replacer that turns dots into underscores.\<close>

record ('v, 't) viper =
  vp_New :: 'v
  vp_SetConfigName :: "string \<Rightarrow> 'v \<Rightarrow> 'v"
  vp_SetConfigType :: "string \<Rightarrow> 'v \<Rightarrow> 'v"
  vp_AddConfigPath :: "string \<Rightarrow> 'v \<Rightarrow> 'v"
  vp_SetConfigFile :: "string \<Rightarrow> 'v \<Rightarrow> 'v"
  vp_SetDefault :: "string \<Rightarrow> anyv \<Rightarrow> 'v \<Rightarrow> 'v"
  vp_SetEnvPrefix :: "string \<Rightarrow> 'v \<Rightarrow> 'v"
  vp_EnvReplaceDot :: "'v \<Rightarrow> 'v"
  vp_AutomaticEnv :: "'v \<Rightarrow> 'v"
  vp_ReadInConfig :: "'v \<Rightarrow> 'v \<times> goerr option"
  vp_Unmarshal :: "'v \<Rightarrow> goerr + 't"

record ServiceOptions =
  so_ConfigName :: string
  so_ConfigType :: string
  so_Paths :: "string list"
  so_Defaults :: "(string \<times> anyv) list"
  so_EnvPrefix :: string

definition service_viper :: "('v, 't) viper \<Rightarrow> ServiceOptions \<Rightarrow> 'v" where
  "service_viper V opts =
     (let name = (if so_ConfigName opts = [] then ''config'' else so_ConfigName opts);
          typ = (if so_ConfigType opts = [] then ''yaml'' else so_ConfigType opts);
          paths = (if so_Paths opts = [] then [''.'', ''./configs'', ''/app/configs''] else so_Paths opts);
          v1 = vp_SetConfigType V typ (vp_SetConfigName V name (vp_New V));
          v2 = fold (vp_AddConfigPath V) paths v1;
          v3 = fold (\<lambda>(key, val). vp_SetDefault V key val) (so_Defaults opts) v2;
          v4 = (if so_EnvPrefix opts \<noteq> [] then vp_SetEnvPrefix V (so_EnvPrefix opts) v3 else v3)
      in vp_AutomaticEnv V (vp_EnvReplaceDot V v4))"

definition LoadService :: "('v, 't) viper \<Rightarrow> ServiceOptions \<Rightarrow> goerr + 't" where
  "LoadService V opts =
     (case vp_ReadInConfig V (service_viper V opts) of
        (v, _) \<Rightarrow>
          (case vp_Unmarshal V v of
             Inl e \<Rightarrow> Inl (Errorf ''config.LoadService: unmarshal: '' e [])
           | Inr cfg \<Rightarrow> Inr cfg))"

definition LoadInto :: "('v, 't) viper \<Rightarrow> string \<Rightarrow> goerr + 't" where
  "LoadInto V filePath =
     (let v0 = vp_AutomaticEnv V (vp_EnvReplaceDot V (vp_SetEnvPrefix V ''DX'' (vp_New V)));
          fin = (\<lambda>v. case vp_Unmarshal V v of Inl e \<Rightarrow> Inl (Errorf ''config.LoadInto: unmarshal: '' e []) | Inr cfg \<Rightarrow> Inr cfg)
      in if filePath = [] then fin v0
         else case vp_ReadInConfig V (vp_SetConfigFile V filePath v0) of
                (v1, Some e) \<Rightarrow> Inl (Errorf (''config.LoadInto: reading '' @ go_quote filePath @ '': '') e [])
              | (v1, None) \<Rightarrow> fin v1)"

subsection \<open>Trace contexts in messages (messaging/rabbitmq/otel.go)\<close>

type_synonym amqp_table = "(string \<times> anyv) list"

definition carrier_Get :: "amqp_table \<Rightarrow> string \<Rightarrow> string" where
  "carrier_Get c key = (case map_of c key of Some (VStr s) \<Rightarrow> s | _ \<Rightarrow> [])"

definition carrier_Set :: "string \<Rightarrow> string \<Rightarrow> amqp_table \<Rightarrow> amqp_table" where
  "carrier_Set key val c = map_put key (VStr val) c"

definition carrier_Keys :: "amqp_table \<Rightarrow> string list" where
  "carrier_Keys c = map fst c"

text \<open>A propagator sets some fields of the context through the carrier and reads them back through it.\<close>

record 'ctx propagator =
  pr_fields :: "'ctx \<Rightarrow> (string \<times> string) list"
  pr_Extract :: "'ctx \<Rightarrow> (string \<Rightarrow> string) \<Rightarrow> 'ctx"

definition injectTraceContext :: "'ctx propagator \<Rightarrow> 'ctx \<Rightarrow> amqp_table \<Rightarrow> amqp_table" where
  "injectTraceContext P ctx headers = fold (\<lambda>(k, v). carrier_Set k v) (pr_fields P ctx) headers"

datatype span_kind = SpanKindProducer | SpanKindConsumer

datatype span_attr = SystemRabbitmq | OperationPublish | OperationReceive | DestinationName string | DestinationRoutingKey string | MessageID string

type_synonym ('ctx, 'sp) tracer = "'ctx \<Rightarrow> string \<Rightarrow> span_kind \<Rightarrow> span_attr list \<Rightarrow> 'ctx \<times> 'sp"

definition startProducerSpan :: "('ctx, 'sp) tracer \<Rightarrow> 'ctx \<Rightarrow> string \<Rightarrow> string \<Rightarrow> 'ctx \<times> 'sp" where
  "startProducerSpan start ctx exchange routingKey =
     start ctx (''rabbitmq.publish '' @ routingKey) SpanKindProducer
       [SystemRabbitmq, OperationPublish, DestinationName exchange, DestinationRoutingKey routingKey]"

definition startConsumerSpan ::
  "'ctx propagator \<Rightarrow> ('ctx, 'sp) tracer \<Rightarrow> 'ctx \<Rightarrow> amqp_table \<Rightarrow> string \<Rightarrow> string \<Rightarrow> string \<Rightarrow> 'ctx \<times> 'sp" where
  "startConsumerSpan P start ctx headers exchange routingKey messageId =
     start (pr_Extract P ctx (carrier_Get headers)) (''rabbitmq.process '' @ routingKey) SpanKindConsumer
       ([SystemRabbitmq, OperationReceive, DestinationName exchange, DestinationRoutingKey routingKey]
        @ (if messageId \<noteq> [] then [MessageID messageId] else []))"

text \<open>A span collects its recorded errors; the status is unset or an error with its text.\<close>

record span_state =
  sp_errors :: "goerr list"
  sp_status :: "string option"

definition recordSpanError :: "goerr option \<Rightarrow> span_state \<Rightarrow> span_state" where
  "recordSpanError err sp = (case err of None \<Rightarrow> sp | Some e \<Rightarrow> sp\<lparr>sp_errors := sp_errors sp @ [e], sp_status := Some (ErrorText e)\<rparr>)"

subsection \<open>TLS is as configured\<close>

lemma with_roots_Inr:
  "with_roots F unread invalid path t = Inr t' \<longleftrightarrow>
     (if path = [] then t' = t else \<exists>pem. ReadFile F path = Inr pem \<and> pem_ok F pem \<and> t' = t\<lparr>tls_RootCAs := Some pem\<rparr>)"
  by (auto simp: with_roots_def split: sum.splits)

lemma map_sum_Inr: "map_sum (\<lambda>e. e) f x = Inr y \<longleftrightarrow> (\<exists>z. x = Inr z \<and> y = f z)"
  by (cases x) auto

text \<open>
  A channel configured with TLS is never opened without it: the one transport credential among the options is TLS 1.2 or later with verification, for the
  configured name and with exactly the configured roots; an unreadable or invalid file is an error. Raw options of the caller come last and are not inspected.
\<close>

theorem dial_tls:
  assumes "Dial F newClient cfg opts = Inr conn" and "gd_TLS cfg"
  shows "\<exists>dopts t. newClient (gd_Target cfg) dopts = Inr conn \<and>
    (\<forall>c. WithTransportCredentials c \<in> set dopts \<longleftrightarrow> c = NewTLS t) \<and>
    \<not> tls_InsecureSkipVerify t \<and> tls_MinVersion t = 0x0303 \<and> tls_ServerName t = gd_ServerNameOverride cfg \<and>
    (if gd_CACertPath cfg = [] then tls_RootCAs t = None
     else \<exists>pem. ReadFile F (gd_CACertPath cfg) = Inr pem \<and> pem_ok F pem \<and> tls_RootCAs t = Some pem)"
proof -
  let ?dc = "fold (\<lambda>opt c. opt c) opts \<lparr>dc_tracing = True, dc_resilient = True, dc_resilienceOpts = [], dc_unary = [], dc_extra = []\<rparr>"
  obtain creds where c: "transportCredentials F cfg = Inr creds" "newClient (gd_Target cfg) (dial_options creds cfg ?dc) = Inr conn"
    using assms(1) by (auto simp: Dial_def Let_def split: if_splits sum.splits)
  obtain t where t: "creds = NewTLS t" and w: "with_roots F ''grpc client: read ca_cert_path: '' ''grpc client: ca_cert_path has no valid PEM certificates''
      (gd_CACertPath cfg) \<lparr>tls_ServerName = gd_ServerNameOverride cfg, tls_MinVersion = 0x0303, tls_RootCAs = None, tls_InsecureSkipVerify = False\<rparr> = Inr t"
    using c(1) assms(2) by (auto simp: transportCredentials_def map_sum_Inr)
  from w have "\<not> tls_InsecureSkipVerify t" "tls_MinVersion t = 0x0303" "tls_ServerName t = gd_ServerNameOverride cfg"
      "if gd_CACertPath cfg = [] then tls_RootCAs t = None
       else \<exists>pem. ReadFile F (gd_CACertPath cfg) = Inr pem \<and> pem_ok F pem \<and> tls_RootCAs t = Some pem"
    by (auto simp: with_roots_Inr split: if_splits)
  moreover have "WithTransportCredentials x \<in> set (dial_options creds cfg ?dc) \<longleftrightarrow> x = NewTLS t" for x
    using t by (auto simp: dial_options_def Let_def)
  ultimately show ?thesis using c(2) by blast
qed

text \<open>Unless it is turned off, the resilience interceptor comes first and sees the options given, so interceptors of the application run once for every attempt.\<close>

lemma dial_resilience_first:
  assumes "dc_resilient dc"
  shows "WithChainUnaryInterceptor is \<in> set (dial_options creds cfg dc) \<longleftrightarrow> is = Resilience (dc_resilienceOpts dc) # map Application (dc_unary dc)"
  using assms by (auto simp: dial_options_def Let_def)

text \<open>The TLS configuration at the bottom of a transport, if the package made one.\<close>

fun tls_of :: "'t RoundTripper \<Rightarrow> tls_settings option" where
  "tls_of (Cloned _ _ t) = t"
| "tls_of (Observed rt _ _) = tls_of rt"
| "tls_of (Traced rt) = tls_of rt"
| "tls_of _ = None"

fun bottom :: "'t RoundTripper \<Rightarrow> 't RoundTripper" where
  "bottom (Observed rt _ _) = bottom rt"
| "bottom (Traced rt) = bottom rt"
| "bottom rt = rt"

lemma tls_of_bottom: "tls_of rt = tls_of (bottom rt)"
  by (induction rt rule: bottom.induct) auto

text \<open>
  Of the Elasticsearch transport: verification is off only if the configuration says so and no transport was given, a configured certificate file is the only
  root of trust, and a given transport is used as it is, under the wrappers.
\<close>

lemma cloned_transport_Inr:
  assumes "cloned_transport F base cfg = Inr rt"
  shows "bottom rt = rt" and "tls_of rt = Some t \<Longrightarrow> tls_InsecureSkipVerify t = esc_InsecureSkipVerify cfg \<and>
    (esc_CACertPath cfg \<noteq> [] \<longrightarrow> (\<exists>pem. ReadFile F (esc_CACertPath cfg) = Inr pem \<and> pem_ok F pem \<and> tls_RootCAs t = Some pem))"
  using assms by (auto simp: cloned_transport_def Let_def map_sum_Inr with_roots_Inr split: option.splits if_splits)

lemma buildTransport_bottom:
  assumes "buildTransport F base cfg = Inr (Some rt)"
  shows "bottom rt = (case esc_Transport cfg of Some t \<Rightarrow> Given t
      | None \<Rightarrow> (if esc_CACertPath cfg \<noteq> [] \<or> esc_InsecureSkipVerify cfg \<or> esc_MaxIdleConnsPerHost cfg > 0
                 then projr (cloned_transport F base cfg) else DefaultTransport))
    \<and> (esc_Transport cfg = None \<and> (esc_CACertPath cfg \<noteq> [] \<or> esc_InsecureSkipVerify cfg \<or> esc_MaxIdleConnsPerHost cfg > 0)
       \<longrightarrow> (\<exists>x. cloned_transport F base cfg = Inr x))"
  using assms cloned_transport_Inr(1) [of F base cfg]
  by (auto simp: buildTransport_def or_default_def Let_def map_sum_Inr split: option.splits if_splits sum.splits)

theorem elastic_tls:
  assumes "buildTransport F base cfg = Inr (Some rt)"
  shows "(\<forall>t. tls_of rt = Some t \<longrightarrow> esc_Transport cfg = None \<and> tls_InsecureSkipVerify t = esc_InsecureSkipVerify cfg \<and>
            (esc_CACertPath cfg \<noteq> [] \<longrightarrow> (\<exists>pem. ReadFile F (esc_CACertPath cfg) = Inr pem \<and> pem_ok F pem \<and> tls_RootCAs t = Some pem))) \<and>
    (\<forall>t. esc_Transport cfg = Some t \<longrightarrow> bottom rt = Given t)"
proof (intro conjI allI impI)
  fix t assume t: "tls_of rt = Some t"
  note b = buildTransport_bottom [OF assms]
  from t have tb: "tls_of (bottom rt) = Some t" by (simp add: tls_of_bottom [of rt])
  with b show "esc_Transport cfg = None" by (cases "esc_Transport cfg") auto
  with b tb obtain x where "cloned_transport F base cfg = Inr x" "tls_of x = Some t" by (auto split: if_splits)
  then show "tls_InsecureSkipVerify t = esc_InsecureSkipVerify cfg"
    and "esc_CACertPath cfg \<noteq> [] \<Longrightarrow> \<exists>pem. ReadFile F (esc_CACertPath cfg) = Inr pem \<and> pem_ok F pem \<and> tls_RootCAs t = Some pem"
    using cloned_transport_Inr(2) by blast+
next
  fix t assume "esc_Transport cfg = Some t"
  then show "bottom rt = Given t" using buildTransport_bottom [OF assms] by simp
qed

text \<open>Retries of the library wait 100, 400 and 900 milliseconds by default; the squares do not overflow before attempt 303700.\<close>

lemma es_backoff_quadratic:
  assumes "0 \<le> a" and "a \<le> 303700"
  shows "es_RetryBackoff a = a * a * 100 * 1000000"
proof -
  have "a * a \<le> 303700 * 303700" using assms by (intro mult_mono) auto
  moreover obtain q where q: "q = a * a" by blast
  moreover have "0 \<le> q" unfolding q by simp
  ultimately have b: "0 \<le> q" "q \<le> 92233690000" by simp_all
  have "int64 q = q" using b by (intro int64_id) (simp add: in_int64_def)
  moreover have "int64 (q * 100) = q * 100" using b by (intro int64_id) (simp add: in_int64_def)
  moreover have "int64 (q * 100 * 1000000) = q * 100 * 1000000" using b by (intro int64_id) (simp add: in_int64_def)
  ultimately show ?thesis unfolding es_RetryBackoff_def q [symmetric] by simp
qed

text \<open>The observing transport changes neither the exchange nor its answer, and counts each request under its status, \<^verbatim>\<open>error\<close> for a failed exchange.\<close>

lemma observed_transparent:
  assumes "observed_RoundTrip nxt logger metrics method path s = (s', res, samples, lines)"
  shows "nxt method path s = (s', res)"
    and "metrics \<Longrightarrow> samples = [(method, case res of Inl _ \<Rightarrow> ''error'' | Inr (code, _) \<Rightarrow> itoa code)]"
    and "length lines = (if logger then 1 else 0)"
  using assms by (auto simp: observed_RoundTrip_def Let_def split: prod.splits sum.splits)

subsection \<open>Clients and tracing start once and leave nothing behind\<close>

text \<open>go-redis: a new client is open, closing it closes it whatever it answers, the other calls open and close nothing.\<close>

definition goredis_ok :: "'s goredis \<Rightarrow> bool" where
  "goredis_ok G \<longleftrightarrow>
     (\<forall>opts s s' c. rds_NewClient G opts s = (s', c) \<longrightarrow> c \<notin> rds_open G s \<and> rds_open G s' = insert c (rds_open G s)) \<and>
     (\<forall>c s. rds_open G (fst (rds_InstrumentTracing G c s)) = rds_open G s) \<and>
     (\<forall>c t s. rds_open G (fst (rds_Ping G c t s)) = rds_open G s) \<and>
     (\<forall>c s. rds_open G (fst (rds_Close G c s)) = rds_open G s - {c})"

lemma goredis_okD:
  assumes "goredis_ok G"
  shows "rds_NewClient G opts s = (s', c) \<Longrightarrow> c \<notin> rds_open G s" and "rds_NewClient G opts s = (s', c) \<Longrightarrow> rds_open G s' = insert c (rds_open G s)"
    and "rds_open G (fst (rds_InstrumentTracing G c s)) = rds_open G s" and "rds_open G (fst (rds_Ping G c t s)) = rds_open G s"
    and "rds_open G (fst (rds_Close G c s)) = rds_open G s - {c}"
  using assms unfolding goredis_ok_def by simp_all

theorem redis_client_leaks_nothing:
  assumes "goredis_ok G" and "redis_NewClient G cfg s = (s', r)"
  shows "rds_open G s' = (case r of Inl _ \<Rightarrow> rds_open G s | Inr c \<Rightarrow> insert c (rds_open G s))"
proof -
  obtain s1 c where n: "rds_NewClient G \<lparr>ro_Addr = rdc_Addr cfg, ro_Password = rdc_Password cfg, ro_DB = rdc_DB cfg,
              ro_PoolSize = (if rdc_PoolSize cfg > 0 then rdc_PoolSize cfg else 0)\<rparr> s = (s1, c)" by fastforce
  obtain s2 x where i: "(if rdc_EnableTracing cfg then rds_InstrumentTracing G c s1 else (s1, None)) = (s2, x)" by fastforce
  obtain s3 y where p: "rds_Ping G c (5 * 10 ^ 9) s2 = (s3, y)" by fastforce
  have o1: "c \<notin> rds_open G s" "rds_open G s1 = insert c (rds_open G s)" using goredis_okD(1,2) [OF assms(1) n] .
  have o2: "rds_open G s2 = rds_open G s1" using i goredis_okD(3) [OF assms(1), of c s1] by (auto split: if_splits)
  have o3: "rds_open G s3 = rds_open G s2" using p goredis_okD(4) [OF assms(1), of c "5 * 10 ^ 9" s2] by simp
  have cl: "rds_open G (fst (rds_Close G c z)) = rds_open G z - {c}" for z using goredis_okD(5) [OF assms(1)] .
  have run: "(s', r) = (case x of
        Some e \<Rightarrow> (fst (rds_Close G c s2), Inl (Errorf ''redis.NewClient: instrument tracing: '' e []))
      | None \<Rightarrow> (case y of Some e \<Rightarrow> (fst (rds_Close G c s3), Inl (Errorf ''redis.NewClient: ping failed: '' e [])) | None \<Rightarrow> (s3, Inr c)))"
    using assms(2) [symmetric] unfolding redis_NewClient_def n prod.case i by (cases x; cases y) (simp_all add: p [simplified])
  show ?thesis using run o1 o2 o3 by (auto simp: cl split: option.splits)
qed

text \<open>Tracing is set up by the first call only: every later call changes nothing, reports success and gets a shutdown that does nothing.\<close>

theorem tracing_initialised_once:
  assumes "obs_Init T cfg st = (st', r)"
  shows "fst st' \<and> (fst st \<longrightarrow> st' = st \<and> r = (ShutdownNoop, None)) \<and> obs_Init T cfg' st' = (st', ShutdownNoop, None)"
  using assms by (cases st) (auto simp: obs_Init_def split: if_splits prod.splits)

text \<open>Without an endpoint, in the configuration or the environment, nothing happens.\<close>

lemma tracing_off: "ob_Endpoint cfg = [] \<Longrightarrow> ot_env T s = [] \<Longrightarrow> obs_Init T cfg (False, s) = ((True, s), ShutdownNoop, None)"
  by (simp add: obs_Init_def obs_setup_def)

text \<open>If the resource cannot be built, the exporter that was made before stays behind: the caller gets an error and a shutdown that does not close it.\<close>

lemma tracing_exporter_left:
  assumes "ob_Endpoint cfg = e" and "e \<noteq> []" and "ot_NewExporter T e s = (s1, Inr x)" and "ot_NewResource T (ob_ServiceName cfg) s1 = (s2, Some err)"
  shows "\<exists>er. obs_Init T cfg (False, s) = ((True, s2), ShutdownNoop, Some er)"
  using assms by (simp add: obs_Init_def obs_setup_def)

subsection \<open>Metrics, documents, configuration\<close>

text \<open>A counter holds the number of requests recorded under its labels, and the histogram their durations in order.\<close>

lemma requests_counted:
  "rm_requests (fold (\<lambda>(m, c, d). RecordRequest m c d) xs rm) k = rm_requests rm k + length (filter (\<lambda>(m, c, d). (itoa c, m) = k) xs) \<and>
   rm_duration (fold (\<lambda>(m, c, d). RecordRequest m c d) xs rm) k =
     rm_duration rm k @ map (\<lambda>(m, c, d). d) (filter (\<lambda>(m, c, d). (itoa c, m) = k) xs)"
  by (induction xs arbitrary: rm) (auto simp: RecordRequest_def Let_def)

lemma served_document_valid:
  assumes "NewLoader F L path = Inr doc"
  shows "doc_Validate L doc = None \<and> (\<exists>data. ReadFile F path = Inr data \<and> LoadFromData L data = Inr doc)"
  using assms by (auto simp: NewLoader_def NewLoaderFromBytes_def split: sum.splits option.splits)

lemma spec_always_served:
  "map fst (ServeUI L encode doc cfg) =
     (let base = if oc_SwaggerUIPath cfg = [] then ''/docs'' else oc_SwaggerUIPath cfg
      in (base @ ''/openapi.json'') # (if oc_SwaggerUIEnabled cfg then [base, base @ ''/''] else []))"
  by (simp add: ServeUI_def Let_def)

text \<open>A document that cannot be encoded is answered with 500: nothing was written before.\<close>

lemma spec_encode_failure:
  assumes "doc_Encode L doc = None"
  shows "\<exists>acts. spec_handler L encode doc r s = (s, acts, Finished) \<and> fst (client_sees acts) = 500"
  using assms
  by (simp add: spec_handler_def error_actions_def client_sees_def perform_all_def fresh_response_def send_header_def send_bytes_def body_allowed_def
      NewInternal_def HTTPStatus_def httpStatusMap_def code_defs Let_def)

text \<open>\<^verbatim>\<open>LoadService\<close> cannot tell a missing file from one that does not parse: the error of reading never shows.\<close>

lemma load_service_ignores_read_errors:
  assumes "vp_ReadInConfig V (service_viper V opts) = (v, err)"
  shows "LoadService V opts = (case vp_Unmarshal V v of Inl e \<Rightarrow> Inl (Errorf ''config.LoadService: unmarshal: '' e []) | Inr cfg \<Rightarrow> Inr cfg)"
  using assms by (simp add: LoadService_def)

subsection \<open>A trace context travels with its message\<close>

lemma carrier_Get_Set: "carrier_Get (carrier_Set k v c) k' = (if k' = k then v else carrier_Get c k')"
  by (simp add: carrier_Get_def carrier_Set_def)

lemma carrier_Get_fold:
  "distinct (map fst fs) \<Longrightarrow> carrier_Get (fold (\<lambda>(k, v). carrier_Set k v) fs c) k = (case map_of fs k of Some v \<Rightarrow> v | None \<Rightarrow> carrier_Get c k)"
  by (induction fs arbitrary: c) (auto simp: carrier_Get_Set map_of_eq_None_iff image_iff split: option.splits dest: map_of_SomeD)

theorem trace_context_travels:
  assumes "distinct (map fst (pr_fields P ctx))"
  shows "startConsumerSpan P start base (injectTraceContext P ctx headers) exchange routingKey messageId =
    start (pr_Extract P base (\<lambda>k. case map_of (pr_fields P ctx) k of Some v \<Rightarrow> v | None \<Rightarrow> carrier_Get headers k))
      (''rabbitmq.process '' @ routingKey) SpanKindConsumer
      ([SystemRabbitmq, OperationReceive, DestinationName exchange, DestinationRoutingKey routingKey]
        @ (if messageId \<noteq> [] then [MessageID messageId] else []))"
  using assms by (simp add: startConsumerSpan_def injectTraceContext_def carrier_Get_fold [OF assms, abs_def])

end
