(* ===== verification/Spec2Isabelle.thy ===== *)
theory Spec2Isabelle
  imports Prelude DxErrors CircuitBreaker Float64 Retry HttpClient SqlQuery Pagination Request Transaction
    Consumer Outbox Cache Redis Scheduler Encoding Identity SubjectHeaders Auth AppId Envelope Trust Dao Repository Publisher Topology Delivery
    Validation Health HttpMiddleware RequestLimits Response Json EsQuery EsClient EsIndices EsIndexing EsMapping
    ObjectStore Auditing Edge PgClient Scaffold Wiring
begin

text \<open>
  Verification of dx-common-go, the Go library shared by the services of a data exchange platform.

  \<^bold>\<open>How the parts fit together.\<close> A request enters a service through the middleware of \<^verbatim>\<open>middleware\<close> (request id, recovery,
  timeout, limits, compression), is validated against an OpenAPI document (\<^verbatim>\<open>openapi\<close>) and gets an identity: from headers a gateway
  signed (\<^verbatim>\<open>transport/headers\<close>), from a bearer token (\<^verbatim>\<open>auth/jwt\<close>) or from application credentials (\<^verbatim>\<open>auth/appid\<close>), chosen by
  \<^verbatim>\<open>auth/resolver\<close> and checked by \<^verbatim>\<open>auth/authorization\<close> or the service behind \<^verbatim>\<open>auth/fga\<close>; peers authenticate by certificates
  (\<^verbatim>\<open>trust\<close>, \<^verbatim>\<open>mtls\<close>) and sealed tokens (\<^verbatim>\<open>crypto/envelope\<close>). The handler parses a list request (\<^verbatim>\<open>request\<close>) or a body
  (\<^verbatim>\<open>validation\<close>) into filters, order and page; these become conditions and a parameterised statement
  (\<^verbatim>\<open>database/postgres/query\<close>), run by a data access object (\<^verbatim>\<open>dao\<close>, \<^verbatim>\<open>repository\<close>) on the transaction of its context
  (\<^verbatim>\<open>transaction\<close>), which the retry engine (\<^verbatim>\<open>resilience\<close>) repeats, over a pool that was opened and migrated at the start
  (\<^verbatim>\<open>client\<close>, \<^verbatim>\<open>migrate\<close>). Rows come back as a page (\<^verbatim>\<open>pagination\<close>, \<^verbatim>\<open>model\<close>), the answer is written by \<^verbatim>\<open>response\<close>, a failure is
  translated and written by \<^verbatim>\<open>errors\<close>, and \<^verbatim>\<open>auditing\<close> publishes a record. Documents are kept in Elasticsearch
  (\<^verbatim>\<open>database/elasticsearch\<close>) and in an object store (\<^verbatim>\<open>storage/s3\<close>). Events are written to an outbox table, drained to the broker by
  a dispatcher and a confirming publisher, and consumed by a runner with deduplication (\<^verbatim>\<open>messaging\<close>). Values are cached in memory
  or Redis (\<^verbatim>\<open>cache\<close>, \<^verbatim>\<open>database/redis\<close>), which also gives a lock and a rate limiter; periodic work runs in \<^verbatim>\<open>scheduler\<close>, one replica at
  a time if asked to; \<^verbatim>\<open>health\<close> reports on the dependencies and \<^verbatim>\<open>httpserver\<close> starts and stops the whole. Outgoing calls pass a breaker
  and the retry loop. \<^verbatim>\<open>cmd/dx\<close> is the developer's tool.

  \<^bold>\<open>Theories.\<close> Each opens with a note on its sources; definitions carry the names of the code, with a prefix where packages share
  a name (\<open>redis_NewClient\<close>, \<open>es_New\<close>), and stand in the order of the code.

  Foundations.
  \<^item> \<open>Prelude\<close>: 64-bit integers, decimal printing and parsing, package strings, Go maps. \<open>Float64\<close>: binary64 as exact rationals
    rounded to 53 bits. \<open>Encoding\<close>: hex, base64, URL escapes, durations, with their round trips. \<open>Json\<close>: values and the way
    a struct is filled from them.
  \<^item> \<open>DxErrors\<close> (\<^verbatim>\<open>errors\<close>): error values with unwrap chains, code tables, constructors, responses, mapping of PostgreSQL
    errors. Shown: mapping and response agree on every path, unknown errors leak nothing.

  Resilience.
  \<^item> \<open>CircuitBreaker\<close> (\<^verbatim>\<open>resilience/circuitbreaker.go\<close>): the breaker with its methods, concurrent callers as a step relation
    (\<open>cb_step\<close>). Shown: refinement of a three-state machine, the trip point, the single probe, and the interleaving in which two
    probes overlap. Clients use it through the locale \<open>call_gate\<close>.
  \<^item> \<open>Retry\<close> (\<^verbatim>\<open>backoff.go\<close>, \<^verbatim>\<open>retry.go\<close>, \<^verbatim>\<open>grpc.go\<close>): policy, delays, loop and interceptor. Shown: termination and the ways to
    end, number of calls, bounds of the delay. Locales \<open>attempt_contract\<close> and \<open>attempt_invariant\<close>. \<open>HttpClient\<close>
    (\<^verbatim>\<open>httpclient.go\<close>): every request sent is the original one, every response is returned or drained.

  Identity and trust.
  \<^item> \<open>Identity\<close>, \<open>SubjectHeaders\<close>, \<open>Auth\<close>, \<open>AppId\<close> (\<^verbatim>\<open>auth\<close>, \<^verbatim>\<open>transport/headers\<close>): users, signed headers,
    tokens, roles and scopes, application credentials with their cache, the authorization client. Shown: accepted headers were signed for
    exactly this identity, a protected route runs only for a proved one, a cached identity was confirmed.
  \<^item> \<open>Envelope\<close> (\<^verbatim>\<open>crypto/envelope\<close>), \<open>Trust\<close> (\<^verbatim>\<open>trust\<close>, \<^verbatim>\<open>mtls\<close>): sealed tokens round trip, and a token that opens was sealed by the
    holder of the key unless a signature was forged; full handshakes accept a peer exactly if it chains to current anchors and is not revoked, and a session that is resumed was
    accepted so before.

  Data.
  \<^item> \<open>SqlQuery\<close>, \<open>Pagination\<close>, \<open>Request\<close>: statements refine a token list with the values in order, their text does not depend
    on values; page arithmetic; the strict parser of list requests.
  \<^item> \<open>Transaction\<close>, \<open>Dao\<close>, \<open>Repository\<close>, \<open>PgClient\<close>: atomicity alone, nested and retried; pages are windows of the live
    rows, versioned updates are compare-and-swap, every statement of a unit runs on the ambient transaction (locale \<open>confined\<close>);
    a failed start leaves nothing open.
  \<^item> \<open>EsQuery\<close>, \<open>EsClient\<close>, \<open>EsIndices\<close>, \<open>EsIndexing\<close>, \<open>EsMapping\<close> (\<^verbatim>\<open>database/elasticsearch\<close>): the query language, requests
    and searches, aliases and migration, bulk synchronisation, mappings. Shown: a fluent search selects what its clauses say, no document
    that was searchable is lost by a migration, a synchronisation accounts for every document with an id, automatic mappings are well formed.
  \<^item> \<open>ObjectStore\<close> (\<^verbatim>\<open>storage/s3\<close>): objects, listings, multipart uploads, scoped credentials confined to their prefix.
  \<^item> \<open>Cache\<close>, \<open>Redis\<close>: the cache interface as locales \<open>string_cache\<close> and \<open>reliable_cache\<close>, interpreted by the in-memory cache;
    read-through helpers, mutex, rate limiter.

  Messaging and time.
  \<^item> \<open>Consumer\<close>, \<open>Outbox\<close>, \<open>Publisher\<close>, \<open>Topology\<close>, \<open>Delivery\<close> (\<^verbatim>\<open>messaging\<close>): dispatch with attempt counters and
    deduplication, the outbox with its dispatcher (locale \<open>outbox_store\<close>, interpreted by the PostgreSQL store), the reliable publisher, whose confirmations count
    only on channels it put into confirm mode, the plain client and dead-letter topology, and the whole path of an event to the broker.
  \<^item> \<open>Scheduler\<close>: registration, tick loop, advisory lock. Shown: one replica at a time while sessions live, the loop survives errors and panics.

  The edge.
  \<^item> \<open>Validation\<close>, \<open>Health\<close>, \<open>HttpMiddleware\<close>, \<open>RequestLimits\<close>, \<open>Response\<close>, \<open>Auditing\<close>, \<open>Edge\<close>: handlers are what they do
    to the world and the calls they make on the response writer. Shown: what the client sees through each middleware and the standard
    stacks, isolation of rate limits by account or address, order of audit events, exact checks, probes that report every dependency
    under their shared deadline.
  \<^item> \<open>Scaffold\<close> (\<^verbatim>\<open>cmd/dx\<close>), \<open>Wiring\<close> (construction of the clients, configuration, tracing, metrics): no command overwrites a file,
    a new migration is the last one, TLS is as configured, set-up happens once.
  \<^item> This theory: a finding that needs the retry engine, transactions and repositories together. Properties that span components stand in the
    theory of the component on top: \<open>Repository\<close>, \<open>Delivery\<close>, \<open>Response\<close>, \<open>Auth\<close>.

  \<^bold>\<open>Conventions.\<close> State is passed explicitly; an error is a \<open>goerr\<close>, a fallible result a sum or an option; a panic is a value where
  the source recovers from it or can raise it. Time is an argument (the reading of the clock) or part of the world. Code outside the
  repository (pgx, go-redis, amqp091, go-elasticsearch, the AWS SDK, golang-jwt, golang-migrate, the crypto packages, the file system,
  the transport under the HTTP client, random numbers) is a parameter, usually a record of operations on a world, and what the code relies
  on is a named predicate, for instance \<open>pgx_ok\<close>, \<open>amqp_ok\<close>, \<open>setnx_ok\<close>, \<open>pool_ok\<close>, \<open>crypto_ok\<close>, \<open>parser_ok\<close>,
  \<open>elastic_ok\<close>, \<open>bulk_ok\<close>, \<open>gzip_ok\<close>, \<open>bucket_ok\<close>. Each of those that a property of the development assumes is satisfied by a
  concrete instance in its witness.

  \<^bold>\<open>Loops.\<close> Most loops recurse on their data or terminate by a measure. \<open>drain\<close> of the outbox has no bound of its own and counts
  rounds: its theorems show that more rounds than pending events are enough, which holds for the PostgreSQL store because each full round
  marks at least one row. The synchronisation of an index is a partial function that is shown to return when the source is finite. Loops
  that wait for events (the consumer, the reconnect loop, the scheduler, the worker) run over the list of events they receive.

  \<^bold>\<open>Not modelled.\<close> Generated code, test containers and fixtures and the example service; log lines, spans and histograms inside the
  modelled operations; the exposition of metrics, which is a call of the Prometheus client; flushing of a response before its handler
  returns, and the reader that bounds a request body; the goroutines of \<open>Start\<close> in the scheduler and of \<open>Run\<close> in the outbox dispatcher,
  whose bodies are modelled. Goroutine scheduling is modelled where a property depends on it (breaker, replicas, lock holders, audit
  worker); operations are otherwise sequential.
\<close>

section \<open>Retrying units of repository calls\<close>

lemma retryTx_quiet:
  assumes "ctxErr E s = None" and "body s = (s', Some e)" and "quiet e"
  shows "retryTx E label rc body s = (s', RetErr (Some e))"
proof -
  have "1 \<le> attempts (tx_policy rc)" by (simp add: attempts_def)
  then have "Retry E (tx_policy rc) body [WithRetryable (Some isRetryablePgError)] s = (s', [], RetErr (Some e))"
    using assms by (simp add: quiet_def Retry_def Let_def WithRetryable_def retry_loop.simps [of _ _ _ _ _ 1])
  then show ?thesis using assms(3) by (simp add: quiet_def retryTx_def)
qed

text \<open>
  Finding: a failing repository call is never retried. When a unit of repository calls runs under
  \<^verbatim>\<open>InRetryableTransaction\<close> and one of the calls fails, the transaction is rolled back and the error
  returned after this one attempt, whatever the database reported: the data access object has
  translated a serialization failure or deadlock into an error the retry predicate does not
  recognise. (Only a failing commit is retried.)
\<close>

theorem repository_failures_not_retried:
  assumes "ctxErr E s = None" and "pool_Begin P s = (s1, Inr t)"
    and "run_unit Q scan (ctx\<lparr>cx_tx := Some t\<rparr>) calls s1 = (s2, Some e)" and "tx_Rollback P t s2 = (s3, rb)"
  shows "InRetryableTransaction E P None (\<lambda>tx _. run_unit Q scan (ctx\<lparr>cx_tx := tx\<rparr>) calls) cfg s =
    (s3, RetErr (Some (case rb of None \<Rightarrow> e | Some re \<Rightarrow> rollback_error e re)))"
proof -
  let ?err = "case rb of None \<Rightarrow> e | Some re \<Rightarrow> rollback_error e re"
  have "quiet e" using quiet_unit [of Q scan "ctx\<lparr>cx_tx := Some t\<rparr>" calls s1] assms(3) by (simp add: quiet_opt_def)
  then have q: "quiet ?err" by (simp add: rollback_error_def split: option.splits)
  have "InTransaction P None (\<lambda>tx _. run_unit Q scan (ctx\<lparr>cx_tx := tx\<rparr>) calls) s = (s3, Some ?err)"
    using assms(2-4) by (simp add: InTransaction_outermost WithTransaction_def split: option.splits)
  then show ?thesis
    by (simp add: InRetryableTransaction_def TxFromContext_def retryTx_quiet [where body = "InTransaction P None _", OF assms(1) _ q])
qed

definition conflict_querier :: "memdb querier" where
  "conflict_querier = \<lparr>q_Query = (\<lambda>c sql args s. (s, Inl (PgError ''40001'' [] [] []))),
     q_Exec = (\<lambda>c sql args s. (s, Inl (PgError ''40001'' [] [] []))), q_CopyFrom = None\<rparr>"

theorem repository_failures_not_retried_witness:
  "InRetryableTransaction mem_env mem_pgx None (\<lambda>tx _. run_unit conflict_querier demo_scan (\<lparr>cx_tx = None, cx_actor = None\<rparr>\<lparr>cx_tx := tx\<rparr>)
     [(\<lparr>r_dao = NewBaseDAO Pool ''item''\<rparr>, CallExec ''UPDATE item'' [])]) [] memdb_start =
   (memdb_start, RetErr (Some (NewDatabase ''serialization failure, please retry'' [])))"
proof -
  let ?b = "\<lparr>r_dao = NewBaseDAO Pool ''item''\<rparr>" and ?s1 = "\<lparr>mem_data = 5, mem_open = [(1, 5)]\<rparr>"
  let ?e = "NewDatabase ''serialization failure, please retry'' []"
  have run: "run_unit conflict_querier demo_scan (\<lparr>cx_tx = None, cx_actor = None\<rparr>\<lparr>cx_tx := Some 1\<rparr>) [(?b, CallExec ''UPDATE item'' [])] ?s1 =
      (?s1, Some ?e)"
    by (simp add: conflict_querier_def repo_defs dao_Exec_def outcome_def MapPgError_def MapPostgresError_def errors_Is_def
        errors_As_PgError_def is_pg_def)
  have db: "ctxErr mem_env memdb_start = None" "pool_Begin mem_pgx memdb_start = (?s1, Inr 1)" "tx_Rollback mem_pgx 1 ?s1 = (memdb_start, None)"
    by (simp_all add: mem_defs mem_env_def)
  show ?thesis
    using repository_failures_not_retried [OF db(1,2) run db(3), of "[]"] unfolding option.case .
qed

end
